(* ===== verification/Prelude.thy ===== *)
theory Prelude
  imports Main "HOL-Library.Word" "HOL-Library.Char_ord" "HOL-Library.List_Lexorder"
    "HOL-Library.Multiset" "HOL-Library.Option_ord" "HOL-Library.Product_Lexorder"
begin

text \<open>
  Shared vocabulary of the development: the Rust types and standard-library
  operations the EverTrace crates are written with, and the generic lemmas the
  component theories rest on.

  \<^item> \<open>Result\<close> is the sum type with \<open>Inl\<close> for \<open>Err\<close>; the \<open>?\<close> operator is
    \<open>and_then\<close>, an early \<open>return Err(..)\<close> is an \<open>if\<close>.
  \<^item> \<open>u8\<close> \<dots> \<open>i128\<close> are words of their width; \<open>usize\<close> is 64 bits wide and a
    length is a \<open>nat\<close>.
  \<^item> \<open>String\<close> is the list of its UTF-8 bytes (\<open>string\<close>), so that \<open>len()\<close> is
    \<open>length\<close>; \<open>str::from_utf8\<close> and \<open>char::is_control\<close> are written out on bytes.
  \<^item> big-endian integers (\<open>to_be_bytes\<close>, \<open>from_be_bytes\<close>) with their round trips.
  \<^item> \<open>BTreeSet\<close> is a strictly sorted duplicate-free list.
\<close>

lemma unat_bound: "unat (w :: 'a::len word) < 2 ^ LENGTH('a)"
  by (rule unsigned_less)

named_theorems result_simps \<open>rewriting of results and early returns\<close>
named_theorems wire_simps \<open>rewriting of byte-level encodings\<close>

type_synonym byte = "8 word"
type_synonym bytes = "byte list"
type_synonym u8 = "8 word"
type_synonym u16 = "16 word"
type_synonym u32 = "32 word"
type_synonym u64 = "64 word"
type_synonym i64 = "64 word"
type_synonym i128 = "128 word"

type_synonym ('e, 'a) result = "'e + 'a"

abbreviation Ok :: "'a \<Rightarrow> ('e, 'a) result" where "Ok \<equiv> Inr"
abbreviation Err :: "'e \<Rightarrow> ('e, 'a) result" where "Err \<equiv> Inl"

section \<open>Results\<close>

fun and_then :: "('e, 'a) result \<Rightarrow> ('a \<Rightarrow> ('e, 'b) result) \<Rightarrow> ('e, 'b) result" where
  "and_then (Inl e) f = Inl e"
| "and_then (Inr x) f = f x"

fun map_err :: "('e \<Rightarrow> 'f) \<Rightarrow> ('e, 'a) result \<Rightarrow> ('f, 'a) result" where
  "map_err g (Inl e) = Inl (g e)"
| "map_err g (Inr x) = Inr x"

fun is_ok :: "('e, 'a) result \<Rightarrow> bool" where
  "is_ok (Inl e) = False"
| "is_ok (Inr x) = True"

text \<open>A loop \<open>for x in xs { check(x)?; }\<close>.\<close>

fun for_each :: "('a \<Rightarrow> ('e, unit) result) \<Rightarrow> 'a list \<Rightarrow> ('e, unit) result" where
  "for_each f [] = Inr ()"
| "for_each f (x # xs) = and_then (f x) (\<lambda>_. for_each f xs)"

definition ok_or :: "'e \<Rightarrow> 'a option \<Rightarrow> ('e, 'a) result" where
  "ok_or e v = (case v of None \<Rightarrow> Inl e | Some x \<Rightarrow> Inr x)"

definition ensure :: "bool \<Rightarrow> 'e \<Rightarrow> ('e, unit) result" where
  "ensure c e = (if c then Inr () else Inl e)"

lemma and_then_Inr_iff [result_simps]:
  "and_then r f = Inr y \<longleftrightarrow> (\<exists>x. r = Inr x \<and> f x = Inr y)"
  by (cases r) auto

lemma and_then_Inl_iff:
  "and_then r f = Inl e \<longleftrightarrow> r = Inl e \<or> (\<exists>x. r = Inr x \<and> f x = Inl e)"
  by (cases r) auto

lemma and_then_unit [result_simps]:
  "(\<exists>x::unit. r = Inr x \<and> P x) \<longleftrightarrow> r = Inr () \<and> P ()"
  by auto

lemma map_err_Inr_iff [result_simps]: "map_err g r = Inr x \<longleftrightarrow> r = Inr x"
  by (cases r) auto

lemma is_ok_iff [result_simps]: "is_ok r \<longleftrightarrow> (\<exists>x. r = Inr x)"
  by (cases r) auto

lemma is_ok_unit: "is_ok (r :: ('e, unit) result) \<longleftrightarrow> r = Inr ()"
  by (cases r) auto

lemma for_each_Inr_iff [result_simps]:
  "for_each f xs = Inr u \<longleftrightarrow> (\<forall>x \<in> set xs. f x = Inr ())"
  by (induction xs) (auto simp: and_then_Inr_iff)

lemma for_each_append [simp]:
  "for_each f (xs @ ys) = and_then (for_each f xs) (\<lambda>_. for_each f ys)"
proof (induction xs)
  case Nil
  show ?case by simp
next
  case (Cons x xs)
  then show ?case by (cases "f x") auto
qed

lemma ensure_Inr_iff [result_simps]: "ensure c e = Inr u \<longleftrightarrow> c"
  by (simp add: ensure_def)

lemma ok_or_Inr_iff [result_simps]: "ok_or e v = Inr x \<longleftrightarrow> v = Some x"
  by (auto simp: ok_or_def split: option.splits)

lemma if_Inl_Inr_iff [result_simps]:
  "(if c then Inl e else r) = Inr y \<longleftrightarrow> \<not> c \<and> r = Inr y"
  by simp

section \<open>Options\<close>

definition is_some_and :: "('a \<Rightarrow> bool) \<Rightarrow> 'a option \<Rightarrow> bool" where
  "is_some_and P v = (case v of None \<Rightarrow> False | Some x \<Rightarrow> P x)"

lemma is_some_and_simps [simp]:
  "\<not> is_some_and P None"
  "is_some_and P (Some x) \<longleftrightarrow> P x"
  by (simp_all add: is_some_and_def)

lemma is_some_and_iff: "is_some_and P v \<longleftrightarrow> (\<exists>x. v = Some x \<and> P x)"
  by (cases v) auto

abbreviation is_some :: "'a option \<Rightarrow> bool" where "is_some v \<equiv> v \<noteq> None"

section \<open>Ordered sets and duplicate checks\<close>

text \<open>
  \<open>values.into_iter().collect::<BTreeSet<_>>()\<close>: the elements in ascending
  order, each once.
\<close>

definition btree_set :: "'a::linorder list \<Rightarrow> 'a list" where
  "btree_set xs = remdups (sort xs)"

lemma set_btree_set [simp]: "set (btree_set xs) = set xs"
  by (simp add: btree_set_def)

lemma distinct_btree_set [simp]: "distinct (btree_set xs)"
  by (simp add: btree_set_def)

lemma sorted_btree_set [simp]: "sorted (btree_set xs)"
  by (simp add: btree_set_def)

lemma length_btree_set_eq_iff [simp]: "length (btree_set xs) = length xs \<longleftrightarrow> distinct xs"
proof -
  have "length (btree_set xs) = card (set xs)"
    using distinct_card [OF distinct_btree_set] by (metis set_btree_set)
  then show ?thesis
    by (metis card_distinct distinct_card)
qed

lemma btree_set_cong: "set xs = set ys \<Longrightarrow> btree_set xs = btree_set ys"
  by (rule sorted_distinct_set_unique) simp_all

lemma btree_set_id: "sorted xs \<Longrightarrow> distinct xs \<Longrightarrow> btree_set xs = xs"
  by (simp add: btree_set_def sorted_sort_id)

text \<open>\<open>slice.windows(2).all(..)\<close> and \<open>.any(..)\<close> over adjacent pairs.\<close>

fun windows_all :: "('a \<Rightarrow> 'a \<Rightarrow> bool) \<Rightarrow> 'a list \<Rightarrow> bool" where
  "windows_all P (x # y # zs) \<longleftrightarrow> P x y \<and> windows_all P (y # zs)"
| "windows_all P _ \<longleftrightarrow> True"

lemma windows_all_sorted_wrt:
  assumes "transp P"
  shows "windows_all P xs \<longleftrightarrow> sorted_wrt P xs"
proof (induction xs rule: induct_list012)
  case (3 x y zs)
  then show ?case using assms
    by (auto elim: transpE)
qed simp_all

lemma windows_all_append_single:
  "windows_all P (xs @ [y]) \<longleftrightarrow> windows_all P xs \<and> (xs \<noteq> [] \<longrightarrow> P (last xs) y)"
  by (induction P xs rule: windows_all.induct) auto

section \<open>Strings\<close>

definition byte_of :: "char \<Rightarrow> byte" where
  "byte_of c = of_nat (of_char c)"

definition char_of_byte :: "byte \<Rightarrow> char" where
  "char_of_byte b = char_of (unat b)"

definition as_bytes :: "string \<Rightarrow> bytes" where
  "as_bytes s = map byte_of s"

lemma unat_byte_of: "unat (byte_of c) = of_char c"
  using nat_of_char_less_256 [of c]
  by (simp add: byte_of_def unat_of_nat)

lemma char_of_byte_of [simp]: "char_of_byte (byte_of c) = c"
  by (simp add: char_of_byte_def unat_byte_of)

lemma byte_of_char_of_byte [simp]: "byte_of (char_of_byte b) = b"
proof -
  have "unat b < 256" using unat_bound [of b] by simp
  then have "of_char (char_of (unat b)) = unat b" by simp
  then show ?thesis by (simp add: byte_of_def char_of_byte_def)
qed

lemma byte_of_inject [simp]: "byte_of c = byte_of d \<longleftrightarrow> c = d"
  by (metis char_of_byte_of)

lemma length_as_bytes [simp]: "length (as_bytes s) = length s"
  by (simp add: as_bytes_def)

lemma as_bytes_inject [simp]: "as_bytes s = as_bytes t \<longleftrightarrow> s = t"
  by (auto simp: as_bytes_def inj_on_def dest: map_injective intro: injI)

lemma as_bytes_Nil [simp]: "as_bytes [] = []"
  by (simp add: as_bytes_def)

lemma map_char_of_byte_as_bytes [simp]: "map char_of_byte (as_bytes s) = s"
  by (simp add: as_bytes_def comp_def)

lemma as_bytes_map_char_of_byte [simp]: "as_bytes (map char_of_byte bs) = bs"
  by (simp add: as_bytes_def comp_def)

text \<open>
  Well-formed UTF-8 as \<open>str::from_utf8\<close> accepts it: no overlong forms, no
  surrogates, nothing beyond U+10FFFF.
\<close>

definition utf8_cont :: "nat \<Rightarrow> bool" where
  "utf8_cont b \<longleftrightarrow> 128 \<le> b \<and> b \<le> 191"

fun utf8_valid :: "nat list \<Rightarrow> bool" where
  "utf8_valid [] = True"
| "utf8_valid (b # bs) =
    (if b < 128 then utf8_valid bs
     else if 194 \<le> b \<and> b \<le> 223 then
       (case bs of c # cs \<Rightarrow> utf8_cont c \<and> utf8_valid cs | [] \<Rightarrow> False)
     else if 224 \<le> b \<and> b \<le> 239 then
       (case bs of c # d # cs \<Rightarrow>
            utf8_cont c \<and> utf8_cont d \<and> (b = 224 \<longrightarrow> 160 \<le> c) \<and> (b = 237 \<longrightarrow> c \<le> 159)
            \<and> utf8_valid cs
        | _ \<Rightarrow> False)
     else if 240 \<le> b \<and> b \<le> 244 then
       (case bs of c # d # e # cs \<Rightarrow>
            utf8_cont c \<and> utf8_cont d \<and> utf8_cont e
            \<and> (b = 240 \<longrightarrow> 144 \<le> c) \<and> (b = 244 \<longrightarrow> c \<le> 143) \<and> utf8_valid cs
        | _ \<Rightarrow> False)
     else False)"

definition from_utf8 :: "bytes \<Rightarrow> string option" where
  "from_utf8 bs = (if utf8_valid (map unat bs) then Some (map char_of_byte bs) else None)"

text \<open>The invariant every Rust \<open>String\<close> value has.\<close>

definition rust_string :: "string \<Rightarrow> bool" where
  "rust_string s \<longleftrightarrow> utf8_valid (map of_char s)"

lemma map_unat_as_bytes [simp]: "map unat (as_bytes s) = map of_char s"
  by (simp add: as_bytes_def unat_byte_of)

lemma from_utf8_as_bytes: "rust_string s \<Longrightarrow> from_utf8 (as_bytes s) = Some s"
  by (simp add: from_utf8_def rust_string_def)

lemma from_utf8_SomeD:
  assumes "from_utf8 bs = Some s"
  shows "as_bytes s = bs" and "rust_string s"
proof -
  from assms have s: "s = map char_of_byte bs" and v: "utf8_valid (map unat bs)"
    by (auto simp: from_utf8_def split: if_splits)
  show "as_bytes s = bs" by (simp add: s)
  then have "map unat bs = map of_char s" using map_unat_as_bytes by metis
  with v show "rust_string s" by (simp only: rust_string_def)
qed

lemma ascii_rust_string: "\<forall>c \<in> set s. of_char c < (128::nat) \<Longrightarrow> rust_string s"
proof -
  have "\<forall>b \<in> set bs. b < 128 \<Longrightarrow> utf8_valid bs" for bs
    by (induction bs) auto
  then show "\<forall>c \<in> set s. of_char c < (128::nat) \<Longrightarrow> rust_string s"
    by (simp add: rust_string_def)
qed

text \<open>
  \<open>value.chars().any(char::is_control)\<close>: the general category \<open>Cc\<close> is
  U+0000\<dots>U+001F and U+007F\<dots>U+009F; the second half of that range is encoded as
  the bytes \<open>0xC2 0x80\<close> \<dots> \<open>0xC2 0x9F\<close>.
\<close>

fun has_control_bytes :: "nat list \<Rightarrow> bool" where
  "has_control_bytes [] = False"
| "has_control_bytes [b] = (b < 32 \<or> b = 127)"
| "has_control_bytes (b # c # cs) =
    (b < 32 \<or> b = 127 \<or> (b = 194 \<and> 128 \<le> c \<and> c \<le> 159) \<or> has_control_bytes (c # cs))"

definition has_control :: "string \<Rightarrow> bool" where
  "has_control s = has_control_bytes (map of_char s)"

text \<open>
  \<open>value.trim().is_empty()\<close>: nothing but characters with the Unicode property
  White\_Space, written out on their UTF-8 encodings.
\<close>

fun blank_bytes :: "nat list \<Rightarrow> bool" where
  "blank_bytes [] = True"
| "blank_bytes (b # bs) =
    (if 9 \<le> b \<and> b \<le> 13 \<or> b = 32 then blank_bytes bs
     else if b = 194 then
       (case bs of c # cs \<Rightarrow> (c = 133 \<or> c = 160) \<and> blank_bytes cs | [] \<Rightarrow> False)
     else if b = 225 \<or> b = 226 \<or> b = 227 then
       (case bs of c # d # cs \<Rightarrow>
          (b = 225 \<and> c = 154 \<and> d = 128
           \<or> b = 226 \<and> c = 128 \<and> (128 \<le> d \<and> d \<le> 138 \<or> d = 168 \<or> d = 169 \<or> d = 175)
           \<or> b = 226 \<and> c = 129 \<and> d = 159
           \<or> b = 227 \<and> c = 128 \<and> d = 128) \<and> blank_bytes cs
        | _ \<Rightarrow> False)
     else False)"

definition blank :: "string \<Rightarrow> bool" where
  "blank s = blank_bytes (map of_char s)"

lemma blank_Nil [simp]: "blank []"
  by (simp add: blank_def)

definition is_ascii_digit :: "char \<Rightarrow> bool" where
  "is_ascii_digit c \<longleftrightarrow> 48 \<le> (of_char c :: nat) \<and> (of_char c :: nat) \<le> 57"

definition is_lower_hex :: "char \<Rightarrow> bool" where
  "is_lower_hex c \<longleftrightarrow> is_ascii_digit c \<or> (97 \<le> (of_char c :: nat) \<and> (of_char c :: nat) \<le> 102)"

lemma is_lower_hex_ascii: "is_lower_hex c \<Longrightarrow> of_char c < (128::nat)"
  by (auto simp: is_lower_hex_def is_ascii_digit_def)

definition is_ascii_control :: "char \<Rightarrow> bool" where
  "is_ascii_control c \<longleftrightarrow> (of_char c :: nat) < 32 \<or> (of_char c :: nat) = 127"

section \<open>Big-endian integers\<close>

fun be_bytes :: "nat \<Rightarrow> nat \<Rightarrow> bytes" where
  "be_bytes 0 n = []"
| "be_bytes (Suc k) n = be_bytes k (n div 256) @ [of_nat n]"

definition be_val :: "bytes \<Rightarrow> nat" where
  "be_val bs = foldl (\<lambda>a b. a * 256 + unat b) 0 bs"

lemma be_val_snoc [simp]: "be_val (bs @ [b]) = be_val bs * 256 + unat b"
  by (simp add: be_val_def)

lemma be_val_Nil [simp]: "be_val [] = 0"
  by (simp add: be_val_def)

lemma length_be_bytes [simp]: "length (be_bytes k n) = k"
  by (induction k arbitrary: n) auto

lemma be_val_be_bytes_mod: "be_val (be_bytes k n) = n mod 256 ^ k"
proof (induction k arbitrary: n)
  case 0
  show ?case by simp
next
  case (Suc k)
  have "be_val (be_bytes (Suc k) n) = n div 256 mod 256 ^ k * 256 + n mod 256"
    using Suc.IH [of "n div 256"] by (simp add: unat_of_nat)
  also have "\<dots> = n mod 256 ^ Suc k"
    using mod_mult2_eq [of n 256 "256 ^ k"] by simp
  finally show ?case .
qed

lemma be_val_be_bytes [wire_simps]: "n < 256 ^ k \<Longrightarrow> be_val (be_bytes k n) = n"
  by (simp add: be_val_be_bytes_mod)

lemma be_bytes_be_val [wire_simps]: "be_bytes (length bs) (be_val bs) = bs"
proof (induction bs rule: rev_induct)
  case Nil
  show ?case by simp
next
  case (snoc b bs)
  have b: "unat b < 256" using unat_bound [of b] by simp
  then have "(be_val bs * 256 + unat b) div 256 = be_val bs" by simp
  moreover have "(of_nat (be_val bs * 256 + unat b) :: byte) = b"
    using b by (simp add: word_unat_eq_iff unat_of_nat del: of_nat_add of_nat_mult)
  ultimately show ?case using snoc by simp
qed

lemma be_val_less: "be_val bs < 256 ^ length bs"
proof (induction bs rule: rev_induct)
  case (snoc b bs)
  have "unat b < 256" using unat_bound [of b] by simp
  with snoc show ?case by simp
qed simp

lemma be_bytes_inject:
  assumes "m < 256 ^ k" and "n < 256 ^ k"
  shows "be_bytes k m = be_bytes k n \<longleftrightarrow> m = n"
  using assms by (metis be_val_be_bytes)

definition u16_to_be :: "u16 \<Rightarrow> bytes" where "u16_to_be w = be_bytes 2 (unat w)"
definition u32_to_be :: "u32 \<Rightarrow> bytes" where "u32_to_be w = be_bytes 4 (unat w)"
definition u64_to_be :: "u64 \<Rightarrow> bytes" where "u64_to_be w = be_bytes 8 (unat w)"
definition i128_to_be :: "i128 \<Rightarrow> bytes" where "i128_to_be w = be_bytes 16 (unat w)"

definition u16_from_be :: "bytes \<Rightarrow> u16" where "u16_from_be bs = of_nat (be_val bs)"
definition u32_from_be :: "bytes \<Rightarrow> u32" where "u32_from_be bs = of_nat (be_val bs)"
definition u64_from_be :: "bytes \<Rightarrow> u64" where "u64_from_be bs = of_nat (be_val bs)"

lemma length_to_be [simp]:
  "length (u16_to_be a) = 2" "length (u32_to_be b) = 4"
  "length (u64_to_be c) = 8" "length (i128_to_be d) = 16"
  by (simp_all add: u16_to_be_def u32_to_be_def u64_to_be_def i128_to_be_def)

lemma unat_u16_less: "unat (w :: u16) < 65536"
  using unat_bound [of w] by simp

lemma unat_u32_less: "unat (w :: u32) < 4294967296"
  using unat_bound [of w] by simp

lemma unat_u64_less: "unat (w :: u64) < 18446744073709551616"
  using unat_bound [of w] by simp

lemma unat_i128_less: "unat (w :: i128) < 256 ^ 16"
  using unat_bound [of w] by simp

lemma u16_round_trip [simp, wire_simps]: "u16_from_be (u16_to_be w) = w"
  using unat_u16_less [of w]
  by (simp add: u16_from_be_def u16_to_be_def be_val_be_bytes_mod)

lemma u32_round_trip [simp, wire_simps]: "u32_from_be (u32_to_be w) = w"
  using unat_u32_less [of w]
  by (simp add: u32_from_be_def u32_to_be_def be_val_be_bytes_mod)

lemma u64_round_trip [simp, wire_simps]: "u64_from_be (u64_to_be w) = w"
  using unat_u64_less [of w]
  by (simp add: u64_from_be_def u64_to_be_def be_val_be_bytes_mod)

lemma i128_to_be_inject [simp]: "i128_to_be v = i128_to_be w \<longleftrightarrow> v = w"
  using unat_i128_less [of v] unat_i128_less [of w]
  by (simp add: i128_to_be_def be_bytes_inject word_unat_eq_iff)

lemma unat_of_be_val:
  assumes "length bs * 8 = LENGTH('a)"
  shows "unat (of_nat (be_val bs) :: 'a::len word) = be_val bs"
proof -
  have "be_val bs < 256 ^ length bs" by (rule be_val_less)
  also have "(256::nat) ^ length bs = 2 ^ LENGTH('a)"
    by (simp flip: assms add: power_mult mult.commute [of _ 8])
  finally show ?thesis by (simp add: unat_of_nat)
qed

lemma u16_to_be_from_be [wire_simps]: "length bs = 2 \<Longrightarrow> u16_to_be (u16_from_be bs) = bs"
  using unat_of_be_val [where 'a = 16, of bs] be_bytes_be_val [of bs]
  by (simp add: u16_to_be_def u16_from_be_def)

lemma u32_to_be_from_be [wire_simps]: "length bs = 4 \<Longrightarrow> u32_to_be (u32_from_be bs) = bs"
  using unat_of_be_val [where 'a = 32, of bs] be_bytes_be_val [of bs]
  by (simp add: u32_to_be_def u32_from_be_def)

lemma u64_to_be_from_be [wire_simps]: "length bs = 8 \<Longrightarrow> u64_to_be (u64_from_be bs) = bs"
  using unat_of_be_val [where 'a = 64, of bs] be_bytes_be_val [of bs]
  by (simp add: u64_to_be_def u64_from_be_def)

section \<open>Checked arithmetic\<close>

definition checked_add :: "'a::len word \<Rightarrow> 'a word \<Rightarrow> 'a word option" where
  "checked_add a b = (if unat a + unat b < 2 ^ LENGTH('a) then Some (a + b) else None)"

definition usize_checked_add :: "nat \<Rightarrow> nat \<Rightarrow> nat option" where
  "usize_checked_add a b = (if a + b < 2 ^ 64 then Some (a + b) else None)"

lemma checked_add_SomeD:
  fixes a b c :: "'a::len word"
  assumes "checked_add a b = Some c"
  shows "unat c = unat a + unat b"
  using assms by (auto simp: checked_add_def unat_word_ariths split: if_splits)

text \<open>
  \<open>saturating_sub\<close> on unsigned words.
\<close>

definition saturating_sub :: "'a::len word \<Rightarrow> 'a word \<Rightarrow> 'a word" where
  "saturating_sub a b = (if b \<le> a then a - b else 0)"

section \<open>Self-delimiting encodings\<close>

text \<open>
  The interface of every field encoder of the wire formats: what an encoder
  writes, its decoder reads back and leaves the rest of the input alone, and
  whatever a decoder accepts was written by the encoder.
\<close>

locale wire_codec =
  fixes enc :: "'a \<Rightarrow> bytes"
    and dec :: "bytes \<Rightarrow> ('e, 'a \<times> bytes) result"
    and valid :: "'a \<Rightarrow> bool"
  assumes dec_enc: "valid x \<Longrightarrow> dec (enc x @ rest) = Inr (x, rest)"
    and dec_sound: "dec bs = Inr (x, rest) \<Longrightarrow> bs = enc x @ rest \<and> valid x"
begin

lemma dec_iff: "dec bs = Inr (x, rest) \<longleftrightarrow> bs = enc x @ rest \<and> valid x"
  using dec_enc dec_sound by blast

lemma prefix_free:
  assumes "valid x" and "valid y" and "enc x @ r = enc y @ s"
  shows "x = y \<and> r = s"
proof -
  have "Inr (x, r) = dec (enc x @ r)" using assms(1) by (simp add: dec_enc)
  also have "\<dots> = Inr (y, s)" using assms(2,3) by (simp add: dec_enc)
  finally show ?thesis by simp
qed

lemma enc_inject: "valid x \<Longrightarrow> valid y \<Longrightarrow> enc x = enc y \<longleftrightarrow> x = y"
  using prefix_free [of x y "[]" "[]"] by auto

lemma concat_prefix_free:
  assumes "\<forall>x \<in> set xs. valid x" and "\<forall>y \<in> set ys. valid y"
    and "length xs = length ys"
    and "concat (map enc xs) @ r = concat (map enc ys) @ s"
  shows "xs = ys \<and> r = s"
  using assms(3,1,2,4)
proof (induction xs ys rule: list_induct2)
  case Nil
  then show ?case by simp
next
  case (Cons x xs y ys)
  then have "x = y" and "concat (map enc xs) @ r = concat (map enc ys) @ s"
    using prefix_free [of x y "concat (map enc xs) @ r" "concat (map enc ys) @ s"] by auto
  with Cons show ?case by simp
qed

end

end
