(* ===== verification/Spool_Frame.thy ===== *)
theory Spool_Frame
  imports Prelude
begin

text \<open>
  The durable spool frame of \<open>evertrace-capture/src/frame.rs\<close>: the bytes the
  capture hook appends for every captured record, and the scanner that reads a
  spool segment back after a crash.

  A frame is magic, version, header length, body length, checksum, header, body
  and a commit trailer. The SHA-256 function is third-party code and is the
  parameter \<open>sha256\<close>; what the format relies on is only that its output has 32
  bytes. \<open>scan_frame\<close> is the body of the \<open>while\<close> loop of \<open>scan_frames\<close>.
\<close>

record spool_record =
  spool_generation :: u64
  spool_record_id :: string
  source_observation_id :: string
  cas_refs :: "string list"
  record_body :: bytes

record decoded_frame =
  df_record :: spool_record
  df_frame_length :: u64

record frame_scan =
  fs_frames :: "decoded_frame list"
  fs_complete_length :: u64
  fs_incomplete_tail :: bool

datatype spool_frame_error =
  SpoolInvalid | SpoolCorrupt | SpoolOversize | SpoolSerialization | SpoolLegacyUnsupported

definition MAGIC :: bytes where "MAGIC = as_bytes ''ETSPL001''"
definition COMMIT_TRAILER :: bytes where "COMMIT_TRAILER = as_bytes ''ETCOMMIT''"
definition SPOOL_FRAME_VERSION :: u16 where "SPOOL_FRAME_VERSION = 1"
definition MAX_RECORD_BODY :: nat where "MAX_RECORD_BODY = 1048576"
definition PREFIX_LENGTH :: nat where "PREFIX_LENGTH = 8 + 2 + 4 + 8 + 32"

definition frame_checksum :: "(bytes \<Rightarrow> bytes) \<Rightarrow> bytes \<Rightarrow> bytes \<Rightarrow> bytes" where
  "frame_checksum sha256 header body =
    sha256 (as_bytes ''evertrace.spool.frame.v1''
      @ be_bytes 8 (length header) @ header @ be_bytes 8 (length body) @ body)"

definition validate_record :: "spool_record \<Rightarrow> (spool_frame_error, unit) result" where
  "validate_record r =
    (if spool_generation r = 0
        \<or> spool_record_id r = []
        \<or> length (spool_record_id r) > 256
        \<or> source_observation_id r = []
        \<or> length (source_observation_id r) > 256
        \<or> length (record_body r) > MAX_RECORD_BODY
        \<or> length (btree_set (cas_refs r)) \<noteq> length (cas_refs r)
        \<or> (\<exists>value \<in> set (cas_refs r). length value \<noteq> 64 \<or> \<not> list_all is_lower_hex value)
     then Err SpoolInvalid else Ok ())"

definition put_string :: "string \<Rightarrow> (spool_frame_error, bytes) result" where
  "put_string value =
    (if length value < 65536 then Ok (be_bytes 2 (length value) @ as_bytes value)
     else Err SpoolOversize)"

definition encode_frame ::
  "(bytes \<Rightarrow> bytes) \<Rightarrow> spool_record \<Rightarrow> (spool_frame_error, bytes) result" where
  "encode_frame sha256 r =
    and_then (validate_record r) (\<lambda>_.
    let payload_length = be_bytes 8 (length (record_body r)) in
    and_then (put_string (spool_record_id r)) (\<lambda>record_id.
    and_then (put_string (source_observation_id r)) (\<lambda>observation_id.
    if length (cas_refs r) \<ge> 65536 then Err SpoolOversize else
    let header = u16_to_be SPOOL_FRAME_VERSION
          @ u64_to_be (spool_generation r)
          @ record_id
          @ observation_id
          @ be_bytes 2 (length (cas_refs r))
          @ concat (map as_bytes (cas_refs r))
          @ payload_length in
    if length header \<ge> 4294967296 then Err SpoolOversize else
    Ok (MAGIC
        @ u16_to_be SPOOL_FRAME_VERSION
        @ be_bytes 4 (length header)
        @ payload_length
        @ frame_checksum sha256 header (record_body r)
        @ header
        @ record_body r
        @ COMMIT_TRAILER))))"

section \<open>The header cursor\<close>

type_synonym 'a cursor = "bytes \<Rightarrow> (spool_frame_error, 'a \<times> bytes) result"

definition cursor_take :: "nat \<Rightarrow> bytes cursor" where
  "cursor_take n bs =
    (if length bs < n then Err SpoolCorrupt else Ok (take n bs, drop n bs))"

definition cursor_u16 :: "u16 cursor" where
  "cursor_u16 bs = and_then (cursor_take 2 bs) (\<lambda>(v, rest). Ok (u16_from_be v, rest))"

definition cursor_u64 :: "u64 cursor" where
  "cursor_u64 bs = and_then (cursor_take 8 bs) (\<lambda>(v, rest). Ok (u64_from_be v, rest))"

definition cursor_string :: "string cursor" where
  "cursor_string bs =
    and_then (cursor_u16 bs) (\<lambda>(n, rest).
    and_then (cursor_take (unat n) rest) (\<lambda>(raw, rest').
    case from_utf8 raw of None \<Rightarrow> Err SpoolCorrupt | Some s \<Rightarrow> Ok (s, rest')))"

text \<open>The loop \<open>for _ in 0..ref_count\<close> of \<open>decode_header\<close>.\<close>

fun cursor_refs :: "nat \<Rightarrow> string list cursor" where
  "cursor_refs 0 bs = Ok ([], bs)"
| "cursor_refs (Suc n) bs =
    and_then (cursor_take 64 bs) (\<lambda>(raw, rest).
    case from_utf8 raw of
      None \<Rightarrow> Err SpoolCorrupt
    | Some s \<Rightarrow> and_then (cursor_refs n rest) (\<lambda>(refs, rest'). Ok (s # refs, rest')))"

record decoded_header =
  dh_protocol_version :: u16
  dh_spool_generation :: u64
  dh_spool_record_id :: string
  dh_source_observation_id :: string
  dh_cas_refs :: "string list"
  dh_payload_length :: u64

definition decode_header :: "bytes \<Rightarrow> (spool_frame_error, decoded_header) result" where
  "decode_header bs =
    and_then (cursor_u16 bs) (\<lambda>(protocol_version, c1).
    and_then (cursor_u64 c1) (\<lambda>(generation, c2).
    and_then (cursor_string c2) (\<lambda>(record_id, c3).
    and_then (cursor_string c3) (\<lambda>(observation_id, c4).
    and_then (cursor_u16 c4) (\<lambda>(ref_count, c5).
    and_then (cursor_refs (unat ref_count) c5) (\<lambda>(refs, c6).
    and_then (cursor_u64 c6) (\<lambda>(payload_length, c7).
    if c7 \<noteq> [] then Err SpoolCorrupt
    else Ok \<lparr>dh_protocol_version = protocol_version, dh_spool_generation = generation,
             dh_spool_record_id = record_id, dh_source_observation_id = observation_id,
             dh_cas_refs = refs, dh_payload_length = payload_length\<rparr>)))))))"

section \<open>The scanner\<close>

text \<open>\<open>byte_slice bs i j\<close> is the Rust range \<open>bs[i..j]\<close>.\<close>

definition byte_slice :: "bytes \<Rightarrow> nat \<Rightarrow> nat \<Rightarrow> bytes" where
  "byte_slice bs i j = take (j - i) (drop i bs)"

datatype scan_step = Incomplete | Complete decoded_frame nat

definition scan_frame ::
  "(bytes \<Rightarrow> bytes) \<Rightarrow> bytes \<Rightarrow> (spool_frame_error, scan_step) result" where
  "scan_frame sha256 remaining =
    (if length remaining < PREFIX_LENGTH then
       (if take (min (length remaining) (length MAGIC)) MAGIC
           \<noteq> take (min (length remaining) (length MAGIC)) remaining
        then Err SpoolCorrupt else Ok Incomplete)
     else if byte_slice remaining 0 8 \<noteq> MAGIC then Err SpoolCorrupt
     else if u16_from_be (byte_slice remaining 8 10) \<noteq> SPOOL_FRAME_VERSION then Err SpoolCorrupt
     else
       let header_length = unat (u32_from_be (byte_slice remaining 10 14));
           body_length_u64 = u64_from_be (byte_slice remaining 14 22);
           body_length = unat body_length_u64
       in
       if body_length > MAX_RECORD_BODY then Err SpoolOversize
       else
       and_then (ok_or SpoolOversize
          (Option.bind (usize_checked_add PREFIX_LENGTH header_length) (\<lambda>a.
           Option.bind (usize_checked_add a body_length) (\<lambda>b.
           usize_checked_add b (length COMMIT_TRAILER))))) (\<lambda>frame_length.
       if length remaining < frame_length then Ok Incomplete
       else
       let header_start = PREFIX_LENGTH;
           body_start = header_start + header_length;
           trailer_start = body_start + body_length;
           header_bytes = byte_slice remaining header_start body_start;
           body = byte_slice remaining body_start trailer_start
       in
       if byte_slice remaining trailer_start frame_length \<noteq> COMMIT_TRAILER
          \<or> byte_slice remaining 22 54 \<noteq> frame_checksum sha256 header_bytes body
       then Err SpoolCorrupt
       else
       and_then (decode_header header_bytes) (\<lambda>h.
       let r = \<lparr>spool_generation = dh_spool_generation h,
                spool_record_id = dh_spool_record_id h,
                source_observation_id = dh_source_observation_id h,
                cas_refs = dh_cas_refs h,
                record_body = body\<rparr>
       in
       if dh_protocol_version h \<noteq> SPOOL_FRAME_VERSION
          \<or> dh_payload_length h \<noteq> body_length_u64
          \<or> \<not> is_ok (validate_record r)
       then Err SpoolCorrupt
       else Ok (Complete \<lparr>df_record = r, df_frame_length = of_nat frame_length\<rparr> frame_length))))"

lemma scan_frame_Complete_positive:
  "scan_frame sha256 bs = Inr (Complete f n) \<Longrightarrow> 0 < n \<and> n \<le> length bs"
  by (auto simp: scan_frame_def Let_def result_simps usize_checked_add_def PREFIX_LENGTH_def
      bind_eq_Some_conv split: if_splits)

function scan_loop ::
  "(bytes \<Rightarrow> bytes) \<Rightarrow> bytes \<Rightarrow> nat \<Rightarrow> decoded_frame list \<Rightarrow> (spool_frame_error, frame_scan) result"
where
  "scan_loop sha256 bs offset frames =
    (if offset < length bs then
       (case scan_frame sha256 (drop offset bs) of
          Inl e \<Rightarrow> Inl e
        | Inr Incomplete \<Rightarrow> Ok \<lparr>fs_frames = frames, fs_complete_length = of_nat offset,
                                fs_incomplete_tail = True\<rparr>
        | Inr (Complete f n) \<Rightarrow> scan_loop sha256 bs (offset + n) (frames @ [f]))
     else Ok \<lparr>fs_frames = frames, fs_complete_length = of_nat offset,
              fs_incomplete_tail = False\<rparr>)"
  by pat_completeness auto
termination
  by (relation "measure (\<lambda>(_, bs, offset, _). length bs - offset)")
     (auto dest: scan_frame_Complete_positive)

declare scan_loop.simps [simp del]

definition scan_frames ::
  "(bytes \<Rightarrow> bytes) \<Rightarrow> bytes \<Rightarrow> (spool_frame_error, frame_scan) result" where
  "scan_frames sha256 bs = scan_loop sha256 bs 0 []"

section \<open>The header round trip\<close>

definition string_field :: "string \<Rightarrow> bytes" where
  "string_field s = be_bytes 2 (length s) @ as_bytes s"

definition valid_string_field :: "string \<Rightarrow> bool" where
  "valid_string_field s \<longleftrightarrow> rust_string s \<and> length s < 65536"

definition valid_ref_fields :: "nat \<Rightarrow> string list \<Rightarrow> bool" where
  "valid_ref_fields n rs \<longleftrightarrow> length rs = n \<and> (\<forall>r \<in> set rs. rust_string r \<and> length r = 64)"

lemma cursor_take_append [simp]: "length a = n \<Longrightarrow> cursor_take n (a @ rest) = Inr (a, rest)"
  by (simp add: cursor_take_def)

lemma cursor_take_Inr_iff [result_simps]:
  "cursor_take n bs = Inr (a, rest) \<longleftrightarrow> bs = a @ rest \<and> length a = n"
  by (auto simp: cursor_take_def)

interpretation u16_codec: wire_codec u16_to_be cursor_u16 "\<lambda>_. True"
proof
  show "cursor_u16 (u16_to_be x @ rest) = Inr (x, rest)" for x rest
    by (simp add: cursor_u16_def)
  show "bs = u16_to_be x @ rest \<and> True" if "cursor_u16 bs = Inr (x, rest)" for bs x rest
    using that by (auto simp: cursor_u16_def result_simps u16_to_be_from_be)
qed

interpretation u64_codec: wire_codec u64_to_be cursor_u64 "\<lambda>_. True"
proof
  show "cursor_u64 (u64_to_be x @ rest) = Inr (x, rest)" for x rest
    by (simp add: cursor_u64_def)
  show "bs = u64_to_be x @ rest \<and> True" if "cursor_u64 bs = Inr (x, rest)" for bs x rest
    using that by (auto simp: cursor_u64_def result_simps u64_to_be_from_be)
qed

lemma be_bytes_2_u16: "n < 65536 \<Longrightarrow> be_bytes 2 n = u16_to_be (of_nat n)"
  by (simp add: u16_to_be_def unat_of_nat)

interpretation string_codec: wire_codec string_field cursor_string valid_string_field
proof
  fix s rest
  assume v: "valid_string_field s"
  then have "unat (of_nat (length s) :: u16) = length s"
    by (simp add: valid_string_field_def unat_of_nat)
  with v show "cursor_string (string_field s @ rest) = Inr (s, rest)"
    by (simp add: cursor_string_def string_field_def valid_string_field_def be_bytes_2_u16
        u16_codec.dec_enc from_utf8_as_bytes)
next
  fix bs s rest
  assume "cursor_string bs = Inr (s, rest)"
  then obtain n raw where "bs = u16_to_be n @ raw @ rest" "length raw = unat n"
      and s: "from_utf8 raw = Some s"
    by (auto simp: cursor_string_def result_simps u16_codec.dec_iff split: option.splits)
  moreover have "raw = as_bytes s" and "rust_string s"
    using from_utf8_SomeD [OF s] by simp_all
  ultimately show "bs = string_field s @ rest \<and> valid_string_field s"
    using unat_u16_less [of n]
    by (simp add: string_field_def valid_string_field_def u16_to_be_def)
qed

interpretation refs_codec: wire_codec "\<lambda>rs. concat (map as_bytes rs)" "cursor_refs n"
  "valid_ref_fields n" for n
proof
  show "cursor_refs n (concat (map as_bytes rs) @ rest) = Inr (rs, rest)"
    if "valid_ref_fields n rs" for rs rest
    using that
  proof (induction n arbitrary: rs)
    case (Suc n)
    then obtain r rs' where "rs = r # rs'" "rust_string r" "length r = 64" "valid_ref_fields n rs'"
      by (cases rs) (auto simp: valid_ref_fields_def)
    then show ?case using Suc.IH by (simp add: from_utf8_as_bytes)
  qed (simp add: valid_ref_fields_def)
  show "bs = concat (map as_bytes rs) @ rest \<and> valid_ref_fields n rs"
    if "cursor_refs n bs = Inr (rs, rest)" for bs rs rest
    using that
  proof (induction n arbitrary: bs rs)
    case (Suc n)
    then obtain raw tail r rs' where "bs = raw @ tail" "length raw = 64" "from_utf8 raw = Some r"
        "cursor_refs n tail = Inr (rs', rest)" "rs = r # rs'"
      by (auto simp: result_simps split: option.splits)
    moreover from this Suc.IH have "tail = concat (map as_bytes rs') @ rest \<and> valid_ref_fields n rs'"
      by blast
    ultimately show ?case using from_utf8_SomeD [of raw r]
      by (auto simp: valid_ref_fields_def)
  qed (simp add: valid_ref_fields_def)
qed

definition header_bytes :: "decoded_header \<Rightarrow> bytes" where
  "header_bytes h =
    u16_to_be (dh_protocol_version h)
    @ u64_to_be (dh_spool_generation h)
    @ string_field (dh_spool_record_id h)
    @ string_field (dh_source_observation_id h)
    @ be_bytes 2 (length (dh_cas_refs h))
    @ concat (map as_bytes (dh_cas_refs h))
    @ u64_to_be (dh_payload_length h)"

definition valid_header :: "decoded_header \<Rightarrow> bool" where
  "valid_header h \<longleftrightarrow> valid_string_field (dh_spool_record_id h)
    \<and> valid_string_field (dh_source_observation_id h)
    \<and> length (dh_cas_refs h) < 65536
    \<and> valid_ref_fields (length (dh_cas_refs h)) (dh_cas_refs h)"

lemma decode_header_header_bytes:
  assumes "valid_header h"
  shows "decode_header (header_bytes h) = Inr h"
proof -
  have "unat (of_nat (length (dh_cas_refs h)) :: u16) = length (dh_cas_refs h)"
    using assms by (simp add: valid_header_def unat_of_nat)
  then show ?thesis using assms u64_codec.dec_enc [of _ "[]"]
    by (simp add: decode_header_def header_bytes_def valid_header_def be_bytes_2_u16
        u16_codec.dec_enc u64_codec.dec_enc string_codec.dec_enc refs_codec.dec_enc)
qed

lemma decode_header_sound:
  assumes "decode_header bs = Inr h"
  shows "bs = header_bytes h \<and> valid_header h"
proof -
  from assms obtain n where n: "valid_ref_fields (unat (n :: u16)) (dh_cas_refs h)"
    and "valid_string_field (dh_spool_record_id h)"
    and "valid_string_field (dh_source_observation_id h)"
    and "bs = u16_to_be (dh_protocol_version h) @ u64_to_be (dh_spool_generation h)
      @ string_field (dh_spool_record_id h) @ string_field (dh_source_observation_id h)
      @ u16_to_be n @ concat (map as_bytes (dh_cas_refs h)) @ u64_to_be (dh_payload_length h)"
    by (auto simp: decode_header_def result_simps u16_codec.dec_iff u64_codec.dec_iff
        string_codec.dec_iff refs_codec.dec_iff split: if_splits)
  moreover have "length (dh_cas_refs h) = unat n"
    using n by (simp add: valid_ref_fields_def)
  ultimately show ?thesis using unat_u16_less [of n]
    by (simp add: header_bytes_def valid_header_def u16_to_be_def)
qed

section \<open>The frame layout\<close>

definition record_header :: "spool_record \<Rightarrow> decoded_header" where
  "record_header r =
    \<lparr>dh_protocol_version = SPOOL_FRAME_VERSION,
     dh_spool_generation = spool_generation r,
     dh_spool_record_id = spool_record_id r,
     dh_source_observation_id = source_observation_id r,
     dh_cas_refs = cas_refs r,
     dh_payload_length = of_nat (length (record_body r))\<rparr>"

definition frame_layout :: "(bytes \<Rightarrow> bytes) \<Rightarrow> spool_record \<Rightarrow> bytes" where
  "frame_layout sha256 r =
    (let header = header_bytes (record_header r) in
     MAGIC @ u16_to_be SPOOL_FRAME_VERSION @ be_bytes 4 (length header)
     @ be_bytes 8 (length (record_body r)) @ frame_checksum sha256 header (record_body r)
     @ header @ record_body r @ COMMIT_TRAILER)"

definition rust_record :: "spool_record \<Rightarrow> bool" where
  "rust_record r \<longleftrightarrow> rust_string (spool_record_id r) \<and> rust_string (source_observation_id r)
    \<and> length (cas_refs r) < 65536"

lemma validate_record_Inr_iff [result_simps]:
  "validate_record r = Inr u \<longleftrightarrow>
    spool_generation r \<noteq> 0
    \<and> spool_record_id r \<noteq> [] \<and> length (spool_record_id r) \<le> 256
    \<and> source_observation_id r \<noteq> [] \<and> length (source_observation_id r) \<le> 256
    \<and> length (record_body r) \<le> MAX_RECORD_BODY
    \<and> distinct (cas_refs r)
    \<and> (\<forall>value \<in> set (cas_refs r). length value = 64 \<and> list_all is_lower_hex value)"
  by (auto simp: validate_record_def)

lemma lower_hex_rust_string: "list_all is_lower_hex s \<Longrightarrow> rust_string s"
  by (rule ascii_rust_string) (auto simp: list_all_iff is_lower_hex_ascii)

lemma valid_record_header:
  assumes "validate_record r = Inr ()" and "rust_record r"
  shows "valid_header (record_header r)"
  using assms
  by (auto simp: valid_header_def record_header_def rust_record_def result_simps
      valid_string_field_def valid_ref_fields_def lower_hex_rust_string)

lemma length_concat_as_bytes:
  "\<forall>x \<in> set xs. length x = 64 \<Longrightarrow> length (concat (map as_bytes xs)) = 64 * length xs"
  by (induction xs) auto

lemma length_header_bytes_less:
  assumes "validate_record r = Inr ()" and "length (cas_refs r) < 65536"
  shows "length (header_bytes (record_header r)) < 4294967296"
proof -
  from assms have "length (concat (map as_bytes (cas_refs r))) = 64 * length (cas_refs r)"
    by (intro length_concat_as_bytes) (simp add: result_simps)
  with assms show ?thesis
    by (simp add: header_bytes_def record_header_def string_field_def result_simps)
qed

lemma payload_length_be:
  "n \<le> MAX_RECORD_BODY \<Longrightarrow> u64_to_be (of_nat n) = be_bytes 8 n"
  by (simp add: u64_to_be_def MAX_RECORD_BODY_def unat_of_nat)

lemma encode_frame_Inr_iff:
  "encode_frame sha256 r = Inr b \<longleftrightarrow>
    validate_record r = Inr () \<and> length (cas_refs r) < 65536 \<and> b = frame_layout sha256 r"
proof (cases "validate_record r = Inr () \<and> length (cas_refs r) < 65536")
  case True
  then have fields: "put_string (spool_record_id r) = Inr (string_field (spool_record_id r))"
      "put_string (source_observation_id r) = Inr (string_field (source_observation_id r))"
      "be_bytes 8 (length (record_body r)) = u64_to_be (of_nat (length (record_body r)))"
    by (simp_all add: put_string_def string_field_def result_simps payload_length_be)
  have h: "u16_to_be SPOOL_FRAME_VERSION @ u64_to_be (spool_generation r)
      @ string_field (spool_record_id r) @ string_field (source_observation_id r)
      @ be_bytes 2 (length (cas_refs r)) @ concat (map as_bytes (cas_refs r))
      @ u64_to_be (of_nat (length (record_body r))) = header_bytes (record_header r)"
    by (simp add: header_bytes_def record_header_def)
  have "encode_frame sha256 r = Inr (frame_layout sha256 r)"
    using True length_header_bytes_less [of r]
    by (simp add: encode_frame_def fields h frame_layout_def Let_def del: length_append)
  with True show ?thesis by auto
next
  case False
  then show ?thesis by (auto simp: encode_frame_def Let_def result_simps)
qed

lemma length_constants [simp]:
  "length MAGIC = 8" "length COMMIT_TRAILER = 8" "PREFIX_LENGTH = 54"
  by (simp_all add: MAGIC_def COMMIT_TRAILER_def PREFIX_LENGTH_def)

lemma byte_slice_take: "j \<le> k \<Longrightarrow> byte_slice (take k bs) i j = byte_slice bs i j"
  by (simp add: byte_slice_def min_def drop_take)

text \<open>What the format relies on of SHA-256: the digest has 32 bytes.\<close>

definition digest_32 :: "(bytes \<Rightarrow> bytes) \<Rightarrow> bool" where
  "digest_32 sha256 \<longleftrightarrow> (\<forall>m. length (sha256 m) = 32)"

lemma length_frame_checksum [simp]:
  "digest_32 sha256 \<Longrightarrow> length (frame_checksum sha256 h b) = 32"
  by (simp add: frame_checksum_def digest_32_def)

lemma length_frame_layout:
  "digest_32 sha256 \<Longrightarrow> length (frame_layout sha256 r)
    = 62 + length (header_bytes (record_header r)) + length (record_body r)"
  by (simp add: frame_layout_def Let_def)

text \<open>Cutting the eight fields of a frame out of the bytes that start with it.\<close>

lemma frame_slices:
  assumes "length m = 8" "length v = 2" "length hl = 4" "length bl = 8" "length ck = 32"
    and "bs = m @ v @ hl @ bl @ ck @ h @ b @ t @ rest"
  shows "byte_slice bs 0 8 = m" "byte_slice bs 8 10 = v" "byte_slice bs 10 14 = hl" "byte_slice bs 14 22 = bl"
    "byte_slice bs 22 54 = ck" "byte_slice bs 54 (54 + length h) = h"
    "byte_slice bs (54 + length h) (54 + length h + length b) = b"
    "byte_slice bs (54 + length h + length b) (54 + length h + length b + length t) = t"
  using assms by (simp_all add: byte_slice_def)

lemma be_bytes_4_u32: "n < 4294967296 \<Longrightarrow> be_bytes 4 n = u32_to_be (of_nat n)"
  by (simp add: u32_to_be_def unat_of_nat)

definition frame_prefix :: "nat \<Rightarrow> nat \<Rightarrow> bytes" where
  "frame_prefix header_length body_length =
    MAGIC @ u16_to_be SPOOL_FRAME_VERSION @ be_bytes 4 header_length @ be_bytes 8 body_length"

lemma scan_frame_short:
  assumes "length bs < 54"
  shows "scan_frame sha256 bs = (if take (length bs) MAGIC = take 8 bs then Inr Incomplete
    else Inl SpoolCorrupt)"
proof -
  have "take (min (length bs) 8) MAGIC = take (length bs) MAGIC"
    and "take (min (length bs) 8) bs = take 8 bs"
    by (simp_all add: min_def)
  with assms show ?thesis by (simp add: scan_frame_def)
qed

text \<open>A frame whose fixed prefix is readable but whose end is not: left for later.\<close>

lemma scan_frame_torn:
  assumes "byte_slice bs 0 22 = frame_prefix hl bl" and "54 \<le> length bs"
    and "hl < 4294967296" and "bl \<le> MAX_RECORD_BODY"
    and "length bs < 62 + hl + bl"
  shows "scan_frame sha256 bs = Inr Incomplete"
proof -
  have split: "byte_slice bs i j = byte_slice (byte_slice bs 0 22) i j" if "j \<le> 22" for i j
    using byte_slice_take [OF that, of bs i] by (simp add: byte_slice_def)
  have "byte_slice (frame_prefix hl bl) 0 8 = MAGIC"
      "byte_slice (frame_prefix hl bl) 8 10 = u16_to_be SPOOL_FRAME_VERSION"
      "byte_slice (frame_prefix hl bl) 10 14 = be_bytes 4 hl"
      "byte_slice (frame_prefix hl bl) 14 22 = be_bytes 8 bl"
    by (simp_all add: frame_prefix_def byte_slice_def)
  then have "byte_slice bs 0 8 = MAGIC" "byte_slice bs 8 10 = u16_to_be SPOOL_FRAME_VERSION"
      "byte_slice bs 10 14 = be_bytes 4 hl" "byte_slice bs 14 22 = be_bytes 8 bl"
    using split [of 8 0] split [of 10 8] split [of 14 10] split [of 22 14]
    by (simp_all add: assms(1))
  moreover have "unat (of_nat hl :: u32) = hl" "unat (of_nat bl :: u64) = bl"
    using assms(3,4) by (simp_all add: unat_of_nat MAX_RECORD_BODY_def)
  ultimately show ?thesis using assms(2-5)
    by (simp add: scan_frame_def be_bytes_4_u32 payload_length_be [symmetric] Let_def
        usize_checked_add_def MAX_RECORD_BODY_def ok_or_def)
qed

lemma frame_layout_prefix:
  "frame_layout sha256 r = frame_prefix (length (header_bytes (record_header r))) (length (record_body r))
    @ frame_checksum sha256 (header_bytes (record_header r)) (record_body r)
    @ header_bytes (record_header r) @ record_body r @ COMMIT_TRAILER"
  by (simp add: frame_layout_def frame_prefix_def Let_def)

lemma length_frame_prefix [simp]: "length (frame_prefix hl bl) = 22"
  by (simp add: frame_prefix_def)

text \<open>A committed frame is read back whole, whatever follows it.\<close>

lemma scan_frame_complete:
  assumes sha: "digest_32 sha256" and enc: "encode_frame sha256 r = Inr b" and "rust_record r"
  shows "scan_frame sha256 (b @ rest) =
    Inr (Complete \<lparr>df_record = r, df_frame_length = of_nat (length b)\<rparr> (length b))"
proof -
  let ?h = "header_bytes (record_header r)" and ?bs = "b @ rest"
  have v: "validate_record r = Inr ()" and refs: "length (cas_refs r) < 65536"
    and b: "b = frame_layout sha256 r"
    using enc by (simp_all add: encode_frame_Inr_iff)
  have hdr: "decode_header ?h = Inr (record_header r)"
    using v assms(3) by (intro decode_header_header_bytes valid_record_header)
  have hl: "length ?h < 4294967296" using v refs by (rule length_header_bytes_less)
  have bl: "length (record_body r) \<le> MAX_RECORD_BODY" using v by (simp add: result_simps)
  have len: "length b = 62 + length ?h + length (record_body r)"
    using sha b by (simp add: length_frame_layout)
  have bs: "?bs = MAGIC @ u16_to_be SPOOL_FRAME_VERSION @ be_bytes 4 (length ?h)
      @ be_bytes 8 (length (record_body r)) @ frame_checksum sha256 ?h (record_body r)
      @ ?h @ record_body r @ COMMIT_TRAILER @ rest"
    by (simp add: b frame_layout_def Let_def)
  note sl = frame_slices [OF _ _ _ _ _ bs, simplified, OF length_frame_checksum [OF sha]]
  have words: "unat (of_nat (length ?h) :: u32) = length ?h"
      "unat (of_nat (length (record_body r)) :: u64) = length (record_body r)"
    using hl bl by (simp_all add: unat_of_nat MAX_RECORD_BODY_def)
  have fl: "62 + length ?h + length (record_body r) < 2 ^ 64"
    using hl bl by (simp add: MAX_RECORD_BODY_def)
  have rec: "\<lparr>spool_generation = dh_spool_generation (record_header r),
      spool_record_id = dh_spool_record_id (record_header r),
      source_observation_id = dh_source_observation_id (record_header r),
      cas_refs = dh_cas_refs (record_header r), record_body = record_body r\<rparr> = r"
    by (simp add: record_header_def)
  have ver: "dh_protocol_version (record_header r) = SPOOL_FRAME_VERSION"
      "dh_payload_length (record_header r) = of_nat (length (record_body r))"
    by (simp_all add: record_header_def)
  show ?thesis
    using hl bl fl len sl words hdr v rec ver
    by (simp add: scan_frame_def be_bytes_4_u32 payload_length_be [symmetric] Let_def
        usize_checked_add_def ok_or_def is_ok_unit)
qed

text \<open>Any proper prefix of a committed frame is an incomplete tail, never an error.\<close>

lemma scan_frame_proper_prefix:
  assumes sha: "digest_32 sha256" and enc: "encode_frame sha256 r = Inr b" and k: "k < length b"
  shows "scan_frame sha256 (take k b) = Inr Incomplete"
proof -
  let ?h = "header_bytes (record_header r)"
  have v: "validate_record r = Inr ()" and refs: "length (cas_refs r) < 65536"
    and b: "b = frame_layout sha256 r"
    using enc by (simp_all add: encode_frame_Inr_iff)
  have len: "length b = 62 + length ?h + length (record_body r)"
    using sha b by (simp add: length_frame_layout)
  have pre: "take 22 b = frame_prefix (length ?h) (length (record_body r))"
    by (simp add: b frame_layout_prefix)
  show ?thesis
  proof (cases "k < 54")
    case True
    have "take 8 (take 22 b) = MAGIC" by (simp only: pre) (simp add: frame_prefix_def)
    then have "MAGIC = take 8 b" by simp
    then have "take k MAGIC = take 8 (take k b)"
      by (metis min.commute take_take)
    with True k show ?thesis by (simp add: scan_frame_short)
  next
    case False
    have "byte_slice (take k b) 0 22 = frame_prefix (length ?h) (length (record_body r))"
      using False pre by (simp add: byte_slice_def)
    then show ?thesis
      using False k len length_header_bytes_less [OF v refs] v
      by (intro scan_frame_torn) (auto simp: result_simps)
  qed
qed

text \<open>Whatever the scanner accepts is byte for byte the encoding of the record it returns.\<close>

lemma scan_frame_sound:
  assumes "scan_frame sha256 bs = Inr (Complete f n)"
  shows "encode_frame sha256 (df_record f) = Inr (take n bs)
    \<and> rust_record (df_record f) \<and> df_frame_length f = of_nat n"
proof -
  define hl where "hl = unat (u32_from_be (byte_slice bs 10 14))"
  define bl where "bl = unat (u64_from_be (byte_slice bs 14 22))"
  define h where "h = byte_slice bs 54 (54 + hl)"
  define body where "body = byte_slice bs (54 + hl) (54 + hl + bl)"
  from assms obtain d where "54 \<le> length bs" and magic: "byte_slice bs 0 8 = MAGIC"
    and ver: "u16_from_be (byte_slice bs 8 10) = SPOOL_FRAME_VERSION"
    and n: "n = 62 + (hl + bl)" and nl: "n \<le> length bs"
    and tr: "byte_slice bs (54 + hl + bl) n = COMMIT_TRAILER"
    and ck: "byte_slice bs 22 54 = frame_checksum sha256 h body"
    and d: "decode_header h = Inr d"
    and dv: "dh_protocol_version d = SPOOL_FRAME_VERSION"
      "dh_payload_length d = u64_from_be (byte_slice bs 14 22)"
    and f: "df_record f = \<lparr>spool_generation = dh_spool_generation d,
        spool_record_id = dh_spool_record_id d,
        source_observation_id = dh_source_observation_id d,
        cas_refs = dh_cas_refs d, record_body = body\<rparr>"
    and fl: "df_frame_length f = of_nat n"
    and valid: "validate_record (df_record f) = Inr ()"
    by (auto simp: scan_frame_def Let_def result_simps usize_checked_add_def bind_eq_Some_conv
        hl_def [symmetric] bl_def [symmetric] h_def [symmetric] body_def [symmetric]
        split: if_splits)
  have lens: "length h = hl" "length body = bl"
    using nl n by (simp_all add: h_def body_def byte_slice_def)
  from d have hb: "h = header_bytes d" and vh: "valid_header d"
    using decode_header_sound by blast+
  have "d = record_header (df_record f)"
    using dv f lens(2) by (simp add: record_header_def bl_def)
  then have layout: "frame_layout sha256 (df_record f) = byte_slice bs 0 8
      @ u16_to_be SPOOL_FRAME_VERSION @ be_bytes 4 hl @ be_bytes 8 bl
      @ byte_slice bs 22 54 @ h @ body @ byte_slice bs (54 + hl + bl) n"
    using hb lens magic ck tr f by (simp add: frame_layout_def Let_def)
  have fields: "u16_to_be SPOOL_FRAME_VERSION = byte_slice bs 8 10"
      "be_bytes 4 hl = byte_slice bs 10 14" "be_bytes 8 bl = byte_slice bs 14 22"
    using ver u16_to_be_from_be [of "byte_slice bs 8 10"] u32_to_be_from_be [of "byte_slice bs 10 14"]
      u64_to_be_from_be [of "byte_slice bs 14 22"] \<open>54 \<le> length bs\<close>
    by (simp_all add: hl_def bl_def u32_to_be_def u64_to_be_def byte_slice_def)
  have "frame_layout sha256 (df_record f) = take n bs"
    unfolding layout fields h_def body_def n byte_slice_def
    by (simp add: take_add [symmetric] drop_drop flip: append_assoc)
  moreover have "length (cas_refs (df_record f)) < 65536" "rust_record (df_record f)"
    using vh f by (auto simp: valid_header_def rust_record_def valid_string_field_def)
  ultimately show ?thesis using valid fl by (simp add: encode_frame_Inr_iff)
qed

section \<open>Whole segments\<close>

definition frame_of :: "spool_record \<Rightarrow> bytes \<Rightarrow> decoded_frame" where
  "frame_of r b = \<lparr>df_record = r, df_frame_length = of_nat (length b)\<rparr>"

text \<open>\<open>encoded sha256 r b\<close>: the hook appended \<open>b\<close> for the record \<open>r\<close>.\<close>

definition encoded :: "(bytes \<Rightarrow> bytes) \<Rightarrow> spool_record \<Rightarrow> bytes \<Rightarrow> bool" where
  "encoded sha256 r b \<longleftrightarrow> rust_record r \<and> encode_frame sha256 r = Inr b"

lemma encoded_nonempty: "digest_32 sha256 \<Longrightarrow> encoded sha256 r b \<Longrightarrow> b \<noteq> []"
  using length_frame_layout [of sha256 r] by (auto simp: encoded_def encode_frame_Inr_iff)

lemma scan_loop_complete:
  assumes "digest_32 sha256" and "encoded sha256 r b" and "drop offset bs = b @ rest"
  shows "scan_loop sha256 bs offset frames
    = scan_loop sha256 bs (offset + length b) (frames @ [frame_of r b])"
proof -
  have "b \<noteq> []" using assms(1,2) by (rule encoded_nonempty)
  then have "offset < length bs" using assms(3) by (cases "offset < length bs") auto
  moreover have "scan_frame sha256 (drop offset bs) = Inr (Complete (frame_of r b) (length b))"
    using scan_frame_complete [OF assms(1), of r b rest] assms(2,3)
    by (simp add: encoded_def frame_of_def)
  ultimately show ?thesis by (simp add: scan_loop.simps [of sha256 bs offset])
qed

lemma scan_loop_frames:
  assumes "list_all2 (encoded sha256) rs bss" and "digest_32 sha256"
    and "drop offset bs = concat bss @ tail"
  shows "scan_loop sha256 bs offset frames
    = scan_loop sha256 bs (offset + length (concat bss)) (frames @ map2 frame_of rs bss)"
  using assms(1,3)
proof (induction rs bss arbitrary: offset frames rule: list_all2_induct)
  case Nil
  then show ?case by simp
next
  case (Cons r rs b bss)
  have "drop (offset + length b) bs = concat bss @ tail"
    using Cons.prems by (metis add.commute append_eq_conv_conj concat.simps(2) append.assoc drop_drop)
  with Cons scan_loop_complete [OF assms(2) Cons.hyps(1), of offset bs "concat bss @ tail" frames]
  show ?case by (simp add: add.assoc)
qed

lemma scan_loop_sound:
  assumes "scan_loop sha256 bs offset frames = Inr s"
    and "list_all2 (\<lambda>f b. encoded sha256 (df_record f) b \<and> f = frame_of (df_record f) b) frames bss"
    and "concat bss = take offset bs" and "offset \<le> length bs"
  shows "\<exists>bss'. list_all2 (\<lambda>f b. encoded sha256 (df_record f) b \<and> f = frame_of (df_record f) b)
        (fs_frames s) bss'
      \<and> concat bss' = take (length (concat bss')) bs
      \<and> fs_complete_length s = of_nat (length (concat bss'))
      \<and> (fs_incomplete_tail s \<longleftrightarrow> concat bss' \<noteq> bs)"
  using assms
proof (induction sha256 bs offset frames arbitrary: bss rule: scan_loop.induct)
  case (1 sha256 bs offset frames)
  have len: "length (concat bss) = offset" using "1.prems"(3,4) by simp
  show ?case
  proof (cases "offset < length bs")
    case False
    then have "s = \<lparr>fs_frames = frames, fs_complete_length = of_nat offset,
        fs_incomplete_tail = False\<rparr>" and "offset = length bs"
      using "1.prems"(1,4) by (simp_all add: scan_loop.simps)
    with "1.prems"(2,3) len show ?thesis by (intro exI [of _ bss]) simp
  next
    case True
    then consider "scan_frame sha256 (drop offset bs) = Inr Incomplete"
      | f n where "scan_frame sha256 (drop offset bs) = Inr (Complete f n)"
      using "1.prems"(1) by (auto simp: scan_loop.simps [of sha256 bs offset] split: sum.splits scan_step.splits)
    then show ?thesis
    proof cases
      case 1
      then have "s = \<lparr>fs_frames = frames, fs_complete_length = of_nat offset,
          fs_incomplete_tail = True\<rparr>"
        using "1.prems"(1) True by (simp add: scan_loop.simps)
      with "1.prems"(2,3) len True show ?thesis by (intro exI [of _ bss]) auto
    next
      case (2 f n)
      have n: "n \<le> length (drop offset bs)" using scan_frame_Complete_positive [OF 2] by simp
      have f: "encoded sha256 (df_record f) (take n (drop offset bs))"
          "f = frame_of (df_record f) (take n (drop offset bs))"
        using scan_frame_sound [OF 2] n by (simp_all add: encoded_def frame_of_def min_def)
      have "scan_loop sha256 bs (offset + n) (frames @ [f]) = Inr s"
        using "1.prems"(1) True 2 by (simp add: scan_loop.simps [of sha256 bs offset])
      moreover have "list_all2 (\<lambda>f b. encoded sha256 (df_record f) b \<and> f = frame_of (df_record f) b)
          (frames @ [f]) (bss @ [take n (drop offset bs)])"
        using "1.prems"(2) f by (simp add: list_all2_appendI)
      moreover have "concat (bss @ [take n (drop offset bs)]) = take (offset + n) bs"
        using "1.prems"(3) by (simp add: take_add)
      moreover have "offset + n \<le> length bs" using n True by simp
      ultimately show ?thesis
        by (rule "1.IH" [OF True 2 refl])
    qed
  qed
qed

text \<open>
  C1. Crash safety of the spool: after any sequence of committed appends and one
  append torn at an arbitrary byte, the scanner returns exactly the committed
  records in order, reports how many bytes they take, and flags the torn tail; with
  nothing torn (\<open>k = 0\<close>) there is no tail.
\<close>

theorem scan_frames_after_crash:
  assumes "digest_32 sha256" and "list_all2 (encoded sha256) rs bss"
    and "encoded sha256 r b" and "k < length b"
  shows "scan_frames sha256 (concat bss @ take k b) =
    Inr \<lparr>fs_frames = map2 frame_of rs bss,
         fs_complete_length = of_nat (length (concat bss)),
         fs_incomplete_tail = (0 < k)\<rparr>"
proof -
  let ?bs = "concat bss @ take k b"
  have "scan_frames sha256 ?bs
      = scan_loop sha256 ?bs (length (concat bss)) (map2 frame_of rs bss)"
    using scan_loop_frames [OF assms(2,1), of 0 ?bs "take k b" "[]"] by (simp add: scan_frames_def)
  also have "\<dots> = Inr \<lparr>fs_frames = map2 frame_of rs bss,
      fs_complete_length = of_nat (length (concat bss)), fs_incomplete_tail = (0 < k)\<rparr>"
    using scan_frame_proper_prefix [OF assms(1), of r b k] assms(3,4)
    by (simp add: scan_loop.simps [of sha256 ?bs] encoded_def)
  finally show ?thesis .
qed

definition sample_record :: spool_record where
  "sample_record = \<lparr>spool_generation = 1, spool_record_id = ''r'',
    source_observation_id = ''o'', cas_refs = [], record_body = [7]\<rparr>"

definition sample_digest :: "bytes \<Rightarrow> bytes" where
  "sample_digest m = replicate 32 0"

lemma sample_encoded:
  "digest_32 sample_digest" "encoded sample_digest sample_record (frame_layout sample_digest sample_record)"
  "2 < length (frame_layout sample_digest sample_record)"
proof -
  show d: "digest_32 sample_digest" by (simp add: digest_32_def sample_digest_def)
  show "encoded sample_digest sample_record (frame_layout sample_digest sample_record)"
    by (simp add: encoded_def encode_frame_Inr_iff result_simps rust_record_def rust_string_def
        sample_record_def MAX_RECORD_BODY_def)
  show "2 < length (frame_layout sample_digest sample_record)"
    by (simp add: length_frame_layout [OF d])
qed

theorem scan_frames_after_crash_witness:
  "let b = frame_layout sample_digest sample_record in
   scan_frames sample_digest (b @ take 2 b) =
    Inr \<lparr>fs_frames = [frame_of sample_record b], fs_complete_length = of_nat (length b),
         fs_incomplete_tail = True\<rparr>"
  using scan_frames_after_crash [OF sample_encoded(1) _ sample_encoded(2,3),
      of "[sample_record]" "[frame_layout sample_digest sample_record]"] sample_encoded(2)
  by (simp add: Let_def)

text \<open>
  The scanner invents nothing: whenever it succeeds, the accepted bytes are
  exactly the concatenation of the encodings of the records it returns, each with its
  checksum and commit trailer; the reported length is their length, and the tail flag
  is set exactly when something follows them.
\<close>

theorem scan_frames_sound:
  assumes "scan_frames sha256 bs = Inr s"
  shows "\<exists>bss. list_all2 (\<lambda>f b. encoded sha256 (df_record f) b \<and> f = frame_of (df_record f) b)
        (fs_frames s) bss
      \<and> concat bss = take (length (concat bss)) bs
      \<and> fs_complete_length s = of_nat (length (concat bss))
      \<and> (fs_incomplete_tail s \<longleftrightarrow> concat bss \<noteq> bs)"
  using scan_loop_sound [OF assms [unfolded scan_frames_def], of "[]"] by simp

theorem scan_frames_sound_witness:
  "\<exists>bss. list_all2 (\<lambda>f b. encoded sample_digest (df_record f) b
        \<and> f = frame_of (df_record f) b) [] bss
      \<and> concat bss = take (length (concat bss)) (take 3 MAGIC)
      \<and> (0 :: u64) = of_nat (length (concat bss)) \<and> (True \<longleftrightarrow> concat bss \<noteq> take 3 MAGIC)"
proof -
  have "scan_frames sample_digest (take 3 MAGIC)
      = Inr \<lparr>fs_frames = [], fs_complete_length = 0, fs_incomplete_tail = True\<rparr>"
    by (simp add: scan_frames_def scan_loop.simps scan_frame_short)
  from scan_frames_sound [OF this] show ?thesis by simp
qed

text \<open>
  Recovery by truncation: cutting a scanned segment back to the reported complete
  length leaves the same records and no tail, and a record appended after the cut is
  found behind them.
\<close>

theorem scan_frames_truncate_and_append:
  assumes "digest_32 sha256" and "scan_frames sha256 bs = Inr s" and "length bs < 2 ^ 64"
    and "rs = [] \<and> new = [] \<or> (\<exists>r. rs = [r] \<and> encoded sha256 r new)"
  shows "scan_frames sha256 (take (unat (fs_complete_length s)) bs @ new) =
    Inr \<lparr>fs_frames = fs_frames s @ map (\<lambda>r. frame_of r new) rs,
         fs_complete_length = fs_complete_length s + of_nat (length new),
         fs_incomplete_tail = False\<rparr>"
proof -
  obtain bss where bss: "list_all2 (\<lambda>f b. encoded sha256 (df_record f) b
          \<and> f = frame_of (df_record f) b) (fs_frames s) bss"
      "concat bss = take (length (concat bss)) bs"
      "fs_complete_length s = of_nat (length (concat bss))"
    using scan_loop_sound [OF assms(2) [unfolded scan_frames_def], of "[]"] by auto
  define news where "news = (if rs = [] then [] else [new])"
  let ?rs = "map df_record (fs_frames s) @ rs" and ?bss = "bss @ news"
  have new: "list_all2 (encoded sha256) rs news" "concat news = new"
      "map2 frame_of rs news = map (\<lambda>r. frame_of r new) rs"
    using assms(4) by (auto simp: news_def)
  have enc: "list_all2 (encoded sha256) (map df_record (fs_frames s)) bss"
    using bss(1) by (simp add: list.rel_map list_all2_mono)
  have frames: "map2 frame_of (map df_record (fs_frames s)) bss = fs_frames s"
    using bss(1) by (induction rule: list_all2_induct) auto
  have "length (concat bss) \<le> length bs"
    using arg_cong [OF bss(2), of length] by (metis length_take min.cobounded1)
  then have cut: "unat (fs_complete_length s) = length (concat bss)"
    using assms(3) bss(3) by (simp add: unat_of_nat)
  have segment: "take (unat (fs_complete_length s)) bs @ new = concat ?bss"
    using bss(2) new(2) by (simp add: cut)
  have all: "list_all2 (encoded sha256) ?rs ?bss"
    using enc new(1) by (rule list_all2_appendI)
  have "length (map df_record (fs_frames s)) = length bss"
    using enc by (rule list_all2_lengthD)
  then have "map2 frame_of ?rs ?bss = fs_frames s @ map (\<lambda>r. frame_of r new) rs"
    using frames new(3) by simp
  moreover have "scan_frames sha256 (concat ?bss) = Inr \<lparr>fs_frames = map2 frame_of ?rs ?bss,
      fs_complete_length = of_nat (length (concat ?bss)), fs_incomplete_tail = False\<rparr>"
    using scan_loop_frames [OF all assms(1), of 0 "concat ?bss" "[]" "[]"]
    by (simp add: scan_frames_def scan_loop.simps)
  ultimately show ?thesis unfolding segment using bss(3) new(2) by simp
qed

theorem scan_frames_truncate_and_append_witness:
  "let b = frame_layout sample_digest sample_record in
   scan_frames sample_digest (take (unat (0 :: u64)) (take 3 MAGIC) @ b) =
    Inr \<lparr>fs_frames = [frame_of sample_record b], fs_complete_length = of_nat (length b),
         fs_incomplete_tail = False\<rparr>"
proof -
  let ?b = "frame_layout sample_digest sample_record"
  have "scan_frames sample_digest (take 3 MAGIC)
      = Inr \<lparr>fs_frames = [], fs_complete_length = 0, fs_incomplete_tail = True\<rparr>"
    by (simp add: scan_frames_def scan_loop.simps scan_frame_short)
  from scan_frames_truncate_and_append [OF sample_encoded(1) this, of "[sample_record]" ?b]
  show ?thesis using sample_encoded(2) by (simp add: Let_def)
qed

end
