(* ===== verification/Work_Base.thy ===== *)
theory Work_Base
  imports Prelude
begin

text \<open>
  What the domain objects of \<open>evertrace-domain/src/work\<close> share: identifier types,
  the \<open>WorkError\<close> values, the reference and duplicate checks of \<open>work.rs\<close>, and the
  interface of revisioned objects.

  Identifiers are UUIDv7 newtypes (128 bits) or 32-byte digests; the model keeps
  their order and equality. A revisioned object is never changed in place: each
  successor is a new revision that must pass a successor check against the current
  one. The locale \<open>revision_chain\<close> states what such a check promises, and what
  follows for whole histories; each object type interprets it.
\<close>

type_synonym uuid = "128 word"
type_synonym digest_id = bytes

type_synonym revision_id = uuid
type_synonym execution_lane_id = uuid
type_synonym capture_receipt_id = uuid
type_synonym capture_outage_interval_id = uuid
type_synonym operation_id = uuid
type_synonym operation_burst_id = uuid
type_synonym work_episode_id = uuid
type_synonym task_id = uuid
type_synonym workstream_id = uuid
type_synonym attempt_id = uuid
type_synonym competing_attempt_group_id = uuid
type_synonym experiment_run_id = uuid
type_synonym work_binding_revision_id = uuid
type_synonym repository_id = uuid
type_synonym worktree_id = uuid
type_synonym worktree_snapshot_id = uuid
type_synonym worktree_transition_id = uuid
type_synonym integration_event_id = uuid
type_synonym scope_effect_id = uuid
type_synonym work_artifact_id = uuid
type_synonym command_id = uuid
type_synonym atom_id = uuid
type_synonym procedure_id = uuid
type_synonym source_observation_id = digest_id
type_synonym host_occurrence_id = digest_id
type_synonym source_receipt_id = digest_id

datatype work_error =
    InvalidWorkIdentity
  | InvalidReference
  | Duplicate
  | InvalidLifecycle
  | InvalidLane
  | InvalidReceipt
  | FinalizedLaneCannotReopen
  | InvalidAutoresearch
  | InvalidAutoresearchSuccessor

definition valid_ref :: "string \<Rightarrow> (work_error, unit) result" where
  "valid_ref value =
    (if value = [] \<or> length value > 256 \<or> has_control value then Err InvalidReference
     else Ok ())"

definition require_unique :: "'a::linorder list \<Rightarrow> (work_error, unit) result" where
  "require_unique values =
    (if length (btree_set values) \<noteq> length values then Err Duplicate else Ok ())"

definition unique_sorted :: "'a::linorder list \<Rightarrow> 'a list" where
  "unique_sorted values = btree_set values"

lemma require_unique_Inr_iff [result_simps]: "require_unique xs = Inr u \<longleftrightarrow> distinct xs"
  by (simp add: require_unique_def)

lemma valid_ref_Inr_iff [result_simps]:
  "valid_ref s = Inr u \<longleftrightarrow> s \<noteq> [] \<and> length s \<le> 256 \<and> \<not> has_control s"
  by (auto simp: valid_ref_def)

section \<open>Bounded texts and reference lists\<close>

text \<open>
  The helpers the work modules define over again with the same bounds
  (\<open>MAX_REFS = MAX_ITEMS = 64\<close>, \<open>MAX_TEXT = 4096\<close>). \<open>retains\<close> uses binary search in
  the source; both lists have passed the order check before it is called, so it is
  membership.
\<close>

definition MAX_REFS :: nat where "MAX_REFS = 64"
definition MAX_TEXT :: nat where "MAX_TEXT = 4096"

definition strictly_ordered_unique :: "'a::linorder list \<Rightarrow> bool" where
  "strictly_ordered_unique values \<longleftrightarrow>
    windows_all (<) values \<and> length (btree_set values) = length values"

definition bounded_text :: "string \<Rightarrow> bool" where
  "bounded_text value \<longleftrightarrow> \<not> blank value \<and> length value \<le> MAX_TEXT"

definition bounded_strings :: "string list \<Rightarrow> bool" where
  "bounded_strings values \<longleftrightarrow> length values \<le> MAX_REFS
    \<and> (\<forall>value \<in> set values. bounded_text value) \<and> strictly_ordered_unique values"

definition ordered_ids :: "'a::linorder list \<Rightarrow> bool" where
  "ordered_ids values \<longleftrightarrow> length values \<le> MAX_REFS \<and> strictly_ordered_unique values"

definition retains :: "'a::linorder list \<Rightarrow> 'a list \<Rightarrow> bool" where
  "retains old new \<longleftrightarrow> (\<forall>item \<in> set old. item \<in> set new)"

lemma strictly_ordered_unique_iff: "strictly_ordered_unique xs \<longleftrightarrow> sorted_wrt (<) xs"
  by (auto simp: strictly_ordered_unique_def windows_all_sorted_wrt strict_sorted_iff)

lemma strictly_ordered_unique_simps [simp]:
  "strictly_ordered_unique []" "strictly_ordered_unique [x]"
  by (simp_all add: strictly_ordered_unique_iff)

lemma ordered_ids_simps [simp]: "ordered_ids []" "ordered_ids [x]"
  by (simp_all add: ordered_ids_def MAX_REFS_def)

lemma bounded_strings_Nil [simp]: "bounded_strings []"
  by (simp add: bounded_strings_def)

lemma retains_subset: "retains xs ys \<longleftrightarrow> set xs \<subseteq> set ys"
  by (auto simp: retains_def)

lemma retains_trans: "retains a b \<Longrightarrow> retains b c \<Longrightarrow> retains a c"
  by (auto simp: retains_def)

lemma retains_refl [simp]: "retains a a"
  by (simp add: retains_def)

text \<open>
  Status fields that are final (\<open>keeps_in\<close>) or confined (\<open>stays_in\<close>) once they
  reach a set of states.
\<close>

definition keeps_in :: "'v set \<Rightarrow> 'v \<Rightarrow> 'v \<Rightarrow> bool" where
  "keeps_in S x y \<longleftrightarrow> (x \<in> S \<longrightarrow> y = x)"

definition stays_in :: "'v set \<Rightarrow> 'v \<Rightarrow> 'v \<Rightarrow> bool" where
  "stays_in S x y \<longleftrightarrow> (x \<in> S \<longrightarrow> y \<in> S)"

lemma keeps_in_refl [simp]: "keeps_in S x x"
  by (simp add: keeps_in_def)

lemma stays_in_refl [simp]: "stays_in S x x"
  by (simp add: stays_in_def)

lemma keeps_in_trans: "keeps_in S x y \<Longrightarrow> keeps_in S y z \<Longrightarrow> keeps_in S x z"
  by (auto simp: keeps_in_def)

lemma stays_in_trans: "stays_in S x y \<Longrightarrow> stays_in S y z \<Longrightarrow> stays_in S x z"
  by (auto simp: stays_in_def)

section \<open>Revision chains\<close>

lemma windows_all_nth:
  assumes "windows_all P xs" and "Suc i < length xs"
  shows "P (xs ! i) (xs ! Suc i)"
  using assms
proof (induction xs arbitrary: i rule: induct_list012)
  case (3 x y zs)
  then show ?case by (cases i) auto
qed auto

locale revision_chain =
  fixes accepts :: "'s \<Rightarrow> 's \<Rightarrow> bool"
    and ident :: "'s \<Rightarrow> 'i"
    and gen :: "'s \<Rightarrow> nat"
    and well_formed :: "'s \<Rightarrow> bool"
  assumes accepts_ident: "accepts a b \<Longrightarrow> ident b = ident a"
    and accepts_gen: "accepts a b \<Longrightarrow> gen b = Suc (gen a)"
    and accepts_well_formed: "accepts a b \<Longrightarrow> well_formed b"
begin

lemma accepts_irrefl: "\<not> accepts a a"
  using accepts_gen [of a a] by auto

lemma history_gen:
  assumes "windows_all accepts (x # xs)" and "i < length (x # xs)"
  shows "gen ((x # xs) ! i) = gen x + i"
  using assms
proof (induction xs arbitrary: x i)
  case (Cons y ys)
  then show ?case using accepts_gen [of x y] by (cases i) auto
qed simp

lemma history_ident:
  assumes "windows_all accepts (x # xs)" and "y \<in> set (x # xs)"
  shows "ident y = ident x"
  using assms
proof (induction xs arbitrary: x)
  case (Cons z zs)
  then show ?case using accepts_ident [of x z] by auto
qed simp

lemma history_well_formed:
  assumes "windows_all accepts (x # xs)" and "y \<in> set xs"
  shows "well_formed y"
  using assms
proof (induction xs arbitrary: x)
  case (Cons z zs)
  then show ?case using accepts_well_formed [of x z] by auto
qed simp

lemma history_gen_distinct:
  assumes "windows_all accepts xs"
  shows "distinct (map gen xs)"
proof (cases xs)
  case (Cons x ys)
  have "i = j" if "i < length xs" "j < length xs" "gen (xs ! i) = gen (xs ! j)" for i j
    using that history_gen [OF assms [unfolded Cons]] by (simp add: Cons)
  then show ?thesis by (auto simp: distinct_conv_nth)
qed simp

end

text \<open>
  A chain in which some property, once reached, is kept by every later revision.
\<close>

locale absorbing_chain = revision_chain accepts ident gen well_formed
  for accepts :: "'s \<Rightarrow> 's \<Rightarrow> bool" and ident :: "'s \<Rightarrow> 'i"
    and gen :: "'s \<Rightarrow> nat" and well_formed :: "'s \<Rightarrow> bool" +
  fixes absorbed :: "'s \<Rightarrow> bool"
  assumes accepts_absorbed: "accepts a b \<Longrightarrow> absorbed a \<Longrightarrow> absorbed b"
begin

lemma history_absorbed:
  assumes "windows_all accepts xs" and "i \<le> j" and "j < length xs" and "absorbed (xs ! i)"
  shows "absorbed (xs ! j)"
  using assms(2-4)
proof (induction rule: dec_induct)
  case (step n)
  have "windows_all accepts (xs ! n # xs ! Suc n # [])" if "windows_all accepts xs" "Suc n < length xs"
    for xs n
    using that
  proof (induction xs arbitrary: n rule: induct_list012)
    case (3 x y zs)
    then show ?case by (cases n) auto
  qed auto
  from this [OF assms(1) step.prems(1)] step show ?case
    using accepts_absorbed by auto
qed

end

end
