(* ===== verification/Work_Objects.thy ===== *)
theory Work_Objects
  imports Work_Base
begin

text \<open>
  Tasks, workstreams and work bindings: \<open>evertrace-domain/src/work/task.rs\<close>,
  \<open>workstream.rs\<close> and \<open>binding.rs\<close>. A task is a user's goal, a workstream one line
  of work inside it, and a binding says which task and workstream (and later which
  episode, attempt or experiment) an operation belongs to. Records carry the fields
  of the structs with a prefix; the \<open>validate\<close> methods are the functions named after
  them.
\<close>

section \<open>Tasks\<close>

datatype task_identity_confidence = ConfidenceExplicit | ConfidenceStronglyInferred
  | ConfidenceProvisional

datatype task_lifecycle = TaskActive | TaskPaused | TaskCompleted | TaskAbandoned
  | TaskSuperseded

definition task_lifecycle_is_terminal :: "task_lifecycle \<Rightarrow> bool" where
  "task_lifecycle_is_terminal l \<longleftrightarrow> l \<in> {TaskCompleted, TaskAbandoned, TaskSuperseded}"

datatype task_scope_membership = TaskScopeMembership
  (tsm_repository_instance_id: "repository_id option")
  (tsm_worktree_instance_ids: "worktree_id list")

definition key_task_scope_membership :: "task_scope_membership \<Rightarrow> repository_id option \<times> worktree_id list" where
  "key_task_scope_membership m = (tsm_repository_instance_id m, tsm_worktree_instance_ids m)"

lemma key_task_scope_membership_inject:
  "key_task_scope_membership x = key_task_scope_membership y \<Longrightarrow> x = y"
  by (simp add: key_task_scope_membership_def task_scope_membership.expand)

instantiation task_scope_membership :: linorder
begin


definition less_eq_task_scope_membership :: "task_scope_membership \<Rightarrow> task_scope_membership \<Rightarrow> bool" where
  "less_eq_task_scope_membership a b \<longleftrightarrow> key_task_scope_membership a \<le> key_task_scope_membership b"

definition less_task_scope_membership :: "task_scope_membership \<Rightarrow> task_scope_membership \<Rightarrow> bool" where
  "less_task_scope_membership a b \<longleftrightarrow> key_task_scope_membership a < key_task_scope_membership b"

instance
proof
  fix x y :: task_scope_membership
  show "x \<le> y \<Longrightarrow> y \<le> x \<Longrightarrow> x = y"
    by (simp add: less_eq_task_scope_membership_def key_task_scope_membership_inject)
qed (auto simp: less_eq_task_scope_membership_def less_task_scope_membership_def)

end

definition task_scope_membership_validate :: "task_scope_membership \<Rightarrow> (work_error, unit) result" where
  "task_scope_membership_validate m =
    (if length (tsm_worktree_instance_ids m) > MAX_REFS
        \<or> \<not> strictly_ordered_unique (tsm_worktree_instance_ids m)
        \<or> (tsm_repository_instance_id m = None \<and> tsm_worktree_instance_ids m \<noteq> [])
     then Err InvalidWorkIdentity else Ok ())"

record task =
  tk_task_id :: task_id
  tk_revision_id :: revision_id
  tk_predecessor_revision_id :: "revision_id option"
  tk_request_root_refs :: "string list"
  tk_canonical_goal :: string
  tk_scope_memberships :: "task_scope_membership list"
  tk_identity_confidence :: task_identity_confidence
  tk_lifecycle :: task_lifecycle
  tk_continuation_of_task_id :: "task_id option"
  tk_split_from_task_id :: "task_id option"
  tk_split_into_task_ids :: "task_id list"
  tk_merged_from_task_ids :: "task_id list"
  tk_merged_into_task_id :: "task_id option"
  tk_created_at_us :: i64
  tk_closed_at_us :: "i64 option"
  tk_source_watermark :: u64

text \<open>\<open>i64\<close> values compare as signed words.\<close>

definition task_validate :: "task \<Rightarrow> (work_error, unit) result" where
  "task_validate t =
    (if \<not> bounded_text (tk_canonical_goal t)
        \<or> tk_request_root_refs t = []
        \<or> \<not> bounded_strings (tk_request_root_refs t)
        \<or> length (tk_scope_memberships t) > MAX_REFS
        \<or> \<not> strictly_ordered_unique (tk_scope_memberships t)
        \<or> \<not> ordered_ids (tk_split_into_task_ids t)
        \<or> \<not> ordered_ids (tk_merged_from_task_ids t)
        \<or> sint (tk_created_at_us t) < 0
        \<or> is_some_and (\<lambda>closed. sint closed < sint (tk_created_at_us t)) (tk_closed_at_us t)
        \<or> task_lifecycle_is_terminal (tk_lifecycle t) \<noteq> is_some (tk_closed_at_us t)
        \<or> tk_continuation_of_task_id t = Some (tk_task_id t)
        \<or> tk_split_from_task_id t = Some (tk_task_id t)
        \<or> tk_merged_into_task_id t = Some (tk_task_id t)
        \<or> tk_task_id t \<in> set (tk_split_into_task_ids t)
        \<or> tk_task_id t \<in> set (tk_merged_from_task_ids t)
        \<or> (tk_merged_from_task_ids t \<noteq> []
            \<and> (is_some (tk_continuation_of_task_id t) \<or> is_some (tk_split_from_task_id t)))
     then Err InvalidWorkIdentity
     else for_each task_scope_membership_validate (tk_scope_memberships t))"

section \<open>Workstreams\<close>

datatype phase_kind = PhaseOrient | PhaseInspect | PhaseReproduce | PhaseDiagnose | PhaseDesign
  | PhaseImplement | PhaseVerify | PhaseExecute | PhaseAnalyze | PhaseRecover | PhaseDeliver
  | PhaseUnknown

record phase_contract =
  pc_local_goal :: string
  pc_phase_kind :: phase_kind
  pc_phase_label :: string
  pc_primary_targets :: "string list"
  pc_entry_conditions :: "string list"
  pc_acceptance_boundary :: string
  pc_expected_state_transition :: string

definition phase_contract_validate :: "phase_contract \<Rightarrow> (work_error, unit) result" where
  "phase_contract_validate p =
    (if \<not> bounded_text (pc_local_goal p)
        \<or> \<not> bounded_text (pc_phase_label p)
        \<or> \<not> bounded_text (pc_acceptance_boundary p)
        \<or> \<not> bounded_text (pc_expected_state_transition p)
        \<or> \<not> bounded_strings (pc_primary_targets p)
        \<or> \<not> bounded_strings (pc_entry_conditions p)
     then Err InvalidWorkIdentity else Ok ())"

datatype workstream_status = WorkstreamActive | WorkstreamPaused | WorkstreamClosed
  | WorkstreamSuperseded

record workstream =
  ws_workstream_id :: workstream_id
  ws_revision_id :: revision_id
  ws_predecessor_revision_id :: "revision_id option"
  ws_task_id :: task_id
  ws_repository_instance_id :: "repository_id option"
  ws_worktree_instance_ids :: "worktree_id list"
  ws_active_worktree_instance_id :: "worktree_id option"
  ws_worktree_lineage_refs :: "string list"
  ws_parent_workstream_id :: "workstream_id option"
  ws_dependency_workstream_ids :: "workstream_id list"
  ws_status :: workstream_status
  ws_root_goal :: string
  ws_workstream_goal :: string
  ws_target_family :: string
  ws_hypothesis_or_failure_family :: string
  ws_acceptance_boundary :: string
  ws_phase_contract :: phase_contract
  ws_active_episode_id :: "work_episode_id option"
  ws_execution_lane_ids :: "execution_lane_id list"
  ws_source_watermark :: u64

definition workstream_validate :: "workstream \<Rightarrow> (work_error, unit) result" where
  "workstream_validate w =
    (if \<not> bounded_text (ws_root_goal w)
        \<or> \<not> bounded_text (ws_workstream_goal w)
        \<or> \<not> bounded_text (ws_target_family w)
        \<or> \<not> bounded_text (ws_hypothesis_or_failure_family w)
        \<or> \<not> bounded_text (ws_acceptance_boundary w)
        \<or> length (ws_worktree_instance_ids w) > MAX_REFS
        \<or> \<not> strictly_ordered_unique (ws_worktree_instance_ids w)
        \<or> length (ws_worktree_lineage_refs w) > MAX_REFS
        \<or> \<not> bounded_strings (ws_worktree_lineage_refs w)
        \<or> length (ws_dependency_workstream_ids w) > MAX_REFS
        \<or> \<not> strictly_ordered_unique (ws_dependency_workstream_ids w)
        \<or> length (ws_execution_lane_ids w) > MAX_REFS
        \<or> \<not> strictly_ordered_unique (ws_execution_lane_ids w)
        \<or> is_some_and (\<lambda>i. i \<notin> set (ws_worktree_instance_ids w)) (ws_active_worktree_instance_id w)
        \<or> (ws_predecessor_revision_id w = None \<and> is_some (ws_active_episode_id w))
        \<or> (ws_repository_instance_id w = None \<and> ws_worktree_instance_ids w \<noteq> [])
        \<or> ws_parent_workstream_id w = Some (ws_workstream_id w)
        \<or> ws_workstream_id w \<in> set (ws_dependency_workstream_ids w)
     then Err InvalidWorkIdentity
     else phase_contract_validate (ws_phase_contract w))"

datatype correlation_evidence_kind = EvidenceExplicitTask | EvidenceExplicitWorkstream
  | EvidenceHandoff | EvidencePlan | EvidencePatch | EvidenceTest | EvidenceError
  | EvidenceHypothesis | EvidenceExecutionLane | EvidenceSession | EvidenceParentThread
  | EvidenceFileSymbolOverlap | EvidenceRecentActivity | EvidenceTimeProximity
  | EvidenceTextSimilarity

definition correlation_evidence_kind_is_strong :: "correlation_evidence_kind \<Rightarrow> bool" where
  "correlation_evidence_kind_is_strong k \<longleftrightarrow>
    k \<in> {EvidenceHandoff, EvidencePlan, EvidencePatch, EvidenceTest, EvidenceError, EvidenceHypothesis}"

record correlation_evidence =
  ce_kind :: correlation_evidence_kind
  ce_evidence_ref :: string
  ce_candidate_task_ids :: "task_id list"
  ce_candidate_workstream_ids :: "workstream_id list"

definition correlation_evidence_validate :: "correlation_evidence \<Rightarrow> (work_error, unit) result" where
  "correlation_evidence_validate e =
    (if \<not> bounded_text (ce_evidence_ref e)
        \<or> length (ce_candidate_task_ids e) > MAX_REFS
        \<or> \<not> strictly_ordered_unique (ce_candidate_task_ids e)
        \<or> length (ce_candidate_workstream_ids e) > MAX_REFS
        \<or> \<not> strictly_ordered_unique (ce_candidate_workstream_ids e)
        \<or> (ce_candidate_task_ids e = [] \<and> ce_candidate_workstream_ids e = [])
     then Err InvalidWorkIdentity else Ok ())"

record unresolved_workstream =
  uw_candidate_task_ids :: "task_id list"
  uw_candidate_workstream_ids :: "workstream_id list"
  uw_missing_evidence :: "string list"
  uw_conflict_reason :: string
  uw_exit_conditions :: "string list"
  uw_source_watermark :: u64

definition unresolved_workstream_validate :: "unresolved_workstream \<Rightarrow> (work_error, unit) result" where
  "unresolved_workstream_validate u =
    (if length (uw_candidate_task_ids u) > MAX_REFS
        \<or> \<not> strictly_ordered_unique (uw_candidate_task_ids u)
        \<or> length (uw_candidate_workstream_ids u) > MAX_REFS
        \<or> \<not> strictly_ordered_unique (uw_candidate_workstream_ids u)
        \<or> \<not> bounded_strings (uw_missing_evidence u)
        \<or> \<not> bounded_text (uw_conflict_reason u)
        \<or> \<not> bounded_strings (uw_exit_conditions u)
     then Err InvalidWorkIdentity else Ok ())"

datatype correlation_result = Resolved workstream_id | Unresolved unresolved_workstream

section \<open>Work bindings\<close>

datatype assignment_status = AssignmentResolved | AssignmentProvisional | AssignmentConflicted
  | AssignmentUnresolved

record primary_work_binding =
  pb_task_id :: "task_id option"
  pb_workstream_id :: "workstream_id option"
  pb_episode_id :: "work_episode_id option"
  pb_attempt_id :: "attempt_id option"
  pb_experiment_run_id :: "experiment_run_id option"
  pb_competing_group_id :: "competing_attempt_group_id option"

definition primary_work_binding_is_empty :: "primary_work_binding \<Rightarrow> bool" where
  "primary_work_binding_is_empty b \<longleftrightarrow>
    pb_task_id b = None \<and> pb_workstream_id b = None \<and> pb_episode_id b = None
    \<and> pb_attempt_id b = None \<and> pb_experiment_run_id b = None \<and> pb_competing_group_id b = None"

definition primary_work_binding_has_future_ref :: "primary_work_binding \<Rightarrow> bool" where
  "primary_work_binding_has_future_ref b \<longleftrightarrow>
    is_some (pb_episode_id b) \<or> is_some (pb_attempt_id b)
    \<or> is_some (pb_experiment_run_id b) \<or> is_some (pb_competing_group_id b)"

datatype secondary_binding_role = RoleSupporting | RoleAffected | RoleComparison
  | RoleIntegration

datatype secondary_binding_target =
    TargetTask task_id
  | TargetWorkstream workstream_id
  | TargetEpisode work_episode_id
  | TargetAttempt attempt_id
  | TargetExperimentRun experiment_run_id
  | TargetCompetingGroup competing_attempt_group_id
  | TargetArtifact work_artifact_id

datatype secondary_work_binding = SecondaryWorkBinding
  (sb_role: secondary_binding_role) (sb_target_ref: secondary_binding_target)

fun rank_secondary_binding_role :: "secondary_binding_role \<Rightarrow> nat" where
  "rank_secondary_binding_role RoleSupporting = 0"
| "rank_secondary_binding_role RoleAffected = 1"
| "rank_secondary_binding_role RoleComparison = 2"
| "rank_secondary_binding_role RoleIntegration = 3"

fun key_secondary_binding_target :: "secondary_binding_target \<Rightarrow> nat \<times> uuid" where
  "key_secondary_binding_target (TargetTask i) = (0, i)"
| "key_secondary_binding_target (TargetWorkstream i) = (1, i)"
| "key_secondary_binding_target (TargetEpisode i) = (2, i)"
| "key_secondary_binding_target (TargetAttempt i) = (3, i)"
| "key_secondary_binding_target (TargetExperimentRun i) = (4, i)"
| "key_secondary_binding_target (TargetCompetingGroup i) = (5, i)"
| "key_secondary_binding_target (TargetArtifact i) = (6, i)"

definition key_secondary_work_binding :: "secondary_work_binding \<Rightarrow> nat \<times> nat \<times> uuid" where
  "key_secondary_work_binding b =
    (rank_secondary_binding_role (sb_role b), key_secondary_binding_target (sb_target_ref b))"

lemma key_secondary_work_binding_inject:
  assumes "key_secondary_work_binding x = key_secondary_work_binding y"
  shows "x = y"
proof (rule secondary_work_binding.expand)
  have "r = s" if "rank_secondary_binding_role r = rank_secondary_binding_role s" for r s
    using that by (cases r; cases s) simp_all
  moreover have "t = u" if "key_secondary_binding_target t = key_secondary_binding_target u" for t u
    using that by (cases t; cases u) simp_all
  ultimately show "sb_role x = sb_role y \<and> sb_target_ref x = sb_target_ref y"
    using assms by (simp add: key_secondary_work_binding_def)
qed

instantiation secondary_work_binding :: linorder
begin


definition less_eq_secondary_work_binding :: "secondary_work_binding \<Rightarrow> secondary_work_binding \<Rightarrow> bool" where
  "less_eq_secondary_work_binding a b \<longleftrightarrow> key_secondary_work_binding a \<le> key_secondary_work_binding b"

definition less_secondary_work_binding :: "secondary_work_binding \<Rightarrow> secondary_work_binding \<Rightarrow> bool" where
  "less_secondary_work_binding a b \<longleftrightarrow> key_secondary_work_binding a < key_secondary_work_binding b"

instance
proof
  fix x y :: secondary_work_binding
  show "x \<le> y \<Longrightarrow> y \<le> x \<Longrightarrow> x = y"
    by (simp add: less_eq_secondary_work_binding_def key_secondary_work_binding_inject)
qed (auto simp: less_eq_secondary_work_binding_def less_secondary_work_binding_def)

end

record work_binding_revision =
  wb_work_binding_revision_id :: work_binding_revision_id
  wb_operation_id :: operation_id
  wb_revision_generation :: u64
  wb_predecessor_revision_id :: "work_binding_revision_id option"
  wb_primary_binding :: primary_work_binding
  wb_secondary_bindings :: "secondary_work_binding list"
  wb_scope_effect_refs :: "scope_effect_id list"
  wb_assignment_status :: assignment_status
  wb_evidence_refs :: "string list"
  wb_resolver_version :: u32

definition work_binding_revision_validate :: "work_binding_revision \<Rightarrow> (work_error, unit) result" where
  "work_binding_revision_validate b =
    (let paired_base = is_some (pb_task_id (wb_primary_binding b))
           \<and> is_some (pb_workstream_id (wb_primary_binding b));
         valid_primary = (case wb_assignment_status b of
             AssignmentResolved \<Rightarrow> paired_base \<and> wb_evidence_refs b \<noteq> []
           | AssignmentProvisional \<Rightarrow>
               is_some (pb_task_id (wb_primary_binding b))
               = is_some (pb_workstream_id (wb_primary_binding b))
           | _ \<Rightarrow> primary_work_binding_is_empty (wb_primary_binding b))
     in
     if wb_revision_generation b = 0
        \<or> wb_resolver_version b = 0
        \<or> length (wb_secondary_bindings b) > MAX_REFS
        \<or> \<not> strictly_ordered_unique (wb_secondary_bindings b)
        \<or> length (wb_scope_effect_refs b) > MAX_REFS
        \<or> \<not> strictly_ordered_unique (wb_scope_effect_refs b)
        \<or> length (wb_evidence_refs b) > MAX_REFS
        \<or> (\<exists>value \<in> set (wb_evidence_refs b). blank value \<or> length value > MAX_TEXT)
        \<or> \<not> strictly_ordered_unique (wb_evidence_refs b)
        \<or> (wb_revision_generation b = 1) \<noteq> (wb_predecessor_revision_id b = None)
        \<or> \<not> valid_primary
        \<or> (primary_work_binding_has_future_ref (wb_primary_binding b) \<and> \<not> paired_base)
     then Err InvalidWorkIdentity else Ok ())"

definition work_binding_revision_validate_successor ::
  "work_binding_revision \<Rightarrow> work_binding_revision \<Rightarrow> (work_error, unit) result" where
  "work_binding_revision_validate_successor b next =
    and_then (work_binding_revision_validate b) (\<lambda>_.
    and_then (work_binding_revision_validate next) (\<lambda>_.
    and_then (ok_or InvalidWorkIdentity (checked_add (wb_revision_generation b) 1)) (\<lambda>generation.
    let episode_ok = (case (pb_episode_id (wb_primary_binding b), pb_episode_id (wb_primary_binding next)) of
          (None, _) \<Rightarrow> True
        | (Some old, Some new) \<Rightarrow> old = new
        | (Some _, None) \<Rightarrow> False)
    in
    if wb_operation_id next \<noteq> wb_operation_id b
       \<or> wb_revision_generation next \<noteq> generation
       \<or> wb_predecessor_revision_id next \<noteq> Some (wb_work_binding_revision_id b)
       \<or> \<not> episode_ok
    then Err InvalidWorkIdentity else Ok ())))"

record active_work_context =
  ac_operation_id :: operation_id
  ac_work_binding_revision_id :: work_binding_revision_id
  ac_revision_generation :: u64
  ac_assignment_status :: assignment_status
  ac_task_id :: "task_id option"
  ac_workstream_id :: "workstream_id option"
  ac_secondary_bindings :: "secondary_work_binding list"
  ac_scope_effect_refs :: "scope_effect_id list"

definition active_work_context_from_current :: "work_binding_revision \<Rightarrow> active_work_context" where
  "active_work_context_from_current b =
    (let resolved = (wb_assignment_status b = AssignmentResolved) in
     \<lparr>ac_operation_id = wb_operation_id b,
      ac_work_binding_revision_id = wb_work_binding_revision_id b,
      ac_revision_generation = wb_revision_generation b,
      ac_assignment_status = wb_assignment_status b,
      ac_task_id = (if resolved then pb_task_id (wb_primary_binding b) else None),
      ac_workstream_id = (if resolved then pb_workstream_id (wb_primary_binding b) else None),
      ac_secondary_bindings = wb_secondary_bindings b,
      ac_scope_effect_refs = wb_scope_effect_refs b\<rparr>)"

section \<open>Binding histories\<close>

lemma binding_successorD:
  assumes "work_binding_revision_validate_successor a b = Inr ()"
  shows "wb_operation_id b = wb_operation_id a"
    and "unat (wb_revision_generation b) = Suc (unat (wb_revision_generation a))"
    and "work_binding_revision_validate b = Inr ()"
    and "wb_predecessor_revision_id b = Some (wb_work_binding_revision_id a)"
    and "pb_episode_id (wb_primary_binding a) = Some e \<Longrightarrow> pb_episode_id (wb_primary_binding b) = Some e"
  using assms
  by (auto simp: work_binding_revision_validate_successor_def result_simps Let_def
      dest: checked_add_SomeD split: if_splits option.splits)

interpretation bindings: absorbing_chain
  "\<lambda>a b. work_binding_revision_validate_successor a b = Inr ()" wb_operation_id
  "\<lambda>b. unat (wb_revision_generation b)" "\<lambda>b. work_binding_revision_validate b = Inr ()"
  "\<lambda>b. pb_episode_id (wb_primary_binding b) = Some e" for e
  by unfold_locales (auto dest: binding_successorD)

text \<open>
  Every accepted sequence of binding revisions stays with one operation, numbers
  its revisions without gaps, contains only valid revisions, and never moves an
  operation out of an episode it was once bound to.
\<close>

theorem binding_history_stable:
  assumes "windows_all (\<lambda>a b. work_binding_revision_validate_successor a b = Inr ()) (b # bs)"
    and "i \<le> j" and "j < length (b # bs)"
  shows "wb_operation_id ((b # bs) ! j) = wb_operation_id b
    \<and> unat (wb_revision_generation ((b # bs) ! j)) = unat (wb_revision_generation b) + j
    \<and> (0 < j \<longrightarrow> work_binding_revision_validate ((b # bs) ! j) = Inr ())
    \<and> (pb_episode_id (wb_primary_binding ((b # bs) ! i)) = Some e \<longrightarrow>
        pb_episode_id (wb_primary_binding ((b # bs) ! j)) = Some e)"
proof (intro conjI impI)
  show "wb_operation_id ((b # bs) ! j) = wb_operation_id b"
    by (rule bindings.history_ident [OF assms(1) nth_mem [OF assms(3)]])
  show "unat (wb_revision_generation ((b # bs) ! j)) = unat (wb_revision_generation b) + j"
    by (rule bindings.history_gen [OF assms(1,3)])
  show "pb_episode_id (wb_primary_binding ((b # bs) ! j)) = Some e"
    if "pb_episode_id (wb_primary_binding ((b # bs) ! i)) = Some e"
    using bindings.history_absorbed [OF assms] that by blast
  assume "0 < j"
  then have "(b # bs) ! j \<in> set bs" using assms(3) by (cases j) auto
  then show "work_binding_revision_validate ((b # bs) ! j) = Inr ()"
    by (rule bindings.history_well_formed [OF assms(1)])
qed

definition sample_binding :: work_binding_revision where
  "sample_binding = \<lparr>wb_work_binding_revision_id = 1, wb_operation_id = 2,
    wb_revision_generation = 1, wb_predecessor_revision_id = None,
    wb_primary_binding = \<lparr>pb_task_id = Some 3, pb_workstream_id = Some 4, pb_episode_id = Some 5,
      pb_attempt_id = None, pb_experiment_run_id = None, pb_competing_group_id = None\<rparr>,
    wb_secondary_bindings = [], wb_scope_effect_refs = [],
    wb_assignment_status = AssignmentResolved, wb_evidence_refs = [''e''], wb_resolver_version = 1\<rparr>"

definition sample_binding_successor :: work_binding_revision where
  "sample_binding_successor = sample_binding\<lparr>wb_work_binding_revision_id := 9,
    wb_revision_generation := 2, wb_predecessor_revision_id := Some 1\<rparr>"

lemma sample_binding_accepted:
  "work_binding_revision_validate_successor sample_binding sample_binding_successor = Inr ()"
  by (simp add: work_binding_revision_validate_successor_def work_binding_revision_validate_def
      sample_binding_def sample_binding_successor_def MAX_REFS_def MAX_TEXT_def blank_def
      checked_add_def ok_or_def)

theorem binding_history_stable_witness:
  "wb_operation_id sample_binding_successor = wb_operation_id sample_binding
    \<and> pb_episode_id (wb_primary_binding sample_binding_successor) = Some 5"
  using binding_history_stable [of sample_binding "[sample_binding_successor]" 0 1 5]
    sample_binding_accepted by (simp add: sample_binding_def)

text \<open>
  The current context of an operation names an owner exactly when its binding is
  resolved, and then it names both task and workstream; a conflicted, unresolved or
  provisional binding exposes no owner.
\<close>

theorem active_work_context_owner:
  assumes "work_binding_revision_validate b = Inr ()"
  shows "(ac_assignment_status (active_work_context_from_current b) = AssignmentResolved \<longleftrightarrow>
      is_some (ac_task_id (active_work_context_from_current b)))
    \<and> (is_some (ac_task_id (active_work_context_from_current b)) \<longleftrightarrow>
      is_some (ac_workstream_id (active_work_context_from_current b)))
    \<and> (wb_assignment_status b \<noteq> AssignmentResolved \<longrightarrow>
      ac_task_id (active_work_context_from_current b) = None
      \<and> ac_workstream_id (active_work_context_from_current b) = None)"
  using assms
  by (auto simp: active_work_context_from_current_def work_binding_revision_validate_def Let_def
      split: if_splits)

theorem active_work_context_owner_witness:
  "ac_task_id (active_work_context_from_current sample_binding) = Some 3"
proof -
  have "work_binding_revision_validate sample_binding = Inr ()"
    using sample_binding_accepted
    by (simp add: work_binding_revision_validate_successor_def result_simps)
  from active_work_context_owner [OF this] show ?thesis
    by (simp add: active_work_context_from_current_def sample_binding_def)
qed

end
