(* ===== verification/Burst.thy ===== *)
theory Burst
  imports Work_Objects
begin

text \<open>
  Operation bursts: \<open>evertrace-domain/src/work/burst.rs\<close>. A burst is a run of
  operations with the same kind, target and context; the segmentation engine folds
  operations into bursts. A burst is revisioned: while it is open it may gain members
  or be closed, and nothing else about it changes.
\<close>

datatype operation_kind = OpRead | OpSearch | OpMutate | OpVerify | OpBuild | OpLaunch
  | OpObserve | OpIntegrate | OpOther

datatype effect_role = EffectRead | EffectMutate | EffectVerify | EffectLaunch | EffectObserve
  | EffectIntegrate

instantiation effect_role :: linorder
begin

fun rank_effect_role :: "effect_role \<Rightarrow> nat" where
  "rank_effect_role EffectRead = 0"
| "rank_effect_role EffectMutate = 1"
| "rank_effect_role EffectVerify = 2"
| "rank_effect_role EffectLaunch = 3"
| "rank_effect_role EffectObserve = 4"
| "rank_effect_role EffectIntegrate = 5"

definition less_eq_effect_role :: "effect_role \<Rightarrow> effect_role \<Rightarrow> bool" where
  "less_eq_effect_role a b \<longleftrightarrow> rank_effect_role a \<le> rank_effect_role b"

definition less_effect_role :: "effect_role \<Rightarrow> effect_role \<Rightarrow> bool" where
  "less_effect_role a b \<longleftrightarrow> rank_effect_role a < rank_effect_role b"

instance
proof
  fix x y :: effect_role
  show "x \<le> y \<Longrightarrow> y \<le> x \<Longrightarrow> x = y"
    by (cases x; cases y) (simp_all add: less_eq_effect_role_def)
qed (auto simp: less_eq_effect_role_def less_effect_role_def)

end

datatype operation_state_delta = StateNone | StateObserved | StateModified | StateVerified
  | StateFailed | StateRecovered

datatype operation_verifier_delta = VerifierNone | VerifierStarted | VerifierPassed
  | VerifierFailed | VerifierInconclusive

datatype operation_burst_lifecycle = BurstOpen | BurstClosed

record operation_burst_member =
  bm_sequence :: u64
  bm_source_watermark :: u64
  bm_operation_id :: operation_id
  bm_operation_revision :: u32
  bm_host_occurrence_id :: host_occurrence_id
  bm_work_binding_revision_id :: work_binding_revision_id
  bm_attempt_revision_id :: "revision_id option"
  bm_source_observation_refs :: "source_observation_id list"
  bm_scope_effect_refs :: "scope_effect_id list"
  bm_artifact_refs :: "work_artifact_id list"
  bm_side_effects :: "effect_role list"
  bm_worktree_transition_refs :: "worktree_transition_id list"
  bm_integration_event_refs :: "integration_event_id list"

record operation_burst =
  ob_operation_burst_id :: operation_burst_id
  ob_revision_id :: revision_id
  ob_predecessor_revision_id :: "revision_id option"
  ob_revision_generation :: u64
  ob_lifecycle :: operation_burst_lifecycle
  ob_algorithm_revision :: u32
  ob_operation_kind :: operation_kind
  ob_state_delta :: operation_state_delta
  ob_verifier_delta :: operation_verifier_delta
  ob_phase_candidate :: "phase_kind option"
  ob_has_objective_boundary :: bool
  ob_error_signature :: "string option"
  ob_target_family :: string
  ob_target_refs :: "string list"
  ob_members :: "operation_burst_member list"
  ob_execution_lane_id :: execution_lane_id
  ob_parent_lane_id :: "execution_lane_id option"
  ob_subagent_id :: "string option"
  ob_primary_binding :: primary_work_binding
  ob_attempt_id :: "attempt_id option"
  ob_experiment_run_id :: "experiment_run_id option"
  ob_competing_group_id :: "competing_attempt_group_id option"
  ob_worktree_lineage_refs :: "string list"
  ob_strategy_contract_fingerprint :: "bytes option"
  ob_source_watermark :: u64

definition MAX_BURST_MEMBERS :: nat where "MAX_BURST_MEMBERS = 64"
definition MAX_MEMBER_REFS :: nat where "MAX_MEMBER_REFS = 64"

definition operation_burst_member_validate :: "operation_burst_member \<Rightarrow> bool" where
  "operation_burst_member_validate m \<longleftrightarrow>
    bm_sequence m > 0
    \<and> bm_source_watermark m > 0
    \<and> bm_operation_revision m > 0
    \<and> bm_source_observation_refs m \<noteq> []
    \<and> list_all (\<lambda>n. n \<le> MAX_MEMBER_REFS)
        [length (bm_source_observation_refs m), length (bm_scope_effect_refs m),
         length (bm_artifact_refs m), length (bm_side_effects m),
         length (bm_worktree_transition_refs m), length (bm_integration_event_refs m)]
    \<and> strictly_ordered_unique (bm_source_observation_refs m)
    \<and> strictly_ordered_unique (bm_scope_effect_refs m)
    \<and> strictly_ordered_unique (bm_artifact_refs m)
    \<and> strictly_ordered_unique (bm_side_effects m)
    \<and> strictly_ordered_unique (bm_worktree_transition_refs m)
    \<and> strictly_ordered_unique (bm_integration_event_refs m)"

definition operation_burst_text_list :: "string list \<Rightarrow> bool" where
  "operation_burst_text_list values \<longleftrightarrow>
    length values \<le> MAX_MEMBER_REFS \<and> strictly_ordered_unique values
    \<and> (\<forall>value \<in> set values. \<not> blank value \<and> length value \<le> MAX_TEXT)"

definition operation_burst_ordered_members :: "operation_burst_member list \<Rightarrow> bool" where
  "operation_burst_ordered_members ms \<longleftrightarrow>
    ms \<noteq> [] \<and> length ms \<le> MAX_BURST_MEMBERS
    \<and> list_all operation_burst_member_validate ms
    \<and> windows_all (\<lambda>a b. bm_sequence a < bm_sequence b
          \<and> bm_source_watermark a < bm_source_watermark b) ms"

definition operation_burst_validate :: "operation_burst \<Rightarrow> (work_error, unit) result" where
  "operation_burst_validate b =
    (let text_lists = operation_burst_text_list (ob_target_refs b)
           \<and> operation_burst_text_list (ob_worktree_lineage_refs b);
         ordered_members = operation_burst_ordered_members (ob_members b);
         unique_revisions =
           (length (btree_set (map (\<lambda>m. (bm_operation_id m, bm_operation_revision m)) (ob_members b)))
            = length (ob_members b));
         bad_text = (\<lambda>value. blank value \<or> length value > MAX_TEXT)
     in
     if ob_revision_generation b = 0
        \<or> ob_algorithm_revision b = 0
        \<or> (ob_revision_generation b = 1) \<noteq> (ob_predecessor_revision_id b = None)
        \<or> \<not> text_lists
        \<or> blank (ob_target_family b)
        \<or> length (ob_target_family b) > MAX_TEXT
        \<or> \<not> ordered_members
        \<or> \<not> unique_revisions
        \<or> ob_source_watermark b
            \<noteq> (if ob_members b = [] then 0 else bm_source_watermark (last (ob_members b)))
        \<or> is_some_and bad_text (ob_error_signature b)
        \<or> is_some_and bad_text (ob_subagent_id b)
        \<or> pb_task_id (ob_primary_binding b) = None
        \<or> pb_workstream_id (ob_primary_binding b) = None
        \<or> pb_episode_id (ob_primary_binding b) = None
        \<or> pb_attempt_id (ob_primary_binding b) \<noteq> ob_attempt_id b
        \<or> pb_experiment_run_id (ob_primary_binding b) \<noteq> ob_experiment_run_id b
        \<or> pb_competing_group_id (ob_primary_binding b) \<noteq> ob_competing_group_id b
        \<or> (ob_attempt_id b = None
            \<and> (is_some (ob_experiment_run_id b) \<or> is_some (ob_competing_group_id b)
                \<or> is_some (ob_strategy_contract_fingerprint b)))
        \<or> (\<exists>m \<in> set (ob_members b).
              is_some (bm_attempt_revision_id m) \<noteq> is_some (ob_attempt_id b)
            \<or> (ob_attempt_id b = None
                \<and> (bm_worktree_transition_refs m \<noteq> [] \<or> bm_integration_event_refs m \<noteq> [])))
     then Err InvalidWorkIdentity else Ok ())"

text \<open>\<open>next.members.starts_with(&self.members)\<close>\<close>

definition starts_with :: "'a list \<Rightarrow> 'a list \<Rightarrow> bool" where
  "starts_with xs ys \<longleftrightarrow> take (length ys) xs = ys"

definition operation_burst_validate_successor ::
  "operation_burst \<Rightarrow> operation_burst \<Rightarrow> (work_error, unit) result" where
  "operation_burst_validate_successor b next =
    and_then (operation_burst_validate b) (\<lambda>_.
    and_then (operation_burst_validate next) (\<lambda>_.
    if ob_operation_burst_id next \<noteq> ob_operation_burst_id b
       \<or> ob_revision_id next = ob_revision_id b
       \<or> ob_predecessor_revision_id next \<noteq> Some (ob_revision_id b)
    then Err InvalidWorkIdentity
    else
    and_then (ok_or InvalidWorkIdentity (checked_add (ob_revision_generation b) 1)) (\<lambda>generation.
    if ob_revision_generation next \<noteq> generation
       \<or> ob_lifecycle b = BurstClosed
       \<or> ob_algorithm_revision next \<noteq> ob_algorithm_revision b
       \<or> ob_operation_kind next \<noteq> ob_operation_kind b
       \<or> ob_state_delta next \<noteq> ob_state_delta b
       \<or> ob_verifier_delta next \<noteq> ob_verifier_delta b
       \<or> ob_phase_candidate next \<noteq> ob_phase_candidate b
       \<or> ob_has_objective_boundary next \<noteq> ob_has_objective_boundary b
       \<or> ob_error_signature next \<noteq> ob_error_signature b
       \<or> ob_target_family next \<noteq> ob_target_family b
       \<or> ob_target_refs next \<noteq> ob_target_refs b
       \<or> ob_execution_lane_id next \<noteq> ob_execution_lane_id b
       \<or> ob_parent_lane_id next \<noteq> ob_parent_lane_id b
       \<or> ob_subagent_id next \<noteq> ob_subagent_id b
       \<or> ob_primary_binding next \<noteq> ob_primary_binding b
       \<or> ob_attempt_id next \<noteq> ob_attempt_id b
       \<or> ob_experiment_run_id next \<noteq> ob_experiment_run_id b
       \<or> ob_competing_group_id next \<noteq> ob_competing_group_id b
       \<or> ob_worktree_lineage_refs next \<noteq> ob_worktree_lineage_refs b
       \<or> ob_strategy_contract_fingerprint next \<noteq> ob_strategy_contract_fingerprint b
       \<or> ob_source_watermark next < ob_source_watermark b
       \<or> \<not> starts_with (ob_members next) (ob_members b)
    then Err InvalidWorkIdentity else Ok ())))"

definition operation_burst_is_meaningful_after ::
  "operation_burst \<Rightarrow> operation_burst option \<Rightarrow> bool" where
  "operation_burst_is_meaningful_after b previous \<longleftrightarrow>
    ob_operation_kind b \<notin> {OpRead, OpSearch, OpObserve}
    \<or> ob_state_delta b \<notin> {StateNone, StateObserved}
    \<or> is_some (ob_error_signature b)
    \<or> ob_verifier_delta b \<noteq> VerifierNone
    \<or> is_some (ob_phase_candidate b)
    \<or> ob_has_objective_boundary b
    \<or> (\<exists>m \<in> set (ob_members b).
          bm_artifact_refs m \<noteq> [] \<or> bm_worktree_transition_refs m \<noteq> []
        \<or> bm_integration_event_refs m \<noteq> []
        \<or> (\<exists>role \<in> set (bm_side_effects m). role \<notin> {EffectRead, EffectObserve}))
    \<or> is_some_and (\<lambda>value. ob_target_family value \<noteq> ob_target_family b
          \<or> ob_target_refs value \<noteq> ob_target_refs b) previous"

section \<open>Burst histories\<close>

text \<open>Everything of a burst that no successor may change.\<close>

definition burst_context :: "operation_burst \<Rightarrow> operation_burst" where
  "burst_context b = b\<lparr>ob_revision_id := 0, ob_predecessor_revision_id := None,
    ob_revision_generation := 0, ob_lifecycle := BurstOpen, ob_members := [],
    ob_source_watermark := 0\<rparr>"

lemma burst_successorD:
  assumes "operation_burst_validate_successor a b = Inr ()"
  shows "burst_context b = burst_context a"
    and "unat (ob_revision_generation b) = Suc (unat (ob_revision_generation a))"
    and "operation_burst_validate b = Inr ()"
    and "ob_lifecycle a = BurstOpen"
    and "\<exists>ms. ob_members b = ob_members a @ ms"
    and "ob_source_watermark a \<le> ob_source_watermark b"
    and "ob_predecessor_revision_id b = Some (ob_revision_id a)"
proof -
  have *: "operation_burst_validate b = Inr ()"
      "checked_add (ob_revision_generation a) 1 = Some (ob_revision_generation b)"
      "ob_lifecycle a \<noteq> BurstClosed" "starts_with (ob_members b) (ob_members a)"
    and ctx: "burst_context b = burst_context a"
      "\<not> ob_source_watermark b < ob_source_watermark a"
      "ob_predecessor_revision_id b = Some (ob_revision_id a)"
    using assms
    by (auto simp: operation_burst_validate_successor_def result_simps burst_context_def
        split: if_splits)
  show "burst_context b = burst_context a" "operation_burst_validate b = Inr ()"
    "ob_predecessor_revision_id b = Some (ob_revision_id a)"
    using * ctx by simp_all
  show "unat (ob_revision_generation b) = Suc (unat (ob_revision_generation a))"
    using checked_add_SomeD [OF *(2)] by simp
  show "ob_lifecycle a = BurstOpen" using *(3) by (cases "ob_lifecycle a") auto
  show "\<exists>ms. ob_members b = ob_members a @ ms"
    using *(4) unfolding starts_with_def by (metis append_take_drop_id)
  show "ob_source_watermark a \<le> ob_source_watermark b" using ctx(2) by simp
qed

lemma starts_with_iff: "starts_with xs ys \<longleftrightarrow> (\<exists>zs. xs = ys @ zs)"
  unfolding starts_with_def by (metis append_eq_conv_conj append_take_drop_id)

interpretation bursts: absorbing_chain
  "\<lambda>a b. operation_burst_validate_successor a b = Inr ()" burst_context
  "\<lambda>b. unat (ob_revision_generation b)" "\<lambda>b. operation_burst_validate b = Inr ()"
  "\<lambda>b. starts_with (ob_members b) ms" for ms
proof unfold_locales
  fix a b
  assume s: "operation_burst_validate_successor a b = Inr ()"
  show "burst_context b = burst_context a" and "operation_burst_validate b = Inr ()"
    and "unat (ob_revision_generation b) = Suc (unat (ob_revision_generation a))"
    by (rule burst_successorD [OF s])+
  show "starts_with (ob_members b) ms" if "starts_with (ob_members a) ms"
    using that burst_successorD(5) [OF s] by (auto simp: starts_with_iff)
qed

lemma valid_burst_members:
  assumes "operation_burst_validate b = Inr ()"
  shows "ob_members b \<noteq> []" and "length (ob_members b) \<le> 64"
    and "sorted_wrt (\<lambda>m n. bm_sequence m < bm_sequence n) (ob_members b)"
    and "sorted_wrt (\<lambda>m n. bm_source_watermark m < bm_source_watermark n) (ob_members b)"
    and "distinct (map (\<lambda>m. (bm_operation_id m, bm_operation_revision m)) (ob_members b))"
    and "ob_source_watermark b = bm_source_watermark (last (ob_members b))"
proof -
  have om: "operation_burst_ordered_members (ob_members b)"
    and un: "length (btree_set (map (\<lambda>m. (bm_operation_id m, bm_operation_revision m)) (ob_members b)))
        = length (ob_members b)"
    and wm: "ob_source_watermark b
        = (if ob_members b = [] then 0 else bm_source_watermark (last (ob_members b)))"
    using assms by (auto simp: operation_burst_validate_def Let_def split: if_splits)
  show ne: "ob_members b \<noteq> []" and "length (ob_members b) \<le> 64"
    using om by (simp_all add: operation_burst_ordered_members_def MAX_BURST_MEMBERS_def)
  let ?before = "\<lambda>a b. bm_sequence a < bm_sequence b \<and> bm_source_watermark a < bm_source_watermark b"
  have "transp ?before" by (rule transpI) auto
  moreover have "windows_all ?before (ob_members b)"
    using om by (simp add: operation_burst_ordered_members_def)
  ultimately have "sorted_wrt ?before (ob_members b)"
    by (rule windows_all_sorted_wrt [THEN iffD1])
  then show "sorted_wrt (\<lambda>m n. bm_sequence m < bm_sequence n) (ob_members b)"
    and "sorted_wrt (\<lambda>m n. bm_source_watermark m < bm_source_watermark n) (ob_members b)"
    by (rule sorted_wrt_mono_rel [rotated], simp)+
  show "distinct (map (\<lambda>m. (bm_operation_id m, bm_operation_revision m)) (ob_members b))"
    using un length_btree_set_eq_iff
      [of "map (\<lambda>m. (bm_operation_id m, bm_operation_revision m)) (ob_members b)"] by simp
  show "ob_source_watermark b = bm_source_watermark (last (ob_members b))"
    using ne wm by simp
qed

text \<open>
  A burst only grows, and only while it is open: along any accepted sequence of
  revisions the context (kind, target, lane, binding, attempt, \<dots>) is fixed, the
  members of an earlier revision are an initial segment of the members of a later
  one, revisions are numbered without gaps, every revision that has a successor is
  open, and every successor holds at most 64 members in strictly increasing sequence
  and watermark order.
\<close>

theorem burst_history_append_only:
  assumes "windows_all (\<lambda>a b. operation_burst_validate_successor a b = Inr ()) (b # bs)"
    and "i < j" and "j < length (b # bs)"
  shows "burst_context ((b # bs) ! j) = burst_context ((b # bs) ! i)
    \<and> unat (ob_revision_generation ((b # bs) ! j)) = unat (ob_revision_generation b) + j
    \<and> (\<exists>ms. ob_members ((b # bs) ! j) = ob_members ((b # bs) ! i) @ ms)
    \<and> ob_lifecycle ((b # bs) ! i) = BurstOpen
    \<and> length (ob_members ((b # bs) ! j)) \<le> 64
    \<and> sorted_wrt (\<lambda>m n. bm_sequence m < bm_sequence n) (ob_members ((b # bs) ! j))
    \<and> ob_source_watermark ((b # bs) ! j) = bm_source_watermark (last (ob_members ((b # bs) ! j)))"
proof -
  let ?x = "(b # bs) ! i" and ?y = "(b # bs) ! j"
  have "burst_context ?y = burst_context b"
    by (rule bursts.history_ident [OF assms(1) nth_mem [OF assms(3)]])
  moreover have "burst_context ?x = burst_context b"
    using assms(2,3) by (intro bursts.history_ident [OF assms(1) nth_mem]) simp
  moreover have "unat (ob_revision_generation ?y) = unat (ob_revision_generation b) + j"
    by (rule bursts.history_gen [OF assms(1,3)])
  moreover have "starts_with (ob_members ?y) (ob_members ?x)"
    using bursts.history_absorbed [OF assms(1) less_imp_le [OF assms(2)] assms(3), of "ob_members ?x"]
    by (simp add: starts_with_def)
  moreover have "ob_lifecycle ?x = BurstOpen"
    using windows_all_nth [OF assms(1), of i] assms(2,3) by (intro burst_successorD(4)) simp
  moreover have "?y \<in> set bs" using assms(2,3) by (cases j) auto
  then have "operation_burst_validate ?y = Inr ()"
    by (rule bursts.history_well_formed [OF assms(1)])
  ultimately show ?thesis
    using valid_burst_members [of ?y] by (simp add: starts_with_iff)
qed

definition sample_member :: operation_burst_member where
  "sample_member = \<lparr>bm_sequence = 1, bm_source_watermark = 1, bm_operation_id = 7,
    bm_operation_revision = 1, bm_host_occurrence_id = [], bm_work_binding_revision_id = 8,
    bm_attempt_revision_id = None, bm_source_observation_refs = [[1]], bm_scope_effect_refs = [],
    bm_artifact_refs = [], bm_side_effects = [EffectRead], bm_worktree_transition_refs = [],
    bm_integration_event_refs = []\<rparr>"

definition sample_burst :: operation_burst where
  "sample_burst = \<lparr>ob_operation_burst_id = 1, ob_revision_id = 2, ob_predecessor_revision_id = None,
    ob_revision_generation = 1, ob_lifecycle = BurstOpen, ob_algorithm_revision = 2,
    ob_operation_kind = OpRead, ob_state_delta = StateNone, ob_verifier_delta = VerifierNone,
    ob_phase_candidate = None, ob_has_objective_boundary = False, ob_error_signature = None,
    ob_target_family = ''src'', ob_target_refs = [''a.rs''], ob_members = [sample_member],
    ob_execution_lane_id = 3, ob_parent_lane_id = None, ob_subagent_id = None,
    ob_primary_binding = \<lparr>pb_task_id = Some 4, pb_workstream_id = Some 5, pb_episode_id = Some 6,
      pb_attempt_id = None, pb_experiment_run_id = None, pb_competing_group_id = None\<rparr>,
    ob_attempt_id = None, ob_experiment_run_id = None, ob_competing_group_id = None,
    ob_worktree_lineage_refs = [], ob_strategy_contract_fingerprint = None,
    ob_source_watermark = 1\<rparr>"

definition sample_closed_burst :: operation_burst where
  "sample_closed_burst = sample_burst\<lparr>ob_revision_id := 9, ob_predecessor_revision_id := Some 2,
    ob_revision_generation := 2, ob_lifecycle := BurstClosed\<rparr>"

lemma sample_burst_accepted:
  "operation_burst_validate_successor sample_burst sample_closed_burst = Inr ()"
  by (simp add: operation_burst_validate_successor_def operation_burst_validate_def
      sample_burst_def sample_closed_burst_def sample_member_def Let_def
      operation_burst_text_list_def operation_burst_ordered_members_def
      operation_burst_member_validate_def MAX_BURST_MEMBERS_def MAX_MEMBER_REFS_def MAX_TEXT_def
      blank_def checked_add_def ok_or_def starts_with_def btree_set_def)

theorem burst_history_append_only_witness:
  "burst_context sample_closed_burst = burst_context sample_burst
    \<and> ob_lifecycle sample_burst = BurstOpen \<and> length (ob_members sample_closed_burst) \<le> 64"
  using burst_history_append_only [of sample_burst "[sample_closed_burst]" 0 1] sample_burst_accepted
  by simp

end
