(* ===== verification/Lane_Capture.thy ===== *)
theory Lane_Capture
  imports Work_Base
begin

text \<open>
  Execution lanes and capture receipts: \<open>evertrace-domain/src/work.rs\<close>. A lane is
  one agent's run inside a host session; a receipt says how complete the captured
  evidence of that lane is. \<open>resolve_capture\<close> computes the next lane revision and its
  receipt from the collected evidence; everything later in the system (summaries,
  episodes, recovery) relies on what it promises here.

  A \<open>BTreeSet<String>\<close> field is a list used as a set. \<open>lane_revision + 1\<close> is u32
  addition and wraps, as the release profile does; a wrapped revision is refused by
  the lane's own check, so it is never returned.
\<close>

datatype identity_strength = StableNative | StableSourceSequence | SynthesizedBestEffort

datatype lane_status = LaneActive | LaneReturned | LaneStopped | LaneInterrupted
  | LaneInterruptedUnconfirmed | LaneUnresolved

datatype terminal_kind = TerminalNormal | TerminalTimeout | TerminalCancelled | TerminalCrashed
  | TerminalSourceClosedUnconfirmed

datatype liveness_state = LivenessLive | LivenessAbsent | LivenessUnknown

datatype coverage_level = CoverageFull | CoveragePartial | CoverageOpaque

datatype source_coverage = SourceOpen | SourceComplete | SourcePartial | SourceUnavailable

datatype pairing_integrity = PairingComplete | PairingUnmatched | PairingUnavailable

datatype payload_integrity = PayloadComplete | PayloadRedacted | PayloadTruncated
  | PayloadCorrupt | PayloadUnavailable

datatype ordering_integrity = OrderingComplete | OrderingGapped | OrderingRaced
  | OrderingBestEffort | OrderingUnavailable

datatype reasoning_visibility = ReasoningRaw | ReasoningSummary | ReasoningExplicitRationale

datatype admission_failure_observability = ObservabilityComplete | ObservabilityReconcilable
  | ObservabilityBestEffort | ObservabilityUnavailable

instantiation reasoning_visibility :: linorder
begin

fun rank_reasoning_visibility :: "reasoning_visibility \<Rightarrow> nat" where
  "rank_reasoning_visibility ReasoningRaw = 0"
| "rank_reasoning_visibility ReasoningSummary = 1"
| "rank_reasoning_visibility ReasoningExplicitRationale = 2"

definition less_eq_reasoning_visibility :: "reasoning_visibility \<Rightarrow> reasoning_visibility \<Rightarrow> bool" where
  "less_eq_reasoning_visibility a b \<longleftrightarrow> rank_reasoning_visibility a \<le> rank_reasoning_visibility b"

definition less_reasoning_visibility :: "reasoning_visibility \<Rightarrow> reasoning_visibility \<Rightarrow> bool" where
  "less_reasoning_visibility a b \<longleftrightarrow> rank_reasoning_visibility a < rank_reasoning_visibility b"

instance
proof
  fix x y :: reasoning_visibility
  show "x \<le> y \<Longrightarrow> y \<le> x \<Longrightarrow> x = y"
    by (cases x; cases y) (simp_all add: less_eq_reasoning_visibility_def)
qed (auto simp: less_eq_reasoning_visibility_def less_reasoning_visibility_def)

end

datatype sequence_gap = SequenceGap (gap_first_sequence: u64) (gap_last_sequence: u64)

instantiation sequence_gap :: linorder
begin

definition less_eq_sequence_gap :: "sequence_gap \<Rightarrow> sequence_gap \<Rightarrow> bool" where
  "less_eq_sequence_gap a b \<longleftrightarrow> gap_first_sequence a < gap_first_sequence b
    \<or> gap_first_sequence a = gap_first_sequence b \<and> gap_last_sequence a \<le> gap_last_sequence b"

definition less_sequence_gap :: "sequence_gap \<Rightarrow> sequence_gap \<Rightarrow> bool" where
  "less_sequence_gap a b \<longleftrightarrow> gap_first_sequence a < gap_first_sequence b
    \<or> gap_first_sequence a = gap_first_sequence b \<and> gap_last_sequence a < gap_last_sequence b"

instance
  by standard (auto simp: less_eq_sequence_gap_def less_sequence_gap_def sequence_gap.expand)

end

definition sequence_gap_validate :: "sequence_gap \<Rightarrow> (work_error, unit) result" where
  "sequence_gap_validate g =
    (if gap_first_sequence g > gap_last_sequence g then Err InvalidReceipt else Ok ())"

record lane_lifecycle_evidence =
  le_host_session_id :: string
  le_agent_id :: string
  le_incarnation_ref :: "string option"
  le_child_session_id :: "string option"
  le_host_lane_key :: string
  le_parent_host_lane_key :: "string option"
  le_spawn_event_ref :: "string option"
  le_terminal_event_ref :: "string option"
  le_terminal_kind :: "terminal_kind option"
  le_host_final_return :: bool
  le_source_close_ref :: "string option"
  le_parent_session_end_ref :: "string option"
  le_liveness_probe_ref :: "string option"
  le_liveness_state :: liveness_state
  le_lane_sequence :: u64
  le_adapter_manifest_ref :: string
  le_eligible_event_manifest_ref :: string
  le_delegated_goal_ref :: "string option"
  le_delegated_target_refs :: "string list"
  le_delegated_acceptance_refs :: "string list"
  le_reasoning_visibility :: "reasoning_visibility list"

record execution_lane =
  el_execution_lane_id :: execution_lane_id
  el_lane_revision :: u32
  el_predecessor_revision :: "u32 option"
  el_host_session_id :: string
  el_agent_id :: string
  el_host_lane_key :: string
  el_incarnation_ref :: string
  el_parent_lane_id :: "execution_lane_id option"
  el_parent_host_lane_key :: "string option"
  el_spawn_event_ref :: "string option"
  el_terminal_event_ref :: "string option"
  el_termination_evidence_refs :: "string list"
  el_delegated_goal_ref :: "string option"
  el_delegated_target_refs :: "string list"
  el_delegated_acceptance_refs :: "string list"
  el_status :: lane_status
  el_terminal_kind :: "terminal_kind option"
  el_liveness_state :: liveness_state
  el_liveness_probe_refs :: "string list"
  el_finalized :: bool
  el_event_watermark :: u64
  el_adapter_manifest_ids :: "string list"
  el_active_capture_receipt_revision_id :: capture_receipt_id
  el_coverage_level :: coverage_level
  el_source_coverage :: source_coverage
  el_pairing_integrity :: pairing_integrity
  el_payload_integrity :: payload_integrity
  el_ordering_integrity :: ordering_integrity
  el_reasoning_visibility :: "reasoning_visibility list"
  el_operation_ids :: "operation_id list"
  el_correction_reason :: "string option"

record capture_receipt =
  cr_capture_receipt_revision_id :: capture_receipt_id
  cr_execution_lane_id :: execution_lane_id
  cr_predecessor_revision_id :: "capture_receipt_id option"
  cr_adapter_manifest_ids :: "string list"
  cr_eligible_event_manifest_refs :: "string list"
  cr_source_revision_refs :: "string list"
  cr_source_close_watermark_refs :: "string list"
  cr_source_close_reconciliation_refs :: "string list"
  cr_admission_failure_evidence_refs :: "string list"
  cr_admission_failure_observability :: admission_failure_observability
  cr_identity_strength :: identity_strength
  cr_delegation_start_seen :: bool
  cr_child_session_linked :: bool
  cr_child_session_id :: "string option"
  cr_parent_session_end_seen :: bool
  cr_lifecycle_end_seen :: bool
  cr_terminal_event_kind :: "terminal_kind option"
  cr_terminal_event_ref :: "string option"
  cr_termination_evidence_refs :: "string list"
  cr_source_closed_refs :: "string list"
  cr_liveness_probe_refs :: "string list"
  cr_finalization_reason :: "string option"
  cr_first_sequence :: "u64 option"
  cr_last_sequence :: "u64 option"
  cr_sequence_gaps :: "sequence_gap list"
  cr_capture_gap_marker_refs :: "string list"
  cr_capture_outage_interval_refs :: "capture_outage_interval_id list"
  cr_tool_calls_seen :: "string list"
  cr_tool_results_seen :: "string list"
  cr_unmatched_tool_call_ids :: "string list"
  cr_unmatched_tool_result_ids :: "string list"
  cr_payload_truncations :: "string list"
  cr_redaction_refs :: "string list"
  cr_corrupt_payload_refs :: "string list"
  cr_unsupported_record_types :: "string list"
  cr_import_watermark :: u64
  cr_finalized :: bool
  cr_coverage_level :: coverage_level
  cr_source_coverage :: source_coverage
  cr_pairing_integrity :: pairing_integrity
  cr_payload_integrity :: payload_integrity
  cr_ordering_integrity :: ordering_integrity
  cr_reasoning_visibility :: "reasoning_visibility list"
  cr_exact_byte_replay :: bool
  cr_resolver_version :: u32

record capture_resolver_input =
  ci_execution_lane_id :: execution_lane_id
  ci_capture_receipt_revision_id :: capture_receipt_id
  ci_previous_lane :: "execution_lane option"
  ci_previous_receipt :: "capture_receipt option"
  ci_host_session_id :: string
  ci_agent_id :: string
  ci_host_lane_key :: string
  ci_incarnation_ref :: string
  ci_parent_lane_id :: "execution_lane_id option"
  ci_parent_host_lane_key :: "string option"
  ci_spawn_event_ref :: "string option"
  ci_terminal_event_ref :: "string option"
  ci_terminal_kind :: "terminal_kind option"
  ci_host_final_return :: bool
  ci_parent_session_end_seen :: bool
  ci_liveness_state :: liveness_state
  ci_liveness_probe_refs :: "string list"
  ci_all_sources_closed :: bool
  ci_source_closed_refs :: "string list"
  ci_source_close_watermark_refs :: "string list"
  ci_source_close_reconciliation_refs :: "string list"
  ci_source_reconciliation_complete :: bool
  ci_adapter_manifest_ids :: "string list"
  ci_eligible_event_manifest_refs :: "string list"
  ci_source_revision_refs :: "string list"
  ci_manifest_coverage :: "coverage_level list"
  ci_required_for_full :: "string list"
  ci_observed_capabilities :: "string list"
  ci_admission_failure_observability :: admission_failure_observability
  ci_independent_reconciliation :: bool
  ci_admission_failure_evidence_refs :: "string list"
  ci_identity_strength :: identity_strength
  ci_child_session_id :: "string option"
  ci_first_sequence :: "u64 option"
  ci_last_sequence :: "u64 option"
  ci_sequence_gaps :: "sequence_gap list"
  ci_capture_gap_marker_refs :: "string list"
  ci_unresolved_gap_marker_refs :: "string list"
  ci_capture_outage_interval_refs :: "capture_outage_interval_id list"
  ci_unresolved_outage_interval_refs :: "capture_outage_interval_id list"
  ci_tool_calls_seen :: "string list"
  ci_tool_results_seen :: "string list"
  ci_unmatched_tool_call_ids :: "string list"
  ci_unmatched_tool_result_ids :: "string list"
  ci_payload_truncations :: "string list"
  ci_redaction_refs :: "string list"
  ci_corrupt_payload_refs :: "string list"
  ci_unavailable_payload_refs :: "string list"
  ci_unsupported_record_types :: "string list"
  ci_causal_race :: bool
  ci_ordering_best_effort :: bool
  ci_reasoning_visibility :: "reasoning_visibility list"
  ci_import_watermark :: u64
  ci_delegated_goal_ref :: "string option"
  ci_delegated_target_refs :: "string list"
  ci_delegated_acceptance_refs :: "string list"
  ci_operation_ids :: "operation_id list"
  ci_correction_reason :: "string option"

definition CAPTURE_RESOLVER_VERSION :: u32 where "CAPTURE_RESOLVER_VERSION = 1"

definition lane_lifecycle_evidence_validate ::
  "lane_lifecycle_evidence \<Rightarrow> (work_error, unit) result" where
  "lane_lifecycle_evidence_validate e =
    and_then (for_each valid_ref
      [le_host_session_id e, le_agent_id e, le_host_lane_key e, le_adapter_manifest_ref e,
       le_eligible_event_manifest_ref e]) (\<lambda>_.
    and_then (for_each valid_ref (List.map_filter id
      [le_incarnation_ref e, le_parent_host_lane_key e, le_child_session_id e,
       le_spawn_event_ref e, le_terminal_event_ref e, le_source_close_ref e,
       le_parent_session_end_ref e, le_liveness_probe_ref e, le_delegated_goal_ref e])) (\<lambda>_.
    and_then (for_each valid_ref
      (le_delegated_target_refs e @ le_delegated_acceptance_refs e)) (\<lambda>_.
    and_then (require_unique (le_delegated_target_refs e)) (\<lambda>_.
    and_then (require_unique (le_delegated_acceptance_refs e)) (\<lambda>_.
    and_then (require_unique (le_reasoning_visibility e)) (\<lambda>_.
    if is_some (le_terminal_kind e) \<noteq> is_some (le_terminal_event_ref e)
       \<or> (le_host_final_return e \<and> le_terminal_kind e \<noteq> Some TerminalNormal)
       \<or> le_terminal_kind e = Some TerminalSourceClosedUnconfirmed
    then Err InvalidLifecycle else Ok ()))))))"

definition terminal_reference_is_valid :: "terminal_kind option \<Rightarrow> string option \<Rightarrow> bool" where
  "terminal_reference_is_valid kind event_ref =
    (case kind of
       Some TerminalSourceClosedUnconfirmed \<Rightarrow> event_ref = None
     | Some _ \<Rightarrow> is_some event_ref
     | None \<Rightarrow> event_ref = None)"

definition receipt_terminal_is_valid ::
  "terminal_kind option \<Rightarrow> string option \<Rightarrow> bool \<Rightarrow> bool" where
  "receipt_terminal_is_valid kind event_ref lifecycle_end_seen =
    (case kind of
       Some TerminalSourceClosedUnconfirmed \<Rightarrow> event_ref = None \<and> \<not> lifecycle_end_seen
     | Some _ \<Rightarrow> is_some event_ref \<and> lifecycle_end_seen
     | None \<Rightarrow> event_ref = None \<and> \<not> lifecycle_end_seen)"

definition execution_lane_validate :: "execution_lane \<Rightarrow> (work_error, unit) result" where
  "execution_lane_validate l =
    (if el_lane_revision l = 0
        \<or> el_predecessor_revision l
            \<noteq> (if el_lane_revision l > 1 then Some (el_lane_revision l - 1) else None)
        \<or> el_finalized l
            \<noteq> (el_status l \<in> {LaneReturned, LaneStopped, LaneInterrupted, LaneInterruptedUnconfirmed})
        \<or> (el_status l \<in> {LaneActive, LaneUnresolved} \<and> is_some (el_terminal_kind l))
        \<or> (el_status l = LaneInterruptedUnconfirmed
            \<and> el_terminal_kind l \<noteq> Some TerminalSourceClosedUnconfirmed)
        \<or> (el_status l \<in> {LaneReturned, LaneStopped} \<and> el_terminal_kind l \<noteq> Some TerminalNormal)
        \<or> (el_status l = LaneInterrupted
            \<and> el_terminal_kind l
                \<notin> {Some TerminalTimeout, Some TerminalCancelled, Some TerminalCrashed})
        \<or> \<not> terminal_reference_is_valid (el_terminal_kind l) (el_terminal_event_ref l)
     then Err InvalidLane
     else
       and_then (for_each valid_ref
         [el_host_session_id l, el_agent_id l, el_host_lane_key l, el_incarnation_ref l]) (\<lambda>_.
       and_then (require_unique (el_adapter_manifest_ids l)) (\<lambda>_.
       and_then (require_unique (el_termination_evidence_refs l)) (\<lambda>_.
       and_then (require_unique (el_liveness_probe_refs l)) (\<lambda>_.
       require_unique (el_operation_ids l))))))"

definition capture_receipt_validate :: "capture_receipt \<Rightarrow> (work_error, unit) result" where
  "capture_receipt_validate r =
    (if cr_resolver_version r = 0
        \<or> cr_predecessor_revision_id r = Some (cr_capture_receipt_revision_id r)
        \<or> cr_exact_byte_replay r \<noteq> (cr_payload_integrity r = PayloadComplete)
        \<or> (case (cr_first_sequence r, cr_last_sequence r) of
             (Some a, Some b) \<Rightarrow> a > b | _ \<Rightarrow> False)
        \<or> cr_child_session_linked r \<noteq> is_some (cr_child_session_id r)
        \<or> \<not> receipt_terminal_is_valid (cr_terminal_event_kind r) (cr_terminal_event_ref r)
              (cr_lifecycle_end_seen r)
     then Err InvalidReceipt
     else
       and_then (require_unique (cr_adapter_manifest_ids r)) (\<lambda>_.
       and_then (require_unique (cr_eligible_event_manifest_refs r)) (\<lambda>_.
       and_then (require_unique (cr_source_revision_refs r)) (\<lambda>_.
       and_then (require_unique (cr_capture_gap_marker_refs r)) (\<lambda>_.
       and_then (require_unique (cr_capture_outage_interval_refs r)) (\<lambda>_.
       and_then (require_unique (cr_sequence_gaps r)) (\<lambda>_.
       and_then (require_unique (cr_reasoning_visibility r)) (\<lambda>_.
       and_then (for_each sequence_gap_validate (cr_sequence_gaps r)) (\<lambda>_.
       case cr_child_session_id r of Some child \<Rightarrow> valid_ref child | None \<Rightarrow> Ok ())))))))))"

section \<open>Resolving a lane\<close>

definition resolve_coverage_level :: "capture_resolver_input \<Rightarrow> coverage_level" where
  "resolve_coverage_level i =
    (if ci_manifest_coverage i = [] \<or> CoverageOpaque \<in> set (ci_manifest_coverage i)
     then CoverageOpaque
     else if CoveragePartial \<in> set (ci_manifest_coverage i)
        \<or> ci_child_session_id i = None
        \<or> \<not> set (ci_required_for_full i) \<subseteq> set (ci_observed_capabilities i)
     then CoveragePartial
     else CoverageFull)"

definition resolve_source_coverage :: "capture_resolver_input \<Rightarrow> source_coverage" where
  "resolve_source_coverage i =
    (if ci_source_revision_refs i = [] then SourceUnavailable
     else if \<not> ci_all_sources_closed i then SourceOpen
     else if ci_eligible_event_manifest_refs i = []
        \<or> \<not> ci_source_reconciliation_complete i
        \<or> ci_unresolved_gap_marker_refs i \<noteq> []
        \<or> ci_unresolved_outage_interval_refs i \<noteq> []
        \<or> (ci_admission_failure_observability i
              \<notin> {ObservabilityComplete, ObservabilityReconcilable}
            \<and> \<not> ci_independent_reconciliation i)
        \<or> ci_unsupported_record_types i \<noteq> []
     then SourcePartial
     else SourceComplete)"

definition resolve_pairing_integrity :: "capture_resolver_input \<Rightarrow> pairing_integrity" where
  "resolve_pairing_integrity i =
    (if ci_tool_calls_seen i = [] \<and> ci_tool_results_seen i = [] then PairingUnavailable
     else if ci_unmatched_tool_call_ids i = [] \<and> ci_unmatched_tool_result_ids i = []
     then PairingComplete
     else PairingUnmatched)"

definition resolve_payload_integrity :: "capture_resolver_input \<Rightarrow> payload_integrity" where
  "resolve_payload_integrity i =
    (if ci_corrupt_payload_refs i \<noteq> [] then PayloadCorrupt
     else if ci_unavailable_payload_refs i \<noteq> [] \<or> ci_unresolved_gap_marker_refs i \<noteq> []
     then PayloadUnavailable
     else if ci_payload_truncations i \<noteq> [] then PayloadTruncated
     else if ci_redaction_refs i \<noteq> [] then PayloadRedacted
     else PayloadComplete)"

definition resolve_ordering_integrity :: "capture_resolver_input \<Rightarrow> ordering_integrity" where
  "resolve_ordering_integrity i =
    (if ci_source_revision_refs i = [] then OrderingUnavailable
     else if ci_sequence_gaps i \<noteq> [] \<or> ci_unresolved_outage_interval_refs i \<noteq> []
     then OrderingGapped
     else if ci_causal_race i then OrderingRaced
     else if ci_ordering_best_effort i then OrderingBestEffort
     else OrderingComplete)"

text \<open>
  The \<open>match input.terminal_kind\<close> that yields status, terminal kind, finalized flag
  and finalization reason.
\<close>

definition resolve_lane_status ::
  "capture_resolver_input \<Rightarrow>
    (work_error, lane_status \<times> terminal_kind option \<times> bool \<times> string option) result" where
  "resolve_lane_status i =
    (let previous_status = (case ci_previous_lane i of None \<Rightarrow> LaneActive | Some l \<Rightarrow> el_status l) in
     case ci_terminal_kind i of
       Some TerminalNormal \<Rightarrow>
         Ok (if ci_host_final_return i then LaneReturned else LaneStopped, ci_terminal_kind i, True,
             Some (if ci_host_final_return i then ''host_final_return'' else ''explicit_terminal''))
     | Some TerminalSourceClosedUnconfirmed \<Rightarrow> Err InvalidLifecycle
     | Some kind \<Rightarrow> Ok (LaneInterrupted, Some kind, True, Some ''explicit_interruption'')
     | None \<Rightarrow>
         if ci_all_sources_closed i \<and> ci_liveness_state i = LivenessAbsent then
           Ok (LaneInterruptedUnconfirmed, Some TerminalSourceClosedUnconfirmed, True,
               Some ''source_closed_liveness_absent'')
         else if ci_all_sources_closed i then Ok (LaneUnresolved, None, False, None)
         else if ci_parent_session_end_seen i then Ok (LaneUnresolved, None, False, None)
         else if previous_status \<in> {LaneUnresolved, LaneActive} then
           Ok (previous_status, None, False, None)
         else Err FinalizedLaneCannotReopen)"

text \<open>The guards before anything is computed, in source order.\<close>

definition resolve_capture_guards :: "capture_resolver_input \<Rightarrow> (work_error, unit) result" where
  "resolve_capture_guards i =
    (if is_some (ci_terminal_kind i) \<noteq> is_some (ci_terminal_event_ref i) then Err InvalidLifecycle
     else if is_some (ci_previous_lane i) \<noteq> is_some (ci_previous_receipt i) then Err InvalidReceipt
     else if is_some_and (\<lambda>previous.
            el_execution_lane_id previous \<noteq> ci_execution_lane_id i
          \<or> el_host_session_id previous \<noteq> ci_host_session_id i
          \<or> el_agent_id previous \<noteq> ci_agent_id i
          \<or> el_host_lane_key previous \<noteq> ci_host_lane_key i
          \<or> el_incarnation_ref previous \<noteq> ci_incarnation_ref i
          \<or> (case (el_spawn_event_ref previous, ci_spawn_event_ref i) of
               (Some p, Some c) \<Rightarrow> p \<noteq> c | _ \<Rightarrow> False)) (ci_previous_lane i)
     then Err InvalidLane
     else if is_some_and (\<lambda>previous.
            cr_execution_lane_id previous \<noteq> ci_execution_lane_id i
          \<or> cr_capture_receipt_revision_id previous = ci_capture_receipt_revision_id i)
          (ci_previous_receipt i)
     then Err InvalidReceipt
     else (case (ci_previous_lane i, ci_previous_receipt i) of
             (Some l, Some r) \<Rightarrow>
               if el_active_capture_receipt_revision_id l \<noteq> cr_capture_receipt_revision_id r
               then Err InvalidReceipt else Ok ()
           | _ \<Rightarrow> Ok ()))"

definition build_receipt ::
  "capture_resolver_input \<Rightarrow> terminal_kind option \<Rightarrow> bool \<Rightarrow> string option \<Rightarrow> capture_receipt" where
  "build_receipt i kind final reason =
    \<lparr>cr_capture_receipt_revision_id = ci_capture_receipt_revision_id i,
     cr_execution_lane_id = ci_execution_lane_id i,
     cr_predecessor_revision_id = map_option cr_capture_receipt_revision_id (ci_previous_receipt i),
     cr_adapter_manifest_ids = ci_adapter_manifest_ids i,
     cr_eligible_event_manifest_refs = ci_eligible_event_manifest_refs i,
     cr_source_revision_refs = ci_source_revision_refs i,
     cr_source_close_watermark_refs = ci_source_close_watermark_refs i,
     cr_source_close_reconciliation_refs = ci_source_close_reconciliation_refs i,
     cr_admission_failure_evidence_refs = ci_admission_failure_evidence_refs i,
     cr_admission_failure_observability = ci_admission_failure_observability i,
     cr_identity_strength = ci_identity_strength i,
     cr_delegation_start_seen = is_some (ci_spawn_event_ref i),
     cr_child_session_linked = is_some (ci_child_session_id i),
     cr_child_session_id = ci_child_session_id i,
     cr_parent_session_end_seen = ci_parent_session_end_seen i,
     cr_lifecycle_end_seen = is_some (ci_terminal_kind i),
     cr_terminal_event_kind = kind,
     cr_terminal_event_ref = ci_terminal_event_ref i,
     cr_termination_evidence_refs = (case ci_terminal_event_ref i of None \<Rightarrow> [] | Some e \<Rightarrow> [e]) @ ci_liveness_probe_refs i,
     cr_source_closed_refs = ci_source_closed_refs i,
     cr_liveness_probe_refs = ci_liveness_probe_refs i,
     cr_finalization_reason = reason,
     cr_first_sequence = ci_first_sequence i,
     cr_last_sequence = ci_last_sequence i,
     cr_sequence_gaps = ci_sequence_gaps i,
     cr_capture_gap_marker_refs = ci_capture_gap_marker_refs i,
     cr_capture_outage_interval_refs = ci_capture_outage_interval_refs i,
     cr_tool_calls_seen = ci_tool_calls_seen i,
     cr_tool_results_seen = ci_tool_results_seen i,
     cr_unmatched_tool_call_ids = ci_unmatched_tool_call_ids i,
     cr_unmatched_tool_result_ids = ci_unmatched_tool_result_ids i,
     cr_payload_truncations = ci_payload_truncations i,
     cr_redaction_refs = ci_redaction_refs i,
     cr_corrupt_payload_refs = ci_corrupt_payload_refs i,
     cr_unsupported_record_types = ci_unsupported_record_types i,
     cr_import_watermark = ci_import_watermark i,
     cr_finalized = final,
     cr_coverage_level = resolve_coverage_level i,
     cr_source_coverage = resolve_source_coverage i,
     cr_pairing_integrity = resolve_pairing_integrity i,
     cr_payload_integrity = resolve_payload_integrity i,
     cr_ordering_integrity = resolve_ordering_integrity i,
     cr_reasoning_visibility = unique_sorted (ci_reasoning_visibility i),
     cr_exact_byte_replay = (resolve_payload_integrity i = PayloadComplete),
     cr_resolver_version = CAPTURE_RESOLVER_VERSION\<rparr>"

definition build_lane ::
  "capture_resolver_input \<Rightarrow> lane_status \<Rightarrow> terminal_kind option \<Rightarrow> bool \<Rightarrow> capture_receipt
    \<Rightarrow> execution_lane" where
  "build_lane i status kind final receipt =
    \<lparr>el_execution_lane_id = ci_execution_lane_id i,
     el_lane_revision = (case ci_previous_lane i of None \<Rightarrow> 1 | Some l \<Rightarrow> el_lane_revision l + 1),
     el_predecessor_revision = map_option el_lane_revision (ci_previous_lane i),
     el_host_session_id = ci_host_session_id i,
     el_agent_id = ci_agent_id i,
     el_host_lane_key = ci_host_lane_key i,
     el_incarnation_ref = ci_incarnation_ref i,
     el_parent_lane_id = ci_parent_lane_id i,
     el_parent_host_lane_key = ci_parent_host_lane_key i,
     el_spawn_event_ref = ci_spawn_event_ref i,
     el_terminal_event_ref = cr_terminal_event_ref receipt,
     el_termination_evidence_refs = cr_termination_evidence_refs receipt,
     el_delegated_goal_ref = ci_delegated_goal_ref i,
     el_delegated_target_refs = ci_delegated_target_refs i,
     el_delegated_acceptance_refs = ci_delegated_acceptance_refs i,
     el_status = status,
     el_terminal_kind = kind,
     el_liveness_state = ci_liveness_state i,
     el_liveness_probe_refs = ci_liveness_probe_refs i,
     el_finalized = final,
     el_event_watermark = ci_import_watermark i,
     el_adapter_manifest_ids = ci_adapter_manifest_ids i,
     el_active_capture_receipt_revision_id = ci_capture_receipt_revision_id i,
     el_coverage_level = resolve_coverage_level i,
     el_source_coverage = resolve_source_coverage i,
     el_pairing_integrity = resolve_pairing_integrity i,
     el_payload_integrity = resolve_payload_integrity i,
     el_ordering_integrity = resolve_ordering_integrity i,
     el_reasoning_visibility = cr_reasoning_visibility receipt,
     el_operation_ids = ci_operation_ids i,
     el_correction_reason = ci_correction_reason i\<rparr>"

definition resolve_capture ::
  "capture_resolver_input \<Rightarrow> (work_error, execution_lane \<times> capture_receipt) result" where
  "resolve_capture i =
    and_then (resolve_capture_guards i) (\<lambda>_.
    and_then (resolve_lane_status i) (\<lambda>(status, kind, final, reason).
    if is_some_and (\<lambda>l. el_finalized l \<and> \<not> final) (ci_previous_lane i)
    then Err FinalizedLaneCannotReopen
    else
      let receipt = build_receipt i kind final reason;
          lane = build_lane i status kind final receipt in
      and_then (execution_lane_validate lane) (\<lambda>_.
      and_then (capture_receipt_validate receipt) (\<lambda>_.
      Ok (lane, receipt)))))"

section \<open>What a resolved lane promises\<close>

lemma resolve_captureE:
  assumes "resolve_capture i = Inr (l, r)"
  obtains status kind final reason where
    "resolve_capture_guards i = Inr ()"
    "resolve_lane_status i = Inr (status, kind, final, reason)"
    "\<forall>p. ci_previous_lane i = Some p \<longrightarrow> el_finalized p \<longrightarrow> final"
    "r = build_receipt i kind final reason"
    "l = build_lane i status kind final r"
    "execution_lane_validate l = Inr ()" "capture_receipt_validate r = Inr ()"
  using assms
  by (auto simp: resolve_capture_def result_simps Let_def is_some_and_iff split: if_splits)

lemma resolve_capture_guardsD:
  assumes "resolve_capture_guards i = Inr ()" and "ci_previous_lane i = Some p"
  shows "el_execution_lane_id p = ci_execution_lane_id i"
    "el_host_session_id p = ci_host_session_id i" "el_agent_id p = ci_agent_id i"
    "el_host_lane_key p = ci_host_lane_key i" "el_incarnation_ref p = ci_incarnation_ref i"
    "\<exists>q. ci_previous_receipt i = Some q
      \<and> cr_execution_lane_id q = ci_execution_lane_id i
      \<and> cr_capture_receipt_revision_id q \<noteq> ci_capture_receipt_revision_id i
      \<and> el_active_capture_receipt_revision_id p = cr_capture_receipt_revision_id q"
  using assms by (auto simp: resolve_capture_guards_def split: if_splits option.splits)

lemma lane_revision_step:
  assumes "execution_lane_validate l = Inr ()" and "el_lane_revision l = n + 1"
  shows "unat (el_lane_revision l) = Suc (unat n)"
proof -
  from assms have "n + 1 \<noteq> 0" by (auto simp: execution_lane_validate_def split: if_splits)
  then show ?thesis using assms(2) unatSuc [of n] by (simp add: add.commute)
qed

lemma resolve_coverage_level_full_iff:
  "resolve_coverage_level i = CoverageFull \<longleftrightarrow>
    ci_manifest_coverage i \<noteq> [] \<and> set (ci_manifest_coverage i) = {CoverageFull}
    \<and> is_some (ci_child_session_id i)
    \<and> set (ci_required_for_full i) \<subseteq> set (ci_observed_capabilities i)"
proof -
  have "x = CoverageFull" if "x \<noteq> CoverageOpaque" "x \<noteq> CoveragePartial" for x
    using that by (cases x) auto
  then have "xs \<noteq> [] \<and> CoverageOpaque \<notin> set xs \<and> CoveragePartial \<notin> set xs
      \<longleftrightarrow> xs \<noteq> [] \<and> set xs = {CoverageFull}" for xs
    by (cases xs) (auto, metis+)
  from this [of "ci_manifest_coverage i"] show ?thesis
    by (auto simp: resolve_coverage_level_def)
qed

lemma resolve_source_coverage_complete_iff:
  "resolve_source_coverage i = SourceComplete \<longleftrightarrow>
    ci_source_revision_refs i \<noteq> [] \<and> ci_all_sources_closed i
    \<and> ci_eligible_event_manifest_refs i \<noteq> [] \<and> ci_source_reconciliation_complete i
    \<and> ci_unresolved_gap_marker_refs i = [] \<and> ci_unresolved_outage_interval_refs i = []
    \<and> (ci_admission_failure_observability i \<in> {ObservabilityComplete, ObservabilityReconcilable}
        \<or> ci_independent_reconciliation i)
    \<and> ci_unsupported_record_types i = []"
  unfolding resolve_source_coverage_def by simp

lemma resolve_payload_integrity_complete_iff:
  "resolve_payload_integrity i = PayloadComplete \<longleftrightarrow>
    ci_corrupt_payload_refs i = [] \<and> ci_unavailable_payload_refs i = []
    \<and> ci_unresolved_gap_marker_refs i = [] \<and> ci_payload_truncations i = []
    \<and> ci_redaction_refs i = []"
  unfolding resolve_payload_integrity_def by auto

lemma resolve_ordering_integrity_complete_iff:
  "resolve_ordering_integrity i = OrderingComplete \<longleftrightarrow>
    ci_source_revision_refs i \<noteq> [] \<and> ci_sequence_gaps i = []
    \<and> ci_unresolved_outage_interval_refs i = [] \<and> \<not> ci_causal_race i
    \<and> \<not> ci_ordering_best_effort i"
  unfolding resolve_ordering_integrity_def by auto

text \<open>
  The grades are exactly as strong as the evidence. Full coverage needs an
  explicit child session, manifests that all claim full coverage and every required
  capability observed; complete sources need every source closed and reconciled, no
  open gap or outage, no unsupported record and observable (or independently
  reconciled) admission failures; byte replay needs a payload with nothing corrupt,
  missing, truncated or redacted.
\<close>

theorem resolve_capture_grades:
  assumes "resolve_capture i = Inr (l, r)"
  shows "(cr_coverage_level r = CoverageFull \<longleftrightarrow>
        ci_manifest_coverage i \<noteq> [] \<and> set (ci_manifest_coverage i) = {CoverageFull}
        \<and> is_some (ci_child_session_id i)
        \<and> set (ci_required_for_full i) \<subseteq> set (ci_observed_capabilities i))
    \<and> (cr_source_coverage r = SourceComplete \<longleftrightarrow>
        ci_source_revision_refs i \<noteq> [] \<and> ci_all_sources_closed i
        \<and> ci_eligible_event_manifest_refs i \<noteq> [] \<and> ci_source_reconciliation_complete i
        \<and> ci_unresolved_gap_marker_refs i = [] \<and> ci_unresolved_outage_interval_refs i = []
        \<and> (ci_admission_failure_observability i \<in> {ObservabilityComplete, ObservabilityReconcilable}
            \<or> ci_independent_reconciliation i)
        \<and> ci_unsupported_record_types i = [])
    \<and> (cr_exact_byte_replay r \<longleftrightarrow>
        ci_corrupt_payload_refs i = [] \<and> ci_unavailable_payload_refs i = []
        \<and> ci_unresolved_gap_marker_refs i = [] \<and> ci_payload_truncations i = []
        \<and> ci_redaction_refs i = [])
    \<and> (cr_ordering_integrity r = OrderingComplete \<longleftrightarrow>
        ci_source_revision_refs i \<noteq> [] \<and> ci_sequence_gaps i = []
        \<and> ci_unresolved_outage_interval_refs i = [] \<and> \<not> ci_causal_race i
        \<and> \<not> ci_ordering_best_effort i)"
proof -
  from assms obtain kind final reason where r: "r = build_receipt i kind final reason"
    by (rule resolve_captureE)
  have fields: "cr_coverage_level r = resolve_coverage_level i"
      "cr_source_coverage r = resolve_source_coverage i"
      "cr_exact_byte_replay r = (resolve_payload_integrity i = PayloadComplete)"
      "cr_ordering_integrity r = resolve_ordering_integrity i"
    by (simp_all add: r build_receipt_def)
  show ?thesis
    unfolding fields resolve_coverage_level_full_iff resolve_source_coverage_complete_iff
      resolve_payload_integrity_complete_iff resolve_ordering_integrity_complete_iff
    by (intro conjI refl)
qed

text \<open>
  C14. When a lane is final, and why: it is finalized exactly when a terminal event was
  observed, or when every source is closed and the host confirmed that the lane is
  gone. In the second case no terminal event is invented: the lane is only
  ``interrupted, unconfirmed'' and the receipt does not claim to have seen an end.
\<close>

theorem resolve_capture_finalized_iff:
  assumes "resolve_capture i = Inr (l, r)"
  shows "(el_finalized l \<longleftrightarrow> is_some (ci_terminal_kind i)
        \<or> ci_all_sources_closed i \<and> ci_liveness_state i = LivenessAbsent)
    \<and> (cr_lifecycle_end_seen r \<longleftrightarrow> is_some (ci_terminal_event_ref i))
    \<and> (el_status l = LaneInterruptedUnconfirmed \<longleftrightarrow>
        el_finalized l \<and> el_terminal_event_ref l = None)
    \<and> (el_status l = LaneReturned \<longleftrightarrow> ci_terminal_kind i = Some TerminalNormal \<and> ci_host_final_return i)"
  using assms
proof (rule resolve_captureE)
  fix status kind final reason
  assume g: "resolve_capture_guards i = Inr ()"
    and s: "resolve_lane_status i = Inr (status, kind, final, reason)"
    and r: "r = build_receipt i kind final reason" and l: "l = build_lane i status kind final r"
  have refs: "is_some (ci_terminal_kind i) = is_some (ci_terminal_event_ref i)"
    using g by (auto simp: resolve_capture_guards_def split: if_splits)
  have fields: "el_finalized l = final" "el_status l = status"
      "el_terminal_event_ref l = ci_terminal_event_ref i"
      "cr_lifecycle_end_seen r = is_some (ci_terminal_kind i)"
    by (simp_all add: l r build_lane_def build_receipt_def)
  show ?thesis unfolding fields using s refs
    by (auto simp: resolve_lane_status_def Let_def
        split: option.splits terminal_kind.splits if_splits)
qed

section \<open>Lane histories\<close>

text \<open>
  A history step: the resolver ran with the current lane and receipt as its
  predecessors.
\<close>

definition lane_successor ::
  "execution_lane \<times> capture_receipt \<Rightarrow> execution_lane \<times> capture_receipt \<Rightarrow> bool" where
  "lane_successor a b \<longleftrightarrow> (\<exists>i. ci_previous_lane i = Some (fst a)
    \<and> ci_previous_receipt i = Some (snd a) \<and> resolve_capture i = Inr b)"

definition lane_identity ::
  "execution_lane \<times> capture_receipt \<Rightarrow> execution_lane_id \<times> string \<times> string \<times> string \<times> string" where
  "lane_identity a = (el_execution_lane_id (fst a), el_host_session_id (fst a),
    el_agent_id (fst a), el_host_lane_key (fst a), el_incarnation_ref (fst a))"

lemma lane_successorD:
  assumes "lane_successor a b"
  shows "lane_identity b = lane_identity a"
    and "unat (el_lane_revision (fst b)) = Suc (unat (el_lane_revision (fst a)))"
    and "execution_lane_validate (fst b) = Inr () \<and> capture_receipt_validate (snd b) = Inr ()"
    and "el_finalized (fst a) \<Longrightarrow> el_finalized (fst b)"
    and "cr_predecessor_revision_id (snd b) = Some (cr_capture_receipt_revision_id (snd a))"
proof -
  from assms obtain i where i: "ci_previous_lane i = Some (fst a)"
      "ci_previous_receipt i = Some (snd a)" "resolve_capture i = Inr (fst b, snd b)"
    by (auto simp: lane_successor_def)
  from i(3) obtain status kind final reason where
      g: "resolve_capture_guards i = Inr ()"
    and "resolve_lane_status i = Inr (status, kind, final, reason)"
    and fin: "\<forall>p. ci_previous_lane i = Some p \<longrightarrow> el_finalized p \<longrightarrow> final"
    and r: "snd b = build_receipt i kind final reason"
    and l: "fst b = build_lane i status kind final (snd b)"
    and v: "execution_lane_validate (fst b) = Inr ()" "capture_receipt_validate (snd b) = Inr ()"
    by (rule resolve_captureE)
  show "lane_identity b = lane_identity a"
    using resolve_capture_guardsD(1-5) [OF g i(1)] by (simp add: lane_identity_def l build_lane_def)
  have "el_lane_revision (fst b) = el_lane_revision (fst a) + 1"
    using i(1) by (simp add: l build_lane_def)
  then show "unat (el_lane_revision (fst b)) = Suc (unat (el_lane_revision (fst a)))"
    by (rule lane_revision_step [OF v(1)])
  show "execution_lane_validate (fst b) = Inr () \<and> capture_receipt_validate (snd b) = Inr ()"
    using v by simp
  show "el_finalized (fst b)" if "el_finalized (fst a)"
    using fin i(1) that by (simp add: l build_lane_def)
  show "cr_predecessor_revision_id (snd b) = Some (cr_capture_receipt_revision_id (snd a))"
    using i(2) by (simp add: r build_receipt_def)
qed

interpretation lanes: absorbing_chain lane_successor lane_identity
  "\<lambda>a. unat (el_lane_revision (fst a))"
  "\<lambda>a. execution_lane_validate (fst a) = Inr () \<and> capture_receipt_validate (snd a) = Inr ()"
  "\<lambda>a. el_finalized (fst a)"
  by unfold_locales (auto dest: lane_successorD)

text \<open>
  Over the whole history of a lane: its identity never changes, revision numbers
  count up by one without ever wrapping, every revision is well formed, and once a
  lane is finalized every later revision is finalized too.
\<close>

theorem lane_history_monotone:
  assumes "windows_all lane_successor (h # hs)" and "i \<le> j" and "j < length (h # hs)"
  shows "lane_identity ((h # hs) ! j) = lane_identity h
    \<and> unat (el_lane_revision (fst ((h # hs) ! j))) = unat (el_lane_revision (fst h)) + j
    \<and> (el_finalized (fst ((h # hs) ! i)) \<longrightarrow> el_finalized (fst ((h # hs) ! j)))
    \<and> (0 < j \<longrightarrow> execution_lane_validate (fst ((h # hs) ! j)) = Inr ()
        \<and> capture_receipt_validate (snd ((h # hs) ! j)) = Inr ())"
proof (intro conjI impI)
  show "lane_identity ((h # hs) ! j) = lane_identity h"
    by (rule lanes.history_ident [OF assms(1) nth_mem [OF assms(3)]])
  show "unat (el_lane_revision (fst ((h # hs) ! j))) = unat (el_lane_revision (fst h)) + j"
    using assms(1,3) by (rule lanes.history_gen)
  show "el_finalized (fst ((h # hs) ! j))" if "el_finalized (fst ((h # hs) ! i))"
    using lanes.history_absorbed [OF assms] that by blast
  assume "0 < j"
  then have "(h # hs) ! j \<in> set hs" using assms(3) by (cases j) auto
  then show "execution_lane_validate (fst ((h # hs) ! j)) = Inr ()"
    and "capture_receipt_validate (snd ((h # hs) ! j)) = Inr ()"
    using lanes.history_well_formed [OF assms(1)] by blast+
qed

section \<open>A worked lane\<close>

definition sample_input :: capture_resolver_input where
  "sample_input =
    \<lparr>ci_execution_lane_id = 1,
     ci_capture_receipt_revision_id = 2,
     ci_previous_lane = None,
     ci_previous_receipt = None,
     ci_host_session_id = ''hos'',
     ci_agent_id = ''age'',
     ci_host_lane_key = ''hos'',
     ci_incarnation_ref = ''inc'',
     ci_parent_lane_id = None,
     ci_parent_host_lane_key = None,
     ci_spawn_event_ref = None,
     ci_terminal_event_ref = None,
     ci_terminal_kind = None,
     ci_host_final_return = False,
     ci_parent_session_end_seen = False,
     ci_liveness_state = LivenessLive,
     ci_liveness_probe_refs = [],
     ci_all_sources_closed = False,
     ci_source_closed_refs = [],
     ci_source_close_watermark_refs = [],
     ci_source_close_reconciliation_refs = [],
     ci_source_reconciliation_complete = False,
     ci_adapter_manifest_ids = [],
     ci_eligible_event_manifest_refs = [''eligible''],
     ci_source_revision_refs = [''source''],
     ci_manifest_coverage = [CoverageFull],
     ci_required_for_full = [],
     ci_observed_capabilities = [],
     ci_admission_failure_observability = ObservabilityComplete,
     ci_independent_reconciliation = False,
     ci_admission_failure_evidence_refs = [],
     ci_identity_strength = StableNative,
     ci_child_session_id = Some ''child'',
     ci_first_sequence = None,
     ci_last_sequence = None,
     ci_sequence_gaps = [],
     ci_capture_gap_marker_refs = [],
     ci_unresolved_gap_marker_refs = [],
     ci_capture_outage_interval_refs = [],
     ci_unresolved_outage_interval_refs = [],
     ci_tool_calls_seen = [],
     ci_tool_results_seen = [],
     ci_unmatched_tool_call_ids = [],
     ci_unmatched_tool_result_ids = [],
     ci_payload_truncations = [],
     ci_redaction_refs = [],
     ci_corrupt_payload_refs = [],
     ci_unavailable_payload_refs = [],
     ci_unsupported_record_types = [],
     ci_causal_race = False,
     ci_ordering_best_effort = False,
     ci_reasoning_visibility = [],
     ci_import_watermark = 0,
     ci_delegated_goal_ref = None,
     ci_delegated_target_refs = [],
     ci_delegated_acceptance_refs = [],
     ci_operation_ids = [],
     ci_correction_reason = None\<rparr>"

text \<open>The same lane one revision later, with a normal terminal event.\<close>

definition sample_receipt :: capture_receipt where
  "sample_receipt = build_receipt sample_input None False None"

definition sample_lane :: execution_lane where
  "sample_lane = build_lane sample_input LaneActive None False sample_receipt"

definition sample_terminal_input :: capture_resolver_input where
  "sample_terminal_input = sample_input\<lparr>ci_previous_lane := Some sample_lane,
    ci_previous_receipt := Some sample_receipt, ci_capture_receipt_revision_id := 3,
    ci_terminal_kind := Some TerminalNormal, ci_terminal_event_ref := Some ''end'',
    ci_host_final_return := True, ci_all_sources_closed := True\<rparr>"

lemmas sample_defs = sample_input_def sample_receipt_def sample_lane_def sample_terminal_input_def

lemma has_control_samples:
  "\<not> has_control ''hos''" "\<not> has_control ''age''" "\<not> has_control ''inc''" "\<not> has_control ''child''"
  by (simp_all add: has_control_def)

lemma resolve_sample: "resolve_capture sample_input = Inr (sample_lane, sample_receipt)"
  by (simp add: sample_defs resolve_capture_def resolve_capture_guards_def resolve_lane_status_def
      Let_def build_receipt_def build_lane_def execution_lane_validate_def capture_receipt_validate_def
      terminal_reference_is_valid_def receipt_terminal_is_valid_def result_simps
      CAPTURE_RESOLVER_VERSION_def unique_sorted_def and_then_Inr_iff has_control_samples valid_ref_def
      require_unique_def btree_set_def resolve_payload_integrity_def)

lemma resolve_sample_terminal:
  "\<exists>l r. resolve_capture sample_terminal_input = Inr (l, r)"
  by (simp add: sample_defs resolve_capture_def resolve_capture_guards_def resolve_lane_status_def
      Let_def build_receipt_def build_lane_def execution_lane_validate_def capture_receipt_validate_def
      terminal_reference_is_valid_def receipt_terminal_is_valid_def result_simps
      CAPTURE_RESOLVER_VERSION_def unique_sorted_def has_control_samples valid_ref_def
      require_unique_def btree_set_def resolve_payload_integrity_def)

theorem resolve_capture_grades_witness:
  "cr_coverage_level sample_receipt = CoverageFull"
  using resolve_capture_grades [OF resolve_sample] by (simp add: sample_input_def)

theorem resolve_capture_finalized_iff_witness:
  "\<exists>l r. resolve_capture sample_terminal_input = Inr (l, r) \<and> el_finalized l
    \<and> el_status l = LaneReturned"
proof -
  obtain l r where lr: "resolve_capture sample_terminal_input = Inr (l, r)"
    using resolve_sample_terminal by blast
  with resolve_capture_finalized_iff [OF lr] show ?thesis
    by (simp add: sample_terminal_input_def)
qed

theorem lane_history_monotone_witness:
  "\<exists>b. lane_successor (sample_lane, sample_receipt) b
    \<and> unat (el_lane_revision (fst b)) = unat (el_lane_revision sample_lane) + 1"
proof -
  obtain b where "resolve_capture sample_terminal_input = Inr b"
    using resolve_sample_terminal by auto
  then have b: "lane_successor (sample_lane, sample_receipt) b"
    unfolding lane_successor_def
    by (intro exI [of _ sample_terminal_input]) (simp add: sample_terminal_input_def)
  with lane_history_monotone [of "(sample_lane, sample_receipt)" "[b]" 0 1] show ?thesis
    by (intro exI [of _ b]) simp
qed

end
