(* ===== verification/Identifiers.thy ===== *)
theory Identifiers
  imports Work_Base
begin

text \<open>
  Object identifiers and revision identifiers:
  \<open>evertrace-domain/src/ids.rs\<close> and \<open>revision.rs\<close>. A public identifier is a family
  prefix, a colon and a payload, which is a version-7 UUID in canonical hyphenated form
  or 64 lower-case hexadecimal digits. The \<open>uuid\<close> crate (parsing, printing, version and
  variant of a UUID) is third-party code: it is the argument \<open>lib\<close> of the definitions,
  and \<open>uuid_lib_ok\<close> states what the code relies on. The macros \<open>uuid_id!\<close>,
  \<open>internal_uuid_id!\<close> and \<open>digest_id!\<close> are modelled once, with the prefix as argument.
\<close>

datatype id_parse_error = MissingSeparator | EmptyPayload | WrongFamily | UnknownFamily
  | InvalidUuid | WrongUuidVersion | WrongUuidVariant | NonCanonicalUuid | InvalidDigest
  | ProjectionNotOrganizable

record uuid_lib =
  parse_str :: "string \<Rightarrow> uuid option"
  hyphenated :: "uuid \<Rightarrow> string"
  version_num :: "uuid \<Rightarrow> nat"
  rfc4122_variant :: "uuid \<Rightarrow> bool"

definition uuid_lib_ok :: "uuid_lib \<Rightarrow> bool" where
  "uuid_lib_ok lib \<longleftrightarrow>
    (\<forall>u. parse_str lib (hyphenated lib u) = Some u \<and> length (hyphenated lib u) = 36)"

definition split_once :: "char \<Rightarrow> string \<Rightarrow> (string \<times> string) option" where
  "split_once c s = (case dropWhile (\<lambda>x. x \<noteq> c) s of
      [] \<Rightarrow> None
    | _ # rest \<Rightarrow> Some (takeWhile (\<lambda>x. x \<noteq> c) s, rest))"

definition split_family :: "string \<Rightarrow> string \<Rightarrow> (id_parse_error, string) result" where
  "split_family s expected =
    and_then (ok_or MissingSeparator (split_once (CHR '':'') s)) (\<lambda>(family, payload).
    if family \<noteq> expected then Err WrongFamily
    else if payload = [] then Err EmptyPayload
    else Ok payload)"

definition validate_uuid :: "uuid_lib \<Rightarrow> uuid \<Rightarrow> (id_parse_error, unit) result" where
  "validate_uuid lib u =
    (if version_num lib u \<noteq> 7 then Err WrongUuidVersion
     else if \<not> rfc4122_variant lib u then Err WrongUuidVariant
     else Ok ())"

definition parse_uuid_payload :: "uuid_lib \<Rightarrow> string \<Rightarrow> (id_parse_error, uuid) result" where
  "parse_uuid_payload lib payload =
    and_then (ok_or InvalidUuid (parse_str lib payload)) (\<lambda>u.
    and_then (validate_uuid lib u) (\<lambda>_.
    if hyphenated lib u \<noteq> payload then Err NonCanonicalUuid else Ok u))"

text \<open>\<open>u8::from_str_radix(text, 16)\<close> on two digits, and the chunks of two bytes.\<close>

definition hex_digit_value :: "char \<Rightarrow> nat option" where
  "hex_digit_value c =
    (let n = of_char c in
     if 48 \<le> n \<and> n \<le> 57 then Some (n - 48)
     else if 97 \<le> n \<and> n \<le> 102 then Some (n - 87)
     else if 65 \<le> n \<and> n \<le> 70 then Some (n - 55)
     else None)"

definition from_str_radix_16 :: "char \<Rightarrow> char \<Rightarrow> u8 option" where
  "from_str_radix_16 a b = (case (hex_digit_value a, hex_digit_value b) of
      (Some x, Some y) \<Rightarrow> Some (of_nat (16 * x + y))
    | _ \<Rightarrow> None)"

fun parse_hex_chunks :: "string \<Rightarrow> (id_parse_error, bytes) result" where
  "parse_hex_chunks (a # b # rest) =
    and_then (ok_or InvalidDigest (from_str_radix_16 a b)) (\<lambda>byte.
    and_then (parse_hex_chunks rest) (\<lambda>bytes. Ok (byte # bytes)))"
| "parse_hex_chunks _ = Ok []"

definition parse_digest_payload :: "string \<Rightarrow> (id_parse_error, bytes) result" where
  "parse_digest_payload payload =
    (if length payload \<noteq> 64 \<or> \<not> list_all is_lower_hex payload then Err InvalidDigest
     else parse_hex_chunks payload)"

text \<open>\<open>write!(f, "{byte:02x}")\<close>\<close>

definition hex_char :: "nat \<Rightarrow> char" where
  "hex_char n = char_of (if n < 10 then n + 48 else n + 87)"

definition hex_byte :: "u8 \<Rightarrow> string" where
  "hex_byte b = [hex_char (unat b div 16), hex_char (unat b mod 16)]"

definition hex :: "bytes \<Rightarrow> string" where
  "hex digest = concat (map hex_byte digest)"

definition write_digest :: "string \<Rightarrow> bytes \<Rightarrow> string" where
  "write_digest prefix digest = prefix @ '':'' @ hex digest"

text \<open>The three macros.\<close>

definition uuid_id_from_uuid :: "uuid_lib \<Rightarrow> uuid \<Rightarrow> (id_parse_error, uuid) result" where
  "uuid_id_from_uuid lib u = and_then (validate_uuid lib u) (\<lambda>_. Ok u)"

definition uuid_id_from_str :: "uuid_lib \<Rightarrow> string \<Rightarrow> string \<Rightarrow> (id_parse_error, uuid) result" where
  "uuid_id_from_str lib prefix value =
    and_then (split_family value prefix) (\<lambda>payload. parse_uuid_payload lib payload)"

definition uuid_id_to_string :: "uuid_lib \<Rightarrow> string \<Rightarrow> uuid \<Rightarrow> string" where
  "uuid_id_to_string lib prefix u = prefix @ '':'' @ hyphenated lib u"

definition internal_uuid_id_from_str :: "uuid_lib \<Rightarrow> string \<Rightarrow> (id_parse_error, uuid) result" where
  "internal_uuid_id_from_str lib value = parse_uuid_payload lib value"

definition internal_uuid_id_to_string :: "uuid_lib \<Rightarrow> uuid \<Rightarrow> string" where
  "internal_uuid_id_to_string lib u = hyphenated lib u"

definition digest_id_from_str :: "string \<Rightarrow> string \<Rightarrow> (id_parse_error, digest_id) result" where
  "digest_id_from_str prefix value =
    and_then (split_family value prefix) parse_digest_payload"

definition digest_id_to_string :: "string \<Rightarrow> digest_id \<Rightarrow> string" where
  "digest_id_to_string prefix digest = write_digest prefix digest"

datatype any_public_id =
    SourceObservationPublic digest_id
  | HostOccurrencePublic digest_id
  | SourceReceiptPublic digest_id
  | CaptureReceiptPublic uuid
  | CaptureOutageIntervalPublic uuid
  | OperationPublic uuid
  | ScopeEffectPublic uuid
  | WorkBindingRevisionPublic uuid
  | RepositoryPublic uuid
  | WorktreePublic uuid
  | WorktreeSnapshotPublic uuid
  | WorktreeTransitionPublic uuid
  | IntegrationEventPublic uuid
  | RecoveryCaptureRequestPublic uuid
  | RecoveryBundlePublic uuid
  | RecoveryApplicationPublic uuid
  | TaskPublic uuid
  | WorkstreamPublic uuid
  | ExecutionLanePublic uuid
  | WorkEpisodePublic uuid
  | OperationBurstPublic uuid
  | AttemptPublic uuid
  | CompetingAttemptGroupPublic uuid
  | ExperimentRunPublic uuid
  | ResultEvidencePublic uuid
  | AtomPublic uuid
  | ProcedurePublic uuid
  | RevisionProposalPublic uuid
  | CoreMembershipPublic uuid
  | SemanticDigestPublic uuid
  | SemanticDerivationRunPublic uuid
  | WikiProjectionPublic digest_id
  | CoreProjectionPublic digest_id
  | ScenarioPublic digest_id
  | WorkArtifactPublic uuid
  | DuplicateGroupPublic uuid
  | CasPublic digest_id

fun any_public_id_family :: "any_public_id \<Rightarrow> string" where
  "any_public_id_family (SourceObservationPublic _) = ''obs''"
| "any_public_id_family (HostOccurrencePublic _) = ''occ''"
| "any_public_id_family (SourceReceiptPublic _) = ''src''"
| "any_public_id_family (CaptureReceiptPublic _) = ''cap''"
| "any_public_id_family (CaptureOutageIntervalPublic _) = ''outage''"
| "any_public_id_family (OperationPublic _) = ''op''"
| "any_public_id_family (ScopeEffectPublic _) = ''se''"
| "any_public_id_family (WorkBindingRevisionPublic _) = ''wb''"
| "any_public_id_family (RepositoryPublic _) = ''repo''"
| "any_public_id_family (WorktreePublic _) = ''wt''"
| "any_public_id_family (WorktreeSnapshotPublic _) = ''wts''"
| "any_public_id_family (WorktreeTransitionPublic _) = ''wtt''"
| "any_public_id_family (IntegrationEventPublic _) = ''int''"
| "any_public_id_family (RecoveryCaptureRequestPublic _) = ''recreq''"
| "any_public_id_family (RecoveryBundlePublic _) = ''rec''"
| "any_public_id_family (RecoveryApplicationPublic _) = ''recapp''"
| "any_public_id_family (TaskPublic _) = ''task''"
| "any_public_id_family (WorkstreamPublic _) = ''ws''"
| "any_public_id_family (ExecutionLanePublic _) = ''lane''"
| "any_public_id_family (WorkEpisodePublic _) = ''ep''"
| "any_public_id_family (OperationBurstPublic _) = ''burst''"
| "any_public_id_family (AttemptPublic _) = ''att''"
| "any_public_id_family (CompetingAttemptGroupPublic _) = ''cmp''"
| "any_public_id_family (ExperimentRunPublic _) = ''run''"
| "any_public_id_family (ResultEvidencePublic _) = ''result''"
| "any_public_id_family (AtomPublic _) = ''atom''"
| "any_public_id_family (ProcedurePublic _) = ''proc''"
| "any_public_id_family (RevisionProposalPublic _) = ''proposal''"
| "any_public_id_family (CoreMembershipPublic _) = ''coremem''"
| "any_public_id_family (SemanticDigestPublic _) = ''sdig''"
| "any_public_id_family (SemanticDerivationRunPublic _) = ''srun''"
| "any_public_id_family (WikiProjectionPublic _) = ''wiki''"
| "any_public_id_family (CoreProjectionPublic _) = ''core''"
| "any_public_id_family (ScenarioPublic _) = ''scenario''"
| "any_public_id_family (WorkArtifactPublic _) = ''art''"
| "any_public_id_family (DuplicateGroupPublic _) = ''dup''"
| "any_public_id_family (CasPublic _) = ''cas''"

definition any_public_id_from_str :: "uuid_lib \<Rightarrow> string \<Rightarrow> (id_parse_error, any_public_id) result" where
  "any_public_id_from_str lib s =
    and_then (ok_or MissingSeparator (split_once (CHR '':'') s)) (\<lambda>(family, _).
    if family = ''obs'' then and_then (digest_id_from_str ''obs'' s) (\<lambda>i. Ok (SourceObservationPublic i))
    else if family = ''occ'' then and_then (digest_id_from_str ''occ'' s) (\<lambda>i. Ok (HostOccurrencePublic i))
    else if family = ''src'' then and_then (digest_id_from_str ''src'' s) (\<lambda>i. Ok (SourceReceiptPublic i))
    else if family = ''cap'' then and_then (uuid_id_from_str lib ''cap'' s) (\<lambda>i. Ok (CaptureReceiptPublic i))
    else if family = ''outage'' then and_then (uuid_id_from_str lib ''outage'' s) (\<lambda>i. Ok (CaptureOutageIntervalPublic i))
    else if family = ''op'' then and_then (uuid_id_from_str lib ''op'' s) (\<lambda>i. Ok (OperationPublic i))
    else if family = ''se'' then and_then (uuid_id_from_str lib ''se'' s) (\<lambda>i. Ok (ScopeEffectPublic i))
    else if family = ''wb'' then and_then (uuid_id_from_str lib ''wb'' s) (\<lambda>i. Ok (WorkBindingRevisionPublic i))
    else if family = ''repo'' then and_then (uuid_id_from_str lib ''repo'' s) (\<lambda>i. Ok (RepositoryPublic i))
    else if family = ''wt'' then and_then (uuid_id_from_str lib ''wt'' s) (\<lambda>i. Ok (WorktreePublic i))
    else if family = ''wts'' then and_then (uuid_id_from_str lib ''wts'' s) (\<lambda>i. Ok (WorktreeSnapshotPublic i))
    else if family = ''wtt'' then and_then (uuid_id_from_str lib ''wtt'' s) (\<lambda>i. Ok (WorktreeTransitionPublic i))
    else if family = ''int'' then and_then (uuid_id_from_str lib ''int'' s) (\<lambda>i. Ok (IntegrationEventPublic i))
    else if family = ''recreq'' then and_then (uuid_id_from_str lib ''recreq'' s) (\<lambda>i. Ok (RecoveryCaptureRequestPublic i))
    else if family = ''rec'' then and_then (uuid_id_from_str lib ''rec'' s) (\<lambda>i. Ok (RecoveryBundlePublic i))
    else if family = ''recapp'' then and_then (uuid_id_from_str lib ''recapp'' s) (\<lambda>i. Ok (RecoveryApplicationPublic i))
    else if family = ''task'' then and_then (uuid_id_from_str lib ''task'' s) (\<lambda>i. Ok (TaskPublic i))
    else if family = ''ws'' then and_then (uuid_id_from_str lib ''ws'' s) (\<lambda>i. Ok (WorkstreamPublic i))
    else if family = ''lane'' then and_then (uuid_id_from_str lib ''lane'' s) (\<lambda>i. Ok (ExecutionLanePublic i))
    else if family = ''ep'' then and_then (uuid_id_from_str lib ''ep'' s) (\<lambda>i. Ok (WorkEpisodePublic i))
    else if family = ''burst'' then and_then (uuid_id_from_str lib ''burst'' s) (\<lambda>i. Ok (OperationBurstPublic i))
    else if family = ''att'' then and_then (uuid_id_from_str lib ''att'' s) (\<lambda>i. Ok (AttemptPublic i))
    else if family = ''cmp'' then and_then (uuid_id_from_str lib ''cmp'' s) (\<lambda>i. Ok (CompetingAttemptGroupPublic i))
    else if family = ''run'' then and_then (uuid_id_from_str lib ''run'' s) (\<lambda>i. Ok (ExperimentRunPublic i))
    else if family = ''result'' then and_then (uuid_id_from_str lib ''result'' s) (\<lambda>i. Ok (ResultEvidencePublic i))
    else if family = ''atom'' then and_then (uuid_id_from_str lib ''atom'' s) (\<lambda>i. Ok (AtomPublic i))
    else if family = ''proc'' then and_then (uuid_id_from_str lib ''proc'' s) (\<lambda>i. Ok (ProcedurePublic i))
    else if family = ''proposal'' then and_then (uuid_id_from_str lib ''proposal'' s) (\<lambda>i. Ok (RevisionProposalPublic i))
    else if family = ''coremem'' then and_then (uuid_id_from_str lib ''coremem'' s) (\<lambda>i. Ok (CoreMembershipPublic i))
    else if family = ''sdig'' then and_then (uuid_id_from_str lib ''sdig'' s) (\<lambda>i. Ok (SemanticDigestPublic i))
    else if family = ''srun'' then and_then (uuid_id_from_str lib ''srun'' s) (\<lambda>i. Ok (SemanticDerivationRunPublic i))
    else if family = ''wiki'' then and_then (digest_id_from_str ''wiki'' s) (\<lambda>i. Ok (WikiProjectionPublic i))
    else if family = ''core'' then and_then (digest_id_from_str ''core'' s) (\<lambda>i. Ok (CoreProjectionPublic i))
    else if family = ''scenario'' then and_then (digest_id_from_str ''scenario'' s) (\<lambda>i. Ok (ScenarioPublic i))
    else if family = ''art'' then and_then (uuid_id_from_str lib ''art'' s) (\<lambda>i. Ok (WorkArtifactPublic i))
    else if family = ''dup'' then and_then (uuid_id_from_str lib ''dup'' s) (\<lambda>i. Ok (DuplicateGroupPublic i))
    else if family = ''cas'' then and_then (digest_id_from_str ''cas'' s) (\<lambda>i. Ok (CasPublic i))
    else Err UnknownFamily)"

datatype organize_target = AtomTarget atom_id | ProcedureTarget procedure_id | CoreMembershipTarget uuid

definition organize_target_try_from :: "any_public_id \<Rightarrow> (id_parse_error, organize_target) result" where
  "organize_target_try_from value = (case value of
      AtomPublic i \<Rightarrow> Ok (AtomTarget i)
    | ProcedurePublic i \<Rightarrow> Ok (ProcedureTarget i)
    | CoreMembershipPublic i \<Rightarrow> Ok (CoreMembershipTarget i)
    | WikiProjectionPublic _ \<Rightarrow> Err ProjectionNotOrganizable
    | CoreProjectionPublic _ \<Rightarrow> Err ProjectionNotOrganizable
    | _ \<Rightarrow> Err WrongFamily)"

definition organize_target_from_str :: "uuid_lib \<Rightarrow> string \<Rightarrow> (id_parse_error, organize_target) result" where
  "organize_target_from_str lib value =
    and_then (any_public_id_from_str lib value) organize_target_try_from"

section \<open>Revision identifiers\<close>

datatype revision_id_error = RevisionInvalidUuid | RevisionWrongUuidVersion | RevisionWrongUuidVariant

definition revision_id_from_uuid :: "uuid_lib \<Rightarrow> uuid \<Rightarrow> (revision_id_error, revision_id) result" where
  "revision_id_from_uuid lib u =
    (if version_num lib u \<noteq> 7 then Err RevisionWrongUuidVersion
     else if \<not> rfc4122_variant lib u then Err RevisionWrongUuidVariant
     else Ok u)"

definition revision_id_to_string :: "uuid_lib \<Rightarrow> revision_id \<Rightarrow> string" where
  "revision_id_to_string lib r = hyphenated lib r"

definition revision_id_from_str :: "uuid_lib \<Rightarrow> string \<Rightarrow> (revision_id_error, revision_id) result" where
  "revision_id_from_str lib value =
    and_then (ok_or RevisionInvalidUuid (parse_str lib value)) (\<lambda>u.
    if hyphenated lib u \<noteq> value then Err RevisionInvalidUuid
    else revision_id_from_uuid lib u)"

record 'a immutable_revision =
  ir_revision_id :: revision_id
  ir_parent :: "revision_id option"
  ir_supersedes :: "revision_id list"
  ir_payload :: 'a
  ir_created_at_us :: i64
  ir_source_watermark :: u64

definition immutable_revision_root ::
  "revision_id \<Rightarrow> 'a \<Rightarrow> i64 \<Rightarrow> u64 \<Rightarrow> 'a immutable_revision" where
  "immutable_revision_root revision payload created_at source_watermark =
    \<lparr>ir_revision_id = revision, ir_parent = None, ir_supersedes = [], ir_payload = payload,
     ir_created_at_us = created_at, ir_source_watermark = source_watermark\<rparr>"

fun push_unique :: "'a list \<Rightarrow> 'a list \<Rightarrow> 'a list" where
  "push_unique acc [] = acc"
| "push_unique acc (prior # rest) =
    push_unique (if prior \<in> set acc then acc else acc @ [prior]) rest"

definition immutable_revision_successor ::
  "'a immutable_revision \<Rightarrow> revision_id \<Rightarrow> 'a \<Rightarrow> i64 \<Rightarrow> u64 \<Rightarrow> revision_id list \<Rightarrow> 'a immutable_revision" where
  "immutable_revision_successor r revision payload created_at source_watermark additional_supersedes =
    \<lparr>ir_revision_id = revision, ir_parent = Some (ir_revision_id r),
     ir_supersedes = push_unique [ir_revision_id r] additional_supersedes, ir_payload = payload,
     ir_created_at_us = created_at, ir_source_watermark = source_watermark\<rparr>"

section \<open>Hexadecimal digests\<close>

lemma hex_char_value: "n < 16 \<Longrightarrow> hex_digit_value (hex_char n) = Some n"
  by (auto simp: hex_digit_value_def hex_char_def Let_def of_char_of)

lemma hex_char_lower: "n < 16 \<Longrightarrow> is_lower_hex (hex_char n)"
  by (auto simp: is_lower_hex_def is_ascii_digit_def hex_char_def of_char_of)

lemma hex_digit_value_lower:
  assumes "is_lower_hex c"
  shows "\<exists>n. hex_digit_value c = Some n \<and> n < 16 \<and> c = hex_char n"
proof -
  define n :: nat where "n = of_char c"
  have c: "c = char_of n" by (simp add: n_def)
  show ?thesis
    using assms unfolding is_lower_hex_def is_ascii_digit_def hex_digit_value_def hex_char_def Let_def
    by (auto simp: n_def [symmetric] c intro!: exI [of _ "n - 48"] exI [of _ "n - 87"])
qed

lemma from_str_radix_16_hex_byte:
  "from_str_radix_16 (hex_char (unat b div 16)) (hex_char (unat b mod 16)) = Some (b :: u8)"
proof -
  have "unat b < 256" using unat_bound [of b] by simp
  then have "unat b div 16 < 16" by simp
  then show ?thesis
    by (simp add: from_str_radix_16_def hex_char_value mult.commute)
qed

lemma from_str_radix_16_lower:
  assumes "is_lower_hex a" and "is_lower_hex b"
  shows "\<exists>x. from_str_radix_16 a b = Some x \<and> hex_byte x = [a, b]"
proof -
  obtain m n where m: "hex_digit_value a = Some m" "m < 16" "a = hex_char m"
    and n: "hex_digit_value b = Some n" "n < 16" "b = hex_char n"
    using hex_digit_value_lower assms by blast
  have "unat (of_nat (16 * m + n) :: u8) = 16 * m + n"
    using m(2) n(2) by (simp add: unat_of_nat del: of_nat_add of_nat_mult)
  then show ?thesis
    using m n by (simp add: from_str_radix_16_def hex_byte_def)
qed

lemma hex_simps [simp]: "hex [] = []" "hex (b # bs) = hex_byte b @ hex bs" "hex (xs @ ys) = hex xs @ hex ys"
  by (simp_all add: hex_def)

lemma length_hex [simp]: "length (hex d) = 2 * length d"
  by (induction d) (simp_all add: hex_byte_def)

lemma hex_lower: "list_all is_lower_hex (hex d)"
proof (induction d)
  case (Cons b d)
  have "unat b div 16 < 16" using unat_bound [of b] by simp
  with Cons show ?case by (simp add: hex_byte_def hex_char_lower)
qed simp

lemma parse_hex_chunks_hex [simp]: "parse_hex_chunks (hex d) = Ok d"
  by (induction d) (simp_all add: hex_byte_def from_str_radix_16_hex_byte ok_or_def)

lemma parse_hex_chunks_lower:
  assumes "list_all is_lower_hex s" and "even (length s)"
  shows "\<exists>d. parse_hex_chunks s = Ok d \<and> hex d = s"
  using assms
proof (induction s rule: parse_hex_chunks.induct)
  case (1 a b rest)
  obtain x where x: "from_str_radix_16 a b = Some x" "hex_byte x = [a, b]"
    using from_str_radix_16_lower 1(2) by auto
  from 1 x(1) obtain d where "parse_hex_chunks rest = Ok d" "hex d = rest"
    by (auto simp: ok_or_def)
  with x show ?case by (simp add: ok_or_def)
qed auto

lemma parse_digest_payload_iff [result_simps]:
  "parse_digest_payload s = Ok d \<longleftrightarrow> length d = 32 \<and> s = hex d"
proof
  assume *: "parse_digest_payload s = Ok d"
  then have "length s = 64" "list_all is_lower_hex s" "parse_hex_chunks s = Ok d"
    by (auto simp: parse_digest_payload_def split: if_splits)
  with parse_hex_chunks_lower [of s] have "hex d = s" by auto
  with \<open>length s = 64\<close> length_hex [of d] show "length d = 32 \<and> s = hex d" by simp
qed (auto simp: parse_digest_payload_def hex_lower)

section \<open>Families\<close>

lemma split_once_app: "c \<notin> set p \<Longrightarrow> split_once c (p @ c # r) = Some (p, r)"
  by (induction p) (auto simp: split_once_def split: list.splits)

lemma split_once_SomeD: "split_once c s = Some (p, r) \<Longrightarrow> s = p @ c # r \<and> c \<notin> set p"
proof -
  assume "split_once c s = Some (p, r)"
  then obtain x where x: "dropWhile (\<lambda>x. x \<noteq> c) s = x # r" "p = takeWhile (\<lambda>x. x \<noteq> c) s"
    by (auto simp: split_once_def split: list.splits)
  have "x = c" using x(1) hd_dropWhile [of "\<lambda>x. x \<noteq> c" s] by simp
  moreover have "s = p @ x # r" using takeWhile_dropWhile_id [of "\<lambda>x. x \<noteq> c" s] x by simp
  moreover have "c \<notin> set p" using x(2) set_takeWhileD by fastforce
  ultimately show "s = p @ c # r \<and> c \<notin> set p" by simp
qed

lemma split_family_iff [result_simps]:
  assumes "CHR '':'' \<notin> set prefix"
  shows "split_family s prefix = Ok r \<longleftrightarrow> s = prefix @ '':'' @ r \<and> r \<noteq> []"
proof
  assume "split_family s prefix = Ok r"
  then have "split_once (CHR '':'') s = Some (prefix, r)" and "r \<noteq> []"
    by (auto simp: split_family_def result_simps split: if_splits)
  then show "s = prefix @ '':'' @ r \<and> r \<noteq> []" using split_once_SomeD by fastforce
next
  assume "s = prefix @ '':'' @ r \<and> r \<noteq> []"
  then show "split_family s prefix = Ok r"
    using split_once_app [OF assms, of r] by (simp add: split_family_def ok_or_def)
qed

lemma parse_uuid_payload_iff [result_simps]:
  assumes "uuid_lib_ok lib"
  shows "parse_uuid_payload lib s = Ok u \<longleftrightarrow> validate_uuid lib u = Ok () \<and> s = hyphenated lib u"
  using assms by (auto simp: parse_uuid_payload_def result_simps uuid_lib_ok_def split: if_splits)

lemma uuid_id_from_str_iff:
  assumes "uuid_lib_ok lib" and "CHR '':'' \<notin> set prefix"
  shows "uuid_id_from_str lib prefix s = Ok u \<longleftrightarrow>
    validate_uuid lib u = Ok () \<and> s = uuid_id_to_string lib prefix u"
proof -
  have "hyphenated lib u \<noteq> []" using assms(1) by (auto simp: uuid_lib_ok_def dest: spec [of _ u])
  then show ?thesis
    by (auto simp: uuid_id_from_str_def and_then_Inr_iff split_family_iff [OF assms(2)]
        parse_uuid_payload_iff [OF assms(1)] uuid_id_to_string_def)
qed

lemma digest_id_from_str_iff:
  assumes "CHR '':'' \<notin> set prefix"
  shows "digest_id_from_str prefix s = Ok d \<longleftrightarrow> length d = 32 \<and> s = digest_id_to_string prefix d"
proof -
  have "hex d \<noteq> []" if "length d = 32" using that length_hex [of d] by fastforce
  then show ?thesis
    by (auto simp: digest_id_from_str_def and_then_Inr_iff split_family_iff [OF assms]
        parse_digest_payload_iff digest_id_to_string_def write_digest_def)
qed

text \<open>The payload of a public identifier, and its text.\<close>

fun public_payload :: "any_public_id \<Rightarrow> uuid + digest_id" where
  "public_payload (SourceObservationPublic i) = Inr i"
| "public_payload (HostOccurrencePublic i) = Inr i"
| "public_payload (SourceReceiptPublic i) = Inr i"
| "public_payload (CaptureReceiptPublic i) = Inl i"
| "public_payload (CaptureOutageIntervalPublic i) = Inl i"
| "public_payload (OperationPublic i) = Inl i"
| "public_payload (ScopeEffectPublic i) = Inl i"
| "public_payload (WorkBindingRevisionPublic i) = Inl i"
| "public_payload (RepositoryPublic i) = Inl i"
| "public_payload (WorktreePublic i) = Inl i"
| "public_payload (WorktreeSnapshotPublic i) = Inl i"
| "public_payload (WorktreeTransitionPublic i) = Inl i"
| "public_payload (IntegrationEventPublic i) = Inl i"
| "public_payload (RecoveryCaptureRequestPublic i) = Inl i"
| "public_payload (RecoveryBundlePublic i) = Inl i"
| "public_payload (RecoveryApplicationPublic i) = Inl i"
| "public_payload (TaskPublic i) = Inl i"
| "public_payload (WorkstreamPublic i) = Inl i"
| "public_payload (ExecutionLanePublic i) = Inl i"
| "public_payload (WorkEpisodePublic i) = Inl i"
| "public_payload (OperationBurstPublic i) = Inl i"
| "public_payload (AttemptPublic i) = Inl i"
| "public_payload (CompetingAttemptGroupPublic i) = Inl i"
| "public_payload (ExperimentRunPublic i) = Inl i"
| "public_payload (ResultEvidencePublic i) = Inl i"
| "public_payload (AtomPublic i) = Inl i"
| "public_payload (ProcedurePublic i) = Inl i"
| "public_payload (RevisionProposalPublic i) = Inl i"
| "public_payload (CoreMembershipPublic i) = Inl i"
| "public_payload (SemanticDigestPublic i) = Inl i"
| "public_payload (SemanticDerivationRunPublic i) = Inl i"
| "public_payload (WikiProjectionPublic i) = Inr i"
| "public_payload (CoreProjectionPublic i) = Inr i"
| "public_payload (ScenarioPublic i) = Inr i"
| "public_payload (WorkArtifactPublic i) = Inl i"
| "public_payload (DuplicateGroupPublic i) = Inl i"
| "public_payload (CasPublic i) = Inr i"

definition public_id_valid :: "uuid_lib \<Rightarrow> any_public_id \<Rightarrow> bool" where
  "public_id_valid lib v = (case public_payload v of
      Inl u \<Rightarrow> validate_uuid lib u = Ok () | Inr d \<Rightarrow> length d = 32)"

definition public_id_text :: "uuid_lib \<Rightarrow> any_public_id \<Rightarrow> string" where
  "public_id_text lib v = (case public_payload v of
      Inl u \<Rightarrow> uuid_id_to_string lib (any_public_id_family v) u
    | Inr d \<Rightarrow> digest_id_to_string (any_public_id_family v) d)"

lemma family_no_colon: "CHR '':'' \<notin> set (any_public_id_family v)"
  by (cases v) simp_all

lemma split_once_public_id_text:
  "\<exists>r. split_once (CHR '':'') (public_id_text lib v) = Some (any_public_id_family v, r)"
  using split_once_app [OF family_no_colon [of v]]
  by (cases "public_payload v")
    (simp_all add: public_id_text_def uuid_id_to_string_def digest_id_to_string_def write_digest_def)

lemma any_public_id_from_str_text:
  assumes "uuid_lib_ok lib" and "public_id_valid lib v"
  shows "any_public_id_from_str lib (public_id_text lib v) = Ok v"
proof -
  obtain r where r: "split_once (CHR '':'') (public_id_text lib v) = Some (any_public_id_family v, r)"
    using split_once_public_id_text by blast
  show ?thesis
    using assms(2) unfolding any_public_id_from_str_def r
    by (cases v)
      (simp_all add: ok_or_def public_id_valid_def public_id_text_def and_then_Inr_iff
        uuid_id_from_str_iff [OF assms(1)] digest_id_from_str_iff)
qed

lemma any_public_id_from_str_sound:
  assumes "uuid_lib_ok lib" and "any_public_id_from_str lib s = Ok v"
  shows "public_id_valid lib v \<and> public_id_text lib v = s"
  using assms(2)
  by (auto simp: any_public_id_from_str_def and_then_Inr_iff uuid_id_from_str_iff [OF assms(1)]
      digest_id_from_str_iff public_id_valid_def public_id_text_def split: if_splits)

text \<open>
  C33. Public identifiers have exactly one text: a string is accepted as an identifier
  exactly when it is the text of that identifier and the identifier is well formed (a
  version-7 RFC 4122 UUID, or a 32-byte digest). So printing and parsing are inverse,
  no two strings denote the same identifier, and the family prefix determines the kind.
\<close>

theorem public_id_roundtrip:
  assumes "uuid_lib_ok lib"
  shows "any_public_id_from_str lib s = Ok v \<longleftrightarrow> public_id_valid lib v \<and> s = public_id_text lib v"
  using any_public_id_from_str_text [OF assms] any_public_id_from_str_sound [OF assms] by blast

text \<open>
  What can be an organize target: of all well-formed identifiers exactly atoms,
  procedures and core memberships; the text of a wiki or core projection is refused
  with the projection error and every other identifier as a wrong family.
\<close>

theorem organize_target_exact:
  assumes "uuid_lib_ok lib" and "public_id_valid lib v"
  shows "organize_target_from_str lib (public_id_text lib v) =
    (if any_public_id_family v = ''atom'' then Ok (AtomTarget (projl (public_payload v)))
     else if any_public_id_family v = ''proc'' then Ok (ProcedureTarget (projl (public_payload v)))
     else if any_public_id_family v = ''coremem'' then Ok (CoreMembershipTarget (projl (public_payload v)))
     else if any_public_id_family v \<in> {''wiki'', ''core''} then Err ProjectionNotOrganizable
     else Err WrongFamily)"
  using any_public_id_from_str_text [OF assms]
  by (cases v) (simp_all add: organize_target_from_str_def organize_target_try_from_def)

lemma push_unique_spec:
  "distinct acc \<Longrightarrow> distinct (push_unique acc xs)"
  "set (push_unique acc xs) = set acc \<union> set xs"
  "\<exists>ys. push_unique acc xs = acc @ ys"
proof (induction acc xs rule: push_unique.induct)
  case (2 acc prior rest)
  { case 1 then show ?case using 2(1) by auto }
  { case 2 then show ?case using "2.IH"(2) by auto }
  { case 3
    obtain ys where "push_unique (if prior \<in> set acc then acc else acc @ [prior]) rest
        = (if prior \<in> set acc then acc else acc @ [prior]) @ ys"
      using "2.IH"(3) by blast
    then show ?case by (cases "prior \<in> set acc") auto }
qed simp_all

text \<open>
  A successor of an immutable revision names its predecessor as parent, supersedes
  it first of all, supersedes exactly the predecessor and the revisions passed in
  addition, and lists none of them twice.
\<close>

theorem immutable_revision_successor_spec:
  "ir_parent (immutable_revision_successor r i p t w extra) = Some (ir_revision_id r)
    \<and> hd (ir_supersedes (immutable_revision_successor r i p t w extra)) = ir_revision_id r
    \<and> set (ir_supersedes (immutable_revision_successor r i p t w extra))
        = insert (ir_revision_id r) (set extra)
    \<and> distinct (ir_supersedes (immutable_revision_successor r i p t w extra))"
  using push_unique_spec [of "[ir_revision_id r]" extra]
  by (auto simp: immutable_revision_successor_def)

section \<open>A UUID library\<close>

text \<open>The hyphenated form 8-4-4-4-12, the version nibble and the variant bits.\<close>

definition insert_hyphens :: "string \<Rightarrow> string" where
  "insert_hyphens s = take 8 s @ ''-'' @ take 4 (drop 8 s) @ ''-'' @ take 4 (drop 12 s) @ ''-''
    @ take 4 (drop 16 s) @ ''-'' @ drop 20 s"

definition sample_uuid_lib :: uuid_lib where
  "sample_uuid_lib =
    \<lparr>parse_str = \<lambda>s. (case parse_hex_chunks (filter (\<lambda>c. c \<noteq> CHR ''-'') s) of
        Inl _ \<Rightarrow> None | Inr bs \<Rightarrow> if length s = 36 then Some (of_nat (be_val bs)) else None),
     hyphenated = \<lambda>u. insert_hyphens (hex (be_bytes 16 (unat u))),
     version_num = \<lambda>u. unat u div 2 ^ 76 mod 16,
     rfc4122_variant = \<lambda>u. unat u div 2 ^ 62 mod 4 = 2\<rparr>"

lemma filter_insert_hyphens:
  assumes "CHR ''-'' \<notin> set s"
  shows "filter (\<lambda>c. c \<noteq> CHR ''-'') (insert_hyphens s) = s"
proof -
  have keep: "filter (\<lambda>c. c \<noteq> CHR ''-'') (take m (drop n s)) = take m (drop n s)" for m n
    using assms by (intro filter_True) (auto dest!: in_set_takeD in_set_dropD)
  have keep': "filter (\<lambda>c. c \<noteq> CHR ''-'') (drop n s) = drop n s" for n
    using assms by (intro filter_True) (auto dest!: in_set_dropD)
  have piece: "take m (drop n s) @ drop (n + m) s = drop n s" for m n
    by (metis add.commute append_take_drop_id drop_drop)
  have "take 8 s @ take 4 (drop 8 s) @ take 4 (drop 12 s) @ take 4 (drop 16 s) @ drop 20 s = s"
    using piece [of 4 16] piece [of 4 12] piece [of 4 8] append_take_drop_id [of 8 s] by simp
  then show ?thesis using keep [of 8 0] by (simp add: insert_hyphens_def keep keep')
qed

lemma hex_no_hyphen: "CHR ''-'' \<notin> set (hex d)"
  using hex_lower [of d] by (auto simp: list_all_iff is_lower_hex_def is_ascii_digit_def)

lemma sample_uuid_lib_ok: "uuid_lib_ok sample_uuid_lib"
  unfolding uuid_lib_ok_def
proof
  fix u :: uuid
  have "length (insert_hyphens (hex (be_bytes 16 (unat u)))) = 36"
    by (simp add: insert_hyphens_def)
  moreover have "unat u < 256 ^ 16" using unat_bound [of u] by simp
  ultimately show "parse_str sample_uuid_lib (hyphenated sample_uuid_lib u) = Some u
      \<and> length (hyphenated sample_uuid_lib u) = 36"
    by (simp add: sample_uuid_lib_def filter_insert_hyphens [OF hex_no_hyphen] be_val_be_bytes)
qed

definition sample_uuid :: uuid where
  "sample_uuid = 7 * 2 ^ 76 + 2 * 2 ^ 62"

lemma sample_uuid_valid: "validate_uuid sample_uuid_lib sample_uuid = Ok ()"
  by (simp add: validate_uuid_def sample_uuid_lib_def sample_uuid_def)

theorem public_id_roundtrip_witness:
  "any_public_id_from_str sample_uuid_lib (public_id_text sample_uuid_lib (AtomPublic sample_uuid))
    = Ok (AtomPublic sample_uuid)"
  using public_id_roundtrip [OF sample_uuid_lib_ok] sample_uuid_valid
  by (simp add: public_id_valid_def)

theorem organize_target_exact_witness:
  "organize_target_from_str sample_uuid_lib (public_id_text sample_uuid_lib (AtomPublic sample_uuid))
    = Ok (AtomTarget sample_uuid)"
  using organize_target_exact [OF sample_uuid_lib_ok, of "AtomPublic sample_uuid"] sample_uuid_valid
  by (simp add: public_id_valid_def)

end
