(* ===== verification/Canonical.thy ===== *)
theory Canonical
  imports Prelude
begin

text \<open>
  The canonical binary encoding of \<open>evertrace-domain/src/canonical.rs\<close>, from
  which every content digest and keyed identity of the system is computed.
  \<open>encode_value\<close> writes one type tag byte and a length-prefixed body; the entries
  of a map are written in byte order of their keys, and a repeated key is refused.
  The Rust function appends to a caller's buffer; the model returns what it
  appends. The hash functions are third-party code and enter \<open>canonical_sha256\<close>
  and \<open>canonical_hmac_sha256\<close> as parameters.

  The theorems: which values are encodable, that the encoding ignores the order of
  map entries and nothing else, and that no encoding is a proper prefix of another.
\<close>

datatype canonical_value =
    CNull
  | CBool bool
  | CInteger i128
  | CString string
  | CBytes bytes
  | CSequence "canonical_value list"
  | CMap "(string \<times> canonical_value) list"

datatype canonical_error = EmptySchemaTag | DuplicateMapKey | LengthOverflow

definition FORMAT_MAGIC :: bytes where
  "FORMAT_MAGIC = as_bytes ''ETC1''"

definition push_len :: "nat \<Rightarrow> (canonical_error, bytes) result" where
  "push_len n = (if n < 2 ^ 64 then Ok (be_bytes 8 n) else Err LengthOverflow)"

text \<open>\<open>sorted.windows(2)\<close> finds no equal neighbours.\<close>

definition no_equal_neighbour_keys :: "(string \<times> 'v) list \<Rightarrow> bool" where
  "no_equal_neighbour_keys es = windows_all (\<lambda>p q. fst p \<noteq> fst q) es"

lemma size_list_sort_key:
  "size_list f (sort_key g xs) = size_list f (xs :: 'a list)"
proof -
  have "size_list f ys = sum_mset (image_mset f (mset ys)) + size (mset ys)" for ys :: "'a list"
    by (induction ys) auto
  then show ?thesis by simp
qed

function (sequential) encode_value :: "canonical_value \<Rightarrow> (canonical_error, bytes) result"
  and encode_items :: "canonical_value list \<Rightarrow> (canonical_error, bytes) result"
  and encode_entries :: "(string \<times> canonical_value) list \<Rightarrow> (canonical_error, bytes) result"
where
  "encode_value CNull = Ok [78]"
| "encode_value (CBool b) = Ok [66, if b then 1 else 0]"
| "encode_value (CInteger i) = Ok (73 # i128_to_be i)"
| "encode_value (CString s) =
    and_then (push_len (length s)) (\<lambda>l. Ok (83 # l @ as_bytes s))"
| "encode_value (CBytes bs) =
    and_then (push_len (length bs)) (\<lambda>l. Ok (89 # l @ bs))"
| "encode_value (CSequence items) =
    and_then (push_len (length items)) (\<lambda>l.
    and_then (encode_items items) (\<lambda>b. Ok (81 # l @ b)))"
| "encode_value (CMap entries) =
    and_then (push_len (length entries)) (\<lambda>l.
      if \<not> no_equal_neighbour_keys (sort_key fst entries) then Err DuplicateMapKey
      else and_then (encode_entries (sort_key fst entries)) (\<lambda>b. Ok (77 # l @ b)))"
| "encode_items [] = Ok []"
| "encode_items (x # xs) =
    and_then (encode_value x) (\<lambda>a. and_then (encode_items xs) (\<lambda>b. Ok (a @ b)))"
| "encode_entries [] = Ok []"
| "encode_entries ((k, v) # es) =
    and_then (push_len (length k)) (\<lambda>l.
    and_then (encode_value v) (\<lambda>a.
    and_then (encode_entries es) (\<lambda>b. Ok (l @ as_bytes k @ a @ b))))"
  by pat_completeness auto
termination
  by (relation "measure (case_sum size (case_sum (size_list size)
        (size_list (size_prod (\<lambda>_. 0) size))))")
     (auto simp: size_list_sort_key)

definition encode :: "string \<Rightarrow> u32 \<Rightarrow> canonical_value \<Rightarrow> (canonical_error, bytes) result" where
  "encode schema_tag schema_version v =
    (if schema_tag = [] then Err EmptySchemaTag
     else and_then (push_len (length schema_tag)) (\<lambda>l.
          and_then (encode_value v) (\<lambda>b.
          Ok (FORMAT_MAGIC @ l @ as_bytes schema_tag @ u32_to_be schema_version @ b))))"

definition canonical_sha256 ::
  "(bytes \<Rightarrow> bytes) \<Rightarrow> string \<Rightarrow> u32 \<Rightarrow> canonical_value \<Rightarrow> (canonical_error, bytes) result" where
  "canonical_sha256 sha256_digest schema_tag schema_version v =
    and_then (encode schema_tag schema_version v) (\<lambda>encoded. Ok (sha256_digest encoded))"

definition canonical_hmac_sha256 ::
  "(bytes \<Rightarrow> bytes \<Rightarrow> bytes) \<Rightarrow> bytes \<Rightarrow> string \<Rightarrow> u32 \<Rightarrow> canonical_value
    \<Rightarrow> (canonical_error, bytes) result" where
  "canonical_hmac_sha256 hmac key schema_tag schema_version v =
    and_then (encode schema_tag schema_version v) (\<lambda>encoded. Ok (hmac key encoded))"

section \<open>What the encoding identifies\<close>

text \<open>
  \<open>canonical_form\<close> orders the entries of every map: the abstract value an encoding
  stands for. \<open>encodable\<close> says which values have an encoding.
\<close>

fun canonical_form :: "canonical_value \<Rightarrow> canonical_value" where
  "canonical_form (CSequence items) = CSequence (map canonical_form items)"
| "canonical_form (CMap entries) =
    CMap (sort_key fst (map (\<lambda>(k, v). (k, canonical_form v)) entries))"
| "canonical_form v = v"

fun encodable :: "canonical_value \<Rightarrow> bool" where
  "encodable (CString s) = (length s < 2 ^ 64)"
| "encodable (CBytes bs) = (length bs < 2 ^ 64)"
| "encodable (CSequence items) = (length items < 2 ^ 64 \<and> (\<forall>v \<in> set items. encodable v))"
| "encodable (CMap entries) =
    (length entries < 2 ^ 64 \<and> distinct (map fst entries)
     \<and> (\<forall>(k, v) \<in> set entries. length k < 2 ^ 64 \<and> encodable v))"
| "encodable _ = True"

abbreviation canonical_entry :: "string \<times> canonical_value \<Rightarrow> string \<times> canonical_value" where
  "canonical_entry \<equiv> (\<lambda>(k, v). (k, canonical_form v))"

lemma push_len_Inr_iff [result_simps]: "push_len n = Inr l \<longleftrightarrow> n < 2 ^ 64 \<and> l = be_bytes 8 n"
  by (auto simp: push_len_def)

lemma insort_key_fst_map:
  assumes "\<And>p. fst (f p) = fst p"
  shows "insort_key fst (f p) (map f ps) = map f (insort_key fst p ps)"
  by (induction ps) (auto simp: assms)

lemma sort_key_fst_map:
  assumes "\<And>p. fst (f p) = fst p"
  shows "sort_key fst (map f ps) = map f (sort_key fst ps)"
  by (induction ps) (auto simp: insort_key_fst_map assms)

lemma sort_key_canonical_entry:
  "sort_key fst (map canonical_entry es) = map canonical_entry (sort_key fst es)"
  by (rule sort_key_fst_map) auto

lemma canonical_form_CMap:
  "canonical_form (CMap es) = CMap (map canonical_entry (sort_key fst es))"
  by (simp add: sort_key_canonical_entry)

lemma no_equal_neighbour_keys_sorted:
  assumes "sorted (map fst es)"
  shows "no_equal_neighbour_keys es \<longleftrightarrow> distinct (map fst es)"
  using assms unfolding no_equal_neighbour_keys_def
proof (induction es rule: induct_list012)
  case (3 x y zs)
  then show ?case by force
qed simp_all

lemma no_equal_neighbour_keys_sort [simp]:
  "no_equal_neighbour_keys (sort_key fst es) \<longleftrightarrow> distinct (map fst es)"
proof -
  have "mset (map fst (sort_key fst es)) = mset (map fst es)"
    by (metis mset_map mset_sort)
  then have "distinct (map fst (sort_key fst es)) \<longleftrightarrow> distinct (map fst es)"
    by (rule mset_eq_imp_distinct_iff)
  then show ?thesis
    using no_equal_neighbour_keys_sorted [OF sorted_sort_key] by blast
qed

lemma encode_ok_iff_encodable:
  "(\<exists>b. encode_value v = Inr b) \<longleftrightarrow> encodable v"
  "(\<exists>b. encode_items vs = Inr b) \<longleftrightarrow> (\<forall>v \<in> set vs. encodable v)"
  "(\<exists>b. encode_entries es = Inr b) \<longleftrightarrow> (\<forall>(k, v) \<in> set es. length k < 2 ^ 64 \<and> encodable v)"
proof (induction v and vs and es rule: encode_value_encode_items_encode_entries.induct)
  case (7 entries)
  then show ?case by (auto simp: result_simps)
next
  case (9 x xs)
  then show ?case by (auto simp: result_simps)
next
  case (11 k v es)
  then show ?case by (auto simp: result_simps)
qed (auto simp: result_simps)

lemma no_equal_neighbour_keys_canonical_entry [simp]:
  "no_equal_neighbour_keys (map canonical_entry es) \<longleftrightarrow> no_equal_neighbour_keys es"
  unfolding no_equal_neighbour_keys_def by (induction es rule: induct_list012) auto

lemma encode_canonical_form:
  "encode_value (canonical_form v) = encode_value v"
  "encode_items (map canonical_form vs) = encode_items vs"
  "encode_entries (map canonical_entry es) = encode_entries es"
proof (induction v and vs and es rule: encode_value_encode_items_encode_entries.induct)
  case (6 items)
  then show ?case by (cases "push_len (length items)") auto
next
  case (7 entries)
  have "sort_key fst (map canonical_entry (sort_key fst entries))
      = map canonical_entry (sort_key fst entries)"
    by (simp add: sort_key_canonical_entry sort_key_id_if_sorted)
  then show ?case using 7
    by (cases "push_len (length entries)")
       (auto simp: canonical_form_CMap simp del: canonical_form.simps)
next
  case (9 x xs)
  then show ?case by (cases "encode_value x") auto
next
  case (11 k v es)
  then show ?case by (cases "push_len (length k)"; cases "encode_value v") auto
qed simp_all

lemma be_bytes_8_append_inject:
  assumes "m < 2 ^ 64" and "n < 2 ^ 64" and "be_bytes 8 m @ r = be_bytes 8 n @ s"
  shows "m = n \<and> r = s"
proof -
  have "be_bytes 8 m = be_bytes 8 n" and "r = s"
    using assms(3) by (simp_all add: append_eq_append_conv)
  moreover have "m < 256 ^ 8" and "n < 256 ^ 8"
    using assms(1,2) by simp_all
  ultimately show ?thesis using be_bytes_inject [of m 8 n] by blast
qed

lemma length_prefixed_inject:
  assumes "length a < 2 ^ 64" and "length b < 2 ^ 64"
    and "be_bytes 8 (length a) @ a @ r = be_bytes 8 (length b) @ b @ s"
  shows "a = b \<and> r = s"
proof -
  from assms have "length a = length b \<and> a @ r = b @ s"
    by (rule be_bytes_8_append_inject)
  then show ?thesis using append_eq_append_conv by blast
qed

lemma entry_key_inject:
  assumes "length k < 2 ^ 64" and "length k' < 2 ^ 64"
    and "be_bytes 8 (length k) @ as_bytes k @ r = be_bytes 8 (length k') @ as_bytes k' @ s"
  shows "k = k' \<and> r = s"
  using length_prefixed_inject [of "as_bytes k" "as_bytes k'" r s] assms by simp

lemma encode_prefix_free:
  "\<And>w a b r s. encode_value v = Inr a \<Longrightarrow> encode_value w = Inr b \<Longrightarrow> a @ r = b @ s \<Longrightarrow>
     canonical_form v = canonical_form w \<and> r = s"
  "\<And>ws a b r s. encode_items vs = Inr a \<Longrightarrow> encode_items ws = Inr b \<Longrightarrow> length vs = length ws \<Longrightarrow>
     a @ r = b @ s \<Longrightarrow> map canonical_form vs = map canonical_form ws \<and> r = s"
  "\<And>fs a b r s. encode_entries es = Inr a \<Longrightarrow> encode_entries fs = Inr b \<Longrightarrow> length es = length fs \<Longrightarrow>
     a @ r = b @ s \<Longrightarrow> map canonical_entry es = map canonical_entry fs \<and> r = s"
proof (induction v and vs and es rule: encode_value_encode_items_encode_entries.induct)
  case 1
  then show ?case by (cases w) (auto simp: result_simps split: if_splits)
next
  case (2 b)
  then show ?case by (cases w) (auto simp: result_simps split: if_splits)
next
  case (3 i)
  then show ?case
    by (cases w) (auto simp: result_simps append_eq_append_conv split: if_splits)
next
  case (4 str)
  then obtain t where t: "w = CString t" "length str < 2 ^ 64" "length t < 2 ^ 64"
      "be_bytes 8 (length str) @ as_bytes str @ r = be_bytes 8 (length t) @ as_bytes t @ s"
    by (cases w) (auto simp: result_simps simp del: append_eq_append_conv split: if_splits)
  from entry_key_inject [OF t(2-4)] t(1) show ?case by simp
next
  case (5 bs)
  then obtain cs where t: "w = CBytes cs" "length bs < 2 ^ 64" "length cs < 2 ^ 64"
      "be_bytes 8 (length bs) @ bs @ r = be_bytes 8 (length cs) @ cs @ s"
    by (cases w) (auto simp: result_simps simp del: append_eq_append_conv split: if_splits)
  from length_prefixed_inject [OF t(2-4)] t(1) show ?case by simp
next
  case (6 items)
  from 6(2) obtain bi where items: "length items < 2 ^ 64" "encode_items items = Inr bi"
      "a = 81 # be_bytes 8 (length items) @ bi"
    by (auto simp: result_simps)
  with 6(3,4) obtain ws bw where w: "w = CSequence ws" "length ws < 2 ^ 64"
      "encode_items ws = Inr bw" "b = 81 # be_bytes 8 (length ws) @ bw"
    by (cases w) (auto simp: result_simps split: if_splits)
  have "be_bytes 8 (length items) @ bi @ r = be_bytes 8 (length ws) @ bw @ s"
    using items(3) w(4) 6(4) by (simp del: append_eq_append_conv)
  with items(1) w(2) have "length items = length ws" "bi @ r = bw @ s"
    using be_bytes_8_append_inject by blast+
  from 6(1) [OF items(2) w(3) this] w(1) show ?case by simp
next
  case (7 entries)
  from 7(2) obtain bi where entries: "length entries < 2 ^ 64" "distinct (map fst entries)"
      "encode_entries (sort_key fst entries) = Inr bi"
      "a = 77 # be_bytes 8 (length entries) @ bi"
    by (auto simp: result_simps split: if_splits)
  with 7(3,4) obtain fs bw where w: "w = CMap fs" "length fs < 2 ^ 64"
      "encode_entries (sort_key fst fs) = Inr bw" "b = 77 # be_bytes 8 (length fs) @ bw"
    by (cases w) (auto simp: result_simps split: if_splits)
  have "be_bytes 8 (length entries) @ bi @ r = be_bytes 8 (length fs) @ bw @ s"
    using entries(4) w(4) 7(4) by (simp del: append_eq_append_conv)
  with entries(1) w(2) have eq: "length entries = length fs" "bi @ r = bw @ s"
    using be_bytes_8_append_inject by blast+
  have "map canonical_entry (sort_key fst entries) = map canonical_entry (sort_key fst fs) \<and> r = s"
    using 7(1) [OF _ entries(3) w(3) _ eq(2)] entries(2) eq(1) by simp
  then show ?case
    by (simp add: w(1) canonical_form_CMap del: canonical_form.simps)
next
  case (8 ws)
  then show ?case by auto
next
  case (9 x xs)
  then obtain y ys where ws: "ws = y # ys" by (cases ws) auto
  from 9(3) obtain ax axs where x: "encode_value x = Inr ax" "encode_items xs = Inr axs"
      "a = ax @ axs" by (auto simp: result_simps)
  from 9(4) ws obtain by' bys where y: "encode_value y = Inr by'" "encode_items ys = Inr bys"
      "b = by' @ bys" by (auto simp: result_simps)
  have "ax @ axs @ r = by' @ bys @ s" using x(3) y(3) 9(6) by simp
  with 9(1) [OF x(1) y(1)] have eq: "canonical_form x = canonical_form y" "axs @ r = bys @ s"
    by blast+
  from 9(2) [OF x(2) y(2) _ eq(2)] eq(1) 9(5) ws show ?case by simp
next
  case (10 fs)
  then show ?case by auto
next
  case (11 k v es)
  then obtain k' v' fs' where fs: "fs = (k', v') # fs'" by (cases fs) auto
  from 11(3) obtain av aes where x: "length k < 2 ^ 64" "encode_value v = Inr av"
      "encode_entries es = Inr aes" "a = be_bytes 8 (length k) @ as_bytes k @ av @ aes"
    by (auto simp: result_simps)
  from 11(4) fs obtain bv bfs where y: "length k' < 2 ^ 64" "encode_value v' = Inr bv"
      "encode_entries fs' = Inr bfs" "b = be_bytes 8 (length k') @ as_bytes k' @ bv @ bfs"
    by (auto simp: result_simps)
  have "be_bytes 8 (length k) @ as_bytes k @ av @ aes @ r
      = be_bytes 8 (length k') @ as_bytes k' @ bv @ bfs @ s"
    using 11(6) x(4) y(4) by (simp del: append_eq_append_conv)
  with x(1) y(1) have key: "k = k'" "av @ aes @ r = bv @ bfs @ s"
    using entry_key_inject by blast+
  have val: "canonical_form v = canonical_form v'" "aes @ r = bfs @ s"
    using 11(1) [OF x(2) y(2) key(2)] by blast+
  have "map canonical_entry es = map canonical_entry fs' \<and> r = s"
    using 11(2) [OF x(3) y(3) _ val(2)] 11(5) fs by simp
  with key val fs show ?case by simp
qed

lemma encode_inject:
  assumes "encode t n v = Inr b" and "encode t' n' w = Inr b"
  shows "t' = t \<and> n' = n \<and> canonical_form w = canonical_form v"
proof -
  from assms(1) obtain bv where v: "length t < 2 ^ 64" "encode_value v = Inr bv"
      "b = FORMAT_MAGIC @ be_bytes 8 (length t) @ as_bytes t @ u32_to_be n @ bv"
    by (auto simp: encode_def result_simps split: if_splits)
  from assms(2) obtain bw where w: "length t' < 2 ^ 64" "encode_value w = Inr bw"
      "b = FORMAT_MAGIC @ be_bytes 8 (length t') @ as_bytes t' @ u32_to_be n' @ bw"
    by (auto simp: encode_def result_simps split: if_splits)
  from v(3) w(3) have "be_bytes 8 (length t') @ as_bytes t' @ (u32_to_be n' @ bw)
      = be_bytes 8 (length t) @ as_bytes t @ (u32_to_be n @ bv)"
    by (simp only: same_append_eq)
  with v(1) w(1) have "t' = t" and "u32_to_be n' @ bw = u32_to_be n @ bv"
    using entry_key_inject by blast+
  then have "t' = t" and "n' = n" and "bw @ [] = bv @ []"
    by (auto dest: arg_cong [where f = u32_from_be])
  with encode_prefix_free(1) [OF w(2) v(2)] show ?thesis by blast
qed

lemma encode_ok: "t \<noteq> [] \<Longrightarrow> length t < 2 ^ 64 \<Longrightarrow> encodable v \<Longrightarrow> \<exists>b. encode t n v = Inr b"
  using encode_ok_iff_encodable(1) [of v] by (auto simp: encode_def result_simps)

text \<open>
  C15. Canonical encoding identifies a value up to the order of map entries: two
  encodings agree exactly when schema tag, schema version and canonical form agree.
  In particular digests computed from it never depend on entry order, and two
  different values never share an encoding.
\<close>

theorem encode_identifies:
  assumes "encode t n v = Inr b"
  shows "encode t' n' w = Inr b \<longleftrightarrow>
    t' = t \<and> n' = n \<and> canonical_form w = canonical_form v"
proof
  assume "encode t' n' w = Inr b"
  then show "t' = t \<and> n' = n \<and> canonical_form w = canonical_form v"
    by (rule encode_inject [OF assms])
next
  assume "t' = t \<and> n' = n \<and> canonical_form w = canonical_form v"
  moreover from this have "encode_value w = encode_value v"
    by (metis encode_canonical_form(1))
  ultimately show "encode t' n' w = Inr b"
    using assms by (simp only: encode_def)
qed

theorem encode_identifies_witness:
  "\<exists>b. encode ''a'' 1 (CMap [(''y'', CNull), (''x'', CBool True)]) = Inr b
    \<and> encode ''a'' 1 (CMap [(''x'', CBool True), (''y'', CNull)]) = Inr b"
proof -
  let ?v = "CMap [(''y'', CNull), (''x'', CBool True)]"
  let ?w = "CMap [(''x'', CBool True), (''y'', CNull)]"
  have "\<exists>b. encode_value ?v = Inr b"
    using encode_ok_iff_encodable(1) [of ?v] by simp
  then obtain b where b: "encode ''a'' 1 ?v = Inr b"
    by (auto simp: encode_def push_len_def)
  have "canonical_form ?w = canonical_form ?v" by code_simp
  with encode_identifies [OF b, of "''a''" 1 ?w] b show ?thesis by blast
qed

text \<open>
  Exactly which inputs are refused: an empty tag, a length that does not fit in 64
  bits, or a map (at any depth) with a repeated key. Every other value is encoded.
\<close>

theorem encode_succeeds_iff:
  "(\<exists>b. encode t n v = Inr b) \<longleftrightarrow> t \<noteq> [] \<and> length t < 2 ^ 64 \<and> encodable v"
  using encode_ok_iff_encodable(1) [of v]
  by (auto simp: encode_def result_simps)

end
