(* ===== verification/Evidence.thy ===== *)
theory Evidence
  imports Burst Lane_Capture Identifiers Canonical
begin

text \<open>
  Evidence objects: \<open>evertrace-domain/src/evidence.rs\<close>. Source receipts and observations
  are what an adapter saw; host occurrences and operations are what was derived from
  them. Identities of observations, receipts and occurrences are digests of canonical
  encodings of their keys. \<open>sha256_digest\<close> and the \<open>uuid\<close> library are parameters.
  \<open>SourceInstanceId\<close>, \<open>SourceRevision\<close> and \<open>SourceRecordIdentity\<close> are strings that
  passed \<open>validate_identifier\<close>.
\<close>

datatype evidence_error = EvInvalid | EvInvalidIdentifier | EvInvalidRange | EvInvalidDigest
  | EvInvalidRevision | EvInvalidCompleteness | EvInvalidRedaction | EvInvalidCorrelation
  | EvInvalidOccurrence | EvInvalidOperation | EvInvalidScopeEffect | EvCanonical

definition MAX_IDENTITY_BYTES :: nat where "MAX_IDENTITY_BYTES = 256"
definition MAX_EVIDENCE_SURFACE_BYTES :: nat where "MAX_EVIDENCE_SURFACE_BYTES = 16 * 1024"

definition validate_identifier :: "string \<Rightarrow> (evidence_error, unit) result" where
  "validate_identifier value =
    (if value = [] \<or> length value > MAX_IDENTITY_BYTES
        \<or> (\<exists>c \<in> set value. of_char c = (0 :: nat) \<or> is_ascii_control c)
     then Err EvInvalidIdentifier else Ok ())"

definition source_identity_parse :: "string \<Rightarrow> (evidence_error, string) result" where
  "source_identity_parse value = and_then (validate_identifier value) (\<lambda>_. Ok value)"

definition evidence_require_unique :: "'a::linorder list \<Rightarrow> (evidence_error, unit) result" where
  "evidence_require_unique values =
    (if length (btree_set values) \<noteq> length values then Err EvInvalid else Ok ())"

definition validate_digest :: "string \<Rightarrow> (evidence_error, unit) result" where
  "validate_digest value =
    (if length value \<noteq> 64 \<or> \<not> list_all is_lower_hex value then Err EvInvalidDigest else Ok ())"

datatype observation_role = RoleIntent | RoleResult | RoleMessage | RoleLifecycle
  | RoleStateProbe | RoleArtifact | RoleOther

datatype canonical_event_family = FamilyRead | FamilySearch | FamilyMutate | FamilyVerify
  | FamilyBuild | FamilyLaunch | FamilyObserve | FamilyIntegrate | FamilyOtherExecutable
  | FamilyMessage | FamilyLifecycle

datatype correlation_field = FieldHostInstanceId | FieldHostTraceLineageId | FieldHostLaneKey
  | FieldCanonicalEventFamily | FieldNativeRequestId | FieldPhysicalExecutionOrdinal

datatype correlation_admission = AdmissionExactCapable | AdmissionAmbiguous
  | AdmissionConflicted | AdmissionUnavailable

instantiation correlation_field :: linorder
begin

fun rank_correlation_field :: "correlation_field \<Rightarrow> nat" where
  "rank_correlation_field FieldHostInstanceId = 0"
| "rank_correlation_field FieldHostTraceLineageId = 1"
| "rank_correlation_field FieldHostLaneKey = 2"
| "rank_correlation_field FieldCanonicalEventFamily = 3"
| "rank_correlation_field FieldNativeRequestId = 4"
| "rank_correlation_field FieldPhysicalExecutionOrdinal = 5"

definition less_eq_correlation_field :: "correlation_field \<Rightarrow> correlation_field \<Rightarrow> bool" where
  "less_eq_correlation_field a b \<longleftrightarrow> rank_correlation_field a \<le> rank_correlation_field b"

definition less_correlation_field :: "correlation_field \<Rightarrow> correlation_field \<Rightarrow> bool" where
  "less_correlation_field a b \<longleftrightarrow> rank_correlation_field a < rank_correlation_field b"

instance
proof
  fix x y :: correlation_field
  show "x \<le> y \<Longrightarrow> y \<le> x \<Longrightarrow> x = y"
    by (cases x; cases y) (simp_all add: less_eq_correlation_field_def)
qed (auto simp: less_eq_correlation_field_def less_correlation_field_def)

end

definition canonical_event_family_operation_kind :: "canonical_event_family \<Rightarrow> operation_kind option" where
  "canonical_event_family_operation_kind f = (case f of
      FamilyRead \<Rightarrow> Some OpRead | FamilySearch \<Rightarrow> Some OpSearch | FamilyMutate \<Rightarrow> Some OpMutate
    | FamilyVerify \<Rightarrow> Some OpVerify | FamilyBuild \<Rightarrow> Some OpBuild | FamilyLaunch \<Rightarrow> Some OpLaunch
    | FamilyObserve \<Rightarrow> Some OpObserve | FamilyIntegrate \<Rightarrow> Some OpIntegrate
    | FamilyOtherExecutable \<Rightarrow> Some OpOther | FamilyMessage \<Rightarrow> None | FamilyLifecycle \<Rightarrow> None)"

definition event_family_name :: "canonical_event_family \<Rightarrow> string" where
  "event_family_name f = (case f of
      FamilyRead \<Rightarrow> ''read'' | FamilySearch \<Rightarrow> ''search'' | FamilyMutate \<Rightarrow> ''mutate''
    | FamilyVerify \<Rightarrow> ''verify'' | FamilyBuild \<Rightarrow> ''build'' | FamilyLaunch \<Rightarrow> ''launch''
    | FamilyObserve \<Rightarrow> ''observe'' | FamilyIntegrate \<Rightarrow> ''integrate''
    | FamilyOtherExecutable \<Rightarrow> ''other_executable'' | FamilyMessage \<Rightarrow> ''message''
    | FamilyLifecycle \<Rightarrow> ''lifecycle'')"

record host_occurrence_exact_key =
  ek_occurrence_schema_version :: u32
  ek_host_instance_id :: string
  ek_host_trace_lineage_id :: string
  ek_host_lane_key :: string
  ek_canonical_event_family :: canonical_event_family
  ek_native_request_id :: string
  ek_physical_execution_ordinal :: u32

definition host_occurrence_exact_key_validate :: "host_occurrence_exact_key \<Rightarrow> (evidence_error, unit) result" where
  "host_occurrence_exact_key_validate k =
    (if ek_occurrence_schema_version k = 0 \<or> ek_physical_execution_ordinal k = 0
     then Err EvInvalidCorrelation
     else for_each validate_identifier
       [ek_host_instance_id k, ek_host_trace_lineage_id k, ek_host_lane_key k, ek_native_request_id k])"

record correlation_field_claim =
  fc_field :: correlation_field
  fc_source_ref :: string
  fc_evidence_ref :: string

record host_correlation_evidence =
  hc_occurrence_schema_version :: u32
  hc_host_instance_id :: "string option"
  hc_host_trace_lineage_id :: "string option"
  hc_host_lane_key :: "string option"
  hc_canonical_event_family :: "canonical_event_family option"
  hc_native_request_id :: "string option"
  hc_physical_execution_ordinal :: "u32 option"
  hc_pairing_role :: observation_role
  hc_field_provenance :: "correlation_field_claim list"
  hc_adapter_manifest_ref :: string
  hc_adapter_revision :: u32
  hc_strong_gate_receipt_ref :: "string option"
  hc_admission :: correlation_admission
  hc_partial_correlation_ref :: "string option"
  hc_possible_duplicate_group_id :: "uuid option"

definition host_correlation_evidence_present_fields :: "host_correlation_evidence \<Rightarrow> correlation_field set" where
  "host_correlation_evidence_present_fields e =
    (if hc_host_instance_id e \<noteq> None then {FieldHostInstanceId} else {})
    \<union> (if hc_host_trace_lineage_id e \<noteq> None then {FieldHostTraceLineageId} else {})
    \<union> (if hc_host_lane_key e \<noteq> None then {FieldHostLaneKey} else {})
    \<union> (if hc_canonical_event_family e \<noteq> None then {FieldCanonicalEventFamily} else {})
    \<union> (if hc_native_request_id e \<noteq> None then {FieldNativeRequestId} else {})
    \<union> (if hc_physical_execution_ordinal e \<noteq> None then {FieldPhysicalExecutionOrdinal} else {})"

definition host_correlation_evidence_exact_key ::
  "host_correlation_evidence \<Rightarrow> host_occurrence_exact_key option" where
  "host_correlation_evidence_exact_key e =
    (if hc_admission e \<noteq> AdmissionExactCapable \<or> hc_strong_gate_receipt_ref e = None then None
     else case (hc_host_instance_id e, hc_host_trace_lineage_id e, hc_host_lane_key e,
         hc_canonical_event_family e, hc_native_request_id e, hc_physical_execution_ordinal e) of
       (Some host, Some trace, Some lane, Some family, Some request, Some ordinal) \<Rightarrow>
         Some \<lparr>ek_occurrence_schema_version = hc_occurrence_schema_version e,
           ek_host_instance_id = host, ek_host_trace_lineage_id = trace, ek_host_lane_key = lane,
           ek_canonical_event_family = family, ek_native_request_id = request,
           ek_physical_execution_ordinal = ordinal\<rparr>
     | _ \<Rightarrow> None)"

text \<open>The loop over the field claims, with the set of fields observed so far.\<close>

fun field_claims_loop ::
  "correlation_field set \<Rightarrow> correlation_field set \<Rightarrow> correlation_field_claim list
    \<Rightarrow> (evidence_error, correlation_field set) result" where
  "field_claims_loop expected observed [] = Ok observed"
| "field_claims_loop expected observed (claim # rest) =
    and_then (validate_identifier (fc_source_ref claim)) (\<lambda>_.
    and_then (validate_identifier (fc_evidence_ref claim)) (\<lambda>_.
    if fc_field claim \<notin> expected \<or> fc_field claim \<in> observed then Err EvInvalidCorrelation
    else field_claims_loop expected (insert (fc_field claim) observed) rest))"

definition host_correlation_evidence_validate ::
  "host_correlation_evidence \<Rightarrow> (evidence_error, unit) result" where
  "host_correlation_evidence_validate e =
    (if hc_occurrence_schema_version e = 0 \<or> hc_adapter_revision e = 0 then Err EvInvalidCorrelation
     else
     and_then (validate_identifier (hc_adapter_manifest_ref e)) (\<lambda>_.
     and_then (for_each validate_identifier (concat (map (case_option [] (\<lambda>v. [v]))
       [hc_host_instance_id e, hc_host_trace_lineage_id e, hc_host_lane_key e,
        hc_native_request_id e, hc_strong_gate_receipt_ref e, hc_partial_correlation_ref e]))) (\<lambda>_.
     if hc_physical_execution_ordinal e = Some 0 then Err EvInvalidCorrelation
     else
     and_then (field_claims_loop (host_correlation_evidence_present_fields e) {}
       (hc_field_provenance e)) (\<lambda>observed.
     if observed \<noteq> host_correlation_evidence_present_fields e then Err EvInvalidCorrelation
     else if hc_admission e = AdmissionExactCapable
         \<and> (host_correlation_evidence_exact_key e = None \<or> hc_strong_gate_receipt_ref e = None)
       then Err EvInvalidCorrelation
     else if hc_admission e \<noteq> AdmissionExactCapable \<and> hc_strong_gate_receipt_ref e \<noteq> None
       then Err EvInvalidCorrelation
     else if hc_possible_duplicate_group_id e \<noteq> None \<and> hc_partial_correlation_ref e = None
       then Err EvInvalidCorrelation
     else Ok ()))))"

record scope_effect_claim =
  sec_effect_role :: effect_role
  sec_repository_instance_id :: "repository_id option"
  sec_worktree_instance_id :: "worktree_id option"
  sec_pre_snapshot_id :: "worktree_snapshot_id option"
  sec_post_snapshot_id :: "worktree_snapshot_id option"
  sec_experiment_run_ids :: "experiment_run_id list"
  sec_artifact_refs :: "work_artifact_id list"
  sec_evidence_refs :: "source_observation_id list"

definition scope_effect_claim_validate :: "scope_effect_claim \<Rightarrow> (evidence_error, unit) result" where
  "scope_effect_claim_validate c =
    (if sec_repository_instance_id c = None \<and> sec_worktree_instance_id c = None
        \<and> sec_pre_snapshot_id c = None \<and> sec_post_snapshot_id c = None
        \<and> sec_experiment_run_ids c = [] \<and> sec_artifact_refs c = [] \<and> sec_evidence_refs c = []
     then Err EvInvalidScopeEffect
     else
     and_then (evidence_require_unique (sec_experiment_run_ids c)) (\<lambda>_.
     and_then (evidence_require_unique (sec_artifact_refs c)) (\<lambda>_.
     evidence_require_unique (sec_evidence_refs c))))"

datatype source_role = SourceRoleUser | SourceRoleAssistant | SourceRoleTool | SourceRoleHost
  | SourceRoleImported

datatype evidence_source_kind = SourceKindCodexHook | SourceKindCodexExecJsonl
  | SourceKindCodexSessionJsonl | SourceKindHermesSession | SourceKindOther

datatype unsupported_record_classification = UnsupportedUnknownRecordType
  | UnsupportedReasoning | UnsupportedBinary | UnsupportedUnboundedToolOutput

datatype content_trust = TrustUserStatement | TrustObserved | TrustAgentClaim
  | TrustImportedClaim | TrustUntrustedSourceContent

datatype instruction_authority = AuthorityNone

datatype capture_completeness = CompletenessComplete | CompletenessPartial | CompletenessOpaque

datatype source_revision_mode = ModeAppend | ModeReplacement

datatype source_archive_mode = ArchiveExact | ArchiveRedacted

record evidence_byte_range =
  br_start :: u64
  br_end :: u64

definition evidence_byte_range_validate :: "evidence_byte_range \<Rightarrow> (evidence_error, unit) result" where
  "evidence_byte_range_validate r = (if br_end r \<le> br_start r then Err EvInvalidRange else Ok ())"

record evidence_redaction_span =
  rs_start :: u64
  rs_end :: u64
  rs_kind :: string

definition evidence_redaction_span_validate :: "evidence_redaction_span \<Rightarrow> u64 \<Rightarrow> (evidence_error, unit) result" where
  "evidence_redaction_span_validate s raw_length =
    (if rs_start s \<ge> rs_end s \<or> rs_end s > raw_length then Err EvInvalidRange
     else validate_identifier (rs_kind s))"

fun redaction_spans_loop :: "u64 \<Rightarrow> u64 \<Rightarrow> evidence_redaction_span list \<Rightarrow> (evidence_error, unit) result" where
  "redaction_spans_loop raw_length previous_end [] = Ok ()"
| "redaction_spans_loop raw_length previous_end (span # rest) =
    and_then (evidence_redaction_span_validate span raw_length) (\<lambda>_.
    if rs_start span < previous_end then Err EvInvalidRedaction
    else redaction_spans_loop raw_length (rs_end span) rest)"

definition validate_redaction ::
  "source_archive_mode \<Rightarrow> u64 \<Rightarrow> string option \<Rightarrow> evidence_redaction_span list
    \<Rightarrow> (evidence_error, unit) result" where
  "validate_redaction archive_mode raw_length protected_secret_digest spans =
    (if raw_length = 0 then Err EvInvalid
     else if archive_mode = ArchiveExact \<and> (protected_secret_digest \<noteq> None \<or> spans \<noteq> [])
       then Err EvInvalidRedaction
     else if archive_mode = ArchiveRedacted \<and> (protected_secret_digest = None \<or> spans = [])
       then Err EvInvalidRedaction
     else
     and_then (case protected_secret_digest of None \<Rightarrow> Ok () | Some digest \<Rightarrow> validate_digest digest) (\<lambda>_.
     redaction_spans_loop raw_length 0 spans))"

datatype protected_presentation_unavailable = NonText

datatype protected_presentation = PresentationInline string | PresentationPreview string
  | PresentationUnavailable protected_presentation_unavailable

definition source_identity_digest ::
  "(bytes \<Rightarrow> bytes) \<Rightarrow> string \<Rightarrow> string \<Rightarrow> string \<Rightarrow> string \<Rightarrow> (evidence_error, bytes) result" where
  "source_identity_digest sha256_digest schema_tag source_instance_id source_revision source_record_identity =
    and_then (validate_identifier source_instance_id) (\<lambda>_.
    and_then (validate_identifier source_revision) (\<lambda>_.
    and_then (validate_identifier source_record_identity) (\<lambda>_.
    map_err (\<lambda>_. EvCanonical) (canonical_sha256 sha256_digest schema_tag 1
      (CSequence [CString source_instance_id, CString source_revision, CString source_record_identity])))))"

definition source_observation_id_of ::
  "(bytes \<Rightarrow> bytes) \<Rightarrow> string \<Rightarrow> string \<Rightarrow> string \<Rightarrow> (evidence_error, source_observation_id) result" where
  "source_observation_id_of sha256_digest i r d =
    source_identity_digest sha256_digest ''source_observation_id'' i r d"

definition source_receipt_id_of ::
  "(bytes \<Rightarrow> bytes) \<Rightarrow> string \<Rightarrow> string \<Rightarrow> string \<Rightarrow> (evidence_error, source_receipt_id) result" where
  "source_receipt_id_of sha256_digest i r d =
    source_identity_digest sha256_digest ''source_receipt_id'' i r d"

record source_receipt =
  sr_source_receipt_id :: source_receipt_id
  sr_source_observation_id :: source_observation_id
  sr_source_instance_id :: string
  sr_source_kind :: evidence_source_kind
  sr_identity_domain :: string
  sr_source_ref :: string
  sr_source_session_ref :: string
  sr_source_revision :: string
  sr_source_record_identity :: string
  sr_identity_strength :: identity_strength
  sr_source_sequence :: u64
  sr_source_sequence_origin :: "u64 option"
  sr_task_id :: "task_id option"
  sr_repository_instance_id :: "repository_id option"
  sr_worktree_instance_id :: "worktree_id option"
  sr_source_byte_range :: "evidence_byte_range option"
  sr_spool_byte_range :: evidence_byte_range
  sr_source_revision_mode :: source_revision_mode
  sr_previous_source_revision :: "string option"
  sr_close_watermark :: "u64 option"
  sr_observation_role :: observation_role
  sr_unsupported_record_classification :: "unsupported_record_classification option"
  sr_capture_completeness :: capture_completeness
  sr_archive_mode :: source_archive_mode
  sr_cas_ref :: string
  sr_protected_length :: u64
  sr_protected_presentation :: "protected_presentation option"
  sr_original_length :: u64
  sr_protected_secret_digest :: "string option"
  sr_redaction_spans :: "evidence_redaction_span list"
  sr_adapter_revision :: u32
  sr_adapter_manifest_ref :: string
  sr_eligible_event_manifest_ref :: string
  sr_parser_revision :: u32
  sr_canonicalization_revision :: u32
  sr_detector_revision :: u32
  sr_redaction_revision :: u32
  sr_protection_key_generation :: u64
  sr_event_time_us :: i64
  sr_recorded_at_us :: i64
  sr_lifecycle :: "lane_lifecycle_evidence option"

definition protected_presentation_valid :: "source_receipt \<Rightarrow> bool" where
  "protected_presentation_valid r = (case sr_protected_presentation r of
      None \<Rightarrow> True
    | Some (PresentationInline text) \<Rightarrow>
        length text \<le> 1048576 \<and> length text = unat (sr_protected_length r)
    | Some (PresentationPreview text) \<Rightarrow>
        length text \<le> 65536 \<and> length text < unat (sr_protected_length r)
    | Some (PresentationUnavailable _) \<Rightarrow> True)"

definition source_receipt_lifecycle_validate :: "source_receipt \<Rightarrow> (evidence_error, unit) result" where
  "source_receipt_lifecycle_validate r = (case sr_lifecycle r of
      None \<Rightarrow> Ok ()
    | Some lifecycle \<Rightarrow>
        and_then (map_err (\<lambda>_. EvInvalid) (lane_lifecycle_evidence_validate lifecycle)) (\<lambda>_.
        if le_adapter_manifest_ref lifecycle \<noteq> sr_adapter_manifest_ref r
           \<or> le_eligible_event_manifest_ref lifecycle \<noteq> sr_eligible_event_manifest_ref r
           \<or> le_host_session_id lifecycle \<noteq> sr_source_session_ref r
        then Err EvInvalid else Ok ()))"

definition source_receipt_validate :: "(bytes \<Rightarrow> bytes) \<Rightarrow> source_receipt \<Rightarrow> (evidence_error, unit) result" where
  "source_receipt_validate sha256_digest r =
    (if \<not> protected_presentation_valid r then Err EvInvalid
     else
     and_then (for_each validate_identifier
       [sr_source_session_ref r, sr_identity_domain r, sr_source_ref r, sr_adapter_manifest_ref r,
        sr_eligible_event_manifest_ref r]) (\<lambda>_.
     and_then (validate_digest (sr_cas_ref r)) (\<lambda>_.
     and_then (source_receipt_id_of sha256_digest (sr_source_instance_id r) (sr_source_revision r)
       (sr_source_record_identity r)) (\<lambda>receipt_id.
     if sr_source_receipt_id r \<noteq> receipt_id then Err EvInvalid
     else
     and_then (source_observation_id_of sha256_digest (sr_source_instance_id r) (sr_source_revision r)
       (sr_source_record_identity r)) (\<lambda>observation_id.
     if sr_source_observation_id r \<noteq> observation_id
        \<or> sr_protected_length r = 0
        \<or> sr_original_length r = 0
        \<or> sr_adapter_revision r = 0
        \<or> sr_parser_revision r = 0
        \<or> sr_canonicalization_revision r = 0
        \<or> sr_detector_revision r = 0
        \<or> sr_redaction_revision r = 0
        \<or> sr_protection_key_generation r = 0
        \<or> sint (sr_event_time_us r) < 0
        \<or> sint (sr_recorded_at_us r) < 0
        \<or> sint (sr_event_time_us r) > sint (sr_recorded_at_us r)
        \<or> is_some_and (\<lambda>origin. origin > sr_source_sequence r) (sr_source_sequence_origin r)
        \<or> is_some_and (\<lambda>close. close < sr_source_sequence r) (sr_close_watermark r)
     then Err EvInvalid
     else
     and_then (evidence_byte_range_validate (sr_spool_byte_range r)) (\<lambda>_.
     and_then (case sr_source_byte_range r of
         None \<Rightarrow> Ok () | Some byte_range \<Rightarrow> evidence_byte_range_validate byte_range) (\<lambda>_.
     if sr_source_revision_mode r = ModeReplacement \<and> sr_previous_source_revision r = None
       then Err EvInvalidRevision
     else if sr_source_revision_mode r = ModeAppend \<and> sr_previous_source_revision r \<noteq> None
       then Err EvInvalidRevision
     else if (sr_identity_strength r = SynthesizedBestEffort
             \<and> sr_capture_completeness r = CompletenessComplete)
         \<or> (sr_unsupported_record_classification r \<noteq> None
             \<and> sr_capture_completeness r = CompletenessComplete)
       then Err EvInvalidCompleteness
     else
     and_then (validate_redaction (sr_archive_mode r) (sr_original_length r)
       (sr_protected_secret_digest r) (sr_redaction_spans r)) (\<lambda>_.
     source_receipt_lifecycle_validate r))))))))"

datatype source_local_profile = NativeHookV1

record source_local_namespace =
  sn_profile :: source_local_profile
  sn_root_session :: string
  sn_thread :: string
  sn_rollout :: string

definition source_local_namespace_validate ::
  "uuid_lib \<Rightarrow> source_local_namespace \<Rightarrow> (evidence_error, unit) result" where
  "source_local_namespace_validate lib n =
    for_each (\<lambda>value. and_then (ok_or EvInvalid (parse_str lib value)) (\<lambda>parsed.
        if hyphenated lib parsed \<noteq> value then Err EvInvalid else Ok ()))
      [sn_root_session n, sn_thread n, sn_rollout n]"

definition validate_source_locator :: "string \<Rightarrow> (evidence_error, unit) result" where
  "validate_source_locator value =
    (if length value > 4096 \<or> take 1 value \<noteq> ''/'' \<or> (\<exists>c \<in> set value. is_ascii_control c)
     then Err EvInvalid else Ok ())"

record source_local_namespace_witness =
  nw_namespace :: source_local_namespace
  nw_transcript_path :: string
  nw_filesystem_device :: u64
  nw_filesystem_inode :: u64
  nw_observed_file_length :: u64
  nw_metadata_length :: u32

definition source_local_namespace_witness_validate ::
  "uuid_lib \<Rightarrow> source_local_namespace_witness \<Rightarrow> (evidence_error, unit) result" where
  "source_local_namespace_witness_validate lib w =
    and_then (source_local_namespace_validate lib (nw_namespace w)) (\<lambda>_.
    and_then (validate_source_locator (nw_transcript_path w)) (\<lambda>_.
    if nw_filesystem_inode w = 0
       \<or> nw_metadata_length w = 0
       \<or> nw_metadata_length w > 64 * 1024
       \<or> (ucast (nw_metadata_length w) :: u64) \<ge> nw_observed_file_length w
    then Err EvInvalid else Ok ()))"

record source_local_native_call =
  nc_session_id :: string
  nc_agent_id :: "string option"
  nc_transcript_path :: "string option"
  nc_request_id :: string
  nc_turn_id :: string
  nc_tool_name :: string
  nc_namespace_witness :: "source_local_namespace_witness option"

definition source_local_native_call_accepts_witness ::
  "uuid_lib \<Rightarrow> source_local_native_call \<Rightarrow> source_local_namespace_witness \<Rightarrow> bool" where
  "source_local_native_call_accepts_witness lib call witness \<longleftrightarrow>
    is_ok (source_local_namespace_witness_validate lib witness)
    \<and> sn_root_session (nw_namespace witness) = nc_session_id call
    \<and> (case nc_agent_id call of None \<Rightarrow> True | Some i \<Rightarrow> i = sn_thread (nw_namespace witness))
    \<and> nc_transcript_path call = Some (nw_transcript_path witness)"

datatype source_local_evidence =
    NativeCall source_local_native_call
  | NamespaceWitness source_local_namespace_witness source_local_native_call
      "source_observation_id list"

definition native_call_validate ::
  "uuid_lib \<Rightarrow> source_local_native_call \<Rightarrow> observation_role \<Rightarrow> (evidence_error, unit) result" where
  "native_call_validate lib call role =
    (if role \<notin> {RoleIntent, RoleResult} then Err EvInvalid
     else
     and_then (for_each validate_identifier
       [nc_session_id call, nc_request_id call, nc_turn_id call, nc_tool_name call]) (\<lambda>_.
     and_then (case nc_agent_id call of None \<Rightarrow> Ok () | Some agent \<Rightarrow> validate_identifier agent) (\<lambda>_.
     and_then (case nc_transcript_path call of
         None \<Rightarrow> Ok () | Some path \<Rightarrow> validate_source_locator path) (\<lambda>_.
     if is_some_and (\<lambda>w. \<not> source_local_native_call_accepts_witness lib call w) (nc_namespace_witness call)
     then Err EvInvalid else Ok ()))))"

definition source_local_evidence_validate ::
  "uuid_lib \<Rightarrow> source_local_evidence \<Rightarrow> observation_role \<Rightarrow> (evidence_error, unit) result" where
  "source_local_evidence_validate lib e role = (case e of
      NativeCall call \<Rightarrow> native_call_validate lib call role
    | NamespaceWitness witness supported_call supported_observation_refs \<Rightarrow>
        if role \<noteq> RoleStateProbe
           \<or> supported_observation_refs = []
           \<or> length supported_observation_refs > 256
        then Err EvInvalid
        else
        and_then (source_local_namespace_witness_validate lib witness) (\<lambda>_.
        and_then (native_call_validate lib supported_call RoleIntent) (\<lambda>_.
        if \<not> source_local_native_call_accepts_witness lib supported_call witness then Err EvInvalid
        else evidence_require_unique supported_observation_refs)))"

record source_observation =
  so_source_observation_id :: source_observation_id
  so_source_instance_id :: string
  so_source_revision :: string
  so_source_record_identity :: string
  so_observation_role :: observation_role
  so_identity_strength :: identity_strength
  so_payload_fingerprint :: string
  so_source_receipt_ref :: source_receipt_id
  so_source_role :: source_role
  so_content_trust :: content_trust
  so_capture_completeness :: capture_completeness
  so_adapter_revision :: u32
  so_parser_revision :: u32
  so_canonicalization_revision :: u32
  so_detector_revision :: u32
  so_redaction_revision :: u32
  so_correlation :: host_correlation_evidence
  so_scope_effect_claims :: "scope_effect_claim list"
  so_source_local_evidence :: "source_local_evidence option"

definition source_observation_local_validate ::
  "uuid_lib \<Rightarrow> source_observation \<Rightarrow> (evidence_error, unit) result" where
  "source_observation_local_validate lib ob = (case so_source_local_evidence ob of
      None \<Rightarrow> Ok ()
    | Some evidence \<Rightarrow>
        and_then (source_local_evidence_validate lib evidence (so_observation_role ob)) (\<lambda>_.
        case evidence of
          NativeCall call \<Rightarrow>
            if hc_native_request_id (so_correlation ob) \<noteq> Some (nc_request_id call)
               \<or> host_correlation_evidence_exact_key (so_correlation ob) \<noteq> None
            then Err EvInvalidCorrelation else Ok ()
        | _ \<Rightarrow> Ok ()))"

definition source_observation_validate ::
  "uuid_lib \<Rightarrow> (bytes \<Rightarrow> bytes) \<Rightarrow> source_observation \<Rightarrow> (evidence_error, unit) result" where
  "source_observation_validate lib sha256_digest ob =
    and_then (source_observation_local_validate lib ob) (\<lambda>_.
    and_then (validate_digest (so_payload_fingerprint ob)) (\<lambda>_.
    and_then (source_observation_id_of sha256_digest (so_source_instance_id ob) (so_source_revision ob)
      (so_source_record_identity ob)) (\<lambda>observation_id.
    if so_source_observation_id ob \<noteq> observation_id then Err EvInvalid
    else
    and_then (source_receipt_id_of sha256_digest (so_source_instance_id ob) (so_source_revision ob)
      (so_source_record_identity ob)) (\<lambda>receipt_id.
    if so_source_receipt_ref ob \<noteq> receipt_id
       \<or> so_adapter_revision ob = 0
       \<or> so_parser_revision ob = 0
       \<or> so_canonicalization_revision ob = 0
       \<or> so_detector_revision ob = 0
       \<or> so_redaction_revision ob = 0
       \<or> (so_identity_strength ob = SynthesizedBestEffort
           \<and> so_capture_completeness ob = CompletenessComplete)
    then Err EvInvalid
    else
    and_then (host_correlation_evidence_validate (so_correlation ob)) (\<lambda>_.
    if hc_pairing_role (so_correlation ob) \<noteq> so_observation_role ob
       \<or> hc_adapter_revision (so_correlation ob) \<noteq> so_adapter_revision ob
    then Err EvInvalidCorrelation
    else for_each scope_effect_claim_validate (so_scope_effect_claims ob))))))"

datatype source_local_pairing_state = SourcePaired | SourcePairingConflicted

record source_local_pairing =
  sp_namespace :: source_local_namespace
  sp_request_id :: string
  sp_intent_observation_refs :: "source_observation_id list"
  sp_result_observation_refs :: "source_observation_id list"
  sp_namespace_witness_refs :: "source_observation_id list"
  sp_state :: source_local_pairing_state

definition source_local_pairing_validate ::
  "uuid_lib \<Rightarrow> source_local_pairing \<Rightarrow> (evidence_error, unit) result" where
  "source_local_pairing_validate lib p =
    and_then (source_local_namespace_validate lib (sp_namespace p)) (\<lambda>_.
    and_then (validate_identifier (sp_request_id p)) (\<lambda>_.
    and_then (for_each (\<lambda>refs. and_then (evidence_require_unique refs) (\<lambda>_.
        if length refs > 256 then Err EvInvalidOperation else Ok ()))
      [sp_intent_observation_refs p, sp_result_observation_refs p, sp_namespace_witness_refs p]) (\<lambda>_.
    if sp_result_observation_refs p = []
       \<or> sp_namespace_witness_refs p = []
       \<or> (\<exists>i \<in> set (sp_intent_observation_refs p). i \<in> set (sp_result_observation_refs p))
       \<or> (sp_state p = SourcePaired
           \<and> (length (sp_intent_observation_refs p) \<noteq> 1 \<or> length (sp_result_observation_refs p) \<noteq> 1))
    then Err EvInvalidOperation else Ok ())))"

section \<open>Occurrences and operations\<close>

datatype correlation_strength = StrengthExact | StrengthAmbiguous | StrengthConflicted
  | StrengthUnavailable

datatype normalization_state = SingleSource | Corroborated | Complemented | NormalizationConflicted

datatype pairing_state = PairingNotApplicable | UnmatchedIntent | UnmatchedResult | Paired
  | PairingConflicted

definition correlation_strength_name :: "correlation_strength \<Rightarrow> string" where
  "correlation_strength_name s = (case s of
      StrengthExact \<Rightarrow> ''exact'' | StrengthAmbiguous \<Rightarrow> ''ambiguous''
    | StrengthConflicted \<Rightarrow> ''conflicted'' | StrengthUnavailable \<Rightarrow> ''unavailable'')"

definition host_occurrence_id_for_exact ::
  "(bytes \<Rightarrow> bytes) \<Rightarrow> host_occurrence_exact_key \<Rightarrow> (evidence_error, host_occurrence_id) result" where
  "host_occurrence_id_for_exact sha256_digest k =
    and_then (host_occurrence_exact_key_validate k) (\<lambda>_.
    map_err (\<lambda>_. EvCanonical) (canonical_sha256 sha256_digest ''host_occurrence_exact_key''
      (ek_occurrence_schema_version k)
      (CSequence [CString (ek_host_instance_id k), CString (ek_host_trace_lineage_id k),
        CString (ek_host_lane_key k), CString (event_family_name (ek_canonical_event_family k)),
        CString (ek_native_request_id k), CInteger (ucast (ek_physical_execution_ordinal k))])))"

definition host_occurrence_id_for_nonexact ::
  "(bytes \<Rightarrow> bytes) \<Rightarrow> source_observation_id \<Rightarrow> correlation_strength
    \<Rightarrow> (evidence_error, host_occurrence_id) result" where
  "host_occurrence_id_for_nonexact sha256_digest observation_id strength =
    (if strength = StrengthExact then Err EvInvalidOccurrence
     else map_err (\<lambda>_. EvCanonical) (canonical_sha256 sha256_digest ''host_occurrence_nonexact'' 1
       (CSequence [CString (digest_id_to_string ''obs'' observation_id),
         CString (correlation_strength_name strength)])))"

record field_provenance_entry =
  fp_field :: correlation_field
  fp_source_observation_ref :: source_observation_id
  fp_source_ref :: string
  fp_evidence_ref :: string

record host_occurrence =
  ho_host_occurrence_id :: host_occurrence_id
  ho_exact_key :: "host_occurrence_exact_key option"
  ho_host_instance_id :: "string option"
  ho_host_trace_lineage_id :: "string option"
  ho_host_lane_key :: "string option"
  ho_canonical_event_family :: "canonical_event_family option"
  ho_native_request_id :: "string option"
  ho_physical_execution_ordinal :: "u32 option"
  ho_correlation_strength :: correlation_strength
  ho_source_observation_refs :: "source_observation_id list"
  ho_field_provenance :: "field_provenance_entry list"
  ho_normalization_state :: normalization_state
  ho_pairing_state :: pairing_state
  ho_possible_duplicate_group_id :: "uuid option"
  ho_correlation_resolver_version :: u32
  ho_normalization_revision :: u32
  ho_previous_normalization_revision :: "u32 option"

fun provenance_loop ::
  "source_observation_id list \<Rightarrow> (correlation_field \<times> source_observation_id) set
    \<Rightarrow> field_provenance_entry list \<Rightarrow> (evidence_error, unit) result" where
  "provenance_loop refs seen [] = Ok ()"
| "provenance_loop refs seen (entry # rest) =
    (if fp_source_observation_ref entry \<notin> set refs
        \<or> (fp_field entry, fp_source_observation_ref entry) \<in> seen
     then Err EvInvalidOccurrence
     else
     and_then (validate_identifier (fp_source_ref entry)) (\<lambda>_.
     and_then (validate_identifier (fp_evidence_ref entry)) (\<lambda>_.
     provenance_loop refs (insert (fp_field entry, fp_source_observation_ref entry) seen) rest)))"

definition host_occurrence_expected_fields :: "host_occurrence \<Rightarrow> correlation_field set" where
  "host_occurrence_expected_fields h = set (map fst (filter snd
    [(FieldHostInstanceId, ho_host_instance_id h \<noteq> None),
     (FieldHostTraceLineageId, ho_host_trace_lineage_id h \<noteq> None),
     (FieldHostLaneKey, ho_host_lane_key h \<noteq> None),
     (FieldCanonicalEventFamily, ho_canonical_event_family h \<noteq> None),
     (FieldNativeRequestId, ho_native_request_id h \<noteq> None),
     (FieldPhysicalExecutionOrdinal, ho_physical_execution_ordinal h \<noteq> None)]))"

definition host_occurrence_key_validate ::
  "(bytes \<Rightarrow> bytes) \<Rightarrow> host_occurrence \<Rightarrow> (evidence_error, unit) result" where
  "host_occurrence_key_validate sha256_digest h = (case ho_correlation_strength h of
      StrengthExact \<Rightarrow>
        and_then (ok_or EvInvalidOccurrence (ho_exact_key h)) (\<lambda>key.
        and_then (host_occurrence_exact_key_validate key) (\<lambda>_.
        and_then (host_occurrence_id_for_exact sha256_digest key) (\<lambda>expected.
        if ho_host_occurrence_id h \<noteq> expected
           \<or> ho_host_instance_id h \<noteq> Some (ek_host_instance_id key)
           \<or> ho_host_trace_lineage_id h \<noteq> Some (ek_host_trace_lineage_id key)
           \<or> ho_host_lane_key h \<noteq> Some (ek_host_lane_key key)
           \<or> ho_canonical_event_family h \<noteq> Some (ek_canonical_event_family key)
           \<or> ho_native_request_id h \<noteq> Some (ek_native_request_id key)
           \<or> ho_physical_execution_ordinal h \<noteq> Some (ek_physical_execution_ordinal key)
           \<or> ho_possible_duplicate_group_id h \<noteq> None
        then Err EvInvalidOccurrence else Ok ())))
    | _ \<Rightarrow>
        if ho_exact_key h \<noteq> None \<or> length (ho_source_observation_refs h) \<noteq> 1
        then Err EvInvalidOccurrence
        else
        and_then (host_occurrence_id_for_nonexact sha256_digest (hd (ho_source_observation_refs h))
          (ho_correlation_strength h)) (\<lambda>expected.
        if ho_host_occurrence_id h \<noteq> expected then Err EvInvalidOccurrence else Ok ()))"

text \<open>
  \<open>previous + 1\<close> is an unchecked \<open>u32\<close> addition; it is modelled as it computes in a
  release build, where the largest predecessor wraps to 0 and is refused.
\<close>

definition host_occurrence_validate ::
  "(bytes \<Rightarrow> bytes) \<Rightarrow> host_occurrence \<Rightarrow> (evidence_error, unit) result" where
  "host_occurrence_validate sha256_digest h =
    (if ho_source_observation_refs h = []
        \<or> ho_correlation_resolver_version h = 0
        \<or> ho_normalization_revision h = 0
        \<or> is_some_and (\<lambda>previous. previous = 0 \<or> previous + 1 \<noteq> ho_normalization_revision h)
            (ho_previous_normalization_revision h)
        \<or> (ho_normalization_revision h = 1 \<and> ho_previous_normalization_revision h \<noteq> None)
     then Err EvInvalidOccurrence
     else
     and_then (evidence_require_unique (ho_source_observation_refs h)) (\<lambda>_.
     and_then (host_occurrence_key_validate sha256_digest h) (\<lambda>_.
     and_then (provenance_loop (ho_source_observation_refs h) {} (ho_field_provenance h)) (\<lambda>_.
     and_then (for_each (\<lambda>source.
         if set (map fp_field (filter (\<lambda>entry. fp_source_observation_ref entry = source)
             (ho_field_provenance h))) \<noteq> host_occurrence_expected_fields h
         then Err EvInvalidOccurrence else Ok ()) (ho_source_observation_refs h)) (\<lambda>_.
     if (length (ho_source_observation_refs h) = 1
           \<and> ho_normalization_state h \<notin> {SingleSource, NormalizationConflicted})
        \<or> (length (ho_source_observation_refs h) > 1 \<and> ho_normalization_state h = SingleSource)
        \<or> (ho_correlation_strength h = StrengthConflicted
           \<and> ho_normalization_state h \<noteq> NormalizationConflicted)
     then Err EvInvalidOccurrence else Ok ())))))"

record operation =
  opn_operation_id :: operation_id
  opn_host_occurrence_id :: host_occurrence_id
  opn_execution_lane_id :: "execution_lane_id option"
  opn_operation_kind :: operation_kind
  opn_input_source_observation_refs :: "source_observation_id list"
  opn_result_source_observation_refs :: "source_observation_id list"
  opn_pairing_state :: pairing_state
  opn_scope_effect_ids :: "scope_effect_id list"
  opn_artifact_refs :: "work_artifact_id list"
  opn_operation_resolver_version :: u32
  opn_operation_revision :: u32
  opn_previous_operation_revision :: "u32 option"
  opn_source_local_pairing :: "source_local_pairing option"

definition operation_pairing_bad :: "operation \<Rightarrow> bool" where
  "operation_pairing_bad ob =
    (let input = opn_input_source_observation_refs ob; result = opn_result_source_observation_refs ob in
     case opn_pairing_state ob of
       Paired \<Rightarrow> input = [] \<or> result = []
     | UnmatchedIntent \<Rightarrow> input = [] \<or> result \<noteq> []
     | UnmatchedResult \<Rightarrow> input \<noteq> [] \<or> result = []
     | PairingConflicted \<Rightarrow> length input \<le> 1 \<and> length result \<le> 1
     | PairingNotApplicable \<Rightarrow> False)"

definition operation_validate :: "uuid_lib \<Rightarrow> operation \<Rightarrow> (evidence_error, unit) result" where
  "operation_validate lib ob =
    and_then (case opn_source_local_pairing ob of
        None \<Rightarrow> Ok () | Some pairing \<Rightarrow> source_local_pairing_validate lib pairing) (\<lambda>_.
    if opn_operation_resolver_version ob = 0
       \<or> opn_operation_revision ob = 0
       \<or> is_some_and (\<lambda>previous. previous = 0 \<or> checked_add previous 1 \<noteq> Some (opn_operation_revision ob))
           (opn_previous_operation_revision ob)
       \<or> (opn_operation_revision ob = 1 \<and> opn_previous_operation_revision ob \<noteq> None)
    then Err EvInvalidOperation
    else
    and_then (evidence_require_unique (opn_input_source_observation_refs ob)) (\<lambda>_.
    and_then (evidence_require_unique (opn_result_source_observation_refs ob)) (\<lambda>_.
    and_then (evidence_require_unique (opn_scope_effect_ids ob)) (\<lambda>_.
    and_then (evidence_require_unique (opn_artifact_refs ob)) (\<lambda>_.
    if (\<exists>v \<in> set (opn_input_source_observation_refs ob). v \<in> set (opn_result_source_observation_refs ob))
       \<or> operation_pairing_bad ob
    then Err EvInvalidOperation
    else if opn_input_source_observation_refs ob = [] \<and> opn_result_source_observation_refs ob = []
    then Err EvInvalidOperation
    else Ok ())))))"

record scope_effect =
  sef_scope_effect_id :: scope_effect_id
  sef_operation_id :: operation_id
  sef_effect_role :: effect_role
  sef_repository_instance_id :: "repository_id option"
  sef_worktree_instance_id :: "worktree_id option"
  sef_pre_snapshot_id :: "worktree_snapshot_id option"
  sef_post_snapshot_id :: "worktree_snapshot_id option"
  sef_experiment_run_ids :: "experiment_run_id list"
  sef_artifact_refs :: "work_artifact_id list"
  sef_evidence_refs :: "source_observation_id list"

definition scope_effect_validate :: "scope_effect \<Rightarrow> (evidence_error, unit) result" where
  "scope_effect_validate e = scope_effect_claim_validate
    \<lparr>sec_effect_role = sef_effect_role e,
     sec_repository_instance_id = sef_repository_instance_id e,
     sec_worktree_instance_id = sef_worktree_instance_id e,
     sec_pre_snapshot_id = sef_pre_snapshot_id e,
     sec_post_snapshot_id = sef_post_snapshot_id e,
     sec_experiment_run_ids = sef_experiment_run_ids e,
     sec_artifact_refs = sef_artifact_refs e,
     sec_evidence_refs = sef_evidence_refs e\<rparr>"

section \<open>Gaps, outages and surfaces\<close>

datatype reconciliation_provenance = EmergencyMarker | QuarantineRecovery | AdmissionLedger
  | SequenceReconciliation | IndependentSource

record capture_gap_marker_evidence =
  gm_marker_id :: string
  gm_reconciliation_revision :: u32
  gm_predecessor_revision :: "u32 option"
  gm_source_ref :: string
  gm_session_ref :: string
  gm_turn_ref :: "string option"
  gm_tool_ref :: "string option"
  gm_failure_reason :: string
  gm_redacted_fingerprint :: string
  gm_attempted_bytes :: u64
  gm_last_durable_watermark :: u64
  gm_provenance :: reconciliation_provenance
  gm_import_ref :: string
  gm_reconciled :: bool
  gm_reconciliation_refs :: "string list"

definition is_ascii_hexdigit :: "char \<Rightarrow> bool" where
  "is_ascii_hexdigit c \<longleftrightarrow> is_lower_hex c \<or> (65 \<le> (of_char c :: nat) \<and> (of_char c :: nat) \<le> 70)"

text \<open>\<open>revision.checked_sub(1).filter(|_| revision > 1)\<close>\<close>

definition expected_predecessor :: "u32 \<Rightarrow> u32 option" where
  "expected_predecessor revision = (if revision > 1 then Some (revision - 1) else None)"

definition capture_gap_marker_evidence_validate ::
  "capture_gap_marker_evidence \<Rightarrow> (evidence_error, unit) result" where
  "capture_gap_marker_evidence_validate g =
    (if gm_reconciliation_revision g = 0
        \<or> gm_predecessor_revision g \<noteq> expected_predecessor (gm_reconciliation_revision g)
        \<or> (gm_attempted_bytes g = 0 \<and> gm_provenance g \<noteq> QuarantineRecovery)
        \<or> length (gm_redacted_fingerprint g) \<noteq> 64
        \<or> \<not> list_all is_ascii_hexdigit (gm_redacted_fingerprint g)
        \<or> gm_reconciled g \<noteq> (gm_reconciliation_refs g \<noteq> [])
     then Err EvInvalid
     else
     and_then (for_each validate_identifier
       [gm_marker_id g, gm_source_ref g, gm_session_ref g, gm_failure_reason g, gm_import_ref g]) (\<lambda>_.
     and_then (for_each validate_identifier (case_option [] (\<lambda>v. [v]) (gm_turn_ref g)
       @ case_option [] (\<lambda>v. [v]) (gm_tool_ref g) @ gm_reconciliation_refs g)) (\<lambda>_.
     evidence_require_unique (gm_reconciliation_refs g))))"

datatype capture_outage_positive_source = HostFailureLedger | DaemonAdmission | MonotonicSequenceGap
  | IndependentSourceMismatch | VerifiedGapMarker

record capture_outage_interval =
  oi_capture_outage_interval_id :: capture_outage_interval_id
  oi_reconciliation_revision :: u32
  oi_predecessor_revision :: "u32 option"
  oi_source_ref :: string
  oi_session_ref :: string
  oi_first_missing_sequence :: u64
  oi_last_missing_sequence :: u64
  oi_positive_source :: capture_outage_positive_source
  oi_positive_evidence_refs :: "string list"
  oi_reconciled :: bool
  oi_reconciliation_refs :: "string list"

definition capture_outage_interval_validate ::
  "capture_outage_interval \<Rightarrow> (evidence_error, unit) result" where
  "capture_outage_interval_validate i =
    (if oi_reconciliation_revision i = 0
        \<or> oi_predecessor_revision i \<noteq> expected_predecessor (oi_reconciliation_revision i)
        \<or> oi_first_missing_sequence i > oi_last_missing_sequence i
        \<or> oi_positive_evidence_refs i = []
        \<or> oi_reconciled i \<noteq> (oi_reconciliation_refs i \<noteq> [])
     then Err EvInvalid
     else
     and_then (validate_identifier (oi_source_ref i)) (\<lambda>_.
     and_then (validate_identifier (oi_session_ref i)) (\<lambda>_.
     and_then (for_each validate_identifier
       (oi_positive_evidence_refs i @ oi_reconciliation_refs i)) (\<lambda>_.
     and_then (evidence_require_unique (oi_positive_evidence_refs i)) (\<lambda>_.
     evidence_require_unique (oi_reconciliation_refs i))))))"

definition payload_fingerprint ::
  "(bytes \<Rightarrow> bytes) \<Rightarrow> u32 \<Rightarrow> bytes \<Rightarrow> bytes option \<Rightarrow> (evidence_error, bytes) result" where
  "payload_fingerprint sha256_digest canonicalization_version protected_payload protected_secret_digest =
    (if canonicalization_version = 0 \<or> protected_payload = [] then Err EvInvalid
     else map_err (\<lambda>_. EvCanonical) (canonical_sha256 sha256_digest ''source_payload_fingerprint'' 1
       (CMap [(''canonicalization_version'', CInteger (ucast canonicalization_version)),
         (''protected_payload'', CBytes protected_payload),
         (''protected_secret_digest'', case protected_secret_digest of None \<Rightarrow> CNull | Some v \<Rightarrow> CBytes v)])))"

definition evidence_span_hash ::
  "(bytes \<Rightarrow> bytes) \<Rightarrow> source_observation_id \<Rightarrow> u32 \<Rightarrow> string \<Rightarrow> (evidence_error, bytes) result" where
  "evidence_span_hash sha256_digest observation_id canonicalization_version protected_text =
    (if canonicalization_version = 0 \<or> protected_text = []
        \<or> length protected_text > MAX_EVIDENCE_SURFACE_BYTES
     then Err EvInvalid
     else map_err (\<lambda>_. EvCanonical) (canonical_sha256 sha256_digest ''evidence_surface_span'' 1
       (CMap [(''source_observation_revision_ref'',
           CString (digest_id_to_string ''obs'' observation_id)),
         (''canonicalization_version'', CInteger (ucast canonicalization_version)),
         (''protected_text'', CString protected_text)])))"

record evidence_surface =
  es_source_observation_revision_ref :: source_observation_id
  es_source_role :: source_role
  es_content_trust :: content_trust
  es_instruction_authority :: instruction_authority
  es_task_id :: "task_id option"
  es_repository_instance_id :: "repository_id option"
  es_worktree_instance_id :: "worktree_id option"
  es_event_time_us :: i64
  es_recorded_at_us :: i64
  es_source_sequence :: u64
  es_capture_completeness :: capture_completeness
  es_canonicalization_version :: u32
  es_span_hash :: string
  es_projection_generation :: u64
  es_protected_text :: string

definition evidence_surface_validate ::
  "(bytes \<Rightarrow> bytes) \<Rightarrow> evidence_surface \<Rightarrow> (evidence_error, unit) result" where
  "evidence_surface_validate sha256_digest s =
    (if es_instruction_authority s \<noteq> AuthorityNone
        \<or> sint (es_event_time_us s) < 0
        \<or> sint (es_recorded_at_us s) < 0
        \<or> sint (es_event_time_us s) > sint (es_recorded_at_us s)
        \<or> es_canonicalization_version s = 0
        \<or> es_projection_generation s = 0
        \<or> es_protected_text s = []
        \<or> length (es_protected_text s) > MAX_EVIDENCE_SURFACE_BYTES
     then Err EvInvalid
     else
     and_then (validate_digest (es_span_hash s)) (\<lambda>_.
     and_then (evidence_span_hash sha256_digest (es_source_observation_revision_ref s)
       (es_canonicalization_version s) (es_protected_text s)) (\<lambda>expected.
     if es_span_hash s \<noteq> hex expected then Err EvInvalidDigest else Ok ())))"

section \<open>Identities\<close>

lemma validate_identifier_length: "validate_identifier s = Ok () \<Longrightarrow> s \<noteq> [] \<and> length s \<le> 256"
  by (auto simp: validate_identifier_def MAX_IDENTITY_BYTES_def split: if_splits)

lemma source_identity_digest_eq:
  assumes "validate_identifier i = Ok ()" "validate_identifier r = Ok ()" "validate_identifier d = Ok ()"
    and "t \<noteq> []" and "length t < 2 ^ 64"
  obtains x where "encode t 1 (CSequence [CString i, CString r, CString d]) = Ok x"
    and "\<And>H. source_identity_digest H t i r d = Ok (H x)"
proof -
  have "encodable (CSequence [CString i, CString r, CString d])"
    using validate_identifier_length assms(1-3) by fastforce
  then obtain x where x: "encode t 1 (CSequence [CString i, CString r, CString d]) = Ok x"
    using encode_ok [OF assms(4,5)] by blast
  then show thesis
    using assms(1-3) that by (simp add: source_identity_digest_def canonical_sha256_def)
qed

text \<open>
  Observation and receipt identities are digests of bytes that determine the
  source instance, the source revision, the record identity and which of the two kinds
  of identity it is: equal identities of different sources, or of an observation and
  a receipt, exhibit a collision of the hash function.
\<close>

theorem source_identity_binding:
  assumes "validate_identifier i = Ok ()" "validate_identifier r = Ok ()" "validate_identifier d = Ok ()"
    and "validate_identifier i' = Ok ()" "validate_identifier r' = Ok ()" "validate_identifier d' = Ok ()"
  shows "\<exists>x y z. source_observation_id_of sha256_digest i r d = Ok (sha256_digest x)
    \<and> source_observation_id_of sha256_digest i' r' d' = Ok (sha256_digest y)
    \<and> source_receipt_id_of sha256_digest i r d = Ok (sha256_digest z)
    \<and> (x = y \<longleftrightarrow> i = i' \<and> r = r' \<and> d = d') \<and> x \<noteq> z \<and> y \<noteq> z"
proof -
  obtain x where x: "encode ''source_observation_id'' 1 (CSequence [CString i, CString r, CString d]) = Ok x"
      "source_observation_id_of sha256_digest i r d = Ok (sha256_digest x)"
    using source_identity_digest_eq [OF assms(1-3), of "''source_observation_id''"]
    by (auto simp: source_observation_id_of_def)
  obtain y where y: "encode ''source_observation_id'' 1 (CSequence [CString i', CString r', CString d']) = Ok y"
      "source_observation_id_of sha256_digest i' r' d' = Ok (sha256_digest y)"
    using source_identity_digest_eq [OF assms(4-6), of "''source_observation_id''"]
    by (auto simp: source_observation_id_of_def)
  obtain z where z: "encode ''source_receipt_id'' 1 (CSequence [CString i, CString r, CString d]) = Ok z"
      "source_receipt_id_of sha256_digest i r d = Ok (sha256_digest z)"
    using source_identity_digest_eq [OF assms(1-3), of "''source_receipt_id''"]
    by (auto simp: source_receipt_id_of_def)
  have "i = i' \<and> r = r' \<and> d = d'" if "x = y"
    using encode_inject [OF x(1) y(1) [folded that]] by simp
  then have "x = y \<longleftrightarrow> i = i' \<and> r = r' \<and> d = d'" using x(1) y(1) by auto
  moreover have "x \<noteq> z" using encode_inject [OF x(1), of "''source_receipt_id''"] z(1) by auto
  moreover have "y \<noteq> z" using encode_inject [OF y(1), of "''source_receipt_id''"] z(1) by auto
  ultimately show ?thesis using x(2) y(2) z(2) by blast
qed

theorem source_identity_binding_witness:
  "\<exists>x z. source_observation_id_of (\<lambda>b. b) ''i'' ''r'' ''d'' = Ok x
    \<and> source_receipt_id_of (\<lambda>b. b) ''i'' ''r'' ''d'' = Ok z \<and> x \<noteq> z"
proof -
  have v: "validate_identifier ''i'' = Ok ()" "validate_identifier ''r'' = Ok ()"
      "validate_identifier ''d'' = Ok ()"
    by (simp_all add: validate_identifier_def MAX_IDENTITY_BYTES_def is_ascii_control_def)
  from source_identity_binding [OF v v, of "\<lambda>b. b"] show ?thesis by auto
qed

section \<open>Redaction\<close>

lemma redaction_spans_loop_spec:
  assumes "redaction_spans_loop n p spans = Ok ()"
  shows "(\<forall>s \<in> set spans. p \<le> rs_start s \<and> rs_start s < rs_end s \<and> rs_end s \<le> n)
    \<and> sorted_wrt (\<lambda>s t. rs_end s \<le> rs_start t) spans"
  using assms
proof (induction spans arbitrary: p)
  case (Cons s spans)
  then have s: "p \<le> rs_start s" "rs_start s < rs_end s" "rs_end s \<le> n"
      and l: "redaction_spans_loop n (rs_end s) spans = Ok ()"
    by (auto simp: result_simps evidence_redaction_span_validate_def split: if_splits)
  from Cons.IH [OF l] s show ?case by force
qed simp

text \<open>
  Accepted redaction metadata describes disjoint, ordered, non-empty ranges inside
  the original text; a redacted archive has at least one of them and a well-formed
  secret digest, and an exact archive has neither.
\<close>

theorem redaction_spans_disjoint:
  assumes "validate_redaction mode raw_length secret spans = Ok ()"
  shows "sorted_wrt (\<lambda>s t. rs_end s \<le> rs_start t) spans
    \<and> (\<forall>s \<in> set spans. rs_start s < rs_end s \<and> rs_end s \<le> raw_length)
    \<and> (mode = ArchiveRedacted \<longleftrightarrow> spans \<noteq> []) \<and> (mode = ArchiveRedacted \<longleftrightarrow> secret \<noteq> None)
    \<and> (\<forall>digest. secret = Some digest \<longrightarrow> (\<exists>d. parse_digest_payload digest = Ok d))"
proof -
  have l: "redaction_spans_loop raw_length 0 spans = Ok ()"
      and m: "mode = ArchiveRedacted \<longleftrightarrow> spans \<noteq> []" "mode = ArchiveRedacted \<longleftrightarrow> secret \<noteq> None"
      and s: "\<forall>digest. secret = Some digest \<longrightarrow> validate_digest digest = Ok ()"
    using assms
    by (cases mode; auto simp: validate_redaction_def result_simps split: if_splits option.splits)+
  have "\<exists>d. parse_digest_payload digest = Ok d" if "validate_digest digest = Ok ()" for digest
    using that parse_hex_chunks_lower [of digest]
    by (auto simp: validate_digest_def parse_digest_payload_def split: if_splits)
  then show ?thesis using redaction_spans_loop_spec [OF l] m s by auto
qed

theorem redaction_spans_disjoint_witness:
  "sorted_wrt (\<lambda>s t. rs_end s \<le> rs_start t)
    [\<lparr>rs_start = 2, rs_end = 5, rs_kind = ''key''\<rparr>, \<lparr>rs_start = 5, rs_end = 9, rs_kind = ''key''\<rparr>]"
  using redaction_spans_disjoint [of ArchiveRedacted 10 "Some (replicate 64 CHR ''a'')"
      "[\<lparr>rs_start = 2, rs_end = 5, rs_kind = ''key''\<rparr>, \<lparr>rs_start = 5, rs_end = 9, rs_kind = ''key''\<rparr>]"]
  by (simp add: validate_redaction_def validate_digest_def evidence_redaction_span_validate_def
      validate_identifier_def MAX_IDENTITY_BYTES_def is_ascii_control_def list_all_iff is_lower_hex_def)

section \<open>Exact occurrences\<close>

lemma provenance_loop_spec:
  assumes "provenance_loop refs seen es = Ok ()"
  shows "distinct (map (\<lambda>e. (fp_field e, fp_source_observation_ref e)) es)
    \<and> (\<forall>e \<in> set es. fp_source_observation_ref e \<in> set refs
        \<and> (fp_field e, fp_source_observation_ref e) \<notin> seen)"
  using assms
proof (induction es arbitrary: seen)
  case (Cons e es)
  then have e: "fp_source_observation_ref e \<in> set refs" "(fp_field e, fp_source_observation_ref e) \<notin> seen"
      and l: "provenance_loop refs (insert (fp_field e, fp_source_observation_ref e) seen) es = Ok ()"
    by (auto simp: result_simps split: if_splits)
  from Cons.IH [OF l] e show ?case by auto
qed simp

lemma distinct_key_filter:
  assumes "distinct (map f es)" and "k \<in> f ` set es"
  shows "length (filter (\<lambda>e. f e = k) es) = 1"
  using assms
proof (induction es)
  case (Cons e es)
  then show ?case by (cases "f e = k") (auto simp: filter_empty_conv image_iff)
qed simp

lemma host_occurrence_validD:
  assumes "host_occurrence_validate H h = Ok ()"
  shows "host_occurrence_key_validate H h = Ok ()"
    and "provenance_loop (ho_source_observation_refs h) {} (ho_field_provenance h) = Ok ()"
    and "\<forall>source \<in> set (ho_source_observation_refs h).
      set (map fp_field (filter (\<lambda>entry. fp_source_observation_ref entry = source)
        (ho_field_provenance h))) = host_occurrence_expected_fields h"
  using assms by (auto simp: host_occurrence_validate_def result_simps split: if_splits)

lemma exact_expected_fields:
  assumes "host_occurrence_key_validate H h = Ok ()" and "ho_correlation_strength h = StrengthExact"
  shows "host_occurrence_expected_fields h = UNIV"
proof -
  have "ho_host_instance_id h \<noteq> None" "ho_host_trace_lineage_id h \<noteq> None" "ho_host_lane_key h \<noteq> None"
      "ho_canonical_event_family h \<noteq> None" "ho_native_request_id h \<noteq> None"
      "ho_physical_execution_ordinal h \<noteq> None"
    using assms by (auto simp: host_occurrence_key_validate_def result_simps split: if_splits)
  then show ?thesis
    by (auto simp: host_occurrence_expected_fields_def intro: correlation_field.exhaust)
qed

text \<open>
  Every field of an exactly correlated occurrence is attributed: for each of the
  six correlation fields and each source observation the occurrence rests on there is
  exactly one provenance entry, and no entry refers to another observation.
\<close>

theorem exact_occurrence_attributed:
  assumes "host_occurrence_validate sha256_digest h = Ok ()"
    and "ho_correlation_strength h = StrengthExact"
  shows "(\<forall>field. \<forall>source \<in> set (ho_source_observation_refs h).
      length (filter (\<lambda>e. (fp_field e, fp_source_observation_ref e) = (field, source))
        (ho_field_provenance h)) = 1)
    \<and> fp_source_observation_ref ` set (ho_field_provenance h) \<subseteq> set (ho_source_observation_refs h)"
proof -
  note v = host_occurrence_validD [OF assms(1)]
  have "(field, source) \<in> (\<lambda>e. (fp_field e, fp_source_observation_ref e)) ` set (ho_field_provenance h)"
    if "source \<in> set (ho_source_observation_refs h)" for field source
  proof -
    have "field \<in> set (map fp_field (filter (\<lambda>entry. fp_source_observation_ref entry = source)
        (ho_field_provenance h)))"
      using v(3) that exact_expected_fields [OF v(1) assms(2)] by simp
    then show ?thesis by auto
  qed
  then have "length (filter (\<lambda>e. (fp_field e, fp_source_observation_ref e) = (field, source))
      (ho_field_provenance h)) = 1" if "source \<in> set (ho_source_observation_refs h)" for field source
    using that by (intro distinct_key_filter [OF conjunct1 [OF provenance_loop_spec [OF v(2)]]])
  moreover have "fp_source_observation_ref ` set (ho_field_provenance h) \<subseteq> set (ho_source_observation_refs h)"
    using provenance_loop_spec [OF v(2)] by auto
  ultimately show ?thesis by blast
qed

definition sample_key :: host_occurrence_exact_key where
  "sample_key = \<lparr>ek_occurrence_schema_version = 1, ek_host_instance_id = ''h'',
    ek_host_trace_lineage_id = ''t'', ek_host_lane_key = ''l'', ek_canonical_event_family = FamilyRead,
    ek_native_request_id = ''q'', ek_physical_execution_ordinal = 1\<rparr>"

definition sample_entry :: "correlation_field \<Rightarrow> field_provenance_entry" where
  "sample_entry field = \<lparr>fp_field = field, fp_source_observation_ref = [1],
    fp_source_ref = ''s'', fp_evidence_ref = ''e''\<rparr>"

definition sample_occurrence :: host_occurrence where
  "sample_occurrence = \<lparr>ho_host_occurrence_id = replicate 32 0, ho_exact_key = Some sample_key,
    ho_host_instance_id = Some ''h'', ho_host_trace_lineage_id = Some ''t'', ho_host_lane_key = Some ''l'',
    ho_canonical_event_family = Some FamilyRead, ho_native_request_id = Some ''q'',
    ho_physical_execution_ordinal = Some 1, ho_correlation_strength = StrengthExact,
    ho_source_observation_refs = [[1]],
    ho_field_provenance = map sample_entry [FieldHostInstanceId, FieldHostTraceLineageId,
      FieldHostLaneKey, FieldCanonicalEventFamily, FieldNativeRequestId, FieldPhysicalExecutionOrdinal],
    ho_normalization_state = SingleSource, ho_pairing_state = Paired,
    ho_possible_duplicate_group_id = None, ho_correlation_resolver_version = 1,
    ho_normalization_revision = 1, ho_previous_normalization_revision = None\<rparr>"

lemma sample_identifiers:
  "validate_identifier ''h'' = Ok ()" "validate_identifier ''t'' = Ok ()"
  "validate_identifier ''l'' = Ok ()" "validate_identifier ''q'' = Ok ()"
  "validate_identifier ''s'' = Ok ()" "validate_identifier ''e'' = Ok ()"
  by (simp_all add: validate_identifier_def MAX_IDENTITY_BYTES_def is_ascii_control_def)

lemma sample_occurrence_id:
  "host_occurrence_id_for_exact (\<lambda>_. replicate 32 0) sample_key = Ok (replicate 32 0)"
proof -
  have v: "host_occurrence_exact_key_validate sample_key = Ok ()"
    by (simp add: host_occurrence_exact_key_validate_def sample_key_def sample_identifiers)
  have "\<exists>b. encode ''host_occurrence_exact_key'' 1 (CSequence [CString ''h'', CString ''t'', CString ''l'',
      CString ''read'', CString ''q'', CInteger 1]) = Ok b"
    by (rule encode_ok) simp_all
  then show ?thesis
    using v by (auto simp: host_occurrence_id_for_exact_def canonical_sha256_def sample_key_def
        event_family_name_def)
qed

lemma sample_occurrence_valid: "host_occurrence_validate (\<lambda>_. replicate 32 0) sample_occurrence = Ok ()"
proof -
  have k: "host_occurrence_key_validate (\<lambda>_. replicate 32 0) sample_occurrence = Ok ()"
    by (simp add: host_occurrence_key_validate_def sample_occurrence_def sample_occurrence_id ok_or_def)
      (simp add: sample_key_def host_occurrence_exact_key_validate_def sample_identifiers)
  show ?thesis
    by (simp add: host_occurrence_validate_def k del: set_filter)
      (auto simp: sample_occurrence_def sample_entry_def sample_identifiers evidence_require_unique_def
        btree_set_def host_occurrence_expected_fields_def simp del: set_filter)
qed

theorem exact_occurrence_attributed_witness:
  "length (filter (\<lambda>e. (fp_field e, fp_source_observation_ref e) = (FieldHostLaneKey, [1]))
    (ho_field_provenance sample_occurrence)) = 1"
proof -
  have "ho_correlation_strength sample_occurrence = StrengthExact"
    and "[1] \<in> set (ho_source_observation_refs sample_occurrence)"
    by (simp_all add: sample_occurrence_def)
  then show ?thesis using exact_occurrence_attributed [OF sample_occurrence_valid] by blast
qed

end
