(* ===== verification/Episode.thy ===== *)
theory Episode
  imports Work_Objects Lane_Capture
begin

text \<open>
  Work episodes: \<open>evertrace-domain/src/work/episode.rs\<close>. An episode is a contiguous
  stretch of work in one phase of a workstream. It is revisioned; its watermarks, its
  boundary state (provisional, candidate, confirmed), its lifecycle and the evidence
  it refers to may only move forward. A semantic successor advances the semantic
  watermark and appends one digest while everything else is frozen.
  \<open>CaptureSummary::from_receipts\<close> condenses the receipts of an episode.
\<close>

instantiation source_coverage :: linorder
begin

fun rank_source_coverage :: "source_coverage \<Rightarrow> nat" where
  "rank_source_coverage SourceOpen = 0"
| "rank_source_coverage SourceComplete = 1"
| "rank_source_coverage SourcePartial = 2"
| "rank_source_coverage SourceUnavailable = 3"

definition less_eq_source_coverage :: "source_coverage \<Rightarrow> source_coverage \<Rightarrow> bool" where
  "less_eq_source_coverage a b \<longleftrightarrow> rank_source_coverage a \<le> rank_source_coverage b"

definition less_source_coverage :: "source_coverage \<Rightarrow> source_coverage \<Rightarrow> bool" where
  "less_source_coverage a b \<longleftrightarrow> rank_source_coverage a < rank_source_coverage b"

instance
proof
  fix x y :: source_coverage
  show "x \<le> y \<Longrightarrow> y \<le> x \<Longrightarrow> x = y"
    by (cases x; cases y) (simp_all add: less_eq_source_coverage_def)
qed (auto simp: less_eq_source_coverage_def less_source_coverage_def)

end

instantiation pairing_integrity :: linorder
begin

fun rank_pairing_integrity :: "pairing_integrity \<Rightarrow> nat" where
  "rank_pairing_integrity PairingComplete = 0"
| "rank_pairing_integrity PairingUnmatched = 1"
| "rank_pairing_integrity PairingUnavailable = 2"

definition less_eq_pairing_integrity :: "pairing_integrity \<Rightarrow> pairing_integrity \<Rightarrow> bool" where
  "less_eq_pairing_integrity a b \<longleftrightarrow> rank_pairing_integrity a \<le> rank_pairing_integrity b"

definition less_pairing_integrity :: "pairing_integrity \<Rightarrow> pairing_integrity \<Rightarrow> bool" where
  "less_pairing_integrity a b \<longleftrightarrow> rank_pairing_integrity a < rank_pairing_integrity b"

instance
proof
  fix x y :: pairing_integrity
  show "x \<le> y \<Longrightarrow> y \<le> x \<Longrightarrow> x = y"
    by (cases x; cases y) (simp_all add: less_eq_pairing_integrity_def)
qed (auto simp: less_eq_pairing_integrity_def less_pairing_integrity_def)

end

instantiation payload_integrity :: linorder
begin

fun rank_payload_integrity :: "payload_integrity \<Rightarrow> nat" where
  "rank_payload_integrity PayloadComplete = 0"
| "rank_payload_integrity PayloadRedacted = 1"
| "rank_payload_integrity PayloadTruncated = 2"
| "rank_payload_integrity PayloadCorrupt = 3"
| "rank_payload_integrity PayloadUnavailable = 4"

definition less_eq_payload_integrity :: "payload_integrity \<Rightarrow> payload_integrity \<Rightarrow> bool" where
  "less_eq_payload_integrity a b \<longleftrightarrow> rank_payload_integrity a \<le> rank_payload_integrity b"

definition less_payload_integrity :: "payload_integrity \<Rightarrow> payload_integrity \<Rightarrow> bool" where
  "less_payload_integrity a b \<longleftrightarrow> rank_payload_integrity a < rank_payload_integrity b"

instance
proof
  fix x y :: payload_integrity
  show "x \<le> y \<Longrightarrow> y \<le> x \<Longrightarrow> x = y"
    by (cases x; cases y) (simp_all add: less_eq_payload_integrity_def)
qed (auto simp: less_eq_payload_integrity_def less_payload_integrity_def)

end

instantiation ordering_integrity :: linorder
begin

fun rank_ordering_integrity :: "ordering_integrity \<Rightarrow> nat" where
  "rank_ordering_integrity OrderingComplete = 0"
| "rank_ordering_integrity OrderingGapped = 1"
| "rank_ordering_integrity OrderingRaced = 2"
| "rank_ordering_integrity OrderingBestEffort = 3"
| "rank_ordering_integrity OrderingUnavailable = 4"

definition less_eq_ordering_integrity :: "ordering_integrity \<Rightarrow> ordering_integrity \<Rightarrow> bool" where
  "less_eq_ordering_integrity a b \<longleftrightarrow> rank_ordering_integrity a \<le> rank_ordering_integrity b"

definition less_ordering_integrity :: "ordering_integrity \<Rightarrow> ordering_integrity \<Rightarrow> bool" where
  "less_ordering_integrity a b \<longleftrightarrow> rank_ordering_integrity a < rank_ordering_integrity b"

instance
proof
  fix x y :: ordering_integrity
  show "x \<le> y \<Longrightarrow> y \<le> x \<Longrightarrow> x = y"
    by (cases x; cases y) (simp_all add: less_eq_ordering_integrity_def)
qed (auto simp: less_eq_ordering_integrity_def less_ordering_integrity_def)

end

datatype episode_lifecycle = EpisodeOpen | EpisodeClosed | EpisodeSuperseded

datatype boundary_status = BoundaryProvisional | BoundaryCandidate | BoundaryConfirmed

datatype boundary_candidate_kind = CandidateStructuredSurprise | CandidateObjective

record boundary_candidate_state =
  bc_candidate_phase_kind :: "phase_kind option"
  bc_candidate_watermark :: u64
  bc_evidence_refs :: "source_observation_id list"
  bc_kind :: boundary_candidate_kind
  bc_refinement_progress :: u8

definition boundary_candidate_state_validate :: "boundary_candidate_state \<Rightarrow> (work_error, unit) result" where
  "boundary_candidate_state_validate c =
    (if bc_candidate_watermark c = 0
        \<or> bc_evidence_refs c = []
        \<or> \<not> ordered_ids (bc_evidence_refs c)
        \<or> bc_refinement_progress c > 8
     then Err InvalidWorkIdentity else Ok ())"

datatype correction_kind = CorrectionRetract | CorrectionSplit | CorrectionMerge
  | CorrectionReattach

record segmentation_correction =
  sc_correction_revision_id :: revision_id
  sc_predecessor_revision_id :: "revision_id option"
  sc_kind :: correction_kind
  sc_source_episode_ids :: "work_episode_id list"
  sc_replacement_episode_ids :: "work_episode_id list"
  sc_evidence_refs :: "string list"
  sc_source_watermark :: u64

definition segmentation_correction_validate :: "segmentation_correction \<Rightarrow> (work_error, unit) result" where
  "segmentation_correction_validate c =
    (let sources = length (sc_source_episode_ids c);
         replacements = length (sc_replacement_episode_ids c);
         shape = (case sc_kind c of
             CorrectionRetract \<Rightarrow> sources = 1 \<and> sc_replacement_episode_ids c = []
           | CorrectionSplit \<Rightarrow> sources = 1 \<and> replacements \<ge> 2
           | CorrectionMerge \<Rightarrow> sources \<ge> 2 \<and> replacements = 1
           | CorrectionReattach \<Rightarrow> sources = 1 \<and> replacements = 1)
     in
     if sc_source_watermark c = 0
        \<or> \<not> ordered_ids (sc_source_episode_ids c)
        \<or> \<not> ordered_ids (sc_replacement_episode_ids c)
        \<or> \<not> bounded_strings (sc_evidence_refs c)
        \<or> sc_evidence_refs c = []
        \<or> \<not> shape
        \<or> (\<exists>i \<in> set (sc_source_episode_ids c). i \<in> set (sc_replacement_episode_ids c))
     then Err InvalidWorkIdentity else Ok ())"

record pending_delta_stats =
  ps_selected_token_count :: u32
  ps_meaningful_burst_count :: u32
  ps_high_value_signal_count :: u32

record pending_semantic_interval =
  pi_after_watermark :: u64
  pi_through_watermark :: u64

definition pending_semantic_interval_validate :: "pending_semantic_interval \<Rightarrow> (work_error, unit) result" where
  "pending_semantic_interval_validate i =
    (if pi_after_watermark i \<ge> pi_through_watermark i then Err InvalidWorkIdentity else Ok ())"

record capture_summary =
  cs_minimum_coverage_level :: coverage_level
  cs_source_coverage_states :: "source_coverage list"
  cs_pairing_integrity_states :: "pairing_integrity list"
  cs_payload_integrity_states :: "payload_integrity list"
  cs_ordering_integrity_states :: "ordering_integrity list"
  cs_reasoning_visibility :: "reasoning_visibility list"

definition capture_summary_default :: capture_summary where
  "capture_summary_default =
    \<lparr>cs_minimum_coverage_level = CoverageOpaque,
     cs_source_coverage_states = [SourceUnavailable],
     cs_pairing_integrity_states = [PairingUnavailable],
     cs_payload_integrity_states = [PayloadUnavailable],
     cs_ordering_integrity_states = [OrderingUnavailable],
     cs_reasoning_visibility = []\<rparr>"

definition capture_summary_validate :: "capture_summary \<Rightarrow> (work_error, unit) result" where
  "capture_summary_validate s =
    (if cs_source_coverage_states s = []
        \<or> cs_pairing_integrity_states s = []
        \<or> cs_payload_integrity_states s = []
        \<or> cs_ordering_integrity_states s = []
        \<or> \<not> ordered_ids (cs_source_coverage_states s)
        \<or> \<not> ordered_ids (cs_pairing_integrity_states s)
        \<or> \<not> ordered_ids (cs_payload_integrity_states s)
        \<or> \<not> ordered_ids (cs_ordering_integrity_states s)
        \<or> \<not> ordered_ids (cs_reasoning_visibility s)
     then Err InvalidWorkIdentity else Ok ())"

text \<open>\<open>values.sort(); values.dedup();\<close>\<close>

definition sort_dedup :: "'a::linorder list \<Rightarrow> 'a list" where
  "sort_dedup values = remdups_adj (sort values)"

definition capture_summary_from_receipts ::
  "capture_receipt list \<Rightarrow> (work_error, capture_summary) result" where
  "capture_summary_from_receipts receipts =
    (if receipts = [] then Ok capture_summary_default
     else
     and_then (for_each capture_receipt_validate receipts) (\<lambda>_.
     let source = sort_dedup (map cr_source_coverage receipts);
         pairing = sort_dedup (map cr_pairing_integrity receipts);
         payload = sort_dedup (map cr_payload_integrity receipts);
         ordering = sort_dedup (map cr_ordering_integrity receipts);
         visibility = sort_dedup (concat (map cr_reasoning_visibility receipts));
         opaque = (\<exists>r \<in> set receipts. cr_coverage_level r = CoverageOpaque)
           \<or> SourceUnavailable \<in> set source
           \<or> PairingUnavailable \<in> set pairing
           \<or> PayloadUnavailable \<in> set payload
           \<or> OrderingUnavailable \<in> set ordering;
         degraded = (\<exists>r \<in> set receipts.
             cr_coverage_level r \<noteq> CoverageFull
           \<or> cr_source_coverage r \<noteq> SourceComplete
           \<or> cr_pairing_integrity r \<noteq> PairingComplete
           \<or> cr_payload_integrity r \<noteq> PayloadComplete
           \<or> cr_ordering_integrity r \<noteq> OrderingComplete
           \<or> \<not> cr_finalized r
           \<or> cr_capture_gap_marker_refs r \<noteq> []
           \<or> cr_capture_outage_interval_refs r \<noteq> [])
     in
     Ok \<lparr>cs_minimum_coverage_level =
           (if opaque then CoverageOpaque else if degraded then CoveragePartial else CoverageFull),
         cs_source_coverage_states = source,
         cs_pairing_integrity_states = pairing,
         cs_payload_integrity_states = payload,
         cs_ordering_integrity_states = ordering,
         cs_reasoning_visibility = visibility\<rparr>))"

record work_episode =
  ep_episode_id :: work_episode_id
  ep_revision_id :: revision_id
  ep_predecessor_revision_id :: "revision_id option"
  ep_revision_generation :: u64
  ep_task_id :: task_id
  ep_workstream_id :: workstream_id
  ep_repository_instance_id :: "repository_id option"
  ep_worktree_instance_id :: "worktree_id option"
  ep_phase_contract :: phase_contract
  ep_lifecycle_status :: episode_lifecycle
  ep_boundary_status :: boundary_status
  ep_source_watermark :: u64
  ep_semantic_watermark :: u64
  ep_confirmation_watermark :: u64
  ep_capture_watermark :: u64
  ep_entry_worktree_snapshot_id :: "worktree_snapshot_id option"
  ep_exit_worktree_snapshot_id :: "worktree_snapshot_id option"
  ep_session_ids :: "string list"
  ep_execution_lane_ids :: "execution_lane_id list"
  ep_attempt_ids :: "attempt_id list"
  ep_competing_attempt_group_ids :: "competing_attempt_group_id list"
  ep_operation_burst_refs :: "operation_burst_id list"
  ep_worktree_transition_refs :: "worktree_transition_id list"
  ep_failed_attempt_ids :: "attempt_id list"
  ep_interrupted_attempt_ids :: "attempt_id list"
  ep_returned_but_unselected_attempt_ids :: "attempt_id list"
  ep_selected_attempt_ids :: "attempt_id list"
  ep_failure_refs :: "string list"
  ep_interruption_refs :: "string list"
  ep_completed_outcome_refs :: "string list"
  ep_selected_outcome_refs :: "string list"
  ep_verification_refs :: "string list"
  ep_open_loops :: "string list"
  ep_checkpoint_refs :: "string list"
  ep_capture_receipt_revision_ids :: "capture_receipt_id list"
  ep_capture_gap_refs :: "string list"
  ep_capture_outage_refs :: "capture_outage_interval_id list"
  ep_pending_delta_stats :: pending_delta_stats
  ep_pending_semantic_delta :: "pending_semantic_interval option"
  ep_boundary_candidate :: "boundary_candidate_state option"
  ep_capture_summary :: capture_summary
  ep_segmentation_correction_refs :: "revision_id list"
  ep_experiment_run_refs :: "experiment_run_id list"
  ep_work_artifact_refs :: "work_artifact_id list"
  ep_semantic_digest_refs :: "string list"

definition work_episode_all_lists :: "work_episode \<Rightarrow> bool" where
  "work_episode_all_lists e \<longleftrightarrow>
    bounded_strings (ep_session_ids e) \<and> ordered_ids (ep_execution_lane_ids e)
    \<and> ordered_ids (ep_attempt_ids e) \<and> ordered_ids (ep_competing_attempt_group_ids e)
    \<and> ordered_ids (ep_operation_burst_refs e) \<and> ordered_ids (ep_worktree_transition_refs e)
    \<and> ordered_ids (ep_failed_attempt_ids e) \<and> ordered_ids (ep_interrupted_attempt_ids e)
    \<and> ordered_ids (ep_returned_but_unselected_attempt_ids e)
    \<and> ordered_ids (ep_selected_attempt_ids e) \<and> bounded_strings (ep_failure_refs e)
    \<and> bounded_strings (ep_interruption_refs e) \<and> bounded_strings (ep_completed_outcome_refs e)
    \<and> bounded_strings (ep_selected_outcome_refs e) \<and> bounded_strings (ep_verification_refs e)
    \<and> bounded_strings (ep_open_loops e) \<and> bounded_strings (ep_checkpoint_refs e)
    \<and> bounded_strings (ep_semantic_digest_refs e) \<and> ordered_ids (ep_capture_receipt_revision_ids e)
    \<and> bounded_strings (ep_capture_gap_refs e) \<and> ordered_ids (ep_capture_outage_refs e)
    \<and> ordered_ids (ep_segmentation_correction_refs e)"

definition work_episode_validate :: "work_episode \<Rightarrow> (work_error, unit) result" where
  "work_episode_validate e =
    and_then (phase_contract_validate (ep_phase_contract e)) (\<lambda>_.
    and_then (capture_summary_validate (ep_capture_summary e)) (\<lambda>_.
    let pending_ok = (case ep_pending_semantic_delta e of
          Some interval \<Rightarrow> is_ok (pending_semantic_interval_validate interval)
            \<and> pi_after_watermark interval = ep_semantic_watermark e
            \<and> pi_through_watermark interval = ep_source_watermark e
        | None \<Rightarrow> ep_semantic_watermark e = ep_source_watermark e)
    in
    if ep_revision_generation e = 0
       \<or> ep_source_watermark e = 0
       \<or> (ep_revision_generation e = 1) \<noteq> (ep_predecessor_revision_id e = None)
       \<or> ep_semantic_watermark e > ep_source_watermark e
       \<or> ep_confirmation_watermark e > ep_source_watermark e
       \<or> ep_capture_watermark e > ep_source_watermark e
       \<or> \<not> pending_ok
       \<or> is_some_and (\<lambda>c. \<not> is_ok (boundary_candidate_state_validate c)
            \<or> bc_candidate_watermark c > ep_source_watermark e) (ep_boundary_candidate e)
       \<or> (ep_boundary_status e = BoundaryCandidate) \<noteq> is_some (ep_boundary_candidate e)
       \<or> \<not> work_episode_all_lists e
       \<or> ep_experiment_run_refs e \<noteq> []
       \<or> ep_work_artifact_refs e \<noteq> []
       \<or> (ep_lifecycle_status e = EpisodeOpen
           \<and> (ep_boundary_status e = BoundaryConfirmed \<or> is_some (ep_exit_worktree_snapshot_id e)))
       \<or> (ep_lifecycle_status e \<noteq> EpisodeOpen \<and> ep_boundary_status e \<noteq> BoundaryConfirmed)
       \<or> (ep_boundary_status e = BoundaryConfirmed \<and> ep_confirmation_watermark e = 0)
       \<or> (ep_boundary_status e \<noteq> BoundaryConfirmed \<and> ep_confirmation_watermark e \<noteq> 0)
    then Err InvalidWorkIdentity else Ok ()))"

text \<open>
  The semantic successor: \<open>frozen != *self\<close> compares the whole records after the
  six fields that may differ have been copied over.
\<close>

definition work_episode_validate_semantic_successor ::
  "work_episode \<Rightarrow> work_episode \<Rightarrow> u64 \<Rightarrow> (work_error, unit) result" where
  "work_episode_validate_semantic_successor e next next_generation =
    (let frozen = next\<lparr>ep_revision_id := ep_revision_id e,
           ep_predecessor_revision_id := ep_predecessor_revision_id e,
           ep_revision_generation := ep_revision_generation e,
           ep_semantic_watermark := ep_semantic_watermark e,
           ep_pending_semantic_delta := ep_pending_semantic_delta e,
           ep_semantic_digest_refs := ep_semantic_digest_refs e\<rparr>;
         appended = (\<forall>r \<in> set (ep_semantic_digest_refs e). r \<in> set (ep_semantic_digest_refs next))
           \<and> length (ep_semantic_digest_refs next) = length (ep_semantic_digest_refs e) + 1;
         pending_ok = (if ep_semantic_watermark next = ep_source_watermark next
           then ep_pending_semantic_delta next = None
           else is_some_and (\<lambda>i. pi_after_watermark i = ep_semantic_watermark next
                  \<and> pi_through_watermark i = ep_source_watermark next) (ep_pending_semantic_delta next))
     in
     if frozen \<noteq> e
        \<or> ep_revision_generation next \<noteq> next_generation
        \<or> ep_predecessor_revision_id next \<noteq> Some (ep_revision_id e)
        \<or> ep_revision_id next = ep_revision_id e
        \<or> ep_semantic_watermark next \<le> ep_semantic_watermark e
        \<or> ep_semantic_watermark next > ep_source_watermark e
        \<or> \<not> appended
        \<or> \<not> pending_ok
     then Err InvalidWorkIdentity else Ok ())"

definition work_episode_lifecycle_ok :: "work_episode \<Rightarrow> work_episode \<Rightarrow> bool" where
  "work_episode_lifecycle_ok e next \<longleftrightarrow>
    ep_lifecycle_status e = ep_lifecycle_status next
    \<or> (ep_lifecycle_status e = EpisodeOpen
        \<and> ep_lifecycle_status next \<in> {EpisodeClosed, EpisodeSuperseded})
    \<or> (ep_lifecycle_status e = EpisodeClosed \<and> ep_lifecycle_status next = EpisodeSuperseded)"

definition work_episode_boundary_ok :: "work_episode \<Rightarrow> work_episode \<Rightarrow> bool" where
  "work_episode_boundary_ok e next \<longleftrightarrow>
    ep_boundary_status e = ep_boundary_status next
    \<or> (ep_boundary_status e, ep_boundary_status next)
        \<in> {(BoundaryProvisional, BoundaryCandidate), (BoundaryCandidate, BoundaryProvisional),
           (BoundaryCandidate, BoundaryConfirmed)}"

definition work_episode_retains :: "work_episode \<Rightarrow> work_episode \<Rightarrow> bool" where
  "work_episode_retains e next \<longleftrightarrow>
    retains (ep_session_ids e) (ep_session_ids next)
    \<and> retains (ep_execution_lane_ids e) (ep_execution_lane_ids next)
    \<and> retains (ep_attempt_ids e) (ep_attempt_ids next)
    \<and> retains (ep_competing_attempt_group_ids e) (ep_competing_attempt_group_ids next)
    \<and> retains (ep_operation_burst_refs e) (ep_operation_burst_refs next)
    \<and> retains (ep_worktree_transition_refs e) (ep_worktree_transition_refs next)
    \<and> retains (ep_failed_attempt_ids e) (ep_failed_attempt_ids next)
    \<and> retains (ep_interrupted_attempt_ids e) (ep_interrupted_attempt_ids next)
    \<and> retains (ep_returned_but_unselected_attempt_ids e) (ep_returned_but_unselected_attempt_ids next)
    \<and> retains (ep_selected_attempt_ids e) (ep_selected_attempt_ids next)
    \<and> retains (ep_failure_refs e) (ep_failure_refs next)
    \<and> retains (ep_interruption_refs e) (ep_interruption_refs next)
    \<and> retains (ep_completed_outcome_refs e) (ep_completed_outcome_refs next)
    \<and> retains (ep_selected_outcome_refs e) (ep_selected_outcome_refs next)
    \<and> retains (ep_verification_refs e) (ep_verification_refs next)
    \<and> retains (ep_checkpoint_refs e) (ep_checkpoint_refs next)
    \<and> retains (ep_capture_gap_refs e) (ep_capture_gap_refs next)
    \<and> retains (ep_capture_outage_refs e) (ep_capture_outage_refs next)
    \<and> retains (ep_segmentation_correction_refs e) (ep_segmentation_correction_refs next)"

definition work_episode_validate_successor ::
  "work_episode \<Rightarrow> work_episode \<Rightarrow> (work_error, unit) result" where
  "work_episode_validate_successor e next =
    and_then (work_episode_validate e) (\<lambda>_.
    and_then (work_episode_validate next) (\<lambda>_.
    and_then (ok_or InvalidWorkIdentity (checked_add (ep_revision_generation e) 1)) (\<lambda>next_generation.
    if ep_semantic_watermark e \<noteq> ep_semantic_watermark next
       \<or> ep_semantic_digest_refs e \<noteq> ep_semantic_digest_refs next
    then work_episode_validate_semantic_successor e next next_generation
    else if ep_episode_id next \<noteq> ep_episode_id e
       \<or> ep_revision_generation next \<noteq> next_generation
       \<or> ep_predecessor_revision_id next \<noteq> Some (ep_revision_id e)
       \<or> ep_revision_id next = ep_revision_id e
       \<or> ep_task_id next \<noteq> ep_task_id e
       \<or> ep_workstream_id next \<noteq> ep_workstream_id e
       \<or> ep_repository_instance_id next \<noteq> ep_repository_instance_id e
       \<or> ep_worktree_instance_id next \<noteq> ep_worktree_instance_id e
       \<or> ep_phase_contract next \<noteq> ep_phase_contract e
       \<or> ep_entry_worktree_snapshot_id next \<noteq> ep_entry_worktree_snapshot_id e
       \<or> ep_source_watermark next < ep_source_watermark e
       \<or> ep_semantic_watermark next < ep_semantic_watermark e
       \<or> ep_confirmation_watermark next < ep_confirmation_watermark e
       \<or> ep_capture_watermark next < ep_capture_watermark e
       \<or> \<not> work_episode_lifecycle_ok e next
       \<or> \<not> work_episode_boundary_ok e next
       \<or> ep_lifecycle_status e = EpisodeSuperseded
       \<or> (ep_lifecycle_status e = EpisodeClosed \<and> ep_lifecycle_status next \<noteq> EpisodeSuperseded)
       \<or> \<not> work_episode_retains e next
    then Err InvalidWorkIdentity else Ok ())))"

section \<open>Episode histories\<close>

text \<open>What every revision of an episode shares, and the order in which revisions advance.\<close>

definition episode_identity :: "work_episode \<Rightarrow> _" where
  "episode_identity e = (ep_episode_id e, ep_task_id e, ep_workstream_id e,
    ep_repository_instance_id e, ep_worktree_instance_id e, ep_phase_contract e,
    ep_entry_worktree_snapshot_id e)"

fun episode_lifecycle_rank :: "episode_lifecycle \<Rightarrow> nat" where
  "episode_lifecycle_rank EpisodeOpen = 0"
| "episode_lifecycle_rank EpisodeClosed = 1"
| "episode_lifecycle_rank EpisodeSuperseded = 2"

definition episode_advances :: "work_episode \<Rightarrow> work_episode \<Rightarrow> bool" where
  "episode_advances a b \<longleftrightarrow>
    ep_source_watermark a \<le> ep_source_watermark b
    \<and> ep_semantic_watermark a \<le> ep_semantic_watermark b
    \<and> ep_confirmation_watermark a \<le> ep_confirmation_watermark b
    \<and> ep_capture_watermark a \<le> ep_capture_watermark b
    \<and> episode_lifecycle_rank (ep_lifecycle_status a) \<le> episode_lifecycle_rank (ep_lifecycle_status b)
    \<and> (ep_boundary_status a = BoundaryConfirmed \<longrightarrow> ep_boundary_status b = BoundaryConfirmed)
    \<and> retains (ep_semantic_digest_refs a) (ep_semantic_digest_refs b)
    \<and> work_episode_retains a b"

lemma work_episode_retains_trans:
  "work_episode_retains a b \<Longrightarrow> work_episode_retains b c \<Longrightarrow> work_episode_retains a c"
  unfolding work_episode_retains_def by (elim conjE, intro conjI) (erule (1) retains_trans)+

lemma episode_advances_trans: "episode_advances a b \<Longrightarrow> episode_advances b c \<Longrightarrow> episode_advances a c"
  unfolding episode_advances_def
  by (auto intro: work_episode_retains_trans retains_trans order_trans)

lemma work_episode_retains_refl: "work_episode_retains a a"
  by (simp add: work_episode_retains_def)

lemma episode_advances_refl: "episode_advances a a"
  by (simp add: episode_advances_def work_episode_retains_refl)

text \<open>The two ways a successor can be accepted.\<close>

lemma semantic_successorD:
  assumes "work_episode_validate_semantic_successor a b g = Inr ()"
  shows "b\<lparr>ep_revision_id := ep_revision_id a,
           ep_predecessor_revision_id := ep_predecessor_revision_id a,
           ep_revision_generation := ep_revision_generation a,
           ep_semantic_watermark := ep_semantic_watermark a,
           ep_pending_semantic_delta := ep_pending_semantic_delta a,
           ep_semantic_digest_refs := ep_semantic_digest_refs a\<rparr> = a"
    and "ep_revision_generation b = g" and "ep_predecessor_revision_id b = Some (ep_revision_id a)"
    and "ep_semantic_watermark a < ep_semantic_watermark b"
    and "retains (ep_semantic_digest_refs a) (ep_semantic_digest_refs b)"
    and "length (ep_semantic_digest_refs b) = Suc (length (ep_semantic_digest_refs a))"
  using assms
  by (auto simp: work_episode_validate_semantic_successor_def Let_def retains_def split: if_splits)

lemma semantic_successor_shape:
  assumes "work_episode_validate_semantic_successor a b g = Inr ()"
  obtains r p n s d q where "b = a\<lparr>ep_revision_id := r, ep_predecessor_revision_id := p,
    ep_revision_generation := n, ep_semantic_watermark := s,
    ep_pending_semantic_delta := d, ep_semantic_digest_refs := q\<rparr>"
proof -
  have "b = a\<lparr>ep_revision_id := ep_revision_id b,
           ep_predecessor_revision_id := ep_predecessor_revision_id b,
           ep_revision_generation := ep_revision_generation b,
           ep_semantic_watermark := ep_semantic_watermark b,
           ep_pending_semantic_delta := ep_pending_semantic_delta b,
           ep_semantic_digest_refs := ep_semantic_digest_refs b\<rparr>"
    by (subst semantic_successorD(1) [OF assms, symmetric]) simp
  then show thesis by (rule that)
qed

lemma semantic_successor_advances:
  assumes "work_episode_validate_semantic_successor a b g = Inr ()"
  shows "episode_identity b = episode_identity a" and "episode_advances a b"
    and "ep_lifecycle_status b = ep_lifecycle_status a"
    and "ep_boundary_status b = ep_boundary_status a"
proof -
  obtain r p n s d q where b: "b = a\<lparr>ep_revision_id := r, ep_predecessor_revision_id := p,
    ep_revision_generation := n, ep_semantic_watermark := s,
    ep_pending_semantic_delta := d, ep_semantic_digest_refs := q\<rparr>"
    by (rule semantic_successor_shape [OF assms])
  show "episode_identity b = episode_identity a" "ep_lifecycle_status b = ep_lifecycle_status a"
    "ep_boundary_status b = ep_boundary_status a"
    by (simp_all add: b episode_identity_def)
  show "episode_advances a b"
    using semantic_successorD(4,5) [OF assms]
    by (simp add: b episode_advances_def work_episode_retains_def)
qed

definition plain_successor :: "work_episode \<Rightarrow> work_episode \<Rightarrow> bool" where
  "plain_successor a b \<longleftrightarrow> ep_semantic_watermark b = ep_semantic_watermark a
    \<and> ep_semantic_digest_refs b = ep_semantic_digest_refs a
    \<and> ep_predecessor_revision_id b = Some (ep_revision_id a)
    \<and> episode_identity b = episode_identity a
    \<and> ep_source_watermark a \<le> ep_source_watermark b
    \<and> ep_confirmation_watermark a \<le> ep_confirmation_watermark b
    \<and> ep_capture_watermark a \<le> ep_capture_watermark b
    \<and> work_episode_lifecycle_ok a b \<and> work_episode_boundary_ok a b
    \<and> ep_lifecycle_status a \<noteq> EpisodeSuperseded
    \<and> (ep_lifecycle_status a = EpisodeClosed \<longrightarrow> ep_lifecycle_status b = EpisodeSuperseded)
    \<and> work_episode_retains a b"

lemma episode_successor_cases:
  assumes "work_episode_validate_successor a b = Inr ()"
  obtains (semantic) "work_episode_validate_semantic_successor a b (ep_revision_generation b) = Inr ()"
      "work_episode_validate a = Inr ()" "work_episode_validate b = Inr ()"
      "checked_add (ep_revision_generation a) 1 = Some (ep_revision_generation b)"
    | (plain) "plain_successor a b"
      "work_episode_validate a = Inr ()" "work_episode_validate b = Inr ()"
      "checked_add (ep_revision_generation a) 1 = Some (ep_revision_generation b)"
proof -
  have va: "work_episode_validate a = Inr ()" and vb: "work_episode_validate b = Inr ()"
    using assms by (auto simp: work_episode_validate_successor_def result_simps)
  obtain g where g: "checked_add (ep_revision_generation a) 1 = Some g"
    using assms by (auto simp: work_episode_validate_successor_def result_simps)
  show thesis
  proof (cases "ep_semantic_watermark a \<noteq> ep_semantic_watermark b
       \<or> ep_semantic_digest_refs a \<noteq> ep_semantic_digest_refs b")
    case True
    then have s: "work_episode_validate_semantic_successor a b g = Inr ()"
      using assms va vb g by (simp add: work_episode_validate_successor_def result_simps)
    show thesis using semantic_successorD(2) [OF s] s va vb g semantic by simp
  next
    case False
    then have "plain_successor a b \<and> ep_revision_generation b = g"
      using assms va vb g
      by (simp add: work_episode_validate_successor_def result_simps plain_successor_def
          episode_identity_def not_less split: if_splits)
    then show thesis using va vb g plain by blast
  qed
qed

lemma plain_successor_advances: "plain_successor a b \<Longrightarrow> episode_advances a b"
  by (auto simp: plain_successor_def episode_advances_def work_episode_lifecycle_ok_def
      work_episode_boundary_ok_def)

lemma episode_successorD:
  assumes "work_episode_validate_successor a b = Inr ()"
  shows "episode_identity b = episode_identity a"
    and "unat (ep_revision_generation b) = Suc (unat (ep_revision_generation a))"
    and "work_episode_validate b = Inr ()" and "episode_advances a b"
  by (rule episode_successor_cases [OF assms];
      simp add: semantic_successor_advances plain_successor_advances checked_add_SomeD
        plain_successor_def)+

interpretation episodes: absorbing_chain
  "\<lambda>a b. work_episode_validate_successor a b = Inr ()" episode_identity
  "\<lambda>e. unat (ep_revision_generation e)" "\<lambda>e. work_episode_validate e = Inr ()"
  "episode_advances e" for e
  by unfold_locales (auto intro: episode_successorD episode_advances_trans)

text \<open>
  An episode only moves forward: along any accepted sequence of revisions the
  identity, owner, phase contract and entry snapshot are fixed, revisions are numbered
  without gaps, none of the four watermarks goes back, a closed or superseded episode
  is never reopened, a confirmed boundary is never withdrawn, and every reference an
  earlier revision holds (sessions, lanes, attempts, bursts, transitions, failures,
  outcomes, checkpoints, gaps, outages, corrections, semantic digests) is still held
  by every later one.
\<close>

theorem episode_history_advances:
  assumes "windows_all (\<lambda>a b. work_episode_validate_successor a b = Inr ()) (e # es)"
    and "i \<le> j" and "j < length (e # es)"
  shows "episode_identity ((e # es) ! j) = episode_identity e
    \<and> unat (ep_revision_generation ((e # es) ! j)) = unat (ep_revision_generation e) + j
    \<and> episode_advances ((e # es) ! i) ((e # es) ! j)"
  using episodes.history_ident [OF assms(1) nth_mem [OF assms(3)]]
    episodes.history_gen [OF assms(1,3)]
    episodes.history_absorbed [OF assms episode_advances_refl]
  by simp


section \<open>Capture summaries\<close>

lemma set_sort_dedup [simp]: "set (sort_dedup xs) = set xs"
  by (simp add: sort_dedup_def)

lemma sort_dedup_eq_Nil [simp]: "sort_dedup xs = [] \<longleftrightarrow> xs = []"
  by (metis set_empty set_sort_dedup)

lemma sorted_wrt_remdups_adj: "sorted xs \<Longrightarrow> sorted_wrt (<) (remdups_adj (xs :: 'a::linorder list))"
  by (induction xs rule: remdups_adj.induct) (auto simp: less_le)

lemma sorted_wrt_sort_dedup: "sorted_wrt (<) (sort_dedup xs)"
  by (simp add: sort_dedup_def sorted_wrt_remdups_adj)

lemma length_sort_dedup: "length (sort_dedup xs) = card (set xs)"
  by (metis distinct_card set_sort_dedup sorted_wrt_sort_dedup strict_sorted_iff)

lemma ordered_ids_sort_dedup: "card (set xs) \<le> MAX_REFS \<Longrightarrow> ordered_ids (sort_dedup xs)"
  by (simp add: ordered_ids_def strictly_ordered_unique_iff sorted_wrt_sort_dedup length_sort_dedup)

lemma ordered_ids_sort_dedup_enum:
  assumes "(UNIV :: 'a::linorder set) = set us" and "length us \<le> MAX_REFS"
  shows "ordered_ids (sort_dedup (xs :: 'a list))"
proof (rule ordered_ids_sort_dedup)
  have "card (set xs) \<le> card (set us)"
    by (intro card_mono) (simp, use assms(1) in blast)
  also have "\<dots> \<le> length us" by (rule card_length)
  finally show "card (set xs) \<le> MAX_REFS" using assms(2) by simp
qed

lemma ordered_quality_lists:
  "ordered_ids (sort_dedup (a :: source_coverage list))"
  "ordered_ids (sort_dedup (b :: pairing_integrity list))"
  "ordered_ids (sort_dedup (c :: payload_integrity list))"
  "ordered_ids (sort_dedup (d :: ordering_integrity list))"
  "ordered_ids (sort_dedup (f :: reasoning_visibility list))"
proof -
  have "UNIV = set [SourceOpen, SourceComplete, SourcePartial, SourceUnavailable]"
    by (auto intro: source_coverage.exhaust)
  from ordered_ids_sort_dedup_enum [OF this] show "ordered_ids (sort_dedup a)"
    by (simp add: MAX_REFS_def)
  have "UNIV = set [PairingComplete, PairingUnmatched, PairingUnavailable]"
    by (auto intro: pairing_integrity.exhaust)
  from ordered_ids_sort_dedup_enum [OF this] show "ordered_ids (sort_dedup b)"
    by (simp add: MAX_REFS_def)
  have "UNIV = set [PayloadComplete, PayloadRedacted, PayloadTruncated, PayloadCorrupt, PayloadUnavailable]"
    by (auto intro: payload_integrity.exhaust)
  from ordered_ids_sort_dedup_enum [OF this] show "ordered_ids (sort_dedup c)"
    by (simp add: MAX_REFS_def)
  have "UNIV = set [OrderingComplete, OrderingGapped, OrderingRaced, OrderingBestEffort, OrderingUnavailable]"
    by (auto intro: ordering_integrity.exhaust)
  from ordered_ids_sort_dedup_enum [OF this] show "ordered_ids (sort_dedup d)"
    by (simp add: MAX_REFS_def)
  have "UNIV = set [ReasoningRaw, ReasoningSummary, ReasoningExplicitRationale]"
    by (auto intro: reasoning_visibility.exhaust)
  from ordered_ids_sort_dedup_enum [OF this] show "ordered_ids (sort_dedup f)"
    by (simp add: MAX_REFS_def)
qed

definition receipt_is_full :: "capture_receipt \<Rightarrow> bool" where
  "receipt_is_full r \<longleftrightarrow> cr_coverage_level r = CoverageFull
    \<and> cr_source_coverage r = SourceComplete \<and> cr_pairing_integrity r = PairingComplete
    \<and> cr_payload_integrity r = PayloadComplete \<and> cr_ordering_integrity r = OrderingComplete
    \<and> cr_finalized r \<and> cr_capture_gap_marker_refs r = []
    \<and> cr_capture_outage_interval_refs r = []"

lemma from_receipts_Ok_iff:
  "(\<exists>s. capture_summary_from_receipts rs = Ok s)
    \<longleftrightarrow> (\<forall>r \<in> set rs. capture_receipt_validate r = Ok ())"
  by (auto simp: capture_summary_from_receipts_def Let_def result_simps)

lemma from_receipts_level:
  assumes "capture_summary_from_receipts rs = Ok s"
  shows "cs_minimum_coverage_level s = CoverageFull \<longleftrightarrow> rs \<noteq> [] \<and> (\<forall>r \<in> set rs. receipt_is_full r)"
proof (cases "rs = []")
  case True
  then show ?thesis
    using assms by (auto simp: capture_summary_from_receipts_def capture_summary_default_def)
next
  case False
  then show ?thesis using assms
    by (auto simp: capture_summary_from_receipts_def Let_def result_simps receipt_is_full_def
        ball_conj_distrib split: if_splits)
qed

lemma from_receipts_valid:
  assumes "capture_summary_from_receipts rs = Ok s"
  shows "capture_summary_validate s = Ok ()"
proof (cases "rs = []")
  case True
  then show ?thesis
    using assms by (auto simp: capture_summary_from_receipts_def capture_summary_default_def
        capture_summary_validate_def)
next
  case False
  then show ?thesis using assms
    by (auto simp: capture_summary_from_receipts_def Let_def result_simps capture_summary_validate_def
        ordered_quality_lists)
qed

text \<open>
  Summarising receipts never overstates them: it succeeds exactly when every
  receipt is valid, the result is a valid summary, and its minimum coverage is Full
  exactly when there is at least one receipt and every receipt is finalized, complete
  in all four qualities and free of gaps and outages.
\<close>

theorem capture_summary_honest:
  "(if \<forall>r \<in> set rs. capture_receipt_validate r = Ok ()
    then \<exists>s. capture_summary_from_receipts rs = Ok s \<and> capture_summary_validate s = Ok ()
      \<and> (cs_minimum_coverage_level s = CoverageFull \<longleftrightarrow>
           rs \<noteq> [] \<and> (\<forall>r \<in> set rs. receipt_is_full r))
    else \<exists>err. capture_summary_from_receipts rs = Err err)"
proof (cases "\<forall>r \<in> set rs. capture_receipt_validate r = Ok ()")
  case True
  then obtain s where s: "capture_summary_from_receipts rs = Ok s"
    using from_receipts_Ok_iff by blast
  show ?thesis using True from_receipts_valid [OF s] from_receipts_level [OF s] s by auto
next
  case False
  then have "\<nexists>s. capture_summary_from_receipts rs = Ok s" by (simp add: from_receipts_Ok_iff)
  then show ?thesis using False by (cases "capture_summary_from_receipts rs") auto
qed

section \<open>A sample history\<close>

definition sample_episode :: work_episode where
  "sample_episode = \<lparr>ep_episode_id = 1, ep_revision_id = 2, ep_predecessor_revision_id = None,
    ep_revision_generation = 1, ep_task_id = 3, ep_workstream_id = 4,
    ep_repository_instance_id = None, ep_worktree_instance_id = None,
    ep_phase_contract = \<lparr>pc_local_goal = ''goal'', pc_phase_kind = PhaseImplement, pc_phase_label = ''label'',
      pc_primary_targets = [], pc_entry_conditions = [], pc_acceptance_boundary = ''tests'',
      pc_expected_state_transition = ''done''\<rparr>,
    ep_lifecycle_status = EpisodeOpen, ep_boundary_status = BoundaryCandidate,
    ep_source_watermark = 5, ep_semantic_watermark = 5, ep_confirmation_watermark = 0,
    ep_capture_watermark = 0, ep_entry_worktree_snapshot_id = None,
    ep_exit_worktree_snapshot_id = None, ep_session_ids = [], ep_execution_lane_ids = [],
    ep_attempt_ids = [], ep_competing_attempt_group_ids = [], ep_operation_burst_refs = [],
    ep_worktree_transition_refs = [], ep_failed_attempt_ids = [],
    ep_interrupted_attempt_ids = [], ep_returned_but_unselected_attempt_ids = [],
    ep_selected_attempt_ids = [], ep_failure_refs = [], ep_interruption_refs = [],
    ep_completed_outcome_refs = [], ep_selected_outcome_refs = [], ep_verification_refs = [],
    ep_open_loops = [], ep_checkpoint_refs = [], ep_capture_receipt_revision_ids = [],
    ep_capture_gap_refs = [], ep_capture_outage_refs = [],
    ep_pending_delta_stats = \<lparr>ps_selected_token_count = 0, ps_meaningful_burst_count = 0,
      ps_high_value_signal_count = 0\<rparr>,
    ep_pending_semantic_delta = None,
    ep_boundary_candidate = Some \<lparr>bc_candidate_phase_kind = None, bc_candidate_watermark = 5,
      bc_evidence_refs = [[1]], bc_kind = CandidateObjective, bc_refinement_progress = 0\<rparr>,
    ep_capture_summary = capture_summary_default, ep_segmentation_correction_refs = [],
    ep_experiment_run_refs = [], ep_work_artifact_refs = [], ep_semantic_digest_refs = []\<rparr>"

definition sample_closed_episode :: work_episode where
  "sample_closed_episode = sample_episode\<lparr>ep_revision_id := 9, ep_predecessor_revision_id := Some 2,
    ep_revision_generation := 2, ep_lifecycle_status := EpisodeClosed,
    ep_boundary_status := BoundaryConfirmed, ep_confirmation_watermark := 5,
    ep_boundary_candidate := None\<rparr>"

lemma sample_episode_valid: "work_episode_validate sample_episode = Ok ()"
  by (simp add: work_episode_validate_def phase_contract_validate_def capture_summary_validate_def
      capture_summary_default_def work_episode_all_lists_def boundary_candidate_state_validate_def
      sample_episode_def bounded_text_def blank_def MAX_TEXT_def Let_def)

lemma sample_closed_episode_valid: "work_episode_validate sample_closed_episode = Ok ()"
  by (simp add: work_episode_validate_def phase_contract_validate_def capture_summary_validate_def
      capture_summary_default_def work_episode_all_lists_def
      sample_episode_def sample_closed_episode_def bounded_text_def blank_def MAX_TEXT_def Let_def)

lemma sample_episode_accepted:
  "work_episode_validate_successor sample_episode sample_closed_episode = Ok ()"
  unfolding work_episode_validate_successor_def
  by (simp add: sample_episode_valid sample_closed_episode_valid)
    (simp add: sample_episode_def sample_closed_episode_def checked_add_def ok_or_def
      work_episode_lifecycle_ok_def work_episode_boundary_ok_def work_episode_retains_def)

theorem episode_history_advances_witness:
  "episode_identity sample_closed_episode = episode_identity sample_episode
    \<and> episode_advances sample_episode sample_closed_episode"
  using episode_history_advances [of sample_episode "[sample_closed_episode]" 0 1]
    sample_episode_accepted by simp


lemma sample_receipt_valid: "capture_receipt_validate sample_receipt = Ok ()"
  by (simp add: sample_defs build_receipt_def capture_receipt_validate_def receipt_terminal_is_valid_def
      result_simps CAPTURE_RESOLVER_VERSION_def unique_sorted_def has_control_samples valid_ref_def
      require_unique_def btree_set_def resolve_payload_integrity_def)

theorem capture_summary_honest_witness:
  "\<exists>s. capture_summary_from_receipts [sample_receipt] = Ok s
    \<and> cs_minimum_coverage_level s \<noteq> CoverageFull"
  using capture_summary_honest [of "[sample_receipt]"] sample_receipt_valid
  by (auto simp: receipt_is_full_def sample_receipt_def build_receipt_def)

end
