(* ===== verification/Attempt.thy ===== *)
theory Attempt
  imports Work_Objects Canonical
begin

text \<open>
  Attempts and competing groups of attempts:
  \<open>evertrace-domain/src/work/attempt.rs\<close>. An attempt carries a strategy contract whose
  fingerprint is a digest of its canonical encoding, an execution status, an adoption
  status, a verification verdict and the evidence for each; its revisions may only
  advance along the transitions the file lists. A competing group records how rival
  attempts at the same decision were resolved. SHA-256 is third-party code and the
  first argument of every definition that needs a fingerprint.
\<close>

record strategy_contract =
  st_hypothesis :: string
  st_intervention :: string
  st_intervention_family :: string
  st_search_policy_ref :: "string option"
  st_objective_ref :: "string option"
  st_expected_effect :: string
  st_target_refs :: "string list"
  st_acceptance_boundary_ref :: string

definition strategy_contract_validate :: "strategy_contract \<Rightarrow> (work_error, unit) result" where
  "strategy_contract_validate c =
    (if \<not> bounded_text (st_hypothesis c)
        \<or> \<not> bounded_text (st_intervention c)
        \<or> \<not> bounded_text (st_intervention_family c)
        \<or> \<not> bounded_text (st_expected_effect c)
        \<or> \<not> bounded_text (st_acceptance_boundary_ref c)
        \<or> is_some_and (\<lambda>v. \<not> bounded_text v) (st_search_policy_ref c)
        \<or> is_some_and (\<lambda>v. \<not> bounded_text v) (st_objective_ref c)
        \<or> \<not> bounded_strings (st_target_refs c)
     then Err InvalidWorkIdentity else Ok ())"

definition STRATEGY_FINGERPRINT_TAG :: string where
  "STRATEGY_FINGERPRINT_TAG = ''evertrace_attempt_strategy_contract''"

definition STRATEGY_FINGERPRINT_VERSION :: u32 where
  "STRATEGY_FINGERPRINT_VERSION = 1"

definition canonical_strings :: "string list \<Rightarrow> canonical_value" where
  "canonical_strings values = CSequence (map CString values)"

definition canonical_opt :: "string option \<Rightarrow> canonical_value" where
  "canonical_opt v = (case v of None \<Rightarrow> CNull | Some s \<Rightarrow> CString s)"

definition strategy_contract_value :: "strategy_contract \<Rightarrow> canonical_value" where
  "strategy_contract_value c = CMap
    [(''acceptance_boundary_ref'', CString (st_acceptance_boundary_ref c)),
     (''expected_effect'', CString (st_expected_effect c)),
     (''hypothesis'', CString (st_hypothesis c)),
     (''intervention'', CString (st_intervention c)),
     (''intervention_family'', CString (st_intervention_family c)),
     (''objective_ref'', canonical_opt (st_objective_ref c)),
     (''search_policy_ref'', canonical_opt (st_search_policy_ref c)),
     (''target_refs'', canonical_strings (st_target_refs c))]"

definition strategy_contract_fingerprint ::
  "(bytes \<Rightarrow> bytes) \<Rightarrow> strategy_contract \<Rightarrow> (work_error, bytes) result" where
  "strategy_contract_fingerprint sha256_digest c =
    and_then (strategy_contract_validate c) (\<lambda>_.
    map_err (\<lambda>_. InvalidWorkIdentity)
      (canonical_sha256 sha256_digest STRATEGY_FINGERPRINT_TAG STRATEGY_FINGERPRINT_VERSION
        (strategy_contract_value c)))"

datatype attempt_execution_status = ExecProposed | ExecActive | ExecInterrupted | ExecCompleted
  | ExecAbandoned

datatype attempt_adoption_status = AdoptionNone | AdoptionCandidate | AdoptionSelected
  | AdoptionPartiallyIntegrated | AdoptionIntegrated | AdoptionRejected

datatype attempt_verification = VerificationUnverified | VerificationPassed
  | VerificationFailed | VerificationInconclusive

datatype attempt_lifecycle_status = AttemptActive | AttemptSuperseded

datatype attempt_outcome_state = OutcomeKnown | OutcomeUnknown

datatype interruption_reason = InterruptionTimeout | InterruptionCancelled
  | InterruptionCrashed | InterruptionSourceClosedUnconfirmed | InterruptionMixed

datatype resume_state_assessment = ResumeCompatibleSameInstance
  | ResumeCompatibleLineageTransfer | ResumeIncompatible | ResumeUnknown

type_synonym recovery_bundle_id = uuid
type_synonym recovery_application_id = uuid

record attempt =
  at_attempt_id :: attempt_id
  at_revision_id :: revision_id
  at_predecessor_revision_id :: "revision_id option"
  at_revision_generation :: u64
  at_task_id :: task_id
  at_workstream_id :: workstream_id
  at_episode_id :: "work_episode_id option"
  at_repository_instance_id :: "repository_id option"
  at_worktree_instance_ids :: "worktree_id list"
  at_execution_lane_ids :: "execution_lane_id list"
  at_competing_group_ids :: "competing_attempt_group_id list"
  at_experiment_run_ids :: "experiment_run_id list"
  at_execution_status :: attempt_execution_status
  at_adoption_status :: attempt_adoption_status
  at_verification :: attempt_verification
  at_lifecycle_status :: attempt_lifecycle_status
  at_strategy_contract :: strategy_contract
  at_strategy_contract_fingerprint :: bytes
  at_resumes_from_attempt_id :: "attempt_id option"
  at_composed_from_attempt_ids :: "attempt_id list"
  at_resume_event_refs :: "string list"
  at_resume_state_assessment :: "resume_state_assessment option"
  at_resume_source_snapshot_id :: "worktree_snapshot_id option"
  at_resume_target_snapshot_id :: "worktree_snapshot_id option"
  at_worktree_transition_refs :: "worktree_transition_id list"
  at_integration_event_refs :: "integration_event_id list"
  at_recovery_bundle_refs :: "recovery_bundle_id list"
  at_recovery_application_refs :: "recovery_application_id list"
  at_work_binding_revision_refs :: "work_binding_revision_id list"
  at_local_outcome_refs :: "string list"
  at_parent_verification_refs :: "string list"
  at_outcome_refs :: "string list"
  at_outcome_state :: attempt_outcome_state
  at_interruption_refs :: "string list"
  at_interruption_reason :: "interruption_reason option"
  at_explicit_abandon_refs :: "string list"
  at_supersede_evidence_refs :: "string list"
  at_failure_signature :: "string option"
  at_source_watermark :: u64

definition attempt_lists_ok :: "attempt \<Rightarrow> bool" where
  "attempt_lists_ok a \<longleftrightarrow>
    ordered_ids (at_worktree_instance_ids a)
    \<and> ordered_ids (at_execution_lane_ids a)
    \<and> ordered_ids (at_competing_group_ids a)
    \<and> ordered_ids (at_composed_from_attempt_ids a)
    \<and> ordered_ids (at_worktree_transition_refs a)
    \<and> ordered_ids (at_integration_event_refs a)
    \<and> ordered_ids (at_work_binding_revision_refs a)
    \<and> bounded_strings (at_resume_event_refs a)
    \<and> bounded_strings (at_local_outcome_refs a)
    \<and> bounded_strings (at_parent_verification_refs a)
    \<and> bounded_strings (at_outcome_refs a)
    \<and> bounded_strings (at_interruption_refs a)
    \<and> bounded_strings (at_explicit_abandon_refs a)
    \<and> bounded_strings (at_supersede_evidence_refs a)"

definition attempt_resume_shape :: "attempt \<Rightarrow> bool" where
  "attempt_resume_shape a = (case at_resume_state_assessment a of
      None \<Rightarrow>
        at_resumes_from_attempt_id a = None \<and> at_resume_event_refs a = []
        \<and> at_resume_source_snapshot_id a = None \<and> at_resume_target_snapshot_id a = None
    | Some ResumeCompatibleSameInstance \<Rightarrow>
        at_resumes_from_attempt_id a = None \<and> at_resume_event_refs a \<noteq> []
        \<and> is_some (at_resume_target_snapshot_id a)
    | Some ResumeCompatibleLineageTransfer \<Rightarrow>
        at_resumes_from_attempt_id a = None \<and> at_resume_event_refs a \<noteq> []
        \<and> is_some (at_resume_source_snapshot_id a) \<and> is_some (at_resume_target_snapshot_id a)
        \<and> at_worktree_transition_refs a \<noteq> []
    | Some _ \<Rightarrow> is_some (at_resumes_from_attempt_id a) \<and> at_resume_event_refs a \<noteq> [])"

definition attempt_outcome_shape :: "attempt \<Rightarrow> bool" where
  "attempt_outcome_shape a = (case at_outcome_state a of
      OutcomeKnown \<Rightarrow> at_local_outcome_refs a \<noteq> [] \<or> at_outcome_refs a \<noteq> []
    | OutcomeUnknown \<Rightarrow> at_outcome_refs a = [])"

definition attempt_validate :: "(bytes \<Rightarrow> bytes) \<Rightarrow> attempt \<Rightarrow> (work_error, unit) result" where
  "attempt_validate sha256_digest a =
    and_then (strategy_contract_validate (at_strategy_contract a)) (\<lambda>_.
    and_then (strategy_contract_fingerprint sha256_digest (at_strategy_contract a)) (\<lambda>fingerprint.
    if at_revision_generation a = 0
       \<or> at_source_watermark a = 0
       \<or> (at_revision_generation a = 1) \<noteq> (at_predecessor_revision_id a = None)
       \<or> (at_revision_generation a = 1 \<and> is_some (at_episode_id a))
       \<or> at_experiment_run_ids a \<noteq> []
       \<or> at_recovery_bundle_refs a \<noteq> []
       \<or> at_recovery_application_refs a \<noteq> []
       \<or> at_strategy_contract_fingerprint a \<noteq> fingerprint
       \<or> \<not> attempt_lists_ok a
       \<or> at_resumes_from_attempt_id a = Some (at_attempt_id a)
       \<or> at_attempt_id a \<in> set (at_composed_from_attempt_ids a)
       \<or> (at_composed_from_attempt_ids a \<noteq> [] \<and> length (at_composed_from_attempt_ids a) < 2)
       \<or> \<not> attempt_resume_shape a
       \<or> (at_execution_status a \<in> {ExecActive, ExecInterrupted, ExecCompleted}
           \<and> at_execution_lane_ids a = [])
       \<or> \<not> attempt_outcome_shape a
       \<or> (at_execution_status a = ExecInterrupted
           \<and> (at_execution_lane_ids a = []
             \<or> at_outcome_state a \<noteq> OutcomeUnknown
             \<or> at_outcome_refs a \<noteq> []
             \<or> at_interruption_refs a = []
             \<or> at_interruption_reason a = None
             \<or> at_verification a \<notin> {VerificationUnverified, VerificationInconclusive}))
       \<or> (at_execution_status a = ExecAbandoned) \<noteq> (at_explicit_abandon_refs a \<noteq> [])
       \<or> (at_verification a \<in> {VerificationPassed, VerificationFailed})
           \<noteq> (at_parent_verification_refs a \<noteq> [])
       \<or> (at_adoption_status a \<in> {AdoptionPartiallyIntegrated, AdoptionIntegrated})
           \<noteq> (at_integration_event_refs a \<noteq> [])
       \<or> (at_lifecycle_status a = AttemptSuperseded) \<noteq> (at_supersede_evidence_refs a \<noteq> [])
       \<or> is_some_and (\<lambda>v. \<not> bounded_text v) (at_failure_signature a)
    then Err InvalidWorkIdentity else Ok ()))"

definition attempt_execution_ok :: "attempt_execution_status \<Rightarrow> attempt_execution_status \<Rightarrow> bool" where
  "attempt_execution_ok old new \<longleftrightarrow> old = new
    \<or> (old, new) \<in> {(ExecProposed, ExecActive), (ExecProposed, ExecAbandoned),
        (ExecActive, ExecInterrupted), (ExecActive, ExecCompleted), (ExecActive, ExecAbandoned),
        (ExecInterrupted, ExecActive), (ExecInterrupted, ExecCompleted),
        (ExecInterrupted, ExecAbandoned)}"

definition attempt_adoption_ok :: "attempt_adoption_status \<Rightarrow> attempt_adoption_status \<Rightarrow> bool" where
  "attempt_adoption_ok old new \<longleftrightarrow> old = new
    \<or> (old, new) \<in> {(AdoptionNone, AdoptionCandidate), (AdoptionNone, AdoptionSelected),
        (AdoptionNone, AdoptionRejected), (AdoptionCandidate, AdoptionSelected),
        (AdoptionCandidate, AdoptionRejected), (AdoptionSelected, AdoptionPartiallyIntegrated),
        (AdoptionSelected, AdoptionIntegrated), (AdoptionSelected, AdoptionRejected),
        (AdoptionPartiallyIntegrated, AdoptionIntegrated),
        (AdoptionPartiallyIntegrated, AdoptionRejected)}"

definition attempt_verification_ok :: "attempt_verification \<Rightarrow> attempt_verification \<Rightarrow> bool" where
  "attempt_verification_ok old new \<longleftrightarrow> old = new
    \<or> (old, new) \<in> {(VerificationUnverified, VerificationInconclusive),
        (VerificationUnverified, VerificationPassed), (VerificationUnverified, VerificationFailed),
        (VerificationInconclusive, VerificationPassed), (VerificationInconclusive, VerificationFailed)}"

definition attempt_reopening :: "attempt \<Rightarrow> attempt \<Rightarrow> bool" where
  "attempt_reopening a successor \<longleftrightarrow>
    at_execution_status a = ExecInterrupted \<and> at_execution_status successor = ExecActive"

definition attempt_resume_ok :: "attempt \<Rightarrow> attempt \<Rightarrow> bool" where
  "attempt_resume_ok a successor \<longleftrightarrow> \<not> attempt_reopening a successor
    \<or> ((\<exists>i \<in> set (at_execution_lane_ids successor). i \<notin> set (at_execution_lane_ids a))
      \<and> (\<exists>v \<in> set (at_resume_event_refs successor). v \<notin> set (at_resume_event_refs a))
      \<and> is_some (at_resume_target_snapshot_id successor)
      \<and> at_resume_state_assessment successor
          \<in> {Some ResumeCompatibleSameInstance, Some ResumeCompatibleLineageTransfer})"

definition attempt_worktree_growth_ok :: "attempt \<Rightarrow> attempt \<Rightarrow> bool" where
  "attempt_worktree_growth_ok a successor \<longleftrightarrow>
    (\<forall>i \<in> set (at_worktree_instance_ids a). i \<in> set (at_worktree_instance_ids successor))
    \<and> (at_worktree_instance_ids a = at_worktree_instance_ids successor \<or> attempt_reopening a successor)"

definition attempt_retains :: "attempt \<Rightarrow> attempt \<Rightarrow> bool" where
  "attempt_retains a s \<longleftrightarrow>
    retains (at_execution_lane_ids a) (at_execution_lane_ids s)
    \<and> retains (at_competing_group_ids a) (at_competing_group_ids s)
    \<and> retains (at_worktree_transition_refs a) (at_worktree_transition_refs s)
    \<and> retains (at_integration_event_refs a) (at_integration_event_refs s)
    \<and> retains (at_work_binding_revision_refs a) (at_work_binding_revision_refs s)
    \<and> retains (at_resume_event_refs a) (at_resume_event_refs s)
    \<and> retains (at_local_outcome_refs a) (at_local_outcome_refs s)
    \<and> retains (at_parent_verification_refs a) (at_parent_verification_refs s)
    \<and> retains (at_outcome_refs a) (at_outcome_refs s)
    \<and> retains (at_interruption_refs a) (at_interruption_refs s)
    \<and> retains (at_explicit_abandon_refs a) (at_explicit_abandon_refs s)
    \<and> retains (at_supersede_evidence_refs a) (at_supersede_evidence_refs s)"

definition attempt_validate_successor ::
  "(bytes \<Rightarrow> bytes) \<Rightarrow> attempt \<Rightarrow> attempt \<Rightarrow> (work_error, unit) result" where
  "attempt_validate_successor sha256_digest a s =
    and_then (attempt_validate sha256_digest a) (\<lambda>_.
    and_then (attempt_validate sha256_digest s) (\<lambda>_.
    and_then (ok_or InvalidWorkIdentity (checked_add (at_revision_generation a) 1)) (\<lambda>next_generation.
    if at_attempt_id s \<noteq> at_attempt_id a
       \<or> at_revision_generation s \<noteq> next_generation
       \<or> at_predecessor_revision_id s \<noteq> Some (at_revision_id a)
       \<or> at_revision_id s = at_revision_id a
       \<or> at_task_id s \<noteq> at_task_id a
       \<or> at_workstream_id s \<noteq> at_workstream_id a
       \<or> (is_some (at_episode_id a) \<and> at_episode_id s = None)
       \<or> is_some_and (\<lambda>old. is_some_and (\<lambda>new. old \<noteq> new) (at_episode_id s)) (at_episode_id a)
       \<or> at_repository_instance_id s \<noteq> at_repository_instance_id a
       \<or> at_strategy_contract s \<noteq> at_strategy_contract a
       \<or> at_strategy_contract_fingerprint s \<noteq> at_strategy_contract_fingerprint a
       \<or> at_resumes_from_attempt_id s \<noteq> at_resumes_from_attempt_id a
       \<or> at_composed_from_attempt_ids s \<noteq> at_composed_from_attempt_ids a
       \<or> at_source_watermark s \<le> at_source_watermark a
       \<or> \<not> attempt_worktree_growth_ok a s
       \<or> \<not> attempt_retains a s
       \<or> \<not> attempt_execution_ok (at_execution_status a) (at_execution_status s)
       \<or> \<not> attempt_adoption_ok (at_adoption_status a) (at_adoption_status s)
       \<or> \<not> attempt_verification_ok (at_verification a) (at_verification s)
       \<or> \<not> (at_lifecycle_status a = at_lifecycle_status s
            \<or> (at_lifecycle_status a = AttemptActive \<and> at_lifecycle_status s = AttemptSuperseded))
       \<or> \<not> attempt_resume_ok a s
    then Err InvalidWorkIdentity else Ok ())))"

datatype competing_conflict_kind = ConflictOverlappingChange | ConflictAlternativeStrategy
  | ConflictIncompatibleResult | ConflictSharedStateRace

datatype competing_resolution_status = ResolutionOpen | ResolutionSelected
  | ResolutionPartiallyIntegrated | ResolutionRejectedAll | ResolutionUnresolved

datatype candidate_snapshot_ref = CandidateSnapshotRef
  (csr_attempt_id: attempt_id) (csr_workstream_id: workstream_id) (csr_snapshot_id: worktree_snapshot_id)

text \<open>The derived order compares the fields from left to right.\<close>

definition candidate_snapshot_key :: "candidate_snapshot_ref \<Rightarrow> uuid \<times> uuid \<times> uuid" where
  "candidate_snapshot_key r = (csr_attempt_id r, csr_workstream_id r, csr_snapshot_id r)"

lemma candidate_snapshot_key_eq: "candidate_snapshot_key x = candidate_snapshot_key y \<Longrightarrow> x = y"
  by (cases x; cases y) (simp add: candidate_snapshot_key_def)

instantiation candidate_snapshot_ref :: linorder
begin


definition less_eq_candidate_snapshot_ref :: "candidate_snapshot_ref \<Rightarrow> candidate_snapshot_ref \<Rightarrow> bool" where
  "less_eq_candidate_snapshot_ref a b \<longleftrightarrow> candidate_snapshot_key a \<le> candidate_snapshot_key b"

definition less_candidate_snapshot_ref :: "candidate_snapshot_ref \<Rightarrow> candidate_snapshot_ref \<Rightarrow> bool" where
  "less_candidate_snapshot_ref a b \<longleftrightarrow> candidate_snapshot_key a < candidate_snapshot_key b"

instance
proof
  fix x y :: candidate_snapshot_ref
  show "x \<le> y \<Longrightarrow> y \<le> x \<Longrightarrow> x = y"
    by (rule candidate_snapshot_key_eq) (simp add: less_eq_candidate_snapshot_ref_def)
qed (auto simp: less_eq_candidate_snapshot_ref_def less_candidate_snapshot_ref_def)

end

record competing_attempt_group =
  cg_competing_group_id :: competing_attempt_group_id
  cg_revision_id :: revision_id
  cg_predecessor_revision_id :: "revision_id option"
  cg_revision_generation :: u64
  cg_task_id :: task_id
  cg_decision_boundary_ref :: string
  cg_comparison_contract_ref :: "string option"
  cg_origin_workstream_id :: "workstream_id option"
  cg_origin_episode_id :: "work_episode_id option"
  cg_member_workstream_ids :: "workstream_id list"
  cg_member_attempt_ids :: "attempt_id list"
  cg_candidate_snapshot_refs :: "candidate_snapshot_ref list"
  cg_target_refs :: "string list"
  cg_conflict_kind :: competing_conflict_kind
  cg_resolution_status :: competing_resolution_status
  cg_selected_attempt_id :: "attempt_id option"
  cg_partially_integrated_attempt_ids :: "attempt_id list"
  cg_resolution_evidence_refs :: "string list"
  cg_source_watermark :: u64

definition competing_group_closed :: "competing_attempt_group \<Rightarrow> bool" where
  "competing_group_closed g =
    (if cg_resolution_status g \<in> {ResolutionOpen, ResolutionUnresolved, ResolutionRejectedAll} then
       cg_selected_attempt_id g = None
       \<and> cg_partially_integrated_attempt_ids g = []
       \<and> (cg_resolution_status g = ResolutionOpen) = (cg_resolution_evidence_refs g = [])
     else if cg_resolution_status g = ResolutionSelected then
       is_some (cg_selected_attempt_id g)
       \<and> cg_partially_integrated_attempt_ids g = []
       \<and> cg_resolution_evidence_refs g \<noteq> []
     else
       cg_selected_attempt_id g = None
       \<and> cg_partially_integrated_attempt_ids g \<noteq> []
       \<and> cg_resolution_evidence_refs g \<noteq> [])"

definition competing_attempt_group_validate :: "competing_attempt_group \<Rightarrow> (work_error, unit) result" where
  "competing_attempt_group_validate g =
    (if cg_revision_generation g = 0
        \<or> cg_source_watermark g = 0
        \<or> (cg_revision_generation g = 1) \<noteq> (cg_predecessor_revision_id g = None)
        \<or> \<not> bounded_text (cg_decision_boundary_ref g)
        \<or> is_some_and (\<lambda>v. \<not> bounded_text v) (cg_comparison_contract_ref g)
        \<or> is_some (cg_origin_episode_id g)
        \<or> length (cg_member_attempt_ids g) < 2
        \<or> length (cg_member_attempt_ids g) > MAX_REFS
        \<or> \<not> strictly_ordered_unique (cg_member_attempt_ids g)
        \<or> length (cg_member_workstream_ids g) > MAX_REFS
        \<or> \<not> strictly_ordered_unique (cg_member_workstream_ids g)
        \<or> length (cg_candidate_snapshot_refs g) > MAX_REFS
        \<or> \<not> strictly_ordered_unique (cg_candidate_snapshot_refs g)
        \<or> \<not> bounded_strings (cg_target_refs g)
        \<or> \<not> bounded_strings (cg_resolution_evidence_refs g)
        \<or> \<not> strictly_ordered_unique (cg_partially_integrated_attempt_ids g)
        \<or> (\<exists>i \<in> set (cg_partially_integrated_attempt_ids g). i \<notin> set (cg_member_attempt_ids g))
        \<or> is_some_and (\<lambda>i. i \<notin> set (cg_member_attempt_ids g)) (cg_selected_attempt_id g)
        \<or> \<not> competing_group_closed g
     then Err InvalidWorkIdentity else Ok ())"

definition competing_group_transition_ok :: "competing_attempt_group \<Rightarrow> competing_attempt_group \<Rightarrow> bool" where
  "competing_group_transition_ok g s \<longleftrightarrow>
    (cg_resolution_status g \<in> {ResolutionOpen, ResolutionUnresolved}
      \<and> cg_resolution_status s \<in> {ResolutionUnresolved, ResolutionPartiallyIntegrated,
            ResolutionSelected, ResolutionRejectedAll})
    \<or> (cg_resolution_status g = ResolutionPartiallyIntegrated
      \<and> cg_resolution_status s \<in> {ResolutionPartiallyIntegrated, ResolutionSelected,
            ResolutionRejectedAll})"

definition competing_group_partial_progress :: "competing_attempt_group \<Rightarrow> competing_attempt_group \<Rightarrow> bool" where
  "competing_group_partial_progress g s \<longleftrightarrow>
    cg_resolution_status g \<noteq> ResolutionPartiallyIntegrated
    \<or> cg_resolution_status s \<noteq> ResolutionPartiallyIntegrated
    \<or> ((\<forall>i \<in> set (cg_partially_integrated_attempt_ids g). i \<in> set (cg_partially_integrated_attempt_ids s))
      \<and> (length (cg_partially_integrated_attempt_ids s) > length (cg_partially_integrated_attempt_ids g)
        \<or> length (cg_resolution_evidence_refs s) > length (cg_resolution_evidence_refs g)))"

definition competing_attempt_group_validate_successor ::
  "competing_attempt_group \<Rightarrow> competing_attempt_group \<Rightarrow> (work_error, unit) result" where
  "competing_attempt_group_validate_successor g s =
    and_then (competing_attempt_group_validate g) (\<lambda>_.
    and_then (competing_attempt_group_validate s) (\<lambda>_.
    and_then (ok_or InvalidWorkIdentity (checked_add (cg_revision_generation g) 1)) (\<lambda>generation.
    if cg_competing_group_id s \<noteq> cg_competing_group_id g
       \<or> cg_revision_generation s \<noteq> generation
       \<or> cg_predecessor_revision_id s \<noteq> Some (cg_revision_id g)
       \<or> cg_revision_id s = cg_revision_id g
       \<or> cg_task_id s \<noteq> cg_task_id g
       \<or> cg_decision_boundary_ref s \<noteq> cg_decision_boundary_ref g
       \<or> cg_comparison_contract_ref s \<noteq> cg_comparison_contract_ref g
       \<or> cg_origin_workstream_id s \<noteq> cg_origin_workstream_id g
       \<or> cg_origin_episode_id s \<noteq> cg_origin_episode_id g
       \<or> cg_member_workstream_ids s \<noteq> cg_member_workstream_ids g
       \<or> cg_member_attempt_ids s \<noteq> cg_member_attempt_ids g
       \<or> cg_candidate_snapshot_refs s \<noteq> cg_candidate_snapshot_refs g
       \<or> cg_target_refs s \<noteq> cg_target_refs g
       \<or> cg_conflict_kind s \<noteq> cg_conflict_kind g
       \<or> cg_source_watermark s \<le> cg_source_watermark g
       \<or> (\<exists>v \<in> set (cg_resolution_evidence_refs g). v \<notin> set (cg_resolution_evidence_refs s))
       \<or> \<not> competing_group_transition_ok g s
       \<or> \<not> competing_group_partial_progress g s
    then Err InvalidWorkIdentity else Ok ())))"

section \<open>Strategy fingerprints\<close>

lemma canonical_form_strategy:
  "canonical_form (strategy_contract_value c) = strategy_contract_value c"
proof -
  have "canonical_form (canonical_opt v) = canonical_opt v" for v
    by (simp add: canonical_opt_def split: option.split)
  moreover have "canonical_form (canonical_strings vs) = canonical_strings vs" for vs
    by (simp add: canonical_strings_def)
  ultimately show ?thesis
    by (simp add: strategy_contract_value_def)
qed

lemma canonical_opt_inject: "canonical_opt v = canonical_opt w \<Longrightarrow> v = w"
  by (auto simp: canonical_opt_def split: option.splits)

lemma canonical_strings_inject: "canonical_strings v = canonical_strings w \<Longrightarrow> v = w"
  by (auto simp: canonical_strings_def dest: map_injective intro: injI)

lemma strategy_contract_value_inject:
  "strategy_contract_value c = strategy_contract_value d \<Longrightarrow> c = d"
  by (cases c; cases d)
    (auto simp: strategy_contract_value_def dest: canonical_opt_inject canonical_strings_inject)

lemma strategy_encodable:
  assumes "strategy_contract_validate c = Ok ()"
  shows "encodable (strategy_contract_value c)"
proof -
  have "length s < 2 ^ 64" if "bounded_text s" for s
    using that by (simp add: bounded_text_def MAX_TEXT_def)
  moreover have "length ss < 2 ^ 64 \<and> (\<forall>s \<in> set ss. length s < 2 ^ 64)" if "bounded_strings ss" for ss
    using that by (auto simp: bounded_strings_def bounded_text_def MAX_REFS_def MAX_TEXT_def)
  ultimately show ?thesis using assms
    by (auto simp: strategy_contract_validate_def strategy_contract_value_def canonical_opt_def
        canonical_strings_def split: if_splits option.splits)
qed

definition strategy_preimage :: "strategy_contract \<Rightarrow> (canonical_error, bytes) result" where
  "strategy_preimage c =
    encode STRATEGY_FINGERPRINT_TAG STRATEGY_FINGERPRINT_VERSION (strategy_contract_value c)"

lemma strategy_encodes:
  assumes "strategy_contract_validate c = Ok ()"
  shows "\<exists>x. strategy_preimage c = Ok x"
proof -
  obtain b where "encode_value (strategy_contract_value c) = Inr b"
    using encode_ok_iff_encodable(1) strategy_encodable [OF assms] by blast
  then show ?thesis
    by (simp add: strategy_preimage_def encode_def STRATEGY_FINGERPRINT_TAG_def push_len_def)
qed

lemma strategy_fingerprint_eq:
  assumes "strategy_contract_validate c = Ok ()" and "strategy_preimage c = Ok x"
  shows "strategy_contract_fingerprint H c = Ok (H x)"
  using assms by (simp add: strategy_contract_fingerprint_def canonical_sha256_def strategy_preimage_def)

lemma strategy_fingerprint_defined:
  assumes "strategy_contract_validate c = Ok ()"
  shows "\<exists>x. strategy_contract_fingerprint H c = Ok (H x)"
  using strategy_encodes [OF assms] strategy_fingerprint_eq [OF assms] by blast

text \<open>
  A strategy fingerprint is defined for every valid contract, and is the hash of
  bytes that determine the contract: whenever two contracts with the same fingerprint
  differ, two different byte strings with the same hash have been found.
\<close>

theorem strategy_fingerprint_identifies:
  assumes "strategy_contract_validate c = Ok ()" and "strategy_contract_validate d = Ok ()"
  shows "\<exists>x y. strategy_contract_fingerprint sha256_digest c = Ok (sha256_digest x)
    \<and> strategy_contract_fingerprint sha256_digest d = Ok (sha256_digest y) \<and> (x = y \<longleftrightarrow> c = d)"
proof -
  obtain x y where x: "strategy_preimage c = Ok x" and y: "strategy_preimage d = Ok y"
    using strategy_encodes [OF assms(1)] strategy_encodes [OF assms(2)] by blast
  have "c = d" if "x = y"
    using encode_inject [OF x [unfolded strategy_preimage_def] y [unfolded strategy_preimage_def that [symmetric]]]
    by (simp add: canonical_form_strategy strategy_contract_value_inject)
  then have "x = y \<longleftrightarrow> c = d" using x y by auto
  then show ?thesis
    using strategy_fingerprint_eq [OF assms(1) x] strategy_fingerprint_eq [OF assms(2) y] by blast
qed

section \<open>Attempt histories\<close>

definition attempt_identity :: "attempt \<Rightarrow> _" where
  "attempt_identity a = (at_attempt_id a, at_task_id a, at_workstream_id a,
    at_repository_instance_id a, at_strategy_contract a, at_strategy_contract_fingerprint a,
    at_resumes_from_attempt_id a, at_composed_from_attempt_ids a)"

text \<open>
  The order in which attempts advance. \<open>ExecActive\<close> and \<open>ExecInterrupted\<close> may
  alternate; the end states, a verdict and a final adoption decision are for good.
\<close>

definition attempt_advances :: "attempt \<Rightarrow> attempt \<Rightarrow> bool" where
  "attempt_advances a b \<longleftrightarrow>
    at_source_watermark a \<le> at_source_watermark b
    \<and> keeps_in {ExecCompleted, ExecAbandoned} (at_execution_status a) (at_execution_status b)
    \<and> stays_in (- {ExecProposed}) (at_execution_status a) (at_execution_status b)
    \<and> keeps_in {VerificationPassed, VerificationFailed} (at_verification a) (at_verification b)
    \<and> keeps_in {AdoptionIntegrated, AdoptionRejected} (at_adoption_status a) (at_adoption_status b)
    \<and> stays_in {AdoptionPartiallyIntegrated, AdoptionIntegrated} (at_adoption_status a)
        (at_adoption_status b)
    \<and> keeps_in {AttemptSuperseded} (at_lifecycle_status a) (at_lifecycle_status b)
    \<and> keeps_in (- {None}) (at_episode_id a) (at_episode_id b)
    \<and> retains (at_worktree_instance_ids a) (at_worktree_instance_ids b)
    \<and> attempt_retains a b"

lemma attempt_retains_refl: "attempt_retains a a"
  by (simp add: attempt_retains_def)

lemma attempt_retains_trans: "attempt_retains a b \<Longrightarrow> attempt_retains b c \<Longrightarrow> attempt_retains a c"
  unfolding attempt_retains_def by (elim conjE, intro conjI) (erule (1) retains_trans)+

lemma attempt_advances_refl: "attempt_advances a a"
  by (simp add: attempt_advances_def attempt_retains_refl)

lemma attempt_advances_trans: "attempt_advances a b \<Longrightarrow> attempt_advances b c \<Longrightarrow> attempt_advances a c"
  unfolding attempt_advances_def
  by (elim conjE, intro conjI)
    (erule (1) order_trans keeps_in_trans stays_in_trans retains_trans attempt_retains_trans)+

lemma attempt_successor_facts:
  assumes "attempt_validate_successor H a b = Ok ()"
  shows "attempt_identity b = attempt_identity a"
    and "checked_add (at_revision_generation a) 1 = Some (at_revision_generation b)"
    and "attempt_validate H a = Ok ()" and "attempt_validate H b = Ok ()"
    and "at_source_watermark a < at_source_watermark b"
    and "attempt_worktree_growth_ok a b" and "attempt_retains a b" and "attempt_resume_ok a b"
    and "attempt_execution_ok (at_execution_status a) (at_execution_status b)"
    and "attempt_adoption_ok (at_adoption_status a) (at_adoption_status b)"
    and "attempt_verification_ok (at_verification a) (at_verification b)"
    and "at_lifecycle_status a = AttemptSuperseded \<Longrightarrow> at_lifecycle_status b = AttemptSuperseded"
    and "is_some (at_episode_id a) \<Longrightarrow> at_episode_id b = at_episode_id a"
    and "at_predecessor_revision_id b = Some (at_revision_id a)"
proof -
  obtain g where v: "attempt_validate H a = Ok ()" "attempt_validate H b = Ok ()"
      "checked_add (at_revision_generation a) 1 = Some g"
    using assms by (auto simp: attempt_validate_successor_def result_simps)
  note * = assms [unfolded attempt_validate_successor_def v ok_or_def, simplified]
  show "attempt_validate H a = Ok ()" "attempt_validate H b = Ok ()" by (rule v)+
  show "attempt_identity b = attempt_identity a"
    using * by (simp add: attempt_identity_def split: if_splits)
  show "checked_add (at_revision_generation a) 1 = Some (at_revision_generation b)"
    using * v(3) by (simp split: if_splits)
  show "at_source_watermark a < at_source_watermark b" using * by (simp add: not_le split: if_splits)
  show "attempt_worktree_growth_ok a b" "attempt_retains a b" "attempt_resume_ok a b"
    "attempt_execution_ok (at_execution_status a) (at_execution_status b)"
    "attempt_adoption_ok (at_adoption_status a) (at_adoption_status b)"
    "attempt_verification_ok (at_verification a) (at_verification b)"
    "at_predecessor_revision_id b = Some (at_revision_id a)"
    using * by (simp_all split: if_splits)
  show "at_lifecycle_status b = AttemptSuperseded" if "at_lifecycle_status a = AttemptSuperseded"
    using * that by (auto split: if_splits)
  show "at_episode_id b = at_episode_id a" if "is_some (at_episode_id a)"
    using * that by (auto split: if_splits)
qed

text \<open>
  The transition table lets a partially integrated attempt be rejected, but the
  integration events it must retain are refused for a rejected attempt.
\<close>

lemma partially_integrated_stays:
  assumes "attempt_validate_successor H a b = Ok ()"
    and "at_adoption_status a \<in> {AdoptionPartiallyIntegrated, AdoptionIntegrated}"
  shows "at_adoption_status b \<in> {AdoptionPartiallyIntegrated, AdoptionIntegrated}"
proof -
  have "at_integration_event_refs a \<noteq> []"
    using attempt_successor_facts(3) [OF assms(1)] assms(2)
    by (auto simp: attempt_validate_def result_simps split: if_splits)
  then have "at_integration_event_refs b \<noteq> []"
    using attempt_successor_facts(7) [OF assms(1)] by (auto simp: attempt_retains_def retains_def)
  then show ?thesis
    using attempt_successor_facts(4) [OF assms(1)]
    by (auto simp: attempt_validate_def result_simps split: if_splits)
qed

lemma attempt_successor_advances:
  assumes "attempt_validate_successor H a b = Ok ()"
  shows "attempt_advances a b"
  unfolding attempt_advances_def
proof (intro conjI)
  note f = attempt_successor_facts [OF assms]
  show "at_source_watermark a \<le> at_source_watermark b" using f(5) by simp
  show "keeps_in {ExecCompleted, ExecAbandoned} (at_execution_status a) (at_execution_status b)"
    and "stays_in (- {ExecProposed}) (at_execution_status a) (at_execution_status b)"
    using f(9) by (auto simp: keeps_in_def stays_in_def attempt_execution_ok_def)
  show "keeps_in {VerificationPassed, VerificationFailed} (at_verification a) (at_verification b)"
    using f(11) by (auto simp: keeps_in_def attempt_verification_ok_def)
  show "keeps_in {AdoptionIntegrated, AdoptionRejected} (at_adoption_status a) (at_adoption_status b)"
    using f(10) by (auto simp: keeps_in_def attempt_adoption_ok_def)
  show "stays_in {AdoptionPartiallyIntegrated, AdoptionIntegrated} (at_adoption_status a)
      (at_adoption_status b)"
    unfolding stays_in_def using partially_integrated_stays [OF assms] by blast
  show "keeps_in {AttemptSuperseded} (at_lifecycle_status a) (at_lifecycle_status b)"
    using f(12) by (simp add: keeps_in_def)
  show "keeps_in (- {None}) (at_episode_id a) (at_episode_id b)"
    using f(13) by (simp add: keeps_in_def)
  show "retains (at_worktree_instance_ids a) (at_worktree_instance_ids b)"
    using f(6) by (simp add: attempt_worktree_growth_ok_def retains_def)
  show "attempt_retains a b" by (rule f(7))
qed

interpretation attempts: absorbing_chain
  "\<lambda>a b. attempt_validate_successor H a b = Ok ()" attempt_identity
  "\<lambda>a. unat (at_revision_generation a)" "\<lambda>a. attempt_validate H a = Ok ()"
  "attempt_advances a" for H a
  using checked_add_SomeD [OF attempt_successor_facts(2)]
  by unfold_locales
    (auto intro: attempt_successor_facts attempt_successor_advances attempt_advances_trans)

text \<open>
  An attempt only advances: along any accepted sequence of revisions its identity,
  owner, strategy contract and fingerprint, and the attempts it resumes or is composed
  of are fixed; revisions are numbered without gaps; completion and abandonment, a
  passed or failed verdict, integration and rejection, supersession and the owning
  episode are final; an attempt with integrated work stays integrated; and no lane,
  worktree, transition, event or evidence reference is dropped.
\<close>

theorem attempt_history_advances:
  assumes "windows_all (\<lambda>a b. attempt_validate_successor sha256_digest a b = Ok ()) (a # as)"
    and "i \<le> j" and "j < length (a # as)"
  shows "attempt_identity ((a # as) ! j) = attempt_identity a
    \<and> unat (at_revision_generation ((a # as) ! j)) = unat (at_revision_generation a) + j
    \<and> attempt_advances ((a # as) ! i) ((a # as) ! j)"
  using attempts.history_ident [OF assms(1) nth_mem [OF assms(3)]]
    attempts.history_gen [OF assms(1,3)]
    attempts.history_absorbed [OF assms attempt_advances_refl]
  by simp

text \<open>
  An interrupted attempt is taken up again only with a new lane, new resume
  evidence, a target snapshot and a compatible assessment of its state; worktrees are
  added to an attempt at no other time.
\<close>

theorem attempt_resume_needs_evidence:
  assumes "attempt_validate_successor sha256_digest a b = Ok ()"
  shows "(at_execution_status a = ExecInterrupted \<and> at_execution_status b = ExecActive \<longrightarrow>
      set (at_execution_lane_ids a) \<subset> set (at_execution_lane_ids b)
      \<and> set (at_resume_event_refs a) \<subset> set (at_resume_event_refs b)
      \<and> is_some (at_resume_target_snapshot_id b)
      \<and> at_resumes_from_attempt_id b = None
      \<and> at_resume_state_assessment b
          \<in> {Some ResumeCompatibleSameInstance, Some ResumeCompatibleLineageTransfer})
    \<and> (at_worktree_instance_ids b \<noteq> at_worktree_instance_ids a \<longrightarrow>
        at_execution_status a = ExecInterrupted \<and> at_execution_status b = ExecActive)"
proof -
  have "attempt_resume_shape b"
    using attempt_successor_facts(4) [OF assms]
    by (auto simp: attempt_validate_def result_simps split: if_splits)
  then show ?thesis
    using attempt_successor_facts(6,7,8) [OF assms]
    by (auto simp: attempt_resume_ok_def attempt_reopening_def attempt_worktree_growth_ok_def
        attempt_retains_def retains_def attempt_resume_shape_def)
qed

section \<open>Competing groups\<close>

definition group_identity :: "competing_attempt_group \<Rightarrow> _" where
  "group_identity g = (cg_competing_group_id g, cg_task_id g, cg_decision_boundary_ref g,
    cg_comparison_contract_ref g, cg_member_attempt_ids g, cg_candidate_snapshot_refs g,
    cg_target_refs g, cg_conflict_kind g)"

lemma group_successor_facts:
  assumes "competing_attempt_group_validate_successor g s = Ok ()"
  shows "group_identity s = group_identity g"
    and "checked_add (cg_revision_generation g) 1 = Some (cg_revision_generation s)"
    and "competing_attempt_group_validate g = Ok ()" and "competing_attempt_group_validate s = Ok ()"
    and "competing_group_transition_ok g s" and "cg_source_watermark g < cg_source_watermark s"
    and "retains (cg_resolution_evidence_refs g) (cg_resolution_evidence_refs s)"
proof -
  obtain n where v: "competing_attempt_group_validate g = Ok ()"
      "competing_attempt_group_validate s = Ok ()"
      "checked_add (cg_revision_generation g) 1 = Some n"
    using assms by (auto simp: competing_attempt_group_validate_successor_def result_simps)
  note * = assms [unfolded competing_attempt_group_validate_successor_def v ok_or_def, simplified]
  show "competing_attempt_group_validate g = Ok ()" "competing_attempt_group_validate s = Ok ()"
    by (rule v)+
  show "group_identity s = group_identity g"
    "checked_add (cg_revision_generation g) 1 = Some (cg_revision_generation s)"
    "competing_group_transition_ok g s" "cg_source_watermark g < cg_source_watermark s"
    "retains (cg_resolution_evidence_refs g) (cg_resolution_evidence_refs s)"
    using * v(3) by (simp_all add: group_identity_def not_le retains_def split: if_splits)
qed

interpretation groups: absorbing_chain
  "\<lambda>g s. competing_attempt_group_validate_successor g s = Ok ()" group_identity
  "\<lambda>g. unat (cg_revision_generation g)" "\<lambda>g. competing_attempt_group_validate g = Ok ()"
  "\<lambda>g. retains refs (cg_resolution_evidence_refs g)" for refs
  using checked_add_SomeD [OF group_successor_facts(2)]
  by unfold_locales (auto intro: group_successor_facts retains_trans)

lemma group_undecided_before_last:
  assumes "competing_attempt_group_validate_successor g s = Ok ()"
  shows "cg_resolution_status g \<notin> {ResolutionSelected, ResolutionRejectedAll}"
    and "cg_resolution_status s \<noteq> ResolutionOpen"
  using group_successor_facts(5) [OF assms] by (auto simp: competing_group_transition_ok_def)

text \<open>
  A competition is decided once: along any accepted sequence of revisions the rival
  attempts and the decision boundary are fixed and evidence only accumulates; only the
  last revision can be decided (selected or rejected); no revision after the first is
  open; and an attempt is selected exactly in the selected state, when it is one of at
  least two distinct rivals and evidence is recorded.
\<close>

theorem group_decided_once:
  assumes "windows_all (\<lambda>g s. competing_attempt_group_validate_successor g s = Ok ()) (g # gs)"
    and "i < j" and "j < length (g # gs)"
  shows "group_identity ((g # gs) ! j) = group_identity g
    \<and> set (cg_resolution_evidence_refs ((g # gs) ! i)) \<subseteq> set (cg_resolution_evidence_refs ((g # gs) ! j))
    \<and> cg_resolution_status ((g # gs) ! i) \<notin> {ResolutionSelected, ResolutionRejectedAll}
    \<and> cg_resolution_status ((g # gs) ! j) \<noteq> ResolutionOpen
    \<and> (cg_resolution_status ((g # gs) ! j) = ResolutionSelected \<longleftrightarrow>
        is_some (cg_selected_attempt_id ((g # gs) ! j)))
    \<and> (\<forall>w. cg_selected_attempt_id ((g # gs) ! j) = Some w \<longrightarrow>
        w \<in> set (cg_member_attempt_ids g) \<and> 2 \<le> card (set (cg_member_attempt_ids g))
        \<and> cg_resolution_evidence_refs ((g # gs) ! j) \<noteq> [])"
proof -
  let ?x = "(g # gs) ! i" and ?y = "(g # gs) ! j"
  have ident: "group_identity ?y = group_identity g"
    by (rule groups.history_ident [OF assms(1) nth_mem [OF assms(3)]])
  have "retains (cg_resolution_evidence_refs ?x) (cg_resolution_evidence_refs ?y)"
    by (rule groups.history_absorbed [OF assms(1) less_imp_le [OF assms(2)] assms(3) retains_refl])
  moreover have "cg_resolution_status ?x \<notin> {ResolutionSelected, ResolutionRejectedAll}"
    using windows_all_nth [OF assms(1), of i] assms(2,3)
    by (intro group_undecided_before_last(1) [of ?x "(g # gs) ! Suc i"]) simp
  moreover have "cg_resolution_status ?y \<noteq> ResolutionOpen"
    using windows_all_nth [OF assms(1), of "j - 1"] assms(2,3)
    by (intro group_undecided_before_last(2) [of "(g # gs) ! (j - 1)" ?y]) simp
  moreover have "?y \<in> set gs" using assms(2,3) by (cases j) auto
  then have "competing_attempt_group_validate ?y = Ok ()"
    by (rule groups.history_well_formed [OF assms(1)])
  then have sel: "cg_resolution_status ?y = ResolutionSelected \<longleftrightarrow> is_some (cg_selected_attempt_id ?y)"
      "\<forall>w. cg_selected_attempt_id ?y = Some w \<longrightarrow> w \<in> set (cg_member_attempt_ids ?y)
        \<and> cg_resolution_evidence_refs ?y \<noteq> []"
      "2 \<le> length (cg_member_attempt_ids ?y)" "strictly_ordered_unique (cg_member_attempt_ids ?y)"
    by (auto simp: competing_attempt_group_validate_def competing_group_closed_def split: if_splits)
  have "card (set (cg_member_attempt_ids ?y)) = length (cg_member_attempt_ids ?y)"
    using sel(4) by (intro distinct_card) (simp add: strictly_ordered_unique_iff strict_sorted_iff)
  moreover have "cg_member_attempt_ids ?y = cg_member_attempt_ids g"
    using ident by (simp add: group_identity_def)
  ultimately show ?thesis
    using ident sel by (auto simp: retains_subset)
qed

text \<open>
  Once work of an attempt has been integrated, even partially, no successor can
  reject it, although the transition table lists partially integrated to rejected: the
  successor must retain the integration events, which a rejected attempt may not have.
\<close>

theorem integrated_never_rejected:
  assumes "attempt_validate_successor sha256_digest a b = Ok ()"
    and "at_adoption_status a = AdoptionPartiallyIntegrated"
  shows "at_adoption_status b \<noteq> AdoptionRejected
    \<and> attempt_adoption_ok (at_adoption_status a) AdoptionRejected"
  using partially_integrated_stays [OF assms(1)] assms(2) by (auto simp: attempt_adoption_ok_def)

section \<open>Sample histories\<close>

definition sample_strategy :: strategy_contract where
  "sample_strategy = \<lparr>st_hypothesis = ''h'', st_intervention = ''i'', st_intervention_family = ''f'',
    st_search_policy_ref = None, st_objective_ref = None, st_expected_effect = ''e'',
    st_target_refs = [], st_acceptance_boundary_ref = ''b''\<rparr>"

definition sample_attempt :: attempt where
  "sample_attempt = \<lparr>at_attempt_id = 1, at_revision_id = 2, at_predecessor_revision_id = Some 3,
    at_revision_generation = 2, at_task_id = 4, at_workstream_id = 5, at_episode_id = None,
    at_repository_instance_id = None, at_worktree_instance_ids = [],
    at_execution_lane_ids = [6], at_competing_group_ids = [], at_experiment_run_ids = [],
    at_execution_status = ExecInterrupted, at_adoption_status = AdoptionPartiallyIntegrated,
    at_verification = VerificationUnverified, at_lifecycle_status = AttemptActive,
    at_strategy_contract = sample_strategy, at_strategy_contract_fingerprint = replicate 32 0,
    at_resumes_from_attempt_id = None, at_composed_from_attempt_ids = [],
    at_resume_event_refs = [], at_resume_state_assessment = None,
    at_resume_source_snapshot_id = None, at_resume_target_snapshot_id = None,
    at_worktree_transition_refs = [], at_integration_event_refs = [7],
    at_recovery_bundle_refs = [], at_recovery_application_refs = [],
    at_work_binding_revision_refs = [], at_local_outcome_refs = [],
    at_parent_verification_refs = [], at_outcome_refs = [], at_outcome_state = OutcomeUnknown,
    at_interruption_refs = [''crash''], at_interruption_reason = Some InterruptionCrashed,
    at_explicit_abandon_refs = [], at_supersede_evidence_refs = [],
    at_failure_signature = None, at_source_watermark = 5\<rparr>"

definition sample_resumed_attempt :: attempt where
  "sample_resumed_attempt = sample_attempt\<lparr>at_revision_id := 9, at_predecessor_revision_id := Some 2,
    at_revision_generation := 3, at_execution_status := ExecActive, at_execution_lane_ids := [6, 8],
    at_resume_event_refs := [''resume''],
    at_resume_state_assessment := Some ResumeCompatibleSameInstance,
    at_resume_target_snapshot_id := Some 11, at_source_watermark := 6\<rparr>"

abbreviation zero_digest :: "bytes \<Rightarrow> bytes" where
  "zero_digest \<equiv> \<lambda>_. replicate 32 0"

lemma sample_strategy_valid: "strategy_contract_validate sample_strategy = Ok ()"
  by (simp add: strategy_contract_validate_def sample_strategy_def bounded_text_def blank_def MAX_TEXT_def)

lemma sample_fingerprint:
  "strategy_contract_fingerprint zero_digest sample_strategy = Ok (replicate 32 0)"
  using strategy_fingerprint_defined [OF sample_strategy_valid, of zero_digest] by auto

lemmas sample_text = bounded_text_def bounded_strings_def blank_def MAX_TEXT_def MAX_REFS_def

lemma sample_attempts_valid:
  "attempt_validate zero_digest sample_attempt = Ok ()"
  "attempt_validate zero_digest sample_resumed_attempt = Ok ()"
  by (simp_all add: attempt_validate_def sample_attempt_def sample_resumed_attempt_def
      sample_strategy_valid sample_fingerprint attempt_lists_ok_def attempt_resume_shape_def
      attempt_outcome_shape_def sample_text ordered_ids_def strictly_ordered_unique_iff)

lemma sample_attempt_accepted:
  "attempt_validate_successor zero_digest sample_attempt sample_resumed_attempt = Ok ()"
  by (simp add: attempt_validate_successor_def sample_attempts_valid)
    (simp add: sample_attempt_def sample_resumed_attempt_def checked_add_def ok_or_def
      attempt_worktree_growth_ok_def attempt_retains_def retains_def attempt_execution_ok_def
      attempt_adoption_ok_def attempt_verification_ok_def attempt_resume_ok_def)

definition sample_group :: competing_attempt_group where
  "sample_group = \<lparr>cg_competing_group_id = 1, cg_revision_id = 2, cg_predecessor_revision_id = None,
    cg_revision_generation = 1, cg_task_id = 3, cg_decision_boundary_ref = ''d'',
    cg_comparison_contract_ref = None, cg_origin_workstream_id = None,
    cg_origin_episode_id = None, cg_member_workstream_ids = [], cg_member_attempt_ids = [4, 5],
    cg_candidate_snapshot_refs = [], cg_target_refs = [],
    cg_conflict_kind = ConflictAlternativeStrategy, cg_resolution_status = ResolutionOpen,
    cg_selected_attempt_id = None, cg_partially_integrated_attempt_ids = [],
    cg_resolution_evidence_refs = [], cg_source_watermark = 5\<rparr>"

definition sample_decided_group :: competing_attempt_group where
  "sample_decided_group = sample_group\<lparr>cg_revision_id := 9, cg_predecessor_revision_id := Some 2,
    cg_revision_generation := 2, cg_resolution_status := ResolutionSelected,
    cg_selected_attempt_id := Some 5, cg_resolution_evidence_refs := [''review''],
    cg_source_watermark := 6\<rparr>"

lemma sample_group_accepted:
  "competing_attempt_group_validate_successor sample_group sample_decided_group = Ok ()"
  by (simp add: competing_attempt_group_validate_successor_def competing_attempt_group_validate_def
      competing_group_closed_def sample_group_def sample_decided_group_def sample_text
      strictly_ordered_unique_iff checked_add_def ok_or_def competing_group_transition_ok_def
      competing_group_partial_progress_def)

theorem strategy_fingerprint_identifies_witness:
  "\<exists>x y. strategy_contract_fingerprint zero_digest sample_strategy = Ok (zero_digest x)
    \<and> strategy_contract_fingerprint zero_digest sample_strategy = Ok (zero_digest y) \<and> x = y"
  using strategy_fingerprint_identifies [OF sample_strategy_valid sample_strategy_valid, of zero_digest]
  by blast

theorem attempt_history_advances_witness:
  "attempt_identity sample_resumed_attempt = attempt_identity sample_attempt
    \<and> attempt_advances sample_attempt sample_resumed_attempt"
  using attempt_history_advances [of zero_digest sample_attempt "[sample_resumed_attempt]" 0 1]
    sample_attempt_accepted by simp

theorem attempt_resume_needs_evidence_witness:
  "set (at_execution_lane_ids sample_attempt) \<subset> set (at_execution_lane_ids sample_resumed_attempt)"
  using attempt_resume_needs_evidence [OF sample_attempt_accepted]
  by (simp add: sample_attempt_def sample_resumed_attempt_def)

theorem integrated_never_rejected_witness:
  "at_adoption_status sample_resumed_attempt \<noteq> AdoptionRejected"
  using integrated_never_rejected [OF sample_attempt_accepted] by (simp add: sample_attempt_def)

theorem group_decided_once_witness:
  "cg_selected_attempt_id sample_decided_group = Some 5
    \<and> (5 :: uuid) \<in> set (cg_member_attempt_ids sample_group)"
  using group_decided_once [of sample_group "[sample_decided_group]" 0 1] sample_group_accepted
  by (auto simp: sample_decided_group_def)

end
