(* ===== verification/Seg_Token.thy ===== *)
theory Seg_Token
  imports Evidence Episode Attempt
begin

text \<open>
  Compilation of activity tokens: \<open>evertrace-engine/src/segmentation/token.rs\<close>. A token
  is compiled from one operation, the current objects it hangs on (occurrence, binding,
  episode, workstream, lane, receipt, effects, attempt, group) and the facts a caller
  claims about it; it is refused unless all of them agree. The store-owned view
  (\<open>SegmentationCurrentView\<close>) is a record of the lookup maps it offers.
\<close>

datatype detector_error = Ineligible | WatermarkRegression | PendingTransitionError

datatype boundary_evidence = BoundaryEvidenceNone | BoundaryMaterialGoal | BoundaryPhaseTransition
  | BoundaryTargetFamily | BoundaryAcceptanceSatisfied | BoundaryAcceptanceAbandoned
  | BoundaryAcceptanceReplaced | BoundaryExplicitPhaseComplete | BoundaryExplicitPhaseAbandon
  | BoundaryExplicitSupersede | BoundaryObjectiveOutcomeClosure | BoundaryRecoverPhaseExit

definition boundary_evidence_objective :: "boundary_evidence \<Rightarrow> bool" where
  "boundary_evidence_objective b \<longleftrightarrow> b \<noteq> BoundaryEvidenceNone"

record segmentation_facts =
  sf_sequence :: u64
  sf_source_watermark :: u64
  sf_target_family :: string
  sf_state_delta :: operation_state_delta
  sf_error_signature :: "string option"
  sf_verifier_transition :: operation_verifier_delta
  sf_observed_phase_kind :: "phase_kind option"
  sf_boundary_evidence :: boundary_evidence
  sf_evidence_refs :: "source_observation_id list"

record activity_token =
  tok_sequence :: u64
  tok_source_watermark :: u64
  tok_operation_id :: operation_id
  tok_operation_revision :: u32
  tok_host_occurrence_id :: host_occurrence_id
  tok_work_binding_revision_id :: work_binding_revision_id
  tok_primary_binding :: primary_work_binding
  tok_task_id :: task_id
  tok_workstream_id :: workstream_id
  tok_episode_id :: work_episode_id
  tok_attempt_id :: "attempt_id option"
  tok_attempt_revision_id :: "revision_id option"
  tok_experiment_run_id :: "experiment_run_id option"
  tok_competing_group_id :: "competing_attempt_group_id option"
  tok_execution_lane_id :: execution_lane_id
  tok_parent_lane_id :: "execution_lane_id option"
  tok_subagent_id :: "string option"
  tok_operation_kind :: operation_kind
  tok_target_refs :: "string list"
  tok_scope_effect_refs :: "scope_effect_id list"
  tok_worktree_lineage_refs :: "string list"
  tok_artifact_refs :: "work_artifact_id list"
  tok_side_effects :: "effect_role list"
  tok_source_observation_refs :: "source_observation_id list"
  tok_strategy_contract_fingerprint :: "bytes option"
  tok_worktree_transition_refs :: "worktree_transition_id list"
  tok_integration_event_refs :: "integration_event_id list"
  tok_target_family :: string
  tok_state_delta :: operation_state_delta
  tok_error_signature :: "string option"
  tok_verifier_transition :: operation_verifier_delta
  tok_observed_phase_kind :: "phase_kind option"
  tok_boundary_evidence :: boundary_evidence
  tok_boundary_evidence_refs :: "source_observation_id list"
  tok_session_id :: string
  tok_capture_receipt :: capture_receipt

record segmentation_current_view =
  scv_frontier :: u64
  scv_occurrences :: "host_occurrence_id \<Rightarrow> host_occurrence option"
  scv_operations :: "operation_id \<Rightarrow> operation option"
  scv_bindings :: "operation_id \<Rightarrow> work_binding_revision option"
  scv_lanes :: "execution_lane_id \<Rightarrow> execution_lane option"
  scv_receipts :: "capture_receipt_id \<Rightarrow> capture_receipt option"
  scv_scope_effects :: "scope_effect_id \<Rightarrow> scope_effect option"
  scv_attempts :: "attempt_id \<Rightarrow> attempt option"
  scv_groups :: "competing_attempt_group_id \<Rightarrow> competing_attempt_group option"
  scv_episodes :: "work_episode_id \<Rightarrow> work_episode option"
  scv_workstreams :: "workstream_id \<Rightarrow> workstream option"

definition TOKEN_MAX_TEXT :: nat where "TOKEN_MAX_TEXT = 512"

definition token_valid_text :: "string \<Rightarrow> bool" where
  "token_valid_text value \<longleftrightarrow> \<not> blank value \<and> length value \<le> TOKEN_MAX_TEXT"

text \<open>\<open>map.get(..).ok_or(DetectorError::Ineligible)\<close>, on one key, an optional key and a list.\<close>

definition look_up :: "('k \<Rightarrow> 'v option) \<Rightarrow> 'k \<Rightarrow> (detector_error, 'v) result" where
  "look_up m k = ok_or Ineligible (m k)"

definition look_up_opt :: "('k \<Rightarrow> 'v option) \<Rightarrow> 'k option \<Rightarrow> (detector_error, 'v option) result" where
  "look_up_opt m k = (case k of None \<Rightarrow> Ok None | Some i \<Rightarrow> and_then (look_up m i) (\<lambda>v. Ok (Some v)))"

fun look_up_all :: "('k \<Rightarrow> 'v option) \<Rightarrow> 'k list \<Rightarrow> (detector_error, 'v list) result" where
  "look_up_all m [] = Ok []"
| "look_up_all m (k # ks) =
    and_then (look_up m k) (\<lambda>v. and_then (look_up_all m ks) (\<lambda>vs. Ok (v # vs)))"

definition token_attempt_mismatch ::
  "attempt \<Rightarrow> work_episode \<Rightarrow> work_episode_id \<Rightarrow> execution_lane_id
    \<Rightarrow> competing_attempt_group_id option \<Rightarrow> experiment_run_id option \<Rightarrow> bool" where
  "token_attempt_mismatch a episode episode_id lane_id competing_group_id experiment_run_id \<longleftrightarrow>
    at_task_id a \<noteq> ep_task_id episode
    \<or> at_workstream_id a \<noteq> ep_workstream_id episode
    \<or> at_episode_id a \<noteq> Some episode_id
    \<or> at_attempt_id a \<notin> set (ep_attempt_ids episode)
    \<or> lane_id \<notin> set (at_execution_lane_ids a)
    \<or> is_some_and (\<lambda>i. i \<notin> set (at_competing_group_ids a)) competing_group_id
    \<or> is_some_and (\<lambda>i. i \<notin> set (at_experiment_run_ids a)) experiment_run_id
    \<or> (at_competing_group_ids a \<noteq> [] \<and> competing_group_id = None)
    \<or> (at_experiment_run_ids a \<noteq> [] \<and> experiment_run_id = None)"

definition token_admissible :: "operation \<Rightarrow> scope_effect list \<Rightarrow> source_observation_id list" where
  "token_admissible operation effects =
    sort_dedup (opn_input_source_observation_refs operation @ opn_result_source_observation_refs operation
      @ concat (map sef_evidence_refs effects))"

definition token_claims_semantics :: "segmentation_facts \<Rightarrow> bool" where
  "token_claims_semantics facts \<longleftrightarrow>
    sf_boundary_evidence facts \<noteq> BoundaryEvidenceNone
    \<or> sf_verifier_transition facts \<noteq> VerifierNone
    \<or> is_some (sf_observed_phase_kind facts)"

text \<open>The condition under which \<open>compile_checked\<close> refuses, and the token it builds otherwise.\<close>

definition token_ineligible ::
  "operation_id \<Rightarrow> work_episode_id \<Rightarrow> segmentation_facts \<Rightarrow> operation \<Rightarrow> host_occurrence
    \<Rightarrow> work_binding_revision \<Rightarrow> work_episode \<Rightarrow> workstream \<Rightarrow> execution_lane_id \<Rightarrow> execution_lane
    \<Rightarrow> capture_receipt \<Rightarrow> scope_effect list \<Rightarrow> attempt option \<Rightarrow> competing_attempt_group option \<Rightarrow> bool" where
  "token_ineligible operation_id episode_id facts operation occurrence binding episode workstream lane_id lane receipt effects att grp =
    (let competing_group_id = pb_competing_group_id (wb_primary_binding binding);
         experiment_run_id = pb_experiment_run_id (wb_primary_binding binding);
         admissible = token_admissible operation effects;
         evidence_refs = sort_dedup (sf_evidence_refs facts) in
    ho_correlation_strength occurrence \<noteq> StrengthExact
       \<or> ho_normalization_state occurrence = NormalizationConflicted
       \<or> is_some (ho_possible_duplicate_group_id occurrence)
       \<or> opn_execution_lane_id operation \<noteq> Some (el_execution_lane_id lane)
       \<or> operation_id \<notin> set (el_operation_ids lane)
       \<or> wb_operation_id binding \<noteq> operation_id
       \<or> wb_assignment_status binding \<noteq> AssignmentResolved
       \<or> pb_task_id (wb_primary_binding binding) \<noteq> Some (ep_task_id episode)
       \<or> pb_workstream_id (wb_primary_binding binding) \<noteq> Some (ep_workstream_id episode)
       \<or> pb_episode_id (wb_primary_binding binding) \<noteq> Some episode_id
       \<or> ws_active_episode_id workstream \<noteq> Some episode_id
       \<or> el_active_capture_receipt_revision_id lane \<noteq> cr_capture_receipt_revision_id receipt
       \<or> cr_execution_lane_id receipt \<noteq> lane_id
       \<or> cr_import_watermark receipt > sf_source_watermark facts
       \<or> sf_sequence facts = 0
       \<or> sf_source_watermark facts = 0
       \<or> \<not> token_valid_text (sf_target_family facts)
       \<or> is_some_and (\<lambda>v. \<not> token_valid_text v) (sf_error_signature facts)
       \<or> (token_claims_semantics facts \<and> evidence_refs = [])
       \<or> (\<exists>r \<in> set evidence_refs. r \<notin> set admissible)
       \<or> (\<exists>effect \<in> set effects. sef_operation_id effect \<noteq> operation_id)
       \<or> is_some_and (\<lambda>a. token_attempt_mismatch a episode episode_id lane_id
            competing_group_id experiment_run_id) att
       \<or> is_some_and (\<lambda>g. case att of None \<Rightarrow> True
            | Some a \<Rightarrow> at_attempt_id a \<notin> set (cg_member_attempt_ids g)) grp
       \<or> (\<exists>effect \<in> set effects. \<exists>i \<in> set (sef_experiment_run_ids effect). Some i \<noteq> experiment_run_id))"

definition build_token ::
  "operation_id \<Rightarrow> work_episode_id \<Rightarrow> segmentation_facts \<Rightarrow> operation \<Rightarrow> host_occurrence
    \<Rightarrow> work_binding_revision \<Rightarrow> work_episode \<Rightarrow> workstream \<Rightarrow> execution_lane_id \<Rightarrow> execution_lane
    \<Rightarrow> capture_receipt \<Rightarrow> scope_effect list \<Rightarrow> attempt option \<Rightarrow> competing_attempt_group option \<Rightarrow> activity_token" where
  "build_token operation_id episode_id facts operation occurrence binding episode workstream lane_id lane receipt effects att grp =
    (let competing_group_id = pb_competing_group_id (wb_primary_binding binding);
         experiment_run_id = pb_experiment_run_id (wb_primary_binding binding);
         admissible = token_admissible operation effects;
         evidence_refs = sort_dedup (sf_evidence_refs facts) in
      \<lparr>tok_sequence = sf_sequence facts,
       tok_source_watermark = sf_source_watermark facts,
       tok_operation_id = operation_id,
       tok_operation_revision = opn_operation_revision operation,
       tok_host_occurrence_id = ho_host_occurrence_id occurrence,
       tok_work_binding_revision_id = wb_work_binding_revision_id binding,
       tok_primary_binding = wb_primary_binding binding,
       tok_task_id = ep_task_id episode,
       tok_workstream_id = ep_workstream_id episode,
       tok_episode_id = episode_id,
       tok_attempt_id = map_option at_attempt_id att,
       tok_attempt_revision_id = map_option at_revision_id att,
       tok_experiment_run_id = experiment_run_id,
       tok_competing_group_id = competing_group_id,
       tok_execution_lane_id = lane_id,
       tok_parent_lane_id = el_parent_lane_id lane,
       tok_subagent_id = map_option (\<lambda>_. el_agent_id lane) (el_parent_lane_id lane),
       tok_operation_kind = opn_operation_kind operation,
       tok_target_refs = sort_dedup (pc_primary_targets (ep_phase_contract episode)
         @ (case att of None \<Rightarrow> [] | Some a \<Rightarrow> st_target_refs (at_strategy_contract a))
         @ (case grp of None \<Rightarrow> [] | Some g \<Rightarrow> cg_target_refs g)),
       tok_scope_effect_refs = opn_scope_effect_ids operation,
       tok_worktree_lineage_refs = ws_worktree_lineage_refs workstream,
       tok_artifact_refs = sort_dedup (opn_artifact_refs operation @ concat (map sef_artifact_refs effects)),
       tok_side_effects = sort_dedup (map sef_effect_role effects),
       tok_source_observation_refs = sort_dedup (ho_source_observation_refs occurrence @ admissible),
       tok_strategy_contract_fingerprint = map_option at_strategy_contract_fingerprint att,
       tok_worktree_transition_refs = (case att of None \<Rightarrow> [] | Some a \<Rightarrow> at_worktree_transition_refs a),
       tok_integration_event_refs = (case att of None \<Rightarrow> [] | Some a \<Rightarrow> at_integration_event_refs a),
       tok_target_family = sf_target_family facts,
       tok_state_delta = sf_state_delta facts,
       tok_error_signature = sf_error_signature facts,
       tok_verifier_transition = sf_verifier_transition facts,
       tok_observed_phase_kind = sf_observed_phase_kind facts,
       tok_boundary_evidence = sf_boundary_evidence facts,
       tok_boundary_evidence_refs = evidence_refs,
       tok_session_id = el_host_session_id lane,
       tok_capture_receipt = receipt\<rparr>)"

definition activity_token_compile_checked ::
  "segmentation_current_view \<Rightarrow> operation_id \<Rightarrow> work_episode_id \<Rightarrow> segmentation_facts
    \<Rightarrow> (detector_error, activity_token) result" where
  "activity_token_compile_checked view operation_id episode_id facts =
    and_then (look_up (scv_operations view) operation_id) (\<lambda>operation.
    and_then (look_up (scv_occurrences view) (opn_host_occurrence_id operation)) (\<lambda>occurrence.
    and_then (look_up (scv_bindings view) operation_id) (\<lambda>binding.
    and_then (look_up (scv_episodes view) episode_id) (\<lambda>episode.
    and_then (look_up (scv_workstreams view) (ep_workstream_id episode)) (\<lambda>workstream.
    and_then (ok_or Ineligible (opn_execution_lane_id operation)) (\<lambda>lane_id.
    and_then (look_up (scv_lanes view) lane_id) (\<lambda>lane.
    and_then (look_up (scv_receipts view) (el_active_capture_receipt_revision_id lane)) (\<lambda>receipt.
    and_then (look_up_all (scv_scope_effects view) (opn_scope_effect_ids operation)) (\<lambda>effects.
    and_then (look_up_opt (scv_attempts view) (pb_attempt_id (wb_primary_binding binding))) (\<lambda>att.
    and_then (look_up_opt (scv_groups view) (pb_competing_group_id (wb_primary_binding binding))) (\<lambda>grp.
    if token_ineligible operation_id episode_id facts operation occurrence binding episode workstream
      lane_id lane receipt effects att grp
    then Err Ineligible
    else Ok (build_token operation_id episode_id facts operation occurrence binding episode workstream
      lane_id lane receipt effects att grp))))))))))))"

section \<open>What a compiled token guarantees\<close>

definition token_well_formed :: "activity_token \<Rightarrow> bool" where
  "token_well_formed t \<longleftrightarrow>
    tok_sequence t \<noteq> 0 \<and> tok_source_watermark t \<noteq> 0
    \<and> set (tok_boundary_evidence_refs t) \<subseteq> set (tok_source_observation_refs t)
    \<and> (tok_boundary_evidence t \<noteq> BoundaryEvidenceNone \<or> tok_verifier_transition t \<noteq> VerifierNone
        \<or> tok_observed_phase_kind t \<noteq> None \<longrightarrow> tok_boundary_evidence_refs t \<noteq> [])
    \<and> sorted_wrt (<) (tok_target_refs t) \<and> sorted_wrt (<) (tok_source_observation_refs t)
    \<and> sorted_wrt (<) (tok_artifact_refs t) \<and> sorted_wrt (<) (tok_side_effects t)
    \<and> sorted_wrt (<) (tok_boundary_evidence_refs t)"

lemma look_up_Inr_iff [result_simps]: "look_up m k = Inr v \<longleftrightarrow> m k = Some v"
  by (simp add: look_up_def result_simps)

lemma compile_checkedE:
  assumes "activity_token_compile_checked view operation_id episode_id facts = Ok t"
  obtains operation occurrence binding episode workstream lane_id lane receipt effects att grp where
    "scv_operations view operation_id = Some operation"
    "scv_occurrences view (opn_host_occurrence_id operation) = Some occurrence"
    "scv_bindings view operation_id = Some binding"
    "scv_episodes view episode_id = Some episode"
    "scv_workstreams view (ep_workstream_id episode) = Some workstream"
    "opn_execution_lane_id operation = Some lane_id"
    "scv_lanes view lane_id = Some lane"
    "scv_receipts view (el_active_capture_receipt_revision_id lane) = Some receipt"
    "\<not> token_ineligible operation_id episode_id facts operation occurrence binding episode workstream
      lane_id lane receipt effects att grp"
    "t = build_token operation_id episode_id facts operation occurrence binding episode workstream
      lane_id lane receipt effects att grp"
  using assms unfolding activity_token_compile_checked_def
  by (simp only: and_then_Inr_iff look_up_Inr_iff ok_or_Inr_iff) (fastforce split: if_splits)

lemma build_token_well_formed:
  assumes "\<not> token_ineligible operation_id episode_id facts operation occurrence binding episode workstream
      lane_id lane receipt effects att grp"
  shows "token_well_formed (build_token operation_id episode_id facts operation occurrence binding episode
      workstream lane_id lane receipt effects att grp)"
proof -
  have "sf_sequence facts \<noteq> 0" "sf_source_watermark facts \<noteq> 0"
      "token_claims_semantics facts \<Longrightarrow> sf_evidence_refs facts \<noteq> []"
      "set (sf_evidence_refs facts) \<subseteq> set (token_admissible operation effects)"
    using assms by (auto simp: token_ineligible_def Let_def)
  then show ?thesis
    unfolding token_well_formed_def build_token_def Let_def
    by (auto simp: sorted_wrt_sort_dedup token_claims_semantics_def)
qed

lemma compile_checked_well_formed:
  "activity_token_compile_checked view operation_id episode_id facts = Ok t \<Longrightarrow> token_well_formed t"
  by (erule compile_checkedE, hypsubst) (rule build_token_well_formed)

text \<open>
  A token is compiled only for an operation of an exactly correlated occurrence
  whose resolved binding, episode and workstream agree and whose lane's current receipt
  is not ahead of the token; its boundary evidence is among the observations it rests
  on, is present whenever the token claims a boundary, a verifier transition or a
  phase, and its reference lists are strictly sorted.
\<close>

theorem compile_checked_sound:
  assumes "activity_token_compile_checked view operation_id episode_id facts = Ok t"
  shows "token_well_formed t
    \<and> tok_operation_id t = operation_id \<and> tok_episode_id t = episode_id
    \<and> (\<exists>operation occurrence binding episode workstream lane receipt.
        scv_operations view operation_id = Some operation
        \<and> scv_occurrences view (opn_host_occurrence_id operation) = Some occurrence
        \<and> ho_correlation_strength occurrence = StrengthExact
        \<and> scv_bindings view operation_id = Some binding
        \<and> wb_assignment_status binding = AssignmentResolved
        \<and> pb_episode_id (wb_primary_binding binding) = Some episode_id
        \<and> scv_episodes view episode_id = Some episode
        \<and> tok_task_id t = ep_task_id episode \<and> tok_workstream_id t = ep_workstream_id episode
        \<and> scv_workstreams view (ep_workstream_id episode) = Some workstream
        \<and> ws_active_episode_id workstream = Some episode_id
        \<and> scv_lanes view (tok_execution_lane_id t) = Some lane
        \<and> operation_id \<in> set (el_operation_ids lane)
        \<and> scv_receipts view (el_active_capture_receipt_revision_id lane) = Some receipt
        \<and> tok_capture_receipt t = receipt
        \<and> cr_execution_lane_id receipt = tok_execution_lane_id t
        \<and> cr_import_watermark receipt \<le> tok_source_watermark t)"
proof (rule compile_checkedE [OF assms])
  fix operation occurrence binding episode workstream lane_id lane receipt effects att grp
  assume look: "scv_operations view operation_id = Some operation"
      "scv_occurrences view (opn_host_occurrence_id operation) = Some occurrence"
      "scv_bindings view operation_id = Some binding"
      "scv_episodes view episode_id = Some episode"
      "scv_workstreams view (ep_workstream_id episode) = Some workstream"
      "opn_execution_lane_id operation = Some lane_id"
      "scv_lanes view lane_id = Some lane"
      "scv_receipts view (el_active_capture_receipt_revision_id lane) = Some receipt"
    and ok: "\<not> token_ineligible operation_id episode_id facts operation occurrence binding episode workstream
      lane_id lane receipt effects att grp"
    and t: "t = build_token operation_id episode_id facts operation occurrence binding episode workstream
      lane_id lane receipt effects att grp"
  have g: "ho_correlation_strength occurrence = StrengthExact" "wb_assignment_status binding = AssignmentResolved"
      "pb_episode_id (wb_primary_binding binding) = Some episode_id"
      "ws_active_episode_id workstream = Some episode_id" "operation_id \<in> set (el_operation_ids lane)"
      "cr_execution_lane_id receipt = lane_id" "cr_import_watermark receipt \<le> sf_source_watermark facts"
    using ok unfolding token_ineligible_def Let_def by (simp_all add: not_less)
  have f: "tok_operation_id t = operation_id" "tok_episode_id t = episode_id"
      "tok_task_id t = ep_task_id episode" "tok_workstream_id t = ep_workstream_id episode"
      "tok_execution_lane_id t = lane_id" "tok_capture_receipt t = receipt"
      "tok_source_watermark t = sf_source_watermark facts"
    unfolding t build_token_def Let_def by simp_all
  show ?thesis
    using build_token_well_formed [OF ok] look g unfolding t [symmetric]
    by (intro conjI f exI [of _ operation] exI [of _ occurrence] exI [of _ binding] exI [of _ episode]
        exI [of _ workstream] exI [of _ lane] exI [of _ receipt]) (simp_all add: f)
qed

definition sample_view :: segmentation_current_view where
  "sample_view =
    \<lparr>scv_frontier = 1,
     scv_occurrences = [replicate 32 0 \<mapsto> sample_occurrence],
     scv_operations = [2 \<mapsto> \<lparr>opn_operation_id = 2, opn_host_occurrence_id = replicate 32 0,
       opn_execution_lane_id = Some (el_execution_lane_id sample_lane), opn_operation_kind = OpRead,
       opn_input_source_observation_refs = [[1]], opn_result_source_observation_refs = [],
       opn_pairing_state = UnmatchedIntent, opn_scope_effect_ids = [], opn_artifact_refs = [],
       opn_operation_resolver_version = 1, opn_operation_revision = 1,
       opn_previous_operation_revision = None, opn_source_local_pairing = None\<rparr>],
     scv_bindings = [2 \<mapsto> sample_binding],
     scv_lanes = [el_execution_lane_id sample_lane \<mapsto> sample_lane\<lparr>el_operation_ids := [2]\<rparr>],
     scv_receipts = [cr_capture_receipt_revision_id sample_receipt \<mapsto> sample_receipt],
     scv_scope_effects = Map.empty, scv_attempts = Map.empty, scv_groups = Map.empty,
     scv_episodes = [5 \<mapsto> sample_episode\<lparr>ep_episode_id := 5, ep_task_id := 3, ep_workstream_id := 4\<rparr>],
     scv_workstreams = [4 \<mapsto> \<lparr>ws_workstream_id = 4, ws_revision_id = 1, ws_predecessor_revision_id = None,
       ws_task_id = 3, ws_repository_instance_id = None, ws_worktree_instance_ids = [],
       ws_active_worktree_instance_id = None, ws_worktree_lineage_refs = [],
       ws_parent_workstream_id = None, ws_dependency_workstream_ids = [], ws_status = WorkstreamActive,
       ws_root_goal = ''g'', ws_workstream_goal = ''g'', ws_target_family = ''f'',
       ws_hypothesis_or_failure_family = ''h'', ws_acceptance_boundary = ''a'',
       ws_phase_contract = ep_phase_contract sample_episode, ws_active_episode_id = Some 5,
       ws_execution_lane_ids = [], ws_source_watermark = 1\<rparr>]\<rparr>"

definition sample_facts :: segmentation_facts where
  "sample_facts = \<lparr>sf_sequence = 1, sf_source_watermark = 6, sf_target_family = ''src'',
    sf_state_delta = StateNone, sf_error_signature = None, sf_verifier_transition = VerifierNone,
    sf_observed_phase_kind = Some PhaseVerify, sf_boundary_evidence = BoundaryEvidenceNone,
    sf_evidence_refs = [[1]]\<rparr>"

lemma sample_token_compiles: "\<exists>t. activity_token_compile_checked sample_view 2 5 sample_facts = Ok t"
  by (simp add: activity_token_compile_checked_def look_up_def look_up_opt_def ok_or_def sample_view_def
      sample_binding_def sample_facts_def sample_episode_def sample_lane_def sample_receipt_def
      build_lane_def build_receipt_def sample_input_def token_ineligible_def Let_def sample_occurrence_def
      token_valid_text_def TOKEN_MAX_TEXT_def blank_def token_admissible_def)

theorem compile_checked_sound_witness:
  "\<exists>t. activity_token_compile_checked sample_view 2 5 sample_facts = Ok t \<and> token_well_formed t
    \<and> tok_operation_id t = 2"
  using sample_token_compiles compile_checked_sound by blast

end
