(* ===== verification/Burst_Folder.thy ===== *)
theory Burst_Folder
  imports Seg_Token
begin

text \<open>
  Folding tokens into operation bursts: \<open>evertrace-engine/src/segmentation/burst.rs\<close>. The
  folder keeps the open burst and, per operation, the last revision it has seen. A
  token either repeats a known revision (no delta), extends the open burst, or closes
  it and starts a new one. The identifiers drawn with \<open>new_v7\<close> are an argument
  (\<open>fresh_ids\<close>). \<open>push\<close> takes \<open>&mut self\<close>; here it returns the folder it leaves behind on
  success. On an error the caller discards its copy of the folder.
\<close>

definition BURST_ALGORITHM_REVISION :: u32 where "BURST_ALGORITHM_REVISION = 2"
definition MAX_BURST_ITEMS :: nat where "MAX_BURST_ITEMS = 64"

record burst_fold_update =
  bfu_current :: operation_burst
  bfu_closed :: "operation_burst option"
  bfu_started_new :: bool
  bfu_meaningful_new :: bool
  bfu_no_delta :: bool

record seen_operation =
  seen_revision :: u32
  seen_member :: operation_burst_member
  seen_operation_kind :: operation_kind
  seen_state_delta :: operation_state_delta
  seen_verifier_delta :: operation_verifier_delta
  seen_phase_candidate :: "phase_kind option"
  seen_has_objective_boundary :: bool
  seen_error_signature :: "string option"
  seen_target_family :: string
  seen_target_refs :: "string list"

record operation_burst_folder =
  fo_current :: "operation_burst option"
  fo_seen :: "operation_id \<Rightarrow> seen_operation option"

record fresh_ids =
  fr_next_revision :: revision_id
  fr_close_revision :: revision_id
  fr_burst_id :: operation_burst_id
  fr_burst_revision :: revision_id

definition operation_burst_folder_new :: operation_burst_folder where
  "operation_burst_folder_new = \<lparr>fo_current = None, fo_seen = Map.empty\<rparr>"

definition seen_from_burst :: "operation_burst \<Rightarrow> operation_burst_member \<Rightarrow> seen_operation" where
  "seen_from_burst b m =
    \<lparr>seen_revision = bm_operation_revision m, seen_member = m, seen_operation_kind = ob_operation_kind b,
     seen_state_delta = ob_state_delta b, seen_verifier_delta = ob_verifier_delta b,
     seen_phase_candidate = ob_phase_candidate b, seen_has_objective_boundary = ob_has_objective_boundary b,
     seen_error_signature = ob_error_signature b, seen_target_family = ob_target_family b,
     seen_target_refs = ob_target_refs b\<rparr>"

definition member_from_token :: "activity_token \<Rightarrow> operation_burst_member" where
  "member_from_token t =
    \<lparr>bm_sequence = tok_sequence t, bm_source_watermark = tok_source_watermark t,
     bm_operation_id = tok_operation_id t, bm_operation_revision = tok_operation_revision t,
     bm_host_occurrence_id = tok_host_occurrence_id t,
     bm_work_binding_revision_id = tok_work_binding_revision_id t,
     bm_attempt_revision_id = tok_attempt_revision_id t,
     bm_source_observation_refs = tok_source_observation_refs t,
     bm_scope_effect_refs = tok_scope_effect_refs t, bm_artifact_refs = tok_artifact_refs t,
     bm_side_effects = tok_side_effects t, bm_worktree_transition_refs = tok_worktree_transition_refs t,
     bm_integration_event_refs = tok_integration_event_refs t\<rparr>"

definition can_extend :: "operation_burst \<Rightarrow> activity_token \<Rightarrow> bool" where
  "can_extend b t \<longleftrightarrow>
    ob_lifecycle b = BurstOpen
    \<and> ob_operation_kind b = tok_operation_kind t
    \<and> ob_state_delta b = tok_state_delta t
    \<and> ob_verifier_delta b = VerifierNone
    \<and> \<not> ob_has_objective_boundary b
    \<and> ob_phase_candidate b = tok_observed_phase_kind t
    \<and> tok_verifier_transition t = VerifierNone
    \<and> tok_boundary_evidence t = BoundaryEvidenceNone
    \<and> ob_error_signature b = tok_error_signature t
    \<and> ob_target_family b = tok_target_family t
    \<and> ob_target_refs b = tok_target_refs t
    \<and> ob_execution_lane_id b = tok_execution_lane_id t
    \<and> ob_parent_lane_id b = tok_parent_lane_id t
    \<and> ob_primary_binding b = tok_primary_binding t
    \<and> ob_attempt_id b = tok_attempt_id t
    \<and> ob_experiment_run_id b = tok_experiment_run_id t
    \<and> ob_competing_group_id b = tok_competing_group_id t
    \<and> ob_worktree_lineage_refs b = tok_worktree_lineage_refs t
    \<and> ob_strategy_contract_fingerprint b = tok_strategy_contract_fingerprint t
    \<and> tok_worktree_transition_refs t = []
    \<and> tok_integration_event_refs t = []
    \<and> \<not> (\<exists>m \<in> set (ob_members b). bm_operation_id m = tok_operation_id t)"

definition close_burst :: "revision_id \<Rightarrow> operation_burst \<Rightarrow> (detector_error, operation_burst) result" where
  "close_burst revision b =
    and_then (ok_or Ineligible (checked_add (ob_revision_generation b) 1)) (\<lambda>generation.
    let next = b\<lparr>ob_revision_id := revision, ob_predecessor_revision_id := Some (ob_revision_id b),
          ob_revision_generation := generation, ob_lifecycle := BurstClosed\<rparr> in
    and_then (map_err (\<lambda>_. Ineligible) (operation_burst_validate_successor b next)) (\<lambda>_. Ok next))"

definition new_burst ::
  "operation_burst_id \<Rightarrow> revision_id \<Rightarrow> activity_token \<Rightarrow> (detector_error, operation_burst) result" where
  "new_burst burst_id revision t =
    (let value =
       \<lparr>ob_operation_burst_id = burst_id, ob_revision_id = revision, ob_predecessor_revision_id = None,
        ob_revision_generation = 1, ob_lifecycle = BurstOpen,
        ob_algorithm_revision = BURST_ALGORITHM_REVISION, ob_operation_kind = tok_operation_kind t,
        ob_state_delta = tok_state_delta t, ob_verifier_delta = tok_verifier_transition t,
        ob_phase_candidate = tok_observed_phase_kind t,
        ob_has_objective_boundary = (tok_boundary_evidence t \<noteq> BoundaryEvidenceNone),
        ob_error_signature = tok_error_signature t, ob_target_family = tok_target_family t,
        ob_target_refs = tok_target_refs t, ob_members = [member_from_token t],
        ob_execution_lane_id = tok_execution_lane_id t, ob_parent_lane_id = tok_parent_lane_id t,
        ob_subagent_id = tok_subagent_id t, ob_primary_binding = tok_primary_binding t,
        ob_attempt_id = tok_attempt_id t, ob_experiment_run_id = tok_experiment_run_id t,
        ob_competing_group_id = tok_competing_group_id t,
        ob_worktree_lineage_refs = tok_worktree_lineage_refs t,
        ob_strategy_contract_fingerprint = tok_strategy_contract_fingerprint t,
        ob_source_watermark = tok_source_watermark t\<rparr> in
     and_then (map_err (\<lambda>_. Ineligible) (operation_burst_validate value)) (\<lambda>_. Ok value))"

definition seen_differs :: "seen_operation \<Rightarrow> activity_token \<Rightarrow> bool" where
  "seen_differs previous t \<longleftrightarrow>
    seen_member previous \<noteq> member_from_token t
    \<or> seen_operation_kind previous \<noteq> tok_operation_kind t
    \<or> seen_state_delta previous \<noteq> tok_state_delta t
    \<or> seen_verifier_delta previous \<noteq> tok_verifier_transition t
    \<or> seen_phase_candidate previous \<noteq> tok_observed_phase_kind t
    \<or> seen_has_objective_boundary previous \<noteq> (tok_boundary_evidence t \<noteq> BoundaryEvidenceNone)
    \<or> seen_error_signature previous \<noteq> tok_error_signature t
    \<or> seen_target_family previous \<noteq> tok_target_family t
    \<or> seen_target_refs previous \<noteq> tok_target_refs t"

text \<open>The revision of the open burst a token is appended to.\<close>

definition extended_burst :: "revision_id \<Rightarrow> u64 \<Rightarrow> operation_burst \<Rightarrow> activity_token \<Rightarrow> operation_burst" where
  "extended_burst revision generation b t =
    b\<lparr>ob_revision_id := revision, ob_predecessor_revision_id := Some (ob_revision_id b),
      ob_revision_generation := generation, ob_members := ob_members b @ [member_from_token t],
      ob_source_watermark := tok_source_watermark t\<rparr>"

definition folder_extend ::
  "operation_burst_folder \<Rightarrow> fresh_ids \<Rightarrow> operation_burst \<Rightarrow> activity_token
    \<Rightarrow> (detector_error, operation_burst_folder \<times> burst_fold_update) result" where
  "folder_extend f ids current t =
    and_then (ok_or Ineligible (checked_add (ob_revision_generation current) 1)) (\<lambda>generation.
    let next = extended_burst (fr_next_revision ids) generation current t in
    and_then (map_err (\<lambda>_. Ineligible) (operation_burst_validate_successor current next)) (\<lambda>_.
    Ok (f\<lparr>fo_current := Some next,
          fo_seen := (fo_seen f)(tok_operation_id t \<mapsto> seen_from_burst next (last (ob_members next)))\<rparr>,
        \<lparr>bfu_current = next, bfu_closed = None, bfu_started_new = False, bfu_meaningful_new = False,
         bfu_no_delta = False\<rparr>)))"

definition folder_start ::
  "operation_burst_folder \<Rightarrow> fresh_ids \<Rightarrow> activity_token
    \<Rightarrow> (detector_error, operation_burst_folder \<times> burst_fold_update) result" where
  "folder_start f ids t =
    and_then (case fo_current f of None \<Rightarrow> Ok None
      | Some b \<Rightarrow> and_then (close_burst (fr_close_revision ids) b) (\<lambda>c. Ok (Some c))) (\<lambda>closed.
    and_then (new_burst (fr_burst_id ids) (fr_burst_revision ids) t) (\<lambda>current.
    Ok (\<lparr>fo_current = Some current,
         fo_seen = (fo_seen f)(tok_operation_id t \<mapsto> seen_from_burst current (last (ob_members current)))\<rparr>,
        \<lparr>bfu_current = current, bfu_closed = closed, bfu_started_new = True,
         bfu_meaningful_new = operation_burst_is_meaningful_after current closed,
         bfu_no_delta = False\<rparr>)))"

definition operation_burst_folder_push ::
  "operation_burst_folder \<Rightarrow> fresh_ids \<Rightarrow> activity_token
    \<Rightarrow> (detector_error, operation_burst_folder \<times> burst_fold_update) result" where
  "operation_burst_folder_push f ids t =
    (let fold = (\<lambda>_ :: unit. case fo_current f of
           Some current \<Rightarrow>
             if can_extend current t \<and> length (ob_members current) < MAX_BURST_ITEMS
             then folder_extend f ids current t
             else folder_start f ids t
         | None \<Rightarrow> folder_start f ids t)
     in
     case fo_seen f (tok_operation_id t) of
       None \<Rightarrow> fold ()
     | Some previous \<Rightarrow>
         if seen_revision previous > tok_operation_revision t then Err WatermarkRegression
         else if seen_revision previous = tok_operation_revision t then
           (if seen_differs previous t then Err Ineligible
            else and_then (ok_or Ineligible (fo_current f)) (\<lambda>current.
              Ok (f, \<lparr>bfu_current = current, bfu_closed = None, bfu_started_new = False,
                      bfu_meaningful_new = False, bfu_no_delta = True\<rparr>)))
         else fold ())"

text \<open>Restoring the folder from the persisted bursts: the two nested loops.\<close>

fun restore_members ::
  "operation_burst \<Rightarrow> (operation_id \<Rightarrow> seen_operation option) \<Rightarrow> operation_burst_member list
    \<Rightarrow> (detector_error, operation_id \<Rightarrow> seen_operation option) result" where
  "restore_members b seen [] = Ok seen"
| "restore_members b seen (m # ms) =
    (case seen (bm_operation_id m) of
       None \<Rightarrow> restore_members b (seen(bm_operation_id m \<mapsto> seen_from_burst b m)) ms
     | Some previous \<Rightarrow>
         if seen_revision previous < bm_operation_revision m
         then restore_members b (seen(bm_operation_id m \<mapsto> seen_from_burst b m)) ms
         else Err Ineligible)"

fun restore_bursts ::
  "(operation_id \<Rightarrow> seen_operation option) \<Rightarrow> operation_burst list
    \<Rightarrow> (detector_error, operation_id \<Rightarrow> seen_operation option) result" where
  "restore_bursts seen [] = Ok seen"
| "restore_bursts seen (b # bs) =
    and_then (map_err (\<lambda>_. Ineligible) (operation_burst_validate b)) (\<lambda>_.
    and_then (restore_members b seen (ob_members b)) (\<lambda>seen'. restore_bursts seen' bs))"

definition operation_burst_folder_restore ::
  "operation_burst list \<Rightarrow> (detector_error, operation_burst_folder) result" where
  "operation_burst_folder_restore bursts =
    (let current = filter (\<lambda>b. ob_lifecycle b = BurstOpen) bursts in
     if length current > 1 \<or> length bursts > 64 then Err Ineligible
     else
     and_then (restore_bursts Map.empty bursts) (\<lambda>seen.
     Ok \<lparr>fo_current = (case current of [] \<Rightarrow> None | b # _ \<Rightarrow> Some b), fo_seen = seen\<rparr>))"

section \<open>One push\<close>

definition folder_inv :: "operation_burst_folder \<Rightarrow> bool" where
  "folder_inv f \<longleftrightarrow> (\<forall>b. fo_current f = Some b \<longrightarrow>
    operation_burst_validate b = Ok () \<and> ob_lifecycle b = BurstOpen)"

lemma folder_inv_new: "folder_inv operation_burst_folder_new"
  by (simp add: folder_inv_def operation_burst_folder_new_def)

lemma close_burst_OkD:
  assumes "close_burst r b = Ok c"
  shows "operation_burst_validate_successor b c = Ok ()" and "ob_members c = ob_members b"
    and "ob_lifecycle c = BurstClosed" and "ob_operation_burst_id c = ob_operation_burst_id b"
    and "ob_source_watermark c = ob_source_watermark b"
  using assms by (auto simp: close_burst_def result_simps Let_def)

lemma new_burst_OkD:
  assumes "new_burst i r t = Ok b"
  shows "operation_burst_validate b = Ok ()" and "ob_members b = [member_from_token t]"
    and "ob_lifecycle b = BurstOpen" and "ob_operation_burst_id b = i"
    and "ob_revision_generation b = 1" and "ob_source_watermark b = tok_source_watermark t"
    and "\<not> seen_differs (seen_from_burst b (member_from_token t)) t"
    and "ob_attempt_id b = tok_attempt_id t"
  using assms by (auto simp: new_burst_def result_simps Let_def seen_differs_def seen_from_burst_def)

lemma folder_extend_OkD:
  assumes "folder_extend f ids b t = Ok (f', u)" and "fo_current f = Some b" and "can_extend b t"
  shows "operation_burst_validate_successor b (bfu_current u) = Ok ()"
    and "ob_members (bfu_current u) = ob_members b @ [member_from_token t]"
    and "ob_lifecycle (bfu_current u) = BurstOpen"
    and "ob_source_watermark (bfu_current u) = tok_source_watermark t"
    and "ob_operation_burst_id (bfu_current u) = ob_operation_burst_id b"
    and "bfu_closed u = None" and "\<not> bfu_started_new u" and "\<not> bfu_no_delta u"
    and "f' = \<lparr>fo_current = Some (bfu_current u), fo_seen = (fo_seen f)(tok_operation_id t \<mapsto>
          seen_from_burst (bfu_current u) (member_from_token t))\<rparr>"
    and "\<not> seen_differs (seen_from_burst (bfu_current u) (member_from_token t)) t"
  using assms
  by (auto simp: folder_extend_def result_simps Let_def extended_burst_def can_extend_def
      seen_differs_def seen_from_burst_def)

lemma folder_start_OkD:
  assumes "folder_start f ids t = Ok (f', u)"
  shows "operation_burst_validate (bfu_current u) = Ok ()"
    and "ob_members (bfu_current u) = [member_from_token t]"
    and "ob_lifecycle (bfu_current u) = BurstOpen"
    and "ob_source_watermark (bfu_current u) = tok_source_watermark t"
    and "bfu_started_new u" and "\<not> bfu_no_delta u"
    and "f' = \<lparr>fo_current = Some (bfu_current u), fo_seen = (fo_seen f)(tok_operation_id t \<mapsto>
          seen_from_burst (bfu_current u) (member_from_token t))\<rparr>"
    and "\<not> seen_differs (seen_from_burst (bfu_current u) (member_from_token t)) t"
    and "fo_current f = None \<Longrightarrow> bfu_closed u = None"
    and "fo_current f = Some b \<Longrightarrow> \<exists>c. bfu_closed u = Some c
          \<and> operation_burst_validate_successor b c = Ok () \<and> ob_members c = ob_members b
          \<and> ob_lifecycle c = BurstClosed"
    and "bfu_meaningful_new u = operation_burst_is_meaningful_after (bfu_current u) (bfu_closed u)"
  using assms new_burst_OkD [of "fr_burst_id ids" "fr_burst_revision ids" t "bfu_current u"]
  by (auto simp: folder_start_def result_simps dest: close_burst_OkD split: option.splits)

text \<open>The three ways a push succeeds.\<close>

lemma push_cases [consumes 1, case_names replay extend start]:
  assumes "operation_burst_folder_push f ids t = Ok (f', u)"
  obtains "f' = f" "bfu_no_delta u" "fo_current f = Some (bfu_current u)" "bfu_closed u = None"
      "\<not> bfu_started_new u" "\<exists>s. fo_seen f (tok_operation_id t) = Some s
        \<and> seen_revision s = tok_operation_revision t \<and> \<not> seen_differs s t"
    | b where "fo_current f = Some b" "can_extend b t" "length (ob_members b) < MAX_BURST_ITEMS"
      "folder_extend f ids b t = Ok (f', u)"
    | "folder_start f ids t = Ok (f', u)"
      "\<And>b. fo_current f = Some b \<Longrightarrow> \<not> can_extend b t \<or> MAX_BURST_ITEMS \<le> length (ob_members b)"
  using assms
  by (auto simp: operation_burst_folder_push_def Let_def result_simps not_less
      split: option.splits if_splits)

lemma push_inv:
  assumes "operation_burst_folder_push f ids t = Ok (f', u)" and "folder_inv f"
  shows "folder_inv f'" and "fo_current f' = Some (bfu_current u)"
    and "operation_burst_validate (bfu_current u) = Ok ()"
proof -
  have "folder_inv f' \<and> fo_current f' = Some (bfu_current u)"
    using assms(1)
  proof (cases rule: push_cases)
    case replay then show ?thesis using assms(2) by simp
  next
    case (extend b)
    note e = folder_extend_OkD [OF extend(4,1,2)]
    show ?thesis using burst_successorD(3) [OF e(1)] e(3,9) by (simp add: folder_inv_def)
  next
    case start
    then show ?thesis using folder_start_OkD(1,3,7) [OF start(1)] by (simp add: folder_inv_def)
  qed
  then show "folder_inv f'" "fo_current f' = Some (bfu_current u)"
    "operation_burst_validate (bfu_current u) = Ok ()"
    by (auto simp: folder_inv_def)
qed

text \<open>
  What folding one token does. A push either repeats a known operation revision and
  changes nothing; or appends the token to the open burst, as an accepted successor of
  it; or starts a fresh burst holding just the token and closes the open one, as an
  accepted successor with the same members. The resulting burst is valid, open and the
  folder's current burst, and holds at most 64 members of which the token is the last.
\<close>

theorem folder_push_spec:
  assumes "operation_burst_folder_push f ids t = Ok (f', u)" and "folder_inv f"
  shows "folder_inv f' \<and> fo_current f' = Some (bfu_current u)
    \<and> length (ob_members (bfu_current u)) \<le> 64
    \<and> (if bfu_no_delta u then f' = f \<and> bfu_closed u = None
       else ob_source_watermark (bfu_current u) = tok_source_watermark t
         \<and> (if bfu_started_new u
            then ob_members (bfu_current u) = [member_from_token t]
              \<and> (case fo_current f of None \<Rightarrow> bfu_closed u = None
                  | Some b \<Rightarrow> \<exists>c. bfu_closed u = Some c
                      \<and> operation_burst_validate_successor b c = Ok () \<and> ob_members c = ob_members b)
            else \<exists>b. fo_current f = Some b \<and> bfu_closed u = None
              \<and> operation_burst_validate_successor b (bfu_current u) = Ok ()
              \<and> ob_members (bfu_current u) = ob_members b @ [member_from_token t]))"
proof -
  note inv = push_inv [OF assms]
  have len: "length (ob_members (bfu_current u)) \<le> 64" by (rule valid_burst_members(2) [OF inv(3)])
  from assms(1) show ?thesis
  proof (cases rule: push_cases)
    case replay then show ?thesis using inv len by simp
  next
    case (extend b)
    then show ?thesis using folder_extend_OkD [OF extend(4,1,2)] inv len by auto
  next
    case start
    then show ?thesis using folder_start_OkD [OF start(1)] inv len
      by (auto split: option.split)
  qed
qed

text \<open>
  Folding is idempotent: a token that has just been folded, pushed again with
  whatever fresh identifiers, reports no delta and leaves the folder as it is; so a
  replayed observation never counts twice.
\<close>

theorem folder_push_idempotent:
  assumes "operation_burst_folder_push f ids t = Ok (f', u)"
  shows "operation_burst_folder_push f' ids' t = Ok (f', \<lparr>bfu_current = bfu_current u,
    bfu_closed = None, bfu_started_new = False, bfu_meaningful_new = False, bfu_no_delta = True\<rparr>)"
proof -
  have "\<exists>s. fo_seen f' (tok_operation_id t) = Some s \<and> seen_revision s = tok_operation_revision t
      \<and> \<not> seen_differs s t" and "fo_current f' = Some (bfu_current u)"
    using assms
  proof (atomize(full), cases rule: push_cases)
    case (extend b)
    then show "(\<exists>s. fo_seen f' (tok_operation_id t) = Some s \<and> seen_revision s = tok_operation_revision t
      \<and> \<not> seen_differs s t) \<and> fo_current f' = Some (bfu_current u)"
      using folder_extend_OkD(9,10) [OF extend(4,1,2)]
      by (simp add: seen_from_burst_def member_from_token_def)
  next
    case start
    then show "(\<exists>s. fo_seen f' (tok_operation_id t) = Some s \<and> seen_revision s = tok_operation_revision t
      \<and> \<not> seen_differs s t) \<and> fo_current f' = Some (bfu_current u)"
      using folder_start_OkD(7,8) [OF start(1)]
      by (simp add: seen_from_burst_def member_from_token_def)
  qed simp
  then show ?thesis by (auto simp: operation_burst_folder_push_def Let_def ok_or_def)
qed

section \<open>Folding a stream of tokens\<close>

fun folder_run ::
  "operation_burst_folder \<Rightarrow> (fresh_ids \<times> activity_token) list
    \<Rightarrow> (detector_error, operation_burst_folder \<times> burst_fold_update list) result" where
  "folder_run f [] = Ok (f, [])"
| "folder_run f ((ids, t) # rest) =
    and_then (operation_burst_folder_push f ids t) (\<lambda>(f', u).
    and_then (folder_run f' rest) (\<lambda>(f'', us). Ok (f'', u # us)))"

definition closed_bursts :: "burst_fold_update list \<Rightarrow> operation_burst list" where
  "closed_bursts us = concat (map (\<lambda>u. case bfu_closed u of None \<Rightarrow> [] | Some c \<Rightarrow> [c]) us)"

definition open_burst :: "operation_burst_folder \<Rightarrow> operation_burst list" where
  "open_burst f = (case fo_current f of None \<Rightarrow> [] | Some b \<Rightarrow> [b])"

fun delta_members ::
  "(fresh_ids \<times> activity_token) list \<Rightarrow> burst_fold_update list \<Rightarrow> operation_burst_member list" where
  "delta_members ((ids, t) # rest) (u # us) =
    (if bfu_no_delta u then [] else [member_from_token t]) @ delta_members rest us"
| "delta_members _ _ = []"

lemma push_members:
  assumes "operation_burst_folder_push f ids t = Ok (f', u)"
  shows "concat (map ob_members (closed_bursts [u] @ open_burst f'))
    = concat (map ob_members (open_burst f)) @ delta_members [(ids, t)] [u]"
  using assms
proof (cases rule: push_cases)
  case replay
  then show ?thesis by (simp add: closed_bursts_def)
next
  case (extend b)
  then show ?thesis using folder_extend_OkD [OF extend(4,1,2)]
    by (simp add: closed_bursts_def open_burst_def)
next
  case start
  then show ?thesis
    using folder_start_OkD [OF start(1)]
    by (cases "fo_current f") (force simp: closed_bursts_def open_burst_def)+
qed

lemma push_closed:
  assumes "operation_burst_folder_push f ids t = Ok (f', u)" and "c \<in> set (closed_bursts [u])"
  shows "operation_burst_validate c = Ok () \<and> ob_lifecycle c = BurstClosed"
  using assms(1)
proof (cases rule: push_cases)
  case replay
  then show ?thesis using assms(2) by (simp add: closed_bursts_def)
next
  case (extend b)
  then show ?thesis using folder_extend_OkD [OF extend(4,1,2)] assms(2)
    by (simp add: closed_bursts_def)
next
  case start
  then show ?thesis
    using folder_start_OkD(9,10) [OF start(1)] assms(2)
    by (cases "fo_current f") (force simp: closed_bursts_def dest: burst_successorD(3))+
qed

lemma closed_bursts_Cons: "closed_bursts (u # us) = closed_bursts [u] @ closed_bursts us"
  by (simp add: closed_bursts_def)

lemma delta_members_Cons:
  "delta_members (x # rest) (u # us) = delta_members [x] [u] @ delta_members rest us"
  by (cases x) simp

lemma folder_run_spec:
  assumes "folder_run f its = Ok (f', us)" and "folder_inv f"
  shows "folder_inv f' \<and> length us = length its
    \<and> concat (map ob_members (closed_bursts us @ open_burst f'))
        = concat (map ob_members (open_burst f)) @ delta_members its us
    \<and> (\<forall>c \<in> set (closed_bursts us). operation_burst_validate c = Ok () \<and> ob_lifecycle c = BurstClosed)"
  using assms
proof (induction its arbitrary: f us)
  case Nil
  then show ?case by (simp add: closed_bursts_def)
next
  case (Cons x its)
  obtain ids t where x: "x = (ids, t)" by (cases x)
  from Cons.prems(1) obtain g u vs where p: "operation_burst_folder_push f ids t = Ok (g, u)"
      and r: "folder_run g its = Ok (f', vs)" and us: "us = u # vs"
    by (auto simp: x result_simps)
  note IH = Cons.IH [OF r push_inv(1) [OF p Cons.prems(2)]]
  have "concat (map ob_members (closed_bursts us @ open_burst f'))
      = concat (map ob_members (closed_bursts [u])) @ concat (map ob_members (open_burst g))
        @ delta_members its vs"
    using IH by (simp add: us closed_bursts_Cons [of u vs])
  also have "\<dots> = concat (map ob_members (open_burst f)) @ delta_members (x # its) us"
    using push_members [OF p] by (simp add: us x delta_members_Cons [of _ its u vs] del: delta_members.simps)
  finally show ?case
    using IH push_closed [OF p] by (auto simp: us closed_bursts_Cons [of u vs])
qed

text \<open>
  C3. Folding loses nothing, duplicates nothing and keeps the order: whatever stream of
  tokens is folded from an empty folder, the members of the bursts closed on the way,
  followed by those of the burst still open, are exactly the tokens that were not
  replays, in the order they came; every closed burst is valid and closed.
\<close>

theorem folder_run_partitions:
  assumes "folder_run operation_burst_folder_new its = Ok (f, us)"
  shows "concat (map ob_members (closed_bursts us @ open_burst f)) = delta_members its us
    \<and> (\<forall>c \<in> set (closed_bursts us). operation_burst_validate c = Ok () \<and> ob_lifecycle c = BurstClosed)
    \<and> (\<forall>b \<in> set (open_burst f). operation_burst_validate b = Ok () \<and> ob_lifecycle b = BurstOpen)"
  using folder_run_spec [OF assms folder_inv_new]
  by (auto simp: open_burst_def operation_burst_folder_new_def folder_inv_def split: option.splits)

section \<open>A sample stream\<close>

definition sample_token :: activity_token where
  "sample_token = \<lparr>tok_sequence = 1, tok_source_watermark = 5, tok_operation_id = 7,
    tok_operation_revision = 1, tok_host_occurrence_id = [], tok_work_binding_revision_id = 8,
    tok_primary_binding = ob_primary_binding sample_burst, tok_task_id = 4,
    tok_workstream_id = 5, tok_episode_id = 6, tok_attempt_id = None,
    tok_attempt_revision_id = None, tok_experiment_run_id = None,
    tok_competing_group_id = None, tok_execution_lane_id = 3, tok_parent_lane_id = None,
    tok_subagent_id = None, tok_operation_kind = OpRead, tok_target_refs = [''a.rs''],
    tok_scope_effect_refs = [], tok_worktree_lineage_refs = [], tok_artifact_refs = [],
    tok_side_effects = [EffectRead], tok_source_observation_refs = [[1]],
    tok_strategy_contract_fingerprint = None, tok_worktree_transition_refs = [],
    tok_integration_event_refs = [], tok_target_family = ''src'', tok_state_delta = StateNone,
    tok_error_signature = None, tok_verifier_transition = VerifierNone,
    tok_observed_phase_kind = Some PhaseVerify, tok_boundary_evidence = BoundaryEvidenceNone,
    tok_boundary_evidence_refs = [[1]], tok_session_id = ''s'',
    tok_capture_receipt = sample_receipt\<rparr>"

definition sample_token2 :: activity_token where
  "sample_token2 = sample_token\<lparr>tok_sequence := 2, tok_source_watermark := 6, tok_operation_id := 9\<rparr>"

definition sample_ids :: "uuid \<Rightarrow> fresh_ids" where
  "sample_ids n = \<lparr>fr_next_revision = n, fr_close_revision = n + 1, fr_burst_id = n + 2,
    fr_burst_revision = n + 3\<rparr>"

lemmas burst_eval = operation_burst_validate_successor_def operation_burst_validate_def Let_def
  operation_burst_text_list_def operation_burst_ordered_members_def operation_burst_member_validate_def
  MAX_BURST_MEMBERS_def MAX_MEMBER_REFS_def MAX_TEXT_def blank_def checked_add_def ok_or_def
  starts_with_def btree_set_def member_from_token_def seen_from_burst_def can_extend_def
  BURST_ALGORITHM_REVISION_def MAX_BURST_ITEMS_def

lemma sample_push:
  "\<exists>f u. operation_burst_folder_push operation_burst_folder_new (sample_ids 100) sample_token = Ok (f, u)"
  by (simp add: operation_burst_folder_push_def operation_burst_folder_new_def folder_start_def
      new_burst_def sample_token_def sample_ids_def sample_burst_def burst_eval)

lemma sample_run:
  "\<exists>f us. folder_run operation_burst_folder_new
    [(sample_ids 100, sample_token), (sample_ids 200, sample_token2)] = Ok (f, us)"
  by (simp add: operation_burst_folder_push_def operation_burst_folder_new_def folder_start_def
      folder_extend_def extended_burst_def new_burst_def sample_token_def sample_token2_def sample_ids_def
      sample_burst_def burst_eval)

theorem folder_push_spec_witness:
  "\<exists>f u. operation_burst_folder_push operation_burst_folder_new (sample_ids 100) sample_token = Ok (f, u)
    \<and> fo_current f = Some (bfu_current u)"
  using sample_push folder_push_spec [OF _ folder_inv_new] by blast

theorem folder_push_idempotent_witness:
  "\<exists>f u. operation_burst_folder_push f (sample_ids 200) sample_token = Ok (f, u) \<and> bfu_no_delta u"
proof -
  obtain f u where "operation_burst_folder_push operation_burst_folder_new (sample_ids 100) sample_token
      = Ok (f, u)" using sample_push by blast
  from folder_push_idempotent [OF this, of "sample_ids 200"] show ?thesis by force
qed

theorem folder_run_partitions_witness:
  "\<exists>f us. folder_run operation_burst_folder_new
      [(sample_ids 100, sample_token), (sample_ids 200, sample_token2)] = Ok (f, us)
    \<and> (\<forall>b \<in> set (open_burst f). ob_lifecycle b = BurstOpen)"
  using sample_run folder_run_partitions by blast

end
