(* ===== verification/Detector.thy ===== *)
theory Detector
  imports Burst_Folder
begin

text \<open>
  The segmentation detector: \<open>evertrace-engine/src/segmentation/detector.rs\<close>. It follows
  one episode token by token, keeps a window of recent burst features and their
  distances, and moves the boundary state between provisional, candidate and confirmed.
  Distances and their statistics are natural numbers here: they stay far below the
  width of the source's integers (a distance is at most 23 and the window holds at most
  64 of them), which the development proves. \<open>integer_sqrt\<close> keeps the \<open>u64\<close> bound.
\<close>

definition MAX_ROLLING_TOKENS :: nat where "MAX_ROLLING_TOKENS = 64"
definition REFINEMENT_WINDOW :: u8 where "REFINEMENT_WINDOW = 8"
definition SURPRISE_GAMMA :: nat where "SURPRISE_GAMMA = 2"

datatype alignment_outcome = ContinueCurrentPhase | NewAttemptSameEpisode | CandidatePhaseTransition
  | RecoverableDeviation | WorkstreamSwitch

datatype gray_zone_disposition = GrayPending | GrayDisabled

record detector_update =
  du_episode_id :: work_episode_id
  du_token_watermark :: u64
  du_alignment :: alignment_outcome
  du_boundary_status :: boundary_status
  du_candidate_phase_kind :: "phase_kind option"
  du_candidate_watermark :: "u64 option"
  du_candidate_evidence_refs :: "source_observation_id list"
  du_candidate_kind :: "boundary_candidate_kind option"
  du_refinement_progress :: u8
  du_confirmation_watermark :: u64
  du_confirmation_evidence_refs :: "source_observation_id list"
  du_gray_zone :: gray_zone_disposition
  du_candidate_retracted :: bool

record burst_feature =
  bf_operation_kind :: operation_kind
  bf_target_family :: string
  bf_target_refs :: "string list"
  bf_error_signature :: "string option"
  bf_verifier :: operation_verifier_delta
  bf_state_delta :: operation_state_delta
  bf_phase_candidate :: "phase_kind option"

definition burst_feature_from_burst :: "operation_burst \<Rightarrow> burst_feature" where
  "burst_feature_from_burst b =
    \<lparr>bf_operation_kind = ob_operation_kind b, bf_target_family = ob_target_family b,
     bf_target_refs = ob_target_refs b, bf_error_signature = ob_error_signature b,
     bf_verifier = ob_verifier_delta b, bf_state_delta = ob_state_delta b,
     bf_phase_candidate = ob_phase_candidate b\<rparr>"

definition burst_feature_distance :: "burst_feature \<Rightarrow> burst_feature \<Rightarrow> nat" where
  "burst_feature_distance a b =
    of_bool (bf_operation_kind a \<noteq> bf_operation_kind b) * 3
    + of_bool (bf_target_refs a \<noteq> bf_target_refs b) * 3
    + of_bool (bf_target_family a \<noteq> bf_target_family b) * 3
    + of_bool (bf_error_signature a \<noteq> bf_error_signature b) * 3
    + of_bool (bf_verifier a \<noteq> bf_verifier b) * 4
    + of_bool (bf_state_delta a \<noteq> bf_state_delta b) * 3
    + of_bool (bf_phase_candidate a \<noteq> bf_phase_candidate b) * 4"

record recent_feature =
  rf_source_watermark :: u64
  rf_feature :: burst_feature
  rf_evidence_refs :: "source_observation_id list"

record candidate =
  ca_original_phase :: phase_kind
  ca_proposed_phase :: "phase_kind option"
  ca_source_watermark :: u64
  ca_evidence_refs :: "source_observation_id list"
  ca_kind :: boundary_candidate_kind
  ca_observations :: u8
  ca_feature :: burst_feature
  ca_left_feature :: "burst_feature option"

text \<open>The two \<open>VecDeque\<close>s are lists with the front first.\<close>

record segmentation_detector =
  de_task_id :: task_id
  de_workstream_id :: workstream_id
  de_episode_id :: work_episode_id
  de_phase_contract :: phase_contract
  de_rolling :: "recent_feature list"
  de_surprise_scores :: "nat list"
  de_last_sequence :: u64
  de_source_watermark :: u64
  de_last_attempt_id :: "attempt_id option"
  de_candidate :: "candidate option"
  de_boundary_status :: boundary_status
  de_confirmation_watermark :: u64

definition segmentation_detector_empty :: "work_episode \<Rightarrow> segmentation_detector" where
  "segmentation_detector_empty e =
    \<lparr>de_task_id = ep_task_id e, de_workstream_id = ep_workstream_id e, de_episode_id = ep_episode_id e,
     de_phase_contract = ep_phase_contract e, de_rolling = [], de_surprise_scores = [],
     de_last_sequence = 0, de_source_watermark = 0, de_last_attempt_id = None, de_candidate = None,
     de_boundary_status = BoundaryProvisional, de_confirmation_watermark = 0\<rparr>"

definition segmentation_detector_new ::
  "work_episode \<Rightarrow> (detector_error, segmentation_detector) result" where
  "segmentation_detector_new e =
    and_then (map_err (\<lambda>_. Ineligible) (work_episode_validate e)) (\<lambda>_.
    if ep_operation_burst_refs e \<noteq> [] \<or> is_some (ep_boundary_candidate e)
       \<or> ep_boundary_status e \<noteq> BoundaryProvisional
    then Err Ineligible else Ok (segmentation_detector_empty e))"

text \<open>\<open>back()\<close> of a deque.\<close>

definition deque_back :: "'a list \<Rightarrow> 'a option" where
  "deque_back xs = (if xs = [] then None else Some (last xs))"

text \<open>\<open>while scores.len() >= rolling.len() { scores.pop_front(); }\<close> drops the excess.\<close>

definition pop_excess :: "nat \<Rightarrow> 'a list \<Rightarrow> 'a list" where
  "pop_excess rolling scores = drop (length scores + 1 - rolling) scores"

definition record_feature :: "segmentation_detector \<Rightarrow> operation_burst \<Rightarrow> segmentation_detector" where
  "record_feature d b =
    (let feature = burst_feature_from_burst b;
         scores = (case deque_back (de_rolling d) of
             None \<Rightarrow> de_surprise_scores d
           | Some previous \<Rightarrow>
               de_surprise_scores d @ [burst_feature_distance (rf_feature previous) feature]);
         pushed = de_rolling d @ [\<lparr>rf_source_watermark = ob_source_watermark b, rf_feature = feature,
           rf_evidence_refs = sort_dedup (concat (map bm_source_observation_refs (ob_members b)))\<rparr>];
         rolling = (if length pushed > MAX_ROLLING_TOKENS then tl pushed else pushed)
     in d\<lparr>de_rolling := rolling, de_surprise_scores := pop_excess (length rolling) scores\<rparr>)"

text \<open>
  The binary search of \<open>integer_sqrt\<close>. \<open>checked_mul\<close> fails when the square does not fit
  in 64 bits. \<open>mid - 1\<close> cannot underflow because \<open>low\<close> starts at 1; the branch for
  \<open>mid = 0\<close> only makes the function total.
\<close>

function integer_sqrt_loop :: "nat \<Rightarrow> nat \<Rightarrow> nat \<Rightarrow> nat" where
  "integer_sqrt_loop v low high =
    (if low \<le> high then
       let mid = low + (high - low) div 2 in
       if mid * mid < 2 ^ 64 \<and> mid * mid = v then mid
       else if mid * mid < 2 ^ 64 \<and> mid * mid < v then integer_sqrt_loop v (mid + 1) high
       else if mid = 0 then 0 else integer_sqrt_loop v low (mid - 1)
     else high)"
  by auto
termination
  by (relation "measure (\<lambda>(v, low, high). high + 1 - low)") auto

declare integer_sqrt_loop.simps [simp del]

definition integer_sqrt :: "nat \<Rightarrow> nat" where
  "integer_sqrt v = (if v < 2 then v else integer_sqrt_loop v 1 (min v (2 ^ 32 - 1)))"

definition surprise_mean :: "nat list \<Rightarrow> nat" where
  "surprise_mean scores = sum_list scores div length scores"

definition surprise_variance :: "nat list \<Rightarrow> nat" where
  "surprise_variance scores =
    sum_list (map (\<lambda>v. nat ((int v - int (surprise_mean scores)) * (int v - int (surprise_mean scores)))) scores)
      div length scores"

definition is_structured_surprise :: "segmentation_detector \<Rightarrow> burst_feature \<Rightarrow> bool" where
  "is_structured_surprise d feature = (case deque_back (de_rolling d) of
      None \<Rightarrow> False
    | Some previous \<Rightarrow>
        if length (de_surprise_scores d) < 4 then False
        else burst_feature_distance (rf_feature previous) feature
          > surprise_mean (de_surprise_scores d)
            + SURPRISE_GAMMA * integer_sqrt (surprise_variance (de_surprise_scores d)))"

definition align ::
  "phase_kind \<Rightarrow> phase_kind option \<Rightarrow> operation_verifier_delta \<Rightarrow> bool \<Rightarrow> alignment_outcome" where
  "align current observed verifier attempt_changed =
    (if attempt_changed \<and> (case observed of None \<Rightarrow> True | Some phase \<Rightarrow> phase = current)
     then NewAttemptSameEpisode
     else if verifier = VerifierFailed \<and> observed \<in> {Some PhaseDiagnose, Some PhaseImplement}
     then RecoverableDeviation
     else if observed = Some PhaseRecover \<or> (current = PhaseExecute \<and> observed = Some PhaseAnalyze)
     then RecoverableDeviation
     else if is_some_and (\<lambda>phase. phase \<noteq> current) observed then CandidatePhaseTransition
     else ContinueCurrentPhase)"

definition detector_update_of ::
  "segmentation_detector \<Rightarrow> activity_token \<Rightarrow> alignment_outcome \<Rightarrow> bool \<Rightarrow> source_observation_id list
    \<Rightarrow> detector_update" where
  "detector_update_of d t alignment retracted confirmation_evidence_refs =
    \<lparr>du_episode_id = de_episode_id d, du_token_watermark = tok_source_watermark t,
     du_alignment = alignment, du_boundary_status = de_boundary_status d,
     du_candidate_phase_kind = Option.bind (de_candidate d) ca_proposed_phase,
     du_candidate_watermark = map_option ca_source_watermark (de_candidate d),
     du_candidate_evidence_refs = (case de_candidate d of None \<Rightarrow> [] | Some c \<Rightarrow> ca_evidence_refs c),
     du_candidate_kind = map_option ca_kind (de_candidate d),
     du_refinement_progress = (case de_candidate d of None \<Rightarrow> 0 | Some c \<Rightarrow> ca_observations c),
     du_confirmation_watermark = de_confirmation_watermark d,
     du_confirmation_evidence_refs = confirmation_evidence_refs,
     du_gray_zone = (if is_some (de_candidate d) then GrayPending else GrayDisabled),
     du_candidate_retracted = retracted\<rparr>"

text \<open>
  The block \<open>if let Some(candidate) = &mut self.candidate { .. }\<close>: the detector it leaves,
  the alignment, whether the candidate was retracted, and the confirmation evidence.
\<close>

definition refine_candidate ::
  "segmentation_detector \<Rightarrow> activity_token \<Rightarrow> burst_feature \<Rightarrow> alignment_outcome
    \<Rightarrow> (detector_error, segmentation_detector \<times> alignment_outcome \<times> bool \<times> source_observation_id list) result" where
  "refine_candidate d t feature alignment = (case de_candidate d of
      None \<Rightarrow> Ok (d, alignment, False, [])
    | Some before \<Rightarrow>
        and_then (if ca_observations before < REFINEMENT_WINDOW
          then and_then (ok_or Ineligible (checked_add (ca_observations before) 1)) (\<lambda>n.
            Ok (before\<lparr>ca_observations := n\<rparr>))
          else Ok before) (\<lambda>c.
        let returned_left = is_some_and (\<lambda>left.
              burst_feature_distance left feature < burst_feature_distance (ca_feature c) feature)
              (ca_left_feature c);
            observed = tok_observed_phase_kind t in
        if observed = Some (ca_original_phase c) \<or> returned_left then
          Ok (d\<lparr>de_candidate := None, de_boundary_status := BoundaryProvisional\<rparr>, alignment, True, [])
        else if ca_kind c = CandidateStructuredSurprise \<and> boundary_evidence_objective (tok_boundary_evidence t) then
          Ok (d\<lparr>de_candidate := Some (c\<lparr>ca_kind := CandidateObjective, ca_proposed_phase := observed,
                ca_source_watermark := tok_source_watermark t,
                ca_evidence_refs := tok_boundary_evidence_refs t, ca_observations := 0,
                ca_feature := feature\<rparr>)\<rparr>, CandidatePhaseTransition, False, [])
        else if ca_kind c = CandidateObjective
            \<and> tok_source_watermark t > ca_source_watermark c
            \<and> observed = ca_proposed_phase c
            \<and> boundary_evidence_objective (tok_boundary_evidence t) then
          Ok (d\<lparr>de_boundary_status := BoundaryConfirmed,
                de_confirmation_watermark := tok_source_watermark t, de_candidate := None\<rparr>,
              alignment, False, tok_boundary_evidence_refs t)
        else Ok (d\<lparr>de_candidate := Some c\<rparr>, alignment, False, [])))"

text \<open>The block that opens a candidate.\<close>

definition open_candidate ::
  "segmentation_detector \<Rightarrow> activity_token \<Rightarrow> burst_fold_update \<Rightarrow> burst_feature \<Rightarrow> alignment_outcome \<Rightarrow> bool
    \<Rightarrow> segmentation_detector \<times> alignment_outcome" where
  "open_candidate d t burst feature alignment retracted =
    (let observed = tok_observed_phase_kind t;
         expected = pc_phase_kind (de_phase_contract d);
         phase_change = is_some_and (\<lambda>phase. phase \<noteq> expected) observed;
         structured_surprise = bfu_started_new burst
           \<and> tok_boundary_evidence t = BoundaryEvidenceNone
           \<and> \<not> phase_change
           \<and> is_structured_surprise d feature
     in
     if de_candidate d = None
        \<and> de_boundary_status d \<noteq> BoundaryConfirmed
        \<and> \<not> retracted
        \<and> (tok_boundary_evidence t \<noteq> BoundaryEvidenceNone \<or> phase_change \<or> structured_surprise)
     then
       (d\<lparr>de_candidate := Some
            \<lparr>ca_original_phase = expected, ca_proposed_phase = observed,
             ca_source_watermark = tok_source_watermark t,
             ca_evidence_refs =
               (if structured_surprise
                then btree_set (concat (map bm_source_observation_refs (ob_members (bfu_current burst))))
                else tok_boundary_evidence_refs t),
             ca_kind = (if boundary_evidence_objective (tok_boundary_evidence t) \<or> phase_change
               then CandidateObjective else CandidateStructuredSurprise),
             ca_observations = 0, ca_feature = feature,
             ca_left_feature = map_option rf_feature (deque_back (de_rolling d))\<rparr>,
          de_boundary_status := BoundaryCandidate\<rparr>,
        if alignment \<noteq> RecoverableDeviation then CandidatePhaseTransition else alignment)
     else (d, alignment))"

definition segmentation_detector_push ::
  "segmentation_detector \<Rightarrow> activity_token \<Rightarrow> burst_fold_update
    \<Rightarrow> (detector_error, segmentation_detector \<times> detector_update) result" where
  "segmentation_detector_push d t burst =
    (if ob_source_watermark (bfu_current burst) \<noteq> tok_source_watermark t
        \<or> (\<forall>m \<in> set (ob_members (bfu_current burst)). bm_operation_id m \<noteq> tok_operation_id t)
     then Err Ineligible
     else if tok_workstream_id t \<noteq> de_workstream_id d
     then Ok (d, detector_update_of d t WorkstreamSwitch False [])
     else if tok_task_id t \<noteq> de_task_id d \<or> tok_episode_id t \<noteq> de_episode_id d
     then Err Ineligible
     else if tok_sequence t \<le> de_last_sequence d \<or> tok_source_watermark t \<le> de_source_watermark d
     then Err WatermarkRegression
     else
     let attempt_changed = is_some (de_last_attempt_id d) \<and> is_some (tok_attempt_id t)
           \<and> de_last_attempt_id d \<noteq> tok_attempt_id t;
         feature = burst_feature_from_burst (bfu_current burst) in
     and_then (refine_candidate d t feature
       (align (pc_phase_kind (de_phase_contract d)) (tok_observed_phase_kind t)
         (tok_verifier_transition t) attempt_changed)) (\<lambda>(d1, alignment1, retracted, confirmation_evidence).
     let (d2, alignment2) = open_candidate d1 t burst feature alignment1 retracted;
         d3 = d2\<lparr>de_last_sequence := tok_sequence t, de_source_watermark := tok_source_watermark t,
           de_last_attempt_id := tok_attempt_id t\<rparr>;
         update = detector_update_of d3 t alignment2 retracted confirmation_evidence
     in Ok (if bfu_started_new burst then record_feature d3 (bfu_current burst) else d3, update)))"

fun restore_loop ::
  "segmentation_detector \<Rightarrow> operation_burst list \<Rightarrow> (detector_error, segmentation_detector) result" where
  "restore_loop d [] = Ok d"
| "restore_loop d (b # bs) =
    and_then (ok_or Ineligible (map_option bm_sequence (deque_back (ob_members b)))) (\<lambda>sequence.
    restore_loop ((record_feature d b)\<lparr>de_last_sequence := sequence,
      de_source_watermark := ob_source_watermark b, de_last_attempt_id := ob_attempt_id b\<rparr>) bs)"

text \<open>\<open>iter().position(..)\<close>\<close>

fun position :: "('a \<Rightarrow> bool) \<Rightarrow> 'a list \<Rightarrow> nat option" where
  "position P [] = None"
| "position P (x # xs) = (if P x then Some 0 else map_option Suc (position P xs))"

definition restore_candidate ::
  "segmentation_detector \<Rightarrow> work_episode \<Rightarrow> boundary_candidate_state \<Rightarrow> (detector_error, candidate) result" where
  "restore_candidate d e value =
    and_then (ok_or Ineligible
      (position (\<lambda>item. rf_source_watermark item = bc_candidate_watermark value) (de_rolling d))) (\<lambda>index.
    let item = de_rolling d ! index in
    if bc_candidate_watermark value > ep_source_watermark e
       \<or> ep_confirmation_watermark e \<noteq> 0
       \<or> (\<exists>i \<in> set (bc_evidence_refs value). i \<notin> set (rf_evidence_refs item))
    then Err Ineligible
    else Ok \<lparr>ca_original_phase = pc_phase_kind (ep_phase_contract e),
      ca_proposed_phase = bc_candidate_phase_kind value,
      ca_source_watermark = bc_candidate_watermark value,
      ca_evidence_refs = bc_evidence_refs value, ca_kind = bc_kind value,
      ca_observations = bc_refinement_progress value, ca_feature = rf_feature item,
      ca_left_feature = (if index = 0 then None else Some (rf_feature (de_rolling d ! (index - 1))))\<rparr>)"

definition segmentation_detector_restore ::
  "work_episode \<Rightarrow> operation_burst list \<Rightarrow> (detector_error, segmentation_detector) result" where
  "segmentation_detector_restore e recent_bursts =
    and_then (map_err (\<lambda>_. Ineligible) (work_episode_validate e)) (\<lambda>_.
    if length recent_bursts > MAX_ROLLING_TOKENS
       \<or> length (btree_set (map ob_operation_burst_id recent_bursts)) \<noteq> length recent_bursts
       \<or> (\<exists>b \<in> set recent_bursts. \<not> is_ok (operation_burst_validate b)
            \<or> ob_operation_burst_id b \<notin> set (ep_operation_burst_refs e))
       \<or> \<not> windows_all (\<lambda>a b. ob_source_watermark a < ob_source_watermark b) recent_bursts
    then Err Ineligible
    else
    and_then (restore_loop (segmentation_detector_empty e) recent_bursts) (\<lambda>d0.
    let d = d0\<lparr>de_source_watermark := max (ep_source_watermark e) (de_source_watermark d0),
          de_boundary_status := ep_boundary_status e,
          de_confirmation_watermark := ep_confirmation_watermark e\<rparr> in
    case ep_boundary_candidate e of
      None \<Rightarrow> Ok (d\<lparr>de_candidate := None\<rparr>)
    | Some value \<Rightarrow> and_then (restore_candidate d e value) (\<lambda>c. Ok (d\<lparr>de_candidate := Some c\<rparr>))))"

section \<open>Integer square root\<close>

lemma integer_sqrt_loop_spec:
  assumes "1 \<le> low" and "low \<le> high + 1" and "high < 2 ^ 32"
    and "(low - 1) * (low - 1) \<le> v" and "v < (high + 1) * (high + 1)"
  shows "integer_sqrt_loop v low high * integer_sqrt_loop v low high \<le> v
    \<and> v < (integer_sqrt_loop v low high + 1) * (integer_sqrt_loop v low high + 1)"
  using assms
proof (induction v low high rule: integer_sqrt_loop.induct)
  case (1 v low high)
  show ?case
  proof (cases "low \<le> high")
    case False
    then have "integer_sqrt_loop v low high = high" by (simp add: integer_sqrt_loop.simps [of v low high])
    moreover have "high = low - 1" using False "1.prems"(1,2) by simp
    ultimately show ?thesis using "1.prems"(4,5) by simp
  next
    case True
    define mid where "mid = low + (high - low) div 2"
    have mid: "low \<le> mid" "mid \<le> high" using True by (auto simp: mid_def)
    have "mid < 2 ^ 32" using mid "1.prems"(3) by simp
    then have fits: "mid * mid < 2 ^ 64"
      using mult_strict_mono [of mid "2 ^ 32" mid "2 ^ 32"] by simp
    consider (eq) "mid * mid = v" | (less) "mid * mid < v" | (greater) "v < mid * mid" by linarith
    then show ?thesis
    proof cases
      case eq
      then show ?thesis using True fits
        by (simp add: integer_sqrt_loop.simps [of v low high] mid_def [symmetric])
    next
      case less
      have "integer_sqrt_loop v low high = integer_sqrt_loop v (mid + 1) high"
        using True fits less by (simp add: integer_sqrt_loop.simps [of v low high] mid_def [symmetric])
      moreover have "integer_sqrt_loop v (mid + 1) high * integer_sqrt_loop v (mid + 1) high \<le> v
        \<and> v < (integer_sqrt_loop v (mid + 1) high + 1) * (integer_sqrt_loop v (mid + 1) high + 1)"
        using less mid fits "1.prems" by (intro "1.IH"(1) [OF True mid_def]) auto
      ultimately show ?thesis by simp
    next
      case greater
      have "mid \<noteq> 0" using greater by (cases mid) auto
      have "integer_sqrt_loop v low high = integer_sqrt_loop v low (mid - 1)"
        using True greater \<open>mid \<noteq> 0\<close>
        by (simp add: integer_sqrt_loop.simps [of v low high] mid_def [symmetric])
      moreover have "integer_sqrt_loop v low (mid - 1) * integer_sqrt_loop v low (mid - 1) \<le> v
        \<and> v < (integer_sqrt_loop v low (mid - 1) + 1) * (integer_sqrt_loop v low (mid - 1) + 1)"
        using greater mid \<open>mid \<noteq> 0\<close> "1.prems" by (intro "1.IH"(2) [OF True mid_def]) auto
      ultimately show ?thesis by simp
    qed
  qed
qed

lemma integer_sqrt_spec:
  assumes "v < 2 ^ 64"
  shows "integer_sqrt v * integer_sqrt v \<le> v \<and> v < (integer_sqrt v + 1) * (integer_sqrt v + 1)"
proof (cases "v < 2")
  case True
  then show ?thesis by (auto simp: integer_sqrt_def less_Suc_eq numeral_2_eq_2)
next
  case False
  let ?high = "min v (2 ^ 32 - 1)"
  have "v < (?high + 1) * (?high + 1)"
  proof (cases "v \<le> 2 ^ 32 - 1")
    case True
    then show ?thesis by (simp add: min_absorb1)
  next
    case False
    then show ?thesis using assms by (simp add: min_def)
  qed
  moreover have "?high < 2 ^ 32" by (simp add: min_def)
  moreover have "1 \<le> ?high + 1" by simp
  ultimately show ?thesis
    using False integer_sqrt_loop_spec [of 1 ?high v] by (simp add: integer_sqrt_def)
qed

text \<open>
  C39. The integer square root of every 64-bit value is exact: its square does not exceed
  the value and the square of its successor does. The search always terminates.
\<close>

theorem integer_sqrt_correct:
  assumes "v < 2 ^ 64"
  shows "integer_sqrt v * integer_sqrt v \<le> v \<and> v < (integer_sqrt v + 1) * (integer_sqrt v + 1)"
  by (rule integer_sqrt_spec [OF assms])

theorem integer_sqrt_correct_witness: "integer_sqrt 529 * integer_sqrt 529 \<le> 529"
  using integer_sqrt_correct [of 529] by simp

section \<open>The feature window\<close>

lemma burst_feature_distance_le: "burst_feature_distance a b \<le> 23"
  by (simp add: burst_feature_distance_def of_bool_def)

lemma burst_feature_distance_self [simp]: "burst_feature_distance a a = 0"
  by (simp add: burst_feature_distance_def)

lemma burst_feature_distance_sym: "burst_feature_distance a b = burst_feature_distance b a"
  by (simp add: burst_feature_distance_def eq_commute)

definition window_inv :: "segmentation_detector \<Rightarrow> bool" where
  "window_inv d \<longleftrightarrow> length (de_rolling d) \<le> 64
    \<and> length (de_surprise_scores d) = length (de_rolling d) - 1
    \<and> (\<forall>s \<in> set (de_surprise_scores d). s \<le> 23)"

lemma window_inv_record_feature:
  assumes "window_inv d"
  shows "window_inv (record_feature d b)"
proof -
  define feature where "feature = burst_feature_from_burst b"
  define scores where "scores = (case deque_back (de_rolling d) of
      None \<Rightarrow> de_surprise_scores d
    | Some previous \<Rightarrow> de_surprise_scores d @ [burst_feature_distance (rf_feature previous) feature])"
  have len: "length scores = length (de_rolling d)"
    using assms by (auto simp: scores_def deque_back_def window_inv_def)
  have "\<forall>s \<in> set scores. s \<le> 23"
    using assms burst_feature_distance_le
    by (auto simp: scores_def window_inv_def deque_back_def)
  then have le: "\<forall>s \<in> set (pop_excess n scores). s \<le> 23" for n
    by (auto simp: pop_excess_def dest: in_set_dropD)
  show ?thesis
    using assms le len
    by (simp add: record_feature_def Let_def scores_def [symmetric] feature_def [symmetric] window_inv_def
        MAX_ROLLING_TOKENS_def pop_excess_def)
qed

lemma sum_list_bound: "(\<forall>s \<in> set xs. s \<le> k) \<Longrightarrow> sum_list xs \<le> length xs * (k :: nat)"
  by (induction xs) auto

text \<open>
  The surprise statistics cannot overflow: in every detector that satisfies the
  window invariant each score is at most 23, the sum of the scores at most 1449, the mean
  at most 23, the variance at most 529, the square root at most 23 and the threshold at
  most 69; so the 32- and 64-bit arithmetic of the source computes exactly these numbers.
\<close>

theorem surprise_statistics_bounded:
  assumes "window_inv d" and "de_surprise_scores d \<noteq> []"
  shows "sum_list (de_surprise_scores d) \<le> 1449
    \<and> surprise_mean (de_surprise_scores d) \<le> 23
    \<and> surprise_variance (de_surprise_scores d) \<le> 529
    \<and> integer_sqrt (surprise_variance (de_surprise_scores d)) \<le> 23
    \<and> surprise_mean (de_surprise_scores d)
        + SURPRISE_GAMMA * integer_sqrt (surprise_variance (de_surprise_scores d)) \<le> 69"
proof -
  let ?xs = "de_surprise_scores d"
  let ?m = "surprise_mean ?xs"
  have len: "length ?xs \<le> 63" and le: "\<forall>s \<in> set ?xs. s \<le> 23"
    using assms(1) by (auto simp: window_inv_def)
  have pos: "0 < length ?xs" using assms(2) by simp
  have sum: "sum_list ?xs \<le> length ?xs * 23" by (rule sum_list_bound [OF le])
  then have m: "?m \<le> 23" using pos unfolding surprise_mean_def
    by (metis div_le_mono nonzero_mult_div_cancel_left less_not_refl)
  have "nat ((int v - int ?m) * (int v - int ?m)) \<le> 529" if "v \<le> 23" for v
  proof -
    have "\<bar>int v - int ?m\<bar> \<le> 23" using that m by linarith
    then have "\<bar>int v - int ?m\<bar> * \<bar>int v - int ?m\<bar> \<le> 23 * 23"
      by (intro mult_mono) auto
    then show ?thesis by (simp add: abs_mult_self_eq)
  qed
  then have "sum_list (map (\<lambda>v. nat ((int v - int ?m) * (int v - int ?m))) ?xs) \<le> length ?xs * 529"
    using le sum_list_bound [of "map (\<lambda>v. nat ((int v - int ?m) * (int v - int ?m))) ?xs" 529] by auto
  then have v: "surprise_variance ?xs \<le> 529" using pos unfolding surprise_variance_def
    by (metis div_le_mono nonzero_mult_div_cancel_left less_not_refl)
  have "integer_sqrt (surprise_variance ?xs) * integer_sqrt (surprise_variance ?xs) \<le> 529"
    using integer_sqrt_spec [of "surprise_variance ?xs"] v by simp
  then have s: "integer_sqrt (surprise_variance ?xs) \<le> 23"
    using mult_le_mono [of 24 "integer_sqrt (surprise_variance ?xs)" 24 "integer_sqrt (surprise_variance ?xs)"]
    by (cases "integer_sqrt (surprise_variance ?xs) \<le> 23") auto
  show ?thesis using sum len m v s by (simp add: SURPRISE_GAMMA_def)
qed

section \<open>The boundary state machine\<close>

definition candidate_inv :: "segmentation_detector \<Rightarrow> u64 \<Rightarrow> candidate \<Rightarrow> bool" where
  "candidate_inv d w c \<longleftrightarrow> ca_observations c \<le> 8 \<and> 0 < ca_source_watermark c \<and> ca_source_watermark c \<le> w
    \<and> ca_evidence_refs c \<noteq> [] \<and> ca_original_phase c = pc_phase_kind (de_phase_contract d)"

text \<open>The boundary part of the invariant, for a detector that has read up to watermark \<open>w\<close>.\<close>

definition boundary_inv :: "segmentation_detector \<Rightarrow> u64 \<Rightarrow> bool" where
  "boundary_inv d w \<longleftrightarrow>
    (de_boundary_status d = BoundaryCandidate \<longleftrightarrow> de_candidate d \<noteq> None)
    \<and> (de_boundary_status d = BoundaryConfirmed \<longleftrightarrow> de_confirmation_watermark d \<noteq> 0)
    \<and> de_confirmation_watermark d \<le> w
    \<and> (\<forall>c. de_candidate d = Some c \<longrightarrow> candidate_inv d w c)"

definition detector_inv :: "segmentation_detector \<Rightarrow> bool" where
  "detector_inv d \<longleftrightarrow> window_inv d \<and> boundary_inv d (de_source_watermark d)"

definition same_frame :: "segmentation_detector \<Rightarrow> segmentation_detector \<Rightarrow> bool" where
  "same_frame d e \<longleftrightarrow> de_task_id e = de_task_id d \<and> de_workstream_id e = de_workstream_id d
    \<and> de_episode_id e = de_episode_id d \<and> de_phase_contract e = de_phase_contract d
    \<and> de_rolling e = de_rolling d \<and> de_surprise_scores e = de_surprise_scores d"

lemma detector_inv_empty: "detector_inv (segmentation_detector_empty e)"
  by (simp add: detector_inv_def window_inv_def boundary_inv_def segmentation_detector_empty_def)

text \<open>The step of the refinement counter.\<close>

lemma refine_counter:
  assumes "ca_observations c \<le> 8"
  shows "\<exists>n. (if ca_observations c < REFINEMENT_WINDOW
      then and_then (ok_or Ineligible (checked_add (ca_observations c) 1)) (\<lambda>n. Ok (c\<lparr>ca_observations := n\<rparr>))
      else Ok c) = Ok (c\<lparr>ca_observations := n\<rparr>) \<and> n \<le> 8"
proof (cases "ca_observations c < REFINEMENT_WINDOW")
  case True
  then have lt: "ca_observations c < 8" by (simp add: REFINEMENT_WINDOW_def)
  then have "unat (ca_observations c) < 8" by (simp add: word_less_nat_alt)
  then have add: "checked_add (ca_observations c) 1 = Some (ca_observations c + 1)"
    by (simp add: checked_add_def)
  have "ca_observations c + 1 \<le> 8" using lt by (simp add: inc_le)
  then show ?thesis using True add by (auto simp: ok_or_def)
next
  case False
  then have "ca_observations c \<le> 8" using assms by simp
  with False show ?thesis by (intro exI [of _ "ca_observations c"]) simp
qed

lemma refine_candidate_total:
  assumes "boundary_inv d w"
  shows "\<exists>x. refine_candidate d t feature alignment = Ok x"
proof (cases "de_candidate d")
  case None
  then have "refine_candidate d t feature alignment = Ok (d, alignment, False, [])"
    by (simp add: refine_candidate_def)
  then show ?thesis by blast
next
  case (Some c)
  then have "ca_observations c \<le> 8" using assms by (simp add: boundary_inv_def candidate_inv_def)
  from refine_counter [OF this] show ?thesis
    using Some by (auto simp: refine_candidate_def Let_def split: if_splits)
qed

text \<open>The outcomes of the refinement block.\<close>

lemma refine_candidate_cases:
  assumes "refine_candidate d t feature alignment = Ok (d1, a, r, ev)" and "boundary_inv d w"
  obtains (none) "de_candidate d = None" "d1 = d" "\<not> r" "ev = []"
    | (retract) c where "de_candidate d = Some c" "r" "ev = []"
        "d1 = d\<lparr>de_candidate := None, de_boundary_status := BoundaryProvisional\<rparr>"
    | (upgrade) c n where "de_candidate d = Some c" "\<not> r" "ev = []"
        "boundary_evidence_objective (tok_boundary_evidence t)" "ca_kind c = CandidateStructuredSurprise"
        "d1 = d\<lparr>de_candidate := Some (c\<lparr>ca_observations := n, ca_kind := CandidateObjective,
          ca_proposed_phase := tok_observed_phase_kind t, ca_source_watermark := tok_source_watermark t,
          ca_evidence_refs := tok_boundary_evidence_refs t, ca_observations := 0, ca_feature := feature\<rparr>)\<rparr>"
    | (confirm) c where "de_candidate d = Some c" "\<not> r" "ev = tok_boundary_evidence_refs t"
        "ca_kind c = CandidateObjective" "ca_source_watermark c < tok_source_watermark t"
        "tok_observed_phase_kind t = ca_proposed_phase c"
        "tok_observed_phase_kind t \<noteq> Some (ca_original_phase c)"
        "boundary_evidence_objective (tok_boundary_evidence t)"
        "d1 = d\<lparr>de_boundary_status := BoundaryConfirmed,
          de_confirmation_watermark := tok_source_watermark t, de_candidate := None\<rparr>"
    | (hold) c n where "de_candidate d = Some c" "\<not> r" "ev = []" "n \<le> 8"
        "d1 = d\<lparr>de_candidate := Some (c\<lparr>ca_observations := n\<rparr>)\<rparr>"
proof (cases "de_candidate d")
  case None
  then show thesis
    using assms(1) by (intro none) (simp_all add: refine_candidate_def)
next
  case (Some c)
  then have "ca_observations c \<le> 8" using assms(2) by (simp add: boundary_inv_def candidate_inv_def)
  from refine_counter [OF this] obtain n where n: "n \<le> 8"
    "(if ca_observations c < REFINEMENT_WINDOW
      then and_then (ok_or Ineligible (checked_add (ca_observations c) 1)) (\<lambda>n. Ok (c\<lparr>ca_observations := n\<rparr>))
      else Ok c) = Ok (c\<lparr>ca_observations := n\<rparr>)" by blast
  note eval = assms(1) [unfolded refine_candidate_def Some option.case n(2) and_then.simps Let_def]
  let ?left = "is_some_and (\<lambda>left. burst_feature_distance left feature
    < burst_feature_distance (ca_feature (c\<lparr>ca_observations := n\<rparr>)) feature) (ca_left_feature (c\<lparr>ca_observations := n\<rparr>))"
  let ?rev = "tok_observed_phase_kind t = Some (ca_original_phase (c\<lparr>ca_observations := n\<rparr>)) \<or> ?left"
  let ?up = "ca_kind (c\<lparr>ca_observations := n\<rparr>) = CandidateStructuredSurprise
    \<and> boundary_evidence_objective (tok_boundary_evidence t)"
  let ?conf = "ca_kind (c\<lparr>ca_observations := n\<rparr>) = CandidateObjective
    \<and> tok_source_watermark t > ca_source_watermark (c\<lparr>ca_observations := n\<rparr>)
    \<and> tok_observed_phase_kind t = ca_proposed_phase (c\<lparr>ca_observations := n\<rparr>)
    \<and> boundary_evidence_objective (tok_boundary_evidence t)"
  consider ?rev | "\<not> ?rev" ?up | "\<not> ?rev" "\<not> ?up" ?conf | "\<not> ?rev" "\<not> ?up" "\<not> ?conf" by blast
  then show thesis
  proof cases
    case 1
    show thesis
      using eval by (intro retract [OF Some]) (simp_all only: 1 if_True sum.inject prod.inject)
  next
    case 2
    then have up: "boundary_evidence_objective (tok_boundary_evidence t)"
        "ca_kind c = CandidateStructuredSurprise" by simp_all
    show thesis
      using eval
      by (intro upgrade [OF Some _ _ up, where n = n])
        (simp_all only: 2 if_True if_False sum.inject prod.inject, simp_all)
  next
    case 3
    from 3(3) have conf: "ca_kind c = CandidateObjective" "ca_source_watermark c < tok_source_watermark t"
        "tok_observed_phase_kind t = ca_proposed_phase c" by simp_all
    have orig: "tok_observed_phase_kind t \<noteq> Some (ca_original_phase c)"
      and obj: "boundary_evidence_objective (tok_boundary_evidence t)" using 3 by simp_all
    note eval [unfolded if_not_P [OF 3(1)] if_not_P [OF 3(2)] if_P [OF 3(3)] sum.inject prod.inject]
    then show thesis by (intro confirm [OF Some _ _ conf orig obj]) simp_all
  next
    case 4
    note eval [unfolded if_not_P [OF 4(1)] if_not_P [OF 4(2)] if_not_P [OF 4(3)] sum.inject prod.inject]
    then show thesis using n(1) by (intro hold [OF Some, where n = n]) simp_all
  qed
qed

text \<open>What the two blocks of a push do to the boundary part of the invariant.\<close>

lemma candidate_inv_frame:
  "de_phase_contract e = de_phase_contract d \<Longrightarrow> candidate_inv e w c = candidate_inv d w c"
  by (simp add: candidate_inv_def)

lemma refine_candidate_same_frame:
  assumes "refine_candidate d t feature alignment = Ok (d1, a, r, ev)" and "boundary_inv d w"
  shows "same_frame d d1"
  by (rule refine_candidate_cases [OF assms]) (simp_all add: same_frame_def)

lemma refine_candidate_boundary_inv:
  assumes "refine_candidate d t feature alignment = Ok (d1, a, r, ev)" and inv: "boundary_inv d w"
    and w: "w < tok_source_watermark t"
    and ne: "boundary_evidence_objective (tok_boundary_evidence t) \<Longrightarrow> tok_boundary_evidence_refs t \<noteq> []"
  shows "boundary_inv d1 (tok_source_watermark t)"
proof -
  let ?w = "tok_source_watermark t"
  have pos: "0 < ?w" using w by (metis word_coorder.not_eq_extremum not_less_iff_gr_or_eq word_not_simps(1))
  have up: "candidate_inv d ?w c" if "de_candidate d = Some c" for c
    using inv that w by (auto simp: boundary_inv_def candidate_inv_def)
  have conf: "de_confirmation_watermark d \<le> ?w" using inv w by (auto simp: boundary_inv_def)
  have st: "de_boundary_status d = BoundaryCandidate \<longleftrightarrow> de_candidate d \<noteq> None"
      "de_boundary_status d = BoundaryConfirmed \<longleftrightarrow> de_confirmation_watermark d \<noteq> 0"
    using inv by (simp_all add: boundary_inv_def)
  show ?thesis
  proof (rule refine_candidate_cases [OF assms(1) inv])
    assume "de_candidate d = None" "d1 = d"
    then show ?thesis using st conf by (simp add: boundary_inv_def)
  next
    fix c assume "de_candidate d = Some c"
      "d1 = d\<lparr>de_candidate := None, de_boundary_status := BoundaryProvisional\<rparr>"
    then show ?thesis using st by (simp add: boundary_inv_def)
  next
    fix c n
    assume c: "de_candidate d = Some c" and obj: "boundary_evidence_objective (tok_boundary_evidence t)"
      and d1: "d1 = d\<lparr>de_candidate := Some (c\<lparr>ca_observations := n, ca_kind := CandidateObjective,
          ca_proposed_phase := tok_observed_phase_kind t, ca_source_watermark := ?w,
          ca_evidence_refs := tok_boundary_evidence_refs t, ca_observations := 0, ca_feature := feature\<rparr>)\<rparr>"
    show ?thesis
      using st conf c up [OF c] ne [OF obj] pos by (simp add: boundary_inv_def candidate_inv_def d1)
  next
    fix c
    assume "de_candidate d = Some c"
      "d1 = d\<lparr>de_boundary_status := BoundaryConfirmed, de_confirmation_watermark := ?w, de_candidate := None\<rparr>"
    then show ?thesis using pos by (simp add: boundary_inv_def)
  next
    fix c n
    assume c: "de_candidate d = Some c" and n: "n \<le> 8"
      and d1: "d1 = d\<lparr>de_candidate := Some (c\<lparr>ca_observations := n\<rparr>)\<rparr>"
    show ?thesis
      using st conf c up [OF c] n by (simp add: boundary_inv_def candidate_inv_def d1)
  qed
qed

lemma burst_observations_nonempty:
  assumes "operation_burst_validate b = Ok ()"
  shows "concat (map bm_source_observation_refs (ob_members b)) \<noteq> []"
proof -
  have om: "operation_burst_ordered_members (ob_members b)"
    using assms by (simp add: operation_burst_validate_def Let_def split: if_splits)
  then obtain m ms where m: "ob_members b = m # ms"
    by (cases "ob_members b") (simp_all add: operation_burst_ordered_members_def)
  have "bm_source_observation_refs m \<noteq> []"
    using om m by (simp add: operation_burst_ordered_members_def operation_burst_member_validate_def)
  then show ?thesis using m by simp
qed

lemma btree_set_nonempty: "xs \<noteq> [] \<Longrightarrow> btree_set xs \<noteq> []"
  by (metis set_btree_set set_empty)

lemma open_candidate_same_frame: "open_candidate d t u f al r = (d2, a) \<Longrightarrow> same_frame d d2"
  by (auto simp: open_candidate_def Let_def same_frame_def split: if_splits)

lemma open_candidate_confirmed:
  "open_candidate d t u f al r = (d2, a) \<Longrightarrow>
    (de_boundary_status d2 = BoundaryConfirmed \<longleftrightarrow> de_boundary_status d = BoundaryConfirmed)
    \<and> de_confirmation_watermark d2 = de_confirmation_watermark d"
  by (auto simp: open_candidate_def Let_def split: if_splits)

lemma open_candidate_boundary_inv:
  assumes "open_candidate d t u f al r = (d2, a)" and inv: "boundary_inv d (tok_source_watermark t)"
    and wf: "token_well_formed t" and valid: "operation_burst_validate (bfu_current u) = Ok ()"
  shows "boundary_inv d2 (tok_source_watermark t)"
proof (cases "d2 = d")
  case True then show ?thesis using inv by simp
next
  case False
  let ?surprise = "bfu_started_new u \<and> tok_boundary_evidence t = BoundaryEvidenceNone
      \<and> \<not> is_some_and (\<lambda>phase. phase \<noteq> pc_phase_kind (de_phase_contract d)) (tok_observed_phase_kind t)
      \<and> is_structured_surprise d f"
  let ?refs = "if ?surprise
      then btree_set (concat (map bm_source_observation_refs (ob_members (bfu_current u))))
      else tok_boundary_evidence_refs t"
  from False assms(1) obtain k where d2: "d2 = d\<lparr>de_candidate := Some
            \<lparr>ca_original_phase = pc_phase_kind (de_phase_contract d),
             ca_proposed_phase = tok_observed_phase_kind t,
             ca_source_watermark = tok_source_watermark t, ca_evidence_refs = ?refs, ca_kind = k,
             ca_observations = 0, ca_feature = f,
             ca_left_feature = map_option rf_feature (deque_back (de_rolling d))\<rparr>,
          de_boundary_status := BoundaryCandidate\<rparr>"
      and st: "de_boundary_status d \<noteq> BoundaryConfirmed"
      and why: "tok_boundary_evidence t \<noteq> BoundaryEvidenceNone
        \<or> is_some_and (\<lambda>phase. phase \<noteq> pc_phase_kind (de_phase_contract d)) (tok_observed_phase_kind t)
        \<or> ?surprise"
    by (auto simp: open_candidate_def Let_def split: if_splits)
  have "?refs \<noteq> []"
  proof (cases ?surprise)
    case True
    then show ?thesis using btree_set_nonempty [OF burst_observations_nonempty [OF valid]] by simp
  next
    case False
    then have "tok_boundary_evidence t \<noteq> BoundaryEvidenceNone \<or> tok_observed_phase_kind t \<noteq> None"
      using why by (auto simp: is_some_and_def split: option.splits)
    then show ?thesis using wf False by (auto simp: token_well_formed_def)
  qed
  moreover have "0 < tok_source_watermark t"
    using wf by (simp add: token_well_formed_def word_neq_0_conv)
  ultimately show ?thesis
    using inv st by (simp add: d2 boundary_inv_def candidate_inv_def)
qed

lemma record_feature_frame:
  "de_boundary_status (record_feature d b) = de_boundary_status d"
  "de_candidate (record_feature d b) = de_candidate d"
  "de_confirmation_watermark (record_feature d b) = de_confirmation_watermark d"
  "de_source_watermark (record_feature d b) = de_source_watermark d"
  "de_last_sequence (record_feature d b) = de_last_sequence d"
  "de_last_attempt_id (record_feature d b) = de_last_attempt_id d"
  "de_phase_contract (record_feature d b) = de_phase_contract d"
  "de_task_id (record_feature d b) = de_task_id d"
  "de_workstream_id (record_feature d b) = de_workstream_id d"
  "de_episode_id (record_feature d b) = de_episode_id d"
  by (simp_all add: record_feature_def Let_def)

lemma boundary_inv_record_feature: "boundary_inv (record_feature d b) w = boundary_inv d w"
  by (simp add: boundary_inv_def candidate_inv_def record_feature_frame)

text \<open>A push is either a foreign workstream, which changes nothing, or a step through the two blocks.\<close>

lemma detector_pushE [consumes 1, case_names switch step]:
  assumes "segmentation_detector_push d t u = Ok (d', r)"
  obtains "tok_workstream_id t \<noteq> de_workstream_id d" "d' = d" "du_alignment r = WorkstreamSwitch"
    | d1 a1 rt ev d2 a2 d3 al where
      "tok_workstream_id t = de_workstream_id d" "tok_task_id t = de_task_id d"
      "tok_episode_id t = de_episode_id d" "de_last_sequence d < tok_sequence t"
      "de_source_watermark d < tok_source_watermark t"
      "refine_candidate d t (burst_feature_from_burst (bfu_current u)) al = Ok (d1, a1, rt, ev)"
      "open_candidate d1 t u (burst_feature_from_burst (bfu_current u)) a1 rt = (d2, a2)"
      "d3 = d2\<lparr>de_last_sequence := tok_sequence t, de_source_watermark := tok_source_watermark t,
           de_last_attempt_id := tok_attempt_id t\<rparr>"
      "d' = (if bfu_started_new u then record_feature d3 (bfu_current u) else d3)"
      "r = detector_update_of d3 t a2 rt ev"
proof (cases "tok_workstream_id t = de_workstream_id d")
  case False
  then show thesis
    using assms by (intro that(1)) (auto simp: segmentation_detector_push_def detector_update_of_def split: if_splits)
next
  case True
  let ?f = "burst_feature_from_burst (bfu_current u)"
  let ?al = "align (pc_phase_kind (de_phase_contract d)) (tok_observed_phase_kind t)
    (tok_verifier_transition t) (is_some (de_last_attempt_id d) \<and> is_some (tok_attempt_id t)
      \<and> de_last_attempt_id d \<noteq> tok_attempt_id t)"
  have guards: "tok_task_id t = de_task_id d" "tok_episode_id t = de_episode_id d"
      "de_last_sequence d < tok_sequence t" "de_source_watermark d < tok_source_watermark t"
    and body: "and_then (refine_candidate d t ?f ?al) (\<lambda>(d1, a1, rt, ev).
      let (d2, a2) = open_candidate d1 t u ?f a1 rt;
          d3 = d2\<lparr>de_last_sequence := tok_sequence t, de_source_watermark := tok_source_watermark t,
            de_last_attempt_id := tok_attempt_id t\<rparr>;
          update = detector_update_of d3 t a2 rt ev
      in Ok (if bfu_started_new u then record_feature d3 (bfu_current u) else d3, update)) = Ok (d', r)"
    using assms True unfolding segmentation_detector_push_def Let_def
    by (simp_all only: not_le not_True_eq_False if_False split: if_splits) auto
  then obtain d1 a1 rt ev where 1: "refine_candidate d t ?f ?al = Ok (d1, a1, rt, ev)"
    by (auto simp: result_simps)
  obtain d2 a2 where 2: "open_candidate d1 t u ?f a1 rt = (d2, a2)" by fastforce
  show thesis
    using body [unfolded 1]
    by (intro that(2) [OF True guards 1 2 refl]) (simp_all add: 2 Let_def)
qed

lemma detector_push_inv:
  assumes "segmentation_detector_push d t u = Ok (d', r)" and inv: "detector_inv d"
    and wf: "token_well_formed t" and valid: "operation_burst_validate (bfu_current u) = Ok ()"
  shows "detector_inv d'"
  using assms(1)
proof (cases rule: detector_pushE)
  case switch then show ?thesis using inv by simp
next
  case (step d1 a1 rt ev d2 a2 d3 al)
  let ?w = "tok_source_watermark t"
  have b: "boundary_inv d (de_source_watermark d)" and w: "window_inv d"
    using inv by (simp_all add: detector_inv_def)
  have "tok_boundary_evidence_refs t \<noteq> []" if "boundary_evidence_objective (tok_boundary_evidence t)"
    using that wf by (auto simp: token_well_formed_def boundary_evidence_objective_def)
  then have "boundary_inv d1 ?w" by (rule refine_candidate_boundary_inv [OF step(6) b step(5)])
  then have "boundary_inv d2 ?w" by (rule open_candidate_boundary_inv [OF step(7) _ wf valid])
  then have b3: "boundary_inv d3 ?w" by (simp add: step(8) boundary_inv_def candidate_inv_def)
  have "same_frame d d2"
    using refine_candidate_same_frame [OF step(6) b] open_candidate_same_frame [OF step(7)]
    by (simp add: same_frame_def)
  then have w3: "window_inv d3" using w by (simp add: step(8) window_inv_def same_frame_def)
  show ?thesis
    using b3 w3 window_inv_record_feature [OF w3, of "bfu_current u"]
    by (simp add: step(9) detector_inv_def boundary_inv_record_feature record_feature_frame step(8))
qed

lemma refine_candidate_confirmed:
  assumes "refine_candidate d t feature alignment = Ok (d1, a, r, ev)" and inv: "boundary_inv d w"
    and "de_boundary_status d = BoundaryConfirmed"
  shows "d1 = d"
proof -
  have "de_candidate d = None" using inv assms(3) by (auto simp: boundary_inv_def)
  then show ?thesis using assms(1) by (simp add: refine_candidate_def)
qed

definition confirmed_by :: "segmentation_detector \<Rightarrow> activity_token \<Rightarrow> candidate \<Rightarrow> bool" where
  "confirmed_by d t c \<longleftrightarrow> de_candidate d = Some c \<and> ca_kind c = CandidateObjective
    \<and> ca_source_watermark c < tok_source_watermark t
    \<and> tok_observed_phase_kind t = ca_proposed_phase c
    \<and> tok_observed_phase_kind t \<noteq> Some (ca_original_phase c)
    \<and> boundary_evidence_objective (tok_boundary_evidence t)"

lemma refine_candidate_confirms:
  assumes "refine_candidate d t feature alignment = Ok (d1, a, r, ev)" and inv: "boundary_inv d w"
    and "de_boundary_status d1 = BoundaryConfirmed" and "de_boundary_status d \<noteq> BoundaryConfirmed"
  shows "\<exists>c. confirmed_by d t c \<and> de_confirmation_watermark d1 = tok_source_watermark t
    \<and> ev = tok_boundary_evidence_refs t"
proof (rule refine_candidate_cases [OF assms(1) inv])
  fix c
  assume "de_candidate d = Some c" "ev = tok_boundary_evidence_refs t"
        "ca_kind c = CandidateObjective" "ca_source_watermark c < tok_source_watermark t"
        "tok_observed_phase_kind t = ca_proposed_phase c"
        "tok_observed_phase_kind t \<noteq> Some (ca_original_phase c)"
        "boundary_evidence_objective (tok_boundary_evidence t)"
        "d1 = d\<lparr>de_boundary_status := BoundaryConfirmed,
          de_confirmation_watermark := tok_source_watermark t, de_candidate := None\<rparr>"
  then show ?thesis by (intro exI [of _ c]) (simp add: confirmed_by_def)
qed (use assms(3,4) in simp_all)

lemma detector_push_confirmed:
  assumes "segmentation_detector_push d t u = Ok (d', r)" and inv: "detector_inv d"
    and "de_boundary_status d = BoundaryConfirmed"
  shows "de_boundary_status d' = BoundaryConfirmed"
    and "de_confirmation_watermark d' = de_confirmation_watermark d"
proof -
  have "de_boundary_status d' = BoundaryConfirmed
    \<and> de_confirmation_watermark d' = de_confirmation_watermark d"
    using assms(1)
  proof (cases rule: detector_pushE)
    case switch then show ?thesis using assms(3) by simp
  next
    case (step d1 a1 rt ev d2 a2 d3 al)
    have "d1 = d" using refine_candidate_confirmed [OF step(6) _ assms(3)] inv
      unfolding detector_inv_def by blast
    then show ?thesis
      using open_candidate_confirmed [OF step(7)] assms(3) by (simp add: step(8,9) record_feature_frame)
  qed
  then show "de_boundary_status d' = BoundaryConfirmed"
    "de_confirmation_watermark d' = de_confirmation_watermark d" by simp_all
qed

lemma detector_push_watermark:
  assumes "segmentation_detector_push d t u = Ok (d', r)"
  shows "d' = d \<or> (de_source_watermark d < de_source_watermark d' \<and> de_last_sequence d < de_last_sequence d'
      \<and> de_source_watermark d' = tok_source_watermark t \<and> de_last_sequence d' = tok_sequence t)"
  using assms by (cases rule: detector_pushE) (simp_all add: record_feature_frame)

text \<open>A stream of tokens, each with the fold update of its burst.\<close>

fun detector_run ::
  "segmentation_detector \<Rightarrow> (activity_token \<times> burst_fold_update) list
    \<Rightarrow> (detector_error, segmentation_detector) result" where
  "detector_run d [] = Ok d"
| "detector_run d ((t, u) # xs) = and_then (segmentation_detector_push d t u) (\<lambda>(d', _). detector_run d' xs)"

definition stream_valid :: "(activity_token \<times> burst_fold_update) list \<Rightarrow> bool" where
  "stream_valid xs \<longleftrightarrow> (\<forall>(t, u) \<in> set xs. token_well_formed t \<and> operation_burst_validate (bfu_current u) = Ok ())"

lemma detector_run_advances:
  assumes "detector_run d xs = Ok d'" and "stream_valid xs" and "detector_inv d"
  shows "detector_inv d' \<and> de_source_watermark d \<le> de_source_watermark d'
    \<and> de_last_sequence d \<le> de_last_sequence d'
    \<and> (de_boundary_status d = BoundaryConfirmed \<longrightarrow> de_boundary_status d' = BoundaryConfirmed
        \<and> de_confirmation_watermark d' = de_confirmation_watermark d)"
  using assms
proof (induction d xs rule: detector_run.induct)
  case (1 d) then show ?case by simp
next
  case (2 d t u xs)
  then obtain d1 r where p: "segmentation_detector_push d t u = Ok (d1, r)" and rest: "detector_run d1 xs = Ok d'"
    by (auto simp: result_simps)
  have v: "token_well_formed t" "operation_burst_validate (bfu_current u) = Ok ()" "stream_valid xs"
    using "2.prems"(2) by (simp_all add: stream_valid_def)
  have i: "detector_inv d1" by (rule detector_push_inv [OF p "2.prems"(3) v(1,2)])
  have ih: "detector_inv d' \<and> de_source_watermark d1 \<le> de_source_watermark d'
    \<and> de_last_sequence d1 \<le> de_last_sequence d'
    \<and> (de_boundary_status d1 = BoundaryConfirmed \<longrightarrow> de_boundary_status d' = BoundaryConfirmed
        \<and> de_confirmation_watermark d' = de_confirmation_watermark d1)"
    by (rule "2.IH" [OF rest v(3) i])
  have le: "de_source_watermark d \<le> de_source_watermark d1" "de_last_sequence d \<le> de_last_sequence d1"
    using detector_push_watermark [OF p] by auto
  show ?case
    using ih le order_trans detector_push_confirmed [OF p "2.prems"(3)] by metis
qed

text \<open>
  Along every stream of well-formed tokens with valid bursts the detector keeps its
  state consistent: at most 64 features in the window; a candidate exactly in the candidate
  state, with evidence, at most 8 refinement steps, at a watermark the detector has read;
  a confirmation watermark exactly in the confirmed state. The watermark and the sequence
  never go back, and a confirmed boundary stays confirmed at the same watermark.
\<close>

theorem detector_stream_invariant:
  assumes "segmentation_detector_new e = Ok d0" and "detector_run d0 xs = Ok d" and "detector_run d ys = Ok d'"
    and "stream_valid (xs @ ys)"
  shows "detector_inv d' \<and> length (de_rolling d') \<le> 64
    \<and> de_source_watermark d \<le> de_source_watermark d' \<and> de_last_sequence d \<le> de_last_sequence d'
    \<and> (de_boundary_status d = BoundaryConfirmed \<longrightarrow> de_boundary_status d' = BoundaryConfirmed
        \<and> de_confirmation_watermark d' = de_confirmation_watermark d)"
proof -
  have "d0 = segmentation_detector_empty e"
    using assms(1) by (auto simp: segmentation_detector_new_def result_simps split: if_splits)
  then have "detector_inv d0" by (simp add: detector_inv_empty)
  moreover have "stream_valid xs" "stream_valid ys" using assms(4) by (auto simp: stream_valid_def)
  ultimately have "detector_inv d" using detector_run_advances [OF assms(2)] by simp
  from detector_run_advances [OF assms(3) \<open>stream_valid ys\<close> this] show ?thesis
    by (simp add: detector_inv_def window_inv_def)
qed

text \<open>
  C11. A phase boundary is confirmed only by two observations: when a push reports a
  confirmed boundary that was not confirmed before, the detector already held an objective
  candidate from a strictly lower watermark, the token observes the phase that candidate
  proposed and not the original one, with objective and non-empty evidence, and exactly
  that evidence and watermark are reported.
\<close>

theorem detector_confirmation_justified:
  assumes "segmentation_detector_push d t u = Ok (d', r)" and "detector_inv d" and "token_well_formed t"
    and "du_boundary_status r = BoundaryConfirmed" and "de_boundary_status d \<noteq> BoundaryConfirmed"
  shows "\<exists>c. confirmed_by d t c \<and> ca_evidence_refs c \<noteq> []
    \<and> du_confirmation_watermark r = tok_source_watermark t
    \<and> du_confirmation_evidence_refs r = tok_boundary_evidence_refs t \<and> tok_boundary_evidence_refs t \<noteq> []
    \<and> de_boundary_status d' = BoundaryConfirmed \<and> de_candidate d' = None"
  using assms(1)
proof (cases rule: detector_pushE)
  case switch
  then have "r = detector_update_of d t WorkstreamSwitch False []"
    using assms(1) by (auto simp: segmentation_detector_push_def split: if_splits)
  then show ?thesis using assms(4,5) by (simp add: detector_update_of_def)
next
  case (step d1 a1 rt ev d2 a2 d3 al)
  have inv: "boundary_inv d (de_source_watermark d)" using assms(2) by (simp add: detector_inv_def)
  have d2: "de_boundary_status d2 = BoundaryConfirmed"
    using assms(4) by (simp add: step(8,10) detector_update_of_def)
  then have d1: "de_boundary_status d1 = BoundaryConfirmed"
    using open_candidate_confirmed [OF step(7)] by simp
  obtain c where c: "confirmed_by d t c" "de_confirmation_watermark d1 = tok_source_watermark t"
      "ev = tok_boundary_evidence_refs t"
    using refine_candidate_confirms [OF step(6) inv d1 assms(5)] by blast
  have "ca_evidence_refs c \<noteq> []" using inv c(1) by (simp add: boundary_inv_def candidate_inv_def confirmed_by_def)
  moreover have "tok_boundary_evidence_refs t \<noteq> []"
    using c(1) assms(3) by (auto simp: confirmed_by_def token_well_formed_def boundary_evidence_objective_def)
  moreover have "de_candidate d2 = None"
  proof -
    have "d2 = d1" using step(7) d1 by (auto simp: open_candidate_def Let_def split: if_splits)
    moreover have "de_candidate d1 = None"
      by (rule refine_candidate_cases [OF step(6) inv]) (use d1 inv c(1) in \<open>auto simp: boundary_inv_def confirmed_by_def\<close>)
    ultimately show ?thesis by simp
  qed
  ultimately show ?thesis
    using c d2 open_candidate_confirmed [OF step(7)]
    by (intro exI [of _ c]) (simp add: step(8-10) detector_update_of_def record_feature_frame)
qed

text \<open>A push is accepted whenever the token belongs to the episode and is new.\<close>

lemma detector_push_total:
  assumes "detector_inv d" and "ob_source_watermark (bfu_current u) = tok_source_watermark t"
    and "\<exists>m \<in> set (ob_members (bfu_current u)). bm_operation_id m = tok_operation_id t"
    and "tok_workstream_id t = de_workstream_id d" and "tok_task_id t = de_task_id d"
    and "tok_episode_id t = de_episode_id d" and "de_last_sequence d < tok_sequence t"
    and "de_source_watermark d < tok_source_watermark t"
  shows "\<exists>d' r. segmentation_detector_push d t u = Ok (d', r)"
proof -
  have "boundary_inv d (de_source_watermark d)" using assms(1) by (simp add: detector_inv_def)
  from refine_candidate_total [OF this] obtain d1 a1 rt ev where
    "refine_candidate d t (burst_feature_from_burst (bfu_current u))
       (align (pc_phase_kind (de_phase_contract d)) (tok_observed_phase_kind t)
         (tok_verifier_transition t) (is_some (de_last_attempt_id d) \<and> is_some (tok_attempt_id t)
           \<and> de_last_attempt_id d \<noteq> tok_attempt_id t)) = Ok (d1, a1, rt, ev)"
    by (metis prod_cases4)
  moreover obtain d2 a2 where
    "open_candidate d1 t u (burst_feature_from_burst (bfu_current u)) a1 rt = (d2, a2)" by fastforce
  ultimately show ?thesis
    using assms(2-8) by (auto simp: segmentation_detector_push_def Let_def not_le [symmetric])
qed

text \<open>
  A real phase change is eventually confirmed: when the detector holds an objective
  candidate, the next new token of the episode whose burst looks like the candidate's and
  that observes the proposed phase with objective evidence is accepted and confirms the
  boundary at its watermark.
\<close>

theorem detector_confirms_second_observation:
  assumes "detector_inv d" and "de_candidate d = Some c" and "ca_kind c = CandidateObjective"
    and "burst_feature_from_burst (bfu_current u) = ca_feature c"
    and "tok_observed_phase_kind t = ca_proposed_phase c"
    and "ca_proposed_phase c \<noteq> Some (pc_phase_kind (de_phase_contract d))"
    and "boundary_evidence_objective (tok_boundary_evidence t)"
    and "ob_source_watermark (bfu_current u) = tok_source_watermark t"
    and "\<exists>m \<in> set (ob_members (bfu_current u)). bm_operation_id m = tok_operation_id t"
    and "tok_workstream_id t = de_workstream_id d" and "tok_task_id t = de_task_id d"
    and "tok_episode_id t = de_episode_id d" and "de_last_sequence d < tok_sequence t"
    and "de_source_watermark d < tok_source_watermark t"
  shows "\<exists>d' r. segmentation_detector_push d t u = Ok (d', r) \<and> du_boundary_status r = BoundaryConfirmed
    \<and> du_confirmation_watermark r = tok_source_watermark t
    \<and> du_confirmation_evidence_refs r = tok_boundary_evidence_refs t"
proof -
  obtain d' r where p: "segmentation_detector_push d t u = Ok (d', r)"
    using detector_push_total [OF assms(1,8-14)] by blast
  have inv: "boundary_inv d (de_source_watermark d)" using assms(1) by (simp add: detector_inv_def)
  have c: "ca_source_watermark c \<le> de_source_watermark d" "ca_observations c \<le> 8"
      "ca_original_phase c = pc_phase_kind (de_phase_contract d)"
    using inv assms(2) by (simp_all add: boundary_inv_def candidate_inv_def)
  then have "ca_source_watermark c < tok_source_watermark t" using assms(14) by simp
  from p have "du_boundary_status r = BoundaryConfirmed
    \<and> du_confirmation_watermark r = tok_source_watermark t
    \<and> du_confirmation_evidence_refs r = tok_boundary_evidence_refs t"
  proof (cases rule: detector_pushE)
    case switch then show ?thesis using assms(10) by simp
  next
    case (step d1 a1 rt ev d2 a2 d3 al)
    obtain n where n: "(if ca_observations c < REFINEMENT_WINDOW
      then and_then (ok_or Ineligible (checked_add (ca_observations c) 1)) (\<lambda>n. Ok (c\<lparr>ca_observations := n\<rparr>))
      else Ok c) = Ok (c\<lparr>ca_observations := n\<rparr>)" using refine_counter [OF c(2)] by blast
    have "\<not> is_some_and (\<lambda>left. burst_feature_distance left (ca_feature c) < 0) (ca_left_feature c)"
      by (simp add: is_some_and_iff)
    then have "d1 = d\<lparr>de_boundary_status := BoundaryConfirmed,
          de_confirmation_watermark := tok_source_watermark t, de_candidate := None\<rparr>"
        "ev = tok_boundary_evidence_refs t"
      using step(6) assms(2-7) c(3) \<open>ca_source_watermark c < tok_source_watermark t\<close>
      unfolding refine_candidate_def assms(2) option.case n and_then.simps Let_def
      by (simp_all add: is_some_and_iff)
    then show ?thesis
      using step(7) by (auto simp: step(8,10) detector_update_of_def open_candidate_def Let_def split: if_splits)
  qed
  then show ?thesis using p by blast
qed

section \<open>Restoring the detector\<close>

lemma position_Some:
  "position P xs = Some i \<Longrightarrow> i < length xs \<and> P (xs ! i)"
  by (induction xs arbitrary: i) (auto split: if_splits)

lemma position_None: "position P xs = None \<longleftrightarrow> (\<forall>x \<in> set xs. \<not> P x)"
  by (induction xs) auto

lemma in_set_tlD: "x \<in> set (tl xs) \<Longrightarrow> x \<in> set xs"
  by (cases xs) simp_all

lemma record_feature_rolling:
  "rf_source_watermark ` set (de_rolling (record_feature d b))
    \<subseteq> rf_source_watermark ` set (de_rolling d) \<union> {ob_source_watermark b}"
  by (auto simp: record_feature_def Let_def dest!: in_set_tlD)

lemma restore_loop_rolling:
  assumes "restore_loop d bs = Ok d'"
  shows "rf_source_watermark ` set (de_rolling d')
    \<subseteq> rf_source_watermark ` set (de_rolling d) \<union> ob_source_watermark ` set bs"
  using assms
proof (induction d bs rule: restore_loop.induct)
  case (1 d) then show ?case by simp
next
  case (2 d b bs)
  then obtain s where "restore_loop ((record_feature d b)\<lparr>de_last_sequence := s,
      de_source_watermark := ob_source_watermark b, de_last_attempt_id := ob_attempt_id b\<rparr>) bs = Ok d'"
    by (auto simp: result_simps)
  then have "rf_source_watermark ` set (de_rolling d')
    \<subseteq> rf_source_watermark ` set (de_rolling (record_feature d b)) \<union> ob_source_watermark ` set bs"
    using "2.IH" by fastforce
  then show ?case using record_feature_rolling [of d b] by (simp add: subset_iff) blast
qed

lemma restore_loop_Err: "restore_loop d bs = Err x \<Longrightarrow> x = Ineligible"
proof (induction d bs rule: restore_loop.induct)
  case (1 d) then show ?case by simp
next
  case (2 d b bs)
  then show ?case by (cases "deque_back (ob_members b)") (simp_all add: ok_or_def)
qed

text \<open>A candidate whose watermark is no longer the watermark of a recent burst cannot be restored.\<close>

lemma restore_refuses_lost_candidate:
  assumes "ep_boundary_candidate e = Some v"
    and "\<forall>b \<in> set bs. ob_source_watermark b \<noteq> bc_candidate_watermark v"
  shows "segmentation_detector_restore e bs = Err Ineligible"
proof (cases "restore_loop (segmentation_detector_empty e) bs")
  case (Inl x)
  then show ?thesis
    using restore_loop_Err [OF Inl]
    by (cases "work_episode_validate e") (simp_all add: segmentation_detector_restore_def)
next
  case (Inr d)
  have "rf_source_watermark ` set (de_rolling d) \<subseteq> ob_source_watermark ` set bs"
    using restore_loop_rolling [OF Inr] by (simp add: segmentation_detector_empty_def)
  then have "position (\<lambda>item. rf_source_watermark item = bc_candidate_watermark v) (de_rolling d) = None"
    using assms(2) by (auto simp: position_None)
  then show ?thesis
    using Inr assms(1)
    by (cases "work_episode_validate e")
      (simp_all add: segmentation_detector_restore_def restore_candidate_def ok_or_def Let_def)
qed

section \<open>A sample episode\<close>

definition sample_open_episode :: work_episode where
  "sample_open_episode = sample_episode\<lparr>ep_episode_id := 6, ep_task_id := 4, ep_workstream_id := 5,
    ep_boundary_status := BoundaryProvisional, ep_source_watermark := 3, ep_semantic_watermark := 3,
    ep_boundary_candidate := None\<rparr>"

definition sample_goal_token :: activity_token where
  "sample_goal_token = sample_token\<lparr>tok_boundary_evidence := BoundaryMaterialGoal\<rparr>"

definition sample_goal_token2 :: activity_token where
  "sample_goal_token2 = sample_token2\<lparr>tok_boundary_evidence := BoundaryMaterialGoal\<rparr>"

definition sample_seg_burst :: operation_burst where
  "sample_seg_burst = sample_burst\<lparr>ob_phase_candidate := Some PhaseVerify, ob_has_objective_boundary := True,
    ob_members := [member_from_token sample_token], ob_source_watermark := 5\<rparr>"

definition sample_seg_burst2 :: operation_burst where
  "sample_seg_burst2 = sample_seg_burst\<lparr>ob_revision_id := 10, ob_predecessor_revision_id := Some 2,
    ob_revision_generation := 2, ob_members := [member_from_token sample_token, member_from_token sample_token2],
    ob_source_watermark := 6\<rparr>"

definition sample_update :: "bool \<Rightarrow> operation_burst \<Rightarrow> burst_fold_update" where
  "sample_update started b = \<lparr>bfu_current = b, bfu_closed = None, bfu_started_new = started,
    bfu_meaningful_new = started, bfu_no_delta = False\<rparr>"

lemmas sample_seg_defs = sample_goal_token_def sample_goal_token2_def sample_token_def sample_token2_def
  sample_seg_burst_def sample_seg_burst2_def sample_update_def sample_burst_def member_from_token_def

lemma sample_tokens_well_formed: "token_well_formed sample_goal_token" "token_well_formed sample_goal_token2"
  by (simp_all add: token_well_formed_def sample_seg_defs)

lemma sample_seg_bursts_valid:
  "operation_burst_validate sample_seg_burst = Ok ()" "operation_burst_validate sample_seg_burst2 = Ok ()"
  by (simp_all add: sample_seg_defs burst_eval)

lemma sample_open_episode_valid: "work_episode_validate sample_open_episode = Ok ()"
  by (simp add: work_episode_validate_def phase_contract_validate_def capture_summary_validate_def
      capture_summary_default_def work_episode_all_lists_def boundary_candidate_state_validate_def
      sample_open_episode_def sample_episode_def bounded_text_def blank_def MAX_TEXT_def Let_def)

lemma sample_detector_new:
  "segmentation_detector_new sample_open_episode = Ok (segmentation_detector_empty sample_open_episode)"
  by (simp add: segmentation_detector_new_def sample_open_episode_valid)
    (simp add: sample_open_episode_def sample_episode_def)

abbreviation sample_detector where "sample_detector \<equiv> segmentation_detector_empty sample_open_episode"

lemmas detector_eval = segmentation_detector_push_def refine_candidate_def open_candidate_def
  detector_update_of_def record_feature_def deque_back_def pop_excess_def segmentation_detector_empty_def
  burst_feature_from_burst_def Let_def boundary_evidence_objective_def MAX_ROLLING_TOKENS_def ok_or_def
  checked_add_def REFINEMENT_WINDOW_def sample_open_episode_def sample_episode_def

lemma sample_first_push:
  "\<exists>d r c. segmentation_detector_push sample_detector sample_goal_token (sample_update True sample_seg_burst) = Ok (d, r)
    \<and> de_candidate d = Some c \<and> ca_kind c = CandidateObjective
    \<and> ca_feature c = burst_feature_from_burst sample_seg_burst \<and> ca_proposed_phase c = Some PhaseVerify
    \<and> de_source_watermark d = 5 \<and> de_last_sequence d = 1 \<and> de_phase_contract d = ep_phase_contract sample_episode
    \<and> de_task_id d = 4 \<and> de_workstream_id d = 5 \<and> de_episode_id d = 6 \<and> ca_source_watermark c = 5"
  by (simp add: detector_eval sample_seg_defs)

theorem surprise_statistics_bounded_witness:
  "surprise_variance (de_surprise_scores (record_feature (record_feature sample_detector sample_seg_burst)
      sample_burst)) \<le> 529"
proof -
  let ?d = "record_feature (record_feature sample_detector sample_seg_burst) sample_burst"
  have "window_inv ?d"
    using detector_inv_empty by (intro window_inv_record_feature) (simp add: detector_inv_def)
  moreover have "de_surprise_scores ?d \<noteq> []" by (simp add: detector_eval)
  ultimately show ?thesis using surprise_statistics_bounded [of ?d] by simp
qed

lemma sample_confirming_run:
  "\<exists>d r d' r'. segmentation_detector_push sample_detector sample_goal_token (sample_update True sample_seg_burst)
        = Ok (d, r) \<and> detector_inv d \<and> de_boundary_status d \<noteq> BoundaryConfirmed
    \<and> segmentation_detector_push d sample_goal_token2 (sample_update False sample_seg_burst2) = Ok (d', r')
    \<and> du_boundary_status r' = BoundaryConfirmed"
proof -
  have "\<exists>d r d' r'. segmentation_detector_push sample_detector sample_goal_token (sample_update True sample_seg_burst)
        = Ok (d, r) \<and> de_boundary_status d \<noteq> BoundaryConfirmed
    \<and> segmentation_detector_push d sample_goal_token2 (sample_update False sample_seg_burst2) = Ok (d', r')
    \<and> du_boundary_status r' = BoundaryConfirmed"
    by (simp add: detector_eval sample_seg_defs word_le_nat_alt)
  then show ?thesis
    using detector_push_inv [OF _ detector_inv_empty sample_tokens_well_formed(1)] sample_seg_bursts_valid
    by (metis burst_fold_update.select_convs(1) sample_update_def)
qed

theorem detector_confirmation_justified_witness:
  "\<exists>d c. confirmed_by d sample_goal_token2 c \<and> ca_evidence_refs c \<noteq> []"
proof -
  obtain d r d' r' where "detector_inv d" "de_boundary_status d \<noteq> BoundaryConfirmed"
    "segmentation_detector_push d sample_goal_token2 (sample_update False sample_seg_burst2) = Ok (d', r')"
    "du_boundary_status r' = BoundaryConfirmed" using sample_confirming_run by blast
  then show ?thesis
    using detector_confirmation_justified [OF _ _ sample_tokens_well_formed(2)] by blast
qed

theorem detector_stream_invariant_witness:
  "\<exists>d. detector_run sample_detector [(sample_goal_token, sample_update True sample_seg_burst)] = Ok d
    \<and> detector_inv d"
proof -
  obtain d r where p: "segmentation_detector_push sample_detector sample_goal_token
      (sample_update True sample_seg_burst) = Ok (d, r)" using sample_confirming_run by blast
  let ?xs = "[(sample_goal_token, sample_update True sample_seg_burst)]"
  have run: "detector_run sample_detector ?xs = Ok d" using p by simp
  have "stream_valid (?xs @ [])"
    using sample_tokens_well_formed sample_seg_bursts_valid by (simp add: stream_valid_def sample_update_def)
  from detector_stream_invariant [OF sample_detector_new run _ this, of d] run show ?thesis by simp
qed

theorem detector_confirms_second_observation_witness:
  "\<exists>d d' r. segmentation_detector_push d sample_goal_token2 (sample_update False sample_seg_burst2) = Ok (d', r)
    \<and> du_boundary_status r = BoundaryConfirmed"
proof -
  obtain d r c where p: "segmentation_detector_push sample_detector sample_goal_token
        (sample_update True sample_seg_burst) = Ok (d, r)"
      and d: "de_candidate d = Some c" "ca_kind c = CandidateObjective"
      "ca_feature c = burst_feature_from_burst sample_seg_burst" "ca_proposed_phase c = Some PhaseVerify"
      "de_source_watermark d = 5" "de_last_sequence d = 1" "de_phase_contract d = ep_phase_contract sample_episode"
      "de_task_id d = 4" "de_workstream_id d = 5" "de_episode_id d = 6"
    using sample_first_push by blast
  have inv: "detector_inv d"
    using detector_push_inv [OF p detector_inv_empty sample_tokens_well_formed(1)] sample_seg_bursts_valid
    by (simp add: sample_update_def)
  show ?thesis
    using detector_confirms_second_observation [OF inv d(1,2),
        of "sample_update False sample_seg_burst2" sample_goal_token2] d
    by (simp add: sample_seg_defs burst_feature_from_burst_def boundary_evidence_objective_def sample_episode_def) blast
qed

end
