(* ===== verification/Store_Base.thy ===== *)
theory Store_Base
  imports Work_Base
begin

text \<open>
  What the store modules share (\<open>evertrace-store/src\<close>): the \<open>StoreError\<close> values, folding a
  list of inputs into a state, and \<open>BTreeMap\<close>s that are iterated, as association lists in
  strictly ascending key order. The locale \<open>keyed_replace\<close> is the interface of the functions
  that record a new value under its own identifier: the value must be valid, the table is
  only changed at that identifier, the first value must be a root and a later one a repetition or an accepted
  successor of the one it replaces. Its lemmas carry the table invariants and every
  preorder that the successor check respects through a whole sequence of recordings.
\<close>

datatype store_error = StoreInvalidInput | StoreInvalidPath | StoreInvalidType | StoreWrongOwner
  | StoreInvalidPermissions | StoreWriterAlreadyRunning | StoreIdempotencyConflict | StoreStaleFrontier
  | StoreReconciliationDependencyOverflow | StoreCorrupt | StoreMigration | StoreUpgradeRequired
  | StoreProjection | StoreSerialization | StoreArrow | StoreLanceDb | StoreIo

text \<open>\<open>iter().map(f).collect::<Result<Vec<_>, _>>()\<close>: the first error wins.\<close>

fun try_map :: "('a \<Rightarrow> ('e, 'b) result) \<Rightarrow> 'a list \<Rightarrow> ('e, 'b list) result" where
  "try_map f [] = Ok []"
| "try_map f (x # xs) = and_then (f x) (\<lambda>y. and_then (try_map f xs) (\<lambda>ys. Ok (y # ys)))"

lemma try_map_Ok:
  assumes "\<And>x. x \<in> set xs \<Longrightarrow> f x = Ok (g x)"
  shows "try_map f xs = Ok (map g xs)"
  using assms by (induction xs) simp_all

text \<open>Folding a list of inputs into a state; the first error stops.\<close>

fun replay :: "('s \<Rightarrow> 'a \<Rightarrow> ('e, 's) result) \<Rightarrow> 's \<Rightarrow> 'a list \<Rightarrow> ('e, 's) result" where
  "replay f s [] = Ok s"
| "replay f s (x # xs) = and_then (f s x) (\<lambda>s'. replay f s' xs)"

lemma replay_invariant:
  assumes "replay f s xs = Ok s'" and "P s"
    and "\<And>s x s'. x \<in> set xs \<Longrightarrow> f s x = Ok s' \<Longrightarrow> P s \<Longrightarrow> P s'"
  shows "P s'"
  using assms
proof (induction xs arbitrary: s)
  case (Cons x xs)
  from Cons.prems(1) obtain t where t: "f s x = Ok t" "replay f t xs = Ok s'"
    by (auto simp: and_then_Inr_iff)
  have "P t" by (rule Cons.prems(3) [OF _ t(1) Cons.prems(2)]) simp
  with Cons.IH [OF t(2)] Cons.prems(3) show ?case by (meson list.set_intros(2))
qed simp

lemma replay_transitive:
  assumes "replay f s xs = Ok s'" and "\<And>s. R s s" and "\<And>s t u. R s t \<Longrightarrow> R t u \<Longrightarrow> R s u"
    and "\<And>s x t. f s x = Ok t \<Longrightarrow> R s t"
  shows "R s s'"
  using assms(1)
proof (induction xs arbitrary: s)
  case Nil
  then show ?case using assms(2) by simp
next
  case (Cons x xs)
  from Cons.prems obtain t where t: "f s x = Ok t" "replay f t xs = Ok s'"
    by (auto simp: and_then_Inr_iff)
  show ?case by (rule assms(3) [OF assms(4) [OF t(1)] Cons.IH [OF t(2)]])
qed

text \<open>\<open>option.iter()\<close> as a list.\<close>

fun opt_iter :: "'a option \<Rightarrow> 'a list" where
  "opt_iter None = []"
| "opt_iter (Some x) = [x]"

lemma set_opt_iter [simp]: "set (opt_iter x) = set_option x"
  by (cases x) simp_all

section \<open>Ordered maps that are iterated\<close>

type_synonym ('k, 'v) btree_map = "('k \<times> 'v) list"

definition btm_get :: "('k, 'v) btree_map \<Rightarrow> 'k \<Rightarrow> 'v option" where
  "btm_get m k = map_of m k"

fun btm_insert :: "'k::linorder \<Rightarrow> 'v \<Rightarrow> ('k, 'v) btree_map \<Rightarrow> ('k, 'v) btree_map" where
  "btm_insert k v [] = [(k, v)]"
| "btm_insert k v ((k', v') # m) =
    (if k < k' then (k, v) # (k', v') # m
     else if k = k' then (k, v) # m
     else (k', v') # btm_insert k v m)"

definition btm_contains_key :: "('k, 'v) btree_map \<Rightarrow> 'k \<Rightarrow> bool" where
  "btm_contains_key m k \<longleftrightarrow> btm_get m k \<noteq> None"

definition btm_values :: "('k, 'v) btree_map \<Rightarrow> 'v list" where
  "btm_values m = map snd m"

definition btm_sorted :: "('k::linorder, 'v) btree_map \<Rightarrow> bool" where
  "btm_sorted m \<longleftrightarrow> sorted_wrt (<) (map fst m)"

lemma btm_get_Nil [simp]: "btm_get [] k = None"
  by (simp add: btm_get_def)

lemma btm_get_insert [simp]: "btm_get (btm_insert k v m) j = (if j = k then Some v else btm_get m j)"
  by (induction k v m rule: btm_insert.induct) (auto simp: btm_get_def)

lemma keys_btm_insert: "set (map fst (btm_insert k v m)) = insert k (set (map fst m))"
  by (induction k v m rule: btm_insert.induct) auto

lemma btm_sorted_Nil [simp]: "btm_sorted []"
  by (simp add: btm_sorted_def)

lemma btm_sorted_insert [simp]: "btm_sorted m \<Longrightarrow> btm_sorted (btm_insert k v m)"
proof (induction k v m rule: btm_insert.induct)
  case (2 k v k' v' m)
  have keys: "fst ` set (btm_insert k v m) = insert k (fst ` set m)"
    using keys_btm_insert [of k v m] by simp
  from 2 show ?case by (auto simp: btm_sorted_def keys)
qed (simp add: btm_sorted_def)

lemma btm_sorted_distinct: "btm_sorted m \<Longrightarrow> distinct (map fst m)"
  by (simp add: btm_sorted_def strict_sorted_iff)

lemma btm_values_iff: "btm_sorted m \<Longrightarrow> v \<in> set (btm_values m) \<longleftrightarrow> (\<exists>k. btm_get m k = Some v)"
  using btm_sorted_distinct [of m] by (force simp: btm_values_def btm_get_def)

lemma btm_contains_keyE:
  assumes "btm_contains_key m k" obtains v where "btm_get m k = Some v"
  using assms by (auto simp: btm_contains_key_def)

section \<open>Recording under an identifier\<close>

text \<open>A table in which every value is stored under its own identifier.\<close>

definition keyed :: "('v \<Rightarrow> 'k) \<Rightarrow> ('k::linorder, 'v \<times> u64) btree_map \<Rightarrow> bool" where
  "keyed id_of m \<longleftrightarrow> btm_sorted m \<and> (\<forall>k v s. btm_get m k = Some (v, s) \<longrightarrow> id_of v = k)"

lemma keyed_Nil [simp]: "keyed id_of []"
  by (simp add: keyed_def)

lemma keyed_insert: "keyed id_of m \<Longrightarrow> keyed id_of (btm_insert (id_of v) (v, s) m)"
  by (simp add: keyed_def)

lemma keyedD: "keyed id_of m \<Longrightarrow> btm_get m k = Some (v, s) \<Longrightarrow> id_of v = k"
  by (simp add: keyed_def)

lemma keyed_values:
  assumes "keyed id_of m"
  shows "(v, s) \<in> set (btm_values m) \<longleftrightarrow> btm_get m (id_of v) = Some (v, s)"
proof -
  from assms have "btm_sorted m" by (simp add: keyed_def)
  from btm_values_iff [OF this, of "(v, s)"] keyedD [OF assms] show ?thesis by blast
qed

lemma keyed_ids:
  assumes "keyed id_of m"
  shows "map (id_of \<circ> fst) (btm_values m) = map fst m"
proof -
  from assms have d: "distinct (map fst m)" by (simp add: keyed_def btm_sorted_distinct)
  have "id_of (fst (snd p)) = fst p" if "p \<in> set m" for p
  proof -
    obtain k v s where p: "p = (k, v, s)" using prod_cases3 by blast
    with that d have "btm_get m k = Some (v, s)" by (simp add: btm_get_def)
    with assms have "id_of v = k" by (rule keyedD)
    with p show ?thesis by simp
  qed
  then show ?thesis by (simp add: btm_values_def)
qed

text \<open>Along \<open>m \<rightarrow> m'\<close> every stored value is kept or replaced by one that is \<open>R\<close>-later.\<close>

definition advances :: "('v \<Rightarrow> 'v \<Rightarrow> bool) \<Rightarrow> ('k, 'v \<times> u64) btree_map \<Rightarrow> ('k, 'v \<times> u64) btree_map \<Rightarrow> bool" where
  "advances R m m' \<longleftrightarrow> (\<forall>k v s. btm_get m k = Some (v, s) \<longrightarrow> (\<exists>v' s'. btm_get m' k = Some (v', s') \<and> R v v'))"

lemma advancesD:
  assumes "advances R m m'" and "btm_get m k = Some (v, s)"
  obtains v' s' where "btm_get m' k = Some (v', s')" and "R v v'"
  using assms unfolding advances_def by blast

lemma advances_refl: "(\<And>v. R v v) \<Longrightarrow> advances R m m"
  by (auto simp: advances_def)

lemma advances_trans:
  assumes "\<And>a b c. R a b \<Longrightarrow> R b c \<Longrightarrow> R a c" and "advances R m1 m2" and "advances R m2 m3"
  shows "advances R m1 m3"
  unfolding advances_def
proof (intro allI impI)
  fix k v s
  assume "btm_get m1 k = Some (v, s)"
  from advancesD [OF assms(2) this] obtain v' s' where "btm_get m2 k = Some (v', s')" "R v v'" .
  moreover from advancesD [OF assms(3) this(1)] obtain w t where "btm_get m3 k = Some (w, t)" "R v' w" .
  ultimately show "\<exists>v' s'. btm_get m3 k = Some (v', s') \<and> R v v'" using assms(1) by blast
qed

lemma advances_mono: "advances R m m' \<Longrightarrow> (\<And>a b. R a b \<Longrightarrow> S a b) \<Longrightarrow> advances S m m'"
  unfolding advances_def by blast

text \<open>The shape the recording functions have in the source.\<close>

lemma replace_shape_iff:
  "(case g of None \<Rightarrow> if r then Err e else Ok x
    | Some (c, t) \<Rightarrow> if c = v then Ok x else if bad c then Err e else Ok x) = Ok m'
   \<longleftrightarrow> m' = x \<and> (case g of None \<Rightarrow> \<not> r | Some (c, _) \<Rightarrow> v = c \<or> \<not> bad c)"
  by (auto split: option.splits)

locale keyed_replace =
  fixes replace :: "('k::linorder, 'v \<times> u64) btree_map \<Rightarrow> 'v \<Rightarrow> u64
      \<Rightarrow> (store_error, ('k, 'v \<times> u64) btree_map) result"
    and id_of :: "'v \<Rightarrow> 'k"
    and valid :: "'v \<Rightarrow> bool"
    and root :: "'v \<Rightarrow> bool"
    and accepts :: "'v \<Rightarrow> 'v \<Rightarrow> bool"
  assumes replace_iff: "replace m v s = Ok m' \<longleftrightarrow>
    valid v \<and> m' = btm_insert (id_of v) (v, s) m
    \<and> (case btm_get m (id_of v) of None \<Rightarrow> root v | Some (c, _) \<Rightarrow> v = c \<or> accepts c v)"
begin

lemma replace_keyed: "replace m v s = Ok m' \<Longrightarrow> keyed id_of m \<Longrightarrow> keyed id_of m'"
  by (auto simp: replace_iff keyed_insert)

lemma replace_valid: "replace m v s = Ok m' \<Longrightarrow> valid v"
  by (simp add: replace_iff)

lemma replace_get:
  assumes "replace m v s = Ok m'"
  shows "btm_get m' k = (if k = id_of v then Some (v, s) else btm_get m k)"
  using assms by (simp add: replace_iff)

lemma replace_again: "replace m v s = Ok m' \<Longrightarrow> replace m' v s' = Ok (btm_insert (id_of v) (v, s') m')"
  by (auto simp: replace_iff)

lemma replace_advances:
  assumes "replace m v s = Ok m'" and "\<And>v. R v v" and "\<And>c. accepts c v \<Longrightarrow> id_of c = id_of v \<Longrightarrow> R c v"
    and "keyed id_of m"
  shows "advances R m m'"
  unfolding advances_def
proof (intro allI impI)
  fix k c t
  assume c: "btm_get m k = Some (c, t)"
  show "\<exists>v' s'. btm_get m' k = Some (v', s') \<and> R c v'"
  proof (cases "k = id_of v")
    case True
    with c assms(1) have "v = c \<or> accepts c v" by (simp add: replace_iff)
    moreover have "id_of c = id_of v" using keyedD [OF assms(4) c] True by simp
    ultimately have "R c v" using assms(2,3) by blast
    with True show ?thesis by (simp add: replace_get [OF assms(1)])
  qed (simp add: c replace_get [OF assms(1)] assms(2))
qed

end

end
