(* ===== verification/Seg_Store.thy ===== *)
theory Seg_Store
  imports Detector Store_Base
begin

text \<open>
  The segmentation projections of the store (\<open>evertrace-store/src/projections/segmentation.rs\<close>):
  how journal records of episodes, bursts and corrections are folded into the current maps,
  how the current bursts are rebuilt from the stored revisions, and the single-frontier
  snapshot the segmenter reads. A \<open>BTreeMap\<close> that is only looked up and inserted into is a
  partial function; one that is iterated is an association list. The locale
  \<open>revision_store\<close> states what a recording function promises, and its lemmas show that
  it keeps, for every object, an append-only history of accepted successors.
\<close>

type_synonym ('k, 'v) seq_map = "'k \<Rightarrow> ('v \<times> u64) option"

definition record_episode ::
  "(work_episode_id, work_episode) seq_map \<Rightarrow> (revision_id, work_episode) seq_map \<Rightarrow> work_episode \<Rightarrow> u64
    \<Rightarrow> (store_error, (work_episode_id, work_episode) seq_map \<times> (revision_id, work_episode) seq_map) result" where
  "record_episode current revisions value seq = (case revisions (ep_revision_id value) of
      Some (existing, _) \<Rightarrow> if existing = value then Ok (current, revisions) else Err StoreCorrupt
    | None \<Rightarrow>
        let stored = (current(ep_episode_id value \<mapsto> (value, seq)), revisions(ep_revision_id value \<mapsto> (value, seq))) in
        case current (ep_episode_id value) of
          None \<Rightarrow>
            if \<not> is_ok (work_episode_validate value) \<or> ep_revision_generation value \<noteq> 1
               \<or> is_some (ep_predecessor_revision_id value)
            then Err StoreCorrupt else Ok stored
        | Some (existing, _) \<Rightarrow>
            if existing = value then Ok (current, revisions)
            else and_then (map_err (\<lambda>_. StoreCorrupt) (work_episode_validate_successor existing value))
              (\<lambda>_. Ok stored))"

definition record_operation_burst ::
  "(operation_burst_id, operation_burst) seq_map \<Rightarrow> (revision_id, operation_burst) seq_map \<Rightarrow> operation_burst \<Rightarrow> u64
    \<Rightarrow> (store_error, (operation_burst_id, operation_burst) seq_map \<times> (revision_id, operation_burst) seq_map) result" where
  "record_operation_burst current revisions value seq = (case revisions (ob_revision_id value) of
      Some (existing, _) \<Rightarrow> if existing = value then Ok (current, revisions) else Err StoreCorrupt
    | None \<Rightarrow>
        let stored = (current(ob_operation_burst_id value \<mapsto> (value, seq)), revisions(ob_revision_id value \<mapsto> (value, seq))) in
        case current (ob_operation_burst_id value) of
          None \<Rightarrow>
            if \<not> is_ok (operation_burst_validate value) \<or> ob_revision_generation value \<noteq> 1
               \<or> is_some (ob_predecessor_revision_id value)
            then Err StoreCorrupt else Ok stored
        | Some (existing, _) \<Rightarrow>
            if existing = value then Ok (current, revisions)
            else and_then (map_err (\<lambda>_. StoreCorrupt) (operation_burst_validate_successor existing value))
              (\<lambda>_. Ok stored))"

text \<open>The corrections, as the list of the map's values; the key is the revision id.\<close>

definition correction_get :: "(segmentation_correction \<times> u64) list \<Rightarrow> revision_id \<Rightarrow> segmentation_correction option" where
  "correction_get values key = map_option fst (find (\<lambda>(v, _). sc_correction_revision_id v = key) values)"

definition record_correction ::
  "(segmentation_correction \<times> u64) list \<Rightarrow> segmentation_correction \<Rightarrow> u64
    \<Rightarrow> (store_error, (segmentation_correction \<times> u64) list) result" where
  "record_correction values value seq =
    and_then (map_err (\<lambda>_. StoreCorrupt) (segmentation_correction_validate value)) (\<lambda>_.
    case correction_get values (sc_correction_revision_id value) of
      Some existing \<Rightarrow> if existing = value then Ok values else Err StoreCorrupt
    | None \<Rightarrow>
        (case sc_predecessor_revision_id value of
          None \<Rightarrow> Ok (values @ [(value, seq)])
        | Some predecessor \<Rightarrow>
            and_then (ok_or StoreCorrupt (correction_get values predecessor)) (\<lambda>previous.
            if \<not> (\<exists>i \<in> set (sc_source_episode_ids value).
                   i \<in> set (sc_source_episode_ids previous) \<or> i \<in> set (sc_replacement_episode_ids previous))
               \<or> (\<exists>(existing, _) \<in> set values. sc_predecessor_revision_id existing = Some predecessor)
            then Err StoreCorrupt
            else Ok (values @ [(value, seq)]))))"

section \<open>Rebuilding the current values from stored revisions\<close>

text \<open>
  The loop that checks the sorted revisions of one object: each is valid, numbered by its
  position, names the one before it as predecessor and is an accepted successor of it.
\<close>

fun chain_check ::
  "('v \<Rightarrow> bool) \<Rightarrow> ('v \<Rightarrow> u64) \<Rightarrow> ('v \<Rightarrow> revision_id option) \<Rightarrow> ('v \<Rightarrow> revision_id) \<Rightarrow> ('v \<Rightarrow> 'v \<Rightarrow> bool)
    \<Rightarrow> 'v option \<Rightarrow> nat \<Rightarrow> 'v list \<Rightarrow> (store_error, unit) result" where
  "chain_check valid gen pred rev_id accepts prev index [] = Ok ()"
| "chain_check valid gen pred rev_id accepts prev index (value # values) =
    (if \<not> valid value then Err StoreCorrupt
     else if unat (gen value) \<noteq> index + 1 \<or> pred value \<noteq> map_option rev_id prev then Err StoreCorrupt
     else if is_some_and (\<lambda>p. \<not> accepts p value) prev then Err StoreCorrupt
     else chain_check valid gen pred rev_id accepts (Some value) (index + 1) values)"

definition burst_current_of :: "operation_burst list \<Rightarrow> (store_error, operation_burst) result" where
  "burst_current_of revisions =
    (let values = sort_key ob_revision_generation revisions in
     and_then (chain_check (\<lambda>b. is_ok (operation_burst_validate b)) ob_revision_generation
        ob_predecessor_revision_id ob_revision_id
        (\<lambda>p b. is_ok (operation_burst_validate_successor p b)) None 0 values) (\<lambda>_.
     ok_or StoreCorrupt (deque_back values)))"

definition episode_current_of :: "work_episode list \<Rightarrow> (store_error, work_episode) result" where
  "episode_current_of revisions =
    (let values = sort_key ep_revision_generation revisions in
     and_then (chain_check (\<lambda>e. is_ok (work_episode_validate e)) ep_revision_generation
        ep_predecessor_revision_id ep_revision_id
        (\<lambda>p e. is_ok (work_episode_validate_successor p e)) None 0 values) (\<lambda>_.
     ok_or StoreCorrupt (deque_back values)))"

text \<open>\<open>entry(id).or_default().push(value)\<close> over the rows, then the map in key order.\<close>

definition group_by_id :: "('v \<Rightarrow> 'i::linorder) \<Rightarrow> 'v list \<Rightarrow> ('i \<times> 'v list) list" where
  "group_by_id id_of rows = map (\<lambda>i. (i, filter (\<lambda>v. id_of v = i) rows)) (btree_set (map id_of rows))"

record operation_burst_current_view =
  bv_frontier :: u64
  bv_bursts :: "operation_burst_id \<Rightarrow> operation_burst option"

definition operation_burst_current_view_from_revisions ::
  "u64 \<Rightarrow> operation_burst list \<Rightarrow> (store_error, operation_burst_current_view) result" where
  "operation_burst_current_view_from_revisions frontier rows =
    and_then (try_map (\<lambda>(i, values). and_then (burst_current_of values) (\<lambda>b. Ok (i, b)))
      (group_by_id ob_operation_burst_id rows)) (\<lambda>bursts.
    Ok \<lparr>bv_frontier = frontier, bv_bursts = map_of bursts\<rparr>)"

definition episodes_from_revisions ::
  "work_episode list \<Rightarrow> (store_error, work_episode_id \<Rightarrow> work_episode option) result" where
  "episodes_from_revisions rows =
    and_then (try_map (\<lambda>(i, values). and_then (episode_current_of values) (\<lambda>e. Ok (i, e)))
      (group_by_id ep_episode_id rows)) (\<lambda>episodes. Ok (map_of episodes))"

text \<open>The folds of occurrences, operations and lanes, which are numbered by 32-bit revisions.\<close>

definition fold_revisions ::
  "('v \<Rightarrow> u32) \<Rightarrow> ('v \<Rightarrow> u32 option) \<Rightarrow> 'v list \<Rightarrow> (store_error, 'v) result" where
  "fold_revisions number previous values =
    (let revisions = sort_key number values in
     if (case revisions of [] \<Rightarrow> True | v # _ \<Rightarrow> number v \<noteq> 1 \<or> is_some (previous v))
        \<or> \<not> windows_all (\<lambda>a b. checked_add (number a) 1 = Some (number b) \<and> previous b = Some (number a)) revisions
     then Err StoreCorrupt
     else ok_or StoreCorrupt (deque_back revisions))"

definition fold_occurrence_revisions ::
  "(host_occurrence_id \<times> host_occurrence list) list \<Rightarrow> (store_error, host_occurrence_id \<Rightarrow> host_occurrence option) result" where
  "fold_occurrence_revisions values =
    and_then (try_map (\<lambda>(i, revisions).
      and_then (fold_revisions ho_normalization_revision ho_previous_normalization_revision revisions)
        (\<lambda>v. Ok (i, v))) values) (\<lambda>m. Ok (map_of m))"

definition fold_operation_revisions ::
  "(operation_id \<times> operation list) list \<Rightarrow> (store_error, operation_id \<Rightarrow> operation option) result" where
  "fold_operation_revisions values =
    and_then (try_map (\<lambda>(i, revisions).
      and_then (fold_revisions opn_operation_revision opn_previous_operation_revision revisions)
        (\<lambda>v. Ok (i, v))) values) (\<lambda>m. Ok (map_of m))"

definition fold_lane_revisions ::
  "(execution_lane_id \<times> execution_lane list) list \<Rightarrow> (store_error, execution_lane_id \<Rightarrow> execution_lane option) result" where
  "fold_lane_revisions values =
    and_then (try_map (\<lambda>(i, revisions).
      and_then (fold_revisions el_lane_revision el_predecessor_revision revisions) (\<lambda>v. Ok (i, v))) values)
      (\<lambda>m. Ok (map_of m))"

section \<open>The snapshot the segmenter reads\<close>

definition recent_for_episode ::
  "operation_burst_current_view \<Rightarrow> work_episode \<Rightarrow> (store_error, operation_burst list) result" where
  "recent_for_episode view e =
    (if length (ep_operation_burst_refs e) > 64 then Err StoreCorrupt
     else and_then (try_map (\<lambda>i. ok_or StoreCorrupt (bv_bursts view i)) (ep_operation_burst_refs e)) (\<lambda>found.
       let values = sort_key ob_source_watermark found in
       if \<not> windows_all (\<lambda>a b. ob_source_watermark a < ob_source_watermark b) values
       then Err StoreCorrupt else Ok values))"

record segmentation_current_state =
  scs_authority :: segmentation_current_view
  scs_bursts :: operation_burst_current_view

text \<open>\<open>from_snapshot\<close>, after its two parts: one frontier or nothing.\<close>

definition segmentation_current_state_new ::
  "segmentation_current_view \<Rightarrow> operation_burst_current_view \<Rightarrow> (store_error, segmentation_current_state) result" where
  "segmentation_current_state_new authority bursts =
    (if scv_frontier authority \<noteq> bv_frontier bursts then Err StoreCorrupt
     else Ok \<lparr>scs_authority = authority, scs_bursts = bursts\<rparr>)"

definition scs_frontier :: "segmentation_current_state \<Rightarrow> u64" where
  "scs_frontier s = scv_frontier (scs_authority s)"

definition scs_episode :: "segmentation_current_state \<Rightarrow> work_episode_id \<Rightarrow> work_episode option" where
  "scs_episode s = scv_episodes (scs_authority s)"

definition scs_recent_bursts ::
  "segmentation_current_state \<Rightarrow> work_episode \<Rightarrow> (store_error, operation_burst list) result" where
  "scs_recent_bursts s = recent_for_episode (scs_bursts s)"

definition scs_current_burst :: "segmentation_current_state \<Rightarrow> operation_burst_id \<Rightarrow> operation_burst option" where
  "scs_current_burst s = bv_bursts (scs_bursts s)"

section \<open>Physical provenance of a burst member\<close>

definition member_has_exact_physical_provenance ::
  "operation_burst_member \<Rightarrow> operation_burst \<Rightarrow> operation \<Rightarrow> host_occurrence \<Rightarrow> scope_effect list \<Rightarrow> bool" where
  "member_has_exact_physical_provenance m b operation occurrence effects \<longleftrightarrow>
    (let expected_sources = sort_dedup (ho_source_observation_refs occurrence
           @ opn_input_source_observation_refs operation @ opn_result_source_observation_refs operation
           @ concat (map sef_evidence_refs effects));
         expected_artifacts = sort_dedup (opn_artifact_refs operation @ concat (map sef_artifact_refs effects));
         expected_side_effects = sort_dedup (map sef_effect_role effects)
     in
     opn_operation_revision operation = bm_operation_revision m
     \<and> opn_host_occurrence_id operation = bm_host_occurrence_id m
     \<and> opn_execution_lane_id operation = Some (ob_execution_lane_id b)
     \<and> opn_operation_kind operation = ob_operation_kind b
     \<and> ho_host_occurrence_id occurrence = opn_host_occurrence_id operation
     \<and> opn_scope_effect_ids operation = bm_scope_effect_refs m
     \<and> (\<forall>effect \<in> set effects. sef_operation_id effect = bm_operation_id m)
     \<and> expected_sources = bm_source_observation_refs m
     \<and> expected_artifacts = bm_artifact_refs m
     \<and> expected_side_effects = bm_side_effects m)"

section \<open>What a recording function promises\<close>

text \<open>
  The abstract state is, for every object, the list of its revisions in the order they were
  accepted. \<open>history_step\<close> is the abstract operation: a known revision changes nothing, a
  first revision starts a history, an accepted successor of the last one extends it.
\<close>

inductive history_step ::
  "('v \<Rightarrow> 'i) \<Rightarrow> ('v \<Rightarrow> bool) \<Rightarrow> ('v \<Rightarrow> 'v \<Rightarrow> bool) \<Rightarrow> ('i \<Rightarrow> 'v list) \<Rightarrow> 'v \<Rightarrow> ('i \<Rightarrow> 'v list) \<Rightarrow> bool"
  for id_of root accepts where
  known: "v \<in> set (hist (id_of v)) \<Longrightarrow> history_step id_of root accepts hist v hist"
| first: "hist (id_of v) = [] \<Longrightarrow> root v \<Longrightarrow> history_step id_of root accepts hist v (hist(id_of v := [v]))"
| extend: "hist (id_of v) \<noteq> [] \<Longrightarrow> accepts (last (hist (id_of v))) v
    \<Longrightarrow> history_step id_of root accepts hist v (hist(id_of v := hist (id_of v) @ [v]))"

text \<open>The maps represent a history.\<close>

definition represents ::
  "('v \<Rightarrow> 'i) \<Rightarrow> ('v \<Rightarrow> revision_id) \<Rightarrow> ('v \<Rightarrow> bool) \<Rightarrow> ('v \<Rightarrow> 'v \<Rightarrow> bool) \<Rightarrow> ('i \<Rightarrow> 'v list)
    \<Rightarrow> ('i, 'v) seq_map \<Rightarrow> (revision_id, 'v) seq_map \<Rightarrow> bool" where
  "represents id_of rev_of root accepts hist current revisions \<longleftrightarrow>
    (\<forall>i. map_option fst (current i) = deque_back (hist i))
    \<and> (\<forall>i. \<forall>v \<in> set (hist i). id_of v = i \<and> map_option fst (revisions (rev_of v)) = Some v)
    \<and> (\<forall>r v s. revisions r = Some (v, s) \<longrightarrow> rev_of v = r \<and> v \<in> set (hist (id_of v)))
    \<and> (\<forall>i. hist i \<noteq> [] \<longrightarrow> root (hd (hist i)) \<and> windows_all accepts (hist i))"

lemma representsD:
  assumes "represents id_of rev_of root accepts hist current revisions"
  shows "map_option fst (current i) = deque_back (hist i)"
    and "v \<in> set (hist i) \<Longrightarrow> id_of v = i" and "v \<in> set (hist i) \<Longrightarrow> map_option fst (revisions (rev_of v)) = Some v"
    and "revisions r = Some (v, s) \<Longrightarrow> rev_of v = r" and "revisions r = Some (v, s) \<Longrightarrow> v \<in> set (hist (id_of v))"
    and "hist i \<noteq> [] \<Longrightarrow> root (hd (hist i))" and "windows_all accepts (hist i)"
proof -
  have 1: "\<forall>i. map_option fst (current i) = deque_back (hist i)"
    and 2: "\<forall>i. \<forall>v \<in> set (hist i). id_of v = i \<and> map_option fst (revisions (rev_of v)) = Some v"
    and 3: "\<forall>r v s. revisions r = Some (v, s) \<longrightarrow> rev_of v = r \<and> v \<in> set (hist (id_of v))"
    and 4: "\<forall>i. hist i \<noteq> [] \<longrightarrow> root (hd (hist i)) \<and> windows_all accepts (hist i)"
    using assms unfolding represents_def by simp_all
  show "map_option fst (current i) = deque_back (hist i)" using 1 by simp
  show "v \<in> set (hist i) \<Longrightarrow> id_of v = i" and "v \<in> set (hist i) \<Longrightarrow> map_option fst (revisions (rev_of v)) = Some v"
    using 2 by simp_all
  show "revisions r = Some (v, s) \<Longrightarrow> rev_of v = r" and "revisions r = Some (v, s) \<Longrightarrow> v \<in> set (hist (id_of v))"
    using 3 by blast+
  show "hist i \<noteq> [] \<Longrightarrow> root (hd (hist i))" using 4 by simp
  show "windows_all accepts (hist i)" using 4 by (cases "hist i = []") simp_all
qed

locale revision_store = revision_chain accepts ident gen well_formed
  for accepts :: "'v \<Rightarrow> 'v \<Rightarrow> bool" and ident :: "'v \<Rightarrow> 'k" and gen :: "'v \<Rightarrow> nat" and well_formed :: "'v \<Rightarrow> bool" +
  fixes record_rev :: "('i, 'v) seq_map \<Rightarrow> (revision_id, 'v) seq_map \<Rightarrow> 'v \<Rightarrow> u64
      \<Rightarrow> (store_error, ('i, 'v) seq_map \<times> (revision_id, 'v) seq_map) result"
    and id_of :: "'v \<Rightarrow> 'i" and rev_of :: "'v \<Rightarrow> revision_id" and root :: "'v \<Rightarrow> bool"
  assumes accepts_id: "accepts a b \<Longrightarrow> id_of b = id_of a"
    and root_gen: "root v \<Longrightarrow> gen v = 1"
    and root_well_formed: "root v \<Longrightarrow> well_formed v"
    and record_known: "revisions (rev_of v) = Some (w, s) \<Longrightarrow>
      record_rev current revisions v seq = (if w = v then Ok (current, revisions) else Err StoreCorrupt)"
    and record_first: "revisions (rev_of v) = None \<Longrightarrow> current (id_of v) = None \<Longrightarrow>
      record_rev current revisions v seq = (if root v
        then Ok (current(id_of v \<mapsto> (v, seq)), revisions(rev_of v \<mapsto> (v, seq))) else Err StoreCorrupt)"
    and record_next: "revisions (rev_of v) = None \<Longrightarrow> current (id_of v) = Some (w, s) \<Longrightarrow> w \<noteq> v \<Longrightarrow>
      record_rev current revisions v seq = (if accepts w v
        then Ok (current(id_of v \<mapsto> (v, seq)), revisions(rev_of v \<mapsto> (v, seq))) else Err StoreCorrupt)"
begin

abbreviation "rep \<equiv> represents id_of rev_of root accepts"
abbreviation "hstep \<equiv> history_step id_of root accepts"

lemma rep_empty: "rep (\<lambda>_. []) (\<lambda>_. None) (\<lambda>_. None)"
  by (simp add: represents_def deque_back_def)

lemma rep_add:
  assumes rep: "rep hist current revisions" and fresh: "revisions (rev_of v) = None"
    and start: "hist (id_of v) = [] \<Longrightarrow> root v"
    and follow: "hist (id_of v) \<noteq> [] \<Longrightarrow> accepts (last (hist (id_of v))) v"
  shows "rep (hist(id_of v := hist (id_of v) @ [v])) (current(id_of v \<mapsto> (v, seq)))
    (revisions(rev_of v \<mapsto> (v, seq)))"
proof -
  have other: "rev_of w \<noteq> rev_of v" if "w \<in> set (hist i)" for w i
  proof
    assume "rev_of w = rev_of v"
    then show False using representsD(3) [OF rep that] fresh by simp
  qed
  show ?thesis
    unfolding represents_def
  proof (intro conjI allI)
    fix i
    show "map_option fst ((current(id_of v \<mapsto> (v, seq))) i) = deque_back ((hist(id_of v := hist (id_of v) @ [v])) i)"
      using representsD(1) [OF rep, of i] by (auto simp: deque_back_def)
    show "\<forall>w \<in> set ((hist(id_of v := hist (id_of v) @ [v])) i).
        id_of w = i \<and> map_option fst ((revisions(rev_of v \<mapsto> (v, seq))) (rev_of w)) = Some w"
      using representsD(2,3) [OF rep, of _ i] other by auto
    show "(hist(id_of v := hist (id_of v) @ [v])) i \<noteq> [] \<longrightarrow>
        root (hd ((hist(id_of v := hist (id_of v) @ [v])) i))
        \<and> windows_all accepts ((hist(id_of v := hist (id_of v) @ [v])) i)"
      using representsD(6,7) [OF rep, of i] start follow
      by (cases "hist (id_of v) = []") (auto simp: windows_all_append_single)
  next
    fix r w s
    show "(revisions(rev_of v \<mapsto> (v, seq))) r = Some (w, s) \<longrightarrow>
        rev_of w = r \<and> w \<in> set ((hist(id_of v := hist (id_of v) @ [v])) (id_of w))"
      using representsD(4,5) [OF rep, of r w s] by auto
  qed
qed

lemma record_simulates:
  assumes rep: "rep hist current revisions" and r: "record_rev current revisions v seq = Ok (current', revisions')"
  shows "\<exists>hist'. hstep hist v hist' \<and> rep hist' current' revisions'"
proof (cases "revisions (rev_of v)")
  case (Some ws)
  then obtain w s where ws: "revisions (rev_of v) = Some (w, s)" by (cases ws) auto
  with r record_known [of revisions, OF ws] have "w = v" "current' = current" "revisions' = revisions"
    by (auto split: if_splits)
  moreover have "v \<in> set (hist (id_of v))" using representsD(5) [OF rep ws] \<open>w = v\<close> by simp
  ultimately show ?thesis using rep by (auto intro: history_step.known)
next
  case fresh: None
  have cur: "map_option fst (current (id_of v)) = deque_back (hist (id_of v))"
    by (rule representsD(1) [OF rep])
  show ?thesis
  proof (cases "current (id_of v)")
    case None
    then have "hist (id_of v) = []" using cur by (simp add: deque_back_def split: if_splits)
    moreover have "root v" and eqs: "current' = current(id_of v \<mapsto> (v, seq))" "revisions' = revisions(rev_of v \<mapsto> (v, seq))"
      using r record_first [of revisions _ current, OF fresh None] by (auto split: if_splits)
    ultimately show ?thesis
      using rep_add [OF rep fresh, of seq] history_step.first [of hist id_of v root] by fastforce
  next
    case (Some ws)
    then obtain w s where ws: "current (id_of v) = Some (w, s)" by (cases ws) auto
    then have last: "hist (id_of v) \<noteq> []" "last (hist (id_of v)) = w"
      using cur by (simp_all add: deque_back_def split: if_splits)
    show ?thesis
    proof (cases "w = v")
      case True
      then have "v \<in> set (hist (id_of v))" using last by (metis last_in_set)
      from representsD(3) [OF rep this] fresh show ?thesis by simp
    next
      case False
      then have "accepts w v" and eqs: "current' = current(id_of v \<mapsto> (v, seq))" "revisions' = revisions(rev_of v \<mapsto> (v, seq))"
        using r record_next [of revisions _ current, OF fresh ws] by (auto split: if_splits)
      then show ?thesis
        using rep_add [OF rep fresh, of seq] last history_step.extend [of hist id_of v accepts] by auto
    qed
  qed
qed

lemma replay_represents:
  assumes "replay (\<lambda>(c, r) (v, seq). record_rev c r v seq) (c0, r0) xs = Ok (c, r)" and "rep hist0 c0 r0"
  shows "\<exists>hist. rep hist c r \<and> (\<forall>i. \<exists>zs. hist i = hist0 i @ zs)"
  using assms
proof (induction xs arbitrary: c0 r0 hist0)
  case Nil then show ?case by auto
next
  case (Cons x xs)
  obtain v seq where x: "x = (v, seq)" by (cases x)
  obtain c1 r1 where one: "record_rev c0 r0 v seq = Ok (c1, r1)"
      and rest: "replay (\<lambda>(c, r) (v, seq). record_rev c r v seq) (c1, r1) xs = Ok (c, r)"
    using Cons.prems(1) x by (auto simp: result_simps)
  obtain hist1 where h: "hstep hist0 v hist1" "rep hist1 c1 r1" using record_simulates [OF Cons.prems(2) one] by blast
  have "\<exists>zs. hist1 i = hist0 i @ zs" for i using h(1) by (cases rule: history_step.cases) auto
  moreover obtain hist where "rep hist c r" "\<forall>i. \<exists>zs. hist i = hist1 i @ zs" using Cons.IH [OF rest h(2)] by blast
  ultimately show ?case by (metis append.assoc)
qed

lemma rep_gen:
  assumes "rep hist c r" and "k < length (hist i)"
  shows "gen (hist i ! k) = Suc k"
proof -
  obtain x xs where x: "hist i = x # xs" using assms(2) by (cases "hist i") auto
  then have "root x" "windows_all accepts (x # xs)"
    using representsD(6,7) [OF assms(1), of i] by simp_all
  then show ?thesis using history_gen [of x xs k] assms(2) x root_gen by simp
qed

lemma rep_well_formed:
  assumes "rep hist c r" and "v \<in> set (hist i)"
  shows "well_formed v"
proof -
  obtain x xs where x: "hist i = x # xs" using assms(2) by (cases "hist i") auto
  then have "root x" "windows_all accepts (x # xs)"
    using representsD(6,7) [OF assms(1), of i] by simp_all
  then show ?thesis using history_well_formed [of x xs v] root_well_formed assms(2) x by auto
qed

lemma rep_current:
  assumes "rep hist c r" and "c i = Some (v, s)"
  shows "hist i \<noteq> []" and "last (hist i) = v"
  using representsD(1) [OF assms(1), of i] assms(2) by (simp_all add: deque_back_def split: if_splits)

end

text \<open>
  A store whose revisions carry a number and name their predecessor: sorting the stored
  revisions of an object, in whatever order they are read, and checking the chain gives
  back the current revision.
\<close>

lemma sort_key_history:
  assumes "mset vs = mset xs" and "sorted_wrt (<) (map key xs)"
  shows "sort_key (key :: 'v \<Rightarrow> 'k::linorder) vs = xs"
proof -
  have s: "sorted (map key xs)" and d: "distinct (map key xs)"
    using assms(2) strict_sorted_iff by blast+
  have "map key (sort_key key vs) = sort (map key xs)"
    using assms(1) by (intro properties_for_sort [symmetric]) simp_all
  also have "\<dots> = map key xs" using s by (simp add: sorted_sort_id)
  finally have eq: "map key (sort_key key vs) = map key xs" .
  have "set (sort_key key vs) = set xs" using assms(1) by (metis mset_eq_setD set_sort)
  moreover have "inj_on key (set xs)" using d by (simp add: distinct_map)
  ultimately show ?thesis using map_inj_on [OF eq] by simp
qed

locale revision_rebuild = revision_store accepts ident gen well_formed record_rev id_of rev_of root
  for accepts :: "'v \<Rightarrow> 'v \<Rightarrow> bool" and ident :: "'v \<Rightarrow> 'k" and gen :: "'v \<Rightarrow> nat" and well_formed :: "'v \<Rightarrow> bool"
    and record_rev :: "('i, 'v) seq_map \<Rightarrow> (revision_id, 'v) seq_map \<Rightarrow> 'v \<Rightarrow> u64
      \<Rightarrow> (store_error, ('i, 'v) seq_map \<times> (revision_id, 'v) seq_map) result"
    and id_of :: "'v \<Rightarrow> 'i" and rev_of :: "'v \<Rightarrow> revision_id" and root :: "'v \<Rightarrow> bool" +
  fixes number :: "'v \<Rightarrow> u64" and pred :: "'v \<Rightarrow> revision_id option"
  assumes gen_number: "gen v = unat (number v)"
    and accepts_pred: "accepts a b \<Longrightarrow> pred b = Some (rev_of a)"
    and root_pred: "root v \<Longrightarrow> pred v = None"
begin

lemma chain_check_history:
  assumes "windows_all accepts (x # xs)" and "gen x = k"
  shows "chain_check well_formed number pred rev_of accepts (Some x) k xs = Ok ()"
  using assms
proof (induction xs arbitrary: x k)
  case (Cons y ys)
  then have a: "accepts x y" and w: "windows_all accepts (y # ys)" by simp_all
  have "gen y = Suc k" using accepts_gen [OF a] Cons.prems(2) by simp
  with Cons.IH [OF w this] show ?case
    using accepts_well_formed [OF a] accepts_pred [OF a] a by (simp add: gen_number)
qed simp

lemma rep_sorted:
  assumes "rep hist c r"
  shows "sorted_wrt (<) (map number (hist i))"
proof -
  have "number (hist i ! a) < number (hist i ! b)" if "a < b" "b < length (hist i)" for a b
    using that rep_gen [OF assms, of a i] rep_gen [OF assms, of b i]
    by (simp add: gen_number word_less_nat_alt)
  then show ?thesis by (simp add: sorted_wrt_iff_nth_less)
qed

lemma rebuild:
  assumes rep: "rep hist c r" and m: "mset vs = mset (hist i)" and cur: "c i = Some (v, s)"
  shows "chain_check well_formed number pred rev_of accepts None 0 (sort_key number vs) = Ok ()"
    and "deque_back (sort_key number vs) = Some v"
proof -
  have sort: "sort_key number vs = hist i" by (rule sort_key_history [OF m rep_sorted [OF rep]])
  obtain x xs where x: "hist i = x # xs" using rep_current(1) [OF rep cur] by (cases "hist i") auto
  then have root: "root x" and w: "windows_all accepts (x # xs)"
    using representsD(6,7) [OF rep, of i] by simp_all
  have "chain_check well_formed number pred rev_of accepts (Some x) 1 xs = Ok ()"
    by (rule chain_check_history [OF w root_gen [OF root]])
  then show "chain_check well_formed number pred rev_of accepts None 0 (sort_key number vs) = Ok ()"
    using root_gen [OF root] root_pred [OF root] root_well_formed [OF root]
    by (simp add: sort x gen_number)
  show "deque_back (sort_key number vs) = Some v"
    using rep_current [OF rep cur] by (simp add: sort deque_back_def)
qed

end

definition episode_root :: "work_episode \<Rightarrow> bool" where
  "episode_root e \<longleftrightarrow> work_episode_validate e = Inr () \<and> ep_revision_generation e = 1
    \<and> ep_predecessor_revision_id e = None"

definition burst_root :: "operation_burst \<Rightarrow> bool" where
  "burst_root b \<longleftrightarrow> operation_burst_validate b = Inr () \<and> ob_revision_generation b = 1
    \<and> ob_predecessor_revision_id b = None"

lemma episode_successor_pred:
  assumes "work_episode_validate_successor a b = Inr ()"
  shows "ep_predecessor_revision_id b = Some (ep_revision_id a)"
  by (rule episode_successor_cases [OF assms]) (simp_all add: plain_successor_def semantic_successorD(3))

interpretation episode_store: revision_rebuild
  "\<lambda>a b. work_episode_validate_successor a b = Inr ()" episode_identity
  "\<lambda>e. unat (ep_revision_generation e)" "\<lambda>e. work_episode_validate e = Inr ()"
  record_episode ep_episode_id ep_revision_id episode_root ep_revision_generation ep_predecessor_revision_id
proof unfold_locales
  fix a b :: work_episode
  assume s: "work_episode_validate_successor a b = Inr ()"
  show "ep_episode_id b = ep_episode_id a"
    using episode_successorD(1) [OF s] by (simp add: episode_identity_def)
  show "ep_predecessor_revision_id b = Some (ep_revision_id a)" by (rule episode_successor_pred [OF s])
next
  fix v w :: work_episode and s seq :: u64 and current :: "(work_episode_id, work_episode) seq_map" and revisions
  assume fresh: "(revisions :: (revision_id, work_episode) seq_map) (ep_revision_id v) = None" and c: "current (ep_episode_id v) = Some (w, s)" and "w \<noteq> v"
  then show "record_episode current revisions v seq =
    (if work_episode_validate_successor w v = Inr ()
     then Ok (current(ep_episode_id v \<mapsto> (v, seq)), revisions(ep_revision_id v \<mapsto> (v, seq))) else Err StoreCorrupt)"
    by (cases "work_episode_validate_successor w v") (simp_all add: record_episode_def Let_def)
qed (auto simp: record_episode_def episode_root_def is_ok_unit Let_def)

interpretation burst_store: revision_rebuild
  "\<lambda>a b. operation_burst_validate_successor a b = Inr ()" burst_context
  "\<lambda>b. unat (ob_revision_generation b)" "\<lambda>b. operation_burst_validate b = Inr ()"
  record_operation_burst ob_operation_burst_id ob_revision_id burst_root ob_revision_generation
  ob_predecessor_revision_id
proof unfold_locales
  fix a b :: operation_burst
  assume s: "operation_burst_validate_successor a b = Inr ()"
  show "ob_operation_burst_id b = ob_operation_burst_id a"
    using arg_cong [OF burst_successorD(1) [OF s], of ob_operation_burst_id] by (simp add: burst_context_def)
  show "ob_predecessor_revision_id b = Some (ob_revision_id a)" by (rule burst_successorD(7) [OF s])
next
  fix v w :: operation_burst and s seq :: u64 and current :: "(operation_burst_id, operation_burst) seq_map" and revisions
  assume fresh: "(revisions :: (revision_id, operation_burst) seq_map) (ob_revision_id v) = None" and c: "current (ob_operation_burst_id v) = Some (w, s)" and "w \<noteq> v"
  then show "record_operation_burst current revisions v seq =
    (if operation_burst_validate_successor w v = Inr ()
     then Ok (current(ob_operation_burst_id v \<mapsto> (v, seq)), revisions(ob_revision_id v \<mapsto> (v, seq))) else Err StoreCorrupt)"
    by (cases "operation_burst_validate_successor w v") (simp_all add: record_operation_burst_def Let_def)
qed (auto simp: record_operation_burst_def burst_root_def is_ok_unit Let_def)

definition record_episodes ::
  "(work_episode \<times> u64) list \<Rightarrow> (store_error, (work_episode_id, work_episode) seq_map \<times> (revision_id, work_episode) seq_map) result" where
  "record_episodes journal =
    replay (\<lambda>(c, r) (v, seq). record_episode c r v seq) (\<lambda>_. None, \<lambda>_. None) journal"

definition record_bursts ::
  "(operation_burst \<times> u64) list \<Rightarrow> (store_error, (operation_burst_id, operation_burst) seq_map \<times> (revision_id, operation_burst) seq_map) result" where
  "record_bursts journal =
    replay (\<lambda>(c, r) (v, seq). record_operation_burst c r v seq) (\<lambda>_. None, \<lambda>_. None) journal"

lemma record_episodes_represents:
  assumes "record_episodes journal = Ok (c, r)"
  obtains hist where "episode_store.rep hist c r"
  using episode_store.replay_represents [OF assms [unfolded record_episodes_def] episode_store.rep_empty] by blast

lemma record_bursts_represents:
  assumes "record_bursts journal = Ok (c, r)"
  obtains hist where "burst_store.rep hist c r"
  using burst_store.replay_represents [OF assms [unfolded record_bursts_def] burst_store.rep_empty] by blast

text \<open>
  C5. The episode projection refines an append-only history per episode: recording one
  more episode either changes nothing because exactly this revision is known, or starts
  the history of a new episode with a valid first revision, or appends an accepted
  successor of its last revision; the current map always shows the last revision and the
  revision map exactly the revisions of all histories.
\<close>

theorem record_episode_refines_history:
  assumes "represents ep_episode_id ep_revision_id episode_root
      (\<lambda>a b. work_episode_validate_successor a b = Ok ()) hist current revisions"
    and "record_episode current revisions e seq = Ok (current', revisions')"
  shows "\<exists>hist'. history_step ep_episode_id episode_root
        (\<lambda>a b. work_episode_validate_successor a b = Ok ()) hist e hist'
      \<and> represents ep_episode_id ep_revision_id episode_root
        (\<lambda>a b. work_episode_validate_successor a b = Ok ()) hist' current' revisions'"
  by (rule episode_store.record_simulates [OF assms])

text \<open>
  Whatever journal of episode records has been accepted, every stored revision is an
  ancestor of the current revision of its episode: the current one has the same identity,
  is not behind in any watermark, has not reopened or unconfirmed anything and holds every
  reference the stored one holds; and all stored and current revisions are valid.
\<close>

theorem episode_projection_advances:
  assumes "record_episodes journal = Ok (current, revisions)" and "revisions r = Some (v, s)"
  shows "\<exists>e t. current (ep_episode_id v) = Some (e, t) \<and> episode_identity e = episode_identity v
    \<and> episode_advances v e \<and> ep_revision_generation v \<le> ep_revision_generation e
    \<and> work_episode_validate v = Ok () \<and> work_episode_validate e = Ok () \<and> ep_revision_id v = r"
proof -
  obtain hist where rep: "episode_store.rep hist current revisions"
    by (rule record_episodes_represents [OF assms(1)])
  let ?h = "hist (ep_episode_id v)"
  have v: "v \<in> set ?h" and r: "ep_revision_id v = r" using representsD(4,5) [OF rep assms(2)] by simp_all
  then have ne: "?h \<noteq> []" by auto
  then obtain e t where e: "current (ep_episode_id v) = Some (e, t)" "last ?h = e"
    using representsD(1) [OF rep, of "ep_episode_id v"] by (auto simp: deque_back_def)
  obtain i where i: "i < length ?h" "?h ! i = v" using v by (auto simp: in_set_conv_nth)
  let ?k = "length ?h - 1"
  have k: "i \<le> ?k" "?k < length ?h" "?h ! ?k = e" using i ne e(2) by (auto simp: last_conv_nth)
  have chain: "windows_all (\<lambda>a b. work_episode_validate_successor a b = Inr ()) ?h"
    using representsD(7) [OF rep] by simp
  have "episode_advances v e"
    using episodes.history_absorbed [OF chain k(1,2), of v] i(2) k(3) episode_advances_refl by simp
  moreover have "unat (ep_revision_generation v) = Suc i" "unat (ep_revision_generation e) = Suc ?k"
    using episode_store.rep_gen [OF rep i(1)] episode_store.rep_gen [OF rep k(2)] i(2) k(3) by simp_all
  moreover have "episode_identity e = episode_identity v"
  proof -
    obtain x xs where x: "?h = x # xs" using ne by (cases ?h) auto
    show ?thesis
      using episodes.history_ident [of x xs] chain v e(2) ne x by (metis last_in_set)
  qed
  moreover have "work_episode_validate v = Ok ()" "work_episode_validate e = Ok ()"
    using episode_store.rep_well_formed [OF rep] v e(2) ne last_in_set by blast+
  ultimately show ?thesis using e(1) k(1) r by (auto simp: word_le_nat_alt)
qed

section \<open>Incremental recording and rebuilding agree\<close>

lemma map_of_tabulate: "map_of (map (\<lambda>i. (i, f i)) xs) i = (if i \<in> set xs then Some (f i) else None)"
  by (induction xs) auto

context revision_rebuild
begin

lemma rebuild_all:
  fixes current_of :: "'v list \<Rightarrow> (store_error, 'v) result"
  assumes rep: "represents id_of rev_of root accepts hist c r"
    and rows: "distinct rows" "set rows = {v. \<exists>k s. r k = Some (v, s)}"
    and cur_of: "\<And>vs. current_of vs = and_then (chain_check well_formed number pred rev_of accepts None 0
        (sort_key number vs)) (\<lambda>_. ok_or StoreCorrupt (deque_back (sort_key number vs)))"
    and ids: "set ids = id_of ` set rows"
  shows "try_map (\<lambda>(i, values). and_then (current_of values) (\<lambda>b. Ok (i, b)))
      (map (\<lambda>i. (i, filter (\<lambda>v. id_of v = i) rows)) ids)
    = Ok (map (\<lambda>i. (i, fst (the (c i)))) ids)"
    and "map_of (map (\<lambda>i. (i, fst (the (c i)))) ids) = (\<lambda>i. map_option fst (c i))"
proof -
  have stored: "v \<in> set rows \<longleftrightarrow> v \<in> set (hist (id_of v))" for v
  proof
    assume "v \<in> set rows"
    then show "v \<in> set (hist (id_of v))" using rows(2) representsD(5) [OF rep] by auto
  next
    assume "v \<in> set (hist (id_of v))"
    from representsD(3) [OF rep this] show "v \<in> set rows" using rows(2) by force
  qed
  have m: "mset (filter (\<lambda>v. id_of v = i) rows) = mset (hist i)" for i
  proof -
    have "distinct (hist i)"
      using rep_sorted [OF rep, of i] by (simp add: strict_sorted_iff distinct_map)
    moreover have "set (filter (\<lambda>v. id_of v = i) rows) = set (hist i)"
      using stored representsD(2) [OF rep, of _ i] by auto
    ultimately show ?thesis using rows(1) by (intro iffD1 [OF set_eq_iff_mset_eq_distinct]) simp_all
  qed
  have present: "i \<in> set ids \<longleftrightarrow> hist i \<noteq> []" for i
  proof
    assume "i \<in> set ids"
    then show "hist i \<noteq> []" using ids stored by auto
  next
    assume "hist i \<noteq> []"
    then obtain v where v: "v \<in> set (hist i)" by (cases "hist i") auto
    then show "i \<in> set ids" using ids stored representsD(2) [OF rep v] by auto
  qed
  have some: "\<exists>v s. c i = Some (v, s)" if "hist i \<noteq> []" for i
    using representsD(1) [OF rep, of i] that by (auto simp: deque_back_def)
  have one: "current_of (filter (\<lambda>v. id_of v = i) rows) = Ok (fst (the (c i)))" if i: "i \<in> set ids" for i
  proof -
    obtain v s where c: "c i = Some (v, s)" using some [of i] i present [of i] by auto
    show ?thesis using rebuild [OF rep m c] c by (simp add: cur_of ok_or_def)
  qed
  have "try_map (\<lambda>(i, values). and_then (current_of values) (\<lambda>b. Ok (i, b)))
      (map (\<lambda>i. (i, filter (\<lambda>v. id_of v = i) rows)) ids)
    = Ok (map (\<lambda>x. (fst x, fst (the (c (fst x))))) (map (\<lambda>i. (i, filter (\<lambda>v. id_of v = i) rows)) ids))"
    by (rule try_map_Ok) (auto simp: one)
  then show "try_map (\<lambda>(i, values). and_then (current_of values) (\<lambda>b. Ok (i, b)))
      (map (\<lambda>i. (i, filter (\<lambda>v. id_of v = i) rows)) ids)
    = Ok (map (\<lambda>i. (i, fst (the (c i)))) ids)" by (simp add: comp_def)
  show "map_of (map (\<lambda>i. (i, fst (the (c i)))) ids) = (\<lambda>i. map_option fst (c i))"
  proof
    fix i
    show "map_of (map (\<lambda>i. (i, fst (the (c i)))) ids) i = map_option fst (c i)"
      using some [of i] present [of i] representsD(1) [OF rep, of i]
      by (auto simp: map_of_tabulate deque_back_def)
  qed
qed

end

text \<open>
  C4. Reading the stored burst revisions back, in whatever order the rows come, rebuilds
  exactly the current bursts that recording the journal one record at a time produced:
  no row order, and no replayed or repeated record, can make the two disagree.
\<close>

theorem burst_view_rebuild:
  assumes "record_bursts journal = Ok (current, revisions)"
    and "distinct rows" and "set rows = {v. \<exists>r s. revisions r = Some (v, s)}"
  shows "operation_burst_current_view_from_revisions frontier rows
    = Ok \<lparr>bv_frontier = frontier, bv_bursts = (\<lambda>i. map_option fst (current i))\<rparr>"
proof -
  obtain hist where rep: "burst_store.rep hist current revisions"
    by (rule record_bursts_represents [OF assms(1)])
  have "burst_current_of vs = and_then (chain_check (\<lambda>b. operation_burst_validate b = Inr ())
      ob_revision_generation ob_predecessor_revision_id ob_revision_id
      (\<lambda>a b. operation_burst_validate_successor a b = Inr ()) None 0 (sort_key ob_revision_generation vs))
      (\<lambda>_. ok_or StoreCorrupt (deque_back (sort_key ob_revision_generation vs)))" for vs
    by (simp add: burst_current_of_def is_ok_unit Let_def)
  from burst_store.rebuild_all [OF rep assms(2,3) this, of "btree_set (map ob_operation_burst_id rows)"]
  show ?thesis
    by (simp add: operation_burst_current_view_from_revisions_def group_by_id_def del: map_of_eq_None_iff)
qed

text \<open>The same for episodes.\<close>

lemma episodes_view_rebuild:
  assumes "record_episodes journal = Ok (current, revisions)"
    and "distinct rows" and "set rows = {v. \<exists>r s. revisions r = Some (v, s)}"
  shows "episodes_from_revisions rows = Ok (\<lambda>i. map_option fst (current i))"
proof -
  obtain hist where rep: "episode_store.rep hist current revisions"
    by (rule record_episodes_represents [OF assms(1)])
  have "episode_current_of vs = and_then (chain_check (\<lambda>b. work_episode_validate b = Inr ())
      ep_revision_generation ep_predecessor_revision_id ep_revision_id
      (\<lambda>a b. work_episode_validate_successor a b = Inr ()) None 0 (sort_key ep_revision_generation vs))
      (\<lambda>_. ok_or StoreCorrupt (deque_back (sort_key ep_revision_generation vs)))" for vs
    by (simp add: episode_current_of_def is_ok_unit Let_def)
  from episode_store.rebuild_all [OF rep assms(2,3) this, of "btree_set (map ep_episode_id rows)"]
  show ?thesis by (simp add: episodes_from_revisions_def group_by_id_def)
qed

section \<open>Folding numbered revisions\<close>

lemma windows_all_iff_nth: "windows_all P xs \<longleftrightarrow> (\<forall>i. Suc i < length xs \<longrightarrow> P (xs ! i) (xs ! Suc i))"
proof (induction P xs rule: windows_all.induct)
  case (1 P x y zs)
  have "(\<forall>i. Suc i < length (x # y # zs) \<longrightarrow> P ((x # y # zs) ! i) ((x # y # zs) ! Suc i))
    \<longleftrightarrow> P x y \<and> (\<forall>i. Suc i < length (y # zs) \<longrightarrow> P ((y # zs) ! i) ((y # zs) ! Suc i))"
    by (auto simp: All_less_Suc2 nth_Cons split: nat.splits)
  then show ?case using 1 by simp
qed simp_all

lemma checked_add_one_iff: "checked_add (a :: u32) 1 = Some b \<longleftrightarrow> unat b = Suc (unat a)"
proof
  assume "checked_add a 1 = Some b"
  then show "unat b = Suc (unat a)" using checked_add_SomeD [of a 1 b] by simp
next
  assume b: "unat b = Suc (unat a)"
  then have "unat a + 1 < 2 ^ 32" using unat_bound [of b] by simp
  moreover have "a + 1 = b"
  proof -
    have "of_nat (unat b) = (of_nat (Suc (unat a)) :: u32)" using b by simp
    then show ?thesis by (simp add: add.commute)
  qed
  ultimately show "checked_add a 1 = Some b" by (simp add: checked_add_def)
qed

definition numbered :: "('v \<Rightarrow> u32) \<Rightarrow> ('v \<Rightarrow> u32 option) \<Rightarrow> 'v list \<Rightarrow> bool" where
  "numbered number previous xs \<longleftrightarrow> xs \<noteq> [] \<and> (\<forall>k < length xs. unat (number (xs ! k)) = Suc k
    \<and> previous (xs ! k) = (if k = 0 then None else Some (number (xs ! (k - 1)))))"

lemma numbered_iff:
  "numbered number previous xs \<longleftrightarrow> xs \<noteq> [] \<and> number (hd xs) = 1 \<and> previous (hd xs) = None
    \<and> windows_all (\<lambda>a b. checked_add (number a) 1 = Some (number b) \<and> previous b = Some (number a)) xs"
  (is "_ \<longleftrightarrow> xs \<noteq> [] \<and> ?root \<and> ?link \<and> ?chain")
proof (cases "xs = []")
  case True then show ?thesis by (simp add: numbered_def)
next
  case ne: False
  show ?thesis
  proof
    assume n: "numbered number previous xs"
    then have k: "k < length xs \<Longrightarrow> unat (number (xs ! k)) = Suc k" 
      "k < length xs \<Longrightarrow> previous (xs ! k) = (if k = 0 then None else Some (number (xs ! (k - 1))))" for k
      by (simp_all add: numbered_def)
    have "number (xs ! 0) = 1" using k(1) [of 0] ne by (metis One_nat_def length_greater_0_conv unat_1 word_unat_eq_iff)
    moreover have ?chain using k by (simp add: windows_all_iff_nth checked_add_one_iff)
    ultimately show "xs \<noteq> [] \<and> ?root \<and> ?link \<and> ?chain" using k(2) [of 0] ne by (simp add: hd_conv_nth)
  next
    assume r: "xs \<noteq> [] \<and> ?root \<and> ?link \<and> ?chain"
    then have step: "Suc k < length xs \<Longrightarrow> unat (number (xs ! Suc k)) = Suc (unat (number (xs ! k)))"
      "Suc k < length xs \<Longrightarrow> previous (xs ! Suc k) = Some (number (xs ! k))" for k
      by (simp_all add: windows_all_iff_nth checked_add_one_iff)
    have head: "number (xs ! 0) = 1" "previous (xs ! 0) = None" using r by (simp_all flip: hd_conv_nth)
    have num: "k < length xs \<Longrightarrow> unat (number (xs ! k)) = Suc k" for k
      by (induction k) (simp_all add: head(1) step(1))
    have "k < length xs \<Longrightarrow> previous (xs ! k) = (if k = 0 then None else Some (number (xs ! (k - 1))))" for k
      using step(2) [of "k - 1"] head(2) by (cases k) simp_all
    then show "numbered number previous xs" using num ne by (simp add: numbered_def)
  qed
qed

text \<open>
  The current value of a lane, operation or occurrence is well defined: folding the
  stored revisions succeeds exactly when they can be listed as revisions 1, 2, 3, \<dots>
  without gap or repetition, each naming the one before it, and then gives the last one,
  in whatever order the rows were read.
\<close>

theorem fold_revisions_exact:
  "fold_revisions number previous values = Ok v \<longleftrightarrow>
    (\<exists>xs. mset xs = mset values \<and> numbered number previous xs \<and> last xs = v)"
proof
  let ?s = "sort_key number values"
  assume "fold_revisions number previous values = Ok v"
  then have "numbered number previous ?s" "last ?s = v"
    unfolding numbered_iff fold_revisions_def Let_def
    by (auto simp: deque_back_def ok_or_def split: if_splits list.splits)
  then show "\<exists>xs. mset xs = mset values \<and> numbered number previous xs \<and> last xs = v"
    by (intro exI [of _ ?s]) simp
next
  assume "\<exists>xs. mset xs = mset values \<and> numbered number previous xs \<and> last xs = v"
  then obtain xs where xs: "mset xs = mset values" "numbered number previous xs" "last xs = v" by blast
  have "sorted_wrt (<) (map number xs)"
    using xs(2) by (simp add: sorted_wrt_iff_nth_less numbered_def word_less_nat_alt)
  then have sort: "sort_key number values = xs" using xs(1) by (intro sort_key_history) simp_all
  show "fold_revisions number previous values = Ok v"
    using xs(2,3) unfolding numbered_iff fold_revisions_def sort Let_def
    by (cases xs) (auto simp: deque_back_def ok_or_def)
qed

section \<open>Corrections form chains\<close>

abbreviation correction_key :: "segmentation_correction \<times> u64 \<Rightarrow> revision_id" where
  "correction_key x \<equiv> sc_correction_revision_id (fst x)"

abbreviation correction_pred :: "segmentation_correction \<times> u64 \<Rightarrow> revision_id option" where
  "correction_pred x \<equiv> sc_predecessor_revision_id (fst x)"

definition corrections_linear :: "(segmentation_correction \<times> u64) list \<Rightarrow> bool" where
  "corrections_linear vs \<longleftrightarrow> distinct (map correction_key vs)
    \<and> (\<forall>x \<in> set vs. segmentation_correction_validate (fst x) = Ok ())
    \<and> (\<forall>i < length vs. \<forall>p. correction_pred (vs ! i) = Some p \<longrightarrow> (\<exists>j < i. correction_key (vs ! j) = p))
    \<and> (\<forall>i < length vs. \<forall>j < length vs. correction_pred (vs ! i) \<noteq> None
        \<and> correction_pred (vs ! i) = correction_pred (vs ! j) \<longrightarrow> i = j)"

lemma correction_get_None: "correction_get vs k = None \<longleftrightarrow> k \<notin> correction_key ` set vs"
  by (induction vs) (auto simp: correction_get_def)

lemma correction_get_Some: "correction_get vs k = Some v \<Longrightarrow> \<exists>j < length vs. correction_key (vs ! j) = k"
proof -
  assume "correction_get vs k = Some v"
  then have "k \<in> correction_key ` set vs" using correction_get_None [of vs k] by auto
  then obtain x where "x \<in> set vs" "correction_key x = k" by blast
  then show ?thesis by (metis in_set_conv_nth)
qed

lemma corrections_linearD:
  assumes "corrections_linear vs"
  shows "distinct (map correction_key vs)" and "x \<in> set vs \<Longrightarrow> segmentation_correction_validate (fst x) = Ok ()"
    and "i < length vs \<Longrightarrow> correction_pred (vs ! i) = Some p \<Longrightarrow> \<exists>j < i. correction_key (vs ! j) = p"
    and "i < length vs \<Longrightarrow> j < length vs \<Longrightarrow> correction_pred (vs ! i) \<noteq> None
      \<Longrightarrow> correction_pred (vs ! i) = correction_pred (vs ! j) \<Longrightarrow> i = j"
  using assms unfolding corrections_linear_def by simp_all

lemma corrections_linear_Nil: "corrections_linear []"
  by (simp add: corrections_linear_def)

lemma corrections_linear_snoc:
  assumes "corrections_linear vs" and "correction_key x \<notin> correction_key ` set vs"
    and "segmentation_correction_validate (fst x) = Ok ()"
    and "\<And>p. correction_pred x = Some p \<Longrightarrow> \<exists>j < length vs. correction_key (vs ! j) = p"
    and "\<And>p y. correction_pred x = Some p \<Longrightarrow> y \<in> set vs \<Longrightarrow> correction_pred y \<noteq> Some p"
  shows "corrections_linear (vs @ [x])"
  unfolding corrections_linear_def
proof (intro conjI allI impI)
  show "distinct (map correction_key (vs @ [x]))"
    using corrections_linearD(1) [OF assms(1)] assms(2) by simp
  show "\<forall>x \<in> set (vs @ [x]). segmentation_correction_validate (fst x) = Ok ()"
    using corrections_linearD(2) [OF assms(1)] assms(3) by auto
next
  fix i p assume i: "i < length (vs @ [x])" and p: "correction_pred ((vs @ [x]) ! i) = Some p"
  show "\<exists>j < i. correction_key ((vs @ [x]) ! j) = p"
  proof (cases "i < length vs")
    case True
    then have "correction_pred (vs ! i) = Some p" using p by (simp add: nth_append)
    from corrections_linearD(3) [OF assms(1) True this] obtain j where j: "j < i" "correction_key (vs ! j) = p"
      by blast
    then have "(vs @ [x]) ! j = vs ! j" using True by (simp add: nth_append)
    with j show ?thesis by metis
  next
    case False
    then have e: "i = length vs" using i by simp
    then have "correction_pred x = Some p" using p by simp
    from assms(4) [OF this] obtain j where j: "j < i" "correction_key (vs ! j) = p" using e by blast
    then have "(vs @ [x]) ! j = vs ! j" using e by (simp add: nth_append)
    with j show ?thesis by metis
  qed
next
  fix i j assume i: "i < length (vs @ [x])" and j: "j < length (vs @ [x])"
    and eq: "correction_pred ((vs @ [x]) ! i) \<noteq> None
      \<and> correction_pred ((vs @ [x]) ! i) = correction_pred ((vs @ [x]) ! j)"
  have new: "correction_pred (vs ! k) \<noteq> correction_pred x" if "k < length vs" "correction_pred x \<noteq> None" for k
    using assms(5) that by (metis not_None_eq nth_mem)
  consider "i < length vs" "j < length vs" | "i < length vs" "j = length vs" | "i = length vs" "j < length vs"
    | "i = length vs" "j = length vs" using i j by force
  then show "i = j"
  proof cases
    case 1
    then have "(vs @ [x]) ! i = vs ! i" "(vs @ [x]) ! j = vs ! j" by (simp_all add: nth_append)
    with eq have "correction_pred (vs ! i) \<noteq> None \<and> correction_pred (vs ! i) = correction_pred (vs ! j)" by metis
    with 1 show ?thesis using corrections_linearD(4) [OF assms(1)] by blast
  next
    case 2 then show ?thesis using new [of i] eq by (metis nth_append nth_append_length)
  next
    case 3 then show ?thesis using new [of j] eq by (metis nth_append nth_append_length)
  qed simp
qed

lemma record_correction_linear:
  assumes r: "record_correction vs v seq = Ok vs'" and lin: "corrections_linear vs"
  shows "corrections_linear vs'"
proof -
  have valid: "segmentation_correction_validate v = Ok ()"
    using r by (cases "segmentation_correction_validate v") (simp_all add: record_correction_def)
  show ?thesis
  proof (cases "correction_get vs (sc_correction_revision_id v)")
    case (Some w)
    then show ?thesis using r lin valid by (simp add: record_correction_def split: if_splits)
  next
    case None
    then have fresh: "correction_key (v, seq) \<notin> correction_key ` set vs" by (simp add: correction_get_None)
    show ?thesis
    proof (cases "sc_predecessor_revision_id v")
      case None
      then have "vs' = vs @ [(v, seq)]"
        using r valid \<open>correction_get vs _ = None\<close> by (simp add: record_correction_def)
      then show ?thesis using corrections_linear_snoc [OF lin fresh] valid None by simp
    next
      case (Some p)
      obtain previous where prev: "correction_get vs p = Some previous"
          and free: "\<not> (\<exists>(existing, _) \<in> set vs. sc_predecessor_revision_id existing = Some p)"
          and vs': "vs' = vs @ [(v, seq)]"
        using r valid Some \<open>correction_get vs _ = None\<close>
        by (cases "correction_get vs p") (auto simp: record_correction_def ok_or_def split: if_splits)
      show ?thesis
        unfolding vs' using correction_get_Some [OF prev] free valid Some
        by (intro corrections_linear_snoc [OF lin fresh]) auto
    qed
  qed
qed

text \<open>
  Recorded corrections form chains, never a tree or a cycle: whatever journal of
  corrections has been accepted, revision ids are unique, every correction is valid, the
  correction it revises was recorded strictly earlier, and no correction is revised twice.
\<close>

theorem corrections_form_chains:
  assumes "replay (\<lambda>vs (v, seq). record_correction vs v seq) [] journal = Ok vs"
  shows "corrections_linear vs"
proof -
  have "corrections_linear vs" if "replay (\<lambda>vs (v, seq). record_correction vs v seq) vs0 journal = Ok vs"
    "corrections_linear vs0" for vs0
    using that
  proof (induction journal arbitrary: vs0)
    case (Cons x xs)
    obtain v seq where x: "x = (v, seq)" by (cases x)
    obtain vs1 where "record_correction vs0 v seq = Ok vs1"
        "replay (\<lambda>vs (v, seq). record_correction vs v seq) vs1 xs = Ok vs"
      using Cons.prems(1) x by (auto simp: result_simps)
    then show ?case using Cons.IH record_correction_linear Cons.prems(2) by blast
  qed simp
  then show ?thesis using assms corrections_linear_Nil by blast
qed

section \<open>Folded members pass the store's provenance check\<close>

lemma sort_dedup_cong: "set xs = set ys \<Longrightarrow> sort_dedup xs = sort_dedup ys"
  by (metis set_sort_dedup sorted_wrt_sort_dedup strict_sorted_equal)

lemma compile_checked_effectsE:
  assumes "activity_token_compile_checked view operation_id episode_id facts = Ok t"
  obtains operation occurrence binding episode workstream lane_id lane receipt effects att grp where
    "scv_operations view operation_id = Some operation"
    "scv_occurrences view (opn_host_occurrence_id operation) = Some occurrence"
    "scv_bindings view operation_id = Some binding"
    "opn_execution_lane_id operation = Some lane_id"
    "look_up_all (scv_scope_effects view) (opn_scope_effect_ids operation) = Ok effects"
    "\<not> token_ineligible operation_id episode_id facts operation occurrence binding episode workstream
      lane_id lane receipt effects att grp"
    "t = build_token operation_id episode_id facts operation occurrence binding episode workstream
      lane_id lane receipt effects att grp"
  using assms unfolding activity_token_compile_checked_def
  by (simp only: and_then_Inr_iff look_up_Inr_iff ok_or_Inr_iff) (fastforce split: if_splits)

lemma push_burst_context:
  assumes "operation_burst_folder_push f ids t = Ok (f', u)" and "\<not> bfu_no_delta u"
  shows "ob_execution_lane_id (bfu_current u) = tok_execution_lane_id t"
    and "ob_operation_kind (bfu_current u) = tok_operation_kind t"
    and "ob_primary_binding (bfu_current u) = tok_primary_binding t"
    and "last (ob_members (bfu_current u)) = member_from_token t"
proof -
  have "ob_execution_lane_id (bfu_current u) = tok_execution_lane_id t
    \<and> ob_operation_kind (bfu_current u) = tok_operation_kind t
    \<and> ob_primary_binding (bfu_current u) = tok_primary_binding t
    \<and> last (ob_members (bfu_current u)) = member_from_token t"
    using assms(1)
  proof (cases rule: push_cases)
    case replay then show ?thesis using assms(2) by simp
  next
    case (extend b)
    have c: "burst_context (bfu_current u) = burst_context b"
      by (rule burst_successorD(1) [OF folder_extend_OkD(1) [OF extend(4,1,2)]])
    have "ob_execution_lane_id (bfu_current u) = ob_execution_lane_id b"
        "ob_operation_kind (bfu_current u) = ob_operation_kind b"
        "ob_primary_binding (bfu_current u) = ob_primary_binding b"
      using arg_cong [OF c, of ob_execution_lane_id] arg_cong [OF c, of ob_operation_kind]
        arg_cong [OF c, of ob_primary_binding] by (simp_all add: burst_context_def)
    then show ?thesis using folder_extend_OkD(2) [OF extend(4,1,2)] extend(2) by (simp add: can_extend_def)
  next
    case start
    then show ?thesis
      by (auto simp: folder_start_def new_burst_def result_simps Let_def split: option.splits)
  qed
  then show "ob_execution_lane_id (bfu_current u) = tok_execution_lane_id t"
    "ob_operation_kind (bfu_current u) = tok_operation_kind t"
    "ob_primary_binding (bfu_current u) = tok_primary_binding t"
    "last (ob_members (bfu_current u)) = member_from_token t" by simp_all
qed

text \<open>
  What the segmenter writes, the store accepts: the member that folding a compiled
  token appends to the current burst satisfies the store's check of exact physical
  provenance against the operation, occurrence and effects the token was compiled from,
  and the burst carries the operation's current binding. (The occurrence map is keyed by
  the occurrences' own identifiers.)
\<close>

theorem folded_member_provenance:
  assumes "activity_token_compile_checked view operation_id episode_id facts = Ok t"
    and "\<forall>i h. scv_occurrences view i = Some h \<longrightarrow> ho_host_occurrence_id h = i"
    and "operation_burst_folder_push f ids t = Ok (f', u)" and "\<not> bfu_no_delta u"
  shows "\<exists>operation occurrence binding effects. scv_operations view operation_id = Some operation
    \<and> scv_occurrences view (opn_host_occurrence_id operation) = Some occurrence
    \<and> scv_bindings view operation_id = Some binding
    \<and> look_up_all (scv_scope_effects view) (opn_scope_effect_ids operation) = Ok effects
    \<and> member_has_exact_physical_provenance (last (ob_members (bfu_current u))) (bfu_current u)
        operation occurrence effects
    \<and> wb_operation_id binding = operation_id
    \<and> wb_primary_binding binding = ob_primary_binding (bfu_current u)"
proof (rule compile_checked_effectsE [OF assms(1)])
  fix operation occurrence binding episode workstream lane_id lane receipt effects att grp
  assume v: "scv_operations view operation_id = Some operation"
    "scv_occurrences view (opn_host_occurrence_id operation) = Some occurrence"
    "scv_bindings view operation_id = Some binding"
    "look_up_all (scv_scope_effects view) (opn_scope_effect_ids operation) = Ok effects"
    and lane: "opn_execution_lane_id operation = Some lane_id"
    and ok: "\<not> token_ineligible operation_id episode_id facts operation occurrence binding episode workstream
      lane_id lane receipt effects att grp"
    and t: "t = build_token operation_id episode_id facts operation occurrence binding episode workstream
      lane_id lane receipt effects att grp"
  note b = push_burst_context [OF assms(3,4)]
  have eff: "\<forall>effect \<in> set effects. sef_operation_id effect = operation_id"
    and bind: "wb_operation_id binding = operation_id" using ok by (auto simp: token_ineligible_def Let_def)
  have src: "sort_dedup (ho_source_observation_refs occurrence @ token_admissible operation effects)
    = sort_dedup (ho_source_observation_refs occurrence @ opn_input_source_observation_refs operation
        @ opn_result_source_observation_refs operation @ concat (map sef_evidence_refs effects))"
    by (rule sort_dedup_cong) (simp add: token_admissible_def)
  have key: "ho_host_occurrence_id occurrence = opn_host_occurrence_id operation" using assms(2) v(2) by blast
  have "member_has_exact_physical_provenance (member_from_token t) (bfu_current u) operation occurrence effects"
    using b(1,2) lane eff src key
    by (simp add: member_has_exact_physical_provenance_def member_from_token_def t build_token_def Let_def)
  then show ?thesis
    using v bind b(3,4) by (intro exI conjI) (assumption | simp add: t build_token_def Let_def)+
qed

section \<open>Sample records\<close>

lemma sample_open_episode_root: "episode_root sample_open_episode"
  using sample_open_episode_valid by (simp add: episode_root_def) (simp add: sample_open_episode_def sample_episode_def)

theorem record_episode_refines_history_witness:
  "\<exists>hist. history_step ep_episode_id episode_root (\<lambda>a b. work_episode_validate_successor a b = Ok ())
    (\<lambda>_. []) sample_open_episode hist"
proof -
  have "record_episode (\<lambda>_. None) (\<lambda>_. None) sample_open_episode 7 =
      Ok ([ep_episode_id sample_open_episode \<mapsto> (sample_open_episode, 7)],
        [ep_revision_id sample_open_episode \<mapsto> (sample_open_episode, 7)])"
    using sample_open_episode_root by (simp add: record_episode_def episode_root_def)
  from record_episode_refines_history [OF episode_store.rep_empty this] show ?thesis by blast
qed

lemma sample_episodes_recorded:
  "record_episodes [(sample_episode, 1), (sample_closed_episode, 2)] =
    Ok ([ep_episode_id sample_episode \<mapsto> (sample_closed_episode, 2)],
      [ep_revision_id sample_episode \<mapsto> (sample_episode, 1),
       ep_revision_id sample_closed_episode \<mapsto> (sample_closed_episode, 2)])"
proof -
  have "sample_episode \<noteq> sample_closed_episode" "ep_revision_generation sample_episode = 1"
      "ep_predecessor_revision_id sample_episode = None" "ep_revision_id sample_episode \<noteq> ep_revision_id sample_closed_episode"
      "ep_episode_id sample_closed_episode = ep_episode_id sample_episode"
    by (simp_all add: sample_episode_def sample_closed_episode_def)
  then show ?thesis
    by (simp add: record_episodes_def record_episode_def sample_episode_valid sample_episode_accepted
        fun_upd_def fun_eq_iff)
qed

theorem episode_projection_advances_witness:
  "\<exists>current revisions e t. record_episodes [(sample_episode, 1), (sample_closed_episode, 2)] = Ok (current, revisions)
    \<and> current (ep_episode_id sample_episode) = Some (e, t) \<and> episode_advances sample_episode e"
proof -
  have "ep_revision_id sample_episode \<noteq> ep_revision_id sample_closed_episode"
    by (simp add: sample_episode_def sample_closed_episode_def)
  then show ?thesis
    using episode_projection_advances [OF sample_episodes_recorded, of "ep_revision_id sample_episode" sample_episode 1]
      sample_episodes_recorded by auto
qed

theorem burst_view_rebuild_witness:
  "operation_burst_current_view_from_revisions 9 [sample_burst]
    = Ok \<lparr>bv_frontier = 9, bv_bursts = [1 \<mapsto> sample_burst]\<rparr>"
proof -
  have v: "operation_burst_validate sample_burst = Ok ()"
    by (simp add: sample_burst_def sample_member_def burst_eval)
  have j: "record_bursts [(sample_burst, 3)]
      = Ok ([ob_operation_burst_id sample_burst \<mapsto> (sample_burst, 3)], [ob_revision_id sample_burst \<mapsto> (sample_burst, 3)])"
    using v by (simp add: record_bursts_def record_operation_burst_def) (simp add: sample_burst_def)
  have "set [sample_burst] = {v. \<exists>r s. [ob_revision_id sample_burst \<mapsto> (sample_burst, 3 :: u64)] r = Some (v, s)}"
    by (auto split: if_splits)
  from burst_view_rebuild [OF j _ this, of 9] show ?thesis
    by (simp add: fun_eq_iff sample_burst_def)
qed

definition sample_correction :: segmentation_correction where
  "sample_correction = \<lparr>sc_correction_revision_id = 1, sc_predecessor_revision_id = None,
    sc_kind = CorrectionRetract, sc_source_episode_ids = [6], sc_replacement_episode_ids = [],
    sc_evidence_refs = [''e''], sc_source_watermark = 5\<rparr>"

theorem corrections_form_chains_witness: "corrections_linear [(sample_correction, 4)]"
proof -
  have "replay (\<lambda>vs (v, seq). record_correction vs v seq) [] [(sample_correction, 4)]
      = Ok [(sample_correction, 4)]"
    by (simp add: record_correction_def sample_correction_def segmentation_correction_validate_def
        correction_get_def Let_def MAX_REFS_def ordered_ids_def bounded_strings_def bounded_text_def blank_def MAX_TEXT_def)
  from corrections_form_chains [OF this] show ?thesis .
qed

lemma sample_compiled_push:
  "\<exists>t f u. activity_token_compile_checked sample_view 2 5 sample_facts = Ok t
    \<and> operation_burst_folder_push operation_burst_folder_new (sample_ids 100) t = Ok (f, u) \<and> \<not> bfu_no_delta u"
  by (simp add: activity_token_compile_checked_def look_up_def look_up_opt_def ok_or_def sample_view_def
      sample_binding_def sample_facts_def sample_episode_def sample_lane_def sample_receipt_def
      build_lane_def build_receipt_def sample_input_def token_ineligible_def sample_occurrence_def
      token_valid_text_def TOKEN_MAX_TEXT_def blank_def token_admissible_def build_token_def
      operation_burst_folder_push_def operation_burst_folder_new_def folder_start_def
      new_burst_def sample_ids_def burst_eval sort_dedup_def)

theorem folded_member_provenance_witness:
  "\<exists>t f u operation occurrence. activity_token_compile_checked sample_view 2 5 sample_facts = Ok t
    \<and> operation_burst_folder_push operation_burst_folder_new (sample_ids 100) t = Ok (f, u)
    \<and> member_has_exact_physical_provenance (last (ob_members (bfu_current u))) (bfu_current u)
        operation occurrence []"
proof -
  have keyed: "\<forall>i h. scv_occurrences sample_view i = Some h \<longrightarrow> ho_host_occurrence_id h = i"
    by (simp add: sample_view_def sample_occurrence_def)
  have none: "scv_operations sample_view 2 = Some x \<Longrightarrow> opn_scope_effect_ids x = []" for x
    by (auto simp: sample_view_def)
  obtain t f u where c: "activity_token_compile_checked sample_view 2 5 sample_facts = Ok t"
      and p: "operation_burst_folder_push operation_burst_folder_new (sample_ids 100) t = Ok (f, u)"
        "\<not> bfu_no_delta u" using sample_compiled_push by blast
  from folded_member_provenance [OF c keyed p] show ?thesis using c p none by fastforce
qed

end
