(* ===== verification/Segmenter.thy ===== *)
theory Segmenter
  imports Seg_Store
begin

text \<open>
  The incremental segmenter (\<open>evertrace-engine/src/segmentation/incremental.rs\<close>): a
  two-phase machine around the burst folder and the boundary detector. \<open>observe\<close> prepares
  a transition on copies of both and keeps it pending; \<open>acknowledge_committed\<close> promotes it
  once the store shows that exactly this transition was committed. The fresh identifiers
  drawn by \<open>RevisionId::new_v7\<close> are arguments.
\<close>

record incremental_segmentation_step =
  iss_token :: activity_token
  iss_burst :: burst_fold_update
  iss_detector :: detector_update
  iss_episode_successor_revision_id :: revision_id

datatype segment_outcome = SegmentNoDelta | SegmentDelta incremental_segmentation_step

record pending_transition =
  pt_step :: incremental_segmentation_step
  pt_next_folder :: operation_burst_folder
  pt_next_detector :: segmentation_detector

record incremental_segmenter =
  is_episode_id :: work_episode_id
  is_folder :: operation_burst_folder
  is_detector :: segmentation_detector
  is_pending :: "pending_transition option"
  is_committed_episode_revision_id :: revision_id
  is_committed_frontier :: u64
  is_closed :: bool

definition incremental_segmenter_new ::
  "segmentation_current_state \<Rightarrow> work_episode_id \<Rightarrow> (detector_error, incremental_segmenter) result" where
  "incremental_segmenter_new current episode_id =
    and_then (ok_or Ineligible (scs_episode current episode_id)) (\<lambda>episode.
    if ep_lifecycle_status episode \<noteq> EpisodeOpen \<or> ep_operation_burst_refs episode \<noteq> []
    then Err Ineligible
    else and_then (segmentation_detector_new episode) (\<lambda>detector.
      Ok \<lparr>is_episode_id = episode_id, is_folder = operation_burst_folder_new, is_detector = detector,
          is_pending = None, is_committed_episode_revision_id = ep_revision_id episode,
          is_committed_frontier = scs_frontier current, is_closed = False\<rparr>))"

definition incremental_segmenter_restore ::
  "segmentation_current_state \<Rightarrow> work_episode_id \<Rightarrow> (detector_error, incremental_segmenter) result" where
  "incremental_segmenter_restore current episode_id =
    and_then (ok_or Ineligible (scs_episode current episode_id)) (\<lambda>episode.
    and_then (map_err (\<lambda>_. Ineligible) (scs_recent_bursts current episode)) (\<lambda>recent_bursts.
    and_then (operation_burst_folder_restore recent_bursts) (\<lambda>folder.
    and_then (segmentation_detector_restore episode recent_bursts) (\<lambda>detector.
      Ok \<lparr>is_episode_id = episode_id, is_folder = folder, is_detector = detector,
          is_pending = None, is_committed_episode_revision_id = ep_revision_id episode,
          is_committed_frontier = scs_frontier current,
          is_closed = (ep_lifecycle_status episode \<noteq> EpisodeOpen)\<rparr>))))"

text \<open>The episode the segmenter may observe: the committed one, or the pending successor.\<close>

definition observe_episode_ok :: "incremental_segmenter \<Rightarrow> work_episode \<Rightarrow> bool" where
  "observe_episode_ok s episode = (case is_pending s of
      Some pending \<Rightarrow>
        ep_revision_id episode = is_committed_episode_revision_id s
        \<or> ep_revision_id episode = iss_episode_successor_revision_id (pt_step pending)
    | None \<Rightarrow>
        ep_revision_id episode = is_committed_episode_revision_id s
        \<and> ep_lifecycle_status episode = EpisodeOpen)"

definition incremental_segmenter_observe ::
  "incremental_segmenter \<Rightarrow> segmentation_current_state \<Rightarrow> fresh_ids \<Rightarrow> revision_id \<Rightarrow> operation_id
    \<Rightarrow> segmentation_facts \<Rightarrow> (detector_error, incremental_segmenter \<times> segment_outcome) result" where
  "incremental_segmenter_observe s current ids successor operation_id facts =
    (if is_closed s \<or> scs_frontier current < is_committed_frontier s then Err Ineligible
     else
     and_then (ok_or Ineligible (scs_episode current (is_episode_id s))) (\<lambda>episode.
     if \<not> observe_episode_ok s episode then Err Ineligible
     else
     and_then (activity_token_compile_checked (scs_authority current) operation_id (is_episode_id s) facts) (\<lambda>token.
     case is_pending s of
       Some pending \<Rightarrow>
         if iss_token (pt_step pending) = token then Ok (s, SegmentDelta (pt_step pending))
         else Err PendingTransitionError
     | None \<Rightarrow>
         and_then (operation_burst_folder_push (is_folder s) ids token) (\<lambda>(next_folder, burst).
         if bfu_no_delta burst then Ok (s, SegmentNoDelta)
         else
         and_then (segmentation_detector_push (is_detector s) token burst) (\<lambda>(next_detector, detector).
         let step = \<lparr>iss_token = token, iss_burst = burst, iss_detector = detector,
               iss_episode_successor_revision_id = successor\<rparr> in
         Ok (s\<lparr>is_pending := Some \<lparr>pt_step = step, pt_next_folder = next_folder,
                 pt_next_detector = next_detector\<rparr>\<rparr>, SegmentDelta step))))))"

text \<open>What the committed episode must show before a transition is promoted.\<close>

definition step_candidate_state :: "incremental_segmentation_step \<Rightarrow> boundary_candidate_state option" where
  "step_candidate_state step = map_option (\<lambda>candidate_watermark.
    \<lparr>bc_candidate_phase_kind = du_candidate_phase_kind (iss_detector step),
     bc_candidate_watermark = candidate_watermark,
     bc_evidence_refs = du_candidate_evidence_refs (iss_detector step),
     bc_kind = the (du_candidate_kind (iss_detector step)),
     bc_refinement_progress = du_refinement_progress (iss_detector step)\<rparr>)
    (du_candidate_watermark (iss_detector step))"

definition step_confirmed :: "incremental_segmentation_step \<Rightarrow> bool" where
  "step_confirmed step \<longleftrightarrow> du_boundary_status (iss_detector step) = BoundaryConfirmed"

definition ack_current_burst_matches :: "incremental_segmentation_step \<Rightarrow> operation_burst \<Rightarrow> bool" where
  "ack_current_burst_matches step current_burst =
    (if step_confirmed step
     then ob_lifecycle current_burst = BurstClosed
       \<and> is_ok (operation_burst_validate_successor (bfu_current (iss_burst step)) current_burst)
     else current_burst = bfu_current (iss_burst step))"

definition ack_closed_burst_matches :: "incremental_segmentation_step \<Rightarrow> segmentation_current_state \<Rightarrow> bool" where
  "ack_closed_burst_matches step current = (case bfu_closed (iss_burst step) of
      None \<Rightarrow> True
    | Some closed \<Rightarrow> scs_current_burst current (ob_operation_burst_id closed) = Some closed)"

definition ack_episode_matches ::
  "incremental_segmenter \<Rightarrow> incremental_segmentation_step \<Rightarrow> work_episode \<Rightarrow> bool" where
  "ack_episode_matches s step episode \<longleftrightarrow>
    ep_revision_id episode = iss_episode_successor_revision_id step
    \<and> ep_predecessor_revision_id episode = Some (is_committed_episode_revision_id s)
    \<and> ep_source_watermark episode = tok_source_watermark (iss_token step)
    \<and> ep_boundary_status episode = du_boundary_status (iss_detector step)
    \<and> ep_boundary_candidate episode = step_candidate_state step
    \<and> ep_lifecycle_status episode = (if step_confirmed step then EpisodeClosed else EpisodeOpen)
    \<and> ob_operation_burst_id (bfu_current (iss_burst step)) \<in> set (ep_operation_burst_refs episode)"

definition incremental_segmenter_acknowledge_committed ::
  "incremental_segmenter \<Rightarrow> segmentation_current_state \<Rightarrow> incremental_segmentation_step
    \<Rightarrow> (detector_error, incremental_segmenter) result" where
  "incremental_segmenter_acknowledge_committed s current step =
    and_then (ok_or PendingTransitionError (is_pending s)) (\<lambda>pending.
    if pt_step pending \<noteq> step \<or> scs_frontier current \<le> is_committed_frontier s
    then Err PendingTransitionError
    else
    and_then (ok_or PendingTransitionError (scs_episode current (is_episode_id s))) (\<lambda>episode.
    and_then (ok_or PendingTransitionError
      (scs_current_burst current (ob_operation_burst_id (bfu_current (iss_burst step))))) (\<lambda>current_burst.
    if \<not> ack_episode_matches s step episode \<or> \<not> ack_current_burst_matches step current_burst
       \<or> \<not> ack_closed_burst_matches step current
    then Err PendingTransitionError
    else Ok (s\<lparr>is_pending := None, is_folder := pt_next_folder pending, is_detector := pt_next_detector pending,
               is_committed_episode_revision_id := ep_revision_id episode,
               is_committed_frontier := scs_frontier current, is_closed := step_confirmed step\<rparr>))))"

definition incremental_segmenter_rolling_len :: "incremental_segmenter \<Rightarrow> nat" where
  "incremental_segmenter_rolling_len s = length (de_rolling (is_detector s))"

section \<open>Restored parts satisfy their invariants\<close>

lemma restore_loop_frame:
  assumes "restore_loop d bs = Ok d'" and "window_inv d"
  shows "window_inv d' \<and> de_phase_contract d' = de_phase_contract d \<and> de_episode_id d' = de_episode_id d"
  using assms
proof (induction d bs rule: restore_loop.induct)
  case (1 d) then show ?case by simp
next
  case (2 d b bs)
  let ?d = "\<lambda>s. (record_feature d b)\<lparr>de_last_sequence := s, de_source_watermark := ob_source_watermark b,
      de_last_attempt_id := ob_attempt_id b\<rparr>"
  obtain s where s: "restore_loop (?d s) bs = Ok d'" using "2.prems"(1) by (auto simp: result_simps)
  have "window_inv (?d s)" using window_inv_record_feature [OF "2.prems"(2)] by (simp add: window_inv_def)
  from "2.IH" [OF s this] show ?case by (simp add: record_feature_frame)
qed

lemma valid_episode_boundary:
  assumes "work_episode_validate e = Ok ()"
  shows "ep_boundary_status e = BoundaryCandidate \<longleftrightarrow> ep_boundary_candidate e \<noteq> None"
    and "ep_boundary_status e = BoundaryConfirmed \<longleftrightarrow> ep_confirmation_watermark e \<noteq> 0"
    and "ep_lifecycle_status e = EpisodeOpen \<longleftrightarrow> ep_boundary_status e \<noteq> BoundaryConfirmed"
    and "ep_confirmation_watermark e \<le> ep_source_watermark e"
    and "ep_boundary_candidate e = Some c \<Longrightarrow> bc_evidence_refs c \<noteq> [] \<and> bc_refinement_progress c \<le> 8
      \<and> bc_candidate_watermark c \<noteq> 0 \<and> bc_candidate_watermark c \<le> ep_source_watermark e"
proof -
  have v: "(ep_boundary_status e = BoundaryCandidate) = is_some (ep_boundary_candidate e)"
    "\<not> ep_confirmation_watermark e > ep_source_watermark e"
    "\<not> (ep_lifecycle_status e = EpisodeOpen \<and> ep_boundary_status e = BoundaryConfirmed)"
    "\<not> (ep_lifecycle_status e \<noteq> EpisodeOpen \<and> ep_boundary_status e \<noteq> BoundaryConfirmed)"
    "\<not> (ep_boundary_status e = BoundaryConfirmed \<and> ep_confirmation_watermark e = 0)"
    "\<not> (ep_boundary_status e \<noteq> BoundaryConfirmed \<and> ep_confirmation_watermark e \<noteq> 0)"
    "\<not> is_some_and (\<lambda>c. \<not> is_ok (boundary_candidate_state_validate c)
            \<or> bc_candidate_watermark c > ep_source_watermark e) (ep_boundary_candidate e)"
    using assms unfolding work_episode_validate_def Let_def
    by (simp_all add: and_then_Inr_iff split: if_splits)
  show "ep_boundary_status e = BoundaryCandidate \<longleftrightarrow> ep_boundary_candidate e \<noteq> None" using v(1) by simp
  show "ep_boundary_status e = BoundaryConfirmed \<longleftrightarrow> ep_confirmation_watermark e \<noteq> 0" using v(5,6) by blast
  show "ep_lifecycle_status e = EpisodeOpen \<longleftrightarrow> ep_boundary_status e \<noteq> BoundaryConfirmed" using v(3,4) by blast
  show "ep_confirmation_watermark e \<le> ep_source_watermark e" using v(2) by simp
  show "ep_boundary_candidate e = Some c \<Longrightarrow> bc_evidence_refs c \<noteq> [] \<and> bc_refinement_progress c \<le> 8
      \<and> bc_candidate_watermark c \<noteq> 0 \<and> bc_candidate_watermark c \<le> ep_source_watermark e"
    using v(7) by (auto simp: boundary_candidate_state_validate_def split: if_splits)
qed

lemma detector_restore_inv:
  assumes "segmentation_detector_restore e bs = Ok d"
  shows "detector_inv d" and "de_episode_id d = ep_episode_id e"
    and "de_boundary_status d = ep_boundary_status e" and "work_episode_validate e = Ok ()"
proof -
  show valid: "work_episode_validate e = Ok ()"
    using assms by (cases "work_episode_validate e") (simp_all add: segmentation_detector_restore_def)
  note v = valid_episode_boundary [OF valid]
  obtain d0 where loop: "restore_loop (segmentation_detector_empty e) bs = Ok d0"
    and tail: "(let d = d0\<lparr>de_source_watermark := max (ep_source_watermark e) (de_source_watermark d0),
          de_boundary_status := ep_boundary_status e,
          de_confirmation_watermark := ep_confirmation_watermark e\<rparr> in
      case ep_boundary_candidate e of
        None \<Rightarrow> Ok (d\<lparr>de_candidate := None\<rparr>)
      | Some value \<Rightarrow> and_then (restore_candidate d e value) (\<lambda>c. Ok (d\<lparr>de_candidate := Some c\<rparr>))) = Ok d"
    using assms unfolding segmentation_detector_restore_def
    by (simp add: and_then_Inr_iff split: if_splits) blast
  have frame: "window_inv d0" "de_phase_contract d0 = ep_phase_contract e" "de_episode_id d0 = ep_episode_id e"
    using restore_loop_frame [OF loop] detector_inv_empty [of e]
    by (simp_all add: detector_inv_def segmentation_detector_empty_def)
  have conf: "ep_confirmation_watermark e \<le> max (ep_source_watermark e) w" for w
    using v(4) by (rule order_trans) simp
  have "detector_inv d \<and> de_episode_id d = ep_episode_id e \<and> de_boundary_status d = ep_boundary_status e"
  proof (cases "ep_boundary_candidate e")
    case None
    then have "d = d0\<lparr>de_source_watermark := max (ep_source_watermark e) (de_source_watermark d0),
          de_boundary_status := ep_boundary_status e,
          de_confirmation_watermark := ep_confirmation_watermark e, de_candidate := None\<rparr>"
      using tail by (simp add: Let_def)
    then show ?thesis
      using frame v(1,2) conf None by (simp add: detector_inv_def window_inv_def boundary_inv_def)
  next
    case (Some val)
    obtain c where rc: "restore_candidate (d0\<lparr>de_source_watermark := max (ep_source_watermark e) (de_source_watermark d0),
          de_boundary_status := ep_boundary_status e,
          de_confirmation_watermark := ep_confirmation_watermark e\<rparr>) e val = Ok c"
      and d: "d = d0\<lparr>de_source_watermark := max (ep_source_watermark e) (de_source_watermark d0),
          de_boundary_status := ep_boundary_status e,
          de_confirmation_watermark := ep_confirmation_watermark e, de_candidate := Some c\<rparr>"
      using tail Some by (auto simp: Let_def and_then_Inr_iff)
    have c: "ca_observations c = bc_refinement_progress val" "ca_source_watermark c = bc_candidate_watermark val"
        "ca_evidence_refs c = bc_evidence_refs val" "ca_original_phase c = pc_phase_kind (ep_phase_contract e)"
      using rc by (auto simp: restore_candidate_def and_then_Inr_iff Let_def split: if_splits)
    have "bc_candidate_watermark val \<le> max (ep_source_watermark e) w" for w
      using v(5) [OF Some] by (auto intro: order_trans)
    then show ?thesis
      using frame v(1,2) conf Some v(5) [OF Some] c
      by (simp add: d detector_inv_def window_inv_def boundary_inv_def candidate_inv_def word_neq_0_conv)
  qed
  then show "detector_inv d" "de_episode_id d = ep_episode_id e" "de_boundary_status d = ep_boundary_status e"
    by simp_all
qed

lemma restore_bursts_valid:
  assumes "restore_bursts seen bs = Ok seen'"
  shows "\<forall>b \<in> set bs. operation_burst_validate b = Ok ()"
  using assms by (induction seen bs rule: restore_bursts.induct) (auto simp: result_simps)

lemma folder_restore_inv:
  assumes "operation_burst_folder_restore bs = Ok f"
  shows "folder_inv f"
proof -
  let ?open = "filter (\<lambda>b. ob_lifecycle b = BurstOpen) bs"
  obtain seen where s: "restore_bursts Map.empty bs = Ok seen"
    and f: "f = \<lparr>fo_current = (case ?open of [] \<Rightarrow> None | b # _ \<Rightarrow> Some b), fo_seen = seen\<rparr>"
    using assms by (auto simp: operation_burst_folder_restore_def Let_def and_then_Inr_iff split: if_splits)
  have "operation_burst_validate b = Ok () \<and> ob_lifecycle b = BurstOpen" if cur: "fo_current f = Some b" for b
  proof -
    obtain rest where "?open = b # rest" using cur by (auto simp: f split: list.splits)
    then have "b \<in> set ?open" by simp
    then show ?thesis using restore_bursts_valid [OF s] by simp
  qed
  then show ?thesis by (simp add: folder_inv_def)
qed

section \<open>Reachable segmenters\<close>

definition pending_inv :: "incremental_segmenter \<Rightarrow> pending_transition \<Rightarrow> bool" where
  "pending_inv s p \<longleftrightarrow> folder_inv (pt_next_folder p) \<and> detector_inv (pt_next_detector p)
    \<and> fo_current (pt_next_folder p) = Some (bfu_current (iss_burst (pt_step p)))
    \<and> operation_burst_validate (bfu_current (iss_burst (pt_step p))) = Ok ()
    \<and> du_boundary_status (iss_detector (pt_step p)) = de_boundary_status (pt_next_detector p)
    \<and> (du_candidate_kind (iss_detector (pt_step p)) = None
        \<longleftrightarrow> du_candidate_watermark (iss_detector (pt_step p)) = None)
    \<and> de_episode_id (pt_next_detector p) = is_episode_id s
    \<and> de_source_watermark (is_detector s) \<le> de_source_watermark (pt_next_detector p)
    \<and> token_well_formed (iss_token (pt_step p))"

definition segmenter_inv :: "incremental_segmenter \<Rightarrow> bool" where
  "segmenter_inv s \<longleftrightarrow> folder_inv (is_folder s) \<and> detector_inv (is_detector s)
    \<and> de_episode_id (is_detector s) = is_episode_id s
    \<and> (is_closed s \<longleftrightarrow> de_boundary_status (is_detector s) = BoundaryConfirmed)
    \<and> (\<forall>p. is_pending s = Some p \<longrightarrow> \<not> is_closed s \<and> pending_inv s p)"

inductive segmenter_step :: "incremental_segmenter \<Rightarrow> incremental_segmenter \<Rightarrow> bool" where
  observe: "incremental_segmenter_observe s current ids successor operation_id facts = Ok (s', outcome)
    \<Longrightarrow> segmenter_step s s'"
| acknowledge: "incremental_segmenter_acknowledge_committed s current step = Ok s' \<Longrightarrow> segmenter_step s s'"

text \<open>
  The episode map of a snapshot is keyed by the episodes' own identifiers, as the
  projections build it.
\<close>

definition episodes_keyed :: "segmentation_current_state \<Rightarrow> bool" where
  "episodes_keyed current \<longleftrightarrow> (\<forall>i e. scs_episode current i = Some e \<longrightarrow> ep_episode_id e = i)"

inductive segmenter_reachable :: "incremental_segmenter \<Rightarrow> bool" where
  new: "incremental_segmenter_new current episode_id = Ok s \<Longrightarrow> episodes_keyed current \<Longrightarrow> segmenter_reachable s"
| restore: "incremental_segmenter_restore current episode_id = Ok s \<Longrightarrow> episodes_keyed current \<Longrightarrow> segmenter_reachable s"
| step: "segmenter_reachable s \<Longrightarrow> segmenter_step s s' \<Longrightarrow> segmenter_reachable s'"

lemma segmenter_new_inv:
  assumes "incremental_segmenter_new current episode_id = Ok s" and "episodes_keyed current"
  shows "segmenter_inv s"
proof -
  obtain e d where e: "scs_episode current episode_id = Some e" and d: "segmentation_detector_new e = Ok d"
    and s: "s = \<lparr>is_episode_id = episode_id, is_folder = operation_burst_folder_new, is_detector = d,
          is_pending = None, is_committed_episode_revision_id = ep_revision_id e,
          is_committed_frontier = scs_frontier current, is_closed = False\<rparr>"
    using assms(1) by (auto simp: incremental_segmenter_new_def result_simps split: if_splits)
  have "d = segmentation_detector_empty e"
    using d by (auto simp: segmentation_detector_new_def result_simps split: if_splits)
  moreover have "ep_episode_id e = episode_id" using assms(2) e by (simp add: episodes_keyed_def)
  ultimately show ?thesis
    using folder_inv_new detector_inv_empty [of e] by (simp add: segmenter_inv_def s segmentation_detector_empty_def)
qed

lemma segmenter_restore_inv:
  assumes "incremental_segmenter_restore current episode_id = Ok s" and "episodes_keyed current"
  shows "segmenter_inv s"
proof -
  obtain e bs f d where e: "scs_episode current episode_id = Some e"
    and f: "operation_burst_folder_restore bs = Ok f" and d: "segmentation_detector_restore e bs = Ok d"
    and s: "s = \<lparr>is_episode_id = episode_id, is_folder = f, is_detector = d,
          is_pending = None, is_committed_episode_revision_id = ep_revision_id e,
          is_committed_frontier = scs_frontier current,
          is_closed = (ep_lifecycle_status e \<noteq> EpisodeOpen)\<rparr>"
    using assms(1) by (auto simp: incremental_segmenter_restore_def result_simps)
  note r = detector_restore_inv [OF d]
  have "ep_episode_id e = episode_id" using assms(2) e by (simp add: episodes_keyed_def)
  then show ?thesis
    using folder_restore_inv [OF f] r valid_episode_boundary(3) [OF r(4)] by (simp add: segmenter_inv_def s)
qed

text \<open>The three ways an observation can be accepted.\<close>

lemma observeE [consumes 1, case_names pending no_delta delta]:
  assumes "incremental_segmenter_observe s current ids successor operation_id facts = Ok (s', outcome)"
  obtains p where "\<not> is_closed s" "is_pending s = Some p" "s' = s" "outcome = SegmentDelta (pt_step p)"
      "activity_token_compile_checked (scs_authority current) operation_id (is_episode_id s) facts
        = Ok (iss_token (pt_step p))"
    | "\<not> is_closed s" "is_pending s = None" "s' = s" "outcome = SegmentNoDelta"
    | t f' u d' r where "\<not> is_closed s" "is_pending s = None" "\<not> bfu_no_delta u"
      "activity_token_compile_checked (scs_authority current) operation_id (is_episode_id s) facts = Ok t"
      "operation_burst_folder_push (is_folder s) ids t = Ok (f', u)"
      "segmentation_detector_push (is_detector s) t u = Ok (d', r)"
      "s' = s\<lparr>is_pending := Some \<lparr>pt_step = \<lparr>iss_token = t, iss_burst = u, iss_detector = r,
          iss_episode_successor_revision_id = successor\<rparr>, pt_next_folder = f', pt_next_detector = d'\<rparr>\<rparr>"
      "outcome = SegmentDelta \<lparr>iss_token = t, iss_burst = u, iss_detector = r,
          iss_episode_successor_revision_id = successor\<rparr>"
proof -
  have open_s: "\<not> is_closed s"
    using assms by (auto simp: incremental_segmenter_observe_def split: if_splits)
  obtain e t where t: "activity_token_compile_checked (scs_authority current) operation_id (is_episode_id s) facts = Ok t"
    and body: "(case is_pending s of
       Some pending \<Rightarrow>
         if iss_token (pt_step pending) = t then Ok (s, SegmentDelta (pt_step pending))
         else Err PendingTransitionError
     | None \<Rightarrow>
         and_then (operation_burst_folder_push (is_folder s) ids t) (\<lambda>(next_folder, burst).
         if bfu_no_delta burst then Ok (s, SegmentNoDelta)
         else
         and_then (segmentation_detector_push (is_detector s) t burst) (\<lambda>(next_detector, detector).
         let step = \<lparr>iss_token = t, iss_burst = burst, iss_detector = detector,
               iss_episode_successor_revision_id = successor\<rparr> in
         Ok (s\<lparr>is_pending := Some \<lparr>pt_step = step, pt_next_folder = next_folder,
                 pt_next_detector = next_detector\<rparr>\<rparr>, SegmentDelta step)))) = Ok (s', outcome)"
    using assms unfolding incremental_segmenter_observe_def
    by (simp only: and_then_Inr_iff split: if_splits) blast+
  show thesis
  proof (cases "is_pending s")
    case (Some p)
    then show thesis using body t open_s by (intro that(1) [of p]) (auto split: if_splits)
  next
    case None
    obtain f' u where fu: "operation_burst_folder_push (is_folder s) ids t = Ok (f', u)"
      using body None by (auto simp: and_then_Inr_iff)
    show thesis
    proof (cases "bfu_no_delta u")
      case True
      then show thesis using body None open_s fu by (intro that(2)) simp_all
    next
      case False
      obtain d' r where dr: "segmentation_detector_push (is_detector s) t u = Ok (d', r)"
        using body None fu False by (auto simp: and_then_Inr_iff)
      show thesis
        using body None False
        by (intro that(3) [OF open_s None False t fu dr]) (simp_all add: fu dr Let_def)
    qed
  qed
qed

lemma detector_push_update:
  assumes "segmentation_detector_push d t u = Ok (d', r)" and inv: "detector_inv d"
  shows "du_boundary_status r = de_boundary_status d'"
    and "du_candidate_kind r = map_option ca_kind (de_candidate d')"
    and "du_candidate_watermark r = map_option ca_source_watermark (de_candidate d')"
    and "de_episode_id d' = de_episode_id d"
    and "de_source_watermark d \<le> de_source_watermark d'"
proof -
  have b: "boundary_inv d (de_source_watermark d)" using inv by (simp add: detector_inv_def)
  have "du_boundary_status r = de_boundary_status d' \<and> du_candidate_kind r = map_option ca_kind (de_candidate d')
    \<and> du_candidate_watermark r = map_option ca_source_watermark (de_candidate d')
    \<and> de_episode_id d' = de_episode_id d \<and> de_source_watermark d \<le> de_source_watermark d'"
    using assms(1)
  proof (cases rule: detector_pushE)
    case switch
    then have "r = detector_update_of d t WorkstreamSwitch False []"
      using assms(1) by (auto simp: segmentation_detector_push_def split: if_splits)
    then show ?thesis using switch by (simp add: detector_update_of_def)
  next
    case (step d1 a1 rt ev d2 a2 d3 al)
    have "same_frame d d2"
      using refine_candidate_same_frame [OF step(6) b] open_candidate_same_frame [OF step(7)]
      by (simp add: same_frame_def)
    then show ?thesis
      using step(5) by (simp add: step(8-10) detector_update_of_def record_feature_frame same_frame_def)
  qed
  then show "du_boundary_status r = de_boundary_status d'"
    "du_candidate_kind r = map_option ca_kind (de_candidate d')"
    "du_candidate_watermark r = map_option ca_source_watermark (de_candidate d')"
    "de_episode_id d' = de_episode_id d" "de_source_watermark d \<le> de_source_watermark d'" by simp_all
qed

lemma observe_inv:
  assumes "incremental_segmenter_observe s current ids successor operation_id facts = Ok (s', outcome)"
    and inv: "segmenter_inv s"
  shows "segmenter_inv s'"
  using assms(1)
proof (cases rule: observeE)
  case (delta t f' u d' r)
  have f: "folder_inv (is_folder s)" and d: "detector_inv (is_detector s)"
    and i: "de_episode_id (is_detector s) = is_episode_id s" using inv by (simp_all add: segmenter_inv_def)
  have wf: "token_well_formed t" by (rule compile_checked_well_formed [OF delta(4)])
  note p = push_inv [OF delta(5) f]
  have "detector_inv d'" by (rule detector_push_inv [OF delta(6) d wf p(3)])
  then show ?thesis
    using inv delta(1) p wf i detector_push_update [OF delta(6) d]
    by (simp add: delta(7) segmenter_inv_def pending_inv_def)
qed (use inv in simp_all)

lemma ackE:
  assumes "incremental_segmenter_acknowledge_committed s current step = Ok s'"
  obtains p e b where "is_pending s = Some p" "pt_step p = step" "is_committed_frontier s < scs_frontier current"
    "scs_episode current (is_episode_id s) = Some e"
    "scs_current_burst current (ob_operation_burst_id (bfu_current (iss_burst step))) = Some b"
    "ack_episode_matches s step e" "ack_current_burst_matches step b" "ack_closed_burst_matches step current"
    "s' = s\<lparr>is_pending := None, is_folder := pt_next_folder p, is_detector := pt_next_detector p,
               is_committed_episode_revision_id := ep_revision_id e,
               is_committed_frontier := scs_frontier current, is_closed := step_confirmed step\<rparr>"
  using assms unfolding incremental_segmenter_acknowledge_committed_def
  by (simp only: and_then_Inr_iff ok_or_Inr_iff de_Morgan_disj not_not not_le split: if_splits) (auto simp: not_le)

lemma ack_inv:
  assumes "incremental_segmenter_acknowledge_committed s current step = Ok s'" and inv: "segmenter_inv s"
  shows "segmenter_inv s'"
proof (rule ackE [OF assms(1)])
  fix p e b
  assume p: "is_pending s = Some p" "pt_step p = step"
    and s': "s' = s\<lparr>is_pending := None, is_folder := pt_next_folder p, is_detector := pt_next_detector p,
               is_committed_episode_revision_id := ep_revision_id e,
               is_committed_frontier := scs_frontier current, is_closed := step_confirmed step\<rparr>"
  have "pending_inv s p" using inv p(1) by (simp add: segmenter_inv_def)
  then show ?thesis using p(2) by (simp add: s' segmenter_inv_def pending_inv_def step_confirmed_def)
qed

lemma reachable_inv: "segmenter_reachable s \<Longrightarrow> segmenter_inv s"
proof (induction rule: segmenter_reachable.induct)
  case (new current episode_id s) then show ?case by (rule segmenter_new_inv)
next
  case (restore current episode_id s) then show ?case by (rule segmenter_restore_inv)
next
  case (step s s')
  from step.hyps(2) step.IH show ?case
    by (cases rule: segmenter_step.cases) (blast intro: observe_inv ack_inv)+
qed

text \<open>
  C2. In every segmenter that can be reached, by creating or restoring one and then any
  interleaving of observations and acknowledgements against any snapshots, the folder and
  the detector are consistent, the feature window holds at most 64 entries, the segmenter
  is closed exactly when its boundary is confirmed, nothing is pending once it is closed,
  and a pending transition describes exactly the folder and detector it would install (so
  the kind of a reported candidate is always known when its watermark is).
\<close>

theorem segmenter_reachable_invariant:
  assumes "segmenter_reachable s"
  shows "folder_inv (is_folder s) \<and> detector_inv (is_detector s)
    \<and> incremental_segmenter_rolling_len s \<le> 64
    \<and> (is_closed s \<longleftrightarrow> de_boundary_status (is_detector s) = BoundaryConfirmed)
    \<and> (\<forall>p. is_pending s = Some p \<longrightarrow> \<not> is_closed s \<and> pending_inv s p)"
  using reachable_inv [OF assms]
  unfolding segmenter_inv_def incremental_segmenter_rolling_len_def detector_inv_def window_inv_def by blast

text \<open>
  Observing is only a preparation. An accepted observation never changes the committed
  folder, detector, frontier, episode revision or closed flag. While a transition is
  pending, repeating its observation returns the same step and changes nothing, and any
  other token is refused; a closed segmenter refuses everything.
\<close>

theorem observe_two_phase:
  assumes "incremental_segmenter_observe s current ids successor operation_id facts = Ok (s', outcome)"
  shows "s' = s\<lparr>is_pending := is_pending s'\<rparr> \<and> \<not> is_closed s
    \<and> (\<forall>p. is_pending s = Some p \<longrightarrow> s' = s \<and> outcome = SegmentDelta (pt_step p)
        \<and> activity_token_compile_checked (scs_authority current) operation_id (is_episode_id s) facts
          = Ok (iss_token (pt_step p)))
    \<and> (is_pending s = None \<longrightarrow> (outcome = SegmentNoDelta \<and> s' = s)
        \<or> (\<exists>p. is_pending s' = Some p \<and> outcome = SegmentDelta (pt_step p)))"
  using assms by (cases rule: observeE) simp_all

section \<open>Runs\<close>

text \<open>
  A run of a segmenter: observations and acknowledgements in any order against any snapshots; one that
  is refused leaves the segmenter as it was. Beside the segmenter the run keeps the transitions that
  were prepared, with the identifiers drawn for them, and the snapshots and steps that were
  acknowledged.
\<close>

datatype segmenter_call =
    CallObserve segmentation_current_state fresh_ids revision_id operation_id segmentation_facts
  | CallAcknowledge segmentation_current_state incremental_segmentation_step

record segmenter_run =
  sr_segmenter :: incremental_segmenter
  sr_prepared :: "(fresh_ids \<times> incremental_segmentation_step) list"
  sr_acknowledged :: "(segmentation_current_state \<times> incremental_segmentation_step) list"

fun run_call :: "segmenter_run \<Rightarrow> segmenter_call \<Rightarrow> segmenter_run" where
  "run_call r (CallObserve current ids successor operation_id facts) =
    (case incremental_segmenter_observe (sr_segmenter r) current ids successor operation_id facts of
      Inl _ \<Rightarrow> r
    | Inr (s', SegmentNoDelta) \<Rightarrow> r\<lparr>sr_segmenter := s'\<rparr>
    | Inr (s', SegmentDelta step) \<Rightarrow> r\<lparr>sr_segmenter := s',
        sr_prepared := sr_prepared r @ (if is_pending (sr_segmenter r) = None then [(ids, step)] else [])\<rparr>)"
| "run_call r (CallAcknowledge current step) =
    (case incremental_segmenter_acknowledge_committed (sr_segmenter r) current step of
      Inl _ \<Rightarrow> r
    | Inr s' \<Rightarrow> r\<lparr>sr_segmenter := s', sr_acknowledged := sr_acknowledged r @ [(current, step)]\<rparr>)"

text \<open>Folding a prepared step into a folder and a detector; it must give the results the step reports.\<close>

definition fold_step ::
  "operation_burst_folder \<times> segmentation_detector \<Rightarrow> fresh_ids \<times> incremental_segmentation_step
    \<Rightarrow> (detector_error, operation_burst_folder \<times> segmentation_detector) result" where
  "fold_step fd x = (case (fd, x) of ((folder, detector), (ids, step)) \<Rightarrow>
    and_then (operation_burst_folder_push folder ids (iss_token step)) (\<lambda>(folder', burst).
    and_then (segmentation_detector_push detector (iss_token step) burst) (\<lambda>(detector', update).
    if burst = iss_burst step \<and> update = iss_detector step then Ok (folder', detector') else Err Ineligible)))"

text \<open>
  What a snapshot has to show of a step for the episode \<open>i\<close> whose committed revision is \<open>parent\<close>: the
  episode advanced from \<open>parent\<close> to the step's revision, at the step's watermark, boundary and
  candidate, and every burst the step wrote is stored as the step has it; when the boundary is
  confirmed, the current one is closed and continues the step's burst.
\<close>

definition candidate_shown :: "boundary_candidate_state option \<Rightarrow> detector_update \<Rightarrow> bool" where
  "candidate_shown c u = (case c of None \<Rightarrow> du_candidate_watermark u = None
    | Some c \<Rightarrow> du_candidate_watermark u = Some (bc_candidate_watermark c) \<and> du_candidate_kind u = Some (bc_kind c)
        \<and> bc_candidate_phase_kind c = du_candidate_phase_kind u \<and> bc_evidence_refs c = du_candidate_evidence_refs u
        \<and> bc_refinement_progress c = du_refinement_progress u)"

definition bursts_shown :: "segmentation_current_state \<Rightarrow> bool \<Rightarrow> burst_fold_update \<Rightarrow> bool" where
  "bursts_shown current confirmed u \<longleftrightarrow>
    (\<exists>b. scs_current_burst current (ob_operation_burst_id (bfu_current u)) = Some b
      \<and> (if confirmed then ob_lifecycle b = BurstClosed \<and> burst_context b = burst_context (bfu_current u)
           \<and> (\<exists>ms. ob_members b = ob_members (bfu_current u) @ ms)
         else b = bfu_current u))
    \<and> (\<forall>closed. bfu_closed u = Some closed \<longrightarrow> scs_current_burst current (ob_operation_burst_id closed) = Some closed)"

definition commit_shown ::
  "work_episode_id \<Rightarrow> revision_id \<Rightarrow> segmentation_current_state \<Rightarrow> incremental_segmentation_step \<Rightarrow> bool" where
  "commit_shown i parent current step \<longleftrightarrow>
    (\<exists>e. scs_episode current i = Some e
      \<and> ep_predecessor_revision_id e = Some parent \<and> ep_revision_id e = iss_episode_successor_revision_id step
      \<and> ep_source_watermark e = tok_source_watermark (iss_token step)
      \<and> ep_boundary_status e = du_boundary_status (iss_detector step)
      \<and> candidate_shown (ep_boundary_candidate e) (iss_detector step)
      \<and> ep_lifecycle_status e = (if step_confirmed step then EpisodeClosed else EpisodeOpen)
      \<and> ob_operation_burst_id (bfu_current (iss_burst step)) \<in> set (ep_operation_burst_refs e))
    \<and> bursts_shown current (step_confirmed step) (iss_burst step)"

abbreviation run_from :: "incremental_segmenter \<Rightarrow> segmenter_run" where
  "run_from s \<equiv> \<lparr>sr_segmenter = s, sr_prepared = [], sr_acknowledged = []\<rparr>"

abbreviation pending_steps :: "incremental_segmenter \<Rightarrow> incremental_segmentation_step list" where
  "pending_steps s \<equiv> (case is_pending s of None \<Rightarrow> [] | Some p \<Rightarrow> [pt_step p])"

abbreviation acknowledged_revisions :: "incremental_segmenter \<Rightarrow> segmenter_run \<Rightarrow> revision_id list" where
  "acknowledged_revisions s r \<equiv>
    is_committed_episode_revision_id s # map (iss_episode_successor_revision_id \<circ> snd) (sr_acknowledged r)"

abbreviation acknowledged_frontiers :: "incremental_segmenter \<Rightarrow> segmenter_run \<Rightarrow> u64 list" where
  "acknowledged_frontiers s r \<equiv> is_committed_frontier s # map (scs_frontier \<circ> fst) (sr_acknowledged r)"

text \<open>What a run keeps: the accounts above, and what the segmenter now has of them.\<close>

definition run_inv :: "incremental_segmenter \<Rightarrow> segmenter_run \<Rightarrow> bool" where
  "run_inv s r \<longleftrightarrow> (let g = sr_segmenter r; acked = sr_acknowledged r in
    segmenter_inv g \<and> is_episode_id g = is_episode_id s
    \<and> map snd (sr_prepared r) = map snd acked @ pending_steps g
    \<and> replay fold_step (is_folder s, is_detector s) (take (length acked) (sr_prepared r)) = Ok (is_folder g, is_detector g)
    \<and> (\<forall>p. is_pending g = Some p \<longrightarrow>
        fold_step (is_folder g, is_detector g) (last (sr_prepared r)) = Ok (pt_next_folder p, pt_next_detector p))
    \<and> sorted_wrt (<) (acknowledged_frontiers s r) \<and> last (acknowledged_frontiers s r) = is_committed_frontier g
    \<and> last (acknowledged_revisions s r) = is_committed_episode_revision_id g
    \<and> (\<forall>k < length acked. commit_shown (is_episode_id s) (acknowledged_revisions s r ! k) (fst (acked ! k)) (snd (acked ! k)))
    \<and> (\<forall>k < length acked. step_confirmed (snd (acked ! k)) \<longrightarrow> Suc k = length acked \<and> is_closed g))"

lemma ack_commit_shown:
  assumes "incremental_segmenter_acknowledge_committed s current step = Ok s'" and "segmenter_inv s"
  shows "commit_shown (is_episode_id s) (is_committed_episode_revision_id s) current step"
proof (rule ackE [OF assms(1)])
  fix p e b
  assume p: "is_pending s = Some p" "pt_step p = step" and e: "scs_episode current (is_episode_id s) = Some e" "ack_episode_matches s step e"
    and b: "scs_current_burst current (ob_operation_burst_id (bfu_current (iss_burst step))) = Some b" "ack_current_burst_matches step b"
    and closed: "ack_closed_burst_matches step current"
  have kind: "du_candidate_kind (iss_detector step) = None \<longleftrightarrow> du_candidate_watermark (iss_detector step) = None"
    using assms(2) p by (auto simp: segmenter_inv_def pending_inv_def)
  have "candidate_shown (step_candidate_state step) (iss_detector step)"
    using kind by (cases "du_candidate_watermark (iss_detector step)") (auto simp: candidate_shown_def step_candidate_state_def)
  moreover have "bursts_shown current (step_confirmed step) (iss_burst step)"
    using b closed burst_successorD(1,5) [of "bfu_current (iss_burst step)" b]
    by (auto simp: bursts_shown_def ack_current_burst_matches_def ack_closed_burst_matches_def is_ok_unit
        split: if_splits option.splits)
  ultimately show ?thesis using e by (auto simp: commit_shown_def ack_episode_matches_def)
qed

lemma sorted_wrt_less_snoc:
  fixes y :: "'a :: linorder"
  assumes "sorted_wrt (<) xs" and "xs \<noteq> []" and "last xs < y"
  shows "sorted_wrt (<) (xs @ [y])"
proof -
  have "x \<le> last xs" if "x \<in> set xs" for x
    using assms(1) that by (induction xs rule: rev_induct) (auto simp: sorted_wrt_append)
  with assms show ?thesis by (auto simp: sorted_wrt_append intro: le_less_trans)
qed

lemma replay_snoc: "replay f s (xs @ [x]) = and_then (replay f s xs) (\<lambda>t. f t x)"
proof (induction xs arbitrary: s)
  case Nil
  show ?case by (cases "f s x") simp_all
next
  case (Cons y xs)
  then show ?case by (cases "f s y") simp_all
qed

lemma run_inv_acknowledge:
  assumes inv: "run_inv s r" and ack: "incremental_segmenter_acknowledge_committed (sr_segmenter r) current step = Ok g'"
  shows "run_inv s (r\<lparr>sr_segmenter := g', sr_acknowledged := sr_acknowledged r @ [(current, step)]\<rparr>)"
proof (rule ackE [OF ack])
  fix p e b
  let ?g = "sr_segmenter r"
  assume p: "is_pending ?g = Some p" "pt_step p = step" and frontier: "is_committed_frontier ?g < scs_frontier current"
    and e: "ack_episode_matches ?g step e"
    and g': "g' = ?g\<lparr>is_pending := None, is_folder := pt_next_folder p, is_detector := pt_next_detector p,
               is_committed_episode_revision_id := ep_revision_id e, is_committed_frontier := scs_frontier current,
               is_closed := step_confirmed step\<rparr>"
  note i = inv [unfolded run_inv_def Let_def]
  have seg: "segmenter_inv ?g" and id: "is_episode_id ?g = is_episode_id s"
    and prep: "map snd (sr_prepared r) = map snd (sr_acknowledged r) @ [step]" using i p by auto
  obtain xs x where xs: "sr_prepared r = xs @ [x]" and len: "length xs = length (sr_acknowledged r)"
    using prep by (cases "sr_prepared r" rule: rev_cases) (auto dest: map_eq_imp_length_eq)
  have folded: "replay fold_step (is_folder s, is_detector s) (sr_prepared r) = Ok (pt_next_folder p, pt_next_detector p)"
    using i p xs len by (auto simp: replay_snoc)
  have shown: "commit_shown (is_episode_id s) (is_committed_episode_revision_id ?g) current step"
    using ack_commit_shown [OF ack seg] id by simp
  have open_g: "\<not> is_closed ?g" using seg p unfolding segmenter_inv_def by blast
  let ?r = "r\<lparr>sr_segmenter := g', sr_acknowledged := sr_acknowledged r @ [(current, step)]\<rparr>"
  have revisions: "acknowledged_revisions s ?r = acknowledged_revisions s r @ [iss_episode_successor_revision_id step]"
    and frontiers: "acknowledged_frontiers s ?r = acknowledged_frontiers s r @ [scs_frontier current]" by simp_all
  have nth: "acknowledged_revisions s ?r ! k = acknowledged_revisions s r ! k" if "k \<le> length (sr_acknowledged r)" for k
    unfolding revisions using that by (subst nth_append) simp
  have "commit_shown (is_episode_id s) (acknowledged_revisions s ?r ! k) (fst (sr_acknowledged ?r ! k)) (snd (sr_acknowledged ?r ! k))"
    if "k < length (sr_acknowledged ?r)" for k
  proof (cases "k < length (sr_acknowledged r)")
    case True
    then show ?thesis using i nth [of k] by (simp add: nth_append)
  next
    case False
    with that have k: "k = length (sr_acknowledged r)" by simp
    have "acknowledged_revisions s r ! k = is_committed_episode_revision_id ?g"
      using i last_conv_nth [of "acknowledged_revisions s r"] by (simp add: k)
    then show ?thesis using shown nth [of k] by (simp add: k)
  qed
  moreover have "step_confirmed (snd (sr_acknowledged ?r ! k)) \<longrightarrow> Suc k = length (sr_acknowledged ?r) \<and> is_closed g'"
    if "k < length (sr_acknowledged ?r)" for k
    using that i open_g by (cases "k < length (sr_acknowledged r)") (auto simp: nth_append g' less_Suc_eq)
  moreover have "sorted_wrt (<) (acknowledged_frontiers s ?r)"
    unfolding frontiers by (rule sorted_wrt_less_snoc) (use i frontier in auto)
  moreover have "replay fold_step (is_folder s, is_detector s) (take (length (sr_acknowledged ?r)) (sr_prepared r))
      = Ok (is_folder g', is_detector g')"
    using xs len folded by (simp add: g')
  moreover have "last (acknowledged_revisions s ?r) = is_committed_episode_revision_id g'"
    using e by (simp add: g' ack_episode_matches_def)
  moreover have "map snd (sr_prepared r) = map snd (sr_acknowledged ?r) @ pending_steps g'" using prep by (simp add: g')
  moreover have "is_pending g' = None" "is_episode_id g' = is_episode_id s" "last (acknowledged_frontiers s ?r) = is_committed_frontier g'"
    using id by (simp_all add: g')
  moreover have fields: "sr_segmenter ?r = g'" "sr_prepared ?r = sr_prepared r" by simp_all
  ultimately show ?thesis using ack_inv [OF ack seg] unfolding run_inv_def Let_def fields by (metis option.distinct(1))
qed

lemma run_inv_observe:
  assumes inv: "run_inv s r"
    and obs: "incremental_segmenter_observe (sr_segmenter r) current ids successor operation_id facts = Ok (g', outcome)"
  shows "run_inv s (run_call r (CallObserve current ids successor operation_id facts))"
  using obs
proof (cases rule: observeE)
  case (delta t f' u d' d)
  let ?g = "sr_segmenter r"
  let ?step = "\<lparr>iss_token = t, iss_burst = u, iss_detector = d, iss_episode_successor_revision_id = successor\<rparr>"
  note i = inv [unfolded run_inv_def Let_def]
  have prep: "map snd (sr_prepared r) = map snd (sr_acknowledged r)" using i delta(2) by simp
  then have len: "length (sr_prepared r) = length (sr_acknowledged r)" by (metis length_map)
  have call: "run_call r (CallObserve current ids successor operation_id facts)
      = r\<lparr>sr_segmenter := g', sr_prepared := sr_prepared r @ [(ids, ?step)]\<rparr>"
    using obs delta(2,8) by simp
  have "segmenter_inv g'" using observe_inv [OF obs] i by simp
  moreover have "fold_step (is_folder ?g, is_detector ?g) (ids, ?step) = Ok (f', d')"
    using delta(5,6) by (simp add: fold_step_def)
  ultimately show ?thesis
    using i prep len delta(2) unfolding call run_inv_def Let_def by (simp del: sorted_wrt.simps add: delta(7))
qed (use inv obs in \<open>simp_all\<close>)

lemma run_inv_call: "run_inv s r \<Longrightarrow> run_inv s (run_call r c)"
proof (cases c)
  case (CallObserve current ids successor operation_id facts)
  assume inv: "run_inv s r"
  show ?thesis
  proof (cases "incremental_segmenter_observe (sr_segmenter r) current ids successor operation_id facts")
    case (Inr x)
    then show ?thesis using run_inv_observe [OF inv] CallObserve by (cases x) blast
  qed (use inv CallObserve in simp)
next
  case (CallAcknowledge current step)
  assume inv: "run_inv s r"
  then show ?thesis using run_inv_acknowledge [OF inv] CallAcknowledge
    by (cases "incremental_segmenter_acknowledge_committed (sr_segmenter r) current step") auto
qed

lemma run_inv_run: "run_inv s r \<Longrightarrow> run_inv s (foldl run_call r calls)"
  by (induction calls arbitrary: r) (auto intro: run_inv_call)

text \<open>
  C8. Every transition takes effect exactly once, in order, and only after it was committed. In any
  run of a reachable segmenter, whatever observations and acknowledgements it gets and against whatever
  snapshots: the acknowledged steps are exactly the prepared ones in their order, but for one that may
  still be pending; the folder and the detector are the result of folding exactly the
  acknowledged steps, each once, into the ones the run began with; the snapshots of the acknowledgements have
  strictly increasing frontiers and each shows its step committed, the episode advanced from the revision
  of the step before and the bursts stored; and nothing follows a confirmed boundary.
\<close>

theorem acknowledge_exactly_once:
  assumes "segmenter_reachable s" and "is_pending s = None" and "r = foldl run_call (run_from s) calls"
  shows "map snd (sr_prepared r) = map snd (sr_acknowledged r) @ pending_steps (sr_segmenter r)
    \<and> replay fold_step (is_folder s, is_detector s) (take (length (sr_acknowledged r)) (sr_prepared r))
        = Ok (is_folder (sr_segmenter r), is_detector (sr_segmenter r))
    \<and> sorted_wrt (<) (acknowledged_frontiers s r)
    \<and> (\<forall>k < length (sr_acknowledged r). commit_shown (is_episode_id s) (acknowledged_revisions s r ! k)
          (fst (sr_acknowledged r ! k)) (snd (sr_acknowledged r ! k))
        \<and> (step_confirmed (snd (sr_acknowledged r ! k)) \<longrightarrow>
            Suc k = length (sr_acknowledged r) \<and> is_closed (sr_segmenter r) \<and> is_pending (sr_segmenter r) = None))"
proof -
  have "run_inv s (run_from s)" using reachable_inv [OF assms(1)] assms(2) by (simp add: run_inv_def)
  then have inv: "run_inv s r" unfolding assms(3) by (rule run_inv_run)
  then have "is_closed (sr_segmenter r) \<Longrightarrow> is_pending (sr_segmenter r) = None"
    by (auto simp: run_inv_def Let_def segmenter_inv_def)
  with inv show ?thesis unfolding run_inv_def Let_def by blast
qed

lemma try_map_mem: "try_map f xs = Ok ys \<Longrightarrow> y \<in> set ys \<Longrightarrow> \<exists>x \<in> set xs. f x = Ok y"
  by (induction xs arbitrary: ys) (auto simp: and_then_Inr_iff)

lemma recent_for_episode_mem:
  assumes "recent_for_episode view e = Ok bs" and "b \<in> set bs"
  shows "\<exists>i \<in> set (ep_operation_burst_refs e). bv_bursts view i = Some b"
proof -
  obtain found where f: "try_map (\<lambda>i. ok_or StoreCorrupt (bv_bursts view i)) (ep_operation_burst_refs e) = Ok found"
    and "bs = sort_key ob_source_watermark found"
    using assms(1) by (auto simp: recent_for_episode_def and_then_Inr_iff Let_def split: if_splits)
  then have "b \<in> set found" using assms(2) by simp
  from try_map_mem [OF f this] show ?thesis by (auto simp: ok_or_Inr_iff)
qed

lemma restore_members_Err: "restore_members b seen ms = Err x \<Longrightarrow> x = Ineligible"
  by (induction b seen ms rule: restore_members.induct) (auto split: option.splits if_splits)

lemma restore_bursts_Err: "restore_bursts seen bs = Err x \<Longrightarrow> x = Ineligible"
proof (induction seen bs rule: restore_bursts.induct)
  case (1 seen) then show ?case by simp
next
  case (2 seen b bs)
  then show ?case
    by (cases "operation_burst_validate b"; cases "restore_members b seen (ob_members b)")
      (auto dest: restore_members_Err)
qed

lemma folder_restore_Err: "operation_burst_folder_restore bs = Err x \<Longrightarrow> x = Ineligible"
  by (cases "restore_bursts Map.empty bs")
    (auto simp: operation_burst_folder_restore_def Let_def dest: restore_bursts_Err split: if_splits)

lemma segmenter_restore_refuses:
  assumes "scs_episode current i = Some e" and "ep_boundary_candidate e = Some v"
    and lost: "\<forall>i \<in> set (ep_operation_burst_refs e). \<forall>b. scs_current_burst current i = Some b
      \<longrightarrow> ob_source_watermark b \<noteq> bc_candidate_watermark v"
  shows "incremental_segmenter_restore current i = Err Ineligible"
proof (cases "scs_recent_bursts current e")
  case (Inl x)
  then show ?thesis using assms(1) by (simp add: incremental_segmenter_restore_def ok_or_def)
next
  case (Inr bs)
  have "\<forall>b \<in> set bs. ob_source_watermark b \<noteq> bc_candidate_watermark v"
    using recent_for_episode_mem [OF Inr [unfolded scs_recent_bursts_def]] lost
    by (auto simp: scs_current_burst_def)
  then have d: "segmentation_detector_restore e bs = Err Ineligible"
    by (rule restore_refuses_lost_candidate [OF assms(2)])
  show ?thesis
    using assms(1) Inr d folder_restore_Err [of bs]
    by (cases "operation_burst_folder_restore bs") (simp_all add: incremental_segmenter_restore_def ok_or_def)
qed

text \<open>
  C36. A candidate can be lost at a restart. When a committed episode carries a boundary
  candidate whose watermark is not the watermark of any current burst of the episode,
  which is the case as soon as the burst the candidate was found in has been extended by a
  later token, restoring the segmenter from that snapshot fails with Ineligible, although
  the running segmenter has just accepted the same snapshot.
\<close>

theorem restart_loses_extended_candidate:
  assumes "incremental_segmenter_acknowledge_committed s current step = Ok s'"
    and "du_candidate_watermark (iss_detector step) = Some w"
    and "scs_episode current (is_episode_id s) = Some e"
    and "\<forall>i \<in> set (ep_operation_burst_refs e). \<forall>b. scs_current_burst current i = Some b \<longrightarrow> ob_source_watermark b \<noteq> w"
  shows "incremental_segmenter_restore current (is_episode_id s) = Err Ineligible"
proof (rule ackE [OF assms(1)])
  fix p e' b
  assume "scs_episode current (is_episode_id s) = Some e'" and m: "ack_episode_matches s step e'"
  then have e: "e' = e" using assms(3) by simp
  then have "ep_boundary_candidate e = step_candidate_state step" using m by (simp add: ack_episode_matches_def)
  then obtain v where "ep_boundary_candidate e = Some v" "bc_candidate_watermark v = w"
    using assms(2) by (auto simp: step_candidate_state_def)
  then show ?thesis using segmenter_restore_refuses [OF assms(3)] assms(4) by blast
qed

section \<open>A sample run\<close>

definition sample_seg_episode :: work_episode where
  "sample_seg_episode = sample_open_episode\<lparr>ep_episode_id := 5, ep_task_id := 3, ep_workstream_id := 4\<rparr>"

definition sample_seg_view :: "u64 \<Rightarrow> work_episode \<Rightarrow> segmentation_current_view" where
  "sample_seg_view frontier e = sample_view\<lparr>scv_frontier := frontier, scv_episodes := [5 \<mapsto> e],
    scv_operations := (scv_operations sample_view)(3 \<mapsto> (the (scv_operations sample_view 2))\<lparr>opn_operation_id := 3\<rparr>),
    scv_bindings := (scv_bindings sample_view)(3 \<mapsto> sample_binding\<lparr>wb_operation_id := 3\<rparr>),
    scv_lanes := [el_execution_lane_id sample_lane \<mapsto> sample_lane\<lparr>el_operation_ids := [2, 3]\<rparr>]\<rparr>"

definition sample_seg_state :: "u64 \<Rightarrow> work_episode \<Rightarrow> (operation_burst_id \<Rightarrow> operation_burst option) \<Rightarrow> segmentation_current_state" where
  "sample_seg_state frontier e bursts = \<lparr>scs_authority = sample_seg_view frontier e,
    scs_bursts = \<lparr>bv_frontier = frontier, bv_bursts = bursts\<rparr>\<rparr>"

text \<open>The snapshot after a step has been committed as a successor of revision \<open>previous\<close>.\<close>

definition sample_committed :: "u64 \<Rightarrow> revision_id \<Rightarrow> incremental_segmentation_step \<Rightarrow> work_episode" where
  "sample_committed generation previous step =
    sample_seg_episode\<lparr>ep_revision_id := iss_episode_successor_revision_id step,
      ep_predecessor_revision_id := Some previous, ep_revision_generation := generation,
      ep_source_watermark := tok_source_watermark (iss_token step),
      ep_pending_semantic_delta := Some \<lparr>pi_after_watermark = 3,
        pi_through_watermark = tok_source_watermark (iss_token step)\<rparr>,
      ep_boundary_status := du_boundary_status (iss_detector step),
      ep_boundary_candidate := step_candidate_state step,
      ep_operation_burst_refs := [ob_operation_burst_id (bfu_current (iss_burst step))]\<rparr>"

definition sample_commit :: "u64 \<Rightarrow> u64 \<Rightarrow> revision_id \<Rightarrow> incremental_segmentation_step \<Rightarrow> segmentation_current_state" where
  "sample_commit frontier generation previous step = sample_seg_state frontier (sample_committed generation previous step)
    [ob_operation_burst_id (bfu_current (iss_burst step)) \<mapsto> bfu_current (iss_burst step)]"

definition sample_facts2 :: segmentation_facts where
  "sample_facts2 = sample_facts\<lparr>sf_sequence := 2, sf_source_watermark := 7\<rparr>"

definition sample_ctoken :: "operation_id \<Rightarrow> u64 \<Rightarrow> u64 \<Rightarrow> activity_token" where
  "sample_ctoken op sequence watermark = \<lparr>tok_sequence = sequence, tok_source_watermark = watermark,
    tok_operation_id = op, tok_operation_revision = 1, tok_host_occurrence_id = replicate 32 0,
    tok_work_binding_revision_id = 1,
    tok_primary_binding = \<lparr>pb_task_id = Some 3, pb_workstream_id = Some 4, pb_episode_id = Some 5,
      pb_attempt_id = None, pb_experiment_run_id = None, pb_competing_group_id = None\<rparr>,
    tok_task_id = 3, tok_workstream_id = 4, tok_episode_id = 5, tok_attempt_id = None,
    tok_attempt_revision_id = None, tok_experiment_run_id = None, tok_competing_group_id = None,
    tok_execution_lane_id = 1, tok_parent_lane_id = None, tok_subagent_id = None,
    tok_operation_kind = OpRead, tok_target_refs = [], tok_scope_effect_refs = [],
    tok_worktree_lineage_refs = [], tok_artifact_refs = [], tok_side_effects = [],
    tok_source_observation_refs = [[1]], tok_strategy_contract_fingerprint = None,
    tok_worktree_transition_refs = [], tok_integration_event_refs = [], tok_target_family = ''src'',
    tok_state_delta = StateNone, tok_error_signature = None, tok_verifier_transition = VerifierNone,
    tok_observed_phase_kind = Some PhaseVerify, tok_boundary_evidence = BoundaryEvidenceNone,
    tok_boundary_evidence_refs = [[1]], tok_session_id = ''hos'', tok_capture_receipt = sample_receipt\<rparr>"

lemma sample_compiles:
  assumes "ep_task_id e = 3" "ep_workstream_id e = 4" "pc_primary_targets (ep_phase_contract e) = []"
  shows "activity_token_compile_checked (sample_seg_view n e) 2 5 sample_facts = Ok (sample_ctoken 2 1 6)"
    and "activity_token_compile_checked (sample_seg_view n e) 3 5 sample_facts2 = Ok (sample_ctoken 3 2 7)"
  using assms
  by (simp_all add: activity_token_compile_checked_def look_up_def look_up_opt_def ok_or_def sample_view_def
      sample_binding_def sample_facts_def sample_facts2_def sample_lane_def sample_receipt_def sample_seg_view_def
      build_lane_def build_receipt_def sample_input_def token_ineligible_def sample_occurrence_def
      token_valid_text_def TOKEN_MAX_TEXT_def blank_def token_admissible_def build_token_def Let_def sort_dedup_def
      sample_ctoken_def)

definition sample_cburst1 :: operation_burst where
  "sample_cburst1 = sample_burst\<lparr>ob_operation_burst_id := 102, ob_revision_id := 103,
    ob_phase_candidate := Some PhaseVerify, ob_target_refs := [],
    ob_members := [member_from_token (sample_ctoken 2 1 6)], ob_execution_lane_id := 1,
    ob_primary_binding := tok_primary_binding (sample_ctoken 2 1 6), ob_source_watermark := 6\<rparr>"

definition sample_cburst2 :: operation_burst where
  "sample_cburst2 = sample_cburst1\<lparr>ob_revision_id := 200, ob_predecessor_revision_id := Some 103,
    ob_revision_generation := 2, ob_members := [member_from_token (sample_ctoken 2 1 6),
      member_from_token (sample_ctoken 3 2 7)], ob_source_watermark := 7\<rparr>"

definition sample_folder1 :: operation_burst_folder where
  "sample_folder1 = \<lparr>fo_current = Some sample_cburst1,
    fo_seen = [2 \<mapsto> seen_from_burst sample_cburst1 (member_from_token (sample_ctoken 2 1 6))]\<rparr>"

definition sample_cupdate1 :: burst_fold_update where
  "sample_cupdate1 = \<lparr>bfu_current = sample_cburst1, bfu_closed = None, bfu_started_new = True,
    bfu_meaningful_new = operation_burst_is_meaningful_after sample_cburst1 None, bfu_no_delta = False\<rparr>"

definition sample_cupdate2 :: burst_fold_update where
  "sample_cupdate2 = \<lparr>bfu_current = sample_cburst2, bfu_closed = None, bfu_started_new = False,
    bfu_meaningful_new = False, bfu_no_delta = False\<rparr>"

lemmas sample_run_defs = sample_cburst1_def sample_cburst2_def sample_ctoken_def sample_burst_def
  sample_ids_def sample_cupdate1_def sample_cupdate2_def

lemma sample_folds:
  "operation_burst_folder_push operation_burst_folder_new (sample_ids 100) (sample_ctoken 2 1 6)
    = Ok (sample_folder1, sample_cupdate1)"
  "\<exists>f. operation_burst_folder_push sample_folder1 (sample_ids 200) (sample_ctoken 3 2 7) = Ok (f, sample_cupdate2)"
  by (simp_all add: operation_burst_folder_push_def operation_burst_folder_new_def folder_start_def
      folder_extend_def extended_burst_def new_burst_def sample_folder1_def sample_run_defs burst_eval)

definition sample_candidate :: "u8 \<Rightarrow> boundary_candidate_state" where
  "sample_candidate progress = \<lparr>bc_candidate_phase_kind = Some PhaseVerify, bc_candidate_watermark = 6,
    bc_evidence_refs = [[1]], bc_kind = CandidateObjective, bc_refinement_progress = progress\<rparr>"

definition sample_step :: "activity_token \<Rightarrow> burst_fold_update \<Rightarrow> detector_update \<Rightarrow> revision_id \<Rightarrow> incremental_segmentation_step" where
  "sample_step t u r v = \<lparr>iss_token = t, iss_burst = u, iss_detector = r, iss_episode_successor_revision_id = v\<rparr>"

lemma sample_detects:
  "\<exists>d r d' r'. segmentation_detector_push (segmentation_detector_empty sample_seg_episode)
        (sample_ctoken 2 1 6) sample_cupdate1 = Ok (d, r)
    \<and> du_boundary_status r = BoundaryCandidate
    \<and> step_candidate_state (sample_step (sample_ctoken 2 1 6) sample_cupdate1 r 77) = Some (sample_candidate 0)
    \<and> segmentation_detector_push d (sample_ctoken 3 2 7) sample_cupdate2 = Ok (d', r')
    \<and> du_boundary_status r' = BoundaryCandidate \<and> du_candidate_watermark r' = Some 6
    \<and> step_candidate_state (sample_step (sample_ctoken 3 2 7) sample_cupdate2 r' 78) = Some (sample_candidate 1)"
  by (simp add: detector_eval sample_seg_episode_def sample_run_defs member_from_token_def word_le_nat_alt
      sample_step_def step_candidate_state_def sample_candidate_def)

lemma sample_step_simps:
  "iss_token (sample_step t u r v) = t" "iss_burst (sample_step t u r v) = u"
  "iss_detector (sample_step t u r v) = r" "iss_episode_successor_revision_id (sample_step t u r v) = v"
  "tok_source_watermark (sample_ctoken i q w) = w"
  "ob_operation_burst_id (bfu_current sample_cupdate1) = 102" "ob_operation_burst_id (bfu_current sample_cupdate2) = 102"
  by (simp_all add: sample_step_def sample_run_defs)

lemma sample_commits_accepted:
  assumes st: "du_boundary_status r = BoundaryCandidate" "du_boundary_status r' = BoundaryCandidate"
    and c: "step_candidate_state (sample_step (sample_ctoken 2 1 6) sample_cupdate1 r 77) = Some (sample_candidate 0)"
      "step_candidate_state (sample_step (sample_ctoken 3 2 7) sample_cupdate2 r' 78) = Some (sample_candidate 1)"
  shows "work_episode_validate_successor sample_seg_episode
      (sample_committed 2 2 (sample_step (sample_ctoken 2 1 6) sample_cupdate1 r 77)) = Ok ()"
    and "work_episode_validate_successor (sample_committed 2 2 (sample_step (sample_ctoken 2 1 6) sample_cupdate1 r 77))
      (sample_committed 3 77 (sample_step (sample_ctoken 3 2 7) sample_cupdate2 r' 78)) = Ok ()"
  unfolding sample_committed_def c sample_step_simps st
  by (simp_all add: work_episode_validate_successor_def work_episode_validate_def phase_contract_validate_def
      capture_summary_validate_def capture_summary_default_def work_episode_all_lists_def
      boundary_candidate_state_validate_def sample_candidate_def pending_semantic_interval_validate_def
      work_episode_lifecycle_ok_def work_episode_boundary_ok_def work_episode_retains_def retains_def checked_add_def ok_or_def
      sample_seg_episode_def sample_open_episode_def sample_episode_def bounded_text_def blank_def MAX_TEXT_def Let_def)

lemma sample_commit_ack:
  assumes "is_pending s = Some p" "pt_step p = step" "is_episode_id s = 5" "is_committed_frontier s < n"
    "is_committed_episode_revision_id s = r" "\<not> step_confirmed step" "bfu_closed (iss_burst step) = None"
  shows "incremental_segmenter_acknowledge_committed s (sample_commit n g r step) step =
    Ok (s\<lparr>is_pending := None, is_folder := pt_next_folder p, is_detector := pt_next_detector p,
      is_committed_episode_revision_id := iss_episode_successor_revision_id step,
      is_committed_frontier := n, is_closed := False\<rparr>)"
  using assms
  by (simp add: incremental_segmenter_acknowledge_committed_def ok_or_def sample_commit_def sample_committed_def sample_seg_state_def
      scs_frontier_def scs_episode_def scs_current_burst_def sample_seg_view_def ack_episode_matches_def
      ack_current_burst_matches_def ack_closed_burst_matches_def step_confirmed_def
      sample_seg_episode_def sample_open_episode_def sample_episode_def not_le)

lemma sample_observe:
  assumes "\<not> is_closed s" "is_pending s = None" "is_episode_id s = 5" "is_committed_frontier s \<le> n"
    and e: "ep_revision_id e = is_committed_episode_revision_id s" "ep_lifecycle_status e = EpisodeOpen"
    and "activity_token_compile_checked (sample_seg_view n e) op 5 facts = Ok t"
    and "operation_burst_folder_push (is_folder s) ids t = Ok (f, u)" "\<not> bfu_no_delta u"
    and "segmentation_detector_push (is_detector s) t u = Ok (d, r)"
  shows "incremental_segmenter_observe s (sample_seg_state n e bursts) ids v op facts =
    Ok (s\<lparr>is_pending := Some \<lparr>pt_step = sample_step t u r v, pt_next_folder = f, pt_next_detector = d\<rparr>\<rparr>,
        SegmentDelta (sample_step t u r v))"
  using assms
  by (simp add: incremental_segmenter_observe_def sample_seg_state_def scs_frontier_def scs_episode_def
      ok_or_def observe_episode_ok_def sample_step_def Let_def not_less)
    (simp add: sample_seg_view_def ok_or_def observe_episode_ok_def Let_def)

text \<open>
  One episode, two observations of a new phase in one burst, both committed and
  acknowledged, and then a restart.
\<close>

lemma sample_restart_scenario:
  "\<exists>s0 s1 s2 s3 s4 step1 step2.
    incremental_segmenter_new (sample_seg_state 10 sample_seg_episode Map.empty) 5 = Ok s0
    \<and> incremental_segmenter_observe s0 (sample_seg_state 10 sample_seg_episode Map.empty) (sample_ids 100) 77 2
        sample_facts = Ok (s1, SegmentDelta step1)
    \<and> incremental_segmenter_acknowledge_committed s1 (sample_commit 11 2 2 step1) step1 = Ok s2
    \<and> incremental_segmenter_observe s2 (sample_commit 11 2 2 step1) (sample_ids 200) 78 3 sample_facts2
        = Ok (s3, SegmentDelta step2)
    \<and> incremental_segmenter_acknowledge_committed s3 (sample_commit 12 3 77 step2) step2 = Ok s4
    \<and> is_episode_id s3 = 5 \<and> du_candidate_watermark (iss_detector step2) = Some 6
    \<and> bfu_current (iss_burst step2) = sample_cburst2
    \<and> work_episode_validate_successor sample_seg_episode (sample_committed 2 2 step1) = Ok ()
    \<and> work_episode_validate_successor (sample_committed 2 2 step1) (sample_committed 3 77 step2) = Ok ()"
proof -
  obtain d r d' r' where p1: "segmentation_detector_push (segmentation_detector_empty sample_seg_episode)
        (sample_ctoken 2 1 6) sample_cupdate1 = Ok (d, r)" "du_boundary_status r = BoundaryCandidate"
    and p2: "segmentation_detector_push d (sample_ctoken 3 2 7) sample_cupdate2 = Ok (d', r')"
      "du_boundary_status r' = BoundaryCandidate" "du_candidate_watermark r' = Some 6"
    and c: "step_candidate_state (sample_step (sample_ctoken 2 1 6) sample_cupdate1 r 77) = Some (sample_candidate 0)"
      "step_candidate_state (sample_step (sample_ctoken 3 2 7) sample_cupdate2 r' 78) = Some (sample_candidate 1)"
    using sample_detects by blast
  obtain f where f: "operation_burst_folder_push sample_folder1 (sample_ids 200) (sample_ctoken 3 2 7) = Ok (f, sample_cupdate2)"
    using sample_folds(2) by blast
  let ?step1 = "sample_step (sample_ctoken 2 1 6) sample_cupdate1 r 77"
  let ?step2 = "sample_step (sample_ctoken 3 2 7) sample_cupdate2 r' 78"
  define s0 where "s0 = \<lparr>is_episode_id = 5, is_folder = operation_burst_folder_new,
    is_detector = segmentation_detector_empty sample_seg_episode, is_pending = None,
    is_committed_episode_revision_id = 2, is_committed_frontier = 10, is_closed = False\<rparr>"
  define s1 where "s1 = s0\<lparr>is_pending := Some \<lparr>pt_step = ?step1, pt_next_folder = sample_folder1, pt_next_detector = d\<rparr>\<rparr>"
  define s2 where "s2 = s1\<lparr>is_pending := None, is_folder := sample_folder1, is_detector := d,
      is_committed_episode_revision_id := 77, is_committed_frontier := 11, is_closed := False\<rparr>"
  define s3 where "s3 = s2\<lparr>is_pending := Some \<lparr>pt_step = ?step2, pt_next_folder = f, pt_next_detector = d'\<rparr>\<rparr>"
  have e: "ep_task_id sample_seg_episode = 3" "ep_workstream_id sample_seg_episode = 4"
      "pc_primary_targets (ep_phase_contract sample_seg_episode) = []" "ep_revision_id sample_seg_episode = 2"
      "ep_lifecycle_status sample_seg_episode = EpisodeOpen"
    by (simp_all add: sample_seg_episode_def sample_open_episode_def sample_episode_def)
  have n: "incremental_segmenter_new (sample_seg_state 10 sample_seg_episode Map.empty) 5 = Ok s0"
  proof -
    have "work_episode_validate sample_seg_episode = Ok ()"
      by (simp add: work_episode_validate_def phase_contract_validate_def capture_summary_validate_def
          capture_summary_default_def work_episode_all_lists_def boundary_candidate_state_validate_def
          sample_seg_episode_def sample_open_episode_def sample_episode_def bounded_text_def blank_def MAX_TEXT_def Let_def)
    then have "segmentation_detector_new sample_seg_episode = Ok (segmentation_detector_empty sample_seg_episode)"
      by (simp add: segmentation_detector_new_def) (simp add: sample_seg_episode_def sample_open_episode_def sample_episode_def)
    then show ?thesis
      using e by (simp add: incremental_segmenter_new_def s0_def sample_seg_state_def scs_episode_def scs_frontier_def
          sample_seg_view_def ok_or_def) (simp add: sample_seg_episode_def sample_open_episode_def sample_episode_def)
  qed
  have o1: "incremental_segmenter_observe s0 (sample_seg_state 10 sample_seg_episode Map.empty) (sample_ids 100) 77 2
        sample_facts = Ok (s1, SegmentDelta ?step1)"
    unfolding s1_def using p1 e
    by (intro sample_observe sample_compiles sample_folds)
      (simp_all add: s0_def sample_folds sample_cupdate1_def)
  have a1: "incremental_segmenter_acknowledge_committed s1 (sample_commit 11 2 2 ?step1) ?step1 = Ok s2"
    using sample_commit_ack [of s1 "\<lparr>pt_step = ?step1, pt_next_folder = sample_folder1, pt_next_detector = d\<rparr>" ?step1 11 2 2]
    by (simp add: s1_def s0_def s2_def sample_step_def step_confirmed_def p1(2) sample_cupdate1_def)
  have o2: "incremental_segmenter_observe s2 (sample_commit 11 2 2 ?step1) (sample_ids 200) 78 3 sample_facts2
        = Ok (s3, SegmentDelta ?step2)"
    unfolding s3_def sample_commit_def using p2 e f
    by (intro sample_observe sample_compiles)
      (simp_all add: s2_def s1_def s0_def sample_step_def sample_cupdate2_def sample_committed_def)
  have a2: "\<exists>s4. incremental_segmenter_acknowledge_committed s3 (sample_commit 12 3 77 ?step2) ?step2 = Ok s4"
    using sample_commit_ack [of s3 "\<lparr>pt_step = ?step2, pt_next_folder = f, pt_next_detector = d'\<rparr>" ?step2 12 77 3]
    by (simp add: s3_def s2_def s1_def s0_def sample_step_def step_confirmed_def p2(2) sample_cupdate2_def)
  have "is_episode_id s3 = 5" "du_candidate_watermark (iss_detector ?step2) = Some 6"
      "bfu_current (iss_burst ?step2) = sample_cburst2"
    using p2(3) by (simp_all add: s3_def s2_def s1_def s0_def sample_step_def sample_cupdate2_def)
  then show ?thesis using n o1 a1 o2 a2 sample_commits_accepted [OF p1(2) p2(2) c] by blast
qed

theorem restart_loses_extended_candidate_witness:
  "\<exists>s3 s4 step2. incremental_segmenter_acknowledge_committed s3 (sample_commit 12 3 77 step2) step2 = Ok s4
    \<and> work_episode_validate (sample_committed 3 77 step2) = Ok ()
    \<and> incremental_segmenter_restore (sample_commit 12 3 77 step2) 5 = Err Ineligible"
proof -
  obtain s3 s4 step2 where a: "incremental_segmenter_acknowledge_committed s3 (sample_commit 12 3 77 step2) step2 = Ok s4"
    and i: "is_episode_id s3 = 5" and w: "du_candidate_watermark (iss_detector step2) = Some 6"
    and b: "bfu_current (iss_burst step2) = sample_cburst2"
    and v: "work_episode_validate (sample_committed 3 77 step2) = Ok ()"
    using sample_restart_scenario episode_successorD(3) by blast
  let ?e = "the (scs_episode (sample_commit 12 3 77 step2) 5)"
  have "scs_episode (sample_commit 12 3 77 step2) (is_episode_id s3) = Some ?e"
    by (simp add: i sample_commit_def sample_seg_state_def scs_episode_def sample_seg_view_def)
  moreover have "\<forall>j \<in> set (ep_operation_burst_refs ?e). \<forall>b. scs_current_burst (sample_commit 12 3 77 step2) j = Some b
      \<longrightarrow> ob_source_watermark b \<noteq> 6"
    by (simp add: sample_commit_def sample_seg_state_def scs_episode_def sample_seg_view_def scs_current_burst_def b sample_committed_def)
      (simp add: sample_cburst2_def)
  ultimately show ?thesis using restart_loses_extended_candidate [OF a w] a i v by metis
qed

theorem observe_two_phase_witness:
  "\<exists>s0 s1 step1. incremental_segmenter_observe s0 (sample_seg_state 10 sample_seg_episode Map.empty)
      (sample_ids 100) 77 2 sample_facts = Ok (s1, SegmentDelta step1) \<and> s1 = s0\<lparr>is_pending := is_pending s1\<rparr>"
  using sample_restart_scenario observe_two_phase by blast

lemma sample_start_keyed: "episodes_keyed (sample_seg_state 10 sample_seg_episode Map.empty)"
  by (simp add: episodes_keyed_def scs_episode_def sample_seg_state_def sample_seg_view_def) (simp add: sample_seg_episode_def)

theorem acknowledge_exactly_once_witness:
  "\<exists>s current step. sr_acknowledged (foldl run_call (run_from s)
        [CallObserve (sample_seg_state 10 sample_seg_episode Map.empty) (sample_ids 100) 77 2 sample_facts, CallAcknowledge current step])
      = [(current, step)]
    \<and> commit_shown (is_episode_id s) (is_committed_episode_revision_id s) current step"
proof -
  obtain s0 s1 s2 step1 where n: "incremental_segmenter_new (sample_seg_state 10 sample_seg_episode Map.empty) 5 = Ok s0"
    and o1: "incremental_segmenter_observe s0 (sample_seg_state 10 sample_seg_episode Map.empty) (sample_ids 100) 77 2
        sample_facts = Ok (s1, SegmentDelta step1)"
    and a1: "incremental_segmenter_acknowledge_committed s1 (sample_commit 11 2 2 step1) step1 = Ok s2"
    using sample_restart_scenario by blast
  let ?calls = "[CallObserve (sample_seg_state 10 sample_seg_episode Map.empty) (sample_ids 100) 77 2 sample_facts,
    CallAcknowledge (sample_commit 11 2 2 step1) step1]"
  have fresh: "is_pending s0 = None"
    using n by (auto simp: incremental_segmenter_new_def result_simps split: if_splits)
  have acked: "sr_acknowledged (foldl run_call (run_from s0) ?calls) = [(sample_commit 11 2 2 step1, step1)]"
    by (simp add: o1 a1)
  with acknowledge_exactly_once [OF segmenter_reachable.new [OF n sample_start_keyed] fresh refl, of ?calls]
  have "commit_shown (is_episode_id s0) (is_committed_episode_revision_id s0) (sample_commit 11 2 2 step1) step1"
    by (simp del: foldl.simps run_call.simps)
  with acked show ?thesis by blast
qed

theorem segmenter_reachable_invariant_witness:
  "\<exists>s. segmenter_reachable s \<and> is_pending s \<noteq> None \<and> incremental_segmenter_rolling_len s \<le> 64"
proof -
  obtain s0 s1 step1 where n: "incremental_segmenter_new (sample_seg_state 10 sample_seg_episode Map.empty) 5 = Ok s0"
    and ob: "incremental_segmenter_observe s0 (sample_seg_state 10 sample_seg_episode Map.empty) (sample_ids 100) 77 2
        sample_facts = Ok (s1, SegmentDelta step1)" using sample_restart_scenario by blast
  have r: "segmenter_reachable s1"
    using segmenter_reachable.new [OF n sample_start_keyed] segmenter_step.observe [OF ob] segmenter_reachable.step by blast
  moreover have "is_pending s1 \<noteq> None"
    using ob by (cases rule: observeE) simp_all
  ultimately show ?thesis using segmenter_reachable_invariant [OF r] by blast
qed

end
