(* ===== verification/Repository.thy ===== *)
theory Repository
  imports Work_Base "HOL-Library.Sublist"
begin

text \<open>
  The repository and worktree objects of \<open>evertrace-domain/src/repository.rs\<close>: their data,
  the checks of references, object ids, digests and fingerprints, the validity check of
  every object, and the lifecycle of worktrees. Timestamps are \<open>i64\<close>; a sign test is on
  \<open>sint\<close>.
\<close>

datatype repository_error = RepoInvalidRevision | RepoInvalidReference | RepoDuplicate
  | RepoInvalidIdentity | RepoInvalidLifecycle | RepoInvalidSnapshot | RepoInvalidTransition
  | RepoInvalidIntegration | RepoInvalidRecovery

datatype git_object_format = GitSha1 | GitSha256

datatype probe_unavailable_reason = ProbeNonGit | ProbeCorruptAdminMetadata
  | ProbePermissionDenied | ProbeTrustDenied | ProbeOutputLimitExceeded | ProbeTimeout
  | ProbePathMissing | ProbeSpawnFailed

datatype worktree_kind = WorktreeMain | WorktreeLinked

datatype worktree_lifecycle = LifecycleActive | LifecycleMissing | LifecycleRemoved
  | LifecyclePruned | LifecycleArchived

datatype git_registration_state = RegistrationRegistered | RegistrationLocked
  | RegistrationPrunable | RegistrationAbsent | RegistrationUnknown

datatype git_operation = GitOpNone | GitOpMerge | GitOpRebase | GitOpCherryPick | GitOpRevert
  | GitOpBisect | GitOpOther

datatype snapshot_capture_status = SnapshotComplete | SnapshotPartial | SnapshotUnavailable

datatype snapshot_field = FieldHeadOid | FieldTreeOid | FieldBranchRef | FieldTrackedDiffDigest
  | FieldIndexDigest | FieldUntrackedManifestDigest | FieldAnchorDigests
  | FieldDependencyFingerprints | FieldToolchainFingerprint

datatype transition_kind = TransitionPathMoved | TransitionHeadAdvanced
  | TransitionBranchSwitched | TransitionDetachedOrAttached | TransitionHistoryRewritten
  | TransitionMergeIntegrated | TransitionPatchTransferred | TransitionWorktreeMissing
  | TransitionWorktreeRepaired | TransitionWorktreeRemoved | TransitionWorktreePruned
  | TransitionWorktreeRecreated | TransitionRepositoryMoved | TransitionRepositoryCopied

datatype lineage_assessment = LineageProven | LineagePartial | LineageUnknown
  | LineageContradicted

datatype integration_kind = IntegrationFastForward | IntegrationMergeCommit | IntegrationRebase
  | IntegrationCherryPick | IntegrationSquash | IntegrationManualPatch

instantiation snapshot_field :: linorder
begin

fun rank_snapshot_field :: "snapshot_field \<Rightarrow> nat" where
  "rank_snapshot_field FieldHeadOid = 0"
| "rank_snapshot_field FieldTreeOid = 1"
| "rank_snapshot_field FieldBranchRef = 2"
| "rank_snapshot_field FieldTrackedDiffDigest = 3"
| "rank_snapshot_field FieldIndexDigest = 4"
| "rank_snapshot_field FieldUntrackedManifestDigest = 5"
| "rank_snapshot_field FieldAnchorDigests = 6"
| "rank_snapshot_field FieldDependencyFingerprints = 7"
| "rank_snapshot_field FieldToolchainFingerprint = 8"

definition less_eq_snapshot_field :: "snapshot_field \<Rightarrow> snapshot_field \<Rightarrow> bool" where
  "less_eq_snapshot_field a b \<longleftrightarrow> rank_snapshot_field a \<le> rank_snapshot_field b"

definition less_snapshot_field :: "snapshot_field \<Rightarrow> snapshot_field \<Rightarrow> bool" where
  "less_snapshot_field a b \<longleftrightarrow> rank_snapshot_field a < rank_snapshot_field b"

instance
proof
  fix x y :: snapshot_field
  show "x \<le> y \<Longrightarrow> y \<le> x \<Longrightarrow> x = y"
    by (cases x; cases y) (simp_all add: less_eq_snapshot_field_def)
qed (auto simp: less_eq_snapshot_field_def less_snapshot_field_def)

end

record filesystem_identity =
  fi_device :: u64
  fi_inode :: u64

record path_observation =
  po_path :: string
  po_first_observed_at_us :: i64
  po_last_observed_at_us :: i64
  po_evidence_refs :: "string list"

record snapshot_omission =
  so_field :: snapshot_field
  so_reason :: probe_unavailable_reason

type_synonym job_id = uuid

record repository_capability_state =
  rcs_trust_revoked :: bool
  rcs_revalidated_inventory_ref :: "job_id option"

record repository_instance =
  ri_repository_id :: repository_id
  ri_repository_revision :: u32
  ri_predecessor_revision :: "u32 option"
  ri_current_path :: string
  ri_path_history :: "path_observation list"
  ri_git_common_dir_path :: "string option"
  ri_common_dir_filesystem :: "filesystem_identity option"
  ri_object_format :: "git_object_format option"
  ri_remote_fingerprints :: "string list"
  ri_derived_from :: "repository_id option"
  ri_identity_evidence_refs :: "string list"
  ri_recorded_at_us :: i64
  ri_user_disabled :: bool
  ri_capability_state :: "repository_capability_state option"

record worktree_instance =
  wt_worktree_instance_id :: worktree_id
  wt_worktree_revision :: u32
  wt_predecessor_revision :: "u32 option"
  wt_repository_instance_id :: repository_id
  wt_kind :: worktree_kind
  wt_lifecycle :: worktree_lifecycle
  wt_current_path :: "string option"
  wt_path_history :: "path_observation list"
  wt_git_admin_path_history :: "path_observation list"
  wt_git_registration_state :: git_registration_state
  wt_current_snapshot_id :: "worktree_snapshot_id option"
  wt_created_event_ref :: string
  wt_terminal_event_ref :: "string option"
  wt_recreated_from_worktree_instance_id :: "worktree_id option"
  wt_recorded_at_us :: i64

record worktree_snapshot =
  wsn_worktree_snapshot_id :: worktree_snapshot_id
  wsn_worktree_instance_id :: worktree_id
  wsn_head_oid :: "string option"
  wsn_tree_oid :: "string option"
  wsn_branch_ref :: "string option"
  wsn_detached_head :: bool
  wsn_tracked_diff_digest :: "string option"
  wsn_index_digest :: "string option"
  wsn_untracked_manifest_digest :: "string option"
  wsn_relevant_anchor_digests :: "string list"
  wsn_dependency_fingerprints :: "string list"
  wsn_toolchain_fingerprint :: "string option"
  wsn_git_operation :: git_operation
  wsn_captured_at_us :: i64
  wsn_evidence_refs :: "string list"
  wsn_capture_status :: snapshot_capture_status
  wsn_omission_reasons :: "snapshot_omission list"

record worktree_transition =
  wtr_worktree_transition_id :: worktree_transition_id
  wtr_transition_revision :: u32
  wtr_predecessor_revision :: "u32 option"
  wtr_from_worktree_instance_id :: worktree_id
  wtr_from_snapshot_id :: "worktree_snapshot_id option"
  wtr_to_worktree_instance_id :: worktree_id
  wtr_to_snapshot_id :: "worktree_snapshot_id option"
  wtr_kind :: transition_kind
  wtr_lineage_assessment :: lineage_assessment
  wtr_correction_reason :: "string option"
  wtr_source_watermark :: u64
  wtr_evidence_refs :: "string list"

record integration_event =
  ie_integration_event_id :: integration_event_id
  ie_repository_instance_id :: repository_id
  ie_source_worktree_instance_id :: worktree_id
  ie_source_snapshot_id :: worktree_snapshot_id
  ie_destination_worktree_instance_id :: worktree_id
  ie_destination_snapshot_id :: worktree_snapshot_id
  ie_kind :: integration_kind
  ie_commit_refs :: "string list"
  ie_patch_equivalence_refs :: "string list"
  ie_conflict_resolution_detected :: bool
  ie_integrated_attempt_ids :: "attempt_id list"
  ie_revalidated_anchor_refs :: "string list"
  ie_evidence_refs :: "string list"
  ie_assessment :: lineage_assessment

section \<open>Closed vocabularies\<close>

fun git_object_format_as_str :: "git_object_format \<Rightarrow> string" where
  "git_object_format_as_str GitSha1 = ''sha1''"
| "git_object_format_as_str GitSha256 = ''sha256''"

definition git_object_format_parse :: "string \<Rightarrow> (repository_error, git_object_format) result" where
  "git_object_format_parse value =
    (if value = ''sha1'' then Ok GitSha1
     else if value = ''sha256'' then Ok GitSha256
     else Err RepoInvalidIdentity)"

definition worktree_lifecycle_is_terminal :: "worktree_lifecycle \<Rightarrow> bool" where
  "worktree_lifecycle_is_terminal l \<longleftrightarrow> l = LifecycleRemoved \<or> l = LifecyclePruned"

fun lifecycle_successor_allowed :: "worktree_lifecycle \<Rightarrow> worktree_lifecycle \<Rightarrow> bool" where
  "lifecycle_successor_allowed LifecycleActive successor = True"
| "lifecycle_successor_allowed LifecycleMissing successor = True"
| "lifecycle_successor_allowed LifecycleRemoved successor = (successor = LifecycleRemoved)"
| "lifecycle_successor_allowed LifecyclePruned successor = (successor = LifecyclePruned)"
| "lifecycle_successor_allowed LifecycleArchived successor =
    (successor = LifecycleArchived \<or> successor = LifecycleRemoved \<or> successor = LifecyclePruned)"

definition integration_kind_ancestry_based :: "integration_kind \<Rightarrow> bool" where
  "integration_kind_ancestry_based k \<longleftrightarrow> k = IntegrationFastForward \<or> k = IntegrationMergeCommit"

section \<open>References, object ids, digests, fingerprints\<close>

definition MAX_LOCATOR_BYTES :: nat where "MAX_LOCATOR_BYTES = 4096"
definition MAX_REF_BYTES :: nat where "MAX_REF_BYTES = 256"
definition MAX_DIGEST_HEX :: nat where "MAX_DIGEST_HEX = 64"
definition REMOTE_FINGERPRINT_PREFIX :: string where
  "REMOTE_FINGERPRINT_PREFIX = ''s11-remote-fp-v1:''"

definition checked_sub :: "'a::len word \<Rightarrow> 'a word \<Rightarrow> 'a word option" where
  "checked_sub a b = (if b \<le> a then Some (a - b) else None)"

definition valid_revision_chain :: "u32 \<Rightarrow> u32 option \<Rightarrow> bool" where
  "valid_revision_chain revision predecessor \<longleftrightarrow>
    revision > 0 \<and> predecessor = (if revision > 1 then checked_sub revision 1 else None)"

definition nul_or_control :: "string \<Rightarrow> bool" where
  "nul_or_control value \<longleftrightarrow> list_ex (\<lambda>b. (of_char b :: nat) = 0 \<or> is_ascii_control b) value"

definition valid_locator :: "string \<Rightarrow> (repository_error, unit) result" where
  "valid_locator value =
    (if value = [] \<or> length value > MAX_LOCATOR_BYTES \<or> \<not> prefix ''/'' value \<or> nul_or_control value
     then Err RepoInvalidReference else Ok ())"

definition repo_valid_ref :: "string \<Rightarrow> (repository_error, unit) result" where
  "repo_valid_ref value =
    (if value = [] \<or> length value > MAX_REF_BYTES \<or> nul_or_control value
     then Err RepoInvalidReference else Ok ())"

definition valid_oid :: "string \<Rightarrow> (repository_error, unit) result" where
  "valid_oid value =
    (if \<not> (length value = 40 \<or> length value = 64) \<or> \<not> list_all is_lower_hex value
     then Err RepoInvalidReference else Ok ())"

definition valid_digest :: "string \<Rightarrow> (repository_error, unit) result" where
  "valid_digest value =
    (if length value \<noteq> MAX_DIGEST_HEX \<or> \<not> list_all is_lower_hex value
     then Err RepoInvalidReference else Ok ())"

definition strip_prefix :: "string \<Rightarrow> string \<Rightarrow> string option" where
  "strip_prefix p s = (if prefix p s then Some (drop (length p) s) else None)"

definition valid_remote_fingerprint :: "string \<Rightarrow> (repository_error, unit) result" where
  "valid_remote_fingerprint value = (case strip_prefix REMOTE_FINGERPRINT_PREFIX value of
      None \<Rightarrow> Err RepoInvalidIdentity
    | Some hex_digits \<Rightarrow>
        if length hex_digits \<noteq> MAX_DIGEST_HEX \<or> \<not> list_all is_lower_hex hex_digits
        then Err RepoInvalidIdentity else Ok ())"

definition repo_require_unique :: "'a::linorder list \<Rightarrow> (repository_error, unit) result" where
  "repo_require_unique values =
    (if length (btree_set values) \<noteq> length values then Err RepoDuplicate else Ok ())"

text \<open>\<open>if let Some(x) = &self.field { check(x)?; }\<close>\<close>

definition if_some :: "('a \<Rightarrow> ('e, unit) result) \<Rightarrow> 'a option \<Rightarrow> ('e, unit) result" where
  "if_some check v = (case v of None \<Rightarrow> Ok () | Some x \<Rightarrow> check x)"

section \<open>Validity of the objects\<close>

definition path_observation_validate :: "path_observation \<Rightarrow> (repository_error, unit) result" where
  "path_observation_validate p =
    and_then (valid_locator (po_path p)) (\<lambda>_.
    if sint (po_first_observed_at_us p) < 0
        \<or> sint (po_last_observed_at_us p) < sint (po_first_observed_at_us p)
        \<or> po_evidence_refs p = []
    then Err RepoInvalidReference
    else and_then (for_each repo_valid_ref (po_evidence_refs p)) (\<lambda>_.
      repo_require_unique (po_evidence_refs p)))"

fun path_history_loop :: "i64 option \<Rightarrow> path_observation list \<Rightarrow> (repository_error, unit) result" where
  "path_history_loop previous_first [] = Ok ()"
| "path_history_loop previous_first (p # ps) =
    and_then (path_observation_validate p) (\<lambda>_.
    if is_some_and (\<lambda>first. sint (po_first_observed_at_us p) < sint first) previous_first
    then Err RepoInvalidReference
    else path_history_loop (Some (po_first_observed_at_us p)) ps)"

definition valid_path_history :: "path_observation list \<Rightarrow> string \<Rightarrow> (repository_error, unit) result" where
  "valid_path_history history current =
    (if history = [] then Err RepoInvalidReference
     else and_then (path_history_loop None history) (\<lambda>_.
       if po_path (last history) \<noteq> current then Err RepoInvalidReference else Ok ()))"

definition repository_instance_validate :: "repository_instance \<Rightarrow> (repository_error, unit) result" where
  "repository_instance_validate r =
    (if \<not> valid_revision_chain (ri_repository_revision r) (ri_predecessor_revision r)
        \<or> ri_derived_from r = Some (ri_repository_id r)
        \<or> sint (ri_recorded_at_us r) < 0
     then Err RepoInvalidRevision
     else and_then (valid_locator (ri_current_path r)) (\<lambda>_.
       and_then (valid_path_history (ri_path_history r) (ri_current_path r)) (\<lambda>_.
       and_then (if_some valid_locator (ri_git_common_dir_path r)) (\<lambda>_.
       and_then (for_each valid_remote_fingerprint (ri_remote_fingerprints r)) (\<lambda>_.
       and_then (repo_require_unique (ri_remote_fingerprints r)) (\<lambda>_.
       and_then (for_each repo_valid_ref (ri_identity_evidence_refs r)) (\<lambda>_.
       and_then (repo_require_unique (ri_identity_evidence_refs r)) (\<lambda>_.
       if ri_git_common_dir_path r = None \<or> ri_common_dir_filesystem r = None
          \<or> ri_object_format r = None \<or> ri_identity_evidence_refs r = []
       then Err RepoInvalidIdentity else Ok ()))))))))"

definition worktree_lifecycle_shape :: "worktree_instance \<Rightarrow> (repository_error, unit) result" where
  "worktree_lifecycle_shape w =
    (if wt_lifecycle w = LifecycleActive \<or> wt_lifecycle w = LifecycleMissing then
       and_then (ok_or RepoInvalidLifecycle (wt_current_path w)) (\<lambda>path.
       and_then (valid_locator path) (\<lambda>_.
       if wt_terminal_event_ref w \<noteq> None
          \<or> (wt_path_history w \<noteq> [] \<and> po_path (last (wt_path_history w)) \<noteq> path)
       then Err RepoInvalidLifecycle else Ok ()))
     else if wt_lifecycle w = LifecycleRemoved \<or> wt_lifecycle w = LifecyclePruned then
       (if wt_terminal_event_ref w = None \<or> wt_current_path w \<noteq> None
        then Err RepoInvalidLifecycle else Ok ())
     else and_then (ok_or RepoInvalidLifecycle (wt_current_path w)) valid_locator)"

definition worktree_instance_validate :: "worktree_instance \<Rightarrow> (repository_error, unit) result" where
  "worktree_instance_validate w =
    (if \<not> valid_revision_chain (wt_worktree_revision w) (wt_predecessor_revision w)
        \<or> wt_recreated_from_worktree_instance_id w = Some (wt_worktree_instance_id w)
        \<or> sint (wt_recorded_at_us w) < 0
     then Err RepoInvalidRevision
     else if wt_path_history w = [] \<or> wt_git_admin_path_history w = [] then Err RepoInvalidLifecycle
     else and_then (for_each path_observation_validate (wt_path_history w @ wt_git_admin_path_history w)) (\<lambda>_.
       and_then (repo_valid_ref (wt_created_event_ref w)) (\<lambda>_.
       and_then (if_some repo_valid_ref (wt_terminal_event_ref w)) (\<lambda>_.
       worktree_lifecycle_shape w))))"

definition branch_ref_validate :: "string \<Rightarrow> (repository_error, unit) result" where
  "branch_ref_validate branch =
    (if \<not> prefix ''refs/'' branch then Err RepoInvalidSnapshot else repo_valid_ref branch)"

definition flatten_options :: "'a option list \<Rightarrow> 'a list" where
  "flatten_options vs = concat (map (\<lambda>v. case v of None \<Rightarrow> [] | Some x \<Rightarrow> [x]) vs)"

definition snapshot_capture_shape :: "worktree_snapshot \<Rightarrow> (repository_error, unit) result" where
  "snapshot_capture_shape s = (case wsn_capture_status s of
      SnapshotComplete \<Rightarrow> if wsn_omission_reasons s \<noteq> [] then Err RepoInvalidSnapshot else Ok ()
    | SnapshotPartial \<Rightarrow> if wsn_omission_reasons s = [] then Err RepoInvalidSnapshot else Ok ()
    | SnapshotUnavailable \<Rightarrow>
        if wsn_omission_reasons s = [] \<or> wsn_head_oid s \<noteq> None \<or> wsn_tree_oid s \<noteq> None
           \<or> wsn_branch_ref s \<noteq> None \<or> wsn_tracked_diff_digest s \<noteq> None
           \<or> wsn_index_digest s \<noteq> None \<or> wsn_untracked_manifest_digest s \<noteq> None
        then Err RepoInvalidSnapshot else Ok ())"

definition worktree_snapshot_validate :: "worktree_snapshot \<Rightarrow> (repository_error, unit) result" where
  "worktree_snapshot_validate s =
    (if sint (wsn_captured_at_us s) < 0 then Err RepoInvalidSnapshot
     else and_then (if_some valid_oid (wsn_head_oid s)) (\<lambda>_.
       and_then (if_some valid_oid (wsn_tree_oid s)) (\<lambda>_.
       and_then (if_some branch_ref_validate (wsn_branch_ref s)) (\<lambda>_.
       if wsn_detached_head s \<noteq> (wsn_head_oid s \<noteq> None \<and> wsn_branch_ref s = None)
       then Err RepoInvalidSnapshot
       else and_then (for_each valid_digest (flatten_options
           [wsn_tracked_diff_digest s, wsn_index_digest s, wsn_untracked_manifest_digest s])) (\<lambda>_.
       and_then (for_each valid_digest (wsn_relevant_anchor_digests s)) (\<lambda>_.
       and_then (repo_require_unique (wsn_relevant_anchor_digests s)) (\<lambda>_.
       and_then (for_each repo_valid_ref (wsn_dependency_fingerprints s)) (\<lambda>_.
       and_then (repo_require_unique (wsn_dependency_fingerprints s)) (\<lambda>_.
       and_then (if_some repo_valid_ref (wsn_toolchain_fingerprint s)) (\<lambda>_.
       if wsn_evidence_refs s = [] then Err RepoInvalidSnapshot
       else and_then (for_each repo_valid_ref (wsn_evidence_refs s)) (\<lambda>_.
       and_then (repo_require_unique (wsn_evidence_refs s)) (\<lambda>_.
       if length (btree_set (map so_field (wsn_omission_reasons s))) \<noteq> length (wsn_omission_reasons s)
       then Err RepoDuplicate
       else snapshot_capture_shape s))))))))))))"

definition transition_kind_valid :: "transition_kind \<Rightarrow> bool \<Rightarrow> bool" where
  "transition_kind_valid kind same_worktree = (case kind of
      TransitionWorktreeRecreated \<Rightarrow> \<not> same_worktree
    | TransitionRepositoryCopied \<Rightarrow> \<not> same_worktree
    | TransitionMergeIntegrated \<Rightarrow> True
    | TransitionPatchTransferred \<Rightarrow> True
    | _ \<Rightarrow> same_worktree)"

definition transition_snapshot_required :: "transition_kind \<Rightarrow> bool" where
  "transition_snapshot_required kind \<longleftrightarrow> kind \<in> {TransitionHeadAdvanced, TransitionBranchSwitched,
    TransitionDetachedOrAttached, TransitionHistoryRewritten, TransitionMergeIntegrated,
    TransitionPatchTransferred}"

definition worktree_transition_validate :: "worktree_transition \<Rightarrow> (repository_error, unit) result" where
  "worktree_transition_validate t =
    (if \<not> valid_revision_chain (wtr_transition_revision t) (wtr_predecessor_revision t)
     then Err RepoInvalidRevision
     else if (wtr_transition_revision t > 1) \<noteq> (wtr_correction_reason t \<noteq> None)
     then Err RepoInvalidTransition
     else and_then (if_some repo_valid_ref (wtr_correction_reason t)) (\<lambda>_.
       if wtr_evidence_refs t = [] then Err RepoInvalidTransition
       else and_then (for_each repo_valid_ref (wtr_evidence_refs t)) (\<lambda>_.
       and_then (repo_require_unique (wtr_evidence_refs t)) (\<lambda>_.
       if \<not> transition_kind_valid (wtr_kind t)
            (wtr_from_worktree_instance_id t = wtr_to_worktree_instance_id t)
       then Err RepoInvalidTransition
       else if transition_snapshot_required (wtr_kind t) \<noteq> (wtr_to_snapshot_id t \<noteq> None)
       then Err RepoInvalidTransition
       else Ok ()))))"

definition integration_event_validate :: "integration_event \<Rightarrow> (repository_error, unit) result" where
  "integration_event_validate e =
    (if ie_evidence_refs e = [] then Err RepoInvalidIntegration
     else and_then (repo_require_unique (ie_integrated_attempt_ids e)) (\<lambda>_.
       and_then (for_each valid_oid (ie_commit_refs e)) (\<lambda>_.
       and_then (repo_require_unique (ie_commit_refs e)) (\<lambda>_.
       and_then (for_each repo_valid_ref (ie_patch_equivalence_refs e)) (\<lambda>_.
       and_then (repo_require_unique (ie_patch_equivalence_refs e)) (\<lambda>_.
       and_then (for_each repo_valid_ref (ie_revalidated_anchor_refs e)) (\<lambda>_.
       and_then (repo_require_unique (ie_revalidated_anchor_refs e)) (\<lambda>_.
       and_then (for_each repo_valid_ref (ie_evidence_refs e)) (\<lambda>_.
       and_then (repo_require_unique (ie_evidence_refs e)) (\<lambda>_.
       if integration_kind_ancestry_based (ie_kind e) \<noteq> (ie_commit_refs e \<noteq> [])
          \<or> (\<not> integration_kind_ancestry_based (ie_kind e) \<and> ie_patch_equivalence_refs e = [])
       then Err RepoInvalidIntegration
       else if ie_conflict_resolution_detected e \<and> ie_assessment e = LineageProven
          \<and> ie_revalidated_anchor_refs e = []
       then Err RepoInvalidIntegration
       else Ok ()))))))))))"

section \<open>What the checks guarantee\<close>

lemma if_some_Inr_iff [result_simps]: "if_some f v = Inr u \<longleftrightarrow> (\<forall>x. v = Some x \<longrightarrow> f x = Inr ())"
  by (auto simp: if_some_def split: option.splits)

lemma repo_require_unique_Inr_iff [result_simps]: "repo_require_unique xs = Inr u \<longleftrightarrow> distinct xs"
  by (simp add: repo_require_unique_def)

lemma valid_revision_chainD:
  assumes "valid_revision_chain r p"
  shows "0 < unat r" and "p = Some q \<Longrightarrow> unat r = Suc (unat q)"
proof -
  from assms show "0 < unat r" by (auto simp: valid_revision_chain_def unat_gt_0)
  assume "p = Some q"
  with assms have "1 < r" and "q = r - 1"
    by (auto simp: valid_revision_chain_def checked_sub_def split: if_splits)
  then have "r \<noteq> 0" and "0 < unat r" by (auto simp: unat_gt_0)
  with \<open>q = r - 1\<close> show "unat r = Suc (unat q)" by (simp add: unat_minus_one)
qed

lemma git_object_format_round_trip: "git_object_format_parse (git_object_format_as_str f) = Ok f"
  by (cases f) (simp_all add: git_object_format_parse_def)

lemma lifecycle_successor_terminal:
  "lifecycle_successor_allowed l l' \<Longrightarrow> worktree_lifecycle_is_terminal l \<Longrightarrow> l' = l"
  by (cases l) (simp_all add: worktree_lifecycle_is_terminal_def)

text \<open>The lifecycle relation is reflexive and transitive: no detour revives a worktree.\<close>

lemma lifecycle_successor_refl: "lifecycle_successor_allowed l l"
  by (cases l) simp_all

lemma lifecycle_successor_trans:
  "lifecycle_successor_allowed a b \<Longrightarrow> lifecycle_successor_allowed b c \<Longrightarrow> lifecycle_successor_allowed a c"
  by (cases a; cases b; cases c) simp_all

end
