(* ===== verification/Checkpoint.thy ===== *)
theory Checkpoint
  imports Episode Attempt Repository Identifiers Store_Base
begin

text \<open>
  Work checkpoints: \<open>WorkCheckpoint\<close> with its stable key, validity and derivation
  (\<open>evertrace-domain/src/work/episode.rs\<close>), \<open>build_checkpoint\<close>
  (\<open>evertrace-engine/src/segmentation/checkpoint.rs\<close>) and \<open>record_checkpoint\<close>
  (\<open>evertrace-store/src/projections/segmentation.rs\<close>). A checkpoint is a function of an
  episode revision, its attempts, a worktree snapshot and a reason; the store recomputes it.
\<close>

datatype checkpoint_reason = ReasonStop | ReasonSessionEnd | ReasonCompact | ReasonIdle
  | ReasonPhaseCandidate | ReasonManual

fun checkpoint_reason_as_str :: "checkpoint_reason \<Rightarrow> string" where
  "checkpoint_reason_as_str ReasonStop = ''stop''"
| "checkpoint_reason_as_str ReasonSessionEnd = ''session_end''"
| "checkpoint_reason_as_str ReasonCompact = ''compact''"
| "checkpoint_reason_as_str ReasonIdle = ''idle''"
| "checkpoint_reason_as_str ReasonPhaseCandidate = ''phase_candidate''"
| "checkpoint_reason_as_str ReasonManual = ''manual''"

datatype checkpoint_verifier_state = VerifierUnverified | VerifierPassed | VerifierFailed
  | VerifierInconclusive

datatype checkpoint_attempt_revision_ref =
  CheckpointAttemptRevisionRef (car_attempt_id: attempt_id) (car_revision_id: revision_id)

instantiation checkpoint_attempt_revision_ref :: linorder
begin

fun key_checkpoint_attempt_revision_ref :: "checkpoint_attempt_revision_ref \<Rightarrow> attempt_id \<times> revision_id" where
  "key_checkpoint_attempt_revision_ref (CheckpointAttemptRevisionRef a r) = (a, r)"

definition less_eq_checkpoint_attempt_revision_ref ::
  "checkpoint_attempt_revision_ref \<Rightarrow> checkpoint_attempt_revision_ref \<Rightarrow> bool" where
  "less_eq_checkpoint_attempt_revision_ref a b \<longleftrightarrow>
    key_checkpoint_attempt_revision_ref a \<le> key_checkpoint_attempt_revision_ref b"

definition less_checkpoint_attempt_revision_ref ::
  "checkpoint_attempt_revision_ref \<Rightarrow> checkpoint_attempt_revision_ref \<Rightarrow> bool" where
  "less_checkpoint_attempt_revision_ref a b \<longleftrightarrow>
    key_checkpoint_attempt_revision_ref a < key_checkpoint_attempt_revision_ref b"

instance
proof
  fix x y :: checkpoint_attempt_revision_ref
  show "x \<le> y \<Longrightarrow> y \<le> x \<Longrightarrow> x = y"
    by (cases x; cases y) (auto simp: less_eq_checkpoint_attempt_revision_ref_def dest: antisym)
qed (auto simp: less_eq_checkpoint_attempt_revision_ref_def less_checkpoint_attempt_revision_ref_def)

end

record work_checkpoint =
  ck_episode_id :: work_episode_id
  ck_episode_revision_id :: revision_id
  ck_source_watermark :: u64
  ck_active_attempt_ids :: "attempt_id list"
  ck_attempt_revision_refs :: "checkpoint_attempt_revision_ref list"
  ck_phase_contract :: phase_contract
  ck_open_loops :: "string list"
  ck_verifier_state :: checkpoint_verifier_state
  ck_verifier_refs :: "string list"
  ck_current_worktree_snapshot_id :: "worktree_snapshot_id option"
  ck_pending_delta_stats :: pending_delta_stats
  ck_created_reason :: checkpoint_reason
  ck_continuation_candidate :: bool
  ck_active_lineage_refs :: "string list"
  ck_capture_receipt_revision_ids :: "capture_receipt_id list"
  ck_capture_gap_refs :: "string list"
  ck_capture_outage_refs :: "capture_outage_interval_id list"
  ck_algorithm_revision :: u32

definition EPISODE_ALGORITHM_REVISION :: u32 where "EPISODE_ALGORITHM_REVISION = 1"

text \<open>Unsigned integers as \<open>format!\<close> prints them.\<close>

fun decimal :: "nat \<Rightarrow> string" where
  "decimal n = (if n < 10 then [char_of (48 + n)] else decimal (n div 10) @ [char_of (48 + n mod 10)])"

declare decimal.simps [simp del]

definition work_checkpoint_stable_key :: "uuid_lib \<Rightarrow> work_checkpoint \<Rightarrow> string" where
  "work_checkpoint_stable_key lib c =
    uuid_id_to_string lib ''ep'' (ck_episode_id c) @ '':'' @ decimal (unat (ck_source_watermark c)) @ '':''
    @ checkpoint_reason_as_str (ck_created_reason c) @ '':'' @ decimal (unat (ck_algorithm_revision c))"

definition work_checkpoint_validate :: "work_checkpoint \<Rightarrow> (work_error, unit) result" where
  "work_checkpoint_validate c =
    and_then (phase_contract_validate (ck_phase_contract c)) (\<lambda>_.
    if ck_source_watermark c = 0
       \<or> ck_algorithm_revision c = 0
       \<or> \<not> ordered_ids (ck_active_attempt_ids c)
       \<or> \<not> ordered_ids (ck_attempt_revision_refs c)
       \<or> \<not> bounded_strings (ck_open_loops c)
       \<or> \<not> bounded_strings (ck_verifier_refs c)
       \<or> \<not> bounded_strings (ck_active_lineage_refs c)
       \<or> \<not> ordered_ids (ck_capture_receipt_revision_ids c)
       \<or> \<not> bounded_strings (ck_capture_gap_refs c)
       \<or> \<not> ordered_ids (ck_capture_outage_refs c)
    then Err InvalidWorkIdentity else Ok ())"

definition derive_rejects ::
  "(bytes \<Rightarrow> bytes) \<Rightarrow> work_episode \<Rightarrow> attempt list \<Rightarrow> worktree_snapshot option \<Rightarrow> bool" where
  "derive_rejects sha256_digest e attempts snapshot \<longleftrightarrow>
    sort (map at_attempt_id attempts) \<noteq> ep_attempt_ids e
    \<or> list_ex (\<lambda>a. \<not> is_ok (attempt_validate sha256_digest a)
        \<or> at_task_id a \<noteq> ep_task_id e
        \<or> at_workstream_id a \<noteq> ep_workstream_id e
        \<or> at_episode_id a \<noteq> Some (ep_episode_id e)
        \<or> at_attempt_id a \<notin> set (ep_attempt_ids e)) attempts
    \<or> is_some_and (\<lambda>s. \<not> is_ok (worktree_snapshot_validate s)
        \<or> ep_worktree_instance_id e \<noteq> Some (wsn_worktree_instance_id s)) snapshot"

definition attempt_in_progress :: "attempt \<Rightarrow> bool" where
  "attempt_in_progress a \<longleftrightarrow> at_lifecycle_status a = AttemptActive
    \<and> (at_execution_status a = ExecProposed \<or> at_execution_status a = ExecActive
       \<or> at_execution_status a = ExecInterrupted)"

definition verifier_state_of :: "attempt list \<Rightarrow> checkpoint_verifier_state" where
  "verifier_state_of attempts =
    (let has_passed = list_ex (\<lambda>a. at_verification a = VerificationPassed) attempts;
         has_failed = list_ex (\<lambda>a. at_verification a = VerificationFailed) attempts;
         has_inconclusive = list_ex (\<lambda>a. at_verification a = VerificationInconclusive) attempts
     in if attempts \<noteq> [] \<and> list_all (\<lambda>a. at_verification a = VerificationPassed) attempts then VerifierPassed
        else if has_failed \<and> \<not> has_passed \<and> \<not> has_inconclusive then VerifierFailed
        else if has_passed \<or> has_failed \<or> has_inconclusive then VerifierInconclusive
        else VerifierUnverified)"

definition build_work_checkpoint ::
  "uuid_lib \<Rightarrow> work_episode \<Rightarrow> attempt list \<Rightarrow> worktree_snapshot option \<Rightarrow> checkpoint_reason \<Rightarrow> work_checkpoint" where
  "build_work_checkpoint lib e attempts snapshot reason =
    \<lparr>ck_episode_id = ep_episode_id e,
     ck_episode_revision_id = ep_revision_id e,
     ck_source_watermark = ep_source_watermark e,
     ck_active_attempt_ids = sort (map at_attempt_id (filter attempt_in_progress attempts)),
     ck_attempt_revision_refs =
       sort (map (\<lambda>a. CheckpointAttemptRevisionRef (at_attempt_id a) (at_revision_id a)) attempts),
     ck_phase_contract = ep_phase_contract e,
     ck_open_loops = ep_open_loops e,
     ck_verifier_state = verifier_state_of attempts,
     ck_verifier_refs = sort_dedup (concat (map at_parent_verification_refs attempts)),
     ck_current_worktree_snapshot_id = map_option wsn_worktree_snapshot_id snapshot,
     ck_pending_delta_stats = ep_pending_delta_stats e,
     ck_created_reason = reason,
     ck_continuation_candidate = (ep_lifecycle_status e = EpisodeOpen),
     ck_active_lineage_refs = map (uuid_id_to_string lib ''wtt'') (ep_worktree_transition_refs e),
     ck_capture_receipt_revision_ids = ep_capture_receipt_revision_ids e,
     ck_capture_gap_refs = ep_capture_gap_refs e,
     ck_capture_outage_refs = ep_capture_outage_refs e,
     ck_algorithm_revision = EPISODE_ALGORITHM_REVISION\<rparr>"

definition work_checkpoint_derive ::
  "uuid_lib \<Rightarrow> (bytes \<Rightarrow> bytes) \<Rightarrow> work_episode \<Rightarrow> attempt list \<Rightarrow> worktree_snapshot option \<Rightarrow> checkpoint_reason
    \<Rightarrow> (work_error, work_checkpoint) result" where
  "work_checkpoint_derive lib sha256_digest e attempts snapshot reason =
    and_then (work_episode_validate e) (\<lambda>_.
    if derive_rejects sha256_digest e attempts snapshot then Err InvalidWorkIdentity
    else let checkpoint = build_work_checkpoint lib e attempts snapshot reason
      in and_then (work_checkpoint_validate checkpoint) (\<lambda>_. Ok checkpoint))"

datatype checkpoint_resolution = NoDelta | Checkpoint_New work_checkpoint

definition build_checkpoint ::
  "uuid_lib \<Rightarrow> (bytes \<Rightarrow> bytes) \<Rightarrow> work_episode \<Rightarrow> attempt list \<Rightarrow> worktree_snapshot option \<Rightarrow> checkpoint_reason
    \<Rightarrow> work_checkpoint option \<Rightarrow> (work_error, checkpoint_resolution) result" where
  "build_checkpoint lib sha256_digest e attempts snapshot reason existing =
    and_then (work_checkpoint_derive lib sha256_digest e attempts snapshot reason) (\<lambda>checkpoint.
    case existing of
      Some current \<Rightarrow>
        if work_checkpoint_stable_key lib current = work_checkpoint_stable_key lib checkpoint
        then (if current = checkpoint then Ok NoDelta else Err InvalidWorkIdentity)
        else Ok (Checkpoint_New checkpoint)
    | None \<Rightarrow> Ok (Checkpoint_New checkpoint))"

definition record_checkpoint ::
  "uuid_lib \<Rightarrow> (string, work_checkpoint \<times> u64) btree_map \<Rightarrow> work_checkpoint \<Rightarrow> u64
    \<Rightarrow> (store_error, (string, work_checkpoint \<times> u64) btree_map) result" where
  "record_checkpoint lib values value seq =
    and_then (map_err (\<lambda>_. StoreCorrupt) (work_checkpoint_validate value)) (\<lambda>_.
    let key = work_checkpoint_stable_key lib value in
    case btm_get values key of
      Some (existing, _) \<Rightarrow> if existing = value then Ok values else Err StoreCorrupt
    | None \<Rightarrow> Ok (btm_insert key (value, seq) values))"

section \<open>The stable key\<close>

definition is_digit_string :: "string \<Rightarrow> bool" where
  "is_digit_string s \<longleftrightarrow> list_all is_ascii_digit s"

definition decimal_value :: "string \<Rightarrow> nat" where
  "decimal_value s = foldl (\<lambda>a c. a * 10 + (of_char c - 48)) 0 s"

lemma decimal_value_decimal: "decimal_value (decimal n) = n"
proof (induction n rule: decimal.induct)
  case (1 n)
  have "(of_char (char_of (48 + n mod 10)) :: nat) = 48 + n mod 10" by simp
  with 1 show ?case
    by (subst decimal.simps) (auto simp: decimal_value_def)
qed

lemma decimal_inject [simp]: "decimal m = decimal n \<longleftrightarrow> m = n"
  by (metis decimal_value_decimal)

lemma decimal_digits: "is_digit_string (decimal n)"
proof (induction n rule: decimal.induct)
  case (1 n)
  have "is_ascii_digit (char_of (48 + n mod 10))" and "n < 10 \<Longrightarrow> is_ascii_digit (char_of (48 + n))"
    by (simp_all add: is_ascii_digit_def)
  with 1 show ?case by (subst decimal.simps) (auto simp: is_digit_string_def)
qed

lemma colon_not_digit: "is_digit_string s \<Longrightarrow> CHR '':'' \<notin> set s"
  by (auto simp: is_digit_string_def list_all_iff is_ascii_digit_def)

lemma reason_inject: "checkpoint_reason_as_str a = checkpoint_reason_as_str b \<longleftrightarrow> a = b"
  by (cases a; cases b) simp_all

lemma reason_no_colon: "CHR '':'' \<notin> set (checkpoint_reason_as_str r)"
  by (cases r) simp_all

lemma split_at_colon:
  assumes "CHR '':'' \<notin> set p" and "CHR '':'' \<notin> set q"
  shows "p @ '':'' @ r = q @ '':'' @ s \<longleftrightarrow> p = q \<and> r = s"
proof
  assume "p @ '':'' @ r = q @ '':'' @ s"
  then have "split_once (CHR '':'') (p @ CHR '':'' # r) = split_once (CHR '':'') (q @ CHR '':'' # s)" by simp
  then show "p = q \<and> r = s" by (simp add: split_once_app [OF assms(1)] split_once_app [OF assms(2)])
qed simp

lemma uuid_text_inject:
  assumes "uuid_lib_ok lib" and "uuid_id_to_string lib p u @ r = uuid_id_to_string lib p v @ s"
  shows "u = v \<and> r = s"
proof -
  have "length (hyphenated lib u) = length (hyphenated lib v)" using assms(1) by (simp add: uuid_lib_ok_def)
  with assms(2) have "hyphenated lib u = hyphenated lib v" "r = s" by (simp_all add: uuid_id_to_string_def)
  moreover have "u = v" if "hyphenated lib u = hyphenated lib v"
    using that assms(1) unfolding uuid_lib_ok_def by (metis option.inject)
  ultimately show ?thesis by simp
qed

lemma stable_key_eqD:
  assumes "uuid_lib_ok lib" and "work_checkpoint_stable_key lib a = work_checkpoint_stable_key lib b"
  shows "ck_episode_id a = ck_episode_id b" and "ck_source_watermark a = ck_source_watermark b"
    and "ck_created_reason a = ck_created_reason b" and "ck_algorithm_revision a = ck_algorithm_revision b"
proof -
  from uuid_text_inject [OF assms(1) assms(2) [unfolded work_checkpoint_stable_key_def]]
  have ep: "ck_episode_id a = ck_episode_id b" and rest:
    "decimal (unat (ck_source_watermark a)) @ '':'' @ checkpoint_reason_as_str (ck_created_reason a) @ '':''
        @ decimal (unat (ck_algorithm_revision a))
     = decimal (unat (ck_source_watermark b)) @ '':'' @ checkpoint_reason_as_str (ck_created_reason b) @ '':''
        @ decimal (unat (ck_algorithm_revision b))" by auto
  note digits = colon_not_digit [OF decimal_digits]
  from rest have "ck_source_watermark a = ck_source_watermark b"
    and "checkpoint_reason_as_str (ck_created_reason a) @ '':'' @ decimal (unat (ck_algorithm_revision a))
      = checkpoint_reason_as_str (ck_created_reason b) @ '':'' @ decimal (unat (ck_algorithm_revision b))"
    by (simp_all only: split_at_colon [OF digits digits] decimal_inject word_unat_eq_iff)
  with ep show "ck_episode_id a = ck_episode_id b" and "ck_source_watermark a = ck_source_watermark b"
    and "ck_created_reason a = ck_created_reason b" and "ck_algorithm_revision a = ck_algorithm_revision b"
    by (simp_all only: split_at_colon [OF reason_no_colon reason_no_colon] decimal_inject reason_inject
        word_unat_eq_iff)
qed

section \<open>Derivation\<close>

lemma derive_Ok_iff:
  "work_checkpoint_derive lib sha e attempts snapshot reason = Ok c \<longleftrightarrow>
    work_episode_validate e = Ok () \<and> \<not> derive_rejects sha e attempts snapshot
    \<and> c = build_work_checkpoint lib e attempts snapshot reason \<and> work_checkpoint_validate c = Ok ()"
  by (auto simp: work_checkpoint_derive_def Let_def and_then_Inr_iff and_then_unit)

lemma list_ex_mset: "mset xs = mset ys \<Longrightarrow> list_ex P xs = list_ex P ys"
  by (auto simp: list_ex_iff dest: mset_eq_setD)

lemma list_all_mset: "mset xs = mset ys \<Longrightarrow> list_all P xs = list_all P ys"
  by (auto simp: list_all_iff dest: mset_eq_setD)

lemma sort_map_mset: "mset xs = mset ys \<Longrightarrow> sort (map f xs) = sort (map f ys)"
  by (metis mset_map properties_for_sort mset_sort sorted_sort)

lemma verifier_state_of_mset:
  assumes "mset xs = mset ys"
  shows "verifier_state_of xs = verifier_state_of ys"
proof -
  have "xs = [] \<longleftrightarrow> ys = []" using assms by (metis mset_zero_iff)
  then show ?thesis
    by (simp add: verifier_state_of_def list_ex_mset [OF assms] list_all_mset [OF assms])
qed

lemma sort_dedup_cong_set: "set xs = set ys \<Longrightarrow> sort_dedup xs = sort_dedup ys"
  using sorted_wrt_sort_dedup [of xs] sorted_wrt_sort_dedup [of ys]
  by (intro sorted_distinct_set_unique) (auto simp: strict_sorted_iff)

lemma build_mset:
  assumes "mset xs = mset ys"
  shows "build_work_checkpoint lib e xs snapshot reason = build_work_checkpoint lib e ys snapshot reason"
proof -
  have "mset (filter attempt_in_progress xs) = mset (filter attempt_in_progress ys)" using assms by simp
  note active = sort_map_mset [OF this, of at_attempt_id]
  have "set xs = set ys" using assms by (rule mset_eq_setD)
  then have "set (concat (map at_parent_verification_refs xs)) = set (concat (map at_parent_verification_refs ys))"
    by simp
  note refs = sort_dedup_cong_set [OF this]
  show ?thesis
    by (simp add: build_work_checkpoint_def verifier_state_of_mset [OF assms] active refs
        sort_map_mset [OF assms, of "\<lambda>a. CheckpointAttemptRevisionRef (at_attempt_id a) (at_revision_id a)"])
qed

lemma derive_rejects_mset:
  "mset xs = mset ys \<Longrightarrow> derive_rejects sha e xs snapshot = derive_rejects sha e ys snapshot"
  using sort_map_mset [of xs ys at_attempt_id] list_ex_mset [of xs ys] by (simp add: derive_rejects_def)

lemma distinct_map_finer:
  assumes "distinct (map f xs)" and "\<And>x y. g x = g y \<Longrightarrow> f x = f y"
  shows "distinct (map g xs)"
proof -
  from assms(1) have "inj_on f (set xs)" and "distinct xs" by (simp_all only: distinct_map)
  from this(1) assms(2) have "inj_on g (set xs)" unfolding inj_on_def by metis
  with \<open>distinct xs\<close> show ?thesis by (simp only: distinct_map)
qed

lemma ordered_ids_sort: "distinct xs \<Longrightarrow> length xs \<le> MAX_REFS \<Longrightarrow> ordered_ids (sort xs)"
  by (simp add: ordered_ids_def strictly_ordered_unique_iff strict_sorted_iff)

lemma episode_valid_lists: "work_episode_validate e = Ok () \<Longrightarrow> work_episode_all_lists e"
  by (rule ccontr) (simp add: work_episode_validate_def and_then_Inr_iff Let_def)

lemma attempt_valid_lists: "attempt_validate sha a = Ok () \<Longrightarrow> attempt_lists_ok a"
  by (rule ccontr) (simp add: attempt_validate_def and_then_Inr_iff)

lemma derive_accepted:
  assumes "work_episode_validate e = Ok ()" and "\<not> derive_rejects sha e attempts snapshot"
  shows "distinct (map at_attempt_id attempts)" and "length attempts \<le> MAX_REFS"
    and "a \<in> set attempts \<Longrightarrow> attempt_validate sha a = Ok ()"
proof -
  have ids: "sort (map at_attempt_id attempts) = ep_attempt_ids e" using assms(2) by (simp add: derive_rejects_def)
  have "ordered_ids (ep_attempt_ids e)" using episode_valid_lists [OF assms(1)] by (simp add: work_episode_all_lists_def)
  then have "distinct (ep_attempt_ids e)" "length (ep_attempt_ids e) \<le> MAX_REFS"
    by (simp_all add: ordered_ids_def strictly_ordered_unique_iff strict_sorted_iff)
  then show "distinct (map at_attempt_id attempts)" and "length attempts \<le> MAX_REFS"
    by (simp_all flip: ids)
  show "a \<in> set attempts \<Longrightarrow> attempt_validate sha a = Ok ()"
    using assms(2) by (auto simp: derive_rejects_def list_ex_iff is_ok_unit)
qed

lemma derived_lists_valid:
  assumes e: "work_episode_validate e = Ok ()" and ok: "\<not> derive_rejects sha e attempts snapshot"
    and lineage: "sorted_wrt (<) (map (uuid_id_to_string lib ''wtt'') (ep_worktree_transition_refs e))"
    and lib: "uuid_lib_ok lib"
  shows "ordered_ids (ck_active_attempt_ids (build_work_checkpoint lib e attempts snapshot reason))"
    and "ordered_ids (ck_attempt_revision_refs (build_work_checkpoint lib e attempts snapshot reason))"
    and "bounded_strings (ck_active_lineage_refs (build_work_checkpoint lib e attempts snapshot reason))"
    and "bounded_strings (ck_verifier_refs (build_work_checkpoint lib e attempts snapshot reason))
      \<longleftrightarrow> card (set (concat (map at_parent_verification_refs attempts))) \<le> MAX_REFS"
proof -
  note lists = episode_valid_lists [OF e, unfolded work_episode_all_lists_def]
  have d: "distinct (map at_attempt_id attempts)" and n: "length attempts \<le> MAX_REFS"
    using derive_accepted [OF e ok] by blast+
  have "length (filter attempt_in_progress attempts) \<le> MAX_REFS"
    using n length_filter_le [of attempt_in_progress attempts] by linarith
  then show "ordered_ids (ck_active_attempt_ids (build_work_checkpoint lib e attempts snapshot reason))"
    unfolding build_work_checkpoint_def work_checkpoint.simps
    by (intro ordered_ids_sort) (auto intro: distinct_map_filter [OF d])
  have "distinct (map (\<lambda>a. CheckpointAttemptRevisionRef (at_attempt_id a) (at_revision_id a)) attempts)"
    by (rule distinct_map_finer [OF d]) simp
  then show "ordered_ids (ck_attempt_revision_refs (build_work_checkpoint lib e attempts snapshot reason))"
    unfolding build_work_checkpoint_def work_checkpoint.simps using n by (intro ordered_ids_sort) simp_all
  have wtt: "bounded_text (uuid_id_to_string lib ''wtt'' u)" for u
    using lib by (simp add: bounded_text_def blank_def uuid_id_to_string_def uuid_lib_ok_def MAX_TEXT_def)
  have "length (ep_worktree_transition_refs e) \<le> MAX_REFS" using lists by (simp add: ordered_ids_def)
  then show "bounded_strings (ck_active_lineage_refs (build_work_checkpoint lib e attempts snapshot reason))"
    using lineage wtt by (simp add: build_work_checkpoint_def bounded_strings_def strictly_ordered_unique_iff)
  have refs: "bounded_strings (at_parent_verification_refs a)" if "a \<in> set attempts" for a
    using attempt_valid_lists [OF derive_accepted(3) [OF e ok that]] by (simp add: attempt_lists_ok_def)
  then have "\<forall>v \<in> set (concat (map at_parent_verification_refs attempts)). bounded_text v"
    by (auto simp: bounded_strings_def)
  then show "bounded_strings (ck_verifier_refs (build_work_checkpoint lib e attempts snapshot reason))
      \<longleftrightarrow> card (set (concat (map at_parent_verification_refs attempts))) \<le> MAX_REFS"
    unfolding build_work_checkpoint_def work_checkpoint.simps bounded_strings_def set_sort_dedup
      length_sort_dedup strictly_ordered_unique_iff using sorted_wrt_sort_dedup by blast
qed

section \<open>Properties of checkpoints\<close>

text \<open>
  A checkpoint's stable key determines the episode, the source watermark, the reason and
  the algorithm revision it was created for.
\<close>

theorem checkpoint_key_identifies:
  assumes "uuid_lib_ok lib"
  shows "work_checkpoint_stable_key lib a = work_checkpoint_stable_key lib b \<longleftrightarrow>
    ck_episode_id a = ck_episode_id b \<and> ck_source_watermark a = ck_source_watermark b
    \<and> ck_created_reason a = ck_created_reason b \<and> ck_algorithm_revision a = ck_algorithm_revision b"
proof
  assume "work_checkpoint_stable_key lib a = work_checkpoint_stable_key lib b"
  from stable_key_eqD [OF assms this] show "ck_episode_id a = ck_episode_id b
    \<and> ck_source_watermark a = ck_source_watermark b \<and> ck_created_reason a = ck_created_reason b
    \<and> ck_algorithm_revision a = ck_algorithm_revision b" by blast
qed (simp add: work_checkpoint_stable_key_def)

text \<open>
  The derived checkpoint does not depend on the order in which the attempts of the
  episode are supplied, so recomputing it from the stored revisions gives the same value.
\<close>

theorem checkpoint_order_independent:
  assumes "mset attempts = mset attempts'"
  shows "work_checkpoint_derive lib sha256_digest e attempts snapshot reason
    = work_checkpoint_derive lib sha256_digest e attempts' snapshot reason"
  by (simp add: work_checkpoint_derive_def derive_rejects_mset [OF assms] build_mset [OF assms])

text \<open>
  For a valid episode with matching attempts and snapshot the checkpoint exists exactly
  if the attempts carry at most 64 different verification references; nothing else can fail.
\<close>

theorem checkpoint_derivable_iff:
  assumes "uuid_lib_ok lib"
    and "work_episode_validate e = Ok ()" and "\<not> derive_rejects sha256_digest e attempts snapshot"
    and "sorted_wrt (<) (map (uuid_id_to_string lib ''wtt'') (ep_worktree_transition_refs e))"
  shows "work_checkpoint_derive lib sha256_digest e attempts snapshot reason
      = Ok (build_work_checkpoint lib e attempts snapshot reason)
    \<longleftrightarrow> card (set (concat (map at_parent_verification_refs attempts))) \<le> 64"
proof -
  let ?c = "build_work_checkpoint lib e attempts snapshot reason"
  note lists = episode_valid_lists [OF assms(2), unfolded work_episode_all_lists_def]
    and derived = derived_lists_valid [OF assms(2,3,4,1), of reason]
  have head: "phase_contract_validate (ep_phase_contract e) = Ok ()" "ep_source_watermark e \<noteq> 0"
    using assms(2) by (auto simp: work_episode_validate_def and_then_Inr_iff Let_def split del: if_split)
  have fields: "ck_phase_contract ?c = ep_phase_contract e" "ck_source_watermark ?c = ep_source_watermark e"
    "ck_algorithm_revision ?c = 1" "ck_open_loops ?c = ep_open_loops e"
    "ck_capture_receipt_revision_ids ?c = ep_capture_receipt_revision_ids e"
    "ck_capture_gap_refs ?c = ep_capture_gap_refs e" "ck_capture_outage_refs ?c = ep_capture_outage_refs e"
    by (simp_all add: build_work_checkpoint_def EPISODE_ALGORITHM_REVISION_def)
  have "work_checkpoint_validate ?c = Ok () \<longleftrightarrow> bounded_strings (ck_verifier_refs ?c)"
    using lists derived(1,2,3) head by (simp add: work_checkpoint_validate_def fields)
  then show ?thesis using assms(2,3) derived(4) by (simp add: derive_Ok_iff MAX_REFS_def)
qed

text \<open>
  Taking a checkpoint is idempotent: with the stored checkpoint of the same key at hand
  nothing new is produced, and recording it again leaves the store unchanged.
\<close>

theorem checkpoint_idempotent:
  assumes "build_checkpoint lib sha256_digest e attempts snapshot reason None = Ok (Checkpoint_New c)"
    and "record_checkpoint lib stored_checkpoints c seq = Ok stored'"
  shows "build_checkpoint lib sha256_digest e attempts snapshot reason (Some c) = Ok NoDelta
    \<and> record_checkpoint lib stored' c seq' = Ok stored'"
proof -
  from assms(1) have c: "work_checkpoint_derive lib sha256_digest e attempts snapshot reason = Ok c"
    by (auto simp: build_checkpoint_def and_then_Inr_iff)
  then have v: "work_checkpoint_validate c = Ok ()" unfolding derive_Ok_iff by blast
  then have "\<exists>s. btm_get stored' (work_checkpoint_stable_key lib c) = Some (c, s)"
    using assms(2) by (auto simp: record_checkpoint_def Let_def split: option.splits if_splits)
  with c v show ?thesis by (auto simp: build_checkpoint_def record_checkpoint_def)
qed

text \<open>
  A stored checkpoint is never overwritten: recording keeps every stored value, with its
  sequence number, and adds at most the new one under its own key.
\<close>

theorem record_checkpoint_preserves:
  assumes "record_checkpoint lib stored_checkpoints c seq = Ok stored'"
    and "btm_get stored_checkpoints k = Some v"
  shows "btm_get stored' k = Some v"
  using assms by (auto simp: record_checkpoint_def Let_def and_then_Inr_iff split: option.splits if_splits)

section \<open>Sample checkpoints\<close>

definition sample_checkpoint :: work_checkpoint where
  "sample_checkpoint = build_work_checkpoint sample_uuid_lib sample_episode [] None ReasonStop"

lemma sample_derivable: "\<not> derive_rejects zero_digest sample_episode [] None"
  "ep_worktree_transition_refs sample_episode = []"
  by (simp_all add: derive_rejects_def sample_episode_def)

theorem checkpoint_derivable_iff_witness:
  "work_checkpoint_derive sample_uuid_lib zero_digest sample_episode [] None ReasonStop = Ok sample_checkpoint"
  using checkpoint_derivable_iff [OF sample_uuid_lib_ok sample_episode_valid sample_derivable(1)] sample_derivable(2)
  by (simp add: sample_checkpoint_def)

lemma sample_checkpoint_recorded:
  "record_checkpoint sample_uuid_lib [] sample_checkpoint 7
    = Ok [(work_checkpoint_stable_key sample_uuid_lib sample_checkpoint, sample_checkpoint, 7)]"
proof -
  have "work_checkpoint_validate sample_checkpoint = Ok ()"
    by (simp add: work_checkpoint_validate_def sample_checkpoint_def build_work_checkpoint_def sample_episode_def
        phase_contract_validate_def bounded_text_def blank_def MAX_TEXT_def EPISODE_ALGORITHM_REVISION_def
        sort_dedup_def)
  then show ?thesis by (simp add: record_checkpoint_def Let_def)
qed

lemma sample_checkpoint_built:
  "build_checkpoint sample_uuid_lib zero_digest sample_episode [] None ReasonStop None = Ok (Checkpoint_New sample_checkpoint)"
  using sample_episode_valid sample_derivable(1) sample_checkpoint_recorded
  by (simp add: build_checkpoint_def work_checkpoint_derive_def Let_def record_checkpoint_def and_then_Inr_iff
      and_then_unit map_err_Inr_iff flip: sample_checkpoint_def)

theorem checkpoint_idempotent_witness:
  "build_checkpoint sample_uuid_lib zero_digest sample_episode [] None ReasonStop (Some sample_checkpoint) = Ok NoDelta
    \<and> record_checkpoint sample_uuid_lib
        [(work_checkpoint_stable_key sample_uuid_lib sample_checkpoint, sample_checkpoint, 7)] sample_checkpoint 9
      = Ok [(work_checkpoint_stable_key sample_uuid_lib sample_checkpoint, sample_checkpoint, 7)]"
  by (rule checkpoint_idempotent [OF sample_checkpoint_built sample_checkpoint_recorded])

theorem checkpoint_key_identifies_witness:
  "work_checkpoint_stable_key sample_uuid_lib sample_checkpoint
    \<noteq> work_checkpoint_stable_key sample_uuid_lib (sample_checkpoint\<lparr>ck_created_reason := ReasonIdle\<rparr>)"
  unfolding checkpoint_key_identifies [OF sample_uuid_lib_ok]
  by (simp add: sample_checkpoint_def build_work_checkpoint_def)

theorem checkpoint_order_independent_witness:
  "work_checkpoint_derive sample_uuid_lib zero_digest sample_episode [sample_attempt, sample_resumed_attempt] None ReasonStop
    = work_checkpoint_derive sample_uuid_lib zero_digest sample_episode [sample_resumed_attempt, sample_attempt] None ReasonStop"
  by (rule checkpoint_order_independent) simp

theorem record_checkpoint_preserves_witness:
  "btm_get [(work_checkpoint_stable_key sample_uuid_lib sample_checkpoint, sample_checkpoint, 7)]
      (work_checkpoint_stable_key sample_uuid_lib sample_checkpoint) = Some (sample_checkpoint, 7 :: u64)"
proof (rule record_checkpoint_preserves)
  show "record_checkpoint sample_uuid_lib
      [(work_checkpoint_stable_key sample_uuid_lib sample_checkpoint, sample_checkpoint, 7)] sample_checkpoint 9
    = Ok [(work_checkpoint_stable_key sample_uuid_lib sample_checkpoint, sample_checkpoint, 7)]"
    using sample_checkpoint_recorded by (simp add: record_checkpoint_def Let_def and_then_Inr_iff map_err_Inr_iff btm_get_def)
qed (simp add: btm_get_def)

end
