(* ===== verification/Repo_Store.thy ===== *)
theory Repo_Store
  imports Repository Store_Base Identifiers
begin

text \<open>
  Repository and worktree objects in the store (\<open>evertrace-store/src/repository.rs\<close>, the
  repository part of \<open>relations.rs\<close>, and the order in which
  \<open>projections.rs\<close> applies a command): the five tables, the \<open>replace_*\<close> functions that
  record a new revision, the closure checks on a command and on the merged state, live
  admission and journal replay, and the relation rows derived from the current view.

  A journal payload that does not concern these tables is \<open>OtherPayload\<close>. The maps of
  \<open>validate_repository_payloads\<close>, which hold values without metadata, carry the unit
  metadata that \<open>with_unit_metadata\<close> adds elsewhere.
\<close>

record 'm repository_tables =
  rt_repositories :: "(repository_id, repository_instance \<times> 'm) btree_map"
  rt_worktrees :: "(worktree_id, worktree_instance \<times> 'm) btree_map"
  rt_snapshots :: "(worktree_snapshot_id, worktree_snapshot \<times> 'm) btree_map"
  rt_transitions :: "(worktree_transition_id, worktree_transition \<times> 'm) btree_map"
  rt_integrations :: "(integration_event_id, integration_event \<times> 'm) btree_map"

datatype journal_payload =
    RepositoryInstanceRecorded repository_instance
  | WorktreeInstanceRecorded worktree_instance
  | WorktreeSnapshotRecorded worktree_snapshot
  | WorktreeTransitionRecorded worktree_transition
  | IntegrationEventRecorded integration_event
  | OtherPayload

definition empty_tables :: "'m repository_tables" where
  "empty_tables = \<lparr>rt_repositories = [], rt_worktrees = [], rt_snapshots = [], rt_transitions = [],
    rt_integrations = []\<rparr>"

section \<open>Recording a revision\<close>

definition prefix_of :: "path_observation list \<Rightarrow> path_observation list \<Rightarrow> bool" where
  "prefix_of previous next \<longleftrightarrow> length next \<ge> length previous \<and> prefix previous next"

definition replace_repository ::
  "(repository_id, repository_instance \<times> u64) btree_map \<Rightarrow> repository_instance \<Rightarrow> u64
    \<Rightarrow> (store_error, (repository_id, repository_instance \<times> u64) btree_map) result" where
  "replace_repository values value seq = (case btm_get values (ri_repository_id value) of
      None \<Rightarrow>
        if ri_repository_revision value \<noteq> 1 then Err StoreCorrupt
        else Ok (btm_insert (ri_repository_id value) (value, seq) values)
    | Some (current, _) \<Rightarrow>
        if current = value then Ok (btm_insert (ri_repository_id value) (value, seq) values)
        else if ri_repository_revision value \<noteq> ri_repository_revision current + 1
          \<or> ri_predecessor_revision value \<noteq> Some (ri_repository_revision current)
          \<or> ri_derived_from value \<noteq> ri_derived_from current
          \<or> ri_object_format value \<noteq> ri_object_format current
          \<or> ri_common_dir_filesystem value \<noteq> ri_common_dir_filesystem current
          \<or> \<not> prefix_of (ri_path_history current) (ri_path_history value)
        then Err StoreCorrupt
        else Ok (btm_insert (ri_repository_id value) (value, seq) values))"

definition replace_worktree ::
  "(worktree_id, worktree_instance \<times> u64) btree_map \<Rightarrow> worktree_instance \<Rightarrow> u64
    \<Rightarrow> (store_error, (worktree_id, worktree_instance \<times> u64) btree_map) result" where
  "replace_worktree values value seq = (case btm_get values (wt_worktree_instance_id value) of
      None \<Rightarrow>
        if wt_worktree_revision value \<noteq> 1 then Err StoreCorrupt
        else Ok (btm_insert (wt_worktree_instance_id value) (value, seq) values)
    | Some (current, _) \<Rightarrow>
        if current = value then Ok (btm_insert (wt_worktree_instance_id value) (value, seq) values)
        else if wt_worktree_revision value \<noteq> wt_worktree_revision current + 1
          \<or> wt_predecessor_revision value \<noteq> Some (wt_worktree_revision current)
          \<or> wt_repository_instance_id value \<noteq> wt_repository_instance_id current
          \<or> wt_kind value \<noteq> wt_kind current
          \<or> wt_created_event_ref value \<noteq> wt_created_event_ref current
          \<or> wt_recreated_from_worktree_instance_id value \<noteq> wt_recreated_from_worktree_instance_id current
          \<or> \<not> lifecycle_successor_allowed (wt_lifecycle current) (wt_lifecycle value)
          \<or> wt_terminal_event_ref current \<noteq> None \<and> wt_terminal_event_ref value = None
          \<or> \<not> prefix_of (wt_path_history current) (wt_path_history value)
          \<or> \<not> prefix_of (wt_git_admin_path_history current) (wt_git_admin_path_history value)
        then Err StoreCorrupt
        else Ok (btm_insert (wt_worktree_instance_id value) (value, seq) values))"

definition replace_snapshot ::
  "(worktree_snapshot_id, worktree_snapshot \<times> u64) btree_map \<Rightarrow> worktree_snapshot \<Rightarrow> u64
    \<Rightarrow> (store_error, (worktree_snapshot_id, worktree_snapshot \<times> u64) btree_map) result" where
  "replace_snapshot values value seq =
    (if is_some_and (\<lambda>(current, _). current \<noteq> value) (btm_get values (wsn_worktree_snapshot_id value))
     then Err StoreCorrupt
     else Ok (btm_insert (wsn_worktree_snapshot_id value) (value, seq) values))"

definition replace_transition ::
  "(worktree_transition_id, worktree_transition \<times> u64) btree_map \<Rightarrow> worktree_transition \<Rightarrow> u64
    \<Rightarrow> (store_error, (worktree_transition_id, worktree_transition \<times> u64) btree_map) result" where
  "replace_transition values value seq = (case btm_get values (wtr_worktree_transition_id value) of
      None \<Rightarrow>
        if wtr_transition_revision value \<noteq> 1 then Err StoreCorrupt
        else Ok (btm_insert (wtr_worktree_transition_id value) (value, seq) values)
    | Some (current, _) \<Rightarrow>
        if current = value then Ok (btm_insert (wtr_worktree_transition_id value) (value, seq) values)
        else if wtr_transition_revision value \<noteq> wtr_transition_revision current + 1
          \<or> wtr_predecessor_revision value \<noteq> Some (wtr_transition_revision current)
          \<or> wtr_from_worktree_instance_id value \<noteq> wtr_from_worktree_instance_id current
          \<or> wtr_to_worktree_instance_id value \<noteq> wtr_to_worktree_instance_id current
          \<or> wtr_from_snapshot_id value \<noteq> wtr_from_snapshot_id current
          \<or> wtr_to_snapshot_id value \<noteq> wtr_to_snapshot_id current
          \<or> wtr_kind value \<noteq> wtr_kind current
          \<or> wtr_correction_reason value = None
          \<or> wtr_source_watermark value < wtr_source_watermark current
        then Err StoreCorrupt
        else Ok (btm_insert (wtr_worktree_transition_id value) (value, seq) values))"

definition replace_integration ::
  "(integration_event_id, integration_event \<times> u64) btree_map \<Rightarrow> integration_event \<Rightarrow> u64
    \<Rightarrow> (store_error, (integration_event_id, integration_event \<times> u64) btree_map) result" where
  "replace_integration values value seq =
    (if is_some_and (\<lambda>(current, _). current \<noteq> value) (btm_get values (ie_integration_event_id value))
     then Err StoreCorrupt
     else Ok (btm_insert (ie_integration_event_id value) (value, seq) values))"

section \<open>Closure of a command\<close>

definition insert_unique :: "('k::linorder, 'v) btree_map \<Rightarrow> 'k \<Rightarrow> 'v \<Rightarrow> (store_error, ('k, 'v) btree_map) result" where
  "insert_unique m key value =
    (if btm_get m key \<noteq> None then Err StoreInvalidInput else Ok (btm_insert key value m))"

fun collect_payload :: "unit repository_tables \<Rightarrow> journal_payload \<Rightarrow> (store_error, unit repository_tables) result" where
  "collect_payload t (RepositoryInstanceRecorded value) =
    and_then (insert_unique (rt_repositories t) (ri_repository_id value) (value, ()))
      (\<lambda>m. Ok (t\<lparr>rt_repositories := m\<rparr>))"
| "collect_payload t (WorktreeInstanceRecorded value) =
    and_then (insert_unique (rt_worktrees t) (wt_worktree_instance_id value) (value, ()))
      (\<lambda>m. Ok (t\<lparr>rt_worktrees := m\<rparr>))"
| "collect_payload t (WorktreeSnapshotRecorded value) =
    and_then (insert_unique (rt_snapshots t) (wsn_worktree_snapshot_id value) (value, ()))
      (\<lambda>m. Ok (t\<lparr>rt_snapshots := m\<rparr>))"
| "collect_payload t (WorktreeTransitionRecorded value) =
    and_then (insert_unique (rt_transitions t) (wtr_worktree_transition_id value) (value, ()))
      (\<lambda>m. Ok (t\<lparr>rt_transitions := m\<rparr>))"
| "collect_payload t (IntegrationEventRecorded value) =
    and_then (insert_unique (rt_integrations t) (ie_integration_event_id value) (value, ()))
      (\<lambda>m. Ok (t\<lparr>rt_integrations := m\<rparr>))"
| "collect_payload t OtherPayload = Ok t"

text \<open>A snapshot reference that resolves inside the command must belong to the worktree.\<close>

definition foreign_snapshot :: "'m repository_tables \<Rightarrow> worktree_snapshot_id \<Rightarrow> worktree_id \<Rightarrow> bool" where
  "foreign_snapshot t snapshot_id worktree_id \<longleftrightarrow>
    is_some_and (\<lambda>(snapshot, _). wsn_worktree_instance_id snapshot \<noteq> worktree_id)
      (btm_get (rt_snapshots t) snapshot_id)"

definition command_worktree_ok :: "unit repository_tables \<Rightarrow> worktree_instance \<Rightarrow> (store_error, unit) result" where
  "command_worktree_ok t w =
    (if is_some_and (\<lambda>s. foreign_snapshot t s (wt_worktree_instance_id w)) (wt_current_snapshot_id w)
     then Err StoreInvalidInput
     else if is_some_and (\<lambda>r. is_some_and
         (\<lambda>(previous, _). \<not> worktree_lifecycle_is_terminal (wt_lifecycle previous)) (btm_get (rt_worktrees t) r))
         (wt_recreated_from_worktree_instance_id w)
     then Err StoreInvalidInput else Ok ())"

definition command_snapshot_ok :: "unit repository_tables \<Rightarrow> worktree_snapshot \<Rightarrow> (store_error, unit) result" where
  "command_snapshot_ok t s =
    (if is_some_and (\<lambda>(w, _). wt_current_snapshot_id w \<noteq> Some (wsn_worktree_snapshot_id s))
        (btm_get (rt_worktrees t) (wsn_worktree_instance_id s))
     then Err StoreInvalidInput else Ok ())"

definition transition_ends :: "worktree_transition \<Rightarrow> (worktree_id \<times> worktree_snapshot_id option) list" where
  "transition_ends t = [(wtr_from_worktree_instance_id t, wtr_from_snapshot_id t),
    (wtr_to_worktree_instance_id t, wtr_to_snapshot_id t)]"

definition command_transition_ok :: "unit repository_tables \<Rightarrow> worktree_transition \<Rightarrow> (store_error, unit) result" where
  "command_transition_ok t tr = for_each (\<lambda>(worktree_id, snapshot_id).
     if is_some_and (\<lambda>s. foreign_snapshot t s worktree_id) snapshot_id
     then Err StoreInvalidInput else Ok ()) (transition_ends tr)"

definition command_integration_ok :: "unit repository_tables \<Rightarrow> integration_event \<Rightarrow> (store_error, unit) result" where
  "command_integration_ok t i =
    (if foreign_snapshot t (ie_source_snapshot_id i) (ie_source_worktree_instance_id i)
     then Err StoreInvalidInput
     else if foreign_snapshot t (ie_destination_snapshot_id i) (ie_destination_worktree_instance_id i)
     then Err StoreInvalidInput else Ok ())"

definition validate_repository_payloads :: "journal_payload list \<Rightarrow> (store_error, unit) result" where
  "validate_repository_payloads payloads =
    and_then (replay collect_payload empty_tables payloads) (\<lambda>t.
    and_then (for_each (\<lambda>(w, _). command_worktree_ok t w) (btm_values (rt_worktrees t))) (\<lambda>_.
    and_then (for_each (\<lambda>(s, _). command_snapshot_ok t s) (btm_values (rt_snapshots t))) (\<lambda>_.
    and_then (for_each (\<lambda>(tr, _). command_transition_ok t tr) (btm_values (rt_transitions t))) (\<lambda>_.
    for_each (\<lambda>(i, _). command_integration_ok t i) (btm_values (rt_integrations t))))))"

section \<open>Closure of the merged state\<close>

definition relation_repository_ok :: "'m repository_tables \<Rightarrow> repository_instance \<Rightarrow> (store_error, unit) result" where
  "relation_repository_ok t r =
    (if is_some_and (\<lambda>d. \<not> btm_contains_key (rt_repositories t) d) (ri_derived_from r)
     then Err StoreCorrupt else Ok ())"

definition snapshot_belongs ::
  "'m repository_tables \<Rightarrow> worktree_id \<Rightarrow> worktree_snapshot_id \<Rightarrow> (store_error, unit) result" where
  "snapshot_belongs t worktree_id snapshot_id =
    and_then (ok_or StoreCorrupt (btm_get (rt_snapshots t) snapshot_id)) (\<lambda>(snapshot, _).
    if wsn_worktree_instance_id snapshot \<noteq> worktree_id then Err StoreCorrupt else Ok ())"

definition relation_worktree_ok :: "'m repository_tables \<Rightarrow> worktree_instance \<Rightarrow> (store_error, unit) result" where
  "relation_worktree_ok t w =
    (if \<not> btm_contains_key (rt_repositories t) (wt_repository_instance_id w) then Err StoreCorrupt
     else and_then (if_some (snapshot_belongs t (wt_worktree_instance_id w)) (wt_current_snapshot_id w)) (\<lambda>_.
       if_some (\<lambda>r. and_then (ok_or StoreCorrupt (btm_get (rt_worktrees t) r)) (\<lambda>(previous, _).
         if \<not> worktree_lifecycle_is_terminal (wt_lifecycle previous) then Err StoreCorrupt else Ok ()))
         (wt_recreated_from_worktree_instance_id w)))"

definition relation_snapshot_ok :: "'m repository_tables \<Rightarrow> worktree_snapshot \<Rightarrow> (store_error, unit) result" where
  "relation_snapshot_ok t s =
    (if \<not> btm_contains_key (rt_worktrees t) (wsn_worktree_instance_id s) then Err StoreCorrupt else Ok ())"

definition relation_transition_ok :: "'m repository_tables \<Rightarrow> worktree_transition \<Rightarrow> (store_error, unit) result" where
  "relation_transition_ok t tr = for_each (\<lambda>(worktree_id, snapshot_id).
     if \<not> btm_contains_key (rt_worktrees t) worktree_id then Err StoreCorrupt
     else if_some (snapshot_belongs t worktree_id) snapshot_id) (transition_ends tr)"

definition relation_integration_ok :: "'m repository_tables \<Rightarrow> integration_event \<Rightarrow> (store_error, unit) result" where
  "relation_integration_ok t i =
    (if \<not> btm_contains_key (rt_repositories t) (ie_repository_instance_id i)
        \<or> \<not> btm_contains_key (rt_worktrees t) (ie_source_worktree_instance_id i)
        \<or> \<not> btm_contains_key (rt_worktrees t) (ie_destination_worktree_instance_id i)
     then Err StoreCorrupt
     else and_then (snapshot_belongs t (ie_source_worktree_instance_id i) (ie_source_snapshot_id i)) (\<lambda>_.
       snapshot_belongs t (ie_destination_worktree_instance_id i) (ie_destination_snapshot_id i)))"

definition validate_repository_relations :: "'m repository_tables \<Rightarrow> (store_error, unit) result" where
  "validate_repository_relations t =
    and_then (for_each (\<lambda>(r, _). relation_repository_ok t r) (btm_values (rt_repositories t))) (\<lambda>_.
    and_then (for_each (\<lambda>(w, _). relation_worktree_ok t w) (btm_values (rt_worktrees t))) (\<lambda>_.
    and_then (for_each (\<lambda>(s, _). relation_snapshot_ok t s) (btm_values (rt_snapshots t))) (\<lambda>_.
    and_then (for_each (\<lambda>(tr, _). relation_transition_ok t tr) (btm_values (rt_transitions t))) (\<lambda>_.
    for_each (\<lambda>(i, _). relation_integration_ok t i) (btm_values (rt_integrations t))))))"

section \<open>Admission and replay\<close>

fun payload_validate :: "journal_payload \<Rightarrow> (store_error, unit) result" where
  "payload_validate (RepositoryInstanceRecorded value) =
    map_err (\<lambda>_. StoreInvalidInput) (repository_instance_validate value)"
| "payload_validate (WorktreeInstanceRecorded value) =
    map_err (\<lambda>_. StoreInvalidInput) (worktree_instance_validate value)"
| "payload_validate (WorktreeSnapshotRecorded value) =
    map_err (\<lambda>_. StoreInvalidInput) (worktree_snapshot_validate value)"
| "payload_validate (WorktreeTransitionRecorded value) =
    map_err (\<lambda>_. StoreInvalidInput) (worktree_transition_validate value)"
| "payload_validate (IntegrationEventRecorded value) =
    map_err (\<lambda>_. StoreInvalidInput) (integration_event_validate value)"
| "payload_validate OtherPayload = Ok ()"

fun apply_payload :: "u64 repository_tables \<Rightarrow> journal_payload \<times> u64 \<Rightarrow> (store_error, u64 repository_tables) result" where
  "apply_payload t (RepositoryInstanceRecorded value, seq) =
    and_then (replace_repository (rt_repositories t) value seq) (\<lambda>m. Ok (t\<lparr>rt_repositories := m\<rparr>))"
| "apply_payload t (WorktreeInstanceRecorded value, seq) =
    and_then (replace_worktree (rt_worktrees t) value seq) (\<lambda>m. Ok (t\<lparr>rt_worktrees := m\<rparr>))"
| "apply_payload t (WorktreeSnapshotRecorded value, seq) =
    and_then (replace_snapshot (rt_snapshots t) value seq) (\<lambda>m. Ok (t\<lparr>rt_snapshots := m\<rparr>))"
| "apply_payload t (WorktreeTransitionRecorded value, seq) =
    and_then (replace_transition (rt_transitions t) value seq) (\<lambda>m. Ok (t\<lparr>rt_transitions := m\<rparr>))"
| "apply_payload t (IntegrationEventRecorded value, seq) =
    and_then (replace_integration (rt_integrations t) value seq) (\<lambda>m. Ok (t\<lparr>rt_integrations := m\<rparr>))"
| "apply_payload t (OtherPayload, seq) = Ok t"

text \<open>Live admission numbers the events of a command from \<open>first_seq\<close>.\<close>

fun admit_events :: "u64 repository_tables \<Rightarrow> u64 \<Rightarrow> nat \<Rightarrow> journal_payload list
    \<Rightarrow> (store_error, u64 repository_tables) result" where
  "admit_events t first_seq offset [] = Ok t"
| "admit_events t first_seq offset (p # ps) =
    (if offset \<ge> 2 ^ 64 then Err StoreInvalidInput
     else and_then (ok_or StoreInvalidInput (checked_add first_seq (of_nat offset))) (\<lambda>seq.
       and_then (map_err (\<lambda>_. StoreInvalidInput) (apply_payload t (p, seq))) (\<lambda>t'.
       admit_events t' first_seq (Suc offset) ps)))"

definition admit_command :: "u64 repository_tables \<Rightarrow> u64 \<Rightarrow> journal_payload list
    \<Rightarrow> (store_error, u64 repository_tables) result" where
  "admit_command t first_seq payloads =
    and_then (for_each payload_validate payloads) (\<lambda>_.
    and_then (validate_repository_payloads payloads) (\<lambda>_.
    and_then (admit_events t first_seq 0 payloads) (\<lambda>t'.
    and_then (map_err (\<lambda>_. StoreInvalidInput) (validate_repository_relations t')) (\<lambda>_. Ok t'))))"

text \<open>Replay takes the rows of one committed command with their sequence numbers.\<close>

definition apply_row_batch :: "u64 repository_tables \<Rightarrow> (journal_payload \<times> u64) list
    \<Rightarrow> (store_error, u64 repository_tables) result" where
  "apply_row_batch t rows =
    and_then (for_each (\<lambda>(p, _). map_err (\<lambda>_. StoreCorrupt) (payload_validate p)) rows) (\<lambda>_.
    and_then (map_err (\<lambda>_. StoreCorrupt) (validate_repository_payloads (map fst rows))) (\<lambda>_.
    and_then (replay apply_payload t rows) (\<lambda>t'.
    and_then (validate_repository_relations t') (\<lambda>_. Ok t'))))"

section \<open>The current view and its relation rows\<close>

datatype repository_relation_kind = RepositoryToWorktree | WorktreeToSnapshot | WorktreeTransitionFrom
  | WorktreeTransitionTo | IntegrationEventSource | IntegrationEventDestination
  | RepositoryDerivedFrom | WorktreeRecreatedFrom

instantiation repository_relation_kind :: linorder
begin

fun rank_repository_relation_kind :: "repository_relation_kind \<Rightarrow> nat" where
  "rank_repository_relation_kind RepositoryToWorktree = 0"
| "rank_repository_relation_kind WorktreeToSnapshot = 1"
| "rank_repository_relation_kind WorktreeTransitionFrom = 2"
| "rank_repository_relation_kind WorktreeTransitionTo = 3"
| "rank_repository_relation_kind IntegrationEventSource = 4"
| "rank_repository_relation_kind IntegrationEventDestination = 5"
| "rank_repository_relation_kind RepositoryDerivedFrom = 6"
| "rank_repository_relation_kind WorktreeRecreatedFrom = 7"

definition less_eq_repository_relation_kind :: "repository_relation_kind \<Rightarrow> repository_relation_kind \<Rightarrow> bool" where
  "less_eq_repository_relation_kind a b \<longleftrightarrow> rank_repository_relation_kind a \<le> rank_repository_relation_kind b"

definition less_repository_relation_kind :: "repository_relation_kind \<Rightarrow> repository_relation_kind \<Rightarrow> bool" where
  "less_repository_relation_kind a b \<longleftrightarrow> rank_repository_relation_kind a < rank_repository_relation_kind b"

instance
proof
  fix x y :: repository_relation_kind
  show "x \<le> y \<Longrightarrow> y \<le> x \<Longrightarrow> x = y"
    by (cases x; cases y) (simp_all add: less_eq_repository_relation_kind_def)
qed (auto simp: less_eq_repository_relation_kind_def less_repository_relation_kind_def)

end

datatype repository_relation_row =
  RepositoryRelationRow (rrr_kind: repository_relation_kind) (rrr_source_id: string) (rrr_target_id: string)

instantiation repository_relation_row :: linorder
begin

fun key_repository_relation_row :: "repository_relation_row \<Rightarrow> repository_relation_kind \<times> string \<times> string" where
  "key_repository_relation_row (RepositoryRelationRow k s t) = (k, s, t)"

definition less_eq_repository_relation_row :: "repository_relation_row \<Rightarrow> repository_relation_row \<Rightarrow> bool" where
  "less_eq_repository_relation_row a b \<longleftrightarrow> key_repository_relation_row a \<le> key_repository_relation_row b"

definition less_repository_relation_row :: "repository_relation_row \<Rightarrow> repository_relation_row \<Rightarrow> bool" where
  "less_repository_relation_row a b \<longleftrightarrow> key_repository_relation_row a < key_repository_relation_row b"

instance
proof
  fix x y :: repository_relation_row
  show "x \<le> y \<Longrightarrow> y \<le> x \<Longrightarrow> x = y"
    by (cases x; cases y) (auto simp: less_eq_repository_relation_row_def dest: antisym)
qed (auto simp: less_eq_repository_relation_row_def less_repository_relation_row_def)

end

record repository_current_view =
  rv_frontier :: u64
  rv_repositories :: "(repository_id, repository_instance) btree_map"
  rv_worktrees :: "(worktree_id, worktree_instance) btree_map"
  rv_snapshots :: "(worktree_snapshot_id, worktree_snapshot) btree_map"
  rv_transitions :: "(worktree_transition_id, worktree_transition) btree_map"
  rv_integrations :: "(integration_event_id, integration_event) btree_map"

definition worktrees_of :: "repository_current_view \<Rightarrow> repository_id \<Rightarrow> worktree_instance list" where
  "worktrees_of view repository_id =
    filter (\<lambda>w. wt_repository_instance_id w = repository_id) (btm_values (rv_worktrees view))"

definition known_admin_paths :: "repository_current_view \<Rightarrow> string list" where
  "known_admin_paths view = flatten_options (map (\<lambda>w.
     if wt_git_admin_path_history w = [] then None
     else Some (po_path (last (wt_git_admin_path_history w))))
     (filter (\<lambda>w. \<not> worktree_lifecycle_is_terminal (wt_lifecycle w)) (btm_values (rv_worktrees view))))"

definition repository_id_text :: "uuid_lib \<Rightarrow> repository_id \<Rightarrow> string" where
  "repository_id_text lib = uuid_id_to_string lib ''repo''"
definition worktree_id_text :: "uuid_lib \<Rightarrow> worktree_id \<Rightarrow> string" where
  "worktree_id_text lib = uuid_id_to_string lib ''wt''"
definition worktree_snapshot_id_text :: "uuid_lib \<Rightarrow> worktree_snapshot_id \<Rightarrow> string" where
  "worktree_snapshot_id_text lib = uuid_id_to_string lib ''wts''"
definition worktree_transition_id_text :: "uuid_lib \<Rightarrow> worktree_transition_id \<Rightarrow> string" where
  "worktree_transition_id_text lib = uuid_id_to_string lib ''wtt''"
definition integration_event_id_text :: "uuid_lib \<Rightarrow> integration_event_id \<Rightarrow> string" where
  "integration_event_id_text lib = uuid_id_to_string lib ''int''"

definition repository_row_id :: "uuid_lib \<Rightarrow> repository_id \<Rightarrow> string" where
  "repository_row_id lib i = ''object:work:repository:'' @ repository_id_text lib i"
definition worktree_row_id :: "uuid_lib \<Rightarrow> worktree_id \<Rightarrow> string" where
  "worktree_row_id lib i = ''object:work:worktree:'' @ worktree_id_text lib i"
definition snapshot_row_id :: "uuid_lib \<Rightarrow> worktree_snapshot_id \<Rightarrow> string" where
  "snapshot_row_id lib i = ''object:work:worktree_snapshot:'' @ worktree_snapshot_id_text lib i"
definition transition_row_id :: "uuid_lib \<Rightarrow> worktree_transition_id \<Rightarrow> string" where
  "transition_row_id lib i = ''object:work:worktree_transition:'' @ worktree_transition_id_text lib i"
definition integration_row_id :: "uuid_lib \<Rightarrow> integration_event_id \<Rightarrow> string" where
  "integration_row_id lib i = ''object:work:integration_event:'' @ integration_event_id_text lib i"

text \<open>
  The loops of \<open>build_repository_relation_rows\<close>: each yields the rows of one object or
  fails; \<open>concat_rows\<close> runs one over its objects, in order.
\<close>

definition concat_rows :: "('a \<Rightarrow> (store_error, repository_relation_row list) result) \<Rightarrow> 'a list
    \<Rightarrow> (store_error, repository_relation_row list) result" where
  "concat_rows f xs = and_then (try_map f xs) (\<lambda>yss. Ok (concat yss))"

definition repository_rows ::
  "uuid_lib \<Rightarrow> repository_id list \<Rightarrow> repository_instance \<Rightarrow> (store_error, repository_relation_row list) result" where
  "repository_rows lib repository_ids r =
    and_then (map_err (\<lambda>_. StoreInvalidInput) (repository_instance_validate r)) (\<lambda>_.
    case ri_derived_from r of
      None \<Rightarrow> Ok []
    | Some derived_from \<Rightarrow>
        if derived_from \<notin> set repository_ids then Err StoreInvalidInput
        else Ok [RepositoryRelationRow RepositoryDerivedFrom (repository_id_text lib (ri_repository_id r))
          (repository_id_text lib derived_from)])"

definition worktree_rows ::
  "uuid_lib \<Rightarrow> repository_id list \<Rightarrow> worktree_id list \<Rightarrow> worktree_instance
    \<Rightarrow> (store_error, repository_relation_row list) result" where
  "worktree_rows lib repository_ids worktree_ids w =
    and_then (map_err (\<lambda>_. StoreInvalidInput) (worktree_instance_validate w)) (\<lambda>_.
    if wt_repository_instance_id w \<notin> set repository_ids then Err StoreInvalidInput
    else and_then (case wt_recreated_from_worktree_instance_id w of
        None \<Rightarrow> Ok []
      | Some recreated_from \<Rightarrow>
          if recreated_from \<notin> set worktree_ids then Err StoreInvalidInput
          else Ok [RepositoryRelationRow WorktreeRecreatedFrom
            (worktree_id_text lib (wt_worktree_instance_id w)) (worktree_id_text lib recreated_from)])
      (\<lambda>rows. Ok (RepositoryRelationRow RepositoryToWorktree
          (repository_id_text lib (wt_repository_instance_id w))
          (worktree_id_text lib (wt_worktree_instance_id w)) # rows)))"

definition snapshot_rows ::
  "uuid_lib \<Rightarrow> worktree_id list \<Rightarrow> worktree_snapshot \<Rightarrow> (store_error, repository_relation_row list) result" where
  "snapshot_rows lib worktree_ids s =
    and_then (map_err (\<lambda>_. StoreInvalidInput) (worktree_snapshot_validate s)) (\<lambda>_.
    if wsn_worktree_instance_id s \<notin> set worktree_ids then Err StoreInvalidInput
    else Ok [RepositoryRelationRow WorktreeToSnapshot (worktree_id_text lib (wsn_worktree_instance_id s))
      (worktree_snapshot_id_text lib (wsn_worktree_snapshot_id s))])"

definition transition_rows ::
  "uuid_lib \<Rightarrow> worktree_id list \<Rightarrow> worktree_transition \<Rightarrow> (store_error, repository_relation_row list) result" where
  "transition_rows lib worktree_ids t =
    and_then (map_err (\<lambda>_. StoreInvalidInput) (worktree_transition_validate t)) (\<lambda>_.
    if wtr_from_worktree_instance_id t \<notin> set worktree_ids
       \<or> wtr_to_worktree_instance_id t \<notin> set worktree_ids
    then Err StoreInvalidInput
    else Ok [RepositoryRelationRow WorktreeTransitionFrom
        (worktree_transition_id_text lib (wtr_worktree_transition_id t))
        (worktree_id_text lib (wtr_from_worktree_instance_id t)),
      RepositoryRelationRow WorktreeTransitionTo
        (worktree_transition_id_text lib (wtr_worktree_transition_id t))
        (worktree_id_text lib (wtr_to_worktree_instance_id t))])"

definition integration_rows ::
  "uuid_lib \<Rightarrow> repository_id list \<Rightarrow> worktree_id list \<Rightarrow> worktree_snapshot_id list \<Rightarrow> integration_event
    \<Rightarrow> (store_error, repository_relation_row list) result" where
  "integration_rows lib repository_ids worktree_ids snapshot_ids e =
    and_then (map_err (\<lambda>_. StoreInvalidInput) (integration_event_validate e)) (\<lambda>_.
    if ie_repository_instance_id e \<notin> set repository_ids
       \<or> ie_source_worktree_instance_id e \<notin> set worktree_ids
       \<or> ie_destination_worktree_instance_id e \<notin> set worktree_ids
       \<or> ie_source_snapshot_id e \<notin> set snapshot_ids
       \<or> ie_destination_snapshot_id e \<notin> set snapshot_ids
    then Err StoreInvalidInput
    else Ok [RepositoryRelationRow IntegrationEventSource
        (integration_event_id_text lib (ie_integration_event_id e))
        (worktree_id_text lib (ie_source_worktree_instance_id e)),
      RepositoryRelationRow IntegrationEventDestination
        (integration_event_id_text lib (ie_integration_event_id e))
        (worktree_id_text lib (ie_destination_worktree_instance_id e))])"

definition build_repository_relation_rows ::
  "uuid_lib \<Rightarrow> repository_instance list \<Rightarrow> worktree_instance list \<Rightarrow> worktree_snapshot list
    \<Rightarrow> worktree_transition list \<Rightarrow> integration_event list
    \<Rightarrow> (store_error, repository_relation_row list) result" where
  "build_repository_relation_rows lib repositories worktrees snapshots transitions integrations =
    (let repository_ids = btree_set (map ri_repository_id repositories);
         worktree_ids = btree_set (map wt_worktree_instance_id worktrees);
         snapshot_ids = btree_set (map wsn_worktree_snapshot_id snapshots)
     in if length repository_ids \<noteq> length repositories \<or> length worktree_ids \<noteq> length worktrees
           \<or> length snapshot_ids \<noteq> length snapshots
        then Err StoreInvalidInput
        else and_then (concat_rows (repository_rows lib repository_ids) repositories) (\<lambda>a.
          and_then (concat_rows (worktree_rows lib repository_ids worktree_ids) worktrees) (\<lambda>b.
          and_then (concat_rows (snapshot_rows lib worktree_ids) snapshots) (\<lambda>c.
          and_then (concat_rows (transition_rows lib worktree_ids) transitions) (\<lambda>d.
          and_then (concat_rows (integration_rows lib repository_ids worktree_ids snapshot_ids) integrations) (\<lambda>e.
          Ok (btree_set (a @ b @ c @ d @ e))))))))"

definition relation_rows :: "uuid_lib \<Rightarrow> repository_current_view \<Rightarrow> (store_error, repository_relation_row list) result" where
  "relation_rows lib view = build_repository_relation_rows lib
    (btm_values (rv_repositories view)) (btm_values (rv_worktrees view)) (btm_values (rv_snapshots view))
    (btm_values (rv_transitions view)) (btm_values (rv_integrations view))"

section \<open>Each recording function keeps a keyed table\<close>

definition repository_accepts :: "repository_instance \<Rightarrow> repository_instance \<Rightarrow> bool" where
  "repository_accepts c v \<longleftrightarrow> ri_repository_revision v = ri_repository_revision c + 1
    \<and> ri_predecessor_revision v = Some (ri_repository_revision c)
    \<and> ri_derived_from v = ri_derived_from c \<and> ri_object_format v = ri_object_format c
    \<and> ri_common_dir_filesystem v = ri_common_dir_filesystem c
    \<and> prefix (ri_path_history c) (ri_path_history v)"

definition worktree_accepts :: "worktree_instance \<Rightarrow> worktree_instance \<Rightarrow> bool" where
  "worktree_accepts c v \<longleftrightarrow> wt_worktree_revision v = wt_worktree_revision c + 1
    \<and> wt_predecessor_revision v = Some (wt_worktree_revision c)
    \<and> wt_repository_instance_id v = wt_repository_instance_id c \<and> wt_kind v = wt_kind c
    \<and> wt_created_event_ref v = wt_created_event_ref c
    \<and> wt_recreated_from_worktree_instance_id v = wt_recreated_from_worktree_instance_id c
    \<and> lifecycle_successor_allowed (wt_lifecycle c) (wt_lifecycle v)
    \<and> (wt_terminal_event_ref c = None \<or> wt_terminal_event_ref v \<noteq> None)
    \<and> prefix (wt_path_history c) (wt_path_history v)
    \<and> prefix (wt_git_admin_path_history c) (wt_git_admin_path_history v)"

definition transition_accepts :: "worktree_transition \<Rightarrow> worktree_transition \<Rightarrow> bool" where
  "transition_accepts c v \<longleftrightarrow> wtr_transition_revision v = wtr_transition_revision c + 1
    \<and> wtr_predecessor_revision v = Some (wtr_transition_revision c)
    \<and> wtr_from_worktree_instance_id v = wtr_from_worktree_instance_id c
    \<and> wtr_to_worktree_instance_id v = wtr_to_worktree_instance_id c
    \<and> wtr_from_snapshot_id v = wtr_from_snapshot_id c \<and> wtr_to_snapshot_id v = wtr_to_snapshot_id c
    \<and> wtr_kind v = wtr_kind c \<and> wtr_correction_reason v \<noteq> None
    \<and> wtr_source_watermark c \<le> wtr_source_watermark v"

lemma prefix_of_iff: "prefix_of xs ys \<longleftrightarrow> prefix xs ys"
  by (auto simp: prefix_of_def dest: prefix_length_le)

interpretation repositories: keyed_replace replace_repository ri_repository_id
  "\<lambda>_. True" "\<lambda>v. ri_repository_revision v = 1" repository_accepts
  by (unfold_locales, simp add: replace_repository_def replace_shape_iff repository_accepts_def prefix_of_iff
      split: option.split prod.split, blast)

interpretation worktrees: keyed_replace replace_worktree wt_worktree_instance_id
  "\<lambda>_. True" "\<lambda>v. wt_worktree_revision v = 1" worktree_accepts
  by (unfold_locales, simp add: replace_worktree_def replace_shape_iff worktree_accepts_def prefix_of_iff
      split: option.split prod.split, blast)

interpretation snapshots: keyed_replace replace_snapshot wsn_worktree_snapshot_id
  "\<lambda>_. True" "\<lambda>v. True" "\<lambda>c v. False"
  by unfold_locales (auto simp: replace_snapshot_def is_some_and_def split: option.splits)

interpretation transitions: keyed_replace replace_transition wtr_worktree_transition_id
  "\<lambda>_. True" "\<lambda>v. wtr_transition_revision v = 1" transition_accepts
  by (unfold_locales, simp add: replace_transition_def replace_shape_iff transition_accepts_def not_less
      split: option.split prod.split, blast)

interpretation integrations: keyed_replace replace_integration ie_integration_event_id
  "\<lambda>_. True" "\<lambda>v. True" "\<lambda>c v. False"
  by unfold_locales (auto simp: replace_integration_def is_some_and_def split: option.splits)

section \<open>What a later revision keeps\<close>

definition repository_later :: "repository_instance \<Rightarrow> repository_instance \<Rightarrow> bool" where
  "repository_later c v \<longleftrightarrow> ri_repository_id v = ri_repository_id c
    \<and> unat (ri_repository_revision c) \<le> unat (ri_repository_revision v)
    \<and> ri_derived_from v = ri_derived_from c \<and> ri_object_format v = ri_object_format c
    \<and> ri_common_dir_filesystem v = ri_common_dir_filesystem c
    \<and> prefix (ri_path_history c) (ri_path_history v)"

definition worktree_later :: "worktree_instance \<Rightarrow> worktree_instance \<Rightarrow> bool" where
  "worktree_later c v \<longleftrightarrow> wt_worktree_instance_id v = wt_worktree_instance_id c
    \<and> unat (wt_worktree_revision c) \<le> unat (wt_worktree_revision v)
    \<and> wt_repository_instance_id v = wt_repository_instance_id c \<and> wt_kind v = wt_kind c
    \<and> wt_created_event_ref v = wt_created_event_ref c
    \<and> wt_recreated_from_worktree_instance_id v = wt_recreated_from_worktree_instance_id c
    \<and> lifecycle_successor_allowed (wt_lifecycle c) (wt_lifecycle v)
    \<and> prefix (wt_path_history c) (wt_path_history v)
    \<and> prefix (wt_git_admin_path_history c) (wt_git_admin_path_history v)"

definition transition_later :: "worktree_transition \<Rightarrow> worktree_transition \<Rightarrow> bool" where
  "transition_later c v \<longleftrightarrow> wtr_worktree_transition_id v = wtr_worktree_transition_id c
    \<and> unat (wtr_transition_revision c) \<le> unat (wtr_transition_revision v)
    \<and> transition_ends v = transition_ends c \<and> wtr_kind v = wtr_kind c
    \<and> wtr_source_watermark c \<le> wtr_source_watermark v"

definition tables_later :: "u64 repository_tables \<Rightarrow> u64 repository_tables \<Rightarrow> bool" where
  "tables_later t t' \<longleftrightarrow> advances repository_later (rt_repositories t) (rt_repositories t')
    \<and> advances worktree_later (rt_worktrees t) (rt_worktrees t')
    \<and> advances (=) (rt_snapshots t) (rt_snapshots t')
    \<and> advances transition_later (rt_transitions t) (rt_transitions t')
    \<and> advances (=) (rt_integrations t) (rt_integrations t')"

lemma later_refl:
  "repository_later r r" "worktree_later w w" "transition_later x x"
  by (simp_all add: repository_later_def worktree_later_def transition_later_def lifecycle_successor_refl)

lemma repository_later_trans: "repository_later a b \<Longrightarrow> repository_later b c \<Longrightarrow> repository_later a c"
  by (auto simp: repository_later_def intro: order.trans)

lemma worktree_later_trans: "worktree_later a b \<Longrightarrow> worktree_later b c \<Longrightarrow> worktree_later a c"
  by (auto simp: worktree_later_def intro: order.trans lifecycle_successor_trans)

lemma transition_later_trans: "transition_later a b \<Longrightarrow> transition_later b c \<Longrightarrow> transition_later a c"
  by (auto simp: transition_later_def intro: order.trans)

lemma tables_later_refl: "tables_later t t"
  by (simp add: tables_later_def advances_refl later_refl)

lemma tables_later_trans:
  assumes "tables_later t u" and "tables_later u v"
  shows "tables_later t v"
  unfolding tables_later_def
proof (intro conjI)
  have a: "advances repository_later (rt_repositories t) (rt_repositories u)" "advances repository_later (rt_repositories u) (rt_repositories v)"
    using assms by (simp_all add: tables_later_def)
  show "advances repository_later (rt_repositories t) (rt_repositories v)"
    by (rule advances_trans [OF _ a]) (rule repository_later_trans)
  have a: "advances worktree_later (rt_worktrees t) (rt_worktrees u)" "advances worktree_later (rt_worktrees u) (rt_worktrees v)"
    using assms by (simp_all add: tables_later_def)
  show "advances worktree_later (rt_worktrees t) (rt_worktrees v)"
    by (rule advances_trans [OF _ a]) (rule worktree_later_trans)
  have a: "advances (=) (rt_snapshots t) (rt_snapshots u)" "advances (=) (rt_snapshots u) (rt_snapshots v)"
    using assms by (simp_all add: tables_later_def)
  show "advances (=) (rt_snapshots t) (rt_snapshots v)"
    by (rule advances_trans [OF _ a]) (rule HOL.trans)
  have a: "advances transition_later (rt_transitions t) (rt_transitions u)" "advances transition_later (rt_transitions u) (rt_transitions v)"
    using assms by (simp_all add: tables_later_def)
  show "advances transition_later (rt_transitions t) (rt_transitions v)"
    by (rule advances_trans [OF _ a]) (rule transition_later_trans)
  have a: "advances (=) (rt_integrations t) (rt_integrations u)" "advances (=) (rt_integrations u) (rt_integrations v)"
    using assms by (simp_all add: tables_later_def)
  show "advances (=) (rt_integrations t) (rt_integrations v)"
    by (rule advances_trans [OF _ a]) (rule HOL.trans)
qed

lemma repository_accepts_later:
  assumes "repository_accepts c v" and "ri_repository_id c = ri_repository_id v"
    and "repository_instance_validate v = Ok ()"
  shows "repository_later c v"
proof -
  from assms(3) have "valid_revision_chain (ri_repository_revision v) (ri_predecessor_revision v)"
    by (simp add: repository_instance_validate_def split: if_splits)
  from valid_revision_chainD(2) [OF this] assms(1)
  have "unat (ri_repository_revision v) = Suc (unat (ri_repository_revision c))"
    by (simp add: repository_accepts_def)
  with assms(1,2) show ?thesis by (simp add: repository_accepts_def repository_later_def)
qed

lemma worktree_accepts_later:
  assumes "worktree_accepts c v" and "wt_worktree_instance_id c = wt_worktree_instance_id v"
    and "worktree_instance_validate v = Ok ()"
  shows "worktree_later c v"
proof -
  from assms(3) have "valid_revision_chain (wt_worktree_revision v) (wt_predecessor_revision v)"
    by (simp add: worktree_instance_validate_def split: if_splits)
  from valid_revision_chainD(2) [OF this] assms(1)
  have "unat (wt_worktree_revision v) = Suc (unat (wt_worktree_revision c))"
    by (simp add: worktree_accepts_def)
  with assms(1,2) show ?thesis by (simp add: worktree_accepts_def worktree_later_def)
qed

lemma transition_accepts_later:
  assumes "transition_accepts c v" and "wtr_worktree_transition_id c = wtr_worktree_transition_id v"
    and "worktree_transition_validate v = Ok ()"
  shows "transition_later c v"
proof -
  from assms(3) have "valid_revision_chain (wtr_transition_revision v) (wtr_predecessor_revision v)"
    by (simp add: worktree_transition_validate_def split: if_splits)
  from valid_revision_chainD(2) [OF this] assms(1)
  have "unat (wtr_transition_revision v) = Suc (unat (wtr_transition_revision c))"
    by (simp add: transition_accepts_def)
  with assms(1,2) show ?thesis by (simp add: transition_accepts_def transition_later_def transition_ends_def)
qed

section \<open>Well-formed tables\<close>

definition all_stored :: "('v \<Rightarrow> bool) \<Rightarrow> ('k, 'v \<times> u64) btree_map \<Rightarrow> bool" where
  "all_stored P m \<longleftrightarrow> (\<forall>k v s. btm_get m k = Some (v, s) \<longrightarrow> P v)"

lemma all_stored_insert: "all_stored P m \<Longrightarrow> P v \<Longrightarrow> all_stored P (btm_insert k (v, s) m)"
  by (simp add: all_stored_def)

definition tables_wf :: "u64 repository_tables \<Rightarrow> bool" where
  "tables_wf t \<longleftrightarrow>
    keyed ri_repository_id (rt_repositories t)
    \<and> all_stored (\<lambda>v. repository_instance_validate v = Ok ()) (rt_repositories t)
    \<and> keyed wt_worktree_instance_id (rt_worktrees t)
    \<and> all_stored (\<lambda>v. worktree_instance_validate v = Ok ()) (rt_worktrees t)
    \<and> keyed wsn_worktree_snapshot_id (rt_snapshots t)
    \<and> all_stored (\<lambda>v. worktree_snapshot_validate v = Ok ()) (rt_snapshots t)
    \<and> keyed wtr_worktree_transition_id (rt_transitions t)
    \<and> all_stored (\<lambda>v. worktree_transition_validate v = Ok ()) (rt_transitions t)
    \<and> keyed ie_integration_event_id (rt_integrations t)
    \<and> all_stored (\<lambda>v. integration_event_validate v = Ok ()) (rt_integrations t)"

lemma tables_wf_empty: "tables_wf empty_tables"
  by (simp add: tables_wf_def empty_tables_def all_stored_def)

lemma apply_payload_wf:
  assumes "apply_payload t (p, seq) = Ok t'" and "payload_validate p = Ok ()" and "tables_wf t"
  shows "tables_wf t'"
proof (cases p)
  case (RepositoryInstanceRecorded v)
  with assms show ?thesis
    by (auto simp: and_then_Inr_iff map_err_Inr_iff tables_wf_def repositories.replace_iff
        intro: keyed_insert all_stored_insert)
next
  case (WorktreeInstanceRecorded v)
  with assms show ?thesis
    by (auto simp: and_then_Inr_iff map_err_Inr_iff tables_wf_def worktrees.replace_iff
        intro: keyed_insert all_stored_insert)
next
  case (WorktreeSnapshotRecorded v)
  with assms show ?thesis
    by (auto simp: and_then_Inr_iff map_err_Inr_iff tables_wf_def snapshots.replace_iff
        intro: keyed_insert all_stored_insert)
next
  case (WorktreeTransitionRecorded v)
  with assms show ?thesis
    by (auto simp: and_then_Inr_iff map_err_Inr_iff tables_wf_def transitions.replace_iff
        intro: keyed_insert all_stored_insert)
next
  case (IntegrationEventRecorded v)
  with assms show ?thesis
    by (auto simp: and_then_Inr_iff map_err_Inr_iff tables_wf_def integrations.replace_iff
        intro: keyed_insert all_stored_insert)
next
  case OtherPayload
  with assms show ?thesis by simp
qed

lemma apply_payload_later:
  assumes "apply_payload t (p, seq) = Ok t'" and "payload_validate p = Ok ()" and "tables_wf t"
  shows "tables_later t t'"
proof (cases p)
  case (RepositoryInstanceRecorded v)
  with assms obtain m where m: "replace_repository (rt_repositories t) v seq = Ok m"
    and t': "t' = t\<lparr>rt_repositories := m\<rparr>" and v: "repository_instance_validate v = Ok ()"
    by (auto simp: and_then_Inr_iff map_err_Inr_iff)
  have "advances repository_later (rt_repositories t) m"
    by (rule repositories.replace_advances [OF m later_refl(1) repository_accepts_later])
      (use v assms(3) in \<open>auto simp: tables_wf_def\<close>)
  with t' show ?thesis by (simp add: tables_later_def advances_refl later_refl)
next
  case (WorktreeInstanceRecorded v)
  with assms obtain m where m: "replace_worktree (rt_worktrees t) v seq = Ok m"
    and t': "t' = t\<lparr>rt_worktrees := m\<rparr>" and v: "worktree_instance_validate v = Ok ()"
    by (auto simp: and_then_Inr_iff map_err_Inr_iff)
  have "advances worktree_later (rt_worktrees t) m"
    by (rule worktrees.replace_advances [OF m later_refl(2) worktree_accepts_later])
      (use v assms(3) in \<open>auto simp: tables_wf_def\<close>)
  with t' show ?thesis by (simp add: tables_later_def advances_refl later_refl)
next
  case (WorktreeSnapshotRecorded v)
  with assms obtain m where m: "replace_snapshot (rt_snapshots t) v seq = Ok m"
    and t': "t' = t\<lparr>rt_snapshots := m\<rparr>" by (auto simp: and_then_Inr_iff)
  have "advances (=) (rt_snapshots t) m"
    by (rule snapshots.replace_advances [OF m]) (use assms(3) in \<open>auto simp: tables_wf_def\<close>)
  with t' show ?thesis by (simp add: tables_later_def advances_refl later_refl)
next
  case (WorktreeTransitionRecorded v)
  with assms obtain m where m: "replace_transition (rt_transitions t) v seq = Ok m"
    and t': "t' = t\<lparr>rt_transitions := m\<rparr>" and v: "worktree_transition_validate v = Ok ()"
    by (auto simp: and_then_Inr_iff map_err_Inr_iff)
  have "advances transition_later (rt_transitions t) m"
    by (rule transitions.replace_advances [OF m later_refl(3) transition_accepts_later])
      (use v assms(3) in \<open>auto simp: tables_wf_def\<close>)
  with t' show ?thesis by (simp add: tables_later_def advances_refl later_refl)
next
  case (IntegrationEventRecorded v)
  with assms obtain m where m: "replace_integration (rt_integrations t) v seq = Ok m"
    and t': "t' = t\<lparr>rt_integrations := m\<rparr>" by (auto simp: and_then_Inr_iff)
  have "advances (=) (rt_integrations t) m"
    by (rule integrations.replace_advances [OF m]) (use assms(3) in \<open>auto simp: tables_wf_def\<close>)
  with t' show ?thesis by (simp add: tables_later_def advances_refl later_refl)
next
  case OtherPayload
  with assms show ?thesis by (simp add: tables_later_refl)
qed

section \<open>Referential closure\<close>

text \<open>What \<open>validate_repository_relations\<close> is meant to establish, as a property of the tables.\<close>

definition owns_snapshot :: "'m repository_tables \<Rightarrow> worktree_id \<Rightarrow> worktree_snapshot_id \<Rightarrow> bool" where
  "owns_snapshot t w s \<longleftrightarrow> (\<exists>sn m. btm_get (rt_snapshots t) s = Some (sn, m) \<and> wsn_worktree_instance_id sn = w)"

definition worktree_closed :: "'m repository_tables \<Rightarrow> worktree_instance \<Rightarrow> bool" where
  "worktree_closed t w \<longleftrightarrow> btm_contains_key (rt_repositories t) (wt_repository_instance_id w)
    \<and> (\<forall>s. wt_current_snapshot_id w = Some s \<longrightarrow> owns_snapshot t (wt_worktree_instance_id w) s)
    \<and> (\<forall>i. wt_recreated_from_worktree_instance_id w = Some i \<longrightarrow>
         (\<exists>p m. btm_get (rt_worktrees t) i = Some (p, m) \<and> worktree_lifecycle_is_terminal (wt_lifecycle p)))"

definition transition_closed :: "'m repository_tables \<Rightarrow> worktree_transition \<Rightarrow> bool" where
  "transition_closed t x \<longleftrightarrow> (\<forall>(w, s) \<in> set (transition_ends x).
    btm_contains_key (rt_worktrees t) w \<and> (\<forall>i. s = Some i \<longrightarrow> owns_snapshot t w i))"

definition integration_closed :: "'m repository_tables \<Rightarrow> integration_event \<Rightarrow> bool" where
  "integration_closed t e \<longleftrightarrow> btm_contains_key (rt_repositories t) (ie_repository_instance_id e)
    \<and> btm_contains_key (rt_worktrees t) (ie_source_worktree_instance_id e)
    \<and> btm_contains_key (rt_worktrees t) (ie_destination_worktree_instance_id e)
    \<and> owns_snapshot t (ie_source_worktree_instance_id e) (ie_source_snapshot_id e)
    \<and> owns_snapshot t (ie_destination_worktree_instance_id e) (ie_destination_snapshot_id e)"

definition tables_closed :: "u64 repository_tables \<Rightarrow> bool" where
  "tables_closed t \<longleftrightarrow>
    all_stored (\<lambda>r. \<forall>d. ri_derived_from r = Some d \<longrightarrow> btm_contains_key (rt_repositories t) d) (rt_repositories t)
    \<and> all_stored (worktree_closed t) (rt_worktrees t)
    \<and> all_stored (\<lambda>s. btm_contains_key (rt_worktrees t) (wsn_worktree_instance_id s)) (rt_snapshots t)
    \<and> all_stored (transition_closed t) (rt_transitions t)
    \<and> all_stored (integration_closed t) (rt_integrations t)"

lemma snapshot_belongs_iff [result_simps]: "snapshot_belongs t w s = Inr u \<longleftrightarrow> owns_snapshot t w s"
  by (auto simp: snapshot_belongs_def owns_snapshot_def and_then_Inr_iff ok_or_Inr_iff)

lemma relation_repository_iff [result_simps]:
  "relation_repository_ok t r = Inr u \<longleftrightarrow> (\<forall>d. ri_derived_from r = Some d \<longrightarrow> btm_contains_key (rt_repositories t) d)"
  by (auto simp: relation_repository_ok_def is_some_and_iff)

lemma relation_worktree_iff [result_simps]: "relation_worktree_ok t w = Inr u \<longleftrightarrow> worktree_closed t w"
  by (auto simp: relation_worktree_ok_def worktree_closed_def result_simps)

lemma relation_snapshot_iff [result_simps]:
  "relation_snapshot_ok t s = Inr u \<longleftrightarrow> btm_contains_key (rt_worktrees t) (wsn_worktree_instance_id s)"
  by (simp add: relation_snapshot_ok_def)

lemma relation_transition_iff [result_simps]: "relation_transition_ok t x = Inr u \<longleftrightarrow> transition_closed t x"
  by (auto simp: relation_transition_ok_def transition_closed_def result_simps)

lemma relation_integration_iff [result_simps]: "relation_integration_ok t e = Inr u \<longleftrightarrow> integration_closed t e"
  by (auto simp: relation_integration_ok_def integration_closed_def result_simps)

lemma for_each_values_iff:
  assumes "btm_sorted m"
  shows "for_each (\<lambda>(v, _). f v) (btm_values m) = Inr u \<longleftrightarrow> all_stored (\<lambda>v. f v = Inr ()) m"
proof -
  have "(\<forall>x \<in> set (btm_values m). P x) \<longleftrightarrow> (\<forall>k v s. btm_get m k = Some (v, s) \<longrightarrow> P (v, s))" for P
    using btm_values_iff [OF assms] by (metis surj_pair)
  then show ?thesis by (simp add: for_each_Inr_iff all_stored_def)
qed

lemma validate_repository_relations_iff:
  assumes "tables_wf t"
  shows "validate_repository_relations t = Ok () \<longleftrightarrow> tables_closed t"
  using assms unfolding validate_repository_relations_def tables_closed_def
  by (simp add: and_then_Inr_iff and_then_unit for_each_values_iff tables_wf_def keyed_def
      relation_repository_iff relation_worktree_iff relation_snapshot_iff relation_transition_iff
      relation_integration_iff)

section \<open>Runs of admitted commands\<close>

definition admitted_rows :: "u64 \<Rightarrow> nat \<Rightarrow> journal_payload list \<Rightarrow> (journal_payload \<times> u64) list" where
  "admitted_rows first_seq offset ps = map (\<lambda>(i, p). (p, first_seq + of_nat i)) (enumerate offset ps)"

lemma admit_events_replay:
  assumes "unat first_seq + offset + length ps \<le> 2 ^ 64"
  shows "admit_events t first_seq offset ps = Ok t' \<longleftrightarrow> replay apply_payload t (admitted_rows first_seq offset ps) = Ok t'"
  using assms
proof (induction ps arbitrary: t offset)
  case (Cons p ps)
  then have small: "offset < 2 ^ 64" "unat first_seq + offset < 2 ^ 64" by auto
  then have "checked_add first_seq (of_nat offset) = Some (first_seq + of_nat offset)"
    by (simp add: checked_add_def unat_of_nat)
  with Cons small show ?case
    by (simp add: admitted_rows_def and_then_Inr_iff map_err_Inr_iff ok_or_Inr_iff)
qed (simp add: admitted_rows_def)

lemma admit_events_sub:
  assumes "admit_events t first_seq offset ps = Ok t'"
  shows "\<exists>rows. map fst rows = ps \<and> replay apply_payload t rows = Ok t'"
  using assms
proof (induction ps arbitrary: t offset)
  case (Cons p ps)
  then obtain seq u where "apply_payload t (p, seq) = Ok u" "admit_events u first_seq (Suc offset) ps = Ok t'"
    by (auto simp: and_then_Inr_iff map_err_Inr_iff ok_or_Inr_iff split: if_splits)
  moreover from Cons.IH [OF this(2)] obtain rows where "map fst rows = ps" "replay apply_payload u rows = Ok t'"
    by blast
  ultimately have "map fst ((p, seq) # rows) = p # ps \<and> replay apply_payload t ((p, seq) # rows) = Ok t'"
    by simp
  then show ?case by (rule exI [of _ "(p, seq) # rows"])
qed simp

lemma replay_rows_keeps:
  assumes "replay apply_payload t rows = Ok t'" and "for_each payload_validate (map fst rows) = Ok ()"
    and "tables_wf t"
  shows "tables_wf t' \<and> tables_later t t'"
proof (rule replay_invariant [OF assms(1), where P = "\<lambda>u. tables_wf u \<and> tables_later t u"])
  show "tables_wf t \<and> tables_later t t" using assms(3) tables_later_refl by simp
next
  fix u x u'
  assume x: "x \<in> set rows" and step: "apply_payload u x = Ok u'" and inv: "tables_wf u \<and> tables_later t u"
  obtain p seq where p: "x = (p, seq)" by (cases x)
  with x assms(2) have "payload_validate p = Ok ()" by (force simp: for_each_Inr_iff)
  with step inv p show "tables_wf u' \<and> tables_later t u'"
    using apply_payload_wf apply_payload_later tables_later_trans by blast
qed

lemma admit_commandE:
  assumes "admit_command t first_seq ps = Ok t'"
  obtains "for_each payload_validate ps = Ok ()" and "validate_repository_payloads ps = Ok ()"
    and "admit_events t first_seq 0 ps = Ok t'" and "validate_repository_relations t' = Ok ()"
  using assms by (auto simp: admit_command_def and_then_Inr_iff and_then_unit map_err_Inr_iff)

lemma admit_command_keeps:
  assumes "admit_command t first_seq ps = Ok t'" and "tables_wf t"
  shows "tables_wf t'" and "tables_later t t'" and "tables_closed t'"
proof -
  note a = admit_commandE [OF assms(1)]
  obtain rows where rows: "map fst rows = ps" "replay apply_payload t rows = Ok t'"
    using a admit_events_sub by metis
  with a replay_rows_keeps [OF rows(2) _ assms(2)] show wf: "tables_wf t'" and "tables_later t t'" by metis+
  from a validate_repository_relations_iff [OF wf] show "tables_closed t'" by metis
qed

fun admit_all :: "u64 repository_tables \<Rightarrow> (u64 \<times> journal_payload list) list \<Rightarrow> (store_error, u64 repository_tables) result" where
  "admit_all t commands = replay (\<lambda>t (first_seq, ps). admit_command t first_seq ps) t commands"

lemma tables_closed_empty: "tables_closed empty_tables"
  by (simp add: tables_closed_def empty_tables_def all_stored_def)

lemma admit_all_keeps:
  assumes "admit_all t commands = Ok t'" and "tables_wf t" and "tables_closed t"
  shows "tables_wf t' \<and> tables_closed t' \<and> tables_later t t'"
proof (rule replay_invariant [OF assms(1) [unfolded admit_all.simps],
      where P = "\<lambda>u. tables_wf u \<and> tables_closed u \<and> tables_later t u"])
  show "tables_wf t \<and> tables_closed t \<and> tables_later t t" using assms(2,3) tables_later_refl by simp
next
  fix u x u'
  assume step: "(case x of (first_seq, ps) \<Rightarrow> admit_command u first_seq ps) = Ok u'"
    and inv: "tables_wf u \<and> tables_closed u \<and> tables_later t u"
  obtain first_seq ps where "x = (first_seq, ps)" by (cases x)
  with step have adm: "admit_command u first_seq ps = Ok u'" by simp
  from admit_command_keeps [OF this] inv show "tables_wf u' \<and> tables_closed u' \<and> tables_later t u'"
    using tables_later_trans by blast
qed

section \<open>The relation rows of an admitted state\<close>

definition view_of_tables :: "u64 \<Rightarrow> u64 repository_tables \<Rightarrow> repository_current_view" where
  "view_of_tables frontier t = \<lparr>rv_frontier = frontier,
    rv_repositories = map (\<lambda>(k, v, s). (k, v)) (rt_repositories t),
    rv_worktrees = map (\<lambda>(k, v, s). (k, v)) (rt_worktrees t),
    rv_snapshots = map (\<lambda>(k, v, s). (k, v)) (rt_snapshots t),
    rv_transitions = map (\<lambda>(k, v, s). (k, v)) (rt_transitions t),
    rv_integrations = map (\<lambda>(k, v, s). (k, v)) (rt_integrations t)\<rparr>"

definition repository_edges :: "uuid_lib \<Rightarrow> repository_instance \<Rightarrow> repository_relation_row list" where
  "repository_edges lib r = (case ri_derived_from r of None \<Rightarrow> []
    | Some d \<Rightarrow> [RepositoryRelationRow RepositoryDerivedFrom (repository_id_text lib (ri_repository_id r))
        (repository_id_text lib d)])"

definition worktree_edges :: "uuid_lib \<Rightarrow> worktree_instance \<Rightarrow> repository_relation_row list" where
  "worktree_edges lib w =
    RepositoryRelationRow RepositoryToWorktree (repository_id_text lib (wt_repository_instance_id w))
      (worktree_id_text lib (wt_worktree_instance_id w))
    # (case wt_recreated_from_worktree_instance_id w of None \<Rightarrow> []
      | Some p \<Rightarrow> [RepositoryRelationRow WorktreeRecreatedFrom
          (worktree_id_text lib (wt_worktree_instance_id w)) (worktree_id_text lib p)])"

definition snapshot_edges :: "uuid_lib \<Rightarrow> worktree_snapshot \<Rightarrow> repository_relation_row list" where
  "snapshot_edges lib s = [RepositoryRelationRow WorktreeToSnapshot
    (worktree_id_text lib (wsn_worktree_instance_id s)) (worktree_snapshot_id_text lib (wsn_worktree_snapshot_id s))]"

definition transition_edges :: "uuid_lib \<Rightarrow> worktree_transition \<Rightarrow> repository_relation_row list" where
  "transition_edges lib t =
    [RepositoryRelationRow WorktreeTransitionFrom (worktree_transition_id_text lib (wtr_worktree_transition_id t))
        (worktree_id_text lib (wtr_from_worktree_instance_id t)),
     RepositoryRelationRow WorktreeTransitionTo (worktree_transition_id_text lib (wtr_worktree_transition_id t))
        (worktree_id_text lib (wtr_to_worktree_instance_id t))]"

definition integration_edges :: "uuid_lib \<Rightarrow> integration_event \<Rightarrow> repository_relation_row list" where
  "integration_edges lib e =
    [RepositoryRelationRow IntegrationEventSource (integration_event_id_text lib (ie_integration_event_id e))
        (worktree_id_text lib (ie_source_worktree_instance_id e)),
     RepositoryRelationRow IntegrationEventDestination (integration_event_id_text lib (ie_integration_event_id e))
        (worktree_id_text lib (ie_destination_worktree_instance_id e))]"

lemma concat_rows_Ok:
  assumes "\<And>x. x \<in> set xs \<Longrightarrow> f x = Ok (g x)"
  shows "concat_rows f xs = Ok (concat (map g xs))"
  by (simp add: concat_rows_def try_map_Ok [OF assms])

text \<open>The stored values without their sequence numbers, in key order.\<close>

definition stored :: "('k, 'v \<times> 'm) btree_map \<Rightarrow> 'v list" where
  "stored m = map fst (btm_values m)"

lemma values_strip: "btm_values (map (\<lambda>(k, v, s). (k, v)) m) = stored m"
  by (induction m) (auto simp: btm_values_def stored_def)

lemma stored_all:
  assumes "keyed id_of m" and "all_stored P m" and "v \<in> set (stored m)"
  shows "P v"
proof -
  from assms(3) obtain s where "(v, s) \<in> set (btm_values m)" by (auto simp: stored_def)
  then have "btm_get m (id_of v) = Some (v, s)" by (simp add: keyed_values [OF assms(1)])
  with assms(2) show ?thesis by (auto simp: all_stored_def)
qed

lemma stored_ids:
  assumes "keyed id_of m"
  shows "x \<in> set (btree_set (map id_of (stored m))) \<longleftrightarrow> btm_contains_key m x"
    and "length (btree_set (map id_of (stored m))) = length (stored m)"
proof -
  have ids: "map id_of (stored m) = map fst m"
    using keyed_ids [OF assms] by (simp add: stored_def comp_def)
  then have "distinct (map id_of (stored m))"
    using assms by (simp add: keyed_def btm_sorted_distinct)
  then show "length (btree_set (map id_of (stored m))) = length (stored m)"
    by (metis length_map length_btree_set_eq_iff)
  show "x \<in> set (btree_set (map id_of (stored m))) \<longleftrightarrow> btm_contains_key m x"
    by (auto simp: ids btm_contains_key_def btm_get_def map_of_eq_None_iff)
qed

lemma owned_contains: "owns_snapshot t j i \<Longrightarrow> btm_contains_key (rt_snapshots t) i"
  by (auto simp: owns_snapshot_def btm_contains_key_def)

lemmas tables_wfD = tables_wf_def [THEN iffD1]
lemmas tables_closedD = tables_closed_def [THEN iffD1]

lemma repository_rows_total:
  assumes "tables_wf t" and "tables_closed t" and "v \<in> set (stored (rt_repositories t))"
  shows "repository_rows lib (btree_set (map ri_repository_id (stored (rt_repositories t)))) v
    = Ok (repository_edges lib v)"
proof -
  note wf = tables_wfD [OF assms(1)] and cl = tables_closedD [OF assms(2)]
  from wf stored_all [OF _ _ assms(3)] have "repository_instance_validate v = Ok ()" by blast
  moreover have "btm_contains_key (rt_repositories t) d" if "ri_derived_from v = Some d" for d
    using that wf cl stored_all [OF _ _ assms(3)] by blast
  ultimately show ?thesis using wf
    by (auto simp: repository_rows_def repository_edges_def stored_ids(1) simp del: set_btree_set split: option.split)
qed

lemma worktree_rows_total:
  assumes "tables_wf t" and "tables_closed t" and "v \<in> set (stored (rt_worktrees t))"
  shows "worktree_rows lib (btree_set (map ri_repository_id (stored (rt_repositories t))))
      (btree_set (map wt_worktree_instance_id (stored (rt_worktrees t)))) v = Ok (worktree_edges lib v)"
proof -
  note wf = tables_wfD [OF assms(1)] and cl = tables_closedD [OF assms(2)]
  from wf stored_all [OF _ _ assms(3)] have "worktree_instance_validate v = Ok ()" by blast
  moreover from wf cl stored_all [OF _ _ assms(3)] have "worktree_closed t v" by blast
  ultimately show ?thesis using wf
    by (auto simp: worktree_rows_def worktree_edges_def worktree_closed_def stored_ids(1) btm_contains_key_def
        simp del: set_btree_set split: option.split)
qed

lemma snapshot_rows_total:
  assumes "tables_wf t" and "tables_closed t" and "v \<in> set (stored (rt_snapshots t))"
  shows "snapshot_rows lib (btree_set (map wt_worktree_instance_id (stored (rt_worktrees t)))) v
    = Ok (snapshot_edges lib v)"
proof -
  note wf = tables_wfD [OF assms(1)] and cl = tables_closedD [OF assms(2)]
  from wf stored_all [OF _ _ assms(3)] have "worktree_snapshot_validate v = Ok ()" by blast
  moreover have "btm_contains_key (rt_worktrees t) (wsn_worktree_instance_id v)"
    using wf cl stored_all [OF _ _ assms(3)] by blast
  ultimately show ?thesis using wf
    by (simp add: snapshot_rows_def snapshot_edges_def stored_ids(1) del: set_btree_set)
qed

lemma transition_rows_total:
  assumes "tables_wf t" and "tables_closed t" and "v \<in> set (stored (rt_transitions t))"
  shows "transition_rows lib (btree_set (map wt_worktree_instance_id (stored (rt_worktrees t)))) v
    = Ok (transition_edges lib v)"
proof -
  note wf = tables_wfD [OF assms(1)] and cl = tables_closedD [OF assms(2)]
  from wf stored_all [OF _ _ assms(3)] have "worktree_transition_validate v = Ok ()" by blast
  moreover from wf cl stored_all [OF _ _ assms(3)] have "transition_closed t v" by blast
  ultimately show ?thesis using wf
    by (simp add: transition_rows_def transition_edges_def transition_closed_def transition_ends_def
        stored_ids(1) del: set_btree_set)
qed

lemma integration_rows_total:
  assumes "tables_wf t" and "tables_closed t" and "v \<in> set (stored (rt_integrations t))"
  shows "integration_rows lib (btree_set (map ri_repository_id (stored (rt_repositories t))))
      (btree_set (map wt_worktree_instance_id (stored (rt_worktrees t))))
      (btree_set (map wsn_worktree_snapshot_id (stored (rt_snapshots t)))) v = Ok (integration_edges lib v)"
proof -
  note wf = tables_wfD [OF assms(1)] and cl = tables_closedD [OF assms(2)]
  from wf stored_all [OF _ _ assms(3)] have "integration_event_validate v = Ok ()" by blast
  moreover from wf cl stored_all [OF _ _ assms(3)] have "integration_closed t v" by blast
  ultimately show ?thesis using wf
    by (simp add: integration_rows_def integration_edges_def integration_closed_def stored_ids(1)
        del: set_btree_set, blast intro: owned_contains)
qed

lemma relation_rows_total:
  assumes "tables_wf t" and "tables_closed t"
  shows "relation_rows lib (view_of_tables frontier t) = Ok (btree_set (
      concat (map (repository_edges lib) (stored (rt_repositories t)))
    @ concat (map (worktree_edges lib) (stored (rt_worktrees t)))
    @ concat (map (snapshot_edges lib) (stored (rt_snapshots t)))
    @ concat (map (transition_edges lib) (stored (rt_transitions t)))
    @ concat (map (integration_edges lib) (stored (rt_integrations t)))))"
  using tables_wfD [OF assms(1)]
  by (simp add: relation_rows_def view_of_tables_def build_repository_relation_rows_def Let_def values_strip
      stored_ids(2) concat_rows_Ok [OF repository_rows_total [OF assms]]
      concat_rows_Ok [OF worktree_rows_total [OF assms]] concat_rows_Ok [OF snapshot_rows_total [OF assms]]
      concat_rows_Ok [OF transition_rows_total [OF assms]] concat_rows_Ok [OF integration_rows_total [OF assms]]
      del: map_map set_btree_set length_btree_set_eq_iff)

section \<open>Sample objects\<close>

definition sample_path :: "string \<Rightarrow> path_observation" where
  "sample_path p = \<lparr>po_path = p, po_first_observed_at_us = 1, po_last_observed_at_us = 1,
    po_evidence_refs = [''e'']\<rparr>"

definition sample_repository :: repository_instance where
  "sample_repository = \<lparr>ri_repository_id = 1, ri_repository_revision = 1, ri_predecessor_revision = None,
    ri_current_path = ''/r'', ri_path_history = [sample_path ''/r''], ri_git_common_dir_path = Some ''/r/.git'',
    ri_common_dir_filesystem = Some \<lparr>fi_device = 1, fi_inode = 2\<rparr>, ri_object_format = Some GitSha1,
    ri_remote_fingerprints = [], ri_derived_from = None, ri_identity_evidence_refs = [''e''],
    ri_recorded_at_us = 1, ri_user_disabled = False, ri_capability_state = None\<rparr>"

definition sample_worktree :: worktree_instance where
  "sample_worktree = \<lparr>wt_worktree_instance_id = 2, wt_worktree_revision = 1, wt_predecessor_revision = None,
    wt_repository_instance_id = 1, wt_kind = WorktreeLinked, wt_lifecycle = LifecycleActive,
    wt_current_path = Some ''/w'', wt_path_history = [sample_path ''/w''],
    wt_git_admin_path_history = [sample_path ''/a''], wt_git_registration_state = RegistrationRegistered,
    wt_current_snapshot_id = Some 3, wt_created_event_ref = ''c'', wt_terminal_event_ref = None,
    wt_recreated_from_worktree_instance_id = None, wt_recorded_at_us = 1\<rparr>"

definition sample_removed :: worktree_instance where
  "sample_removed = sample_worktree\<lparr>wt_worktree_revision := 2, wt_predecessor_revision := Some 1,
    wt_lifecycle := LifecycleRemoved, wt_current_path := None, wt_terminal_event_ref := Some ''x''\<rparr>"

definition sample_recreated :: worktree_instance where
  "sample_recreated = sample_worktree\<lparr>wt_worktree_instance_id := 4, wt_current_snapshot_id := None,
    wt_recreated_from_worktree_instance_id := Some 2\<rparr>"

definition sample_snapshot :: worktree_snapshot where
  "sample_snapshot = \<lparr>wsn_worktree_snapshot_id = 3, wsn_worktree_instance_id = 2, wsn_head_oid = None,
    wsn_tree_oid = None, wsn_branch_ref = None, wsn_detached_head = False, wsn_tracked_diff_digest = None,
    wsn_index_digest = None, wsn_untracked_manifest_digest = None, wsn_relevant_anchor_digests = [],
    wsn_dependency_fingerprints = [], wsn_toolchain_fingerprint = None, wsn_git_operation = GitOpNone,
    wsn_captured_at_us = 1, wsn_evidence_refs = [''e''], wsn_capture_status = SnapshotUnavailable,
    wsn_omission_reasons = [\<lparr>so_field = FieldHeadOid, so_reason = ProbeTimeout\<rparr>]\<rparr>"

definition sample_recreation :: worktree_transition where
  "sample_recreation = \<lparr>wtr_worktree_transition_id = 5, wtr_transition_revision = 1,
    wtr_predecessor_revision = None, wtr_from_worktree_instance_id = 2, wtr_from_snapshot_id = Some 3,
    wtr_to_worktree_instance_id = 4, wtr_to_snapshot_id = None, wtr_kind = TransitionWorktreeRecreated,
    wtr_lineage_assessment = LineageProven, wtr_correction_reason = None, wtr_source_watermark = 1,
    wtr_evidence_refs = [''e'']\<rparr>"

definition sample_creation :: "journal_payload list" where
  "sample_creation = [RepositoryInstanceRecorded sample_repository, WorktreeInstanceRecorded sample_worktree,
    OtherPayload, WorktreeSnapshotRecorded sample_snapshot]"

definition sample_replacement :: "journal_payload list" where
  "sample_replacement = [WorktreeInstanceRecorded sample_removed, WorktreeInstanceRecorded sample_recreated,
    WorktreeTransitionRecorded sample_recreation]"

definition sample_created_tables :: "u64 repository_tables" where
  "sample_created_tables = \<lparr>rt_repositories = [(1, sample_repository, 10)], rt_worktrees = [(2, sample_worktree, 11)],
    rt_snapshots = [(3, sample_snapshot, 13)], rt_transitions = [], rt_integrations = []\<rparr>"

definition sample_replaced_tables :: "u64 repository_tables" where
  "sample_replaced_tables = sample_created_tables\<lparr>
    rt_worktrees := [(2, sample_removed, 14), (4, sample_recreated, 15)],
    rt_transitions := [(5, sample_recreation, 16)]\<rparr>"

lemmas sample_objects = sample_repository_def sample_worktree_def sample_removed_def sample_recreated_def
  sample_snapshot_def sample_recreation_def

lemma sample_texts:
  "path_observation_validate (sample_path ''/r'') = Ok ()" "path_observation_validate (sample_path ''/w'') = Ok ()"
  "path_observation_validate (sample_path ''/a'') = Ok ()" "valid_locator ''/r'' = Ok ()" "valid_locator ''/w'' = Ok ()"
  "valid_locator ''/r/.git'' = Ok ()" "repo_valid_ref ''e'' = Ok ()" "repo_valid_ref ''c'' = Ok ()"
  "repo_valid_ref ''x'' = Ok ()" "po_path (sample_path p) = p" "po_first_observed_at_us (sample_path p) = 1"
  by (simp_all add: path_observation_validate_def sample_path_def valid_locator_def repo_valid_ref_def
      nul_or_control_def is_ascii_control_def MAX_LOCATOR_BYTES_def MAX_REF_BYTES_def repo_require_unique_def btree_set_def)

lemma sample_objects_valid:
  "repository_instance_validate sample_repository = Ok ()"
  "worktree_instance_validate sample_worktree = Ok ()"
  "worktree_instance_validate sample_removed = Ok ()"
  "worktree_instance_validate sample_recreated = Ok ()"
  "worktree_snapshot_validate sample_snapshot = Ok ()"
  "worktree_transition_validate sample_recreation = Ok ()"
  by (simp_all add: repository_instance_validate_def worktree_instance_validate_def worktree_snapshot_validate_def
      worktree_transition_validate_def sample_objects valid_revision_chain_def checked_sub_def valid_path_history_def
      sample_texts if_some_def repo_require_unique_def worktree_lifecycle_shape_def snapshot_capture_shape_def
      flatten_options_def transition_kind_valid_def transition_snapshot_required_def ok_or_def btree_set_def)

lemma sample_closures:
  "validate_repository_payloads sample_creation = Ok ()"
  "validate_repository_payloads sample_replacement = Ok ()"
  "validate_repository_relations sample_created_tables = Ok ()"
  "validate_repository_relations sample_replaced_tables = Ok ()"
  by (simp_all add: validate_repository_payloads_def validate_repository_relations_def sample_creation_def
      sample_replacement_def sample_created_tables_def sample_replaced_tables_def sample_objects empty_tables_def
      insert_unique_def btm_values_def command_worktree_ok_def command_snapshot_ok_def command_transition_ok_def
      foreign_snapshot_def btm_get_def transition_ends_def relation_repository_ok_def relation_worktree_ok_def
      relation_snapshot_ok_def relation_transition_ok_def snapshot_belongs_def ok_or_def if_some_def
      btm_contains_key_def worktree_lifecycle_is_terminal_def)

lemma sample_admits:
  "admit_command empty_tables 10 sample_creation = Ok sample_created_tables"
  "admit_command sample_created_tables 14 sample_replacement = Ok sample_replaced_tables"
proof -
  have seqs: "checked_add (10 :: u64) 0 = Some 10" "checked_add (10 :: u64) 1 = Some 11"
    "checked_add (10 :: u64) 2 = Some 12" "checked_add (10 :: u64) 3 = Some 13"
    "checked_add (14 :: u64) 0 = Some 14" "checked_add (14 :: u64) 1 = Some 15" "checked_add (14 :: u64) 2 = Some 16"
    by (simp_all add: checked_add_def)
  show "admit_command empty_tables 10 sample_creation = Ok sample_created_tables"
    using sample_closures(1,3) sample_objects_valid
    by (simp add: admit_command_def sample_creation_def sample_created_tables_def seqs ok_or_def empty_tables_def
      replace_repository_def replace_worktree_def replace_snapshot_def sample_objects)
  show "admit_command sample_created_tables 14 sample_replacement = Ok sample_replaced_tables"
    using sample_closures(2,4) sample_objects_valid
    by (simp add: admit_command_def sample_replacement_def sample_created_tables_def sample_replaced_tables_def seqs
      ok_or_def replace_transition_def replace_worktree_def btm_get_def sample_objects prefix_of_def)
qed

lemma sample_admissions:
  "admit_all empty_tables [(10, sample_creation)] = Ok sample_created_tables"
  "admit_all sample_created_tables [(14, sample_replacement)] = Ok sample_replaced_tables"
  by (simp_all add: sample_admits)

section \<open>Properties of the repository tables\<close>

text \<open>
  C9. In every state reached from the empty store by admitted commands, each repository,
  worktree, snapshot, transition and integration event is stored under its own identifier
  and is valid, and every reference resolves: derived and owning repositories exist, a current
  snapshot exists and belongs to its worktree, a worktree names as the one it replaces only a
  removed or pruned one, and both ends of transitions and integrations exist with snapshots
  of their own worktrees.
\<close>

theorem repository_tables_sound:
  assumes "admit_all empty_tables commands = Ok t"
  shows "tables_wf t \<and> tables_closed t"
  using admit_all_keeps [OF assms tables_wf_empty tables_closed_empty] by simp

theorem repository_tables_sound_witness:
  "tables_wf sample_created_tables \<and> tables_closed sample_created_tables"
  by (rule repository_tables_sound [OF sample_admissions(1)])

text \<open>
  C13. A worktree never disappears and never changes identity: whatever commands are admitted
  later, its identifier still holds a worktree of the same repository, kind and origin, with a
  revision that is not smaller and path histories that extend the old ones; once removed or
  pruned it stays so, without a current path.
\<close>

theorem worktree_never_revives:
  assumes "admit_all empty_tables before = Ok t" and "admit_all t after = Ok t'"
    and "btm_get (rt_worktrees t) i = Some (w, s)"
  shows "\<exists>w' s'. btm_get (rt_worktrees t') i = Some (w', s') \<and> worktree_later w w'
    \<and> (worktree_lifecycle_is_terminal (wt_lifecycle w)
        \<longrightarrow> wt_lifecycle w' = wt_lifecycle w \<and> wt_current_path w' = None)"
proof -
  have inv: "tables_wf t" "tables_closed t"
    using admit_all_keeps [OF assms(1) tables_wf_empty tables_closed_empty] by auto
  have "tables_wf t' \<and> tables_later t t'" using admit_all_keeps [OF assms(2) inv] by simp
  then have wf: "tables_wf t'" and "advances worktree_later (rt_worktrees t) (rt_worktrees t')"
    by (simp_all add: tables_later_def)
  from advancesD [OF this(2) assms(3)] obtain w' s'
    where w': "btm_get (rt_worktrees t') i = Some (w', s')" "worktree_later w w'" .
  have valid: "worktree_instance_validate w' = Ok ()"
    using tables_wfD [OF wf] w'(1) unfolding all_stored_def by blast
  have "wt_lifecycle w' = wt_lifecycle w \<and> wt_current_path w' = None"
    if dead: "worktree_lifecycle_is_terminal (wt_lifecycle w)"
  proof
    from w'(2) dead show same: "wt_lifecycle w' = wt_lifecycle w"
      using lifecycle_successor_terminal by (simp add: worktree_later_def)
    from valid have "worktree_lifecycle_shape w' = Ok ()"
      by (auto simp: worktree_instance_validate_def and_then_Inr_iff split: if_splits)
    with same dead show "wt_current_path w' = None"
      by (auto simp: worktree_lifecycle_shape_def worktree_lifecycle_is_terminal_def split: if_splits)
  qed
  with w' show ?thesis by blast
qed

theorem worktree_never_revives_witness:
  "\<exists>w' s'. btm_get (rt_worktrees sample_replaced_tables) 2 = Some (w', s') \<and> worktree_later sample_worktree w'
    \<and> (worktree_lifecycle_is_terminal (wt_lifecycle sample_worktree)
        \<longrightarrow> wt_lifecycle w' = wt_lifecycle sample_worktree \<and> wt_current_path w' = None)"
  by (rule worktree_never_revives [OF sample_admissions, of 2 sample_worktree 11])
    (simp add: sample_created_tables_def btm_get_def)

text \<open>
  Evidence is immutable. Snapshots and integration events, once admitted, are never
  changed; a transition is only ever corrected, keeping its kind, its two ends and a source
  watermark that does not go back; a repository keeps its identity and path history.
\<close>

theorem repository_evidence_permanent:
  assumes "admit_all empty_tables before = Ok t" and "admit_all t after = Ok t'"
  shows "advances (=) (rt_snapshots t) (rt_snapshots t')
    \<and> advances (=) (rt_integrations t) (rt_integrations t')
    \<and> advances transition_later (rt_transitions t) (rt_transitions t')
    \<and> advances repository_later (rt_repositories t) (rt_repositories t')"
proof -
  have "tables_wf t" "tables_closed t"
    using admit_all_keeps [OF assms(1) tables_wf_empty tables_closed_empty] by auto
  from admit_all_keeps [OF assms(2) this] show ?thesis by (simp add: tables_later_def)
qed

theorem repository_evidence_permanent_witness:
  "advances (=) (rt_snapshots sample_created_tables) (rt_snapshots sample_replaced_tables)
    \<and> advances (=) (rt_integrations sample_created_tables) (rt_integrations sample_replaced_tables)
    \<and> advances transition_later (rt_transitions sample_created_tables) (rt_transitions sample_replaced_tables)
    \<and> advances repository_later (rt_repositories sample_created_tables) (rt_repositories sample_replaced_tables)"
  by (rule repository_evidence_permanent [OF sample_admissions])

text \<open>
  The check of the merged state accepts exactly the well-formed tables in which every
  reference resolves.
\<close>

theorem relations_check_exact:
  assumes "tables_wf t"
  shows "validate_repository_relations t = Ok () \<longleftrightarrow> tables_closed t"
  by (rule validate_repository_relations_iff [OF assms])

theorem relations_check_exact_witness:
  "validate_repository_relations (empty_tables :: u64 repository_tables) = Ok () \<longleftrightarrow> tables_closed empty_tables"
  by (rule relations_check_exact [OF tables_wf_empty])

text \<open>
  C21. Live admission and journal replay agree: a command is admitted at \<open>first_seq\<close> exactly
  if replaying its rows, numbered consecutively from \<open>first_seq\<close>, succeeds, and both give
  the same tables.
\<close>

theorem admission_agrees_with_replay:
  assumes "unat first_seq + length ps \<le> 2 ^ 64"
  shows "admit_command t first_seq ps = Ok t' \<longleftrightarrow> apply_row_batch t (admitted_rows first_seq 0 ps) = Ok t'"
proof -
  have fst: "map fst (admitted_rows first_seq 0 ps) = ps"
    by (rule nth_equalityI) (simp_all add: admitted_rows_def nth_enumerate_eq case_prod_unfold)
  have "for_each (\<lambda>(p, _). map_err (\<lambda>_. StoreCorrupt) (payload_validate p)) rows = Ok ()
      \<longleftrightarrow> for_each payload_validate (map fst rows) = Ok ()" for rows :: "(journal_payload \<times> u64) list"
    by (auto simp: for_each_Inr_iff map_err_Inr_iff)
  with fst show ?thesis
    using admit_events_replay [of first_seq 0 ps t] assms
    by (simp add: admit_command_def apply_row_batch_def and_then_Inr_iff and_then_unit map_err_Inr_iff)
qed

theorem admission_agrees_with_replay_witness:
  "admit_command empty_tables 10 sample_creation = Ok sample_created_tables
    \<longleftrightarrow> apply_row_batch empty_tables (admitted_rows 10 0 sample_creation) = Ok sample_created_tables"
  by (rule admission_agrees_with_replay) (simp add: sample_creation_def)

text \<open>
  For every state reached by admitted commands the relation rows can be built, and they
  are exactly the edges of the stored objects, in order and without repetition.
\<close>

theorem relation_rows_of_admitted:
  assumes "admit_all empty_tables commands = Ok t"
  shows "relation_rows lib (view_of_tables frontier t) = Ok (btree_set (
      concat (map (repository_edges lib) (stored (rt_repositories t)))
    @ concat (map (worktree_edges lib) (stored (rt_worktrees t)))
    @ concat (map (snapshot_edges lib) (stored (rt_snapshots t)))
    @ concat (map (transition_edges lib) (stored (rt_transitions t)))
    @ concat (map (integration_edges lib) (stored (rt_integrations t)))))"
  using relation_rows_total admit_all_keeps [OF assms tables_wf_empty tables_closed_empty] by blast

theorem relation_rows_of_admitted_witness:
  "\<exists>rows. relation_rows sample_uuid_lib (view_of_tables 13 sample_created_tables) = Ok rows \<and>
    RepositoryRelationRow RepositoryToWorktree (repository_id_text sample_uuid_lib 1) (worktree_id_text sample_uuid_lib 2)
      \<in> set rows"
  unfolding relation_rows_of_admitted [OF sample_admissions(1)]
  by (simp add: worktree_edges_def stored_def btm_values_def sample_created_tables_def sample_worktree_def)

end
