(* ===== verification/Episode_Relations.thy ===== *)
theory Episode_Relations
  imports Checkpoint Seg_Store Repo_Store
begin

text \<open>
  The relation check of the segmentation projections
  (\<open>validate_episode_relations\<close> of \<open>evertrace-store/src/projections/segmentation.rs\<close>), which
  the store runs on the merged state after every command: episodes against tasks,
  workstreams, attempts, lanes, receipts, bursts, checkpoints and corrections, and back. The
  22 map arguments are the fields of one record; the accumulators the source mutates inside
  its loops are passed along. The theorems say what an accepted state is known to satisfy.
\<close>

record episode_tables =
  et_episodes :: "(work_episode_id, work_episode \<times> u64) btree_map"
  et_episode_revisions :: "(revision_id, work_episode \<times> u64) btree_map"
  et_checkpoints :: "(string, work_checkpoint \<times> u64) btree_map"
  et_corrections :: "(revision_id, segmentation_correction \<times> u64) btree_map"
  et_tasks :: "(task_id, task \<times> u64) btree_map"
  et_workstreams :: "(workstream_id, workstream \<times> u64) btree_map"
  et_attempts :: "(attempt_id, attempt \<times> u64) btree_map"
  et_attempt_revisions :: "(revision_id, attempt \<times> u64) btree_map"
  et_competing_groups :: "(competing_attempt_group_id, competing_attempt_group \<times> u64) btree_map"
  et_bindings :: "(work_binding_revision_id, work_binding_revision \<times> u64) btree_map"
  et_operation_bursts :: "(operation_burst_id, operation_burst \<times> u64) btree_map"
  et_operation_revisions :: "(operation_id \<times> u32, operation \<times> u64) btree_map"
  et_host_occurrences :: "(host_occurrence_id, host_occurrence \<times> u64) btree_map"
  et_source_observations :: "(source_observation_id, source_observation \<times> u64) btree_map"
  et_scope_effects :: "(scope_effect_id, scope_effect \<times> u64) btree_map"
  et_lanes :: "(execution_lane_id, execution_lane \<times> u64) btree_map"
  et_receipt_revisions :: "(capture_receipt_id, capture_receipt \<times> u64) btree_map"
  et_capture_gaps :: "(string, capture_gap_marker_evidence \<times> u64) btree_map"
  et_capture_outages :: "(capture_outage_interval_id, capture_outage_interval \<times> u64) btree_map"
  et_worktree_snapshots :: "(worktree_snapshot_id, worktree_snapshot \<times> u64) btree_map"
  et_worktree_transitions :: "(worktree_transition_id, worktree_transition \<times> u64) btree_map"
  et_integration_events :: "(integration_event_id, integration_event \<times> u64) btree_map"

text \<open>\<open>map.get(&key).ok_or(StoreError::StoreCorrupt)?.0\<close> and \<open>if condition { return Err(StoreCorrupt) }\<close>.\<close>

definition fetch :: "('k, 'v \<times> u64) btree_map \<Rightarrow> 'k \<Rightarrow> (store_error, 'v) result" where
  "fetch m k = ok_or StoreCorrupt (map_option fst (btm_get m k))"

definition corrupt_if :: "bool \<Rightarrow> (store_error, unit) result" where
  "corrupt_if b = (if b then Err StoreCorrupt else Ok ())"

section \<open>One episode\<close>

definition episode_context_ok :: "episode_tables \<Rightarrow> work_episode \<Rightarrow> (store_error, workstream) result" where
  "episode_context_ok t e =
    and_then (map_err (\<lambda>_. StoreCorrupt) (work_episode_validate e)) (\<lambda>_.
    and_then (fetch (et_tasks t) (ep_task_id e)) (\<lambda>tk.
    and_then (fetch (et_workstreams t) (ep_workstream_id e)) (\<lambda>workstream.
    and_then (corrupt_if (tk_task_id tk \<noteq> ws_task_id workstream
        \<or> ep_task_id e \<noteq> ws_task_id workstream
        \<or> ep_repository_instance_id e \<noteq> ws_repository_instance_id workstream
        \<or> is_some_and (\<lambda>i. i \<notin> set (ws_worktree_instance_ids workstream)) (ep_worktree_instance_id e)))
      (\<lambda>_. Ok workstream))))"

text \<open>The open episode of a workstream; the insertion happens only for an open episode.\<close>

definition episode_open_ok ::
  "(workstream_id, work_episode_id) btree_map \<Rightarrow> work_episode_id \<Rightarrow> work_episode \<Rightarrow> workstream
    \<Rightarrow> (store_error, (workstream_id, work_episode_id) btree_map) result" where
  "episode_open_ok open_by_workstream episode_id e workstream =
    (if ep_lifecycle_status e = EpisodeOpen then
       (if btm_get open_by_workstream (ep_workstream_id e) \<noteq> None
           \<or> ws_active_episode_id workstream \<noteq> Some episode_id
        then Err StoreCorrupt
        else if ep_phase_contract e \<noteq> ws_phase_contract workstream then Err StoreCorrupt
        else Ok (btm_insert (ep_workstream_id e) episode_id open_by_workstream))
     else Ok open_by_workstream)"

definition episode_attempts_ok :: "episode_tables \<Rightarrow> work_episode_id \<Rightarrow> work_episode \<Rightarrow> (store_error, unit) result" where
  "episode_attempts_ok t episode_id e =
    and_then (for_each (\<lambda>attempt_id. and_then (fetch (et_attempts t) attempt_id) (\<lambda>a.
        corrupt_if (at_task_id a \<noteq> ep_task_id e \<or> at_workstream_id a \<noteq> ep_workstream_id e
          \<or> at_episode_id a \<noteq> Some episode_id))) (ep_attempt_ids e)) (\<lambda>_.
    and_then (for_each (\<lambda>selected_id. and_then (fetch (et_attempts t) selected_id) (\<lambda>a.
        corrupt_if (at_adoption_status a \<noteq> AdoptionIntegrated \<or> at_verification a \<noteq> VerificationPassed)))
        (ep_selected_attempt_ids e)) (\<lambda>_.
    for_each (\<lambda>lane_id. corrupt_if (\<not> btm_contains_key (et_lanes t) lane_id)) (ep_execution_lane_ids e)))"

fun min_or_zero :: "u64 list \<Rightarrow> u64" where
  "min_or_zero [] = 0"
| "min_or_zero (x # xs) = foldl min x xs"

definition episode_capture_ok :: "episode_tables \<Rightarrow> work_episode \<Rightarrow> (store_error, unit) result" where
  "episode_capture_ok t e =
    and_then (try_map (fetch (et_receipt_revisions t)) (ep_capture_receipt_revision_ids e)) (\<lambda>pinned_receipts.
    let receipt_lane_ids = sort (map cr_execution_lane_id pinned_receipts);
        gap_union = sort_dedup (concat (map cr_capture_gap_marker_refs pinned_receipts));
        outage_union = sort_dedup (concat (map cr_capture_outage_interval_refs pinned_receipts))
    in
    if receipt_lane_ids \<noteq> ep_execution_lane_ids e
       \<or> \<not> windows_all (\<noteq>) receipt_lane_ids
       \<or> gap_union \<noteq> ep_capture_gap_refs e
       \<or> outage_union \<noteq> ep_capture_outage_refs e
       \<or> list_ex (\<lambda>reference. \<not> btm_contains_key (et_capture_gaps t) reference) gap_union
       \<or> list_ex (\<lambda>i. \<not> btm_contains_key (et_capture_outages t) i) outage_union
    then Err StoreCorrupt
    else and_then (map_err (\<lambda>_. StoreCorrupt) (capture_summary_from_receipts pinned_receipts)) (\<lambda>summary.
      corrupt_if (summary \<noteq> ep_capture_summary e
        \<or> min_or_zero (map cr_import_watermark pinned_receipts) \<noteq> ep_capture_watermark e)))"

section \<open>The bursts of an episode\<close>

definition burst_context_bad :: "episode_tables \<Rightarrow> work_episode \<Rightarrow> operation_burst \<Rightarrow> bool" where
  "burst_context_bad t e b \<longleftrightarrow>
    ob_execution_lane_id b \<notin> set (ep_execution_lane_ids e)
    \<or> is_some_and (\<lambda>i. i \<notin> set (ep_attempt_ids e)) (ob_attempt_id b)
    \<or> pb_attempt_id (ob_primary_binding b) \<noteq> ob_attempt_id b
    \<or> pb_experiment_run_id (ob_primary_binding b) \<noteq> ob_experiment_run_id b
    \<or> pb_competing_group_id (ob_primary_binding b) \<noteq> ob_competing_group_id b
    \<or> is_some_and (\<lambda>i. case btm_get (et_attempts t) i of
          None \<Rightarrow> True
        | Some (a, _) \<Rightarrow>
            is_some_and (\<lambda>run. run \<notin> set (at_experiment_run_ids a)) (ob_experiment_run_id b)
            \<or> is_some_and (\<lambda>grp. grp \<notin> set (at_competing_group_ids a)) (ob_competing_group_id b)) (ob_attempt_id b)
    \<or> is_some_and (\<lambda>i. case btm_get (et_competing_groups t) i of
          None \<Rightarrow> True
        | Some (g, _) \<Rightarrow> (case ob_attempt_id b of None \<Rightarrow> True | Some a \<Rightarrow> a \<notin> set (cg_member_attempt_ids g)))
        (ob_competing_group_id b)"

definition member_attempt_of :: "episode_tables \<Rightarrow> operation_burst_member \<Rightarrow> attempt option" where
  "member_attempt_of t m = (case bm_attempt_revision_id m of
      None \<Rightarrow> None
    | Some i \<Rightarrow> map_option fst (btm_get (et_attempt_revisions t) i))"

definition member_bad :: "episode_tables \<Rightarrow> operation_burst \<Rightarrow> operation_burst_member \<Rightarrow> bool" where
  "member_bad t b m = (case btm_get (et_operation_revisions t) (bm_operation_id m, bm_operation_revision m) of
      None \<Rightarrow> True
    | Some (operation, _) \<Rightarrow> (case btm_get (et_host_occurrences t) (bm_host_occurrence_id m) of
        None \<Rightarrow> True
      | Some (occurrence, _) \<Rightarrow> (case btm_get (et_bindings t) (bm_work_binding_revision_id m) of
          None \<Rightarrow> True
        | Some (binding, _) \<Rightarrow> (case those (map (\<lambda>i. map_option fst (btm_get (et_scope_effects t) i)) (bm_scope_effect_refs m)) of
            None \<Rightarrow> True
          | Some effects \<Rightarrow>
              \<not> member_has_exact_physical_provenance m b operation occurrence effects
              \<or> wb_operation_id binding \<noteq> bm_operation_id m
              \<or> wb_primary_binding binding \<noteq> ob_primary_binding b
              \<or> map_option at_attempt_id (member_attempt_of t m) \<noteq> ob_attempt_id b
              \<or> list_ex (\<lambda>i. \<not> btm_contains_key (et_source_observations t) i) (bm_source_observation_refs m)
              \<or> (case member_attempt_of t m of None \<Rightarrow> [] | Some a \<Rightarrow> at_worktree_transition_refs a)
                  \<noteq> bm_worktree_transition_refs m
              \<or> (case member_attempt_of t m of None \<Rightarrow> [] | Some a \<Rightarrow> at_integration_event_refs a)
                  \<noteq> bm_integration_event_refs m
              \<or> list_ex (\<lambda>i. \<not> btm_contains_key (et_worktree_transitions t) i) (bm_worktree_transition_refs m)
              \<or> list_ex (\<lambda>i. \<not> btm_contains_key (et_integration_events t) i) (bm_integration_event_refs m)))))"

text \<open>
  \<open>burst.members.iter().any(..)\<close> inserts every operation revision it sees; a repeated one
  or a bad member ends the check. \<open>operations\<close> holds the operation revisions seen so far.
\<close>

fun members_step ::
  "episode_tables \<Rightarrow> operation_burst \<Rightarrow> (operation_id \<times> u32) list \<Rightarrow> operation_burst_member
    \<Rightarrow> (store_error, (operation_id \<times> u32) list) result" where
  "members_step t b operations m =
    (if (bm_operation_id m, bm_operation_revision m) \<in> set operations \<or> member_bad t b m then Err StoreCorrupt
     else Ok ((bm_operation_id m, bm_operation_revision m) # operations))"

text \<open>\<open>owners\<close> holds the bursts claimed by an episode so far.\<close>

fun burst_step ::
  "episode_tables \<Rightarrow> work_episode \<Rightarrow> operation_burst_id list \<times> (operation_id \<times> u32) list \<Rightarrow> operation_burst_id
    \<Rightarrow> (store_error, operation_burst_id list \<times> (operation_id \<times> u32) list) result" where
  "burst_step t e (owners, operations) burst_id =
    and_then (fetch (et_operation_bursts t) burst_id) (\<lambda>b.
    if burst_id \<in> set owners \<or> burst_context_bad t e b then Err StoreCorrupt
    else and_then (replay (members_step t b) operations (ob_members b)) (\<lambda>operations'.
      Ok (burst_id # owners, operations')))"

definition open_burst_count :: "episode_tables \<Rightarrow> work_episode \<Rightarrow> nat" where
  "open_burst_count t e = length (filter (\<lambda>i. is_some_and (\<lambda>(b, _). ob_lifecycle b = BurstOpen)
     (btm_get (et_operation_bursts t) i)) (ep_operation_burst_refs e))"

definition episode_bursts_closed :: "episode_tables \<Rightarrow> work_episode \<Rightarrow> operation_burst list" where
  "episode_bursts_closed t e = flatten_options (map (\<lambda>i. map_option fst (btm_get (et_operation_bursts t) i))
     (ep_operation_burst_refs e))"

definition candidate_evidence_ok :: "episode_tables \<Rightarrow> work_episode \<Rightarrow> (store_error, unit) result" where
  "candidate_evidence_ok t e = if_some (\<lambda>candidate.
     let source_closure = concat (map (\<lambda>b. concat (map bm_source_observation_refs (ob_members b))) (episode_bursts_closed t e))
     in corrupt_if (bc_candidate_watermark candidate > ep_source_watermark e
          \<or> ep_confirmation_watermark e \<noteq> 0
          \<or> list_ex (\<lambda>i. i \<notin> set source_closure) (bc_evidence_refs candidate))) (ep_boundary_candidate e)"

definition episode_refs_ok :: "episode_tables \<Rightarrow> work_episode_id \<Rightarrow> work_episode \<Rightarrow> (store_error, unit) result" where
  "episode_refs_ok t episode_id e =
    and_then (for_each (\<lambda>key. and_then (fetch (et_checkpoints t) key) (\<lambda>c.
        corrupt_if (ck_episode_id c \<noteq> episode_id))) (ep_checkpoint_refs e)) (\<lambda>_.
    for_each (\<lambda>correction_id. and_then (fetch (et_corrections t) correction_id) (\<lambda>c.
        corrupt_if (episode_id \<notin> set (sc_source_episode_ids c)))) (ep_segmentation_correction_refs e))"

fun episode_step ::
  "episode_tables \<Rightarrow> (workstream_id, work_episode_id) btree_map \<times> operation_burst_id list
    \<Rightarrow> work_episode_id \<times> work_episode \<times> u64
    \<Rightarrow> (store_error, (workstream_id, work_episode_id) btree_map \<times> operation_burst_id list) result" where
  "episode_step t (open_by_workstream, owners) (episode_id, e, _) =
    and_then (episode_context_ok t e) (\<lambda>workstream.
    and_then (episode_open_ok open_by_workstream episode_id e workstream) (\<lambda>open_by_workstream'.
    and_then (episode_attempts_ok t episode_id e) (\<lambda>_.
    and_then (episode_capture_ok t e) (\<lambda>_.
    and_then (replay (burst_step t e) (owners, []) (ep_operation_burst_refs e)) (\<lambda>(owners', _).
    if open_burst_count t e > (if ep_lifecycle_status e = EpisodeOpen then 1 else 0) then Err StoreCorrupt
    else and_then (candidate_evidence_ok t e) (\<lambda>_.
      and_then (episode_refs_ok t episode_id e) (\<lambda>_.
      Ok (open_by_workstream', owners'))))))))"

section \<open>The converse directions\<close>

definition workstreams_ok ::
  "episode_tables \<Rightarrow> (workstream_id, work_episode_id) btree_map \<Rightarrow> (store_error, unit) result" where
  "workstreams_ok t open_by_workstream = for_each (\<lambda>(workstream_id, workstream, _).
     corrupt_if (ws_active_episode_id workstream \<noteq> btm_get open_by_workstream workstream_id)) (et_workstreams t)"

definition attempts_linked :: "episode_tables \<Rightarrow> (store_error, unit) result" where
  "attempts_linked t = for_each (\<lambda>(attempt_id, a, _). if_some (\<lambda>episode_id.
     and_then (fetch (et_episodes t) episode_id) (\<lambda>e.
     corrupt_if (ep_task_id e \<noteq> at_task_id a \<or> ep_workstream_id e \<noteq> at_workstream_id a
       \<or> attempt_id \<notin> set (ep_attempt_ids e)))) (at_episode_id a)) (et_attempts t)"

definition bindings_linked :: "episode_tables \<Rightarrow> (store_error, unit) result" where
  "bindings_linked t = for_each (\<lambda>(binding, _). if_some (\<lambda>episode_id.
     and_then (fetch (et_episodes t) episode_id) (\<lambda>e.
     corrupt_if (wb_assignment_status binding \<noteq> AssignmentResolved
       \<or> pb_task_id (wb_primary_binding binding) \<noteq> Some (ep_task_id e)
       \<or> pb_workstream_id (wb_primary_binding binding) \<noteq> Some (ep_workstream_id e))))
     (pb_episode_id (wb_primary_binding binding))) (btm_values (et_bindings t))"

definition bursts_owned :: "episode_tables \<Rightarrow> (store_error, unit) result" where
  "bursts_owned t = for_each (\<lambda>burst_id. corrupt_if (\<not> list_ex (\<lambda>(e, _). burst_id \<in> set (ep_operation_burst_refs e))
     (btm_values (et_episodes t)))) (map fst (et_operation_bursts t))"

text \<open>\<open>iter().max_by_key(key)\<close>: of several greatest elements the last.\<close>

fun max_by_key :: "('a \<Rightarrow> 'b::linorder) \<Rightarrow> 'a list \<Rightarrow> 'a option" where
  "max_by_key key [] = None"
| "max_by_key key (x # xs) = (case max_by_key key xs of
      None \<Rightarrow> Some x
    | Some y \<Rightarrow> if key x \<le> key y then Some y else Some x)"

definition latest_attempt_at ::
  "episode_tables \<Rightarrow> u64 \<Rightarrow> checkpoint_attempt_revision_ref \<Rightarrow> (store_error, attempt) result" where
  "latest_attempt_at t at_seq reference =
    and_then (ok_or StoreCorrupt (max_by_key snd (filter (\<lambda>(a, seq). at_attempt_id a = car_attempt_id reference
        \<and> seq \<le> at_seq) (btm_values (et_attempt_revisions t))))) (\<lambda>latest.
    if at_revision_id (fst latest) \<noteq> car_revision_id reference then Err StoreCorrupt else Ok (fst latest))"

definition latest_snapshot_at ::
  "(worktree_snapshot_id, worktree_snapshot \<times> u64) btree_map \<Rightarrow> worktree_id \<Rightarrow> u64
    \<Rightarrow> (store_error, worktree_snapshot) result" where
  "latest_snapshot_at snapshots worktree_id at_seq =
    ok_or StoreCorrupt (map_option fst (max_by_key snd (filter (\<lambda>(candidate, seq).
      wsn_worktree_instance_id candidate = worktree_id \<and> seq \<le> at_seq) (btm_values snapshots))))"

definition checkpoint_snapshot ::
  "episode_tables \<Rightarrow> work_checkpoint \<Rightarrow> u64 \<Rightarrow> (store_error, worktree_snapshot option) result" where
  "checkpoint_snapshot t c at_seq = (case ck_current_worktree_snapshot_id c of
      None \<Rightarrow> Ok None
    | Some i \<Rightarrow> and_then (fetch (et_worktree_snapshots t) i) (\<lambda>snapshot.
        and_then (latest_snapshot_at (et_worktree_snapshots t) (wsn_worktree_instance_id snapshot) at_seq) (\<lambda>latest.
        if wsn_worktree_snapshot_id latest \<noteq> wsn_worktree_snapshot_id snapshot then Err StoreCorrupt
        else Ok (Some snapshot))))"

definition checkpoint_relation_ok ::
  "uuid_lib \<Rightarrow> (bytes \<Rightarrow> bytes) \<Rightarrow> episode_tables \<Rightarrow> string \<times> work_checkpoint \<times> u64 \<Rightarrow> (store_error, unit) result" where
  "checkpoint_relation_ok lib sha256_digest t entry = (case entry of (key, c, checkpoint_seq) \<Rightarrow>
    if \<not> is_some_and (\<lambda>(e, _). key \<in> set (ep_checkpoint_refs e)) (btm_get (et_episodes t) (ck_episode_id c))
    then Err StoreCorrupt
    else and_then (fetch (et_episode_revisions t) (ck_episode_revision_id c)) (\<lambda>referenced_episode.
      if ep_episode_id referenced_episode \<noteq> ck_episode_id c then Err StoreCorrupt
      else and_then (try_map (latest_attempt_at t checkpoint_seq) (ck_attempt_revision_refs c)) (\<lambda>referenced_attempts.
      and_then (checkpoint_snapshot t c checkpoint_seq) (\<lambda>snapshot.
      and_then (map_err (\<lambda>_. StoreCorrupt) (work_checkpoint_derive lib sha256_digest referenced_episode
          referenced_attempts snapshot (ck_created_reason c))) (\<lambda>expected.
      corrupt_if (key \<noteq> work_checkpoint_stable_key lib c \<or> c \<noteq> expected))))))"

definition correction_relation_ok :: "episode_tables \<Rightarrow> revision_id \<times> segmentation_correction \<times> u64 \<Rightarrow> (store_error, unit) result" where
  "correction_relation_ok t entry = (case entry of (i, c, _) \<Rightarrow>
    corrupt_if (i \<noteq> sc_correction_revision_id c
      \<or> list_ex (\<lambda>e. \<not> btm_contains_key (et_episodes t) e) (sc_source_episode_ids c)
      \<or> list_ex (\<lambda>e. \<not> btm_contains_key (et_episodes t) e) (sc_replacement_episode_ids c)
      \<or> list_ex (\<lambda>e. case btm_get (et_episodes t) e of None \<Rightarrow> True
          | Some (episode, _) \<Rightarrow> i \<notin> set (ep_segmentation_correction_refs episode)) (sc_source_episode_ids c)))"

definition validate_episode_relations ::
  "uuid_lib \<Rightarrow> (bytes \<Rightarrow> bytes) \<Rightarrow> episode_tables \<Rightarrow> (store_error, unit) result" where
  "validate_episode_relations lib sha256_digest t =
    and_then (replay (episode_step t) ([], []) (et_episodes t)) (\<lambda>(open_by_workstream, _).
    and_then (workstreams_ok t open_by_workstream) (\<lambda>_.
    and_then (attempts_linked t) (\<lambda>_.
    and_then (bindings_linked t) (\<lambda>_.
    and_then (bursts_owned t) (\<lambda>_.
    and_then (for_each (checkpoint_relation_ok lib sha256_digest t) (et_checkpoints t)) (\<lambda>_.
    for_each (correction_relation_ok t) (et_corrections t)))))))"

section \<open>What the loops establish\<close>

lemma corrupt_if_Inr [result_simps]: "corrupt_if b = Inr u \<longleftrightarrow> \<not> b"
  by (simp add: corrupt_if_def)

lemma fetch_Inr [result_simps]: "fetch m k = Inr v \<longleftrightarrow> (\<exists>s. btm_get m k = Some (v, s))"
  by (auto simp: fetch_def ok_or_def split: option.splits)

lemma replay_each:
  assumes "replay f s xs = Ok s'" and "x \<in> set xs"
  shows "\<exists>u u'. f u x = Ok u'"
  using assms
proof (induction xs arbitrary: s)
  case (Cons y ys)
  then show ?case by (auto simp: and_then_Inr_iff)
qed simp

text \<open>A loop that refuses what it has already seen and otherwise collects.\<close>

lemma replay_collect:
  assumes "replay f acc xs = Ok acc'"
    and "\<And>a x a'. f a x = Ok a' \<Longrightarrow> items a' = rev (new x) @ items a \<and> distinct (new x) \<and> set (new x) \<inter> set (items a) = {}"
  shows "items acc' = rev (concat (map new xs)) @ items acc
    \<and> distinct (concat (map new xs)) \<and> set (concat (map new xs)) \<inter> set (items acc) = {}"
  using assms(1)
proof (induction xs arbitrary: acc)
  case (Cons x xs)
  then obtain u where u: "f acc x = Ok u" "replay f u xs = Ok acc'" by (auto simp: and_then_Inr_iff)
  from assms(2) [OF u(1)] Cons.IH [OF u(2)] show ?case by (auto simp: Int_Un_distrib Int_commute)
qed simp

lemma members_collect:
  assumes "replay (members_step t b) operations ms = Ok operations'"
  shows "operations' = rev (map (\<lambda>m. (bm_operation_id m, bm_operation_revision m)) ms) @ operations
    \<and> distinct (map (\<lambda>m. (bm_operation_id m, bm_operation_revision m)) ms)
    \<and> set (map (\<lambda>m. (bm_operation_id m, bm_operation_revision m)) ms) \<inter> set operations = {}"
proof -
  have "concat (map (\<lambda>m. [(bm_operation_id m, bm_operation_revision m)]) ms)
    = map (\<lambda>m. (bm_operation_id m, bm_operation_revision m)) ms" by (induction ms) simp_all
  moreover have "id a' = rev [(bm_operation_id m, bm_operation_revision m)] @ id a
      \<and> distinct [(bm_operation_id m, bm_operation_revision m)]
      \<and> set [(bm_operation_id m, bm_operation_revision m)] \<inter> set (id a) = {}"
    if "members_step t b a m = Ok a'" for a m a' using that by (auto split: if_splits)
  note replay_collect [OF assms, where items = id and new = "\<lambda>m. [(bm_operation_id m, bm_operation_revision m)]", OF this]
  ultimately show ?thesis by simp
qed

definition member_operations :: "operation_burst \<Rightarrow> (operation_id \<times> u32) list" where
  "member_operations b = map (\<lambda>m. (bm_operation_id m, bm_operation_revision m)) (ob_members b)"

definition operations_of :: "episode_tables \<Rightarrow> operation_burst_id \<Rightarrow> (operation_id \<times> u32) list" where
  "operations_of t i = (case btm_get (et_operation_bursts t) i of None \<Rightarrow> [] | Some (b, _) \<Rightarrow> member_operations b)"

lemma burst_stepE:
  assumes "burst_step t e acc burst_id = Ok acc'"
  obtains b s operations' where "btm_get (et_operation_bursts t) burst_id = Some (b, s)"
    and "burst_id \<notin> set (fst acc)" and "\<not> burst_context_bad t e b"
    and "replay (members_step t b) (snd acc) (ob_members b) = Ok operations'"
    and "acc' = (burst_id # fst acc, operations')"
  using assms by (cases acc) (auto simp: and_then_Inr_iff fetch_Inr split: if_splits)

lemma bursts_collect:
  assumes "replay (burst_step t e) acc bursts = Ok acc'"
  shows "fst acc' = rev bursts @ fst acc \<and> distinct bursts \<and> set bursts \<inter> set (fst acc) = {}"
    and "distinct (concat (map (operations_of t) bursts))"
proof -
  have one: "fst a' = rev [x] @ fst a \<and> distinct [x] \<and> set [x] \<inter> set (fst a) = {}"
    if "burst_step t e a x = Ok a'" for a x a'
    using that by (rule burst_stepE) auto
  have "concat (map (\<lambda>x. [x]) bursts) = bursts" by (induction bursts) simp_all
  with replay_collect [OF assms, where items = fst and new = "\<lambda>x. [x]", OF one]
  show "fst acc' = rev bursts @ fst acc \<and> distinct bursts \<and> set bursts \<inter> set (fst acc) = {}" by simp
  have "snd a' = rev (operations_of t x) @ snd a \<and> distinct (operations_of t x)
      \<and> set (operations_of t x) \<inter> set (snd a) = {}"
    if step: "burst_step t e a x = Ok a'" for a x a'
  proof (rule burst_stepE [OF step])
    fix b s operations'
    assume b: "btm_get (et_operation_bursts t) x = Some (b, s)" "a' = (x # fst a, operations')"
      and ms: "replay (members_step t b) (snd a) (ob_members b) = Ok operations'"
    from members_collect [OF ms] b show ?thesis by (simp add: operations_of_def member_operations_def)
  qed
  from replay_collect [OF assms, where items = snd and new = "operations_of t", OF this]
  show "distinct (concat (map (operations_of t) bursts))" by blast
qed

text \<open>The checks one episode has passed.\<close>

definition episode_checked :: "episode_tables \<Rightarrow> work_episode_id \<Rightarrow> work_episode \<Rightarrow> bool" where
  "episode_checked t i e \<longleftrightarrow> work_episode_validate e = Ok ()
    \<and> episode_attempts_ok t i e = Ok () \<and> episode_capture_ok t e = Ok ()
    \<and> distinct (concat (map (operations_of t) (ep_operation_burst_refs e)))
    \<and> open_burst_count t e \<le> (if ep_lifecycle_status e = EpisodeOpen then 1 else 0)
    \<and> candidate_evidence_ok t e = Ok () \<and> episode_refs_ok t i e = Ok ()
    \<and> (\<exists>workstream s. btm_get (et_workstreams t) (ep_workstream_id e) = Some (workstream, s)
        \<and> ep_task_id e = ws_task_id workstream
        \<and> (ep_lifecycle_status e = EpisodeOpen \<longrightarrow>
            ws_active_episode_id workstream = Some i \<and> ep_phase_contract e = ws_phase_contract workstream))
    \<and> (\<forall>burst_id \<in> set (ep_operation_burst_refs e). \<exists>b s. btm_get (et_operation_bursts t) burst_id = Some (b, s)
        \<and> \<not> burst_context_bad t e b \<and> (\<forall>m \<in> set (ob_members b). \<not> member_bad t b m))"

lemma members_good:
  assumes "replay (members_step t b) operations ms = Ok operations'" and "m \<in> set ms"
  shows "\<not> member_bad t b m"
  using replay_each [OF assms] by (auto split: if_splits)

lemma episode_stepE:
  assumes "episode_step t acc (i, e, s) = Ok acc'"
  obtains workstream where "episode_context_ok t e = Ok workstream"
    and "episode_open_ok (fst acc) i e workstream = Ok (fst acc')"
    and "episode_checked t i e"
    and "snd acc' = rev (ep_operation_burst_refs e) @ snd acc \<and> distinct (ep_operation_burst_refs e)
      \<and> set (ep_operation_burst_refs e) \<inter> set (snd acc) = {}"
proof -
  obtain ob ow where acc: "acc = (ob, ow)" by (cases acc)
  from assms obtain workstream ob' ow' ops where steps: "episode_context_ok t e = Ok workstream"
    "episode_open_ok ob i e workstream = Ok ob'" "episode_attempts_ok t i e = Ok ()"
    "episode_capture_ok t e = Ok ()"
    "replay (burst_step t e) (ow, []) (ep_operation_burst_refs e) = Ok (ow', ops)"
    "\<not> open_burst_count t e > (if ep_lifecycle_status e = EpisodeOpen then 1 else 0)"
    "candidate_evidence_ok t e = Ok ()" "episode_refs_ok t i e = Ok ()" "acc' = (ob', ow')"
    unfolding acc episode_step.simps
    by (auto simp only: and_then_Inr_iff and_then_unit if_Inl_Inr_iff sum.inject prod.case prod.inject simp_thms)
  note bursts = bursts_collect [OF steps(5)]
  have good: "\<exists>b s. btm_get (et_operation_bursts t) x = Some (b, s) \<and> \<not> burst_context_bad t e b
      \<and> (\<forall>m \<in> set (ob_members b). \<not> member_bad t b m)" if "x \<in> set (ep_operation_burst_refs e)" for x
  proof -
    from replay_each [OF steps(5) that] obtain a a' where "burst_step t e a x = Ok a'" by blast
    then show ?thesis by (rule burst_stepE) (use members_good in blast)
  qed
  have ctx: "work_episode_validate e = Ok ()"
    "\<exists>s. btm_get (et_workstreams t) (ep_workstream_id e) = Some (workstream, s)"
    "ep_task_id e = ws_task_id workstream"
    using steps(1) by (auto simp: episode_context_ok_def result_simps)
  have active: "ep_lifecycle_status e = EpisodeOpen \<Longrightarrow>
      ws_active_episode_id workstream = Some i \<and> ep_phase_contract e = ws_phase_contract workstream"
    using steps(2) by (auto simp: episode_open_ok_def split: if_splits)
  have "episode_checked t i e"
    unfolding episode_checked_def using steps(3,4,6,7,8) ctx active good bursts(2) by (simp add: not_less) blast
  with that steps(1,2,9) bursts(1) acc show ?thesis by simp
qed

lemma relationsE:
  assumes "validate_episode_relations lib sha t = Ok ()"
  obtains ob ow where "replay (episode_step t) ([], []) (et_episodes t) = Ok (ob, ow)"
    and "workstreams_ok t ob = Ok ()" and "attempts_linked t = Ok ()" and "bindings_linked t = Ok ()"
    and "bursts_owned t = Ok ()" and "\<And>x. x \<in> set (et_checkpoints t) \<Longrightarrow> checkpoint_relation_ok lib sha t x = Ok ()"
    and "\<And>x. x \<in> set (et_corrections t) \<Longrightarrow> correction_relation_ok t x = Ok ()"
  using assms unfolding validate_episode_relations_def
  by (auto simp: and_then_Inr_iff and_then_unit for_each_Inr_iff)

lemma episodes_checked:
  assumes "replay (episode_step t) acc (et_episodes t) = Ok acc'" and "btm_get (et_episodes t) i = Some (e, s)"
  shows "episode_checked t i e"
proof -
  from assms(2) have "(i, e, s) \<in> set (et_episodes t)" by (simp add: btm_get_def map_of_SomeD)
  from replay_each [OF assms(1) this] obtain u u' where "episode_step t u (i, e, s) = Ok u'" by blast
  then show ?thesis by (rule episode_stepE)
qed

lemma episode_bursts_distinct:
  assumes "replay (episode_step t) acc es = Ok acc'"
  shows "distinct (concat (map (\<lambda>(i, e, s). ep_operation_burst_refs e) es))"
proof -
  have "snd a' = rev ((\<lambda>(i, e, s). ep_operation_burst_refs e) x) @ snd a
      \<and> distinct ((\<lambda>(i, e, s). ep_operation_burst_refs e) x)
      \<and> set ((\<lambda>(i, e, s). ep_operation_burst_refs e) x) \<inter> set (snd a) = {}"
    if "episode_step t a x = Ok a'" for a x a'
  proof -
    obtain i e s where x: "x = (i, e, s)" by (cases x)
    from that [unfolded x] show ?thesis unfolding x prod.case by (rule episode_stepE)
  qed
  from replay_collect [OF assms, where items = snd and new = "\<lambda>(i, e, s). ep_operation_burst_refs e", OF this]
  show ?thesis by blast
qed

lemma open_episodes:
  assumes "replay (episode_step t) acc es = Ok acc'"
  shows "btm_get (fst acc') w = Some i \<longleftrightarrow> btm_get (fst acc) w = Some i
    \<or> (\<exists>e s. (i, e, s) \<in> set es \<and> ep_workstream_id e = w \<and> ep_lifecycle_status e = EpisodeOpen)"
  using assms
proof (induction es arbitrary: acc)
  case (Cons x es)
  obtain j f s where x: "x = (j, f, s)" by (cases x)
  from Cons.prems obtain u where u: "episode_step t acc (j, f, s) = Ok u" "replay (episode_step t) u es = Ok acc'"
    by (auto simp: and_then_Inr_iff x)
  from u(1) obtain ws where op: "episode_open_ok (fst acc) j f ws = Ok (fst u)" by (rule episode_stepE)
  have "btm_get (fst u) w = Some i \<longleftrightarrow> btm_get (fst acc) w = Some i
    \<or> (i = j \<and> ep_workstream_id f = w \<and> ep_lifecycle_status f = EpisodeOpen)"
  proof (cases "ep_lifecycle_status f = EpisodeOpen")
    case True
    with op have "fst u = btm_insert (ep_workstream_id f) j (fst acc)"
      and "btm_get (fst acc) (ep_workstream_id f) = None"
      by (auto simp: episode_open_ok_def split: if_splits)
    with True show ?thesis by auto
  next
    case False
    with op show ?thesis by (auto simp: episode_open_ok_def)
  qed
  with Cons.IH [OF u(2)] show ?case by (auto simp: x)
qed simp

lemma btm_get_set: "btm_sorted m \<Longrightarrow> btm_get m k = Some v \<longleftrightarrow> (k, v) \<in> set m"
  using btm_sorted_distinct [of m] by (auto simp: btm_get_def)

lemma distinct_concat_same:
  assumes "distinct (concat (map f xs))" and "x \<in> set xs" and "y \<in> set xs"
    and "z \<in> set (f x)" and "z \<in> set (f y)"
  shows "x = y"
  using assms by (induction xs) auto

lemma those_Some_iff: "those xs = Some ys \<longleftrightarrow> xs = map Some ys"
proof (induction xs arbitrary: ys)
  case (Cons x xs)
  then show ?case by (cases x; cases ys) auto
qed auto

section \<open>Properties of an accepted state\<close>

text \<open>
  C10. In a state the relation check accepts, the active episode of a workstream is exactly its
  open episode; in particular no workstream has two open episodes.
\<close>

theorem one_open_episode:
  assumes "validate_episode_relations lib sha256_digest t = Ok ()" and "btm_sorted (et_episodes t)"
    and "btm_get (et_workstreams t) w = Some (workstream, s)"
  shows "ws_active_episode_id workstream = Some i \<longleftrightarrow>
    (\<exists>e s. btm_get (et_episodes t) i = Some (e, s) \<and> ep_workstream_id e = w \<and> ep_lifecycle_status e = EpisodeOpen)"
proof (rule relationsE [OF assms(1)])
  fix ob ow
  assume run: "replay (episode_step t) ([], []) (et_episodes t) = Ok (ob, ow)" and ws: "workstreams_ok t ob = Ok ()"
  have "(w, workstream, s) \<in> set (et_workstreams t)" using assms(3) by (simp add: btm_get_def map_of_SomeD)
  with ws have "ws_active_episode_id workstream = btm_get ob w"
    by (auto simp: workstreams_ok_def for_each_Inr_iff corrupt_if_Inr)
  with open_episodes [OF run, of w i] show ?thesis by (auto simp: btm_get_set [OF assms(2)])
qed

text \<open>
  C16. Every stored operation burst belongs to exactly one episode, and within an episode no
  operation revision is a member of two bursts or twice of one.
\<close>

theorem burst_owned_once:
  assumes "validate_episode_relations lib sha256_digest t = Ok ()" and "btm_sorted (et_episodes t)"
    and "btm_get (et_operation_bursts t) b = Some v"
  shows "(\<exists>!i. \<exists>e s. btm_get (et_episodes t) i = Some (e, s) \<and> b \<in> set (ep_operation_burst_refs e))
    \<and> (\<forall>i e s. btm_get (et_episodes t) i = Some (e, s) \<longrightarrow>
        distinct (concat (map (operations_of t) (ep_operation_burst_refs e))))"
proof (rule relationsE [OF assms(1)])
  fix ob ow
  assume run: "replay (episode_step t) ([], []) (et_episodes t) = Ok (ob, ow)" and owned: "bursts_owned t = Ok ()"
  let ?refs = "\<lambda>(i :: work_episode_id, e, s :: u64). ep_operation_burst_refs e"
  have d: "distinct (concat (map ?refs (et_episodes t)))" by (rule episode_bursts_distinct [OF run])
  have "b \<in> set (map fst (et_operation_bursts t))"
    using assms(3) by (metis btm_get_def map_of_SomeD image_eqI fst_conv set_map)
  with owned obtain e s where es: "(e, s) \<in> set (btm_values (et_episodes t))" "b \<in> set (ep_operation_burst_refs e)"
    by (fastforce simp: bursts_owned_def for_each_Inr_iff corrupt_if_Inr list_ex_iff)
  then obtain i where i: "(i, e, s) \<in> set (et_episodes t)" by (auto simp: btm_values_def)
  have "j = i" if "(j, f, r) \<in> set (et_episodes t)" "b \<in> set (ep_operation_burst_refs f)" for j f r
    using distinct_concat_same [OF d that(1) i, of b] that(2) es(2) by auto
  then have "\<exists>!i. \<exists>e s. btm_get (et_episodes t) i = Some (e, s) \<and> b \<in> set (ep_operation_burst_refs e)"
    unfolding btm_get_set [OF assms(2)] using i es(2) by blast
  moreover have "distinct (concat (map (operations_of t) (ep_operation_burst_refs f)))"
    if "btm_get (et_episodes t) j = Some (f, r)" for j f r
    using episodes_checked [OF run that] by (simp add: episode_checked_def)
  ultimately show ?thesis by blast
qed

text \<open>
  In an accepted state an attempt names an episode exactly if that episode lists the
  attempt, and they agree on task and workstream.
\<close>

theorem attempt_episode_agree:
  assumes "validate_episode_relations lib sha256_digest t = Ok ()"
    and "btm_get (et_attempts t) a = Some (att, s)"
  shows "at_episode_id att = Some i \<longleftrightarrow> (\<exists>e r. btm_get (et_episodes t) i = Some (e, r) \<and> a \<in> set (ep_attempt_ids e)
    \<and> ep_task_id e = at_task_id att \<and> ep_workstream_id e = at_workstream_id att)"
proof (rule relationsE [OF assms(1)])
  fix ob ow
  assume run: "replay (episode_step t) ([], []) (et_episodes t) = Ok (ob, ow)" and linked: "attempts_linked t = Ok ()"
  have "(a, att, s) \<in> set (et_attempts t)" using assms(2) by (simp add: btm_get_def map_of_SomeD)
  with linked have "\<exists>e r. btm_get (et_episodes t) i = Some (e, r) \<and> a \<in> set (ep_attempt_ids e)
    \<and> ep_task_id e = at_task_id att \<and> ep_workstream_id e = at_workstream_id att" if "at_episode_id att = Some i"
    using that by (fastforce simp: attempts_linked_def result_simps)
  moreover have "at_episode_id att = Some i"
    if e: "btm_get (et_episodes t) i = Some (e, r)" and "a \<in> set (ep_attempt_ids e)" for e r
    using episodes_checked [OF run e] that(2) assms(2)
    by (fastforce simp: episode_checked_def episode_attempts_ok_def result_simps)
  ultimately show ?thesis by blast
qed

section \<open>Recording a snapshot again\<close>

lemma max_by_key_mem: "max_by_key key xs = Some x \<Longrightarrow> x \<in> set xs"
  by (induction xs arbitrary: x) (auto split: option.splits if_splits)

lemma max_by_key_None: "max_by_key key xs = None \<longleftrightarrow> xs = []"
  by (cases xs) (auto split: option.splits)

lemma max_by_key_greatest: "max_by_key key xs = Some x \<Longrightarrow> y \<in> set xs \<Longrightarrow> key y \<le> key x"
  by (induction xs arbitrary: x) (fastforce simp: max_by_key_None split: option.splits if_splits)+

lemma max_by_key_singleton: "set xs = {x} \<Longrightarrow> max_by_key key xs = Some x"
proof (cases "max_by_key key xs")
  case (Some y)
  then show "set xs = {x} \<Longrightarrow> ?thesis" using max_by_key_mem by fastforce
qed (auto simp: max_by_key_None)

text \<open>
  Re-recording an unchanged snapshot is meant to be an idempotent no-op
  (\<open>replace_snapshot\<close>), but it stores the new sequence number. A checkpoint that names the
  snapshot asks for the latest snapshot at the checkpoint's own sequence number, and the
  snapshot now counts as newer than the checkpoint.
\<close>

text \<open>
  Recording a snapshot again, unchanged, under a later sequence number makes every
  checkpoint that names it (and has no other snapshot of the worktree before it) fail the
  relation check, although nothing about snapshot or checkpoint changed.
\<close>

theorem snapshot_rerecord_breaks_checkpoint:
  assumes "btm_get (et_worktree_snapshots t) i = Some (snapshot, s)" and "wsn_worktree_snapshot_id snapshot = i"
    and "btm_sorted (et_worktree_snapshots t)"
    and "\<And>j other r. btm_get (et_worktree_snapshots t) j = Some (other, r)
      \<Longrightarrow> wsn_worktree_instance_id other = wsn_worktree_instance_id snapshot \<Longrightarrow> j = i"
    and "s \<le> checkpoint_seq" and "checkpoint_seq < seq" and "ck_current_worktree_snapshot_id c = Some i"
  shows "checkpoint_snapshot t c checkpoint_seq = Ok (Some snapshot)
    \<and> (\<exists>m. replace_snapshot (et_worktree_snapshots t) snapshot seq = Ok m
        \<and> checkpoint_snapshot (t\<lparr>et_worktree_snapshots := m\<rparr>) c checkpoint_seq = Err StoreCorrupt)"
proof -
  let ?m = "et_worktree_snapshots t" and ?w = "wsn_worktree_instance_id snapshot"
  define m where "m = btm_insert i (snapshot, seq) ?m"
  have rec: "replace_snapshot ?m snapshot seq = Ok m"
    using assms(1,2) by (simp add: replace_snapshot_def m_def)
  have only: "(v, r) \<in> set (btm_values ?m) \<Longrightarrow> wsn_worktree_instance_id v = ?w \<Longrightarrow> (v, r) = (snapshot, s)" for v r
    using btm_values_iff [OF assms(3)] assms(1,4) by (metis option.inject)
  have here: "(snapshot, s) \<in> set (btm_values ?m)" using btm_values_iff [OF assms(3)] assms(1) by blast
  have before: "set (filter (\<lambda>(v, r). wsn_worktree_instance_id v = ?w \<and> r \<le> checkpoint_seq) (btm_values ?m))
      = {(snapshot, s)}"
  proof (intro equalityI subsetI)
    fix x
    assume x: "x \<in> set (filter (\<lambda>(v, r). wsn_worktree_instance_id v = ?w \<and> r \<le> checkpoint_seq) (btm_values ?m))"
    obtain v r where "x = (v, r)" by (rule prod.exhaust)
    with x only [of v r] show "x \<in> {(snapshot, s)}" by simp
  qed (use here assms(5) in simp)
  have "btm_sorted m" unfolding m_def by (rule btm_sorted_insert [OF assms(3)])
  have "(v, r) \<notin> set (btm_values m)" if w: "wsn_worktree_instance_id v = ?w" and le: "r \<le> checkpoint_seq" for v r
  proof
    assume "(v, r) \<in> set (btm_values m)"
    then obtain k where k: "btm_get m k = Some (v, r)" using btm_values_iff [OF \<open>btm_sorted m\<close>] by blast
    show False
    proof (cases "k = i")
      case True
      with k have "r = seq" by (simp add: m_def)
      with le assms(6) show False by simp
    next
      case False
      with k have "btm_get ?m k = Some (v, r)" by (simp add: m_def)
      from assms(4) [OF this w] False show False by simp
    qed
  qed
  then have after: "filter (\<lambda>(v, r). wsn_worktree_instance_id v = ?w \<and> r \<le> checkpoint_seq) (btm_values m) = []"
    by (auto simp: filter_empty_conv)
  have "latest_snapshot_at ?m ?w checkpoint_seq = Ok snapshot"
    using max_by_key_singleton [OF before, of snd] by (simp add: latest_snapshot_at_def ok_or_def)
  moreover have "latest_snapshot_at m ?w checkpoint_seq = Err StoreCorrupt"
    by (simp add: latest_snapshot_at_def after ok_or_def)
  moreover have "fetch m i = Ok snapshot" by (simp add: fetch_def m_def ok_or_def)
  ultimately show ?thesis using rec assms(1,7) by (simp add: checkpoint_snapshot_def fetch_def ok_or_def)
qed

section \<open>A sample accepted state\<close>

definition sample_summary :: capture_summary where
  "sample_summary = (case capture_summary_from_receipts [sample_receipt] of Inr s \<Rightarrow> s | Inl _ \<Rightarrow> capture_summary_default)"

text \<open>The episode revision a checkpoint was taken from, and the current one, which lists it.\<close>

definition sample_rel_episode :: work_episode where
  "sample_rel_episode = sample_episode\<lparr>ep_episode_id := 5, ep_boundary_status := BoundaryProvisional,
    ep_boundary_candidate := None, ep_source_watermark := 6, ep_semantic_watermark := 6,
    ep_execution_lane_ids := [1], ep_capture_receipt_revision_ids := [2],
    ep_operation_burst_refs := [1], ep_capture_summary := sample_summary\<rparr>"

definition sample_rel_checkpoint :: work_checkpoint where
  "sample_rel_checkpoint = build_work_checkpoint sample_uuid_lib sample_rel_episode [] None ReasonStop"

definition sample_rel_key :: string where
  "sample_rel_key = work_checkpoint_stable_key sample_uuid_lib sample_rel_checkpoint"

definition sample_rel_current :: work_episode where
  "sample_rel_current = sample_rel_episode\<lparr>ep_revision_id := 3, ep_predecessor_revision_id := Some 2,
    ep_revision_generation := 2, ep_checkpoint_refs := [sample_rel_key]\<rparr>"

definition sample_rel_member :: operation_burst_member where
  "sample_rel_member = sample_member\<lparr>bm_operation_id := 2, bm_host_occurrence_id := replicate 32 0,
    bm_work_binding_revision_id := 1, bm_side_effects := []\<rparr>"

definition sample_rel_burst :: operation_burst where
  "sample_rel_burst = sample_burst\<lparr>ob_execution_lane_id := 1, ob_members := [sample_rel_member],
    ob_primary_binding := wb_primary_binding sample_binding\<rparr>"

definition sample_rel_operation :: operation where
  "sample_rel_operation = \<lparr>opn_operation_id = 2, opn_host_occurrence_id = replicate 32 0,
    opn_execution_lane_id = Some 1, opn_operation_kind = OpRead,
    opn_input_source_observation_refs = [[1]], opn_result_source_observation_refs = [],
    opn_pairing_state = UnmatchedIntent, opn_scope_effect_ids = [], opn_artifact_refs = [],
    opn_operation_resolver_version = 1, opn_operation_revision = 1,
    opn_previous_operation_revision = None, opn_source_local_pairing = None\<rparr>"

definition sample_rel_workstream :: workstream where
  "sample_rel_workstream = the (scv_workstreams sample_view 4)"

definition sample_rel_tables :: "task \<Rightarrow> source_observation \<Rightarrow> episode_tables" where
  "sample_rel_tables tk obs = \<lparr>et_episodes = [(5, sample_rel_current, 9)],
    et_episode_revisions = [(2, sample_rel_episode, 7), (3, sample_rel_current, 9)],
    et_checkpoints = [(sample_rel_key, sample_rel_checkpoint, 8)], et_corrections = [],
    et_tasks = [(3, tk\<lparr>tk_task_id := 3\<rparr>, 1)], et_workstreams = [(4, sample_rel_workstream, 2)],
    et_attempts = [(1, sample_attempt, 3)], et_attempt_revisions = [], et_competing_groups = [],
    et_bindings = [(1, sample_binding, 3)], et_operation_bursts = [(1, sample_rel_burst, 4)],
    et_operation_revisions = [((2, 1), sample_rel_operation, 3)],
    et_host_occurrences = [(replicate 32 0, sample_occurrence, 3)],
    et_source_observations = [([1], obs, 3)], et_scope_effects = [],
    et_lanes = [(1, sample_lane, 3)], et_receipt_revisions = [(2, sample_receipt, 3)],
    et_capture_gaps = [], et_capture_outages = [], et_worktree_snapshots = [],
    et_worktree_transitions = [], et_integration_events = []\<rparr>"

lemma sample_summary: "capture_summary_from_receipts [sample_receipt] = Ok sample_summary"
  using sample_receipt_valid by (simp add: sample_summary_def capture_summary_from_receipts_def Let_def)

lemma sample_rel_receipt:
  "cr_execution_lane_id sample_receipt = 1" "cr_capture_gap_marker_refs sample_receipt = []"
  "cr_capture_outage_interval_refs sample_receipt = []" "cr_import_watermark sample_receipt = 0"
  by (simp_all add: sample_receipt_def build_receipt_def sample_input_def unique_sorted_def btree_set_def)

lemma sample_rel_key_text: "bounded_strings [sample_rel_key]"
proof -
  have "length (hyphenated sample_uuid_lib u) = 36" for u using sample_uuid_lib_ok by (simp add: uuid_lib_ok_def)
  then have "length sample_rel_key \<le> MAX_TEXT"
    by (simp add: sample_rel_key_def work_checkpoint_stable_key_def uuid_id_to_string_def MAX_TEXT_def
        sample_rel_checkpoint_def build_work_checkpoint_def sample_rel_episode_def EPISODE_ALGORITHM_REVISION_def
        decimal.simps)
  moreover have "\<not> blank sample_rel_key"
    by (simp add: sample_rel_key_def work_checkpoint_stable_key_def uuid_id_to_string_def blank_def)
  ultimately show ?thesis by (simp add: bounded_strings_def bounded_text_def MAX_REFS_def)
qed

lemma sample_rel_valid:
  "work_episode_validate sample_rel_episode = Ok ()" "work_episode_validate sample_rel_current = Ok ()"
  "work_checkpoint_validate sample_rel_checkpoint = Ok ()"
proof -
  have s: "capture_summary_validate sample_summary = Ok ()" using from_receipts_valid [OF sample_summary] .
  show "work_episode_validate sample_rel_episode = Ok ()"
    by (simp add: work_episode_validate_def phase_contract_validate_def s work_episode_all_lists_def
        sample_episode_def sample_rel_episode_def bounded_text_def blank_def MAX_TEXT_def Let_def)
  show "work_episode_validate sample_rel_current = Ok ()"
    by (simp add: work_episode_validate_def phase_contract_validate_def s work_episode_all_lists_def
        sample_episode_def sample_rel_episode_def sample_rel_current_def bounded_text_def blank_def MAX_TEXT_def
        Let_def sample_rel_key_text)
  show "work_checkpoint_validate sample_rel_checkpoint = Ok ()"
    by (simp add: work_checkpoint_validate_def sample_rel_checkpoint_def build_work_checkpoint_def sample_rel_episode_def
        sample_episode_def phase_contract_validate_def bounded_text_def blank_def MAX_TEXT_def
        EPISODE_ALGORITHM_REVISION_def sort_dedup_def)
qed

lemma sample_rel_member_good: "\<not> member_bad (sample_rel_tables tk obs) sample_rel_burst sample_rel_member"
  by (simp add: member_bad_def sample_rel_tables_def sample_rel_member_def sample_member_def sample_rel_burst_def
      sample_burst_def btm_get_def btm_contains_key_def member_attempt_of_def sample_rel_operation_def
      sample_occurrence_def sample_binding_def member_has_exact_physical_provenance_def Let_def sort_dedup_def)

lemma sample_rel_step:
  "episode_step (sample_rel_tables tk obs) ([], []) (5, sample_rel_current, 9) = Ok ([(4, 5)], [1])"
proof -
  let ?t = "sample_rel_tables tk obs"
  have ctx: "episode_context_ok ?t sample_rel_current = Ok sample_rel_workstream"
    by (simp add: episode_context_ok_def sample_rel_valid)
      (simp add: sample_rel_tables_def sample_rel_current_def sample_rel_episode_def sample_episode_def fetch_def
        btm_get_def ok_or_def corrupt_if_def sample_rel_workstream_def sample_view_def)
  have opn: "episode_open_ok [] 5 sample_rel_current sample_rel_workstream = Ok [(4, 5)]"
    by (simp add: episode_open_ok_def sample_rel_current_def sample_rel_episode_def sample_episode_def
        sample_rel_workstream_def sample_view_def)
  have att: "episode_attempts_ok ?t 5 sample_rel_current = Ok ()"
    by (simp add: episode_attempts_ok_def sample_rel_current_def sample_rel_episode_def sample_episode_def
        sample_rel_tables_def btm_contains_key_def btm_get_def corrupt_if_def)
  have cap: "episode_capture_ok ?t sample_rel_current = Ok ()"
    by (simp add: episode_capture_ok_def sample_rel_current_def sample_rel_episode_def sample_episode_def
        sample_rel_tables_def fetch_def btm_get_def ok_or_def Let_def sample_rel_receipt sample_summary corrupt_if_def
        sort_dedup_def)
  have bur: "replay (burst_step ?t sample_rel_current) ([], []) [1] = Ok ([1], [(2, 1)])"
  proof -
    have "\<not> burst_context_bad ?t sample_rel_current sample_rel_burst"
      by (simp add: burst_context_bad_def sample_rel_current_def sample_rel_episode_def sample_rel_burst_def
          sample_burst_def sample_binding_def)
    moreover have "ob_members sample_rel_burst = [sample_rel_member]" by (simp add: sample_rel_burst_def)
    moreover have "fetch (et_operation_bursts ?t) 1 = Ok sample_rel_burst"
      by (simp add: sample_rel_tables_def fetch_def btm_get_def ok_or_def)
    moreover have "(bm_operation_id sample_rel_member, bm_operation_revision sample_rel_member) = (2, 1)"
      by (simp add: sample_rel_member_def sample_member_def)
    ultimately show ?thesis by (simp add: sample_rel_member_good)
  qed
  have cnt: "open_burst_count ?t sample_rel_current \<le> 1" "ep_lifecycle_status sample_rel_current = EpisodeOpen"
    by (simp_all add: open_burst_count_def sample_rel_current_def sample_rel_episode_def sample_episode_def)
  have rest: "candidate_evidence_ok ?t sample_rel_current = Ok ()" "episode_refs_ok ?t 5 sample_rel_current = Ok ()"
    by (simp_all add: candidate_evidence_ok_def episode_refs_ok_def sample_rel_current_def sample_rel_episode_def
        sample_episode_def if_some_def sample_rel_tables_def fetch_def btm_get_def ok_or_def corrupt_if_def
        sample_rel_checkpoint_def build_work_checkpoint_def)
  have refs: "ep_operation_burst_refs sample_rel_current = [1]"
    by (simp add: sample_rel_current_def sample_rel_episode_def)
  show ?thesis using bur cnt by (simp only: episode_step.simps ctx opn att cap refs rest and_then.simps prod.case) simp
qed

lemma sample_rel_accepted: "validate_episode_relations sample_uuid_lib zero_digest (sample_rel_tables tk obs) = Ok ()"
proof -
  let ?t = "sample_rel_tables tk obs"
  have ep: "et_episodes ?t = [(5, sample_rel_current, 9)]" by (simp add: sample_rel_tables_def)
  have others: "workstreams_ok ?t [(4, 5)] = Ok ()" "attempts_linked ?t = Ok ()" "bindings_linked ?t = Ok ()"
    "bursts_owned ?t = Ok ()" "for_each (correction_relation_ok ?t) (et_corrections ?t) = Ok ()"
    by (simp_all add: workstreams_ok_def attempts_linked_def bindings_linked_def bursts_owned_def sample_rel_tables_def
        btm_get_def btm_values_def corrupt_if_def fetch_def ok_or_def if_some_def sample_rel_workstream_def sample_view_def
        sample_binding_def sample_attempt_def sample_rel_current_def sample_rel_episode_def sample_episode_def)
  have "\<not> derive_rejects zero_digest sample_rel_episode [] None"
    by (simp add: derive_rejects_def sample_rel_episode_def sample_episode_def)
  then have "work_checkpoint_derive sample_uuid_lib zero_digest sample_rel_episode [] None ReasonStop = Ok sample_rel_checkpoint"
    by (simp add: derive_Ok_iff sample_rel_valid sample_rel_checkpoint_def [symmetric])
  moreover have "ck_episode_id sample_rel_checkpoint = 5" "ck_episode_revision_id sample_rel_checkpoint = 2"
    "ck_attempt_revision_refs sample_rel_checkpoint = []" "ck_current_worktree_snapshot_id sample_rel_checkpoint = None"
    "ck_created_reason sample_rel_checkpoint = ReasonStop"
    by (simp_all add: sample_rel_checkpoint_def build_work_checkpoint_def sample_rel_episode_def sample_episode_def)
  moreover have "ep_episode_id sample_rel_episode = 5" "ep_checkpoint_refs sample_rel_current = [sample_rel_key]"
    by (simp_all add: sample_rel_episode_def sample_rel_current_def)
  ultimately have "for_each (checkpoint_relation_ok sample_uuid_lib zero_digest ?t) (et_checkpoints ?t) = Ok ()"
    by (simp add: sample_rel_tables_def checkpoint_relation_ok_def btm_get_def fetch_def ok_or_def checkpoint_snapshot_def
        corrupt_if_def sample_rel_key_def)
  with others show ?thesis
    by (simp only: validate_episode_relations_def ep replay.simps sample_rel_step and_then.simps prod.case)
qed

lemma sample_rel_lookups:
  "btm_sorted (et_episodes (sample_rel_tables tk obs))"
  "btm_get (et_workstreams (sample_rel_tables tk obs)) 4 = Some (sample_rel_workstream, 2)"
  "btm_get (et_operation_bursts (sample_rel_tables tk obs)) 1 = Some (sample_rel_burst, 4)"
  "btm_get (et_episodes (sample_rel_tables tk obs)) 5 = Some (sample_rel_current, 9)"
  "btm_get (et_checkpoints (sample_rel_tables tk obs)) sample_rel_key = Some (sample_rel_checkpoint, 8)"
  by (simp_all add: sample_rel_tables_def btm_sorted_def btm_get_def)

theorem one_open_episode_witness:
  "\<forall>tk obs. ws_active_episode_id sample_rel_workstream = Some 5 \<longleftrightarrow>
    (\<exists>e s. btm_get (et_episodes (sample_rel_tables tk obs)) 5 = Some (e, s) \<and> ep_workstream_id e = 4
      \<and> ep_lifecycle_status e = EpisodeOpen)"
  using one_open_episode [OF sample_rel_accepted sample_rel_lookups(1,2)] by blast

theorem burst_owned_once_witness:
  "\<forall>tk obs. \<exists>!i. \<exists>e s. btm_get (et_episodes (sample_rel_tables tk obs)) i = Some (e, s)
    \<and> 1 \<in> set (ep_operation_burst_refs e)"
  using burst_owned_once [OF sample_rel_accepted sample_rel_lookups(1,3)] by blast

theorem attempt_episode_agree_witness:
  "\<forall>tk obs. at_episode_id sample_attempt = Some 5 \<longleftrightarrow>
    (\<exists>e r. btm_get (et_episodes (sample_rel_tables tk obs)) 5 = Some (e, r) \<and> 1 \<in> set (ep_attempt_ids e)
      \<and> ep_task_id e = at_task_id sample_attempt \<and> ep_workstream_id e = at_workstream_id sample_attempt)"
proof (intro allI)
  fix tk obs
  have "btm_get (et_attempts (sample_rel_tables tk obs)) 1 = Some (sample_attempt, 3)"
    by (simp add: sample_rel_tables_def btm_get_def)
  from attempt_episode_agree [OF sample_rel_accepted this, of 5]
  show "at_episode_id sample_attempt = Some 5 \<longleftrightarrow>
    (\<exists>e r. btm_get (et_episodes (sample_rel_tables tk obs)) 5 = Some (e, r) \<and> 1 \<in> set (ep_attempt_ids e)
      \<and> ep_task_id e = at_task_id sample_attempt \<and> ep_workstream_id e = at_workstream_id sample_attempt)" .
qed

definition sample_snapshot_tables :: "task \<Rightarrow> source_observation \<Rightarrow> episode_tables" where
  "sample_snapshot_tables tk obs = (sample_rel_tables tk obs)\<lparr>et_worktree_snapshots := [(3, sample_snapshot, 2)]\<rparr>"

theorem snapshot_rerecord_breaks_checkpoint_witness:
  "\<forall>tk obs. checkpoint_snapshot (sample_snapshot_tables tk obs)
      (sample_rel_checkpoint\<lparr>ck_current_worktree_snapshot_id := Some 3\<rparr>) 8 = Ok (Some sample_snapshot)
    \<and> (\<exists>m. replace_snapshot [(3, sample_snapshot, 2)] sample_snapshot 12 = Ok m
      \<and> checkpoint_snapshot ((sample_snapshot_tables tk obs)\<lparr>et_worktree_snapshots := m\<rparr>)
          (sample_rel_checkpoint\<lparr>ck_current_worktree_snapshot_id := Some 3\<rparr>) 8 = Err StoreCorrupt)"
proof (intro allI)
  fix tk obs
  have get: "btm_get (et_worktree_snapshots (sample_snapshot_tables tk obs)) j
      = (if j = 3 then Some (sample_snapshot, 2) else None)" for j
    by (simp add: sample_snapshot_tables_def btm_get_def)
  have s: "btm_sorted (et_worktree_snapshots (sample_snapshot_tables tk obs))"
    "et_worktree_snapshots (sample_snapshot_tables tk obs) = [(3, sample_snapshot, 2)]"
    by (simp_all add: sample_snapshot_tables_def btm_sorted_def)
  show "checkpoint_snapshot (sample_snapshot_tables tk obs)
      (sample_rel_checkpoint\<lparr>ck_current_worktree_snapshot_id := Some 3\<rparr>) 8 = Ok (Some sample_snapshot)
    \<and> (\<exists>m. replace_snapshot [(3, sample_snapshot, 2)] sample_snapshot 12 = Ok m
      \<and> checkpoint_snapshot ((sample_snapshot_tables tk obs)\<lparr>et_worktree_snapshots := m\<rparr>)
          (sample_rel_checkpoint\<lparr>ck_current_worktree_snapshot_id := Some 3\<rparr>) 8 = Err StoreCorrupt)"
    unfolding s(2) [symmetric]
    by (rule snapshot_rerecord_breaks_checkpoint [of _ 3 sample_snapshot 2])
      (use get s(1) in \<open>auto simp: sample_snapshot_def split: if_splits\<close>)
qed

end
