(* ===== verification/Work_Store.thy ===== *)
theory Work_Store
  imports Episode_Relations
begin

text \<open>
  The work tables of the store (\<open>evertrace-store/src/projections.rs\<close>): how journal records of
  tasks, workstreams, bindings, attempts and competing groups are folded into the current
  maps, and the checks of the merged state that relate them: \<open>validate_work_identity_relations\<close>
  with the depth-first search over workstream dependencies, \<open>validate_attempt_relations\<close>
  with the one over attempt compositions, and \<open>current_binding_lineage\<close>. The two searches
  are shown to accept exactly the acyclic graphs.
\<close>

section \<open>Recording\<close>

definition replace_task ::
  "(task_id, task \<times> u64) btree_map \<Rightarrow> task \<Rightarrow> u64 \<Rightarrow> (store_error, (task_id, task \<times> u64) btree_map) result" where
  "replace_task values value seq =
    and_then (map_err (\<lambda>_. StoreCorrupt) (task_validate value)) (\<lambda>_.
    case btm_get values (tk_task_id value) of
      None \<Rightarrow>
        if is_some (tk_predecessor_revision_id value) then Err StoreCorrupt
        else Ok (btm_insert (tk_task_id value) (value, seq) values)
    | Some (current, _) \<Rightarrow>
        if current = value then Ok (btm_insert (tk_task_id value) (value, seq) values)
        else if tk_revision_id value = tk_revision_id current
          \<or> tk_predecessor_revision_id value \<noteq> Some (tk_revision_id current)
          \<or> tk_created_at_us value \<noteq> tk_created_at_us current
          \<or> tk_source_watermark value \<le> tk_source_watermark current
          \<or> task_lifecycle_is_terminal (tk_lifecycle current)
          \<or> tk_continuation_of_task_id value \<noteq> tk_continuation_of_task_id current
          \<or> tk_split_from_task_id value \<noteq> tk_split_from_task_id current
          \<or> tk_merged_from_task_ids value \<noteq> tk_merged_from_task_ids current
        then Err StoreCorrupt
        else Ok (btm_insert (tk_task_id value) (value, seq) values))"

definition workstream_status_is_terminal :: "workstream_status \<Rightarrow> bool" where
  "workstream_status_is_terminal s \<longleftrightarrow> s \<in> {WorkstreamClosed, WorkstreamSuperseded}"

definition replace_workstream ::
  "(workstream_id, workstream \<times> u64) btree_map \<Rightarrow> workstream \<Rightarrow> u64
    \<Rightarrow> (store_error, (workstream_id, workstream \<times> u64) btree_map) result" where
  "replace_workstream values value seq =
    and_then (map_err (\<lambda>_. StoreCorrupt) (workstream_validate value)) (\<lambda>_.
    case btm_get values (ws_workstream_id value) of
      None \<Rightarrow>
        if is_some (ws_predecessor_revision_id value) then Err StoreCorrupt
        else Ok (btm_insert (ws_workstream_id value) (value, seq) values)
    | Some (current, _) \<Rightarrow>
        if current = value then Ok (btm_insert (ws_workstream_id value) (value, seq) values)
        else if ws_revision_id value = ws_revision_id current
          \<or> ws_predecessor_revision_id value \<noteq> Some (ws_revision_id current)
          \<or> ws_task_id value \<noteq> ws_task_id current
          \<or> ws_repository_instance_id value \<noteq> ws_repository_instance_id current
          \<or> ws_root_goal value \<noteq> ws_root_goal current
          \<or> ws_source_watermark value \<le> ws_source_watermark current
          \<or> workstream_status_is_terminal (ws_status current)
        then Err StoreCorrupt
        else Ok (btm_insert (ws_workstream_id value) (value, seq) values))"

definition replace_work_binding ::
  "(work_binding_revision_id, work_binding_revision \<times> u64) btree_map \<Rightarrow> work_binding_revision \<Rightarrow> u64
    \<Rightarrow> (store_error, (work_binding_revision_id, work_binding_revision \<times> u64) btree_map) result" where
  "replace_work_binding values value seq =
    and_then (map_err (\<lambda>_. StoreCorrupt) (work_binding_revision_validate value)) (\<lambda>_.
    case btm_get values (wb_work_binding_revision_id value) of
      Some (existing, _) \<Rightarrow> if existing = value then Ok values else Err StoreCorrupt
    | None \<Rightarrow> Ok (btm_insert (wb_work_binding_revision_id value) (value, seq) values))"

definition replace_attempt ::
  "(bytes \<Rightarrow> bytes) \<Rightarrow> (attempt_id, attempt) seq_map \<Rightarrow> attempt \<Rightarrow> u64
    \<Rightarrow> (store_error, (attempt_id, attempt) seq_map) result" where
  "replace_attempt sha256_digest values value seq = (case values (at_attempt_id value) of
      None \<Rightarrow>
        if \<not> is_ok (attempt_validate sha256_digest value) \<or> at_revision_generation value \<noteq> 1
           \<or> is_some (at_predecessor_revision_id value)
        then Err StoreCorrupt
        else Ok (values(at_attempt_id value \<mapsto> (value, seq)))
    | Some (current, _) \<Rightarrow>
        if current = value then Ok values
        else and_then (map_err (\<lambda>_. StoreCorrupt) (attempt_validate_successor sha256_digest current value)) (\<lambda>_.
          Ok (values(at_attempt_id value \<mapsto> (value, seq)))))"

definition record_attempt ::
  "(bytes \<Rightarrow> bytes) \<Rightarrow> (attempt_id, attempt) seq_map \<Rightarrow> (revision_id, attempt) seq_map \<Rightarrow> attempt \<Rightarrow> u64
    \<Rightarrow> (store_error, (attempt_id, attempt) seq_map \<times> (revision_id, attempt) seq_map) result" where
  "record_attempt sha256_digest current revisions value seq = (case revisions (at_revision_id value) of
      Some (existing, _) \<Rightarrow> if existing = value then Ok (current, revisions) else Err StoreCorrupt
    | None \<Rightarrow>
        and_then (replace_attempt sha256_digest current value seq) (\<lambda>current'.
        Ok (current', revisions(at_revision_id value \<mapsto> (value, seq)))))"

definition replace_competing_group ::
  "(competing_attempt_group_id, competing_attempt_group) seq_map \<Rightarrow> competing_attempt_group \<Rightarrow> u64
    \<Rightarrow> (store_error, (competing_attempt_group_id, competing_attempt_group) seq_map) result" where
  "replace_competing_group values value seq = (case values (cg_competing_group_id value) of
      None \<Rightarrow>
        if \<not> is_ok (competing_attempt_group_validate value) \<or> cg_revision_generation value \<noteq> 1
           \<or> is_some (cg_predecessor_revision_id value)
           \<or> cg_resolution_status value \<noteq> ResolutionOpen
        then Err StoreCorrupt
        else Ok (values(cg_competing_group_id value \<mapsto> (value, seq)))
    | Some (current, _) \<Rightarrow>
        if current = value then Ok values
        else and_then (map_err (\<lambda>_. StoreCorrupt) (competing_attempt_group_validate_successor current value)) (\<lambda>_.
          Ok (values(cg_competing_group_id value \<mapsto> (value, seq)))))"

definition record_competing_group ::
  "(competing_attempt_group_id, competing_attempt_group) seq_map
    \<Rightarrow> (revision_id, competing_attempt_group) seq_map \<Rightarrow> competing_attempt_group \<Rightarrow> u64
    \<Rightarrow> (store_error, (competing_attempt_group_id, competing_attempt_group) seq_map
        \<times> (revision_id, competing_attempt_group) seq_map) result" where
  "record_competing_group current revisions value seq = (case revisions (cg_revision_id value) of
      Some (existing, _) \<Rightarrow> if existing = value then Ok (current, revisions) else Err StoreCorrupt
    | None \<Rightarrow>
        and_then (replace_competing_group current value seq) (\<lambda>current'.
        Ok (current', revisions(cg_revision_id value \<mapsto> (value, seq)))))"

section \<open>The current binding of every operation\<close>

definition binding_current_of :: "work_binding_revision list \<Rightarrow> (store_error, work_binding_revision) result" where
  "binding_current_of bindings =
    (let revisions = sort_key wb_revision_generation bindings in
     and_then (chain_check (\<lambda>_. True) wb_revision_generation wb_predecessor_revision_id
        wb_work_binding_revision_id (\<lambda>p b. is_ok (work_binding_revision_validate_successor p b)) None 0 revisions) (\<lambda>_.
     ok_or StoreCorrupt (deque_back revisions)))"

definition current_binding_lineage ::
  "work_binding_revision list \<Rightarrow> (store_error, (operation_id, work_binding_revision) btree_map) result" where
  "current_binding_lineage bindings =
    and_then (for_each (\<lambda>b. map_err (\<lambda>_. StoreCorrupt) (work_binding_revision_validate b)) bindings) (\<lambda>_.
    try_map (\<lambda>(operation_id, revisions). and_then (binding_current_of revisions) (\<lambda>latest. Ok (operation_id, latest)))
      (group_by_id wb_operation_id bindings))"

section \<open>Tasks and workstreams of the merged state\<close>

definition task_relation_ok ::
  "(task_id, task \<times> u64) btree_map \<Rightarrow> (repository_id, repository_instance \<times> u64) btree_map
    \<Rightarrow> (worktree_id, worktree_instance \<times> u64) btree_map \<Rightarrow> task \<Rightarrow> (store_error, unit) result" where
  "task_relation_ok tasks repositories worktrees t =
    and_then (for_each (\<lambda>referenced. corrupt_if (\<not> btm_contains_key tasks referenced))
      (opt_iter (tk_continuation_of_task_id t) @ opt_iter (tk_split_from_task_id t)
        @ tk_split_into_task_ids t @ tk_merged_from_task_ids t @ opt_iter (tk_merged_into_task_id t))) (\<lambda>_.
    for_each (\<lambda>membership. if_some (\<lambda>repository_id.
        and_then (corrupt_if (\<not> btm_contains_key repositories repository_id)) (\<lambda>_.
        for_each (\<lambda>worktree_id. and_then (fetch worktrees worktree_id) (\<lambda>worktree.
            corrupt_if (wt_repository_instance_id worktree \<noteq> repository_id)))
          (tsm_worktree_instance_ids membership)))
      (tsm_repository_instance_id membership)) (tk_scope_memberships t))"

definition workstream_relation_ok ::
  "(task_id, task \<times> u64) btree_map \<Rightarrow> (workstream_id, workstream \<times> u64) btree_map
    \<Rightarrow> (worktree_id, worktree_instance \<times> u64) btree_map \<Rightarrow> workstream \<Rightarrow> (store_error, unit) result" where
  "workstream_relation_ok tasks workstreams worktrees w =
    and_then (fetch tasks (ws_task_id w)) (\<lambda>t.
    and_then (if_some (\<lambda>repository_id.
        and_then (ok_or StoreCorrupt
          (find (\<lambda>m. tsm_repository_instance_id m = Some repository_id) (tk_scope_memberships t))) (\<lambda>membership.
        and_then (corrupt_if (\<exists>i \<in> set (ws_worktree_instance_ids w). i \<notin> set (tsm_worktree_instance_ids membership)))
          (\<lambda>_. for_each (\<lambda>worktree_id. and_then (fetch worktrees worktree_id) (\<lambda>worktree.
              corrupt_if (wt_repository_instance_id worktree \<noteq> repository_id))) (ws_worktree_instance_ids w))))
      (ws_repository_instance_id w)) (\<lambda>_.
    for_each (\<lambda>dependency_id. and_then (fetch workstreams dependency_id) (\<lambda>dependency.
        corrupt_if (ws_task_id dependency \<noteq> ws_task_id w)))
      (ws_dependency_workstream_ids w @ opt_iter (ws_parent_workstream_id w))))"

text \<open>
  The depth-first search over dependencies. \<open>visiting\<close> holds the workstreams on the
  current path: the source inserts one on the way down and removes it on the way up, so it
  is passed down; \<open>visited\<close> only grows and is returned.
\<close>

function (sequential)
  visit :: "(workstream_id, workstream \<times> u64) btree_map \<Rightarrow> workstream_id \<Rightarrow> workstream_id set
    \<Rightarrow> workstream_id set \<Rightarrow> (store_error, workstream_id set) result"
and visit_each :: "(workstream_id, workstream \<times> u64) btree_map \<Rightarrow> workstream_id list \<Rightarrow> workstream_id set
    \<Rightarrow> workstream_id set \<Rightarrow> (store_error, workstream_id set) result" where
  "visit workstreams i visiting visited =
    (if i \<in> visited then Ok visited
     else if i \<in> visiting then Err StoreCorrupt
     else (case btm_get workstreams i of
         None \<Rightarrow> Err StoreCorrupt
       | Some (w, _) \<Rightarrow>
           and_then (visit_each workstreams (ws_dependency_workstream_ids w) (insert i visiting) visited) (\<lambda>visited'.
           Ok (insert i visited'))))"
| "visit_each workstreams [] visiting visited = Ok visited"
| "visit_each workstreams (i # ids) visiting visited =
    and_then (visit workstreams i visiting visited) (\<lambda>visited'. visit_each workstreams ids visiting visited')"
  by pat_completeness auto
termination
  by (relation "inv_image (less_than <*lex*> less_than) (\<lambda>x. case x of
        Inl (m, i, visiting, _) \<Rightarrow> (card (dom (btm_get m) - visiting), 0)
      | Inr (m, ids, visiting, _) \<Rightarrow> (card (dom (btm_get m) - visiting), length ids))")
    (auto simp: btm_get_def finite_dom_map_of intro!: psubset_card_mono)

definition validate_work_identity_relations ::
  "(task_id, task \<times> u64) btree_map \<Rightarrow> (workstream_id, workstream \<times> u64) btree_map
    \<Rightarrow> (repository_id, repository_instance \<times> u64) btree_map \<Rightarrow> (worktree_id, worktree_instance \<times> u64) btree_map
    \<Rightarrow> (store_error, unit) result" where
  "validate_work_identity_relations tasks workstreams repositories worktrees =
    and_then (for_each (\<lambda>(t, _). task_relation_ok tasks repositories worktrees t) (btm_values tasks)) (\<lambda>_.
    and_then (for_each (\<lambda>(w, _). workstream_relation_ok tasks workstreams worktrees w) (btm_values workstreams)) (\<lambda>_.
    and_then (visit_each workstreams (map fst workstreams) {} {}) (\<lambda>_. Ok ())))"

section \<open>Attempts and groups of the merged state\<close>

text \<open>
  The depth-first search over compositions. An attempt that is not stored has no sources
  here; the relation check below rejects it. On a cycle the search stops with \<open>None\<close>.
\<close>

function (sequential)
  composition_cycle :: "(attempt_id, attempt \<times> u64) btree_map \<Rightarrow> attempt_id \<Rightarrow> attempt_id set
    \<Rightarrow> attempt_id set \<Rightarrow> attempt_id set option"
and composition_cycle_any :: "(attempt_id, attempt \<times> u64) btree_map \<Rightarrow> attempt_id list \<Rightarrow> attempt_id set
    \<Rightarrow> attempt_id set \<Rightarrow> attempt_id set option" where
  "composition_cycle attempts i visiting visited =
    (if i \<in> visited then Some visited
     else if i \<in> visiting then None
     else (case btm_get attempts i of
         None \<Rightarrow> Some (insert i visited)
       | Some (a, _) \<Rightarrow>
           Option.bind (composition_cycle_any attempts (at_composed_from_attempt_ids a) (insert i visiting) visited)
             (\<lambda>visited'. Some (insert i visited'))))"
| "composition_cycle_any attempts [] visiting visited = Some visited"
| "composition_cycle_any attempts (i # ids) visiting visited =
    Option.bind (composition_cycle attempts i visiting visited) (\<lambda>visited'.
    composition_cycle_any attempts ids visiting visited')"
  by pat_completeness auto
termination
  by (relation "inv_image (less_than <*lex*> less_than) (\<lambda>x. case x of
        Inl (m, i, visiting, _) \<Rightarrow> (card (dom (btm_get m) - visiting), 0)
      | Inr (m, ids, visiting, _) \<Rightarrow> (card (dom (btm_get m) - visiting), length ids))")
    (auto simp: btm_get_def finite_dom_map_of intro!: psubset_card_mono)

definition integration_links_ok :: "episode_tables \<Rightarrow> integration_event \<Rightarrow> (store_error, unit) result" where
  "integration_links_ok t event = for_each (\<lambda>attempt_id. and_then (fetch (et_attempts t) attempt_id) (\<lambda>a.
     corrupt_if (ie_integration_event_id event \<notin> set (at_integration_event_refs a)))) (ie_integrated_attempt_ids event)"

definition attempt_scope_bad :: "episode_tables \<Rightarrow> workstream \<Rightarrow> attempt \<Rightarrow> bool" where
  "attempt_scope_bad t workstream a \<longleftrightarrow>
    ws_task_id workstream \<noteq> at_task_id a
    \<or> at_repository_instance_id a \<noteq> ws_repository_instance_id workstream
    \<or> (\<exists>i \<in> set (at_worktree_instance_ids a). i \<notin> set (ws_worktree_instance_ids workstream))
    \<or> (\<exists>i \<in> set (at_execution_lane_ids a).
        \<not> btm_contains_key (et_lanes t) i \<or> i \<notin> set (ws_execution_lane_ids workstream))"

text \<open>The lanes of an attempt; all of them are known to be stored when this is used.\<close>

definition attempt_lanes :: "episode_tables \<Rightarrow> attempt \<Rightarrow> execution_lane list" where
  "attempt_lanes t a = List.map_filter (\<lambda>i. map_option fst (btm_get (et_lanes t) i)) (at_execution_lane_ids a)"

definition attempt_lanes_bad :: "episode_tables \<Rightarrow> attempt \<Rightarrow> bool" where
  "attempt_lanes_bad t a = (let lanes = attempt_lanes t a in case at_execution_status a of
      ExecProposed \<Rightarrow> False
    | ExecAbandoned \<Rightarrow> False
    | ExecActive \<Rightarrow> \<not> (\<exists>lane \<in> set lanes. el_status lane = LaneActive)
    | ExecInterrupted \<Rightarrow> (\<exists>lane \<in> set lanes. el_status lane \<notin> {LaneInterrupted, LaneInterruptedUnconfirmed})
    | ExecCompleted \<Rightarrow>
        (\<exists>lane \<in> set lanes. el_status lane \<in> {LaneActive, LaneUnresolved})
        \<or> (\<not> (\<exists>lane \<in> set lanes. el_status lane \<in> {LaneReturned, LaneStopped})
            \<and> at_outcome_state a \<noteq> OutcomeKnown))"

definition lineage_topology ::
  "episode_tables \<Rightarrow> attempt \<Rightarrow> worktree_snapshot_id \<Rightarrow> worktree_snapshot \<Rightarrow> worktree_snapshot_id \<Rightarrow> worktree_snapshot \<Rightarrow> bool" where
  "lineage_topology t a source_id source target_id target \<longleftrightarrow>
    (\<exists>i \<in> set (at_worktree_transition_refs a). is_some_and (\<lambda>(value, _).
       wtr_from_worktree_instance_id value = wsn_worktree_instance_id source
       \<and> wtr_from_snapshot_id value = Some source_id
       \<and> wtr_to_worktree_instance_id value = wsn_worktree_instance_id target
       \<and> wtr_to_snapshot_id value = Some target_id) (btm_get (et_worktree_transitions t) i))"

text \<open>What a resumed attempt has to show: new active lanes and a target snapshot that fits.\<close>

definition attempt_resumption_ok ::
  "episode_tables \<Rightarrow> workstream \<Rightarrow> attempt \<Rightarrow> attempt \<Rightarrow> (store_error, unit) result" where
  "attempt_resumption_ok t workstream predecessor a =
    (let new_lanes = filter (\<lambda>i. i \<notin> set (at_execution_lane_ids predecessor)) (at_execution_lane_ids a) in
     and_then (corrupt_if (new_lanes = [] \<or> (\<exists>i \<in> set new_lanes.
         is_some_and (\<lambda>(lane, _). el_status lane \<noteq> LaneActive) (btm_get (et_lanes t) i)))) (\<lambda>_.
     and_then (ok_or StoreCorrupt (at_resume_target_snapshot_id a)) (\<lambda>target_id.
     and_then (fetch (et_worktree_snapshots t) target_id) (\<lambda>target.
     and_then (corrupt_if (wsn_worktree_instance_id target \<notin> set (at_worktree_instance_ids a)
         \<or> wsn_worktree_instance_id target \<notin> set (ws_worktree_instance_ids workstream))) (\<lambda>_.
     case at_resume_state_assessment a of
       Some ResumeCompatibleSameInstance \<Rightarrow>
         (case at_resume_source_snapshot_id a of
            Some source_id \<Rightarrow> and_then (fetch (et_worktree_snapshots t) source_id) (\<lambda>source.
              corrupt_if (wsn_worktree_instance_id source \<noteq> wsn_worktree_instance_id target))
          | None \<Rightarrow> corrupt_if (wsn_worktree_instance_id target \<notin> set (at_worktree_instance_ids predecessor)))
     | Some ResumeCompatibleLineageTransfer \<Rightarrow>
         and_then (ok_or StoreCorrupt (at_resume_source_snapshot_id a)) (\<lambda>source_id.
         and_then (fetch (et_worktree_snapshots t) source_id) (\<lambda>source.
         corrupt_if (wsn_worktree_instance_id source \<notin> set (at_worktree_instance_ids predecessor)
           \<or> \<not> lineage_topology t a source_id source target_id target)))
     | _ \<Rightarrow> Err StoreCorrupt)))))"

definition attempt_predecessor_ok :: "episode_tables \<Rightarrow> workstream \<Rightarrow> attempt \<Rightarrow> (store_error, unit) result" where
  "attempt_predecessor_ok t workstream a = if_some (\<lambda>predecessor_id.
     and_then (fetch (et_attempt_revisions t) predecessor_id) (\<lambda>predecessor.
     if at_execution_status predecessor = ExecInterrupted \<and> at_execution_status a = ExecActive
     then attempt_resumption_ok t workstream predecessor a else Ok ())) (at_predecessor_revision_id a)"

definition attempt_refs_ok :: "episode_tables \<Rightarrow> attempt \<Rightarrow> (store_error, unit) result" where
  "attempt_refs_ok t a =
    and_then (for_each (\<lambda>snapshot_id. and_then (fetch (et_worktree_snapshots t) snapshot_id) (\<lambda>snapshot.
        corrupt_if (wsn_worktree_instance_id snapshot \<notin> set (at_worktree_instance_ids a))))
      (opt_iter (at_resume_source_snapshot_id a) @ opt_iter (at_resume_target_snapshot_id a))) (\<lambda>_.
    and_then (corrupt_if ((\<exists>i \<in> set (at_worktree_transition_refs a). \<not> btm_contains_key (et_worktree_transitions t) i)
      \<or> (\<exists>i \<in> set (at_integration_event_refs a). \<not> is_some_and (\<lambda>(event, _).
            at_attempt_id a \<in> set (ie_integrated_attempt_ids event)) (btm_get (et_integration_events t) i)))) (\<lambda>_.
    and_then (for_each (\<lambda>binding_id. and_then (fetch (et_bindings t) binding_id) (\<lambda>binding.
        corrupt_if (wb_assignment_status binding \<noteq> AssignmentResolved
          \<or> pb_task_id (wb_primary_binding binding) \<noteq> Some (at_task_id a)
          \<or> pb_workstream_id (wb_primary_binding binding) \<noteq> Some (at_workstream_id a)
          \<or> pb_attempt_id (wb_primary_binding binding) \<noteq> Some (at_attempt_id a))))
      (at_work_binding_revision_refs a)) (\<lambda>_.
    and_then (for_each (\<lambda>source. and_then (fetch (et_attempts t) source) (\<lambda>source_attempt.
        corrupt_if (at_task_id source_attempt \<noteq> at_task_id a
          \<or> (source \<in> set (at_composed_from_attempt_ids a)
              \<and> at_strategy_contract_fingerprint source_attempt = at_strategy_contract_fingerprint a))))
      (at_composed_from_attempt_ids a @ opt_iter (at_resumes_from_attempt_id a))) (\<lambda>_.
    for_each (\<lambda>group_id. and_then (fetch (et_competing_groups t) group_id) (\<lambda>g.
        corrupt_if (at_attempt_id a \<notin> set (cg_member_attempt_ids g)))) (at_competing_group_ids a)))))"

definition attempt_relation_ok :: "episode_tables \<Rightarrow> attempt \<Rightarrow> (store_error, unit) result" where
  "attempt_relation_ok t a =
    and_then (fetch (et_workstreams t) (at_workstream_id a)) (\<lambda>workstream.
    and_then (corrupt_if (attempt_scope_bad t workstream a)) (\<lambda>_.
    and_then (corrupt_if (attempt_lanes_bad t a)) (\<lambda>_.
    and_then (attempt_predecessor_ok t workstream a) (\<lambda>_.
    attempt_refs_ok t a))))"

text \<open>
  The source indexes the map of attempts with the selected attempt; the selected attempt
  of a valid group is a member, and members were looked up before.
\<close>

definition group_relation_ok :: "episode_tables \<Rightarrow> competing_attempt_group \<Rightarrow> (store_error, unit) result" where
  "group_relation_ok t g =
    and_then (corrupt_if (is_some_and (\<lambda>i. \<not> is_some_and (\<lambda>(w, _). ws_task_id w = cg_task_id g)
        (btm_get (et_workstreams t) i)) (cg_origin_workstream_id g))) (\<lambda>_.
    and_then (for_each (\<lambda>member_id. and_then (fetch (et_attempts t) member_id) (\<lambda>a.
        corrupt_if (at_task_id a \<noteq> cg_task_id g
          \<or> at_workstream_id a \<notin> set (cg_member_workstream_ids g)
          \<or> cg_competing_group_id g \<notin> set (at_competing_group_ids a)))) (cg_member_attempt_ids g)) (\<lambda>_.
    and_then (corrupt_if (\<exists>i \<in> set (cg_member_workstream_ids g).
        \<not> is_some_and (\<lambda>(w, _). ws_task_id w = cg_task_id g) (btm_get (et_workstreams t) i))) (\<lambda>_.
    and_then (for_each (\<lambda>candidate.
        and_then (fetch (et_attempts t) (csr_attempt_id candidate)) (\<lambda>a.
        and_then (fetch (et_worktree_snapshots t) (csr_snapshot_id candidate)) (\<lambda>snapshot.
        corrupt_if (csr_attempt_id candidate \<notin> set (cg_member_attempt_ids g)
          \<or> at_workstream_id a \<noteq> csr_workstream_id candidate
          \<or> wsn_worktree_instance_id snapshot \<notin> set (at_worktree_instance_ids a)))))
      (cg_candidate_snapshot_refs g)) (\<lambda>_.
    and_then (if_some (\<lambda>selected. and_then (fetch (et_attempts t) selected) (\<lambda>a.
        corrupt_if (at_adoption_status a \<noteq> AdoptionIntegrated
          \<or> at_verification a \<noteq> VerificationPassed
          \<or> \<not> (\<exists>evidence \<in> set (at_parent_verification_refs a). evidence \<in> set (cg_resolution_evidence_refs g)))))
      (cg_selected_attempt_id g)) (\<lambda>_.
    corrupt_if (cg_resolution_status g = ResolutionPartiallyIntegrated
      \<and> (\<exists>i \<in> set (cg_partially_integrated_attempt_ids g).
          \<not> is_some_and (\<lambda>(a, _). at_adoption_status a \<in> {AdoptionPartiallyIntegrated, AdoptionIntegrated})
              (btm_get (et_attempts t) i))))))))"

definition validate_attempt_relations :: "episode_tables \<Rightarrow> (store_error, unit) result" where
  "validate_attempt_relations t =
    and_then (corrupt_if (composition_cycle_any (et_attempts t) (map fst (et_attempts t)) {} {} = None)) (\<lambda>_.
    and_then (for_each (\<lambda>(event, _). integration_links_ok t event) (btm_values (et_integration_events t))) (\<lambda>_.
    and_then (for_each (\<lambda>(a, _). attempt_relation_ok t a) (btm_values (et_attempts t))) (\<lambda>_.
    for_each (\<lambda>(g, _). group_relation_ok t g) (btm_values (et_competing_groups t)))))"

section \<open>Depth-first search\<close>

text \<open>A set that is closed under a relation and meets none of its cycles.\<close>

definition settled :: "('k \<times> 'k) set \<Rightarrow> 'k set \<Rightarrow> bool" where
  "settled E S \<longleftrightarrow> E `` S \<subseteq> S \<and> (\<forall>x \<in> S. (x, x) \<notin> E\<^sup>+)"

lemma settled_empty [simp]: "settled E {}"
  by (simp add: settled_def)

lemma settled_insert:
  assumes "settled E S" and "E `` {i} \<subseteq> S" and "i \<notin> S"
  shows "settled E (insert i S)"
proof -
  have closed: "E\<^sup>* `` S \<subseteq> S" using assms(1) by (simp add: settled_def Image_closed_trancl)
  have "(i, i) \<notin> E\<^sup>+"
  proof
    assume "(i, i) \<in> E\<^sup>+"
    then obtain j where "(i, j) \<in> E" "(j, i) \<in> E\<^sup>*" by (meson tranclD)
    with assms(2,3) closed show False by blast
  qed
  with assms(1,2) show ?thesis by (auto simp: settled_def)
qed

text \<open>
  The interface of the two searches of this theory: entering a node succeeds at once if it
  was visited, fails if it lies on the current path or is unknown, and otherwise visits its
  successors first. \<open>K\<close> is a finite set that holds every node with a successor.
\<close>

locale depth_first =
  fixes succs :: "'k \<Rightarrow> 'k list option"
    and enter :: "'k \<Rightarrow> 'k set \<Rightarrow> 'k set \<Rightarrow> 'k set option"
    and enter_each :: "'k list \<Rightarrow> 'k set \<Rightarrow> 'k set \<Rightarrow> 'k set option"
    and K :: "'k set"
  assumes finite_K: "finite K"
    and succs_K: "succs i = Some js \<Longrightarrow> js \<noteq> [] \<Longrightarrow> i \<in> K"
    and enter: "enter i visiting visited =
      (if i \<in> visited then Some visited else if i \<in> visiting then None
       else Option.bind (succs i) (\<lambda>js.
         Option.bind (enter_each js (insert i visiting) visited) (\<lambda>visited'. Some (insert i visited'))))"
    and each_Nil: "enter_each [] visiting visited = Some visited"
    and each_Cons: "enter_each (i # ids) visiting visited =
      Option.bind (enter i visiting visited) (\<lambda>visited'. enter_each ids visiting visited')"
begin

definition edges :: "('k \<times> 'k) set" where
  "edges = {(i, j). \<exists>js. succs i = Some js \<and> j \<in> set js}"

lemma edges_of: "succs i = Some js \<Longrightarrow> edges `` {i} = set js"
  by (auto simp: edges_def)

lemma depth_induct [case_names search]:
  assumes "\<And>visiting ids visited. (\<And>i js visited. i \<notin> visiting \<Longrightarrow> succs i = Some js \<Longrightarrow> js \<noteq> [] \<Longrightarrow> P (insert i visiting) js visited)
    \<Longrightarrow> P visiting ids visited"
  shows "P visiting ids visited"
proof (induction "card (K - visiting)" arbitrary: visiting ids visited rule: less_induct)
  case less
  show ?case
  proof (rule assms)
    fix i js visited
    assume i: "i \<notin> visiting" "succs i = Some js" "js \<noteq> []"
    with succs_K have "K - insert i visiting \<subset> K - visiting" by auto
    then show "P (insert i visiting) js visited"
      using less finite_K by (meson finite_Diff psubset_card_mono)
  qed
qed

lemma each_sound:
  "enter_each ids visiting visited = Some visited' \<Longrightarrow> settled edges visited \<Longrightarrow>
    settled edges visited' \<and> visited \<subseteq> visited' \<and> set ids \<subseteq> visited' \<and> visited' \<inter> visiting \<subseteq> visited"
proof (induction visiting ids visited arbitrary: visited' rule: depth_induct)
  case (search visiting ids visited)
  have one: "settled edges w \<and> v \<subseteq> w \<and> i \<in> w \<and> w \<inter> visiting \<subseteq> v"
    if e: "enter i visiting v = Some w" and v: "settled edges v" for i v w
  proof (cases "i \<in> v")
    case False
    with e obtain js u where i: "i \<notin> visiting" and js: "succs i = Some js"
        and u: "enter_each js (insert i visiting) v = Some u" and w: "w = insert i u"
      by (auto simp: enter bind_eq_Some_conv split: if_splits)
    have u': "settled edges u \<and> v \<subseteq> u \<and> set js \<subseteq> u \<and> u \<inter> insert i visiting \<subseteq> v"
    proof (cases "js = []")
      case True
      with u v show ?thesis by (auto simp: each_Nil)
    qed (use search.IH [OF i js _ u v] in blast)
    with False have "i \<notin> u" by blast
    with u' edges_of [OF js] have "settled edges w" unfolding w by (intro settled_insert) auto
    with u' w i show ?thesis by blast
  qed (use e v enter in auto)
  show ?case
    using search.prems
  proof (induction ids arbitrary: visited)
    case (Cons i ids)
    from Cons.prems(1) obtain v where v: "enter i visiting visited = Some v" "enter_each ids visiting v = Some visited'"
      by (auto simp: each_Cons bind_eq_Some_conv)
    have a: "settled edges v \<and> visited \<subseteq> v \<and> i \<in> v \<and> v \<inter> visiting \<subseteq> visited"
      by (rule one [OF v(1) Cons.prems(2)])
    with Cons.IH [OF v(2)] show ?case by auto
  qed (simp add: each_Nil)
qed

lemma each_complete:
  assumes "\<And>i j. (i, j) \<in> edges \<Longrightarrow> succs j \<noteq> None"
  shows "enter_each ids visiting visited = None \<Longrightarrow> (\<And>i. i \<in> set ids \<Longrightarrow> succs i \<noteq> None)
    \<Longrightarrow> (\<And>v i. v \<in> visiting \<Longrightarrow> i \<in> set ids \<Longrightarrow> (v, i) \<in> edges\<^sup>+) \<Longrightarrow> \<exists>x. (x, x) \<in> edges\<^sup>+"
proof (induction visiting ids visited rule: depth_induct)
  case (search visiting ids visited)
  have one: "\<exists>x. (x, x) \<in> edges\<^sup>+"
    if e: "enter i visiting v = None" and i: "succs i \<noteq> None" "\<And>v. v \<in> visiting \<Longrightarrow> (v, i) \<in> edges\<^sup>+" for i v
  proof (cases "i \<in> visiting")
    case False
    from i(1) obtain js where js: "succs i = Some js" by blast
    with e False have none: "enter_each js (insert i visiting) v = None"
      by (auto simp: enter bind_eq_None_conv split: if_splits)
    then have "js \<noteq> []" by (auto simp: each_Nil)
    have step: "(i, j) \<in> edges" if "j \<in> set js" for j using that js by (auto simp: edges_def)
    show ?thesis
    proof (rule search.IH [OF False js \<open>js \<noteq> []\<close> none])
      show "succs j \<noteq> None" if "j \<in> set js" for j using assms step [OF that] by blast
      show "(u, j) \<in> edges\<^sup>+" if "u \<in> insert i visiting" "j \<in> set js" for u j
        using that(1) step [OF that(2)] i(2) by (auto intro: trancl_into_trancl)
    qed
  qed (use i(2) in blast)
  show ?case
    using search.prems
  proof (induction ids arbitrary: visited)
    case (Cons i ids)
    show ?case
    proof (cases "enter i visiting visited")
      case None
      then show ?thesis by (rule one) (use Cons.prems in auto)
    next
      case (Some v)
      with Cons.prems(1) have "enter_each ids visiting v = None" by (simp add: each_Cons)
      then show ?thesis by (rule Cons.IH) (use Cons.prems in auto)
    qed
  qed (simp add: each_Nil)
qed

lemma search_exact:
  assumes "\<And>i. i \<in> set ids \<Longrightarrow> succs i \<noteq> None" and "\<And>i j. (i, j) \<in> edges \<Longrightarrow> succs j \<noteq> None"
    and "\<And>i j. (i, j) \<in> edges \<Longrightarrow> i \<in> set ids"
  shows "enter_each ids {} {} \<noteq> None \<longleftrightarrow> acyclic edges"
proof
  assume "enter_each ids {} {} \<noteq> None"
  then obtain v where "enter_each ids {} {} = Some v" by blast
  from each_sound [OF this] have s: "settled edges v" "set ids \<subseteq> v" by simp_all
  show "acyclic edges"
  proof (rule acyclicI, rule allI, rule notI)
    fix x
    assume x: "(x, x) \<in> edges\<^sup>+"
    then obtain j where "(x, j) \<in> edges" by (meson tranclD)
    with assms(3) s x show False unfolding settled_def by blast
  qed
next
  assume a: "acyclic edges"
  show "enter_each ids {} {} \<noteq> None"
  proof
    assume "enter_each ids {} {} = None"
    from each_complete [OF assms(2) this assms(1)] have "\<exists>x. (x, x) \<in> edges\<^sup>+" by simp
    with a show False by (simp add: acyclic_def)
  qed
qed

end

text \<open>The edges of the two graphs.\<close>

definition depends_on :: "(workstream_id, workstream \<times> u64) btree_map \<Rightarrow> (workstream_id \<times> workstream_id) set" where
  "depends_on m = {(i, j). \<exists>w s. btm_get m i = Some (w, s) \<and> j \<in> set (ws_dependency_workstream_ids w)}"

definition composed_of :: "(attempt_id, attempt \<times> u64) btree_map \<Rightarrow> (attempt_id \<times> attempt_id) set" where
  "composed_of m = {(i, j). \<exists>a s. btm_get m i = Some (a, s) \<and> j \<in> set (at_composed_from_attempt_ids a)}"

definition ok_option :: "('e, 'a) result \<Rightarrow> 'a option" where
  "ok_option r = (case r of Inl _ \<Rightarrow> None | Inr x \<Rightarrow> Some x)"

lemma ok_option_simps [simp]:
  "ok_option (Ok x) = Some x" "ok_option (Err e) = None"
  "ok_option (and_then r f) = Option.bind (ok_option r) (\<lambda>x. ok_option (f x))"
  by (simp_all add: ok_option_def split: sum.splits)

lemma finite_dom_btm [simp]: "finite (dom (btm_get m))"
  unfolding btm_get_def [abs_def] by (simp add: finite_dom_map_of)

interpretation dependencies: depth_first
  "\<lambda>i. map_option (\<lambda>(w, _). ws_dependency_workstream_ids w) (btm_get m i)"
  "\<lambda>i visiting visited. ok_option (visit m i visiting visited)"
  "\<lambda>ids visiting visited. ok_option (visit_each m ids visiting visited)" "dom (btm_get m)" for m
proof unfold_locales
  fix i visiting visited
  show "ok_option (visit m i visiting visited) =
    (if i \<in> visited then Some visited else if i \<in> visiting then None
     else Option.bind (map_option (\<lambda>(w, _). ws_dependency_workstream_ids w) (btm_get m i)) (\<lambda>js.
       Option.bind (ok_option (visit_each m js (insert i visiting) visited)) (\<lambda>visited'. Some (insert i visited'))))"
    by (auto split: option.split)
qed auto

interpretation compositions: depth_first
  "\<lambda>i. Some (case btm_get m i of None \<Rightarrow> [] | Some (a, _) \<Rightarrow> at_composed_from_attempt_ids a)"
  "composition_cycle m" "composition_cycle_any m" "dom (btm_get m)" for m
proof unfold_locales
  fix i visiting visited
  show "composition_cycle m i visiting visited =
    (if i \<in> visited then Some visited else if i \<in> visiting then None
     else Option.bind (Some (case btm_get m i of None \<Rightarrow> [] | Some (a, _) \<Rightarrow> at_composed_from_attempt_ids a)) (\<lambda>js.
       Option.bind (composition_cycle_any m js (insert i visiting) visited) (\<lambda>visited'. Some (insert i visited'))))"
    by (auto split: option.split)
qed (auto split: option.splits)

lemma dependencies_edges: "dependencies.edges m = depends_on m"
  by (auto simp: dependencies.edges_def depends_on_def)

lemma compositions_edges: "compositions.edges m = composed_of m"
proof -
  have "(i, j) \<in> compositions.edges m \<longleftrightarrow> (i, j) \<in> composed_of m" for i j
    by (cases "btm_get m i") (auto simp: compositions.edges_def composed_of_def)
  then show ?thesis by auto
qed

lemma get_key: "btm_get m i \<noteq> None \<longleftrightarrow> i \<in> set (map fst m)"
  by (simp add: btm_get_def map_of_eq_None_iff)

lemma dependency_search:
  assumes "\<And>i j. (i, j) \<in> depends_on m \<Longrightarrow> btm_contains_key m j"
  shows "is_ok (visit_each m (map fst m) {} {}) \<longleftrightarrow> acyclic (depends_on m)"
proof -
  have "ok_option (visit_each m (map fst m) {} {}) \<noteq> None \<longleftrightarrow> acyclic (dependencies.edges m)"
  proof (rule dependencies.search_exact)
    show "map_option (\<lambda>(w, _). ws_dependency_workstream_ids w) (btm_get m i) \<noteq> None" if "i \<in> set (map fst m)" for i
      using that get_key [of m i] by simp
    show "map_option (\<lambda>(w, _). ws_dependency_workstream_ids w) (btm_get m j) \<noteq> None"
      if "(i, j) \<in> dependencies.edges m" for i j
      using assms that by (simp add: dependencies_edges btm_contains_key_def)
    show "i \<in> set (map fst m)" if "(i, j) \<in> dependencies.edges m" for i j
      using that get_key [of m i] by (auto simp: dependencies_edges depends_on_def)
  qed
  then show ?thesis
    by (simp add: dependencies_edges ok_option_def split: sum.splits)
qed

lemma composition_search: "composition_cycle_any m (map fst m) {} {} \<noteq> None \<longleftrightarrow> acyclic (composed_of m)"
  unfolding compositions_edges [symmetric]
proof (rule compositions.search_exact)
  show "i \<in> set (map fst m)" if "(i, j) \<in> compositions.edges m" for i j
    using that get_key [of m i] by (auto simp: compositions_edges composed_of_def)
qed simp_all

section \<open>What the recordings keep\<close>

definition task_accepts :: "task \<Rightarrow> task \<Rightarrow> bool" where
  "task_accepts current value \<longleftrightarrow>
    tk_revision_id value \<noteq> tk_revision_id current
    \<and> tk_predecessor_revision_id value = Some (tk_revision_id current)
    \<and> tk_created_at_us value = tk_created_at_us current
    \<and> tk_source_watermark current < tk_source_watermark value
    \<and> \<not> task_lifecycle_is_terminal (tk_lifecycle current)
    \<and> tk_continuation_of_task_id value = tk_continuation_of_task_id current
    \<and> tk_split_from_task_id value = tk_split_from_task_id current
    \<and> tk_merged_from_task_ids value = tk_merged_from_task_ids current"

definition workstream_accepts :: "workstream \<Rightarrow> workstream \<Rightarrow> bool" where
  "workstream_accepts current value \<longleftrightarrow>
    ws_revision_id value \<noteq> ws_revision_id current
    \<and> ws_predecessor_revision_id value = Some (ws_revision_id current)
    \<and> ws_task_id value = ws_task_id current
    \<and> ws_repository_instance_id value = ws_repository_instance_id current
    \<and> ws_root_goal value = ws_root_goal current
    \<and> ws_source_watermark current < ws_source_watermark value
    \<and> \<not> workstream_status_is_terminal (ws_status current)"

lemma validated_replace_iff:
  "and_then (map_err f r) (\<lambda>_. x) = Ok m' \<longleftrightarrow> r = Ok () \<and> x = Ok m'"
  by (cases r) simp_all

interpretation tasks: keyed_replace replace_task tk_task_id
  "\<lambda>t. task_validate t = Ok ()" "\<lambda>t. tk_predecessor_revision_id t = None" task_accepts
  by (unfold_locales, simp add: replace_task_def validated_replace_iff replace_shape_iff task_accepts_def not_le
      split: option.split prod.split, blast)

interpretation workstreams: keyed_replace replace_workstream ws_workstream_id
  "\<lambda>w. workstream_validate w = Ok ()" "\<lambda>w. ws_predecessor_revision_id w = None" workstream_accepts
  by (unfold_locales, simp add: replace_workstream_def validated_replace_iff replace_shape_iff workstream_accepts_def
      not_le split: option.split prod.split, blast)

definition task_later :: "task \<Rightarrow> task \<Rightarrow> bool" where
  "task_later a b \<longleftrightarrow> tk_created_at_us b = tk_created_at_us a
    \<and> tk_continuation_of_task_id b = tk_continuation_of_task_id a
    \<and> tk_split_from_task_id b = tk_split_from_task_id a \<and> tk_merged_from_task_ids b = tk_merged_from_task_ids a
    \<and> tk_source_watermark a \<le> tk_source_watermark b
    \<and> (task_lifecycle_is_terminal (tk_lifecycle a) \<longrightarrow> b = a)"

definition workstream_later :: "workstream \<Rightarrow> workstream \<Rightarrow> bool" where
  "workstream_later a b \<longleftrightarrow> ws_task_id b = ws_task_id a
    \<and> ws_repository_instance_id b = ws_repository_instance_id a \<and> ws_root_goal b = ws_root_goal a
    \<and> ws_source_watermark a \<le> ws_source_watermark b
    \<and> (workstream_status_is_terminal (ws_status a) \<longrightarrow> b = a)"

context keyed_replace
begin

lemma replay_advances:
  assumes "replay (\<lambda>m (v, s). replace m v s) m xs = Ok m'" and "keyed id_of m"
    and "\<And>v. R v v" and "\<And>a b c. R a b \<Longrightarrow> R b c \<Longrightarrow> R a c" and "\<And>c v. accepts c v \<Longrightarrow> R c v"
  shows "keyed id_of m' \<and> advances R m m'"
proof (rule replay_invariant [OF assms(1)])
  show "keyed id_of m \<and> advances R m m" using assms(2,3) by (simp add: advances_refl)
  fix k x k'
  assume step: "(case x of (v, s) \<Rightarrow> replace k v s) = Ok k'" and k: "keyed id_of k \<and> advances R m k"
  obtain v s where x: "x = (v, s)" by (rule prod.exhaust)
  with step have r: "replace k v s = Ok k'" by simp
  have "advances R k k'" by (rule replace_advances [OF r assms(3)]) (use assms(5) k in auto)
  with k have "advances R m k'" by (elim conjE) (rule advances_trans [OF assms(4)])
  with k replace_keyed [OF r] show "keyed id_of k' \<and> advances R m k'" by simp
qed

end

text \<open>
  Recorded tasks and workstreams never disappear and keep what identifies them: a task its
  creation time and its origin (continuation, split, merge), a workstream its task,
  repository and root goal. Watermarks never go back, and a task or workstream in a terminal
  state is never changed again, whatever is recorded later.
\<close>

theorem terminal_work_is_final:
  assumes "replay (\<lambda>m (v, s). replace_task m v s) tasks journal = Ok tasks'" and "keyed tk_task_id tasks"
    and "replay (\<lambda>m (v, s). replace_workstream m v s) streams journal' = Ok streams'" and "keyed ws_workstream_id streams"
  shows "advances task_later tasks tasks' \<and> advances workstream_later streams streams'"
proof
  show "advances task_later tasks tasks'"
    by (rule tasks.replay_advances [OF assms(1,2), THEN conjunct2])
      (auto simp: task_later_def task_accepts_def intro: order_trans less_imp_le)
  show "advances workstream_later streams streams'"
    by (rule workstreams.replay_advances [OF assms(3,4), THEN conjunct2])
      (auto simp: workstream_later_def workstream_accepts_def intro: order_trans less_imp_le)
qed

section \<open>The relation checks as specifications\<close>

text \<open>What \<open>validate_work_identity_relations\<close> is meant to say of one task and one workstream.\<close>

definition worktrees_owned ::
  "(worktree_id, worktree_instance \<times> u64) btree_map \<Rightarrow> repository_id \<Rightarrow> worktree_id list \<Rightarrow> bool" where
  "worktrees_owned worktrees r ids \<longleftrightarrow>
    (\<forall>i \<in> set ids. \<exists>worktree s. btm_get worktrees i = Some (worktree, s) \<and> wt_repository_instance_id worktree = r)"

definition task_closed ::
  "(task_id, task \<times> u64) btree_map \<Rightarrow> (repository_id, repository_instance \<times> u64) btree_map
    \<Rightarrow> (worktree_id, worktree_instance \<times> u64) btree_map \<Rightarrow> task \<Rightarrow> bool" where
  "task_closed tasks repositories worktrees t \<longleftrightarrow>
    (\<forall>i \<in> set_option (tk_continuation_of_task_id t) \<union> set_option (tk_split_from_task_id t)
       \<union> set (tk_split_into_task_ids t) \<union> set (tk_merged_from_task_ids t) \<union> set_option (tk_merged_into_task_id t).
       btm_contains_key tasks i)
    \<and> (\<forall>m \<in> set (tk_scope_memberships t). \<forall>r. tsm_repository_instance_id m = Some r \<longrightarrow>
        btm_contains_key repositories r \<and> worktrees_owned worktrees r (tsm_worktree_instance_ids m))"

definition workstream_closed ::
  "(task_id, task \<times> u64) btree_map \<Rightarrow> (workstream_id, workstream \<times> u64) btree_map
    \<Rightarrow> (worktree_id, worktree_instance \<times> u64) btree_map \<Rightarrow> workstream \<Rightarrow> bool" where
  "workstream_closed tasks workstreams worktrees w \<longleftrightarrow>
    (\<exists>t s. btm_get tasks (ws_task_id w) = Some (t, s)
      \<and> (\<forall>r. ws_repository_instance_id w = Some r \<longrightarrow>
          (\<exists>m. find (\<lambda>m. tsm_repository_instance_id m = Some r) (tk_scope_memberships t) = Some m
            \<and> set (ws_worktree_instance_ids w) \<subseteq> set (tsm_worktree_instance_ids m))
          \<and> worktrees_owned worktrees r (ws_worktree_instance_ids w)))
    \<and> (\<forall>i \<in> set (ws_dependency_workstream_ids w) \<union> set_option (ws_parent_workstream_id w).
        \<exists>d s. btm_get workstreams i = Some (d, s) \<and> ws_task_id d = ws_task_id w)"

lemma fetch_then_iff:
  "and_then (fetch m k) f = Ok x \<longleftrightarrow> (\<exists>v s. btm_get m k = Some (v, s) \<and> f v = Ok x)"
  by (auto simp: and_then_Inr_iff fetch_Inr)

lemma then_unit_iff: "and_then (r :: ('e, unit) result) f = Ok x \<longleftrightarrow> r = Ok () \<and> f () = Ok x"
  by (cases r) simp_all

lemmas relation_simps = fetch_then_iff then_unit_iff for_each_Inr_iff corrupt_if_Inr if_some_Inr_iff

lemma task_relation_iff:
  "task_relation_ok tasks repositories worktrees t = Ok () \<longleftrightarrow> task_closed tasks repositories worktrees t"
  unfolding task_relation_ok_def task_closed_def
  by (simp add: relation_simps worktrees_owned_def ball_Un)

lemma workstream_relation_iff:
  "workstream_relation_ok tasks workstreams worktrees w = Ok () \<longleftrightarrow> workstream_closed tasks workstreams worktrees w"
  unfolding workstream_relation_ok_def workstream_closed_def
  by (cases "btm_get tasks (ws_task_id w)"; cases "ws_repository_instance_id w")
    (auto simp: and_then_Inr_iff fetch_Inr then_unit_iff for_each_Inr_iff corrupt_if_Inr if_some_Inr_iff
      worktrees_owned_def ball_Un ok_or_Inr_iff)

lemma for_each_stored_iff:
  assumes "btm_sorted m"
  shows "for_each (\<lambda>(v, _). f v) (btm_values m) = Ok () \<longleftrightarrow> (\<forall>k v s. btm_get m k = Some (v, s) \<longrightarrow> f v = Ok ())"
  using btm_values_iff [OF assms] by (fastforce simp: for_each_Inr_iff)

text \<open>
  C7. The check of the merged work state accepts exactly the states in which every task and
  workstream is closed (references resolve, worktrees belong to the repository they are listed
  under, dependencies and parents stay inside the task) and the dependencies between
  workstreams have no cycle.
\<close>

theorem work_identity_check_exact:
  assumes "btm_sorted tasks" and "btm_sorted workstreams"
  shows "validate_work_identity_relations tasks workstreams repositories worktrees = Ok () \<longleftrightarrow>
    (\<forall>i t s. btm_get tasks i = Some (t, s) \<longrightarrow> task_closed tasks repositories worktrees t)
    \<and> (\<forall>i w s. btm_get workstreams i = Some (w, s) \<longrightarrow> workstream_closed tasks workstreams worktrees w)
    \<and> acyclic (depends_on workstreams)"
proof -
  have search: "is_ok (visit_each workstreams (map fst workstreams) {} {}) \<longleftrightarrow> acyclic (depends_on workstreams)"
    if closed: "\<forall>i w s. btm_get workstreams i = Some (w, s) \<longrightarrow> workstream_closed tasks workstreams worktrees w"
  proof (rule dependency_search)
    fix i j
    assume "(i, j) \<in> depends_on workstreams"
    then obtain w s where w: "btm_get workstreams i = Some (w, s)" "j \<in> set (ws_dependency_workstream_ids w)"
      by (auto simp: depends_on_def)
    with closed have "workstream_closed tasks workstreams worktrees w" by blast
    with w(2) show "btm_contains_key workstreams j"
      unfolding workstream_closed_def btm_contains_key_def by blast
  qed
  have "and_then r (\<lambda>_. Ok ()) = Ok () \<longleftrightarrow> is_ok r" for r :: "(store_error, workstream_id set) result"
    by (cases r) simp_all
  then show ?thesis
    using search unfolding validate_work_identity_relations_def then_unit_iff
    by (simp add: for_each_stored_iff [OF assms(1)] for_each_stored_iff [OF assms(2)]
        task_relation_iff workstream_relation_iff and_then_Inr_iff) blast
qed

lemma attempt_relationsE:
  assumes "validate_attempt_relations t = Ok ()" and "btm_sorted (et_attempts t)"
    and "btm_sorted (et_integration_events t)" and "btm_sorted (et_competing_groups t)"
  shows "acyclic (composed_of (et_attempts t))"
    and "btm_get (et_integration_events t) i = Some (event, s) \<Longrightarrow> integration_links_ok t event = Ok ()"
    and "btm_get (et_attempts t) j = Some (a, r) \<Longrightarrow> attempt_relation_ok t a = Ok ()"
    and "btm_get (et_competing_groups t) k = Some (g, q) \<Longrightarrow> group_relation_ok t g = Ok ()"
proof -
  from assms have all: "acyclic (composed_of (et_attempts t))"
    "\<forall>k v s. btm_get (et_integration_events t) k = Some (v, s) \<longrightarrow> integration_links_ok t v = Ok ()"
    "\<forall>k v s. btm_get (et_attempts t) k = Some (v, s) \<longrightarrow> attempt_relation_ok t v = Ok ()"
    "\<forall>k v s. btm_get (et_competing_groups t) k = Some (v, s) \<longrightarrow> group_relation_ok t v = Ok ()"
    unfolding validate_attempt_relations_def
    by (simp_all only: then_unit_iff corrupt_if_Inr for_each_stored_iff composition_search) blast+
  then show "acyclic (composed_of (et_attempts t))"
    and "btm_get (et_integration_events t) i = Some (event, s) \<Longrightarrow> integration_links_ok t event = Ok ()"
    and "btm_get (et_attempts t) j = Some (a, r) \<Longrightarrow> attempt_relation_ok t a = Ok ()"
    and "btm_get (et_competing_groups t) k = Some (g, q) \<Longrightarrow> group_relation_ok t g = Ok ()" by blast+
qed

text \<open>
  Links between attempts, integration events and competing groups agree from both sides in
  an accepted state: an attempt names an integration event exactly if the event lists the
  attempt, and a group exactly if the group lists it as a member.
\<close>

theorem attempt_links_agree:
  assumes "validate_attempt_relations t = Ok ()"
    and "keyed ie_integration_event_id (et_integration_events t)"
    and "keyed cg_competing_group_id (et_competing_groups t)"
    and "keyed at_attempt_id (et_attempts t)"
    and "btm_get (et_attempts t) i = Some (a, s)"
  shows "(\<forall>e. e \<in> set (at_integration_event_refs a) \<longleftrightarrow>
      (\<exists>event r. btm_get (et_integration_events t) e = Some (event, r) \<and> i \<in> set (ie_integrated_attempt_ids event)))
    \<and> (\<forall>k. k \<in> set (at_competing_group_ids a) \<longleftrightarrow>
      (\<exists>g r. btm_get (et_competing_groups t) k = Some (g, r) \<and> i \<in> set (cg_member_attempt_ids g)))"
proof -
  note sorted = keyed_def [THEN iffD1, OF assms(4), THEN conjunct1] keyed_def [THEN iffD1, OF assms(2), THEN conjunct1]
    keyed_def [THEN iffD1, OF assms(3), THEN conjunct1]
  note accepted = attempt_relationsE [OF assms(1) sorted]
  have i: "at_attempt_id a = i" by (rule keyedD [OF assms(4,5)])
  have refs: "attempt_refs_ok t a = Ok ()"
    using accepted(3) [OF assms(5)] by (auto simp: attempt_relation_ok_def relation_simps)
  have "\<exists>event r. btm_get (et_integration_events t) e = Some (event, r) \<and> i \<in> set (ie_integrated_attempt_ids event)"
    if "e \<in> set (at_integration_event_refs a)" for e
    using refs that i by (fastforce simp: attempt_refs_ok_def then_unit_iff corrupt_if_Inr is_some_and_iff)
  moreover have "\<exists>g r. btm_get (et_competing_groups t) k = Some (g, r) \<and> i \<in> set (cg_member_attempt_ids g)"
    if "k \<in> set (at_competing_group_ids a)" for k
    using refs that i by (auto simp: attempt_refs_ok_def relation_simps)
  moreover have "e \<in> set (at_integration_event_refs a)"
    if e: "btm_get (et_integration_events t) e = Some (event, r)" "i \<in> set (ie_integrated_attempt_ids event)" for e event r
    using accepted(2) [OF e(1)] e(2) assms(5) keyedD [OF assms(2) e(1)]
    by (auto simp: integration_links_ok_def relation_simps)
  moreover have "k \<in> set (at_competing_group_ids a)"
    if g: "btm_get (et_competing_groups t) k = Some (g, r)" "i \<in> set (cg_member_attempt_ids g)" for k g r
  proof -
    have "for_each (\<lambda>member_id. and_then (fetch (et_attempts t) member_id) (\<lambda>a.
        corrupt_if (at_task_id a \<noteq> cg_task_id g \<or> at_workstream_id a \<notin> set (cg_member_workstream_ids g)
          \<or> cg_competing_group_id g \<notin> set (at_competing_group_ids a)))) (cg_member_attempt_ids g) = Ok ()"
      using accepted(4) [OF g(1)] unfolding group_relation_ok_def then_unit_iff by blast
    with g(2) assms(5) keyedD [OF assms(3) g(1)] show ?thesis by (auto simp: relation_simps)
  qed
  ultimately show ?thesis by blast
qed

section \<open>Binding lineages\<close>

lemma chain_check_snoc:
  "chain_check valid gen pred rid accepts prev k (xs @ [x]) = Ok () \<longleftrightarrow>
    chain_check valid gen pred rid accepts prev k xs = Ok ()
    \<and> (let before = (if xs = [] then prev else Some (last xs)) in
        valid x \<and> unat (gen x) = k + length xs + 1 \<and> pred x = map_option rid before
        \<and> \<not> is_some_and (\<lambda>p. \<not> accepts p x) before)"
  by (induction xs arbitrary: prev k) (auto simp: Let_def)

lemma chain_check_numbers:
  "chain_check valid gen pred rid accepts prev k xs = Ok () \<Longrightarrow> map (unat \<circ> gen) xs = [k + 1..<k + 1 + length xs]"
  by (induction xs arbitrary: prev k) (auto simp: upt_conv_Cons simp del: upt_Suc split: if_splits)

definition binding_chain :: "work_binding_revision list \<Rightarrow> bool" where
  "binding_chain xs \<longleftrightarrow> chain_check (\<lambda>_. True) wb_revision_generation wb_predecessor_revision_id
    wb_work_binding_revision_id (\<lambda>p b. is_ok (work_binding_revision_validate_successor p b)) None 0 xs = Ok ()"

definition bindings_of :: "work_binding_revision list \<Rightarrow> operation_id \<Rightarrow> work_binding_revision list" where
  "bindings_of bs i = sort_key wb_revision_generation (filter (\<lambda>b. wb_operation_id b = i) bs)"

lemma bindings_of_Nil: "bindings_of bs i = [] \<longleftrightarrow> i \<notin> set (map wb_operation_id bs)"
  by (force simp: bindings_of_def filter_empty_conv simp flip: set_empty)

lemma binding_current_of_iff:
  "binding_current_of (filter (\<lambda>b. wb_operation_id b = i) bs) = Ok latest \<longleftrightarrow>
    binding_chain (bindings_of bs i) \<and> bindings_of bs i \<noteq> [] \<and> latest = last (bindings_of bs i)"
  by (auto simp: binding_current_of_def binding_chain_def bindings_of_def Let_def then_unit_iff ok_or_def deque_back_def
      split: if_splits)

lemma try_map_iff:
  assumes "\<And>x y. x \<in> set xs \<Longrightarrow> f x = Ok y \<longleftrightarrow> P x \<and> y = g x"
  shows "try_map f xs = Ok ys \<longleftrightarrow> (\<forall>x \<in> set xs. P x) \<and> ys = map g xs"
  using assms by (induction xs arbitrary: ys) (auto simp: and_then_Inr_iff)

lemma lineage_iff:
  "current_binding_lineage bs = Ok m \<longleftrightarrow>
    (\<forall>b \<in> set bs. work_binding_revision_validate b = Ok ())
    \<and> (\<forall>i \<in> set (map wb_operation_id bs). binding_chain (bindings_of bs i))
    \<and> m = map (\<lambda>i. (i, last (bindings_of bs i))) (btree_set (map wb_operation_id bs))"
proof -
  let ?grouped = "group_by_id wb_operation_id bs"
  have "try_map (\<lambda>(i, revisions). and_then (binding_current_of revisions) (\<lambda>latest. Ok (i, latest))) ?grouped = Ok m
    \<longleftrightarrow> (\<forall>p \<in> set ?grouped. binding_chain (bindings_of bs (fst p)))
      \<and> m = map (\<lambda>p. (fst p, last (bindings_of bs (fst p)))) ?grouped"
  proof (rule try_map_iff)
    fix p y
    assume "p \<in> set ?grouped"
    then obtain i where "p = (i, filter (\<lambda>b. wb_operation_id b = i) bs)" "i \<in> set (map wb_operation_id bs)"
      by (auto simp: group_by_id_def)
    with bindings_of_Nil [of bs i]
    show "(case p of (i, revisions) \<Rightarrow> and_then (binding_current_of revisions) (\<lambda>latest. Ok (i, latest))) = Ok y
        \<longleftrightarrow> binding_chain (bindings_of bs (fst p)) \<and> y = (fst p, last (bindings_of bs (fst p)))"
      by (auto simp: and_then_Inr_iff binding_current_of_iff)
  qed
  then show ?thesis
    by (simp add: current_binding_lineage_def then_unit_iff for_each_Inr_iff map_err_Inr_iff group_by_id_def comp_def)
qed

lemma lineage_get:
  assumes "current_binding_lineage bs = Ok m"
  shows "btm_get m i = (if i \<in> set (map wb_operation_id bs) then Some (last (bindings_of bs i)) else None)"
proof -
  have "map_of (map (\<lambda>i. (i, f i)) xs) i = (if i \<in> set xs then Some (f i) else None)" for f :: "operation_id \<Rightarrow> work_binding_revision" and xs
    by (induction xs) auto
  with assms show ?thesis by (simp add: lineage_iff btm_get_def)
qed

lemma bindings_of_append: "mset (bindings_of (bs @ [b]) (wb_operation_id b)) = mset (bindings_of bs (wb_operation_id b)) + {#b#}"
  by (simp add: bindings_of_def)

lemma bindings_of_other: "i \<noteq> wb_operation_id b \<Longrightarrow> bindings_of (bs @ [b]) i = bindings_of bs i"
  by (simp add: bindings_of_def)

lemma binding_chain_extends:
  assumes "binding_chain (bindings_of bs i)" and "wb_operation_id b = i" and "bindings_of bs i \<noteq> []"
    and "work_binding_revision_validate b = Ok ()" and "work_binding_revision_validate (last (bindings_of bs i)) = Ok ()"
  shows "binding_chain (bindings_of (bs @ [b]) i) \<longleftrightarrow>
      work_binding_revision_validate_successor (last (bindings_of bs i)) b = Ok ()"
    and "binding_chain (bindings_of (bs @ [b]) i) \<Longrightarrow> bindings_of (bs @ [b]) i = bindings_of bs i @ [b]"
proof -
  let ?xs = "bindings_of bs i" and ?ys = "bindings_of (bs @ [b]) i" and ?n = "length (bindings_of bs i)"
  let ?gen = "\<lambda>x. unat (wb_revision_generation x)"
  have xs: "map ?gen ?xs = [1..<1 + ?n]"
    using chain_check_numbers assms(1) unfolding binding_chain_def by (fastforce simp: comp_def)
  have ms: "mset ?ys = mset (?xs @ [b])" using bindings_of_append [of bs b] assms(2) by simp
  have ext: "?ys = ?xs @ [b]" if "?gen b = ?n + 1"
  proof -
    have "?gen x < ?gen b" if "x \<in> set ?xs" for x
    proof -
      have "?gen x \<in> set (map ?gen ?xs)" using that by simp
      with xs \<open>?gen b = ?n + 1\<close> show ?thesis by auto
    qed
    moreover have "sorted_wrt (<) (map wb_revision_generation ?xs)"
    proof -
      have "sorted_wrt (<) (map ?gen ?xs)" unfolding xs by (rule sorted_wrt_upt)
      then show ?thesis by (simp add: sorted_wrt_map word_less_nat_alt)
    qed
    ultimately have "sorted_wrt (<) (map wb_revision_generation (?xs @ [b]))"
      by (auto simp: sorted_wrt_append word_less_nat_alt)
    moreover have "mset (filter (\<lambda>x. wb_operation_id x = i) (bs @ [b])) = mset (?xs @ [b])"
      using ms by (simp add: bindings_of_def)
    ultimately show ?thesis using sort_key_history unfolding bindings_of_def by blast
  qed
  have num: "?gen b = ?n + 1" if "binding_chain ?ys"
  proof -
    have "map ?gen ?ys = [1..<1 + length ?ys]"
      using chain_check_numbers that unfolding binding_chain_def by (fastforce simp: comp_def)
    moreover have "length ?ys = ?n + 1" using arg_cong [OF ms, of size] by simp
    ultimately have "mset (map ?gen ?ys) = mset (map ?gen ?xs) + {#?n + 1#}" using xs by simp
    moreover have "mset (map ?gen ?ys) = mset (map ?gen ?xs) + {#?gen b#}" using ms by simp
    ultimately show ?thesis by simp
  qed
  show "binding_chain ?ys \<Longrightarrow> ?ys = ?xs @ [b]" using ext num by simp
  have last: "?gen (last ?xs) = ?n" using arg_cong [OF xs, of last] assms(3) by (simp add: last_map Suc_le_eq)
  have "binding_chain (?xs @ [b]) \<longleftrightarrow> ?gen b = ?n + 1 \<and> work_binding_revision_validate_successor (last ?xs) b = Ok ()"
    using assms(1,3) binding_successorD(4) [of "last ?xs" b]
    unfolding binding_chain_def chain_check_snoc by (auto simp: is_ok_unit Let_def)
  moreover have "?gen b = ?n + 1" if "work_binding_revision_validate_successor (last ?xs) b = Ok ()"
    using binding_successorD(2) [OF that] last by simp
  ultimately show "binding_chain ?ys \<longleftrightarrow> work_binding_revision_validate_successor (last ?xs) b = Ok ()"
    using ext num by metis
qed

lemma lineage_extension:
  assumes "current_binding_lineage bs = Ok m" and "btm_get m (wb_operation_id b) = Some latest"
    and "work_binding_revision_validate b = Ok ()"
  shows "((\<exists>m'. current_binding_lineage (bs @ [b]) = Ok m')
      \<longleftrightarrow> work_binding_revision_validate_successor latest b = Ok ())
    \<and> (\<forall>m'. current_binding_lineage (bs @ [b]) = Ok m' \<longrightarrow> btm_get m' = (btm_get m)(wb_operation_id b \<mapsto> b))"
proof -
  let ?i = "wb_operation_id b"
  have i: "?i \<in> set (map wb_operation_id bs)" and latest: "latest = last (bindings_of bs ?i)"
    using lineage_get [OF assms(1), of ?i] assms(2) by (simp_all split: if_splits)
  have ne: "bindings_of bs ?i \<noteq> []" using i bindings_of_Nil by blast
  have old: "\<forall>x \<in> set bs. work_binding_revision_validate x = Ok ()"
      "\<forall>j \<in> set (map wb_operation_id bs). binding_chain (bindings_of bs j)"
    using assms(1) by (simp_all add: lineage_iff)
  have "latest \<in> set bs" using last_in_set [OF ne] by (simp add: latest bindings_of_def)
  with old(1) have lv: "work_binding_revision_validate (last (bindings_of bs ?i)) = Ok ()" by (simp add: latest)
  have "binding_chain (bindings_of bs ?i)" using old(2) i by blast
  note ext = binding_chain_extends [OF this refl ne assms(3) lv]
  have ids: "btree_set (map wb_operation_id (bs @ [b])) = btree_set (map wb_operation_id bs)"
    using i by (intro btree_set_cong) auto
  have "(\<forall>j \<in> set (map wb_operation_id (bs @ [b])). binding_chain (bindings_of (bs @ [b]) j))
      \<longleftrightarrow> binding_chain (bindings_of (bs @ [b]) ?i)"
    using old(2) i bindings_of_other [of _ b bs] by (auto, metis imageI)
  then have ok: "current_binding_lineage (bs @ [b]) = Ok m' \<longleftrightarrow>
      work_binding_revision_validate_successor latest b = Ok ()
      \<and> m' = map (\<lambda>j. (j, last (bindings_of (bs @ [b]) j))) (btree_set (map wb_operation_id bs))" for m'
    unfolding lineage_iff ids using old(1) assms(3) ext(1) latest by auto
  then have "(\<exists>m'. current_binding_lineage (bs @ [b]) = Ok m')
      \<longleftrightarrow> work_binding_revision_validate_successor latest b = Ok ()" by simp
  moreover have "btm_get m' = (btm_get m)(?i \<mapsto> b)"if that: "current_binding_lineage (bs @ [b]) = Ok m'" for m'
  proof
    fix j
    have "binding_chain (bindings_of (bs @ [b]) ?i)" using that ok ext(1) latest by simp
    from ext(2) [OF this] show "btm_get m' j = ((btm_get m)(?i \<mapsto> b)) j"
      using lineage_get [OF that, of j] lineage_get [OF assms(1), of j] bindings_of_other [of j b bs] by auto
  qed
  ultimately show ?thesis by blast
qed

text \<open>
  The store takes a further binding revision of an operation into the lineage exactly if it
  is an accepted successor of the operation's current binding, and then it becomes the
  current one; the other operations keep theirs. This holds in whatever order the revisions
  are stored.
\<close>

theorem binding_lineage_extends:
  assumes "current_binding_lineage bs = Ok m" and "btm_get m (wb_operation_id b) = Some latest"
    and "work_binding_revision_validate b = Ok ()"
  shows "((\<exists>m'. current_binding_lineage (bs @ [b]) = Ok m')
      \<longleftrightarrow> work_binding_revision_validate_successor latest b = Ok ())
    \<and> (\<forall>m'. current_binding_lineage (bs @ [b]) = Ok m' \<longrightarrow> btm_get m' = (btm_get m)(wb_operation_id b \<mapsto> b))"
  by (rule lineage_extension [OF assms])

section \<open>Stored attempts and groups\<close>

definition attempt_root :: "(bytes \<Rightarrow> bytes) \<Rightarrow> attempt \<Rightarrow> bool" where
  "attempt_root H a \<longleftrightarrow> attempt_validate H a = Ok () \<and> at_revision_generation a = 1
    \<and> at_predecessor_revision_id a = None"

definition group_root :: "competing_attempt_group \<Rightarrow> bool" where
  "group_root g \<longleftrightarrow> competing_attempt_group_validate g = Ok () \<and> cg_revision_generation g = 1
    \<and> cg_predecessor_revision_id g = None \<and> cg_resolution_status g = ResolutionOpen"

interpretation attempt_store: revision_store
  "\<lambda>a b. attempt_validate_successor H a b = Ok ()" attempt_identity
  "\<lambda>a. unat (at_revision_generation a)" "\<lambda>a. attempt_validate H a = Ok ()"
  "record_attempt H" at_attempt_id at_revision_id "attempt_root H" for H
proof unfold_locales
  fix a b assume s: "attempt_validate_successor H a b = Ok ()"
  show "at_attempt_id b = at_attempt_id a"
    using attempt_successor_facts(1) [OF s] by (simp add: attempt_identity_def)
next
  fix v w :: attempt and s seq :: u64 and current :: "(attempt_id, attempt) seq_map"
    and revisions :: "(revision_id, attempt) seq_map"
  assume "revisions (at_revision_id v) = None" "current (at_attempt_id v) = Some (w, s)" "w \<noteq> v"
  then show "record_attempt H current revisions v seq = (if attempt_validate_successor H w v = Ok ()
     then Ok (current(at_attempt_id v \<mapsto> (v, seq)), revisions(at_revision_id v \<mapsto> (v, seq))) else Err StoreCorrupt)"
    by (cases "attempt_validate_successor H w v") (simp_all add: record_attempt_def replace_attempt_def)
qed (auto simp: record_attempt_def replace_attempt_def attempt_root_def is_ok_unit)

interpretation group_store: revision_store
  "\<lambda>a b. competing_attempt_group_validate_successor a b = Ok ()" group_identity
  "\<lambda>g. unat (cg_revision_generation g)" "\<lambda>g. competing_attempt_group_validate g = Ok ()"
  record_competing_group cg_competing_group_id cg_revision_id group_root
proof unfold_locales
  fix a b assume s: "competing_attempt_group_validate_successor a b = Ok ()"
  show "cg_competing_group_id b = cg_competing_group_id a"
    using group_successor_facts(1) [OF s] by (simp add: group_identity_def)
next
  fix v w :: competing_attempt_group and s seq :: u64
    and current :: "(competing_attempt_group_id, competing_attempt_group) seq_map"
    and revisions :: "(revision_id, competing_attempt_group) seq_map"
  assume "revisions (cg_revision_id v) = None" "current (cg_competing_group_id v) = Some (w, s)" "w \<noteq> v"
  then show "record_competing_group current revisions v seq = (if competing_attempt_group_validate_successor w v = Ok ()
     then Ok (current(cg_competing_group_id v \<mapsto> (v, seq)), revisions(cg_revision_id v \<mapsto> (v, seq))) else Err StoreCorrupt)"
    by (cases "competing_attempt_group_validate_successor w v")
      (simp_all add: record_competing_group_def replace_competing_group_def)
qed (auto simp: record_competing_group_def replace_competing_group_def group_root_def is_ok_unit)

text \<open>
  Recorded attempts and competing groups keep append-only histories of accepted
  successors: the current map shows the last revision of each history and the revision map
  exactly the revisions of all of them.
\<close>

theorem recorded_attempts_and_groups:
  assumes "replay (\<lambda>(c, r) (v, seq). record_attempt sha256_digest c r v seq) (\<lambda>_. None, \<lambda>_. None) attempts = Ok (ca, ra)"
    and "replay (\<lambda>(c, r) (v, seq). record_competing_group c r v seq) (\<lambda>_. None, \<lambda>_. None) rivals = Ok (cg, rg)"
  shows "(\<exists>hist. represents at_attempt_id at_revision_id (attempt_root sha256_digest)
        (\<lambda>a b. attempt_validate_successor sha256_digest a b = Ok ()) hist ca ra)
    \<and> (\<exists>hist. represents cg_competing_group_id cg_revision_id group_root
        (\<lambda>a b. competing_attempt_group_validate_successor a b = Ok ()) hist cg rg)"
  using attempt_store.replay_represents [OF assms(1) attempt_store.rep_empty]
    group_store.replay_represents [OF assms(2) group_store.rep_empty] by blast

text \<open>
  C17. In an accepted state every attempt belongs to a stored workstream of its task and
  repository and stays inside its worktrees and lanes; an active attempt has an active lane,
  an interrupted one only interrupted lanes, a completed one no active or unresolved lane;
  and no attempt is composed, directly or through others, from itself.
\<close>

theorem accepted_attempts_sound:
  assumes "validate_attempt_relations t = Ok ()" and "btm_sorted (et_attempts t)"
    and "btm_sorted (et_integration_events t)" and "btm_sorted (et_competing_groups t)"
    and "btm_get (et_attempts t) i = Some (a, s)"
  shows "(\<exists>w r. btm_get (et_workstreams t) (at_workstream_id a) = Some (w, r)
        \<and> ws_task_id w = at_task_id a \<and> ws_repository_instance_id w = at_repository_instance_id a
        \<and> set (at_worktree_instance_ids a) \<subseteq> set (ws_worktree_instance_ids w)
        \<and> set (at_execution_lane_ids a) \<subseteq> set (ws_execution_lane_ids w))
    \<and> (at_execution_status a = ExecActive \<longrightarrow> (\<exists>l \<in> set (at_execution_lane_ids a). \<exists>lane r.
        btm_get (et_lanes t) l = Some (lane, r) \<and> el_status lane = LaneActive))
    \<and> (\<forall>l \<in> set (at_execution_lane_ids a). \<exists>lane r. btm_get (et_lanes t) l = Some (lane, r)
        \<and> (at_execution_status a = ExecInterrupted \<longrightarrow> el_status lane \<in> {LaneInterrupted, LaneInterruptedUnconfirmed})
        \<and> (at_execution_status a = ExecCompleted \<longrightarrow> el_status lane \<notin> {LaneActive, LaneUnresolved}))
    \<and> (i, i) \<notin> (composed_of (et_attempts t))\<^sup>+"
proof -
  note accepted = attempt_relationsE [OF assms(1-4)]
  obtain w r where w: "btm_get (et_workstreams t) (at_workstream_id a) = Some (w, r)"
      "\<not> attempt_scope_bad t w a" "\<not> attempt_lanes_bad t a"
    using accepted(3) [OF assms(5)] by (auto simp: attempt_relation_ok_def relation_simps)
  have stored: "\<exists>lane q. btm_get (et_lanes t) l = Some (lane, q) \<and> lane \<in> set (attempt_lanes t a)"
    if "l \<in> set (at_execution_lane_ids a)" for l
  proof -
    from that w(2) have "btm_contains_key (et_lanes t) l" by (auto simp: attempt_scope_bad_def)
    then obtain lane q where "btm_get (et_lanes t) l = Some (lane, q)" by (auto elim: btm_contains_keyE)
    with that show ?thesis by (force simp: attempt_lanes_def List.map_filter_def)
  qed
  have rev: "\<exists>l \<in> set (at_execution_lane_ids a). \<exists>q. btm_get (et_lanes t) l = Some (lane, q)"
    if "lane \<in> set (attempt_lanes t a)" for lane
    using that by (force simp: attempt_lanes_def List.map_filter_def)
  have "\<exists>lane q. btm_get (et_lanes t) l = Some (lane, q)
      \<and> (at_execution_status a = ExecInterrupted \<longrightarrow> el_status lane \<in> {LaneInterrupted, LaneInterruptedUnconfirmed})
      \<and> (at_execution_status a = ExecCompleted \<longrightarrow> el_status lane \<notin> {LaneActive, LaneUnresolved})"
    if "l \<in> set (at_execution_lane_ids a)" for l
    using stored [OF that] w(3) by (fastforce simp: attempt_lanes_bad_def Let_def)
  moreover have "\<exists>l \<in> set (at_execution_lane_ids a). \<exists>lane q.
      btm_get (et_lanes t) l = Some (lane, q) \<and> el_status lane = LaneActive" if "at_execution_status a = ExecActive"
    using w(3) that rev by (fastforce simp: attempt_lanes_bad_def Let_def)
  moreover have "(i, i) \<notin> (composed_of (et_attempts t))\<^sup>+" using accepted(1) by (simp add: acyclic_def)
  moreover have "ws_task_id w = at_task_id a \<and> ws_repository_instance_id w = at_repository_instance_id a
      \<and> set (at_worktree_instance_ids a) \<subseteq> set (ws_worktree_instance_ids w)
      \<and> set (at_execution_lane_ids a) \<subseteq> set (ws_execution_lane_ids w)"
    using w(2) by (auto simp: attempt_scope_bad_def)
  ultimately show ?thesis using w(1) by (intro conjI impI ballI exI [of _ w] exI [of _ r]) blast+
qed

text \<open>
  In an accepted state a decided competition is backed by facts: the selected attempt of a
  group is stored, integrated and verified as passed, and its verification is part of the
  evidence the decision rests on.
\<close>

theorem selected_attempt_proven:
  assumes "validate_attempt_relations t = Ok ()" and "btm_sorted (et_attempts t)"
    and "btm_sorted (et_integration_events t)" and "btm_sorted (et_competing_groups t)"
    and "btm_get (et_competing_groups t) k = Some (g, s)" and "cg_selected_attempt_id g = Some i"
  shows "\<exists>a r. btm_get (et_attempts t) i = Some (a, r) \<and> at_adoption_status a = AdoptionIntegrated
    \<and> at_verification a = VerificationPassed
    \<and> set (at_parent_verification_refs a) \<inter> set (cg_resolution_evidence_refs g) \<noteq> {}"
proof -
  have "group_relation_ok t g = Ok ()" by (rule attempt_relationsE(4) [OF assms(1-5)])
  then have "if_some (\<lambda>selected. and_then (fetch (et_attempts t) selected) (\<lambda>a.
        corrupt_if (at_adoption_status a \<noteq> AdoptionIntegrated \<or> at_verification a \<noteq> VerificationPassed
          \<or> \<not> (\<exists>evidence \<in> set (at_parent_verification_refs a). evidence \<in> set (cg_resolution_evidence_refs g)))))
      (cg_selected_attempt_id g) = Ok ()"
    unfolding group_relation_ok_def then_unit_iff by blast
  with assms(6) show ?thesis by (auto simp: relation_simps)
qed

section \<open>Sample tables\<close>

definition sample_work_task :: task where
  "sample_work_task = \<lparr>tk_task_id = 3, tk_revision_id = 1, tk_predecessor_revision_id = None,
    tk_request_root_refs = [''r''], tk_canonical_goal = ''g'', tk_scope_memberships = [],
    tk_identity_confidence = ConfidenceExplicit, tk_lifecycle = TaskActive,
    tk_continuation_of_task_id = None, tk_split_from_task_id = None, tk_split_into_task_ids = [],
    tk_merged_from_task_ids = [], tk_merged_into_task_id = None, tk_created_at_us = 0,
    tk_closed_at_us = None, tk_source_watermark = 1\<rparr>"

definition sample_finished_task :: task where
  "sample_finished_task = sample_work_task\<lparr>tk_revision_id := 2, tk_predecessor_revision_id := Some 1,
    tk_lifecycle := TaskCompleted, tk_closed_at_us := Some 5, tk_source_watermark := 2\<rparr>"

definition sample_first_workstream :: workstream where
  "sample_first_workstream = sample_rel_workstream\<lparr>ws_active_episode_id := None\<rparr>"

definition sample_second_workstream :: workstream where
  "sample_second_workstream = sample_first_workstream\<lparr>ws_workstream_id := 6, ws_dependency_workstream_ids := [4]\<rparr>"

definition sample_linked_attempt :: attempt where
  "sample_linked_attempt = sample_attempt\<lparr>at_task_id := 3, at_workstream_id := 4, at_predecessor_revision_id := None,
    at_execution_status := ExecAbandoned, at_execution_lane_ids := [], at_adoption_status := AdoptionIntegrated,
    at_verification := VerificationPassed, at_parent_verification_refs := [''review''],
    at_competing_group_ids := [1]\<rparr>"

definition sample_linked_group :: competing_attempt_group where
  "sample_linked_group = sample_decided_group\<lparr>cg_member_workstream_ids := [4], cg_member_attempt_ids := [1],
    cg_selected_attempt_id := Some 1\<rparr>"

definition sample_linked_event :: integration_event where
  "sample_linked_event = \<lparr>ie_integration_event_id = 7, ie_repository_instance_id = 1,
    ie_source_worktree_instance_id = 1, ie_source_snapshot_id = 1, ie_destination_worktree_instance_id = 2,
    ie_destination_snapshot_id = 2, ie_kind = IntegrationMergeCommit, ie_commit_refs = [], ie_patch_equivalence_refs = [],
    ie_conflict_resolution_detected = False, ie_integrated_attempt_ids = [1], ie_revalidated_anchor_refs = [],
    ie_evidence_refs = [], ie_assessment = LineageProven\<rparr>"

definition sample_work_tables :: episode_tables where
  "sample_work_tables = \<lparr>et_episodes = [], et_episode_revisions = [], et_checkpoints = [], et_corrections = [],
    et_tasks = [(3, sample_work_task, 1)],
    et_workstreams = [(4, sample_first_workstream, 2), (6, sample_second_workstream, 2)],
    et_attempts = [(1, sample_linked_attempt, 3)], et_attempt_revisions = [(2, sample_linked_attempt, 3)],
    et_competing_groups = [(1, sample_linked_group, 4)], et_bindings = [], et_operation_bursts = [],
    et_operation_revisions = [], et_host_occurrences = [], et_source_observations = [], et_scope_effects = [],
    et_lanes = [], et_receipt_revisions = [], et_capture_gaps = [], et_capture_outages = [],
    et_worktree_snapshots = [], et_worktree_transitions = [],
    et_integration_events = [(7, sample_linked_event, 3)]\<rparr>"

lemmas sample_work_defs = sample_work_task_def sample_first_workstream_def sample_second_workstream_def
  sample_linked_attempt_def sample_linked_group_def sample_linked_event_def sample_attempt_def sample_group_def
  sample_decided_group_def sample_rel_workstream_def sample_view_def

lemma sample_work_accepted: "validate_attempt_relations sample_work_tables = Ok ()"
  by (simp add: validate_attempt_relations_def sample_work_tables_def btm_values_def btm_get_def
      integration_links_ok_def attempt_relation_ok_def attempt_scope_bad_def attempt_lanes_bad_def attempt_lanes_def
      attempt_predecessor_ok_def attempt_refs_ok_def group_relation_ok_def fetch_def corrupt_if_def if_some_def
      ok_or_def sample_work_defs)

lemma sample_work_lookups:
  "btm_sorted (et_attempts sample_work_tables)" "btm_sorted (et_integration_events sample_work_tables)"
  "btm_sorted (et_competing_groups sample_work_tables)" "btm_sorted (et_tasks sample_work_tables)"
  "btm_sorted (et_workstreams sample_work_tables)"
  "btm_get (et_attempts sample_work_tables) 1 = Some (sample_linked_attempt, 3)"
  "btm_get (et_competing_groups sample_work_tables) 1 = Some (sample_linked_group, 4)"
  by (simp_all add: sample_work_tables_def btm_sorted_def btm_get_def)

theorem selected_attempt_proven_witness:
  "\<exists>a r. btm_get (et_attempts sample_work_tables) 1 = Some (a, r) \<and> at_adoption_status a = AdoptionIntegrated
    \<and> at_verification a = VerificationPassed
    \<and> set (at_parent_verification_refs a) \<inter> set (cg_resolution_evidence_refs sample_linked_group) \<noteq> {}"
  by (rule selected_attempt_proven [OF sample_work_accepted sample_work_lookups(1-3,7)])
    (simp add: sample_linked_group_def)

theorem accepted_attempts_sound_witness:
  "\<exists>w r. btm_get (et_workstreams sample_work_tables) 4 = Some (w, r) \<and> ws_task_id w = at_task_id sample_linked_attempt
    \<and> (1, 1) \<notin> (composed_of (et_attempts sample_work_tables))\<^sup>+"
  using accepted_attempts_sound [OF sample_work_accepted sample_work_lookups(1-3,6)]
  by (auto simp: sample_linked_attempt_def)

theorem attempt_links_agree_witness:
  "7 \<in> set (at_integration_event_refs sample_linked_attempt) \<longleftrightarrow>
      (\<exists>event r. btm_get (et_integration_events sample_work_tables) 7 = Some (event, r)
        \<and> 1 \<in> set (ie_integrated_attempt_ids event))"
proof -
  have "keyed ie_integration_event_id (et_integration_events sample_work_tables)"
    "keyed cg_competing_group_id (et_competing_groups sample_work_tables)"
    "keyed at_attempt_id (et_attempts sample_work_tables)"
    by (simp_all add: keyed_def btm_sorted_def btm_get_def sample_work_tables_def sample_work_defs)
  from attempt_links_agree [OF sample_work_accepted this sample_work_lookups(6)] show ?thesis by blast
qed

theorem work_identity_check_exact_witness:
  "validate_work_identity_relations (et_tasks sample_work_tables) (et_workstreams sample_work_tables) [] [] = Ok ()
    \<and> acyclic (depends_on (et_workstreams sample_work_tables))"
proof -
  have "validate_work_identity_relations (et_tasks sample_work_tables) (et_workstreams sample_work_tables) [] [] = Ok ()"
    by (simp add: validate_work_identity_relations_def sample_work_tables_def btm_values_def btm_get_def
        task_relation_ok_def workstream_relation_ok_def btm_contains_key_def fetch_def corrupt_if_def if_some_def
        ok_or_def sample_work_defs)
  with work_identity_check_exact [OF sample_work_lookups(4,5), of "[]" "[]"] show ?thesis by blast
qed

lemma sample_tasks_recorded:
  "replay (\<lambda>m (v, s). replace_task m v s) [(3, sample_work_task, 1)] [(sample_finished_task, 5)]
    = Ok [(3, sample_finished_task, 5)]"
proof -
  have "task_validate sample_finished_task = Ok ()" "sample_work_task \<noteq> sample_finished_task"
    by (simp_all add: task_validate_def sample_finished_task_def sample_work_task_def sample_text
        ordered_ids_def strictly_ordered_unique_iff task_lifecycle_is_terminal_def)
  then show ?thesis
    by (simp add: replace_task_def btm_get_def) (simp add: sample_finished_task_def sample_work_task_def
        task_lifecycle_is_terminal_def word_le_nat_alt)
qed

theorem terminal_work_is_final_witness:
  "advances task_later [(3 :: task_id, sample_work_task, 1)] [(3, sample_finished_task, 5)]
    \<and> advances workstream_later [(4 :: workstream_id, sample_first_workstream, 2)] [(4, sample_first_workstream, 9)]"
proof (rule terminal_work_is_final [OF sample_tasks_recorded])
  have "workstream_validate sample_first_workstream = Ok ()"
    by (simp add: workstream_validate_def sample_work_defs sample_text strictly_ordered_unique_iff
        sample_episode_def phase_contract_validate_def)
  then show "replay (\<lambda>m (v, s). replace_workstream m v s) [(4, sample_first_workstream, 2)] [(sample_first_workstream, 9)]
      = Ok [(4, sample_first_workstream, 9)]"
    by (simp add: replace_workstream_def btm_get_def) (simp add: sample_work_defs)
qed (simp_all add: keyed_def btm_sorted_def btm_get_def sample_work_defs)

theorem binding_lineage_extends_witness:
  "\<exists>m'. current_binding_lineage ([sample_binding] @ [sample_binding_successor]) = Ok m'
    \<and> btm_get m' = [2 \<mapsto> sample_binding_successor]"
proof -
  have v: "work_binding_revision_validate sample_binding = Ok ()" "work_binding_revision_validate sample_binding_successor = Ok ()"
    using sample_binding_accepted by (auto simp: work_binding_revision_validate_successor_def then_unit_iff)
  have m: "current_binding_lineage [sample_binding] = Ok [(2, sample_binding)]"
    by (simp add: current_binding_lineage_def v group_by_id_def btree_set_def binding_current_of_def)
      (simp add: sample_binding_def ok_or_def deque_back_def)
  have op: "wb_operation_id sample_binding_successor = 2"
    by (simp add: sample_binding_successor_def sample_binding_def)
  from binding_lineage_extends [OF m _ v(2), of sample_binding] sample_binding_accepted
  show ?thesis by (auto simp: op btm_get_def fun_eq_iff)
qed

definition sample_first_attempt :: attempt where
  "sample_first_attempt = sample_attempt\<lparr>at_revision_id := 3, at_predecessor_revision_id := None,
    at_revision_generation := 1\<rparr>"

theorem recorded_attempts_and_groups_witness:
  "(\<exists>hist. represents at_attempt_id at_revision_id (attempt_root zero_digest)
        (\<lambda>a b. attempt_validate_successor zero_digest a b = Ok ()) hist
        [1 \<mapsto> (sample_first_attempt, 7)] [3 \<mapsto> (sample_first_attempt, 7)])
    \<and> (\<exists>hist. represents cg_competing_group_id cg_revision_id group_root
        (\<lambda>a b. competing_attempt_group_validate_successor a b = Ok ()) hist
        [1 \<mapsto> (sample_decided_group, 9)] [2 \<mapsto> (sample_group, 8), 9 \<mapsto> (sample_decided_group, 9)])"
proof (rule recorded_attempts_and_groups)
  have "attempt_validate zero_digest sample_first_attempt = Ok ()"
    by (simp add: attempt_validate_def sample_attempt_def sample_first_attempt_def
      sample_strategy_valid sample_fingerprint attempt_lists_ok_def attempt_resume_shape_def
      attempt_outcome_shape_def sample_text ordered_ids_def strictly_ordered_unique_iff)
  then show "replay (\<lambda>(c, r) (v, seq). record_attempt zero_digest c r v seq) (\<lambda>_. None, \<lambda>_. None)
      [(sample_first_attempt, 7)] = Ok ([1 \<mapsto> (sample_first_attempt, 7)], [3 \<mapsto> (sample_first_attempt, 7)])"
    by (simp add: record_attempt_def replace_attempt_def) (simp add: sample_first_attempt_def sample_attempt_def)
  have "competing_attempt_group_validate sample_group = Ok ()" "sample_group \<noteq> sample_decided_group"
    using group_successor_facts(3) [OF sample_group_accepted] by (simp_all add: sample_group_def sample_decided_group_def)
  moreover have "cg_competing_group_id sample_group = 1" "cg_competing_group_id sample_decided_group = 1"
      "cg_revision_id sample_group = 2" "cg_revision_id sample_decided_group = 9"
      "cg_revision_generation sample_group = 1" "cg_predecessor_revision_id sample_group = None"
      "cg_resolution_status sample_group = ResolutionOpen"
    by (simp_all add: sample_group_def sample_decided_group_def)
  ultimately show "replay (\<lambda>(c, r) (v, seq). record_competing_group c r v seq) (\<lambda>_. None, \<lambda>_. None)
      [(sample_group, 8), (sample_decided_group, 9)]
    = Ok ([1 \<mapsto> (sample_decided_group, 9)], [2 \<mapsto> (sample_group, 8), 9 \<mapsto> (sample_decided_group, 9)])"
    using sample_group_accepted by (simp add: record_competing_group_def replace_competing_group_def)
qed

end
