(* ===== verification/Work_Command.thy ===== *)
theory Work_Command
  imports Work_Store
begin

text \<open>
  Journal commands that record work objects and the engine operations that build them for
  tasks and workstreams: \<open>JournalEventDraft\<close>, \<open>JournalCommand\<close> and
  \<open>validate_work_identity_command\<close> of \<open>evertrace-store/src/command.rs\<close>, and
  \<open>evertrace-engine/src/work.rs\<close>, \<open>work/task.rs\<close> and \<open>work/workstream.rs\<close>. An operation
  returns the command to commit or an error; revision identifiers that the source draws with
  \<open>new_v7\<close> are arguments. The payload type has the constructors that record work objects.
\<close>

section \<open>Commands\<close>

datatype source_kind = SourceHook | SourceSession | SourceManual | SourceImport | SourceSystem | SourceModel

fun source_kind_as_str :: "source_kind \<Rightarrow> string" where
  "source_kind_as_str SourceHook = ''hook''"
| "source_kind_as_str SourceSession = ''session''"
| "source_kind_as_str SourceManual = ''manual''"
| "source_kind_as_str SourceImport = ''import''"
| "source_kind_as_str SourceSystem = ''system''"
| "source_kind_as_str SourceModel = ''model''"

definition source_kind_parse :: "string \<Rightarrow> (store_error, source_kind) result" where
  "source_kind_parse value =
    (if value = ''hook'' then Ok SourceHook
     else if value = ''session'' then Ok SourceSession
     else if value = ''manual'' then Ok SourceManual
     else if value = ''import'' then Ok SourceImport
     else if value = ''system'' then Ok SourceSystem
     else if value = ''model'' then Ok SourceModel
     else Err StoreCorrupt)"

record event_scope =
  es_project_id :: "string option"
  es_repository_id :: "string option"
  es_worktree_id :: "string option"
  es_task_id :: "string option"
  es_workstream_id :: "string option"
  es_session_id :: "string option"
  es_execution_lane_id :: "string option"

definition event_scope_default :: event_scope where
  "event_scope_default = \<lparr>es_project_id = None, es_repository_id = None, es_worktree_id = None, es_task_id = None,
    es_workstream_id = None, es_session_id = None, es_execution_lane_id = None\<rparr>"

datatype work_payload =
    TaskRecorded task
  | WorkstreamRecorded workstream
  | WorkBindingRecorded work_binding_revision
  | AttemptRecorded attempt
  | CompetingAttemptGroupRecorded competing_attempt_group
  | OperationBurstRecorded operation_burst
  | WorkEpisodeRecorded work_episode
  | WorkCheckpointRecorded work_checkpoint
  | SegmentationCorrectionRecorded segmentation_correction

fun work_payload_validate :: "(bytes \<Rightarrow> bytes) \<Rightarrow> work_payload \<Rightarrow> (store_error, unit) result" where
  "work_payload_validate H (TaskRecorded v) = map_err (\<lambda>_. StoreInvalidInput) (task_validate v)"
| "work_payload_validate H (WorkstreamRecorded v) = map_err (\<lambda>_. StoreInvalidInput) (workstream_validate v)"
| "work_payload_validate H (WorkBindingRecorded v) = map_err (\<lambda>_. StoreInvalidInput) (work_binding_revision_validate v)"
| "work_payload_validate H (AttemptRecorded v) = map_err (\<lambda>_. StoreInvalidInput) (attempt_validate H v)"
| "work_payload_validate H (CompetingAttemptGroupRecorded v) =
    map_err (\<lambda>_. StoreInvalidInput) (competing_attempt_group_validate v)"
| "work_payload_validate H (OperationBurstRecorded v) = map_err (\<lambda>_. StoreInvalidInput) (operation_burst_validate v)"
| "work_payload_validate H (WorkEpisodeRecorded v) = map_err (\<lambda>_. StoreInvalidInput) (work_episode_validate v)"
| "work_payload_validate H (WorkCheckpointRecorded v) = map_err (\<lambda>_. StoreInvalidInput) (work_checkpoint_validate v)"
| "work_payload_validate H (SegmentationCorrectionRecorded v) =
    map_err (\<lambda>_. StoreInvalidInput) (segmentation_correction_validate v)"

record journal_event_draft =
  je_occurred_at_us :: i64
  je_source_kind :: source_kind
  je_scope :: event_scope
  je_causation_id :: "string option"
  je_correlation_id :: "string option"
  je_effective_config_hash :: bytes
  je_algorithm_revision :: string
  je_payload :: work_payload

definition journal_event_draft_runtime :: "i64 \<Rightarrow> bytes \<Rightarrow> string \<Rightarrow> work_payload \<Rightarrow> journal_event_draft" where
  "journal_event_draft_runtime occurred_at_us effective_config_hash algorithm_revision payload =
    \<lparr>je_occurred_at_us = occurred_at_us, je_source_kind = SourceSystem, je_scope = event_scope_default,
     je_causation_id = None, je_correlation_id = None, je_effective_config_hash = effective_config_hash,
     je_algorithm_revision = algorithm_revision, je_payload = payload\<rparr>"

definition MAX_IDENTIFIER_BYTES :: nat where "MAX_IDENTIFIER_BYTES = 256"

definition command_validate_identifier :: "string \<Rightarrow> (store_error, unit) result" where
  "command_validate_identifier value =
    (if value = [] \<or> length value > MAX_IDENTIFIER_BYTES
        \<or> (\<exists>c \<in> set value. of_char c = (0 :: nat) \<or> is_ascii_control c)
     then Err StoreInvalidInput else Ok ())"

definition journal_event_draft_validate :: "(bytes \<Rightarrow> bytes) \<Rightarrow> journal_event_draft \<Rightarrow> (store_error, unit) result" where
  "journal_event_draft_validate H d =
    (if sint (je_occurred_at_us d) < 0 then Err StoreInvalidInput
     else
     and_then (command_validate_identifier (je_algorithm_revision d)) (\<lambda>_.
     and_then (if_some command_validate_identifier (je_causation_id d)) (\<lambda>_.
     and_then (if_some command_validate_identifier (je_correlation_id d)) (\<lambda>_.
     and_then (for_each (if_some command_validate_identifier)
       [es_project_id (je_scope d), es_repository_id (je_scope d), es_worktree_id (je_scope d),
        es_task_id (je_scope d), es_workstream_id (je_scope d), es_session_id (je_scope d),
        es_execution_lane_id (je_scope d)]) (\<lambda>_.
     work_payload_validate H (je_payload d))))))"

record journal_command =
  jc_command_id :: command_id
  jc_events :: "journal_event_draft list"

definition journal_command_new :: "command_id \<Rightarrow> journal_event_draft list \<Rightarrow> (store_error, journal_command) result" where
  "journal_command_new command_id events =
    (if events = [] \<or> length events \<ge> 2 ^ 16 then Err StoreInvalidInput
     else Ok \<lparr>jc_command_id = command_id, jc_events = events\<rparr>)"

text \<open>
  The check of the tasks of a command. \<open>by_id\<close> has no duplicate key when the second loop
  runs, so it is the lookup of a task by its identifier.
\<close>

definition command_tasks :: "journal_event_draft list \<Rightarrow> task list" where
  "command_tasks events = List.map_filter (\<lambda>e. case je_payload e of TaskRecorded t \<Rightarrow> Some t | _ \<Rightarrow> None) events"

definition task_by_id :: "task list \<Rightarrow> task_id \<Rightarrow> (store_error, task) result" where
  "task_by_id tasks i = ok_or StoreInvalidInput (find (\<lambda>t. tk_task_id t = i) tasks)"

definition invalid_if :: "bool \<Rightarrow> (store_error, unit) result" where
  "invalid_if b = (if b then Err StoreInvalidInput else Ok ())"

definition command_task_ok :: "task list \<Rightarrow> task \<Rightarrow> (store_error, unit) result" where
  "command_task_ok tasks t =
    and_then (if tk_split_into_task_ids t \<noteq> [] then
        and_then (invalid_if (tk_predecessor_revision_id t = None \<or> \<not> task_lifecycle_is_terminal (tk_lifecycle t))) (\<lambda>_.
        for_each (\<lambda>child_id. and_then (task_by_id tasks child_id) (\<lambda>child.
          invalid_if (tk_split_from_task_id child \<noteq> Some (tk_task_id t)
            \<or> is_some (tk_predecessor_revision_id child)))) (tk_split_into_task_ids t))
      else Ok ()) (\<lambda>_.
    and_then (if_some (\<lambda>source_id. and_then (task_by_id tasks source_id) (\<lambda>source.
        invalid_if (tk_task_id t \<notin> set (tk_split_into_task_ids source)))) (tk_split_from_task_id t)) (\<lambda>_.
    and_then (for_each (\<lambda>source_id. and_then (task_by_id tasks source_id) (\<lambda>source.
        invalid_if (tk_merged_into_task_id source \<noteq> Some (tk_task_id t)
          \<or> tk_predecessor_revision_id source = None
          \<or> \<not> task_lifecycle_is_terminal (tk_lifecycle source)))) (tk_merged_from_task_ids t)) (\<lambda>_.
    if_some (\<lambda>target_id. and_then (task_by_id tasks target_id) (\<lambda>target.
        invalid_if (tk_task_id t \<notin> set (tk_merged_from_task_ids target)))) (tk_merged_into_task_id t))))"

definition validate_work_identity_command :: "journal_event_draft list \<Rightarrow> (store_error, unit) result" where
  "validate_work_identity_command events =
    (let tasks = command_tasks events in
     if \<not> distinct (map tk_task_id tasks) then Err StoreInvalidInput
     else for_each (command_task_ok tasks) tasks)"

section \<open>Engine context\<close>

record work_command_context =
  wc_command_id :: command_id
  wc_occurred_at_us :: i64
  wc_effective_config_hash :: bytes
  wc_algorithm_revision :: string

datatype typed_task_change = ChangeGoal | ChangeScope | ChangeConfidence | ChangeLifecycle
  | ChangeContinuation | ChangeSplit | ChangeMerge

datatype typed_workstream_change = ChangeStructuredRevision | ChangeMaterialGoalReplacement
  | ChangeWorktreeLineage | ChangeStatus

datatype work_identity_error = WorkInvalidInput | WorkScopeUnresolved | WorkConflict | WorkStore store_error

definition context_event :: "work_command_context \<Rightarrow> work_payload \<Rightarrow> journal_event_draft" where
  "context_event context payload = journal_event_draft_runtime (wc_occurred_at_us context)
    (wc_effective_config_hash context) (wc_algorithm_revision context) payload"

definition context_command ::
  "work_command_context \<Rightarrow> work_payload list \<Rightarrow> (work_identity_error, journal_command) result" where
  "context_command context payloads =
    map_err WorkStore (journal_command_new (wc_command_id context) (map (context_event context) payloads))"

section \<open>Tasks\<close>

definition create_task :: "work_command_context \<Rightarrow> task \<Rightarrow> (work_identity_error, journal_command) result" where
  "create_task context t =
    and_then (map_err (\<lambda>_. WorkInvalidInput) (task_validate t)) (\<lambda>_.
    if is_some (tk_predecessor_revision_id t) \<or> is_some (tk_continuation_of_task_id t)
       \<or> is_some (tk_split_from_task_id t) \<or> tk_split_into_task_ids t \<noteq> []
       \<or> tk_merged_from_task_ids t \<noteq> [] \<or> is_some (tk_merged_into_task_id t)
    then Err WorkInvalidInput
    else context_command context [TaskRecorded t])"

definition revise_task ::
  "work_command_context \<Rightarrow> task \<Rightarrow> task \<Rightarrow> typed_task_change \<Rightarrow> string list
    \<Rightarrow> (work_identity_error, journal_command) result" where
  "revise_task context current successor change evidence_refs =
    and_then (map_err (\<lambda>_. WorkInvalidInput) (task_validate successor)) (\<lambda>_.
    if evidence_refs = [] \<or> tk_task_id successor \<noteq> tk_task_id current
       \<or> tk_predecessor_revision_id successor \<noteq> Some (tk_revision_id current)
       \<or> tk_revision_id successor = tk_revision_id current
       \<or> tk_source_watermark successor \<le> tk_source_watermark current
       \<or> task_lifecycle_is_terminal (tk_lifecycle current)
    then Err WorkInvalidInput
    else context_command context [TaskRecorded successor])"

definition continue_task ::
  "work_command_context \<Rightarrow> task \<Rightarrow> task \<Rightarrow> string list \<Rightarrow> (work_identity_error, journal_command) result" where
  "continue_task context source continuation evidence_refs =
    and_then (map_err (\<lambda>_. WorkInvalidInput) (task_validate continuation)) (\<lambda>_.
    if evidence_refs = [] \<or> tk_lifecycle source \<notin> {TaskCompleted, TaskAbandoned}
       \<or> is_some (tk_predecessor_revision_id continuation)
       \<or> tk_task_id continuation = tk_task_id source
       \<or> tk_continuation_of_task_id continuation \<noteq> Some (tk_task_id source)
       \<or> tk_scope_memberships continuation \<noteq> []
       \<or> tk_split_into_task_ids continuation \<noteq> []
       \<or> tk_merged_from_task_ids continuation \<noteq> []
       \<or> is_some (tk_merged_into_task_id continuation)
    then Err WorkInvalidInput
    else context_command context [TaskRecorded continuation])"

definition split_task ::
  "work_command_context \<Rightarrow> task \<Rightarrow> task list \<Rightarrow> string list \<Rightarrow> (work_identity_error, journal_command) result" where
  "split_task context source_successor children evidence_refs =
    (if evidence_refs = [] \<or> length children < 2 \<or> tk_lifecycle source_successor \<noteq> TaskSuperseded
        \<or> tk_predecessor_revision_id source_successor = None
     then Err WorkInvalidInput
     else
     let child_ids = btree_set (map tk_task_id children) in
     if length child_ids \<noteq> length children
        \<or> btree_set (tk_split_into_task_ids source_successor) \<noteq> child_ids
        \<or> (\<exists>child \<in> set children. \<not> is_ok (task_validate child)
            \<or> is_some (tk_predecessor_revision_id child)
            \<or> tk_split_from_task_id child \<noteq> Some (tk_task_id source_successor)
            \<or> tk_scope_memberships child \<noteq> [])
     then Err WorkInvalidInput
     else context_command context (map TaskRecorded (source_successor # children)))"

definition merge_tasks ::
  "work_command_context \<Rightarrow> task list \<Rightarrow> task \<Rightarrow> string list \<Rightarrow> (work_identity_error, journal_command) result" where
  "merge_tasks context source_successors merged evidence_refs =
    (if evidence_refs = [] \<or> length source_successors < 2 \<or> is_some (tk_predecessor_revision_id merged)
        \<or> tk_scope_memberships merged \<noteq> []
     then Err WorkInvalidInput
     else
     let source_ids = btree_set (map tk_task_id source_successors) in
     if length source_ids \<noteq> length source_successors
        \<or> btree_set (tk_merged_from_task_ids merged) \<noteq> source_ids
        \<or> (\<exists>source \<in> set source_successors. \<not> is_ok (task_validate source)
            \<or> tk_predecessor_revision_id source = None
            \<or> tk_lifecycle source \<noteq> TaskSuperseded
            \<or> tk_merged_into_task_id source \<noteq> Some (tk_task_id merged))
     then Err WorkInvalidInput
     else context_command context (map TaskRecorded (merged # source_successors)))"

section \<open>Workstreams\<close>

record work_identity_current_view =
  wv_frontier :: u64
  wv_tasks :: "(task_id, task) btree_map"
  wv_workstreams :: "(workstream_id, workstream) btree_map"

definition validate_workstream_scope ::
  "task \<Rightarrow> workstream \<Rightarrow> repository_current_view \<Rightarrow> (work_identity_error, unit) result" where
  "validate_workstream_scope t w view =
    (if ws_task_id w \<noteq> tk_task_id t then Err WorkScopeUnresolved
     else (case ws_repository_instance_id w of
         None \<Rightarrow> if ws_worktree_instance_ids w = [] then Ok () else Err WorkScopeUnresolved
       | Some repository_id \<Rightarrow>
           if btm_contains_key (rv_repositories view) repository_id
              \<and> (\<exists>m \<in> set (tk_scope_memberships t). tsm_repository_instance_id m = Some repository_id
                  \<and> (\<forall>i \<in> set (ws_worktree_instance_ids w). i \<in> set (tsm_worktree_instance_ids m)))
              \<and> (\<forall>i \<in> set (ws_worktree_instance_ids w). is_some_and (\<lambda>worktree.
                  wt_repository_instance_id worktree = repository_id) (btm_get (rv_worktrees view) i))
           then Ok () else Err WorkScopeUnresolved))"

definition create_workstream ::
  "work_command_context \<Rightarrow> task \<Rightarrow> repository_current_view \<Rightarrow> workstream
    \<Rightarrow> (work_identity_error, journal_command) result" where
  "create_workstream context t view w =
    (if is_some (ws_active_episode_id w) then Err WorkInvalidInput
     else
     and_then (map_err (\<lambda>_. WorkInvalidInput) (workstream_validate w)) (\<lambda>_.
     if is_some (ws_predecessor_revision_id w) then Err WorkInvalidInput
     else
     and_then (validate_workstream_scope t w view) (\<lambda>_.
     context_command context [WorkstreamRecorded w])))"

definition revise_workstream ::
  "work_command_context \<Rightarrow> task \<Rightarrow> repository_current_view \<Rightarrow> workstream \<Rightarrow> workstream \<Rightarrow> typed_workstream_change
    \<Rightarrow> string list \<Rightarrow> (work_identity_error, journal_command) result" where
  "revise_workstream context t view current successor change evidence_refs =
    (if change = ChangeMaterialGoalReplacement \<or> evidence_refs = []
        \<or> ws_workstream_id successor \<noteq> ws_workstream_id current
        \<or> ws_predecessor_revision_id successor \<noteq> Some (ws_revision_id current)
        \<or> ws_revision_id successor = ws_revision_id current
        \<or> ws_source_watermark successor \<le> ws_source_watermark current
        \<or> ws_active_episode_id successor \<noteq> ws_active_episode_id current
        \<or> workstream_status_is_terminal (ws_status current)
     then Err WorkInvalidInput
     else
     and_then (map_err (\<lambda>_. WorkInvalidInput) (workstream_validate successor)) (\<lambda>_.
     and_then (validate_workstream_scope t successor view) (\<lambda>_.
     context_command context [WorkstreamRecorded successor])))"

definition replace_workstream_for_material_goal ::
  "work_command_context \<Rightarrow> revision_id \<Rightarrow> task \<Rightarrow> repository_current_view \<Rightarrow> workstream \<Rightarrow> workstream
    \<Rightarrow> string list \<Rightarrow> (work_identity_error, journal_command) result" where
  "replace_workstream_for_material_goal context new_revision t view current replacement decision_refs =
    (if decision_refs = [] \<or> ws_workstream_id replacement = ws_workstream_id current
        \<or> is_some (ws_predecessor_revision_id replacement)
        \<or> ws_task_id replacement \<noteq> ws_task_id current
        \<or> ws_source_watermark replacement \<le> ws_source_watermark current
        \<or> workstream_status_is_terminal (ws_status current)
     then Err WorkInvalidInput
     else
     and_then (map_err (\<lambda>_. WorkInvalidInput) (workstream_validate replacement)) (\<lambda>_.
     and_then (validate_workstream_scope t replacement view) (\<lambda>_.
     let superseded = current\<lparr>ws_revision_id := new_revision, ws_predecessor_revision_id := Some (ws_revision_id current),
           ws_status := WorkstreamSuperseded, ws_source_watermark := ws_source_watermark replacement\<rparr> in
     context_command context [WorkstreamRecorded superseded, WorkstreamRecorded replacement])))"

record correlation_scope =
  co_task_id :: "task_id option"
  co_repository_instance_id :: "repository_id option"
  co_worktree_instance_id :: "worktree_id option"

definition scope_matches :: "workstream \<Rightarrow> correlation_scope \<Rightarrow> bool" where
  "scope_matches w scope \<longleftrightarrow>
    (case co_task_id scope of None \<Rightarrow> True | Some i \<Rightarrow> ws_task_id w = i)
    \<and> (case co_repository_instance_id scope of None \<Rightarrow> True | Some i \<Rightarrow> ws_repository_instance_id w = Some i)
    \<and> (case co_worktree_instance_id scope of None \<Rightarrow> True | Some i \<Rightarrow> i \<in> set (ws_worktree_instance_ids w))"

definition evidence_authoritative :: "correlation_evidence \<Rightarrow> bool" where
  "evidence_authoritative item \<longleftrightarrow> ce_kind item = EvidenceExplicitTask \<or> ce_kind item = EvidenceExplicitWorkstream
    \<or> correlation_evidence_kind_is_strong (ce_kind item)"

text \<open>The workstreams of a task inside the scope.\<close>

definition task_workstreams ::
  "work_identity_current_view \<Rightarrow> correlation_scope \<Rightarrow> task_id \<Rightarrow> workstream_id list" where
  "task_workstreams view scope i = btree_set (map ws_workstream_id
    (filter (\<lambda>w. ws_task_id w = i \<and> scope_matches w scope) (btm_values (wv_workstreams view))))"

text \<open>
  One authoritative item: the candidates it contributes, and whether it is invalid. A task
  that is unknown or outside the scope contributes nothing.
\<close>

definition explicit_task_known :: "work_identity_current_view \<Rightarrow> correlation_scope \<Rightarrow> task_id \<Rightarrow> bool" where
  "explicit_task_known view scope i \<longleftrightarrow>
    btm_contains_key (wv_tasks view) i \<and> \<not> is_some_and (\<lambda>scope_id. scope_id \<noteq> i) (co_task_id scope)"

definition workstream_known :: "work_identity_current_view \<Rightarrow> correlation_scope \<Rightarrow> workstream_id \<Rightarrow> bool" where
  "workstream_known view scope i \<longleftrightarrow> is_some_and (\<lambda>w. scope_matches w scope) (btm_get (wv_workstreams view) i)"

definition item_candidates ::
  "work_identity_current_view \<Rightarrow> correlation_scope \<Rightarrow> correlation_evidence \<Rightarrow> workstream_id list \<times> bool" where
  "item_candidates view scope item =
    (if ce_kind item = EvidenceExplicitTask then
       (btree_set (concat (map (task_workstreams view scope)
          (filter (explicit_task_known view scope) (ce_candidate_task_ids item)))),
        (\<exists>i \<in> set (ce_candidate_task_ids item). \<not> explicit_task_known view scope i \<or> task_workstreams view scope i = []))
     else
       (btree_set (filter (workstream_known view scope) (ce_candidate_workstream_ids item)),
        (\<exists>i \<in> set (ce_candidate_workstream_ids item). \<not> workstream_known view scope i)))"

record correlation_state =
  cs_authoritative_seen :: bool
  cs_invalid_authoritative :: bool
  cs_constraints :: "workstream_id list list"

definition correlation_step ::
  "work_identity_current_view \<Rightarrow> correlation_scope \<Rightarrow> correlation_evidence \<Rightarrow> correlation_state \<Rightarrow> correlation_state" where
  "correlation_step view scope item s =
    (if \<not> evidence_authoritative item then s
     else
     let s = s\<lparr>cs_authoritative_seen := True\<rparr> in
     if \<not> is_ok (correlation_evidence_validate item) then s\<lparr>cs_invalid_authoritative := True\<rparr>
     else if (if ce_kind item = EvidenceExplicitTask then ce_candidate_workstream_ids item \<noteq> []
              else ce_candidate_task_ids item \<noteq> [])
     then s\<lparr>cs_invalid_authoritative := True\<rparr>
     else
     let (candidates, invalid) = item_candidates view scope item;
         s = (if invalid then s\<lparr>cs_invalid_authoritative := True\<rparr> else s) in
     if candidates = [] then s\<lparr>cs_invalid_authoritative := True\<rparr>
     else s\<lparr>cs_constraints := cs_constraints s @ [candidates]\<rparr>)"

fun intersect_all :: "workstream_id list list \<Rightarrow> workstream_id list" where
  "intersect_all [] = []"
| "intersect_all [left] = left"
| "intersect_all (left # right # rest) = intersect_all (filter (\<lambda>i. i \<in> set right) left # rest)"

definition resolve_workstream_candidate ::
  "work_identity_current_view \<Rightarrow> correlation_scope \<Rightarrow> correlation_evidence list \<Rightarrow> u64 \<Rightarrow> correlation_result" where
  "resolve_workstream_candidate view scope evidence source_watermark =
    (let s = fold (correlation_step view scope) evidence
           \<lparr>cs_authoritative_seen = False, cs_invalid_authoritative = False, cs_constraints = []\<rparr>;
         candidates = intersect_all (cs_constraints s)
     in
     if cs_authoritative_seen s \<and> \<not> cs_invalid_authoritative s \<and> length candidates = 1
     then Resolved (hd candidates)
     else
     let all_candidates = btree_set (filter (btm_contains_key (wv_workstreams view))
           (concat (map ce_candidate_workstream_ids evidence)));
         candidate_tasks = btree_set (filter (btm_contains_key (wv_tasks view))
           (concat (map ce_candidate_task_ids evidence)
             @ List.map_filter (\<lambda>i. map_option ws_task_id (btm_get (wv_workstreams view) i)) all_candidates))
     in Unresolved \<lparr>uw_candidate_task_ids = candidate_tasks, uw_candidate_workstream_ids = all_candidates,
          uw_missing_evidence = [''unique_scope_consistent_exact_or_strong_evidence''],
          uw_conflict_reason =
            (if cs_invalid_authoritative s \<or> (cs_authoritative_seen s \<and> candidates = [])
             then ''authoritative_evidence_conflict''
             else if length candidates > 1 then ''multiple_authoritative_candidates''
             else ''weak_or_no_evidence''),
          uw_exit_conditions = [''provide_explicit_id_or_unique_strong_reference''],
          uw_source_watermark = source_watermark\<rparr>)"

record active_lineage_foundation =
  al_task_id :: task_id
  al_task_revision_id :: revision_id
  al_workstream_id :: workstream_id
  al_workstream_revision_id :: revision_id
  al_repository_instance_id :: "repository_id option"
  al_active_worktree_instance_id :: "worktree_id option"
  al_worktree_lineage_refs :: "string list"
  al_source_watermark :: u64

definition derive_active_lineage ::
  "task \<Rightarrow> workstream \<Rightarrow> repository_current_view \<Rightarrow> (work_identity_error, active_lineage_foundation) result" where
  "derive_active_lineage t w view =
    (if tk_identity_confidence t = ConfidenceProvisional \<or> ws_task_id w \<noteq> tk_task_id t
        \<or> workstream_status_is_terminal (ws_status w)
     then Err WorkScopeUnresolved
     else if is_some_and (\<lambda>repository_id.
         \<not> btm_contains_key (rv_repositories view) repository_id
         \<or> \<not> is_some_and (\<lambda>m. \<forall>i \<in> set (ws_worktree_instance_ids w). i \<in> set (tsm_worktree_instance_ids m))
             (find (\<lambda>m. tsm_repository_instance_id m = Some repository_id) (tk_scope_memberships t)))
       (ws_repository_instance_id w)
     then Err WorkScopeUnresolved
     else
     and_then (if_some (\<lambda>worktree_id.
         and_then (ok_or WorkScopeUnresolved (btm_get (rv_worktrees view) worktree_id)) (\<lambda>worktree.
         if Some (wt_repository_instance_id worktree) \<noteq> ws_repository_instance_id w
            \<or> wt_lifecycle worktree \<in> {LifecycleRemoved, LifecyclePruned}
         then Err WorkScopeUnresolved else Ok ())) (ws_active_worktree_instance_id w)) (\<lambda>_.
     Ok \<lparr>al_task_id = tk_task_id t, al_task_revision_id = tk_revision_id t,
         al_workstream_id = ws_workstream_id w, al_workstream_revision_id = ws_revision_id w,
         al_repository_instance_id = ws_repository_instance_id w,
         al_active_worktree_instance_id = ws_active_worktree_instance_id w,
         al_worktree_lineage_refs = ws_worktree_lineage_refs w,
         al_source_watermark = max (tk_source_watermark t) (ws_source_watermark w)\<rparr>))"

section \<open>Tasks that were split off\<close>

lemma invalid_if_Inr [result_simps]: "invalid_if b = Inr u \<longleftrightarrow> \<not> b"
  by (simp add: invalid_if_def)

lemma task_by_id_iff:
  assumes "distinct (map tk_task_id tasks)"
  shows "task_by_id tasks i = Ok t \<longleftrightarrow> t \<in> set tasks \<and> tk_task_id t = i"
proof -
  have "find (\<lambda>x. tk_task_id x = i) tasks = Some t \<longleftrightarrow> t \<in> set tasks \<and> tk_task_id t = i"
    using assms by (induction tasks) auto
  then show ?thesis by (simp add: task_by_id_def ok_or_Inr_iff)
qed

lemma identity_commandD:
  assumes "validate_work_identity_command events = Ok ()"
  shows "distinct (map tk_task_id (command_tasks events))"
    and "t \<in> set (command_tasks events) \<Longrightarrow> command_task_ok (command_tasks events) t = Ok ()"
  using assms by (auto simp: validate_work_identity_command_def Let_def for_each_Inr_iff split: if_splits)

lemma split_child_is_first:
  assumes "validate_work_identity_command events = Ok ()" and t: "t \<in> set (command_tasks events)"
    and "tk_split_from_task_id t = Some p"
  shows "tk_predecessor_revision_id t = None"
proof -
  let ?tasks = "command_tasks events"
  note ok = identity_commandD [OF assms(1)]
  note find = task_by_id_iff [OF ok(1)]
  from ok(2) [OF t] assms(3) obtain source
    where source: "source \<in> set ?tasks" "tk_task_id t \<in> set (tk_split_into_task_ids source)"
    by (auto simp: command_task_ok_def then_unit_iff and_then_Inr_iff if_some_Inr_iff invalid_if_Inr find)
  then have "tk_split_into_task_ids source \<noteq> []" by auto
  with ok(2) [OF source(1)] source(2) obtain child
    where "task_by_id ?tasks (tk_task_id t) = Ok child" "tk_predecessor_revision_id child = None"
    by (auto simp: command_task_ok_def then_unit_iff and_then_Inr_iff for_each_Inr_iff invalid_if_Inr)
  with find t ok(1) show ?thesis by (metis distinct_map inj_onD)
qed

text \<open>
  C34. A task that was created by a split can never be revised again: no command that passes the
  command check contains a revision of it, because the check wants the split source in the
  same command and of its children only first revisions, while the recorded origin of a task
  may not change. Whatever such a command records, the task keeps its first revision; it
  can neither be completed nor abandoned nor merged.
\<close>

theorem split_children_frozen:
  assumes "validate_work_identity_command events = Ok ()"
    and "replay (\<lambda>m (v, s). replace_task m v s) tasks (zip (command_tasks events) seqs) = Ok tasks'"
    and "keyed tk_task_id tasks" and "btm_get tasks i = Some (t, s)" and "tk_split_from_task_id t = Some p"
  shows "\<exists>s'. btm_get tasks' i = Some (t, s')"
proof (rule replay_invariant [OF assms(2)])
  show "\<exists>s'. btm_get tasks i = Some (t, s')" using assms(4) by blast
  fix m x m'
  assume x: "x \<in> set (zip (command_tasks events) seqs)" and step: "(case x of (v, s) \<Rightarrow> replace_task m v s) = Ok m'"
    and "\<exists>s'. btm_get m i = Some (t, s')"
  then obtain v r q where v: "x = (v, r)" "v \<in> set (command_tasks events)" "btm_get m i = Some (t, q)"
    by (metis prod.exhaust set_zip_leftD)
  with step have r: "replace_task m v r = Ok m'" by simp
  have "v = t" if "tk_task_id v = i"
  proof (rule ccontr)
    assume "v \<noteq> t"
    with r v(3) that have a: "task_accepts t v" unfolding tasks.replace_iff by auto
    with assms(5) have "tk_split_from_task_id v = Some p" by (simp add: task_accepts_def)
    with split_child_is_first [OF assms(1) v(2)] a show False by (simp add: task_accepts_def)
  qed
  then show "\<exists>s'. btm_get m' i = Some (t, s')" using tasks.replace_get [OF r, of i] v(3) by auto
qed

lemma command_tasks_recorded: "command_tasks (map (context_event context) (map TaskRecorded ts)) = ts"
  by (induction ts) (simp_all add: command_tasks_def List.map_filter_def context_event_def journal_event_draft_runtime_def)

lemma context_commandD: "context_command context payloads = Ok c \<Longrightarrow> jc_events c = map (context_event context) payloads"
  by (auto simp: context_command_def journal_command_new_def map_err_Inr_iff split: if_splits)

lemma split_taskD:
  assumes "split_task context source children evidence = Ok c"
  shows "tk_predecessor_revision_id source \<noteq> None" and "tk_lifecycle source = TaskSuperseded"
    and "distinct (map tk_task_id children)" and "set (tk_split_into_task_ids source) = tk_task_id ` set children"
    and "x \<in> set children \<Longrightarrow> tk_predecessor_revision_id x = None \<and> tk_split_from_task_id x = Some (tk_task_id source)"
    and "command_tasks (jc_events c) = source # children"
proof -
  from assms have g: "tk_predecessor_revision_id source \<noteq> None \<and> tk_lifecycle source = TaskSuperseded"
    and l: "length (btree_set (map tk_task_id children)) = length (map tk_task_id children)"
    and b: "btree_set (tk_split_into_task_ids source) = btree_set (map tk_task_id children)"
    and k: "\<forall>x \<in> set children. tk_predecessor_revision_id x = None \<and> tk_split_from_task_id x = Some (tk_task_id source)"
    and c: "context_command context (map TaskRecorded (source # children)) = Ok c"
    by (auto simp: split_task_def Let_def split: if_splits)
  show "tk_predecessor_revision_id source \<noteq> None" "tk_lifecycle source = TaskSuperseded" using g by auto
  show "distinct (map tk_task_id children)" using l length_btree_set_eq_iff by blast
  show "set (tk_split_into_task_ids source) = tk_task_id ` set children" using arg_cong [OF b, of set] by simp
  show "x \<in> set children \<Longrightarrow> tk_predecessor_revision_id x = None \<and> tk_split_from_task_id x = Some (tk_task_id source)"
    using k by blast
  show "command_tasks (jc_events c) = source # children"
    using context_commandD [OF c] by (simp only: command_tasks_recorded)
qed

text \<open>The children a recorded split names must all be in the command.\<close>

lemma split_needs_children:
  assumes "validate_work_identity_command events = Ok ()" and "source \<in> set (command_tasks events)"
    and "i \<in> set (tk_split_into_task_ids source)"
  shows "\<exists>child \<in> set (command_tasks events). tk_task_id child = i"
proof -
  from assms(3) have "tk_split_into_task_ids source \<noteq> []" by auto
  with identity_commandD(2) [OF assms(1,2)] assms(3)
  obtain child where "task_by_id (command_tasks events) i = Ok child"
    by (auto simp: command_task_ok_def then_unit_iff and_then_Inr_iff for_each_Inr_iff)
  with task_by_id_iff [OF identity_commandD(1) [OF assms(1)]] show ?thesis by blast
qed

text \<open>
  A split is recorded whole or not at all: the command that \<open>split_task\<close> builds holds the
  superseded source followed by the children; it passes the command check when source and
  children take part in no other split or merge, and no command that records the source
  without all of its children passes.
\<close>

theorem split_command_complete:
  assumes "split_task context source children evidence = Ok c"
    and "task_validate source = Ok ()" and "tk_split_from_task_id source = None"
    and "tk_merged_from_task_ids source = []" and "tk_merged_into_task_id source = None"
    and "\<And>child. child \<in> set children \<Longrightarrow> tk_split_into_task_ids child = [] \<and> tk_merged_from_task_ids child = []
      \<and> tk_merged_into_task_id child = None"
  shows "command_tasks (jc_events c) = source # children
    \<and> validate_work_identity_command (jc_events c) = Ok ()
    \<and> (\<forall>events. source \<in> set (command_tasks events)
        \<and> \<not> tk_task_id ` set children \<subseteq> tk_task_id ` set (command_tasks events)
        \<longrightarrow> validate_work_identity_command events \<noteq> Ok ())"
proof -
  let ?all = "source # children"
  note split = split_taskD [OF assms(1)]
  have "tk_task_id source \<notin> set (tk_split_into_task_ids source)"
    using assms(2) by (auto simp: task_validate_def split: if_splits)
  with split(3,4) have d: "distinct (map tk_task_id ?all)" by auto
  note find = task_by_id_iff [OF d]
  have "command_task_ok ?all x = Ok ()" if "x \<in> set children" for x
    using that assms(6) [OF that] split(5) [OF that] split(4)
    by (auto simp: command_task_ok_def then_unit_iff and_then_Inr_iff if_some_def invalid_if_Inr find)
  moreover have "command_task_ok ?all source = Ok ()"
  proof -
    have "\<exists>child. task_by_id ?all i = Ok child \<and> tk_split_from_task_id child = Some (tk_task_id source)
        \<and> tk_predecessor_revision_id child = None" if "i \<in> set (tk_split_into_task_ids source)" for i
      using that split(4,5) find by force
    then show ?thesis
      using assms(3-5) split(1,2)
      by (simp add: command_task_ok_def then_unit_iff and_then_Inr_iff if_some_def invalid_if_Inr for_each_Inr_iff
          task_lifecycle_is_terminal_def)
  qed
  ultimately have "validate_work_identity_command (jc_events c) = Ok ()"
    using d by (simp add: validate_work_identity_command_def split(6) Let_def for_each_Inr_iff)
  moreover have "tk_task_id ` set children \<subseteq> tk_task_id ` set (command_tasks events)"
    if "source \<in> set (command_tasks events)" "validate_work_identity_command events = Ok ()" for events
  proof
    fix i assume "i \<in> tk_task_id ` set children"
    then have "i \<in> set (tk_split_into_task_ids source)" by (simp add: split(4))
    from split_needs_children [OF that(2,1) this] show "i \<in> tk_task_id ` set (command_tasks events)" by blast
  qed
  ultimately show ?thesis using split(6) by blast
qed

section \<open>Correlating evidence with a workstream\<close>

text \<open>An authoritative item that the resolver holds against the whole evidence.\<close>

definition item_conflicts ::
  "work_identity_current_view \<Rightarrow> correlation_scope \<Rightarrow> correlation_evidence \<Rightarrow> bool" where
  "item_conflicts view scope item \<longleftrightarrow> correlation_evidence_validate item \<noteq> Ok ()
    \<or> (if ce_kind item = EvidenceExplicitTask then ce_candidate_workstream_ids item \<noteq> []
       else ce_candidate_task_ids item \<noteq> [])
    \<or> snd (item_candidates view scope item) \<or> fst (item_candidates view scope item) = []"

lemma correlation_step_flags:
  "cs_authoritative_seen (correlation_step view scope item s) \<longleftrightarrow> cs_authoritative_seen s \<or> evidence_authoritative item"
  "cs_invalid_authoritative (correlation_step view scope item s)
    \<longleftrightarrow> cs_invalid_authoritative s \<or> evidence_authoritative item \<and> item_conflicts view scope item"
  "\<not> cs_invalid_authoritative (correlation_step view scope item s) \<Longrightarrow> cs_constraints (correlation_step view scope item s)
    = cs_constraints s @ (if evidence_authoritative item then [fst (item_candidates view scope item)] else [])"
  by (auto simp: correlation_step_def item_conflicts_def is_ok_unit Let_def split: prod.split)

lemma correlation_fold_seen:
  "cs_authoritative_seen (fold (correlation_step view scope) evidence s)
    \<longleftrightarrow> cs_authoritative_seen s \<or> (\<exists>item \<in> set evidence. evidence_authoritative item)"
  by (induction evidence arbitrary: s) (simp_all add: correlation_step_flags(1) disj_assoc)

lemma correlation_fold_invalid:
  "cs_invalid_authoritative (fold (correlation_step view scope) evidence s)
    \<longleftrightarrow> cs_invalid_authoritative s \<or> (\<exists>item \<in> set evidence. evidence_authoritative item \<and> item_conflicts view scope item)"
  by (induction evidence arbitrary: s) (simp_all add: correlation_step_flags(2) disj_assoc)

lemma correlation_fold_constraints:
  "\<not> cs_invalid_authoritative (fold (correlation_step view scope) evidence s) \<Longrightarrow>
    cs_constraints (fold (correlation_step view scope) evidence s)
      = cs_constraints s @ map (fst \<circ> item_candidates view scope) (filter evidence_authoritative evidence)"
proof (induction evidence arbitrary: s)
  case (Cons item evidence)
  then have inv: "\<not> cs_invalid_authoritative (fold (correlation_step view scope) evidence (correlation_step view scope item s))"
    by simp
  then have "\<not> cs_invalid_authoritative (correlation_step view scope item s)" by (simp add: correlation_fold_invalid)
  with correlation_step_flags(3) Cons.IH [OF inv] show ?case by simp
qed simp

lemmas correlation_fold = correlation_fold_seen correlation_fold_invalid correlation_fold_constraints

lemma set_intersect_all: "xss \<noteq> [] \<Longrightarrow> set (intersect_all xss) = (\<Inter>xs \<in> set xss. set xs)"
  by (induction xss rule: intersect_all.induct) auto

lemma distinct_intersect_all: "list_all distinct xss \<Longrightarrow> distinct (intersect_all xss)"
  by (induction xss rule: intersect_all.induct) auto

lemma singleton_list_iff: "distinct xs \<Longrightarrow> length xs = 1 \<and> hd xs = x \<longleftrightarrow> set xs = {x}"
proof -
  assume d: "distinct xs"
  show ?thesis
  proof
    assume "set xs = {x}"
    moreover from this have "length xs = 1" using distinct_card [OF d] by simp
    ultimately show "length xs = 1 \<and> hd xs = x" by (cases xs) auto
  qed (cases xs, auto)
qed

text \<open>
  The resolver decides for a workstream exactly when there is authoritative evidence, none of
  it conflicts (invalid, of the wrong shape, or naming something unknown or outside the
  scope), and this workstream is the only one that every authoritative item admits. Weak
  evidence (sessions, recency, similarity and the like) and the order of the evidence never
  matter.
\<close>

theorem correlation_resolves_iff:
  "resolve_workstream_candidate view scope evidence source_watermark = Resolved w \<longleftrightarrow>
    (\<exists>item \<in> set evidence. evidence_authoritative item)
    \<and> (\<forall>item \<in> set evidence. evidence_authoritative item \<longrightarrow> \<not> item_conflicts view scope item)
    \<and> {i. \<forall>item \<in> set evidence. evidence_authoritative item \<longrightarrow> i \<in> set (fst (item_candidates view scope item))} = {w}"
    (is "?lhs \<longleftrightarrow> ?seen \<and> ?fine \<and> ?only")
proof -
  let ?s = "fold (correlation_step view scope) evidence
    \<lparr>cs_authoritative_seen = False, cs_invalid_authoritative = False, cs_constraints = []\<rparr>"
  have flags: "cs_authoritative_seen ?s \<longleftrightarrow> ?seen" "cs_invalid_authoritative ?s \<longleftrightarrow> \<not> ?fine"
    by (auto simp: correlation_fold(1,2))
  have "?lhs \<longleftrightarrow> ?seen \<and> ?fine \<and> length (intersect_all (cs_constraints ?s)) = 1 \<and> hd (intersect_all (cs_constraints ?s)) = w"
    unfolding resolve_workstream_candidate_def Let_def flags by auto
  moreover have "length (intersect_all (cs_constraints ?s)) = 1 \<and> hd (intersect_all (cs_constraints ?s)) = w \<longleftrightarrow> ?only"
    if "?seen" "?fine"
  proof -
    have c: "cs_constraints ?s = map (fst \<circ> item_candidates view scope) (filter evidence_authoritative evidence)"
      using correlation_fold(3) [of view scope evidence] flags(2) that(2) by simp
    have "distinct (fst (item_candidates view scope item))" for item
      by (simp add: item_candidates_def)
    then have d: "distinct (intersect_all (cs_constraints ?s))" by (intro distinct_intersect_all) (auto simp: c list_all_iff)
    have "cs_constraints ?s \<noteq> []" using that(1) by (auto simp: c filter_empty_conv)
    then have "set (intersect_all (cs_constraints ?s))
        = {i. \<forall>item \<in> set evidence. evidence_authoritative item \<longrightarrow> i \<in> set (fst (item_candidates view scope item))}"
      by (auto simp: set_intersect_all c)
    with singleton_list_iff [OF d] show ?thesis by simp
  qed
  ultimately show ?thesis by blast
qed

section \<open>Two scope checks\<close>

lemma find_distinct: "distinct (map f xs) \<Longrightarrow> m \<in> set xs \<Longrightarrow> f m = y \<Longrightarrow> find (\<lambda>x. f x = y) xs = Some m"
  by (induction xs) auto

text \<open>
  The engine accepts a workstream if some scope membership of its task covers its worktrees;
  the store looks only at the first membership of the repository. They agree when a task
  lists a repository once.
\<close>

theorem workstream_scope_agrees:
  assumes "validate_workstream_scope t w view = Ok ()"
    and "btm_get tasks (ws_task_id w) = Some (t, s)"
    and "\<And>i. btm_get (rv_worktrees view) i = map_option fst (btm_get worktrees i)"
    and "distinct (map tsm_repository_instance_id (tk_scope_memberships t))"
    and "\<And>i. i \<in> set (ws_dependency_workstream_ids w) \<union> set_option (ws_parent_workstream_id w) \<Longrightarrow>
      \<exists>d s. btm_get workstreams i = Some (d, s) \<and> ws_task_id d = ws_task_id w"
  shows "workstream_relation_ok tasks workstreams worktrees w = Ok ()"
  unfolding workstream_relation_iff workstream_closed_def
proof (intro conjI exI [of _ t] exI [of _ s] allI impI ballI)
  fix r
  assume r: "ws_repository_instance_id w = Some r"
  from assms(1) r obtain m where m: "m \<in> set (tk_scope_memberships t)" "tsm_repository_instance_id m = Some r"
      "set (ws_worktree_instance_ids w) \<subseteq> set (tsm_worktree_instance_ids m)"
    by (auto simp: validate_workstream_scope_def split: if_splits)
  have "find (\<lambda>m. tsm_repository_instance_id m = Some r) (tk_scope_memberships t) = Some m"
    by (rule find_distinct [OF assms(4) m(1,2)])
  with m(3) show "\<exists>m. find (\<lambda>m. tsm_repository_instance_id m = Some r) (tk_scope_memberships t) = Some m
      \<and> set (ws_worktree_instance_ids w) \<subseteq> set (tsm_worktree_instance_ids m)" by blast
  show "worktrees_owned worktrees r (ws_worktree_instance_ids w)"
    using assms(1,3) r by (fastforce simp: validate_workstream_scope_def worktrees_owned_def is_some_and_iff split: if_splits)
qed (use assms(2,5) in auto)

section \<open>Sample commands\<close>

definition sample_scope_task :: task where
  "sample_scope_task = sample_work_task\<lparr>tk_scope_memberships :=
    [TaskScopeMembership (Some 1) [5], TaskScopeMembership (Some 1) [6]]\<rparr>"

definition sample_scope_workstream :: workstream where
  "sample_scope_workstream = sample_first_workstream\<lparr>ws_repository_instance_id := Some 1, ws_worktree_instance_ids := [6]\<rparr>"

definition sample_scope_view :: "repository_instance \<Rightarrow> worktree_instance \<Rightarrow> repository_current_view" where
  "sample_scope_view r w = \<lparr>rv_frontier = 1, rv_repositories = [(1, r)],
    rv_worktrees = [(6, w\<lparr>wt_repository_instance_id := 1\<rparr>)], rv_snapshots = [], rv_transitions = [], rv_integrations = []\<rparr>"

lemma sample_scope_accepted: "validate_workstream_scope sample_scope_task sample_scope_workstream (sample_scope_view r w) = Ok ()"
  by (simp add: validate_workstream_scope_def sample_scope_task_def sample_scope_workstream_def sample_scope_view_def
      btm_contains_key_def btm_get_def sample_work_defs)

text \<open>
  The two checks disagree on a task that lists a repository twice, which its own validation
  allows: the engine builds the command for a workstream that the second membership covers,
  and the store refuses to commit it.
\<close>

theorem second_membership_refused:
  "\<exists>t w view. task_validate t = Ok () \<and> workstream_validate w = Ok () \<and> validate_workstream_scope t w view = Ok ()
    \<and> workstream_relation_ok [(3, t, 1)] [] (map (\<lambda>(k, v). (k, v, 1)) (rv_worktrees view)) w = Err StoreCorrupt"
proof -
  fix r :: repository_instance and w :: worktree_instance
  have "task_validate sample_scope_task = Ok ()"
    by (simp add: task_validate_def sample_scope_task_def sample_work_task_def sample_text ordered_ids_def
        strictly_ordered_unique_iff less_task_scope_membership_def key_task_scope_membership_def
        task_lifecycle_is_terminal_def task_scope_membership_validate_def word_less_nat_alt)
  moreover have "workstream_validate sample_scope_workstream = Ok ()"
    by (simp add: workstream_validate_def sample_scope_workstream_def sample_work_defs sample_text
        strictly_ordered_unique_iff sample_episode_def phase_contract_validate_def)
  moreover have "workstream_relation_ok [(3, sample_scope_task, 1)] []
      (map (\<lambda>(k, v). (k, v, 1)) (rv_worktrees (sample_scope_view r w))) sample_scope_workstream = Err StoreCorrupt"
    by (simp add: workstream_relation_ok_def sample_scope_workstream_def sample_scope_task_def sample_work_defs
        fetch_def btm_get_def ok_or_def corrupt_if_def if_some_def)
  ultimately show ?thesis using sample_scope_accepted [of r w] by blast
qed

definition sample_single_task :: task where
  "sample_single_task = sample_work_task\<lparr>tk_scope_memberships := [TaskScopeMembership (Some 1) [6]]\<rparr>"

theorem workstream_scope_agrees_witness:
  "\<forall>w. workstream_relation_ok [(3, sample_single_task, 1)] [] [(6, w\<lparr>wt_repository_instance_id := 1\<rparr>, 1)]
    sample_scope_workstream = Ok ()"
proof
  fix w :: worktree_instance
  fix r :: repository_instance
  show "workstream_relation_ok [(3, sample_single_task, 1)] [] [(6, w\<lparr>wt_repository_instance_id := 1\<rparr>, 1)]
      sample_scope_workstream = Ok ()"
  proof (rule workstream_scope_agrees)
    show "validate_workstream_scope sample_single_task sample_scope_workstream (sample_scope_view r w) = Ok ()"
      by (simp add: validate_workstream_scope_def sample_single_task_def sample_scope_workstream_def sample_scope_view_def
          btm_contains_key_def btm_get_def sample_work_defs)
    show "btm_get [(3, sample_single_task, 1)] (ws_task_id sample_scope_workstream) = Some (sample_single_task, 1)"
      by (simp add: sample_scope_workstream_def sample_work_defs btm_get_def)
    show "btm_get (rv_worktrees (sample_scope_view r w)) i
        = map_option fst (btm_get [(6, w\<lparr>wt_repository_instance_id := 1\<rparr>, 1)] i)" for i
      by (simp add: sample_scope_view_def btm_get_def)
  qed (simp_all add: sample_single_task_def sample_scope_workstream_def sample_work_defs)
qed

definition sample_context :: work_command_context where
  "sample_context = \<lparr>wc_command_id = 1, wc_occurred_at_us = 5, wc_effective_config_hash = [],
    wc_algorithm_revision = ''s12''\<rparr>"

definition sample_split_source :: task where
  "sample_split_source = sample_work_task\<lparr>tk_revision_id := 2, tk_predecessor_revision_id := Some 1,
    tk_lifecycle := TaskSuperseded, tk_closed_at_us := Some 5, tk_source_watermark := 2,
    tk_split_into_task_ids := [8, 9]\<rparr>"

definition sample_split_child :: "task_id \<Rightarrow> task" where
  "sample_split_child i = sample_work_task\<lparr>tk_task_id := i, tk_split_from_task_id := Some 3\<rparr>"

lemma sample_split_valid:
  "task_validate sample_split_source = Ok ()" "i \<noteq> 3 \<Longrightarrow> task_validate (sample_split_child i) = Ok ()"
  by (simp_all add: task_validate_def sample_split_source_def sample_split_child_def sample_work_task_def sample_text
      ordered_ids_def strictly_ordered_unique_iff task_lifecycle_is_terminal_def word_less_nat_alt)

lemma sample_split:
  "split_task sample_context sample_split_source [sample_split_child 8, sample_split_child 9] [''e'']
    = Ok \<lparr>jc_command_id = 1, jc_events = map (context_event sample_context)
        (map TaskRecorded [sample_split_source, sample_split_child 8, sample_split_child 9])\<rparr>"
proof -
  have v: "task_validate (sample_split_child 8) = Ok ()" "task_validate (sample_split_child 9) = Ok ()"
    by (simp_all add: sample_split_valid(2))
  have b: "btree_set [8, 9 :: task_id] = [8, 9]" by (intro btree_set_id) (simp_all add: word_le_nat_alt)
  have f: "tk_task_id (sample_split_child i) = i" "tk_predecessor_revision_id (sample_split_child i) = None"
      "tk_split_from_task_id (sample_split_child i) = Some 3" "tk_scope_memberships (sample_split_child i) = []" for i
    by (simp_all add: sample_split_child_def sample_work_task_def)
  have g: "tk_lifecycle sample_split_source = TaskSuperseded" "tk_predecessor_revision_id sample_split_source = Some 1"
      "tk_split_into_task_ids sample_split_source = [8, 9]" "tk_task_id sample_split_source = 3"
    by (simp_all add: sample_split_source_def sample_work_task_def)
  show ?thesis
    by (simp add: split_task_def f g b v context_command_def journal_command_new_def)
      (simp add: sample_context_def)
qed

theorem split_command_complete_witness:
  "\<exists>c. split_task sample_context sample_split_source [sample_split_child 8, sample_split_child 9] [''e''] = Ok c
    \<and> command_tasks (jc_events c) = [sample_split_source, sample_split_child 8, sample_split_child 9]
    \<and> validate_work_identity_command (jc_events c) = Ok ()"
proof -
  have "tk_split_into_task_ids child = [] \<and> tk_merged_from_task_ids child = [] \<and> tk_merged_into_task_id child = None"
    if "child \<in> set [sample_split_child 8, sample_split_child 9]" for child
    using that by (auto simp: sample_split_child_def sample_work_task_def)
  from split_command_complete [OF sample_split sample_split_valid(1) _ _ _ this] sample_split show ?thesis
    by (simp add: sample_split_source_def sample_work_task_def)
qed

theorem split_children_frozen_witness:
  "\<exists>s'. btm_get [(8, sample_split_child 8, 4 :: u64), (9 :: task_id, sample_work_task\<lparr>tk_task_id := 9\<rparr>, 5)] 8
    = Some (sample_split_child 8, s')"
proof (rule split_children_frozen)
  let ?new = "sample_work_task\<lparr>tk_task_id := 9\<rparr>"
  let ?events = "map (context_event sample_context) (map TaskRecorded [?new])"
  have t: "command_tasks ?events = [?new]" by (rule command_tasks_recorded)
  then show "validate_work_identity_command ?events = Ok ()"
    by (simp only: validate_work_identity_command_def Let_def t)
      (simp add: command_task_ok_def if_some_def sample_work_task_def)
  have "task_validate ?new = Ok ()"
    by (simp add: task_validate_def sample_work_task_def sample_text ordered_ids_def
        strictly_ordered_unique_iff task_lifecycle_is_terminal_def)
  then show "replay (\<lambda>m (v, s). replace_task m v s) [(8, sample_split_child 8, 4)] (zip (command_tasks ?events) [5])
      = Ok [(8, sample_split_child 8, 4), (9, ?new, 5)]"
    by (simp only: t) (simp add: replace_task_def btm_get_def sample_work_task_def word_less_nat_alt)
qed (simp_all add: keyed_def btm_sorted_def btm_get_def sample_split_child_def)

definition sample_identity_state :: work_identity_current_view where
  "sample_identity_state = \<lparr>wv_frontier = 2, wv_tasks = [(3, sample_work_task)],
    wv_workstreams = [(4, sample_first_workstream), (6, sample_second_workstream)]\<rparr>"

definition sample_correlation :: "correlation_evidence list" where
  "sample_correlation = [
    \<lparr>ce_kind = EvidenceExplicitTask, ce_evidence_ref = ''e'', ce_candidate_task_ids = [3], ce_candidate_workstream_ids = []\<rparr>,
    \<lparr>ce_kind = EvidenceExplicitWorkstream, ce_evidence_ref = ''e'', ce_candidate_task_ids = [], ce_candidate_workstream_ids = [6]\<rparr>]"

theorem correlation_resolves_iff_witness:
  "resolve_workstream_candidate sample_identity_state
    \<lparr>co_task_id = Some 3, co_repository_instance_id = None, co_worktree_instance_id = None\<rparr> sample_correlation 9 = Resolved 6"
  unfolding correlation_resolves_iff
proof (intro conjI)
  let ?scope = "\<lparr>co_task_id = Some 3, co_repository_instance_id = None, co_worktree_instance_id = None\<rparr>"
  have scope: "scope_matches sample_first_workstream ?scope" "scope_matches sample_second_workstream ?scope"
    by (simp_all add: scope_matches_def sample_work_defs)
  have known: "workstream_known sample_identity_state ?scope 6" "explicit_task_known sample_identity_state ?scope 3"
    using scope by (simp_all add: workstream_known_def explicit_task_known_def sample_identity_state_def btm_get_def
        btm_contains_key_def)
  have "set (task_workstreams sample_identity_state ?scope 3) = {4, 6}"
    using scope by (simp add: task_workstreams_def sample_identity_state_def btm_values_def sample_work_defs)
  moreover from this have "task_workstreams sample_identity_state ?scope 3 \<noteq> []" by auto
  ultimately have c: "set (fst (item_candidates sample_identity_state ?scope (sample_correlation ! 0))) = {4, 6}"
      "set (fst (item_candidates sample_identity_state ?scope (sample_correlation ! 1))) = {6}"
      "\<not> snd (item_candidates sample_identity_state ?scope (sample_correlation ! 0))"
      "\<not> snd (item_candidates sample_identity_state ?scope (sample_correlation ! 1))"
    using known by (simp_all add: item_candidates_def sample_correlation_def)
  have items: "set sample_correlation = {sample_correlation ! 0, sample_correlation ! 1}"
    by (simp add: sample_correlation_def)
  have a: "evidence_authoritative (sample_correlation ! 0)" "evidence_authoritative (sample_correlation ! 1)"
    by (simp_all add: evidence_authoritative_def sample_correlation_def)
  show "\<exists>item \<in> set sample_correlation. evidence_authoritative item" using a items by blast
  have "\<not> item_conflicts sample_identity_state ?scope (sample_correlation ! i)" if "i = 0 \<or> i = 1" for i
    using that c unfolding item_conflicts_def
    by (auto simp: sample_correlation_def correlation_evidence_validate_def sample_text strictly_ordered_unique_iff)
  then show "\<forall>item \<in> set sample_correlation. evidence_authoritative item \<longrightarrow> \<not> item_conflicts sample_identity_state ?scope item"
    using items by auto
  show "{i. \<forall>item \<in> set sample_correlation. evidence_authoritative item \<longrightarrow>
      i \<in> set (fst (item_candidates sample_identity_state ?scope item))} = {6}"
    unfolding items using a c by auto
qed

end
