(* ===== verification/Episode_Work.thy ===== *)
theory Episode_Work
  imports Segmenter Work_Command
begin

text \<open>
  The engine's facade for episodes, \<open>evertrace-engine/src/work/episode.rs\<close>: opening, revising,
  confirming and closing episodes, linking attempts and bindings, corrections and
  checkpoints. Fresh identifiers are arguments. The last part joins it with the segmenter: what
  is observed, committed by these commands and shown by the store is acknowledged.
\<close>

section \<open>Opening an episode\<close>

definition new_episode ::
  "work_episode_id \<Rightarrow> revision_id \<Rightarrow> workstream \<Rightarrow> worktree_snapshot_id option \<Rightarrow> u64
    \<Rightarrow> (work_identity_error, work_episode) result" where
  "new_episode new_id new_revision w entry_snapshot source_watermark =
    (if is_some (ws_active_episode_id w) \<or> workstream_status_is_terminal (ws_status w)
        \<or> source_watermark < ws_source_watermark w
     then Err WorkInvalidInput
     else
     let e = \<lparr>ep_episode_id = new_id, ep_revision_id = new_revision, ep_predecessor_revision_id = None,
           ep_revision_generation = 1, ep_task_id = ws_task_id w, ep_workstream_id = ws_workstream_id w,
           ep_repository_instance_id = ws_repository_instance_id w,
           ep_worktree_instance_id = ws_active_worktree_instance_id w,
           ep_phase_contract = ws_phase_contract w, ep_lifecycle_status = EpisodeOpen,
           ep_boundary_status = BoundaryProvisional, ep_source_watermark = source_watermark,
           ep_semantic_watermark = 0, ep_confirmation_watermark = 0, ep_capture_watermark = 0,
           ep_entry_worktree_snapshot_id = entry_snapshot, ep_exit_worktree_snapshot_id = None,
           ep_session_ids = [], ep_execution_lane_ids = [], ep_attempt_ids = [],
           ep_competing_attempt_group_ids = [], ep_operation_burst_refs = [], ep_worktree_transition_refs = [],
           ep_failed_attempt_ids = [], ep_interrupted_attempt_ids = [], ep_returned_but_unselected_attempt_ids = [],
           ep_selected_attempt_ids = [], ep_failure_refs = [], ep_interruption_refs = [],
           ep_completed_outcome_refs = [], ep_selected_outcome_refs = [], ep_verification_refs = [],
           ep_open_loops = [], ep_checkpoint_refs = [], ep_capture_receipt_revision_ids = [],
           ep_capture_gap_refs = [], ep_capture_outage_refs = [],
           ep_pending_delta_stats = \<lparr>ps_selected_token_count = 0, ps_meaningful_burst_count = 0,
             ps_high_value_signal_count = 0\<rparr>,
           ep_pending_semantic_delta = (if source_watermark > 0
             then Some \<lparr>pi_after_watermark = 0, pi_through_watermark = source_watermark\<rparr> else None),
           ep_boundary_candidate = None, ep_capture_summary = capture_summary_default,
           ep_segmentation_correction_refs = [], ep_experiment_run_refs = [], ep_work_artifact_refs = [],
           ep_semantic_digest_refs = []\<rparr> in
     and_then (map_err (\<lambda>_. WorkInvalidInput) (work_episode_validate e)) (\<lambda>_. Ok e))"

definition next_episode ::
  "work_episode_id \<Rightarrow> revision_id \<Rightarrow> workstream \<Rightarrow> work_episode \<Rightarrow> phase_contract \<Rightarrow> worktree_snapshot_id option
    \<Rightarrow> u64 \<Rightarrow> (work_identity_error, work_episode) result" where
  "next_episode new_id new_revision w current phase_contract entry_snapshot source_watermark =
    (if ws_active_episode_id w \<noteq> Some (ep_episode_id current)
        \<or> ep_lifecycle_status current \<noteq> EpisodeOpen
        \<or> ep_task_id current \<noteq> ws_task_id w
        \<or> ep_workstream_id current \<noteq> ws_workstream_id w
        \<or> phase_contract = ep_phase_contract current
        \<or> source_watermark < ep_source_watermark current
     then Err WorkInvalidInput
     else
     let basis = w\<lparr>ws_active_episode_id := None, ws_phase_contract := phase_contract,
           ws_source_watermark := source_watermark\<rparr> in
     new_episode new_id new_revision basis entry_snapshot source_watermark)"

section \<open>Revising an episode from a segmentation step\<close>

text \<open>What a step must have in common with the episode it revises.\<close>

definition step_fits_episode :: "work_episode \<Rightarrow> incremental_segmentation_step \<Rightarrow> bool \<Rightarrow> bool" where
  "step_fits_episode current step confirming \<longleftrightarrow>
    tok_episode_id (iss_token step) = ep_episode_id current
    \<and> tok_task_id (iss_token step) = ep_task_id current
    \<and> tok_workstream_id (iss_token step) = ep_workstream_id current
    \<and> \<not> tok_source_watermark (iss_token step) < ep_source_watermark current
    \<and> du_episode_id (iss_detector step) = ep_episode_id current
    \<and> du_token_watermark (iss_detector step) = tok_source_watermark (iss_token step)
    \<and> (du_boundary_status (iss_detector step) = BoundaryConfirmed) = confirming
    \<and> ob_source_watermark (bfu_current (iss_burst step)) = tok_source_watermark (iss_token step)
    \<and> ep_lifecycle_status current = EpisodeOpen"

text \<open>One receipt for every lane of the episode and the lane of the token, and that of the token.\<close>

definition receipts_fit_step ::
  "work_episode \<Rightarrow> incremental_segmentation_step \<Rightarrow> capture_receipt list \<Rightarrow> bool" where
  "receipts_fit_step current step pinned_receipts \<longleftrightarrow>
    (let provided_receipt_ids = sort_dedup (map cr_capture_receipt_revision_id pinned_receipts);
         provided_lane_ids = sort (map cr_execution_lane_id pinned_receipts);
         expected_lane_ids = sort_dedup (ep_execution_lane_ids current @ [tok_execution_lane_id (iss_token step)]) in
     length provided_receipt_ids = length pinned_receipts
     \<and> length provided_lane_ids = length pinned_receipts
     \<and> windows_all (\<lambda>x y. x \<noteq> y) provided_lane_ids
     \<and> provided_lane_ids = expected_lane_ids
     \<and> cr_capture_receipt_revision_id (tok_capture_receipt (iss_token step)) \<in> set provided_receipt_ids)"

definition count_if :: "bool \<Rightarrow> u32 \<Rightarrow> (work_identity_error, u32) result" where
  "count_if b n = (if b then ok_or WorkInvalidInput (checked_add n 1) else Ok n)"

text \<open>The revision itself, given the counters and the summary that are computed on the way.\<close>

definition revised_episode ::
  "work_episode \<Rightarrow> incremental_segmentation_step \<Rightarrow> capture_receipt list \<Rightarrow> bool \<Rightarrow> worktree_snapshot_id option
    \<Rightarrow> u64 \<Rightarrow> pending_delta_stats \<Rightarrow> capture_summary \<Rightarrow> work_episode" where
  "revised_episode current step pinned_receipts confirming exit_snapshot generation stats summary =
    (let token = iss_token step; burst = iss_burst step; update = iss_detector step;
         next = current\<lparr>ep_revision_id := iss_episode_successor_revision_id step,
           ep_predecessor_revision_id := Some (ep_revision_id current),
           ep_revision_generation := generation,
           ep_source_watermark := tok_source_watermark token,
           ep_boundary_status := du_boundary_status update,
           ep_boundary_candidate := step_candidate_state step,
           ep_session_ids := sort_dedup (ep_session_ids current @ [tok_session_id token]),
           ep_execution_lane_ids := sort_dedup (ep_execution_lane_ids current @ [tok_execution_lane_id token]),
           ep_attempt_ids := sort_dedup (ep_attempt_ids current @ opt_iter (tok_attempt_id token)),
           ep_competing_attempt_group_ids :=
             sort_dedup (ep_competing_attempt_group_ids current @ opt_iter (tok_competing_group_id token)),
           ep_worktree_transition_refs :=
             sort_dedup (ep_worktree_transition_refs current @ tok_worktree_transition_refs token),
           ep_operation_burst_refs :=
             sort_dedup (ep_operation_burst_refs current @ [ob_operation_burst_id (bfu_current burst)]),
           ep_pending_delta_stats := stats,
           ep_capture_receipt_revision_ids := sort_dedup (map cr_capture_receipt_revision_id pinned_receipts),
           ep_capture_gap_refs := sort_dedup (concat (map cr_capture_gap_marker_refs pinned_receipts)),
           ep_capture_outage_refs := sort_dedup (concat (map cr_capture_outage_interval_refs pinned_receipts)),
           ep_capture_watermark := min_or_zero (map cr_import_watermark pinned_receipts),
           ep_capture_summary := summary,
           ep_pending_semantic_delta := (if ep_semantic_watermark current < tok_source_watermark token
             then Some \<lparr>pi_after_watermark = ep_semantic_watermark current,
               pi_through_watermark = tok_source_watermark token\<rparr> else None)\<rparr> in
     if confirming then next\<lparr>ep_lifecycle_status := EpisodeClosed, ep_boundary_status := BoundaryConfirmed,
         ep_boundary_candidate := None, ep_confirmation_watermark := du_confirmation_watermark update,
         ep_exit_worktree_snapshot_id := exit_snapshot\<rparr>
     else next)"

definition revise_episode_from_step ::
  "work_episode \<Rightarrow> incremental_segmentation_step \<Rightarrow> capture_receipt list \<Rightarrow> bool \<Rightarrow> worktree_snapshot_id option
    \<Rightarrow> (work_identity_error, work_episode) result" where
  "revise_episode_from_step current step pinned_receipts confirming exit_snapshot =
    (let token = iss_token step; burst = iss_burst step; stats = ep_pending_delta_stats current in
     if \<not> step_fits_episode current step confirming \<or> \<not> receipts_fit_step current step pinned_receipts
     then Err WorkInvalidInput
     else
     and_then (ok_or WorkInvalidInput (checked_add (ep_revision_generation current) 1)) (\<lambda>generation.
     and_then (count_if (\<not> bfu_no_delta burst) (ps_selected_token_count stats)) (\<lambda>tokens.
     and_then (count_if (bfu_meaningful_new burst) (ps_meaningful_burst_count stats)) (\<lambda>bursts.
     and_then (count_if (tok_boundary_evidence token \<noteq> BoundaryEvidenceNone
         \<or> tok_verifier_transition token \<noteq> VerifierNone) (ps_high_value_signal_count stats)) (\<lambda>signals.
     and_then (map_err (\<lambda>_. WorkInvalidInput) (capture_summary_from_receipts pinned_receipts)) (\<lambda>summary.
     let next = revised_episode current step pinned_receipts confirming exit_snapshot generation
           \<lparr>ps_selected_token_count = tokens, ps_meaningful_burst_count = bursts, ps_high_value_signal_count = signals\<rparr>
           summary in
     and_then (map_err (\<lambda>_. WorkInvalidInput) (work_episode_validate_successor current next)) (\<lambda>_. Ok next)))))))"

definition confirm_episode_boundary ::
  "work_episode \<Rightarrow> incremental_segmentation_step \<Rightarrow> worktree_snapshot_id option \<Rightarrow> capture_receipt list
    \<Rightarrow> (work_identity_error, work_episode) result" where
  "confirm_episode_boundary current step exit_snapshot pinned_receipts =
    (let update = iss_detector step; confirmation_watermark = du_confirmation_watermark update in
     if ep_lifecycle_status current \<noteq> EpisodeOpen
        \<or> ep_boundary_status current \<noteq> BoundaryCandidate
        \<or> du_episode_id update \<noteq> ep_episode_id current
        \<or> du_boundary_status update \<noteq> BoundaryConfirmed
        \<or> du_token_watermark update \<noteq> confirmation_watermark
        \<or> du_confirmation_evidence_refs update = []
        \<or> confirmation_watermark \<le> ep_source_watermark current
     then Err WorkInvalidInput
     else revise_episode_from_step current step pinned_receipts True exit_snapshot)"

definition save_segmentation_update ::
  "work_command_context \<Rightarrow> work_episode \<Rightarrow> incremental_segmentation_step \<Rightarrow> capture_receipt list
    \<Rightarrow> (work_identity_error, journal_command) result" where
  "save_segmentation_update context current step pinned_receipts =
    and_then (revise_episode_from_step current step pinned_receipts False None) (\<lambda>successor.
    let burst = iss_burst step in
    context_command context
      (map OperationBurstRecorded (opt_iter (bfu_closed burst) @ (if bfu_no_delta burst then [] else [bfu_current burst]))
       @ [WorkEpisodeRecorded successor]))"

section \<open>Links\<close>

definition link_attempt_to_episode ::
  "(bytes \<Rightarrow> bytes) \<Rightarrow> revision_id \<Rightarrow> attempt \<Rightarrow> work_episode \<Rightarrow> u64 \<Rightarrow> (work_identity_error, attempt) result" where
  "link_attempt_to_episode H new_revision current episode source_watermark =
    (if is_some (at_episode_id current)
        \<or> at_task_id current \<noteq> ep_task_id episode
        \<or> at_workstream_id current \<noteq> ep_workstream_id episode
        \<or> ep_lifecycle_status episode \<noteq> EpisodeOpen
        \<or> source_watermark \<le> at_source_watermark current
     then Err WorkInvalidInput
     else
     and_then (ok_or WorkInvalidInput (checked_add (at_revision_generation current) 1)) (\<lambda>generation.
     let next = current\<lparr>at_revision_id := new_revision, at_predecessor_revision_id := Some (at_revision_id current),
           at_revision_generation := generation, at_episode_id := Some (ep_episode_id episode),
           at_source_watermark := source_watermark\<rparr> in
     and_then (map_err (\<lambda>_. WorkInvalidInput) (attempt_validate_successor H current next)) (\<lambda>_. Ok next)))"

definition link_binding_to_episode ::
  "work_binding_revision_id \<Rightarrow> work_binding_revision \<Rightarrow> work_episode
    \<Rightarrow> (work_identity_error, work_binding_revision) result" where
  "link_binding_to_episode new_revision current episode =
    (if wb_assignment_status current \<noteq> AssignmentResolved
        \<or> is_some (pb_episode_id (wb_primary_binding current))
        \<or> pb_task_id (wb_primary_binding current) \<noteq> Some (ep_task_id episode)
        \<or> pb_workstream_id (wb_primary_binding current) \<noteq> Some (ep_workstream_id episode)
        \<or> ep_lifecycle_status episode \<noteq> EpisodeOpen
     then Err WorkInvalidInput
     else
     and_then (ok_or WorkInvalidInput (checked_add (wb_revision_generation current) 1)) (\<lambda>generation.
     let next = current\<lparr>wb_work_binding_revision_id := new_revision,
           wb_predecessor_revision_id := Some (wb_work_binding_revision_id current),
           wb_revision_generation := generation,
           wb_primary_binding := (wb_primary_binding current)\<lparr>pb_episode_id := Some (ep_episode_id episode)\<rparr>\<rparr> in
     and_then (map_err (\<lambda>_. WorkInvalidInput) (work_binding_revision_validate_successor current next)) (\<lambda>_. Ok next)))"

section \<open>Commands\<close>

definition record_episode_correction ::
  "work_command_context \<Rightarrow> segmentation_correction \<Rightarrow> work_episode list \<Rightarrow> workstream list
    \<Rightarrow> (work_identity_error, journal_command) result" where
  "record_episode_correction context correction episode_successors workstream_successors =
    and_then (map_err (\<lambda>_. WorkInvalidInput) (segmentation_correction_validate correction)) (\<lambda>_.
    if (\<exists>i \<in> set (sc_source_episode_ids correction). \<not> (\<exists>e \<in> set episode_successors. ep_episode_id e = i
          \<and> sc_correction_revision_id correction \<in> set (ep_segmentation_correction_refs e)))
       \<or> (\<exists>i \<in> set (sc_replacement_episode_ids correction). \<not> (\<exists>e \<in> set episode_successors. ep_episode_id e = i))
    then Err WorkInvalidInput
    else context_command context (SegmentationCorrectionRecorded correction
      # map WorkEpisodeRecorded episode_successors @ map WorkstreamRecorded workstream_successors))"

definition episode_command ::
  "work_command_context \<Rightarrow> operation_burst list \<Rightarrow> work_episode list \<Rightarrow> workstream list \<Rightarrow> attempt list
    \<Rightarrow> work_binding_revision list \<Rightarrow> work_checkpoint list \<Rightarrow> (work_identity_error, journal_command) result" where
  "episode_command context bursts episodes workstreams attempts bindings checkpoints =
    context_command context (map OperationBurstRecorded bursts @ map WorkEpisodeRecorded episodes
      @ map WorkstreamRecorded workstreams @ map AttemptRecorded attempts @ map WorkBindingRecorded bindings
      @ map WorkCheckpointRecorded checkpoints)"

definition save_checkpoint ::
  "uuid_lib \<Rightarrow> revision_id \<Rightarrow> work_command_context \<Rightarrow> work_episode \<Rightarrow> work_checkpoint \<Rightarrow> work_checkpoint option
    \<Rightarrow> (work_identity_error, journal_command option) result" where
  "save_checkpoint lib new_revision context current_episode checkpoint existing =
    and_then (map_err (\<lambda>_. WorkInvalidInput) (work_checkpoint_validate checkpoint)) (\<lambda>_.
    if ck_episode_id checkpoint \<noteq> ep_episode_id current_episode
       \<or> ck_episode_revision_id checkpoint \<noteq> ep_revision_id current_episode
       \<or> ck_source_watermark checkpoint \<noteq> ep_source_watermark current_episode
    then Err WorkInvalidInput
    else
    let key = work_checkpoint_stable_key lib checkpoint in
    if is_some_and (\<lambda>value. work_checkpoint_stable_key lib value = key) existing
    then (if existing = Some checkpoint then Ok None else Err WorkConflict)
    else if key \<in> set (ep_checkpoint_refs current_episode) then Err WorkConflict
    else
    and_then (ok_or WorkInvalidInput (checked_add (ep_revision_generation current_episode) 1)) (\<lambda>generation.
    let successor = current_episode\<lparr>ep_revision_id := new_revision,
          ep_predecessor_revision_id := Some (ep_revision_id current_episode),
          ep_revision_generation := generation,
          ep_checkpoint_refs := sort (ep_checkpoint_refs current_episode @ [key])\<rparr> in
    and_then (map_err (\<lambda>_. WorkInvalidInput) (work_episode_validate_successor current_episode successor)) (\<lambda>_.
    and_then (episode_command context [] [successor] [] [] [] [checkpoint]) (\<lambda>c. Ok (Some c)))))"

definition activate_episode ::
  "revision_id \<Rightarrow> work_command_context \<Rightarrow> workstream \<Rightarrow> work_episode \<Rightarrow> attempt list \<Rightarrow> work_binding_revision list
    \<Rightarrow> (work_identity_error, journal_command) result" where
  "activate_episode new_revision context current_workstream episode attempt_successors binding_successors =
    (if is_some (ws_active_episode_id current_workstream)
        \<or> ep_workstream_id episode \<noteq> ws_workstream_id current_workstream
        \<or> ep_task_id episode \<noteq> ws_task_id current_workstream
        \<or> is_some (ep_predecessor_revision_id episode)
        \<or> ep_lifecycle_status episode \<noteq> EpisodeOpen
        \<or> (\<exists>a \<in> set attempt_successors. at_episode_id a \<noteq> Some (ep_episode_id episode))
        \<or> (\<exists>b \<in> set binding_successors. pb_episode_id (wb_primary_binding b) \<noteq> Some (ep_episode_id episode)
            \<or> pb_task_id (wb_primary_binding b) \<noteq> Some (ep_task_id episode)
            \<or> pb_workstream_id (wb_primary_binding b) \<noteq> Some (ep_workstream_id episode))
     then Err WorkInvalidInput
     else
     and_then (map_err (\<lambda>_. WorkInvalidInput) (work_episode_validate episode)) (\<lambda>_.
     and_then (ok_or WorkInvalidInput (checked_add (ws_source_watermark current_workstream) 1)) (\<lambda>successor_watermark.
     let w = current_workstream\<lparr>ws_revision_id := new_revision,
           ws_predecessor_revision_id := Some (ws_revision_id current_workstream),
           ws_active_episode_id := Some (ep_episode_id episode),
           ws_source_watermark := max (ep_source_watermark episode) successor_watermark\<rparr> in
     and_then (map_err (\<lambda>_. WorkInvalidInput) (workstream_validate w)) (\<lambda>_.
     episode_command context [] [episode] [w] attempt_successors binding_successors []))))"

text \<open>The bursts that closing an episode records: the one the last step closed, and its current one, closed.\<close>

definition closing_bursts ::
  "revision_id \<Rightarrow> work_episode \<Rightarrow> incremental_segmentation_step \<Rightarrow> (work_identity_error, operation_burst list) result" where
  "closing_bursts burst_revision closed_episode step =
    (let burst = bfu_current (iss_burst step) in
     if ob_lifecycle burst \<noteq> BurstOpen
        \<or> ob_operation_burst_id burst \<notin> set (ep_operation_burst_refs closed_episode)
     then Err WorkInvalidInput
     else
     and_then (map_err (\<lambda>_. WorkInvalidInput) (close_burst burst_revision burst)) (\<lambda>closed.
     Ok (opt_iter (bfu_closed (iss_burst step)) @ [closed])))"

definition replacement_ok :: "work_episode \<Rightarrow> work_episode \<Rightarrow> (work_identity_error, unit) result" where
  "replacement_ok current_episode next =
    (if ep_episode_id next = ep_episode_id current_episode
        \<or> ep_task_id next \<noteq> ep_task_id current_episode
        \<or> ep_workstream_id next \<noteq> ep_workstream_id current_episode
        \<or> ep_lifecycle_status next \<noteq> EpisodeOpen
        \<or> ep_phase_contract next = ep_phase_contract current_episode
     then Err WorkInvalidInput
     else map_err (\<lambda>_. WorkInvalidInput) (work_episode_validate next))"

definition close_episode_and_optionally_open ::
  "revision_id \<Rightarrow> revision_id \<Rightarrow> work_command_context \<Rightarrow> workstream \<Rightarrow> work_episode \<Rightarrow> work_episode
    \<Rightarrow> incremental_segmentation_step option \<Rightarrow> work_episode option \<Rightarrow> attempt list \<Rightarrow> work_binding_revision list
    \<Rightarrow> (work_identity_error, journal_command) result" where
  "close_episode_and_optionally_open new_revision burst_revision context current_workstream current_episode
      closed_episode current_step replacement attempt_successors binding_successors =
    and_then (map_err (\<lambda>_. WorkInvalidInput) (work_episode_validate_successor current_episode closed_episode)) (\<lambda>_.
    if ep_lifecycle_status closed_episode = EpisodeOpen
       \<or> ep_boundary_status closed_episode \<noteq> BoundaryConfirmed
       \<or> ws_active_episode_id current_workstream \<noteq> Some (ep_episode_id current_episode)
       \<or> (ep_operation_burst_refs current_episode \<noteq> [] \<and> current_step = None)
    then Err WorkInvalidInput
    else
    and_then (case current_step of None \<Rightarrow> Ok [] | Some step \<Rightarrow> closing_bursts burst_revision closed_episode step) (\<lambda>closed_bursts.
    and_then (if_some (replacement_ok current_episode) replacement) (\<lambda>_.
    and_then (ok_or WorkInvalidInput (checked_add (ws_source_watermark current_workstream) 1)) (\<lambda>successor_watermark.
    let w = current_workstream\<lparr>ws_revision_id := new_revision,
          ws_predecessor_revision_id := Some (ws_revision_id current_workstream),
          ws_active_episode_id := map_option ep_episode_id replacement,
          ws_phase_contract := (case replacement of None \<Rightarrow> ws_phase_contract current_workstream
            | Some next \<Rightarrow> ep_phase_contract next),
          ws_source_watermark := max (ep_source_watermark closed_episode) successor_watermark\<rparr> in
    and_then (map_err (\<lambda>_. WorkInvalidInput) (workstream_validate w)) (\<lambda>_.
    episode_command context closed_bursts (closed_episode # opt_iter replacement) [w]
      attempt_successors binding_successors [])))))"

section \<open>From an observed step to its acknowledgement\<close>

text \<open>What a revision built from a step shows.\<close>

lemma revise_episodeD:
  assumes "revise_episode_from_step e step receipts confirming exit_snapshot = Ok n"
  shows "ep_episode_id n = ep_episode_id e" and "ep_revision_id n = iss_episode_successor_revision_id step"
    and "ep_predecessor_revision_id n = Some (ep_revision_id e)"
    and "ep_source_watermark n = tok_source_watermark (iss_token step)"
    and "ep_boundary_status n = du_boundary_status (iss_detector step)"
    and "ep_boundary_candidate n = (if confirming then None else step_candidate_state step)"
    and "ep_lifecycle_status n = (if confirming then EpisodeClosed else EpisodeOpen)"
    and "ob_operation_burst_id (bfu_current (iss_burst step)) \<in> set (ep_operation_burst_refs n)"
    and "step_confirmed step \<longleftrightarrow> confirming" and "work_episode_validate_successor e n = Ok ()"
proof -
  from assms obtain g stats summary where fits: "step_fits_episode e step confirming"
    and v: "work_episode_validate_successor e n = Ok ()"
    and n: "n = revised_episode e step receipts confirming exit_snapshot g stats summary"
    by (auto simp: revise_episode_from_step_def Let_def and_then_Inr_iff map_err_Inr_iff split: if_splits)
  have s: "du_boundary_status (iss_detector step) = BoundaryConfirmed \<longleftrightarrow> confirming" "ep_lifecycle_status e = EpisodeOpen"
    using fits by (auto simp: step_fits_episode_def)
  then show "step_confirmed step \<longleftrightarrow> confirming" by (simp add: step_confirmed_def)
  show "work_episode_validate_successor e n = Ok ()" by (rule v)
  show "ep_episode_id n = ep_episode_id e" "ep_revision_id n = iss_episode_successor_revision_id step"
    "ep_predecessor_revision_id n = Some (ep_revision_id e)"
    "ep_source_watermark n = tok_source_watermark (iss_token step)"
    "ep_boundary_status n = du_boundary_status (iss_detector step)"
    "ep_boundary_candidate n = (if confirming then None else step_candidate_state step)"
    "ep_lifecycle_status n = (if confirming then EpisodeClosed else EpisodeOpen)"
    "ob_operation_burst_id (bfu_current (iss_burst step)) \<in> set (ep_operation_burst_refs n)"
    using s by (simp_all add: n revised_episode_def Let_def, metis)
qed

text \<open>A snapshot that shows what a command recorded about episodes and bursts.\<close>

definition snapshot_shows :: "segmentation_current_state \<Rightarrow> work_payload list \<Rightarrow> bool" where
  "snapshot_shows current payloads \<longleftrightarrow>
    (\<forall>e. WorkEpisodeRecorded e \<in> set payloads \<longrightarrow> scs_episode current (ep_episode_id e) = Some e)
    \<and> (\<forall>b. OperationBurstRecorded b \<in> set payloads \<longrightarrow> scs_current_burst current (ob_operation_burst_id b) = Some b)"

lemma context_command_payloads: "context_command ctx payloads = Ok c \<Longrightarrow> map je_payload (jc_events c) = payloads"
  by (drule context_commandD) (simp add: comp_def context_event_def journal_event_draft_runtime_def)

lemma save_segmentation_updateE:
  assumes "save_segmentation_update ctx e step receipts = Ok c"
  obtains n where "revise_episode_from_step e step receipts False None = Ok n"
    and "map je_payload (jc_events c) = map OperationBurstRecorded (opt_iter (bfu_closed (iss_burst step))
      @ (if bfu_no_delta (iss_burst step) then [] else [bfu_current (iss_burst step)])) @ [WorkEpisodeRecorded n]"
  using assms unfolding save_segmentation_update_def and_then_Inr_iff Let_def by (metis context_command_payloads)

lemma close_episodeE:
  assumes "close_episode_and_optionally_open r1 r2 ctx w e closed (Some step) replacement attempts bindings = Ok c"
  obtains burst where "close_burst r2 (bfu_current (iss_burst step)) = Ok burst"
    and "WorkEpisodeRecorded closed \<in> set (map je_payload (jc_events c))"
    and "OperationBurstRecorded burst \<in> set (map je_payload (jc_events c))"
    and "\<forall>b. bfu_closed (iss_burst step) = Some b \<longrightarrow> OperationBurstRecorded b \<in> set (map je_payload (jc_events c))"
proof -
  from assms obtain bs w' where bs: "closing_bursts r2 closed step = Ok bs"
    and c: "episode_command ctx bs (closed # opt_iter replacement) [w'] attempts bindings [] = Ok c"
    by (auto simp: close_episode_and_optionally_open_def and_then_Inr_iff Let_def split: if_splits)
  from bs obtain burst where b: "close_burst r2 (bfu_current (iss_burst step)) = Ok burst"
    "bs = opt_iter (bfu_closed (iss_burst step)) @ [burst]"
    by (auto simp: closing_bursts_def Let_def and_then_Inr_iff map_err_Inr_iff split: if_splits)
  have "map je_payload (jc_events c) = map OperationBurstRecorded bs @ map WorkEpisodeRecorded (closed # opt_iter replacement)
      @ map WorkstreamRecorded [w'] @ map AttemptRecorded attempts @ map WorkBindingRecorded bindings @ map WorkCheckpointRecorded []"
    using c unfolding episode_command_def by (rule context_command_payloads)
  then have "WorkEpisodeRecorded closed \<in> set (map je_payload (jc_events c))"
    "OperationBurstRecorded burst \<in> set (map je_payload (jc_events c))"
    "\<forall>b. bfu_closed (iss_burst step) = Some b \<longrightarrow> OperationBurstRecorded b \<in> set (map je_payload (jc_events c))"
    by (simp_all add: b(2))
  with b(1) show ?thesis by (rule that)
qed

lemma close_burstD:
  assumes "close_burst r b = Ok c"
  shows "ob_lifecycle c = BurstClosed" and "operation_burst_validate_successor b c = Ok ()"
    and "ob_operation_burst_id c = ob_operation_burst_id b"
  using assms by (auto simp: close_burst_def Let_def and_then_Inr_iff map_err_Inr_iff)

text \<open>
  What a snapshot shows after the command for a step: the revised episode, the current burst
  (closed if the boundary was confirmed) and the burst closed on the way.
\<close>

definition step_shown ::
  "segmentation_current_state \<Rightarrow> work_episode \<Rightarrow> incremental_segmentation_step \<Rightarrow> work_episode \<Rightarrow> bool" where
  "step_shown current e step n \<longleftrightarrow> scs_episode current (ep_episode_id e) = Some n
    \<and> (\<exists>b. scs_current_burst current (ob_operation_burst_id (bfu_current (iss_burst step))) = Some b
        \<and> ack_current_burst_matches step b)
    \<and> ack_closed_burst_matches step current"

lemma saved_step_shown:
  assumes "save_segmentation_update ctx e step receipts = Ok c" and "\<not> bfu_no_delta (iss_burst step)"
    and "snapshot_shows current (map je_payload (jc_events c))"
  shows "\<exists>n. revise_episode_from_step e step receipts False None = Ok n \<and> step_shown current e step n"
proof -
  let ?burst = "bfu_current (iss_burst step)"
  obtain n where n: "revise_episode_from_step e step receipts False None = Ok n"
    and p: "map je_payload (jc_events c) = map OperationBurstRecorded (opt_iter (bfu_closed (iss_burst step)) @ [?burst])
      @ [WorkEpisodeRecorded n]"
    by (rule save_segmentation_updateE [OF assms(1)]) (use assms(2) in simp)
  have "scs_episode current (ep_episode_id e) = Some n" "scs_current_burst current (ob_operation_burst_id ?burst) = Some ?burst"
    "ack_closed_burst_matches step current"
    using assms(3) revise_episodeD(1) [OF n] unfolding snapshot_shows_def p
    by (auto simp: ack_closed_burst_matches_def split: option.split)
  moreover have "ack_current_burst_matches step ?burst"
    using revise_episodeD(9) [OF n] by (simp add: ack_current_burst_matches_def)
  ultimately show ?thesis using n by (auto simp: step_shown_def)
qed

lemma closed_step_shown:
  assumes "confirm_episode_boundary e step exit_snapshot receipts = Ok closed"
    and "close_episode_and_optionally_open r1 r2 ctx w e closed (Some step) replacement attempts bindings = Ok c"
    and "snapshot_shows current (map je_payload (jc_events c))"
  shows "revise_episode_from_step e step receipts True exit_snapshot = Ok closed \<and> step_shown current e step closed"
proof -
  let ?burst = "bfu_current (iss_burst step)"
  have n: "revise_episode_from_step e step receipts True exit_snapshot = Ok closed"
    using assms(1) by (auto simp: confirm_episode_boundary_def Let_def split: if_splits)
  obtain burst where b: "close_burst r2 ?burst = Ok burst"
    and p: "WorkEpisodeRecorded closed \<in> set (map je_payload (jc_events c))"
      "OperationBurstRecorded burst \<in> set (map je_payload (jc_events c))"
      "\<forall>b. bfu_closed (iss_burst step) = Some b \<longrightarrow> OperationBurstRecorded b \<in> set (map je_payload (jc_events c))"
    by (rule close_episodeE [OF assms(2)])
  have "scs_episode current (ep_episode_id e) = Some closed"
    "scs_current_burst current (ob_operation_burst_id ?burst) = Some burst" "ack_closed_burst_matches step current"
    using assms(3) p revise_episodeD(1) [OF n] close_burstD(3) [OF b] unfolding snapshot_shows_def
    by (auto simp: ack_closed_burst_matches_def simp del: set_map split: option.split)
  moreover have "ack_current_burst_matches step burst"
    using revise_episodeD(9) [OF n] close_burstD [OF b] by (simp add: ack_current_burst_matches_def is_ok_unit)
  ultimately show ?thesis using n by (auto simp: step_shown_def)
qed

text \<open>
  C6. What is observed and then committed is acknowledged. Let a reachable segmenter observe a step
  for its episode, and let the engine turn the step into a command: a revision of the
  episode, or, when the boundary is confirmed, its closing. Every later snapshot that
  shows what the command recorded lets the segmenter promote the step: nothing stays pending,
  the committed revision is the one announced by the step, and the segmenter is closed exactly
  when the boundary was confirmed.
\<close>

theorem committed_step_acknowledged:
  assumes "segmenter_reachable s" and "is_pending s = None"
    and "incremental_segmenter_observe s current ids successor operation_id facts = Ok (s', SegmentDelta step)"
    and "ep_revision_id e = is_committed_episode_revision_id s" and "ep_episode_id e = is_episode_id s"
    and "save_segmentation_update ctx e step receipts = Ok c
      \<or> (confirm_episode_boundary e step exit_snapshot receipts = Ok closed
          \<and> close_episode_and_optionally_open r1 r2 ctx w e closed (Some step) replacement attempts bindings = Ok c)"
    and "is_committed_frontier s < scs_frontier current'"
    and "snapshot_shows current' (map je_payload (jc_events c))"
  shows "\<exists>s''. incremental_segmenter_acknowledge_committed s' current' step = Ok s'' \<and> is_pending s'' = None
    \<and> is_committed_episode_revision_id s'' = successor \<and> (is_closed s'' \<longleftrightarrow> step_confirmed step)"
proof -
  from assms(3,2) obtain t f' u d' r where nd: "\<not> bfu_no_delta u"
    and push: "segmentation_detector_push (is_detector s) t u = Ok (d', r)"
    and step: "step = \<lparr>iss_token = t, iss_burst = u, iss_detector = r, iss_episode_successor_revision_id = successor\<rparr>"
    and s': "s' = s\<lparr>is_pending := Some \<lparr>pt_step = step, pt_next_folder = f', pt_next_detector = d'\<rparr>\<rparr>"
    by (cases rule: observeE) auto
  have inv: "segmenter_inv s'" by (rule observe_inv [OF assms(3) reachable_inv [OF assms(1)]])
  have d: "detector_inv (is_detector s)" using reachable_inv [OF assms(1)] by (simp add: segmenter_inv_def)
  have "detector_inv d'" using inv by (simp add: s' segmenter_inv_def pending_inv_def)
  then have cand: "step_candidate_state step = None" if "step_confirmed step"
    using that detector_push_update [OF push d] by (auto simp: step step_confirmed_def step_candidate_state_def detector_inv_def boundary_inv_def)
  have "\<not> bfu_no_delta (iss_burst step)" using nd by (simp add: step)
  then obtain n confirming x where n: "revise_episode_from_step e step receipts confirming x = Ok n"
      and shown: "step_shown current' e step n"
    using assms(6) by (metis saved_step_shown [OF _ _ assms(8)] closed_step_shown [OF _ _ assms(8)])
  note r = revise_episodeD [OF n]
  have "ack_episode_matches s' step n"
    using r cand by (auto simp: ack_episode_matches_def s' assms(4))
  moreover have "iss_episode_successor_revision_id step = successor" by (simp add: step)
  ultimately show ?thesis
    using shown r(2) assms(5,7)
    by (auto simp: incremental_segmenter_acknowledge_committed_def step_shown_def s' ok_or_def not_le)
qed

section \<open>A sample commit\<close>

definition sample_saved_episode :: work_episode where
  "sample_saved_episode = sample_seg_episode\<lparr>ep_revision_id := 77, ep_predecessor_revision_id := Some 2,
    ep_revision_generation := 2, ep_source_watermark := 6, ep_boundary_status := BoundaryCandidate,
    ep_boundary_candidate := Some (sample_candidate 0), ep_session_ids := [''hos''], ep_execution_lane_ids := [1],
    ep_operation_burst_refs := [102], ep_capture_receipt_revision_ids := [2],
    ep_pending_delta_stats := \<lparr>ps_selected_token_count = 1,
      ps_meaningful_burst_count = (if bfu_meaningful_new sample_cupdate1 then 1 else 0), ps_high_value_signal_count = 0\<rparr>,
    ep_capture_summary := sample_summary,
    ep_pending_semantic_delta := Some \<lparr>pi_after_watermark = 3, pi_through_watermark = 6\<rparr>\<rparr>"

lemma sample_saved_accepted: "work_episode_validate_successor sample_seg_episode sample_saved_episode = Ok ()"
proof -
  have "capture_summary_validate sample_summary = Ok ()" by (rule from_receipts_valid [OF sample_summary])
  then show ?thesis
    by (simp add: work_episode_validate_successor_def work_episode_validate_def phase_contract_validate_def
      sample_saved_episode_def work_episode_all_lists_def
      boundary_candidate_state_validate_def sample_candidate_def pending_semantic_interval_validate_def
      work_episode_lifecycle_ok_def work_episode_boundary_ok_def work_episode_retains_def retains_def checked_add_def ok_or_def
      sample_seg_episode_def sample_open_episode_def sample_episode_def sample_text ordered_ids_def Let_def
      capture_summary_validate_def capture_summary_default_def)
qed

lemma sample_observed_step:
  "\<exists>s0 s1 r. incremental_segmenter_new (sample_seg_state 10 sample_seg_episode Map.empty) 5 = Ok s0
    \<and> incremental_segmenter_observe s0 (sample_seg_state 10 sample_seg_episode Map.empty) (sample_ids 100) 77 2
        sample_facts = Ok (s1, SegmentDelta (sample_step (sample_ctoken 2 1 6) sample_cupdate1 r 77))
    \<and> du_episode_id r = 5 \<and> du_token_watermark r = 6 \<and> du_boundary_status r = BoundaryCandidate
    \<and> step_candidate_state (sample_step (sample_ctoken 2 1 6) sample_cupdate1 r 77) = Some (sample_candidate 0)"
proof -
  let ?state = "sample_seg_state 10 sample_seg_episode Map.empty"
  obtain s0 s1 step where n: "incremental_segmenter_new ?state 5 = Ok s0"
    and ob: "incremental_segmenter_observe s0 ?state (sample_ids 100) 77 2 sample_facts = Ok (s1, SegmentDelta step)"
    using sample_restart_scenario by blast
  have s0: "is_pending s0 = None" "is_folder s0 = operation_burst_folder_new" "is_episode_id s0 = 5"
      "is_detector s0 = segmentation_detector_empty sample_seg_episode"
    using n by (auto simp: incremental_segmenter_new_def and_then_Inr_iff ok_or_Inr_iff segmentation_detector_new_def
        sample_seg_state_def scs_episode_def sample_seg_view_def split: if_splits)
  have e: "ep_task_id sample_seg_episode = 3" "ep_workstream_id sample_seg_episode = 4"
      "pc_primary_targets (ep_phase_contract sample_seg_episode) = []"
    by (simp_all add: sample_seg_episode_def sample_open_episode_def sample_episode_def)
  from ob s0(1) obtain t f u d r where o: "activity_token_compile_checked (scs_authority ?state) 2 (is_episode_id s0) sample_facts = Ok t"
      "operation_burst_folder_push (is_folder s0) (sample_ids 100) t = Ok (f, u)"
      "segmentation_detector_push (is_detector s0) t u = Ok (d, r)"
    and step: "step = \<lparr>iss_token = t, iss_burst = u, iss_detector = r, iss_episode_successor_revision_id = 77\<rparr>"
    by (cases rule: observeE) auto
  have t: "t = sample_ctoken 2 1 6"
    using o(1) sample_compiles(1) [OF e, of 10] by (simp add: s0 sample_seg_state_def)
  have u: "u = sample_cupdate1" using o(2) sample_folds(1) by (simp add: s0 t)
  have push: "segmentation_detector_push (segmentation_detector_empty sample_seg_episode) (sample_ctoken 2 1 6) sample_cupdate1 = Ok (d, r)"
    using o(3) by (simp add: s0 t u)
  have "du_boundary_status r = BoundaryCandidate
      \<and> step_candidate_state (sample_step (sample_ctoken 2 1 6) sample_cupdate1 r 77) = Some (sample_candidate 0)"
    using sample_detects push by fastforce
  moreover have "du_episode_id r = 5 \<and> du_token_watermark r = 6"
    using push by (auto simp: detector_eval sample_seg_episode_def sample_run_defs member_from_token_def word_le_nat_alt split: if_splits)
  ultimately show ?thesis using n ob unfolding step t u sample_step_def by blast
qed

lemma sample_saved_command:
  assumes "du_episode_id r = 5" "du_token_watermark r = 6" "du_boundary_status r = BoundaryCandidate"
    and c: "step_candidate_state (sample_step (sample_ctoken 2 1 6) sample_cupdate1 r 77) = Some (sample_candidate 0)"
  shows "save_segmentation_update sample_context sample_seg_episode (sample_step (sample_ctoken 2 1 6) sample_cupdate1 r 77)
      [sample_receipt] = context_command sample_context [OperationBurstRecorded sample_cburst1, WorkEpisodeRecorded sample_saved_episode]"
proof -
  let ?step = "sample_step (sample_ctoken 2 1 6) sample_cupdate1 r 77"
  have i: "iss_token ?step = sample_ctoken 2 1 6" "iss_burst ?step = sample_cupdate1" "iss_detector ?step = r"
    by (simp_all add: sample_step_def)
  have "step_fits_episode sample_seg_episode ?step False"
    using assms(1-3) by (simp add: step_fits_episode_def i) (simp add: sample_run_defs sample_seg_episode_def sample_open_episode_def sample_episode_def)
  moreover have rid: "cr_capture_receipt_revision_id sample_receipt = 2"
    by (simp add: sample_receipt_def build_receipt_def sample_input_def)
  then have "receipts_fit_step sample_seg_episode ?step [sample_receipt]"
    by (simp add: receipts_fit_step_def i sample_rel_receipt sort_dedup_def)
      (simp add: sample_run_defs sample_seg_episode_def sample_open_episode_def sample_episode_def rid)
  moreover have "revised_episode sample_seg_episode ?step [sample_receipt] False None 2
      \<lparr>ps_selected_token_count = 1, ps_meaningful_burst_count = (if bfu_meaningful_new sample_cupdate1 then 1 else 0),
       ps_high_value_signal_count = 0\<rparr> sample_summary = sample_saved_episode"
    using assms(3) c rid
    by (simp add: revised_episode_def i Let_def sample_rel_receipt sort_dedup_def)
      (simp add: sample_saved_episode_def sample_run_defs sample_step_def sample_seg_episode_def sample_open_episode_def sample_episode_def)
  moreover have "ep_pending_delta_stats sample_seg_episode = \<lparr>ps_selected_token_count = 0, ps_meaningful_burst_count = 0,
        ps_high_value_signal_count = 0\<rparr>" "ep_revision_generation sample_seg_episode = 1"
      "tok_boundary_evidence (sample_ctoken 2 1 6) = BoundaryEvidenceNone"
      "tok_verifier_transition (sample_ctoken 2 1 6) = VerifierNone" "\<not> bfu_no_delta sample_cupdate1"
    by (simp_all add: sample_seg_episode_def sample_open_episode_def sample_episode_def sample_run_defs)
  ultimately have "revise_episode_from_step sample_seg_episode ?step [sample_receipt] False None = Ok sample_saved_episode"
    using sample_saved_accepted
    by (cases "bfu_meaningful_new sample_cupdate1")
      (simp_all add: revise_episode_from_step_def i count_if_def checked_add_def ok_or_def sample_summary)
  then show ?thesis by (simp add: save_segmentation_update_def i) (simp add: sample_cupdate1_def)
qed

theorem committed_step_acknowledged_witness:
  "\<exists>s0 s1 s2 step. incremental_segmenter_observe s0 (sample_seg_state 10 sample_seg_episode Map.empty) (sample_ids 100) 77 2
        sample_facts = Ok (s1, SegmentDelta step)
    \<and> save_segmentation_update sample_context sample_seg_episode step [sample_receipt]
        = context_command sample_context [OperationBurstRecorded sample_cburst1, WorkEpisodeRecorded sample_saved_episode]
    \<and> incremental_segmenter_acknowledge_committed s1 (sample_seg_state 11 sample_saved_episode [102 \<mapsto> sample_cburst1]) step = Ok s2
    \<and> is_pending s2 = None \<and> is_committed_episode_revision_id s2 = 77"
proof -
  let ?state = "sample_seg_state 10 sample_seg_episode Map.empty"
  let ?after = "sample_seg_state 11 sample_saved_episode [102 \<mapsto> sample_cburst1]"
  obtain s0 s1 r where n: "incremental_segmenter_new ?state 5 = Ok s0"
    and ob: "incremental_segmenter_observe s0 ?state (sample_ids 100) 77 2 sample_facts
        = Ok (s1, SegmentDelta (sample_step (sample_ctoken 2 1 6) sample_cupdate1 r 77))"
    and r: "du_episode_id r = 5" "du_token_watermark r = 6" "du_boundary_status r = BoundaryCandidate"
      "step_candidate_state (sample_step (sample_ctoken 2 1 6) sample_cupdate1 r 77) = Some (sample_candidate 0)"
    using sample_observed_step by blast
  let ?step = "sample_step (sample_ctoken 2 1 6) sample_cupdate1 r 77"
  let ?payloads = "[OperationBurstRecorded sample_cburst1, WorkEpisodeRecorded sample_saved_episode]"
  have e: "ep_episode_id sample_seg_episode = 5" "ep_revision_id sample_seg_episode = 2" "ep_episode_id sample_saved_episode = 5"
    by (simp_all add: sample_saved_episode_def sample_seg_episode_def sample_open_episode_def sample_episode_def)
  have s0: "is_pending s0 = None" "is_episode_id s0 = 5" "is_committed_episode_revision_id s0 = 2" "is_committed_frontier s0 = 10"
    using n by (auto simp: incremental_segmenter_new_def and_then_Inr_iff ok_or_Inr_iff e(2)
        sample_seg_state_def scs_episode_def scs_frontier_def sample_seg_view_def split: if_splits)
  have "episodes_keyed ?state"
    by (simp add: episodes_keyed_def scs_episode_def sample_seg_state_def sample_seg_view_def e)
  then have reach: "segmenter_reachable s0" by (rule segmenter_reachable.new [OF n])
  obtain c where c: "context_command sample_context ?payloads = Ok c"
    by (simp add: context_command_def journal_command_new_def)
  have save: "save_segmentation_update sample_context sample_seg_episode ?step [sample_receipt] = Ok c"
    using sample_saved_command [OF r] c by simp
  have shows': "snapshot_shows ?after (map je_payload (jc_events c))"
    unfolding context_command_payloads [OF c] snapshot_shows_def
    by (simp add: scs_episode_def scs_current_burst_def sample_seg_state_def sample_seg_view_def e sample_cburst1_def)
  have "is_committed_frontier s0 < scs_frontier ?after"
    by (simp add: s0 scs_frontier_def sample_seg_state_def sample_seg_view_def)
  from committed_step_acknowledged [OF reach s0(1) ob _ _ disjI1 [OF save] this shows'] s0(2,3) e
  obtain s2 where "incremental_segmenter_acknowledge_committed s1 ?after ?step = Ok s2" "is_pending s2 = None"
    "is_committed_episode_revision_id s2 = 77" by auto
  with ob save c show ?thesis by metis
qed

section \<open>The workstream of an episode\<close>

definition command_workstreams :: "journal_command \<Rightarrow> workstream list" where
  "command_workstreams c =
    List.map_filter (\<lambda>e. case je_payload e of WorkstreamRecorded w \<Rightarrow> Some w | _ \<Rightarrow> None) (jc_events c)"

lemma episode_command_workstreams:
  assumes "episode_command ctx bursts episodes workstreams attempts bindings checkpoints = Ok c"
  shows "command_workstreams c = workstreams"
proof -
  have "List.map_filter (\<lambda>p. case p of WorkstreamRecorded w \<Rightarrow> Some w | _ \<Rightarrow> None) (map je_payload (jc_events c)) = workstreams"
    unfolding context_command_payloads [OF assms [unfolded episode_command_def]]
    by (simp add: List.map_filter_def comp_def filter_False)
  then show ?thesis by (simp add: command_workstreams_def List.map_filter_def comp_def filter_map)
qed

lemma activate_episodeD:
  assumes "activate_episode r ctx w e attempts bindings = Ok c"
  shows "\<exists>w' x. command_workstreams c = [w'] \<and> workstream_validate w' = Ok () \<and> checked_add (ws_source_watermark w) 1 = Some x
    \<and> w' = w\<lparr>ws_revision_id := r, ws_predecessor_revision_id := Some (ws_revision_id w),
        ws_active_episode_id := Some (ep_episode_id e), ws_source_watermark := max (ep_source_watermark e) x\<rparr>"
  using assms by (auto simp: activate_episode_def and_then_Inr_iff map_err_Inr_iff ok_or_Inr_iff Let_def
      dest!: episode_command_workstreams split: if_splits)

lemma close_episodeD:
  assumes "close_episode_and_optionally_open r r2 ctx w e closed step replacement attempts bindings = Ok c"
  shows "\<exists>w' x. command_workstreams c = [w'] \<and> workstream_validate w' = Ok () \<and> checked_add (ws_source_watermark w) 1 = Some x
    \<and> w' = w\<lparr>ws_revision_id := r, ws_predecessor_revision_id := Some (ws_revision_id w),
        ws_active_episode_id := map_option ep_episode_id replacement,
        ws_phase_contract := (case replacement of None \<Rightarrow> ws_phase_contract w | Some next \<Rightarrow> ep_phase_contract next),
        ws_source_watermark := max (ep_source_watermark closed) x\<rparr>"
  using assms by (auto simp: close_episode_and_optionally_open_def and_then_Inr_iff map_err_Inr_iff ok_or_Inr_iff Let_def
      dest!: episode_command_workstreams split: if_splits)

text \<open>
  The command that opens an episode and the command that closes one each carry exactly one
  workstream revision. It names the episode that is open afterwards (none, if the closed
  episode is not replaced), and for a stored workstream that is not terminal the store accepts
  it.
\<close>

theorem episode_commands_move_workstream:
  assumes "activate_episode r ctx w e attempts bindings = Ok c \<and> opened = Some (ep_episode_id e)
      \<or> close_episode_and_optionally_open r r2 ctx w e closed step replacement attempts bindings = Ok c
          \<and> opened = map_option ep_episode_id replacement"
    and "btm_get workstreams (ws_workstream_id w) = Some (w, q)" and "\<not> workstream_status_is_terminal (ws_status w)"
    and "r \<noteq> ws_revision_id w"
  shows "\<exists>w'. command_workstreams c = [w'] \<and> ws_active_episode_id w' = opened
    \<and> replace_workstream workstreams w' seq = Ok (btm_insert (ws_workstream_id w) (w', seq) workstreams)"
proof -
  obtain w' x y where c: "command_workstreams c = [w']" "workstream_validate w' = Ok ()"
    and x: "checked_add (ws_source_watermark w) 1 = Some x"
    and f: "ws_workstream_id w' = ws_workstream_id w" "ws_revision_id w' = r" "ws_task_id w' = ws_task_id w"
      "ws_predecessor_revision_id w' = Some (ws_revision_id w)" "ws_repository_instance_id w' = ws_repository_instance_id w"
      "ws_root_goal w' = ws_root_goal w" "ws_source_watermark w' = max y x" "ws_active_episode_id w' = opened"
    using assms(1) by (elim disjE conjE) (drule activate_episodeD close_episodeD, elim exE conjE, simp)+
  have "ws_source_watermark w < x" using checked_add_SomeD [OF x] by (simp add: word_less_nat_alt)
  then have "workstream_accepts w w'" using assms(3,4) f by (simp add: workstream_accepts_def less_max_iff_disj)
  with c f assms(2) show ?thesis using workstreams.replace_iff by auto
qed

section \<open>Checkpoints\<close>

lemma save_checkpointE:
  assumes "save_checkpoint lib r ctx e ck existing = Ok (Some c)"
  obtains n :: work_episode where "map je_payload (jc_events c) = [WorkEpisodeRecorded n, WorkCheckpointRecorded ck]"
    and "work_episode_validate_successor e n = Ok ()" and "ep_revision_id n = r" and "ep_episode_id n = ep_episode_id e"
    and "ep_source_watermark n = ep_source_watermark e"
    and "set (ep_checkpoint_refs n) = insert (work_checkpoint_stable_key lib ck) (set (ep_checkpoint_refs e))"
    and "ck_episode_revision_id ck = ep_revision_id e" and "ck_episode_id ck = ep_episode_id e"
    and "ck_source_watermark ck = ep_source_watermark e"
proof -
  from assms obtain g n where ck: "ck_episode_revision_id ck = ep_revision_id e" "ck_episode_id ck = ep_episode_id e"
      "ck_source_watermark ck = ep_source_watermark e"
    and n: "n = e\<lparr>ep_revision_id := r,
          ep_predecessor_revision_id := Some (ep_revision_id e), ep_revision_generation := g,
          ep_checkpoint_refs := sort (ep_checkpoint_refs e @ [work_checkpoint_stable_key lib ck])\<rparr>"
    and v: "work_episode_validate_successor e n = Ok ()"
    and c: "episode_command ctx [] [n] [] [] [] [ck] = Ok c"
    by (auto simp: save_checkpoint_def and_then_Inr_iff map_err_Inr_iff Let_def split: if_splits)
  have "map je_payload (jc_events c) = [WorkEpisodeRecorded n, WorkCheckpointRecorded ck]"
    using context_command_payloads [OF c [unfolded episode_command_def]] by simp
  from that [OF this v _ _ _ _ ck] show ?thesis by (simp add: n)
qed

lemma derived_checkpoint_fields:
  assumes "work_checkpoint_derive lib H e attempts snapshot reason = Ok ck"
  shows "ck_episode_id ck = ep_episode_id e \<and> ck_episode_revision_id ck = ep_revision_id e
    \<and> ck_source_watermark ck = ep_source_watermark e \<and> ck_created_reason ck = reason
    \<and> ck_algorithm_revision ck = EPISODE_ALGORITHM_REVISION"
  using assms by (auto simp: work_checkpoint_derive_def and_then_Inr_iff build_work_checkpoint_def Let_def split: if_splits)

text \<open>
  C38. A checkpoint cannot be taken again once it is saved. Saving it records a successor of the
  episode with the same watermark, and deriving a checkpoint for the same reason from that
  successor gives the same key with other contents, whatever attempts and snapshot are
  given: instead of reporting that nothing changed, the attempt fails.
\<close>

theorem saved_checkpoint_not_repeatable:
  assumes "build_checkpoint lib H e attempts snapshot reason None = Ok (Checkpoint_New ck)"
    and "save_checkpoint lib r ctx e ck None = Ok (Some c)" and "r \<noteq> ep_revision_id e"
  shows "\<exists>n. map je_payload (jc_events c) = [WorkEpisodeRecorded n, WorkCheckpointRecorded ck]
    \<and> work_episode_validate_successor e n = Ok ()
    \<and> (\<forall>attempts' snapshot' result. build_checkpoint lib H n attempts' snapshot' reason (Some ck) \<noteq> Ok result)"
proof -
  obtain n :: work_episode where p: "map je_payload (jc_events c) = [WorkEpisodeRecorded n, WorkCheckpointRecorded ck]"
    and v: "work_episode_validate_successor e n = Ok ()" and n: "ep_revision_id n = r" "ep_episode_id n = ep_episode_id e"
      "ep_source_watermark n = ep_source_watermark e"
    and ck: "ck_episode_revision_id ck = ep_revision_id e"
    by (rule save_checkpointE [OF assms(2)])
  have d: "work_checkpoint_derive lib H e attempts snapshot reason = Ok ck"
    using assms(1) by (auto simp: build_checkpoint_def and_then_Inr_iff)
  have "build_checkpoint lib H n attempts' snapshot' reason (Some ck) \<noteq> Ok result" for attempts' snapshot' result
  proof
    assume "build_checkpoint lib H n attempts' snapshot' reason (Some ck) = Ok result"
    then obtain ck' where d': "work_checkpoint_derive lib H n attempts' snapshot' reason = Ok ck'"
      and k: "work_checkpoint_stable_key lib ck = work_checkpoint_stable_key lib ck' \<longrightarrow> ck = ck'"
      by (auto simp: build_checkpoint_def and_then_Inr_iff split: if_splits)
    have "work_checkpoint_stable_key lib ck = work_checkpoint_stable_key lib ck'"
      using derived_checkpoint_fields [OF d] derived_checkpoint_fields [OF d'] n by (simp add: work_checkpoint_stable_key_def)
    moreover have "ck_episode_revision_id ck' = r" using derived_checkpoint_fields [OF d'] n by simp
    ultimately show False using k ck assms(3) by simp
  qed
  then show ?thesis by (intro exI [of _ n] conjI allI p v)
qed

definition sample_idle_workstream :: workstream where
  "sample_idle_workstream = sample_rel_workstream\<lparr>ws_active_episode_id := None\<rparr>"

definition sample_moved_workstream :: workstream where
  "sample_moved_workstream = sample_idle_workstream\<lparr>ws_revision_id := 9, ws_predecessor_revision_id := Some 1,
    ws_active_episode_id := Some 5, ws_source_watermark := 6\<rparr>"

lemma sample_activated:
  "activate_episode 9 sample_context sample_idle_workstream sample_rel_episode [] []
    = context_command sample_context [WorkEpisodeRecorded sample_rel_episode, WorkstreamRecorded sample_moved_workstream]"
proof -
  have "workstream_validate sample_moved_workstream = Ok ()"
    by (simp add: workstream_validate_def sample_moved_workstream_def sample_idle_workstream_def
        sample_rel_workstream_def sample_view_def phase_contract_validate_def sample_episode_def sample_text Let_def)
  moreover have "sample_idle_workstream\<lparr>ws_revision_id := 9, ws_predecessor_revision_id := Some (ws_revision_id sample_idle_workstream),
      ws_active_episode_id := Some (ep_episode_id sample_rel_episode), ws_source_watermark := max (ep_source_watermark sample_rel_episode) 2\<rparr>
    = sample_moved_workstream"
    by (simp add: sample_moved_workstream_def sample_idle_workstream_def sample_rel_workstream_def sample_view_def
        sample_rel_episode_def max_def word_le_nat_alt)
  moreover have "checked_add (ws_source_watermark sample_idle_workstream) 1 = Some 2"
    by (simp add: sample_idle_workstream_def sample_rel_workstream_def sample_view_def checked_add_def)
  moreover have "ws_active_episode_id sample_idle_workstream = None" "ws_workstream_id sample_idle_workstream = 4"
      "ws_task_id sample_idle_workstream = 3" "ep_workstream_id sample_rel_episode = 4" "ep_task_id sample_rel_episode = 3"
      "ep_predecessor_revision_id sample_rel_episode = None" "ep_lifecycle_status sample_rel_episode = EpisodeOpen"
    by (simp_all add: sample_idle_workstream_def sample_rel_workstream_def sample_view_def sample_rel_episode_def sample_episode_def)
  ultimately show ?thesis by (simp add: activate_episode_def sample_rel_valid ok_or_def Let_def episode_command_def)
qed

theorem episode_commands_move_workstream_witness:
  "\<exists>c w'. activate_episode 9 sample_context sample_idle_workstream sample_rel_episode [] [] = Ok c
    \<and> command_workstreams c = [w'] \<and> ws_active_episode_id w' = Some 5
    \<and> replace_workstream [(4, sample_idle_workstream, 2)] w' 3 = Ok [(4, w', 3)]"
proof -
  obtain c where c: "activate_episode 9 sample_context sample_idle_workstream sample_rel_episode [] [] = Ok c"
    using sample_activated by (simp add: context_command_def journal_command_new_def)
  have f: "ws_workstream_id sample_idle_workstream = 4" "ws_status sample_idle_workstream = WorkstreamActive"
      "ws_revision_id sample_idle_workstream = 1" "ep_episode_id sample_rel_episode = 5"
    by (simp_all add: sample_idle_workstream_def sample_rel_workstream_def sample_view_def sample_rel_episode_def)
  obtain w' where "command_workstreams c = [w']" "ws_active_episode_id w' = Some 5"
    "replace_workstream [(4, sample_idle_workstream, 2)] w' 3
      = Ok (btm_insert 4 (w', 3) [(4, sample_idle_workstream, 2)])"
    using episode_commands_move_workstream [of 9 sample_context sample_idle_workstream sample_rel_episode "[]" "[]" c "Some 5"
        _ _ _ _ "[(4, sample_idle_workstream, 2)]" 2 3] c
    by (auto simp: f btm_get_def workstream_status_is_terminal_def)
  with c show ?thesis by (auto simp: btm_insert.simps)
qed

lemma sample_rel_accepted_successor: "work_episode_validate_successor sample_rel_episode sample_rel_current = Ok ()"
  by (simp add: work_episode_validate_successor_def sample_rel_valid)
    (simp add: sample_rel_current_def sample_rel_episode_def sample_episode_def Let_def work_episode_lifecycle_ok_def
      work_episode_boundary_ok_def work_episode_retains_def retains_def checked_add_def ok_or_def)

lemma sample_rel_saved:
  "save_checkpoint sample_uuid_lib 3 sample_context sample_rel_episode sample_rel_checkpoint None
    = and_then (context_command sample_context [WorkEpisodeRecorded sample_rel_current, WorkCheckpointRecorded sample_rel_checkpoint])
        (\<lambda>c. Ok (Some c))"
proof -
  have "sample_rel_episode\<lparr>ep_revision_id := 3, ep_predecessor_revision_id := Some 2, ep_revision_generation := 2,
      ep_checkpoint_refs := [sample_rel_key]\<rparr> = sample_rel_current" by (simp add: sample_rel_current_def)
  moreover have "ck_episode_id sample_rel_checkpoint = 5" "ck_episode_revision_id sample_rel_checkpoint = 2"
      "ck_source_watermark sample_rel_checkpoint = 6" "ep_episode_id sample_rel_episode = 5" "ep_revision_id sample_rel_episode = 2"
      "ep_source_watermark sample_rel_episode = 6" "ep_checkpoint_refs sample_rel_episode = []"
      "ep_revision_generation sample_rel_episode = 1"
    by (simp_all add: sample_rel_checkpoint_def build_work_checkpoint_def sample_rel_episode_def sample_episode_def)
  ultimately show ?thesis
    by (simp add: save_checkpoint_def sample_rel_valid sample_rel_accepted_successor ok_or_def checked_add_def
        episode_command_def flip: sample_rel_key_def)
qed

theorem saved_checkpoint_not_repeatable_witness:
  "\<exists>c n. save_checkpoint sample_uuid_lib 3 sample_context sample_rel_episode sample_rel_checkpoint None = Ok (Some c)
    \<and> map je_payload (jc_events c) = [WorkEpisodeRecorded n, WorkCheckpointRecorded sample_rel_checkpoint]
    \<and> work_episode_validate_successor sample_rel_episode n = Ok ()
    \<and> build_checkpoint sample_uuid_lib zero_digest n [] None ReasonStop (Some sample_rel_checkpoint) \<noteq> Ok NoDelta"
proof -
  obtain c where c: "save_checkpoint sample_uuid_lib 3 sample_context sample_rel_episode sample_rel_checkpoint None = Ok (Some c)"
    using sample_rel_saved by (simp add: context_command_def journal_command_new_def)
  have "\<not> derive_rejects zero_digest sample_rel_episode [] None"
    by (simp add: derive_rejects_def sample_rel_episode_def sample_episode_def)
  then have b: "build_checkpoint sample_uuid_lib zero_digest sample_rel_episode [] None ReasonStop None
      = Ok (Checkpoint_New sample_rel_checkpoint)"
    by (simp add: build_checkpoint_def derive_Ok_iff sample_rel_valid sample_rel_checkpoint_def [symmetric] and_then_Inr_iff)
  have "3 \<noteq> ep_revision_id sample_rel_episode" by (simp add: sample_rel_episode_def sample_episode_def)
  from saved_checkpoint_not_repeatable [OF b c this] c show ?thesis by metis
qed

end
