(* ===== verification/Object_Rows.thy ===== *)
theory Object_Rows
  imports Store_Base
begin

text \<open>
  The rows of the object table, \<open>evertrace-store/src/objects.rs\<close>: row kinds and classes, rows
  with their validation, the payload blocks that let rows share one backing string, and the
  reading of the checkpoint row. \<open>ObjectFamily\<close> is from \<open>command.rs\<close>, the snapshot of rows from
  \<open>projections.rs\<close>. Strings are byte strings, a \<open>usize\<close> is a natural number. The Arrow schema of
  the table is not modelled.
\<close>

section \<open>Kinds, classes and families\<close>

datatype object_row_kind = RowData | RowCheckpoint

fun object_row_kind_as_str :: "object_row_kind \<Rightarrow> string" where
  "object_row_kind_as_str RowData = ''data''"
| "object_row_kind_as_str RowCheckpoint = ''checkpoint''"

definition object_row_kind_parse :: "string \<Rightarrow> (store_error, object_row_kind) result" where
  "object_row_kind_parse value =
    (if value = ''data'' then Ok RowData
     else if value = ''checkpoint'' then Ok RowCheckpoint
     else Err StoreCorrupt)"

datatype object_row_class = RowObject | RowRuntime | RowProjection

fun object_row_class_as_str :: "object_row_class \<Rightarrow> string" where
  "object_row_class_as_str RowObject = ''object''"
| "object_row_class_as_str RowRuntime = ''runtime''"
| "object_row_class_as_str RowProjection = ''projection''"

definition object_row_class_parse :: "string \<Rightarrow> (store_error, object_row_class) result" where
  "object_row_class_parse value =
    (if value = ''object'' then Ok RowObject
     else if value = ''runtime'' then Ok RowRuntime
     else if value = ''projection'' then Ok RowProjection
     else Err StoreCorrupt)"

datatype object_family = FamilyEvidence | FamilyWork | FamilyAtom | FamilyProcedure | FamilyRevisionProposal

fun object_family_as_str :: "object_family \<Rightarrow> string" where
  "object_family_as_str FamilyEvidence = ''evidence''"
| "object_family_as_str FamilyWork = ''work''"
| "object_family_as_str FamilyAtom = ''atom''"
| "object_family_as_str FamilyProcedure = ''procedure''"
| "object_family_as_str FamilyRevisionProposal = ''revision_proposal''"

definition object_family_parse :: "string \<Rightarrow> (store_error, object_family) result" where
  "object_family_parse value =
    (if value = ''evidence'' then Ok FamilyEvidence
     else if value = ''work'' then Ok FamilyWork
     else if value = ''atom'' then Ok FamilyAtom
     else if value = ''procedure'' then Ok FamilyProcedure
     else if value = ''revision_proposal'' then Ok FamilyRevisionProposal
     else Err StoreCorrupt)"

section \<open>Payloads\<close>

text \<open>A payload is a range of a backing string that other rows may share.\<close>

record row_payload =
  rp_backing :: string
  rp_start :: nat
  rp_end :: nat

definition row_payload_from_shared :: "string \<Rightarrow> nat \<Rightarrow> nat \<Rightarrow> row_payload" where
  "row_payload_from_shared backing start end' = \<lparr>rp_backing = backing, rp_start = start, rp_end = end'\<rparr>"

definition row_payload_as_str :: "row_payload \<Rightarrow> string" where
  "row_payload_as_str p = take (rp_end p - rp_start p) (drop (rp_start p) (rp_backing p))"

definition row_payload_len :: "row_payload \<Rightarrow> nat" where
  "row_payload_len p = rp_end p - rp_start p"

definition row_payload_is_empty :: "row_payload \<Rightarrow> bool" where
  "row_payload_is_empty p \<longleftrightarrow> rp_start p = rp_end p"

definition row_payload_from :: "string \<Rightarrow> row_payload" where
  "row_payload_from str = row_payload_from_shared str 0 (length str)"

text \<open>Payloads are compared by their text, not by how it is stored.\<close>

definition row_payload_eq :: "row_payload \<Rightarrow> row_payload \<Rightarrow> bool" where
  "row_payload_eq p q \<longleftrightarrow> row_payload_as_str p = row_payload_as_str q"

section \<open>Rows\<close>

definition OBJECTS_CHECKPOINT_ID :: string where
  "OBJECTS_CHECKPOINT_ID = ''checkpoint:evertrace_objects''"

record object_row =
  or_row_id :: string
  or_row_kind :: object_row_kind
  or_row_class :: "object_row_class option"
  or_object_family :: "object_family option"
  or_object_kind :: "string option"
  or_object_id :: "string option"
  or_current_revision_id :: "string option"
  or_lifecycle :: "string option"
  or_epistemic :: "string option"
  or_authority :: "string option"
  or_publication_state :: "string option"
  or_support_state :: "string option"
  or_project_id :: "string option"
  or_repository_id :: "string option"
  or_worktree_id :: "string option"
  or_task_id :: "string option"
  or_workstream_id :: "string option"
  or_session_id :: "string option"
  or_payload_json :: "row_payload option"
  or_source_event_seq :: u64
  or_projection_generation :: u64

definition object_row_checkpoint :: "u64 \<Rightarrow> u64 \<Rightarrow> object_row" where
  "object_row_checkpoint frontier generation =
    \<lparr>or_row_id = OBJECTS_CHECKPOINT_ID, or_row_kind = RowCheckpoint, or_row_class = None, or_object_family = None,
     or_object_kind = None, or_object_id = None, or_current_revision_id = None, or_lifecycle = None,
     or_epistemic = None, or_authority = None, or_publication_state = None, or_support_state = None,
     or_project_id = None, or_repository_id = None, or_worktree_id = None, or_task_id = None,
     or_workstream_id = None, or_session_id = None, or_payload_json = None,
     or_source_event_seq = frontier, or_projection_generation = generation\<rparr>"

definition object_row_validate :: "object_row \<Rightarrow> (store_error, unit) result" where
  "object_row_validate row =
    (if or_row_id row = [] \<or> or_projection_generation row = 0 then Err StoreCorrupt
     else case or_row_kind row of
       RowCheckpoint \<Rightarrow>
         if or_row_id row \<noteq> OBJECTS_CHECKPOINT_ID
            \<or> is_some (or_row_class row) \<or> is_some (or_object_family row) \<or> is_some (or_object_kind row)
            \<or> is_some (or_object_id row) \<or> is_some (or_current_revision_id row) \<or> is_some (or_lifecycle row)
            \<or> is_some (or_epistemic row) \<or> is_some (or_authority row) \<or> is_some (or_publication_state row)
            \<or> is_some (or_support_state row) \<or> is_some (or_project_id row) \<or> is_some (or_repository_id row)
            \<or> is_some (or_worktree_id row) \<or> is_some (or_task_id row) \<or> is_some (or_workstream_id row)
            \<or> is_some (or_session_id row) \<or> is_some (or_payload_json row)
         then Err StoreCorrupt else Ok ()
     | RowData \<Rightarrow>
         and_then (ok_or StoreCorrupt (or_row_class row)) (\<lambda>cls.
         if or_payload_json row = None then Err StoreCorrupt
         else case cls of
           RowObject \<Rightarrow> if or_object_family row = None \<or> or_object_id row = None then Err StoreCorrupt else Ok ()
         | _ \<Rightarrow> if is_some (or_object_family row) \<or> is_some (or_object_id row) then Err StoreCorrupt else Ok ()))"

definition checkpoint_from_rows :: "object_row list \<Rightarrow> (store_error, u64) result" where
  "checkpoint_from_rows rows =
    (case filter (\<lambda>row. or_row_id row = OBJECTS_CHECKPOINT_ID) rows of
      [] \<Rightarrow> Err StoreCorrupt
    | checkpoint # others \<Rightarrow>
        if others \<noteq> [] \<or> or_row_kind checkpoint \<noteq> RowCheckpoint then Err StoreCorrupt
        else Ok (or_source_event_seq checkpoint))"

record projection_snapshot =
  ps_frontier :: u64
  ps_rows :: "object_row list"

definition data_rows :: "projection_snapshot \<Rightarrow> object_row list" where
  "data_rows snapshot = filter (\<lambda>row. or_row_kind row = RowData) (ps_rows snapshot)"

definition projection_snapshot_row :: "projection_snapshot \<Rightarrow> string \<Rightarrow> object_row option" where
  "projection_snapshot_row snapshot row_id = find (\<lambda>row. or_row_id row = row_id) (ps_rows snapshot)"

section \<open>Payload blocks\<close>

definition OBJECT_ROW_PAYLOAD_BLOCK_BYTES :: nat where
  "OBJECT_ROW_PAYLOAD_BLOCK_BYTES = 64 * 1024"

definition OBJECT_ROW_PAYLOAD_BLOCK_ROWS :: nat where
  "OBJECT_ROW_PAYLOAD_BLOCK_ROWS = 1024"

record pending_row_payload =
  pr_row_index :: nat
  pr_start :: nat
  pr_end :: nat

record row_payload_block_builder =
  bb_open :: string
  bb_pending :: "pending_row_payload list"

definition row_payload_block_builder_default :: row_payload_block_builder where
  "row_payload_block_builder_default = \<lparr>bb_open = [], bb_pending = []\<rparr>"

definition usize_saturating_add :: "nat \<Rightarrow> nat \<Rightarrow> nat" where
  "usize_saturating_add a b = min (a + b) (2 ^ 64 - 1)"

text \<open>The loop of \<open>seal\<close>: every pending row gets its range of the block.\<close>

fun seal_pending :: "string \<Rightarrow> pending_row_payload list \<Rightarrow> object_row list \<Rightarrow> (store_error, object_row list) result" where
  "seal_pending backing [] rows = Ok rows"
| "seal_pending backing (p # ps) rows =
    (if pr_row_index p < length rows
     then seal_pending backing ps (rows[pr_row_index p := (rows ! pr_row_index p)
       \<lparr>or_payload_json := Some (row_payload_from_shared backing (pr_start p) (pr_end p))\<rparr>])
     else Err StoreCorrupt)"

definition seal ::
  "row_payload_block_builder \<Rightarrow> object_row list \<Rightarrow> (store_error, row_payload_block_builder \<times> object_row list) result" where
  "seal b rows =
    (if bb_pending b = [] then Ok (b, rows)
     else and_then (seal_pending (bb_open b) (bb_pending b) rows) (\<lambda>rows'.
       Ok (\<lparr>bb_open = [], bb_pending = []\<rparr>, rows')))"

definition push_text_inner ::
  "row_payload_block_builder \<Rightarrow> object_row list \<Rightarrow> object_row \<Rightarrow> string
    \<Rightarrow> (store_error, row_payload_block_builder \<times> object_row list) result" where
  "push_text_inner b rows row str =
    (if length str > OBJECT_ROW_PAYLOAD_BLOCK_BYTES then
       and_then (seal b rows) (\<lambda>(b, rows).
       Ok (b, rows @ [row\<lparr>or_payload_json := Some (row_payload_from str)\<rparr>]))
     else
       and_then (if length (bb_pending b) \<ge> OBJECT_ROW_PAYLOAD_BLOCK_ROWS
            \<or> usize_saturating_add (length (bb_open b)) (length str) > OBJECT_ROW_PAYLOAD_BLOCK_BYTES
          then seal b rows else Ok (b, rows)) (\<lambda>(b, rows).
       let start = length (bb_open b); opened = bb_open b @ str in
       Ok (b\<lparr>bb_open := opened, bb_pending := bb_pending b @
             [\<lparr>pr_row_index = length rows, pr_start = start, pr_end = length opened\<rparr>]\<rparr>,
           rows @ [row])))"

definition push_payload ::
  "row_payload_block_builder \<Rightarrow> object_row list \<Rightarrow> object_row \<Rightarrow> row_payload
    \<Rightarrow> (store_error, row_payload_block_builder \<times> object_row list) result" where
  "push_payload b rows row payload =
    (if row_payload_len payload > OBJECT_ROW_PAYLOAD_BLOCK_BYTES then
       and_then (seal b rows) (\<lambda>(b, rows).
       Ok (b, rows @ [row\<lparr>or_payload_json := Some payload\<rparr>]))
     else push_text_inner b rows row (row_payload_as_str payload))"

definition push_row ::
  "row_payload_block_builder \<Rightarrow> object_row list \<Rightarrow> object_row
    \<Rightarrow> (store_error, row_payload_block_builder \<times> object_row list) result" where
  "push_row b rows row =
    and_then (object_row_validate row) (\<lambda>_.
    case or_payload_json row of
      None \<Rightarrow> Ok (b, rows @ [row])
    | Some payload \<Rightarrow> push_payload b rows (row\<lparr>or_payload_json := None\<rparr>) payload)"

definition push_text ::
  "row_payload_block_builder \<Rightarrow> object_row list \<Rightarrow> object_row \<Rightarrow> string
    \<Rightarrow> (store_error, row_payload_block_builder \<times> object_row list) result" where
  "push_text b rows row str = push_text_inner b rows row str"

definition block_builder_finish :: "row_payload_block_builder \<Rightarrow> object_row list \<Rightarrow> (store_error, object_row list) result" where
  "block_builder_finish b rows = and_then (seal b rows) (\<lambda>(_, rows'). Ok rows')"

section \<open>Names\<close>

text \<open>The stored names of row kinds, row classes and object families are read back exactly.\<close>

theorem row_names_roundtrip:
  "(object_row_kind_parse s = Ok kind \<longleftrightarrow> s = object_row_kind_as_str kind)
    \<and> (object_row_class_parse s = Ok cls \<longleftrightarrow> s = object_row_class_as_str cls)
    \<and> (object_family_parse s = Ok family \<longleftrightarrow> s = object_family_as_str family)"
  by (cases kind; cases cls; cases family;
      simp add: object_row_kind_parse_def object_row_class_parse_def object_family_parse_def)

section \<open>The checkpoint row\<close>

text \<open>
  The frontier is read exactly when there is one row with the checkpoint's identifier and it
  is a checkpoint. In particular the checkpoint row that is written next to valid data rows is
  found again, unless a data row carries its identifier.
\<close>

theorem checkpoint_found_iff:
  "checkpoint_from_rows rows = Ok frontier \<longleftrightarrow>
    (\<exists>before row after. rows = before @ row # after \<and> or_row_id row = OBJECTS_CHECKPOINT_ID
      \<and> or_row_kind row = RowCheckpoint \<and> or_source_event_seq row = frontier
      \<and> (\<forall>x \<in> set (before @ after). or_row_id x \<noteq> OBJECTS_CHECKPOINT_ID))"
    (is "?lhs \<longleftrightarrow> ?rhs")
proof
  assume ?lhs
  then obtain row where f: "filter (\<lambda>row. or_row_id row = OBJECTS_CHECKPOINT_ID) rows = [row]"
    and r: "or_row_kind row = RowCheckpoint" "or_source_event_seq row = frontier"
    by (auto simp: checkpoint_from_rows_def split: list.splits if_splits)
  from f obtain us vs where "rows = us @ row # vs" "\<forall>u \<in> set us. or_row_id u \<noteq> OBJECTS_CHECKPOINT_ID"
      "or_row_id row = OBJECTS_CHECKPOINT_ID" "filter (\<lambda>row. or_row_id row = OBJECTS_CHECKPOINT_ID) vs = []"
    by (auto simp: filter_eq_Cons_iff)
  with r show ?rhs by (intro exI [of _ us] exI [of _ row] exI [of _ vs]) (auto simp: filter_empty_conv)
next
  assume ?rhs
  then show ?lhs by (auto simp: checkpoint_from_rows_def filter_empty_conv filter_False)
qed

section \<open>Payload blocks keep every text\<close>

text \<open>Rows up to the way their payload is stored, and payloads that are ranges of a bounded string.\<close>

definition row_plain :: "object_row \<Rightarrow> object_row" where
  "row_plain row = row\<lparr>or_payload_json := map_option (\<lambda>p. row_payload_from (row_payload_as_str p)) (or_payload_json row)\<rparr>"

definition row_payload_ok :: "row_payload \<Rightarrow> bool" where
  "row_payload_ok p \<longleftrightarrow> rp_start p \<le> rp_end p \<and> rp_end p \<le> length (rp_backing p)"

definition payload_bounded :: "object_row \<Rightarrow> bool" where
  "payload_bounded row \<longleftrightarrow> (\<forall>p. or_payload_json row = Some p \<longrightarrow> row_payload_ok p
    \<and> (row_payload_len p \<le> OBJECT_ROW_PAYLOAD_BLOCK_BYTES \<longrightarrow> length (rp_backing p) \<le> OBJECT_ROW_PAYLOAD_BLOCK_BYTES))"

definition sealed :: "string \<Rightarrow> pending_row_payload list \<Rightarrow> object_row list \<Rightarrow> object_row list" where
  "sealed backing ps rows = fold (\<lambda>p rs. rs[pr_row_index p := (rs ! pr_row_index p)
    \<lparr>or_payload_json := Some (row_payload_from_shared backing (pr_start p) (pr_end p))\<rparr>]) ps rows"

definition pending_ok :: "row_payload_block_builder \<Rightarrow> nat \<Rightarrow> bool" where
  "pending_ok b n \<longleftrightarrow> length (bb_open b) \<le> OBJECT_ROW_PAYLOAD_BLOCK_BYTES
    \<and> length (bb_pending b) \<le> OBJECT_ROW_PAYLOAD_BLOCK_ROWS \<and> (bb_pending b = [] \<longrightarrow> bb_open b = [])
    \<and> (\<forall>p \<in> set (bb_pending b). pr_row_index p < n \<and> pr_start p \<le> pr_end p \<and> pr_end p \<le> length (bb_open b))"

lemma row_plain_payload: "row_plain r = row_plain r' \<Longrightarrow> r\<lparr>or_payload_json := x\<rparr> = r'\<lparr>or_payload_json := x\<rparr>"
  by (metis (no_types, lifting) object_row.update_convs(19) object_row.surjective object_row.unfold_congs(19) row_plain_def)

lemma row_payload_from_as_str [simp]: "row_payload_as_str (row_payload_from s) = s"
  by (simp add: row_payload_from_def row_payload_as_str_def row_payload_from_shared_def)

lemma as_str_prefix:
  "e \<le> length xs \<Longrightarrow> row_payload_as_str (row_payload_from_shared (xs @ ys) s e) = row_payload_as_str (row_payload_from_shared xs s e)"
  by (simp add: row_payload_as_str_def row_payload_from_shared_def take_drop)

lemma sealed_simps [simp]:
  "sealed backing [] rows = rows"
  "sealed backing (p # ps) rows = sealed backing ps (rows[pr_row_index p := (rows ! pr_row_index p)
    \<lparr>or_payload_json := Some (row_payload_from_shared backing (pr_start p) (pr_end p))\<rparr>])"
  "sealed backing (ps @ [p]) rows = (sealed backing ps rows)[pr_row_index p := (sealed backing ps rows ! pr_row_index p)
    \<lparr>or_payload_json := Some (row_payload_from_shared backing (pr_start p) (pr_end p))\<rparr>]"
  by (simp_all add: sealed_def)

lemma length_sealed [simp]: "length (sealed backing ps rows) = length rows"
  by (induction ps arbitrary: rows) simp_all

lemma seal_pending_sealed:
  "\<forall>p \<in> set ps. pr_row_index p < length rows \<Longrightarrow> seal_pending backing ps rows = Ok (sealed backing ps rows)"
  by (induction ps arbitrary: rows) simp_all

lemma sealed_snoc:
  "\<forall>p \<in> set ps. pr_row_index p < length rows \<Longrightarrow> sealed backing ps (rows @ [row]) = sealed backing ps rows @ [row]"
  by (induction ps arbitrary: rows) (simp_all add: nth_append list_update_append)

lemma sealed_plain:
  assumes "map row_plain rows = map row_plain rows'"
    and "\<forall>p \<in> set ps. row_payload_as_str (row_payload_from_shared b (pr_start p) (pr_end p))
      = row_payload_as_str (row_payload_from_shared b' (pr_start p) (pr_end p))"
    and "\<forall>p \<in> set ps. pr_row_index p < length rows"
  shows "map row_plain (sealed b ps rows) = map row_plain (sealed b' ps rows')"
  using assms
proof (induction ps arbitrary: rows rows')
  case (Cons p ps)
  let ?i = "pr_row_index p"
  have n: "length rows = length rows'" using map_eq_imp_length_eq [OF Cons.prems(1)] .
  then have "row_plain (rows ! ?i) = row_plain (rows' ! ?i)" using Cons.prems(1,3) by (metis list.set_intros(1) nth_map)
  from row_plain_payload [OF this] have "row_plain ((rows ! ?i)\<lparr>or_payload_json := Some (row_payload_from_shared b (pr_start p) (pr_end p))\<rparr>)
    = row_plain ((rows' ! ?i)\<lparr>or_payload_json := Some (row_payload_from_shared b' (pr_start p) (pr_end p))\<rparr>)"
    using Cons.prems(2) by (simp add: row_plain_def)
  then show ?case using Cons.prems n by (simp add: Cons.IH map_update)
qed simp

lemma sealed_bounded:
  assumes "\<forall>p \<in> set ps. pr_row_index p < length rows \<and> pr_start p \<le> pr_end p \<and> pr_end p \<le> length b"
    and "length b \<le> OBJECT_ROW_PAYLOAD_BLOCK_BYTES" and "i < length rows"
    and "(\<exists>p \<in> set ps. pr_row_index p = i) \<or> payload_bounded (rows ! i)"
  shows "payload_bounded (sealed b ps rows ! i)"
  using assms(1,3,4)
proof (induction ps arbitrary: rows)
  case (Cons p ps)
  have "payload_bounded (r\<lparr>or_payload_json := Some (row_payload_from_shared b (pr_start p) (pr_end p))\<rparr>)" for r
    using Cons.prems(1) assms(2) by (simp add: payload_bounded_def row_payload_ok_def row_payload_from_shared_def)
  then have "(\<exists>q \<in> set ps. pr_row_index q = i) \<or> payload_bounded (rows[pr_row_index p := (rows ! pr_row_index p)
      \<lparr>or_payload_json := Some (row_payload_from_shared b (pr_start p) (pr_end p))\<rparr>] ! i)"
    using Cons.prems by (cases "pr_row_index p = i") auto
  from Cons.IH [OF _ _ this] Cons.prems show ?case by simp
qed simp

definition shown_rows :: "row_payload_block_builder \<Rightarrow> object_row list \<Rightarrow> object_row list" where
  "shown_rows b rows = sealed (bb_open b) (bb_pending b) rows"

text \<open>What a builder has to show after it was given the rows \<open>given\<close>.\<close>

definition block_inv :: "object_row list \<Rightarrow> row_payload_block_builder \<times> object_row list \<Rightarrow> bool" where
  "block_inv given s \<longleftrightarrow> pending_ok (fst s) (length (snd s))
    \<and> map row_plain (shown_rows (fst s) (snd s)) = map row_plain given
    \<and> (\<forall>row \<in> set (shown_rows (fst s) (snd s)). payload_bounded row)"

lemma sealed_untouched: "\<forall>p \<in> set ps. pr_row_index p \<noteq> i \<Longrightarrow> sealed b ps rows ! i = rows ! i"
  by (induction ps arbitrary: rows) simp_all

lemma seal_shown:
  assumes "block_inv given (b, rows)"
  shows "seal b rows = Ok (row_payload_block_builder_default, shown_rows b rows)"
    and "block_inv given (row_payload_block_builder_default, shown_rows b rows)"
proof -
  have "bb_pending b = [] \<Longrightarrow> b = row_payload_block_builder_default" and "\<forall>p \<in> set (bb_pending b). pr_row_index p < length rows"
    using assms by (simp_all add: block_inv_def pending_ok_def row_payload_block_builder_default_def)
  then show "seal b rows = Ok (row_payload_block_builder_default, shown_rows b rows)"
    by (auto simp: seal_def shown_rows_def seal_pending_sealed row_payload_block_builder_default_def)
  show "block_inv given (row_payload_block_builder_default, shown_rows b rows)"
    using assms by (simp add: block_inv_def shown_rows_def row_payload_block_builder_default_def pending_ok_def)
qed

lemma block_inv_append:
  assumes "block_inv given (b, rows)" and "payload_bounded row"
  shows "block_inv (given @ [row]) (b, rows @ [row])"
  using assms by (auto simp: block_inv_def shown_rows_def pending_ok_def sealed_snoc)

lemma block_inv_open:
  assumes "block_inv given (b, rows)" and "length (bb_pending b) < OBJECT_ROW_PAYLOAD_BLOCK_ROWS"
    and "length (bb_open b) + length str \<le> OBJECT_ROW_PAYLOAD_BLOCK_BYTES"
  shows "block_inv (given @ [row\<lparr>or_payload_json := Some (row_payload_from str)\<rparr>])
    (b\<lparr>bb_open := bb_open b @ str, bb_pending := bb_pending b @
       [\<lparr>pr_row_index = length rows, pr_start = length (bb_open b), pr_end = length (bb_open b) + length str\<rparr>]\<rparr>, rows @ [row])"
    (is "block_inv _ (?b, _)")
proof -
  let ?p = "row_payload_from_shared (bb_open b @ str) (length (bb_open b)) (length (bb_open b) + length str)"
  have idx: "\<forall>p \<in> set (bb_pending b). pr_row_index p < length rows \<and> pr_start p \<le> pr_end p \<and> pr_end p \<le> length (bb_open b)"
    using assms(1) by (auto simp: block_inv_def pending_ok_def)
  then have "map row_plain (sealed (bb_open b @ str) (bb_pending b) rows) = map row_plain (shown_rows b rows)"
    unfolding shown_rows_def by (intro sealed_plain) (auto simp: as_str_prefix)
  moreover have "shown_rows ?b (rows @ [row]) = sealed (bb_open b @ str) (bb_pending b) rows @ [row\<lparr>or_payload_json := Some ?p\<rparr>]"
    using idx by (simp add: shown_rows_def sealed_snoc list_update_append nth_append)
  moreover have "payload_bounded (sealed (bb_open b @ str) (bb_pending b) rows ! i)" if "i < length rows" for i
  proof (rule sealed_bounded)
    show "(\<exists>p \<in> set (bb_pending b). pr_row_index p = i) \<or> payload_bounded (rows ! i)"
    proof (rule ccontr, clarsimp)
      assume "\<forall>p \<in> set (bb_pending b). pr_row_index p \<noteq> i" "\<not> payload_bounded (rows ! i)"
      moreover have "payload_bounded (shown_rows b rows ! i)" using assms(1) that by (simp add: block_inv_def shown_rows_def)
      ultimately show False by (simp add: shown_rows_def sealed_untouched)
    qed
  qed (use idx that assms(3) in auto)
  moreover have "payload_bounded (row\<lparr>or_payload_json := Some ?p\<rparr>)" "row_payload_as_str ?p = str"
    using assms(3) by (simp_all add: payload_bounded_def row_payload_ok_def row_payload_from_shared_def row_payload_as_str_def)
  ultimately show ?thesis
    using assms idx unfolding block_inv_def by (auto simp: pending_ok_def row_plain_def in_set_conv_nth)
qed

lemma push_text_inner_ok:
  assumes "block_inv given (b, rows)"
  shows "\<exists>s. push_text_inner b rows row str = Ok s
    \<and> block_inv (given @ [row\<lparr>or_payload_json := Some (row_payload_from str)\<rparr>]) s"
proof (cases "length str > OBJECT_ROW_PAYLOAD_BLOCK_BYTES")
  case True
  then have "payload_bounded (row\<lparr>or_payload_json := Some (row_payload_from str)\<rparr>)"
    by (simp add: payload_bounded_def row_payload_ok_def row_payload_from_def row_payload_from_shared_def row_payload_len_def)
  with True show ?thesis using seal_shown [OF assms] block_inv_append by (simp add: push_text_inner_def)
next
  case False
  note emp = block_inv_open [OF seal_shown(2) [OF assms], of str row]
  show ?thesis
  proof (cases "length (bb_pending b) \<ge> OBJECT_ROW_PAYLOAD_BLOCK_ROWS
      \<or> usize_saturating_add (length (bb_open b)) (length str) > OBJECT_ROW_PAYLOAD_BLOCK_BYTES")
    case True
    with emp False seal_shown(1) [OF assms] show ?thesis
      by (simp add: push_text_inner_def row_payload_block_builder_default_def Let_def OBJECT_ROW_PAYLOAD_BLOCK_ROWS_def)
  next
    case fits: False
    then have "length (bb_open b) + length str \<le> OBJECT_ROW_PAYLOAD_BLOCK_BYTES"
      by (simp add: usize_saturating_add_def OBJECT_ROW_PAYLOAD_BLOCK_BYTES_def min_def split: if_splits)
    with fits False block_inv_open [OF assms] show ?thesis by (simp add: push_text_inner_def Let_def)
  qed
qed

text \<open>What the builder is given: rows with a payload of their own, or rows with a text beside them.\<close>

datatype block_item = PushedRow object_row | PushedText object_row string

fun push_item :: "row_payload_block_builder \<times> object_row list \<Rightarrow> block_item
    \<Rightarrow> (store_error, row_payload_block_builder \<times> object_row list) result" where
  "push_item (b, rows) (PushedRow row) = push_row b rows row"
| "push_item (b, rows) (PushedText row str) = push_text b rows row str"

fun item_row :: "block_item \<Rightarrow> object_row" where
  "item_row (PushedRow row) = row"
| "item_row (PushedText row str) = row\<lparr>or_payload_json := Some (row_payload_from str)\<rparr>"

fun item_accepted :: "block_item \<Rightarrow> bool" where
  "item_accepted (PushedRow row) = (object_row_validate row = Ok ())"
| "item_accepted (PushedText row str) = True"

text \<open>A payload is only built as a range of its backing string.\<close>

fun item_wf :: "block_item \<Rightarrow> bool" where
  "item_wf (PushedRow row) = (\<forall>p. or_payload_json row = Some p \<longrightarrow> row_payload_ok p)"
| "item_wf (PushedText row str) = True"

definition build_rows :: "block_item list \<Rightarrow> (store_error, object_row list) result" where
  "build_rows items = and_then (replay push_item (row_payload_block_builder_default, []) items)
    (\<lambda>(b, rows). block_builder_finish b rows)"

lemma push_row_ok:
  assumes "block_inv given (b, rows)" and "object_row_validate row = Ok ()"
    and "\<And>p. or_payload_json row = Some p \<Longrightarrow> row_payload_ok p"
  shows "\<exists>s. push_row b rows row = Ok s \<and> block_inv (given @ [row]) s"
proof (cases "or_payload_json row")
  case None
  then have "payload_bounded row" by (simp add: payload_bounded_def)
  with None assms block_inv_append show ?thesis by (simp add: push_row_def)
next
  case (Some p)
  let ?row = "row\<lparr>or_payload_json := None\<rparr>"
  have r: "row\<lparr>or_payload_json := Some p\<rparr> = row" by (simp flip: Some)
  show ?thesis
  proof (cases "row_payload_len p > OBJECT_ROW_PAYLOAD_BLOCK_BYTES")
    case True
    then have "payload_bounded row" using Some assms(3) by (simp add: payload_bounded_def)
    then have "block_inv (given @ [row]) (row_payload_block_builder_default, shown_rows b rows @ [row\<lparr>or_payload_json := Some p\<rparr>])"
      unfolding r by (rule block_inv_append [OF seal_shown(2) [OF assms(1)]])
    then show ?thesis
      using seal_shown(1) [OF assms(1)] True Some assms(2) by (simp add: push_row_def push_payload_def)
  next
    case False
    obtain s where s: "push_text_inner b rows ?row (row_payload_as_str p) = Ok s"
      and inv: "block_inv (given @ [?row\<lparr>or_payload_json := Some (row_payload_from (row_payload_as_str p))\<rparr>]) s"
      using push_text_inner_ok [OF assms(1)] by blast
    have "row_plain (?row\<lparr>or_payload_json := Some (row_payload_from (row_payload_as_str p))\<rparr>) = row_plain row"
      using Some by (simp add: row_plain_def)
    with inv have "block_inv (given @ [row]) s" by (simp add: block_inv_def)
    with s False Some assms(2) show ?thesis by (simp add: push_row_def push_payload_def)
  qed
qed

lemma push_items_ok:
  assumes "block_inv given s" and "\<forall>item \<in> set items. item_wf item"
  shows "if \<forall>item \<in> set items. item_accepted item
    then \<exists>s'. replay push_item s items = Ok s' \<and> block_inv (given @ map item_row items) s'
    else \<not> is_ok (replay push_item s items)"
  using assms
proof (induction items arbitrary: given s)
  case (Cons item items)
  obtain b rows where s: "s = (b, rows)" by force
  show ?case
  proof (cases "item_accepted item")
    case True
    have "\<exists>s'. push_item s item = Ok s' \<and> block_inv (given @ [item_row item]) s'"
    proof (cases item)
      case (PushedRow row)
      then show ?thesis using push_row_ok [of given b rows row] True Cons.prems by (simp add: s)
    next
      case (PushedText row str)
      then show ?thesis using push_text_inner_ok [of given b rows] Cons.prems(1) by (simp add: s push_text_def)
    qed
    then obtain s' where s': "push_item s item = Ok s'" "block_inv (given @ [item_row item]) s'" by blast
    from Cons.IH [OF s'(2)] Cons.prems(2) s'(1) True show ?thesis
      by (cases "\<forall>x \<in> set items. item_accepted x") (simp_all del: split_paired_Ex, auto)
  next
    case False
    then obtain row where "item = PushedRow row" by (cases item) auto
    with False have "\<not> is_ok (push_item s item)"
      by (cases "object_row_validate row") (simp_all add: s push_row_def)
    then have "\<not> is_ok (replay push_item s (item # items))" by (cases "push_item s item") simp_all
    with False show ?thesis by simp
  qed
qed simp

text \<open>
  C21. Packing payloads into shared blocks loses nothing. Building rows fails only if a row that is
  given with its payload is invalid; otherwise the finished rows are the given ones, in order
  and with the same texts. No row keeps a block alive that is larger than 64 KiB unless its own
  text is that large.
\<close>

theorem payload_blocks_exact:
  assumes "\<forall>item \<in> set items. item_wf item"
  shows "if \<forall>item \<in> set items. item_accepted item
    then \<exists>rows. build_rows items = Ok rows \<and> map row_plain rows = map row_plain (map item_row items)
      \<and> (\<forall>row \<in> set rows. payload_bounded row)
    else \<not> is_ok (build_rows items)"
proof -
  let ?start = "(row_payload_block_builder_default, [])"
  have "block_inv [] ?start"
    by (simp add: block_inv_def pending_ok_def row_payload_block_builder_default_def shown_rows_def)
  note run = push_items_ok [OF this assms]
  show ?thesis
  proof (cases "\<forall>item \<in> set items. item_accepted item")
    case True
    with run obtain b rows where r: "replay push_item ?start items = Ok (b, rows)" "block_inv (map item_row items) (b, rows)"
      by fastforce
    with True seal_shown(1) [OF r(2)] show ?thesis by (auto simp: build_rows_def block_builder_finish_def block_inv_def)
  next
    case False
    with run have "\<not> is_ok (replay push_item ?start items)" by presburger
    with False show ?thesis by (cases "replay push_item ?start items") (simp_all add: build_rows_def)
  qed
qed

definition sample_row :: object_row where
  "sample_row = (object_row_checkpoint 3 1)\<lparr>or_row_id := ''r'', or_row_kind := RowData, or_row_class := Some RowRuntime,
    or_payload_json := Some (row_payload_from ''{}'')\<rparr>"

theorem payload_blocks_exact_witness:
  "\<exists>rows. build_rows [PushedRow sample_row, PushedText sample_row ''[]''] = Ok rows
    \<and> map (\<lambda>row. map_option row_payload_as_str (or_payload_json row)) rows = [Some ''{}'', Some ''[]'']"
proof -
  have v: "object_row_validate sample_row = Ok ()"
    by (simp add: object_row_validate_def sample_row_def object_row_checkpoint_def ok_or_def)
  have "\<forall>item \<in> set [PushedRow sample_row, PushedText sample_row ''[]'']. item_wf item"
    by (simp add: sample_row_def row_payload_ok_def row_payload_from_def row_payload_from_shared_def)
  from payload_blocks_exact [OF this] v obtain rows
    where b: "build_rows [PushedRow sample_row, PushedText sample_row ''[]''] = Ok rows"
      and r: "map row_plain rows = [row_plain sample_row, row_plain (sample_row\<lparr>or_payload_json := Some (row_payload_from ''[]'')\<rparr>)]"
    by auto
  have t: "map_option row_payload_as_str (or_payload_json r) = map_option row_payload_as_str (or_payload_json r')"
    if "row_plain r = row_plain r'" for r r' :: object_row
  proof -
    have "map_option row_payload_as_str (or_payload_json r) = map_option row_payload_as_str (or_payload_json (row_plain r))" for r
      by (cases "or_payload_json r") (simp_all add: row_plain_def)
    with that show ?thesis by metis
  qed
  from r obtain r1 r2 where "rows = [r1, r2]" and e: "row_plain r1 = row_plain sample_row"
    "row_plain r2 = row_plain (sample_row\<lparr>or_payload_json := Some (row_payload_from ''[]'')\<rparr>)"
    unfolding map_eq_Cons_conv by blast
  moreover have "or_payload_json sample_row = Some (row_payload_from ''{}'')" by (simp add: sample_row_def)
  ultimately have "map (\<lambda>row. map_option row_payload_as_str (or_payload_json row)) rows = [Some ''{}'', Some ''[]'']"
    using t [OF e(1)] t [OF e(2)] by simp
  then show ?thesis by (intro exI [of _ rows] conjI b)
qed

end
