(* ===== verification/Attempt_Work.thy ===== *)
theory Attempt_Work
  imports Work_Command Object_Rows
begin

text \<open>
  The engine's facade for attempts, \<open>evertrace-engine/src/work/attempt.rs\<close>, with the part of
  \<open>evertrace-store/src/projections.rs\<close> that admits a manually marked new attempt
  (\<open>MarkNewAttemptCurrentView\<close>, \<open>validate_mark_new_attempt_command\<close>,
  \<open>canonical_mark_new_attempt_child\<close>). Fresh identifiers are arguments. The selection of a
  competing attempt from experiment results is not modelled.
\<close>

section \<open>Commands\<close>

datatype 'a attempt_resolution = AttemptNoDelta | AttemptRevision 'a

datatype mark_new_attempt_lookup =
    MarkAvailable attempt
  | MarkLookupConflict revision_id
  | MarkLookupNoDelta revision_id
  | MarkLookupUnavailable string

datatype mark_new_attempt_resolution =
    MarkRevision attempt journal_command
  | MarkConflict revision_id
  | MarkNoDelta revision_id
  | MarkUnavailable string

definition attempt_command_with_source ::
  "(bytes \<Rightarrow> bytes) \<Rightarrow> work_command_context \<Rightarrow> attempt \<Rightarrow> source_kind
    \<Rightarrow> (work_identity_error, journal_command) result" where
  "attempt_command_with_source H context a source_kind =
    and_then (map_err (\<lambda>_. WorkInvalidInput) (attempt_validate H a)) (\<lambda>_.
    let event = (context_event context (AttemptRecorded a))\<lparr>je_source_kind := source_kind\<rparr> in
    map_err WorkStore (journal_command_new (wc_command_id context) [event]))"

definition attempt_command ::
  "(bytes \<Rightarrow> bytes) \<Rightarrow> work_command_context \<Rightarrow> attempt \<Rightarrow> (work_identity_error, journal_command) result" where
  "attempt_command H context a = attempt_command_with_source H context a SourceSystem"

definition group_command_with_source ::
  "work_command_context \<Rightarrow> competing_attempt_group \<Rightarrow> source_kind
    \<Rightarrow> (work_identity_error, journal_command) result" where
  "group_command_with_source context g source_kind =
    and_then (map_err (\<lambda>_. WorkInvalidInput) (competing_attempt_group_validate g)) (\<lambda>_.
    let event = (context_event context (CompetingAttemptGroupRecorded g))\<lparr>je_source_kind := source_kind\<rparr> in
    map_err WorkStore (journal_command_new (wc_command_id context) [event]))"

definition group_command ::
  "work_command_context \<Rightarrow> competing_attempt_group \<Rightarrow> (work_identity_error, journal_command) result" where
  "group_command context g = group_command_with_source context g SourceSystem"

definition create_attempt ::
  "(bytes \<Rightarrow> bytes) \<Rightarrow> work_command_context \<Rightarrow> attempt \<Rightarrow> (work_identity_error, journal_command) result" where
  "create_attempt H context a =
    (if at_revision_generation a \<noteq> 1 \<or> is_some (at_predecessor_revision_id a) \<or> is_some (at_episode_id a)
     then Err WorkInvalidInput
     else attempt_command H context a)"

definition record_attempt_revision ::
  "(bytes \<Rightarrow> bytes) \<Rightarrow> work_command_context \<Rightarrow> attempt \<Rightarrow> attempt
    \<Rightarrow> (work_identity_error, journal_command) result" where
  "record_attempt_revision H context current successor =
    and_then (map_err (\<lambda>_. WorkInvalidInput) (attempt_validate_successor H current successor)) (\<lambda>_.
    attempt_command H context successor)"

section \<open>Revisions\<close>

definition attempt_successor :: "revision_id \<Rightarrow> attempt \<Rightarrow> u64 \<Rightarrow> (work_identity_error, attempt) result" where
  "attempt_successor new_revision current source_watermark =
    (if source_watermark \<le> at_source_watermark current then Err WorkInvalidInput
     else
     and_then (ok_or WorkInvalidInput (checked_add (at_revision_generation current) 1)) (\<lambda>generation.
     Ok (current\<lparr>at_predecessor_revision_id := Some (at_revision_id current), at_revision_id := new_revision,
       at_revision_generation := generation, at_source_watermark := source_watermark\<rparr>)))"

definition validated_revision ::
  "(bytes \<Rightarrow> bytes) \<Rightarrow> attempt \<Rightarrow> (work_identity_error, attempt attempt_resolution) result" where
  "validated_revision H a =
    and_then (map_err (\<lambda>_. WorkInvalidInput) (attempt_validate H a)) (\<lambda>_. Ok (AttemptRevision a))"

definition execution_change_allowed :: "attempt_execution_status \<Rightarrow> attempt_execution_status \<Rightarrow> bool" where
  "execution_change_allowed old new \<longleftrightarrow> (old, new) \<in>
    {(ExecProposed, ExecActive), (ExecProposed, ExecAbandoned),
     (ExecActive, ExecInterrupted), (ExecActive, ExecCompleted), (ExecActive, ExecAbandoned),
     (ExecInterrupted, ExecCompleted), (ExecInterrupted, ExecAbandoned)}"

definition revise_execution ::
  "(bytes \<Rightarrow> bytes) \<Rightarrow> revision_id \<Rightarrow> attempt \<Rightarrow> attempt_execution_status \<Rightarrow> execution_lane_id list \<Rightarrow> string list
    \<Rightarrow> interruption_reason option \<Rightarrow> string list \<Rightarrow> u64
    \<Rightarrow> (work_identity_error, attempt attempt_resolution) result" where
  "revise_execution H new_revision current status lane_ids interruption_refs interruption_reason
      explicit_abandon_refs source_watermark =
    (if at_execution_status current = status \<and> at_execution_lane_ids current = lane_ids
        \<and> at_interruption_refs current = interruption_refs
        \<and> at_interruption_reason current = interruption_reason
        \<and> at_explicit_abandon_refs current = explicit_abandon_refs
     then Ok AttemptNoDelta
     else if \<not> execution_change_allowed (at_execution_status current) status then Err WorkInvalidInput
     else
     and_then (attempt_successor new_revision current source_watermark) (\<lambda>next.
     validated_revision H (next\<lparr>at_execution_status := status,
       at_execution_lane_ids := sort_dedup (at_execution_lane_ids next @ lane_ids),
       at_interruption_refs := sort_dedup (at_interruption_refs next @ interruption_refs),
       at_interruption_reason :=
         (case interruption_reason of None \<Rightarrow> at_interruption_reason current | Some r \<Rightarrow> Some r),
       at_explicit_abandon_refs := sort_dedup (at_explicit_abandon_refs next @ explicit_abandon_refs),
       at_outcome_state := (if status = ExecInterrupted then OutcomeUnknown else at_outcome_state next)\<rparr>)))"

definition adoption_change_allowed :: "attempt_adoption_status \<Rightarrow> attempt_adoption_status \<Rightarrow> bool" where
  "adoption_change_allowed old new \<longleftrightarrow> (old, new) \<in>
    {(AdoptionNone, AdoptionCandidate), (AdoptionNone, AdoptionSelected), (AdoptionNone, AdoptionRejected),
     (AdoptionCandidate, AdoptionSelected), (AdoptionCandidate, AdoptionRejected),
     (AdoptionSelected, AdoptionPartiallyIntegrated), (AdoptionSelected, AdoptionIntegrated),
     (AdoptionSelected, AdoptionRejected),
     (AdoptionPartiallyIntegrated, AdoptionIntegrated), (AdoptionPartiallyIntegrated, AdoptionRejected)}"

definition revise_adoption ::
  "(bytes \<Rightarrow> bytes) \<Rightarrow> revision_id \<Rightarrow> attempt \<Rightarrow> attempt_adoption_status \<Rightarrow> integration_event_id list \<Rightarrow> u64
    \<Rightarrow> (work_identity_error, attempt attempt_resolution) result" where
  "revise_adoption H new_revision current status integration_event_refs source_watermark =
    (if at_adoption_status current = status \<and> at_integration_event_refs current = integration_event_refs
     then Ok AttemptNoDelta
     else if \<not> adoption_change_allowed (at_adoption_status current) status then Err WorkInvalidInput
     else
     and_then (attempt_successor new_revision current source_watermark) (\<lambda>next.
     validated_revision H (next\<lparr>at_adoption_status := status,
       at_integration_event_refs := sort_dedup (at_integration_event_refs next @ integration_event_refs)\<rparr>)))"

definition verification_change_allowed :: "attempt_verification \<Rightarrow> attempt_verification \<Rightarrow> bool" where
  "verification_change_allowed old new \<longleftrightarrow> (old, new) \<in>
    {(VerificationUnverified, VerificationInconclusive), (VerificationUnverified, VerificationPassed),
     (VerificationUnverified, VerificationFailed),
     (VerificationInconclusive, VerificationPassed), (VerificationInconclusive, VerificationFailed)}"

definition revise_verification ::
  "(bytes \<Rightarrow> bytes) \<Rightarrow> revision_id \<Rightarrow> attempt \<Rightarrow> attempt_verification \<Rightarrow> string list \<Rightarrow> u64
    \<Rightarrow> (work_identity_error, attempt attempt_resolution) result" where
  "revise_verification H new_revision current verification objective_verifier_refs source_watermark =
    (if at_verification current = verification \<and> at_parent_verification_refs current = objective_verifier_refs
     then Ok AttemptNoDelta
     else if \<not> verification_change_allowed (at_verification current) verification then Err WorkInvalidInput
     else
     and_then (attempt_successor new_revision current source_watermark) (\<lambda>next.
     validated_revision H (next\<lparr>at_verification := verification,
       at_parent_verification_refs := sort_dedup (at_parent_verification_refs next @ objective_verifier_refs)\<rparr>)))"

definition supersede_attempt ::
  "(bytes \<Rightarrow> bytes) \<Rightarrow> revision_id \<Rightarrow> attempt \<Rightarrow> string list \<Rightarrow> u64
    \<Rightarrow> (work_identity_error, attempt attempt_resolution) result" where
  "supersede_attempt H new_revision current evidence_refs source_watermark =
    (if at_lifecycle_status current = AttemptSuperseded \<and> at_supersede_evidence_refs current = evidence_refs
     then Ok AttemptNoDelta
     else
     and_then (attempt_successor new_revision current source_watermark) (\<lambda>next.
     validated_revision H (next\<lparr>at_lifecycle_status := AttemptSuperseded,
       at_supersede_evidence_refs := evidence_refs\<rparr>)))"

definition resume_same_attempt ::
  "(bytes \<Rightarrow> bytes) \<Rightarrow> revision_id \<Rightarrow> attempt \<Rightarrow> execution_lane_id \<Rightarrow> resume_state_assessment \<Rightarrow> string list
    \<Rightarrow> worktree_snapshot_id option \<Rightarrow> worktree_snapshot_id \<Rightarrow> worktree_transition_id list \<Rightarrow> u64
    \<Rightarrow> (work_identity_error, attempt) result" where
  "resume_same_attempt H new_revision current new_lane_id assessment resume_event_refs source_snapshot
      target_snapshot transitions source_watermark =
    (if at_execution_status current \<noteq> ExecInterrupted
        \<or> at_verification current = VerificationFailed
        \<or> at_lifecycle_status current = AttemptSuperseded
        \<or> new_lane_id \<in> set (at_execution_lane_ids current)
        \<or> assessment \<notin> {ResumeCompatibleSameInstance, ResumeCompatibleLineageTransfer}
     then Err WorkInvalidInput
     else
     and_then (attempt_successor new_revision current source_watermark) (\<lambda>next.
     let next = next\<lparr>at_execution_status := ExecActive,
           at_execution_lane_ids := sort_dedup (at_execution_lane_ids next @ [new_lane_id]),
           at_resume_state_assessment := Some assessment,
           at_resume_event_refs := sort_dedup (at_resume_event_refs next @ resume_event_refs),
           at_resume_source_snapshot_id := source_snapshot,
           at_resume_target_snapshot_id := Some target_snapshot,
           at_worktree_transition_refs := sort_dedup (at_worktree_transition_refs next @ transitions)\<rparr> in
     and_then (map_err (\<lambda>_. WorkInvalidInput) (attempt_validate H next)) (\<lambda>_. Ok next)))"

section \<open>New attempts\<close>

definition create_resume_attempt ::
  "(bytes \<Rightarrow> bytes) \<Rightarrow> attempt \<Rightarrow> attempt \<Rightarrow> resume_state_assessment \<Rightarrow> (work_identity_error, attempt) result" where
  "create_resume_attempt H a source assessment =
    (if assessment \<notin> {ResumeIncompatible, ResumeUnknown}
        \<or> at_attempt_id a = at_attempt_id source
        \<or> at_task_id a \<noteq> at_task_id source
        \<or> at_revision_generation a \<noteq> 1
     then Err WorkInvalidInput
     else
     and_then (map_err (\<lambda>_. WorkInvalidInput) (strategy_contract_fingerprint H (at_strategy_contract a))) (\<lambda>fingerprint.
     let a = a\<lparr>at_resumes_from_attempt_id := Some (at_attempt_id source), at_resume_state_assessment := Some assessment,
           at_strategy_contract_fingerprint := fingerprint\<rparr> in
     and_then (map_err (\<lambda>_. WorkInvalidInput) (attempt_validate H a)) (\<lambda>_. Ok a)))"

definition compose_attempt ::
  "(bytes \<Rightarrow> bytes) \<Rightarrow> attempt \<Rightarrow> attempt list \<Rightarrow> (work_identity_error, attempt) result" where
  "compose_attempt H a sources =
    (if length sources < 2
        \<or> (\<exists>source \<in> set sources. at_task_id source \<noteq> at_task_id a \<or> at_attempt_id source = at_attempt_id a)
        \<or> (\<exists>source \<in> set sources. at_strategy_contract_fingerprint source = at_strategy_contract_fingerprint a)
     then Err WorkInvalidInput
     else
     let composed = sort_dedup (map at_attempt_id sources) in
     if length composed \<noteq> length sources then Err WorkInvalidInput
     else
     and_then (map_err (\<lambda>_. WorkInvalidInput) (strategy_contract_fingerprint H (at_strategy_contract a))) (\<lambda>fingerprint.
     let a = a\<lparr>at_composed_from_attempt_ids := composed, at_strategy_contract_fingerprint := fingerprint\<rparr> in
     and_then (map_err (\<lambda>_. WorkInvalidInput) (attempt_validate H a)) (\<lambda>_. Ok a)))"

definition new_attempt ::
  "(bytes \<Rightarrow> bytes) \<Rightarrow> attempt_id \<Rightarrow> revision_id \<Rightarrow> task_id \<Rightarrow> workstream_id \<Rightarrow> repository_id option
    \<Rightarrow> worktree_id list \<Rightarrow> execution_lane_id list \<Rightarrow> strategy_contract \<Rightarrow> u64
    \<Rightarrow> (work_identity_error, attempt) result" where
  "new_attempt H new_id new_revision task_id workstream_id repository_instance_id worktree_instance_ids
      execution_lane_ids strategy_contract source_watermark =
    and_then (map_err (\<lambda>_. WorkInvalidInput) (strategy_contract_fingerprint H strategy_contract)) (\<lambda>fingerprint.
    let a = \<lparr>at_attempt_id = new_id, at_revision_id = new_revision, at_predecessor_revision_id = None,
          at_revision_generation = 1, at_task_id = task_id, at_workstream_id = workstream_id, at_episode_id = None,
          at_repository_instance_id = repository_instance_id, at_worktree_instance_ids = worktree_instance_ids,
          at_execution_lane_ids = execution_lane_ids, at_competing_group_ids = [], at_experiment_run_ids = [],
          at_execution_status = ExecProposed, at_adoption_status = AdoptionNone,
          at_verification = VerificationUnverified, at_lifecycle_status = AttemptActive,
          at_strategy_contract = strategy_contract, at_strategy_contract_fingerprint = fingerprint,
          at_resumes_from_attempt_id = None, at_composed_from_attempt_ids = [], at_resume_event_refs = [],
          at_resume_state_assessment = None, at_resume_source_snapshot_id = None, at_resume_target_snapshot_id = None,
          at_worktree_transition_refs = [], at_integration_event_refs = [], at_recovery_bundle_refs = [],
          at_recovery_application_refs = [], at_work_binding_revision_refs = [], at_local_outcome_refs = [],
          at_parent_verification_refs = [], at_outcome_refs = [], at_outcome_state = OutcomeUnknown,
          at_interruption_refs = [], at_interruption_reason = None, at_explicit_abandon_refs = [],
          at_supersede_evidence_refs = [], at_failure_signature = None, at_source_watermark = source_watermark\<rparr> in
    and_then (map_err (\<lambda>_. WorkInvalidInput) (attempt_validate H a)) (\<lambda>_. Ok a))"

section \<open>Competing groups\<close>

definition create_competing_group ::
  "work_command_context \<Rightarrow> competing_attempt_group \<Rightarrow> (work_identity_error, journal_command) result" where
  "create_competing_group context g =
    (if cg_revision_generation g \<noteq> 1 \<or> cg_resolution_status g \<noteq> ResolutionOpen then Err WorkInvalidInput
     else group_command context g)"

definition resolve_competing_group ::
  "revision_id \<Rightarrow> work_command_context \<Rightarrow> competing_attempt_group \<Rightarrow> competing_resolution_status
    \<Rightarrow> attempt_id option \<Rightarrow> attempt_id list \<Rightarrow> string list \<Rightarrow> u64
    \<Rightarrow> (work_identity_error, journal_command option) result" where
  "resolve_competing_group new_revision context current status selected_attempt_id partial evidence_refs source_watermark =
    (if cg_resolution_status current = status \<and> cg_selected_attempt_id current = selected_attempt_id
        \<and> cg_partially_integrated_attempt_ids current = partial
        \<and> cg_resolution_evidence_refs current = evidence_refs
     then Ok None
     else if source_watermark \<le> cg_source_watermark current then Err WorkInvalidInput
     else
     and_then (ok_or WorkInvalidInput (checked_add (cg_revision_generation current) 1)) (\<lambda>generation.
     let next = current\<lparr>cg_predecessor_revision_id := Some (cg_revision_id current), cg_revision_id := new_revision,
           cg_revision_generation := generation, cg_resolution_status := status,
           cg_selected_attempt_id := selected_attempt_id, cg_partially_integrated_attempt_ids := partial,
           cg_resolution_evidence_refs := evidence_refs, cg_source_watermark := source_watermark\<rparr> in
     and_then (map_err (\<lambda>_. WorkInvalidInput) (competing_attempt_group_validate_successor current next)) (\<lambda>_.
     and_then (group_command context next) (\<lambda>c. Ok (Some c)))))"

definition record_attempt_and_group ::
  "(bytes \<Rightarrow> bytes) \<Rightarrow> work_command_context \<Rightarrow> attempt list \<Rightarrow> competing_attempt_group
    \<Rightarrow> (work_identity_error, journal_command) result" where
  "record_attempt_and_group H context attempts g =
    and_then (for_each (\<lambda>a. map_err (\<lambda>_. WorkInvalidInput) (attempt_validate H a)) attempts) (\<lambda>_.
    and_then (map_err (\<lambda>_. WorkInvalidInput) (competing_attempt_group_validate g)) (\<lambda>_.
    context_command context (map AttemptRecorded attempts @ [CompetingAttemptGroupRecorded g])))"

section \<open>Marking a new attempt\<close>

text \<open>
  The attempts of a snapshot are read from its rows. Reading a payload from its JSON text is
  \<open>serde_json\<close>, an argument \<open>from_json\<close>; payloads outside \<open>work_payload\<close> are \<open>None\<close>, which the code
  refuses here like a text that does not parse.
\<close>

definition current_attempt_from_lineage ::
  "(bytes \<Rightarrow> bytes) \<Rightarrow> attempt list \<Rightarrow> (store_error, attempt) result" where
  "current_attempt_from_lineage H revisions =
    (let revisions = sort_key at_revision_generation revisions in
     and_then (chain_check (\<lambda>a. is_ok (attempt_validate H a)) at_revision_generation at_predecessor_revision_id
        at_revision_id (\<lambda>p a. is_ok (attempt_validate_successor H p a)) None 0 revisions) (\<lambda>_.
     ok_or StoreCorrupt (deque_back revisions)))"

record mark_new_attempt_current_view =
  mv_frontier :: u64
  mv_source :: attempt
  mv_existing_child :: "attempt option"

definition first_child_of :: "attempt_id \<Rightarrow> attempt \<Rightarrow> bool" where
  "first_child_of source_id a \<longleftrightarrow> at_revision_generation a = 1 \<and> at_predecessor_revision_id a = None
    \<and> at_resumes_from_attempt_id a = Some source_id"

definition attempt_row_id :: "uuid_lib \<Rightarrow> revision_id \<Rightarrow> string" where
  "attempt_row_id lib r = ''object:work:attempt:'' @ revision_id_to_string lib r"

definition row_attempt :: "(string \<Rightarrow> work_payload option) \<Rightarrow> object_row \<Rightarrow> (store_error, attempt) result" where
  "row_attempt from_json row =
    and_then (ok_or StoreCorrupt (or_payload_json row)) (\<lambda>json.
    and_then (ok_or StoreCorrupt (from_json (row_payload_as_str json))) (\<lambda>payload.
    case payload of AttemptRecorded a \<Rightarrow> Ok a | _ \<Rightarrow> Err StoreCorrupt))"

definition attempt_rows :: "projection_snapshot \<Rightarrow> object_row list" where
  "attempt_rows snapshot = filter (\<lambda>row. or_object_kind row = Some ''attempt'') (data_rows snapshot)"

text \<open>The first loop collects the revisions of the source and the least attempt that resumes it.\<close>

fun source_row_step ::
  "uuid_lib \<Rightarrow> (string \<Rightarrow> work_payload option) \<Rightarrow> attempt_id \<Rightarrow> attempt list \<times> attempt_id option \<Rightarrow> object_row
    \<Rightarrow> (store_error, attempt list \<times> attempt_id option) result" where
  "source_row_step lib from_json source_id (revisions, child) row =
    and_then (row_attempt from_json row) (\<lambda>value.
    if or_row_id row \<noteq> attempt_row_id lib (at_revision_id value) then Err StoreCorrupt
    else if or_object_id row = Some (uuid_id_to_string lib ''att'' source_id)
    then (if at_attempt_id value \<noteq> source_id then Err StoreCorrupt else Ok (revisions @ [value], child))
    else if first_child_of source_id value
    then Ok (revisions, Some (case child of None \<Rightarrow> at_attempt_id value | Some c \<Rightarrow> min c (at_attempt_id value)))
    else Ok (revisions, child))"

text \<open>The second loop collects the revisions of that child.\<close>

definition child_row_step ::
  "uuid_lib \<Rightarrow> (string \<Rightarrow> work_payload option) \<Rightarrow> attempt_id \<Rightarrow> attempt list \<Rightarrow> object_row
    \<Rightarrow> (store_error, attempt list) result" where
  "child_row_step lib from_json child_id revisions row =
    and_then (row_attempt from_json row) (\<lambda>value.
    if at_attempt_id value \<noteq> child_id \<or> or_row_id row \<noteq> attempt_row_id lib (at_revision_id value)
    then Err StoreCorrupt else Ok (revisions @ [value]))"

definition for_expected_source ::
  "(bytes \<Rightarrow> bytes) \<Rightarrow> uuid_lib \<Rightarrow> (string \<Rightarrow> work_payload option) \<Rightarrow> projection_snapshot \<Rightarrow> revision_id
    \<Rightarrow> (store_error, mark_new_attempt_current_view option) result" where
  "for_expected_source H lib from_json snapshot expected_revision_id =
    (case find (\<lambda>row. or_row_id row = attempt_row_id lib expected_revision_id) (data_rows snapshot) of
      None \<Rightarrow> Ok None
    | Some expected_row \<Rightarrow>
        and_then (row_attempt from_json expected_row) (\<lambda>expected_attempt.
        if or_object_kind expected_row \<noteq> Some ''attempt''
           \<or> or_object_id expected_row \<noteq> Some (uuid_id_to_string lib ''att'' (at_attempt_id expected_attempt))
           \<or> at_revision_id expected_attempt \<noteq> expected_revision_id
           \<or> \<not> is_ok (attempt_validate H expected_attempt)
        then Err StoreCorrupt
        else
        let source_id = at_attempt_id expected_attempt in
        and_then (replay (source_row_step lib from_json source_id) ([], None) (attempt_rows snapshot))
          (\<lambda>(source_revisions, child_id).
        and_then (current_attempt_from_lineage H source_revisions) (\<lambda>source.
        and_then (case child_id of
            None \<Rightarrow> Ok None
          | Some i \<Rightarrow>
              and_then (replay (child_row_step lib from_json i) []
                (filter (\<lambda>row. or_object_id row = Some (uuid_id_to_string lib ''att'' i)) (attempt_rows snapshot)))
                (\<lambda>revisions.
              and_then (current_attempt_from_lineage H revisions) (\<lambda>child. Ok (Some child)))) (\<lambda>existing_child.
        Ok (Some \<lparr>mv_frontier = ps_frontier snapshot, mv_source = source, mv_existing_child = existing_child\<rparr>))))))"

definition select_mark_new_attempt ::
  "(bytes \<Rightarrow> bytes) \<Rightarrow> uuid_lib \<Rightarrow> (string \<Rightarrow> work_payload option) \<Rightarrow> projection_snapshot \<Rightarrow> revision_id
    \<Rightarrow> (work_identity_error, mark_new_attempt_lookup) result" where
  "select_mark_new_attempt H lib from_json snapshot expected_revision_id =
    and_then (map_err WorkStore (for_expected_source H lib from_json snapshot expected_revision_id)) (\<lambda>found.
    and_then (ok_or WorkInvalidInput found) (\<lambda>current.
    if at_revision_id (mv_source current) \<noteq> expected_revision_id
    then Ok (MarkLookupConflict (at_revision_id (mv_source current)))
    else case mv_existing_child current of
      Some child \<Rightarrow> Ok (MarkLookupNoDelta (at_revision_id child))
    | None \<Rightarrow>
        if at_lifecycle_status (mv_source current) \<noteq> AttemptActive
           \<or> at_execution_status (mv_source current) \<noteq> ExecInterrupted
        then Ok (MarkLookupUnavailable ''attempt_not_active_interrupted'')
        else Ok (MarkAvailable (mv_source current))))"

definition mark_new_attempt ::
  "(bytes \<Rightarrow> bytes) \<Rightarrow> uuid_lib \<Rightarrow> (string \<Rightarrow> work_payload option) \<Rightarrow> attempt_id \<Rightarrow> revision_id \<Rightarrow> work_command_context
    \<Rightarrow> projection_snapshot \<Rightarrow> revision_id \<Rightarrow> (work_identity_error, mark_new_attempt_resolution) result" where
  "mark_new_attempt H lib from_json new_id new_revision context snapshot expected_revision_id =
    and_then (select_mark_new_attempt H lib from_json snapshot expected_revision_id) (\<lambda>found. case found of
      MarkLookupConflict r \<Rightarrow> Ok (MarkConflict r)
    | MarkLookupNoDelta r \<Rightarrow> Ok (MarkNoDelta r)
    | MarkLookupUnavailable reason \<Rightarrow> Ok (MarkUnavailable reason)
    | MarkAvailable source \<Rightarrow>
        and_then (new_attempt H new_id new_revision (at_task_id source) (at_workstream_id source)
          (at_repository_instance_id source) (at_worktree_instance_ids source) [] (at_strategy_contract source)
          (ps_frontier snapshot)) (\<lambda>child.
        let child = child\<lparr>at_resume_event_refs := [revision_id_to_string lib (at_revision_id source)]\<rparr> in
        and_then (create_resume_attempt H child source ResumeUnknown) (\<lambda>child.
        and_then (attempt_command_with_source H context child SourceManual) (\<lambda>command.
        Ok (MarkRevision child command)))))"

definition canonical_mark_new_attempt_child ::
  "(bytes \<Rightarrow> bytes) \<Rightarrow> uuid_lib \<Rightarrow> attempt \<Rightarrow> attempt \<Rightarrow> u64 \<Rightarrow> (store_error, attempt) result" where
  "canonical_mark_new_attempt_child H lib source candidate source_watermark =
    (let child = \<lparr>at_attempt_id = at_attempt_id candidate, at_revision_id = at_revision_id candidate,
          at_predecessor_revision_id = None, at_revision_generation = 1,
          at_task_id = at_task_id source, at_workstream_id = at_workstream_id source, at_episode_id = None,
          at_repository_instance_id = at_repository_instance_id source,
          at_worktree_instance_ids = at_worktree_instance_ids source,
          at_execution_lane_ids = [], at_competing_group_ids = [], at_experiment_run_ids = [],
          at_execution_status = ExecProposed, at_adoption_status = AdoptionNone,
          at_verification = VerificationUnverified, at_lifecycle_status = AttemptActive,
          at_strategy_contract = at_strategy_contract source,
          at_strategy_contract_fingerprint = at_strategy_contract_fingerprint source,
          at_resumes_from_attempt_id = Some (at_attempt_id source), at_composed_from_attempt_ids = [],
          at_resume_event_refs = [revision_id_to_string lib (at_revision_id source)],
          at_resume_state_assessment = Some ResumeUnknown, at_resume_source_snapshot_id = None,
          at_resume_target_snapshot_id = None, at_worktree_transition_refs = [], at_integration_event_refs = [],
          at_recovery_bundle_refs = [], at_recovery_application_refs = [], at_work_binding_revision_refs = [],
          at_local_outcome_refs = [], at_parent_verification_refs = [], at_outcome_refs = [],
          at_outcome_state = OutcomeUnknown, at_interruption_refs = [], at_interruption_reason = None,
          at_explicit_abandon_refs = [], at_supersede_evidence_refs = [], at_failure_signature = None,
          at_source_watermark = source_watermark\<rparr> in
     and_then (map_err (\<lambda>_. StoreCorrupt) (attempt_validate H child)) (\<lambda>_. Ok child))"

definition manual_attempts :: "(work_payload \<times> source_kind) list \<Rightarrow> attempt list" where
  "manual_attempts payloads = List.map_filter (\<lambda>(payload, source_kind). case payload of
      AttemptRecorded a \<Rightarrow> if source_kind = SourceManual then Some a else None
    | _ \<Rightarrow> None) payloads"

text \<open>The revision a marked attempt names: its only resume event, if that is a revision identifier.\<close>

definition marked_source_revision :: "uuid_lib \<Rightarrow> attempt \<Rightarrow> (store_error, revision_id) result" where
  "marked_source_revision lib child = (case at_resume_event_refs child of
      [value] \<Rightarrow> map_err (\<lambda>_. StoreCorrupt) (revision_id_from_str lib value)
    | _ \<Rightarrow> Err StoreCorrupt)"

definition validate_mark_new_attempt_command ::
  "(bytes \<Rightarrow> bytes) \<Rightarrow> uuid_lib \<Rightarrow> episode_tables \<Rightarrow> u64 \<Rightarrow> (work_payload \<times> source_kind) list
    \<Rightarrow> (store_error, unit) result" where
  "validate_mark_new_attempt_command H lib t frontier payloads =
    (case manual_attempts payloads of
      [] \<Rightarrow> Ok ()
    | child # others \<Rightarrow>
        if length payloads \<noteq> 1 \<or> others \<noteq> [] then Err StoreCorrupt
        else
        and_then (marked_source_revision lib child) (\<lambda>source_revision_id.
        and_then (fetch (et_attempt_revisions t) source_revision_id) (\<lambda>source.
        if at_revision_id source \<noteq> source_revision_id
           \<or> at_resumes_from_attempt_id child \<noteq> Some (at_attempt_id source)
           \<or> \<not> is_some_and (\<lambda>(current, _). current = source) (btm_get (et_attempts t) (at_attempt_id source))
           \<or> at_lifecycle_status source \<noteq> AttemptActive
           \<or> at_execution_status source \<noteq> ExecInterrupted
           \<or> (\<exists>(a, _) \<in> set (btm_values (et_attempt_revisions t)). first_child_of (at_attempt_id source) a)
        then Err StoreCorrupt
        else
        and_then (canonical_mark_new_attempt_child H lib source child frontier) (\<lambda>expected.
        if child \<noteq> expected then Err StoreCorrupt else Ok ()))))"

section \<open>Revisions the engine builds are accepted\<close>

lemma attempt_successorE:
  assumes "attempt_successor new_revision current watermark = Ok next"
  obtains g where "checked_add (at_revision_generation current) 1 = Some g" and "at_source_watermark current < watermark"
    and "next = current\<lparr>at_predecessor_revision_id := Some (at_revision_id current), at_revision_id := new_revision,
      at_revision_generation := g, at_source_watermark := watermark\<rparr>"
  using assms by (auto simp: attempt_successor_def and_then_Inr_iff ok_or_Inr_iff split: if_splits)

lemma validated_revisionD:
  "validated_revision H a = Ok (AttemptRevision b) \<Longrightarrow> b = a \<and> attempt_validate H b = Ok ()"
  by (auto simp: validated_revision_def then_unit_iff map_err_Inr_iff)

text \<open>
  What is left to show of a revision built on \<open>attempt_successor\<close>: it is valid, retains the
  references and makes allowed transitions.
\<close>

lemma successor_accepted_iff:
  assumes "attempt_successor new_revision current watermark = Ok next" and "attempt_validate H current = Ok ()"
    and "new_revision \<noteq> at_revision_id current" and "attempt_validate H b = Ok ()"
    and "attempt_identity b = attempt_identity next"
    and "at_revision_id b = at_revision_id next" and "at_revision_generation b = at_revision_generation next"
    and "at_predecessor_revision_id b = at_predecessor_revision_id next"
    and "at_episode_id b = at_episode_id next" and "at_source_watermark b = at_source_watermark next"
    and "at_worktree_instance_ids b = at_worktree_instance_ids next"
  shows "attempt_validate_successor H current b = Ok () \<longleftrightarrow>
    attempt_retains current b
    \<and> attempt_execution_ok (at_execution_status current) (at_execution_status b)
    \<and> attempt_adoption_ok (at_adoption_status current) (at_adoption_status b)
    \<and> attempt_verification_ok (at_verification current) (at_verification b)
    \<and> (at_lifecycle_status current = at_lifecycle_status b
      \<or> at_lifecycle_status current = AttemptActive \<and> at_lifecycle_status b = AttemptSuperseded)
    \<and> attempt_resume_ok current b"
proof -
  obtain g where g: "checked_add (at_revision_generation current) 1 = Some g"
    and w: "at_source_watermark current < watermark"
    and n: "next = current\<lparr>at_predecessor_revision_id := Some (at_revision_id current), at_revision_id := new_revision,
      at_revision_generation := g, at_source_watermark := watermark\<rparr>"
    by (rule attempt_successorE [OF assms(1)])
  have f: "at_attempt_id b = at_attempt_id current" "at_task_id b = at_task_id current"
      "at_workstream_id b = at_workstream_id current" "at_repository_instance_id b = at_repository_instance_id current"
      "at_strategy_contract b = at_strategy_contract current"
      "at_strategy_contract_fingerprint b = at_strategy_contract_fingerprint current"
      "at_resumes_from_attempt_id b = at_resumes_from_attempt_id current"
      "at_composed_from_attempt_ids b = at_composed_from_attempt_ids current"
      "at_revision_id b = new_revision" "at_predecessor_revision_id b = Some (at_revision_id current)"
      "at_episode_id b = at_episode_id current" "at_source_watermark b = watermark"
      "at_worktree_instance_ids b = at_worktree_instance_ids current"
      "checked_add (at_revision_generation current) 1 = Some (at_revision_generation b)"
    using assms(5-11) g by (simp_all add: n attempt_identity_def)
  have "attempt_worktree_growth_ok current b" by (simp add: attempt_worktree_growth_ok_def f(13))
  moreover have "(watermark \<le> at_source_watermark current) = False" using w by simp
  ultimately show ?thesis
    unfolding attempt_validate_successor_def
    using assms(2,3,4) f by (cases "at_episode_id current") (simp_all add: ok_or_def)
qed

lemma attempt_successor_shape:
  assumes "attempt_successor r a w = Ok n"
  shows "\<exists>g. n = a\<lparr>at_predecessor_revision_id := Some (at_revision_id a), at_revision_id := r,
    at_revision_generation := g, at_source_watermark := w\<rparr>"
  by (rule attempt_successorE [OF assms]) blast

text \<open>The three plain kinds of revision, each as the engine returns it.\<close>

inductive engine_revision :: "(bytes \<Rightarrow> bytes) \<Rightarrow> revision_id \<Rightarrow> attempt \<Rightarrow> attempt \<Rightarrow> bool" where
  execution: "revise_execution H r a status lanes interruptions reason abandons w = Ok (AttemptRevision b)
    \<Longrightarrow> engine_revision H r a b"
| adoption: "revise_adoption H r a status' events w = Ok (AttemptRevision b) \<Longrightarrow> engine_revision H r a b"
| verification: "revise_verification H r a verdict refs w = Ok (AttemptRevision b) \<Longrightarrow> engine_revision H r a b"

lemma engine_revision_accepted:
  assumes "engine_revision H r a b" and valid: "attempt_validate H a = Ok ()" and fresh: "r \<noteq> at_revision_id a"
  shows "attempt_validate_successor H a b = Ok () \<and> at_revision_id b = r"
  using assms
proof (induction rule: engine_revision.induct)
  case (execution H r a status lanes interruptions reason abandons w b)
  then obtain n where n: "attempt_successor r a w = Ok n" and allowed: "execution_change_allowed (at_execution_status a) status"
    and b: "validated_revision H (n\<lparr>at_execution_status := status,
       at_execution_lane_ids := sort_dedup (at_execution_lane_ids n @ lanes),
       at_interruption_refs := sort_dedup (at_interruption_refs n @ interruptions),
       at_interruption_reason := (case reason of None \<Rightarrow> at_interruption_reason a | Some r \<Rightarrow> Some r),
       at_explicit_abandon_refs := sort_dedup (at_explicit_abandon_refs n @ abandons),
       at_outcome_state := (if status = ExecInterrupted then OutcomeUnknown else at_outcome_state n)\<rparr>) = Ok (AttemptRevision b)"
    by (auto simp: revise_execution_def and_then_Inr_iff split: if_splits)
  note v = validated_revisionD [OF b, THEN conjunct2] and b = validated_revisionD [OF b, THEN conjunct1]
  obtain g where g: "n = a\<lparr>at_predecessor_revision_id := Some (at_revision_id a), at_revision_id := r,
      at_revision_generation := g, at_source_watermark := w\<rparr>"
    using attempt_successor_shape [OF n] by blast
  have "\<not> (at_execution_status a = ExecInterrupted \<and> status = ExecActive)"
      "attempt_execution_ok (at_execution_status a) (at_execution_status b)"
    using allowed b by (auto simp: execution_change_allowed_def attempt_execution_ok_def g)
  then have "attempt_validate_successor H a b = Ok ()"
    by (intro successor_accepted_iff [OF n execution(2,3) v, THEN iffD2] conjI)
      (use b in \<open>simp_all add: g attempt_identity_def attempt_retains_def retains_def attempt_resume_ok_def
        attempt_reopening_def attempt_adoption_ok_def attempt_verification_ok_def\<close>)
  then show ?case by (simp add: b g)
next
  case (adoption H r a status events w b)
  then obtain n where n: "attempt_successor r a w = Ok n" and allowed: "adoption_change_allowed (at_adoption_status a) status"
    and b: "validated_revision H (n\<lparr>at_adoption_status := status,
       at_integration_event_refs := sort_dedup (at_integration_event_refs n @ events)\<rparr>) = Ok (AttemptRevision b)"
    by (auto simp: revise_adoption_def and_then_Inr_iff split: if_splits)
  note v = validated_revisionD [OF b, THEN conjunct2] and b = validated_revisionD [OF b, THEN conjunct1]
  obtain g where g: "n = a\<lparr>at_predecessor_revision_id := Some (at_revision_id a), at_revision_id := r,
      at_revision_generation := g, at_source_watermark := w\<rparr>"
    using attempt_successor_shape [OF n] by blast
  have "attempt_adoption_ok (at_adoption_status a) (at_adoption_status b)"
    using allowed b by (auto simp: adoption_change_allowed_def attempt_adoption_ok_def g)
  then have "attempt_validate_successor H a b = Ok ()"
    by (intro successor_accepted_iff [OF n adoption(2,3) v, THEN iffD2] conjI)
      (use b in \<open>simp_all add: g attempt_identity_def attempt_retains_def retains_def attempt_resume_ok_def
        attempt_reopening_def attempt_execution_ok_def attempt_verification_ok_def\<close>)
  then show ?case by (simp add: b g)
next
  case (verification H r a verdict refs w b)
  then obtain n where n: "attempt_successor r a w = Ok n" and allowed: "verification_change_allowed (at_verification a) verdict"
    and b: "validated_revision H (n\<lparr>at_verification := verdict,
       at_parent_verification_refs := sort_dedup (at_parent_verification_refs n @ refs)\<rparr>) = Ok (AttemptRevision b)"
    by (auto simp: revise_verification_def and_then_Inr_iff split: if_splits)
  note v = validated_revisionD [OF b, THEN conjunct2] and b = validated_revisionD [OF b, THEN conjunct1]
  obtain g where g: "n = a\<lparr>at_predecessor_revision_id := Some (at_revision_id a), at_revision_id := r,
      at_revision_generation := g, at_source_watermark := w\<rparr>"
    using attempt_successor_shape [OF n] by blast
  have "attempt_verification_ok (at_verification a) (at_verification b)"
    using allowed b by (auto simp: verification_change_allowed_def attempt_verification_ok_def g)
  then have "attempt_validate_successor H a b = Ok ()"
    by (intro successor_accepted_iff [OF n verification(2,3) v, THEN iffD2] conjI)
      (use b in \<open>simp_all add: g attempt_identity_def attempt_retains_def retains_def attempt_resume_ok_def
        attempt_reopening_def attempt_execution_ok_def attempt_adoption_ok_def\<close>)
  then show ?case by (simp add: b g)
qed

text \<open>
  Revisions of execution, adoption and verification that the engine builds for a valid
  attempt can always be stored: with an identifier that is not in use, recording the revision
  succeeds and makes it the current one.
\<close>

theorem engine_revisions_recorded:
  assumes "engine_revision H r a b" and "attempt_validate H a = Ok ()"
    and "current (at_attempt_id a) = Some (a, s)" and "revisions (at_revision_id a) \<noteq> None" and "revisions r = None"
  shows "record_attempt H current revisions b seq
    = Ok (current(at_attempt_id a \<mapsto> (b, seq)), revisions(r \<mapsto> (b, seq)))"
proof -
  have "r \<noteq> at_revision_id a" using assms(4,5) by auto
  note ok = conjunct1 [OF engine_revision_accepted [OF assms(1,2) this]] conjunct2 [OF engine_revision_accepted [OF assms(1,2) this]]
  have "at_attempt_id b = at_attempt_id a" using attempt_successor_facts(1) [OF ok(1)] by (simp add: attempt_identity_def)
  moreover have "a \<noteq> b" using \<open>r \<noteq> at_revision_id a\<close> ok(2) by auto
  ultimately show ?thesis
    using assms(3,5) ok by (simp add: record_attempt_def replace_attempt_def)
qed

text \<open>
  Two operations build revisions that the store may refuse. Superseding replaces the
  evidence, so superseding an already superseded attempt is stored only if the new evidence
  repeats the old. Resuming takes any resume events, but is stored only if one of them is new.
\<close>

theorem supersede_and_resume_exact:
  assumes "attempt_validate H a = Ok ()" and "r \<noteq> at_revision_id a"
  shows "(supersede_attempt H r a evidence w = Ok (AttemptRevision b) \<longrightarrow>
      (attempt_validate_successor H a b = Ok () \<longleftrightarrow> set (at_supersede_evidence_refs a) \<subseteq> set evidence))
    \<and> (resume_same_attempt H r a lane assessment events source target transitions w = Ok c \<longrightarrow>
      (attempt_validate_successor H a c = Ok () \<longleftrightarrow> \<not> set events \<subseteq> set (at_resume_event_refs a)))"
proof (intro conjI impI)
  assume "supersede_attempt H r a evidence w = Ok (AttemptRevision b)"
  then obtain n where n: "attempt_successor r a w = Ok n"
    and b: "validated_revision H (n\<lparr>at_lifecycle_status := AttemptSuperseded,
       at_supersede_evidence_refs := evidence\<rparr>) = Ok (AttemptRevision b)"
    by (auto simp: supersede_attempt_def and_then_Inr_iff split: if_splits)
  note v = validated_revisionD [OF b, THEN conjunct2] and b = validated_revisionD [OF b, THEN conjunct1]
  obtain g where g: "n = a\<lparr>at_predecessor_revision_id := Some (at_revision_id a), at_revision_id := r,
      at_revision_generation := g, at_source_watermark := w\<rparr>"
    using attempt_successor_shape [OF n] by blast
  have l: "at_lifecycle_status a = AttemptSuperseded \<or> at_lifecycle_status a = AttemptActive"
    by (cases "at_lifecycle_status a") simp_all
  have "attempt_validate_successor H a b = Ok () \<longleftrightarrow> attempt_retains a b \<and> attempt_resume_ok a b"
    by (subst successor_accepted_iff [OF n assms v])
      (use b l in \<open>simp_all add: g attempt_identity_def attempt_execution_ok_def attempt_adoption_ok_def
        attempt_verification_ok_def\<close>)
  then show "attempt_validate_successor H a b = Ok () \<longleftrightarrow> set (at_supersede_evidence_refs a) \<subseteq> set evidence"
    by (auto simp: b g attempt_retains_def retains_def attempt_resume_ok_def attempt_reopening_def)
next
  assume "resume_same_attempt H r a lane assessment events source target transitions w = Ok c"
  then obtain n where n: "attempt_successor r a w = Ok n"
    and c: "c = n\<lparr>at_execution_status := ExecActive,
           at_execution_lane_ids := sort_dedup (at_execution_lane_ids n @ [lane]),
           at_resume_state_assessment := Some assessment,
           at_resume_event_refs := sort_dedup (at_resume_event_refs n @ events),
           at_resume_source_snapshot_id := source,
           at_resume_target_snapshot_id := Some target,
           at_worktree_transition_refs := sort_dedup (at_worktree_transition_refs n @ transitions)\<rparr>"
    and v: "attempt_validate H c = Ok ()" and i: "at_execution_status a = ExecInterrupted"
    and l: "lane \<notin> set (at_execution_lane_ids a)"
    and s: "assessment \<in> {ResumeCompatibleSameInstance, ResumeCompatibleLineageTransfer}"
    by (auto simp: resume_same_attempt_def and_then_Inr_iff map_err_Inr_iff Let_def split: if_splits)
  obtain g where g: "n = a\<lparr>at_predecessor_revision_id := Some (at_revision_id a), at_revision_id := r,
      at_revision_generation := g, at_source_watermark := w\<rparr>"
    using attempt_successor_shape [OF n] by blast
  have "attempt_validate_successor H a c = Ok () \<longleftrightarrow> attempt_retains a c \<and> attempt_resume_ok a c"
    by (subst successor_accepted_iff [OF n assms v])
      (use c i in \<open>simp_all add: g attempt_identity_def attempt_execution_ok_def attempt_adoption_ok_def
        attempt_verification_ok_def\<close>)
  moreover have "attempt_retains a c" by (simp add: c g attempt_retains_def retains_def)
  moreover have "attempt_resume_ok a c \<longleftrightarrow> \<not> set events \<subseteq> set (at_resume_event_refs a)"
    using i l s by (auto simp: c g attempt_resume_ok_def attempt_reopening_def)
  ultimately show "attempt_validate_successor H a c = Ok () \<longleftrightarrow> \<not> set events \<subseteq> set (at_resume_event_refs a)"
    by blast
qed

section \<open>Marking a new attempt, engine and store\<close>

text \<open>
  The attempts a snapshot holds: the rows of attempts carry them, under the identifiers the store
  writes.
\<close>

definition attempt_row :: "uuid_lib \<Rightarrow> (string \<Rightarrow> work_payload option) \<Rightarrow> object_row \<Rightarrow> attempt \<Rightarrow> bool" where
  "attempt_row lib from_json row a \<longleftrightarrow> row_attempt from_json row = Ok a
    \<and> or_row_id row = attempt_row_id lib (at_revision_id a)
    \<and> or_object_id row = Some (uuid_id_to_string lib ''att'' (at_attempt_id a))"

definition rows_hold :: "uuid_lib \<Rightarrow> (string \<Rightarrow> work_payload option) \<Rightarrow> projection_snapshot \<Rightarrow> attempt list \<Rightarrow> bool" where
  "rows_hold lib from_json snapshot attempts \<longleftrightarrow>
    list_all2 (attempt_row lib from_json) (attempt_rows snapshot) attempts
    \<and> (\<forall>row \<in> set (data_rows snapshot). \<forall>r. or_row_id row = attempt_row_id lib r \<longrightarrow> or_object_kind row = Some ''attempt'')"

definition min_option :: "'a::linorder list \<Rightarrow> 'a option" where
  "min_option xs = (if xs = [] then None else Some (Min (set xs)))"

text \<open>The view of the expected source as a function of the attempts.\<close>

definition expected_source_view ::
  "(bytes \<Rightarrow> bytes) \<Rightarrow> u64 \<Rightarrow> attempt list \<Rightarrow> revision_id
    \<Rightarrow> (store_error, mark_new_attempt_current_view option) result" where
  "expected_source_view H frontier attempts expected_revision_id =
    (case find (\<lambda>a. at_revision_id a = expected_revision_id) attempts of
      None \<Rightarrow> Ok None
    | Some expected_attempt \<Rightarrow>
        if \<not> is_ok (attempt_validate H expected_attempt) then Err StoreCorrupt
        else
        let source_id = at_attempt_id expected_attempt;
            source_revisions = filter (\<lambda>a. at_attempt_id a = source_id) attempts;
            child_id = min_option (map at_attempt_id
              (filter (\<lambda>a. at_attempt_id a \<noteq> source_id \<and> first_child_of source_id a) attempts))
        in
        and_then (current_attempt_from_lineage H source_revisions) (\<lambda>source.
        and_then (case child_id of
            None \<Rightarrow> Ok None
          | Some i \<Rightarrow> and_then (current_attempt_from_lineage H (filter (\<lambda>a. at_attempt_id a = i) attempts))
              (\<lambda>child. Ok (Some child))) (\<lambda>existing_child.
        Ok (Some \<lparr>mv_frontier = frontier, mv_source = source, mv_existing_child = existing_child\<rparr>))))"

lemma find_filter: "(\<And>x. x \<in> set xs \<Longrightarrow> P x \<Longrightarrow> Q x) \<Longrightarrow> find P (filter Q xs) = find P xs"
  by (induction xs) auto

lemma find_all2:
  assumes "list_all2 R xs ys" and "\<And>x y. R x y \<Longrightarrow> P x = Q y"
  shows "rel_option R (find P xs) (find Q ys)"
  using assms by (induction rule: list_all2_induct) auto

lemma all2_filter:
  assumes "list_all2 R xs ys" and "\<And>x y. R x y \<Longrightarrow> P x = Q y"
  shows "list_all2 R (filter P xs) (filter Q ys)"
  using assms by (induction rule: list_all2_induct) auto

lemma attempt_texts_inject:
  assumes "uuid_lib_ok lib"
  shows "uuid_id_to_string lib ''att'' a = uuid_id_to_string lib ''att'' b \<longleftrightarrow> a = b"
    and "attempt_row_id lib r = attempt_row_id lib r' \<longleftrightarrow> r = r'"
proof -
  have "hyphenated lib u = hyphenated lib v \<longleftrightarrow> u = v" for u v
    using assms unfolding uuid_lib_ok_def by (metis option.inject)
  then show "uuid_id_to_string lib ''att'' a = uuid_id_to_string lib ''att'' b \<longleftrightarrow> a = b"
    and "attempt_row_id lib r = attempt_row_id lib r' \<longleftrightarrow> r = r'"
    by (simp_all add: uuid_id_to_string_def attempt_row_id_def revision_id_to_string_def)
qed

definition least_seen :: "'a::linorder option \<Rightarrow> 'a list \<Rightarrow> 'a option" where
  "least_seen child xs = min_option (opt_iter child @ xs)"

lemma least_seen_step:
  "least_seen (Some (case child of None \<Rightarrow> x | Some c \<Rightarrow> min c x)) xs = least_seen child (x # xs)"
  by (cases child; cases xs) (simp_all add: least_seen_def min_option_def min.assoc)

lemma source_rows_replay:
  assumes "list_all2 (attempt_row lib from_json) rows attempts" and "uuid_lib_ok lib"
  shows "replay (source_row_step lib from_json source_id) (revisions, child) rows
    = Ok (revisions @ filter (\<lambda>a. at_attempt_id a = source_id) attempts,
        least_seen child (map at_attempt_id (filter (\<lambda>a. at_attempt_id a \<noteq> source_id \<and> first_child_of source_id a) attempts)))"
  using assms(1)
proof (induction arbitrary: revisions child rule: list_all2_induct)
  case Nil
  then show ?case by (cases child) (simp_all add: least_seen_def min_option_def)
next
  case (Cons row rows a attempts)
  then show ?case
    by (auto simp: attempt_row_def attempt_texts_inject [OF assms(2)] least_seen_step)
qed

lemma child_rows_replay:
  assumes "list_all2 (attempt_row lib from_json) rows attempts" and "\<forall>a \<in> set attempts. at_attempt_id a = i"
  shows "replay (child_row_step lib from_json i) revisions rows = Ok (revisions @ attempts)"
  using assms by (induction arbitrary: revisions rule: list_all2_induct) (simp_all add: child_row_step_def attempt_row_def)

lemma for_expected_source_decoded:
  assumes "rows_hold lib from_json snapshot attempts" and lib: "uuid_lib_ok lib"
  shows "for_expected_source H lib from_json snapshot r = expected_source_view H (ps_frontier snapshot) attempts r"
proof -
  have all2: "list_all2 (attempt_row lib from_json) (attempt_rows snapshot) attempts"
    using assms(1) by (simp add: rows_hold_def)
  have d: "find (\<lambda>row. or_row_id row = attempt_row_id lib r) (data_rows snapshot)
      = find (\<lambda>row. or_row_id row = attempt_row_id lib r) (attempt_rows snapshot)"
    using assms(1) unfolding attempt_rows_def rows_hold_def by (intro find_filter [symmetric]) blast
  have f: "rel_option (attempt_row lib from_json) (find (\<lambda>row. or_row_id row = attempt_row_id lib r) (attempt_rows snapshot))
      (find (\<lambda>a. at_revision_id a = r) attempts)"
    by (rule find_all2 [OF all2]) (auto simp: attempt_row_def attempt_texts_inject [OF lib])
  have "(or_object_id row = Some (uuid_id_to_string lib ''att'' i)) = (at_attempt_id a = i)"
    if "attempt_row lib from_json row a" for row a i
    using that by (auto simp: attempt_row_def attempt_texts_inject [OF lib])
  note all2_filter [OF all2 this]
  from child_rows_replay [OF this] have c: "replay (child_row_step lib from_json i) []
      (filter (\<lambda>row. or_object_id row = Some (uuid_id_to_string lib ''att'' i)) (attempt_rows snapshot))
    = Ok (filter (\<lambda>a. at_attempt_id a = i) attempts)" for i
    by simp
  show ?thesis
  proof (cases "find (\<lambda>row. or_row_id row = attempt_row_id lib r) (attempt_rows snapshot)")
    case None
    with f show ?thesis by (simp add: for_expected_source_def expected_source_view_def d)
  next
    case (Some row)
    with f obtain a where a: "find (\<lambda>a. at_revision_id a = r) attempts = Some a" "attempt_row lib from_json row a"
      by (auto simp: option_rel_Some1)
    have "row \<in> set (attempt_rows snapshot)" using Some by (auto simp: find_Some_iff)
    then have k: "or_object_kind row = Some ''attempt''" by (simp add: attempt_rows_def)
    have "at_revision_id a = r" using a(1) by (auto simp: find_Some_iff)
    with a k show ?thesis
      by (simp add: for_expected_source_def expected_source_view_def d Some attempt_row_def Let_def c least_seen_def
          source_rows_replay [OF all2 lib] split: option.split)
  qed
qed

text \<open>
  The attempts of a snapshot and the tables of the same state: the attempts are the stored
  revisions, and the current attempt is the last revision of its lineage.
\<close>

definition rows_of_tables :: "(bytes \<Rightarrow> bytes) \<Rightarrow> episode_tables \<Rightarrow> attempt list \<Rightarrow> bool" where
  "rows_of_tables H t rows \<longleftrightarrow>
    btm_sorted (et_attempt_revisions t)
    \<and> (\<forall>r a. (\<exists>s. btm_get (et_attempt_revisions t) r = Some (a, s)) \<longleftrightarrow> a \<in> set rows \<and> at_revision_id a = r)
    \<and> (\<forall>i a. a \<in> set rows \<longrightarrow> at_attempt_id a = i \<longrightarrow>
        map_option fst (btm_get (et_attempts t) i)
          = ok_option (current_attempt_from_lineage H (filter (\<lambda>x. at_attempt_id x = i) rows)))"

lemma chain_check_members:
  assumes "chain_check valid gen pred rev_id accepts prev index xs = Ok ()" and "x \<in> set xs"
  shows "valid x"
  using assms by (induction valid gen pred rev_id accepts prev index xs rule: chain_check.induct) (auto split: if_splits)

lemma current_attempt_lineageD:
  assumes "current_attempt_from_lineage H xs = Ok a"
  shows "a \<in> set xs" and "x \<in> set xs \<Longrightarrow> attempt_validate H x = Ok ()"
proof -
  let ?ys = "sort_key at_revision_generation xs"
  from assms have c: "chain_check (\<lambda>a. is_ok (attempt_validate H a)) at_revision_generation at_predecessor_revision_id
        at_revision_id (\<lambda>p a. is_ok (attempt_validate_successor H p a)) None 0 ?ys = Ok ()"
    and b: "deque_back ?ys = Some a"
    by (auto simp: current_attempt_from_lineage_def then_unit_iff ok_or_Inr_iff Let_def)
  have "?ys \<noteq> []" "a = last ?ys" using b by (simp_all add: deque_back_def split: if_splits)
  then have "a \<in> set ?ys" using last_in_set by blast
  then show "a \<in> set xs" by simp
  show "attempt_validate H x = Ok ()" if "x \<in> set xs"
    using chain_check_members [OF c, of x] that by (simp add: is_ok_unit)
qed

text \<open>What the engine has found when it may mark a new attempt.\<close>

lemma select_mark_availableD:
  assumes "select_mark_new_attempt H lib from_json snapshot r = Ok (MarkAvailable a)"
    and "rows_hold lib from_json snapshot rows" and "uuid_lib_ok lib"
  shows "at_revision_id a = r" and "a \<in> set rows" and "attempt_validate H a = Ok ()"
    and "current_attempt_from_lineage H (filter (\<lambda>x. at_attempt_id x = at_attempt_id a) rows) = Ok a"
    and "at_lifecycle_status a = AttemptActive" and "at_execution_status a = ExecInterrupted"
    and "x \<in> set rows \<Longrightarrow> at_attempt_id x \<noteq> at_attempt_id a \<Longrightarrow> \<not> first_child_of (at_attempt_id a) x"
proof -
  obtain v where v: "expected_source_view H (ps_frontier snapshot) rows r = Ok (Some v)" and a: "mv_source v = a"
      and rest: "at_revision_id a = r" "mv_existing_child v = None" "at_lifecycle_status a = AttemptActive"
        "at_execution_status a = ExecInterrupted"
    using assms(1) for_expected_source_decoded [OF assms(2,3)]
    by (auto simp: select_mark_new_attempt_def and_then_Inr_iff map_err_Inr_iff ok_or_Inr_iff split: if_splits option.splits)
  from v obtain e where e: "find (\<lambda>a. at_revision_id a = r) rows = Some e"
    and l: "current_attempt_from_lineage H (filter (\<lambda>x. at_attempt_id x = at_attempt_id e) rows) = Ok a"
    and c: "min_option (map at_attempt_id (filter (\<lambda>x. at_attempt_id x \<noteq> at_attempt_id e \<and> first_child_of (at_attempt_id e) x) rows)) = None"
    using a rest(2) by (auto simp: expected_source_view_def Let_def and_then_Inr_iff split: option.splits if_splits)
  note m = current_attempt_lineageD [OF l]
  have i: "at_attempt_id a = at_attempt_id e" and "a \<in> set rows" using m(1) by auto
  then show "a \<in> set rows" by simp
  show "attempt_validate H a = Ok ()" by (rule m(2) [OF m(1)])
  show "at_revision_id a = r" "at_lifecycle_status a = AttemptActive" "at_execution_status a = ExecInterrupted" by (rule rest)+
  show "current_attempt_from_lineage H (filter (\<lambda>x. at_attempt_id x = at_attempt_id a) rows) = Ok a" using l i by simp
  show "\<not> first_child_of (at_attempt_id a) x" if "x \<in> set rows" "at_attempt_id x \<noteq> at_attempt_id a" for x
    using c that i by (auto simp: min_option_def filter_empty_conv split: if_splits)
qed

lemma attempt_validate_facts:
  assumes "attempt_validate H a = Ok ()"
  shows "strategy_contract_fingerprint H (at_strategy_contract a) = Ok (at_strategy_contract_fingerprint a)"
    and "at_resumes_from_attempt_id a \<noteq> Some (at_attempt_id a)"
  using assms unfolding attempt_validate_def
  by (cases "strategy_contract_validate (at_strategy_contract a)"; cases "strategy_contract_fingerprint H (at_strategy_contract a)";
      simp split: if_split_asm)+

lemma mark_new_attemptE:
  assumes "mark_new_attempt H lib from_json new_id new_revision ctx snapshot r = Ok (MarkRevision child command)"
    and "rows_hold lib from_json snapshot rows" and "uuid_lib_ok lib"
  obtains source where "select_mark_new_attempt H lib from_json snapshot r = Ok (MarkAvailable source)"
    and "canonical_mark_new_attempt_child H lib source child (ps_frontier snapshot) = Ok child"
    and "map (\<lambda>e. (je_payload e, je_source_kind e)) (jc_events command) = [(AttemptRecorded child, SourceManual)]"
    and "at_attempt_id child \<noteq> at_attempt_id source"
proof -
  from assms(1) obtain found where found: "select_mark_new_attempt H lib from_json snapshot r = Ok found"
    by (auto simp: mark_new_attempt_def and_then_Inr_iff)
  with assms(1) obtain source where "found = MarkAvailable source"
    by (cases found) (simp_all add: mark_new_attempt_def)
  with found have s: "select_mark_new_attempt H lib from_json snapshot r = Ok (MarkAvailable source)" by simp
  with assms(1) obtain fresh where n: "new_attempt H new_id new_revision (at_task_id source) (at_workstream_id source)
          (at_repository_instance_id source) (at_worktree_instance_ids source) [] (at_strategy_contract source)
          (ps_frontier snapshot) = Ok fresh"
    and c: "create_resume_attempt H (fresh\<lparr>at_resume_event_refs := [revision_id_to_string lib (at_revision_id source)]\<rparr>)
        source ResumeUnknown = Ok child"
    and cmd: "attempt_command_with_source H ctx child SourceManual = Ok command"
    by (auto simp: mark_new_attempt_def and_then_Inr_iff Let_def)
  note f = attempt_validate_facts(1) [OF select_mark_availableD(3) [OF s assms(2,3)]]
  have v: "attempt_validate H child = Ok ()" and i: "at_attempt_id child \<noteq> at_attempt_id source"
    using c by (auto simp: create_resume_attempt_def and_then_Inr_iff map_err_Inr_iff Let_def split: if_splits)
  have "canonical_mark_new_attempt_child H lib source child (ps_frontier snapshot)
      = and_then (map_err (\<lambda>_. StoreCorrupt) (attempt_validate H child)) (\<lambda>_. Ok child)"
    using n c f by (auto simp: canonical_mark_new_attempt_child_def new_attempt_def create_resume_attempt_def
        and_then_Inr_iff map_err_Inr_iff Let_def split: if_splits)
  then have k: "canonical_mark_new_attempt_child H lib source child (ps_frontier snapshot) = Ok child" by (simp add: v)
  have "map (\<lambda>e. (je_payload e, je_source_kind e)) (jc_events command) = [(AttemptRecorded child, SourceManual)]"
    using cmd by (auto simp: attempt_command_with_source_def and_then_Inr_iff map_err_Inr_iff journal_command_new_def Let_def
        context_event_def journal_event_draft_runtime_def split: if_splits)
  from that [OF s k this i] show ?thesis .
qed

lemma canonical_childD:
  assumes "canonical_mark_new_attempt_child H lib source candidate frontier = Ok child"
  shows "first_child_of (at_attempt_id source) child"
    and "at_resume_event_refs child = [revision_id_to_string lib (at_revision_id source)]"
  using assms by (auto simp: canonical_mark_new_attempt_child_def Let_def then_unit_iff first_child_of_def)

lemma validate_mark_newE:
  assumes "validate_mark_new_attempt_command H lib t frontier payloads = Ok ()" and "manual_attempts payloads = [other]"
  obtains src :: attempt where "at_resumes_from_attempt_id other = Some (at_attempt_id src)"
    and "\<not> (\<exists>(x, _) \<in> set (btm_values (et_attempt_revisions t)). first_child_of (at_attempt_id src) x)"
proof -
  from assms obtain r where r: "marked_source_revision lib other = Ok r"
    by (cases "marked_source_revision lib other") (simp_all add: validate_mark_new_attempt_command_def split: if_split_asm)
  with assms obtain src where s: "fetch (et_attempt_revisions t) r = Ok src"
    by (cases "fetch (et_attempt_revisions t) r") (simp_all add: validate_mark_new_attempt_command_def split: if_split_asm)
  have "at_resumes_from_attempt_id other = Some (at_attempt_id src)"
    "\<not> (\<exists>(x, _) \<in> set (btm_values (et_attempt_revisions t)). first_child_of (at_attempt_id src) x)"
    using assms r s by (simp_all add: validate_mark_new_attempt_command_def split: if_split_asm)
  then show ?thesis by (rule that)
qed

text \<open>
  C19. The engine and the store agree on a manually marked new attempt. Whatever the engine builds
  from a snapshot passes the store's check in the state of that snapshot; and once the new
  attempt is stored, no command that marks another attempt for the same source passes, so
  an interrupted attempt gets at most one such child.
\<close>

theorem mark_new_attempt_admitted_once:
  assumes "mark_new_attempt H lib from_json new_id new_revision ctx snapshot r = Ok (MarkRevision child command)"
    and "rows_of_tables H t rows" and "uuid_lib_ok lib" and "revision_id_from_uuid lib r = Ok r"
    and "rows_hold lib from_json snapshot rows"
  shows "validate_mark_new_attempt_command H lib t (ps_frontier snapshot)
      (map (\<lambda>e. (je_payload e, je_source_kind e)) (jc_events command)) = Ok ()
    \<and> (\<forall>t' frontier' payloads other s.
        btm_get (et_attempt_revisions t') (at_revision_id child) = Some (child, s)
        \<and> other \<in> set (manual_attempts payloads)
        \<and> at_resumes_from_attempt_id other = at_resumes_from_attempt_id child
        \<longrightarrow> validate_mark_new_attempt_command H lib t' frontier' payloads \<noteq> Ok ())"
proof -
  obtain source where s: "select_mark_new_attempt H lib from_json snapshot r = Ok (MarkAvailable source)"
    and k: "canonical_mark_new_attempt_child H lib source child (ps_frontier snapshot) = Ok child"
    and p: "map (\<lambda>e. (je_payload e, je_source_kind e)) (jc_events command) = [(AttemptRecorded child, SourceManual)]"
    and i: "at_attempt_id child \<noteq> at_attempt_id source"
    by (rule mark_new_attemptE [OF assms(1,5,3)])
  note a = select_mark_availableD [OF s assms(5,3)] and c = canonical_childD [OF k]
  have "parse_str lib (hyphenated lib r) = Some r" using assms(3) by (simp add: uuid_lib_ok_def)
  then have rev: "marked_source_revision lib child = Ok r"
    using assms(4) by (simp add: marked_source_revision_def c(2) a(1) revision_id_to_string_def revision_id_from_str_def ok_or_def)
  obtain q where q: "btm_get (et_attempt_revisions t) r = Some (source, q)"
    using assms(2) a(1,2) unfolding rows_of_tables_def by blast
  have "map_option fst (btm_get (et_attempts t) (at_attempt_id source)) = Some source"
    using assms(2) a(2,4) unfolding rows_of_tables_def by (auto simp: ok_option_def)
  then obtain q' where q': "btm_get (et_attempts t) (at_attempt_id source) = Some (source, q')" by auto
  have none: "\<not> first_child_of (at_attempt_id source) x" if "(x, q'') \<in> set (btm_values (et_attempt_revisions t))" for x q''
  proof -
    have "btm_sorted (et_attempt_revisions t)" using assms(2) unfolding rows_of_tables_def by (rule conjunct1)
    from btm_values_iff [OF this, THEN iffD1, OF that] obtain j
      where "btm_get (et_attempt_revisions t) j = Some (x, q'')" ..
    then have "x \<in> set rows" using assms(2) unfolding rows_of_tables_def by blast
    moreover have "\<not> first_child_of (at_attempt_id source) x" if "at_attempt_id x = at_attempt_id source"
    proof -
      have "attempt_validate H x = Ok ()" using current_attempt_lineageD(2) [OF a(4), of x] that \<open>x \<in> set rows\<close> by simp
      from attempt_validate_facts(2) [OF this] that show ?thesis by (simp add: first_child_of_def)
    qed
    ultimately show ?thesis using a(7) by blast
  qed
  have "\<not> (\<exists>(x, _) \<in> set (btm_values (et_attempt_revisions t)). first_child_of (at_attempt_id source) x)"
    using none by blast
  then have "validate_mark_new_attempt_command H lib t (ps_frontier snapshot) [(AttemptRecorded child, SourceManual)] = Ok ()"
    using c(1) by (simp add: validate_mark_new_attempt_command_def manual_attempts_def List.map_filter_def rev fetch_def q ok_or_def
        q' a(1,5,6) k first_child_of_def)
  moreover have "validate_mark_new_attempt_command H lib t' frontier' payloads \<noteq> Ok ()"
    if st: "btm_get (et_attempt_revisions t') (at_revision_id child) = Some (child, z)"
      and o: "other \<in> set (manual_attempts payloads)"
      and f: "at_resumes_from_attempt_id other = at_resumes_from_attempt_id child" for t' frontier' payloads other z
  proof
    assume ok: "validate_mark_new_attempt_command H lib t' frontier' payloads = Ok ()"
    from ok o have only: "manual_attempts payloads = [other]"
      by (cases "manual_attempts payloads") (auto simp: validate_mark_new_attempt_command_def split: if_splits)
    obtain src :: attempt where src: "at_resumes_from_attempt_id other = Some (at_attempt_id src)"
      and no: "\<not> (\<exists>(x, _) \<in> set (btm_values (et_attempt_revisions t')). first_child_of (at_attempt_id src) x)"
      by (rule validate_mark_newE [OF ok only])
    from src f c(1) have "first_child_of (at_attempt_id src) child" by (simp add: first_child_of_def)
    moreover have "(child, z) \<in> set (btm_values (et_attempt_revisions t'))"
      using st by (force simp: btm_get_def btm_values_def dest: map_of_SomeD)
    ultimately show False using no by blast
  qed
  ultimately show ?thesis unfolding p by blast
qed

section \<open>Samples\<close>

definition sample_revision :: revision_id where
  "sample_revision = 7 * 2 ^ 76 + 2 ^ 63"

lemma sample_revision_unat: "unat sample_revision = 7 * 2 ^ 76 + 2 ^ 63"
  by (simp add: sample_revision_def unat_word_ariths)

lemma sample_revision_v7: "revision_id_from_uuid sample_uuid_lib sample_revision = Ok sample_revision"
  by (simp add: revision_id_from_uuid_def sample_uuid_lib_def sample_revision_unat)

lemma hex_char_not_blank: "n < 16 \<Longrightarrow> \<not> blank (hex_char n # s)"
  by (auto simp: blank_def hex_char_def)

lemma sample_revision_text: "bounded_strings [revision_id_to_string sample_uuid_lib sample_revision]"
proof -
  let ?text = "hyphenated sample_uuid_lib sample_revision"
  have len: "length ?text = 36" using sample_uuid_lib_ok by (simp add: uuid_lib_ok_def)
  obtain b bs where "be_bytes 16 (unat sample_revision) = b # bs" by (metis length_be_bytes list.exhaust list.size(3) zero_neq_numeral)
  moreover have "unat b < 256" by (rule order_less_le_trans [OF unsigned_less]) simp
  ultimately have "\<not> blank ?text"
    by (simp add: sample_uuid_lib_def insert_hyphens_def hex_def hex_byte_def hex_char_not_blank less_mult_imp_div_less)
  then show ?thesis
    using len by (simp add: revision_id_to_string_def bounded_strings_def bounded_text_def MAX_TEXT_def MAX_REFS_def)
qed

definition sample_interrupted_attempt :: attempt where
  "sample_interrupted_attempt = sample_first_attempt\<lparr>at_revision_id := sample_revision\<rparr>"

definition sample_marked_attempt :: attempt where
  "sample_marked_attempt = \<lparr>at_attempt_id = 2, at_revision_id = 4, at_predecessor_revision_id = None,
    at_revision_generation = 1, at_task_id = 4, at_workstream_id = 5, at_episode_id = None,
    at_repository_instance_id = None, at_worktree_instance_ids = [],
    at_execution_lane_ids = [], at_competing_group_ids = [], at_experiment_run_ids = [],
    at_execution_status = ExecProposed, at_adoption_status = AdoptionNone,
    at_verification = VerificationUnverified, at_lifecycle_status = AttemptActive,
    at_strategy_contract = sample_strategy, at_strategy_contract_fingerprint = replicate 32 0,
    at_resumes_from_attempt_id = Some 1, at_composed_from_attempt_ids = [],
    at_resume_event_refs = [revision_id_to_string sample_uuid_lib sample_revision], at_resume_state_assessment = Some ResumeUnknown,
    at_resume_source_snapshot_id = None, at_resume_target_snapshot_id = None,
    at_worktree_transition_refs = [], at_integration_event_refs = [],
    at_recovery_bundle_refs = [], at_recovery_application_refs = [],
    at_work_binding_revision_refs = [], at_local_outcome_refs = [],
    at_parent_verification_refs = [], at_outcome_refs = [], at_outcome_state = OutcomeUnknown,
    at_interruption_refs = [], at_interruption_reason = None,
    at_explicit_abandon_refs = [], at_supersede_evidence_refs = [],
    at_failure_signature = None, at_source_watermark = 7\<rparr>"

lemma sample_first_attempt_valid: "attempt_validate zero_digest sample_first_attempt = Ok ()"
  by (simp add: attempt_validate_def sample_attempt_def sample_first_attempt_def
      sample_strategy_valid sample_fingerprint attempt_lists_ok_def attempt_resume_shape_def
      attempt_outcome_shape_def sample_text ordered_ids_def strictly_ordered_unique_iff)

definition sample_completed_attempt :: attempt where
  "sample_completed_attempt = sample_attempt\<lparr>at_revision_id := 20, at_predecessor_revision_id := Some 2,
    at_revision_generation := 3, at_execution_status := ExecCompleted, at_source_watermark := 9\<rparr>"

lemma sample_completed:
  "revise_execution zero_digest 20 sample_attempt ExecCompleted [6] [''crash''] None [] 9
    = Ok (AttemptRevision sample_completed_attempt)"
proof -
  have "attempt_validate zero_digest sample_completed_attempt = Ok ()"
    by (simp add: attempt_validate_def sample_attempt_def sample_completed_attempt_def
        sample_strategy_valid sample_fingerprint attempt_lists_ok_def attempt_resume_shape_def
        attempt_outcome_shape_def sample_text ordered_ids_def strictly_ordered_unique_iff)
  then show ?thesis
    by (simp add: revise_execution_def attempt_successor_def sample_attempt_def sample_completed_attempt_def checked_add_def
        ok_or_def validated_revision_def execution_change_allowed_def sort_dedup_def)
qed

theorem engine_revisions_recorded_witness:
  "record_attempt zero_digest [1 \<mapsto> (sample_attempt, 5)] [2 \<mapsto> (sample_attempt, 5)] sample_completed_attempt 8
    = Ok ([1 \<mapsto> (sample_completed_attempt, 8)], [2 \<mapsto> (sample_attempt, 5), 20 \<mapsto> (sample_completed_attempt, 8)])"
proof -
  have i: "at_attempt_id sample_attempt = 1" "at_revision_id sample_attempt = 2" by (simp_all add: sample_attempt_def)
  from engine_revisions_recorded [OF engine_revision.execution [OF sample_completed] sample_attempts_valid(1),
      of "[1 \<mapsto> (sample_attempt, 5)]" 5 "[2 \<mapsto> (sample_attempt, 5)]" 8]
  show ?thesis by (simp add: i)
qed

lemma sample_resumed:
  "resume_same_attempt zero_digest 9 sample_attempt 8 ResumeCompatibleSameInstance [''resume''] None 11 [] 6
    = Ok sample_resumed_attempt"
proof -
  have "resume_same_attempt zero_digest 9 sample_attempt 8 ResumeCompatibleSameInstance [''resume''] None 11 [] 6
    = and_then (map_err (\<lambda>_. WorkInvalidInput) (attempt_validate zero_digest sample_resumed_attempt)) (\<lambda>_. Ok sample_resumed_attempt)"
    by (simp add: resume_same_attempt_def attempt_successor_def sample_attempt_def sample_resumed_attempt_def checked_add_def
        ok_or_def sort_dedup_def word_le_nat_alt Let_def)
  then show ?thesis by (simp add: sample_attempts_valid(2))
qed

theorem supersede_and_resume_exact_witness:
  "attempt_validate_successor zero_digest sample_attempt sample_resumed_attempt = Ok ()"
proof -
  have "(9 :: revision_id) \<noteq> at_revision_id sample_attempt" "at_resume_event_refs sample_attempt = []"
    by (simp_all add: sample_attempt_def)
  with supersede_and_resume_exact [OF sample_attempts_valid(1), of 9] sample_resumed show ?thesis by fastforce
qed

lemma sample_interrupted_valid: "attempt_validate zero_digest sample_interrupted_attempt = Ok ()"
    by (simp add: attempt_validate_def sample_attempt_def sample_first_attempt_def sample_interrupted_attempt_def
        sample_strategy_valid sample_fingerprint attempt_lists_ok_def attempt_resume_shape_def
        attempt_outcome_shape_def sample_text ordered_ids_def strictly_ordered_unique_iff)

lemma sample_interrupted_fields:
  "at_attempt_id sample_interrupted_attempt = 1" "at_revision_id sample_interrupted_attempt = sample_revision"
    "at_revision_generation sample_interrupted_attempt = 1" "at_predecessor_revision_id sample_interrupted_attempt = None"
    "at_lifecycle_status sample_interrupted_attempt = AttemptActive"
    "at_execution_status sample_interrupted_attempt = ExecInterrupted"
    by (simp_all add: sample_interrupted_attempt_def sample_first_attempt_def sample_attempt_def)

lemma sample_interrupted_lineage: "current_attempt_from_lineage zero_digest [sample_interrupted_attempt] = Ok sample_interrupted_attempt"
  by (simp add: current_attempt_from_lineage_def sample_interrupted_valid sample_interrupted_fields ok_or_def deque_back_def)

text \<open>A snapshot with one row, and a reader of its only payload.\<close>

definition sample_snapshot :: projection_snapshot where
  "sample_snapshot = \<lparr>ps_frontier = 7, ps_rows = [sample_row\<lparr>or_row_id := attempt_row_id sample_uuid_lib sample_revision,
    or_object_kind := Some ''attempt'', or_object_id := Some (uuid_id_to_string sample_uuid_lib ''att'' 1)\<rparr>]\<rparr>"

definition sample_reader :: "string \<Rightarrow> work_payload option" where
  "sample_reader s = (if s = ''{}'' then Some (AttemptRecorded sample_interrupted_attempt) else None)"

lemma sample_rows_hold: "rows_hold sample_uuid_lib sample_reader sample_snapshot [sample_interrupted_attempt]"
  by (simp add: rows_hold_def attempt_rows_def data_rows_def sample_snapshot_def attempt_row_def row_attempt_def ok_or_def
      sample_row_def sample_reader_def sample_interrupted_fields)

lemma sample_frontier: "ps_frontier sample_snapshot = 7"
  by (simp add: sample_snapshot_def)

lemma sample_marked:
  "mark_new_attempt zero_digest sample_uuid_lib sample_reader 2 4 sample_context sample_snapshot sample_revision
    = Ok (MarkRevision sample_marked_attempt \<lparr>jc_command_id = 1, jc_events =
        [(context_event sample_context (AttemptRecorded sample_marked_attempt))\<lparr>je_source_kind := SourceManual\<rparr>]\<rparr>)"
proof -
  note f = sample_interrupted_fields
  have m: "attempt_validate zero_digest sample_marked_attempt = Ok ()"
    using sample_revision_text
    by (simp add: attempt_validate_def sample_marked_attempt_def sample_strategy_valid sample_fingerprint attempt_lists_ok_def
        attempt_resume_shape_def attempt_outcome_shape_def ordered_ids_def strictly_ordered_unique_iff)
  have s: "select_mark_new_attempt zero_digest sample_uuid_lib sample_reader sample_snapshot sample_revision
      = Ok (MarkAvailable sample_interrupted_attempt)"
    by (simp add: select_mark_new_attempt_def for_expected_source_decoded [OF sample_rows_hold sample_uuid_lib_ok]
        expected_source_view_def f sample_interrupted_valid sample_interrupted_lineage
        min_option_def ok_or_def)
  let ?base = "sample_marked_attempt\<lparr>at_resumes_from_attempt_id := None, at_resume_event_refs := [],
      at_resume_state_assessment := None\<rparr>"
  have "attempt_validate zero_digest ?base = Ok ()"
    by (simp add: attempt_validate_def sample_marked_attempt_def sample_strategy_valid sample_fingerprint attempt_lists_ok_def
        attempt_resume_shape_def attempt_outcome_shape_def ordered_ids_def strictly_ordered_unique_iff sample_text)
  then have n: "new_attempt zero_digest 2 4 4 5 None [] [] sample_strategy 7 = Ok ?base"
    by (simp add: new_attempt_def sample_fingerprint Let_def sample_marked_attempt_def)
  have g: "at_task_id sample_interrupted_attempt = 4" "at_workstream_id sample_interrupted_attempt = 5"
    "at_repository_instance_id sample_interrupted_attempt = None" "at_worktree_instance_ids sample_interrupted_attempt = []"
    "at_strategy_contract sample_interrupted_attempt = sample_strategy"
    by (simp_all add: sample_interrupted_attempt_def sample_first_attempt_def sample_attempt_def)
  have "create_resume_attempt zero_digest (?base\<lparr>at_resume_event_refs := [revision_id_to_string sample_uuid_lib sample_revision]\<rparr>)
      sample_interrupted_attempt ResumeUnknown
    = and_then (map_err (\<lambda>_. WorkInvalidInput) (attempt_validate zero_digest sample_marked_attempt)) (\<lambda>_. Ok sample_marked_attempt)"
    by (simp add: create_resume_attempt_def f g) (simp add: sample_marked_attempt_def sample_fingerprint Let_def)
  then show ?thesis
    by (simp add: mark_new_attempt_def s g n f m Let_def attempt_command_with_source_def journal_command_new_def
        sample_frontier)
      (simp add: sample_context_def)
qed

definition sample_marked_tables :: episode_tables where
  "sample_marked_tables = sample_work_tables\<lparr>et_attempts := [(1, sample_interrupted_attempt, 3)],
    et_attempt_revisions := [(sample_revision, sample_interrupted_attempt, 3)]\<rparr>"

theorem mark_new_attempt_admitted_once_witness:
  "validate_mark_new_attempt_command zero_digest sample_uuid_lib sample_marked_tables 7
    [(AttemptRecorded sample_marked_attempt, SourceManual)] = Ok ()"
proof -
  have "rows_of_tables zero_digest sample_marked_tables [sample_interrupted_attempt]"
    by (auto simp: rows_of_tables_def sample_marked_tables_def btm_sorted_def btm_get_def sample_interrupted_fields
        sample_interrupted_lineage ok_option_def)
  from mark_new_attempt_admitted_once [OF sample_marked this sample_uuid_lib_ok sample_revision_v7 sample_rows_hold]
  show ?thesis by (simp add: sample_frontier context_event_def journal_event_draft_runtime_def)
qed

end
