(* ===== verification/Binding_Work.thy ===== *)
theory Binding_Work
  imports Work_Command
begin

text \<open>
  Deciding which task and workstream an operation belongs to:
  \<open>evertrace-engine/src/work/binding.rs\<close>. \<open>resolve_binding\<close> weighs the evidence for one operation
  and returns the next binding revision, or nothing if the current one already says so. The
  identifier of the new revision is an argument.
\<close>

definition MAX_EVIDENCE :: nat where "MAX_EVIDENCE = 64"

datatype binding_resolution = BindingNoDelta | BindingRevision work_binding_revision

definition binding_resolution_into_revision :: "binding_resolution \<Rightarrow> work_binding_revision option" where
  "binding_resolution_into_revision r = (case r of BindingNoDelta \<Rightarrow> None | BindingRevision b \<Rightarrow> Some b)"

datatype binding_evidence_strength = StrengthExact | StrengthStrong | StrengthWeak

record binding_evidence =
  be_strength :: binding_evidence_strength
  be_evidence_ref :: string
  be_task_id :: task_id
  be_workstream_id :: workstream_id

fun rank_binding_evidence_strength :: "binding_evidence_strength \<Rightarrow> nat" where
  "rank_binding_evidence_strength StrengthExact = 0"
| "rank_binding_evidence_strength StrengthStrong = 1"
| "rank_binding_evidence_strength StrengthWeak = 2"

text \<open>The derived order compares the fields from left to right.\<close>

definition binding_evidence_key :: "binding_evidence \<Rightarrow> nat \<times> string \<times> task_id \<times> workstream_id" where
  "binding_evidence_key e =
    (rank_binding_evidence_strength (be_strength e), be_evidence_ref e, be_task_id e, be_workstream_id e)"

datatype candidate_assessment = CandidateValid task_id workstream_id | CandidateUnknown | CandidateContradictory

definition authoritative_candidate :: "work_identity_current_view \<Rightarrow> binding_evidence \<Rightarrow> candidate_assessment" where
  "authoritative_candidate view e =
    (case (btm_get (wv_tasks view) (be_task_id e), btm_get (wv_workstreams view) (be_workstream_id e)) of
       (Some t, Some w) \<Rightarrow>
         if ws_task_id w = tk_task_id t then CandidateValid (tk_task_id t) (ws_workstream_id w)
         else CandidateContradictory
     | _ \<Rightarrow> CandidateUnknown)"

definition primary_work_binding_default :: primary_work_binding where
  "primary_work_binding_default = \<lparr>pb_task_id = None, pb_workstream_id = None, pb_episode_id = None,
    pb_attempt_id = None, pb_experiment_run_id = None, pb_competing_group_id = None\<rparr>"

text \<open>
  The assignment: the candidates of the authoritative items and the flags of the loop, then
  the decision. \<open>view.tasks[&task_id]\<close> cannot fail for a valid candidate of a view whose
  tasks are stored under their identifiers.
\<close>

definition binding_assignment ::
  "work_identity_current_view \<Rightarrow> binding_evidence list \<Rightarrow> assignment_status \<times> primary_work_binding" where
  "binding_assignment view authoritative =
    (let assessed = map (authoritative_candidate view) authoritative;
         candidates = btree_set (List.map_filter
           (\<lambda>a. case a of CandidateValid t w \<Rightarrow> Some (t, w) | _ \<Rightarrow> None) assessed);
         unknown_authoritative = (CandidateUnknown \<in> set assessed);
         contradictory_authoritative = (CandidateContradictory \<in> set assessed)
     in
     if contradictory_authoritative \<or> length candidates > 1
     then (AssignmentConflicted, primary_work_binding_default)
     else if unknown_authoritative then (AssignmentUnresolved, primary_work_binding_default)
     else (case candidates of
         (t, w) # _ \<Rightarrow>
           (if is_some_and (\<lambda>v. tk_identity_confidence v = ConfidenceProvisional) (btm_get (wv_tasks view) t)
            then AssignmentProvisional else AssignmentResolved,
            primary_work_binding_default\<lparr>pb_task_id := Some t, pb_workstream_id := Some w\<rparr>)
       | [] \<Rightarrow> (AssignmentUnresolved, primary_work_binding_default)))"

definition resolve_binding ::
  "work_identity_current_view \<Rightarrow> work_binding_revision_id \<Rightarrow> operation_id \<Rightarrow> work_binding_revision option
    \<Rightarrow> scope_effect_id list \<Rightarrow> secondary_work_binding list \<Rightarrow> binding_evidence list
    \<Rightarrow> (work_identity_error, binding_resolution) result" where
  "resolve_binding view new_id operation_id current scope_effect_refs secondary_bindings evidence =
    (if length evidence > MAX_EVIDENCE then Err WorkInvalidInput
     else
     and_then (if_some (\<lambda>c. and_then (map_err (\<lambda>_. WorkInvalidInput) (work_binding_revision_validate c)) (\<lambda>_.
         if wb_operation_id c \<noteq> operation_id then Err WorkInvalidInput else Ok ())) current) (\<lambda>_.
     let ordered = sort_key binding_evidence_key evidence in
     if \<exists>item \<in> set ordered. blank (be_evidence_ref item) \<or> length (be_evidence_ref item) > 4096
     then Err WorkInvalidInput
     else
     let (assignment_status, primary_binding) =
           binding_assignment view (filter (\<lambda>item. be_strength item \<noteq> StrengthWeak) ordered);
         evidence_refs = btree_set (map be_evidence_ref ordered)
     in
     if is_some_and (\<lambda>c. wb_primary_binding c = primary_binding
          \<and> wb_secondary_bindings c = secondary_bindings \<and> wb_scope_effect_refs c = scope_effect_refs
          \<and> wb_assignment_status c = assignment_status \<and> wb_evidence_refs c = evidence_refs
          \<and> wb_resolver_version c = 1) current
     then Ok BindingNoDelta
     else
     and_then (ok_or WorkInvalidInput (case current of None \<Rightarrow> Some 1
         | Some c \<Rightarrow> checked_add (wb_revision_generation c) 1)) (\<lambda>revision_generation.
     let binding = \<lparr>wb_work_binding_revision_id = new_id, wb_operation_id = operation_id,
           wb_revision_generation = revision_generation,
           wb_predecessor_revision_id = map_option wb_work_binding_revision_id current,
           wb_primary_binding = primary_binding, wb_secondary_bindings = secondary_bindings,
           wb_scope_effect_refs = scope_effect_refs, wb_assignment_status = assignment_status,
           wb_evidence_refs = evidence_refs, wb_resolver_version = 1\<rparr> in
     and_then (map_err (\<lambda>_. WorkInvalidInput) (work_binding_revision_validate binding)) (\<lambda>_.
     Ok (BindingRevision binding)))))"

definition record_binding ::
  "work_command_context \<Rightarrow> work_binding_revision \<Rightarrow> (work_identity_error, journal_command) result" where
  "record_binding context binding =
    and_then (map_err (\<lambda>_. WorkInvalidInput) (work_binding_revision_validate binding)) (\<lambda>_.
    context_command context [WorkBindingRecorded binding])"

section \<open>What a resolution says\<close>

lemma resolve_bindingE:
  assumes "resolve_binding view new_id op current effects secondary evidence = Ok r"
  obtains "r = BindingNoDelta" and "current \<noteq> None"
  | b g where "r = BindingRevision b" "work_binding_revision_validate b = Ok ()"
    "wb_operation_id b = op" "wb_work_binding_revision_id b = new_id" "wb_revision_generation b = g"
    "wb_predecessor_revision_id b = map_option wb_work_binding_revision_id current"
    "(wb_assignment_status b, wb_primary_binding b) =
      binding_assignment view (filter (\<lambda>item. be_strength item \<noteq> StrengthWeak) (sort_key binding_evidence_key evidence))"
    "wb_secondary_bindings b = secondary" "wb_scope_effect_refs b = effects"
    "wb_evidence_refs b = btree_set (map be_evidence_ref (sort_key binding_evidence_key evidence))"
    "wb_resolver_version b = 1"
    "(case current of None \<Rightarrow> Some 1 | Some c \<Rightarrow> checked_add (wb_revision_generation c) 1) = Some g"
    "\<And>c. current = Some c \<Longrightarrow> work_binding_revision_validate c = Ok () \<and> wb_operation_id c = op"
proof -
  let ?a = "binding_assignment view (filter (\<lambda>item. be_strength item \<noteq> StrengthWeak) (sort_key binding_evidence_key evidence))"
  obtain st pr where a: "?a = (st, pr)" by (rule prod.exhaust)
  have cur: "work_binding_revision_validate c = Ok () \<and> wb_operation_id c = op" if "current = Some c" for c
    using assms that by (auto simp: resolve_binding_def then_unit_iff if_some_def map_err_Inr_iff split: if_splits)
  show thesis
  proof (cases r)
    case BindingNoDelta
    with assms have "current \<noteq> None"
      by (auto simp: resolve_binding_def Let_def a then_unit_iff and_then_Inr_iff is_some_and_iff split: if_splits)
    with BindingNoDelta that(1) show thesis by blast
  next
    case (BindingRevision b)
    from assms [unfolded BindingRevision resolve_binding_def Let_def a prod.case] obtain g
      where g: "(case current of None \<Rightarrow> Some 1 | Some c \<Rightarrow> checked_add (wb_revision_generation c) 1) = Some g"
        "work_binding_revision_validate b = Ok ()"
        "b = \<lparr>wb_work_binding_revision_id = new_id, wb_operation_id = op, wb_revision_generation = g,
           wb_predecessor_revision_id = map_option wb_work_binding_revision_id current,
           wb_primary_binding = pr, wb_secondary_bindings = secondary,
           wb_scope_effect_refs = effects, wb_assignment_status = st,
           wb_evidence_refs = btree_set (map be_evidence_ref (sort_key binding_evidence_key evidence)),
           wb_resolver_version = 1\<rparr>"
      by (auto simp: then_unit_iff and_then_Inr_iff ok_or_Inr_iff map_err_Inr_iff simp del: set_btree_set split: if_splits)
    show thesis
      by (rule that(2) [OF BindingRevision g(2)]) (use g(1,3) a cur in simp_all)
  qed
qed

lemma sort_key_mset_inj:
  assumes "mset xs = mset ys" and "inj key"
  shows "sort_key (key :: 'a \<Rightarrow> 'k::linorder) xs = sort_key key ys"
proof -
  have "map key (sort_key key xs) = sort (map key xs)" for xs
    by (rule properties_for_sort [symmetric]) simp_all
  moreover have "sort (map key xs) = sort (map key ys)"
    by (rule properties_for_sort) (use assms(1) in simp_all)
  ultimately show ?thesis using map_injective [OF _ assms(2)] by metis
qed

lemma binding_evidence_key_inj: "inj binding_evidence_key"
proof (rule injI)
  fix x y :: binding_evidence
  assume k: "binding_evidence_key x = binding_evidence_key y"
  have "a = b" if "rank_binding_evidence_strength a = rank_binding_evidence_strength b" for a b
    using that by (cases a; cases b) simp_all
  with k show "x = y" by (cases x; cases y) (simp add: binding_evidence_key_def)
qed

lemma resolve_binding_mset:
  assumes "mset evidence = mset evidence'"
  shows "resolve_binding view new_id op current effects secondary evidence
    = resolve_binding view new_id op current effects secondary evidence'"
  using sort_key_mset_inj [OF assms binding_evidence_key_inj] mset_eq_length [OF assms]
  by (simp add: resolve_binding_def)

lemma binding_assignment_iff:
  "pb_task_id (snd (binding_assignment view auth)) = Some t \<and> pb_workstream_id (snd (binding_assignment view auth)) = Some w
    \<longleftrightarrow> auth \<noteq> [] \<and> (\<forall>e \<in> set auth. authoritative_candidate view e = CandidateValid t w)"
    (is "?lhs \<longleftrightarrow> ?rhs")
proof -
  define assessed where "assessed = map (authoritative_candidate view) auth"
  define cs where "cs = btree_set (List.map_filter
    (\<lambda>a. case a of CandidateValid t w \<Rightarrow> Some (t, w) | _ \<Rightarrow> None) assessed)"
  have cs: "(x, y) \<in> set cs \<longleftrightarrow> CandidateValid x y \<in> set assessed" for x y
  proof -
    have "set cs = {p. \<exists>a \<in> set assessed. (case a of CandidateValid t w \<Rightarrow> Some (t, w) | _ \<Rightarrow> None) = Some p}"
      unfolding cs_def set_btree_set List.map_filter_def by force
    moreover have "(case a of CandidateValid t w \<Rightarrow> Some (t, w) | _ \<Rightarrow> None) = Some (x, y) \<longleftrightarrow> a = CandidateValid x y" for a
      by (cases a) auto
    ultimately show ?thesis by auto
  qed
  have rhs: "?rhs \<longleftrightarrow> assessed \<noteq> [] \<and> (\<forall>a \<in> set assessed. a = CandidateValid t w)"
    by (auto simp: assessed_def)
  have "distinct cs" by (simp add: cs_def)
  have one: "length cs \<le> 1" if "set cs \<subseteq> {p}" for p
    using card_mono [OF _ that] distinct_card [OF \<open>distinct cs\<close>] by simp
  note unf = binding_assignment_def Let_def assessed_def [symmetric] cs_def [symmetric]
  show ?thesis
  proof (cases "CandidateContradictory \<in> set assessed \<or> length cs > 1 \<or> CandidateUnknown \<in> set assessed")
    case True
    then have "\<not> ?rhs"
    proof (rule contrapos_pn)
      assume "?rhs"
      then have all: "\<forall>a \<in> set assessed. a = CandidateValid t w" by (simp add: rhs)
      then have "p = (t, w)" if "p \<in> set cs" for p using that cs by (cases p) force
      then have "length cs \<le> 1" by (intro one [of "(t, w)"]) blast
      with all show "\<not> (CandidateContradictory \<in> set assessed \<or> length cs > 1 \<or> CandidateUnknown \<in> set assessed)" by force
    qed
    moreover from True have "snd (binding_assignment view auth) = primary_work_binding_default" unfolding unf by auto
    ultimately show ?thesis by (simp add: primary_work_binding_default_def)
  next
    case False
    have valid: "\<exists>x y. a = CandidateValid x y" if "a \<in> set assessed" for a
      using that False candidate_assessment.exhaust [of a] by metis
    show ?thesis
    proof (cases cs)
      case Nil
      with valid cs have "assessed = []" by (cases assessed) fastforce+
      moreover from Nil False have "snd (binding_assignment view auth) = primary_work_binding_default" unfolding unf by simp
      ultimately show ?thesis by (simp add: rhs primary_work_binding_default_def)
    next
      case (Cons p rest)
      obtain x y where p: "p = (x, y)" by (rule prod.exhaust)
      from False Cons have rest: "rest = []" by simp
      then have all: "a = CandidateValid x y" if "a \<in> set assessed" for a
        using valid [OF that] that cs Cons p by fastforce
      have "assessed \<noteq> []" using cs [of x y] Cons p by auto
      then have "?rhs \<longleftrightarrow> x = t \<and> y = w" using all rhs by (metis candidate_assessment.inject list.set_sel(1))
      moreover from False Cons p rest have "snd (binding_assignment view auth)
          = primary_work_binding_default\<lparr>pb_task_id := Some x, pb_workstream_id := Some y\<rparr>" unfolding unf by simp
      ultimately show ?thesis by simp
    qed
  qed
qed

text \<open>
  C24. Resolving looks only at exact and strong evidence and not at its order: the new revision is
  bound to a task and workstream exactly if there is such evidence and all of it names this
  existing pair.
\<close>

theorem binding_resolution_exact:
  assumes "resolve_binding view new_id op current effects secondary evidence = Ok (BindingRevision b)"
  shows "(pb_task_id (wb_primary_binding b) = Some t \<and> pb_workstream_id (wb_primary_binding b) = Some w \<longleftrightarrow>
      (\<exists>e \<in> set evidence. be_strength e \<noteq> StrengthWeak)
      \<and> (\<forall>e \<in> set evidence. be_strength e \<noteq> StrengthWeak \<longrightarrow> authoritative_candidate view e = CandidateValid t w))
    \<and> (\<forall>evidence'. mset evidence' = mset evidence \<longrightarrow>
        resolve_binding view new_id op current effects secondary evidence' = Ok (BindingRevision b))"
proof (rule resolve_bindingE [OF assms])
  fix b' g
  let ?auth = "filter (\<lambda>item. be_strength item \<noteq> StrengthWeak) (sort_key binding_evidence_key evidence)"
  assume "BindingRevision b = BindingRevision b'"
    and a: "(wb_assignment_status b', wb_primary_binding b') = binding_assignment view ?auth"
  then have "wb_primary_binding b = snd (binding_assignment view ?auth)" by (metis binding_resolution.inject snd_conv)
  moreover have "set ?auth = {e \<in> set evidence. be_strength e \<noteq> StrengthWeak}" by simp
  moreover from this have "?auth \<noteq> [] \<longleftrightarrow> (\<exists>e \<in> set evidence. be_strength e \<noteq> StrengthWeak)"
    by (metis (mono_tags, lifting) empty_set filter_empty_conv set_empty set_sort)
  ultimately have "pb_task_id (wb_primary_binding b) = Some t \<and> pb_workstream_id (wb_primary_binding b) = Some w \<longleftrightarrow>
      (\<exists>e \<in> set evidence. be_strength e \<noteq> StrengthWeak)
      \<and> (\<forall>e \<in> set evidence. be_strength e \<noteq> StrengthWeak \<longrightarrow> authoritative_candidate view e = CandidateValid t w)"
    using binding_assignment_iff [of view ?auth t w] by (simp, blast)
  moreover have "resolve_binding view new_id op current effects secondary evidence' = Ok (BindingRevision b)"
    if "mset evidence' = mset evidence" for evidence'
    using resolve_binding_mset [OF that] assms by simp
  ultimately show ?thesis by blast
qed simp

text \<open>
  Resolving is idempotent: with the new revision as the current one, the same evidence gives
  nothing new.
\<close>

theorem resolve_binding_idempotent:
  assumes "resolve_binding view new_id op current effects secondary evidence = Ok (BindingRevision b)"
  shows "resolve_binding view new_id' op (Some b) effects secondary evidence = Ok BindingNoDelta"
proof (rule resolve_bindingE [OF assms])
  fix b' g
  let ?sorted = "sort_key binding_evidence_key evidence"
  assume b: "BindingRevision b = BindingRevision b'" "work_binding_revision_validate b' = Ok ()" "wb_operation_id b' = op"
    "(wb_assignment_status b', wb_primary_binding b')
      = binding_assignment view (filter (\<lambda>item. be_strength item \<noteq> StrengthWeak) ?sorted)"
    "wb_secondary_bindings b' = secondary" "wb_scope_effect_refs b' = effects"
    "wb_evidence_refs b' = btree_set (map be_evidence_ref ?sorted)" "wb_resolver_version b' = 1"
  have "\<not> length evidence > MAX_EVIDENCE"
    and "\<not> (\<exists>item \<in> set ?sorted. blank (be_evidence_ref item) \<or> length (be_evidence_ref item) > 4096)"
    using assms by (auto simp: resolve_binding_def then_unit_iff Let_def split: if_splits)
  with b show ?thesis
    by (simp add: resolve_binding_def if_some_def Let_def flip: b(4))
qed simp


section \<open>Sample resolutions\<close>

definition sample_identity_view :: work_identity_current_view where
  "sample_identity_view = \<lparr>wv_frontier = 1, wv_tasks = [(3, sample_work_task)],
    wv_workstreams = [(4, sample_first_workstream)]\<rparr>"

definition sample_binding_evidence :: binding_evidence where
  "sample_binding_evidence = \<lparr>be_strength = StrengthExact, be_evidence_ref = ''e'', be_task_id = 3, be_workstream_id = 4\<rparr>"

definition sample_resolved_binding :: "work_binding_revision option \<Rightarrow> work_binding_revision" where
  "sample_resolved_binding current = \<lparr>wb_work_binding_revision_id = 9, wb_operation_id = 2,
    wb_revision_generation = (if current = None then 1 else 2),
    wb_predecessor_revision_id = map_option wb_work_binding_revision_id current,
    wb_primary_binding = primary_work_binding_default\<lparr>pb_task_id := Some 3, pb_workstream_id := Some 4\<rparr>,
    wb_secondary_bindings = [], wb_scope_effect_refs = [], wb_assignment_status = AssignmentResolved,
    wb_evidence_refs = [''e''], wb_resolver_version = 1\<rparr>"

lemma sample_resolution:
  assumes "current = None \<or> current = Some sample_binding"
  shows "resolve_binding sample_identity_view 9 2 current [] [] [sample_binding_evidence]
    = Ok (BindingRevision (sample_resolved_binding current))"
proof -
  have a: "binding_assignment sample_identity_view [sample_binding_evidence]
      = (AssignmentResolved, primary_work_binding_default\<lparr>pb_task_id := Some 3, pb_workstream_id := Some 4\<rparr>)"
    by (simp add: binding_assignment_def authoritative_candidate_def sample_identity_view_def sample_binding_evidence_def
        btm_get_def sample_work_defs List.map_filter_def btree_set_def)
  have s: "be_strength sample_binding_evidence = StrengthExact" "be_evidence_ref sample_binding_evidence = ''e''"
    by (simp_all add: sample_binding_evidence_def)
  have v: "work_binding_revision_validate sample_binding = Ok ()"
    using sample_binding_accepted by (auto simp: work_binding_revision_validate_successor_def then_unit_iff)
  have "work_binding_revision_validate (sample_resolved_binding current) = Ok ()"
    using assms by (auto simp: work_binding_revision_validate_def sample_resolved_binding_def sample_text
        primary_work_binding_default_def primary_work_binding_has_future_ref_def)
  moreover have "wb_primary_binding sample_binding \<noteq> primary_work_binding_default\<lparr>pb_task_id := Some 3, pb_workstream_id := Some 4\<rparr>"
    by (simp add: sample_binding_def primary_work_binding_default_def)
  ultimately show ?thesis
    using assms v
    by (auto simp: resolve_binding_def MAX_EVIDENCE_def a s blank_def Let_def if_some_def ok_or_def btree_set_def
        sample_resolved_binding_def checked_add_def sample_binding_def)
qed

theorem binding_resolution_exact_witness:
  "pb_task_id (wb_primary_binding (sample_resolved_binding None)) = Some 3
    \<and> authoritative_candidate sample_identity_view sample_binding_evidence = CandidateValid 3 4"
  using binding_resolution_exact [OF sample_resolution [of None], of 3 4]
  by (simp add: sample_resolved_binding_def sample_binding_evidence_def)

theorem resolve_binding_idempotent_witness:
  "resolve_binding sample_identity_view 10 2 (Some (sample_resolved_binding None)) [] [] [sample_binding_evidence] = Ok BindingNoDelta"
  by (rule resolve_binding_idempotent [OF sample_resolution]) simp


end
