(* ===== verification/Constraint.thy ===== *)
theory Constraint
  imports Work_Base
begin

text \<open>
  Conditions of the semantic memory, \<open>evertrace-domain/src/semantic/constraint.rs\<close>: fields and
  their values, observed states, expressions with their validation, and the evaluation in
  three truth values. The lemmas relate the evaluation to the classical reading of an
  expression over the states of the world that agree with what has been observed.
\<close>

section \<open>Fields, values and states\<close>

datatype semantic_error =
    InvalidResultEvidence | InvalidResultSuccessor | InvalidAtom | InvalidAtomSuccessor
  | InvalidConstraintExpr | InvalidConstraintState | InvalidProcedure | InvalidProcedureSuccessor
  | InvalidProcedurePublication | InvalidProposal | InvalidProposalSuccessor | InvalidScenario
  | InvalidCoreMembership | InvalidGlobalSupport

definition MAX_EXPR_DEPTH :: nat where "MAX_EXPR_DEPTH = 12"
definition MAX_EXPR_NODES :: nat where "MAX_EXPR_NODES = 128"
definition MAX_BOOLEAN_TERMS :: nat where "MAX_BOOLEAN_TERMS = 32"
definition MAX_IN_VALUES :: nat where "MAX_IN_VALUES = 64"
definition MAX_FIELD_VALUE_BYTES :: nat where "MAX_FIELD_VALUE_BYTES = 256"

datatype constraint_field =
    FieldAgentKind
  | FieldTaskKind
  | FieldProjectFamily
  | FieldToolchain
  | FieldOperationKind
  | FieldPhaseKind
  | FieldArtifactKind
  | FieldEnvironmentProfile
  | FieldRevisionActive
  | FieldVerifierState
  | FieldPhase
  | FieldFailureSignature
  | FieldWorktreeLineage
  | FieldArtifactVersion
  | FieldExperimentState

instantiation constraint_field :: linorder
begin

fun rank_constraint_field :: "constraint_field \<Rightarrow> nat" where
  "rank_constraint_field FieldAgentKind = 0"
| "rank_constraint_field FieldTaskKind = 1"
| "rank_constraint_field FieldProjectFamily = 2"
| "rank_constraint_field FieldToolchain = 3"
| "rank_constraint_field FieldOperationKind = 4"
| "rank_constraint_field FieldPhaseKind = 5"
| "rank_constraint_field FieldArtifactKind = 6"
| "rank_constraint_field FieldEnvironmentProfile = 7"
| "rank_constraint_field FieldRevisionActive = 8"
| "rank_constraint_field FieldVerifierState = 9"
| "rank_constraint_field FieldPhase = 10"
| "rank_constraint_field FieldFailureSignature = 11"
| "rank_constraint_field FieldWorktreeLineage = 12"
| "rank_constraint_field FieldArtifactVersion = 13"
| "rank_constraint_field FieldExperimentState = 14"

definition less_eq_constraint_field :: "constraint_field \<Rightarrow> constraint_field \<Rightarrow> bool" where
  "less_eq_constraint_field a b \<longleftrightarrow> rank_constraint_field a \<le> rank_constraint_field b"

definition less_constraint_field :: "constraint_field \<Rightarrow> constraint_field \<Rightarrow> bool" where
  "less_constraint_field a b \<longleftrightarrow> rank_constraint_field a < rank_constraint_field b"

instance
proof
  fix x y :: constraint_field
  show "x \<le> y \<Longrightarrow> y \<le> x \<Longrightarrow> x = y"
    by (cases x; cases y) (simp_all add: less_eq_constraint_field_def)
qed (auto simp: less_eq_constraint_field_def less_constraint_field_def)

end


datatype constraint_value = ValueText string | ValueBoolean bool

instantiation constraint_value :: linorder
begin

fun key_constraint_value :: "constraint_value \<Rightarrow> nat \<times> string \<times> bool" where
  "key_constraint_value (ValueText s) = (0, s, False)"
| "key_constraint_value (ValueBoolean b) = (1, [], b)"

definition less_eq_constraint_value :: "constraint_value \<Rightarrow> constraint_value \<Rightarrow> bool" where
  "less_eq_constraint_value a b \<longleftrightarrow> key_constraint_value a \<le> key_constraint_value b"

definition less_constraint_value :: "constraint_value \<Rightarrow> constraint_value \<Rightarrow> bool" where
  "less_constraint_value a b \<longleftrightarrow> key_constraint_value a < key_constraint_value b"

instance
proof
  fix x y :: constraint_value
  show "x \<le> y \<Longrightarrow> y \<le> x \<Longrightarrow> x = y"
    by (cases x; cases y) (auto simp: less_eq_constraint_value_def)
qed (auto simp: less_eq_constraint_value_def less_constraint_value_def)

end

definition constraint_field_supports_transition :: "constraint_field \<Rightarrow> bool" where
  "constraint_field_supports_transition f \<longleftrightarrow>
    f \<in> {FieldPhaseKind, FieldRevisionActive, FieldVerifierState, FieldPhase, FieldWorktreeLineage,
         FieldArtifactVersion, FieldExperimentState}"

fun constraint_field_accepts :: "constraint_field \<Rightarrow> constraint_value \<Rightarrow> bool" where
  "constraint_field_accepts f (ValueBoolean _) \<longleftrightarrow> f = FieldRevisionActive"
| "constraint_field_accepts f (ValueText _) \<longleftrightarrow>
    f \<in> {FieldAgentKind, FieldTaskKind, FieldProjectFamily, FieldToolchain, FieldOperationKind, FieldPhaseKind,
         FieldArtifactKind, FieldEnvironmentProfile, FieldVerifierState, FieldPhase, FieldFailureSignature,
         FieldWorktreeLineage, FieldArtifactVersion, FieldExperimentState}"

fun constraint_value_validate :: "constraint_value \<Rightarrow> (semantic_error, unit) result" where
  "constraint_value_validate (ValueText value) =
    (if value = [] \<or> length value > MAX_FIELD_VALUE_BYTES \<or> has_control value then Err InvalidConstraintExpr else Ok ())"
| "constraint_value_validate (ValueBoolean _) = Ok ()"

record constraint_binding =
  cb_field :: constraint_field
  cb_value :: constraint_value

record constraint_state =
  cs_bindings :: "constraint_binding list"

definition constraint_state_validate :: "constraint_state \<Rightarrow> (semantic_error, unit) result" where
  "constraint_state_validate s =
    (if length (cs_bindings s) > MAX_EXPR_NODES
        \<or> \<not> windows_all (\<lambda>a b. cb_field a < cb_field b) (cs_bindings s)
     then Err InvalidConstraintState
     else for_each (\<lambda>b. and_then (constraint_value_validate (cb_value b)) (\<lambda>_.
       if \<not> constraint_field_accepts (cb_field b) (cb_value b) then Err InvalidConstraintState else Ok ()))
       (cs_bindings s))"

type_synonym field_values = "constraint_field \<rightharpoonup> constraint_value"

text \<open>Collecting into a map: a later binding of a field would replace an earlier one.\<close>

definition constraint_state_values :: "constraint_state \<Rightarrow> (semantic_error, field_values) result" where
  "constraint_state_values s =
    and_then (constraint_state_validate s) (\<lambda>_. Ok (map_of (rev (map (\<lambda>b. (cb_field b, cb_value b)) (cs_bindings s)))))"

section \<open>Truth values\<close>

datatype constraint_truth = TruthTrue | TruthFalse | TruthUnknown

definition constraint_truth_allows_enforcement :: "constraint_truth \<Rightarrow> bool" where
  "constraint_truth_allows_enforcement t \<longleftrightarrow> t = TruthTrue"

definition constraint_truth_and :: "constraint_truth \<Rightarrow> constraint_truth \<Rightarrow> constraint_truth" where
  "constraint_truth_and a b =
    (if a = TruthFalse \<or> b = TruthFalse then TruthFalse
     else if a = TruthTrue \<and> b = TruthTrue then TruthTrue
     else TruthUnknown)"

definition constraint_truth_or :: "constraint_truth \<Rightarrow> constraint_truth \<Rightarrow> constraint_truth" where
  "constraint_truth_or a b =
    (if a = TruthTrue \<or> b = TruthTrue then TruthTrue
     else if a = TruthFalse \<and> b = TruthFalse then TruthFalse
     else TruthUnknown)"

fun constraint_truth_not :: "constraint_truth \<Rightarrow> constraint_truth" where
  "constraint_truth_not TruthTrue = TruthFalse"
| "constraint_truth_not TruthFalse = TruthTrue"
| "constraint_truth_not TruthUnknown = TruthUnknown"

definition constraint_truth_from :: "bool \<Rightarrow> constraint_truth" where
  "constraint_truth_from b = (if b then TruthTrue else TruthFalse)"

section \<open>Expressions\<close>

datatype constraint_expr =
    ExprAll "constraint_expr list"
  | ExprAny "constraint_expr list"
  | ExprNot constraint_expr
  | ExprEq constraint_field constraint_value
  | ExprIn constraint_field "constraint_value list"
  | ExprExists constraint_field
  | ExprChanged constraint_field
  | ExprTransitioned constraint_field constraint_value constraint_value

text \<open>The fields an expression refers to; the accumulator is the set the code adds to.\<close>

fun collect_referenced_fields :: "constraint_expr \<Rightarrow> constraint_field set \<Rightarrow> constraint_field set" where
  "collect_referenced_fields (ExprAll terms) acc = foldl (\<lambda>fs t. collect_referenced_fields t fs) acc terms"
| "collect_referenced_fields (ExprAny terms) acc = foldl (\<lambda>fs t. collect_referenced_fields t fs) acc terms"
| "collect_referenced_fields (ExprNot t) acc = collect_referenced_fields t acc"
| "collect_referenced_fields (ExprEq f _) acc = insert f acc"
| "collect_referenced_fields (ExprIn f _) acc = insert f acc"
| "collect_referenced_fields (ExprExists f) acc = insert f acc"
| "collect_referenced_fields (ExprChanged f) acc = insert f acc"
| "collect_referenced_fields (ExprTransitioned f _ _) acc = insert f acc"

definition referenced_fields :: "constraint_expr \<Rightarrow> constraint_field set" where
  "referenced_fields e = collect_referenced_fields e {}"

text \<open>
  Validation counts the nodes it visits, so the counter is threaded through; \<open>validate_terms\<close> is
  the loop over the terms of a conjunction or disjunction.
\<close>

definition enter_node :: "nat \<Rightarrow> nat \<Rightarrow> (semantic_error, nat) result" where
  "enter_node depth nodes =
    and_then (ok_or InvalidConstraintExpr (usize_checked_add nodes 1)) (\<lambda>nodes.
    if depth > MAX_EXPR_DEPTH \<or> nodes > MAX_EXPR_NODES then Err InvalidConstraintExpr else Ok nodes)"

definition value_fits :: "constraint_field \<Rightarrow> constraint_value \<Rightarrow> (semantic_error, unit) result" where
  "value_fits f v = and_then (constraint_value_validate v) (\<lambda>_.
    if \<not> constraint_field_accepts f v then Err InvalidConstraintExpr else Ok ())"

definition leaf_validate :: "constraint_expr \<Rightarrow> (semantic_error, unit) result" where
  "leaf_validate e = (case e of
      ExprEq f v \<Rightarrow> value_fits f v
    | ExprIn f vs \<Rightarrow>
        if vs = [] \<or> length vs > MAX_IN_VALUES \<or> \<not> windows_all (<) vs then Err InvalidConstraintExpr
        else for_each (value_fits f) vs
    | ExprTransitioned f from to \<Rightarrow>
        and_then (constraint_value_validate from) (\<lambda>_.
        and_then (constraint_value_validate to) (\<lambda>_.
        if \<not> constraint_field_supports_transition f \<or> \<not> constraint_field_accepts f from
           \<or> \<not> constraint_field_accepts f to \<or> from = to
        then Err InvalidConstraintExpr else Ok ()))
    | _ \<Rightarrow> Ok ())"

fun validate_inner :: "constraint_expr \<Rightarrow> nat \<Rightarrow> nat \<Rightarrow> (semantic_error, nat) result"
  and validate_terms :: "constraint_expr list \<Rightarrow> nat \<Rightarrow> nat \<Rightarrow> (semantic_error, nat) result" where
  "validate_inner (ExprAll terms) depth nodes =
    and_then (enter_node depth nodes) (\<lambda>nodes.
    if terms = [] \<or> length terms > MAX_BOOLEAN_TERMS then Err InvalidConstraintExpr
    else validate_terms terms (depth + 1) nodes)"
| "validate_inner (ExprAny terms) depth nodes =
    and_then (enter_node depth nodes) (\<lambda>nodes.
    if terms = [] \<or> length terms > MAX_BOOLEAN_TERMS then Err InvalidConstraintExpr
    else validate_terms terms (depth + 1) nodes)"
| "validate_inner (ExprNot t) depth nodes =
    and_then (enter_node depth nodes) (\<lambda>nodes. validate_inner t (depth + 1) nodes)"
| "validate_inner e depth nodes =
    and_then (enter_node depth nodes) (\<lambda>nodes. and_then (leaf_validate e) (\<lambda>_. Ok nodes))"
| "validate_terms [] depth nodes = Ok nodes"
| "validate_terms (t # ts) depth nodes =
    and_then (validate_inner t depth nodes) (\<lambda>nodes. validate_terms ts depth nodes)"

definition constraint_expr_validate :: "constraint_expr \<Rightarrow> (semantic_error, unit) result" where
  "constraint_expr_validate e = and_then (validate_inner e 1 0) (\<lambda>_. Ok ())"

fun evaluate_inner :: "constraint_expr \<Rightarrow> field_values \<Rightarrow> field_values option \<Rightarrow> constraint_truth" where
  "evaluate_inner (ExprAll terms) current previous =
    foldl (\<lambda>value t. constraint_truth_and value (evaluate_inner t current previous)) TruthTrue terms"
| "evaluate_inner (ExprAny terms) current previous =
    foldl (\<lambda>value t. constraint_truth_or value (evaluate_inner t current previous)) TruthFalse terms"
| "evaluate_inner (ExprNot t) current previous = constraint_truth_not (evaluate_inner t current previous)"
| "evaluate_inner (ExprEq f v) current previous =
    (case current f of None \<Rightarrow> TruthUnknown | Some observed \<Rightarrow> constraint_truth_from (observed = v))"
| "evaluate_inner (ExprIn f vs) current previous =
    (case current f of None \<Rightarrow> TruthUnknown | Some observed \<Rightarrow> constraint_truth_from (observed \<in> set vs))"
| "evaluate_inner (ExprExists f) current previous = (if current f \<noteq> None then TruthTrue else TruthUnknown)"
| "evaluate_inner (ExprChanged f) current previous =
    (case previous of None \<Rightarrow> TruthUnknown
     | Some before \<Rightarrow> (case (before f, current f) of
         (Some old, Some new) \<Rightarrow> constraint_truth_from (old \<noteq> new)
       | _ \<Rightarrow> TruthUnknown))"
| "evaluate_inner (ExprTransitioned f from to) current previous =
    (if \<not> constraint_field_supports_transition f \<or> from = to then TruthUnknown
     else case previous of None \<Rightarrow> TruthUnknown
     | Some before \<Rightarrow> (case (before f, current f) of
         (Some old, Some new) \<Rightarrow> constraint_truth_from (old = from \<and> new = to)
       | _ \<Rightarrow> TruthUnknown))"

definition constraint_expr_evaluate ::
  "constraint_expr \<Rightarrow> constraint_state \<Rightarrow> constraint_state option \<Rightarrow> constraint_truth" where
  "constraint_expr_evaluate e current previous =
    (case constraint_expr_validate e of Err _ \<Rightarrow> TruthUnknown
     | Ok _ \<Rightarrow> (case constraint_state_values current of Err _ \<Rightarrow> TruthUnknown
       | Ok now \<Rightarrow> (case previous of
           None \<Rightarrow> evaluate_inner e now None
         | Some state \<Rightarrow> (case constraint_state_values state of
             Err _ \<Rightarrow> TruthUnknown
           | Ok before \<Rightarrow> evaluate_inner e now (Some before)))))"

datatype applicability_expr = ApplicabilityAlways | ApplicabilityConstraint constraint_expr

fun applicability_expr_validate :: "applicability_expr \<Rightarrow> (semantic_error, unit) result" where
  "applicability_expr_validate ApplicabilityAlways = Ok ()"
| "applicability_expr_validate (ApplicabilityConstraint e) = constraint_expr_validate e"

fun applicability_expr_evaluate ::
  "applicability_expr \<Rightarrow> constraint_state \<Rightarrow> constraint_state option \<Rightarrow> constraint_truth" where
  "applicability_expr_evaluate ApplicabilityAlways current previous = TruthTrue"
| "applicability_expr_evaluate (ApplicabilityConstraint e) current previous = constraint_expr_evaluate e current previous"

section \<open>Validation\<close>

text \<open>The size and height of an expression and the local conditions on its nodes.\<close>

fun expr_nodes :: "constraint_expr \<Rightarrow> nat" where
  "expr_nodes (ExprAll terms) = Suc (sum_list (map expr_nodes terms))"
| "expr_nodes (ExprAny terms) = Suc (sum_list (map expr_nodes terms))"
| "expr_nodes (ExprNot t) = Suc (expr_nodes t)"
| "expr_nodes _ = 1"

fun expr_depth :: "constraint_expr \<Rightarrow> nat" where
  "expr_depth (ExprAll terms) = Suc (foldr max (map expr_depth terms) 0)"
| "expr_depth (ExprAny terms) = Suc (foldr max (map expr_depth terms) 0)"
| "expr_depth (ExprNot t) = Suc (expr_depth t)"
| "expr_depth _ = 1"

fun shape_ok :: "constraint_expr \<Rightarrow> bool" where
  "shape_ok (ExprAll terms) \<longleftrightarrow> terms \<noteq> [] \<and> length terms \<le> MAX_BOOLEAN_TERMS \<and> (\<forall>t \<in> set terms. shape_ok t)"
| "shape_ok (ExprAny terms) \<longleftrightarrow> terms \<noteq> [] \<and> length terms \<le> MAX_BOOLEAN_TERMS \<and> (\<forall>t \<in> set terms. shape_ok t)"
| "shape_ok (ExprNot t) \<longleftrightarrow> shape_ok t"
| "shape_ok e \<longleftrightarrow> leaf_validate e = Ok ()"

lemma foldr_max_add:
  "xs \<noteq> [] \<Longrightarrow> foldr max (map f xs) 0 + d \<le> (n :: nat) \<longleftrightarrow> (\<forall>x \<in> set xs. f x + d \<le> n)"
  by (induction xs rule: list_nonempty_induct) auto

lemma depth_room: "xs \<noteq> [] \<Longrightarrow> \<forall>x \<in> set xs. f x + d \<le> (n :: nat) \<Longrightarrow> d \<le> n"
  by (cases xs) auto

lemma enter_node_iff:
  "n \<le> MAX_EXPR_NODES \<Longrightarrow> enter_node d n = Ok n' \<longleftrightarrow> d \<le> MAX_EXPR_DEPTH \<and> n < MAX_EXPR_NODES \<and> n' = Suc n"
  by (auto simp: enter_node_def usize_checked_add_def and_then_Inr_iff ok_or_Inr_iff MAX_EXPR_NODES_def)

lemma validate_inner_iff:
  "n \<le> MAX_EXPR_NODES \<Longrightarrow> 1 \<le> d \<Longrightarrow> validate_inner e d n = Ok n' \<longleftrightarrow>
    n' = n + expr_nodes e \<and> n' \<le> MAX_EXPR_NODES \<and> expr_depth e + d \<le> Suc MAX_EXPR_DEPTH \<and> shape_ok e"
  "n \<le> MAX_EXPR_NODES \<Longrightarrow> 1 \<le> d \<Longrightarrow> validate_terms es d n = Ok n' \<longleftrightarrow>
    n' = n + sum_list (map expr_nodes es) \<and> n' \<le> MAX_EXPR_NODES
    \<and> (\<forall>t \<in> set es. expr_depth t + d \<le> Suc MAX_EXPR_DEPTH) \<and> (\<forall>t \<in> set es. shape_ok t)"
proof (induction e d n and es d n arbitrary: n' and n' rule: validate_inner_validate_terms.induct)
  case (1 terms d n)
  then show ?case by (auto simp: and_then_Inr_iff enter_node_iff foldr_max_add intro: depth_room)
next
  case (2 terms d n)
  then show ?case by (auto simp: and_then_Inr_iff enter_node_iff foldr_max_add intro: depth_room)
qed (auto simp: and_then_Inr_iff enter_node_iff)

text \<open>
  An expression is accepted exactly if it has at most 128 nodes, is at most 12 levels deep and
  every node is well formed; the counter the code threads through never matters otherwise.
\<close>

theorem constraint_validate_iff:
  "constraint_expr_validate e = Ok () \<longleftrightarrow>
    expr_nodes e \<le> MAX_EXPR_NODES \<and> expr_depth e \<le> MAX_EXPR_DEPTH \<and> shape_ok e"
  by (auto simp: constraint_expr_validate_def and_then_Inr_iff validate_inner_iff)

section \<open>Evaluation\<close>

named_theorems truth_simps \<open>when a combined truth value is decided\<close>

lemma constraint_truth_and_iff [truth_simps]:
  "constraint_truth_and a b = TruthTrue \<longleftrightarrow> a = TruthTrue \<and> b = TruthTrue"
  "constraint_truth_and a b = TruthFalse \<longleftrightarrow> a = TruthFalse \<or> b = TruthFalse"
  by (auto simp: constraint_truth_and_def)

lemma constraint_truth_or_iff [truth_simps]:
  "constraint_truth_or a b = TruthTrue \<longleftrightarrow> a = TruthTrue \<or> b = TruthTrue"
  "constraint_truth_or a b = TruthFalse \<longleftrightarrow> a = TruthFalse \<and> b = TruthFalse"
  by (auto simp: constraint_truth_or_def)

lemma constraint_truth_not_iff [truth_simps]:
  "constraint_truth_not a = TruthTrue \<longleftrightarrow> a = TruthFalse" "constraint_truth_not a = TruthFalse \<longleftrightarrow> a = TruthTrue"
  by (cases a; simp)+

lemma constraint_truth_from_iff [truth_simps]:
  "constraint_truth_from b = TruthTrue \<longleftrightarrow> b" "constraint_truth_from b = TruthFalse \<longleftrightarrow> \<not> b"
  by (simp_all add: constraint_truth_from_def)

lemma foldl_and_iff [truth_simps]:
  "foldl (\<lambda>v t. constraint_truth_and v (g t)) b ts = TruthTrue \<longleftrightarrow> b = TruthTrue \<and> (\<forall>t \<in> set ts. g t = TruthTrue)"
  "foldl (\<lambda>v t. constraint_truth_and v (g t)) b ts = TruthFalse \<longleftrightarrow> b = TruthFalse \<or> (\<exists>t \<in> set ts. g t = TruthFalse)"
  by (induction ts arbitrary: b) (auto simp: truth_simps)

lemma foldl_or_iff [truth_simps]:
  "foldl (\<lambda>v t. constraint_truth_or v (g t)) b ts = TruthTrue \<longleftrightarrow> b = TruthTrue \<or> (\<exists>t \<in> set ts. g t = TruthTrue)"
  "foldl (\<lambda>v t. constraint_truth_or v (g t)) b ts = TruthFalse \<longleftrightarrow> b = TruthFalse \<and> (\<forall>t \<in> set ts. g t = TruthFalse)"
  by (induction ts arbitrary: b) (auto simp: truth_simps)

text \<open>
  The classical reading of an expression: in a state of the world a field has a value or is
  absent, now and before.
\<close>

fun holds :: "constraint_expr \<Rightarrow> field_values \<Rightarrow> field_values \<Rightarrow> bool" where
  "holds (ExprAll terms) now before \<longleftrightarrow> (\<forall>t \<in> set terms. holds t now before)"
| "holds (ExprAny terms) now before \<longleftrightarrow> (\<exists>t \<in> set terms. holds t now before)"
| "holds (ExprNot t) now before \<longleftrightarrow> \<not> holds t now before"
| "holds (ExprEq f v) now before \<longleftrightarrow> now f = Some v"
| "holds (ExprIn f vs) now before \<longleftrightarrow> now f \<in> Some ` set vs"
| "holds (ExprExists f) now before \<longleftrightarrow> f \<in> dom now"
| "holds (ExprChanged f) now before \<longleftrightarrow> before f \<noteq> now f"
| "holds (ExprTransitioned f from to) now before \<longleftrightarrow> before f = Some from \<and> now f = Some to"

lemma map_le_Some: "m \<subseteq>\<^sub>m m' \<Longrightarrow> m k = Some v \<Longrightarrow> m' k = Some v"
  by (metis domI map_le_def)

lemma evaluate_inner_sound:
  assumes "shape_ok e" and "now \<subseteq>\<^sub>m now'" and "before \<subseteq>\<^sub>m before'"
  shows "(evaluate_inner e now (Some before) = TruthTrue \<longrightarrow> holds e now' before')
    \<and> (evaluate_inner e now (Some before) = TruthFalse \<longrightarrow> \<not> holds e now' before')"
  using assms(1)
proof (induction e)
  case (ExprChanged f)
  show ?case
    by (cases "now f"; cases "before f") (simp_all add: truth_simps map_le_Some [OF assms(2)] map_le_Some [OF assms(3)])
qed (auto simp: truth_simps dest: map_le_Some [OF assms(2)] map_le_Some [OF assms(3)] split: option.splits if_splits)

lemma evaluate_inner_no_previous: "evaluate_inner e now None = evaluate_inner e now (Some Map.empty)"
  by (induction e) (simp_all cong: foldl_cong)

lemma foldl_union:
  assumes "\<And>t S. t \<in> set ts \<Longrightarrow> g t S = g t {} \<union> S"
  shows "foldl (\<lambda>S t. g t S) S ts = (\<Union>t \<in> set ts. g t {}) \<union> S"
  using assms
proof (induction ts arbitrary: S)
  case (Cons t ts)
  have "g t S = g t {} \<union> S" by (rule Cons.prems) simp
  moreover have "foldl (\<lambda>S t. g t S) (g t S) ts = (\<Union>u \<in> set ts. g u {}) \<union> g t S"
    by (rule Cons.IH, rule Cons.prems) simp
  ultimately show ?case by (simp add: Un_ac)
qed simp

lemma collect_union: "collect_referenced_fields e acc = collect_referenced_fields e {} \<union> acc"
proof (induction e arbitrary: acc)
  case (ExprAll ts)
  note u = foldl_union [of ts collect_referenced_fields, OF ExprAll]
  show ?case by (simp only: collect_referenced_fields.simps u) simp
next
  case (ExprAny ts)
  note u = foldl_union [of ts collect_referenced_fields, OF ExprAny]
  show ?case by (simp only: collect_referenced_fields.simps u) simp
next
  case (ExprNot e)
  show ?case unfolding collect_referenced_fields.simps by (rule ExprNot)
qed simp_all

lemma foldl_referenced:
  "foldl (\<lambda>S t. collect_referenced_fields t S) {} ts = (\<Union>t \<in> set ts. collect_referenced_fields t {})"
  using foldl_union [of ts collect_referenced_fields "{}", OF collect_union] by simp

lemma referenced_fields_simps [simp]:
  "referenced_fields (ExprAll ts) = (\<Union>t \<in> set ts. referenced_fields t)"
  "referenced_fields (ExprAny ts) = (\<Union>t \<in> set ts. referenced_fields t)"
  "referenced_fields (ExprNot t) = referenced_fields t"
  "referenced_fields (ExprEq f v) = {f}" "referenced_fields (ExprIn f vs) = {f}" "referenced_fields (ExprExists f) = {f}"
  "referenced_fields (ExprChanged f) = {f}" "referenced_fields (ExprTransitioned f from to) = {f}"
  by (simp_all add: referenced_fields_def foldl_referenced)

lemma truth_decided: "t \<noteq> TruthUnknown \<longleftrightarrow> t = TruthTrue \<or> t = TruthFalse"
  by (cases t) simp_all

lemma evaluate_inner_decided:
  assumes "shape_ok e" and "referenced_fields e \<subseteq> dom now \<inter> dom before"
  shows "evaluate_inner e now (Some before) \<noteq> TruthUnknown"
  using assms
proof (induction e)
  case (ExprAll ts)
  then have "\<forall>t \<in> set ts. evaluate_inner t now (Some before) \<noteq> TruthUnknown" by (simp add: UN_subset_iff)
  then show ?case by (auto simp: truth_decided truth_simps)
next
  case (ExprAny ts)
  then have "\<forall>t \<in> set ts. evaluate_inner t now (Some before) \<noteq> TruthUnknown" by (simp add: UN_subset_iff)
  then show ?case by (auto simp: truth_decided truth_simps)
qed (auto simp: truth_decided truth_simps leaf_validate_def result_simps split: if_splits)

text \<open>What an earlier state shows; without one, nothing has been observed.\<close>

fun earlier_values :: "constraint_state option \<Rightarrow> (semantic_error, field_values) result" where
  "earlier_values None = Ok Map.empty"
| "earlier_values (Some state) = constraint_state_values state"

section \<open>Expressions that mention each field once\<close>

fun field_occurrences :: "constraint_expr \<Rightarrow> constraint_field list" where
  "field_occurrences (ExprAll terms) = concat (map field_occurrences terms)"
| "field_occurrences (ExprAny terms) = concat (map field_occurrences terms)"
| "field_occurrences (ExprNot t) = field_occurrences t"
| "field_occurrences (ExprEq f _) = [f]"
| "field_occurrences (ExprIn f _) = [f]"
| "field_occurrences (ExprExists f) = [f]"
| "field_occurrences (ExprChanged f) = [f]"
| "field_occurrences (ExprTransitioned f _ _) = [f]"

lemma field_occurrences_set: "set (field_occurrences e) = referenced_fields e"
  by (induction e) simp_all

text \<open>
  A transition of which only one end has been observed is not refuted by the evaluation even when
  that end has another value; \<open>transitions_open\<close> says that there is no such transition.
\<close>

fun transitions_open :: "constraint_expr \<Rightarrow> field_values \<Rightarrow> field_values \<Rightarrow> bool" where
  "transitions_open (ExprAll terms) now before \<longleftrightarrow> (\<forall>t \<in> set terms. transitions_open t now before)"
| "transitions_open (ExprAny terms) now before \<longleftrightarrow> (\<forall>t \<in> set terms. transitions_open t now before)"
| "transitions_open (ExprNot t) now before \<longleftrightarrow> transitions_open t now before"
| "transitions_open (ExprTransitioned f from to) now before \<longleftrightarrow>
    f \<in> dom now \<inter> dom before \<or> now f \<in> {None, Some to} \<and> before f \<in> {None, Some from}"
| "transitions_open _ now before \<longleftrightarrow> True"

lemma holds_relevant:
  assumes "\<And>f. f \<in> referenced_fields e \<Longrightarrow> now f = now' f \<and> before f = before' f"
  shows "holds e now before = holds e now' before'"
  using assms
proof (induction e)
  case (ExprAll ts)
  then have "\<forall>t \<in> set ts. holds t now before = holds t now' before'" by fastforce
  then show ?case by simp
next
  case (ExprAny ts)
  then have "\<forall>t \<in> set ts. holds t now before = holds t now' before'" by fastforce
  then show ?case by simp
qed (simp_all add: domIff)

text \<open>The worlds that agree with what has been observed.\<close>

definition agrees :: "field_values \<Rightarrow> field_values \<Rightarrow> field_values \<times> field_values \<Rightarrow> bool" where
  "agrees now before w \<longleftrightarrow> now \<subseteq>\<^sub>m fst w \<and> before \<subseteq>\<^sub>m snd w"

lemma agrees_merge:
  assumes "agrees now before w" and "agrees now before w'"
  shows "agrees now before (\<lambda>f. if f \<in> F then fst w f else fst w' f, \<lambda>f. if f \<in> F then snd w f else snd w' f)"
  using assms by (auto simp: agrees_def map_le_def)

lemma worlds_combine:
  assumes "distinct (concat (map field_occurrences ts))"
    and "\<forall>t \<in> set ts. \<exists>w. agrees now before w \<and> holds t (fst w) (snd w) = v"
  shows "\<exists>w. agrees now before w \<and> (\<forall>t \<in> set ts. holds t (fst w) (snd w) = v)"
  using assms
proof (induction ts)
  case Nil
  show ?case by (intro exI [of _ "(now, before)"]) (simp add: agrees_def)
next
  case (Cons t ts)
  then obtain w where w: "agrees now before w" "\<forall>t \<in> set ts. holds t (fst w) (snd w) = v" by auto
  from Cons.prems obtain u where u: "agrees now before u" "holds t (fst u) (snd u) = v" by auto
  let ?F = "referenced_fields t"
  let ?m = "(\<lambda>f. if f \<in> ?F then fst u f else fst w f, \<lambda>f. if f \<in> ?F then snd u f else snd w f)"
  have "holds t (fst ?m) (snd ?m) = v" using u(2) holds_relevant [of t "fst ?m" "fst u" "snd ?m" "snd u"] by simp
  moreover have "holds t' (fst ?m) (snd ?m) = v" if "t' \<in> set ts" for t'
  proof -
    have "?F \<inter> referenced_fields t' = {}" using Cons.prems(1) that by (auto simp: field_occurrences_set)
    then have "holds t' (fst ?m) (snd ?m) = holds t' (fst w) (snd w)" by (intro holds_relevant) auto
    with w(2) that show ?thesis by blast
  qed
  ultimately show ?case using agrees_merge [OF u(1) w(1), of ?F] by (intro exI [of _ ?m]) simp
qed

lemma distinct_term: "distinct (concat (map field_occurrences ts)) \<Longrightarrow> t \<in> set ts \<Longrightarrow> distinct (field_occurrences t)"
  by (induction ts) auto

lemma evaluate_inner_open:
  assumes "shape_ok e" and "distinct (field_occurrences e)" and "transitions_open e now before"
  shows "(evaluate_inner e now (Some before) \<noteq> TruthFalse \<longrightarrow> (\<exists>w. agrees now before w \<and> holds e (fst w) (snd w) = True))
    \<and> (evaluate_inner e now (Some before) \<noteq> TruthTrue \<longrightarrow> (\<exists>w. agrees now before w \<and> holds e (fst w) (snd w) = False))"
  using assms
proof (induction e)
  case (ExprAll ts)
  note ih = ExprAll.IH [OF _ _ distinct_term [of ts]]
  have "\<exists>w. agrees now before w \<and> (\<forall>t \<in> set ts. holds t (fst w) (snd w) = True)"
    if "evaluate_inner (ExprAll ts) now (Some before) \<noteq> TruthFalse"
    using that ih ExprAll.prems by (intro worlds_combine) (auto simp: truth_simps)
  moreover have "\<exists>t \<in> set ts. \<exists>w. agrees now before w \<and> holds t (fst w) (snd w) = False"
    if "evaluate_inner (ExprAll ts) now (Some before) \<noteq> TruthTrue"
    using that ih ExprAll.prems by (fastforce simp: truth_simps)
  ultimately show ?case by auto
next
  case (ExprAny ts)
  note ih = ExprAny.IH [OF _ _ distinct_term [of ts]]
  have "\<exists>w. agrees now before w \<and> (\<forall>t \<in> set ts. holds t (fst w) (snd w) = False)"
    if "evaluate_inner (ExprAny ts) now (Some before) \<noteq> TruthTrue"
    using that ih ExprAny.prems by (intro worlds_combine) (auto simp: truth_simps)
  moreover have "\<exists>t \<in> set ts. \<exists>w. agrees now before w \<and> holds t (fst w) (snd w) = True"
    if "evaluate_inner (ExprAny ts) now (Some before) \<noteq> TruthFalse"
    using that ih ExprAny.prems by (fastforce simp: truth_simps)
  ultimately show ?case by auto
next
  case (ExprNot e)
  then show ?case by (auto simp: truth_simps)
next
  case (ExprEq f v)
  have "agrees now before (now(f \<mapsto> v), before)" if "now f = None" using that by (auto simp: agrees_def map_le_def)
  moreover have "agrees now before (now, before)" by (simp add: agrees_def)
  ultimately show ?case by (cases "now f") (force simp: truth_simps)+
next
  case (ExprIn f vs)
  then obtain v where v: "v \<in> set vs" by (cases vs) (auto simp: leaf_validate_def)
  have "agrees now before (now(f \<mapsto> v), before)" if "now f = None" using that by (auto simp: agrees_def map_le_def)
  moreover have "agrees now before (now, before)" by (simp add: agrees_def)
  ultimately show ?case using v by (cases "now f") (force simp: truth_simps)+
next
  case (ExprExists f)
  have "agrees now before (now(f \<mapsto> v), before)" if "now f = None" for v using that by (auto simp: agrees_def map_le_def)
  moreover have "agrees now before (now, before)" by (simp add: agrees_def)
  ultimately show ?case by (cases "now f") (force simp: truth_simps)+
next
  case (ExprChanged f)
  have worlds: "agrees now before (now, before)"
    "now f = None \<Longrightarrow> agrees now before (now(f := x), before)" "before f = None \<Longrightarrow> agrees now before (now, before(f := x))" for x
    by (auto simp: agrees_def map_le_def)
  show ?case
  proof (cases "now f")
    case None
    then have "holds (ExprChanged f) (now(f := Some (ValueBoolean True))) before \<or> holds (ExprChanged f) now before"
      "\<not> holds (ExprChanged f) (now(f := before f)) before" by auto
    with worlds None show ?thesis by (metis fst_conv snd_conv)
  next
    case (Some v)
    show ?thesis
    proof (cases "before f")
      case None
      then have "holds (ExprChanged f) now before" "\<not> holds (ExprChanged f) now (before(f := now f))" using Some by auto
      with worlds None show ?thesis by (metis fst_conv snd_conv)
    next
      case (Some u)
      then have "evaluate_inner (ExprChanged f) now (Some before) = constraint_truth_from (holds (ExprChanged f) now before)"
        using \<open>now f = Some v\<close> by simp
      with worlds(1) show ?thesis by (metis fst_conv snd_conv constraint_truth_from_iff)
    qed
  qed
next
  case (ExprTransitioned f a b)
  show ?case
  proof (cases "f \<in> dom now \<inter> dom before")
    case True
    moreover have "agrees now before (now, before)" by (simp add: agrees_def)
    ultimately show ?thesis using ExprTransitioned.prems(1) by (force simp: truth_simps leaf_validate_def result_simps)
  next
    case False
    with ExprTransitioned.prems(3) have "agrees now before (now(f \<mapsto> b), before(f \<mapsto> a))" by (auto simp: agrees_def map_le_def)
    moreover have "agrees now before (now, before)" by (simp add: agrees_def)
    moreover have "\<not> holds (ExprTransitioned f a b) now before" using False by auto
    ultimately show ?thesis by (metis fst_conv snd_conv fun_upd_same holds.simps(8))
  qed
qed

text \<open>
  C22. The verdict of an evaluation, with or without an earlier state, is sound, and it is as complete
  as a verdict by parts can be. A state of the world gives each field a value or leaves it absent.
  An expression that evaluates to true holds in every state of the world that agrees with the
  observations, and one that evaluates to false holds in none. When all its fields have been
  observed, before and now, it is decided. And when it mentions no field twice and no
  half-observed transition is already refuted, it stays unknown exactly if the observations leave it open:
  it holds in one world that agrees with them and fails in another.
\<close>

theorem constraint_evaluation_sound_complete:
  assumes "constraint_state_values current = Ok now" and "earlier_values previous = Ok before"
    and "constraint_expr_validate e = Ok ()"
  shows "(constraint_expr_evaluate e current previous = TruthTrue \<longrightarrow> (\<forall>w. agrees now before w \<longrightarrow> holds e (fst w) (snd w)))
    \<and> (constraint_expr_evaluate e current previous = TruthFalse \<longrightarrow> (\<forall>w. agrees now before w \<longrightarrow> \<not> holds e (fst w) (snd w)))
    \<and> (referenced_fields e \<subseteq> dom now \<inter> dom before \<longrightarrow> constraint_expr_evaluate e current previous \<noteq> TruthUnknown)
    \<and> (distinct (field_occurrences e) \<and> transitions_open e now before \<longrightarrow>
        (constraint_expr_evaluate e current previous = TruthUnknown \<longleftrightarrow>
          (\<exists>w. agrees now before w \<and> holds e (fst w) (snd w)) \<and> (\<exists>w. agrees now before w \<and> \<not> holds e (fst w) (snd w))))"
proof -
  have shape: "shape_ok e" using assms(3) by (auto simp: constraint_expr_validate_def and_then_Inr_iff validate_inner_iff)
  have ev: "constraint_expr_evaluate e current previous = evaluate_inner e now (Some before)"
    using assms by (cases previous) (auto simp: constraint_expr_evaluate_def evaluate_inner_no_previous)
  note sound = evaluate_inner_sound [OF shape]
  have decides: "holds e (fst w) (snd w)" if "evaluate_inner e now (Some before) = TruthTrue" "agrees now before w" for w
    using sound that by (auto simp: agrees_def)
  moreover have refutes: "\<not> holds e (fst w) (snd w)" if "evaluate_inner e now (Some before) = TruthFalse" "agrees now before w" for w
    using sound that by (auto simp: agrees_def)
  moreover have "evaluate_inner e now (Some before) = TruthUnknown \<longleftrightarrow>
      (\<exists>w. agrees now before w \<and> holds e (fst w) (snd w)) \<and> (\<exists>w. agrees now before w \<and> \<not> holds e (fst w) (snd w))"
    if "distinct (field_occurrences e)" "transitions_open e now before"
  proof (cases "evaluate_inner e now (Some before)")
    case TruthUnknown
    with evaluate_inner_open [OF shape that] show ?thesis by auto
  qed (use decides refutes in auto)
  ultimately show ?thesis unfolding ev using evaluate_inner_decided [OF shape] by blast
qed

definition sample_expr :: constraint_expr where
  "sample_expr = ExprAll [ExprEq FieldPhase (ValueText ''p''), ExprNot (ExprChanged FieldPhase)]"

definition sample_fields :: constraint_state where
  "sample_fields = \<lparr>cs_bindings = [\<lparr>cb_field = FieldPhase, cb_value = ValueText ''p''\<rparr>]\<rparr>"

lemma sample_fields_values: "constraint_state_values sample_fields = Ok [FieldPhase \<mapsto> ValueText ''p'']"
  by (simp add: constraint_state_values_def constraint_state_validate_def sample_fields_def MAX_EXPR_NODES_def
      MAX_FIELD_VALUE_BYTES_def has_control_def)

lemma sample_expr_valid: "constraint_expr_validate sample_expr = Ok ()"
  by (simp add: constraint_expr_validate_def sample_expr_def enter_node_def usize_checked_add_def ok_or_def leaf_validate_def
      value_fits_def MAX_EXPR_NODES_def MAX_EXPR_DEPTH_def MAX_BOOLEAN_TERMS_def MAX_FIELD_VALUE_BYTES_def has_control_def)

definition sample_open_expr :: constraint_expr where
  "sample_open_expr = ExprAll [ExprEq FieldPhase (ValueText ''p''), ExprExists FieldTaskKind]"

lemma sample_open_expr_valid: "constraint_expr_validate sample_open_expr = Ok ()"
  by (simp add: constraint_expr_validate_def sample_open_expr_def enter_node_def usize_checked_add_def ok_or_def leaf_validate_def
      value_fits_def MAX_EXPR_NODES_def MAX_EXPR_DEPTH_def MAX_BOOLEAN_TERMS_def MAX_FIELD_VALUE_BYTES_def has_control_def)

theorem constraint_evaluation_sound_complete_witness:
  "holds sample_expr [FieldPhase \<mapsto> ValueText ''p''] [FieldPhase \<mapsto> ValueText ''p'']
    \<and> (\<exists>w. agrees [FieldPhase \<mapsto> ValueText ''p''] Map.empty w \<and> holds sample_open_expr (fst w) (snd w))
    \<and> (\<exists>w. agrees [FieldPhase \<mapsto> ValueText ''p''] Map.empty w \<and> \<not> holds sample_open_expr (fst w) (snd w))"
proof -
  let ?m = "[FieldPhase \<mapsto> ValueText ''p'']"
  have "constraint_expr_evaluate sample_expr sample_fields (Some sample_fields) = TruthTrue"
    by (simp add: constraint_expr_evaluate_def sample_expr_valid sample_fields_values)
      (simp add: sample_expr_def constraint_truth_from_def constraint_truth_and_def)
  then have "holds sample_expr (fst w) (snd w)" if "agrees ?m ?m w" for w
    using constraint_evaluation_sound_complete [OF sample_fields_values _ sample_expr_valid, of "Some sample_fields" ?m]
      sample_fields_values that by simp
  from this [of "(?m, ?m)"] have "holds sample_expr ?m ?m" by (simp add: agrees_def)
  moreover have "constraint_expr_evaluate sample_open_expr sample_fields None = TruthUnknown"
    by (simp add: constraint_expr_evaluate_def sample_open_expr_valid sample_fields_values)
      (simp add: sample_open_expr_def constraint_truth_from_def constraint_truth_and_def)
  moreover have "distinct (field_occurrences sample_open_expr)" "transitions_open sample_open_expr ?m Map.empty"
    by (simp_all add: sample_open_expr_def)
  ultimately show ?thesis
    using constraint_evaluation_sound_complete [OF sample_fields_values _ sample_open_expr_valid, of None Map.empty] by simp
qed

end
