(* ===== verification/Atom.thy ===== *)
theory Atom
  imports Constraint Canonical Identifiers
begin

text \<open>
  Atoms of the semantic memory, \<open>evertrace-domain/src/semantic/atom.rs\<close>: their kinds,
  authorities, scopes, values and provenance, the validation of atoms and drafts and the
  acceptance of successors. The hash function, the \<open>uuid\<close> crate and the TOML serialiser are
  arguments. The lemmas show what an accepted atom owes to its authority and how the
  revisions of an atom may develop.
\<close>

section \<open>Vocabulary\<close>

type_synonym revision_proposal_id = uuid

definition MAX_VALUE_BYTES :: nat where "MAX_VALUE_BYTES = 16 * 1024"
definition MAX_TEXT_BYTES :: nat where "MAX_TEXT_BYTES = 1024"
definition ATOM_MAX_REFS :: nat where "ATOM_MAX_REFS = 256"
definition MAX_QUALIFIERS :: nat where "MAX_QUALIFIERS = 64"

datatype atom_kind =
    KindFact
  | KindConstraint
  | KindDecision
  | KindFailure
  | KindOutcome
  | KindHypothesis
  | KindResult
  | KindClaim
  | KindCitation
  | KindRationale
  | KindAnnotation

instantiation atom_kind :: linorder
begin

fun rank_atom_kind :: "atom_kind \<Rightarrow> nat" where
  "rank_atom_kind KindFact = 0"
| "rank_atom_kind KindConstraint = 1"
| "rank_atom_kind KindDecision = 2"
| "rank_atom_kind KindFailure = 3"
| "rank_atom_kind KindOutcome = 4"
| "rank_atom_kind KindHypothesis = 5"
| "rank_atom_kind KindResult = 6"
| "rank_atom_kind KindClaim = 7"
| "rank_atom_kind KindCitation = 8"
| "rank_atom_kind KindRationale = 9"
| "rank_atom_kind KindAnnotation = 10"

definition less_eq_atom_kind :: "atom_kind \<Rightarrow> atom_kind \<Rightarrow> bool" where
  "less_eq_atom_kind a b \<longleftrightarrow> rank_atom_kind a \<le> rank_atom_kind b"

definition less_atom_kind :: "atom_kind \<Rightarrow> atom_kind \<Rightarrow> bool" where
  "less_atom_kind a b \<longleftrightarrow> rank_atom_kind a < rank_atom_kind b"

instance
proof
  fix x y :: atom_kind
  show "x \<le> y \<Longrightarrow> y \<le> x \<Longrightarrow> x = y"
    by (cases x; cases y) (simp_all add: less_eq_atom_kind_def)
qed (auto simp: less_eq_atom_kind_def less_atom_kind_def)

end

definition atom_kind_is_normative :: "atom_kind \<Rightarrow> bool" where
  "atom_kind_is_normative k \<longleftrightarrow> k \<in> {KindConstraint, KindDecision}"

definition atom_kind_is_descriptive :: "atom_kind \<Rightarrow> bool" where
  "atom_kind_is_descriptive k \<longleftrightarrow> k \<in> {KindFact, KindFailure, KindOutcome, KindHypothesis, KindResult, KindClaim,
    KindCitation, KindRationale, KindAnnotation}"

definition atom_kind_supports_objective_evidence :: "atom_kind \<Rightarrow> bool" where
  "atom_kind_supports_objective_evidence k \<longleftrightarrow> k \<in> {KindFact, KindFailure, KindOutcome, KindResult, KindClaim, KindCitation}"

datatype epistemic_status =
    EpistemicNotApplicable | EpistemicUnverified | EpistemicSupported | EpistemicDisputed | EpistemicRefuted

fun epistemic_status_as_str :: "epistemic_status \<Rightarrow> string" where
  "epistemic_status_as_str EpistemicNotApplicable = ''not_applicable''"
| "epistemic_status_as_str EpistemicUnverified = ''unverified''"
| "epistemic_status_as_str EpistemicSupported = ''supported''"
| "epistemic_status_as_str EpistemicDisputed = ''disputed''"
| "epistemic_status_as_str EpistemicRefuted = ''refuted''"

datatype atom_lifecycle_status = AtomActive | AtomSuperseded | AtomDeprecated

fun atom_lifecycle_status_as_str :: "atom_lifecycle_status \<Rightarrow> string" where
  "atom_lifecycle_status_as_str AtomActive = ''active''"
| "atom_lifecycle_status_as_str AtomSuperseded = ''superseded''"
| "atom_lifecycle_status_as_str AtomDeprecated = ''deprecated''"

datatype atom_authority =
    UserExplicit | ProjectPolicy | ObjectiveEvidence | AgentInferred | ImportedClaim

fun atom_authority_as_str :: "atom_authority \<Rightarrow> string" where
  "atom_authority_as_str UserExplicit = ''user_explicit''"
| "atom_authority_as_str ProjectPolicy = ''project_policy''"
| "atom_authority_as_str ObjectiveEvidence = ''objective_evidence''"
| "atom_authority_as_str AgentInferred = ''agent_inferred''"
| "atom_authority_as_str ImportedClaim = ''imported_claim''"

datatype atom_scope =
    AtomScopeTask task_id
  | AtomScopeWorktree repository_id worktree_id
  | AtomScopeRepository repository_id
  | AtomScopeGlobal

fun atom_scope_specificity :: "atom_scope \<Rightarrow> u8" where
  "atom_scope_specificity (AtomScopeTask _) = 4"
| "atom_scope_specificity (AtomScopeWorktree _ _) = 3"
| "atom_scope_specificity (AtomScopeRepository _) = 2"
| "atom_scope_specificity AtomScopeGlobal = 1"

fun atom_scope_contains :: "atom_scope \<Rightarrow> atom_scope \<Rightarrow> bool" where
  "atom_scope_contains AtomScopeGlobal _ = True"
| "atom_scope_contains (AtomScopeTask a) (AtomScopeTask b) = (a = b)"
| "atom_scope_contains (AtomScopeWorktree r w) (AtomScopeWorktree r' w') = (r = r' \<and> w = w')"
| "atom_scope_contains (AtomScopeRepository r) (AtomScopeRepository r') = (r = r')"
| "atom_scope_contains (AtomScopeRepository r) (AtomScopeWorktree r' _) = (r = r')"
| "atom_scope_contains _ _ = False"

fun atom_scope_task_id :: "atom_scope \<Rightarrow> task_id option" where
  "atom_scope_task_id (AtomScopeTask t) = Some t"
| "atom_scope_task_id _ = None"

fun atom_scope_repository_id :: "atom_scope \<Rightarrow> repository_id option" where
  "atom_scope_repository_id (AtomScopeWorktree r _) = Some r"
| "atom_scope_repository_id (AtomScopeRepository r) = Some r"
| "atom_scope_repository_id _ = None"

fun atom_scope_worktree_id :: "atom_scope \<Rightarrow> worktree_id option" where
  "atom_scope_worktree_id (AtomScopeWorktree _ w) = Some w"
| "atom_scope_worktree_id _ = None"

datatype semantic_qualifier = SemanticQualifier (sq_name: string) (sq_value: string)

instantiation semantic_qualifier :: linorder
begin

definition less_eq_semantic_qualifier :: "semantic_qualifier \<Rightarrow> semantic_qualifier \<Rightarrow> bool" where
  "less_eq_semantic_qualifier a b \<longleftrightarrow> (sq_name a, sq_value a) \<le> (sq_name b, sq_value b)"

definition less_semantic_qualifier :: "semantic_qualifier \<Rightarrow> semantic_qualifier \<Rightarrow> bool" where
  "less_semantic_qualifier a b \<longleftrightarrow> (sq_name a, sq_value a) < (sq_name b, sq_value b)"

instance
proof
  fix x y :: semantic_qualifier
  show "x \<le> y \<Longrightarrow> y \<le> x \<Longrightarrow> x = y"
    by (cases x; cases y) (auto simp: less_eq_semantic_qualifier_def)
qed (auto simp: less_eq_semantic_qualifier_def less_semantic_qualifier_def)

end

section \<open>Text and reference checks\<close>

definition strictly_sorted :: "'a::linorder list \<Rightarrow> bool" where
  "strictly_sorted values = windows_all (<) values"

definition contains_all :: "'a list \<Rightarrow> 'a list \<Rightarrow> bool" where
  "contains_all values required \<longleftrightarrow> (\<forall>v \<in> set required. v \<in> set values)"

definition valid_long_text :: "string \<Rightarrow> bool" where
  "valid_long_text value \<longleftrightarrow> value \<noteq> [] \<and> length value \<le> MAX_VALUE_BYTES \<and> CHR 0x00 \<notin> set value"

definition valid_text :: "string \<Rightarrow> bool" where
  "valid_text value \<longleftrightarrow> value \<noteq> [] \<and> length value \<le> MAX_TEXT_BYTES \<and> \<not> has_control value"

definition is_ascii_alphanumeric :: "char \<Rightarrow> bool" where
  "is_ascii_alphanumeric c \<longleftrightarrow> is_ascii_digit c
    \<or> (65 \<le> (of_char c :: nat) \<and> (of_char c :: nat) \<le> 90) \<or> (97 \<le> (of_char c :: nat) \<and> (of_char c :: nat) \<le> 122)"

definition valid_identifier :: "string \<Rightarrow> bool" where
  "valid_identifier value \<longleftrightarrow> value \<noteq> [] \<and> length value \<le> MAX_TEXT_BYTES
    \<and> (\<forall>c \<in> set value. is_ascii_alphanumeric c \<or> c \<in> set '':_-.'')"

section \<open>Values and validity\<close>

record atom_value =
  av_text :: string
  av_subject :: string
  av_predicate :: string
  av_object :: "string option"
  av_qualifiers :: "semantic_qualifier list"
  av_critical_revision_refs :: "revision_id list"


definition atom_value_validate :: "atom_value \<Rightarrow> (semantic_error, unit) result" where
  "atom_value_validate v =
    (if \<not> valid_long_text (av_text v) \<or> \<not> valid_text (av_subject v) \<or> \<not> valid_text (av_predicate v)
        \<or> is_some_and (\<lambda>value. \<not> valid_text value) (av_object v)
        \<or> length (av_qualifiers v) > MAX_QUALIFIERS \<or> \<not> strictly_sorted (av_qualifiers v)
        \<or> length (av_critical_revision_refs v) > ATOM_MAX_REFS \<or> \<not> strictly_sorted (av_critical_revision_refs v)
     then Err InvalidAtom
     else for_each (\<lambda>q. if \<not> valid_text (sq_name q) \<or> \<not> valid_text (sq_value q) then Err InvalidAtom else Ok ())
       (av_qualifiers v))"

definition atom_value_canonical :: "uuid_lib \<Rightarrow> atom_value \<Rightarrow> canonical_value" where
  "atom_value_canonical lib v = CMap
    [(''text'', CString (av_text v)),
     (''subject'', CString (av_subject v)),
     (''predicate'', CString (av_predicate v)),
     (''object'', case av_object v of None \<Rightarrow> CNull | Some s \<Rightarrow> CString s),
     (''qualifiers'', CSequence (map (\<lambda>q. CMap [(''name'', CString (sq_name q)), (''value'', CString (sq_value q))])
       (av_qualifiers v))),
     (''critical_revision_refs'', CSequence (map (\<lambda>r. CString (revision_id_to_string lib r)) (av_critical_revision_refs v)))]"

definition atom_value_exact_hash ::
  "(bytes \<Rightarrow> bytes) \<Rightarrow> uuid_lib \<Rightarrow> atom_value \<Rightarrow> (semantic_error, bytes) result" where
  "atom_value_exact_hash sha256_digest lib v =
    and_then (atom_value_validate v) (\<lambda>_.
    map_err (\<lambda>_. InvalidAtom) (canonical_sha256 sha256_digest ''atom_value_v1'' 1 (atom_value_canonical lib v)))"

record validity_interval =
  vi_valid_from_us :: i64
  vi_valid_until_us :: "i64 option"


definition validity_interval_validate :: "validity_interval \<Rightarrow> (semantic_error, unit) result" where
  "validity_interval_validate i =
    (if sint (vi_valid_from_us i) < 0
        \<or> is_some_and (\<lambda>end'. sint end' \<le> sint (vi_valid_from_us i)) (vi_valid_until_us i)
     then Err InvalidAtom else Ok ())"

definition validity_interval_contains :: "validity_interval \<Rightarrow> i64 \<Rightarrow> bool" where
  "validity_interval_contains i at_us \<longleftrightarrow> sint at_us \<ge> sint (vi_valid_from_us i)
    \<and> (case vi_valid_until_us i of None \<Rightarrow> True | Some end' \<Rightarrow> sint at_us < sint end')"

definition validity_interval_is_within :: "validity_interval \<Rightarrow> validity_interval \<Rightarrow> bool" where
  "validity_interval_is_within i ceiling \<longleftrightarrow> sint (vi_valid_from_us i) \<ge> sint (vi_valid_from_us ceiling)
    \<and> (case (vi_valid_until_us i, vi_valid_until_us ceiling) of
         (_, None) \<Rightarrow> True
       | (Some value, Some limit) \<Rightarrow> sint value \<le> sint limit
       | (None, Some _) \<Rightarrow> False)"

section \<open>Provenance\<close>

datatype atom_provenance =
    ObservedExec
  | ObservedHost
  | UserAsserted
  | AgentClaimed
  | LlmDerived

instantiation atom_provenance :: linorder
begin

fun rank_atom_provenance :: "atom_provenance \<Rightarrow> nat" where
  "rank_atom_provenance ObservedExec = 0"
| "rank_atom_provenance ObservedHost = 1"
| "rank_atom_provenance UserAsserted = 2"
| "rank_atom_provenance AgentClaimed = 3"
| "rank_atom_provenance LlmDerived = 4"

definition less_eq_atom_provenance :: "atom_provenance \<Rightarrow> atom_provenance \<Rightarrow> bool" where
  "less_eq_atom_provenance a b \<longleftrightarrow> rank_atom_provenance a \<le> rank_atom_provenance b"

definition less_atom_provenance :: "atom_provenance \<Rightarrow> atom_provenance \<Rightarrow> bool" where
  "less_atom_provenance a b \<longleftrightarrow> rank_atom_provenance a < rank_atom_provenance b"

instance
proof
  fix x y :: atom_provenance
  show "x \<le> y \<Longrightarrow> y \<le> x \<Longrightarrow> x = y"
    by (cases x; cases y) (simp_all add: less_eq_atom_provenance_def)
qed (auto simp: less_eq_atom_provenance_def less_atom_provenance_def)

end

datatype user_authorization_mode = UserStatement | CurrentTaskExactMessage | TuiAcceptance

record user_authorization_provenance =
  ua_mode :: user_authorization_mode
  ua_user_source_observation_ref :: source_observation_id
  ua_source_message_hash :: bytes
  ua_exact_value_hash :: bytes
  ua_authorized_scope_ceiling :: atom_scope
  ua_acceptance_event_ref :: "string option"


datatype policy_host_scope = PolicyScopeWorktree repository_id worktree_id | PolicyScopeRepository repository_id

fun policy_host_scope_as_atom_scope :: "policy_host_scope \<Rightarrow> atom_scope" where
  "policy_host_scope_as_atom_scope (PolicyScopeWorktree r w) = AtomScopeWorktree r w"
| "policy_host_scope_as_atom_scope (PolicyScopeRepository r) = AtomScopeRepository r"

record policy_authority_provenance =
  pp_policy_source_kind :: string
  pp_policy_source_revision_ref :: string
  pp_policy_content_hash :: bytes
  pp_host_resolved_scope :: policy_host_scope
  pp_adapter_manifest_id :: string

record future_cue_lifecycle_exprs =
  fc_suppress_expr :: constraint_expr
  fc_resolve_expr :: constraint_expr


definition future_cue_lifecycle_exprs_validate :: "future_cue_lifecycle_exprs \<Rightarrow> (semantic_error, unit) result" where
  "future_cue_lifecycle_exprs_validate e =
    and_then (constraint_expr_validate (fc_suppress_expr e)) (\<lambda>_. constraint_expr_validate (fc_resolve_expr e))"

section \<open>Drafts and atoms\<close>

definition observed_provenance :: "atom_provenance list \<Rightarrow> bool" where
  "observed_provenance provenance \<longleftrightarrow> (\<exists>p \<in> set provenance. p = ObservedExec \<or> p = ObservedHost)"

definition validate_unprivileged_axes ::
  "atom_kind \<Rightarrow> epistemic_status \<Rightarrow> atom_provenance list \<Rightarrow> string list \<Rightarrow> (semantic_error, unit) result" where
  "validate_unprivileged_axes kind status provenance evidence_refs =
    (if atom_kind_is_normative kind \<and> status \<noteq> EpistemicNotApplicable
        \<or> \<not> atom_kind_is_normative kind \<and> kind \<noteq> KindAnnotation \<and> status = EpistemicNotApplicable
        \<or> status = EpistemicSupported
          \<and> (\<not> atom_kind_is_descriptive kind \<or> evidence_refs = [] \<or> \<not> observed_provenance provenance)
     then Err InvalidAtom else Ok ())"

definition validate_references ::
  "atom_provenance list \<Rightarrow> source_observation_id list \<Rightarrow> string list \<Rightarrow> revision_id list \<Rightarrow> revision_id list
    \<Rightarrow> revision_id list \<Rightarrow> (semantic_error, unit) result" where
  "validate_references provenance source_observation_refs evidence_refs supersedes supports contradicts =
    (if provenance = [] \<or> length provenance > ATOM_MAX_REFS \<or> \<not> strictly_sorted provenance
        \<or> length source_observation_refs > ATOM_MAX_REFS \<or> \<not> strictly_sorted source_observation_refs
        \<or> length evidence_refs > ATOM_MAX_REFS \<or> \<not> strictly_sorted evidence_refs
        \<or> length supersedes > ATOM_MAX_REFS \<or> \<not> strictly_sorted supersedes
        \<or> length supports > ATOM_MAX_REFS \<or> \<not> strictly_sorted supports
        \<or> length contradicts > ATOM_MAX_REFS \<or> \<not> strictly_sorted contradicts
        \<or> (\<exists>value \<in> set evidence_refs. \<not> valid_identifier value)
     then Err InvalidAtom else Ok ())"

record atom_draft =
  ad_kind :: atom_kind
  ad_epistemic_status :: epistemic_status
  ad_value :: atom_value
  ad_scope :: atom_scope
  ad_applicability_expr :: applicability_expr
  ad_future_cue_lifecycle_exprs :: "future_cue_lifecycle_exprs option"
  ad_validity_interval :: validity_interval
  ad_provenance :: "atom_provenance list"
  ad_source_observation_refs :: "source_observation_id list"
  ad_evidence_refs :: "string list"
  ad_supersedes_revision_refs :: "revision_id list"
  ad_supports_revision_refs :: "revision_id list"
  ad_contradicts_revision_refs :: "revision_id list"


definition cue_exprs_validate ::
  "atom_kind \<Rightarrow> future_cue_lifecycle_exprs option \<Rightarrow> (semantic_error, unit) result" where
  "cue_exprs_validate kind exprs = (case exprs of
      None \<Rightarrow> Ok ()
    | Some e \<Rightarrow> if \<not> atom_kind_is_normative kind then Err InvalidAtom else future_cue_lifecycle_exprs_validate e)"

definition atom_draft_validate_unprivileged :: "atom_draft \<Rightarrow> (semantic_error, unit) result" where
  "atom_draft_validate_unprivileged d =
    and_then (atom_value_validate (ad_value d)) (\<lambda>_.
    and_then (applicability_expr_validate (ad_applicability_expr d)) (\<lambda>_.
    and_then (cue_exprs_validate (ad_kind d) (ad_future_cue_lifecycle_exprs d)) (\<lambda>_.
    and_then (validity_interval_validate (ad_validity_interval d)) (\<lambda>_.
    and_then (validate_unprivileged_axes (ad_kind d) (ad_epistemic_status d) (ad_provenance d) (ad_evidence_refs d)) (\<lambda>_.
    validate_references (ad_provenance d) (ad_source_observation_refs d) (ad_evidence_refs d)
      (ad_supersedes_revision_refs d) (ad_supports_revision_refs d) (ad_contradicts_revision_refs d))))))"

definition atom_draft_semantic_digest ::
  "(bytes \<Rightarrow> bytes) \<Rightarrow> (atom_draft \<Rightarrow> string option) \<Rightarrow> atom_draft \<Rightarrow> (semantic_error, bytes) result" where
  "atom_draft_semantic_digest sha256_digest to_toml d =
    and_then (atom_draft_validate_unprivileged d) (\<lambda>_.
    and_then (ok_or InvalidAtom (to_toml d)) (\<lambda>serialized.
    map_err (\<lambda>_. InvalidAtom) (canonical_sha256 sha256_digest ''atom_draft_v1'' 1 (CString serialized))))"

record atom =
  am_atom_id :: atom_id
  am_revision_id :: revision_id
  am_parent_revision_id :: "revision_id option"
  am_kind :: atom_kind
  am_epistemic_status :: epistemic_status
  am_lifecycle_status :: atom_lifecycle_status
  am_authority :: atom_authority
  am_value :: atom_value
  am_scope :: atom_scope
  am_condition_ir_version :: u32
  am_applicability_expr :: applicability_expr
  am_future_cue_lifecycle_exprs :: "future_cue_lifecycle_exprs option"
  am_validity_interval :: validity_interval
  am_provenance :: "atom_provenance list"
  am_user_authorization_provenance :: "user_authorization_provenance option"
  am_policy_authority_provenance :: "policy_authority_provenance option"
  am_source_observation_refs :: "source_observation_id list"
  am_evidence_refs :: "string list"
  am_supersedes_revision_refs :: "revision_id list"
  am_supports_revision_refs :: "revision_id list"
  am_contradicts_revision_refs :: "revision_id list"
  am_accepted_proposal_id :: "revision_proposal_id option"
  am_accepted_proposal_revision_id :: "revision_id option"
  am_created_at_us :: i64


definition atom_validate_axes :: "atom \<Rightarrow> (semantic_error, unit) result" where
  "atom_validate_axes a =
    and_then (validate_unprivileged_axes (am_kind a) (am_epistemic_status a) (am_provenance a) (am_evidence_refs a)) (\<lambda>_.
    if am_epistemic_status a = EpistemicSupported \<and> am_authority a \<in> {AgentInferred, ImportedClaim}
    then Err InvalidAtom else Ok ())"

text \<open>The conditions on an atom that rests on the user's authority, by the mode of authorisation.\<close>

definition user_mode_ok :: "atom \<Rightarrow> user_authorization_provenance \<Rightarrow> bool" where
  "user_mode_ok a user = (case ua_mode user of
      UserStatement \<Rightarrow> \<not> (\<not> atom_kind_is_descriptive (am_kind a)
          \<or> am_epistemic_status a \<noteq> EpistemicUnverified \<or> is_some (ua_acceptance_event_ref user))
    | CurrentTaskExactMessage \<Rightarrow> \<not> (\<not> atom_kind_is_normative (am_kind a)
          \<or> \<not> (\<exists>t. am_scope a = AtomScopeTask t) \<or> ua_authorized_scope_ceiling user \<noteq> am_scope a
          \<or> am_applicability_expr a \<noteq> ApplicabilityAlways \<or> vi_valid_until_us (am_validity_interval a) = None
          \<or> is_some (ua_acceptance_event_ref user))
    | TuiAcceptance \<Rightarrow> \<not> (\<not> is_some_and valid_identifier (ua_acceptance_event_ref user)
          \<or> am_accepted_proposal_revision_id a = None))"

definition user_authority_validate :: "(bytes \<Rightarrow> bytes) \<Rightarrow> uuid_lib \<Rightarrow> atom \<Rightarrow> (semantic_error, unit) result" where
  "user_authority_validate sha256_digest lib a =
    and_then (ok_or InvalidAtom (am_user_authorization_provenance a)) (\<lambda>user.
    if is_some (am_policy_authority_provenance a)
       \<or> ua_user_source_observation_ref user \<notin> set (am_source_observation_refs a)
    then Err InvalidAtom
    else and_then (atom_value_exact_hash sha256_digest lib (am_value a)) (\<lambda>hash.
    if ua_exact_value_hash user \<noteq> hash
       \<or> \<not> atom_scope_contains (ua_authorized_scope_ceiling user) (am_scope a)
       \<or> ua_source_message_hash user = replicate 32 0
       \<or> ua_exact_value_hash user = replicate 32 0
       \<or> \<not> user_mode_ok a user
    then Err InvalidAtom else Ok ()))"

definition policy_authority_validate :: "atom \<Rightarrow> (semantic_error, unit) result" where
  "policy_authority_validate a =
    and_then (ok_or InvalidAtom (am_policy_authority_provenance a)) (\<lambda>policy.
    if is_some (am_user_authorization_provenance a)
       \<or> \<not> atom_kind_is_normative (am_kind a)
       \<or> \<not> ((\<exists>r w. am_scope a = AtomScopeWorktree r w) \<or> (\<exists>r. am_scope a = AtomScopeRepository r))
       \<or> \<not> atom_scope_contains (policy_host_scope_as_atom_scope (pp_host_resolved_scope policy)) (am_scope a)
       \<or> \<not> valid_identifier (pp_policy_source_kind policy)
       \<or> \<not> valid_identifier (pp_policy_source_revision_ref policy)
       \<or> \<not> valid_identifier (pp_adapter_manifest_id policy)
       \<or> pp_policy_content_hash policy = replicate 32 0
    then Err InvalidAtom else Ok ())"

definition atom_validate_authority :: "(bytes \<Rightarrow> bytes) \<Rightarrow> uuid_lib \<Rightarrow> atom \<Rightarrow> (semantic_error, unit) result" where
  "atom_validate_authority sha256_digest lib a =
    and_then (case am_authority a of
        UserExplicit \<Rightarrow> user_authority_validate sha256_digest lib a
      | ProjectPolicy \<Rightarrow> policy_authority_validate a
      | ObjectiveEvidence \<Rightarrow>
          if is_some (am_user_authorization_provenance a) \<or> is_some (am_policy_authority_provenance a)
             \<or> \<not> atom_kind_supports_objective_evidence (am_kind a)
             \<or> am_epistemic_status a \<noteq> EpistemicSupported
             \<or> am_evidence_refs a = [] \<or> \<not> observed_provenance (am_provenance a)
          then Err InvalidAtom else Ok ()
      | _ \<Rightarrow>
          if is_some (am_user_authorization_provenance a) \<or> is_some (am_policy_authority_provenance a)
          then Err InvalidAtom else Ok ()) (\<lambda>_.
    if am_scope a = AtomScopeGlobal \<and> am_applicability_expr a = ApplicabilityAlways
       \<and> \<not> is_some_and (\<lambda>value. ua_mode value = TuiAcceptance \<and> ua_authorized_scope_ceiling value = AtomScopeGlobal)
           (am_user_authorization_provenance a)
    then Err InvalidAtom else Ok ())"

definition atom_validate :: "(bytes \<Rightarrow> bytes) \<Rightarrow> uuid_lib \<Rightarrow> atom \<Rightarrow> (semantic_error, unit) result" where
  "atom_validate sha256_digest lib a =
    and_then (atom_value_validate (am_value a)) (\<lambda>_.
    and_then (applicability_expr_validate (am_applicability_expr a)) (\<lambda>_.
    and_then (cue_exprs_validate (am_kind a) (am_future_cue_lifecycle_exprs a)) (\<lambda>_.
    and_then (validity_interval_validate (am_validity_interval a)) (\<lambda>_.
    and_then (validate_references (am_provenance a) (am_source_observation_refs a) (am_evidence_refs a)
      (am_supersedes_revision_refs a) (am_supports_revision_refs a) (am_contradicts_revision_refs a)) (\<lambda>_.
    if am_condition_ir_version a \<noteq> 1
       \<or> sint (am_created_at_us a) < 0
       \<or> am_source_observation_refs a = [] \<and> am_evidence_refs a = []
       \<or> am_revision_id a \<in> set (am_supersedes_revision_refs a @ am_supports_revision_refs a @ am_contradicts_revision_refs a)
       \<or> is_some (am_accepted_proposal_id a) \<noteq> is_some (am_accepted_proposal_revision_id a)
    then Err InvalidAtom
    else and_then (atom_validate_axes a) (\<lambda>_. atom_validate_authority sha256_digest lib a))))))"

definition has_semantic_successor_change :: "atom \<Rightarrow> atom \<Rightarrow> bool" where
  "has_semantic_successor_change a next \<longleftrightarrow>
    am_kind a \<noteq> am_kind next
    \<or> am_epistemic_status a \<noteq> am_epistemic_status next
    \<or> am_lifecycle_status a \<noteq> am_lifecycle_status next
    \<or> am_authority a \<noteq> am_authority next
    \<or> am_value a \<noteq> am_value next
    \<or> am_scope a \<noteq> am_scope next
    \<or> am_applicability_expr a \<noteq> am_applicability_expr next
    \<or> am_future_cue_lifecycle_exprs a \<noteq> am_future_cue_lifecycle_exprs next
    \<or> am_validity_interval a \<noteq> am_validity_interval next
    \<or> am_provenance a \<noteq> am_provenance next
    \<or> am_user_authorization_provenance a \<noteq> am_user_authorization_provenance next
    \<or> am_policy_authority_provenance a \<noteq> am_policy_authority_provenance next
    \<or> am_source_observation_refs a \<noteq> am_source_observation_refs next
    \<or> am_evidence_refs a \<noteq> am_evidence_refs next
    \<or> am_supersedes_revision_refs a \<noteq> am_supersedes_revision_refs next
    \<or> am_supports_revision_refs a \<noteq> am_supports_revision_refs next
    \<or> am_contradicts_revision_refs a \<noteq> am_contradicts_revision_refs next"

definition accepted_authority_change :: "atom \<Rightarrow> bool" where
  "accepted_authority_change next \<longleftrightarrow> is_some (am_accepted_proposal_revision_id next)
    \<and> (case am_authority next of
        UserExplicit \<Rightarrow> is_some_and (\<lambda>value. ua_mode value \<in> {CurrentTaskExactMessage, TuiAcceptance})
          (am_user_authorization_provenance next)
      | ObjectiveEvidence \<Rightarrow> True
      | _ \<Rightarrow> False)"

definition atom_validate_successor ::
  "(bytes \<Rightarrow> bytes) \<Rightarrow> uuid_lib \<Rightarrow> atom \<Rightarrow> atom \<Rightarrow> (semantic_error, unit) result" where
  "atom_validate_successor sha256_digest lib a next =
    and_then (atom_validate sha256_digest lib next) (\<lambda>_.
    if am_atom_id a \<noteq> am_atom_id next
       \<or> am_parent_revision_id next \<noteq> Some (am_revision_id a)
       \<or> am_lifecycle_status a \<noteq> AtomActive
       \<or> sint (am_created_at_us next) < sint (am_created_at_us a)
       \<or> \<not> atom_scope_contains (am_scope a) (am_scope next)
       \<or> \<not> validity_interval_is_within (am_validity_interval next) (am_validity_interval a)
       \<or> am_authority a \<noteq> am_authority next \<and> \<not> accepted_authority_change next
       \<or> \<not> contains_all (am_source_observation_refs next) (am_source_observation_refs a)
       \<or> \<not> contains_all (am_evidence_refs next) (am_evidence_refs a)
       \<or> \<not> contains_all (am_supports_revision_refs next) (am_supports_revision_refs a)
       \<or> \<not> contains_all (am_contradicts_revision_refs next) (am_contradicts_revision_refs a)
       \<or> \<not> has_semantic_successor_change a next
    then Err InvalidAtomSuccessor else Ok ())"

definition same_semantic_state :: "atom \<Rightarrow> atom \<Rightarrow> bool" where
  "same_semantic_state a other \<longleftrightarrow>
    am_kind a = am_kind other
    \<and> am_epistemic_status a = am_epistemic_status other
    \<and> am_lifecycle_status a = am_lifecycle_status other
    \<and> am_authority a = am_authority other
    \<and> am_value a = am_value other
    \<and> am_scope a = am_scope other
    \<and> am_condition_ir_version a = am_condition_ir_version other
    \<and> am_applicability_expr a = am_applicability_expr other
    \<and> am_future_cue_lifecycle_exprs a = am_future_cue_lifecycle_exprs other
    \<and> am_validity_interval a = am_validity_interval other
    \<and> am_provenance a = am_provenance other
    \<and> am_user_authorization_provenance a = am_user_authorization_provenance other
    \<and> am_policy_authority_provenance a = am_policy_authority_provenance other
    \<and> am_source_observation_refs a = am_source_observation_refs other
    \<and> am_evidence_refs a = am_evidence_refs other
    \<and> am_supersedes_revision_refs a = am_supersedes_revision_refs other
    \<and> am_supports_revision_refs a = am_supports_revision_refs other
    \<and> am_contradicts_revision_refs a = am_contradicts_revision_refs other"

definition atom_semantic_structure_hash ::
  "(bytes \<Rightarrow> bytes) \<Rightarrow> (atom_draft \<Rightarrow> string option) \<Rightarrow> atom \<Rightarrow> (semantic_error, bytes) result" where
  "atom_semantic_structure_hash sha256_digest to_toml a =
    atom_draft_semantic_digest sha256_digest to_toml
      \<lparr>ad_kind = am_kind a, ad_epistemic_status = am_epistemic_status a, ad_value = am_value a, ad_scope = am_scope a,
       ad_applicability_expr = am_applicability_expr a, ad_future_cue_lifecycle_exprs = am_future_cue_lifecycle_exprs a,
       ad_validity_interval = am_validity_interval a, ad_provenance = am_provenance a,
       ad_source_observation_refs = am_source_observation_refs a, ad_evidence_refs = am_evidence_refs a,
       ad_supersedes_revision_refs = am_supersedes_revision_refs a, ad_supports_revision_refs = am_supports_revision_refs a,
       ad_contradicts_revision_refs = am_contradicts_revision_refs a\<rparr>"

section \<open>What an accepted atom owes to its authority\<close>

lemma atom_validateD:
  assumes "atom_validate H lib a = Ok ()"
  shows "atom_value_validate (am_value a) = Ok ()"
    and "validate_unprivileged_axes (am_kind a) (am_epistemic_status a) (am_provenance a) (am_evidence_refs a) = Ok ()"
    and "atom_validate_axes a = Ok ()" and "atom_validate_authority H lib a = Ok ()"
    and "am_condition_ir_version a = 1"
    and "am_revision_id a \<notin> set (am_supersedes_revision_refs a @ am_supports_revision_refs a @ am_contradicts_revision_refs a)"
  using assms by (simp_all add: atom_validate_def atom_validate_axes_def result_simps)

lemma user_authorityD:
  assumes "user_authority_validate H lib a = Ok ()"
  obtains user where "am_user_authorization_provenance a = Some user" and "am_policy_authority_provenance a = None"
    and "ua_user_source_observation_ref user \<in> set (am_source_observation_refs a)"
    and "atom_value_exact_hash H lib (am_value a) = Ok (ua_exact_value_hash user)"
    and "atom_scope_contains (ua_authorized_scope_ceiling user) (am_scope a)" and "user_mode_ok a user"
  using assms by (auto simp: user_authority_validate_def result_simps)

lemma policy_authorityD:
  assumes "policy_authority_validate a = Ok ()"
  obtains policy where "am_policy_authority_provenance a = Some policy" and "am_user_authorization_provenance a = None"
    and "atom_kind_is_normative (am_kind a)"
    and "atom_scope_contains (policy_host_scope_as_atom_scope (pp_host_resolved_scope policy)) (am_scope a)"
  using assms by (auto simp: policy_authority_validate_def result_simps)

lemma authority_cases:
  assumes "atom_validate_authority H lib a = Ok ()"
  shows "am_authority a = UserExplicit \<Longrightarrow> user_authority_validate H lib a = Ok ()"
    and "am_authority a = ProjectPolicy \<Longrightarrow> policy_authority_validate a = Ok ()"
    and "am_user_authorization_provenance a \<noteq> None \<Longrightarrow> am_authority a = UserExplicit"
  using assms by (cases "am_authority a"; auto simp: atom_validate_authority_def policy_authority_validate_def result_simps)+

lemma provenance_exclusive:
  assumes "atom_validate_authority H lib a = Ok ()"
  shows "am_user_authorization_provenance a \<noteq> None \<longleftrightarrow> am_authority a = UserExplicit"
    and "am_policy_authority_provenance a \<noteq> None \<longleftrightarrow> am_authority a = ProjectPolicy"
  using assms
  by (cases "am_authority a"; auto simp: atom_validate_authority_def user_authority_validate_def policy_authority_validate_def result_simps)+

lemma global_authority:
  assumes "atom_validate_authority H lib a = Ok ()" and "am_scope a = AtomScopeGlobal"
    and "am_applicability_expr a = ApplicabilityAlways"
  obtains user where "am_user_authorization_provenance a = Some user" and "ua_mode user = TuiAcceptance"
    and "ua_authorized_scope_ceiling user = AtomScopeGlobal"
  using assms by (auto simp: atom_validate_authority_def result_simps is_some_and_iff)

lemma kinds_exclusive [simp]: "atom_kind_is_normative k \<longleftrightarrow> \<not> atom_kind_is_descriptive k"
  by (cases k) (simp_all add: atom_kind_is_normative_def atom_kind_is_descriptive_def)

lemma supported_authority:
  assumes "atom_validate H lib a = Ok ()" and "am_epistemic_status a = EpistemicSupported"
  shows "am_authority a = ObjectiveEvidence \<or> am_authority a = UserExplicit \<and> am_accepted_proposal_revision_id a \<noteq> None"
proof (cases "am_authority a")
  case UserExplicit
  obtain user where "user_mode_ok a user" using authority_cases(1) [OF atom_validateD(4) [OF assms(1)] UserExplicit] user_authorityD by blast
  moreover have "atom_kind_is_descriptive (am_kind a)"
    using atom_validateD(2) [OF assms(1)] assms(2) by (auto simp: validate_unprivileged_axes_def split: if_splits)
  ultimately show ?thesis using UserExplicit assms(2) by (cases "ua_mode user") (auto simp: user_mode_ok_def)
next
  case ProjectPolicy
  then have "atom_kind_is_normative (am_kind a)"
    using authority_cases(2) [OF atom_validateD(4) [OF assms(1)]] policy_authorityD by metis
  then show ?thesis using atom_validateD(2) [OF assms(1)] assms(2) by (auto simp: validate_unprivileged_axes_def split: if_splits)
qed (use atom_validateD(3) [OF assms(1)] assms(2) in \<open>auto simp: atom_validate_axes_def result_simps\<close>)

text \<open>
  C32. An accepted atom cannot claim more than its provenance supports. It counts as supported only
  with observed evidence, and then its authority is objective evidence or a proposal the user
  accepted. An unconditional global atom was accepted by the user for the global scope. The
  user's authority is bound to the hash of the exact value and to a scope ceiling, and project
  policy only governs norms inside the scope the host resolved. The atom carries the provenance its
  authority needs and no other: a user authorisation exactly under the user's authority, and a
  policy exactly under project policy.
\<close>

theorem atom_authority_sound:
  assumes "atom_validate H lib a = Ok ()"
  shows "(am_epistemic_status a = EpistemicSupported \<longrightarrow> am_evidence_refs a \<noteq> [] \<and> observed_provenance (am_provenance a)
      \<and> (am_authority a = ObjectiveEvidence \<or> am_authority a = UserExplicit \<and> am_accepted_proposal_revision_id a \<noteq> None))
    \<and> (am_scope a = AtomScopeGlobal \<and> am_applicability_expr a = ApplicabilityAlways \<longrightarrow>
        am_authority a = UserExplicit \<and> am_accepted_proposal_revision_id a \<noteq> None)
    \<and> (am_authority a = UserExplicit \<longrightarrow> (\<exists>user. am_user_authorization_provenance a = Some user
        \<and> atom_value_exact_hash H lib (am_value a) = Ok (ua_exact_value_hash user)
        \<and> ua_user_source_observation_ref user \<in> set (am_source_observation_refs a)
        \<and> atom_scope_contains (ua_authorized_scope_ceiling user) (am_scope a)))
    \<and> (am_authority a = ProjectPolicy \<longrightarrow> atom_kind_is_normative (am_kind a)
        \<and> (\<exists>policy. am_policy_authority_provenance a = Some policy
          \<and> atom_scope_contains (policy_host_scope_as_atom_scope (pp_host_resolved_scope policy)) (am_scope a)))
    \<and> (am_user_authorization_provenance a \<noteq> None \<longleftrightarrow> am_authority a = UserExplicit)
    \<and> (am_policy_authority_provenance a \<noteq> None \<longleftrightarrow> am_authority a = ProjectPolicy)"
proof (intro conjI impI)
  note v = atom_validateD(4) [OF assms] and axes = atom_validateD(2) [OF assms]
  {
    assume s: "am_epistemic_status a = EpistemicSupported"
    show "am_authority a = ObjectiveEvidence \<or> am_authority a = UserExplicit \<and> am_accepted_proposal_revision_id a \<noteq> None"
      by (rule supported_authority [OF assms s])
    show "am_evidence_refs a \<noteq> []" "observed_provenance (am_provenance a)"
      using axes s by (auto simp: validate_unprivileged_axes_def split: if_splits)
  next
    assume g: "am_scope a = AtomScopeGlobal \<and> am_applicability_expr a = ApplicabilityAlways"
    from global_authority [OF v conjunct1 [OF g] conjunct2 [OF g]] obtain user
      where u: "am_user_authorization_provenance a = Some user" "ua_mode user = TuiAcceptance" .
    then show e: "am_authority a = UserExplicit" using authority_cases(3) [OF v] by simp
    from user_authorityD [OF authority_cases(1) [OF v e]] u show "am_accepted_proposal_revision_id a \<noteq> None"
      by (metis (mono_tags, lifting) option.inject user_authorization_mode.simps(9) user_mode_ok_def)
  next
    assume "am_authority a = UserExplicit"
    from user_authorityD [OF authority_cases(1) [OF v this]]
    show "\<exists>user. am_user_authorization_provenance a = Some user
        \<and> atom_value_exact_hash H lib (am_value a) = Ok (ua_exact_value_hash user)
        \<and> ua_user_source_observation_ref user \<in> set (am_source_observation_refs a)
        \<and> atom_scope_contains (ua_authorized_scope_ceiling user) (am_scope a)" by metis
  next
    assume "am_authority a = ProjectPolicy"
    from policy_authorityD [OF authority_cases(2) [OF v this]]
    show "atom_kind_is_normative (am_kind a)" "\<exists>policy. am_policy_authority_provenance a = Some policy
          \<and> atom_scope_contains (policy_host_scope_as_atom_scope (pp_host_resolved_scope policy)) (am_scope a)" by metis+
  }
qed (rule provenance_exclusive [OF atom_validateD(4) [OF assms]])+

section \<open>The value a user authorised\<close>

lemma sort_key_set: "sort_key f xs = sort_key f ys \<Longrightarrow> set xs = set ys"
  by (metis set_sort)

lemma qualifier_values_inject:
  "map (\<lambda>q. canonical_form (CMap [(''name'', CString (sq_name q)), (''value'', CString (sq_value q))])) qs
    = map (\<lambda>q. canonical_form (CMap [(''name'', CString (sq_name q)), (''value'', CString (sq_value q))])) qs' \<longleftrightarrow> qs = qs'"
proof -
  have "q = q'" if "canonical_form (CMap [(''name'', CString (sq_name q)), (''value'', CString (sq_value q))])
      = canonical_form (CMap [(''name'', CString (sq_name q')), (''value'', CString (sq_value q'))])" for q q'
    using that by (cases q; cases q') (auto dest!: sort_key_set simp: doubleton_eq_iff)
  then show ?thesis by (metis (mono_tags, lifting) inj_map_eq_map injI)
qed

lemma atom_value_canonical_inject:
  assumes "canonical_form (atom_value_canonical lib v) = canonical_form (atom_value_canonical lib w)" and "uuid_lib_ok lib"
  shows "v = w"
proof -
  let ?X = "\<lambda>v. map (\<lambda>(k, v). (k, canonical_form v)) (case atom_value_canonical lib v of CMap es \<Rightarrow> es)"
  have "set (?X v) = set (?X w)" using assms(1) by (intro sort_key_set) (simp add: atom_value_canonical_def)
  then have X: "x \<in> set (?X v) \<longleftrightarrow> x \<in> set (?X w)" for x by blast
  have "revision_id_to_string lib r = revision_id_to_string lib r' \<longleftrightarrow> r = r'" for r r'
    using assms(2) unfolding uuid_lib_ok_def revision_id_to_string_def by (metis option.inject)
  then have refs: "map (\<lambda>r. CString (revision_id_to_string lib r)) rs = map (\<lambda>r. CString (revision_id_to_string lib r)) rs' \<longleftrightarrow> rs = rs'"
    for rs rs' by (intro inj_map_eq_map) (simp add: inj_def)
  have "av_text v = av_text w" using X [of "(''text'', CString (av_text v))"] by (simp add: atom_value_canonical_def)
  moreover have "av_subject v = av_subject w" using X [of "(''subject'', CString (av_subject v))"] by (simp add: atom_value_canonical_def)
  moreover have "av_predicate v = av_predicate w"
    using X [of "(''predicate'', CString (av_predicate v))"] by (simp add: atom_value_canonical_def)
  moreover have "av_object v = av_object w"
    using X [of "(''object'', case av_object v of None \<Rightarrow> CNull | Some s \<Rightarrow> CString s)"]
    by (cases "av_object v"; cases "av_object w") (simp_all add: atom_value_canonical_def)
  moreover have "av_qualifiers v = av_qualifiers w"
    using X [of "(''qualifiers'', canonical_form (CSequence (map (\<lambda>q. CMap [(''name'', CString (sq_name q)), (''value'', CString (sq_value q))])
       (av_qualifiers v))))"] qualifier_values_inject [of "av_qualifiers v" "av_qualifiers w"]
    by (simp add: atom_value_canonical_def comp_def)
  moreover have "av_critical_revision_refs v = av_critical_revision_refs w"
    using X [of "(''critical_revision_refs'', CSequence (map (\<lambda>r. CString (revision_id_to_string lib r)) (av_critical_revision_refs v)))"] refs
    by (simp add: atom_value_canonical_def comp_def)
  ultimately show ?thesis by (cases v; cases w) simp
qed

lemma atom_value_encodes:
  assumes "atom_value_validate v = Ok ()" and "uuid_lib_ok lib"
  shows "\<exists>x. encode ''atom_value_v1'' 1 (atom_value_canonical lib v) = Ok x"
proof (rule encode_ok)
  have t: "length s < 18446744073709551616" if "valid_text s" for s using that by (simp add: valid_text_def MAX_TEXT_BYTES_def)
  have "length (revision_id_to_string lib r) < 2 ^ 64" for r using assms(2) by (simp add: uuid_lib_ok_def revision_id_to_string_def)
  then show "encodable (atom_value_canonical lib v)"
    using assms(1) by (auto simp: atom_value_canonical_def atom_value_validate_def result_simps valid_long_text_def MAX_VALUE_BYTES_def
        MAX_QUALIFIERS_def ATOM_MAX_REFS_def t is_some_and_iff split: option.splits)
qed simp_all

text \<open>
  The hash that a user authorisation carries identifies the authorised value. It exists for every
  valid value, and whenever two different valid values have the same hash, two different byte
  strings with the same digest have been found.
\<close>

theorem atom_value_hash_identifies:
  assumes "atom_value_validate v = Ok ()" and "atom_value_validate w = Ok ()" and "uuid_lib_ok lib"
  shows "\<exists>x y. atom_value_exact_hash sha256_digest lib v = Ok (sha256_digest x)
    \<and> atom_value_exact_hash sha256_digest lib w = Ok (sha256_digest y) \<and> (x = y \<longleftrightarrow> v = w)"
proof -
  obtain x y where x: "encode ''atom_value_v1'' 1 (atom_value_canonical lib v) = Ok x"
    and y: "encode ''atom_value_v1'' 1 (atom_value_canonical lib w) = Ok y"
    using atom_value_encodes [OF assms(1,3)] atom_value_encodes [OF assms(2,3)] by blast
  have "v = w" if "x = y"
    using encode_inject [OF x y [folded that]] atom_value_canonical_inject [OF _ assms(3)] by metis
  then have "x = y \<longleftrightarrow> v = w" using x y by auto
  then show ?thesis using x y assms by (auto simp: atom_value_exact_hash_def canonical_sha256_def)
qed

section \<open>Successors\<close>

text \<open>
  The two comparisons of atoms agree: of two atoms of the current condition language, one is a
  semantic change of the other exactly if they are not in the same semantic state.
\<close>

theorem semantic_change_exact:
  assumes "am_condition_ir_version a = am_condition_ir_version b"
  shows "has_semantic_successor_change a b \<longleftrightarrow> \<not> same_semantic_state a b"
  using assms by (simp only: has_semantic_successor_change_def same_semantic_state_def de_Morgan_conj) simp

lemma atom_scope_contains_refl [simp]: "atom_scope_contains s s"
  by (cases s) simp_all

lemma atom_scope_contains_trans: "atom_scope_contains a b \<Longrightarrow> atom_scope_contains b c \<Longrightarrow> atom_scope_contains a c"
  by (cases a; cases b; cases c) simp_all

lemma validity_within_trans:
  "validity_interval_is_within c b \<Longrightarrow> validity_interval_is_within b a \<Longrightarrow> validity_interval_is_within c a"
  by (auto simp: validity_interval_is_within_def split: option.splits)

text \<open>How a later revision of an atom relates to an earlier one.\<close>

definition atom_narrows :: "atom \<Rightarrow> atom \<Rightarrow> bool" where
  "atom_narrows a b \<longleftrightarrow> am_atom_id b = am_atom_id a \<and> am_lifecycle_status a = AtomActive
    \<and> sint (am_created_at_us a) \<le> sint (am_created_at_us b)
    \<and> atom_scope_contains (am_scope a) (am_scope b)
    \<and> validity_interval_is_within (am_validity_interval b) (am_validity_interval a)
    \<and> set (am_source_observation_refs a) \<subseteq> set (am_source_observation_refs b)
    \<and> set (am_evidence_refs a) \<subseteq> set (am_evidence_refs b)
    \<and> set (am_supports_revision_refs a) \<subseteq> set (am_supports_revision_refs b)
    \<and> set (am_contradicts_revision_refs a) \<subseteq> set (am_contradicts_revision_refs b)"

lemma atom_narrows_transp: "transp atom_narrows"
  by (rule transpI)
    (auto simp: atom_narrows_def intro: atom_scope_contains_trans validity_within_trans)

lemma atom_successorD:
  assumes "atom_validate_successor H lib a b = Ok ()"
  shows "atom_narrows a b" and "am_authority a \<noteq> am_authority b \<Longrightarrow> accepted_authority_change b"
    and "atom_validate H lib b = Ok ()" and "am_parent_revision_id b = Some (am_revision_id a)"
  using assms by (auto simp: atom_validate_successor_def result_simps atom_narrows_def contains_all_def)

lemma windows_all_weaken: "windows_all P xs \<Longrightarrow> (\<And>x y. P x y \<Longrightarrow> Q x y) \<Longrightarrow> windows_all Q xs"
  by (induction xs rule: induct_list012) auto

lemma authority_change_accepted:
  assumes "windows_all (\<lambda>a b. atom_validate_successor H lib a b = Ok ()) history"
    and "i \<le> j" and "j < length history" and "am_authority (history ! j) \<noteq> am_authority (history ! i)"
  shows "\<exists>k. i < k \<and> k \<le> j \<and> accepted_authority_change (history ! k)"
  using assms(2-4)
proof (induction rule: dec_induct)
  case (step n)
  have s: "atom_validate_successor H lib (history ! n) (history ! Suc n) = Ok ()"
    using windows_all_nth [OF assms(1) step.prems(1)] .
  show ?case
  proof (cases "am_authority (history ! n) = am_authority (history ! i)")
    case True
    then have "accepted_authority_change (history ! Suc n)" using atom_successorD(2) [OF s] step.prems(2) by simp
    then show ?thesis using step.hyps by (intro exI [of _ "Suc n"]) simp
  next
    case False
    then show ?thesis using step.IH step.prems(1) by (meson Suc_lessD le_SucI)
  qed
qed simp

text \<open>
  C26. Along the accepted revisions of an atom its identity is fixed, its scope and its validity only
  narrow and its observations, evidence, support and contradictions accumulate; only the last
  revision may be superseded or deprecated. The authority changes only through a revision that
  accepts a proposal.
\<close>

theorem atom_history_narrows:
  assumes "windows_all (\<lambda>a b. atom_validate_successor H lib a b = Ok ()) history" and "i < j" and "j < length history"
  shows "atom_narrows (history ! i) (history ! j)
    \<and> (am_authority (history ! j) \<noteq> am_authority (history ! i) \<longrightarrow>
        (\<exists>k. i < k \<and> k \<le> j \<and> accepted_authority_change (history ! k)))"
proof
  have "windows_all atom_narrows history" using assms(1) by (rule windows_all_weaken) (rule atom_successorD(1))
  then show "atom_narrows (history ! i) (history ! j)"
    using windows_all_sorted_wrt [OF atom_narrows_transp] sorted_wrt_nth_less assms(2,3) by blast
  show "am_authority (history ! j) \<noteq> am_authority (history ! i) \<longrightarrow>
        (\<exists>k. i < k \<and> k \<le> j \<and> accepted_authority_change (history ! k))"
    using authority_change_accepted [OF assms(1) less_imp_le [OF assms(2)] assms(3)] by blast
qed

section \<open>Samples\<close>

definition sample_value :: atom_value where
  "sample_value = \<lparr>av_text = ''use tabs'', av_subject = ''style'', av_predicate = ''is'', av_object = None,
    av_qualifiers = [], av_critical_revision_refs = []\<rparr>"

definition sample_atom :: atom where
  "sample_atom = \<lparr>am_atom_id = 1, am_revision_id = 2, am_parent_revision_id = None, am_kind = KindFact,
    am_epistemic_status = EpistemicSupported, am_lifecycle_status = AtomActive, am_authority = ObjectiveEvidence,
    am_value = sample_value, am_scope = AtomScopeTask 3, am_condition_ir_version = 1,
    am_applicability_expr = ApplicabilityAlways, am_future_cue_lifecycle_exprs = None,
    am_validity_interval = \<lparr>vi_valid_from_us = 0, vi_valid_until_us = None\<rparr>, am_provenance = [ObservedExec],
    am_user_authorization_provenance = None, am_policy_authority_provenance = None,
    am_source_observation_refs = [], am_evidence_refs = [''e''], am_supersedes_revision_refs = [],
    am_supports_revision_refs = [], am_contradicts_revision_refs = [], am_accepted_proposal_id = None,
    am_accepted_proposal_revision_id = None, am_created_at_us = 5\<rparr>"

definition sample_refuted_atom :: atom where
  "sample_refuted_atom = sample_atom\<lparr>am_revision_id := 4, am_parent_revision_id := Some 2,
    am_lifecycle_status := AtomDeprecated\<rparr>"

lemmas sample_atom_text = valid_text_def valid_long_text_def valid_identifier_def is_ascii_alphanumeric_def is_ascii_digit_def
  MAX_TEXT_BYTES_def MAX_VALUE_BYTES_def MAX_QUALIFIERS_def ATOM_MAX_REFS_def has_control_def strictly_sorted_def

lemma sample_value_valid: "atom_value_validate sample_value = Ok ()"
  by (simp add: atom_value_validate_def sample_value_def sample_atom_text)

lemma sample_atoms_valid:
  "atom_validate H lib sample_atom = Ok ()" "atom_validate H lib sample_refuted_atom = Ok ()"
  by (simp_all add: atom_validate_def sample_atom_def sample_refuted_atom_def sample_value_valid cue_exprs_validate_def
      validity_interval_validate_def validate_references_def atom_validate_axes_def validate_unprivileged_axes_def
      atom_validate_authority_def observed_provenance_def atom_kind_is_descriptive_def atom_kind_supports_objective_evidence_def
      sample_atom_text)

theorem atom_authority_sound_witness: "observed_provenance (am_provenance sample_atom)"
  using atom_authority_sound [OF sample_atoms_valid(1)] by (simp add: sample_atom_def)

theorem atom_value_hash_identifies_witness:
  "\<exists>x. atom_value_exact_hash (\<lambda>b. b) sample_uuid_lib sample_value = Ok x"
  using atom_value_hash_identifies [OF sample_value_valid sample_value_valid sample_uuid_lib_ok] by metis

theorem semantic_change_exact_witness: "has_semantic_successor_change sample_atom sample_refuted_atom"
  using semantic_change_exact [of sample_atom sample_refuted_atom]
  by (simp add: sample_atom_def sample_refuted_atom_def same_semantic_state_def)

theorem atom_history_narrows_witness: "atom_narrows sample_atom sample_refuted_atom"
proof -
  have "atom_validate_successor (\<lambda>b. b) sample_uuid_lib sample_atom sample_refuted_atom = Ok ()"
    by (simp add: atom_validate_successor_def sample_atoms_valid)
      (simp add: sample_atom_def sample_refuted_atom_def validity_interval_is_within_def contains_all_def
        has_semantic_successor_change_def)
  then have "windows_all (\<lambda>a b. atom_validate_successor (\<lambda>b. b) sample_uuid_lib a b = Ok ()) [sample_atom, sample_refuted_atom]"
    by simp
  from atom_history_narrows [OF this, of 0 1] show ?thesis by simp
qed

end
