(* ===== verification/Resolver.thy ===== *)
theory Resolver
  imports Atom Evidence Store_Base
begin

text \<open>
  Which atoms govern and which facts hold, \<open>evertrace-engine/src/semantic/resolver.rs\<close>: the
  resolution of norms by applicability, supersession, specificity and authority, and the
  resolution of descriptive atoms by support and contradiction. Building a policy binding
  from a host probe is not modelled: the binding is given. The lemmas replace the maps and
  loops of the code by closed descriptions of the result.
\<close>

section \<open>Policy bindings\<close>

record current_policy_binding =
  cp_policy_source_kind :: string
  cp_policy_source_revision_ref :: string
  cp_policy_content_hash :: bytes
  cp_host_resolved_scope :: atom_scope
  cp_adapter_manifest_id :: string
  cp_policy_observation_ref :: source_observation_id
  cp_policy_receipt_ref :: source_receipt_id
  cp_policy_evidence_refs :: "string list"

definition current_policy_binding_provenance :: "current_policy_binding \<Rightarrow> policy_authority_provenance option" where
  "current_policy_binding_provenance b =
    (let provenance = \<lambda>scope. \<lparr>pp_policy_source_kind = cp_policy_source_kind b,
          pp_policy_source_revision_ref = cp_policy_source_revision_ref b,
          pp_policy_content_hash = cp_policy_content_hash b, pp_host_resolved_scope = scope,
          pp_adapter_manifest_id = cp_adapter_manifest_id b\<rparr> in
     case cp_host_resolved_scope b of
       AtomScopeWorktree r w \<Rightarrow> Some (provenance (PolicyScopeWorktree r w))
     | AtomScopeRepository r \<Rightarrow> Some (provenance (PolicyScopeRepository r))
     | _ \<Rightarrow> None)"

definition current_policy_binding_authorizes_materialization ::
  "current_policy_binding \<Rightarrow> atom_scope \<Rightarrow> source_observation \<Rightarrow> source_receipt \<Rightarrow> source_observation_id list
    \<Rightarrow> string list \<Rightarrow> bool" where
  "current_policy_binding_authorizes_materialization b scope observation receipt source_observation_refs evidence_refs \<longleftrightarrow>
    atom_scope_contains (cp_host_resolved_scope b) scope
    \<and> so_source_observation_id observation = cp_policy_observation_ref b
    \<and> so_source_receipt_ref observation = cp_policy_receipt_ref b
    \<and> sr_source_receipt_id receipt = cp_policy_receipt_ref b
    \<and> sr_source_observation_id receipt = cp_policy_observation_ref b
    \<and> so_source_instance_id observation = sr_source_instance_id receipt
    \<and> so_source_revision observation = cp_policy_source_revision_ref b
    \<and> sr_source_revision receipt = cp_policy_source_revision_ref b
    \<and> so_source_record_identity observation = sr_source_record_identity receipt
    \<and> so_source_role observation \<in> {SourceRoleHost, SourceRoleTool}
    \<and> so_content_trust observation = TrustObserved
    \<and> so_observation_role observation = RoleStateProbe
    \<and> sr_observation_role receipt = RoleStateProbe
    \<and> so_capture_completeness observation = CompletenessComplete
    \<and> sr_capture_completeness receipt = CompletenessComplete
    \<and> so_adapter_revision observation = sr_adapter_revision receipt
    \<and> so_canonicalization_revision observation = sr_canonicalization_revision receipt
    \<and> so_payload_fingerprint observation = hex (cp_policy_content_hash b)
    \<and> sr_source_ref receipt = cp_policy_source_kind b
    \<and> sr_adapter_manifest_ref receipt = cp_adapter_manifest_id b
    \<and> hc_adapter_manifest_ref (so_correlation observation) = cp_adapter_manifest_id b
    \<and> sr_repository_instance_id receipt = atom_scope_repository_id (cp_host_resolved_scope b)
    \<and> (case atom_scope_worktree_id (cp_host_resolved_scope b) of
         None \<Rightarrow> True | Some i \<Rightarrow> sr_worktree_instance_id receipt = Some i)
    \<and> cp_policy_observation_ref b \<in> set source_observation_refs
    \<and> (\<forall>reference \<in> set (cp_policy_evidence_refs b). reference \<in> set evidence_refs)"

definition current_policy_binding_supports_atom :: "current_policy_binding \<Rightarrow> atom \<Rightarrow> bool" where
  "current_policy_binding_supports_atom b a \<longleftrightarrow>
    is_some_and (\<lambda>provenance. am_policy_authority_provenance a = Some provenance) (current_policy_binding_provenance b)
    \<and> cp_policy_observation_ref b \<in> set (am_source_observation_refs a)
    \<and> (\<forall>reference \<in> set (cp_policy_evidence_refs b). reference \<in> set (am_evidence_refs a))"

section \<open>Norms\<close>

record resolver_context =
  rc_task_id :: "task_id option"
  rc_repository_instance_id :: "repository_id option"
  rc_worktree_instance_id :: "worktree_id option"
  rc_now_us :: i64
  rc_current_fields :: constraint_state
  rc_previous_fields :: "constraint_state option"
  rc_current_policy_bindings :: "current_policy_binding list"
  rc_globally_supported_revisions :: "revision_id list"

datatype normative_resolution_state =
    NormActive | NormShadowed | NormInapplicable | NormApplicabilityUnknown | NormSupportUnavailable

record normative_resolution =
  nr_revision_id :: revision_id
  nr_state :: normative_resolution_state

type_synonym normative_key =
  "atom_kind \<times> string \<times> string \<times> string option \<times> semantic_qualifier list \<times> revision_id list"

definition normative_key_from_atom :: "atom \<Rightarrow> normative_key" where
  "normative_key_from_atom a = (am_kind a, av_subject (am_value a), av_predicate (am_value a), av_object (am_value a),
    av_qualifiers (am_value a), av_critical_revision_refs (am_value a))"

fun scope_applies :: "atom_scope \<Rightarrow> resolver_context \<Rightarrow> bool" where
  "scope_applies (AtomScopeTask t) context = (rc_task_id context = Some t)"
| "scope_applies (AtomScopeWorktree r w) context =
    (rc_repository_instance_id context = Some r \<and> rc_worktree_instance_id context = Some w)"
| "scope_applies (AtomScopeRepository r) context = (rc_repository_instance_id context = Some r)"
| "scope_applies AtomScopeGlobal context = True"

fun authority_precedence :: "atom_authority \<Rightarrow> u8" where
  "authority_precedence UserExplicit = 2"
| "authority_precedence ProjectPolicy = 1"
| "authority_precedence _ = 0"

text \<open>The early returns on the authority of an atom; \<open>None\<close> when the authority does not decide.\<close>

definition authority_decides :: "atom \<Rightarrow> resolver_context \<Rightarrow> normative_resolution_state option" where
  "authority_decides a context = (case am_authority a of
      UserExplicit \<Rightarrow> (case am_user_authorization_provenance a of
          None \<Rightarrow> Some NormSupportUnavailable
        | Some user \<Rightarrow> if ua_mode user = UserStatement then Some NormInapplicable else None)
    | ProjectPolicy \<Rightarrow>
        if am_policy_authority_provenance a = None then Some NormSupportUnavailable
        else if \<not> (\<exists>b \<in> set (rc_current_policy_bindings context). current_policy_binding_supports_atom b a)
        then Some NormSupportUnavailable
        else None
    | _ \<Rightarrow> Some NormInapplicable)"

definition normative_precondition ::
  "(bytes \<Rightarrow> bytes) \<Rightarrow> uuid_lib \<Rightarrow> atom \<Rightarrow> resolver_context \<Rightarrow> normative_resolution_state" where
  "normative_precondition H lib a context =
    (if \<not> is_ok (atom_validate H lib a) \<or> \<not> atom_kind_is_normative (am_kind a) then NormInapplicable
     else case authority_decides a context of Some state \<Rightarrow> state | None \<Rightarrow>
     (case am_lifecycle_status a of
        AtomSuperseded \<Rightarrow> NormShadowed
      | AtomDeprecated \<Rightarrow> NormInapplicable
      | AtomActive \<Rightarrow>
          if \<not> scope_applies (am_scope a) context
             \<or> \<not> validity_interval_contains (am_validity_interval a) (rc_now_us context)
          then NormInapplicable
          else if am_scope a = AtomScopeGlobal \<and> am_revision_id a \<notin> set (rc_globally_supported_revisions context)
          then NormSupportUnavailable
          else (case applicability_expr_evaluate (am_applicability_expr a) (rc_current_fields context) (rc_previous_fields context) of
              TruthTrue \<Rightarrow> NormActive
            | TruthFalse \<Rightarrow> NormInapplicable
            | TruthUnknown \<Rightarrow> NormApplicabilityUnknown)))"

type_synonym norm_states = "(revision_id, normative_resolution_state) btree_map"

definition norm_precedence :: "atom \<Rightarrow> u8 \<times> u8" where
  "norm_precedence a = (atom_scope_specificity (am_scope a), authority_precedence (am_authority a))"

text \<open>\<open>iter().max()\<close>\<close>

definition iter_max :: "'a::linorder list \<Rightarrow> 'a option" where
  "iter_max xs = (case xs of [] \<Rightarrow> None | y # ys \<Rightarrow> Some (foldl max y ys))"

fun precondition_step ::
  "(bytes \<Rightarrow> bytes) \<Rightarrow> uuid_lib \<Rightarrow> resolver_context \<Rightarrow> norm_states \<times> atom list \<Rightarrow> atom \<Rightarrow> norm_states \<times> atom list" where
  "precondition_step H lib context (states, eligible) a =
    (let state = normative_precondition H lib a context in
     (btm_insert (am_revision_id a) state states, if state = NormActive then eligible @ [a] else eligible))"

definition shadow_step :: "norm_states \<Rightarrow> revision_id \<Rightarrow> norm_states" where
  "shadow_step states r = (if btm_get states r = Some NormActive then btm_insert r NormShadowed states else states)"

definition group_step :: "(normative_key, atom list) btree_map \<Rightarrow> atom \<Rightarrow> (normative_key, atom list) btree_map" where
  "group_step groups a =
    (let k = normative_key_from_atom a in
     btm_insert k ((case btm_get groups k of None \<Rightarrow> [] | Some g \<Rightarrow> g) @ [a]) groups)"

definition group_shadow :: "norm_states \<Rightarrow> atom list \<Rightarrow> norm_states" where
  "group_shadow states g = (case iter_max (map norm_precedence g) of
      None \<Rightarrow> states
    | Some winner \<Rightarrow>
        foldl (\<lambda>m a. if norm_precedence a < winner then btm_insert (am_revision_id a) NormShadowed m else m) states g)"

definition normative_resolve ::
  "(bytes \<Rightarrow> bytes) \<Rightarrow> uuid_lib \<Rightarrow> atom list \<Rightarrow> resolver_context \<Rightarrow> normative_resolution list" where
  "normative_resolve H lib atoms context =
    (let (states, eligible) = foldl (precondition_step H lib context) ([], []) atoms;
         explicitly_shadowed = btree_set (concat (map am_supersedes_revision_refs eligible));
         eligible = filter (\<lambda>a. am_revision_id a \<notin> set explicitly_shadowed) eligible;
         states = foldl shadow_step states explicitly_shadowed;
         groups = foldl group_step [] eligible;
         states = foldl group_shadow states (btm_values groups)
     in map (\<lambda>a. \<lparr>nr_revision_id = am_revision_id a, nr_state = the (btm_get states (am_revision_id a))\<rparr>) atoms)"

section \<open>Facts\<close>

datatype descriptive_resolution_state = FactSupported | FactDisputed | FactRefuted | FactUnderdetermined

record descriptive_resolution =
  dr_revision_id :: revision_id
  dr_state :: descriptive_resolution_state

definition descriptive_applicable :: "(bytes \<Rightarrow> bytes) \<Rightarrow> uuid_lib \<Rightarrow> atom \<Rightarrow> resolver_context \<Rightarrow> bool" where
  "descriptive_applicable H lib a context \<longleftrightarrow>
    is_ok (atom_validate H lib a)
    \<and> atom_kind_is_descriptive (am_kind a)
    \<and> am_lifecycle_status a = AtomActive
    \<and> scope_applies (am_scope a) context
    \<and> validity_interval_contains (am_validity_interval a) (rc_now_us context)
    \<and> (am_scope a \<noteq> AtomScopeGlobal \<or> am_revision_id a \<in> set (rc_globally_supported_revisions context))
    \<and> constraint_truth_allows_enforcement
        (applicability_expr_evaluate (am_applicability_expr a) (rc_current_fields context) (rc_previous_fields context))"

definition fact_state :: "revision_id list \<Rightarrow> (revision_id, atom) btree_map \<Rightarrow> atom \<Rightarrow> descriptive_resolution_state" where
  "fact_state disputed applicable a =
    (if \<not> btm_contains_key applicable (am_revision_id a) then FactUnderdetermined
     else if am_revision_id a \<in> set disputed \<or> am_epistemic_status a = EpistemicDisputed then FactDisputed
     else (case am_epistemic_status a of
         EpistemicSupported \<Rightarrow> FactSupported
       | EpistemicRefuted \<Rightarrow> FactRefuted
       | _ \<Rightarrow> FactUnderdetermined))"

definition applicable_facts ::
  "(bytes \<Rightarrow> bytes) \<Rightarrow> uuid_lib \<Rightarrow> resolver_context \<Rightarrow> atom list \<Rightarrow> (revision_id, atom) btree_map" where
  "applicable_facts H lib context atoms =
    foldl (\<lambda>m a. btm_insert (am_revision_id a) a m) [] (filter (\<lambda>a. descriptive_applicable H lib a context) atoms)"

definition supported_facts :: "(revision_id, atom) btree_map \<Rightarrow> revision_id list" where
  "supported_facts applicable = btree_set (map am_revision_id
    (filter (\<lambda>a. am_epistemic_status a = EpistemicSupported) (btm_values applicable)))"

definition disputed_facts :: "revision_id list \<Rightarrow> (revision_id, atom) btree_map \<Rightarrow> revision_id list" where
  "disputed_facts supported applicable =
    (let pairs = concat (map (\<lambda>a. map (\<lambda>r. (am_revision_id a, r))
           (filter (\<lambda>r. r \<in> set supported) (am_contradicts_revision_refs a))) (btm_values applicable)) in
     btree_set (concat (map (\<lambda>(left, right). [left, right]) (filter (\<lambda>(left, _). left \<in> set supported) pairs))))"

definition descriptive_resolve ::
  "(bytes \<Rightarrow> bytes) \<Rightarrow> uuid_lib \<Rightarrow> atom list \<Rightarrow> resolver_context \<Rightarrow> descriptive_resolution list" where
  "descriptive_resolve H lib atoms context =
    (let applicable = applicable_facts H lib context atoms;
         supported = supported_facts applicable;
         disputed = disputed_facts supported applicable
     in map (\<lambda>a. \<lparr>dr_revision_id = am_revision_id a, dr_state = fact_state disputed applicable a\<rparr>) atoms)"

section \<open>The governing norms\<close>

text \<open>What the loops over the maps compute, one lemma for each.\<close>

abbreviation insert_all :: "('a \<Rightarrow> 'k::linorder) \<Rightarrow> ('a \<Rightarrow> 'v) \<Rightarrow> ('k, 'v) btree_map \<Rightarrow> 'a list \<Rightarrow> ('k, 'v) btree_map" where
  "insert_all id_of f \<equiv> foldl (\<lambda>m a. btm_insert (id_of a) (f a) m)"

lemma get_insert_all_other [simp]: "k \<notin> id_of ` set xs \<Longrightarrow> btm_get (insert_all id_of f m xs) k = btm_get m k"
  by (induction xs arbitrary: m) auto

lemma get_insert_all:
  "distinct (map id_of xs) \<Longrightarrow> x \<in> set xs \<Longrightarrow> btm_get (insert_all id_of f m xs) (id_of x) = Some (f x)"
  by (induction xs arbitrary: m) auto

lemma sorted_insert_all [simp]: "btm_sorted m \<Longrightarrow> btm_sorted (insert_all id_of f m xs)"
  by (induction xs arbitrary: m) auto

lemma precondition_fold:
  "foldl (precondition_step H lib c) (m, el) atoms =
    (insert_all am_revision_id (\<lambda>a. normative_precondition H lib a c) m atoms,
     el @ filter (\<lambda>a. normative_precondition H lib a c = NormActive) atoms)"
  by (induction atoms arbitrary: m el) (simp_all add: Let_def)

lemma get_shadow_fold:
  "btm_get (foldl shadow_step m rs) k =
    (if k \<in> set rs \<and> btm_get m k = Some NormActive then Some NormShadowed else btm_get m k)"
  by (induction rs arbitrary: m) (auto simp: shadow_step_def)

lemma sorted_group_fold [simp]: "btm_sorted m \<Longrightarrow> btm_sorted (foldl group_step m el)"
  by (induction el arbitrary: m) (simp_all add: group_step_def Let_def)

lemma get_group_fold:
  "btm_get (foldl group_step m el) k =
    (let same = filter (\<lambda>a. normative_key_from_atom a = k) el in
     if same = [] then btm_get m k else Some ((case btm_get m k of None \<Rightarrow> [] | Some g \<Rightarrow> g) @ same))"
  by (induction el arbitrary: m) (auto simp: group_step_def Let_def split: option.splits)

lemma group_values:
  "set (btm_values (foldl group_step [] el)) =
    (\<lambda>a. filter (\<lambda>b. normative_key_from_atom b = normative_key_from_atom a) el) ` set el"
proof -
  have "g \<in> set (btm_values (foldl group_step [] el)) \<longleftrightarrow>
      (\<exists>k. g = filter (\<lambda>b. normative_key_from_atom b = k) el \<and> g \<noteq> [])" for g
  proof -
    have "btm_get (foldl group_step [] el) k = Some g \<longleftrightarrow> g = filter (\<lambda>b. normative_key_from_atom b = k) el \<and> g \<noteq> []" for k
      by (auto simp: get_group_fold Let_def)
    then show ?thesis by (simp only: btm_values_iff [OF sorted_group_fold [OF btm_sorted_Nil]])
  qed
  then have vals: "set (btm_values (foldl group_step [] el)) =
      {g. \<exists>k. g = filter (\<lambda>b. normative_key_from_atom b = k) el \<and> g \<noteq> []}" by blast
  show ?thesis unfolding vals
  proof (intro set_eqI iffI)
    fix g assume "g \<in> {g. \<exists>k. g = filter (\<lambda>b. normative_key_from_atom b = k) el \<and> g \<noteq> []}"
    then obtain k where g: "g = filter (\<lambda>b. normative_key_from_atom b = k) el" and "g \<noteq> []" by blast
    then obtain a where "a \<in> set g" using list.set_sel(1) by blast
    then have "a \<in> set el" "k = normative_key_from_atom a" by (simp_all add: g)
    then show "g \<in> (\<lambda>a. filter (\<lambda>b. normative_key_from_atom b = normative_key_from_atom a) el) ` set el"
      unfolding g by (intro image_eqI [of _ _ a]) simp_all
  next
    fix g assume "g \<in> (\<lambda>a. filter (\<lambda>b. normative_key_from_atom b = normative_key_from_atom a) el) ` set el"
    then obtain a where a: "a \<in> set el" "g = filter (\<lambda>b. normative_key_from_atom b = normative_key_from_atom a) el" by blast
    then have "a \<in> set g" by simp
    then have "g \<noteq> []" by auto
    with a(2) show "g \<in> {g. \<exists>k. g = filter (\<lambda>b. normative_key_from_atom b = k) el \<and> g \<noteq> []}" by blast
  qed
qed

lemma group_outranked:
  "(\<exists>g \<in> set (btm_values (foldl group_step [] el)). \<exists>a \<in> set g. am_revision_id a = k
      \<and> (\<exists>b \<in> set g. norm_precedence a < norm_precedence b))
   \<longleftrightarrow> (\<exists>a \<in> set el. am_revision_id a = k
      \<and> (\<exists>b \<in> set el. normative_key_from_atom b = normative_key_from_atom a \<and> norm_precedence a < norm_precedence b))"
  unfolding group_values
proof (intro iffI; elim bexE conjE imageE)
  fix g a b c assume "g = filter (\<lambda>b. normative_key_from_atom b = normative_key_from_atom c) el"
    "a \<in> set g" "am_revision_id a = k" "b \<in> set g" "norm_precedence a < norm_precedence b"
  then show "\<exists>a \<in> set el. am_revision_id a = k
      \<and> (\<exists>b \<in> set el. normative_key_from_atom b = normative_key_from_atom a \<and> norm_precedence a < norm_precedence b)"
    by (intro bexI [of _ a] conjI bexI [of _ b]) simp_all
next
  fix a b assume "a \<in> set el" "am_revision_id a = k" "b \<in> set el" "norm_precedence a < norm_precedence b"
    "normative_key_from_atom b = normative_key_from_atom a"
  then show "\<exists>g \<in> (\<lambda>a. filter (\<lambda>b. normative_key_from_atom b = normative_key_from_atom a) el) ` set el.
      \<exists>a \<in> set g. am_revision_id a = k \<and> (\<exists>b \<in> set g. norm_precedence a < norm_precedence b)"
    by (intro bexI [of _ "filter (\<lambda>b. normative_key_from_atom b = normative_key_from_atom a) el"]
        bexI [of _ a] conjI bexI [of _ b] imageI) simp_all
qed

lemma get_conditional_insert:
  "btm_get (foldl (\<lambda>m a. if P a then btm_insert (id_of a) v m else m) m xs) k =
    (if \<exists>a \<in> set xs. P a \<and> id_of a = k then Some v else btm_get m k)"
  by (induction xs arbitrary: m) auto

lemma foldl_max: "foldl max (y::'a::linorder) ys = Max (set (y # ys))"
proof (induction ys rule: rev_induct)
  case (snoc z ys)
  have "Max (set (y # ys @ [z])) = max z (Max (set (y # ys)))" by (simp add: insert_commute [of y z])
  with snoc show ?case by (simp add: max.commute)
qed simp

lemma iter_max_Max: "iter_max xs = (if xs = [] then None else Some (Max (set xs)))"
  by (cases xs) (simp_all add: iter_max_def foldl_max)

lemma get_group_shadow:
  "btm_get (group_shadow m g) k =
    (if \<exists>a \<in> set g. am_revision_id a = k \<and> (\<exists>b \<in> set g. norm_precedence a < norm_precedence b)
     then Some NormShadowed else btm_get m k)"
proof (cases "g = []")
  case False
  then have "norm_precedence a < Max (norm_precedence ` set g) \<longleftrightarrow> (\<exists>b \<in> set g. norm_precedence a < norm_precedence b)" for a
    by (simp add: Max_gr_iff)
  with False show ?thesis by (auto simp: group_shadow_def iter_max_Max get_conditional_insert)
qed (simp add: group_shadow_def iter_max_Max)

lemma get_group_shadow_fold:
  "btm_get (foldl group_shadow m gs) k =
    (if \<exists>g \<in> set gs. \<exists>a \<in> set g. am_revision_id a = k \<and> (\<exists>b \<in> set g. norm_precedence a < norm_precedence b)
     then Some NormShadowed else btm_get m k)"
  by (induction gs arbitrary: m) (auto simp: get_group_shadow)

text \<open>
  The reference resolution, with no maps and no order of evaluation: an atom whose
  precondition is not \<open>Active\<close> keeps that state; of the others, an atom is shadowed when an
  eligible atom supersedes it, or when an eligible atom that nobody supersedes states the
  same norm with a narrower scope or, at the same scope, a higher authority.
\<close>

definition eligible_norms :: "(bytes \<Rightarrow> bytes) \<Rightarrow> uuid_lib \<Rightarrow> resolver_context \<Rightarrow> atom list \<Rightarrow> atom list" where
  "eligible_norms H lib c atoms = filter (\<lambda>a. normative_precondition H lib a c = NormActive) atoms"

definition superseded_in :: "atom list \<Rightarrow> atom \<Rightarrow> bool" where
  "superseded_in el a \<longleftrightarrow> (\<exists>b \<in> set el. am_revision_id a \<in> set (am_supersedes_revision_refs b))"

definition outranked_in :: "atom list \<Rightarrow> atom \<Rightarrow> bool" where
  "outranked_in el a \<longleftrightarrow> (\<exists>b \<in> set el. \<not> superseded_in el b
    \<and> normative_key_from_atom b = normative_key_from_atom a \<and> norm_precedence a < norm_precedence b)"

definition governing_state ::
  "(bytes \<Rightarrow> bytes) \<Rightarrow> uuid_lib \<Rightarrow> resolver_context \<Rightarrow> atom list \<Rightarrow> atom \<Rightarrow> normative_resolution_state" where
  "governing_state H lib c atoms a =
    (if normative_precondition H lib a c \<noteq> NormActive then normative_precondition H lib a c
     else if superseded_in (eligible_norms H lib c atoms) a \<or> outranked_in (eligible_norms H lib c atoms) a then NormShadowed
     else NormActive)"

lemma revision_inject:
  "distinct (map am_revision_id atoms) \<Longrightarrow> a \<in> set atoms \<Longrightarrow> b \<in> set atoms \<Longrightarrow> am_revision_id a = am_revision_id b \<Longrightarrow> a = b"
  by (auto simp: distinct_map dest: inj_onD)

lemma resolve_reference:
  assumes "distinct (map am_revision_id atoms)"
  shows "normative_resolve H lib atoms c =
    map (\<lambda>a. \<lparr>nr_revision_id = am_revision_id a, nr_state = governing_state H lib c atoms a\<rparr>) atoms"
proof -
  let ?pre = "\<lambda>a. normative_precondition H lib a c"
  let ?el = "eligible_norms H lib c atoms"
  let ?gone = "btree_set (concat (map am_supersedes_revision_refs ?el))"
  let ?left = "filter (\<lambda>a. am_revision_id a \<notin> set ?gone) ?el"
  let ?shadowed = "foldl shadow_step (insert_all am_revision_id ?pre [] atoms) ?gone"
  let ?states = "foldl group_shadow ?shadowed (btm_values (foldl group_step [] ?left))"
  have gone: "am_revision_id a \<in> set ?gone \<longleftrightarrow> superseded_in ?el a" for a
    by (simp add: superseded_in_def)
  have member: "b \<in> set ?el \<longleftrightarrow> b \<in> set atoms \<and> ?pre b = NormActive" for b
    by (auto simp: eligible_norms_def)
  have left: "set ?left = {b. b \<in> set atoms \<and> ?pre b = NormActive \<and> \<not> superseded_in ?el b}"
    by (auto simp: superseded_in_def member)
  have state: "btm_get ?states (am_revision_id a) = Some (governing_state H lib c atoms a)" if a: "a \<in> set atoms" for a
  proof -
    have same: "b = a" if "b \<in> set atoms" "am_revision_id b = am_revision_id a" for b
      using revision_inject [OF assms that(1) a that(2)] .
    have "(\<exists>b \<in> set ?left. am_revision_id b = am_revision_id a
        \<and> (\<exists>d \<in> set ?left. normative_key_from_atom d = normative_key_from_atom b \<and> norm_precedence b < norm_precedence d))
      \<longleftrightarrow> a \<in> set ?left \<and> outranked_in ?el a"
      unfolding left using same a
      by (intro iffI; elim bexE conjE CollectE) (force simp: outranked_in_def member)+
    moreover have "btm_get ?shadowed (am_revision_id a) =
        Some (if superseded_in ?el a \<and> ?pre a = NormActive then NormShadowed else ?pre a)"
      by (simp only: get_shadow_fold gone get_insert_all [OF assms a] option.inject) simp
    ultimately show ?thesis
      by (simp only: get_group_shadow_fold group_outranked left) (auto simp: governing_state_def member a)
  qed
  have "normative_resolve H lib atoms c =
      map (\<lambda>a. \<lparr>nr_revision_id = am_revision_id a, nr_state = the (btm_get ?states (am_revision_id a))\<rparr>) atoms"
    by (simp only: normative_resolve_def precondition_fold eligible_norms_def Let_def case_prod_conv append_Nil)
  also have "\<dots> = map (\<lambda>a. \<lparr>nr_revision_id = am_revision_id a, nr_state = governing_state H lib c atoms a\<rparr>) atoms"
    by (simp only: state option.sel cong: map_cong)
  finally show ?thesis .
qed

lemma precondition_active:
  assumes "normative_precondition H lib a c = NormActive"
  shows "atom_validate H lib a = Ok ()" "atom_kind_is_normative (am_kind a)"
    "am_authority a = UserExplicit \<and> (\<exists>u. am_user_authorization_provenance a = Some u \<and> ua_mode u \<noteq> UserStatement)
      \<or> am_authority a = ProjectPolicy \<and> (\<exists>b \<in> set (rc_current_policy_bindings c). current_policy_binding_supports_atom b a)"
    "am_lifecycle_status a = AtomActive" "scope_applies (am_scope a) c"
    "validity_interval_contains (am_validity_interval a) (rc_now_us c)"
    "applicability_expr_evaluate (am_applicability_expr a) (rc_current_fields c) (rc_previous_fields c) = TruthTrue"
  using assms
  by (auto simp: normative_precondition_def authority_decides_def is_ok_unit
      split: if_splits atom_authority.splits option.splits atom_lifecycle_status.splits constraint_truth.splits)

text \<open>An atom of greatest precedence among the standing eligible atoms of a key is active.\<close>

lemma standing_governor:
  assumes "a \<in> set (eligible_norms H lib c atoms)" "\<not> superseded_in (eligible_norms H lib c atoms) a"
  shows "\<exists>b \<in> set atoms. normative_key_from_atom b = normative_key_from_atom a \<and> governing_state H lib c atoms b = NormActive"
proof -
  let ?el = "eligible_norms H lib c atoms"
  let ?rivals = "{b \<in> set ?el. \<not> superseded_in ?el b \<and> normative_key_from_atom b = normative_key_from_atom a}"
  have "finite (norm_precedence ` ?rivals)" "norm_precedence ` ?rivals \<noteq> {}" using assms by auto
  from Max_in [OF this] obtain b where b: "b \<in> ?rivals" "norm_precedence b = Max (norm_precedence ` ?rivals)" by force
  have "\<not> norm_precedence b < norm_precedence d" if "d \<in> ?rivals" for d
    using that unfolding b(2) by (simp add: not_less)
  with b(1) have "\<not> outranked_in ?el b" unfolding outranked_in_def by auto
  with b(1) have "governing_state H lib c atoms b = NormActive" "b \<in> set atoms"
    "normative_key_from_atom b = normative_key_from_atom a"
    by (auto simp: governing_state_def eligible_norms_def)
  then show ?thesis by blast
qed

text \<open>
  C23. For atoms with distinct revisions the resolver computes the reference resolution: the
  two passes over the state map, the set of explicitly shadowed revisions and the grouping by
  key amount to supersession by an eligible atom followed by precedence of scope and authority
  among the atoms nobody supersedes.
\<close>
theorem normative_resolution_exact:
  assumes "distinct (map am_revision_id atoms)"
  shows "normative_resolve H lib atoms c =
    map (\<lambda>a. \<lparr>nr_revision_id = am_revision_id a, nr_state = governing_state H lib c atoms a\<rparr>) atoms"
  using assms by (rule resolve_reference)

lemma active_iff_governing:
  assumes "distinct (map am_revision_id atoms)" and "b \<in> set atoms"
  shows "\<lparr>nr_revision_id = am_revision_id b, nr_state = NormActive\<rparr> \<in> set (normative_resolve H lib atoms c)
    \<longleftrightarrow> governing_state H lib c atoms b = NormActive"
  unfolding resolve_reference [OF assms(1)] using revision_inject [OF assms] assms(2) by auto

text \<open>
  A norm the resolver declares active is valid, authorised (by a user other than as a bare
  statement, or by a policy that a current binding supports), in force, in scope, within its
  validity interval and its condition evaluates to true; no eligible norm supersedes it, and no
  standing eligible norm with the same key has a narrower scope or, at the same scope, a higher
  authority. In return, whenever some eligible norm with a key stands, an active norm with that
  key is among the results.
\<close>
theorem normative_resolution_governs:
  assumes "distinct (map am_revision_id atoms)" and "a \<in> set atoms"
  shows "(\<lparr>nr_revision_id = am_revision_id a, nr_state = NormActive\<rparr> \<in> set (normative_resolve H lib atoms c) \<longrightarrow>
      atom_validate H lib a = Ok () \<and> atom_kind_is_normative (am_kind a)
      \<and> (am_authority a = UserExplicit \<and> (\<exists>u. am_user_authorization_provenance a = Some u \<and> ua_mode u \<noteq> UserStatement)
         \<or> am_authority a = ProjectPolicy \<and> (\<exists>b \<in> set (rc_current_policy_bindings c). current_policy_binding_supports_atom b a))
      \<and> am_lifecycle_status a = AtomActive \<and> scope_applies (am_scope a) c
      \<and> validity_interval_contains (am_validity_interval a) (rc_now_us c)
      \<and> applicability_expr_evaluate (am_applicability_expr a) (rc_current_fields c) (rc_previous_fields c) = TruthTrue
      \<and> \<not> superseded_in (eligible_norms H lib c atoms) a \<and> \<not> outranked_in (eligible_norms H lib c atoms) a)
    \<and> (a \<in> set (eligible_norms H lib c atoms) \<and> \<not> superseded_in (eligible_norms H lib c atoms) a \<longrightarrow>
      (\<exists>b \<in> set atoms. normative_key_from_atom b = normative_key_from_atom a
        \<and> \<lparr>nr_revision_id = am_revision_id b, nr_state = NormActive\<rparr> \<in> set (normative_resolve H lib atoms c)))"
proof (intro conjI)
  show "\<lparr>nr_revision_id = am_revision_id a, nr_state = NormActive\<rparr> \<in> set (normative_resolve H lib atoms c) \<longrightarrow>
      atom_validate H lib a = Ok () \<and> atom_kind_is_normative (am_kind a)
      \<and> (am_authority a = UserExplicit \<and> (\<exists>u. am_user_authorization_provenance a = Some u \<and> ua_mode u \<noteq> UserStatement)
         \<or> am_authority a = ProjectPolicy \<and> (\<exists>b \<in> set (rc_current_policy_bindings c). current_policy_binding_supports_atom b a))
      \<and> am_lifecycle_status a = AtomActive \<and> scope_applies (am_scope a) c
      \<and> validity_interval_contains (am_validity_interval a) (rc_now_us c)
      \<and> applicability_expr_evaluate (am_applicability_expr a) (rc_current_fields c) (rc_previous_fields c) = TruthTrue
      \<and> \<not> superseded_in (eligible_norms H lib c atoms) a \<and> \<not> outranked_in (eligible_norms H lib c atoms) a"
    unfolding active_iff_governing [OF assms] using precondition_active [of H lib a c]
    by (simp add: governing_state_def split: if_splits)
next
  show "a \<in> set (eligible_norms H lib c atoms) \<and> \<not> superseded_in (eligible_norms H lib c atoms) a \<longrightarrow>
      (\<exists>b \<in> set atoms. normative_key_from_atom b = normative_key_from_atom a
        \<and> \<lparr>nr_revision_id = am_revision_id b, nr_state = NormActive\<rparr> \<in> set (normative_resolve H lib atoms c))"
  proof (intro impI, elim conjE)
    assume "a \<in> set (eligible_norms H lib c atoms)" "\<not> superseded_in (eligible_norms H lib c atoms) a"
    then obtain b where "b \<in> set atoms" "normative_key_from_atom b = normative_key_from_atom a"
      "governing_state H lib c atoms b = NormActive" using standing_governor by blast
    then show "\<exists>b \<in> set atoms. normative_key_from_atom b = normative_key_from_atom a
        \<and> \<lparr>nr_revision_id = am_revision_id b, nr_state = NormActive\<rparr> \<in> set (normative_resolve H lib atoms c)"
      using active_iff_governing [OF assms(1)] by (intro bexI [of _ b] conjI) simp_all
  qed
qed

section \<open>The facts that hold\<close>

text \<open>
  The reference: two applicable supported atoms conflict when one of them contradicts the
  other; an applicable atom is disputed when it says so or conflicts with an atom of the list.
\<close>

definition facts_conflict :: "(bytes \<Rightarrow> bytes) \<Rightarrow> uuid_lib \<Rightarrow> resolver_context \<Rightarrow> atom \<Rightarrow> atom \<Rightarrow> bool" where
  "facts_conflict H lib c a b \<longleftrightarrow>
    descriptive_applicable H lib a c \<and> am_epistemic_status a = EpistemicSupported
    \<and> descriptive_applicable H lib b c \<and> am_epistemic_status b = EpistemicSupported
    \<and> (am_revision_id b \<in> set (am_contradicts_revision_refs a) \<or> am_revision_id a \<in> set (am_contradicts_revision_refs b))"

definition standing_fact ::
  "(bytes \<Rightarrow> bytes) \<Rightarrow> uuid_lib \<Rightarrow> resolver_context \<Rightarrow> atom list \<Rightarrow> atom \<Rightarrow> descriptive_resolution_state" where
  "standing_fact H lib c atoms a =
    (if \<not> descriptive_applicable H lib a c then FactUnderdetermined
     else if am_epistemic_status a = EpistemicDisputed \<or> (\<exists>b \<in> set atoms. facts_conflict H lib c a b) then FactDisputed
     else if am_epistemic_status a = EpistemicSupported then FactSupported
     else if am_epistemic_status a = EpistemicRefuted then FactRefuted
     else FactUnderdetermined)"

lemma insert_all_id:
  assumes "distinct (map id_of xs)"
  shows "btm_get (insert_all id_of (\<lambda>x. x) [] xs) k = Some x \<longleftrightarrow> x \<in> set xs \<and> id_of x = k"
proof (cases "k \<in> id_of ` set xs")
  case True
  then obtain y where y: "y \<in> set xs" "k = id_of y" by blast
  with assms show ?thesis by (auto simp: get_insert_all [OF assms y(1)] distinct_map dest: inj_onD)
qed auto

lemma values_insert_all_id:
  "distinct (map id_of xs) \<Longrightarrow> set (btm_values (insert_all id_of (\<lambda>x. x) [] xs)) = set xs"
  by (auto simp: set_eq_iff btm_values_iff insert_all_id)

lemma disputed_pairs:
  "set (btree_set (concat (map (\<lambda>(left, right). [left, right]) (filter (\<lambda>(left, _). left \<in> S)
      (concat (map (\<lambda>a. map (\<lambda>r. (id_of a, r)) (filter (\<lambda>r. r \<in> S) (refs a))) xs)))))) =
    {k. \<exists>x \<in> set xs. id_of x \<in> S \<and> (\<exists>r \<in> set (refs x). r \<in> S \<and> (k = id_of x \<or> k = r))}"
  by (induction xs) (auto simp: image_iff)

abbreviation supported_atoms :: "(bytes \<Rightarrow> bytes) \<Rightarrow> uuid_lib \<Rightarrow> resolver_context \<Rightarrow> atom list \<Rightarrow> atom set" where
  "supported_atoms H lib c atoms \<equiv>
    {a \<in> set atoms. descriptive_applicable H lib a c \<and> am_epistemic_status a = EpistemicSupported}"

lemma facts_conflict_iff:
  "a \<in> set atoms \<Longrightarrow> b \<in> set atoms \<Longrightarrow> facts_conflict H lib c a b \<longleftrightarrow>
    a \<in> supported_atoms H lib c atoms \<and> b \<in> supported_atoms H lib c atoms
    \<and> (am_revision_id b \<in> set (am_contradicts_revision_refs a) \<or> am_revision_id a \<in> set (am_contradicts_revision_refs b))"
  by (auto simp: facts_conflict_def)

lemma applicable_values:
  assumes "distinct (map am_revision_id atoms)"
  shows "set (btm_values (applicable_facts H lib c atoms)) = {a \<in> set atoms. descriptive_applicable H lib a c}"
    and "a \<in> set atoms \<Longrightarrow>
      btm_contains_key (applicable_facts H lib c atoms) (am_revision_id a) \<longleftrightarrow> descriptive_applicable H lib a c"
proof -
  have d: "distinct (map am_revision_id (filter (\<lambda>a. descriptive_applicable H lib a c) atoms))"
    using assms by (simp add: distinct_map_filter)
  show "set (btm_values (applicable_facts H lib c atoms)) = {a \<in> set atoms. descriptive_applicable H lib a c}"
    by (simp add: applicable_facts_def values_insert_all_id [OF d])
  show "btm_contains_key (applicable_facts H lib c atoms) (am_revision_id a) \<longleftrightarrow> descriptive_applicable H lib a c" if "a \<in> set atoms"
    using insert_all_id [OF d] revision_inject [OF assms _ that] that by (auto simp: btm_contains_key_def applicable_facts_def)
qed

lemma disputed_iff:
  assumes "distinct (map am_revision_id atoms)" and a: "a \<in> set atoms"
  shows "am_revision_id a \<in> set (disputed_facts (supported_facts (applicable_facts H lib c atoms)) (applicable_facts H lib c atoms))
    \<longleftrightarrow> (\<exists>b \<in> set atoms. facts_conflict H lib c a b)"
proof -
  let ?m = "applicable_facts H lib c atoms" and ?facts = "supported_atoms H lib c atoms"
  note same = revision_inject [OF assms(1)]
  have sup: "set (supported_facts ?m) = am_revision_id ` ?facts"
    by (auto simp: supported_facts_def applicable_values [OF assms(1)])
  have fact: "x \<in> set (btm_values ?m) \<and> am_revision_id x \<in> set (supported_facts ?m) \<longleftrightarrow> x \<in> ?facts" for x
    unfolding sup applicable_values(1) [OF assms(1)] using same [of _ x] by auto
  have "set (disputed_facts (supported_facts ?m) ?m) = {k. \<exists>x. x \<in> ?facts
      \<and> (\<exists>r \<in> set (am_contradicts_revision_refs x). r \<in> set (supported_facts ?m) \<and> (k = am_revision_id x \<or> k = r))}"
    unfolding disputed_facts_def Let_def disputed_pairs fact [symmetric] by (simp only: Bex_def conj_assoc)
  then have disputed: "set (disputed_facts (supported_facts ?m) ?m) = {k. \<exists>x \<in> ?facts. \<exists>y \<in> ?facts.
      am_revision_id y \<in> set (am_contradicts_revision_refs x) \<and> (k = am_revision_id x \<or> k = am_revision_id y)}"
    unfolding sup by blast
  show ?thesis unfolding disputed
  proof (intro iffI)
    assume "am_revision_id a \<in> {k. \<exists>x \<in> ?facts. \<exists>y \<in> ?facts. am_revision_id y \<in> set (am_contradicts_revision_refs x)
        \<and> (k = am_revision_id x \<or> k = am_revision_id y)}"
    then obtain x y where xy: "x \<in> ?facts" "y \<in> ?facts" "am_revision_id y \<in> set (am_contradicts_revision_refs x)"
      and eq: "am_revision_id a = am_revision_id x \<or> am_revision_id a = am_revision_id y" by blast
    then have "facts_conflict H lib c x y" "facts_conflict H lib c y x" "x \<in> set atoms" "y \<in> set atoms"
      by (simp_all add: facts_conflict_def)
    moreover from eq have "a = x \<or> a = y" using same [OF a] \<open>x \<in> set atoms\<close> \<open>y \<in> set atoms\<close> by blast
    ultimately show "\<exists>b \<in> set atoms. facts_conflict H lib c a b" by blast
  next
    assume "\<exists>b \<in> set atoms. facts_conflict H lib c a b"
    then obtain b where b: "b \<in> set atoms" "facts_conflict H lib c a b" by blast
    from b(2) show "am_revision_id a \<in> {k. \<exists>x \<in> ?facts. \<exists>y \<in> ?facts. am_revision_id y \<in> set (am_contradicts_revision_refs x)
        \<and> (k = am_revision_id x \<or> k = am_revision_id y)}"
      unfolding facts_conflict_iff [OF a b(1)] by blast
  qed
qed

lemma descriptive_resolve_reference:
  assumes "distinct (map am_revision_id atoms)"
  shows "descriptive_resolve H lib atoms c =
    map (\<lambda>a. \<lparr>dr_revision_id = am_revision_id a, dr_state = standing_fact H lib c atoms a\<rparr>) atoms"
proof -
  let ?m = "applicable_facts H lib c atoms"
  have state: "fact_state (disputed_facts (supported_facts ?m) ?m) ?m a = standing_fact H lib c atoms a" if "a \<in> set atoms" for a
    unfolding fact_state_def standing_fact_def applicable_values(2) [OF assms that] disputed_iff [OF assms that]
    by (cases "am_epistemic_status a") simp_all
  show ?thesis unfolding descriptive_resolve_def Let_def
    by (intro map_cong refl arg_cong2 [where f = "\<lambda>r s. \<lparr>dr_revision_id = r, dr_state = s\<rparr>"] state)
qed

text \<open>
  C25. For atoms with distinct revisions the descriptive resolver reports exactly the reference
  state of every atom, and it never reports two facts as supported of which one contradicts the
  other.
\<close>
theorem descriptive_resolution_exact:
  assumes "distinct (map am_revision_id atoms)"
  shows "descriptive_resolve H lib atoms c =
      map (\<lambda>a. \<lparr>dr_revision_id = am_revision_id a, dr_state = standing_fact H lib c atoms a\<rparr>) atoms
    \<and> (\<forall>a \<in> set atoms. \<forall>b \<in> set atoms.
      \<lparr>dr_revision_id = am_revision_id a, dr_state = FactSupported\<rparr> \<in> set (descriptive_resolve H lib atoms c)
      \<and> \<lparr>dr_revision_id = am_revision_id b, dr_state = FactSupported\<rparr> \<in> set (descriptive_resolve H lib atoms c)
      \<longrightarrow> am_revision_id b \<notin> set (am_contradicts_revision_refs a))"
proof (intro conjI)
  show "descriptive_resolve H lib atoms c =
      map (\<lambda>a. \<lparr>dr_revision_id = am_revision_id a, dr_state = standing_fact H lib c atoms a\<rparr>) atoms"
    using assms by (rule descriptive_resolve_reference)
next
  note exact = descriptive_resolve_reference [OF assms, of H lib c]
  have supported: "standing_fact H lib c atoms a = FactSupported"
    if "a \<in> set atoms" "\<lparr>dr_revision_id = am_revision_id a, dr_state = FactSupported\<rparr> \<in> set (descriptive_resolve H lib atoms c)" for a
  proof -
    from that(2) obtain x where "x \<in> set atoms" "am_revision_id a = am_revision_id x" "FactSupported = standing_fact H lib c atoms x"
      unfolding exact by auto
    with revision_inject [OF assms that(1) this(1,2)] show ?thesis by simp
  qed
  show "\<forall>a \<in> set atoms. \<forall>b \<in> set atoms.
      \<lparr>dr_revision_id = am_revision_id a, dr_state = FactSupported\<rparr> \<in> set (descriptive_resolve H lib atoms c)
      \<and> \<lparr>dr_revision_id = am_revision_id b, dr_state = FactSupported\<rparr> \<in> set (descriptive_resolve H lib atoms c)
      \<longrightarrow> am_revision_id b \<notin> set (am_contradicts_revision_refs a)"
  proof (intro ballI impI, elim conjE)
    fix a b assume a: "a \<in> set atoms" "\<lparr>dr_revision_id = am_revision_id a, dr_state = FactSupported\<rparr> \<in> set (descriptive_resolve H lib atoms c)"
      and b: "b \<in> set atoms" "\<lparr>dr_revision_id = am_revision_id b, dr_state = FactSupported\<rparr> \<in> set (descriptive_resolve H lib atoms c)"
    from supported [OF a] supported [OF b] b(1) show "am_revision_id b \<notin> set (am_contradicts_revision_refs a)"
      by (auto simp: standing_fact_def facts_conflict_def split: if_splits)
  qed
qed

section \<open>Samples\<close>

text \<open>
  A policy rule for a repository and one for a worktree of it with the same key, and two
  supported facts of which one contradicts the other.
\<close>

definition sample_policy_rule :: "revision_id \<Rightarrow> atom_scope \<Rightarrow> policy_host_scope \<Rightarrow> atom" where
  "sample_policy_rule r scope host = sample_atom\<lparr>am_revision_id := r, am_kind := KindConstraint,
    am_epistemic_status := EpistemicNotApplicable, am_authority := ProjectPolicy, am_scope := scope,
    am_policy_authority_provenance := Some \<lparr>pp_policy_source_kind = ''p'', pp_policy_source_revision_ref = ''v'',
      pp_policy_content_hash = replicate 32 1, pp_host_resolved_scope = host, pp_adapter_manifest_id = ''m''\<rparr>,
    am_source_observation_refs := [[6]]\<rparr>"

definition sample_policy_binding :: "atom_scope \<Rightarrow> current_policy_binding" where
  "sample_policy_binding scope = \<lparr>cp_policy_source_kind = ''p'', cp_policy_source_revision_ref = ''v'',
    cp_policy_content_hash = replicate 32 1, cp_host_resolved_scope = scope, cp_adapter_manifest_id = ''m'',
    cp_policy_observation_ref = [6], cp_policy_receipt_ref = [5], cp_policy_evidence_refs = [''e'']\<rparr>"

definition sample_rules :: "atom list" where
  "sample_rules = [sample_policy_rule 2 (AtomScopeRepository 7) (PolicyScopeRepository 7),
    sample_policy_rule 9 (AtomScopeWorktree 7 8) (PolicyScopeWorktree 7 8)]"

definition sample_context :: resolver_context where
  "sample_context = \<lparr>rc_task_id = Some 3, rc_repository_instance_id = Some 7, rc_worktree_instance_id = Some 8,
    rc_now_us = 10, rc_current_fields = \<lparr>cs_bindings = []\<rparr>, rc_previous_fields = None,
    rc_current_policy_bindings = [sample_policy_binding (AtomScopeRepository 7), sample_policy_binding (AtomScopeWorktree 7 8)],
    rc_globally_supported_revisions = []\<rparr>"

definition sample_contradiction :: atom where
  "sample_contradiction = sample_atom\<lparr>am_atom_id := 8, am_revision_id := 9, am_contradicts_revision_refs := [2]\<rparr>"

lemmas sample_atom_checks = atom_validate_def cue_exprs_validate_def validity_interval_validate_def validate_references_def
  atom_validate_axes_def validate_unprivileged_axes_def atom_validate_authority_def policy_authority_validate_def
  observed_provenance_def atom_kind_is_descriptive_def atom_kind_is_normative_def atom_kind_supports_objective_evidence_def

lemma sample_contradiction_valid: "atom_validate H lib sample_contradiction = Ok ()"
  by (simp add: sample_atom_checks sample_atom_def sample_contradiction_def sample_value_valid sample_atom_text)

lemma sample_rule_fields [simp]:
  "am_revision_id (sample_policy_rule r scope host) = r" "am_kind (sample_policy_rule r scope host) = KindConstraint"
  "am_authority (sample_policy_rule r scope host) = ProjectPolicy" "am_scope (sample_policy_rule r scope host) = scope"
  "am_value (sample_policy_rule r scope host) = sample_value"
  "am_lifecycle_status (sample_policy_rule r scope host) = AtomActive"
  "am_applicability_expr (sample_policy_rule r scope host) = ApplicabilityAlways"
  "am_validity_interval (sample_policy_rule r scope host) = \<lparr>vi_valid_from_us = 0, vi_valid_until_us = None\<rparr>"
  "am_supersedes_revision_refs (sample_policy_rule r scope host) = []"
  "am_source_observation_refs (sample_policy_rule r scope host) = [[6]]"
  "am_evidence_refs (sample_policy_rule r scope host) = [''e'']"
  "am_policy_authority_provenance (sample_policy_rule r scope host) = Some \<lparr>pp_policy_source_kind = ''p'',
    pp_policy_source_revision_ref = ''v'', pp_policy_content_hash = replicate 32 1, pp_host_resolved_scope = host,
    pp_adapter_manifest_id = ''m''\<rparr>"
  by (simp_all add: sample_policy_rule_def sample_atom_def)

lemma sample_policy_ok:
  assumes "host = PolicyScopeRepository 7 \<and> scope = AtomScopeRepository 7 \<or> host = PolicyScopeWorktree 7 8 \<and> scope = AtomScopeWorktree 7 8"
  shows "policy_authority_validate (sample_policy_rule r scope host) = Ok ()"
  using assms
  by (auto simp: policy_authority_validate_def atom_kind_is_normative_def atom_kind_is_descriptive_def sample_atom_text ok_or_def)
    (simp_all add: sample_policy_rule_def sample_atom_def)

lemma sample_rule_valid:
  assumes "host = PolicyScopeRepository 7 \<and> scope = AtomScopeRepository 7 \<or> host = PolicyScopeWorktree 7 8 \<and> scope = AtomScopeWorktree 7 8"
  shows "atom_validate H lib (sample_policy_rule r scope host) = Ok ()"
  using assms
  by (auto simp: atom_validate_def atom_validate_authority_def sample_policy_ok [OF assms] sample_value_valid)
    (simp_all add: sample_atom_checks sample_atom_def sample_policy_rule_def sample_atom_text)

lemma sample_rule_eligible:
  assumes "host = PolicyScopeRepository 7 \<and> scope = AtomScopeRepository 7 \<or> host = PolicyScopeWorktree 7 8 \<and> scope = AtomScopeWorktree 7 8"
  shows "normative_precondition H lib (sample_policy_rule r scope host) sample_context = NormActive"
proof -
  have "authority_decides (sample_policy_rule r scope host) sample_context = None"
    using assms by (auto simp: authority_decides_def sample_context_def
      sample_policy_binding_def current_policy_binding_supports_atom_def current_policy_binding_provenance_def)
  then show ?thesis using assms
    by (auto simp: normative_precondition_def sample_rule_valid atom_kind_is_normative_def atom_kind_is_descriptive_def sample_context_def
        validity_interval_contains_def)
qed

lemma sample_rules_distinct: "distinct (map am_revision_id sample_rules)"
  by (simp add: sample_rules_def sample_policy_rule_def)

lemma sample_rules_eligible: "eligible_norms H lib sample_context sample_rules = sample_rules"
  by (simp add: eligible_norms_def sample_rules_def sample_rule_eligible)

lemma sample_rules_rank:
  "\<not> superseded_in sample_rules a" "outranked_in sample_rules (sample_rules ! 0)" "\<not> outranked_in sample_rules (sample_rules ! 1)"
  by (simp_all add: superseded_in_def outranked_in_def sample_rules_def sample_policy_rule_def sample_atom_def
      normative_key_from_atom_def norm_precedence_def)

theorem normative_resolution_exact_witness:
  "normative_resolve (\<lambda>b. b) sample_uuid_lib sample_rules sample_context =
    [\<lparr>nr_revision_id = 2, nr_state = NormShadowed\<rparr>, \<lparr>nr_revision_id = 9, nr_state = NormActive\<rparr>]"
  using normative_resolution_exact [OF sample_rules_distinct, of "\<lambda>b. b" sample_uuid_lib sample_context] sample_rules_rank
  unfolding governing_state_def sample_rules_eligible
  by (simp add: sample_rules_def sample_rule_eligible)

theorem normative_resolution_governs_witness:
  "\<exists>b \<in> set sample_rules. \<lparr>nr_revision_id = am_revision_id b, nr_state = NormActive\<rparr>
    \<in> set (normative_resolve (\<lambda>b. b) sample_uuid_lib sample_rules sample_context)"
proof -
  have first: "sample_rules ! 0 \<in> set sample_rules" by (simp add: sample_rules_def)
  from normative_resolution_governs [OF sample_rules_distinct first, of "\<lambda>b. b" sample_uuid_lib sample_context]
  show ?thesis using first by (auto simp: sample_rules_eligible sample_rules_rank)
qed

lemma sample_facts_applicable:
  "descriptive_applicable H lib sample_atom sample_context" "descriptive_applicable H lib sample_contradiction sample_context"
  by (simp_all add: descriptive_applicable_def sample_atoms_valid sample_contradiction_valid)
    (simp_all add: sample_atom_def sample_contradiction_def sample_context_def atom_kind_is_descriptive_def
      validity_interval_contains_def constraint_truth_allows_enforcement_def)

theorem descriptive_resolution_exact_witness:
  "descriptive_resolve (\<lambda>b. b) sample_uuid_lib [sample_atom, sample_contradiction] sample_context =
    [\<lparr>dr_revision_id = 2, dr_state = FactDisputed\<rparr>, \<lparr>dr_revision_id = 9, dr_state = FactDisputed\<rparr>]"
proof -
  have d: "distinct (map am_revision_id [sample_atom, sample_contradiction])"
    by (simp add: sample_atom_def sample_contradiction_def)
  have "facts_conflict (\<lambda>b. b) sample_uuid_lib sample_context sample_atom sample_contradiction"
    "facts_conflict (\<lambda>b. b) sample_uuid_lib sample_context sample_contradiction sample_atom"
    by (simp_all add: facts_conflict_def sample_facts_applicable) (simp_all add: sample_atom_def sample_contradiction_def)
  with descriptive_resolution_exact [OF d, of "\<lambda>b. b" sample_uuid_lib sample_context] show ?thesis
    by (simp add: standing_fact_def sample_facts_applicable) (simp add: sample_atom_def sample_contradiction_def)
qed

end
