(* ===== verification/Procedure.thy ===== *)
theory Procedure
  imports Atom Object_Rows
begin

text \<open>
  Procedures of the semantic memory, \<open>evertrace-domain/src/procedure.rs\<close>: drafts, immutable
  revisions, the publication state machine, the eligibility for automatic promotion and the
  text a procedure is routed by. Usage and effect records, which have modules of their own,
  are not modelled. The lemmas show how the revisions of a procedure develop, which
  publication states can follow each other, and that the routing text is the longest prefix
  that fits.
\<close>

section \<open>Drafts\<close>

definition PROCEDURE_MAX_TEXT :: nat where "PROCEDURE_MAX_TEXT = 2048"
definition PROCEDURE_MAX_ITEMS :: nat where "PROCEDURE_MAX_ITEMS = 64"
definition PROCEDURE_MAX_REFS :: nat where "PROCEDURE_MAX_REFS = 256"

datatype procedure_kind = ProcedureWorkflow | ProcedureDiagnostic | ProcedureGuardrail

datatype procedure_scope =
    ProcedureScopeWorktree repository_id worktree_id
  | ProcedureScopeRepository repository_id
  | ProcedureScopeGlobal

fun procedure_scope_contains :: "procedure_scope \<Rightarrow> procedure_scope \<Rightarrow> bool" where
  "procedure_scope_contains ProcedureScopeGlobal _ = True"
| "procedure_scope_contains (ProcedureScopeRepository r) (ProcedureScopeRepository r') = (r = r')"
| "procedure_scope_contains (ProcedureScopeRepository r) (ProcedureScopeWorktree r' _) = (r = r')"
| "procedure_scope_contains (ProcedureScopeWorktree r w) (ProcedureScopeWorktree r' w') = (r = r' \<and> w = w')"
| "procedure_scope_contains _ _ = False"

record procedure_when =
  pw_goals :: "string list"
  pw_targets :: "string list"
  pw_signals :: "string list"
  pw_stage :: string
  pw_requires :: "string list"
  pw_excludes :: "string list"

record procedure_branch =
  pb_label :: string
  pb_condition :: constraint_expr
  pb_stages :: "string list"

record procedure_actions =
  pa_stages :: "string list"
  pa_branches :: "procedure_branch list"
  pa_avoid :: "string list"

record procedure_done =
  pe_success :: "string list"
  pe_abort :: "string list"
  pe_verify :: "string list"

record procedure_step_alignment =
  ps_entry :: constraint_expr
  ps_progress :: constraint_expr
  ps_completed :: constraint_expr

record procedure_branch_alignment =
  ba_at_main_step :: nat
  ba_steps :: "procedure_step_alignment list"

record procedure_stage_alignment =
  sa_main :: "procedure_step_alignment list"
  sa_branches :: "procedure_branch_alignment list"

record procedure_draft =
  pd_scope :: procedure_scope
  pd_title :: string
  pd_summary :: string
  pd_kind :: procedure_kind
  pd_when :: procedure_when
  pd_condition_ir_version :: u32
  pd_applicability_expr :: constraint_expr
  pd_avoid_expr :: constraint_expr
  pd_completion_expr :: constraint_expr
  pd_stage_alignment :: "procedure_stage_alignment option"
  pd_actions :: procedure_actions
  pd_done :: procedure_done
  pd_pitfalls :: "string list"
  pd_evidence_refs :: "string list"
  pd_support_revision_refs :: "revision_id list"

definition procedure_text :: "string \<Rightarrow> bool" where
  "procedure_text value \<longleftrightarrow> value \<noteq> [] \<and> length value \<le> PROCEDURE_MAX_TEXT \<and> \<not> has_control value"

definition ordered_text :: "string list \<Rightarrow> bool" where
  "ordered_text values \<longleftrightarrow> length values \<le> PROCEDURE_MAX_ITEMS \<and> (\<forall>value \<in> set values. procedure_text value)"

definition sorted_text :: "string list \<Rightarrow> bool" where
  "sorted_text values \<longleftrightarrow>
    values \<noteq> [] \<and> length values \<le> PROCEDURE_MAX_REFS \<and> ordered_text values \<and> windows_all (<) values"

definition draft_scalars_ok :: "procedure_draft \<Rightarrow> bool" where
  "draft_scalars_ok d \<longleftrightarrow>
    \<not> (pd_condition_ir_version d \<noteq> 1
      \<or> \<not> procedure_text (pd_title d)
      \<or> \<not> procedure_text (pd_summary d)
      \<or> \<not> procedure_text (pw_stage (pd_when d))
      \<or> \<not> ordered_text (pw_goals (pd_when d))
      \<or> \<not> ordered_text (pw_targets (pd_when d))
      \<or> \<not> ordered_text (pw_signals (pd_when d))
      \<or> \<not> ordered_text (pw_requires (pd_when d))
      \<or> \<not> ordered_text (pw_excludes (pd_when d))
      \<or> \<not> ordered_text (pa_stages (pd_actions d))
      \<or> \<not> ordered_text (pa_avoid (pd_actions d))
      \<or> pa_stages (pd_actions d) = []
      \<or> length (pa_branches (pd_actions d)) > PROCEDURE_MAX_ITEMS
      \<or> \<not> ordered_text (pe_success (pd_done d))
      \<or> \<not> ordered_text (pe_abort (pd_done d))
      \<or> \<not> ordered_text (pe_verify (pd_done d))
      \<or> pe_success (pd_done d) = []
      \<or> pe_abort (pd_done d) = []
      \<or> pe_verify (pd_done d) = []
      \<or> \<not> ordered_text (pd_pitfalls d)
      \<or> pd_evidence_refs d = []
      \<or> \<not> sorted_text (pd_evidence_refs d)
      \<or> length (pd_support_revision_refs d) > PROCEDURE_MAX_REFS
      \<or> \<not> strictly_sorted (pd_support_revision_refs d)
      \<or> pd_scope d = ProcedureScopeGlobal \<and> pd_support_revision_refs d = [])"

definition branch_validate :: "procedure_branch \<Rightarrow> (semantic_error, unit) result" where
  "branch_validate b =
    (if \<not> procedure_text (pb_label b) \<or> pb_stages b = [] \<or> \<not> ordered_text (pb_stages b) then Err InvalidProcedure
     else constraint_expr_validate (pb_condition b))"

definition step_validate :: "procedure_step_alignment \<Rightarrow> (semantic_error, unit) result" where
  "step_validate s =
    and_then (constraint_expr_validate (ps_entry s)) (\<lambda>_.
    and_then (constraint_expr_validate (ps_progress s)) (\<lambda>_.
    constraint_expr_validate (ps_completed s)))"

definition alignment_validate :: "procedure_actions \<Rightarrow> procedure_stage_alignment \<Rightarrow> (semantic_error, unit) result" where
  "alignment_validate actions alignment =
    (if length (sa_main alignment) \<noteq> length (pa_stages actions)
        \<or> length (sa_branches alignment) \<noteq> length (pa_branches actions)
        \<or> length (sa_main alignment) + sum_list (map (\<lambda>b. length (ba_steps b)) (sa_branches alignment)) > 64
     then Err InvalidProcedure
     else and_then (for_each (\<lambda>(mapping, branch).
         if ba_at_main_step mapping \<ge> length (sa_main alignment) \<or> length (ba_steps mapping) \<noteq> length (pb_stages branch)
         then Err InvalidProcedure else Ok ()) (zip (sa_branches alignment) (pa_branches actions))) (\<lambda>_.
       for_each step_validate (sa_main alignment @ concat (map ba_steps (sa_branches alignment)))))"

definition procedure_draft_validate :: "procedure_draft \<Rightarrow> (semantic_error, unit) result" where
  "procedure_draft_validate d =
    (if \<not> draft_scalars_ok d then Err InvalidProcedure
     else and_then (for_each branch_validate (pa_branches (pd_actions d))) (\<lambda>_.
     and_then (constraint_expr_validate (pd_applicability_expr d)) (\<lambda>_.
     and_then (constraint_expr_validate (pd_avoid_expr d)) (\<lambda>_.
     and_then (case pd_stage_alignment d of None \<Rightarrow> Ok () | Some alignment \<Rightarrow> alignment_validate (pd_actions d) alignment) (\<lambda>_.
     constraint_expr_validate (pd_completion_expr d))))))"

section \<open>Revisions\<close>

record procedure_revision =
  pr_procedure_id :: procedure_id
  pr_revision_id :: revision_id
  pr_parent_revision_id :: "revision_id option"
  pr_revision_generation :: u32
  pr_draft :: procedure_draft
  pr_source_watermark :: u64
  pr_created_at_us :: i64

definition procedure_revision_validate :: "procedure_revision \<Rightarrow> (semantic_error, unit) result" where
  "procedure_revision_validate p =
    and_then (procedure_draft_validate (pr_draft p)) (\<lambda>_.
    if pr_revision_generation p = 0
       \<or> pr_source_watermark p = 0
       \<or> sint (pr_created_at_us p) < 0
       \<or> is_some (pr_parent_revision_id p) \<noteq> (pr_revision_generation p > 1)
    then Err InvalidProcedure else Ok ())"

definition same_behavior :: "procedure_revision \<Rightarrow> procedure_revision \<Rightarrow> bool" where
  "same_behavior p next \<longleftrightarrow> pr_draft p = pr_draft next"

definition u32_saturating_add :: "u32 \<Rightarrow> u32 \<Rightarrow> u32" where
  "u32_saturating_add a b = (if a + b < a then - 1 else a + b)"

definition procedure_revision_validate_successor ::
  "procedure_revision \<Rightarrow> procedure_revision \<Rightarrow> (semantic_error, unit) result" where
  "procedure_revision_validate_successor p next =
    and_then (procedure_revision_validate next) (\<lambda>_.
    if pr_procedure_id next \<noteq> pr_procedure_id p
       \<or> pr_parent_revision_id next \<noteq> Some (pr_revision_id p)
       \<or> pr_revision_generation next \<noteq> u32_saturating_add (pr_revision_generation p) 1
       \<or> \<not> procedure_scope_contains (pd_scope (pr_draft p)) (pd_scope (pr_draft next))
       \<or> sint (pr_created_at_us next) < sint (pr_created_at_us p)
       \<or> same_behavior p next
    then Err InvalidProcedureSuccessor else Ok ())"

text \<open>The labelled texts in the order in which the nested loops of the code visit them.\<close>

definition route_labels :: "procedure_draft \<Rightarrow> (string \<times> string list) list" where
  "route_labels d =
    [(''title'', [pd_title d]), (''summary'', [pd_summary d]), (''stage'', [pw_stage (pd_when d)]),
     (''goal'', pw_goals (pd_when d)), (''target'', pw_targets (pd_when d)), (''signal'', pw_signals (pd_when d)),
     (''requires'', pw_requires (pd_when d)), (''excludes'', pw_excludes (pd_when d)),
     (''done'', pe_success (pd_done d)), (''abort'', pe_abort (pd_done d)), (''verify'', pe_verify (pd_done d)),
     (''pitfall'', pd_pitfalls d)]"

fun route_loop :: "nat \<Rightarrow> nat \<Rightarrow> (string \<times> string) list \<Rightarrow> string list" where
  "route_loop max_bytes used [] = []"
| "route_loop max_bytes used ((label, value) # rest) =
    (let bytes = length label + 1 + length value in
     if usize_saturating_add (usize_saturating_add used bytes) 1 > max_bytes then []
     else (label @ '':'' @ value) # route_loop max_bytes (used + (bytes + 1)) rest)"

definition procedure_revision_route_text_fields :: "procedure_revision \<Rightarrow> nat \<Rightarrow> string list" where
  "procedure_revision_route_text_fields p max_bytes =
    route_loop max_bytes 0 (concat (map (\<lambda>(label, values). map (Pair label) values) (route_labels (pr_draft p))))"

section \<open>Publication\<close>

datatype procedure_publication_state =
    PubActiveProbationary | PubReviewHold | PubActiveStable | PubSuspended | PubRolledBack | PubSuperseded

datatype procedure_state_reason =
    ReasonAccepted | ReasonSupportPending | ReasonSupportRestored | ReasonObjectiveSuccesses | ReasonIrConflict
  | ReasonSuspectedHarm | ReasonConfirmedHarm | ReasonEvidenceInvalidated | ReasonContractInvalidated | ReasonManual
  | ReasonReplaced | ReasonRollback

record procedure_state_event =
  pv_state_event_id :: revision_id
  pv_procedure_revision_id :: revision_id
  pv_from_state :: "procedure_publication_state option"
  pv_to_state :: procedure_publication_state
  pv_reason :: procedure_state_reason
  pv_resume_state :: "procedure_publication_state option"
  pv_evidence_refs :: "string list"
  pv_created_at_us :: i64

definition publication_edges :: "(procedure_publication_state \<times> procedure_publication_state) set" where
  "publication_edges =
    {PubActiveProbationary} \<times> {PubReviewHold, PubActiveStable, PubSuspended, PubRolledBack, PubSuperseded}
    \<union> {PubActiveStable} \<times> {PubReviewHold, PubSuspended, PubRolledBack, PubSuperseded}
    \<union> {PubReviewHold} \<times> {PubActiveProbationary, PubSuspended, PubSuperseded}
    \<union> {PubSuspended} \<times> {PubActiveProbationary, PubRolledBack, PubSuperseded}
    \<union> {(PubRolledBack, PubSuperseded), (PubSuperseded, PubActiveProbationary)}"

definition transition_allowed :: "procedure_state_event \<Rightarrow> bool" where
  "transition_allowed e = (case pv_from_state e of
      None \<Rightarrow> pv_resume_state e = None
    | Some from_state \<Rightarrow>
        (from_state, pv_to_state e) \<in> publication_edges
        \<and> (if pv_to_state e = PubReviewHold then pv_resume_state e = Some from_state else pv_resume_state e = None)
        \<and> (from_state \<noteq> PubSuperseded \<or> pv_to_state e \<noteq> PubActiveProbationary \<or> pv_reason e = ReasonRollback))"

definition procedure_state_event_validate :: "procedure_state_event \<Rightarrow> (semantic_error, unit) result" where
  "procedure_state_event_validate e =
    (if sint (pv_created_at_us e) < 0
        \<or> pv_evidence_refs e = []
        \<or> \<not> sorted_text (pv_evidence_refs e)
        \<or> pv_from_state e = None \<and> pv_to_state e \<noteq> PubActiveProbationary
        \<or> pv_from_state e = None \<and> pv_reason e \<noteq> ReasonAccepted
        \<or> \<not> transition_allowed e
     then Err InvalidProcedurePublication else Ok ())"

section \<open>Automatic promotion\<close>

datatype promotion_level = PromotionManual | PromotionSemiAuto | PromotionFullAuto

record procedure_eligibility_evidence =
  pg_independent_successes :: u8
  pg_retrospective_contrasts :: u8
  pg_objective_verifier_present :: bool
  pg_evidence_complete :: bool
  pg_non_triviality_passed :: bool
  pg_when_done_contract_complete :: bool
  pg_unresolved_contradictions :: u8
  pg_redundancy_check_passed :: bool
  pg_distinct_applicability_contexts :: u8
  pg_confirmed_harm :: u8
  pg_unresolved_suspected_harm :: u8
  pg_applicability_expr_complete :: bool
  pg_verifier_observation_ref :: "source_observation_id option"

definition PROCEDURE_ELIGIBILITY_VALIDATOR_REVISION :: string where
  "PROCEDURE_ELIGIBILITY_VALIDATOR_REVISION = ''s24-procedure-eligibility-v1''"

record procedure_auto_full_audit =
  pf_validator_revision :: string
  pf_eligibility :: procedure_eligibility_evidence
  pf_procedure_promotion_level :: promotion_level
  pf_eligible :: bool
  pf_capability_inventory_refs :: "uuid list option"

definition auto_eligible_full :: "procedure_eligibility_evidence \<Rightarrow> bool \<Rightarrow> bool \<Rightarrow> bool" where
  "auto_eligible_full g global global_full_auto \<longleftrightarrow>
    pg_independent_successes g \<ge> (if global then 3 else 2)
    \<and> pg_retrospective_contrasts g \<ge> 1
    \<and> pg_objective_verifier_present g
    \<and> is_some (pg_verifier_observation_ref g)
    \<and> pg_evidence_complete g
    \<and> pg_non_triviality_passed g
    \<and> pg_when_done_contract_complete g
    \<and> pg_unresolved_contradictions g = 0
    \<and> pg_redundancy_check_passed g
    \<and> (\<not> global
       \<or> global_full_auto
         \<and> pg_distinct_applicability_contexts g \<ge> 2
         \<and> pg_confirmed_harm g = 0
         \<and> pg_unresolved_suspected_harm g = 0
         \<and> pg_applicability_expr_complete g)"

definition procedure_auto_full_audit_validate :: "procedure_auto_full_audit \<Rightarrow> bool \<Rightarrow> (semantic_error, unit) result" where
  "procedure_auto_full_audit_validate f global =
    (let global_full_auto = pf_procedure_promotion_level f = PromotionFullAuto;
         expected = (\<not> global \<or> global_full_auto) \<and> auto_eligible_full (pf_eligibility f) global global_full_auto in
     if pf_validator_revision f \<noteq> PROCEDURE_ELIGIBILITY_VALIDATOR_REVISION
        \<or> pf_eligible f \<noteq> expected
        \<or> \<not> pf_eligible f
        \<or> is_some_and (\<lambda>refs. refs = [] \<or> length refs > 8 \<or> \<not> windows_all (<) refs) (pf_capability_inventory_refs f)
     then Err InvalidProposal else Ok ())"

section \<open>The routing text\<close>

definition field_text :: "string \<times> string \<Rightarrow> string" where
  "field_text f = fst f @ '':'' @ snd f"

lemma field_text_pair [simp]: "field_text (label, v) = label @ '':'' @ v"
  by (simp add: field_text_def)

definition joined_bytes :: "string list \<Rightarrow> nat" where
  "joined_bytes ts = sum_list (map (\<lambda>t. length t + 1) ts)"

lemma joined_bytes_Cons [simp]: "joined_bytes (t # ts) = length t + 1 + joined_bytes ts"
  by (simp add: joined_bytes_def)

lemma joined_bytes_Nil [simp]: "joined_bytes [] = 0"
  by (simp add: joined_bytes_def)

lemma saturating_exceeds:
  "max_bytes < 2 ^ 64 - 1 \<Longrightarrow>
    usize_saturating_add (usize_saturating_add used n) 1 > max_bytes \<longleftrightarrow> used + (n + 1) > max_bytes"
  by (auto simp: usize_saturating_add_def min_def)

lemma route_loop_prefix:
  assumes "max_bytes < 2 ^ 64 - 1"
  shows "\<exists>n \<le> length fs. route_loop max_bytes used fs = take n (map field_text fs)
    \<and> (n = 0 \<or> used + joined_bytes (take n (map field_text fs)) \<le> max_bytes)
    \<and> (n < length fs \<longrightarrow> used + joined_bytes (take (Suc n) (map field_text fs)) > max_bytes)"
proof (induction fs arbitrary: used)
  case (Cons f fs)
  obtain label v where f: "f = (label, v)" by (cases f)
  show ?case
  proof (cases "usize_saturating_add (usize_saturating_add used (length label + 1 + length v)) 1 > max_bytes")
    case True
    then have "used + (length label + 1 + length v + 1) > max_bytes" by (simp only: saturating_exceeds [OF assms])
    with True show ?thesis by (intro exI [of _ 0]) (simp add: f Let_def)
  next
    case False
    then have fits: "used + (length label + 1 + length v + 1) \<le> max_bytes" by (simp only: saturating_exceeds [OF assms] not_less)
    from Cons.IH [of "used + (length label + 1 + length v + 1)"] obtain n where
      "n \<le> length fs" "route_loop max_bytes (used + (length label + 1 + length v + 1)) fs = take n (map field_text fs)"
      "n = 0 \<or> used + (length label + 1 + length v + 1) + joined_bytes (take n (map field_text fs)) \<le> max_bytes"
      "n < length fs \<longrightarrow> used + (length label + 1 + length v + 1) + joined_bytes (take (Suc n) (map field_text fs)) > max_bytes"
      by blast
    with False fits show ?thesis
      by (intro exI [of _ "Suc n"]) (auto simp: f Let_def)
  qed
qed simp

abbreviation route_fields :: "procedure_revision \<Rightarrow> string list" where
  "route_fields p \<equiv> map field_text (concat (map (\<lambda>(label, values). map (Pair label) values) (route_labels (pr_draft p))))"

text \<open>
  C40. The routing text of a procedure is the longest prefix of its labelled texts that fits into
  the given number of bytes, one separator counted for each; for every limit below the largest
  machine word the saturating sums are exact.
\<close>
theorem route_text_longest_prefix:
  assumes "max_bytes < 2 ^ 64 - 1"
  shows "\<exists>n \<le> length (route_fields p).
    procedure_revision_route_text_fields p max_bytes = take n (route_fields p)
    \<and> joined_bytes (take n (route_fields p)) \<le> max_bytes
    \<and> (\<forall>m \<le> length (route_fields p). joined_bytes (take m (route_fields p)) \<le> max_bytes \<longrightarrow> m \<le> n)"
proof -
  let ?fs = "concat (map (\<lambda>(label, values). map (Pair label) values) (route_labels (pr_draft p)))"
  from route_loop_prefix [OF assms, of ?fs 0] obtain n where n: "n \<le> length (route_fields p)"
    "procedure_revision_route_text_fields p max_bytes = take n (route_fields p)"
    "n = 0 \<or> joined_bytes (take n (route_fields p)) \<le> max_bytes"
    "n < length (route_fields p) \<longrightarrow> joined_bytes (take (Suc n) (route_fields p)) > max_bytes"
    unfolding procedure_revision_route_text_fields_def add_0 length_map by blast
  have mono: "joined_bytes (take k ts) \<le> joined_bytes (take m ts)" if "k \<le> m" for k m ts
  proof -
    from that have "take m ts = take k ts @ take (m - k) (drop k ts)" by (metis le_add_diff_inverse take_add)
    then show ?thesis by (simp add: joined_bytes_def)
  qed
  have "m \<le> n" if "m \<le> length (route_fields p)" "joined_bytes (take m (route_fields p)) \<le> max_bytes" for m
  proof (rule ccontr)
    assume "\<not> m \<le> n"
    then have "Suc n \<le> m" "n < length (route_fields p)" using that(1) by simp_all
    with n(4) mono [of "Suc n" m "route_fields p"] that(2) show False by simp
  qed
  with n(1-3) show ?thesis by (intro exI [of _ n]) auto
qed

section \<open>The history of a procedure\<close>

lemma procedure_scope_contains_refl [simp]: "procedure_scope_contains s s"
  by (cases s) simp_all

lemma procedure_scope_contains_trans:
  "procedure_scope_contains a b \<Longrightarrow> procedure_scope_contains b c \<Longrightarrow> procedure_scope_contains a c"
  by (cases a; cases b; cases c) simp_all

lemma unat_saturating_add_one: "unat (u32_saturating_add g 1) = min (unat g + 1) (2 ^ 32 - 1)"
proof (cases "g = - 1")
  case True
  then show ?thesis by (simp add: u32_saturating_add_def unsigned_minus_1_eq_mask mask_eq_exp_minus_1 word_less_nat_alt)
next
  case False
  have top: "unat (- 1 :: u32) = 2 ^ 32 - 1" by (simp add: unsigned_minus_1_eq_mask mask_eq_exp_minus_1)
  have "unat g \<noteq> 2 ^ 32 - 1" using False top word_unat_eq_iff [of g "- 1"] by simp
  moreover have "unat g < 2 ^ 32" using unsigned_less [of g] by simp
  ultimately have lt: "unat g + 1 < 2 ^ 32" by linarith
  then have s: "unat (g + 1) = unat g + 1" by (simp add: unat_word_ariths)
  then have "\<not> g + 1 < g" by (simp add: word_less_nat_alt)
  with s lt show ?thesis by (simp add: u32_saturating_add_def)
qed

text \<open>How a later revision of a procedure relates to an earlier one.\<close>

definition procedure_narrows :: "procedure_revision \<Rightarrow> procedure_revision \<Rightarrow> bool" where
  "procedure_narrows p q \<longleftrightarrow> pr_procedure_id q = pr_procedure_id p
    \<and> procedure_scope_contains (pd_scope (pr_draft p)) (pd_scope (pr_draft q))
    \<and> sint (pr_created_at_us p) \<le> sint (pr_created_at_us q)"

lemma procedure_narrows_transp: "transp procedure_narrows"
  by (rule transpI) (auto simp: procedure_narrows_def intro: procedure_scope_contains_trans)

lemma procedure_successorD:
  assumes "procedure_revision_validate_successor p q = Ok ()"
  shows "procedure_narrows p q" and "pr_draft p \<noteq> pr_draft q" and "procedure_revision_validate q = Ok ()"
    and "pr_parent_revision_id q = Some (pr_revision_id p)"
    and "unat (pr_revision_generation q) = min (unat (pr_revision_generation p) + 1) (2 ^ 32 - 1)"
  using assms
  by (auto simp: procedure_revision_validate_successor_def result_simps procedure_narrows_def same_behavior_def
      unat_saturating_add_one)

lemma procedure_generation:
  assumes "windows_all (\<lambda>a b. procedure_revision_validate_successor a b = Ok ()) history" and "i \<le> j" and "j < length history"
  shows "unat (pr_revision_generation (history ! j))
    = min (unat (pr_revision_generation (history ! i)) + (j - i)) (2 ^ 32 - 1)"
  using assms(2,3)
proof (induction rule: dec_induct)
  case base
  have "unat (pr_revision_generation (history ! i)) < 2 ^ 32" using unsigned_less [of "pr_revision_generation (history ! i)"] by simp
  then show ?case by simp
next
  case (step n)
  from procedure_successorD(5) [OF windows_all_nth [OF assms(1) step.prems]] step show ?case by (simp add: Suc_diff_le min_def)
qed

text \<open>
  Along the accepted revisions of a procedure its identity is fixed, its scope only narrows,
  time does not run backwards, every revision changes the behaviour of the one before and names
  it as its parent, and the generation counts the revisions until it saturates at the largest
  32-bit value.
\<close>
theorem procedure_history_narrows:
  assumes "windows_all (\<lambda>a b. procedure_revision_validate_successor a b = Ok ()) history" and "i < j" and "j < length history"
  shows "procedure_narrows (history ! i) (history ! j)
    \<and> unat (pr_revision_generation (history ! j)) = min (unat (pr_revision_generation (history ! i)) + (j - i)) (2 ^ 32 - 1)
    \<and> (j = Suc i \<longrightarrow> pr_draft (history ! j) \<noteq> pr_draft (history ! i)
        \<and> pr_parent_revision_id (history ! j) = Some (pr_revision_id (history ! i)))"
proof (intro conjI)
  have "windows_all procedure_narrows history" using assms(1) by (rule windows_all_weaken) (rule procedure_successorD(1))
  then show "procedure_narrows (history ! i) (history ! j)"
    using windows_all_sorted_wrt [OF procedure_narrows_transp] sorted_wrt_nth_less assms(2,3) by blast
  show "unat (pr_revision_generation (history ! j)) = min (unat (pr_revision_generation (history ! i)) + (j - i)) (2 ^ 32 - 1)"
    using procedure_generation [OF assms(1) less_imp_le [OF assms(2)] assms(3)] .
  show "j = Suc i \<longrightarrow> pr_draft (history ! j) \<noteq> pr_draft (history ! i)
      \<and> pr_parent_revision_id (history ! j) = Some (pr_revision_id (history ! i))"
    using procedure_successorD(2,4) [OF windows_all_nth [OF assms(1)]] assms(3) by metis
qed

section \<open>Eligibility\<close>

text \<open>A valid audit for a global procedure proves more than one for a local procedure.\<close>

lemma global_audit_strengthens:
  assumes "procedure_auto_full_audit_validate f True = Ok ()"
  shows "pf_procedure_promotion_level f = PromotionFullAuto" "procedure_auto_full_audit_validate f False = Ok ()"
proof -
  have "(2::u8) \<le> x" if "3 \<le> x" for x :: u8
    using that by (rule order_trans [rotated]) simp
  with assms show "pf_procedure_promotion_level f = PromotionFullAuto" "procedure_auto_full_audit_validate f False = Ok ()"
    by (auto simp: procedure_auto_full_audit_validate_def auto_eligible_full_def Let_def split: if_splits)
qed

lemma sorted_text_bound: "sorted_text values \<Longrightarrow> length values \<le> 64"
  by (simp add: sorted_text_def ordered_text_def PROCEDURE_MAX_ITEMS_def)

section \<open>Samples\<close>

definition sample_condition :: constraint_expr where
  "sample_condition = ExprExists FieldTaskKind"

definition sample_procedure_draft :: "string \<Rightarrow> procedure_draft" where
  "sample_procedure_draft title = \<lparr>pd_scope = ProcedureScopeRepository 7, pd_title = title, pd_summary = ''s'',
    pd_kind = ProcedureWorkflow,
    pd_when = \<lparr>pw_goals = [''g''], pw_targets = [], pw_signals = [], pw_stage = ''build'', pw_requires = [], pw_excludes = []\<rparr>,
    pd_condition_ir_version = 1, pd_applicability_expr = sample_condition, pd_avoid_expr = sample_condition,
    pd_completion_expr = sample_condition, pd_stage_alignment = None,
    pd_actions = \<lparr>pa_stages = [''run''], pa_branches = [], pa_avoid = []\<rparr>,
    pd_done = \<lparr>pe_success = [''ok''], pe_abort = [''no''], pe_verify = [''test'']\<rparr>,
    pd_pitfalls = [], pd_evidence_refs = [''e''], pd_support_revision_refs = []\<rparr>"

definition sample_procedure :: procedure_revision where
  "sample_procedure = \<lparr>pr_procedure_id = 1, pr_revision_id = 2, pr_parent_revision_id = None, pr_revision_generation = 1,
    pr_draft = sample_procedure_draft ''a'', pr_source_watermark = 3, pr_created_at_us = 5\<rparr>"

definition sample_procedure_next :: procedure_revision where
  "sample_procedure_next = \<lparr>pr_procedure_id = 1, pr_revision_id = 4, pr_parent_revision_id = Some 2, pr_revision_generation = 2,
    pr_draft = sample_procedure_draft ''b'', pr_source_watermark = 3, pr_created_at_us = 6\<rparr>"

lemma sample_condition_valid: "constraint_expr_validate sample_condition = Ok ()"
  by (simp add: sample_condition_def constraint_expr_validate_def enter_node_def leaf_validate_def MAX_EXPR_DEPTH_def
      MAX_EXPR_NODES_def usize_checked_add_def ok_or_def)

lemmas sample_procedure_texts = procedure_text_def ordered_text_def sorted_text_def PROCEDURE_MAX_TEXT_def PROCEDURE_MAX_ITEMS_def
  PROCEDURE_MAX_REFS_def has_control_def strictly_sorted_def

lemma sample_draft_valid: "title \<in> {''a'', ''b''} \<Longrightarrow> procedure_draft_validate (sample_procedure_draft title) = Ok ()"
  by (auto simp: procedure_draft_validate_def draft_scalars_ok_def sample_procedure_draft_def sample_condition_valid
      sample_procedure_texts)

theorem route_text_longest_prefix_witness:
  "\<exists>n. procedure_revision_route_text_fields sample_procedure 20 = take n (route_fields sample_procedure)"
  using route_text_longest_prefix [of 20 sample_procedure] by auto

theorem procedure_history_narrows_witness: "procedure_narrows sample_procedure sample_procedure_next"
proof -
  have "procedure_revision_validate_successor sample_procedure sample_procedure_next = Ok ()"
    by (simp add: procedure_revision_validate_successor_def procedure_revision_validate_def sample_procedure_def
        sample_procedure_next_def sample_draft_valid same_behavior_def u32_saturating_add_def)
      (simp add: sample_procedure_draft_def)
  then have "windows_all (\<lambda>a b. procedure_revision_validate_successor a b = Ok ()) [sample_procedure, sample_procedure_next]" by simp
  from procedure_history_narrows [OF this, of 0 1] show ?thesis by simp
qed

end
