(* ===== verification/Proposal.thy ===== *)
theory Proposal
  imports Procedure
begin

text \<open>
  Revision proposals, \<open>evertrace-domain/src/semantic/proposal.rs\<close>: what is proposed for an
  atom, a procedure or a core membership, its fingerprint, its review status, the acceptance
  and the closed edits a user may make. The TOML serialiser and reader are arguments, with
  \<open>None\<close> for their errors. The lemmas show what an accepted proposal guarantees, how a
  proposal develops and that its fingerprint identifies what was reviewed.
\<close>

section \<open>Targets and payloads\<close>

type_synonym core_membership_id = uuid

definition PROPOSAL_MAX_REFS :: nat where "PROPOSAL_MAX_REFS = 256"
definition MAX_SPLIT_OUTPUTS :: nat where "MAX_SPLIT_OUTPUTS = 16"
definition MAX_REVIEW_TEXT :: nat where "MAX_REVIEW_TEXT = 2048"
definition TUI_ACCEPTANCE_EVENT_MANIFEST_REF :: string where
  "TUI_ACCEPTANCE_EVENT_MANIFEST_REF = ''evertrace_tui_acceptance_v1''"
definition PROPOSAL_EDIT_INTENT_SCHEMA_VERSION :: u32 where "PROPOSAL_EDIT_INTENT_SCHEMA_VERSION = 1"

definition tui_acceptance_event_payload :: "uuid_lib \<Rightarrow> revision_proposal_id \<Rightarrow> revision_id \<Rightarrow> bytes \<Rightarrow> string" where
  "tui_acceptance_event_payload lib proposal_id reviewed_proposal_revision_id reviewed_fingerprint =
    TUI_ACCEPTANCE_EVENT_MANIFEST_REF @ ''|accept|'' @ uuid_id_to_string lib ''proposal'' proposal_id @ ''|''
    @ revision_id_to_string lib reviewed_proposal_revision_id @ ''|'' @ hex reviewed_fingerprint"

datatype proposal_target_kind = TargetProcedure | TargetAtom | TargetCoreMembership

fun proposal_target_kind_as_str :: "proposal_target_kind \<Rightarrow> string" where
  "proposal_target_kind_as_str TargetProcedure = ''procedure''"
| "proposal_target_kind_as_str TargetAtom = ''atom''"
| "proposal_target_kind_as_str TargetCoreMembership = ''core_membership''"

datatype proposal_target_id =
    TargetProcedureId procedure_id | TargetAtomId atom_id | TargetCoreMembershipId core_membership_id

fun proposal_target_id_kind :: "proposal_target_id \<Rightarrow> proposal_target_kind" where
  "proposal_target_id_kind (TargetProcedureId _) = TargetProcedure"
| "proposal_target_id_kind (TargetAtomId _) = TargetAtom"
| "proposal_target_id_kind (TargetCoreMembershipId _) = TargetCoreMembership"

datatype proposal_operation = OpCreate | OpReplace | OpMerge | OpSplit | OpDeprecate | OpReclassify

fun proposal_operation_as_str :: "proposal_operation \<Rightarrow> string" where
  "proposal_operation_as_str OpCreate = ''create''"
| "proposal_operation_as_str OpReplace = ''replace''"
| "proposal_operation_as_str OpMerge = ''merge''"
| "proposal_operation_as_str OpSplit = ''split''"
| "proposal_operation_as_str OpDeprecate = ''deprecate''"
| "proposal_operation_as_str OpReclassify = ''reclassify''"

datatype atom_proposal_payload =
    AtomCreate atom_draft
  | AtomReplace atom_draft
  | AtomMerge atom_draft "revision_id list"
  | AtomSplit "atom_draft list"
  | AtomDeprecate string
  | AtomReclassify atom_draft

fun atom_proposal_payload_operation :: "atom_proposal_payload \<Rightarrow> proposal_operation" where
  "atom_proposal_payload_operation (AtomCreate _) = OpCreate"
| "atom_proposal_payload_operation (AtomReplace _) = OpReplace"
| "atom_proposal_payload_operation (AtomMerge _ _) = OpMerge"
| "atom_proposal_payload_operation (AtomSplit _) = OpSplit"
| "atom_proposal_payload_operation (AtomDeprecate _) = OpDeprecate"
| "atom_proposal_payload_operation (AtomReclassify _) = OpReclassify"

definition valid_review_text :: "string \<Rightarrow> bool" where
  "valid_review_text value \<longleftrightarrow> value \<noteq> [] \<and> length value \<le> MAX_REVIEW_TEXT \<and> CHR 0x00 \<notin> set value"

fun atom_proposal_payload_validate :: "atom_proposal_payload \<Rightarrow> (semantic_error, unit) result" where
  "atom_proposal_payload_validate (AtomCreate draft) = atom_draft_validate_unprivileged draft"
| "atom_proposal_payload_validate (AtomReplace draft) = atom_draft_validate_unprivileged draft"
| "atom_proposal_payload_validate (AtomReclassify draft) = atom_draft_validate_unprivileged draft"
| "atom_proposal_payload_validate (AtomMerge draft merged_revision_refs) =
    and_then (atom_draft_validate_unprivileged draft) (\<lambda>_.
    if length merged_revision_refs < 2 \<or> length merged_revision_refs > PROPOSAL_MAX_REFS
       \<or> \<not> strictly_sorted merged_revision_refs
    then Err InvalidProposal else Ok ())"
| "atom_proposal_payload_validate (AtomSplit drafts) =
    (if \<not> (2 \<le> length drafts \<and> length drafts \<le> MAX_SPLIT_OUTPUTS) then Err InvalidProposal
     else for_each atom_draft_validate_unprivileged drafts)"
| "atom_proposal_payload_validate (AtomDeprecate reason) =
    (if valid_review_text reason then Ok () else Err InvalidProposal)"

datatype procedure_proposal_payload = ProcedureCreate procedure_draft | ProcedureReplace procedure_draft

fun procedure_proposal_payload_operation :: "procedure_proposal_payload \<Rightarrow> proposal_operation" where
  "procedure_proposal_payload_operation (ProcedureCreate _) = OpCreate"
| "procedure_proposal_payload_operation (ProcedureReplace _) = OpReplace"

fun procedure_proposal_payload_draft :: "procedure_proposal_payload \<Rightarrow> procedure_draft" where
  "procedure_proposal_payload_draft (ProcedureCreate draft) = draft"
| "procedure_proposal_payload_draft (ProcedureReplace draft) = draft"

datatype core_scope_identity = CoreScopeGlobal | CoreScopeRepository repository_id

datatype core_membership_proposal_payload =
    CoreCreate revision_id core_scope_identity
  | CoreResolveConflict revision_id revision_id core_scope_identity

datatype proposal_payload =
    PayloadAtom atom_proposal_payload
  | PayloadProcedure procedure_proposal_payload
  | PayloadCoreMembership core_membership_proposal_payload
  | PayloadReservedTarget u32 string

text \<open>The condition the three arms for drafts of \<open>valid_atom_edit\<close> share.\<close>

definition valid_draft_edit :: "atom_draft \<Rightarrow> atom_draft \<Rightarrow> bool" where
  "valid_draft_edit original edited \<longleftrightarrow>
    original \<noteq> edited
    \<and> av_critical_revision_refs (ad_value original) = av_critical_revision_refs (ad_value edited)
    \<and> ad_provenance original = ad_provenance edited
    \<and> ad_source_observation_refs original = ad_source_observation_refs edited
    \<and> ad_evidence_refs original = ad_evidence_refs edited
    \<and> ad_supersedes_revision_refs original = ad_supersedes_revision_refs edited
    \<and> ad_supports_revision_refs original = ad_supports_revision_refs edited
    \<and> ad_contradicts_revision_refs original = ad_contradicts_revision_refs edited"

fun valid_atom_edit :: "atom_proposal_payload \<Rightarrow> atom_proposal_payload \<Rightarrow> bool" where
  "valid_atom_edit (AtomCreate original) (AtomCreate edited) = valid_draft_edit original edited"
| "valid_atom_edit (AtomReplace original) (AtomReplace edited) = valid_draft_edit original edited"
| "valid_atom_edit (AtomReclassify original) (AtomReclassify edited) = valid_draft_edit original edited"
| "valid_atom_edit (AtomDeprecate original) (AtomDeprecate edited) = (original \<noteq> edited)"
| "valid_atom_edit _ _ = False"

definition procedure_drafts_edit :: "procedure_draft \<Rightarrow> procedure_draft \<Rightarrow> bool" where
  "procedure_drafts_edit original edited \<longleftrightarrow>
    original \<noteq> edited
    \<and> pd_evidence_refs original = pd_evidence_refs edited
    \<and> pd_support_revision_refs original = pd_support_revision_refs edited"

fun valid_procedure_edit :: "procedure_proposal_payload \<Rightarrow> procedure_proposal_payload \<Rightarrow> bool" where
  "valid_procedure_edit (ProcedureCreate original) (ProcedureCreate edited) = procedure_drafts_edit original edited"
| "valid_procedure_edit (ProcedureReplace original) (ProcedureReplace edited) = procedure_drafts_edit original edited"
| "valid_procedure_edit _ _ = False"

fun valid_closed_edit :: "proposal_payload \<Rightarrow> proposal_payload \<Rightarrow> bool" where
  "valid_closed_edit (PayloadAtom original) (PayloadAtom edited) = valid_atom_edit original edited"
| "valid_closed_edit (PayloadProcedure original) (PayloadProcedure edited) = valid_procedure_edit original edited"
| "valid_closed_edit _ _ = False"

definition proposal_payload_validate_closed_edit ::
  "proposal_payload \<Rightarrow> proposal_payload \<Rightarrow> (semantic_error, unit) result" where
  "proposal_payload_validate_closed_edit payload edited =
    (if valid_closed_edit payload edited then Ok () else Err InvalidProposal)"

fun proposal_payload_validate :: "proposal_payload \<Rightarrow> proposal_target_kind \<Rightarrow> (semantic_error, unit) result" where
  "proposal_payload_validate (PayloadAtom payload) TargetAtom = atom_proposal_payload_validate payload"
| "proposal_payload_validate (PayloadProcedure payload) TargetProcedure =
    procedure_draft_validate (procedure_proposal_payload_draft payload)"
| "proposal_payload_validate (PayloadCoreMembership (CoreCreate _ _)) TargetCoreMembership = Ok ()"
| "proposal_payload_validate (PayloadCoreMembership (CoreResolveConflict left right _)) TargetCoreMembership =
    (if left = right then Err InvalidProposal else Ok ())"
| "proposal_payload_validate (PayloadReservedTarget schema_version summary) TargetCoreMembership =
    (if schema_version = 1 \<and> valid_review_text summary then Ok () else Err InvalidProposal)"
| "proposal_payload_validate _ _ = Err InvalidProposal"

section \<open>Proposals\<close>

datatype proposal_eligibility = ManualRequired | AutoEligible | AutoEligibleFull

datatype proposal_status =
    ProposalPending | ProposalValidating | ProposalAccepted | ProposalRejected | ProposalDeferred | ProposalSuperseded

fun proposal_status_as_str :: "proposal_status \<Rightarrow> string" where
  "proposal_status_as_str ProposalPending = ''pending''"
| "proposal_status_as_str ProposalValidating = ''validating''"
| "proposal_status_as_str ProposalAccepted = ''accepted''"
| "proposal_status_as_str ProposalRejected = ''rejected''"
| "proposal_status_as_str ProposalDeferred = ''deferred''"
| "proposal_status_as_str ProposalSuperseded = ''superseded''"

definition proposal_status_is_open :: "proposal_status \<Rightarrow> bool" where
  "proposal_status_is_open s \<longleftrightarrow> s \<in> {ProposalPending, ProposalValidating}"

definition proposal_status_is_terminal :: "proposal_status \<Rightarrow> bool" where
  "proposal_status_is_terminal s \<longleftrightarrow> s \<in> {ProposalAccepted, ProposalRejected, ProposalDeferred, ProposalSuperseded}"

datatype proposal_waiting_on =
    WaitNewEvidence
  | WaitTargetRevisionChange
  | WaitObjectiveVerifier
  | WaitConflictResolution
  | WaitManualReview

instantiation proposal_waiting_on :: linorder
begin

fun rank_proposal_waiting_on :: "proposal_waiting_on \<Rightarrow> nat" where
  "rank_proposal_waiting_on WaitNewEvidence = 0"
| "rank_proposal_waiting_on WaitTargetRevisionChange = 1"
| "rank_proposal_waiting_on WaitObjectiveVerifier = 2"
| "rank_proposal_waiting_on WaitConflictResolution = 3"
| "rank_proposal_waiting_on WaitManualReview = 4"

definition less_eq_proposal_waiting_on :: "proposal_waiting_on \<Rightarrow> proposal_waiting_on \<Rightarrow> bool" where
  "less_eq_proposal_waiting_on a b \<longleftrightarrow> rank_proposal_waiting_on a \<le> rank_proposal_waiting_on b"

definition less_proposal_waiting_on :: "proposal_waiting_on \<Rightarrow> proposal_waiting_on \<Rightarrow> bool" where
  "less_proposal_waiting_on a b \<longleftrightarrow> rank_proposal_waiting_on a < rank_proposal_waiting_on b"

instance
proof
  fix x y :: proposal_waiting_on
  show "x \<le> y \<Longrightarrow> y \<le> x \<Longrightarrow> x = y"
    by (cases x; cases y) (simp_all add: less_eq_proposal_waiting_on_def)
qed (auto simp: less_eq_proposal_waiting_on_def less_proposal_waiting_on_def)

end

datatype proposal_created_by = CreatedBySystem | CreatedByUser | CreatedByAgent

datatype proposal_acceptance_authority =
    AcceptCurrentTaskExactMessage source_observation_id
  | AcceptTui source_observation_id atom_scope
  | AcceptObjectiveEvidence source_observation_id

datatype accepted_proposal_target =
    AcceptedAtom atom_id revision_id bytes
  | AcceptedCoreMembership core_membership_id revision_id
  | AcceptedProcedure procedure_id revision_id "procedure_auto_full_audit option"

record proposal_acceptance =
  pt_reviewer_identity :: string
  pt_acceptance_event_ref :: string
  pt_reviewed_proposal_revision_id :: revision_id
  pt_reviewed_fingerprint :: bytes
  pt_accepted_target :: accepted_proposal_target
  pt_authority_basis :: proposal_acceptance_authority
  pt_accepted_at_us :: i64

definition proposal_acceptance_accepted_atom :: "proposal_acceptance \<Rightarrow> (atom_id \<times> revision_id \<times> bytes) option" where
  "proposal_acceptance_accepted_atom acceptance = (case pt_accepted_target acceptance of
      AcceptedAtom atom_id atom_revision_id structure_hash \<Rightarrow> Some (atom_id, atom_revision_id, structure_hash)
    | _ \<Rightarrow> None)"

definition proposal_acceptance_validate :: "proposal_acceptance \<Rightarrow> (semantic_error, unit) result" where
  "proposal_acceptance_validate acceptance =
    (if \<not> valid_identifier (pt_reviewer_identity acceptance)
        \<or> \<not> valid_identifier (pt_acceptance_event_ref acceptance)
        \<or> sint (pt_accepted_at_us acceptance) < 0
     then Err InvalidProposal else Ok ())"

record revision_proposal =
  rp_proposal_id :: revision_proposal_id
  rp_proposal_revision_id :: revision_id
  rp_parent_proposal_revision_id :: "revision_id option"
  rp_target_kind :: proposal_target_kind
  rp_target_id :: "proposal_target_id option"
  rp_base_revision_id :: "revision_id option"
  rp_operation :: proposal_operation
  rp_payload :: proposal_payload
  rp_evidence_refs :: "string list"
  rp_source_cohort_refs :: "string list"
  rp_source_cohort_hash :: bytes
  rp_fingerprint :: bytes
  rp_eligibility :: proposal_eligibility
  rp_status :: proposal_status
  rp_waiting_on :: "proposal_waiting_on list"
  rp_review_reason :: "string option"
  rp_created_by :: proposal_created_by
  rp_acceptance :: "proposal_acceptance option"
  rp_created_at_us :: i64
  rp_reviewed_at_us :: "i64 option"

text \<open>
  The code outside the sources that proposals depend on: the hash function, the \<open>uuid\<close> crate
  and the TOML serialiser of payloads.
\<close>

record proposal_lib =
  pl_sha256 :: "bytes \<Rightarrow> bytes"
  pl_uuid :: uuid_lib
  pl_payload_toml :: "proposal_payload \<Rightarrow> string option"

definition revision_proposal_recompute_source_cohort_hash ::
  "proposal_lib \<Rightarrow> revision_proposal \<Rightarrow> (semantic_error, bytes) result" where
  "revision_proposal_recompute_source_cohort_hash L p =
    map_err (\<lambda>_. InvalidProposal)
      (canonical_sha256 (pl_sha256 L) ''revision_proposal_source_cohort_v1'' 1
        (CSequence (map CString (rp_source_cohort_refs p))))"

fun proposal_target_id_text :: "uuid_lib \<Rightarrow> proposal_target_id \<Rightarrow> string" where
  "proposal_target_id_text lib (TargetProcedureId i) = uuid_id_to_string lib ''proc'' i"
| "proposal_target_id_text lib (TargetAtomId i) = uuid_id_to_string lib ''atom'' i"
| "proposal_target_id_text lib (TargetCoreMembershipId i) = uuid_id_to_string lib ''coremem'' i"

definition proposal_fingerprint_value :: "uuid_lib \<Rightarrow> revision_proposal \<Rightarrow> string \<Rightarrow> canonical_value" where
  "proposal_fingerprint_value lib p serialized = CMap
    [(''target_kind'', CString (proposal_target_kind_as_str (rp_target_kind p))),
     (''target_id'', case rp_target_id p of None \<Rightarrow> CNull | Some value \<Rightarrow> CString (proposal_target_id_text lib value)),
     (''base_revision_id'', case rp_base_revision_id p of
        None \<Rightarrow> CNull | Some value \<Rightarrow> CString (revision_id_to_string lib value)),
     (''operation'', CString (proposal_operation_as_str (rp_operation p))),
     (''payload'', CString serialized),
     (''source_cohort_hash'', CBytes (rp_source_cohort_hash p))]"

definition revision_proposal_recompute_fingerprint ::
  "proposal_lib \<Rightarrow> revision_proposal \<Rightarrow> (semantic_error, bytes) result" where
  "revision_proposal_recompute_fingerprint L p =
    and_then (ok_or InvalidProposal (pl_payload_toml L (rp_payload p))) (\<lambda>serialized.
    map_err (\<lambda>_. InvalidProposal)
      (canonical_sha256 (pl_sha256 L) ''revision_proposal_fingerprint_v1'' 1
        (proposal_fingerprint_value (pl_uuid L) p serialized)))"

definition proposal_payload_fits :: "proposal_payload \<Rightarrow> proposal_operation \<Rightarrow> bool" where
  "proposal_payload_fits payload operation = (case payload of
      PayloadAtom a \<Rightarrow> atom_proposal_payload_operation a = operation
    | PayloadProcedure q \<Rightarrow> procedure_proposal_payload_operation q = operation
    | PayloadCoreMembership _ \<Rightarrow> operation = OpCreate
    | PayloadReservedTarget _ _ \<Rightarrow> True)"

definition revision_proposal_validate_shape :: "revision_proposal \<Rightarrow> (semantic_error, unit) result" where
  "revision_proposal_validate_shape p =
    (if \<not> proposal_payload_fits (rp_payload p) (rp_operation p) then Err InvalidProposal
     else if rp_operation p = OpCreate
     then (if is_some (rp_target_id p) \<or> is_some (rp_base_revision_id p) then Err InvalidProposal else Ok ())
     else (if rp_target_id p = None \<or> rp_base_revision_id p = None then Err InvalidProposal else Ok ()))"

fun accepted_target_matches :: "proposal_target_kind \<Rightarrow> accepted_proposal_target \<Rightarrow> bool" where
  "accepted_target_matches TargetAtom (AcceptedAtom _ _ _) = True"
| "accepted_target_matches TargetCoreMembership (AcceptedCoreMembership _ _) = True"
| "accepted_target_matches TargetProcedure (AcceptedProcedure _ _ _) = True"
| "accepted_target_matches _ _ = False"

definition revision_proposal_validate_status :: "revision_proposal \<Rightarrow> (semantic_error, unit) result" where
  "revision_proposal_validate_status p =
    (if rp_status p = ProposalDeferred \<and> (rp_waiting_on p = [] \<or> rp_reviewed_at_us p = None) then Err InvalidProposal
     else if rp_status p \<noteq> ProposalDeferred \<and> rp_waiting_on p \<noteq> [] then Err InvalidProposal
     else if proposal_status_is_terminal (rp_status p) \<and> rp_reviewed_at_us p = None
        \<or> \<not> proposal_status_is_terminal (rp_status p) \<and> is_some (rp_reviewed_at_us p)
        \<or> rp_status p = ProposalAccepted \<and> rp_acceptance p = None
        \<or> rp_status p \<noteq> ProposalAccepted \<and> is_some (rp_acceptance p)
     then Err InvalidProposal
     else (case rp_acceptance p of None \<Rightarrow> Ok () | Some acceptance \<Rightarrow>
       if \<exists>l r s. rp_payload p = PayloadCoreMembership (CoreResolveConflict l r s) then Err InvalidProposal
       else and_then (proposal_acceptance_validate acceptance) (\<lambda>_.
       if \<not> accepted_target_matches (rp_target_kind p) (pt_accepted_target acceptance)
          \<or> pt_reviewed_fingerprint acceptance \<noteq> rp_fingerprint p
          \<or> pt_reviewed_proposal_revision_id acceptance = rp_proposal_revision_id p
       then Err InvalidProposal else Ok ())))"

text \<open>The disjuncts of \<open>validate\<close> in their order: those before the two hashes, the hashes, the last one.\<close>

definition proposal_fields_ok :: "revision_proposal \<Rightarrow> bool" where
  "proposal_fields_ok p \<longleftrightarrow>
    \<not> (sint (rp_created_at_us p) < 0
      \<or> is_some_and (\<lambda>reviewed. sint reviewed < sint (rp_created_at_us p)) (rp_reviewed_at_us p)
      \<or> rp_evidence_refs p = []
      \<or> length (rp_evidence_refs p) > PROPOSAL_MAX_REFS
      \<or> \<not> strictly_sorted (rp_evidence_refs p)
      \<or> rp_source_cohort_refs p = []
      \<or> length (rp_source_cohort_refs p) > PROPOSAL_MAX_REFS
      \<or> \<not> strictly_sorted (rp_source_cohort_refs p)
      \<or> (\<exists>value \<in> set (rp_evidence_refs p @ rp_source_cohort_refs p). \<not> valid_identifier value)
      \<or> length (rp_waiting_on p) > PROPOSAL_MAX_REFS
      \<or> \<not> strictly_sorted (rp_waiting_on p)
      \<or> is_some_and (\<lambda>value. \<not> valid_review_text value) (rp_review_reason p)
      \<or> is_some_and (\<lambda>target. proposal_target_id_kind target \<noteq> rp_target_kind p) (rp_target_id p))"

definition revision_proposal_validate :: "proposal_lib \<Rightarrow> revision_proposal \<Rightarrow> (semantic_error, unit) result" where
  "revision_proposal_validate L p =
    and_then (proposal_payload_validate (rp_payload p) (rp_target_kind p)) (\<lambda>_.
    if \<not> proposal_fields_ok p then Err InvalidProposal
    else and_then (revision_proposal_recompute_source_cohort_hash L p) (\<lambda>cohort_hash.
    if rp_source_cohort_hash p \<noteq> cohort_hash then Err InvalidProposal
    else and_then (revision_proposal_recompute_fingerprint L p) (\<lambda>fingerprint.
    if rp_fingerprint p \<noteq> fingerprint
       \<or> rp_parent_proposal_revision_id p = None \<and> rp_status p \<noteq> ProposalPending
    then Err InvalidProposal
    else and_then (revision_proposal_validate_shape p) (\<lambda>_. revision_proposal_validate_status p))))"

definition is_strict_superset :: "'a list \<Rightarrow> 'a list \<Rightarrow> bool" where
  "is_strict_superset values required \<longleftrightarrow> length values > length required \<and> contains_all values required"

definition procedure_review_v1 :: string where "procedure_review_v1 = ''procedure_review_v1''"

definition revision_proposal_validate_procedure_review_successor ::
  "proposal_lib \<Rightarrow> revision_proposal \<Rightarrow> revision_proposal \<Rightarrow> (semantic_error, unit) result" where
  "revision_proposal_validate_procedure_review_successor L p next =
    and_then (revision_proposal_validate L next) (\<lambda>_. case (rp_payload p, rp_payload next) of
      (PayloadProcedure before, PayloadProcedure after) \<Rightarrow>
        if \<not> proposal_status_is_open (rp_status p)
           \<or> rp_status next \<noteq> rp_status p
           \<or> rp_proposal_id p \<noteq> rp_proposal_id next
           \<or> rp_parent_proposal_revision_id next \<noteq> Some (rp_proposal_revision_id p)
           \<or> rp_proposal_revision_id p = rp_proposal_revision_id next
           \<or> rp_target_kind p \<noteq> rp_target_kind next
           \<or> rp_target_id p \<noteq> rp_target_id next
           \<or> rp_base_revision_id p \<noteq> rp_base_revision_id next
           \<or> rp_operation p \<noteq> rp_operation next
           \<or> rp_created_by p \<noteq> rp_created_by next
           \<or> \<not> contains_all (rp_source_cohort_refs next) (rp_source_cohort_refs p)
           \<or> \<not> contains_all (rp_evidence_refs next) (rp_evidence_refs p)
           \<or> pd_scope (procedure_proposal_payload_draft before) \<noteq> pd_scope (procedure_proposal_payload_draft after)
           \<or> \<not> contains_all (pd_evidence_refs (procedure_proposal_payload_draft after))
               (pd_evidence_refs (procedure_proposal_payload_draft before))
           \<or> pd_support_revision_refs (procedure_proposal_payload_draft before)
               \<noteq> pd_support_revision_refs (procedure_proposal_payload_draft after)
           \<or> rp_eligibility next \<noteq> ManualRequired
           \<or> sint (rp_created_at_us next) < sint (rp_created_at_us p)
           \<or> rp_review_reason next \<noteq> Some procedure_review_v1
           \<or> rp_payload p = rp_payload next
        then Err InvalidProposalSuccessor else Ok ()
    | _ \<Rightarrow> Err InvalidProposalSuccessor)"

definition deferred_successor_ok :: "revision_proposal \<Rightarrow> revision_proposal \<Rightarrow> bool" where
  "deferred_successor_ok p next \<longleftrightarrow>
    (let condition_changed = rp_waiting_on p \<noteq> rp_waiting_on next
         \<and> (rp_base_revision_id p \<noteq> rp_base_revision_id next
            \<or> rp_source_cohort_hash p \<noteq> rp_source_cohort_hash next
            \<or> is_strict_superset (rp_evidence_refs next) (rp_evidence_refs p)) in
     \<not> (\<not> condition_changed
       \<or> rp_status next \<notin> {ProposalPending, ProposalValidating}
       \<or> rp_operation p \<noteq> rp_operation next
       \<or> rp_payload p \<noteq> rp_payload next
       \<or> rp_eligibility p \<noteq> rp_eligibility next
       \<or> rp_created_by p \<noteq> rp_created_by next
       \<or> \<not> contains_all (rp_evidence_refs next) (rp_evidence_refs p)))"

fun proposal_status_successor :: "proposal_status \<Rightarrow> proposal_status \<Rightarrow> bool" where
  "proposal_status_successor ProposalPending next \<longleftrightarrow>
    next \<in> {ProposalPending, ProposalValidating, ProposalRejected, ProposalDeferred, ProposalSuperseded}"
| "proposal_status_successor ProposalValidating next \<longleftrightarrow>
    next \<in> {ProposalValidating, ProposalAccepted, ProposalRejected, ProposalDeferred, ProposalSuperseded}"
| "proposal_status_successor _ _ = False"

definition open_successor_ok :: "revision_proposal \<Rightarrow> revision_proposal \<Rightarrow> bool" where
  "open_successor_ok p next \<longleftrightarrow>
    \<not> (rp_base_revision_id p \<noteq> rp_base_revision_id next
      \<or> rp_operation p \<noteq> rp_operation next
      \<or> rp_payload p \<noteq> rp_payload next
      \<or> rp_source_cohort_refs p \<noteq> rp_source_cohort_refs next
      \<or> rp_source_cohort_hash p \<noteq> rp_source_cohort_hash next
      \<or> rp_fingerprint p \<noteq> rp_fingerprint next
      \<or> rp_created_by p \<noteq> rp_created_by next
      \<or> \<not> contains_all (rp_evidence_refs next) (rp_evidence_refs p))
    \<and> \<not> (\<not> proposal_status_successor (rp_status p) (rp_status next)
      \<or> rp_status p = rp_status next \<and> rp_eligibility p = rp_eligibility next
        \<and> \<not> is_strict_superset (rp_evidence_refs next) (rp_evidence_refs p))"

definition revision_proposal_validate_successor ::
  "proposal_lib \<Rightarrow> revision_proposal \<Rightarrow> revision_proposal \<Rightarrow> (semantic_error, unit) result" where
  "revision_proposal_validate_successor L p next =
    (if rp_payload p \<noteq> rp_payload next \<and> rp_review_reason next = Some procedure_review_v1
     then revision_proposal_validate_procedure_review_successor L p next
     else and_then (revision_proposal_validate L next) (\<lambda>_.
       if rp_proposal_id p \<noteq> rp_proposal_id next
          \<or> rp_parent_proposal_revision_id next \<noteq> Some (rp_proposal_revision_id p)
          \<or> rp_target_kind p \<noteq> rp_target_kind next
          \<or> rp_target_id p \<noteq> rp_target_id next
          \<or> sint (rp_created_at_us next) < sint (rp_created_at_us p)
       then Err InvalidProposalSuccessor
       else if rp_status p \<in> {ProposalAccepted, ProposalRejected, ProposalSuperseded} then Err InvalidProposalSuccessor
       else if rp_status p = ProposalDeferred
       then (if deferred_successor_ok p next then Ok () else Err InvalidProposalSuccessor)
       else (if open_successor_ok p next then Ok () else Err InvalidProposalSuccessor)))"

definition revision_proposal_suppression_key :: "revision_proposal \<Rightarrow> bytes \<times> bytes \<times> revision_id option" where
  "revision_proposal_suppression_key p = (rp_fingerprint p, rp_source_cohort_hash p, rp_base_revision_id p)"

section \<open>Closed edits\<close>

record closed_proposal_edit_intent =
  ei_schema_version :: u32
  ei_original_proposal_id :: revision_proposal_id
  ei_original_proposal_revision_id :: revision_id
  ei_original_fingerprint :: bytes
  ei_new_proposal :: revision_proposal

definition closed_proposal_edit_intent_new ::
  "revision_proposal \<Rightarrow> revision_proposal \<Rightarrow> closed_proposal_edit_intent" where
  "closed_proposal_edit_intent_new original new_proposal =
    \<lparr>ei_schema_version = PROPOSAL_EDIT_INTENT_SCHEMA_VERSION, ei_original_proposal_id = rp_proposal_id original,
     ei_original_proposal_revision_id = rp_proposal_revision_id original,
     ei_original_fingerprint = rp_fingerprint original, ei_new_proposal = new_proposal\<rparr>"

definition closed_proposal_edit_intent_validate ::
  "proposal_lib \<Rightarrow> closed_proposal_edit_intent \<Rightarrow> revision_proposal \<Rightarrow> (semantic_error, unit) result" where
  "closed_proposal_edit_intent_validate L intent original =
    (let new = ei_new_proposal intent in
     and_then (revision_proposal_validate L original) (\<lambda>_.
     and_then (revision_proposal_validate L new) (\<lambda>_.
     if ei_schema_version intent \<noteq> PROPOSAL_EDIT_INTENT_SCHEMA_VERSION
        \<or> ei_original_proposal_id intent \<noteq> rp_proposal_id original
        \<or> ei_original_proposal_revision_id intent \<noteq> rp_proposal_revision_id original
        \<or> ei_original_fingerprint intent \<noteq> rp_fingerprint original
        \<or> \<not> proposal_status_is_open (rp_status original)
        \<or> rp_proposal_id new = rp_proposal_id original
        \<or> rp_proposal_revision_id new = rp_proposal_revision_id original
        \<or> is_some (rp_parent_proposal_revision_id new)
        \<or> rp_target_kind new \<notin> {TargetAtom, TargetProcedure}
        \<or> rp_target_kind new \<noteq> rp_target_kind original
        \<or> rp_target_id new \<noteq> rp_target_id original
        \<or> rp_base_revision_id new \<noteq> rp_base_revision_id original
        \<or> rp_operation new \<noteq> rp_operation original
        \<or> rp_evidence_refs new \<noteq> rp_evidence_refs original
        \<or> rp_source_cohort_refs new \<noteq> rp_source_cohort_refs original
        \<or> rp_source_cohort_hash new \<noteq> rp_source_cohort_hash original
        \<or> rp_eligibility new \<noteq> ManualRequired
        \<or> rp_status new \<noteq> ProposalPending
        \<or> rp_waiting_on new \<noteq> []
        \<or> is_some (rp_review_reason new)
        \<or> rp_created_by new \<noteq> CreatedByUser
        \<or> is_some (rp_acceptance new)
        \<or> is_some (rp_reviewed_at_us new)
        \<or> rp_fingerprint new = rp_fingerprint original
        \<or> \<not> is_ok (proposal_payload_validate_closed_edit (rp_payload original) (rp_payload new))
     then Err InvalidProposal else Ok ())))"

definition revision_proposal_validate_edit_candidate ::
  "proposal_lib \<Rightarrow> revision_proposal \<Rightarrow> revision_proposal \<Rightarrow> (semantic_error, unit) result" where
  "revision_proposal_validate_edit_candidate L p new_proposal =
    closed_proposal_edit_intent_validate L (closed_proposal_edit_intent_new p new_proposal) p"

definition closed_proposal_edit_intent_canonical_toml ::
  "(closed_proposal_edit_intent \<Rightarrow> string option) \<Rightarrow> closed_proposal_edit_intent \<Rightarrow> (semantic_error, string) result" where
  "closed_proposal_edit_intent_canonical_toml to_toml intent = ok_or InvalidProposal (to_toml intent)"

definition closed_proposal_edit_intent_from_toml ::
  "(string \<Rightarrow> closed_proposal_edit_intent option) \<Rightarrow> string \<Rightarrow> (semantic_error, closed_proposal_edit_intent) result" where
  "closed_proposal_edit_intent_from_toml from_toml value = ok_or InvalidProposal (from_toml value)"

definition revision_proposal_edit_intent_toml ::
  "proposal_lib \<Rightarrow> (closed_proposal_edit_intent \<Rightarrow> string option) \<Rightarrow> revision_proposal \<Rightarrow> revision_proposal
    \<Rightarrow> (semantic_error, string) result" where
  "revision_proposal_edit_intent_toml L to_toml p new_proposal =
    (let intent = closed_proposal_edit_intent_new p new_proposal in
     and_then (closed_proposal_edit_intent_validate L intent p) (\<lambda>_.
     closed_proposal_edit_intent_canonical_toml to_toml intent))"

definition revision_proposal_parse_edit_intent_toml ::
  "(string \<Rightarrow> closed_proposal_edit_intent option) \<Rightarrow> string
    \<Rightarrow> (semantic_error, revision_proposal_id \<times> revision_id \<times> bytes \<times> revision_proposal) result" where
  "revision_proposal_parse_edit_intent_toml from_toml value =
    and_then (closed_proposal_edit_intent_from_toml from_toml value) (\<lambda>intent.
    Ok (ei_original_proposal_id intent, ei_original_proposal_revision_id intent, ei_original_fingerprint intent,
      ei_new_proposal intent))"

section \<open>What an accepted revision says\<close>

lemma contains_all_subset: "contains_all ys xs \<longleftrightarrow> set xs \<subseteq> set ys"
  by (auto simp: contains_all_def)

lemma proposal_validD:
  assumes "revision_proposal_validate L p = Ok ()"
  shows "proposal_payload_validate (rp_payload p) (rp_target_kind p) = Ok ()" and "proposal_fields_ok p"
    and "revision_proposal_recompute_source_cohort_hash L p = Ok (rp_source_cohort_hash p)"
    and "revision_proposal_recompute_fingerprint L p = Ok (rp_fingerprint p)"
    and "revision_proposal_validate_shape p = Ok ()" and "revision_proposal_validate_status p = Ok ()"
    and "rp_parent_proposal_revision_id p = None \<Longrightarrow> rp_status p = ProposalPending"
  using assms by (auto simp: revision_proposal_validate_def result_simps)

lemma accepted_proposalD:
  assumes "revision_proposal_validate_status p = Ok ()" and "rp_status p = ProposalAccepted"
  obtains acceptance where "rp_acceptance p = Some acceptance" and "pt_reviewed_fingerprint acceptance = rp_fingerprint p"
    and "accepted_target_matches (rp_target_kind p) (pt_accepted_target acceptance)"
    and "pt_reviewed_proposal_revision_id acceptance \<noteq> rp_proposal_revision_id p"
  using assms by (auto simp: revision_proposal_validate_status_def result_simps split: option.splits if_splits)

text \<open>What stays the same between two revisions of a proposal, whatever happens in between.\<close>

definition proposal_follows :: "revision_proposal \<Rightarrow> revision_proposal \<Rightarrow> bool" where
  "proposal_follows p q \<longleftrightarrow> rp_proposal_id q = rp_proposal_id p \<and> rp_target_kind q = rp_target_kind p
    \<and> rp_target_id q = rp_target_id p \<and> rp_operation q = rp_operation p \<and> rp_created_by q = rp_created_by p
    \<and> set (rp_evidence_refs p) \<subseteq> set (rp_evidence_refs q) \<and> sint (rp_created_at_us p) \<le> sint (rp_created_at_us q)
    \<and> rp_status p \<in> {ProposalPending, ProposalValidating, ProposalDeferred}"

lemma proposal_follows_transp: "transp proposal_follows"
  by (rule transpI) (auto simp: proposal_follows_def)

definition procedure_reviewed :: "revision_proposal \<Rightarrow> bool" where
  "procedure_reviewed q \<longleftrightarrow> rp_review_reason q = Some procedure_review_v1 \<and> rp_eligibility q = ManualRequired
    \<and> rp_status q \<noteq> ProposalAccepted \<and> (\<exists>d. rp_payload q = PayloadProcedure d)"

lemma review_successorD:
  assumes "revision_proposal_validate_procedure_review_successor L p q = Ok ()"
  shows "proposal_follows p q" and "procedure_reviewed q" and "revision_proposal_validate L q = Ok ()"
    and "rp_status q \<noteq> ProposalAccepted"
  using assms
  by (auto simp: revision_proposal_validate_procedure_review_successor_def result_simps proposal_follows_def procedure_reviewed_def
      proposal_status_is_open_def contains_all_subset split: proposal_payload.splits if_splits)

lemma plain_successorD:
  assumes "revision_proposal_validate_successor L p q = Ok ()"
    and "\<not> (rp_payload p \<noteq> rp_payload q \<and> rp_review_reason q = Some procedure_review_v1)"
  shows "proposal_follows p q" and "rp_payload q = rp_payload p" and "revision_proposal_validate L q = Ok ()"
    and "rp_status q = ProposalAccepted \<Longrightarrow> rp_status p = ProposalValidating \<and> rp_fingerprint q = rp_fingerprint p
      \<and> rp_base_revision_id q = rp_base_revision_id p \<and> rp_source_cohort_refs q = rp_source_cohort_refs p"
proof -
  from assms have *: "revision_proposal_validate L q = Ok ()" "rp_proposal_id q = rp_proposal_id p"
    "rp_target_kind q = rp_target_kind p" "rp_target_id q = rp_target_id p"
    "sint (rp_created_at_us p) \<le> sint (rp_created_at_us q)"
    "rp_status p = ProposalDeferred \<and> deferred_successor_ok p q
      \<or> rp_status p \<in> {ProposalPending, ProposalValidating} \<and> open_successor_ok p q"
    unfolding revision_proposal_validate_successor_def
    by (cases "rp_status p"; auto simp: result_simps split: if_splits)+
  then show "proposal_follows p q" "rp_payload q = rp_payload p" "revision_proposal_validate L q = Ok ()"
    by (auto simp: proposal_follows_def deferred_successor_ok_def open_successor_ok_def contains_all_subset Let_def)
  assume "rp_status q = ProposalAccepted"
  with * show "rp_status p = ProposalValidating \<and> rp_fingerprint q = rp_fingerprint p
      \<and> rp_base_revision_id q = rp_base_revision_id p \<and> rp_source_cohort_refs q = rp_source_cohort_refs p"
    by (auto simp: deferred_successor_ok_def open_successor_ok_def Let_def)
qed

lemma proposal_successorD:
  assumes "revision_proposal_validate_successor L p q = Ok ()"
  shows "proposal_follows p q" and "revision_proposal_validate L q = Ok ()"
    and "rp_payload q \<noteq> rp_payload p \<Longrightarrow> procedure_reviewed q"
    and "rp_status q = ProposalAccepted \<Longrightarrow> rp_status p = ProposalValidating \<and> rp_fingerprint q = rp_fingerprint p
      \<and> rp_base_revision_id q = rp_base_revision_id p \<and> rp_source_cohort_refs q = rp_source_cohort_refs p
      \<and> rp_payload q = rp_payload p"
proof -
  consider (review) "revision_proposal_validate_procedure_review_successor L p q = Ok ()"
    | (plain) "\<not> (rp_payload p \<noteq> rp_payload q \<and> rp_review_reason q = Some procedure_review_v1)"
    using assms unfolding revision_proposal_validate_successor_def by (auto split: if_splits)
  then have "proposal_follows p q \<and> revision_proposal_validate L q = Ok () \<and> (rp_payload q \<noteq> rp_payload p \<longrightarrow> procedure_reviewed q)
    \<and> (rp_status q = ProposalAccepted \<longrightarrow> rp_status p = ProposalValidating \<and> rp_fingerprint q = rp_fingerprint p
      \<and> rp_base_revision_id q = rp_base_revision_id p \<and> rp_source_cohort_refs q = rp_source_cohort_refs p
      \<and> rp_payload q = rp_payload p)"
  proof cases
    case review
    from review_successorD [OF this] show ?thesis by simp
  next
    case plain
    from plain_successorD [OF assms plain] show ?thesis by simp
  qed
  then show "proposal_follows p q" "revision_proposal_validate L q = Ok ()" "rp_payload q \<noteq> rp_payload p \<Longrightarrow> procedure_reviewed q"
    "rp_status q = ProposalAccepted \<Longrightarrow> rp_status p = ProposalValidating \<and> rp_fingerprint q = rp_fingerprint p
      \<and> rp_base_revision_id q = rp_base_revision_id p \<and> rp_source_cohort_refs q = rp_source_cohort_refs p
      \<and> rp_payload q = rp_payload p" by simp_all
qed

lemma payload_change_reviewed:
  assumes "windows_all (\<lambda>a b. revision_proposal_validate_successor L a b = Ok ()) history"
    and "i \<le> j" and "j < length history" and "rp_payload (history ! j) \<noteq> rp_payload (history ! i)"
  shows "\<exists>k. i < k \<and> k \<le> j \<and> procedure_reviewed (history ! k)"
  using assms(2-4)
proof (induction rule: dec_induct)
  case (step n)
  note s = proposal_successorD(3) [OF windows_all_nth [OF assms(1) step.prems(1)]]
  show ?case
  proof (cases "rp_payload (history ! n) = rp_payload (history ! i)")
    case True
    then have "procedure_reviewed (history ! Suc n)" using s step.prems(2) by simp
    then show ?thesis using step.hyps by (intro exI [of _ "Suc n"]) simp
  next
    case False
    then show ?thesis using step.IH step.prems(1) by (meson Suc_lessD le_SucI)
  qed
qed simp

text \<open>
  C27. Along the accepted revisions of a proposal its identity, target, operation and author are
  fixed and its evidence only grows; accepted, rejected and superseded revisions have no
  successor. The proposed content changes only by a background review of a procedure, which
  takes automatic eligibility away. An accepted revision directly follows a validating one with
  the same content, base and source cohort, and its acceptance names the fingerprint of that
  content and fits the target.
\<close>
theorem proposal_history_sound:
  assumes "windows_all (\<lambda>a b. revision_proposal_validate_successor L a b = Ok ()) history" and "i < j" and "j < length history"
  shows "proposal_follows (history ! i) (history ! j)
    \<and> (rp_payload (history ! j) \<noteq> rp_payload (history ! i) \<longrightarrow> (\<exists>k. i < k \<and> k \<le> j \<and> procedure_reviewed (history ! k)))
    \<and> (rp_status (history ! j) = ProposalAccepted \<longrightarrow>
        rp_status (history ! (j - 1)) = ProposalValidating \<and> rp_payload (history ! (j - 1)) = rp_payload (history ! j)
        \<and> rp_base_revision_id (history ! (j - 1)) = rp_base_revision_id (history ! j)
        \<and> rp_source_cohort_refs (history ! (j - 1)) = rp_source_cohort_refs (history ! j)
        \<and> (\<exists>acceptance. rp_acceptance (history ! j) = Some acceptance
            \<and> pt_reviewed_fingerprint acceptance = rp_fingerprint (history ! (j - 1))
            \<and> accepted_target_matches (rp_target_kind (history ! j)) (pt_accepted_target acceptance)))"
proof (intro conjI impI)
  have "windows_all proposal_follows history" using assms(1) by (rule windows_all_weaken) (rule proposal_successorD(1))
  then show "proposal_follows (history ! i) (history ! j)"
    using windows_all_sorted_wrt [OF proposal_follows_transp] sorted_wrt_nth_less assms(2,3) by blast
  show "\<exists>k. i < k \<and> k \<le> j \<and> procedure_reviewed (history ! k)" if "rp_payload (history ! j) \<noteq> rp_payload (history ! i)"
    using payload_change_reviewed [OF assms(1) less_imp_le [OF assms(2)] assms(3) that] .
next
  assume accepted: "rp_status (history ! j) = ProposalAccepted"
  have s: "revision_proposal_validate_successor L (history ! (j - 1)) (history ! j) = Ok ()"
    using windows_all_nth [OF assms(1), of "j - 1"] assms(2,3) by simp
  note same = proposal_successorD(4) [OF s accepted]
  from same show "rp_status (history ! (j - 1)) = ProposalValidating" "rp_payload (history ! (j - 1)) = rp_payload (history ! j)"
    "rp_base_revision_id (history ! (j - 1)) = rp_base_revision_id (history ! j)"
    "rp_source_cohort_refs (history ! (j - 1)) = rp_source_cohort_refs (history ! j)" by simp_all
  show "\<exists>acceptance. rp_acceptance (history ! j) = Some acceptance
      \<and> pt_reviewed_fingerprint acceptance = rp_fingerprint (history ! (j - 1))
      \<and> accepted_target_matches (rp_target_kind (history ! j)) (pt_accepted_target acceptance)"
    using accepted_proposalD [OF proposal_validD(6) [OF proposal_successorD(2) [OF s]] accepted] same by metis
qed

section \<open>The fingerprint\<close>

definition same_review :: "proposal_lib \<Rightarrow> revision_proposal \<Rightarrow> revision_proposal \<Rightarrow> bool" where
  "same_review L p q \<longleftrightarrow> rp_target_kind p = rp_target_kind q \<and> rp_target_id p = rp_target_id q
    \<and> rp_base_revision_id p = rp_base_revision_id q \<and> rp_operation p = rp_operation q
    \<and> pl_payload_toml L (rp_payload p) = pl_payload_toml L (rp_payload q)
    \<and> rp_source_cohort_hash p = rp_source_cohort_hash q"

lemma revision_text_inject:
  "uuid_lib_ok lib \<Longrightarrow> revision_id_to_string lib r = revision_id_to_string lib r' \<longleftrightarrow> r = r'"
  unfolding uuid_lib_ok_def revision_id_to_string_def by (metis option.inject)

lemma target_text_inject:
  assumes "uuid_lib_ok lib" and "proposal_target_id_kind t = proposal_target_id_kind t'"
  shows "proposal_target_id_text lib t = proposal_target_id_text lib t' \<longleftrightarrow> t = t'"
  using assms(2) revision_text_inject [OF assms(1)]
  by (cases t; cases t') (simp_all add: uuid_id_to_string_def revision_id_to_string_def)

lemma target_kind_text_inject: "proposal_target_kind_as_str k = proposal_target_kind_as_str k' \<longleftrightarrow> k = k'"
  by (cases k; cases k') simp_all

lemma operation_text_inject: "proposal_operation_as_str k = proposal_operation_as_str k' \<longleftrightarrow> k = k'"
  by (cases k; cases k') simp_all

lemma proposal_fingerprint_bytes:
  assumes "revision_proposal_validate L p = Ok ()"
  obtains s x where "pl_payload_toml L (rp_payload p) = Some s"
    and "encode ''revision_proposal_fingerprint_v1'' 1 (proposal_fingerprint_value (pl_uuid L) p s) = Ok x"
    and "rp_fingerprint p = pl_sha256 L x"
  using proposal_validD(4) [OF assms]
  by (auto simp: revision_proposal_recompute_fingerprint_def result_simps canonical_sha256_def)

lemma proposal_fingerprint_value_inject:
  assumes "canonical_form (proposal_fingerprint_value lib p s) = canonical_form (proposal_fingerprint_value lib q t)"
    and "uuid_lib_ok lib" and "proposal_fields_ok p" and "proposal_fields_ok q"
  shows "rp_target_kind p = rp_target_kind q" and "rp_target_id p = rp_target_id q"
    and "rp_base_revision_id p = rp_base_revision_id q" and "rp_operation p = rp_operation q" and "s = t"
    and "rp_source_cohort_hash p = rp_source_cohort_hash q"
proof -
  let ?X = "\<lambda>p s. map (\<lambda>(k, v). (k, canonical_form v)) (case proposal_fingerprint_value lib p s of CMap es \<Rightarrow> es)"
  have "set (?X p s) = set (?X q t)" using assms(1) by (intro sort_key_set) (simp add: proposal_fingerprint_value_def)
  then have X: "x \<in> set (?X p s) \<longleftrightarrow> x \<in> set (?X q t)" for x by blast
  show kind: "rp_target_kind p = rp_target_kind q"
    using X [of "(''target_kind'', CString (proposal_target_kind_as_str (rp_target_kind p)))"]
    by (simp add: proposal_fingerprint_value_def target_kind_text_inject)
  let ?T = "\<lambda>p. case rp_target_id p of None \<Rightarrow> CNull | Some v \<Rightarrow> CString (proposal_target_id_text lib v)"
  have T: "?T p = ?T q"
    using X [of "(''target_id'', ?T p)"]
    by (cases "rp_target_id p"; cases "rp_target_id q") (simp_all add: proposal_fingerprint_value_def)
  show "rp_target_id p = rp_target_id q"
  proof (cases "rp_target_id p")
    case None
    with T show ?thesis by (cases "rp_target_id q") simp_all
  next
    case (Some i)
    with T obtain j where j: "rp_target_id q = Some j" "proposal_target_id_text lib i = proposal_target_id_text lib j"
      by (cases "rp_target_id q") simp_all
    have "proposal_target_id_kind i = proposal_target_id_kind j"
      using assms(3,4) kind Some j(1) by (simp add: proposal_fields_ok_def is_some_and_iff)
    from target_text_inject [OF assms(2) this] j Some show ?thesis by simp
  qed
  show "rp_base_revision_id p = rp_base_revision_id q"
    using X [of "(''base_revision_id'', case rp_base_revision_id p of None \<Rightarrow> CNull | Some v \<Rightarrow> CString (revision_id_to_string lib v))"]
    by (cases "rp_base_revision_id p"; cases "rp_base_revision_id q")
      (simp_all add: proposal_fingerprint_value_def revision_text_inject [OF assms(2)])
  show "rp_operation p = rp_operation q"
    using X [of "(''operation'', CString (proposal_operation_as_str (rp_operation p)))"]
    by (simp add: proposal_fingerprint_value_def operation_text_inject)
  show "s = t" using X [of "(''payload'', CString s)"] by (simp add: proposal_fingerprint_value_def)
  show "rp_source_cohort_hash p = rp_source_cohort_hash q"
    using X [of "(''source_cohort_hash'', CBytes (rp_source_cohort_hash p))"] by (simp add: proposal_fingerprint_value_def)
qed

text \<open>
  The fingerprint of a valid proposal is the digest of a byte string that identifies its
  target, base revision, operation, serialised payload and source cohort: two valid proposals
  with equal fingerprints agree on all of them, or two different byte strings with the same
  digest have been found.
\<close>
theorem proposal_fingerprint_identifies:
  assumes "revision_proposal_validate L p = Ok ()" and "revision_proposal_validate L q = Ok ()" and "uuid_lib_ok (pl_uuid L)"
  shows "\<exists>x y. rp_fingerprint p = pl_sha256 L x \<and> rp_fingerprint q = pl_sha256 L y \<and> (x = y \<longleftrightarrow> same_review L p q)"
proof -
  obtain s x where x: "pl_payload_toml L (rp_payload p) = Some s"
    "encode ''revision_proposal_fingerprint_v1'' 1 (proposal_fingerprint_value (pl_uuid L) p s) = Ok x"
    "rp_fingerprint p = pl_sha256 L x" using proposal_fingerprint_bytes [OF assms(1)] .
  obtain t y where y: "pl_payload_toml L (rp_payload q) = Some t"
    "encode ''revision_proposal_fingerprint_v1'' 1 (proposal_fingerprint_value (pl_uuid L) q t) = Ok y"
    "rp_fingerprint q = pl_sha256 L y" using proposal_fingerprint_bytes [OF assms(2)] .
  have "same_review L p q" if "x = y"
  proof -
    from encode_inject [OF x(2) y(2) [folded that]]
    have "canonical_form (proposal_fingerprint_value (pl_uuid L) p s) = canonical_form (proposal_fingerprint_value (pl_uuid L) q t)"
      by simp
    from proposal_fingerprint_value_inject [OF this assms(3) proposal_validD(2) [OF assms(1)] proposal_validD(2) [OF assms(2)]]
    show ?thesis by (simp add: same_review_def x(1) y(1))
  qed
  moreover have "x = y" if "same_review L p q"
    using that x y by (simp add: same_review_def proposal_fingerprint_value_def)
  ultimately show ?thesis using x(3) y(3) by blast
qed

section \<open>Closed edits\<close>

lemma closed_edit_changes: "\<not> valid_closed_edit payload payload"
proof (cases payload)
  case (PayloadAtom a)
  then show ?thesis by (cases a) (simp_all add: valid_draft_edit_def)
next
  case (PayloadProcedure q)
  then show ?thesis by (cases q) (simp_all add: procedure_drafts_edit_def)
qed simp_all

text \<open>
  The text of an edit intent is read back exactly: when the TOML reader inverts the writer,
  reading an intent that was written for an open proposal and its edit gives the identity,
  revision and fingerprint of the original and the new proposal. The new proposal is a valid
  first revision by the user that proposes different content for the same target and base, on
  the same evidence and source cohort, and is not eligible for automatic acceptance.
\<close>
theorem edit_intent_roundtrip:
  assumes "\<forall>intent s. to_toml intent = Some s \<longrightarrow> from_toml s = Some intent"
    and "revision_proposal_edit_intent_toml L to_toml p edited = Ok s"
  shows "revision_proposal_parse_edit_intent_toml from_toml s
      = Ok (rp_proposal_id p, rp_proposal_revision_id p, rp_fingerprint p, edited)
    \<and> revision_proposal_validate L edited = Ok () \<and> proposal_status_is_open (rp_status p)
    \<and> rp_payload edited \<noteq> rp_payload p \<and> rp_target_id edited = rp_target_id p
    \<and> rp_base_revision_id edited = rp_base_revision_id p \<and> rp_evidence_refs edited = rp_evidence_refs p
    \<and> rp_source_cohort_refs edited = rp_source_cohort_refs p \<and> rp_status edited = ProposalPending
    \<and> rp_created_by edited = CreatedByUser \<and> rp_eligibility edited = ManualRequired"
proof -
  let ?intent = "closed_proposal_edit_intent_new p edited"
  from assms(2) have v: "closed_proposal_edit_intent_validate L ?intent p = Ok ()" and s: "to_toml ?intent = Some s"
    by (auto simp: revision_proposal_edit_intent_toml_def closed_proposal_edit_intent_canonical_toml_def Let_def result_simps)
  have "revision_proposal_parse_edit_intent_toml from_toml s
      = Ok (rp_proposal_id p, rp_proposal_revision_id p, rp_fingerprint p, edited)"
    using assms(1) s
    by (simp add: revision_proposal_parse_edit_intent_toml_def closed_proposal_edit_intent_from_toml_def
        closed_proposal_edit_intent_new_def ok_or_def)
  moreover have "rp_payload edited \<noteq> rp_payload p" using closed_edit_changes v by (auto simp: closed_proposal_edit_intent_validate_def closed_proposal_edit_intent_new_def Let_def result_simps
        proposal_payload_validate_closed_edit_def split: if_splits)
  ultimately show ?thesis
    using v by (simp add: closed_proposal_edit_intent_validate_def closed_proposal_edit_intent_new_def Let_def result_simps)
qed

section \<open>Samples\<close>

text \<open>
  A proposal to deprecate an atom, its edit with another reason and its acceptance, with a digest
  that tells the three byte strings involved apart.
\<close>

definition sample_proposal_of :: "string \<Rightarrow> bytes \<Rightarrow> revision_proposal" where
  "sample_proposal_of reason fingerprint = \<lparr>rp_proposal_id = 1, rp_proposal_revision_id = 2, rp_parent_proposal_revision_id = None,
    rp_target_kind = TargetAtom, rp_target_id = Some (TargetAtomId 3), rp_base_revision_id = Some 4, rp_operation = OpDeprecate,
    rp_payload = PayloadAtom (AtomDeprecate reason), rp_evidence_refs = [''e''], rp_source_cohort_refs = [''c''],
    rp_source_cohort_hash = [0], rp_fingerprint = fingerprint, rp_eligibility = ManualRequired, rp_status = ProposalPending,
    rp_waiting_on = [], rp_review_reason = None, rp_created_by = CreatedByUser, rp_acceptance = None,
    rp_created_at_us = 5, rp_reviewed_at_us = None\<rparr>"

definition sample_fingerprint_value :: "string \<Rightarrow> canonical_value" where
  "sample_fingerprint_value reason = proposal_fingerprint_value sample_uuid_lib (sample_proposal_of reason []) reason"

definition sample_digest :: "bytes \<Rightarrow> bytes" where
  "sample_digest b =
    (if Ok b = encode ''revision_proposal_source_cohort_v1'' 1 (CSequence [CString ''c'']) then [0]
     else if Ok b = encode ''revision_proposal_fingerprint_v1'' 1 (sample_fingerprint_value ''old'') then [1]
     else [2])"

definition sample_proposal_lib :: proposal_lib where
  "sample_proposal_lib = \<lparr>pl_sha256 = sample_digest, pl_uuid = sample_uuid_lib,
    pl_payload_toml = (\<lambda>payload. case payload of PayloadAtom (AtomDeprecate reason) \<Rightarrow> Some reason | _ \<Rightarrow> None)\<rparr>"

definition sample_proposal :: revision_proposal where
  "sample_proposal = sample_proposal_of ''old'' [1]"

definition sample_edited_proposal :: revision_proposal where
  "sample_edited_proposal = (sample_proposal_of ''new'' [2])\<lparr>rp_proposal_id := 5, rp_proposal_revision_id := 6\<rparr>"

definition sample_validating_proposal :: revision_proposal where
  "sample_validating_proposal = sample_proposal\<lparr>rp_proposal_revision_id := 7, rp_parent_proposal_revision_id := Some 2,
    rp_status := ProposalValidating\<rparr>"

definition sample_accepted_proposal :: revision_proposal where
  "sample_accepted_proposal = sample_proposal\<lparr>rp_proposal_revision_id := 8, rp_parent_proposal_revision_id := Some 7,
    rp_status := ProposalAccepted, rp_reviewed_at_us := Some 6,
    rp_acceptance := Some \<lparr>pt_reviewer_identity = ''u'', pt_acceptance_event_ref = ''a'', pt_reviewed_proposal_revision_id = 7,
      pt_reviewed_fingerprint = [1], pt_accepted_target = AcceptedAtom 3 9 [], pt_authority_basis = AcceptObjectiveEvidence [],
      pt_accepted_at_us = 6\<rparr>\<rparr>"

lemma sample_value_encodes:
  assumes "length reason < 10"
  shows "\<exists>x. encode ''revision_proposal_fingerprint_v1'' 1 (sample_fingerprint_value reason) = Ok x"
proof (rule encode_ok)
  have "length (hyphenated sample_uuid_lib r) = 36" for r using sample_uuid_lib_ok by (simp add: uuid_lib_ok_def)
  then show "encodable (sample_fingerprint_value reason)"
    using assms by (simp add: sample_fingerprint_value_def proposal_fingerprint_value_def sample_proposal_of_def
      uuid_id_to_string_def revision_id_to_string_def)
qed simp_all

lemma sample_digests:
  "revision_proposal_recompute_source_cohort_hash sample_proposal_lib (sample_proposal_of reason f) = Ok [0]"
  "revision_proposal_recompute_fingerprint sample_proposal_lib (sample_proposal_of ''old'' f) = Ok [1]"
  "revision_proposal_recompute_fingerprint sample_proposal_lib (sample_proposal_of ''new'' f) = Ok [2]"
proof -
  let ?cohort = "''revision_proposal_source_cohort_v1''" and ?fp = "''revision_proposal_fingerprint_v1''"
  obtain c where c: "encode ?cohort 1 (CSequence [CString ''c'']) = Ok c"
    using encode_ok [of ?cohort "CSequence [CString ''c'']" 1] by auto
  obtain x where x: "encode ?fp 1 (sample_fingerprint_value ''old'') = Ok x" using sample_value_encodes [of "''old''"] by auto
  obtain y where y: "encode ?fp 1 (sample_fingerprint_value ''new'') = Ok y" using sample_value_encodes [of "''new''"] by auto
  have "x \<noteq> c" "y \<noteq> c" using encode_inject [OF c, of ?fp 1] x y by auto
  have "y \<noteq> x"
  proof
    assume "y = x"
    with encode_inject [OF x, of ?fp 1 "sample_fingerprint_value ''new''"] y
    have "canonical_form (sample_fingerprint_value ''new'') = canonical_form (sample_fingerprint_value ''old'')" by simp
    moreover have "proposal_fields_ok (sample_proposal_of r [])" for r
      by (simp add: proposal_fields_ok_def sample_proposal_of_def sample_atom_text PROPOSAL_MAX_REFS_def)
    ultimately have "''new'' = ''old''"
      unfolding sample_fingerprint_value_def by (intro proposal_fingerprint_value_inject(5) [OF _ sample_uuid_lib_ok])
    then show False by simp
  qed
  have same: "proposal_fingerprint_value lib (sample_proposal_of r f) s = proposal_fingerprint_value lib (sample_proposal_of r []) s" for lib r s
    by (simp add: proposal_fingerprint_value_def sample_proposal_of_def)
  have fp: "revision_proposal_recompute_fingerprint sample_proposal_lib (sample_proposal_of r f)
      = map_err (\<lambda>_. InvalidProposal) (canonical_sha256 sample_digest ?fp 1 (sample_fingerprint_value r))" for r
    by (simp add: revision_proposal_recompute_fingerprint_def sample_proposal_lib_def same sample_fingerprint_value_def)
      (simp add: sample_proposal_of_def ok_or_def)
  show "revision_proposal_recompute_source_cohort_hash sample_proposal_lib (sample_proposal_of reason f) = Ok [0]"
    by (simp add: revision_proposal_recompute_source_cohort_hash_def sample_proposal_lib_def sample_proposal_of_def
        canonical_sha256_def c sample_digest_def)
  show "revision_proposal_recompute_fingerprint sample_proposal_lib (sample_proposal_of ''old'' f) = Ok [1]"
    using \<open>x \<noteq> c\<close> by (simp add: fp canonical_sha256_def x c sample_digest_def)
  show "revision_proposal_recompute_fingerprint sample_proposal_lib (sample_proposal_of ''new'' f) = Ok [2]"
    using \<open>y \<noteq> c\<close> \<open>y \<noteq> x\<close> by (simp add: fp canonical_sha256_def x y c sample_digest_def)
qed

lemmas sample_proposal_checks = revision_proposal_validate_def proposal_fields_ok_def revision_proposal_validate_shape_def
  revision_proposal_validate_status_def proposal_payload_fits_def proposal_status_is_terminal_def proposal_acceptance_validate_def
  valid_review_text_def PROPOSAL_MAX_REFS_def MAX_REVIEW_TEXT_def sample_atom_text

text \<open>The hashes do not depend on the fields that tell the sample proposals apart.\<close>

lemma sample_hash_fields:
  "revision_proposal_recompute_source_cohort_hash L (p\<lparr>rp_proposal_id := i, rp_proposal_revision_id := r\<rparr>)
    = revision_proposal_recompute_source_cohort_hash L p"
  "revision_proposal_recompute_fingerprint L (p\<lparr>rp_proposal_id := i, rp_proposal_revision_id := r\<rparr>)
    = revision_proposal_recompute_fingerprint L p"
  "revision_proposal_recompute_source_cohort_hash L (p\<lparr>rp_proposal_revision_id := r, rp_parent_proposal_revision_id := q, rp_status := s,
      rp_reviewed_at_us := t, rp_acceptance := a\<rparr>) = revision_proposal_recompute_source_cohort_hash L p"
  "revision_proposal_recompute_fingerprint L (p\<lparr>rp_proposal_revision_id := r, rp_parent_proposal_revision_id := q, rp_status := s,
      rp_reviewed_at_us := t, rp_acceptance := a\<rparr>) = revision_proposal_recompute_fingerprint L p"
  "revision_proposal_recompute_source_cohort_hash L (p\<lparr>rp_proposal_revision_id := r, rp_parent_proposal_revision_id := q, rp_status := s\<rparr>)
    = revision_proposal_recompute_source_cohort_hash L p"
  "revision_proposal_recompute_fingerprint L (p\<lparr>rp_proposal_revision_id := r, rp_parent_proposal_revision_id := q, rp_status := s\<rparr>)
    = revision_proposal_recompute_fingerprint L p"
  by (simp_all add: revision_proposal_recompute_source_cohort_hash_def revision_proposal_recompute_fingerprint_def
      proposal_fingerprint_value_def)

lemma sample_proposals_valid:
  "revision_proposal_validate sample_proposal_lib sample_proposal = Ok ()"
  "revision_proposal_validate sample_proposal_lib sample_edited_proposal = Ok ()"
  "revision_proposal_validate sample_proposal_lib sample_validating_proposal = Ok ()"
  "revision_proposal_validate sample_proposal_lib sample_accepted_proposal = Ok ()"
  by (simp add: revision_proposal_validate_def sample_proposal_def sample_digests,
      simp add: sample_proposal_checks sample_proposal_of_def)
    (simp add: revision_proposal_validate_def sample_edited_proposal_def sample_digests sample_hash_fields,
      simp add: sample_proposal_checks sample_proposal_of_def,
     simp add: revision_proposal_validate_def sample_validating_proposal_def sample_proposal_def sample_digests sample_hash_fields,
      simp add: sample_proposal_checks sample_proposal_of_def,
     simp add: revision_proposal_validate_def sample_accepted_proposal_def sample_proposal_def sample_digests sample_hash_fields,
      simp add: sample_proposal_checks sample_proposal_of_def)

lemma open_successor_accepted:
  assumes "revision_proposal_validate L q = Ok ()" and "rp_payload q = rp_payload p" and "rp_proposal_id q = rp_proposal_id p"
    and "rp_parent_proposal_revision_id q = Some (rp_proposal_revision_id p)" and "rp_target_kind q = rp_target_kind p"
    and "rp_target_id q = rp_target_id p" and "rp_created_at_us q = rp_created_at_us p"
    and "rp_status p \<in> {ProposalPending, ProposalValidating}" and "open_successor_ok p q"
  shows "revision_proposal_validate_successor L p q = Ok ()"
  using assms by (auto simp: revision_proposal_validate_successor_def)

lemma sample_proposals_follow:
  "windows_all (\<lambda>a b. revision_proposal_validate_successor sample_proposal_lib a b = Ok ())
    [sample_proposal, sample_validating_proposal, sample_accepted_proposal]"
proof -
  have "revision_proposal_validate_successor sample_proposal_lib sample_proposal sample_validating_proposal = Ok ()"
    by (rule open_successor_accepted [OF sample_proposals_valid(3)])
      (simp_all add: sample_validating_proposal_def sample_proposal_def sample_proposal_of_def open_successor_ok_def contains_all_def)
  moreover have "revision_proposal_validate_successor sample_proposal_lib sample_validating_proposal sample_accepted_proposal = Ok ()"
    by (rule open_successor_accepted [OF sample_proposals_valid(4)])
      (simp_all add: sample_validating_proposal_def sample_accepted_proposal_def sample_proposal_def sample_proposal_of_def
        open_successor_ok_def contains_all_def)
  ultimately show ?thesis by simp
qed

theorem proposal_history_sound_witness:
  "\<exists>acceptance. rp_acceptance sample_accepted_proposal = Some acceptance
    \<and> pt_reviewed_fingerprint acceptance = rp_fingerprint sample_validating_proposal"
  using proposal_history_sound [OF sample_proposals_follow, of 0 2] by (auto simp: sample_accepted_proposal_def)

theorem proposal_fingerprint_identifies_witness:
  "\<exists>x y. rp_fingerprint sample_proposal = sample_digest x \<and> rp_fingerprint sample_edited_proposal = sample_digest y \<and> x \<noteq> y"
proof -
  have "uuid_lib_ok (pl_uuid sample_proposal_lib)" by (simp add: sample_proposal_lib_def sample_uuid_lib_ok)
  from proposal_fingerprint_identifies [OF sample_proposals_valid(1,2) this] show ?thesis
    by (auto simp: same_review_def sample_proposal_lib_def sample_proposal_def sample_edited_proposal_def sample_proposal_of_def)
qed

theorem edit_intent_roundtrip_witness:
  "revision_proposal_parse_edit_intent_toml
      (\<lambda>s. if s = ''i'' then Some (closed_proposal_edit_intent_new sample_proposal sample_edited_proposal) else None) ''i''
    = Ok (1, 2, [1], sample_edited_proposal)"
proof -
  let ?intent = "closed_proposal_edit_intent_new sample_proposal sample_edited_proposal"
  have v: "closed_proposal_edit_intent_validate sample_proposal_lib ?intent sample_proposal = Ok ()"
    by (simp add: closed_proposal_edit_intent_validate_def closed_proposal_edit_intent_new_def sample_proposals_valid Let_def)
      (simp add: sample_proposal_def sample_edited_proposal_def sample_proposal_of_def proposal_status_is_open_def
        proposal_payload_validate_closed_edit_def)
  have "revision_proposal_edit_intent_toml sample_proposal_lib (\<lambda>intent. if intent = ?intent then Some ''i'' else None)
      sample_proposal sample_edited_proposal = Ok ''i''"
    by (simp add: revision_proposal_edit_intent_toml_def v Let_def closed_proposal_edit_intent_canonical_toml_def ok_or_def)
  note written = this
  have "\<forall>intent s. (if intent = ?intent then Some ''i'' else None) = Some s \<longrightarrow>
      (if s = ''i'' then Some ?intent else None) = Some intent" by simp
  from edit_intent_roundtrip [OF this written]
  show ?thesis by (simp add: sample_proposal_def sample_proposal_of_def)
qed

end
