(* ===== verification/Purge.thy ===== *)
theory Purge
  imports Proposal Evidence
begin

text \<open>
  Deletion and purging, \<open>evertrace-domain/src/purge.rs\<close>: the progress of a scope purge, the
  content-free guards and ledger events of a deleted object, and the intent by which a purged
  object may be authorised again. The TOML writer and reader are arguments. The lemmas show
  that a purge only moves forward and ends, that the guards identify what was deleted, and
  that nothing is authorised again before its deletion is complete.
\<close>

section \<open>Scope purges\<close>

definition OBJECT_DELETION_LEDGER_SCHEMA_VERSION :: u16 where "OBJECT_DELETION_LEDGER_SCHEMA_VERSION = 1"
definition SCOPE_PURGE_PROGRESS_SCHEMA_VERSION :: u16 where "SCOPE_PURGE_PROGRESS_SCHEMA_VERSION = 1"
definition OBJECT_REAUTHORIZATION_INTENT_SCHEMA_VERSION :: u16 where "OBJECT_REAUTHORIZATION_INTENT_SCHEMA_VERSION = 1"
definition MAX_DELETED_REVISIONS :: nat where "MAX_DELETED_REVISIONS = 256"
definition MAX_SUPPRESSION_REFS :: nat where "MAX_SUPPRESSION_REFS = 512"

datatype object_deletion_target =
    is_DeleteAtom: DeleteAtom atom_id | is_DeleteProcedure: DeleteProcedure procedure_id
  | DeleteCoreMembership core_membership_id

fun object_deletion_target_object_ref :: "uuid_lib \<Rightarrow> object_deletion_target \<Rightarrow> string" where
  "object_deletion_target_object_ref lib (DeleteAtom i) = uuid_id_to_string lib ''atom'' i"
| "object_deletion_target_object_ref lib (DeleteProcedure i) = uuid_id_to_string lib ''proc'' i"
| "object_deletion_target_object_ref lib (DeleteCoreMembership i) = uuid_id_to_string lib ''coremem'' i"

fun object_deletion_target_kind_name :: "object_deletion_target \<Rightarrow> string" where
  "object_deletion_target_kind_name (DeleteAtom _) = ''atom''"
| "object_deletion_target_kind_name (DeleteProcedure _) = ''procedure''"
| "object_deletion_target_kind_name (DeleteCoreMembership _) = ''core_membership''"

datatype object_deletion_phase = DeletionPending | DeletionPurged

datatype scope_purge_target = PurgeRepository (purge_repository_id: repository_id) (purge_repository_revision: u32)

definition scope_purge_target_repository_id :: "scope_purge_target \<Rightarrow> repository_id" where
  "scope_purge_target_repository_id t = (case t of PurgeRepository i _ \<Rightarrow> i)"

definition scope_purge_target_repository_revision :: "scope_purge_target \<Rightarrow> u32" where
  "scope_purge_target_repository_revision t = (case t of PurgeRepository _ r \<Rightarrow> r)"

datatype scope_purge_stage = StagePending | StageProjectionClosed | StagePhysicalDeleting | StagePurged

datatype repository_purge_blocker = RepositoryDerivedGlobalDependency | CrossScopeDependency | CommandEventCap

fun scope_purge_stage_rank :: "scope_purge_stage \<Rightarrow> u8" where
  "scope_purge_stage_rank StagePending = 0"
| "scope_purge_stage_rank StageProjectionClosed = 1"
| "scope_purge_stage_rank StagePhysicalDeleting = 2"
| "scope_purge_stage_rank StagePurged = 3"

record scope_purge_progress =
  sp_schema_version :: u16
  sp_target :: scope_purge_target
  sp_confirmation_frontier :: u64
  sp_deletion_generation :: u64
  sp_stage :: scope_purge_stage
  sp_next_ordinal :: u64
  sp_purge_job_id :: uuid
  sp_recorded_at_us :: i64
  sp_terminal_audit_ref :: "uuid option"

definition scope_purge_progress_validate :: "scope_purge_progress \<Rightarrow> bool" where
  "scope_purge_progress_validate s \<longleftrightarrow>
    sp_schema_version s = SCOPE_PURGE_PROGRESS_SCHEMA_VERSION
    \<and> scope_purge_target_repository_revision (sp_target s) > 0
    \<and> sp_deletion_generation s > 0
    \<and> sint (sp_recorded_at_us s) \<ge> 0
    \<and> (case sp_stage s of
         StagePending \<Rightarrow> sp_next_ordinal s = 0 \<and> sp_terminal_audit_ref s = None
       | StageProjectionClosed \<Rightarrow> sp_next_ordinal s = 0 \<and> sp_terminal_audit_ref s = None
       | StagePhysicalDeleting \<Rightarrow> sp_terminal_audit_ref s = None
       | StagePurged \<Rightarrow> sp_terminal_audit_ref s = Some (sp_purge_job_id s))"

fun purge_step_ok :: "scope_purge_stage \<Rightarrow> scope_purge_stage \<Rightarrow> u64 \<Rightarrow> u64 \<Rightarrow> bool" where
  "purge_step_ok StagePending StageProjectionClosed ordinal next_ordinal = (next_ordinal = 0)"
| "purge_step_ok StageProjectionClosed StagePhysicalDeleting ordinal next_ordinal = (next_ordinal > 0)"
| "purge_step_ok StageProjectionClosed StagePurged ordinal next_ordinal = (ordinal = 0 \<and> next_ordinal = 0)"
| "purge_step_ok StagePhysicalDeleting StagePhysicalDeleting ordinal next_ordinal = (next_ordinal > ordinal)"
| "purge_step_ok StagePhysicalDeleting StagePurged ordinal next_ordinal = (next_ordinal = ordinal)"
| "purge_step_ok _ _ _ _ = False"

definition scope_purge_progress_validate_successor :: "scope_purge_progress \<Rightarrow> scope_purge_progress \<Rightarrow> bool" where
  "scope_purge_progress_validate_successor s next \<longleftrightarrow>
    scope_purge_progress_validate s
    \<and> scope_purge_progress_validate next
    \<and> sp_target s = sp_target next
    \<and> sp_confirmation_frontier s = sp_confirmation_frontier next
    \<and> sp_deletion_generation s = sp_deletion_generation next
    \<and> sp_purge_job_id s = sp_purge_job_id next
    \<and> sint (sp_recorded_at_us s) \<le> sint (sp_recorded_at_us next)
    \<and> sp_stage s \<noteq> StagePurged
    \<and> purge_step_ok (sp_stage s) (sp_stage next) (sp_next_ordinal s) (sp_next_ordinal next)
    \<and> scope_purge_stage_rank (sp_stage next) \<ge> scope_purge_stage_rank (sp_stage s)"

section \<open>Deletion guards and the ledger\<close>

record object_deletion_guards =
  dg_semantic_kind_hash :: string
  dg_canonical_payload_hash :: string
  dg_scope_identity_hash :: string
  dg_source_derivation_guard_hash :: string

definition purge_digest :: "(bytes \<Rightarrow> bytes) \<Rightarrow> string \<Rightarrow> canonical_value \<Rightarrow> string option" where
  "purge_digest sha256_digest domain value = (case canonical_sha256 sha256_digest domain 1 value of
      Inl _ \<Rightarrow> None | Inr digest \<Rightarrow> Some (hex digest))"

definition digest_text :: "string \<Rightarrow> bool" where
  "digest_text value \<longleftrightarrow> length value = 64 \<and> (\<forall>c \<in> set value. is_ascii_hexdigit c)"

definition semantic_kind_value :: "object_deletion_target \<Rightarrow> string \<Rightarrow> canonical_value" where
  "semantic_kind_value target semantic_kind =
    CSequence [CString (object_deletion_target_kind_name target), CString semantic_kind]"

definition scope_identity_value :: "object_deletion_target \<Rightarrow> string \<Rightarrow> canonical_value" where
  "scope_identity_value target scope_identity =
    CSequence [CString (object_deletion_target_kind_name target), CString scope_identity]"

definition source_guard_value :: "object_deletion_target \<Rightarrow> string \<Rightarrow> string \<Rightarrow> string list \<Rightarrow> canonical_value" where
  "source_guard_value target semantic_kind scope_identity source_derivation_refs =
    CSequence [CString (object_deletion_target_kind_name target), CString semantic_kind, CString scope_identity,
      CSequence (map CString source_derivation_refs)]"

definition object_deletion_guards_derive ::
  "(bytes \<Rightarrow> bytes) \<Rightarrow> object_deletion_target \<Rightarrow> string \<Rightarrow> string list \<Rightarrow> string \<Rightarrow> string list
    \<Rightarrow> object_deletion_guards option" where
  "object_deletion_guards_derive sha256_digest target semantic_kind canonical_payloads scope_identity source_derivation_refs =
    (if semantic_kind = [] \<or> canonical_payloads = [] \<or> [] \<in> set canonical_payloads \<or> scope_identity = []
        \<or> \<not> strictly_sorted source_derivation_refs
     then None
     else Option.bind (purge_digest sha256_digest ''object_deletion_semantic_kind'' (semantic_kind_value target semantic_kind)) (\<lambda>kind.
       Option.bind (purge_digest sha256_digest ''object_deletion_canonical_payload''
         (CSequence (map CString canonical_payloads))) (\<lambda>payload.
       Option.bind (purge_digest sha256_digest ''object_deletion_scope_identity'' (scope_identity_value target scope_identity)) (\<lambda>scope.
       Option.bind (purge_digest sha256_digest ''object_deletion_source_derivation_guard''
         (source_guard_value target semantic_kind scope_identity source_derivation_refs)) (\<lambda>guard.
       Some \<lparr>dg_semantic_kind_hash = kind, dg_canonical_payload_hash = payload, dg_scope_identity_hash = scope,
         dg_source_derivation_guard_hash = guard\<rparr>)))))"

record object_deletion_ledger_event =
  le_schema_version :: u16
  le_target :: object_deletion_target
  le_phase :: object_deletion_phase
  le_exact_revision_ids :: "revision_id list"
  le_semantic_kind_hash :: string
  le_canonical_payload_hash :: string
  le_scope_identity_hash :: string
  le_source_derivation_guard_hash :: string
  le_default_retrieval_suppression_ref_hashes :: "string list"
  le_deletion_generation :: u64
  le_recorded_at_us :: i64
  le_purge_job_id :: uuid
  le_purge_job_audit_ref :: "string option"

definition object_deletion_ledger_event_validate :: "uuid_lib \<Rightarrow> object_deletion_ledger_event \<Rightarrow> bool" where
  "object_deletion_ledger_event_validate lib e \<longleftrightarrow>
    le_schema_version e = OBJECT_DELETION_LEDGER_SCHEMA_VERSION
    \<and> le_exact_revision_ids e \<noteq> []
    \<and> length (le_exact_revision_ids e) \<le> MAX_DELETED_REVISIONS
    \<and> strictly_sorted (le_exact_revision_ids e)
    \<and> digest_text (le_semantic_kind_hash e)
    \<and> digest_text (le_canonical_payload_hash e)
    \<and> digest_text (le_scope_identity_hash e)
    \<and> digest_text (le_source_derivation_guard_hash e)
    \<and> length (le_default_retrieval_suppression_ref_hashes e) \<le> MAX_SUPPRESSION_REFS
    \<and> strictly_sorted (le_default_retrieval_suppression_ref_hashes e)
    \<and> (\<forall>value \<in> set (le_default_retrieval_suppression_ref_hashes e). digest_text value)
    \<and> le_deletion_generation e > 0
    \<and> sint (le_recorded_at_us e) \<ge> 0
    \<and> (case le_phase e of
         DeletionPending \<Rightarrow> le_purge_job_audit_ref e = None
       | DeletionPurged \<Rightarrow> is_some_and (\<lambda>value. value = internal_uuid_id_to_string lib (le_purge_job_id e)) (le_purge_job_audit_ref e))"

definition object_deletion_ledger_event_validate_successor ::
  "uuid_lib \<Rightarrow> object_deletion_ledger_event \<Rightarrow> object_deletion_ledger_event \<Rightarrow> bool" where
  "object_deletion_ledger_event_validate_successor lib e next \<longleftrightarrow>
    object_deletion_ledger_event_validate lib e
    \<and> object_deletion_ledger_event_validate lib next
    \<and> le_phase e = DeletionPending
    \<and> le_phase next = DeletionPurged
    \<and> le_target e = le_target next
    \<and> le_exact_revision_ids e = le_exact_revision_ids next
    \<and> le_semantic_kind_hash e = le_semantic_kind_hash next
    \<and> le_canonical_payload_hash e = le_canonical_payload_hash next
    \<and> le_scope_identity_hash e = le_scope_identity_hash next
    \<and> le_source_derivation_guard_hash e = le_source_derivation_guard_hash next
    \<and> le_default_retrieval_suppression_ref_hashes e = le_default_retrieval_suppression_ref_hashes next
    \<and> le_deletion_generation e = le_deletion_generation next
    \<and> le_purge_job_id e = le_purge_job_id next
    \<and> sint (le_recorded_at_us e) \<le> sint (le_recorded_at_us next)"

section \<open>Authorising an object again\<close>

record object_reauthorization_ref =
  rr_target :: object_deletion_target
  rr_deletion_generation :: u64
  rr_purge_job_audit_ref :: string

definition object_reauthorization_ref_from_deletion ::
  "uuid_lib \<Rightarrow> object_deletion_ledger_event \<Rightarrow> object_reauthorization_ref option" where
  "object_reauthorization_ref_from_deletion lib deletion =
    (if \<not> object_deletion_ledger_event_validate lib deletion \<or> le_phase deletion \<noteq> DeletionPurged then None
     else (case le_purge_job_audit_ref deletion of None \<Rightarrow> None | Some audit \<Rightarrow>
       Some \<lparr>rr_target = le_target deletion, rr_deletion_generation = le_deletion_generation deletion,
         rr_purge_job_audit_ref = audit\<rparr>))"

definition object_reauthorization_ref_matches ::
  "uuid_lib \<Rightarrow> object_reauthorization_ref \<Rightarrow> object_deletion_ledger_event \<Rightarrow> bool" where
  "object_reauthorization_ref_matches lib r deletion \<longleftrightarrow> object_reauthorization_ref_from_deletion lib deletion = Some r"

record object_reauthorization_intent =
  ri_schema_version :: u16
  ri_deletion :: object_reauthorization_ref
  ri_reviewed_proposal_id :: revision_proposal_id
  ri_reviewed_proposal_revision_id :: revision_id
  ri_reviewed_fingerprint :: string

definition object_reauthorization_intent_validate ::
  "proposal_lib \<Rightarrow> object_reauthorization_intent \<Rightarrow> object_deletion_ledger_event \<Rightarrow> revision_proposal \<Rightarrow> bool" where
  "object_reauthorization_intent_validate L intent deletion reviewed \<longleftrightarrow>
    object_deletion_ledger_event_validate (pl_uuid L) deletion
    \<and> le_phase deletion = DeletionPurged
    \<and> object_reauthorization_ref_matches (pl_uuid L) (ri_deletion intent) deletion
    \<and> ri_schema_version intent = OBJECT_REAUTHORIZATION_INTENT_SCHEMA_VERSION
    \<and> ri_reviewed_proposal_id intent = rp_proposal_id reviewed
    \<and> ri_reviewed_proposal_revision_id intent = rp_proposal_revision_id reviewed
    \<and> digest_text (ri_reviewed_fingerprint intent)
    \<and> ri_reviewed_fingerprint intent = hex (rp_fingerprint reviewed)
    \<and> is_ok (revision_proposal_validate L reviewed)
    \<and> rp_operation reviewed = OpCreate
    \<and> rp_target_id reviewed = None
    \<and> rp_base_revision_id reviewed = None
    \<and> proposal_status_is_open (rp_status reviewed)"

definition object_reauthorization_intent_new ::
  "proposal_lib \<Rightarrow> object_deletion_ledger_event \<Rightarrow> revision_proposal \<Rightarrow> object_reauthorization_intent option" where
  "object_reauthorization_intent_new L deletion reviewed =
    (case object_reauthorization_ref_from_deletion (pl_uuid L) deletion of None \<Rightarrow> None | Some r \<Rightarrow>
      let intent = \<lparr>ri_schema_version = OBJECT_REAUTHORIZATION_INTENT_SCHEMA_VERSION, ri_deletion = r,
          ri_reviewed_proposal_id = rp_proposal_id reviewed,
          ri_reviewed_proposal_revision_id = rp_proposal_revision_id reviewed,
          ri_reviewed_fingerprint = hex (rp_fingerprint reviewed)\<rparr> in
      if object_reauthorization_intent_validate L intent deletion reviewed then Some intent else None)"

definition object_reauthorization_intent_canonical_toml ::
  "proposal_lib \<Rightarrow> (object_reauthorization_intent \<Rightarrow> string option) \<Rightarrow> object_reauthorization_intent
    \<Rightarrow> object_deletion_ledger_event \<Rightarrow> revision_proposal \<Rightarrow> string option" where
  "object_reauthorization_intent_canonical_toml L to_toml intent deletion reviewed =
    (if object_reauthorization_intent_validate L intent deletion reviewed then to_toml intent else None)"

definition object_reauthorization_intent_from_toml ::
  "(string \<Rightarrow> object_reauthorization_intent option) \<Rightarrow> string \<Rightarrow> object_reauthorization_intent option" where
  "object_reauthorization_intent_from_toml from_toml value = from_toml value"

section \<open>Purges move forward and end\<close>

definition purge_precedes :: "scope_purge_progress \<Rightarrow> scope_purge_progress \<Rightarrow> bool" where
  "purge_precedes s t \<longleftrightarrow> sp_target t = sp_target s \<and> sp_confirmation_frontier t = sp_confirmation_frontier s
    \<and> sp_deletion_generation t = sp_deletion_generation s \<and> sp_purge_job_id t = sp_purge_job_id s
    \<and> sint (sp_recorded_at_us s) \<le> sint (sp_recorded_at_us t) \<and> sp_stage s \<noteq> StagePurged
    \<and> scope_purge_stage_rank (sp_stage s) \<le> scope_purge_stage_rank (sp_stage t)
    \<and> sp_next_ordinal s \<le> sp_next_ordinal t"

lemma purge_precedes_transp: "transp purge_precedes"
  by (rule transpI) (auto simp: purge_precedes_def)

lemma purge_step_ordinal: "purge_step_ok a b m n \<Longrightarrow> a = StagePending \<longrightarrow> m = 0 \<Longrightarrow> a = StageProjectionClosed \<longrightarrow> m = 0 \<Longrightarrow> m \<le> n"
  by (cases "(a, b, m, n)" rule: purge_step_ok.cases) simp_all

lemma purge_successorD:
  assumes "scope_purge_progress_validate_successor s t"
  shows "purge_precedes s t" and "purge_step_ok (sp_stage s) (sp_stage t) (sp_next_ordinal s) (sp_next_ordinal t)"
    and "scope_purge_progress_validate t"
proof -
  show step: "purge_step_ok (sp_stage s) (sp_stage t) (sp_next_ordinal s) (sp_next_ordinal t)" and "scope_purge_progress_validate t"
    using assms by (simp_all add: scope_purge_progress_validate_successor_def)
  have "sp_next_ordinal s \<le> sp_next_ordinal t"
    using assms by (intro purge_step_ordinal [OF step]) (auto simp: scope_purge_progress_validate_successor_def scope_purge_progress_validate_def)
  with assms show "purge_precedes s t" by (simp add: purge_precedes_def scope_purge_progress_validate_successor_def)
qed

text \<open>
  The steps a purge can have taken when it reaches a record, counting from its beginning: at most
  one for each stage and one for each ordinal.
\<close>

definition purge_budget :: "scope_purge_progress \<Rightarrow> nat" where
  "purge_budget s = (case sp_stage s of StagePending \<Rightarrow> 1 | StageProjectionClosed \<Rightarrow> 2
    | StagePhysicalDeleting \<Rightarrow> 2 + unat (sp_next_ordinal s) | StagePurged \<Rightarrow> 3 + unat (sp_next_ordinal s))"

lemma purge_budget_step:
  assumes "scope_purge_progress_validate_successor s t"
  shows "purge_budget s < purge_budget t"
  using purge_successorD(2) [OF assms]
  by (cases "sp_stage s"; cases "sp_stage t") (simp_all add: purge_budget_def word_less_nat_alt)

lemma purge_budget_length:
  "windows_all scope_purge_progress_validate_successor history \<Longrightarrow> history \<noteq> [] \<Longrightarrow> length history \<le> purge_budget (last history)"
proof (induction history rule: rev_induct)
  case (snoc t history)
  show ?case
  proof (cases "history = []")
    case True
    then show ?thesis by (simp add: purge_budget_def split: scope_purge_stage.splits)
  next
    case False
    with snoc.prems have "windows_all scope_purge_progress_validate_successor history"
      "scope_purge_progress_validate_successor (last history) t" by (simp_all add: windows_all_append_single)
    with snoc.IH False purge_budget_step [of "last history" t] show ?thesis by fastforce
  qed
qed simp

text \<open>
  C31. A scope purge keeps its target, frontier, generation and job, never goes back in stage,
  ordinal or time, and nothing follows the purged stage. It ends: a history that has reached an
  ordinal has at most three records more than that ordinal.
\<close>
theorem scope_purge_progresses:
  assumes "windows_all scope_purge_progress_validate_successor history" and "history \<noteq> []"
  shows "length history \<le> unat (sp_next_ordinal (last history)) + 3
    \<and> (\<forall>i j. i < j \<and> j < length history \<longrightarrow> purge_precedes (history ! i) (history ! j))"
proof (intro conjI allI impI)
  have "purge_budget s \<le> unat (sp_next_ordinal s) + 3" for s
    by (simp add: purge_budget_def split: scope_purge_stage.splits)
  with purge_budget_length [OF assms] show "length history \<le> unat (sp_next_ordinal (last history)) + 3"
    using order_trans by blast
next
  fix i j assume "i < j \<and> j < length history"
  moreover have "windows_all purge_precedes history" using assms(1) by (rule windows_all_weaken) (rule purge_successorD(1))
  ultimately show "purge_precedes (history ! i) (history ! j)"
    using windows_all_sorted_wrt [OF purge_precedes_transp] sorted_wrt_nth_less by blast
qed

section \<open>What the guards identify\<close>

lemma hex_inject: "hex a = hex b \<longleftrightarrow> a = b"
  by (metis parse_hex_chunks_hex sum.inject(2))

lemma kind_name_inject: "object_deletion_target_kind_name t = object_deletion_target_kind_name t' \<longleftrightarrow>
    (is_DeleteAtom t \<longleftrightarrow> is_DeleteAtom t') \<and> (is_DeleteProcedure t \<longleftrightarrow> is_DeleteProcedure t')"
  by (cases t; cases t') simp_all

lemma purge_digest_Some_iff:
  "purge_digest H domain v = Some h \<longleftrightarrow> (\<exists>x. encode domain 1 v = Ok x \<and> h = hex (H x))"
  by (auto simp: purge_digest_def canonical_sha256_def result_simps split: sum.splits)

lemma CString_list_inject: "map CString xs = map CString ys \<longleftrightarrow> xs = ys"
  by (intro inj_map_eq_map injI) simp

text \<open>
  The guards of a deleted object identify it without its content: two deletions whose source
  guards agree deleted objects of the same family and semantic kind in the same scope, derived
  from the same sources, and two whose payload guards agree deleted the same payloads; or two
  different byte strings with the same digest have been found.
\<close>
theorem deletion_guards_identify:
  assumes "object_deletion_guards_derive H target kind payloads scope refs = Some g"
    and "object_deletion_guards_derive H target' kind' payloads' scope' refs' = Some g'"
  shows "(dg_source_derivation_guard_hash g = dg_source_derivation_guard_hash g' \<longrightarrow>
      object_deletion_target_kind_name target = object_deletion_target_kind_name target' \<and> kind = kind' \<and> scope = scope' \<and> refs = refs'
      \<or> (\<exists>x y. x \<noteq> y \<and> H x = H y))
    \<and> (dg_canonical_payload_hash g = dg_canonical_payload_hash g' \<longrightarrow> payloads = payloads' \<or> (\<exists>x y. x \<noteq> y \<and> H x = H y))"
proof -
  from assms obtain x y where xy:
    "encode ''object_deletion_source_derivation_guard'' 1 (source_guard_value target kind scope refs) = Ok x"
    "dg_source_derivation_guard_hash g = hex (H x)"
    "encode ''object_deletion_source_derivation_guard'' 1 (source_guard_value target' kind' scope' refs') = Ok y"
    "dg_source_derivation_guard_hash g' = hex (H y)"
    by (auto simp: object_deletion_guards_derive_def purge_digest_Some_iff bind_eq_Some_conv split: if_splits)
  from assms obtain u v where uv:
    "encode ''object_deletion_canonical_payload'' 1 (CSequence (map CString payloads)) = Ok u" "dg_canonical_payload_hash g = hex (H u)"
    "encode ''object_deletion_canonical_payload'' 1 (CSequence (map CString payloads')) = Ok v" "dg_canonical_payload_hash g' = hex (H v)"
    by (auto simp: object_deletion_guards_derive_def purge_digest_Some_iff bind_eq_Some_conv split: if_splits)
  have "object_deletion_target_kind_name target = object_deletion_target_kind_name target' \<and> kind = kind' \<and> scope = scope' \<and> refs = refs'"
    if "x = y"
    using encode_inject [OF xy(1) xy(3) [folded that]] by (simp add: source_guard_value_def comp_def CString_list_inject)
  moreover have "payloads = payloads'" if "u = v"
    using encode_inject [OF uv(1) uv(3) [folded that]] by (simp add: comp_def CString_list_inject)
  ultimately show ?thesis unfolding xy(2,4) uv(2,4) hex_inject by blast
qed

section \<open>Authorising again\<close>

lemma reauthorization_refD:
  assumes "object_reauthorization_ref_matches lib r d"
  shows "le_phase d = DeletionPurged" "le_purge_job_audit_ref d = Some (rr_purge_job_audit_ref r)"
    "le_target d = rr_target r" "le_deletion_generation d = rr_deletion_generation r"
  using assms by (auto simp: object_reauthorization_ref_matches_def object_reauthorization_ref_from_deletion_def
    split: option.splits if_splits)

text \<open>
  C28. An object is authorised again only after its deletion was completed and recorded with the
  audit of its purge job, and only by a valid open proposal to create it. An intent is bound to
  one deletion and one reviewed proposal: whatever else it validates against has the same
  target, generation and audit, and the same proposal revision with the same fingerprint.
\<close>
theorem reauthorization_bound:
  assumes "object_reauthorization_intent_new L deletion reviewed = Some intent"
  shows "object_reauthorization_intent_validate L intent deletion reviewed
    \<and> le_phase deletion = DeletionPurged
    \<and> le_purge_job_audit_ref deletion = Some (internal_uuid_id_to_string (pl_uuid L) (le_purge_job_id deletion))
    \<and> revision_proposal_validate L reviewed = Ok () \<and> rp_operation reviewed = OpCreate \<and> proposal_status_is_open (rp_status reviewed)
    \<and> (\<forall>d r. object_reauthorization_intent_validate L intent d r \<longrightarrow>
        le_target d = le_target deletion \<and> le_deletion_generation d = le_deletion_generation deletion
        \<and> le_purge_job_audit_ref d = le_purge_job_audit_ref deletion \<and> le_phase d = DeletionPurged
        \<and> rp_proposal_id r = rp_proposal_id reviewed \<and> rp_proposal_revision_id r = rp_proposal_revision_id reviewed
        \<and> rp_fingerprint r = rp_fingerprint reviewed)"
proof -
  have v: "object_reauthorization_intent_validate L intent deletion reviewed"
    using assms by (auto simp: object_reauthorization_intent_new_def Let_def split: option.splits if_splits)
  have ref: "le_purge_job_audit_ref d = Some (rr_purge_job_audit_ref (ri_deletion intent))"
    "le_target d = rr_target (ri_deletion intent)" "le_deletion_generation d = rr_deletion_generation (ri_deletion intent)"
    "le_phase d = DeletionPurged" "rp_proposal_id r = ri_reviewed_proposal_id intent"
    "rp_proposal_revision_id r = ri_reviewed_proposal_revision_id intent" "hex (rp_fingerprint r) = ri_reviewed_fingerprint intent"
    if "object_reauthorization_intent_validate L intent d r" for d r
    using that reauthorization_refD [of "pl_uuid L" "ri_deletion intent" d]
    by (simp_all add: object_reauthorization_intent_validate_def)
  have "le_purge_job_audit_ref deletion = Some (internal_uuid_id_to_string (pl_uuid L) (le_purge_job_id deletion))"
    "revision_proposal_validate L reviewed = Ok ()" "rp_operation reviewed = OpCreate" "proposal_status_is_open (rp_status reviewed)"
    using v by (auto simp: object_reauthorization_intent_validate_def object_deletion_ledger_event_validate_def is_ok_unit is_some_and_iff)
  moreover have "rp_fingerprint r = rp_fingerprint reviewed" if "object_reauthorization_intent_validate L intent d r" for d r
    using ref(7) [OF that] ref(7) [OF v] hex_inject by metis
  ultimately show ?thesis using v ref(1-6) [OF v] ref(1-6) by metis
qed

section \<open>Samples\<close>

text \<open>
  A purge that deletes one ordinal, and a completed deletion with an open proposal to create
  the deleted object again, under a digest of the width of SHA-256 and the reserved payload of a
  core membership.
\<close>

definition sample_purge :: "scope_purge_stage \<Rightarrow> u64 \<Rightarrow> i64 \<Rightarrow> uuid option \<Rightarrow> scope_purge_progress" where
  "sample_purge stage ordinal at audit = \<lparr>sp_schema_version = 1, sp_target = PurgeRepository 1 2, sp_confirmation_frontier = 3,
    sp_deletion_generation = 4, sp_stage = stage, sp_next_ordinal = ordinal, sp_purge_job_id = 5, sp_recorded_at_us = at,
    sp_terminal_audit_ref = audit\<rparr>"

definition sample_purge_lib :: proposal_lib where
  "sample_purge_lib = \<lparr>pl_sha256 = (\<lambda>_. replicate 32 0), pl_uuid = sample_uuid_lib, pl_payload_toml = (\<lambda>_. Some ''toml'')\<rparr>"

definition sample_create :: revision_proposal where
  "sample_create = \<lparr>rp_proposal_id = 1, rp_proposal_revision_id = 2, rp_parent_proposal_revision_id = None,
    rp_target_kind = TargetCoreMembership, rp_target_id = None, rp_base_revision_id = None, rp_operation = OpCreate,
    rp_payload = PayloadCoreMembership (CoreCreate 3 CoreScopeGlobal), rp_evidence_refs = [''e''], rp_source_cohort_refs = [''c''],
    rp_source_cohort_hash = replicate 32 0, rp_fingerprint = replicate 32 0, rp_eligibility = ManualRequired,
    rp_status = ProposalPending, rp_waiting_on = [], rp_review_reason = None, rp_created_by = CreatedByUser, rp_acceptance = None,
    rp_created_at_us = 5, rp_reviewed_at_us = None\<rparr>"

definition sample_digest_text :: string where
  "sample_digest_text = replicate 64 CHR ''0''"

definition sample_deletion :: object_deletion_ledger_event where
  "sample_deletion = 
    \<lparr>le_schema_version = 1, le_target = DeleteCoreMembership 1, le_phase = DeletionPurged, le_exact_revision_ids = [2],
    le_semantic_kind_hash = sample_digest_text, le_canonical_payload_hash = sample_digest_text, le_scope_identity_hash = sample_digest_text,
    le_source_derivation_guard_hash = sample_digest_text, le_default_retrieval_suppression_ref_hashes = [], le_deletion_generation = 1,
    le_recorded_at_us = 1, le_purge_job_id = 7, le_purge_job_audit_ref = Some (internal_uuid_id_to_string sample_uuid_lib 7)\<rparr>"

lemma sample_create_valid: "revision_proposal_validate sample_purge_lib sample_create = Ok ()"
proof -
  let ?fields = "proposal_fingerprint_value sample_uuid_lib sample_create ''toml''"
  obtain c where c: "encode ''revision_proposal_source_cohort_v1'' 1 (CSequence [CString ''c'']) = Ok c"
    using encode_ok [of "''revision_proposal_source_cohort_v1''" "CSequence [CString ''c'']" 1] by auto
  have "encodable ?fields" by (simp add: proposal_fingerprint_value_def sample_create_def)
  then obtain x where x: "encode ''revision_proposal_fingerprint_v1'' 1 ?fields = Ok x"
    using encode_ok [of "''revision_proposal_fingerprint_v1''" ?fields 1] by auto
  have "revision_proposal_recompute_source_cohort_hash sample_purge_lib sample_create = Ok (replicate 32 0)"
    by (simp only: revision_proposal_recompute_source_cohort_hash_def) (simp add: sample_purge_lib_def sample_create_def canonical_sha256_def c)
  moreover have "revision_proposal_recompute_fingerprint sample_purge_lib sample_create = Ok (replicate 32 0)"
    by (simp add: revision_proposal_recompute_fingerprint_def sample_purge_lib_def canonical_sha256_def x ok_or_def)
  ultimately show ?thesis
    by (simp add: revision_proposal_validate_def) (simp add: sample_proposal_checks sample_create_def)
qed

theorem scope_purge_progresses_witness:
  "purge_precedes (sample_purge StagePending 0 1 None) (sample_purge StagePurged 9 4 (Some 5))"
proof -
  let ?history = "[sample_purge StagePending 0 1 None, sample_purge StageProjectionClosed 0 2 None,
    sample_purge StagePhysicalDeleting 9 3 None, sample_purge StagePurged 9 4 (Some 5)]"
  have "windows_all scope_purge_progress_validate_successor ?history"
    by (simp add: scope_purge_progress_validate_successor_def scope_purge_progress_validate_def sample_purge_def
        SCOPE_PURGE_PROGRESS_SCHEMA_VERSION_def scope_purge_target_repository_revision_def)
  then have "\<forall>i j. i < j \<and> j < length ?history \<longrightarrow> purge_precedes (?history ! i) (?history ! j)"
    using scope_purge_progresses [of ?history] by blast
  from this [rule_format, of 0 3] show ?thesis by simp
qed

lemma sample_guards_derived:
  "object_deletion_guards_derive (\<lambda>b. b) (DeleteAtom i) ''rule'' [payload] ''global'' [''a''] \<noteq> None"
  if bound: "length payload < 10" and some_text: "payload \<noteq> []"
proof -
  have some: "\<exists>h. purge_digest (\<lambda>b. b) domain v = Some h" if "encodable v" "domain \<noteq> []" "length domain < 2 ^ 64" for domain v
    using encode_ok [of domain v 1] that by (auto simp: purge_digest_Some_iff)
  obtain kind where "purge_digest (\<lambda>b. b) ''object_deletion_semantic_kind'' (semantic_kind_value (DeleteAtom i) ''rule'') = Some kind"
    using some [of "semantic_kind_value (DeleteAtom i) ''rule''" "''object_deletion_semantic_kind''"] by (auto simp: semantic_kind_value_def)
  moreover obtain h where "purge_digest (\<lambda>b. b) ''object_deletion_canonical_payload'' (CSequence [CString payload]) = Some h"
    using some [of "CSequence [CString payload]" "''object_deletion_canonical_payload''"] bound by auto
  moreover obtain scope where
    "purge_digest (\<lambda>b. b) ''object_deletion_scope_identity'' (scope_identity_value (DeleteAtom i) ''global'') = Some scope"
    using some [of "scope_identity_value (DeleteAtom i) ''global''" "''object_deletion_scope_identity''"]
    by (auto simp: scope_identity_value_def)
  moreover obtain guard where "purge_digest (\<lambda>b. b) ''object_deletion_source_derivation_guard''
      (source_guard_value (DeleteAtom i) ''rule'' ''global'' [''a'']) = Some guard"
    using some [of "source_guard_value (DeleteAtom i) ''rule'' ''global'' [''a'']" "''object_deletion_source_derivation_guard''"]
    by (auto simp: source_guard_value_def)
  ultimately show ?thesis using some_text by (simp add: object_deletion_guards_derive_def sample_atom_text)
qed

theorem deletion_guards_identify_witness:
  "\<exists>g g'. object_deletion_guards_derive (\<lambda>b. b) (DeleteAtom 1) ''rule'' [''p''] ''global'' [''a''] = Some g
    \<and> object_deletion_guards_derive (\<lambda>b. b) (DeleteAtom 2) ''rule'' [''q''] ''global'' [''a''] = Some g'
    \<and> dg_canonical_payload_hash g \<noteq> dg_canonical_payload_hash g'"
proof -
  obtain g g' where g: "object_deletion_guards_derive (\<lambda>b. b) (DeleteAtom 1) ''rule'' [''p''] ''global'' [''a''] = Some g"
    "object_deletion_guards_derive (\<lambda>b. b) (DeleteAtom 2) ''rule'' [''q''] ''global'' [''a''] = Some g'"
    using sample_guards_derived [of "''p''" 1] sample_guards_derived [of "''q''" 2] by auto
  with deletion_guards_identify [OF g] show ?thesis by auto
qed

theorem reauthorization_bound_witness:
  "\<exists>intent. object_reauthorization_intent_new sample_purge_lib sample_deletion sample_create = Some intent
    \<and> object_reauthorization_intent_validate sample_purge_lib intent sample_deletion sample_create
    \<and> rr_deletion_generation (ri_deletion intent) = 1"
proof -
  have hex: "digest_text (hex (replicate 32 0))" by (simp add: digest_text_def hex_def eval_nat_numeral) (simp add: hex_byte_def is_ascii_hexdigit_def is_lower_hex_def hex_char_def is_ascii_digit_def)
  have "digest_text sample_digest_text" by (simp add: sample_digest_text_def digest_text_def is_ascii_hexdigit_def is_lower_hex_def is_ascii_digit_def)
  then have ev: "object_deletion_ledger_event_validate sample_uuid_lib sample_deletion"
    by (simp add: object_deletion_ledger_event_validate_def sample_deletion_def OBJECT_DELETION_LEDGER_SCHEMA_VERSION_def
        MAX_DELETED_REVISIONS_def is_some_and_iff strictly_sorted_def)
  define r where "r = \<lparr>rr_target = DeleteCoreMembership 1, rr_deletion_generation = 1,
    rr_purge_job_audit_ref = internal_uuid_id_to_string sample_uuid_lib 7\<rparr>"
  have r: "object_reauthorization_ref_from_deletion sample_uuid_lib sample_deletion = Some r"
    using ev by (simp add: object_reauthorization_ref_from_deletion_def) (simp add: sample_deletion_def r_def)
  have uuid: "pl_uuid sample_purge_lib = sample_uuid_lib" by (simp add: sample_purge_lib_def)
  have phase: "le_phase sample_deletion = DeletionPurged" by (simp add: sample_deletion_def)
  obtain intent where intent: "object_reauthorization_intent_new sample_purge_lib sample_deletion sample_create = Some intent"
    "ri_deletion intent = r"
    using hex by (simp add: object_reauthorization_intent_new_def uuid r object_reauthorization_intent_validate_def ev phase
      object_reauthorization_ref_matches_def sample_create_valid is_ok_unit)
      (simp add: sample_create_def proposal_status_is_open_def)
  from reauthorization_bound [OF intent(1)] intent show ?thesis by (auto simp: r_def)
qed

end
