(* ===== verification/Result_Evidence.thy ===== *)
theory Result_Evidence
  imports Atom
begin

text \<open>
  Results of experiment runs, \<open>evertrace-domain/src/semantic.rs\<close>: metrics, the receipts of the
  parser and the verifier, the result and its successors. A decimal is what \<open>str::parse::<f64>\<close>
  reads as a finite number, written out on the grammar of the standard library. The lemmas
  show that evidence is only added along a history and that a complete result was verified.
\<close>

definition RESULT_MAX_REFS :: nat where "RESULT_MAX_REFS = 256"
definition RESULT_MAX_TEXT :: nat where "RESULT_MAX_TEXT = 1024"

datatype result_scope = ResultScopeComplete | ResultScopePartial

datatype evidence_completeness = CompletenessComplete | CompletenessIncomplete | CompletenessUnavailable

fun evidence_completeness_as_str :: "evidence_completeness \<Rightarrow> string" where
  "evidence_completeness_as_str CompletenessComplete = ''complete''"
| "evidence_completeness_as_str CompletenessIncomplete = ''incomplete''"
| "evidence_completeness_as_str CompletenessUnavailable = ''unavailable''"

datatype parser_status = ParserParsed | ParserFailed
datatype parser_failure_code = MetricParseFailed | AmbiguousMetricInput
datatype verifier_status = VerifierPassed | VerifierFailed
datatype verifier_failure_code = DeterministicReparseMismatch
datatype result_failure = FailureParser parser_failure_code | FailureVerifier verifier_failure_code

section \<open>Decimals\<close>

definition result_valid_text :: "string \<Rightarrow> bool" where
  "result_valid_text value \<longleftrightarrow> value \<noteq> [] \<and> length value \<le> RESULT_MAX_TEXT \<and> \<not> has_control value"

text \<open>
  \<open>str::parse::<f64>\<close> reads an optional sign, digits with an optional point (at least one
  digit), and an optional exponent; \<open>inf\<close>, \<open>infinity\<close> and \<open>nan\<close> are read too, but are not finite.
  A number is read as infinite exactly when it is not below the midpoint between the largest
  finite \<open>f64\<close> and \<open>2 ^ 1024\<close>.
\<close>

definition digits_value :: "string \<Rightarrow> nat" where
  "digits_value ds = foldl (\<lambda>n c. n * 10 + (of_char c - 48)) 0 ds"

definition strip_sign :: "string \<Rightarrow> string" where
  "strip_sign s = (case s of c # cs \<Rightarrow> if c = CHR ''+'' \<or> c = CHR ''-'' then cs else s | [] \<Rightarrow> [])"

definition parse_exponent :: "string \<Rightarrow> int option" where
  "parse_exponent s = (case s of
      [] \<Rightarrow> Some 0
    | c # cs \<Rightarrow> let ds = strip_sign cs in
        if (c = CHR ''e'' \<or> c = CHR ''E'') \<and> ds \<noteq> [] \<and> list_all is_ascii_digit ds
        then Some (if ds \<noteq> cs \<and> hd cs = CHR ''-'' then - int (digits_value ds) else int (digits_value ds))
        else None)"

definition parse_decimal :: "string \<Rightarrow> (nat \<times> int) option" where
  "parse_decimal s =
    (let unsigned_text = strip_sign s; whole = takeWhile is_ascii_digit unsigned_text; rest = dropWhile is_ascii_digit unsigned_text;
         pointed = (rest \<noteq> [] \<and> hd rest = CHR ''.'');
         fraction = (if pointed then takeWhile is_ascii_digit (tl rest) else []);
         exponent_text = (if pointed then dropWhile is_ascii_digit (tl rest) else rest) in
     if whole = [] \<and> fraction = [] then None
     else map_option (\<lambda>e. (digits_value (whole @ fraction), e - int (length fraction))) (parse_exponent exponent_text))"

definition f64_finite :: "nat \<times> int \<Rightarrow> bool" where
  "f64_finite d \<longleftrightarrow> fst d * 10 ^ nat (snd d) < (2 ^ 1024 - 2 ^ 970) * 10 ^ nat (- snd d)"

definition valid_decimal :: "string \<Rightarrow> bool" where
  "valid_decimal value \<longleftrightarrow> result_valid_text value \<and> is_some_and f64_finite (parse_decimal value)"

definition canonical_refs :: "'a::linorder list \<Rightarrow> bool" where
  "canonical_refs values \<longleftrightarrow> length values \<le> RESULT_MAX_REFS \<and> windows_all (<) values"

definition strict_superset :: "'a list \<Rightarrow> 'a list \<Rightarrow> bool" where
  "strict_superset current next \<longleftrightarrow> length next > length current \<and> contains_all next current"

section \<open>Results\<close>

record metric_value =
  mv_decimal :: string
  mv_unit :: string
  mv_uncertainty_decimal :: "string option"

definition metric_value_validate :: "metric_value \<Rightarrow> (semantic_error, unit) result" where
  "metric_value_validate m =
    (if \<not> valid_decimal (mv_decimal m)
        \<or> \<not> result_valid_text (mv_unit m)
        \<or> is_some_and (\<lambda>value. \<not> valid_decimal value) (mv_uncertainty_decimal m)
     then Err InvalidResultEvidence else Ok ())"

record parser_receipt =
  rc_parser_version :: string
  rc_input_artifact_refs :: "work_artifact_id list"
  rc_input_cas_refs :: "digest_id list"
  rc_status :: parser_status
  rc_failure_code :: "parser_failure_code option"

definition parser_receipt_validate :: "parser_receipt \<Rightarrow> (semantic_error, unit) result" where
  "parser_receipt_validate r =
    (if \<not> result_valid_text (rc_parser_version r)
        \<or> rc_input_artifact_refs r = [] \<and> rc_input_cas_refs r = []
        \<or> \<not> canonical_refs (rc_input_artifact_refs r)
        \<or> \<not> canonical_refs (rc_input_cas_refs r)
        \<or> (rc_status r = ParserFailed) \<noteq> is_some (rc_failure_code r)
     then Err InvalidResultEvidence else Ok ())"

record verifier_receipt =
  vr_verifier_version :: string
  vr_status :: verifier_status
  vr_failure_code :: "verifier_failure_code option"

definition verifier_receipt_validate :: "verifier_receipt \<Rightarrow> (semantic_error, unit) result" where
  "verifier_receipt_validate r =
    (if \<not> result_valid_text (vr_verifier_version r)
        \<or> (vr_status r = VerifierFailed) \<noteq> is_some (vr_failure_code r)
     then Err InvalidResultEvidence else Ok ())"

record result_evidence =
  re_result_evidence_id :: uuid
  re_revision_id :: revision_id
  re_parent_revision_id :: "revision_id option"
  re_experiment_run_id :: experiment_run_id
  re_experiment_run_revision_id :: revision_id
  re_result_scope :: result_scope
  re_raw_artifact_refs :: "work_artifact_id list"
  re_raw_cas_refs :: "digest_id list"
  re_parsed_metric :: "metric_value option"
  re_parser_receipt :: parser_receipt
  re_verifier_receipt :: "verifier_receipt option"
  re_completeness :: evidence_completeness
  re_failure :: "result_failure option"
  re_created_at_us :: i64

definition expected_failure :: "result_evidence \<Rightarrow> result_failure option" where
  "expected_failure r = (case (rc_failure_code (re_parser_receipt r), Option.bind (re_verifier_receipt r) vr_failure_code) of
      (Some code, _) \<Rightarrow> Some (FailureParser code)
    | (None, Some code) \<Rightarrow> Some (FailureVerifier code)
    | (None, None) \<Rightarrow> None)"

definition result_evidence_validate :: "result_evidence \<Rightarrow> (semantic_error, unit) result" where
  "result_evidence_validate r =
    and_then (parser_receipt_validate (re_parser_receipt r)) (\<lambda>_.
    and_then (case re_verifier_receipt r of None \<Rightarrow> Ok () | Some receipt \<Rightarrow> verifier_receipt_validate receipt) (\<lambda>_.
    if sint (re_created_at_us r) < 0
       \<or> re_raw_artifact_refs r = [] \<and> re_raw_cas_refs r = []
       \<or> \<not> canonical_refs (re_raw_artifact_refs r)
       \<or> \<not> canonical_refs (re_raw_cas_refs r)
       \<or> rc_input_artifact_refs (re_parser_receipt r) \<noteq> re_raw_artifact_refs r
       \<or> rc_input_cas_refs (re_parser_receipt r) \<noteq> re_raw_cas_refs r
       \<or> rc_status (re_parser_receipt r) = ParserFailed \<and> is_some (re_parsed_metric r)
       \<or> rc_status (re_parser_receipt r) = ParserParsed \<and> re_parsed_metric r = None
       \<or> re_completeness r = CompletenessComplete
         \<and> \<not> (rc_status (re_parser_receipt r) = ParserParsed
             \<and> is_some (re_parsed_metric r)
             \<and> is_some_and (\<lambda>receipt. vr_status receipt = VerifierPassed) (re_verifier_receipt r))
       \<or> re_failure r \<noteq> expected_failure r
    then Err InvalidResultEvidence
    else (case re_parsed_metric r of None \<Rightarrow> Ok () | Some metric \<Rightarrow> metric_value_validate metric)))"

fun completeness_progress :: "evidence_completeness \<Rightarrow> evidence_completeness \<Rightarrow> bool" where
  "completeness_progress CompletenessIncomplete next = True"
| "completeness_progress CompletenessComplete next = (next = CompletenessComplete)"
| "completeness_progress CompletenessUnavailable next = (next = CompletenessUnavailable)"

definition raw_progress :: "result_evidence \<Rightarrow> result_evidence \<Rightarrow> bool" where
  "raw_progress r next \<longleftrightarrow> strict_superset (re_raw_artifact_refs r) (re_raw_artifact_refs next)
    \<or> strict_superset (re_raw_cas_refs r) (re_raw_cas_refs next)"

definition parser_compatible :: "parser_receipt \<Rightarrow> parser_receipt \<Rightarrow> bool" where
  "parser_compatible r next \<longleftrightarrow> rc_parser_version r = rc_parser_version next
    \<and> contains_all (rc_input_artifact_refs next) (rc_input_artifact_refs r)
    \<and> contains_all (rc_input_cas_refs next) (rc_input_cas_refs r)"

definition parser_progress :: "result_evidence \<Rightarrow> result_evidence \<Rightarrow> bool" where
  "parser_progress r next \<longleftrightarrow> raw_progress r next
    \<and> parser_compatible (re_parser_receipt r) (re_parser_receipt next)
    \<and> (rc_status (re_parser_receipt r) = rc_status (re_parser_receipt next)
       \<or> rc_status (re_parser_receipt r) = ParserFailed \<and> rc_status (re_parser_receipt next) = ParserParsed)"

definition evidence_progress :: "result_evidence \<Rightarrow> result_evidence \<Rightarrow> bool" where
  "evidence_progress r next \<longleftrightarrow> raw_progress r next
    \<or> re_verifier_receipt r \<noteq> re_verifier_receipt next
    \<or> re_completeness r \<noteq> re_completeness next
    \<or> re_failure r \<noteq> re_failure next"

definition result_evidence_validate_successor :: "result_evidence \<Rightarrow> result_evidence \<Rightarrow> (semantic_error, unit) result" where
  "result_evidence_validate_successor r next =
    and_then (result_evidence_validate next) (\<lambda>_.
    if re_result_evidence_id r \<noteq> re_result_evidence_id next
       \<or> re_parent_revision_id next \<noteq> Some (re_revision_id r)
       \<or> re_experiment_run_id r \<noteq> re_experiment_run_id next
       \<or> re_experiment_run_revision_id r \<noteq> re_experiment_run_revision_id next
       \<or> re_result_scope r \<noteq> re_result_scope next
       \<or> \<not> contains_all (re_raw_artifact_refs next) (re_raw_artifact_refs r)
       \<or> \<not> contains_all (re_raw_cas_refs next) (re_raw_cas_refs r)
       \<or> is_some (re_parsed_metric r) \<and> re_parsed_metric r \<noteq> re_parsed_metric next
       \<or> re_parser_receipt r \<noteq> re_parser_receipt next \<and> \<not> parser_progress r next
       \<or> sint (re_created_at_us next) < sint (re_created_at_us r)
       \<or> is_some (re_verifier_receipt r) \<and> re_verifier_receipt r \<noteq> re_verifier_receipt next \<and> \<not> raw_progress r next
       \<or> \<not> completeness_progress (re_completeness r) (re_completeness next)
       \<or> \<not> evidence_progress r next
    then Err InvalidResultSuccessor else Ok ())"

section \<open>Histories\<close>

definition result_measure :: "result_evidence \<Rightarrow> nat" where
  "result_measure r = 2 * (length (re_raw_artifact_refs r) + length (re_raw_cas_refs r))
    + (if re_verifier_receipt r = None then 0 else 1) + (if re_completeness r = CompletenessIncomplete then 0 else 1)"

text \<open>What a later revision of a result keeps of an earlier one.\<close>

definition evidence_kept :: "result_evidence \<Rightarrow> result_evidence \<Rightarrow> bool" where
  "evidence_kept r t \<longleftrightarrow> re_result_evidence_id r = re_result_evidence_id t
    \<and> re_experiment_run_revision_id r = re_experiment_run_revision_id t
    \<and> re_result_scope r = re_result_scope t
    \<and> contains_all (re_raw_artifact_refs t) (re_raw_artifact_refs r) \<and> contains_all (re_raw_cas_refs t) (re_raw_cas_refs r)
    \<and> (re_parsed_metric r = None \<or> re_parsed_metric t = re_parsed_metric r)
    \<and> completeness_progress (re_completeness r) (re_completeness t)"

lemma completeness_progress_trans:
  "completeness_progress a b \<Longrightarrow> completeness_progress b c \<Longrightarrow> completeness_progress a c"
  by (cases a; cases b) simp_all

lemma evidence_kept_transp: "transp evidence_kept"
proof (rule transpI)
  fix r s t assume "evidence_kept r s" "evidence_kept s t"
  then show "evidence_kept r t"
    using completeness_progress_trans [of "re_completeness r" "re_completeness s" "re_completeness t"]
    by (auto simp: evidence_kept_def contains_all_def)
qed

lemma result_validD:
  assumes "result_evidence_validate r = Ok ()"
  shows "canonical_refs (re_raw_artifact_refs r)" "canonical_refs (re_raw_cas_refs r)"
    "re_raw_artifact_refs r \<noteq> [] \<or> re_raw_cas_refs r \<noteq> []" "re_failure r = expected_failure r"
    "re_completeness r = CompletenessComplete \<Longrightarrow>
      is_some (re_parsed_metric r) \<and> is_some_and (\<lambda>receipt. vr_status receipt = VerifierPassed) (re_verifier_receipt r)"
  using assms by (auto simp: result_evidence_validate_def result_simps)

lemma canonical_refs_distinct: "canonical_refs xs \<Longrightarrow> distinct xs"
  by (simp add: canonical_refs_def windows_all_sorted_wrt strict_sorted_iff)

lemma contains_all_length: "contains_all next cur \<Longrightarrow> distinct cur \<Longrightarrow> length cur \<le> length next"
  by (metis card_length card_mono contains_all_def distinct_card dual_order.trans finite_set subsetI)

lemma result_successorD:
  assumes "result_evidence_validate_successor r t = Ok ()"
  shows "result_evidence_validate t = Ok ()" "evidence_kept r t" "evidence_progress r t"
    "raw_progress r t \<or> re_parser_receipt r = re_parser_receipt t"
    "raw_progress r t \<or> re_verifier_receipt r = None \<or> re_verifier_receipt r = re_verifier_receipt t"
  using assms by (auto simp: result_evidence_validate_successor_def result_simps evidence_kept_def parser_progress_def)

lemma result_measure_step:
  assumes "result_evidence_validate r = Ok ()" and "result_evidence_validate_successor r t = Ok ()"
  shows "result_measure r < result_measure t"
proof -
  note t = result_successorD [OF assms(2)] and v = result_validD [OF assms(1)] result_validD [OF result_successorD(1) [OF assms(2)]]
  have len: "length (re_raw_artifact_refs r) \<le> length (re_raw_artifact_refs t)" "length (re_raw_cas_refs r) \<le> length (re_raw_cas_refs t)"
    using t(2) v(1,2) contains_all_length canonical_refs_distinct by (auto simp: evidence_kept_def)
  have comp: "re_completeness t \<noteq> CompletenessIncomplete" if "re_completeness r \<noteq> CompletenessIncomplete"
    using t(2) that by (cases "re_completeness r") (auto simp: evidence_kept_def)
  show ?thesis
  proof (cases "raw_progress r t")
    case True
    with len have "length (re_raw_artifact_refs r) + length (re_raw_cas_refs r) < length (re_raw_artifact_refs t) + length (re_raw_cas_refs t)"
      by (auto simp: raw_progress_def strict_superset_def)
    with comp show ?thesis by (auto simp: result_measure_def)
  next
    case False
    have kept: "re_completeness r = CompletenessIncomplete \<or> re_completeness r = re_completeness t"
      using t(2) by (cases "re_completeness r") (auto simp: evidence_kept_def)
    have "re_failure r = re_failure t" if "re_verifier_receipt r = re_verifier_receipt t"
      using that t(4) False v(4,9) by (simp add: expected_failure_def)
    with False t(3,5) have "re_verifier_receipt r \<noteq> re_verifier_receipt t \<or> re_completeness r \<noteq> re_completeness t"
      by (auto simp: evidence_progress_def)
    with False t(5) kept len show ?thesis
      by (auto simp: result_measure_def)
  qed
qed

lemma result_measure_bounds:
  assumes "result_evidence_validate r = Ok ()"
  shows "2 \<le> result_measure r" "result_measure r \<le> 4 * RESULT_MAX_REFS + 2"
  using result_validD(1-3) [OF assms]
  by (auto simp: result_measure_def canonical_refs_def neq_Nil_conv)

lemma result_history_measure:
  assumes "windows_all (\<lambda>r t. result_evidence_validate_successor r t = Ok ()) history" and "history \<noteq> []"
    and "result_evidence_validate (hd history) = Ok ()"
  shows "result_evidence_validate (last history) = Ok () \<and> length history < result_measure (last history)"
  using assms
proof (induction history rule: rev_induct)
  case (snoc t history)
  show ?case
  proof (cases "history = []")
    case True
    with snoc.prems(3) result_measure_bounds(1) [of t] show ?thesis by simp
  next
    case False
    with snoc have "result_evidence_validate (last history) = Ok ()" "length history < result_measure (last history)"
      "result_evidence_validate_successor (last history) t = Ok ()" by (auto simp: windows_all_append_single)
    with result_measure_step [of "last history" t] result_successorD(1) [of "last history" t] show ?thesis by simp
  qed
qed simp

text \<open>
  C30. A result is revised at most 1024 times, and only by adding: raw references and
  the parsed metric are kept, completeness is settled once, and a complete result has a metric
  that a verifier passed.
\<close>
theorem result_history_bounded:
  assumes "windows_all (\<lambda>r t. result_evidence_validate_successor r t = Ok ()) history" and "history \<noteq> []"
    and "result_evidence_validate (hd history) = Ok ()"
  shows "length history \<le> 1025
    \<and> (\<forall>i j. i < j \<and> j < length history \<longrightarrow> evidence_kept (history ! i) (history ! j))
    \<and> (re_completeness (last history) = CompletenessComplete \<longrightarrow> is_some (re_parsed_metric (last history))
        \<and> is_some_and (\<lambda>receipt. vr_status receipt = VerifierPassed) (re_verifier_receipt (last history)))"
proof (intro conjI allI impI)
  note m = result_history_measure [OF assms]
  from m result_measure_bounds(2) [of "last history"] show "length history \<le> 1025" by (simp add: RESULT_MAX_REFS_def)
  from m result_validD(5) [of "last history"]
  show "is_some (re_parsed_metric (last history))" "is_some_and (\<lambda>receipt. vr_status receipt = VerifierPassed) (re_verifier_receipt (last history))"
    if "re_completeness (last history) = CompletenessComplete" using that by simp_all
next
  fix i j assume "i < j \<and> j < length history"
  moreover have "windows_all evidence_kept history" using assms(1) by (rule windows_all_weaken) (rule result_successorD(2))
  ultimately show "evidence_kept (history ! i) (history ! j)"
    using windows_all_sorted_wrt [OF evidence_kept_transp] sorted_wrt_nth_less by blast
qed

section \<open>Samples\<close>

definition sample_result :: "verifier_receipt option \<Rightarrow> evidence_completeness \<Rightarrow> revision_id \<Rightarrow> revision_id option \<Rightarrow> result_evidence" where
  "sample_result verifier completeness revision parent =
    \<lparr>re_result_evidence_id = 1, re_revision_id = revision, re_parent_revision_id = parent, re_experiment_run_id = 2,
    re_experiment_run_revision_id = 3, re_result_scope = ResultScopeComplete, re_raw_artifact_refs = [4], re_raw_cas_refs = [],
    re_parsed_metric = Some \<lparr>mv_decimal = ''-0.5e1'', mv_unit = ''s'', mv_uncertainty_decimal = None\<rparr>,
    re_parser_receipt = \<lparr>rc_parser_version = ''1'', rc_input_artifact_refs = [4], rc_input_cas_refs = [],
      rc_status = ParserParsed, rc_failure_code = None\<rparr>,
    re_verifier_receipt = verifier, re_completeness = completeness, re_failure = None, re_created_at_us = 5\<rparr>"

definition sample_verified :: "verifier_receipt option" where
  "sample_verified = Some \<lparr>vr_verifier_version = ''1'', vr_status = VerifierPassed, vr_failure_code = None\<rparr>"

lemma sample_decimal: "valid_decimal ''-0.5e1''"
  by (simp add: valid_decimal_def result_valid_text_def RESULT_MAX_TEXT_def has_control_def parse_decimal_def strip_sign_def
      is_ascii_digit_def parse_exponent_def digits_value_def f64_finite_def)

lemmas sample_result_checks = result_evidence_validate_def parser_receipt_validate_def verifier_receipt_validate_def
  metric_value_validate_def sample_decimal result_valid_text_def RESULT_MAX_TEXT_def RESULT_MAX_REFS_def has_control_def
  canonical_refs_def expected_failure_def sample_verified_def sample_result_def

lemma sample_result_valid: "result_evidence_validate (sample_result None CompletenessIncomplete 6 None) = Ok ()"
  by (simp add: sample_result_checks)

lemma sample_verified_valid: "result_evidence_validate (sample_result sample_verified CompletenessComplete 7 (Some 6)) = Ok ()"
  by (simp add: sample_result_checks)

theorem result_history_bounded_witness:
  "evidence_kept (sample_result None CompletenessIncomplete 6 None) (sample_result sample_verified CompletenessComplete 7 (Some 6))"
proof -
  let ?history = "[sample_result None CompletenessIncomplete 6 None, sample_result sample_verified CompletenessComplete 7 (Some 6)]"
  have "windows_all (\<lambda>r t. result_evidence_validate_successor r t = Ok ()) ?history"
    by (simp add: result_evidence_validate_successor_def sample_verified_valid)
      (simp add: sample_result_def contains_all_def evidence_progress_def)
  from result_history_bounded [OF this] sample_result_valid
  have "\<forall>i j. i < j \<and> j < length ?history \<longrightarrow> evidence_kept (?history ! i) (?history ! j)" by simp
  from this [rule_format, of 0 1] show ?thesis by simp
qed

end
