(* ===== verification/Procedure_Usage.thy ===== *)
theory Procedure_Usage
  imports Procedure Result_Evidence Attempt
begin

text \<open>
  How procedures are used, \<open>evertrace-domain/src/procedure/usage.rs\<close>: usage revisions from
  eligibility to outcome, the classification of negative facts, negative evidence and its
  reviews. The lemmas show that a usage only advances and never claims an outcome it has no
  alignment for, and that the classification of a fact is what the evidence validator accepts.
\<close>

definition USAGE_MAX_REFS :: nat where "USAGE_MAX_REFS = 64"
definition USAGE_MAX_TEXT :: nat where "USAGE_MAX_TEXT = 4096"

type_synonym procedure_usage_id = uuid
type_synonym procedure_negative_evidence_id = uuid

section \<open>Vocabulary\<close>

datatype procedure_correlation_state = CorrelationResolved | CorrelationAmbiguous | CorrelationConflicted

datatype procedure_truth = ProcFalse | ProcUnknown | ProcTrue | ProcAmbiguous

datatype procedure_usage_stage =
    UsageEligible
  | UsageRouted
  | UsageReturned
  | UsageClaimed
  | UsageAdopted
  | UsageStageAligned
  | UsageAction
  | UsageCompletion
  | UsageOutcome

instantiation procedure_usage_stage :: linorder
begin

fun rank_procedure_usage_stage :: "procedure_usage_stage \<Rightarrow> nat" where
  "rank_procedure_usage_stage UsageEligible = 0"
| "rank_procedure_usage_stage UsageRouted = 1"
| "rank_procedure_usage_stage UsageReturned = 2"
| "rank_procedure_usage_stage UsageClaimed = 3"
| "rank_procedure_usage_stage UsageAdopted = 4"
| "rank_procedure_usage_stage UsageStageAligned = 5"
| "rank_procedure_usage_stage UsageAction = 6"
| "rank_procedure_usage_stage UsageCompletion = 7"
| "rank_procedure_usage_stage UsageOutcome = 8"

definition less_eq_procedure_usage_stage :: "procedure_usage_stage \<Rightarrow> procedure_usage_stage \<Rightarrow> bool" where
  "less_eq_procedure_usage_stage a b \<longleftrightarrow> rank_procedure_usage_stage a \<le> rank_procedure_usage_stage b"

definition less_procedure_usage_stage :: "procedure_usage_stage \<Rightarrow> procedure_usage_stage \<Rightarrow> bool" where
  "less_procedure_usage_stage a b \<longleftrightarrow> rank_procedure_usage_stage a < rank_procedure_usage_stage b"

instance
proof
  fix x y :: procedure_usage_stage
  show "x \<le> y \<Longrightarrow> y \<le> x \<Longrightarrow> x = y"
    by (cases x; cases y) (simp_all add: less_eq_procedure_usage_stage_def)
qed (auto simp: less_eq_procedure_usage_stage_def less_procedure_usage_stage_def)

end

datatype procedure_usage_route_decision = RouteDefer | RouteApply

datatype procedure_usage_phase =
    PhaseBeforeEntry | PhaseAtEntry | PhaseInProgress | PhaseRecoverableDeviation | PhaseAlreadyCompleted | PhaseIncompatible

definition usage_valid_text :: "string \<Rightarrow> bool" where
  "usage_valid_text value \<longleftrightarrow> \<not> blank value \<and> length value \<le> USAGE_MAX_TEXT \<and> \<not> has_control value"

definition usage_valid_texts :: "string list \<Rightarrow> bool" where
  "usage_valid_texts values \<longleftrightarrow> length values \<le> USAGE_MAX_REFS \<and> windows_all (<) values
    \<and> (\<forall>value \<in> set values. usage_valid_text value)"

definition usage_valid_ids :: "'a::linorder list \<Rightarrow> bool" where
  "usage_valid_ids values \<longleftrightarrow> length values \<le> USAGE_MAX_REFS \<and> windows_all (<) values"

definition truth_progress :: "procedure_truth \<Rightarrow> procedure_truth \<Rightarrow> bool" where
  "truth_progress current next \<longleftrightarrow> current \<noteq> ProcTrue \<or> next = ProcTrue"

record procedure_local_context =
  lc_repository_id :: "repository_id option"
  lc_worktree_id :: "worktree_id option"
  lc_phase :: procedure_usage_phase
  lc_failure_signature :: "string option"

definition procedure_local_context_validate :: "procedure_local_context \<Rightarrow> bool" where
  "procedure_local_context_validate c \<longleftrightarrow>
    (lc_worktree_id c = None \<or> is_some (lc_repository_id c))
    \<and> (lc_failure_signature c = None \<or> is_some_and usage_valid_text (lc_failure_signature c))"

definition procedure_local_context_compatible :: "procedure_local_context \<Rightarrow> procedure_local_context \<Rightarrow> bool" where
  "procedure_local_context_compatible c d \<longleftrightarrow>
    lc_repository_id c = lc_repository_id d
    \<and> lc_worktree_id c = lc_worktree_id d
    \<and> lc_phase c = lc_phase d
    \<and> lc_failure_signature c = lc_failure_signature d"

section \<open>Usage revisions\<close>

record procedure_usage_revision =
  pu_procedure_usage_id :: procedure_usage_id
  pu_usage_revision_id :: revision_id
  pu_predecessor_revision_id :: "revision_id option"
  pu_revision_generation :: u32
  pu_procedure_revision_id :: revision_id
  pu_task_id :: task_id
  pu_workstream_id :: workstream_id
  pu_exposure_episode_revision_id :: revision_id
  pu_decision_boundary_ref :: string
  pu_route_decision :: procedure_usage_route_decision
  pu_stage :: procedure_usage_stage
  pu_attempt_ids :: "attempt_id list"
  pu_action_episode_revision_ids :: "revision_id list"
  pu_verification_episode_revision_ids :: "revision_id list"
  pu_action_operation_refs :: "operation_id list"
  pu_verification_operation_refs :: "operation_id list"
  pu_work_binding_revision_refs :: "work_binding_revision_id list"
  pu_scope_effect_refs :: "scope_effect_id list"
  pu_correlation_state :: procedure_correlation_state
  pu_eligible :: procedure_truth
  pu_action_aligned :: procedure_truth
  pu_verifier_aligned :: procedure_truth
  pu_outcome_supported :: procedure_truth
  pu_local_context :: procedure_local_context
  pu_source_watermark :: u64
  pu_evidence_refs :: "string list"
  pu_created_at_us :: i64

definition accepts_adopted_attempt :: "uuid_lib \<Rightarrow> procedure_usage_revision \<Rightarrow> attempt \<Rightarrow> bool" where
  "accepts_adopted_attempt lib u attempt \<longleftrightarrow>
    at_task_id attempt = pu_task_id u
    \<and> at_workstream_id attempt = pu_workstream_id u
    \<and> st_search_policy_ref (at_strategy_contract attempt) = Some (revision_id_to_string lib (pu_procedure_revision_id u))
    \<and> st_acceptance_boundary_ref (at_strategy_contract attempt) = pu_decision_boundary_ref u
    \<and> at_adoption_status attempt \<in> {AdoptionSelected, AdoptionPartiallyIntegrated, AdoptionIntegrated}"

definition procedure_usage_revision_validate :: "procedure_usage_revision \<Rightarrow> bool" where
  "procedure_usage_revision_validate u \<longleftrightarrow>
    pu_revision_generation u > 0
    \<and> (pu_revision_generation u = 1) = (pu_predecessor_revision_id u = None)
    \<and> usage_valid_text (pu_decision_boundary_ref u)
    \<and> pu_source_watermark u > 0
    \<and> sint (pu_created_at_us u) \<ge> 0
    \<and> procedure_local_context_validate (pu_local_context u)
    \<and> usage_valid_ids (pu_attempt_ids u)
    \<and> usage_valid_ids (pu_action_episode_revision_ids u)
    \<and> usage_valid_ids (pu_verification_episode_revision_ids u)
    \<and> usage_valid_ids (pu_action_operation_refs u)
    \<and> usage_valid_ids (pu_verification_operation_refs u)
    \<and> usage_valid_ids (pu_work_binding_revision_refs u)
    \<and> usage_valid_ids (pu_scope_effect_refs u)
    \<and> pu_evidence_refs u \<noteq> []
    \<and> usage_valid_texts (pu_evidence_refs u)
    \<and> (pu_route_decision u \<noteq> RouteDefer \<or> pu_stage u \<le> UsageReturned)
    \<and> (pu_stage u \<ge> UsageAction \<or> pu_action_aligned u \<noteq> ProcTrue)
    \<and> (pu_stage u \<ge> UsageCompletion \<or> pu_verifier_aligned u \<noteq> ProcTrue)
    \<and> (pu_stage u = UsageOutcome \<or> pu_outcome_supported u \<noteq> ProcTrue)
    \<and> (pu_outcome_supported u \<noteq> ProcTrue
       \<or> pu_action_aligned u = ProcTrue \<and> pu_verifier_aligned u = ProcTrue \<and> pu_correlation_state u = CorrelationResolved)"

definition usage_refs_retained :: "procedure_usage_revision \<Rightarrow> procedure_usage_revision \<Rightarrow> bool" where
  "usage_refs_retained u next \<longleftrightarrow>
    retains (pu_attempt_ids u) (pu_attempt_ids next)
    \<and> retains (pu_action_episode_revision_ids u) (pu_action_episode_revision_ids next)
    \<and> retains (pu_verification_episode_revision_ids u) (pu_verification_episode_revision_ids next)
    \<and> retains (pu_action_operation_refs u) (pu_action_operation_refs next)
    \<and> retains (pu_verification_operation_refs u) (pu_verification_operation_refs next)
    \<and> retains (pu_work_binding_revision_refs u) (pu_work_binding_revision_refs next)
    \<and> retains (pu_scope_effect_refs u) (pu_scope_effect_refs next)
    \<and> retains (pu_evidence_refs u) (pu_evidence_refs next)"

definition procedure_usage_revision_validate_successor :: "procedure_usage_revision \<Rightarrow> procedure_usage_revision \<Rightarrow> bool" where
  "procedure_usage_revision_validate_successor u next \<longleftrightarrow>
    procedure_usage_revision_validate u
    \<and> procedure_usage_revision_validate next
    \<and> pu_procedure_usage_id u = pu_procedure_usage_id next
    \<and> pu_procedure_revision_id u = pu_procedure_revision_id next
    \<and> pu_task_id u = pu_task_id next
    \<and> pu_workstream_id u = pu_workstream_id next
    \<and> pu_exposure_episode_revision_id u = pu_exposure_episode_revision_id next
    \<and> pu_decision_boundary_ref u = pu_decision_boundary_ref next
    \<and> pu_route_decision u = pu_route_decision next
    \<and> pu_local_context u = pu_local_context next
    \<and> pu_predecessor_revision_id next = Some (pu_usage_revision_id u)
    \<and> pu_revision_generation next = pu_revision_generation u + 1
    \<and> pu_stage next \<ge> pu_stage u
    \<and> pu_source_watermark next \<ge> pu_source_watermark u
    \<and> sint (pu_created_at_us next) \<ge> sint (pu_created_at_us u)
    \<and> usage_refs_retained u next
    \<and> truth_progress (pu_eligible u) (pu_eligible next)
    \<and> truth_progress (pu_action_aligned u) (pu_action_aligned next)
    \<and> truth_progress (pu_verifier_aligned u) (pu_verifier_aligned next)
    \<and> truth_progress (pu_outcome_supported u) (pu_outcome_supported next)"

section \<open>Negative evidence\<close>

datatype procedure_negative_level = NegIneffective | NegSuspectedHarm | NegConfirmedHarm

datatype procedure_attribution_basis =
    BasisNoAdditionalHarm | BasisResolvedLocalized | BasisContextUnbounded | BasisCrossContextRepeated
  | BasisReplayInvariantViolation

datatype procedure_negative_decision_source =
    SourceAttemptNoSupportedOutcome | SourceAdoptedAttemptFailed | SourceTypedReplayInvariant

record procedure_negative_classification =
  nc_level :: procedure_negative_level
  nc_attribution_basis :: procedure_attribution_basis
  nc_decision_source :: procedure_negative_decision_source
  nc_localized :: bool

datatype procedure_negative_fact = FactIneffective | FactAdoptedAttemptFailed | FactReplayInvariantViolation

definition derive_negative_classification :: "procedure_negative_fact \<Rightarrow> bool \<Rightarrow> bool \<Rightarrow> procedure_negative_classification" where
  "derive_negative_classification negative_fact localizable cross_context_repeated = (case negative_fact of
      FactReplayInvariantViolation \<Rightarrow> \<lparr>nc_level = NegConfirmedHarm, nc_attribution_basis = BasisReplayInvariantViolation,
        nc_decision_source = SourceTypedReplayInvariant, nc_localized = False\<rparr>
    | FactIneffective \<Rightarrow> \<lparr>nc_level = NegIneffective, nc_attribution_basis = BasisNoAdditionalHarm,
        nc_decision_source = SourceAttemptNoSupportedOutcome, nc_localized = False\<rparr>
    | FactAdoptedAttemptFailed \<Rightarrow>
        if cross_context_repeated
        then \<lparr>nc_level = NegSuspectedHarm, nc_attribution_basis = BasisCrossContextRepeated,
          nc_decision_source = SourceAdoptedAttemptFailed, nc_localized = False\<rparr>
        else if localizable
        then \<lparr>nc_level = NegSuspectedHarm, nc_attribution_basis = BasisResolvedLocalized,
          nc_decision_source = SourceAdoptedAttemptFailed, nc_localized = True\<rparr>
        else \<lparr>nc_level = NegSuspectedHarm, nc_attribution_basis = BasisContextUnbounded,
          nc_decision_source = SourceAdoptedAttemptFailed, nc_localized = False\<rparr>)"

datatype procedure_negative_review_status = ReviewPending | ReviewUpheld | ReviewDismissed | ReviewSuperseded

definition classify_negative_fact ::
  "procedure_usage_revision \<Rightarrow> attempt \<Rightarrow> string list \<Rightarrow> result_evidence list \<Rightarrow> procedure_negative_fact option" where
  "classify_negative_fact usage attempt evidence_refs results =
    (let has_verification = list_ex (\<lambda>reference. reference \<in> set (at_parent_verification_refs attempt)) evidence_refs;
         has_outcome = list_ex (\<lambda>reference. reference \<in> set (at_outcome_refs attempt)) evidence_refs;
         tied = (has_outcome \<and> list_all (\<lambda>reference. reference \<in> set (at_parent_verification_refs attempt)
           \<or> reference \<in> set (at_outcome_refs attempt)) evidence_refs) in
     if at_verification attempt = VerificationFailed \<and> has_verification \<and> tied
        \<and> list_all (\<lambda>r. re_failure r = Some (FailureVerifier DeterministicReparseMismatch)) results
     then Some FactReplayInvariantViolation
     else if at_verification attempt = VerificationPassed \<and> pu_outcome_supported usage \<noteq> ProcTrue \<and> tied
        \<and> list_all (\<lambda>r. re_failure r = None
            \<and> is_some_and (\<lambda>receipt. vr_status receipt = VerifierPassed) (re_verifier_receipt r)) results
     then Some FactIneffective
     else if at_verification attempt = VerificationFailed \<and> at_execution_status attempt \<noteq> ExecInterrupted
        \<and> is_some (at_failure_signature attempt) \<and> has_verification \<and> tied
        \<and> list_all (\<lambda>r. re_failure r = None
            \<and> (re_verifier_receipt r = None
               \<or> is_some_and (\<lambda>receipt. vr_status receipt \<noteq> VerifierPassed) (re_verifier_receipt r))) results
     then Some FactAdoptedAttemptFailed
     else None)"

record procedure_negative_evidence =
  ne_negative_evidence_id :: procedure_negative_evidence_id
  ne_level :: procedure_negative_level
  ne_procedure_revision_id :: revision_id
  ne_procedure_usage_id :: procedure_usage_id
  ne_task_id :: task_id
  ne_session_id :: string
  ne_evidence_refs :: "string list"
  ne_observed_effect :: string
  ne_expected_effect :: string
  ne_confounders :: "string list"
  ne_attribution_basis :: procedure_attribution_basis
  ne_decision_source :: procedure_negative_decision_source
  ne_local_context :: "procedure_local_context option"
  ne_created_at_us :: i64

definition procedure_negative_evidence_validate :: "procedure_negative_evidence \<Rightarrow> bool" where
  "procedure_negative_evidence_validate n \<longleftrightarrow>
    usage_valid_text (ne_session_id n)
    \<and> ne_evidence_refs n \<noteq> []
    \<and> usage_valid_texts (ne_evidence_refs n)
    \<and> usage_valid_text (ne_observed_effect n)
    \<and> usage_valid_text (ne_expected_effect n)
    \<and> usage_valid_texts (ne_confounders n)
    \<and> sint (ne_created_at_us n) \<ge> 0
    \<and> (ne_local_context n = None \<or> is_some_and procedure_local_context_validate (ne_local_context n))
    \<and> (case ne_level n of
         NegIneffective \<Rightarrow> ne_attribution_basis n = BasisNoAdditionalHarm
           \<and> ne_decision_source n = SourceAttemptNoSupportedOutcome
           \<and> ne_local_context n = None \<and> ne_confounders n = []
       | NegSuspectedHarm \<Rightarrow> ne_attribution_basis n \<in> {BasisResolvedLocalized, BasisContextUnbounded, BasisCrossContextRepeated}
           \<and> ne_decision_source n = SourceAdoptedAttemptFailed
           \<and> ne_confounders n \<noteq> []
       | NegConfirmedHarm \<Rightarrow> ne_attribution_basis n = BasisReplayInvariantViolation
           \<and> ne_decision_source n = SourceTypedReplayInvariant)
    \<and> (ne_attribution_basis n = BasisResolvedLocalized) = is_some (ne_local_context n)"

record procedure_negative_review_event =
  nr_review_event_id :: revision_id
  nr_negative_evidence_id :: procedure_negative_evidence_id
  nr_predecessor_review_event_id :: "revision_id option"
  nr_review_generation :: u32
  nr_status :: procedure_negative_review_status
  nr_successor_usage_revision_id :: "revision_id option"
  nr_reason :: string
  nr_evidence_refs :: "string list"
  nr_created_at_us :: i64

definition procedure_negative_review_event_validate :: "procedure_negative_review_event \<Rightarrow> bool" where
  "procedure_negative_review_event_validate r \<longleftrightarrow>
    nr_review_generation r > 0
    \<and> (nr_review_generation r = 1) = (nr_predecessor_review_event_id r = None)
    \<and> (nr_review_generation r \<noteq> 1 \<or> nr_status r = ReviewPending)
    \<and> (nr_status r = ReviewSuperseded) = is_some (nr_successor_usage_revision_id r)
    \<and> usage_valid_text (nr_reason r)
    \<and> nr_evidence_refs r \<noteq> []
    \<and> usage_valid_texts (nr_evidence_refs r)
    \<and> sint (nr_created_at_us r) \<ge> 0"

section \<open>Usage histories\<close>

lemma truth_progress_trans: "truth_progress a b \<Longrightarrow> truth_progress b c \<Longrightarrow> truth_progress a c"
  by (auto simp: truth_progress_def)

text \<open>What a later revision of a usage keeps of an earlier one.\<close>

definition usage_advances :: "procedure_usage_revision \<Rightarrow> procedure_usage_revision \<Rightarrow> bool" where
  "usage_advances u w \<longleftrightarrow> pu_procedure_usage_id u = pu_procedure_usage_id w
    \<and> pu_procedure_revision_id u = pu_procedure_revision_id w \<and> pu_task_id u = pu_task_id w
    \<and> pu_local_context u = pu_local_context w \<and> pu_route_decision u = pu_route_decision w
    \<and> pu_stage u \<le> pu_stage w \<and> pu_source_watermark u \<le> pu_source_watermark w
    \<and> sint (pu_created_at_us u) \<le> sint (pu_created_at_us w) \<and> usage_refs_retained u w
    \<and> truth_progress (pu_eligible u) (pu_eligible w) \<and> truth_progress (pu_action_aligned u) (pu_action_aligned w)
    \<and> truth_progress (pu_verifier_aligned u) (pu_verifier_aligned w)
    \<and> truth_progress (pu_outcome_supported u) (pu_outcome_supported w)"

lemma usage_advances_refl: "usage_advances u u"
  by (simp add: usage_advances_def usage_refs_retained_def retains_def truth_progress_def)

lemma usage_advances_trans: "usage_advances u v \<Longrightarrow> usage_advances v w \<Longrightarrow> usage_advances u w"
  by (simp add: usage_advances_def usage_refs_retained_def) (meson order_trans retains_trans truth_progress_trans)

lemma usage_successorD:
  assumes "procedure_usage_revision_validate_successor u w"
  shows "usage_advances u w" "procedure_usage_revision_validate w"
  using assms by (simp_all add: procedure_usage_revision_validate_successor_def usage_advances_def)

lemma usage_validD:
  assumes "procedure_usage_revision_validate u"
  shows "pu_route_decision u = RouteDefer \<Longrightarrow> pu_stage u \<le> UsageReturned"
    and "pu_outcome_supported u = ProcTrue \<Longrightarrow> pu_stage u = UsageOutcome \<and> pu_action_aligned u = ProcTrue
      \<and> pu_verifier_aligned u = ProcTrue \<and> pu_correlation_state u = CorrelationResolved"
  using assms by (auto simp: procedure_usage_revision_validate_def)

lemma deferred_never_acts: "s \<le> UsageReturned \<Longrightarrow> s \<in> {UsageEligible, UsageRouted, UsageReturned}"
  by (cases s) (simp_all add: less_eq_procedure_usage_stage_def)

text \<open>
  C29. A usage of a procedure only advances: its identity and context are fixed, no reference is
  dropped, the stage never goes back and what was established as true stays true. A usage that
  was deferred never gets past the stage of being returned: no later revision of it is claimed, adopted,
  acted on or completed, and none has an outcome, supported or not. A supported outcome has aligned actions and
  verification and a resolved correlation.
\<close>
theorem usage_history_advances:
  assumes "windows_all procedure_usage_revision_validate_successor history" and "i < j" and "j < length history"
  shows "usage_advances (history ! i) (history ! j)
    \<and> (pu_route_decision (history ! i) = RouteDefer \<longrightarrow>
        pu_stage (history ! j) \<in> {UsageEligible, UsageRouted, UsageReturned})
    \<and> (pu_outcome_supported (history ! j) = ProcTrue \<longrightarrow> pu_route_decision (history ! i) = RouteApply
        \<and> pu_stage (history ! j) = UsageOutcome \<and> pu_action_aligned (history ! j) = ProcTrue
        \<and> pu_verifier_aligned (history ! j) = ProcTrue \<and> pu_correlation_state (history ! j) = CorrelationResolved)"
proof -
  have "windows_all usage_advances history" using assms(1) by (rule windows_all_weaken) (rule usage_successorD(1))
  moreover have "transp usage_advances" by (rule transpI) (rule usage_advances_trans)
  ultimately have adv: "usage_advances (history ! i) (history ! j)"
    using assms(2,3) windows_all_sorted_wrt sorted_wrt_nth_less by blast
  obtain k where k: "j = Suc k" using assms(2) by (cases j) auto
  with assms have "procedure_usage_revision_validate_successor (history ! k) (history ! j)" using windows_all_nth by blast
  from usage_validD [OF usage_successorD(2) [OF this]] adv show ?thesis
    using deferred_never_acts [of "pu_stage (history ! j)"] by (cases "pu_route_decision (history ! i)") (auto simp: usage_advances_def)
qed

section \<open>Classification\<close>

definition negative_texts_ok :: "procedure_negative_evidence \<Rightarrow> bool" where
  "negative_texts_ok n \<longleftrightarrow> usage_valid_text (ne_session_id n) \<and> ne_evidence_refs n \<noteq> [] \<and> usage_valid_texts (ne_evidence_refs n)
    \<and> usage_valid_text (ne_observed_effect n) \<and> usage_valid_text (ne_expected_effect n) \<and> usage_valid_texts (ne_confounders n)
    \<and> sint (ne_created_at_us n) \<ge> 0
    \<and> (ne_local_context n = None \<or> is_some_and procedure_local_context_validate (ne_local_context n))"

lemma classification_range:
  "(\<exists>f l c. derive_negative_classification f l c = \<lparr>nc_level = level, nc_attribution_basis = basis, nc_decision_source = source, nc_localized = loc\<rparr>)
   \<longleftrightarrow> (loc \<longleftrightarrow> basis = BasisResolvedLocalized)
     \<and> (case level of
          NegIneffective \<Rightarrow> basis = BasisNoAdditionalHarm \<and> source = SourceAttemptNoSupportedOutcome
        | NegSuspectedHarm \<Rightarrow> basis \<in> {BasisResolvedLocalized, BasisContextUnbounded, BasisCrossContextRepeated}
            \<and> source = SourceAdoptedAttemptFailed
        | NegConfirmedHarm \<Rightarrow> basis = BasisReplayInvariantViolation \<and> source = SourceTypedReplayInvariant)"
  (is "?derived \<longleftrightarrow> ?allowed")
proof
  assume ?derived
  then obtain f l c where "derive_negative_classification f l c
      = \<lparr>nc_level = level, nc_attribution_basis = basis, nc_decision_source = source, nc_localized = loc\<rparr>" by blast
  then show ?allowed by (cases f) (auto simp: derive_negative_classification_def split: if_splits)
next
  have "derive_negative_classification (case level of NegIneffective \<Rightarrow> FactIneffective
        | NegSuspectedHarm \<Rightarrow> FactAdoptedAttemptFailed | NegConfirmedHarm \<Rightarrow> FactReplayInvariantViolation)
      (basis = BasisResolvedLocalized) (basis = BasisCrossContextRepeated)
      = \<lparr>nc_level = level, nc_attribution_basis = basis, nc_decision_source = source, nc_localized = loc\<rparr>" if ?allowed
    using that by (cases level) (auto simp: derive_negative_classification_def)
  then show "?allowed \<Longrightarrow> ?derived" by blast
qed

text \<open>
  The validator of negative evidence accepts exactly what a classification of a negative fact
  can produce: for evidence with well-formed texts, level, attribution basis, decision source and
  the presence of a local context are those of some classified fact, an ineffective procedure has no
  confounders and a suspected harm names at least one.
\<close>
theorem negative_evidence_classified:
  assumes "negative_texts_ok n"
  shows "procedure_negative_evidence_validate n \<longleftrightarrow>
    (\<exists>f l c. derive_negative_classification f l c = \<lparr>nc_level = ne_level n, nc_attribution_basis = ne_attribution_basis n,
        nc_decision_source = ne_decision_source n, nc_localized = (ne_local_context n \<noteq> None)\<rparr>)
    \<and> (ne_level n = NegIneffective \<longrightarrow> ne_confounders n = []) \<and> (ne_level n = NegSuspectedHarm \<longrightarrow> ne_confounders n \<noteq> [])"
  unfolding classification_range using assms
  by (cases "ne_level n") (auto simp: procedure_negative_evidence_validate_def negative_texts_ok_def)

section \<open>Samples\<close>

definition sample_context :: procedure_local_context where
  "sample_context = \<lparr>lc_repository_id = None, lc_worktree_id = None, lc_phase = PhaseAtEntry, lc_failure_signature = None\<rparr>"

definition sample_usage :: procedure_usage_revision where
  "sample_usage = \<lparr>pu_procedure_usage_id = 1, pu_usage_revision_id = 2, pu_predecessor_revision_id = None, pu_revision_generation = 1,
    pu_procedure_revision_id = 3, pu_task_id = 4, pu_workstream_id = 5, pu_exposure_episode_revision_id = 6,
    pu_decision_boundary_ref = ''b'', pu_route_decision = RouteApply, pu_stage = UsageReturned, pu_attempt_ids = [],
    pu_action_episode_revision_ids = [], pu_verification_episode_revision_ids = [], pu_action_operation_refs = [],
    pu_verification_operation_refs = [], pu_work_binding_revision_refs = [], pu_scope_effect_refs = [],
    pu_correlation_state = CorrelationResolved, pu_eligible = ProcTrue, pu_action_aligned = ProcFalse, pu_verifier_aligned = ProcUnknown,
    pu_outcome_supported = ProcUnknown, pu_local_context = sample_context, pu_source_watermark = 1, pu_evidence_refs = [''e''],
    pu_created_at_us = 1\<rparr>"

definition sample_outcome :: procedure_usage_revision where
  "sample_outcome = sample_usage\<lparr>pu_usage_revision_id := 7, pu_predecessor_revision_id := Some 2, pu_revision_generation := 2,
    pu_stage := UsageOutcome, pu_action_operation_refs := [8], pu_verification_operation_refs := [9], pu_action_aligned := ProcTrue,
    pu_verifier_aligned := ProcTrue, pu_outcome_supported := ProcTrue, pu_source_watermark := 2, pu_evidence_refs := [''e'', ''v'']\<rparr>"

definition sample_negative :: procedure_negative_evidence where
  "sample_negative = \<lparr>ne_negative_evidence_id = 10, ne_level = NegConfirmedHarm, ne_procedure_revision_id = 3, ne_procedure_usage_id = 1,
    ne_task_id = 4, ne_session_id = ''s'', ne_evidence_refs = [''e''], ne_observed_effect = ''o'', ne_expected_effect = ''x'',
    ne_confounders = [], ne_attribution_basis = BasisReplayInvariantViolation, ne_decision_source = SourceTypedReplayInvariant,
    ne_local_context = None, ne_created_at_us = 2\<rparr>"

lemmas sample_usage_checks = usage_valid_text_def usage_valid_texts_def usage_valid_ids_def USAGE_MAX_TEXT_def USAGE_MAX_REFS_def
  has_control_def blank_def less_eq_procedure_usage_stage_def procedure_local_context_validate_def

lemma sample_usage_valid: "procedure_usage_revision_validate sample_usage" "procedure_usage_revision_validate sample_outcome"
  by (simp_all add: procedure_usage_revision_validate_def sample_outcome_def sample_usage_def sample_context_def sample_usage_checks)

lemma sample_usage_follows: "procedure_usage_revision_validate_successor sample_usage sample_outcome"
  by (simp add: procedure_usage_revision_validate_successor_def sample_usage_valid)
    (simp add: sample_outcome_def sample_usage_def usage_refs_retained_def retains_def truth_progress_def
      less_eq_procedure_usage_stage_def)

theorem usage_history_advances_witness:
  "usage_advances sample_usage sample_outcome \<and> pu_correlation_state sample_outcome = CorrelationResolved"
  using usage_history_advances [of "[sample_usage, sample_outcome]" 0 1] sample_usage_follows by (simp add: sample_outcome_def)

theorem negative_evidence_classified_witness: "procedure_negative_evidence_validate sample_negative"
proof -
  have "negative_texts_ok sample_negative" by (simp add: negative_texts_ok_def sample_negative_def sample_usage_checks)
  from negative_evidence_classified [OF this] show ?thesis
    using classification_range [of NegConfirmedHarm BasisReplayInvariantViolation SourceTypedReplayInvariant False]
    by (simp add: sample_negative_def)
qed

end
