(* ===== verification/Procedure_Store.thy ===== *)
theory Procedure_Store
  imports Procedure_Usage Proposal Store_Base
begin

text \<open>
  The procedure tables of the store, \<open>evertrace-store/src/projections/procedure.rs\<close>: revisions,
  publication events, usages, negative evidence and its reviews, each with the sequence
  number of the event that recorded it; applying an event, restoring stored rows and
  rebuilding the current tables from them, forgetting deleted objects, the check of the
  procedure events of one command, and the rows. A journal payload of another kind is
  \<open>OtherProcedurePayload\<close>. A function that returns an error leaves the state unspecified in the source,
  where the caller drops it; here it returns only the error. The JSON writer is an argument. The effect
  rows (\<open>effect_rows\<close> and its helpers) are not modelled.

  The lemmas show that confirmed harm is final, that rebuilding stored rows gives back
  the tables they were stored from, what a stable promotion rests on, and that a review can never
  lift the hold of a stable procedure.
\<close>

section \<open>State\<close>

datatype negative_review_action_reason = ResolveAsIneffective | DismissAttribution | ConfirmHarm | SuccessorSuperseded

definition negative_review_action_reason_parse :: "string \<Rightarrow> negative_review_action_reason option" where
  "negative_review_action_reason_parse value =
    (if value = ''resolve_as_ineffective'' then Some ResolveAsIneffective
     else if value = ''dismiss_attribution'' then Some DismissAttribution
     else if value = ''confirm_harm'' then Some ConfirmHarm
     else if value = ''successor_replay_fixed'' then Some SuccessorSuperseded
     else None)"

datatype procedure_payload =
    ProcedureRevisionRecorded procedure_revision
  | ProcedureStateRecorded procedure_state_event
  | ProcedureUsageRecorded procedure_usage_revision
  | ProcedureNegativeEvidenceRecorded procedure_negative_evidence
  | ProcedureNegativeReviewRecorded procedure_negative_review_event
  | RevisionProposalRecorded revision_proposal
  | OtherProcedurePayload

record procedure_state =
  ps_procedures :: "(procedure_id, procedure_revision \<times> u64) btree_map"
  ps_revisions :: "(revision_id, procedure_revision \<times> u64) btree_map"
  ps_events :: "(revision_id, procedure_state_event \<times> u64) btree_map"
  ps_current_publication :: "(revision_id, procedure_state_event \<times> u64) btree_map"
  ps_usage_revisions :: "(revision_id, procedure_usage_revision \<times> u64) btree_map"
  ps_usages :: "(procedure_usage_id, procedure_usage_revision \<times> u64) btree_map"
  ps_negative_evidence :: "(procedure_negative_evidence_id, procedure_negative_evidence \<times> u64) btree_map"
  ps_negative_evidence_by_revision :: "(revision_id, procedure_negative_evidence_id list) btree_map"
  ps_negative_reviews :: "(revision_id, procedure_negative_review_event \<times> u64) btree_map"
  ps_current_negative_reviews :: "(procedure_negative_evidence_id, procedure_negative_review_event \<times> u64) btree_map"

definition procedure_state_default :: procedure_state where
  "procedure_state_default = \<lparr>ps_procedures = [], ps_revisions = [], ps_events = [], ps_current_publication = [],
    ps_usage_revisions = [], ps_usages = [], ps_negative_evidence = [], ps_negative_evidence_by_revision = [],
    ps_negative_reviews = [], ps_current_negative_reviews = []\<rparr>"

text \<open>\<open>BTreeMap::retain\<close>, \<open>keys()\<close>, and \<open>entry(k).or_default().insert(x)\<close> on a map to sets.\<close>

definition btm_retain :: "('k \<Rightarrow> 'v \<Rightarrow> bool) \<Rightarrow> ('k, 'v) btree_map \<Rightarrow> ('k, 'v) btree_map" where
  "btm_retain P m = filter (\<lambda>(k, v). P k v) m"

definition btm_keys :: "('k, 'v) btree_map \<Rightarrow> 'k list" where
  "btm_keys m = map fst m"

definition entry_insert :: "'k::linorder \<Rightarrow> 'a::linorder \<Rightarrow> ('k, 'a list) btree_map \<Rightarrow> ('k, 'a list) btree_map" where
  "entry_insert k x m = btm_insert k (btree_set (x # (case btm_get m k of None \<Rightarrow> [] | Some xs \<Rightarrow> xs))) m"

text \<open>\<open>max_by_key\<close>: the last of the elements with the greatest key.\<close>

definition max_by_key :: "('a \<Rightarrow> 'k::linorder) \<Rightarrow> 'a list \<Rightarrow> 'a option" where
  "max_by_key f xs = fold (\<lambda>x best. case best of None \<Rightarrow> Some x | Some b \<Rightarrow> if f b \<le> f x then Some x else Some b) xs None"

section \<open>Lookups\<close>

definition ps_revision :: "procedure_state \<Rightarrow> revision_id \<Rightarrow> procedure_revision option" where
  "ps_revision s i = map_option fst (btm_get (ps_revisions s) i)"

definition ps_revision_entry :: "procedure_state \<Rightarrow> revision_id \<Rightarrow> (procedure_revision \<times> u64) option" where
  "ps_revision_entry s i = btm_get (ps_revisions s) i"

definition ps_publication :: "procedure_state \<Rightarrow> revision_id \<Rightarrow> procedure_publication_state option" where
  "ps_publication s i = map_option (\<lambda>(value, _). pv_to_state value) (btm_get (ps_current_publication s) i)"

definition ps_usage :: "procedure_state \<Rightarrow> procedure_usage_id \<Rightarrow> procedure_usage_revision option" where
  "ps_usage s i = map_option fst (btm_get (ps_usages s) i)"

definition ps_negative_entry :: "procedure_state \<Rightarrow> procedure_negative_evidence_id \<Rightarrow> (procedure_negative_evidence \<times> u64) option" where
  "ps_negative_entry s i = btm_get (ps_negative_evidence s) i"

definition ps_negative_entries :: "procedure_state \<Rightarrow> (procedure_negative_evidence \<times> u64) list" where
  "ps_negative_entries s = btm_values (ps_negative_evidence s)"

definition ps_usage_revision :: "procedure_state \<Rightarrow> revision_id \<Rightarrow> procedure_usage_revision option" where
  "ps_usage_revision s i = map_option fst (btm_get (ps_usage_revisions s) i)"

definition ps_usage_revision_entries :: "procedure_state \<Rightarrow> (procedure_usage_revision \<times> u64) list" where
  "ps_usage_revision_entries s = btm_values (ps_usage_revisions s)"

definition ps_negative_review_entries :: "procedure_state \<Rightarrow> (procedure_negative_review_event \<times> u64) list" where
  "ps_negative_review_entries s = btm_values (ps_negative_reviews s)"

definition ps_state_event_entries :: "procedure_state \<Rightarrow> (procedure_state_event \<times> u64) list" where
  "ps_state_event_entries s = btm_values (ps_events s)"

definition ps_current_revision :: "procedure_state \<Rightarrow> procedure_id \<Rightarrow> procedure_revision option" where
  "ps_current_revision s i = map_option fst (btm_get (ps_procedures s) i)"

definition ps_current_revision_by_id :: "procedure_state \<Rightarrow> revision_id \<Rightarrow> procedure_revision option" where
  "ps_current_revision_by_id s i = map_option fst (btm_get (ps_revisions s) i)"

definition ps_revisions_for_deletion :: "procedure_state \<Rightarrow> procedure_id \<Rightarrow> procedure_revision list" where
  "ps_revisions_for_deletion s i = filter (\<lambda>revision. pr_procedure_id revision = i) (map fst (btm_values (ps_revisions s)))"

definition ps_all_revisions :: "procedure_state \<Rightarrow> procedure_revision list" where
  "ps_all_revisions s = map fst (btm_values (ps_revisions s))"

definition ps_revision_refs :: "procedure_state \<Rightarrow> revision_id list" where
  "ps_revision_refs s = btm_keys (ps_revisions s)"

definition ps_effect_usages :: "procedure_state \<Rightarrow> (procedure_usage_revision \<times> u64) list" where
  "ps_effect_usages s = btm_values (ps_usages s)"

definition ps_contains_revision_ref :: "uuid_lib \<Rightarrow> procedure_state \<Rightarrow> string \<Rightarrow> bool" where
  "ps_contains_revision_ref lib s reference = (case revision_id_from_str lib reference of
      Inl _ \<Rightarrow> False | Inr i \<Rightarrow> btm_contains_key (ps_revisions s) i)"

definition ps_is_current_revision_id :: "procedure_state \<Rightarrow> revision_id \<Rightarrow> bool" where
  "ps_is_current_revision_id s i \<longleftrightarrow> is_some_and (\<lambda>(revision, _).
      is_some_and (\<lambda>current. pr_revision_id current = i) (ps_current_revision s (pr_procedure_id revision)))
    (btm_get (ps_revisions s) i)"

definition controlled_usage_anchor ::
  "procedure_state \<Rightarrow> revision_id \<Rightarrow> attempt_id \<Rightarrow> (store_error, procedure_usage_revision option) result" where
  "controlled_usage_anchor s procedure_revision_id attempt_id =
    (case filter (\<lambda>usage. pu_procedure_revision_id usage = procedure_revision_id \<and> attempt_id \<in> set (pu_attempt_ids usage))
        (map fst (btm_values (ps_usages s))) of
      [] \<Rightarrow> Ok None | [usage] \<Rightarrow> Ok (Some usage) | _ \<Rightarrow> Err StoreCorrupt)"

text \<open>Body of the loop of \<open>effect_negative_usage_state\<close>.\<close>

definition negative_usage_step ::
  "procedure_state \<Rightarrow> procedure_negative_evidence_id \<times> procedure_negative_review_event \<times> u64
    \<Rightarrow> procedure_usage_id list \<times> (procedure_usage_id, u64) btree_map
    \<Rightarrow> procedure_usage_id list \<times> (procedure_usage_id, u64) btree_map" where
  "negative_usage_step s item acc = (case item of (negative_id, review, review_seq) \<Rightarrow>
     case btm_get (ps_negative_evidence s) negative_id of None \<Rightarrow> acc
     | Some (negative, negative_seq) \<Rightarrow>
       let usage = ne_procedure_usage_id negative; latest = max negative_seq review_seq in
       (if nr_status review \<in> {ReviewPending, ReviewUpheld} then btree_set (usage # fst acc) else fst acc,
        btm_insert usage (case btm_get (snd acc) usage of None \<Rightarrow> latest | Some watermark \<Rightarrow> max watermark latest) (snd acc)))"

definition effect_negative_usage_state :: "procedure_state \<Rightarrow> procedure_usage_id list \<times> (procedure_usage_id, u64) btree_map" where
  "effect_negative_usage_state s = fold (negative_usage_step s) (ps_current_negative_reviews s) ([], [])"

section \<open>Harm\<close>

definition review_active :: "procedure_state \<Rightarrow> procedure_negative_evidence_id \<Rightarrow> bool" where
  "review_active s i \<longleftrightarrow> is_some_and (\<lambda>(review, _). nr_status review \<in> {ReviewPending, ReviewUpheld})
    (btm_get (ps_current_negative_reviews s) i)"

definition negatives_of :: "procedure_state \<Rightarrow> revision_id \<Rightarrow> procedure_negative_evidence_id list" where
  "negatives_of s r = (case btm_get (ps_negative_evidence_by_revision s) r of None \<Rightarrow> [] | Some ids \<Rightarrow> ids)"

definition has_active_harm :: "procedure_state \<Rightarrow> revision_id \<Rightarrow> bool" where
  "has_active_harm s r \<longleftrightarrow> list_ex (\<lambda>i. review_active s i
    \<and> is_some_and (\<lambda>(negative, _). ne_level negative \<noteq> NegIneffective) (btm_get (ps_negative_evidence s) i)) (negatives_of s r)"

definition local_quarantined :: "procedure_state \<Rightarrow> revision_id \<Rightarrow> procedure_local_context \<Rightarrow> bool" where
  "local_quarantined s r local_context \<longleftrightarrow> list_ex (\<lambda>i. review_active s i
    \<and> is_some_and (\<lambda>(negative, _). ne_level negative = NegSuspectedHarm
        \<and> is_some_and (\<lambda>l. procedure_local_context_compatible l local_context) (ne_local_context negative))
      (btm_get (ps_negative_evidence s) i)) (negatives_of s r)"

definition has_usage_anchor :: "procedure_state \<Rightarrow> procedure_usage_revision \<Rightarrow> bool" where
  "has_usage_anchor s value \<longleftrightarrow> list_ex (\<lambda>(current, _).
      pu_procedure_usage_id current \<noteq> pu_procedure_usage_id value
      \<and> pu_procedure_revision_id current = pu_procedure_revision_id value
      \<and> pu_task_id current = pu_task_id value
      \<and> pu_exposure_episode_revision_id current = pu_exposure_episode_revision_id value
      \<and> pu_decision_boundary_ref current = pu_decision_boundary_ref value) (btm_values (ps_usages s))"

section \<open>Deletion\<close>

definition deleted_negative_ids :: "procedure_state \<Rightarrow> revision_id set \<Rightarrow> procedure_negative_evidence_id list" where
  "deleted_negative_ids s revisions =
    (if revisions = {} then []
     else btree_set (map (ne_negative_evidence_id \<circ> fst)
       (filter (\<lambda>(value, _). ne_procedure_revision_id value \<in> revisions) (btm_values (ps_negative_evidence s)))))"

definition procedure_state_forget :: "procedure_state \<Rightarrow> procedure_id set \<Rightarrow> revision_id set \<Rightarrow> procedure_state" where
  "procedure_state_forget s procedure_ids revision_ids =
    (let negative_ids = set (deleted_negative_ids s revision_ids) in
     s\<lparr>ps_procedures := btm_retain (\<lambda>i _. i \<notin> procedure_ids) (ps_procedures s),
       ps_revisions := btm_retain (\<lambda>i _. i \<notin> revision_ids) (ps_revisions s),
       ps_events := btm_retain (\<lambda>_ (event, _). pv_procedure_revision_id event \<notin> revision_ids) (ps_events s),
       ps_current_publication := btm_retain (\<lambda>i _. i \<notin> revision_ids) (ps_current_publication s),
       ps_usage_revisions := btm_retain (\<lambda>_ (usage, _). pu_procedure_revision_id usage \<notin> revision_ids) (ps_usage_revisions s),
       ps_usages := btm_retain (\<lambda>_ (usage, _). pu_procedure_revision_id usage \<notin> revision_ids) (ps_usages s),
       ps_negative_evidence := btm_retain (\<lambda>i _. i \<notin> negative_ids) (ps_negative_evidence s),
       ps_negative_evidence_by_revision := btm_retain (\<lambda>i _. i \<notin> revision_ids) (ps_negative_evidence_by_revision s),
       ps_negative_reviews := btm_retain (\<lambda>_ (review, _). nr_negative_evidence_id review \<notin> negative_ids) (ps_negative_reviews s),
       ps_current_negative_reviews := btm_retain (\<lambda>i _. i \<notin> negative_ids) (ps_current_negative_reviews s)\<rparr>)"

record object_deletion_procedure_impact =
  di_current_state :: procedure_state_event
  di_trigger_refs :: "string list"

definition impact_of ::
  "uuid_lib \<Rightarrow> procedure_state \<Rightarrow> revision_id set \<Rightarrow> procedure_revision \<Rightarrow> object_deletion_procedure_impact option" where
  "impact_of lib s revision_ids revision =
    (if pr_revision_id revision \<in> revision_ids then None
     else let trigger_refs = map (revision_id_to_string lib)
         (filter (\<lambda>support. support \<in> revision_ids) (pd_support_revision_refs (pr_draft revision))) in
       if trigger_refs = [] then None
       else (case btm_get (ps_current_publication s) (pr_revision_id revision) of None \<Rightarrow> None
         | Some (current_state, _) \<Rightarrow>
           if pv_to_state current_state \<in> {PubActiveProbationary, PubActiveStable}
           then Some \<lparr>di_current_state = current_state, di_trigger_refs = trigger_refs\<rparr> else None))"

definition deletion_procedure_impacts ::
  "uuid_lib \<Rightarrow> procedure_state \<Rightarrow> revision_id set \<Rightarrow> object_deletion_procedure_impact list" where
  "deletion_procedure_impacts lib s revision_ids =
    sort_key (\<lambda>impact. pv_procedure_revision_id (di_current_state impact))
      (List.map_filter (\<lambda>(revision, _). impact_of lib s revision_ids revision) (btm_values (ps_procedures s)))"

fun payload_state_event :: "procedure_payload \<Rightarrow> procedure_state_event option" where
  "payload_state_event (ProcedureStateRecorded event) = Some event"
| "payload_state_event _ = None"

fun collect_state_events ::
  "store_error \<Rightarrow> (revision_id, procedure_state_event) btree_map \<Rightarrow> procedure_state_event list
    \<Rightarrow> (store_error, (revision_id, procedure_state_event) btree_map) result" where
  "collect_state_events e actual [] = Ok actual"
| "collect_state_events e actual (event # events) =
    (if btm_contains_key actual (pv_procedure_revision_id event) then Err e
     else collect_state_events e (btm_insert (pv_procedure_revision_id event) event actual) events)"

definition hold_matches ::
  "procedure_state \<Rightarrow> i64 \<Rightarrow> object_deletion_procedure_impact \<Rightarrow> procedure_state_event \<Rightarrow> bool" where
  "hold_matches s occurred_at_us impact event \<longleftrightarrow>
    (let current = di_current_state impact in
     is_some_and (\<lambda>(state, _). state = current) (btm_get (ps_current_publication s) (pv_procedure_revision_id current))
     \<and> pv_state_event_id event \<noteq> pv_state_event_id current
     \<and> pv_procedure_revision_id event = pv_procedure_revision_id current
     \<and> pv_from_state event = Some (pv_to_state current)
     \<and> pv_to_state event = PubReviewHold
     \<and> pv_reason event = ReasonSupportPending
     \<and> pv_resume_state event = Some (pv_to_state current)
     \<and> pv_evidence_refs event = di_trigger_refs impact
     \<and> pv_created_at_us event = occurred_at_us
     \<and> is_ok (procedure_state_event_validate event))"

definition validate_deletion_review_holds ::
  "procedure_state \<Rightarrow> object_deletion_procedure_impact list \<Rightarrow> i64 \<Rightarrow> procedure_payload list \<Rightarrow> store_error
    \<Rightarrow> (store_error, unit) result" where
  "validate_deletion_review_holds s impacts occurred_at_us payloads error =
    and_then (collect_state_events error [] (List.map_filter payload_state_event payloads)) (\<lambda>actual.
    if length actual \<noteq> length impacts then Err error
    else for_each (\<lambda>impact.
      and_then (ok_or error (btm_get actual (pv_procedure_revision_id (di_current_state impact)))) (\<lambda>event.
      if hold_matches s occurred_at_us impact event then Ok () else Err error)) impacts)"

definition live_source_reference_strings :: "procedure_state \<Rightarrow> revision_id set \<Rightarrow> string list" where
  "live_source_reference_strings s excluded = btree_set
    (concat (map (\<lambda>(revision, _). if pr_revision_id revision \<in> excluded then [] else pd_evidence_refs (pr_draft revision))
        (btm_values (ps_procedures s)))
     @ concat (map (\<lambda>(event, _). if pv_procedure_revision_id event \<in> excluded then [] else pv_evidence_refs event)
        (btm_values (ps_current_publication s)))
     @ concat (map (\<lambda>(usage, _). if pu_procedure_revision_id usage \<in> excluded then [] else pu_evidence_refs usage)
        (btm_values (ps_usages s)))
     @ concat (map (\<lambda>(negative, _). if ne_procedure_revision_id negative \<in> excluded then [] else ne_evidence_refs negative)
        (btm_values (ps_negative_evidence s)))
     @ concat (map (\<lambda>(negative_id, review, _).
          if is_some_and (\<lambda>(negative, _). ne_procedure_revision_id negative \<notin> excluded) (btm_get (ps_negative_evidence s) negative_id)
          then nr_evidence_refs review else []) (ps_current_negative_reviews s)))"

section \<open>Applying events\<close>

definition validate_publication_event ::
  "(revision_id, procedure_revision \<times> u64) btree_map \<Rightarrow> (revision_id, procedure_state_event \<times> u64) btree_map
    \<Rightarrow> (revision_id, procedure_state_event \<times> u64) btree_map \<Rightarrow> procedure_state_event \<Rightarrow> (store_error, unit) result" where
  "validate_publication_event revisions history current_publication event =
    and_then (map_err (\<lambda>_. StoreCorrupt) (procedure_state_event_validate event)) (\<lambda>_.
    if \<not> btm_contains_key revisions (pv_procedure_revision_id event)
       \<or> pv_from_state event \<noteq> map_option (\<lambda>(entry, _). pv_to_state entry) (btm_get current_publication (pv_procedure_revision_id event))
       \<or> pv_to_state event = PubActiveProbationary
         \<and> list_ex (\<lambda>(prior, _). pv_procedure_revision_id prior = pv_procedure_revision_id event
             \<and> pv_reason prior = ReasonConfirmedHarm) (btm_values history)
    then Err StoreCorrupt else Ok ())"

definition apply_revision :: "procedure_state \<Rightarrow> procedure_revision \<Rightarrow> u64 \<Rightarrow> (store_error, procedure_state) result" where
  "apply_revision s value seq =
    (if (case btm_get (ps_procedures s) (pr_procedure_id value) of
           Some (current, _) \<Rightarrow> \<not> is_ok (procedure_revision_validate_successor current value)
         | None \<Rightarrow> is_some (pr_parent_revision_id value) \<or> pr_revision_generation value \<noteq> 1)
     then Err StoreCorrupt
     else if btm_contains_key (ps_revisions s) (pr_revision_id value) then Err StoreCorrupt
     else Ok (s\<lparr>ps_revisions := btm_insert (pr_revision_id value) (value, seq) (ps_revisions s),
       ps_procedures := btm_insert (pr_procedure_id value) (value, seq) (ps_procedures s)\<rparr>))"

definition apply_state_event :: "procedure_state \<Rightarrow> procedure_state_event \<Rightarrow> u64 \<Rightarrow> (store_error, procedure_state) result" where
  "apply_state_event s value seq =
    and_then (validate_publication_event (ps_revisions s) (ps_events s) (ps_current_publication s) value) (\<lambda>_.
    if btm_contains_key (ps_events s) (pv_state_event_id value) then Err StoreCorrupt
    else Ok (s\<lparr>ps_events := btm_insert (pv_state_event_id value) (value, seq) (ps_events s),
      ps_current_publication := btm_insert (pv_procedure_revision_id value) (value, seq) (ps_current_publication s)\<rparr>))"

definition apply_usage :: "procedure_state \<Rightarrow> procedure_usage_revision \<Rightarrow> u64 \<Rightarrow> (store_error, procedure_state) result" where
  "apply_usage s value seq =
    (if \<not> procedure_usage_revision_validate value \<or> \<not> btm_contains_key (ps_revisions s) (pu_procedure_revision_id value)
     then Err StoreCorrupt
     else if (case btm_get (ps_usages s) (pu_procedure_usage_id value) of
           Some (current, current_seq) \<Rightarrow> seq \<le> current_seq \<or> \<not> procedure_usage_revision_validate_successor current value
         | None \<Rightarrow> pu_revision_generation value \<noteq> 1 \<or> is_some (pu_predecessor_revision_id value))
     then Err StoreCorrupt
     else if btm_contains_key (ps_usage_revisions s) (pu_usage_revision_id value) then Err StoreCorrupt
     else Ok (s\<lparr>ps_usage_revisions := btm_insert (pu_usage_revision_id value) (value, seq) (ps_usage_revisions s),
       ps_usages := btm_insert (pu_procedure_usage_id value) (value, seq) (ps_usages s)\<rparr>))"

definition negative_usage_bad :: "procedure_state \<Rightarrow> procedure_negative_evidence \<Rightarrow> bool" where
  "negative_usage_bad s value = (case btm_get (ps_usages s) (ne_procedure_usage_id value) of None \<Rightarrow> True
    | Some (usage, _) \<Rightarrow> pu_procedure_revision_id usage \<noteq> ne_procedure_revision_id value
        \<or> pu_task_id usage \<noteq> ne_task_id value \<or> pu_action_aligned usage \<noteq> ProcTrue)"

definition apply_negative ::
  "procedure_state \<Rightarrow> procedure_negative_evidence \<Rightarrow> u64 \<Rightarrow> (store_error, procedure_state) result" where
  "apply_negative s value seq =
    (if \<not> procedure_negative_evidence_validate value
        \<or> btm_contains_key (ps_negative_evidence s) (ne_negative_evidence_id value)
        \<or> \<not> btm_contains_key (ps_revisions s) (ne_procedure_revision_id value)
        \<or> negative_usage_bad s value
        \<or> is_some_and (\<lambda>(usage, _). sint (ne_created_at_us value) < sint (pu_created_at_us usage)
            \<or> ne_attribution_basis value = BasisResolvedLocalized \<and> ne_local_context value \<noteq> Some (pu_local_context usage))
          (btm_get (ps_usages s) (ne_procedure_usage_id value))
     then Err StoreCorrupt
     else Ok (s\<lparr>ps_negative_evidence_by_revision :=
         entry_insert (ne_procedure_revision_id value) (ne_negative_evidence_id value) (ps_negative_evidence_by_revision s),
       ps_negative_evidence := btm_insert (ne_negative_evidence_id value) (value, seq) (ps_negative_evidence s)\<rparr>))"

fun review_transition :: "procedure_negative_review_status \<Rightarrow> procedure_negative_review_status \<Rightarrow> bool" where
  "review_transition ReviewPending next = (next \<in> {ReviewUpheld, ReviewDismissed, ReviewSuperseded})"
| "review_transition ReviewUpheld next = (next \<in> {ReviewDismissed, ReviewSuperseded})"
| "review_transition _ _ = False"

definition usage_before :: "procedure_state \<Rightarrow> procedure_usage_id \<Rightarrow> u64 \<Rightarrow> procedure_usage_revision option" where
  "usage_before s i seq = map_option fst (max_by_key snd
    (filter (\<lambda>(usage, usage_seq). pu_procedure_usage_id usage = i \<and> usage_seq < seq) (btm_values (ps_usage_revisions s))))"

definition expected_review_refs :: "uuid_lib \<Rightarrow> procedure_negative_evidence \<Rightarrow> procedure_usage_revision \<Rightarrow> string list" where
  "expected_review_refs lib negative usage = btree_set (ne_evidence_refs negative @ [revision_id_to_string lib (pu_usage_revision_id usage)])"

definition first_review_ok ::
  "uuid_lib \<Rightarrow> procedure_state \<Rightarrow> procedure_negative_evidence \<Rightarrow> procedure_negative_review_event \<Rightarrow> u64 \<Rightarrow> bool" where
  "first_review_ok lib s negative value seq = (case usage_before s (ne_procedure_usage_id negative) seq of None \<Rightarrow> False
    | Some usage \<Rightarrow> nr_review_generation value = 1
        \<and> nr_status value = ReviewPending
        \<and> nr_created_at_us value = ne_created_at_us negative
        \<and> nr_evidence_refs value = expected_review_refs lib negative usage)"

definition later_review_ok :: "procedure_negative_review_event \<Rightarrow> u64 \<Rightarrow> procedure_negative_review_event \<Rightarrow> u64 \<Rightarrow> bool" where
  "later_review_ok current current_seq value seq \<longleftrightarrow>
    \<not> seq \<le> current_seq
    \<and> \<not> sint (nr_created_at_us value) < sint (nr_created_at_us current)
    \<and> nr_predecessor_review_event_id value = Some (nr_review_event_id current)
    \<and> nr_review_generation value = nr_review_generation current + 1
    \<and> review_transition (nr_status current) (nr_status value)"

definition apply_negative_review ::
  "uuid_lib \<Rightarrow> procedure_state \<Rightarrow> procedure_negative_review_event \<Rightarrow> u64 \<Rightarrow> (store_error, procedure_state) result" where
  "apply_negative_review lib s value seq =
    (case btm_get (ps_negative_evidence s) (nr_negative_evidence_id value) of None \<Rightarrow> Err StoreCorrupt
     | Some (negative, _) \<Rightarrow>
       if \<not> procedure_negative_review_event_validate value then Err StoreCorrupt
       else if \<not> (case btm_get (ps_current_negative_reviews s) (nr_negative_evidence_id value) of
             Some (current, current_seq) \<Rightarrow> later_review_ok current current_seq value seq
           | None \<Rightarrow> first_review_ok lib s negative value seq)
       then Err StoreCorrupt
       else if btm_contains_key (ps_negative_reviews s) (nr_review_event_id value) then Err StoreCorrupt
       else Ok (s\<lparr>ps_negative_reviews := btm_insert (nr_review_event_id value) (value, seq) (ps_negative_reviews s),
         ps_current_negative_reviews := btm_insert (nr_negative_evidence_id value) (value, seq) (ps_current_negative_reviews s)\<rparr>))"

text \<open>The flag tells whether the payload concerned these tables.\<close>

fun procedure_state_apply :: "uuid_lib \<Rightarrow> procedure_state \<Rightarrow> procedure_payload \<Rightarrow> u64 \<Rightarrow> (store_error, bool \<times> procedure_state) result" where
  "procedure_state_apply lib s (ProcedureRevisionRecorded value) seq = and_then (apply_revision s value seq) (\<lambda>s'. Ok (True, s'))"
| "procedure_state_apply lib s (ProcedureStateRecorded value) seq = and_then (apply_state_event s value seq) (\<lambda>s'. Ok (True, s'))"
| "procedure_state_apply lib s (ProcedureUsageRecorded value) seq = and_then (apply_usage s value seq) (\<lambda>s'. Ok (True, s'))"
| "procedure_state_apply lib s (ProcedureNegativeEvidenceRecorded value) seq = and_then (apply_negative s value seq) (\<lambda>s'. Ok (True, s'))"
| "procedure_state_apply lib s (ProcedureNegativeReviewRecorded value) seq = and_then (apply_negative_review lib s value seq) (\<lambda>s'. Ok (True, s'))"
| "procedure_state_apply lib s _ seq = Ok (False, s)"

section \<open>Restoring and rebuilding\<close>

fun procedure_state_restore :: "procedure_state \<Rightarrow> procedure_payload \<Rightarrow> u64 \<Rightarrow> (store_error, procedure_state) result" where
  "procedure_state_restore s (ProcedureRevisionRecorded value) seq =
    (if btm_contains_key (ps_revisions s) (pr_revision_id value) then Err StoreCorrupt
     else Ok (s\<lparr>ps_revisions := btm_insert (pr_revision_id value) (value, seq) (ps_revisions s)\<rparr>))"
| "procedure_state_restore s (ProcedureStateRecorded value) seq =
    (if btm_contains_key (ps_events s) (pv_state_event_id value) then Err StoreCorrupt
     else Ok (s\<lparr>ps_events := btm_insert (pv_state_event_id value) (value, seq) (ps_events s)\<rparr>))"
| "procedure_state_restore s (ProcedureUsageRecorded value) seq =
    (if btm_contains_key (ps_usage_revisions s) (pu_usage_revision_id value) then Err StoreCorrupt
     else Ok (s\<lparr>ps_usage_revisions := btm_insert (pu_usage_revision_id value) (value, seq) (ps_usage_revisions s)\<rparr>))"
| "procedure_state_restore s (ProcedureNegativeEvidenceRecorded value) seq =
    (if btm_contains_key (ps_negative_evidence s) (ne_negative_evidence_id value) then Err StoreCorrupt
     else Ok (s\<lparr>ps_negative_evidence := btm_insert (ne_negative_evidence_id value) (value, seq) (ps_negative_evidence s),
       ps_negative_evidence_by_revision :=
         entry_insert (ne_procedure_revision_id value) (ne_negative_evidence_id value) (ps_negative_evidence_by_revision s)\<rparr>))"
| "procedure_state_restore s (ProcedureNegativeReviewRecorded value) seq =
    (if btm_contains_key (ps_negative_reviews s) (nr_review_event_id value) then Err StoreCorrupt
     else Ok (s\<lparr>ps_negative_reviews := btm_insert (nr_review_event_id value) (value, seq) (ps_negative_reviews s)\<rparr>))"
| "procedure_state_restore s _ seq = Err StoreCorrupt"

definition rebuild_revision ::
  "(procedure_id, procedure_revision \<times> u64) btree_map \<Rightarrow> procedure_revision \<times> u64
    \<Rightarrow> (store_error, (procedure_id, procedure_revision \<times> u64) btree_map) result" where
  "rebuild_revision procedures item = (case item of (value, seq) \<Rightarrow>
    and_then (map_err (\<lambda>_. StoreCorrupt) (procedure_revision_validate value)) (\<lambda>_.
    if (case btm_get procedures (pr_procedure_id value) of
          Some (current, current_seq) \<Rightarrow> \<not> is_ok (procedure_revision_validate_successor current value) \<or> seq \<le> current_seq
        | None \<Rightarrow> pr_revision_generation value \<noteq> 1 \<or> is_some (pr_parent_revision_id value))
    then Err StoreCorrupt
    else Ok (btm_insert (pr_procedure_id value) (value, seq) procedures)))"

definition rebuild_event ::
  "(revision_id, procedure_revision \<times> u64) btree_map
    \<Rightarrow> (revision_id, procedure_state_event \<times> u64) btree_map \<times> (revision_id, procedure_state_event \<times> u64) btree_map
    \<Rightarrow> procedure_state_event \<times> u64
    \<Rightarrow> (store_error, (revision_id, procedure_state_event \<times> u64) btree_map \<times> (revision_id, procedure_state_event \<times> u64) btree_map) result" where
  "rebuild_event revisions acc item = (case (acc, item) of ((current_publication, applied_events), (event, seq)) \<Rightarrow>
    and_then (ok_or StoreCorrupt (btm_get revisions (pv_procedure_revision_id event))) (\<lambda>(_, revision_seq).
    if seq \<le> revision_seq
       \<or> is_some_and (\<lambda>(_, previous_seq). seq \<le> previous_seq) (btm_get current_publication (pv_procedure_revision_id event))
    then Err StoreCorrupt
    else and_then (validate_publication_event revisions applied_events current_publication event) (\<lambda>_.
      Ok (btm_insert (pv_procedure_revision_id event) (event, seq) current_publication,
        btm_insert (pv_state_event_id event) (event, seq) applied_events))))"

definition index_negatives ::
  "(procedure_negative_evidence_id, procedure_negative_evidence \<times> u64) btree_map
    \<Rightarrow> (revision_id, procedure_negative_evidence_id list) btree_map" where
  "index_negatives negatives = fold (\<lambda>(i, negative, _) m. entry_insert (ne_procedure_revision_id negative) i m) negatives []"

definition rebuild_publications :: "procedure_state \<Rightarrow> (store_error, procedure_state) result" where
  "rebuild_publications s =
    and_then (replay rebuild_revision [] (sort_key (\<lambda>(value, _). (pr_procedure_id value, pr_revision_generation value))
      (btm_values (ps_revisions s)))) (\<lambda>procedures.
    and_then (replay (rebuild_event (ps_revisions s)) ([], []) (sort_key snd (btm_values (ps_events s)))) (\<lambda>(current_publication, _).
    if list_ex (\<lambda>i. \<not> btm_contains_key current_publication i) (btm_keys (ps_revisions s)) then Err StoreCorrupt
    else Ok (s\<lparr>ps_procedures := procedures, ps_current_publication := current_publication\<rparr>)))"

definition rebuild_usages :: "procedure_state \<Rightarrow> (store_error, procedure_state) result" where
  "rebuild_usages s =
    and_then (replay (\<lambda>s' (usage, seq). apply_usage s' usage seq) (s\<lparr>ps_usages := [], ps_usage_revisions := []\<rparr>)
      (sort_key snd (btm_values (ps_usage_revisions s)))) (\<lambda>s'.
    if length (ps_usage_revisions s') \<noteq> length (ps_usage_revisions s) then Err StoreCorrupt else Ok s')"

definition rebuild_reviews :: "uuid_lib \<Rightarrow> procedure_state \<Rightarrow> (store_error, procedure_state) result" where
  "rebuild_reviews lib s =
    and_then (replay (\<lambda>s' (review, seq). apply_negative_review lib s' review seq)
      (s\<lparr>ps_current_negative_reviews := [], ps_negative_reviews := []\<rparr>) (sort_key snd (btm_values (ps_negative_reviews s)))) (\<lambda>s'.
    if length (ps_negative_reviews s') \<noteq> length (ps_negative_reviews s)
       \<or> list_ex (\<lambda>(negative, _). \<not> procedure_negative_evidence_validate negative \<or> negative_usage_bad s' negative)
           (btm_values (ps_negative_evidence s'))
    then Err StoreCorrupt
    else Ok (s'\<lparr>ps_negative_evidence_by_revision := index_negatives (ps_negative_evidence s')\<rparr>))"

definition procedure_state_rebuild :: "uuid_lib \<Rightarrow> procedure_state \<Rightarrow> (store_error, procedure_state) result" where
  "procedure_state_rebuild lib s = and_then (rebuild_publications s) (\<lambda>s1. and_then (rebuild_usages s1) (rebuild_reviews lib))"

section \<open>The procedure events of a command\<close>

definition current_usages :: "procedure_state \<Rightarrow> procedure_payload list \<Rightarrow> (procedure_usage_id, procedure_usage_revision) btree_map" where
  "current_usages s payloads = fold (\<lambda>payload m. case payload of
      ProcedureUsageRecorded usage \<Rightarrow> btm_insert (pu_procedure_usage_id usage) usage m | _ \<Rightarrow> m) payloads
    (fold (\<lambda>(usage, _) m. btm_insert (pu_procedure_usage_id usage) usage m) (btm_values (ps_usages s)) [])"

definition promotion_cohort ::
  "uuid_lib \<Rightarrow> procedure_state \<Rightarrow> procedure_state_event \<Rightarrow> procedure_payload list \<Rightarrow> procedure_usage_revision list" where
  "promotion_cohort lib s event payloads = filter (\<lambda>usage.
      pu_procedure_revision_id usage = pv_procedure_revision_id event
      \<and> pu_outcome_supported usage = ProcTrue
      \<and> revision_id_to_string lib (pu_usage_revision_id usage) \<in> set (pv_evidence_refs event)) (btm_values (current_usages s payloads))"

definition independent_usage ::
  "(task_id, task \<times> u64) btree_map \<Rightarrow> procedure_usage_revision list \<Rightarrow> procedure_usage_revision \<Rightarrow> bool" where
  "independent_usage tasks earlier usage = (case btm_get tasks (pu_task_id usage) of None \<Rightarrow> False
    | Some (task, _) \<Rightarrow> tk_continuation_of_task_id task = None \<and> tk_split_from_task_id task = None
        \<and> list_all (\<lambda>prior. pu_task_id prior \<noteq> pu_task_id usage
            \<and> is_some_and (\<lambda>(prior_task, _). list_all (\<lambda>reference. reference \<notin> set (tk_request_root_refs task))
                (tk_request_root_refs prior_task)) (btm_get tasks (pu_task_id prior))) earlier)"

definition valid_promotion_cohort ::
  "uuid_lib \<Rightarrow> procedure_state \<Rightarrow> (task_id, task \<times> u64) btree_map \<Rightarrow> procedure_state_event \<Rightarrow> procedure_payload list \<Rightarrow> bool" where
  "valid_promotion_cohort lib s tasks event payloads \<longleftrightarrow>
    \<not> (has_active_harm s (pv_procedure_revision_id event) \<or> length (pv_evidence_refs event) < 3)
    \<and> (let cohort = promotion_cohort lib s event payloads in
       length cohort = length (pv_evidence_refs event)
       \<and> list_all (\<lambda>index. independent_usage tasks (take index cohort) (cohort ! index)) [0..<length cohort])"

fun payload_accepted_proposal :: "procedure_payload \<Rightarrow> revision_proposal option" where
  "payload_accepted_proposal (RevisionProposalRecorded value) = (if rp_status value = ProposalAccepted then Some value else None)"
| "payload_accepted_proposal _ = None"

fun payload_revision :: "procedure_payload \<Rightarrow> procedure_revision option" where
  "payload_revision (ProcedureRevisionRecorded value) = Some value"
| "payload_revision _ = None"

fun payload_negative :: "procedure_payload \<Rightarrow> procedure_negative_evidence option" where
  "payload_negative (ProcedureNegativeEvidenceRecorded value) = Some value"
| "payload_negative _ = None"

fun payload_review :: "procedure_payload \<Rightarrow> procedure_negative_review_event option" where
  "payload_review (ProcedureNegativeReviewRecorded value) = Some value"
| "payload_review _ = None"

definition edited_revision_ok :: "revision_proposal \<Rightarrow> procedure_proposal_payload \<Rightarrow> procedure_id \<Rightarrow> procedure_revision \<Rightarrow> bool" where
  "edited_revision_ok proposal procedure_payload procedure_id revision \<longleftrightarrow>
    pr_draft revision = procedure_proposal_payload_draft procedure_payload
    \<and> (case rp_operation proposal of
         OpCreate \<Rightarrow> rp_target_id proposal = None \<and> rp_base_revision_id proposal = None
           \<and> pr_parent_revision_id revision = None \<and> pr_revision_generation revision = 1
       | OpReplace \<Rightarrow> rp_target_id proposal = Some (TargetProcedureId procedure_id)
           \<and> pr_parent_revision_id revision = rp_base_revision_id proposal
       | _ \<Rightarrow> False)"

definition unchanged_replacement_ok ::
  "procedure_state \<Rightarrow> revision_proposal \<Rightarrow> procedure_proposal_payload \<Rightarrow> procedure_id \<Rightarrow> revision_id \<Rightarrow> bool" where
  "unchanged_replacement_ok s proposal procedure_payload procedure_id procedure_revision_id =
    (case btm_get (ps_procedures s) procedure_id of None \<Rightarrow> False
     | Some (current, _) \<Rightarrow>
        rp_operation proposal = OpReplace
        \<and> (case procedure_payload of ProcedureReplace _ \<Rightarrow> True | ProcedureCreate _ \<Rightarrow> False)
        \<and> rp_target_id proposal = Some (TargetProcedureId procedure_id)
        \<and> rp_base_revision_id proposal = Some procedure_revision_id
        \<and> pr_revision_id current = procedure_revision_id
        \<and> pr_draft current = procedure_proposal_payload_draft procedure_payload
        \<and> ps_publication s procedure_revision_id \<in> {Some PubActiveProbationary, Some PubActiveStable})"

definition cohort_proposal_ok ::
  "procedure_state \<Rightarrow> revision_proposal_id set \<Rightarrow> procedure_payload list \<Rightarrow> revision_proposal \<Rightarrow> bool" where
  "cohort_proposal_ok s accepted_edits payloads proposal =
    (case map_option pt_accepted_target (rp_acceptance proposal) of
      Some (AcceptedProcedure procedure_id procedure_revision_id _) \<Rightarrow> (case rp_payload proposal of
        PayloadProcedure procedure_payload \<Rightarrow>
          let recorded = List.map_filter payload_revision payloads;
              materialized = filter (\<lambda>value. pr_procedure_id value = procedure_id \<and> pr_revision_id value = procedure_revision_id) recorded in
          if rp_proposal_id proposal \<in> accepted_edits then
            length recorded = length materialized
            \<and> (case materialized of
                 [] \<Rightarrow> unchanged_replacement_ok s proposal procedure_payload procedure_id procedure_revision_id
               | [revision] \<Rightarrow> edited_revision_ok proposal procedure_payload procedure_id revision
               | _ \<Rightarrow> False)
          else materialized \<noteq> [] \<or> unchanged_replacement_ok s proposal procedure_payload procedure_id procedure_revision_id
      | _ \<Rightarrow> False)
    | _ \<Rightarrow> True)"

definition cohort_stable_ok ::
  "uuid_lib \<Rightarrow> procedure_state \<Rightarrow> (task_id, task \<times> u64) btree_map \<Rightarrow> procedure_payload list \<Rightarrow> procedure_state_event \<Rightarrow> bool" where
  "cohort_stable_ok lib s tasks payloads promoted \<longleftrightarrow>
    ps_publication s (pv_procedure_revision_id promoted) = Some PubActiveProbationary
    \<and> valid_promotion_cohort lib s tasks promoted payloads"

definition expected_harm_state ::
  "procedure_negative_evidence \<Rightarrow> procedure_publication_state \<Rightarrow> procedure_publication_state option" where
  "expected_harm_state negative current_state = (case ne_level negative of
      NegIneffective \<Rightarrow> None
    | NegSuspectedHarm \<Rightarrow>
        if ne_attribution_basis negative = BasisResolvedLocalized then None
        else if current_state \<in> {PubActiveProbationary, PubActiveStable} then Some PubReviewHold else None
    | NegConfirmedHarm \<Rightarrow>
        if current_state \<in> {PubActiveProbationary, PubActiveStable, PubReviewHold} then Some PubSuspended else None)"

definition cohort_negative_ok :: "uuid_lib \<Rightarrow> procedure_state \<Rightarrow> procedure_payload list \<Rightarrow> procedure_negative_evidence \<Rightarrow> bool" where
  "cohort_negative_ok lib s payloads negative =
    (case (btm_get (ps_usages s) (ne_procedure_usage_id negative),
           btm_get (ps_current_publication s) (ne_procedure_revision_id negative)) of
      (Some (usage, _), Some (current_event, _)) \<Rightarrow>
        length (filter (\<lambda>review. nr_negative_evidence_id review = ne_negative_evidence_id negative
            \<and> nr_review_generation review = 1 \<and> nr_status review = ReviewPending
            \<and> nr_created_at_us review = ne_created_at_us negative
            \<and> nr_evidence_refs review = expected_review_refs lib negative usage) (List.map_filter payload_review payloads)) = 1
        \<and> map pv_to_state (filter (\<lambda>event. pv_procedure_revision_id event = ne_procedure_revision_id negative
            \<and> pv_evidence_refs event = [uuid_id_to_string lib ''pneg'' (ne_negative_evidence_id negative)])
            (List.map_filter payload_state_event payloads))
          = opt_iter (expected_harm_state negative (pv_to_state current_event))
    | _ \<Rightarrow> False)"

definition cohort_first_review_ok :: "procedure_payload list \<Rightarrow> procedure_negative_review_event \<Rightarrow> bool" where
  "cohort_first_review_ok payloads review \<longleftrightarrow>
    length (filter (\<lambda>negative. ne_negative_evidence_id negative = nr_negative_evidence_id review)
      (List.map_filter payload_negative payloads)) = 1"

text \<open>
  The state a review must lead to: an error, no state event, or the state and the reason of
  exactly one. \<open>held\<close> is the publication of the procedure when it is on hold.
\<close>

definition resumed_state ::
  "procedure_state_event option \<Rightarrow> procedure_negative_evidence
    \<Rightarrow> (store_error, (procedure_publication_state \<times> procedure_state_reason) option) result" where
  "resumed_state held negative = (case held of
      Some event \<Rightarrow>
        if ne_local_context negative \<noteq> None then Ok None
        else (case pv_resume_state event of
            Some state \<Rightarrow> if state \<in> {PubActiveProbationary, PubActiveStable} then Ok (Some (state, ReasonManual)) else Err StoreCorrupt
          | None \<Rightarrow> Err StoreCorrupt)
    | None \<Rightarrow> Ok None)"

definition review_expected_state ::
  "negative_review_action_reason \<Rightarrow> procedure_negative_review_event \<Rightarrow> procedure_negative_evidence \<Rightarrow> procedure_negative_review_event
    \<Rightarrow> procedure_state_event option \<Rightarrow> (store_error, (procedure_publication_state \<times> procedure_state_reason) option) result" where
  "review_expected_state action current negative review held = (case action of
      ResolveAsIneffective \<Rightarrow>
        if nr_status current = ReviewPending \<and> ne_level negative = NegIneffective \<and> nr_status review = ReviewDismissed
           \<and> nr_successor_usage_revision_id review = None \<and> nr_evidence_refs review = ne_evidence_refs negative
        then Ok None else Err StoreCorrupt
    | DismissAttribution \<Rightarrow>
        if nr_status current = ReviewPending \<and> ne_level negative = NegSuspectedHarm \<and> nr_status review = ReviewDismissed
           \<and> nr_successor_usage_revision_id review = None
        then resumed_state held negative else Err StoreCorrupt
    | ConfirmHarm \<Rightarrow>
        if nr_status current = ReviewPending \<and> ne_level negative = NegSuspectedHarm \<and> ne_local_context negative = None
           \<and> nr_status review = ReviewUpheld \<and> nr_successor_usage_revision_id review = None
        then (if held = None then Err StoreCorrupt else Ok (Some (PubSuspended, ReasonConfirmedHarm)))
        else Err StoreCorrupt
    | SuccessorSuperseded \<Rightarrow>
        if nr_status current \<in> {ReviewPending, ReviewUpheld} \<and> nr_status review = ReviewSuperseded
        then resumed_state held negative else Err StoreCorrupt)"

definition held_publication :: "procedure_state \<Rightarrow> revision_id \<Rightarrow> procedure_state_event option" where
  "held_publication s r = (case btm_get (ps_current_publication s) r of None \<Rightarrow> None
    | Some (event, _) \<Rightarrow> if pv_to_state event = PubReviewHold then Some event else None)"

definition review_states ::
  "uuid_lib \<Rightarrow> procedure_payload list \<Rightarrow> procedure_negative_evidence \<Rightarrow> procedure_state_event list" where
  "review_states lib payloads negative = filter (\<lambda>event. pv_procedure_revision_id event = ne_procedure_revision_id negative
      \<and> pv_from_state event = Some PubReviewHold
      \<and> pv_evidence_refs event = [uuid_id_to_string lib ''pneg'' (ne_negative_evidence_id negative)])
    (List.map_filter payload_state_event payloads)"

definition review_states_ok ::
  "(procedure_publication_state \<times> procedure_state_reason) option \<Rightarrow> procedure_state_event list \<Rightarrow> procedure_negative_review_event \<Rightarrow> bool" where
  "review_states_ok expected states review = (case (expected, states) of
      (None, []) \<Rightarrow> True
    | (Some (to_state, reason), [state]) \<Rightarrow> pv_to_state state = to_state \<and> pv_reason state = reason
        \<and> pv_resume_state state = None \<and> pv_created_at_us state = nr_created_at_us review
    | _ \<Rightarrow> False)"

definition cohort_later_review_ok ::
  "uuid_lib \<Rightarrow> procedure_state \<Rightarrow> procedure_payload list \<Rightarrow> procedure_negative_review_event \<Rightarrow> bool" where
  "cohort_later_review_ok lib s payloads review =
    (case (btm_get (ps_negative_evidence s) (nr_negative_evidence_id review),
           btm_get (ps_current_negative_reviews s) (nr_negative_evidence_id review), negative_review_action_reason_parse (nr_reason review)) of
      (Some (negative, _), Some (current, _), Some action) \<Rightarrow>
        nr_predecessor_review_event_id review = Some (nr_review_event_id current)
        \<and> nr_review_generation review = nr_review_generation current + 1
        \<and> (case review_expected_state action current negative review (held_publication s (ne_procedure_revision_id negative)) of
             Inl _ \<Rightarrow> False
           | Inr expected \<Rightarrow>
               \<not> (action \<in> {ResolveAsIneffective, DismissAttribution, ConfirmHarm} \<and> List.map_filter payload_negative payloads \<noteq> [])
               \<and> review_states_ok expected (review_states lib payloads negative) review)
    | _ \<Rightarrow> False)"

definition cohort_manual_ok :: "uuid_lib \<Rightarrow> procedure_state \<Rightarrow> procedure_payload list \<Rightarrow> procedure_state_event \<Rightarrow> bool" where
  "cohort_manual_ok lib s payloads state = (case uuid_id_from_str lib ''pneg'' (pv_evidence_refs state ! 0) of
      Inl _ \<Rightarrow> True
    | Inr negative_id \<Rightarrow> \<not> btm_contains_key (ps_negative_evidence s) negative_id
        \<or> length (filter (\<lambda>review. nr_negative_evidence_id review = negative_id \<and> nr_review_generation review > 1
            \<and> nr_status review \<in> {ReviewDismissed, ReviewSuperseded}) (List.map_filter payload_review payloads)) = 1)"

definition confirmed_existing_count :: "uuid_lib \<Rightarrow> procedure_state \<Rightarrow> procedure_payload list \<Rightarrow> procedure_state_event \<Rightarrow> nat" where
  "confirmed_existing_count lib s payloads state = (case pv_evidence_refs state of [] \<Rightarrow> 0 | reference # _ \<Rightarrow>
    (case uuid_id_from_str lib ''pneg'' reference of Inl _ \<Rightarrow> 0 | Inr negative_id \<Rightarrow>
      if is_some_and (\<lambda>(negative, _). ne_procedure_revision_id negative = pv_procedure_revision_id state
          \<and> ne_level negative = NegSuspectedHarm \<and> ne_local_context negative = None) (btm_get (ps_negative_evidence s) negative_id)
      then length (filter (\<lambda>review. nr_negative_evidence_id review = negative_id \<and> nr_status review = ReviewUpheld
          \<and> negative_review_action_reason_parse (nr_reason review) = Some ConfirmHarm) (List.map_filter payload_review payloads))
      else 0))"

definition cohort_harm_state_ok :: "uuid_lib \<Rightarrow> procedure_state \<Rightarrow> procedure_payload list \<Rightarrow> procedure_state_event \<Rightarrow> bool" where
  "cohort_harm_state_ok lib s payloads state =
    (let new_negative_count = length (filter (\<lambda>negative. ne_procedure_revision_id negative = pv_procedure_revision_id state
           \<and> pv_evidence_refs state = [uuid_id_to_string lib ''pneg'' (ne_negative_evidence_id negative)])
           (List.map_filter payload_negative payloads));
         existing_count = confirmed_existing_count lib s payloads state in
     case pv_reason state of
       ReasonSuspectedHarm \<Rightarrow> new_negative_count = 1 \<and> existing_count = 0
     | ReasonConfirmedHarm \<Rightarrow> new_negative_count = 1 \<and> existing_count = 0 \<or> new_negative_count = 0 \<and> existing_count = 1
     | _ \<Rightarrow> False)"

definition validate_command_cohort ::
  "uuid_lib \<Rightarrow> procedure_state \<Rightarrow> (task_id, task \<times> u64) btree_map \<Rightarrow> revision_proposal_id set \<Rightarrow> procedure_payload list
    \<Rightarrow> (store_error, unit) result" where
  "validate_command_cohort lib s tasks accepted_edits payloads =
    (let states = List.map_filter payload_state_event payloads; reviews = List.map_filter payload_review payloads in
     if list_all (cohort_proposal_ok s accepted_edits payloads) (List.map_filter payload_accepted_proposal payloads)
        \<and> list_all (cohort_stable_ok lib s tasks payloads)
            (filter (\<lambda>e. pv_to_state e = PubActiveStable \<and> pv_reason e = ReasonObjectiveSuccesses) states)
        \<and> list_all (cohort_negative_ok lib s payloads) (List.map_filter payload_negative payloads)
        \<and> list_all (cohort_first_review_ok payloads) (filter (\<lambda>r. nr_review_generation r = 1) reviews)
        \<and> list_all (cohort_later_review_ok lib s payloads) (filter (\<lambda>r. nr_review_generation r > 1) reviews)
        \<and> list_all (cohort_manual_ok lib s payloads) (filter (\<lambda>e. pv_from_state e = Some PubReviewHold
            \<and> pv_reason e = ReasonManual \<and> length (pv_evidence_refs e) = 1) states)
        \<and> list_all (cohort_harm_state_ok lib s payloads) (filter (\<lambda>e. pv_reason e \<in> {ReasonSuspectedHarm, ReasonConfirmedHarm}) states)
     then Ok () else Err StoreCorrupt)"

section \<open>Rows\<close>

fun publication_name :: "procedure_publication_state \<Rightarrow> string" where
  "publication_name PubActiveProbationary = ''active_probationary''"
| "publication_name PubReviewHold = ''review_hold''"
| "publication_name PubActiveStable = ''active_stable''"
| "publication_name PubSuspended = ''suspended''"
| "publication_name PubRolledBack = ''rolled_back''"
| "publication_name PubSuperseded = ''superseded''"

fun review_status_name :: "procedure_negative_review_status \<Rightarrow> string" where
  "review_status_name ReviewPending = ''pending''"
| "review_status_name ReviewUpheld = ''upheld''"
| "review_status_name ReviewDismissed = ''dismissed''"
| "review_status_name ReviewSuperseded = ''superseded''"

definition scope_columns :: "uuid_lib \<Rightarrow> procedure_scope \<Rightarrow> string option \<times> string option" where
  "scope_columns lib scope = (case scope of
      ProcedureScopeWorktree repository_id worktree_id \<Rightarrow>
        (Some (uuid_id_to_string lib ''repo'' repository_id), Some (uuid_id_to_string lib ''wt'' worktree_id))
    | ProcedureScopeRepository repository_id \<Rightarrow> (Some (uuid_id_to_string lib ''repo'' repository_id), None)
    | ProcedureScopeGlobal \<Rightarrow> (None, None))"

type_synonym canonical_json = "procedure_payload \<Rightarrow> (store_error, string) result"

text \<open>\<open>String::into\<close>: a payload that is its whole backing string.\<close>

definition payload_of_string :: "string \<Rightarrow> row_payload" where
  "payload_of_string text_value = row_payload_from_shared text_value 0 (length text_value)"

definition procedure_row ::
  "string \<Rightarrow> string \<Rightarrow> string \<Rightarrow> string \<Rightarrow> string option \<Rightarrow> string option \<Rightarrow> string option \<Rightarrow> string option \<times> string option
    \<Rightarrow> string option \<Rightarrow> string option \<Rightarrow> string option \<Rightarrow> string \<Rightarrow> u64 \<Rightarrow> u64 \<Rightarrow> object_row" where
  "procedure_row row_id object_kind object_id current_revision lifecycle publication support scope task workstream session json seq generation =
    \<lparr>or_row_id = row_id, or_row_kind = RowData, or_row_class = Some RowObject, or_object_family = Some FamilyProcedure,
     or_object_kind = Some object_kind, or_object_id = Some object_id, or_current_revision_id = Some current_revision,
     or_lifecycle = lifecycle, or_epistemic = None, or_authority = None, or_publication_state = publication,
     or_support_state = support, or_project_id = None, or_repository_id = fst scope, or_worktree_id = snd scope,
     or_task_id = task, or_workstream_id = workstream, or_session_id = session,
     or_payload_json = Some (payload_of_string json), or_source_event_seq = seq, or_projection_generation = generation\<rparr>"

definition context_columns :: "uuid_lib \<Rightarrow> procedure_local_context option \<Rightarrow> string option \<times> string option" where
  "context_columns lib local_context =
    (map_option (uuid_id_to_string lib ''repo'') (Option.bind local_context lc_repository_id),
     map_option (uuid_id_to_string lib ''wt'') (Option.bind local_context lc_worktree_id))"

definition revision_row ::
  "uuid_lib \<Rightarrow> canonical_json \<Rightarrow> procedure_state \<Rightarrow> revision_id \<Rightarrow> u64 \<Rightarrow> string option \<Rightarrow> (store_error, object_row) result" where
  "revision_row lib to_json s revision_id generation support_state =
    and_then (ok_or StoreCorrupt (btm_get (ps_revisions s) revision_id)) (\<lambda>(value, seq).
    and_then (to_json (ProcedureRevisionRecorded value)) (\<lambda>json.
    Ok (procedure_row
      (''object:procedure:'' @ uuid_id_to_string lib ''proc'' (pr_procedure_id value) @ '':'' @ revision_id_to_string lib revision_id)
      ''procedure_revision'' (uuid_id_to_string lib ''proc'' (pr_procedure_id value)) (revision_id_to_string lib revision_id) (Some ''active'')
      (map_option (\<lambda>(entry, _). publication_name (pv_to_state entry)) (btm_get (ps_current_publication s) revision_id))
      support_state (scope_columns lib (pd_scope (pr_draft value))) None None None json seq generation)))"

definition publication_row ::
  "uuid_lib \<Rightarrow> canonical_json \<Rightarrow> procedure_state \<Rightarrow> revision_id \<Rightarrow> u64 \<Rightarrow> (store_error, object_row) result" where
  "publication_row lib to_json s event_id generation =
    and_then (ok_or StoreCorrupt (btm_get (ps_events s) event_id)) (\<lambda>(event, seq).
    and_then (ok_or StoreCorrupt (btm_get (ps_revisions s) (pv_procedure_revision_id event))) (\<lambda>(revision, _).
    and_then (to_json (ProcedureStateRecorded event)) (\<lambda>json.
    Ok (procedure_row (''object:procedure_state:'' @ revision_id_to_string lib event_id) ''procedure_state_event''
      (''procedure_state:'' @ revision_id_to_string lib (pv_procedure_revision_id event)) (revision_id_to_string lib event_id)
      (Some ''active'') (Some (publication_name (pv_to_state event))) None (scope_columns lib (pd_scope (pr_draft revision)))
      None None None json seq generation))))"

definition usage_row ::
  "uuid_lib \<Rightarrow> canonical_json \<Rightarrow> u64 \<Rightarrow> revision_id \<times> procedure_usage_revision \<times> u64 \<Rightarrow> (store_error, object_row) result" where
  "usage_row lib to_json generation item = (case item of (revision_id, usage, seq) \<Rightarrow>
    and_then (to_json (ProcedureUsageRecorded usage)) (\<lambda>json.
    Ok (procedure_row (''object:procedure_usage:'' @ revision_id_to_string lib revision_id) ''procedure_usage_revision''
      (uuid_id_to_string lib ''puse'' (pu_procedure_usage_id usage)) (revision_id_to_string lib revision_id) (Some ''active'')
      None None (context_columns lib (Some (pu_local_context usage))) (Some (uuid_id_to_string lib ''task'' (pu_task_id usage)))
      (Some (uuid_id_to_string lib ''ws'' (pu_workstream_id usage))) None json seq generation)))"

definition negative_row ::
  "uuid_lib \<Rightarrow> canonical_json \<Rightarrow> procedure_state \<Rightarrow> u64 \<Rightarrow> procedure_negative_evidence_id \<times> procedure_negative_evidence \<times> u64
    \<Rightarrow> (store_error, object_row) result" where
  "negative_row lib to_json s generation item = (case item of (negative_id, negative, seq) \<Rightarrow>
    and_then (to_json (ProcedureNegativeEvidenceRecorded negative)) (\<lambda>json.
    Ok (procedure_row (''object:procedure_negative:'' @ uuid_id_to_string lib ''pneg'' negative_id) ''procedure_negative_evidence''
      (uuid_id_to_string lib ''pneg'' negative_id) (uuid_id_to_string lib ''pneg'' negative_id)
      (map_option (\<lambda>(review, _). review_status_name (nr_status review)) (btm_get (ps_current_negative_reviews s) negative_id))
      None None (context_columns lib (ne_local_context negative)) (Some (uuid_id_to_string lib ''task'' (ne_task_id negative)))
      None (Some (ne_session_id negative)) json seq generation)))"

definition negative_review_row ::
  "uuid_lib \<Rightarrow> canonical_json \<Rightarrow> procedure_state \<Rightarrow> revision_id \<Rightarrow> u64 \<Rightarrow> (store_error, object_row) result" where
  "negative_review_row lib to_json s review_id generation =
    and_then (ok_or StoreCorrupt (btm_get (ps_negative_reviews s) review_id)) (\<lambda>(review, seq).
    and_then (ok_or StoreCorrupt (btm_get (ps_negative_evidence s) (nr_negative_evidence_id review))) (\<lambda>(negative, _).
    and_then (to_json (ProcedureNegativeReviewRecorded review)) (\<lambda>json.
    Ok (procedure_row (''object:procedure_negative_review:'' @ revision_id_to_string lib review_id) ''procedure_negative_review''
      (uuid_id_to_string lib ''pneg'' (nr_negative_evidence_id review)) (revision_id_to_string lib review_id)
      (Some (review_status_name (nr_status review))) None None (context_columns lib (ne_local_context negative))
      (Some (uuid_id_to_string lib ''task'' (ne_task_id negative))) None (Some (ne_session_id negative)) json seq generation))))"

text \<open>\<open>support_states\<close> is what the support projection reports for a revision.\<close>

definition procedure_state_rows ::
  "uuid_lib \<Rightarrow> canonical_json \<Rightarrow> procedure_state \<Rightarrow> u64 \<Rightarrow> (string \<Rightarrow> string option) \<Rightarrow> (store_error, object_row list) result" where
  "procedure_state_rows lib to_json s generation support_states =
    and_then (try_map (\<lambda>i. revision_row lib to_json s i generation (support_states (revision_id_to_string lib i)))
      (btm_keys (ps_revisions s))) (\<lambda>revisions.
    and_then (try_map (\<lambda>i. publication_row lib to_json s i generation) (btm_keys (ps_events s))) (\<lambda>events.
    and_then (try_map (usage_row lib to_json generation) (ps_usage_revisions s)) (\<lambda>usages.
    and_then (try_map (negative_row lib to_json s generation) (ps_negative_evidence s)) (\<lambda>negatives.
    and_then (try_map (\<lambda>i. negative_review_row lib to_json s i generation) (btm_keys (ps_negative_reviews s))) (\<lambda>reviews.
    Ok (revisions @ events @ usages @ negatives @ reviews))))))"

section \<open>Tables\<close>

lemma btm_get_in_values: "btm_get m k = Some v \<Longrightarrow> v \<in> set (btm_values m)"
  by (force simp: btm_get_def btm_values_def dest: map_of_SomeD)

lemma btm_contains_key_iff: "btm_contains_key m k \<longleftrightarrow> (\<exists>v. btm_get m k = Some v)"
  by (auto simp: btm_contains_key_def)

lemma btm_sorted_retain [simp]: "btm_sorted m \<Longrightarrow> btm_sorted (btm_retain P m)"
  unfolding btm_sorted_def btm_retain_def sorted_wrt_map by (rule sorted_wrt_filter)

lemma btm_get_retain:
  assumes "btm_sorted m"
  shows "btm_get (btm_retain P m) k = Some v \<longleftrightarrow> btm_get m k = Some v \<and> P k v"
proof -
  have "distinct (map fst (btm_retain P m))" "distinct (map fst m)" using assms btm_sorted_distinct btm_sorted_retain by blast+
  then show ?thesis by (auto simp: btm_get_def btm_retain_def)
qed

lemma btm_get_retain_eq:
  assumes "btm_sorted m"
  shows "btm_get (btm_retain P m) k = (case btm_get m k of None \<Rightarrow> None | Some v \<Rightarrow> if P k v then Some v else None)"
proof (cases "btm_get (btm_retain P m) k")
  case None
  have "\<not> (btm_get m k = Some v \<and> P k v)" for v using btm_get_retain [OF assms, of P k v] None by simp
  with None show ?thesis by (auto split: option.splits)
next
  case (Some v)
  with btm_get_retain [OF assms, of P k v] show ?thesis by simp
qed

lemma keyed_retain: "keyed id_of m \<Longrightarrow> keyed id_of (btm_retain P m)"
  unfolding keyed_def using btm_get_retain by fastforce

text \<open>Every table is sorted and its values are stored under their own identifiers.\<close>

definition tables_keyed :: "procedure_state \<Rightarrow> bool" where
  "tables_keyed s \<longleftrightarrow> keyed pr_procedure_id (ps_procedures s) \<and> keyed pr_revision_id (ps_revisions s)
    \<and> keyed pv_state_event_id (ps_events s) \<and> keyed pv_procedure_revision_id (ps_current_publication s)
    \<and> keyed pu_usage_revision_id (ps_usage_revisions s) \<and> keyed pu_procedure_usage_id (ps_usages s)
    \<and> keyed ne_negative_evidence_id (ps_negative_evidence s) \<and> btm_sorted (ps_negative_evidence_by_revision s)
    \<and> keyed nr_review_event_id (ps_negative_reviews s) \<and> keyed nr_negative_evidence_id (ps_current_negative_reviews s)"

text \<open>The effect of an accepted payload.\<close>

fun payload_effect :: "procedure_state \<Rightarrow> procedure_payload \<Rightarrow> u64 \<Rightarrow> procedure_state" where
  "payload_effect s (ProcedureRevisionRecorded v) seq =
    s\<lparr>ps_revisions := btm_insert (pr_revision_id v) (v, seq) (ps_revisions s),
      ps_procedures := btm_insert (pr_procedure_id v) (v, seq) (ps_procedures s)\<rparr>"
| "payload_effect s (ProcedureStateRecorded v) seq =
    s\<lparr>ps_events := btm_insert (pv_state_event_id v) (v, seq) (ps_events s),
      ps_current_publication := btm_insert (pv_procedure_revision_id v) (v, seq) (ps_current_publication s)\<rparr>"
| "payload_effect s (ProcedureUsageRecorded v) seq =
    s\<lparr>ps_usage_revisions := btm_insert (pu_usage_revision_id v) (v, seq) (ps_usage_revisions s),
      ps_usages := btm_insert (pu_procedure_usage_id v) (v, seq) (ps_usages s)\<rparr>"
| "payload_effect s (ProcedureNegativeEvidenceRecorded v) seq =
    s\<lparr>ps_negative_evidence_by_revision :=
        entry_insert (ne_procedure_revision_id v) (ne_negative_evidence_id v) (ps_negative_evidence_by_revision s),
      ps_negative_evidence := btm_insert (ne_negative_evidence_id v) (v, seq) (ps_negative_evidence s)\<rparr>"
| "payload_effect s (ProcedureNegativeReviewRecorded v) seq =
    s\<lparr>ps_negative_reviews := btm_insert (nr_review_event_id v) (v, seq) (ps_negative_reviews s),
      ps_current_negative_reviews := btm_insert (nr_negative_evidence_id v) (v, seq) (ps_current_negative_reviews s)\<rparr>"
| "payload_effect s _ seq = s"

lemma apply_effect:
  assumes "procedure_state_apply lib s p seq = Ok (b, s')"
  shows "s' = payload_effect s p seq"
  using assms by (cases p) (auto simp: result_simps apply_revision_def apply_state_event_def apply_usage_def apply_negative_def
    apply_negative_review_def split: if_splits option.splits)

lemma effect_keyed: "tables_keyed s \<Longrightarrow> tables_keyed (payload_effect s p seq)"
  by (cases p) (auto simp: tables_keyed_def keyed_insert entry_insert_def)

lemma forget_keyed: "tables_keyed s \<Longrightarrow> tables_keyed (procedure_state_forget s P R)"
  by (simp add: tables_keyed_def procedure_state_forget_def Let_def keyed_retain)

lemma default_keyed: "tables_keyed procedure_state_default"
  by (simp add: tables_keyed_def procedure_state_default_def)

inductive procedure_reachable :: "uuid_lib \<Rightarrow> procedure_state \<Rightarrow> bool" for lib where
  reachable_start: "procedure_reachable lib procedure_state_default"
| reachable_apply: "procedure_reachable lib s \<Longrightarrow> procedure_state_apply lib s p seq = Ok (b, s') \<Longrightarrow> procedure_reachable lib s'"
| reachable_forget: "procedure_reachable lib s \<Longrightarrow> procedure_reachable lib (procedure_state_forget s P R)"

lemma reachable_keyed: "procedure_reachable lib s \<Longrightarrow> tables_keyed s"
proof (induction rule: procedure_reachable.induct)
  case (reachable_apply s p seq b s')
  then show ?case using apply_effect effect_keyed by blast
qed (simp_all add: default_keyed forget_keyed)

section \<open>Confirmed harm\<close>

definition withdrawn :: "procedure_publication_state option \<Rightarrow> bool" where
  "withdrawn p \<longleftrightarrow> p \<in> {Some PubSuspended, Some PubRolledBack, Some PubSuperseded}"

definition harm_final :: "procedure_state \<Rightarrow> bool" where
  "harm_final s \<longleftrightarrow> (\<forall>k e q. btm_get (ps_events s) k = Some (e, q) \<and> pv_reason e = ReasonConfirmedHarm \<and> pv_to_state e = PubSuspended
    \<longrightarrow> withdrawn (ps_publication s (pv_procedure_revision_id e)))"

lemma harm_finalD:
  "harm_final s \<Longrightarrow> btm_get (ps_events s) k = Some (e, q) \<Longrightarrow> pv_reason e = ReasonConfirmedHarm \<Longrightarrow>
    pv_to_state e = PubSuspended \<Longrightarrow> withdrawn (ps_publication s (pv_procedure_revision_id e))"
  unfolding harm_final_def by blast

lemma publication_eventD:
  assumes "validate_publication_event revisions history cur v = Ok ()"
  shows "procedure_state_event_validate v = Ok ()" "btm_contains_key revisions (pv_procedure_revision_id v)"
    "pv_from_state v = map_option (\<lambda>(entry, _). pv_to_state entry) (btm_get cur (pv_procedure_revision_id v))"
    "pv_to_state v = PubActiveProbationary \<Longrightarrow> btm_get history k = Some (e, q) \<Longrightarrow>
      pv_procedure_revision_id e = pv_procedure_revision_id v \<Longrightarrow> pv_reason e \<noteq> ReasonConfirmedHarm"
proof -
  show "procedure_state_event_validate v = Ok ()" "btm_contains_key revisions (pv_procedure_revision_id v)"
    "pv_from_state v = map_option (\<lambda>(entry, _). pv_to_state entry) (btm_get cur (pv_procedure_revision_id v))"
    using assms by (simp_all add: validate_publication_event_def result_simps)
  assume "pv_to_state v = PubActiveProbationary" "btm_get history k = Some (e, q)"
    "pv_procedure_revision_id e = pv_procedure_revision_id v"
  with assms btm_get_in_values [of history k "(e, q)"] show "pv_reason e \<noteq> ReasonConfirmedHarm"
    by (auto simp: validate_publication_event_def result_simps list_ex_iff)
qed

lemma event_edge:
  assumes "procedure_state_event_validate v = Ok ()" and "pv_from_state v = Some from_state"
  shows "(from_state, pv_to_state v) \<in> publication_edges"
  using assms by (simp add: procedure_state_event_validate_def transition_allowed_def split: if_splits)

lemma harmed_edges:
  "(a, b) \<in> publication_edges \<Longrightarrow> a \<in> {PubSuspended, PubRolledBack, PubSuperseded} \<Longrightarrow>
    b \<in> {PubActiveProbationary, PubSuspended, PubRolledBack, PubSuperseded}"
  by (auto simp: publication_edges_def)

lemma apply_event_harm_final:
  assumes "apply_state_event s v seq = Ok s'" and "harm_final s"
  shows "harm_final s'"
  unfolding harm_final_def
proof (intro allI impI, elim conjE)
  fix k e q
  assume e: "btm_get (ps_events s') k = Some (e, q)" "pv_reason e = ReasonConfirmedHarm" "pv_to_state e = PubSuspended"
  from assms(1) have v: "validate_publication_event (ps_revisions s) (ps_events s) (ps_current_publication s) v = Ok ()"
    and s': "s' = s\<lparr>ps_events := btm_insert (pv_state_event_id v) (v, seq) (ps_events s),
      ps_current_publication := btm_insert (pv_procedure_revision_id v) (v, seq) (ps_current_publication s)\<rparr>"
    by (auto simp: apply_state_event_def result_simps split: if_splits)
  note d = publication_eventD [OF v]
  show "withdrawn (ps_publication s' (pv_procedure_revision_id e))"
  proof (cases "e = v \<or> pv_procedure_revision_id e \<noteq> pv_procedure_revision_id v")
    case True
    then show ?thesis
    proof
      assume "e = v"
      with e(3) show ?thesis by (simp add: s' ps_publication_def withdrawn_def)
    next
      assume other: "pv_procedure_revision_id e \<noteq> pv_procedure_revision_id v"
      with e(1) have "btm_get (ps_events s) k = Some (e, q)" by (auto simp: s' split: if_splits)
      with harm_finalD [OF assms(2) _ e(2,3)] other show ?thesis by (simp add: s' ps_publication_def)
    qed
  next
    case False
    with e have old: "btm_get (ps_events s) k = Some (e, q)" by (auto simp: s' split: if_splits)
    with e(2,3) assms(2) have "withdrawn (ps_publication s (pv_procedure_revision_id e))"
      by (intro harm_finalD)
    with d(3) False obtain a where a: "pv_from_state v = Some a" "a \<in> {PubSuspended, PubRolledBack, PubSuperseded}"
      by (auto simp: ps_publication_def withdrawn_def)
    from harmed_edges [OF event_edge [OF d(1) a(1)] a(2)] d(4) [OF _ old] False e(2) show ?thesis
      by (auto simp: s' ps_publication_def withdrawn_def)
  qed
qed

lemma reachable_harm_final: "procedure_reachable lib s \<Longrightarrow> harm_final s"
proof (induction rule: procedure_reachable.induct)
  case reachable_start
  then show ?case by (simp add: harm_final_def procedure_state_default_def)
next
  case (reachable_apply s p seq b s')
  show ?case
  proof (cases "\<exists>v. p = ProcedureStateRecorded v")
    case True
    with reachable_apply apply_event_harm_final show ?thesis by (auto simp: result_simps)
  next
    case False
    then have "ps_events (payload_effect s p seq) = ps_events s"
      "ps_current_publication (payload_effect s p seq) = ps_current_publication s" by (cases p; simp)+
    with reachable_apply apply_effect [OF reachable_apply.hyps(2)] show ?thesis by (simp add: harm_final_def ps_publication_def)
  qed
next
  case (reachable_forget s P R)
  from reachable_keyed [OF reachable_forget.hyps] have "btm_sorted (ps_events s)" "btm_sorted (ps_current_publication s)"
    by (simp_all add: tables_keyed_def keyed_def)
  then have get: "btm_get (ps_events (procedure_state_forget s P R)) k = Some (e, q) \<longleftrightarrow>
      btm_get (ps_events s) k = Some (e, q) \<and> pv_procedure_revision_id e \<notin> R" for k e q
    by (auto simp: procedure_state_forget_def Let_def btm_get_retain)
  have kept: "ps_publication (procedure_state_forget s P R) r = ps_publication s r" if "r \<notin> R" for r
    using that btm_get_retain_eq [OF \<open>btm_sorted (ps_current_publication s)\<close>]
    by (simp add: procedure_state_forget_def Let_def ps_publication_def split: option.splits)
  show ?case unfolding harm_final_def get using harm_finalD [OF reachable_forget.IH] kept by metis
qed

text \<open>
  C20. Confirmed harm is final: once an event has suspended a procedure revision for confirmed harm, no event
  that is applied later, in whatever order, and no deletion of other objects makes it active
  again or puts it back on hold.
\<close>
theorem confirmed_harm_final:
  assumes "procedure_reachable lib s" and "btm_get (ps_events s) k = Some (e, q)"
    and "pv_reason e = ReasonConfirmedHarm" and "pv_to_state e = PubSuspended"
  shows "ps_publication s (pv_procedure_revision_id e) \<in> {Some PubSuspended, Some PubRolledBack, Some PubSuperseded}"
  using harm_finalD [OF reachable_harm_final [OF assms(1)] assms(2-4)] by (simp add: withdrawn_def)

section \<open>Holds of stable procedures\<close>

lemma map_filter_member: "f x = Some y \<Longrightarrow> x \<in> set xs \<Longrightarrow> y \<in> set (List.map_filter f xs)"
  by (force simp: List.map_filter_def)

lemma map_filter_memberE:
  assumes "y \<in> set (List.map_filter f xs)" obtains x where "x \<in> set xs" "f x = Some y"
  using assms by (force simp: List.map_filter_def)

lemma payload_state_eventE: "payload_state_event p = Some e \<Longrightarrow> p = ProcedureStateRecorded e"
  by (cases p) simp_all

lemma replay_rejects:
  assumes "x \<in> set xs" and "\<And>s. \<nexists>t. f s x = Ok t"
  shows "replay f s xs \<noteq> Ok t"
  using assms by (induction xs arbitrary: s) (auto simp: and_then_Inr_iff)

text \<open>Applying the payloads of a command to the tables, each with its sequence number.\<close>

definition apply_command ::
  "uuid_lib \<Rightarrow> procedure_state \<Rightarrow> (procedure_payload \<times> u64) list \<Rightarrow> (store_error, procedure_state) result" where
  "apply_command lib = replay (\<lambda>s (p, seq). and_then (procedure_state_apply lib s p seq) (\<lambda>(_, s'). Ok s'))"

lemma hold_to_stable_refused:
  assumes "pv_from_state v = Some PubReviewHold" and "pv_to_state v = PubActiveStable"
  shows "procedure_state_apply lib s (ProcedureStateRecorded v) seq \<noteq> Ok r"
proof
  assume "procedure_state_apply lib s (ProcedureStateRecorded v) seq = Ok r"
  then have "procedure_state_event_validate v = Ok ()"
    using publication_eventD(1) by (auto simp: result_simps apply_state_event_def)
  from event_edge [OF this assms(1)] assms(2) show False by (simp add: publication_edges_def)
qed

lemma review_resumes_stable:
  assumes "cohort_later_review_ok lib s payloads review"
    and "btm_get (ps_negative_evidence s) (nr_negative_evidence_id review) = Some (negative, q)"
    and "ne_local_context negative = None" and "ne_level negative \<noteq> NegIneffective" and "nr_status review \<in> {ReviewDismissed, ReviewSuperseded}"
    and "btm_get (ps_current_publication s) (ne_procedure_revision_id negative) = Some (held, q')"
    and "pv_to_state held = PubReviewHold" and "pv_resume_state held = Some PubActiveStable"
  obtains v where "ProcedureStateRecorded v \<in> set payloads" "pv_from_state v = Some PubReviewHold" "pv_to_state v = PubActiveStable"
proof -
  have "held_publication s (ne_procedure_revision_id negative) = Some held"
    using assms(6,7) by (simp add: held_publication_def)
  with assms(1-5,8) have "review_states_ok (Some (PubActiveStable, ReasonManual)) (review_states lib payloads negative) review"
    by (auto simp: cohort_later_review_ok_def review_expected_state_def resumed_state_def
      split: option.splits negative_review_action_reason.splits sum.splits if_splits)
  then obtain v where "v \<in> set (review_states lib payloads negative)" "pv_to_state v = PubActiveStable"
    by (auto simp: review_states_ok_def split: list.splits)
  then show thesis using that payload_state_eventE by (auto simp: review_states_def elim!: map_filter_memberE)
qed

text \<open>
  C37. A review can never lift the hold of a stable procedure: when a procedure was put on hold
  while it was stable, every command that passes the cohort check and dismisses or
  supersedes the attribution of the harm carries the event that returns it to the stable
  state, and that event is refused by the publication check, so no such command can be
  applied to any state.
\<close>
theorem stable_hold_not_resumable:
  assumes "validate_command_cohort lib s tasks edits payloads = Ok ()"
    and "ProcedureNegativeReviewRecorded review \<in> set payloads" and "nr_review_generation review > 1"
    and "nr_status review \<in> {ReviewDismissed, ReviewSuperseded}"
    and "btm_get (ps_negative_evidence s) (nr_negative_evidence_id review) = Some (negative, q)"
    and "ne_level negative \<noteq> NegIneffective" and "ne_local_context negative = None"
    and "btm_get (ps_current_publication s) (ne_procedure_revision_id negative) = Some (held, q')"
    and "pv_to_state held = PubReviewHold" and "pv_resume_state held = Some PubActiveStable"
    and "map fst events = payloads"
  shows "apply_command lib t events \<noteq> Ok t'"
proof -
  have "review \<in> set (List.map_filter payload_review payloads)" using assms(2) by (intro map_filter_member) auto
  with assms(1,3) have "cohort_later_review_ok lib s payloads review"
    by (auto simp: validate_command_cohort_def Let_def list_all_iff split: if_splits)
  then obtain v where v: "ProcedureStateRecorded v \<in> set payloads" "pv_from_state v = Some PubReviewHold" "pv_to_state v = PubActiveStable"
    using review_resumes_stable assms(4-10) by metis
  with assms(11) obtain seq where seq: "(ProcedureStateRecorded v, seq) \<in> set events" by force
  show ?thesis unfolding apply_command_def
    by (rule replay_rejects [OF seq]) (auto simp: and_then_Inr_iff hold_to_stable_refused [OF v(2,3)] simp del: procedure_state_apply.simps)
qed

section \<open>Promotion\<close>

lemma current_usages_keyed:
  "\<forall>(k, u) \<in> set (current_usages s payloads). pu_procedure_usage_id u = k" "btm_sorted (current_usages s payloads)"
proof -
  define ok where "ok m \<longleftrightarrow> btm_sorted m \<and> (\<forall>(k, u) \<in> set m. pu_procedure_usage_id u = k)" for m :: "(procedure_usage_id, procedure_usage_revision) btree_map"
  have mem: "p \<in> set (btm_insert k v m) \<Longrightarrow> p = (k, v) \<or> p \<in> set m" for p k v and m :: "(procedure_usage_id, procedure_usage_revision) btree_map"
    by (induction k v m rule: btm_insert.induct) (auto split: if_splits)
  have ins: "ok (btm_insert (pu_procedure_usage_id u) u m)" if "ok m" for u m using that mem by (fastforce simp: ok_def)
  have fold_ok: "ok (fold f xs m)" if "ok m" "\<And>x m. ok m \<Longrightarrow> ok (f x m)" for f m and xs :: "'b list"
    using that by (induction xs arbitrary: m) simp_all
  have "ok []" by (simp add: ok_def)
  then have "ok (current_usages s payloads)" unfolding current_usages_def
    by (intro fold_ok) (auto simp: ins split: procedure_payload.splits)
  then show "\<forall>(k, u) \<in> set (current_usages s payloads). pu_procedure_usage_id u = k" "btm_sorted (current_usages s payloads)"
    by (simp_all add: ok_def)
qed

lemma independent_pairs:
  assumes "list_all (\<lambda>i. independent_usage tasks (take i cohort) (cohort ! i)) [0..<length cohort]" and "i < j" and "j < length cohort"
  shows "pu_task_id (cohort ! i) \<noteq> pu_task_id (cohort ! j)
    \<and> (\<forall>t u q r. btm_get tasks (pu_task_id (cohort ! i)) = Some (t, q) \<and> btm_get tasks (pu_task_id (cohort ! j)) = Some (u, r)
        \<longrightarrow> set (tk_request_root_refs t) \<inter> set (tk_request_root_refs u) = {})"
proof -
  have "independent_usage tasks (take j cohort) (cohort ! j)" using assms(1,3) by (simp add: list_all_iff)
  moreover have "cohort ! i \<in> set (take j cohort)" using assms(2,3) by (auto simp: in_set_conv_nth)
  ultimately show ?thesis by (fastforce simp: independent_usage_def list_all_iff split: option.splits)
qed

text \<open>
  A procedure becomes stable for objective successes only from probation, with no active harm, and
  on the strength of at least three supported outcomes of its revision, named by the event, in different
  tasks that share no request and are neither continuations nor splits of others.
\<close>
theorem promotion_rests_on_independent_tasks:
  assumes "validate_command_cohort lib s tasks edits payloads = Ok ()" and "ProcedureStateRecorded e \<in> set payloads"
    and "pv_to_state e = PubActiveStable" and "pv_reason e = ReasonObjectiveSuccesses"
  shows "ps_publication s (pv_procedure_revision_id e) = Some PubActiveProbationary
    \<and> \<not> has_active_harm s (pv_procedure_revision_id e)
    \<and> (\<exists>cohort. length cohort \<ge> 3 \<and> length cohort = length (pv_evidence_refs e)
        \<and> (\<forall>u \<in> set cohort. pu_procedure_revision_id u = pv_procedure_revision_id e \<and> pu_outcome_supported u = ProcTrue
            \<and> btm_get (current_usages s payloads) (pu_procedure_usage_id u) = Some u
            \<and> (\<exists>t q. btm_get tasks (pu_task_id u) = Some (t, q) \<and> tk_continuation_of_task_id t = None \<and> tk_split_from_task_id t = None))
        \<and> (\<forall>i j. i < j \<and> j < length cohort \<longrightarrow> pu_task_id (cohort ! i) \<noteq> pu_task_id (cohort ! j)
            \<and> (\<forall>t u q r. btm_get tasks (pu_task_id (cohort ! i)) = Some (t, q) \<and> btm_get tasks (pu_task_id (cohort ! j)) = Some (u, r)
                \<longrightarrow> set (tk_request_root_refs t) \<inter> set (tk_request_root_refs u) = {})))"
proof -
  let ?cohort = "promotion_cohort lib s e payloads"
  have "e \<in> set (List.map_filter payload_state_event payloads)" using assms(2) by (intro map_filter_member) auto
  with assms have "cohort_stable_ok lib s tasks payloads e"
    by (auto simp: validate_command_cohort_def Let_def list_all_iff split: if_splits)
  then have ok: "ps_publication s (pv_procedure_revision_id e) = Some PubActiveProbationary" "\<not> has_active_harm s (pv_procedure_revision_id e)"
    "length (pv_evidence_refs e) \<ge> 3" "length ?cohort = length (pv_evidence_refs e)"
    and ind: "list_all (\<lambda>i. independent_usage tasks (take i ?cohort) (?cohort ! i)) [0..<length ?cohort]"
    by (auto simp: cohort_stable_ok_def valid_promotion_cohort_def Let_def)
  have root: "\<exists>t q. btm_get tasks (pu_task_id u) = Some (t, q) \<and> tk_continuation_of_task_id t = None \<and> tk_split_from_task_id t = None"
    if u: "u \<in> set ?cohort" for u
  proof -
    from u obtain i where "i < length ?cohort" "u = ?cohort ! i" by (metis in_set_conv_nth)
    with ind have "independent_usage tasks (take i ?cohort) u" by (simp add: list_all_iff)
    then show ?thesis by (auto simp: independent_usage_def split: option.splits)
  qed
  have get: "btm_get (current_usages s payloads) (pu_procedure_usage_id u) = Some u" if u: "u \<in> set ?cohort" for u
  proof -
    from u obtain k where "(k, u) \<in> set (current_usages s payloads)" by (auto simp: promotion_cohort_def btm_values_def)
    with current_usages_keyed [of s payloads] btm_sorted_distinct [OF current_usages_keyed(2)] show ?thesis
      by (auto simp: btm_get_def)
  qed
  have elem: "pu_procedure_revision_id u = pv_procedure_revision_id e \<and> pu_outcome_supported u = ProcTrue" if "u \<in> set ?cohort" for u
    using that by (simp add: promotion_cohort_def)
  have "length ?cohort \<ge> 3" using ok(3,4) by simp
  moreover have "\<forall>u \<in> set ?cohort. pu_procedure_revision_id u = pv_procedure_revision_id e \<and> pu_outcome_supported u = ProcTrue
      \<and> btm_get (current_usages s payloads) (pu_procedure_usage_id u) = Some u
      \<and> (\<exists>t q. btm_get tasks (pu_task_id u) = Some (t, q) \<and> tk_continuation_of_task_id t = None \<and> tk_split_from_task_id t = None)"
    using elem root get by blast
  ultimately show ?thesis using ok(1,2,4) independent_pairs [OF ind] by blast
qed

section \<open>Folds over tables\<close>

lemma replay_append: "replay f s (xs @ ys) = and_then (replay f s xs) (\<lambda>t. replay f t ys)"
proof (induction xs arbitrary: s)
  case (Cons x xs)
  then show ?case by (cases "f s x") simp_all
qed simp

lemma replay_mono:
  assumes "replay f s xs = Ok t" and "\<And>s x s'. x \<in> set xs \<Longrightarrow> f s x = Ok s' \<Longrightarrow> g s x = Ok s'"
  shows "replay g s xs = Ok t"
  using assms by (induction xs arbitrary: s) (fastforce simp: and_then_Inr_iff)+

lemma btm_ext:
  assumes "btm_sorted m" and "btm_sorted m'" and "\<And>k. btm_get m k = btm_get m' k"
  shows "m = m'"
proof -
  note d = btm_sorted_distinct [OF assms(1)] btm_sorted_distinct [OF assms(2)]
  have "set m = set m'"
  proof (intro set_eqI)
    fix p :: "'a \<times> 'b"
    obtain k v where p: "p = (k, v)" by (cases p)
    show "p \<in> set m \<longleftrightarrow> p \<in> set m'"
      using map_of_eq_Some_iff [OF d(1), of k v] map_of_eq_Some_iff [OF d(2), of k v] assms(3) [of k] unfolding p btm_get_def by metis
  qed
  moreover have "inj_on fst (set m)" using d(1) by (simp add: distinct_map)
  ultimately show ?thesis using assms(1,2)
    by (intro map_sorted_distinct_set_unique [of fst]) (simp_all add: btm_sorted_def strict_sorted_iff)
qed

lemma btm_fresh: "\<not> btm_contains_key m k \<longleftrightarrow> k \<notin> fst ` set m"
  by (simp add: btm_contains_key_def btm_get_def map_of_eq_None_iff)

lemma btm_insert_mset: "\<not> btm_contains_key m k \<Longrightarrow> mset (btm_insert k v m) = add_mset (k, v) (mset m)"
  unfolding btm_fresh by (induction k v m rule: btm_insert.induct) auto

lemma btm_values_insert_mset:
  "\<not> btm_contains_key m k \<Longrightarrow> mset (btm_values (btm_insert k v m)) = add_mset v (mset (btm_values m))"
  by (simp add: btm_values_def btm_insert_mset)

lemma btm_values_insert_set: "\<not> btm_contains_key m k \<Longrightarrow> set (btm_values (btm_insert k v m)) = insert v (set (btm_values m))"
  using btm_values_insert_mset [of m k v] by (metis set_mset_add_mset_insert set_mset_mset)

lemma btm_values_insert_filter:
  "\<not> P v \<Longrightarrow> \<not> btm_contains_key m k \<Longrightarrow> filter P (btm_values (btm_insert k v m)) = filter P (btm_values m)"
  unfolding btm_fresh by (induction k v m rule: btm_insert.induct) (auto simp: btm_values_def)

text \<open>Inserting the elements of a list under their keys.\<close>

lemma sorted_fold_insert: "btm_sorted m \<Longrightarrow> btm_sorted (fold (\<lambda>x. btm_insert (key x) x) xs m)"
  by (induction xs arbitrary: m) simp_all

lemma get_fold_insert:
  "btm_get (fold (\<lambda>x. btm_insert (key x) x) xs m) k
    = (if filter (\<lambda>x. key x = k) xs = [] then btm_get m k else Some (last (filter (\<lambda>x. key x = k) xs)))"
  by (induction xs arbitrary: m) auto

text \<open>A checked fold in which every check reads only the entry of its own key.\<close>

fun chain_from :: "('a option \<Rightarrow> 'a \<Rightarrow> bool) \<Rightarrow> 'a option \<Rightarrow> 'a list \<Rightarrow> bool" where
  "chain_from chk c [] = True"
| "chain_from chk c (x # xs) = (chk c x \<and> chain_from chk (Some x) xs)"

lemma chain_from_append_single:
  "chain_from chk c (xs @ [x]) \<longleftrightarrow> chain_from chk c xs \<and> chk (if xs = [] then c else Some (last xs)) x"
  by (induction xs arbitrary: c) auto

lemma keyed_replay_iff:
  assumes "\<And>m x. step m x = (if chk (btm_get m (key x)) x then Ok (btm_insert (key x) x m) else Err e)"
  shows "replay step m xs = Ok m' \<longleftrightarrow>
    (\<forall>k. chain_from chk (btm_get m k) (filter (\<lambda>x. key x = k) xs)) \<and> m' = fold (\<lambda>x. btm_insert (key x) x) xs m"
proof (induction xs arbitrary: m)
  case (Cons x xs)
  have "(\<forall>k. chain_from chk (btm_get m k) (filter (\<lambda>x. key x = k) (x # xs))) \<longleftrightarrow>
      chk (btm_get m (key x)) x \<and> (\<forall>k. chain_from chk (btm_get (btm_insert (key x) x m) k) (filter (\<lambda>x. key x = k) xs))"
    by auto
  with Cons show ?case by (simp add: assms)
qed auto

lemma keyed_replay_extend:
  assumes step: "\<And>m x. step m x = (if chk (btm_get m (key x)) x then Ok (btm_insert (key x) x m) else Err e)"
    and "replay step [] xs = Ok m" and "chk (btm_get m (key x)) x"
    and other: "\<And>k. k \<noteq> key x \<Longrightarrow> filter (\<lambda>x. key x = k) ys = filter (\<lambda>x. key x = k) xs"
    and own: "filter (\<lambda>y. key y = key x) ys = filter (\<lambda>y. key y = key x) xs @ [x]"
  shows "replay step [] ys = Ok (btm_insert (key x) x m)"
proof -
  from assms(2) have ch: "chain_from chk None (filter (\<lambda>x. key x = k) xs)" and m: "m = fold (\<lambda>x. btm_insert (key x) x) xs []" for k
    by (auto simp: keyed_replay_iff [OF step])
  have "chain_from chk None (filter (\<lambda>x. key x = k) ys)" for k
    using ch [of k] assms(3) by (cases "k = key x") (auto simp: own other chain_from_append_single m get_fold_insert split: if_splits)
  moreover have "btm_insert (key x) x m = fold (\<lambda>x. btm_insert (key x) x) ys []"
    by (rule btm_ext) (auto simp: m sorted_fold_insert get_fold_insert own other)
  ultimately show ?thesis by (simp add: keyed_replay_iff [OF step])
qed

text \<open>Sorting a table that has grown by an entry with the greatest key.\<close>

lemma sort_values_append:
  assumes "mset ys = add_mset x (mset xs)" and "inj_on f (set xs)" and "\<And>y. y \<in> set xs \<Longrightarrow> f y < f x"
  shows "sort_key f ys = sort_key f xs @ [x]"
proof (rule sort_key_inj_key_eq)
  show "mset ys = mset (sort_key f xs @ [x])" using assms(1) by simp
  have "set ys = insert x (set xs)" using assms(1) by (metis set_mset_add_mset_insert set_mset_mset)
  moreover have "f x \<notin> f ` set xs" using assms(3) by fastforce
  ultimately show "inj_on f (set ys)" using assms(2) by (auto simp: inj_on_insert)
  show "sorted (map f (sort_key f xs @ [x]))" using assms(3) by (auto simp: sorted_append less_imp_le)
qed

lemma sort_values_filter_same:
  assumes "mset (filter P ys) = mset (filter P xs)" and "inj_on f (set xs)"
  shows "filter P (sort_key f ys) = filter P (sort_key f xs)"
  unfolding filter_sort
proof (rule sort_key_inj_key_eq)
  have "set (filter P ys) \<subseteq> set xs" using assms(1) by (metis filter_is_subset mset_eq_setD)
  then show "inj_on f (set (filter P ys))" using assms(2) inj_on_subset by blast
qed (use assms(1) in simp_all)

section \<open>Rebuilding what was recorded\<close>

text \<open>The loops of \<open>rebuild\<close> on the tables they change.\<close>

definition usage_step ::
  "(revision_id, procedure_revision \<times> u64) btree_map
    \<Rightarrow> (procedure_usage_id, procedure_usage_revision \<times> u64) btree_map \<times> (revision_id, procedure_usage_revision \<times> u64) btree_map
    \<Rightarrow> procedure_usage_revision \<times> u64
    \<Rightarrow> (store_error, (procedure_usage_id, procedure_usage_revision \<times> u64) btree_map
      \<times> (revision_id, procedure_usage_revision \<times> u64) btree_map) result" where
  "usage_step revisions acc item = (case (acc, item) of ((us, urs), (v, q)) \<Rightarrow>
    if procedure_usage_revision_validate v \<and> btm_contains_key revisions (pu_procedure_revision_id v)
       \<and> (case btm_get us (pu_procedure_usage_id v) of
            Some (c, cq) \<Rightarrow> \<not> q \<le> cq \<and> procedure_usage_revision_validate_successor c v
          | None \<Rightarrow> pu_revision_generation v = 1 \<and> pu_predecessor_revision_id v = None)
       \<and> \<not> btm_contains_key urs (pu_usage_revision_id v)
    then Ok (btm_insert (pu_procedure_usage_id v) (v, q) us, btm_insert (pu_usage_revision_id v) (v, q) urs)
    else Err StoreCorrupt)"

lemma apply_usage_step:
  "apply_usage s v q = and_then (usage_step (ps_revisions s) (ps_usages s, ps_usage_revisions s) (v, q))
    (\<lambda>(us, urs). Ok (s\<lparr>ps_usages := us, ps_usage_revisions := urs\<rparr>))"
  by (auto simp: apply_usage_def usage_step_def split: option.splits)

definition review_step ::
  "uuid_lib \<Rightarrow> procedure_state
    \<Rightarrow> (procedure_negative_evidence_id, procedure_negative_review_event \<times> u64) btree_map
      \<times> (revision_id, procedure_negative_review_event \<times> u64) btree_map
    \<Rightarrow> procedure_negative_review_event \<times> u64
    \<Rightarrow> (store_error, (procedure_negative_evidence_id, procedure_negative_review_event \<times> u64) btree_map
      \<times> (revision_id, procedure_negative_review_event \<times> u64) btree_map) result" where
  "review_step lib s acc item = (case (acc, item) of ((cur, all), (v, q)) \<Rightarrow>
    case btm_get (ps_negative_evidence s) (nr_negative_evidence_id v) of None \<Rightarrow> Err StoreCorrupt
    | Some (n, _) \<Rightarrow>
      if procedure_negative_review_event_validate v
         \<and> (case btm_get cur (nr_negative_evidence_id v) of
              Some (c, cq) \<Rightarrow> later_review_ok c cq v q | None \<Rightarrow> first_review_ok lib s n v q)
         \<and> \<not> btm_contains_key all (nr_review_event_id v)
      then Ok (btm_insert (nr_negative_evidence_id v) (v, q) cur, btm_insert (nr_review_event_id v) (v, q) all)
      else Err StoreCorrupt)"

lemma apply_review_step:
  "apply_negative_review lib s v q = and_then (review_step lib s (ps_current_negative_reviews s, ps_negative_reviews s) (v, q))
    (\<lambda>(cur, all). Ok (s\<lparr>ps_current_negative_reviews := cur, ps_negative_reviews := all\<rparr>))"
  by (auto simp: apply_negative_review_def review_step_def split: option.splits)

lemma review_step_env:
  assumes "ps_negative_evidence s = ps_negative_evidence t" and "ps_usage_revisions s = ps_usage_revisions t"
  shows "review_step lib s = review_step lib t"
  using assms by (intro ext) (simp add: review_step_def first_review_ok_def usage_before_def split: option.splits prod.splits)

lemma replay_usage_step:
  "replay (\<lambda>s (v, q). apply_usage s v q) s xs = and_then (replay (usage_step (ps_revisions s)) (ps_usages s, ps_usage_revisions s) xs)
    (\<lambda>(us, urs). Ok (s\<lparr>ps_usages := us, ps_usage_revisions := urs\<rparr>))"
proof (induction xs arbitrary: s)
  case (Cons x xs)
  obtain v q where x: "x = (v, q)" by (cases x)
  show ?case
  proof (cases "usage_step (ps_revisions s) (ps_usages s, ps_usage_revisions s) (v, q)")
    case (Inr p)
    obtain us urs where p: "p = (us, urs)" by (cases p)
    show ?thesis
      using Cons [of "s\<lparr>ps_usages := us, ps_usage_revisions := urs\<rparr>"] Inr by (simp add: x p apply_usage_step)
  qed (simp add: x apply_usage_step)
qed simp

lemma replay_review_step:
  "replay (\<lambda>s (v, q). apply_negative_review lib s v q) s xs
    = and_then (replay (review_step lib s) (ps_current_negative_reviews s, ps_negative_reviews s) xs)
      (\<lambda>(cur, all). Ok (s\<lparr>ps_current_negative_reviews := cur, ps_negative_reviews := all\<rparr>))"
proof (induction xs arbitrary: s)
  case (Cons x xs)
  obtain v q where x: "x = (v, q)" by (cases x)
  show ?case
  proof (cases "review_step lib s (ps_current_negative_reviews s, ps_negative_reviews s) (v, q)")
    case (Inr p)
    obtain cur all where p: "p = (cur, all)" by (cases p)
    have "review_step lib (s\<lparr>ps_current_negative_reviews := cur, ps_negative_reviews := all\<rparr>) = review_step lib s"
      by (rule review_step_env) simp_all
    then show ?thesis
      using Cons [of "s\<lparr>ps_current_negative_reviews := cur, ps_negative_reviews := all\<rparr>"] Inr by (simp add: x p apply_review_step)
  qed (simp add: x apply_review_step)
qed simp

definition revision_chk :: "(procedure_revision \<times> u64) option \<Rightarrow> procedure_revision \<times> u64 \<Rightarrow> bool" where
  "revision_chk c x \<longleftrightarrow> procedure_revision_validate (fst x) = Ok () \<and> (case c of
      Some (cur, cq) \<Rightarrow> procedure_revision_validate_successor cur (fst x) = Ok () \<and> cq < snd x
    | None \<Rightarrow> pr_revision_generation (fst x) = 1 \<and> pr_parent_revision_id (fst x) = None)"

lemma rebuild_revision_chk:
  "rebuild_revision m x = (if revision_chk (btm_get m (pr_procedure_id (fst x))) x
    then Ok (btm_insert (pr_procedure_id (fst x)) x m) else Err StoreCorrupt)"
  by (cases x; cases "procedure_revision_validate (fst x)")
    (auto simp: rebuild_revision_def revision_chk_def is_ok_unit split: option.splits)

abbreviation revision_key :: "procedure_revision \<times> u64 \<Rightarrow> procedure_id \<times> u32" where
  "revision_key \<equiv> \<lambda>(v, _). (pr_procedure_id v, pr_revision_generation v)"

definition seqs_of :: "('k, 'v \<times> u64) btree_map \<Rightarrow> u64 set" where
  "seqs_of m = snd ` set (btm_values m)"

definition seq_sorted :: "('k, 'v \<times> u64) btree_map \<Rightarrow> ('v \<times> u64) list" where
  "seq_sorted m = sort_key snd (btm_values m)"

lemma seq_sorted_insert:
  assumes "\<not> btm_contains_key m k" and "inj_on snd (set (btm_values m))" and "\<forall>q \<in> seqs_of m. q < seq"
  shows "seq_sorted (btm_insert k (v, seq) m) = seq_sorted m @ [(v, seq)]"
  unfolding seq_sorted_def using assms
  by (intro sort_values_append) (auto simp: btm_values_insert_mset seqs_of_def)

lemma seq_inj_insert:
  assumes "\<not> btm_contains_key m k" and "inj_on snd (set (btm_values m))" and "\<forall>q \<in> seqs_of m. q < seq"
  shows "inj_on snd (set (btm_values (btm_insert k (v, seq) m)))"
proof -
  have "seq \<notin> snd ` set (btm_values m)" using assms(3) by (auto simp: seqs_of_def)
  then show ?thesis using assms(2) by (simp add: btm_values_insert_set [OF assms(1)] inj_on_insert) blast
qed

lemma seqs_of_insert: "seqs_of (btm_insert k (v, seq) m) \<subseteq> insert seq (seqs_of m)"
proof -
  have "p \<in> set (btm_insert k (v, seq) m) \<Longrightarrow> p = (k, v, seq) \<or> p \<in> set m" for p
    by (induction k "(v, seq)" m rule: btm_insert.induct) (auto split: if_splits)
  then show ?thesis by (fastforce simp: seqs_of_def btm_values_def)
qed

lemma seqs_of_get: "btm_get m k = Some (v, q) \<Longrightarrow> q \<in> seqs_of m"
  by (force simp: seqs_of_def dest: btm_get_in_values)

definition rebuilds :: "uuid_lib \<Rightarrow> procedure_state \<Rightarrow> bool" where
  "rebuilds lib s \<longleftrightarrow> inj_on revision_key (set (btm_values (ps_revisions s)))
    \<and> inj_on snd (set (btm_values (ps_events s))) \<and> inj_on snd (set (btm_values (ps_usage_revisions s)))
    \<and> inj_on snd (set (btm_values (ps_negative_reviews s)))
    \<and> replay rebuild_revision [] (sort_key revision_key (btm_values (ps_revisions s))) = Ok (ps_procedures s)
    \<and> replay (rebuild_event (ps_revisions s)) ([], []) (seq_sorted (ps_events s)) = Ok (ps_current_publication s, ps_events s)
    \<and> replay (usage_step (ps_revisions s)) ([], []) (seq_sorted (ps_usage_revisions s)) = Ok (ps_usages s, ps_usage_revisions s)
    \<and> replay (review_step lib s) ([], []) (seq_sorted (ps_negative_reviews s)) = Ok (ps_current_negative_reviews s, ps_negative_reviews s)
    \<and> (\<forall>(n, _) \<in> set (btm_values (ps_negative_evidence s)). procedure_negative_evidence_validate n \<and> \<not> negative_usage_bad s n)
    \<and> ps_negative_evidence_by_revision s = index_negatives (ps_negative_evidence s)"

text \<open>Sequence numbers that have been used, and how far the generations of the current revisions have come.\<close>

definition used_seqs :: "procedure_state \<Rightarrow> u64 set" where
  "used_seqs s = seqs_of (ps_procedures s) \<union> seqs_of (ps_revisions s) \<union> seqs_of (ps_events s) \<union> seqs_of (ps_current_publication s)
    \<union> seqs_of (ps_usage_revisions s) \<union> seqs_of (ps_usages s) \<union> seqs_of (ps_negative_reviews s) \<union> seqs_of (ps_current_negative_reviews s)"

definition generations_led :: "nat \<Rightarrow> procedure_state \<Rightarrow> bool" where
  "generations_led n s \<longleftrightarrow>
    (\<forall>(r, _) \<in> set (btm_values (ps_revisions s)). \<exists>c q. btm_get (ps_procedures s) (pr_procedure_id r) = Some (c, q)
        \<and> pr_revision_generation r \<le> pr_revision_generation c)
    \<and> (\<forall>k c q. btm_get (ps_procedures s) k = Some (c, q) \<longrightarrow> unat (pr_revision_generation c) \<le> n)"

lemma used_seqs_effect: "used_seqs (payload_effect s p seq) \<subseteq> insert seq (used_seqs s)"
  by (cases p) (use seqs_of_insert in \<open>fastforce simp: used_seqs_def\<close>)+

lemma used_before:
  assumes "\<forall>q \<in> used_seqs s. q < seq"
  shows "btm_get (ps_procedures s) k = Some (c, q) \<Longrightarrow> q < seq" "btm_get (ps_revisions s) k = Some (c, q) \<Longrightarrow> q < seq"
    "btm_get (ps_current_publication s) k' = Some (e, q) \<Longrightarrow> q < seq" "btm_get (ps_usages s) k = Some (u, q) \<Longrightarrow> q < seq"
    "btm_get (ps_current_negative_reviews s) k = Some (r, q) \<Longrightarrow> q < seq"
  using assms unfolding used_seqs_def by (metis UnCI seqs_of_get)+

lemma successor_generation:
  assumes "procedure_revision_validate_successor c v = Ok ()" and "unat (pr_revision_generation c) < 2 ^ 32 - 1"
  shows "unat (pr_revision_generation v) = Suc (unat (pr_revision_generation c))"
    and "pr_revision_generation c < pr_revision_generation v"
proof -
  have "unat (pr_revision_generation c + 1) = Suc (unat (pr_revision_generation c))"
    using assms(2) by (simp add: unat_word_ariths)
  moreover have "pr_revision_generation v = u32_saturating_add (pr_revision_generation c) 1"
    using assms(1) by (auto simp: procedure_revision_validate_successor_def result_simps)
  ultimately show "unat (pr_revision_generation v) = Suc (unat (pr_revision_generation c))"
    by (simp add: u32_saturating_add_def word_less_nat_alt)
  then show "pr_revision_generation c < pr_revision_generation v" by (simp add: word_less_nat_alt)
qed

lemma successor_valid: "procedure_revision_validate_successor c v = Ok () \<Longrightarrow> procedure_revision_validate v = Ok ()"
  by (auto simp: procedure_revision_validate_successor_def result_simps)

lemma apply_revisionD:
  assumes "apply_revision s v seq = Ok s'"
  shows "\<not> btm_contains_key (ps_revisions s) (pr_revision_id v)" "s' = payload_effect s (ProcedureRevisionRecorded v) seq"
    "btm_get (ps_procedures s) (pr_procedure_id v) = Some (c, q) \<Longrightarrow> procedure_revision_validate_successor c v = Ok ()"
    "btm_get (ps_procedures s) (pr_procedure_id v) = None \<Longrightarrow> pr_revision_generation v = 1 \<and> pr_parent_revision_id v = None"
  using assms by (auto simp: apply_revision_def is_ok_unit split: if_splits option.splits)

lemma generations_led_effect:
  assumes "apply_revision s v seq = Ok s'" and "generations_led n s" and "n < 2 ^ 32 - 1"
  shows "generations_led (Suc n) s'" and "\<forall>(r, _) \<in> set (btm_values (ps_revisions s)).
    pr_procedure_id r = pr_procedure_id v \<longrightarrow> pr_revision_generation r < pr_revision_generation v"
proof -
  note d = apply_revisionD [OF assms(1)]
  have new: "unat (pr_revision_generation v) \<le> Suc n \<and> (\<forall>c q. btm_get (ps_procedures s) (pr_procedure_id v) = Some (c, q) \<longrightarrow>
      pr_revision_generation c < pr_revision_generation v)"
  proof (cases "btm_get (ps_procedures s) (pr_procedure_id v)")
    case (Some x)
    obtain c q where x: "x = (c, q)" by (cases x)
    with Some assms(2) have "unat (pr_revision_generation c) \<le> n" by (auto simp: generations_led_def)
    with successor_generation [OF d(3) [OF Some [unfolded x]]] assms(3) x Some show ?thesis by auto
  qed (use d(4) in simp)
  show older: "\<forall>(r, _) \<in> set (btm_values (ps_revisions s)).
    pr_procedure_id r = pr_procedure_id v \<longrightarrow> pr_revision_generation r < pr_revision_generation v"
    using new assms(2) unfolding generations_led_def by (smt (verit) case_prodD case_prodI2 order.strict_trans1)
  show "generations_led (Suc n) s'" unfolding generations_led_def
  proof (intro conjI ballI allI impI)
    fix x assume "x \<in> set (btm_values (ps_revisions s'))"
    then have x: "x = (v, seq) \<or> x \<in> set (btm_values (ps_revisions s))" by (simp add: d(2) btm_values_insert_set [OF d(1)])
    show "case x of (r, _) \<Rightarrow> \<exists>c q. btm_get (ps_procedures s') (pr_procedure_id r) = Some (c, q) \<and> pr_revision_generation r \<le> pr_revision_generation c"
    proof (cases "x = (v, seq)")
      case False
      obtain r q where rq: "x = (r, q)" by (cases x)
      with False x have mem: "(r, q) \<in> set (btm_values (ps_revisions s))" by blast
      show ?thesis
      proof (cases "pr_procedure_id r = pr_procedure_id v")
        case True
        with older mem have "pr_revision_generation r < pr_revision_generation v" by blast
        with True show ?thesis by (simp add: rq d(2) less_imp_le)
      next
        case other: False
        from assms(2) mem have "\<exists>c q. btm_get (ps_procedures s) (pr_procedure_id r) = Some (c, q)
            \<and> pr_revision_generation r \<le> pr_revision_generation c" unfolding generations_led_def by blast
        with other show ?thesis by (simp add: rq d(2))
      qed
    qed (simp add: d(2))
  next
    fix k c q assume "btm_get (ps_procedures s') k = Some (c, q)"
    then have "c = v \<or> btm_get (ps_procedures s) k = Some (c, q)" by (auto simp: d(2) split: if_splits)
    moreover have "unat (pr_revision_generation c) \<le> n" if "btm_get (ps_procedures s) k = Some (c, q)"
      using that assms(2) unfolding generations_led_def by blast
    ultimately show "unat (pr_revision_generation c) \<le> Suc n" using new le_SucI by blast
  qed
qed

lemma rebuild_event_mono:
  assumes "rebuild_event revs acc x = Ok acc'" and "\<not> btm_contains_key revs k"
  shows "rebuild_event (btm_insert k y revs) acc x = Ok acc'"
  using assms by (cases acc; cases x) (auto simp: rebuild_event_def result_simps validate_publication_event_def
    btm_contains_key_def split: if_splits)

lemma usage_step_mono:
  assumes "usage_step revs acc x = Ok acc'" and "\<not> btm_contains_key revs k"
  shows "usage_step (btm_insert k y revs) acc x = Ok acc'"
  using assms by (cases acc; cases x) (auto simp: usage_step_def btm_contains_key_def split: if_splits)

lemma rebuilds_revision:
  assumes "rebuilds lib s" and "apply_revision s v seq = Ok s'" and "procedure_revision_validate v = Ok ()"
    and "\<forall>q \<in> used_seqs s. q < seq" and "generations_led n s" and "n < 2 ^ 32 - 1"
  shows "rebuilds lib s'"
proof -
  note r = assms(1) [unfolded rebuilds_def] and d = apply_revisionD [OF assms(2)] and older = generations_led_effect(2) [OF assms(2,5,6)]
  let ?revs = "btm_insert (pr_revision_id v) (v, seq) (ps_revisions s)"
  have inj: "inj_on revision_key (set (btm_values ?revs))"
    using r older by (auto simp: btm_values_insert_set [OF d(1)] inj_on_insert)
  have chk: "revision_chk (btm_get (ps_procedures s) (pr_procedure_id v)) (v, seq)"
    using assms(3,4) d(3,4) by (auto simp: revision_chk_def used_seqs_def dest: seqs_of_get split: option.splits)
  have ms: "mset (btm_values ?revs) = add_mset (v, seq) (mset (btm_values (ps_revisions s)))"
    by (rule btm_values_insert_mset [OF d(1)])
  have "replay rebuild_revision [] (sort_key revision_key (btm_values ?revs)) = Ok (btm_insert (pr_procedure_id v) (v, seq) (ps_procedures s))"
  proof (rule keyed_replay_extend [where key = "\<lambda>x. pr_procedure_id (fst x)" and x = "(v, seq)", simplified, OF rebuild_revision_chk])
    show "replay rebuild_revision [] (sort_key revision_key (btm_values (ps_revisions s))) = Ok (ps_procedures s)" using r by simp
    show "revision_chk (btm_get (ps_procedures s) (pr_procedure_id v)) (v, seq)" by (rule chk)
    show "filter (\<lambda>x. pr_procedure_id (fst x) = k) (sort_key revision_key (btm_values ?revs))
        = filter (\<lambda>x. pr_procedure_id (fst x) = k) (sort_key revision_key (btm_values (ps_revisions s)))" if "k \<noteq> pr_procedure_id v" for k
      using r that ms by (intro sort_values_filter_same) auto
    show "filter (\<lambda>y. pr_procedure_id (fst y) = pr_procedure_id v) (sort_key revision_key (btm_values ?revs))
        = filter (\<lambda>y. pr_procedure_id (fst y) = pr_procedure_id v) (sort_key revision_key (btm_values (ps_revisions s))) @ [(v, seq)]"
      unfolding filter_sort using r ms older by (intro sort_values_append) (auto simp: inj_on_def)
  qed
  moreover have "replay (rebuild_event ?revs) ([], []) (seq_sorted (ps_events s)) = Ok (ps_current_publication s, ps_events s)"
    by (rule replay_mono [where f = "rebuild_event (ps_revisions s)"]) (use r in simp, rule rebuild_event_mono [OF _ d(1)])
  moreover have "replay (usage_step ?revs) ([], []) (seq_sorted (ps_usage_revisions s)) = Ok (ps_usages s, ps_usage_revisions s)"
    by (rule replay_mono [where f = "usage_step (ps_revisions s)"]) (use r in simp, rule usage_step_mono [OF _ d(1)])
  moreover have "review_step lib s' = review_step lib s" by (rule review_step_env) (simp_all add: d(2))
  ultimately show ?thesis using r inj by (simp add: rebuilds_def d(2) negative_usage_bad_def)
qed

lemma rebuilds_event:
  assumes "rebuilds lib s" and "apply_state_event s v seq = Ok s'" and "\<forall>q \<in> used_seqs s. q < seq"
  shows "rebuilds lib s'"
proof -
  note r = assms(1) [unfolded rebuilds_def]
  from assms(2) have v: "validate_publication_event (ps_revisions s) (ps_events s) (ps_current_publication s) v = Ok ()"
    and fresh: "\<not> btm_contains_key (ps_events s) (pv_state_event_id v)" and s': "s' = payload_effect s (ProcedureStateRecorded v) seq"
    by (auto simp: apply_state_event_def result_simps split: if_splits)
  have bound: "\<forall>q \<in> seqs_of (ps_events s). q < seq" using assms(3) by (simp add: used_seqs_def)
  obtain w rq where w: "btm_get (ps_revisions s) (pv_procedure_revision_id v) = Some (w, rq)" "rq < seq"
    using publication_eventD(2) [OF v] assms(3) by (auto simp: btm_contains_key_iff used_seqs_def dest: seqs_of_get)
  have "\<not> is_some_and (\<lambda>(_, pq). seq \<le> pq) (btm_get (ps_current_publication s) (pv_procedure_revision_id v))"
    using used_before(3) [OF assms(3), of "pv_procedure_revision_id v"]
    by (cases "btm_get (ps_current_publication s) (pv_procedure_revision_id v)") fastforce+
  with v w have "rebuild_event (ps_revisions s) (ps_current_publication s, ps_events s) (v, seq)
      = Ok (ps_current_publication s', ps_events s')"
    by (simp add: rebuild_event_def ok_or_def s')
  then have "replay (rebuild_event (ps_revisions s)) ([], []) (seq_sorted (ps_events s')) = Ok (ps_current_publication s', ps_events s')"
    using r seq_sorted_insert [OF fresh _ bound] by (simp add: s' replay_append)
  moreover have "review_step lib s' = review_step lib s" by (rule review_step_env) (simp_all add: s')
  ultimately show ?thesis using r seq_inj_insert [OF fresh _ bound] by (simp add: rebuilds_def s' negative_usage_bad_def)
qed

lemma usage_before_insert:
  assumes "\<not> btm_contains_key (ps_usage_revisions s) (pu_usage_revision_id v)" and "q < seq"
  shows "usage_before (payload_effect s (ProcedureUsageRecorded v) seq) i q = usage_before s i q"
proof -
  have "filter (\<lambda>(usage, usage_seq). pu_procedure_usage_id usage = i \<and> usage_seq < q)
      (btm_values (btm_insert (pu_usage_revision_id v) (v, seq) (ps_usage_revisions s)))
    = filter (\<lambda>(usage, usage_seq). pu_procedure_usage_id usage = i \<and> usage_seq < q) (btm_values (ps_usage_revisions s))"
    using assms by (intro btm_values_insert_filter) auto
  then show ?thesis by (simp add: usage_before_def)
qed

lemma review_step_mono:
  assumes "review_step lib s acc (v, q) = Ok acc'"
    and "\<And>n nq. btm_get (ps_negative_evidence s) (nr_negative_evidence_id v) = Some (n, nq) \<Longrightarrow>
      btm_get (ps_negative_evidence t) (nr_negative_evidence_id v) = Some (n, nq)
      \<and> usage_before t (ne_procedure_usage_id n) q = usage_before s (ne_procedure_usage_id n) q"
  shows "review_step lib t acc (v, q) = Ok acc'"
proof -
  obtain n nq where n: "btm_get (ps_negative_evidence s) (nr_negative_evidence_id v) = Some (n, nq)"
    using assms(1) by (cases acc) (auto simp: review_step_def split: option.splits)
  from assms(2) [OF n] have "first_review_ok lib t n v q = first_review_ok lib s n v q" by (simp add: first_review_ok_def)
  with assms(2) [OF n] assms(1) n show ?thesis by (cases acc) (auto simp: review_step_def split: option.splits if_splits)
qed

lemma seq_sorted_bound: "(v, q) \<in> set (seq_sorted m) \<Longrightarrow> \<forall>q \<in> seqs_of m. q < seq \<Longrightarrow> q < seq"
  by (force simp: seq_sorted_def seqs_of_def)

lemma rebuilds_usage:
  assumes "rebuilds lib s" and "apply_usage s v seq = Ok s'" and "\<forall>q \<in> used_seqs s. q < seq"
  shows "rebuilds lib s'"
proof -
  note r = assms(1) [unfolded rebuilds_def]
  have fresh: "\<not> btm_contains_key (ps_usage_revisions s) (pu_usage_revision_id v)" and s': "s' = payload_effect s (ProcedureUsageRecorded v) seq"
    using assms(2) by (auto simp: apply_usage_def split: if_splits)
  have bound: "\<forall>q \<in> seqs_of (ps_usage_revisions s). q < seq" "\<forall>q \<in> seqs_of (ps_negative_reviews s). q < seq"
    using assms(3) by (simp_all add: used_seqs_def)
  have "usage_step (ps_revisions s) (ps_usages s, ps_usage_revisions s) (v, seq) = Ok (ps_usages s', ps_usage_revisions s')"
    using assms(2) unfolding apply_usage_step by (auto simp: result_simps)
  then have "replay (usage_step (ps_revisions s)) ([], []) (seq_sorted (ps_usage_revisions s')) = Ok (ps_usages s', ps_usage_revisions s')"
    using r seq_sorted_insert [OF fresh _ bound(1)] by (simp add: s' replay_append)
  moreover have "replay (review_step lib s') ([], []) (seq_sorted (ps_negative_reviews s)) = Ok (ps_current_negative_reviews s, ps_negative_reviews s)"
  proof (rule replay_mono [where f = "review_step lib s"])
    fix acc x acc' assume x: "x \<in> set (seq_sorted (ps_negative_reviews s))" "review_step lib s acc x = Ok acc'"
    obtain w q where w: "x = (w, q)" by (cases x)
    from x(1) bound(2) have "q < seq" unfolding w by (rule seq_sorted_bound)
    from review_step_mono [OF x(2) [unfolded w], of s'] usage_before_insert [OF fresh this] show "review_step lib s' acc x = Ok acc'"
      by (simp add: w s')
  qed (use r in simp)
  moreover have "\<not> negative_usage_bad s' n" if "\<not> negative_usage_bad s n" for n
  proof (cases "ne_procedure_usage_id n = pu_procedure_usage_id v")
    case True
    with that obtain c cq where "btm_get (ps_usages s) (pu_procedure_usage_id v) = Some (c, cq)"
      "pu_procedure_revision_id c = ne_procedure_revision_id n" "pu_task_id c = ne_task_id n" "pu_action_aligned c = ProcTrue"
      by (auto simp: negative_usage_bad_def split: option.splits)
    moreover from this(1) assms(2) have "usage_advances c v"
      by (intro usage_successorD(1)) (auto simp: apply_usage_def split: if_splits)
    ultimately show ?thesis using True by (simp add: s' negative_usage_bad_def usage_advances_def truth_progress_def)
  qed (use that in \<open>simp add: s' negative_usage_bad_def\<close>)
  ultimately show ?thesis using r seq_inj_insert [OF fresh _ bound(1)] by (auto simp: rebuilds_def s')
qed

lemma get_index_negatives:
  "btm_get (index_negatives m) r = (let ids = map fst (filter (\<lambda>(_, n, _). ne_procedure_revision_id n = r) m) in
    if ids = [] then None else Some (btree_set ids))"
proof -
  define f where "f = (\<lambda>(i :: procedure_negative_evidence_id, n :: procedure_negative_evidence, _ :: u64) m. entry_insert (ne_procedure_revision_id n) i m)"
  have "btm_get (fold f m acc) r = (let ids = map fst (filter (\<lambda>(_, n, _). ne_procedure_revision_id n = r) m) in
      if ids = [] then btm_get acc r else Some (btree_set (ids @ (case btm_get acc r of None \<Rightarrow> [] | Some xs \<Rightarrow> xs))))" for acc
  proof (induction m arbitrary: acc)
    case (Cons p m)
    obtain i n q where p: "p = (i, n, q)" using prod_cases3 by blast
    show ?case unfolding fold_Cons comp_def Cons
      by (auto simp: p f_def entry_insert_def Let_def intro!: btree_set_cong)
  qed simp
  then show ?thesis by (simp add: index_negatives_def f_def)
qed

lemma sorted_index_negatives: "btm_sorted (index_negatives m)"
proof -
  have "btm_sorted (fold (\<lambda>(i :: procedure_negative_evidence_id, n :: procedure_negative_evidence, _ :: u64) m. entry_insert (ne_procedure_revision_id n) i m) xs acc)" if "btm_sorted acc" for xs acc
    using that by (induction xs arbitrary: acc) (auto simp: entry_insert_def)
  then show ?thesis by (simp add: index_negatives_def)
qed

lemma index_negatives_insert:
  assumes "\<not> btm_contains_key m i"
  shows "index_negatives (btm_insert i (n, q) m) = entry_insert (ne_procedure_revision_id n) i (index_negatives m)"
proof (rule btm_ext)
  show "btm_sorted (index_negatives (btm_insert i (n, q) m))" by (rule sorted_index_negatives)
  show "btm_sorted (entry_insert (ne_procedure_revision_id n) i (index_negatives m))"
    by (simp add: entry_insert_def sorted_index_negatives)
  fix r
  let ?P = "\<lambda>(_, n, _). ne_procedure_revision_id n = r"
  have "set (btm_insert i (n, q) m) = insert (i, n, q) (set m)"
    using btm_insert_mset [OF assms, of "(n, q)"] by (metis set_mset_add_mset_insert set_mset_mset)
  then have flt: "set (filter ?P (btm_insert i (n, q) m)) = (if ne_procedure_revision_id n = r then {(i, n, q)} else {}) \<union> set (filter ?P m)"
    by auto
  show "btm_get (index_negatives (btm_insert i (n, q) m)) r
      = btm_get (entry_insert (ne_procedure_revision_id n) i (index_negatives m)) r"
  proof (cases "ne_procedure_revision_id n = r")
    case True
    with flt have grown: "set (filter ?P (btm_insert i (n, q) m)) = insert (i, n, q) (set (filter ?P m))" by simp
    then have "filter ?P (btm_insert i (n, q) m) \<noteq> []" by (metis insert_not_empty set_empty)
    moreover have "btree_set (map fst (filter ?P (btm_insert i (n, q) m))) = btree_set (i # map fst (filter ?P m))"
      by (rule btree_set_cong) (simp only: set_map grown list.set image_insert fst_conv)
    moreover have "btree_set (i # btree_set xs) = btree_set (i # xs)" for xs by (rule btree_set_cong) simp
    ultimately show ?thesis using True by (simp add: get_index_negatives entry_insert_def Let_def)
  next
    case False
    with flt have same: "set (filter ?P (btm_insert i (n, q) m)) = set (filter ?P m)" by simp
    then have "filter ?P (btm_insert i (n, q) m) = [] \<longleftrightarrow> filter ?P m = []" by (metis set_empty)
    moreover have "btree_set (map fst (filter ?P (btm_insert i (n, q) m))) = btree_set (map fst (filter ?P m))"
      by (rule btree_set_cong) (simp only: set_map same)
    ultimately show ?thesis using False by (simp add: get_index_negatives entry_insert_def Let_def)
  qed
qed

lemma rebuilds_negative:
  assumes "rebuilds lib s" and "apply_negative s v seq = Ok s'"
  shows "rebuilds lib s'"
proof -
  note r = assms(1) [unfolded rebuilds_def]
  have fresh: "\<not> btm_contains_key (ps_negative_evidence s) (ne_negative_evidence_id v)"
    and v: "procedure_negative_evidence_validate v" "\<not> negative_usage_bad s v"
    and s': "s' = payload_effect s (ProcedureNegativeEvidenceRecorded v) seq"
    using assms(2) by (auto simp: apply_negative_def split: if_splits)
  have "replay (review_step lib s') ([], []) (seq_sorted (ps_negative_reviews s)) = Ok (ps_current_negative_reviews s, ps_negative_reviews s)"
  proof (rule replay_mono [where f = "review_step lib s"])
    fix acc x acc' assume x: "review_step lib s acc x = Ok acc'"
    obtain w q where w: "x = (w, q)" by (cases x)
    have "btm_get (ps_negative_evidence s') (nr_negative_evidence_id w) = Some (n, nq)"
      if "btm_get (ps_negative_evidence s) (nr_negative_evidence_id w) = Some (n, nq)" for n nq
      using that fresh by (auto simp: s' btm_contains_key_def)
    with review_step_mono [OF x [unfolded w], of s'] show "review_step lib s' acc x = Ok acc'"
      by (simp add: w s' usage_before_def)
  qed (use r in simp)
  moreover have "negative_usage_bad s' = negative_usage_bad s" by (intro ext) (simp add: negative_usage_bad_def s')
  ultimately show ?thesis using r v
    by (simp add: rebuilds_def s' btm_values_insert_set [OF fresh] index_negatives_insert [OF fresh])
qed

lemma rebuilds_review:
  assumes "rebuilds lib s" and "apply_negative_review lib s v seq = Ok s'" and "\<forall>q \<in> used_seqs s. q < seq"
  shows "rebuilds lib s'"
proof -
  note r = assms(1) [unfolded rebuilds_def]
  have fresh: "\<not> btm_contains_key (ps_negative_reviews s) (nr_review_event_id v)"
    and s': "s' = payload_effect s (ProcedureNegativeReviewRecorded v) seq"
    using assms(2) by (auto simp: apply_negative_review_def split: if_splits option.splits)
  have bound: "\<forall>q \<in> seqs_of (ps_negative_reviews s). q < seq" using assms(3) by (simp add: used_seqs_def)
  have env: "review_step lib s' = review_step lib s" by (rule review_step_env) (simp_all add: s')
  have "review_step lib s (ps_current_negative_reviews s, ps_negative_reviews s) (v, seq) = Ok (ps_current_negative_reviews s', ps_negative_reviews s')"
    using assms(2) unfolding apply_review_step by (auto simp: result_simps)
  then have "replay (review_step lib s') ([], []) (seq_sorted (ps_negative_reviews s')) = Ok (ps_current_negative_reviews s', ps_negative_reviews s')"
    using r seq_sorted_insert [OF fresh _ bound] by (simp add: env) (simp add: s' replay_append)
  moreover have "negative_usage_bad s' = negative_usage_bad s" by (intro ext) (simp add: negative_usage_bad_def s')
  ultimately show ?thesis using r seq_inj_insert [OF fresh _ bound] by (simp add: rebuilds_def s')
qed

lemma generations_led_mono:
  assumes "generations_led n s" and "ps_procedures t = ps_procedures s" and "ps_revisions t = ps_revisions s"
  shows "generations_led (Suc n) t"
  unfolding generations_led_def assms(2,3)
proof (intro conjI allI impI)
  fix k c q assume "btm_get (ps_procedures s) k = Some (c, q)"
  with assms(1) have "unat (pr_revision_generation c) \<le> n" unfolding generations_led_def by blast
  then show "unat (pr_revision_generation c) \<le> Suc n" by (rule le_SucI)
qed (use assms(1) in \<open>simp add: generations_led_def\<close>)

lemma journal_rebuilds:
  assumes "apply_command lib procedure_state_default journal = Ok s" and "sorted_wrt (<) (map snd journal)"
    and "length journal < 2 ^ 32" and "\<forall>(p, _) \<in> set journal. \<forall>v. p = ProcedureRevisionRecorded v \<longrightarrow> procedure_revision_validate v = Ok ()"
  shows "tables_keyed s \<and> rebuilds lib s \<and> used_seqs s \<subseteq> set (map snd journal) \<and> generations_led (length journal) s"
  using assms
proof (induction journal arbitrary: s rule: rev_induct)
  case Nil
  then have "s = procedure_state_default" by (simp add: apply_command_def)
  moreover have "rebuilds lib procedure_state_default"
    by (simp add: rebuilds_def procedure_state_default_def btm_values_def seq_sorted_def index_negatives_def)
  moreover have "used_seqs procedure_state_default = {}"
    by (simp add: used_seqs_def procedure_state_default_def seqs_of_def btm_values_def)
  moreover have "generations_led 0 procedure_state_default"
    by (simp add: generations_led_def procedure_state_default_def btm_values_def)
  ultimately show ?case by (simp add: default_keyed)
next
  case (snoc x journal)
  obtain p seq where x: "x = (p, seq)" by (cases x)
  from snoc.prems(1) obtain t b where t: "apply_command lib procedure_state_default journal = Ok t"
    "procedure_state_apply lib t p seq = Ok (b, s)"
    by (auto simp: apply_command_def replay_append x result_simps)
  note ih = snoc.IH [OF t(1)]
  from ih snoc.prems have inv: "tables_keyed t" "rebuilds lib t" "used_seqs t \<subseteq> set (map snd journal)" "generations_led (length journal) t"
    by (simp_all add: sorted_wrt_append)
  have bound: "\<forall>q \<in> used_seqs t. q < seq" using inv(3) snoc.prems(2) by (auto simp: x sorted_wrt_append)
  note s = apply_effect [OF t(2)]
  have "tables_keyed s" unfolding s by (rule effect_keyed [OF inv(1)])
  moreover have "used_seqs s \<subseteq> set (map snd (journal @ [x]))" unfolding s using used_seqs_effect [of t p seq] inv(3) by (auto simp: x)
  moreover have "rebuilds lib s \<and> generations_led (length (journal @ [x])) s"
  proof (cases "\<exists>v. p = ProcedureRevisionRecorded v")
    case True
    then obtain v where v: "p = ProcedureRevisionRecorded v" by blast
    with t(2) have a: "apply_revision t v seq = Ok s" by (auto simp: result_simps)
    have n: "length journal < 2 ^ 32 - 1" using snoc.prems(3) by simp
    have "procedure_revision_validate v = Ok ()" using snoc.prems(4) by (simp add: x v)
    with rebuilds_revision [OF inv(2) a _ bound inv(4) n] generations_led_effect(1) [OF a inv(4) n] show ?thesis by simp
  next
    case False
    then have "ps_procedures (payload_effect t p seq) = ps_procedures t" "ps_revisions (payload_effect t p seq) = ps_revisions t"
      by (cases p; simp)+
    then have "ps_procedures s = ps_procedures t" "ps_revisions s = ps_revisions t" unfolding s .
    with generations_led_mono [OF inv(4)] have "generations_led (length (journal @ [x])) s" by simp
    moreover have "rebuilds lib s"
    proof (cases p)
      case (ProcedureStateRecorded v)
      with t(2) have "apply_state_event t v seq = Ok s" by (auto simp: result_simps)
      with rebuilds_event [OF inv(2) _ bound] show ?thesis .
    next
      case (ProcedureUsageRecorded v)
      with t(2) have "apply_usage t v seq = Ok s" by (auto simp: result_simps)
      with rebuilds_usage [OF inv(2) _ bound] show ?thesis .
    next
      case (ProcedureNegativeEvidenceRecorded v)
      with t(2) have "apply_negative t v seq = Ok s" by (auto simp: result_simps)
      with rebuilds_negative [OF inv(2)] show ?thesis .
    next
      case (ProcedureNegativeReviewRecorded v)
      with t(2) have "apply_negative_review lib t v seq = Ok s" by (auto simp: result_simps)
      with rebuilds_review [OF inv(2) _ bound] show ?thesis .
    qed (use False s inv(2) in auto)
    ultimately show ?thesis by simp
  qed
  ultimately show ?case by simp
qed

section \<open>Restoring rows\<close>

fun payload_usage :: "procedure_payload \<Rightarrow> procedure_usage_revision option" where
  "payload_usage (ProcedureUsageRecorded value) = Some value"
| "payload_usage _ = None"

definition entries :: "(procedure_payload \<Rightarrow> 'v option) \<Rightarrow> (procedure_payload \<times> u64) list \<Rightarrow> ('v \<times> u64) list" where
  "entries f rows = List.map_filter (\<lambda>(p, q). map_option (\<lambda>v. (v, q)) (f p)) rows"

text \<open>The payloads a state stores, in the order of its rows.\<close>

definition stored_payloads :: "procedure_state \<Rightarrow> (procedure_payload \<times> u64) list" where
  "stored_payloads s = map (map_prod ProcedureRevisionRecorded id) (btm_values (ps_revisions s))
    @ map (map_prod ProcedureStateRecorded id) (btm_values (ps_events s))
    @ map (map_prod ProcedureUsageRecorded id) (btm_values (ps_usage_revisions s))
    @ map (map_prod ProcedureNegativeEvidenceRecorded id) (btm_values (ps_negative_evidence s))
    @ map (map_prod ProcedureNegativeReviewRecorded id) (btm_values (ps_negative_reviews s))"

lemma entries_simps [simp]:
  "entries f [] = []"
  "entries f ((p, q) # rows) = (case f p of None \<Rightarrow> entries f rows | Some v \<Rightarrow> (v, q) # entries f rows)"
  "entries f (xs @ ys) = entries f xs @ entries f ys"
  by (simp_all add: entries_def List.map_filter_def split: option.splits)

lemma entries_tagged: "(\<And>v. f (C v) = Some v) \<Longrightarrow> entries f (map (map_prod C id) xs) = xs"
  by (induction xs) auto

lemma entries_other: "(\<And>v. f (C v) = None) \<Longrightarrow> entries f (map (map_prod C id) xs) = []"
  by (induction xs) auto

lemma entries_stored [simp]:
  "entries payload_revision (stored_payloads s) = btm_values (ps_revisions s)"
  "entries payload_state_event (stored_payloads s) = btm_values (ps_events s)"
  "entries payload_usage (stored_payloads s) = btm_values (ps_usage_revisions s)"
  "entries payload_negative (stored_payloads s) = btm_values (ps_negative_evidence s)"
  "entries payload_review (stored_payloads s) = btm_values (ps_negative_reviews s)"
  by (simp_all add: stored_payloads_def entries_tagged entries_other)

lemma entries_mset: "mset xs = mset ys \<Longrightarrow> mset (entries f xs) = mset (entries f ys)"
  by (simp add: entries_def List.map_filter_def)

abbreviation insert_all :: "('v \<Rightarrow> 'k::linorder) \<Rightarrow> ('v \<times> u64) list \<Rightarrow> ('k, 'v \<times> u64) btree_map \<Rightarrow> ('k, 'v \<times> u64) btree_map" where
  "insert_all id_of xs \<equiv> fold (\<lambda>x. btm_insert (id_of (fst x)) x) xs"

definition fresh_entries :: "('v \<Rightarrow> 'k::linorder) \<Rightarrow> ('v \<times> u64) list \<Rightarrow> ('k, 'v \<times> u64) btree_map \<Rightarrow> bool" where
  "fresh_entries id_of xs m \<longleftrightarrow> distinct (map (id_of \<circ> fst) xs) \<and> (\<forall>x \<in> set xs. \<not> btm_contains_key m (id_of (fst x)))"

lemma fresh_entries_Cons [simp]:
  "fresh_entries id_of ((v, q) # xs) m \<longleftrightarrow> \<not> btm_contains_key m (id_of v) \<and> fresh_entries id_of xs (btm_insert (id_of v) (v, q) m)"
  by (auto simp: fresh_entries_def btm_contains_key_def image_iff split: if_splits)

lemma restore_all:
  assumes "\<forall>(p, _) \<in> set rows. p \<noteq> OtherProcedurePayload \<and> (\<forall>v. p \<noteq> RevisionProposalRecorded v)"
    and "fresh_entries pr_revision_id (entries payload_revision rows) (ps_revisions s)"
    and "fresh_entries pv_state_event_id (entries payload_state_event rows) (ps_events s)"
    and "fresh_entries pu_usage_revision_id (entries payload_usage rows) (ps_usage_revisions s)"
    and "fresh_entries ne_negative_evidence_id (entries payload_negative rows) (ps_negative_evidence s)"
    and "fresh_entries nr_review_event_id (entries payload_review rows) (ps_negative_reviews s)"
  shows "\<exists>index. replay (\<lambda>s (p, q). procedure_state_restore s p q) s rows = Ok (s
    \<lparr>ps_revisions := insert_all pr_revision_id (entries payload_revision rows) (ps_revisions s),
     ps_events := insert_all pv_state_event_id (entries payload_state_event rows) (ps_events s),
     ps_usage_revisions := insert_all pu_usage_revision_id (entries payload_usage rows) (ps_usage_revisions s),
     ps_negative_evidence := insert_all ne_negative_evidence_id (entries payload_negative rows) (ps_negative_evidence s),
     ps_negative_evidence_by_revision := index,
     ps_negative_reviews := insert_all nr_review_event_id (entries payload_review rows) (ps_negative_reviews s)\<rparr>)"
  using assms
proof (induction rows arbitrary: s)
  case Nil
  show ?case by (intro exI [of _ "ps_negative_evidence_by_revision s"]) simp
next
  case (Cons x rows)
  obtain p q where x: "x = (p, q)" by (cases x)
  from Cons.prems obtain s' where s': "procedure_state_restore s p q = Ok s'" by (cases p) (auto simp: x)
  have "\<forall>(p, _) \<in> set rows. p \<noteq> OtherProcedurePayload \<and> (\<forall>v. p \<noteq> RevisionProposalRecorded v)" using Cons.prems(1) by simp
  note ih = Cons.IH [OF this, of s']
  show ?case using Cons.prems s' ih by (cases p) (auto simp: x)
qed

lemma insert_all_keyed:
  assumes "keyed id_of m" and "mset xs = mset (btm_values m)"
  shows "insert_all id_of xs [] = m"
proof (rule btm_ext)
  fix k
  have mem: "x \<in> set xs \<and> id_of (fst x) = k \<longleftrightarrow> btm_get m k = Some x" for x
    using keyed_values [OF assms(1), of "fst x" "snd x"] keyedD [OF assms(1), of k "fst x" "snd x"] mset_eq_setD [OF assms(2)] by auto
  let ?own = "filter (\<lambda>x. id_of (fst x) = k) xs"
  show "btm_get (insert_all id_of xs []) k = btm_get m k"
  proof (cases "?own = []")
    case True
    with mem have "btm_get m k = None" by (metis (mono_tags, lifting) filter_empty_conv not_None_eq)
    with True show ?thesis by (simp add: get_fold_insert)
  next
    case False
    then have "last ?own \<in> set ?own" by (rule last_in_set)
    with mem [of "last ?own"] False show ?thesis by (simp add: get_fold_insert)
  qed
qed (use assms(1) in \<open>simp_all add: sorted_fold_insert keyed_def\<close>)

lemma fresh_entries_keyed:
  assumes "keyed id_of m" and "mset xs = mset (btm_values m)"
  shows "fresh_entries id_of xs []"
proof -
  have "distinct (map (id_of \<circ> fst) (btm_values m))"
    using assms(1) keyed_ids [OF assms(1)] btm_sorted_distinct [of m] by (simp add: keyed_def)
  then have "distinct (map (id_of \<circ> fst) xs)" using assms(2) by (metis mset_eq_imp_distinct_iff mset_map)
  then show ?thesis by (simp add: fresh_entries_def btm_contains_key_def)
qed

lemma restore_stored:
  assumes "tables_keyed s" and "mset rows = mset (stored_payloads s)"
  obtains index where "replay (\<lambda>s (p, q). procedure_state_restore s p q) procedure_state_default rows = Ok (procedure_state_default
    \<lparr>ps_revisions := ps_revisions s, ps_events := ps_events s, ps_usage_revisions := ps_usage_revisions s,
     ps_negative_evidence := ps_negative_evidence s, ps_negative_evidence_by_revision := index, ps_negative_reviews := ps_negative_reviews s\<rparr>)"
proof -
  note k = assms(1) [unfolded tables_keyed_def]
  have ms: "mset (entries payload_revision rows) = mset (btm_values (ps_revisions s))"
    "mset (entries payload_state_event rows) = mset (btm_values (ps_events s))"
    "mset (entries payload_usage rows) = mset (btm_values (ps_usage_revisions s))"
    "mset (entries payload_negative rows) = mset (btm_values (ps_negative_evidence s))"
    "mset (entries payload_review rows) = mset (btm_values (ps_negative_reviews s))"
    using entries_mset [OF assms(2)] by (metis entries_stored)+
  have kinds: "\<forall>(p, _) \<in> set rows. p \<noteq> OtherProcedurePayload \<and> (\<forall>v. p \<noteq> RevisionProposalRecorded v)"
    using mset_eq_setD [OF assms(2)] by (auto simp: stored_payloads_def)
  have "\<exists>index. replay (\<lambda>s (p, q). procedure_state_restore s p q) procedure_state_default rows = Ok (procedure_state_default
    \<lparr>ps_revisions := ps_revisions s, ps_events := ps_events s, ps_usage_revisions := ps_usage_revisions s,
     ps_negative_evidence := ps_negative_evidence s, ps_negative_evidence_by_revision := index, ps_negative_reviews := ps_negative_reviews s\<rparr>)"
    using restore_all [OF kinds, of procedure_state_default] k
    by (simp add: procedure_state_default_def fresh_entries_keyed [OF _ ms(1)] fresh_entries_keyed [OF _ ms(2)] fresh_entries_keyed [OF _ ms(3)]
      fresh_entries_keyed [OF _ ms(4)] fresh_entries_keyed [OF _ ms(5)] insert_all_keyed [OF _ ms(1)] insert_all_keyed [OF _ ms(2)]
      insert_all_keyed [OF _ ms(3)] insert_all_keyed [OF _ ms(4)] insert_all_keyed [OF _ ms(5)])
  then show thesis using that by blast
qed

lemma rebuild_restored:
  assumes "rebuilds lib s" and "t = procedure_state_default
    \<lparr>ps_revisions := ps_revisions s, ps_events := ps_events s, ps_usage_revisions := ps_usage_revisions s,
     ps_negative_evidence := ps_negative_evidence s, ps_negative_evidence_by_revision := index, ps_negative_reviews := ps_negative_reviews s\<rparr>"
  shows "procedure_state_rebuild lib t =
    (if \<exists>i. btm_contains_key (ps_revisions s) i \<and> \<not> btm_contains_key (ps_current_publication s) i then Err StoreCorrupt else Ok s)"
proof -
  note r = assms(1) [unfolded rebuilds_def seq_sorted_def]
  have keys: "list_ex (\<lambda>i. \<not> btm_contains_key (ps_current_publication s) i) (btm_keys (ps_revisions s))
      \<longleftrightarrow> (\<exists>i. btm_contains_key (ps_revisions s) i \<and> \<not> btm_contains_key (ps_current_publication s) i)"
    using btm_fresh [of "ps_revisions s"] by (auto simp: list_ex_iff btm_keys_def)
  let ?t1 = "t\<lparr>ps_procedures := ps_procedures s, ps_current_publication := ps_current_publication s\<rparr>"
  let ?t2 = "?t1\<lparr>ps_usages := ps_usages s\<rparr>"
  have pubs: "rebuild_publications t = (if \<exists>i. btm_contains_key (ps_revisions s) i \<and> \<not> btm_contains_key (ps_current_publication s) i
      then Err StoreCorrupt else Ok ?t1)"
    using r by (simp add: rebuild_publications_def assms(2) keys)
  have usages: "rebuild_usages ?t1 = Ok ?t2"
    using r by (simp add: rebuild_usages_def replay_usage_step assms(2))
  have env: "review_step lib (?t2\<lparr>ps_current_negative_reviews := [], ps_negative_reviews := []\<rparr>) = review_step lib s"
    by (rule review_step_env) (simp_all add: assms(2))
  have bad: "negative_usage_bad (?t2\<lparr>ps_current_negative_reviews := ps_current_negative_reviews s, ps_negative_reviews := ps_negative_reviews s\<rparr>)
      = negative_usage_bad s" by (intro ext) (simp add: negative_usage_bad_def)
  have "rebuild_reviews lib ?t2 = Ok s"
    using r env bad by (auto simp: rebuild_reviews_def replay_review_step assms(2) list_ex_iff)
  with pubs usages show ?thesis by (simp add: procedure_state_rebuild_def)
qed

text \<open>
  C18. Restoring and rebuilding gives back what was recorded: for a journal of procedure events with
  increasing sequence numbers and valid revisions, restoring the stored rows of the resulting
  tables in any order and rebuilding succeeds with exactly these tables, unless a revision
  has no publication, and then it is refused.
\<close>
theorem procedure_rebuild_exact:
  assumes "apply_command lib procedure_state_default journal = Ok s" and "sorted_wrt (<) (map snd journal)"
    and "length journal < 2 ^ 32" and "\<forall>(p, _) \<in> set journal. \<forall>v. p = ProcedureRevisionRecorded v \<longrightarrow> procedure_revision_validate v = Ok ()"
    and "mset rows = mset (stored_payloads s)"
  shows "and_then (replay (\<lambda>s (p, q). procedure_state_restore s p q) procedure_state_default rows) (procedure_state_rebuild lib)
    = (if \<exists>i. btm_contains_key (ps_revisions s) i \<and> \<not> btm_contains_key (ps_current_publication s) i then Err StoreCorrupt else Ok s)"
proof -
  from journal_rebuilds [OF assms(1-4)] have s: "tables_keyed s" "rebuilds lib s" by simp_all
  from restore_stored [OF s(1) assms(5)] obtain index where
    "replay (\<lambda>s (p, q). procedure_state_restore s p q) procedure_state_default rows = Ok (procedure_state_default
      \<lparr>ps_revisions := ps_revisions s, ps_events := ps_events s, ps_usage_revisions := ps_usage_revisions s,
       ps_negative_evidence := ps_negative_evidence s, ps_negative_evidence_by_revision := index, ps_negative_reviews := ps_negative_reviews s\<rparr>)" .
  with rebuild_restored [OF s(2) refl, of index] show ?thesis by (simp only: and_then.simps)
qed

section \<open>Samples\<close>

definition sample_event :: "revision_id \<Rightarrow> revision_id \<Rightarrow> procedure_publication_state option \<Rightarrow> procedure_publication_state
    \<Rightarrow> procedure_state_reason \<Rightarrow> procedure_state_event" where
  "sample_event i r from_state to_state reason = \<lparr>pv_state_event_id = i, pv_procedure_revision_id = r, pv_from_state = from_state,
    pv_to_state = to_state, pv_reason = reason, pv_resume_state = None, pv_evidence_refs = [''e''], pv_created_at_us = 6\<rparr>"

abbreviation sample_accepted_event :: procedure_state_event where
  "sample_accepted_event \<equiv> sample_event 20 2 None PubActiveProbationary ReasonAccepted"

abbreviation sample_harm_event :: procedure_state_event where
  "sample_harm_event \<equiv> sample_event 21 2 (Some PubActiveProbationary) PubSuspended ReasonConfirmedHarm"

definition sample_published :: procedure_state where
  "sample_published = procedure_state_default\<lparr>ps_procedures := [(1, (sample_procedure, 1))], ps_revisions := [(2, (sample_procedure, 1))],
    ps_events := [(20, (sample_accepted_event, 2))], ps_current_publication := [(2, (sample_accepted_event, 2))]\<rparr>"

definition sample_suspended :: procedure_state where
  "sample_suspended = sample_published\<lparr>ps_events := [(20, (sample_accepted_event, 2)), (21, (sample_harm_event, 3))],
    ps_current_publication := [(2, (sample_harm_event, 3))]\<rparr>"

lemma sample_events_valid:
  "procedure_state_event_validate sample_accepted_event = Ok ()" "procedure_state_event_validate sample_harm_event = Ok ()"
  by (simp_all add: procedure_state_event_validate_def sample_event_def sample_procedure_texts transition_allowed_def publication_edges_def)

lemma sample_applied:
  "procedure_state_apply sample_uuid_lib procedure_state_default (ProcedureRevisionRecorded sample_procedure) 1
    = Ok (True, procedure_state_default\<lparr>ps_procedures := [(1, (sample_procedure, 1))], ps_revisions := [(2, (sample_procedure, 1))]\<rparr>)"
  "procedure_state_apply sample_uuid_lib (procedure_state_default\<lparr>ps_procedures := [(1, (sample_procedure, 1))],
      ps_revisions := [(2, (sample_procedure, 1))]\<rparr>) (ProcedureStateRecorded sample_accepted_event) 2 = Ok (True, sample_published)"
  "procedure_state_apply sample_uuid_lib sample_published (ProcedureStateRecorded sample_harm_event) 3 = Ok (True, sample_suspended)"
  by (simp_all add: apply_revision_def apply_state_event_def validate_publication_event_def sample_events_valid btm_contains_key_def)
    (simp_all add: procedure_state_default_def sample_published_def sample_suspended_def sample_procedure_def sample_event_def
      btm_get_def btm_values_def)

theorem confirmed_harm_final_witness:
  "ps_publication sample_suspended 2 \<in> {Some PubSuspended, Some PubRolledBack, Some PubSuperseded}"
proof -
  have "procedure_reachable sample_uuid_lib sample_suspended"
    by (rule reachable_apply [OF reachable_apply [OF reachable_apply [OF reachable_start sample_applied(1)] sample_applied(2)] sample_applied(3)])
  moreover have "btm_get (ps_events sample_suspended) 21 = Some (sample_harm_event, 3)" by (simp add: sample_suspended_def btm_get_def)
  ultimately have "ps_publication sample_suspended (pv_procedure_revision_id sample_harm_event) \<in> {Some PubSuspended, Some PubRolledBack, Some PubSuperseded}"
    by (rule confirmed_harm_final) (simp_all add: sample_event_def)
  then show ?thesis by (simp add: sample_event_def)
qed

theorem procedure_rebuild_exact_witness:
  "and_then (replay (\<lambda>s (p, q). procedure_state_restore s p q) procedure_state_default
      [(ProcedureStateRecorded sample_accepted_event, 2), (ProcedureRevisionRecorded sample_procedure, 1)])
    (procedure_state_rebuild sample_uuid_lib) = Ok sample_published"
proof -
  let ?journal = "[(ProcedureRevisionRecorded sample_procedure, 1), (ProcedureStateRecorded sample_accepted_event, 2)]"
  have applied: "apply_command sample_uuid_lib procedure_state_default ?journal = Ok sample_published"
    by (simp add: apply_command_def sample_applied del: procedure_state_apply.simps)
  have "procedure_revision_validate sample_procedure = Ok ()"
    by (simp add: procedure_revision_validate_def sample_procedure_def sample_draft_valid)
  then have valid: "\<forall>(p, _) \<in> set ?journal. \<forall>v. p = ProcedureRevisionRecorded v \<longrightarrow> procedure_revision_validate v = Ok ()" by simp
  have rows: "mset [(ProcedureStateRecorded sample_accepted_event, 2), (ProcedureRevisionRecorded sample_procedure, 1)]
      = mset (stored_payloads sample_published)"
    by (simp add: stored_payloads_def sample_published_def procedure_state_default_def btm_values_def)
  have "\<not> (\<exists>i. btm_contains_key (ps_revisions sample_published) i \<and> \<not> btm_contains_key (ps_current_publication sample_published) i)"
    by (auto simp: sample_published_def btm_contains_key_def btm_get_def split: if_splits)
  with procedure_rebuild_exact [OF applied _ _ valid rows] show ?thesis by (simp del: replay.simps)
qed

text \<open>A stable procedure on hold for suspected harm, and the command that dismisses the attribution.\<close>

definition sample_held_event :: procedure_state_event where
  "sample_held_event = \<lparr>pv_state_event_id = 40, pv_procedure_revision_id = 3, pv_from_state = Some PubActiveStable,
    pv_to_state = PubReviewHold, pv_reason = ReasonSuspectedHarm, pv_resume_state = Some PubActiveStable,
    pv_evidence_refs = [uuid_id_to_string sample_uuid_lib ''pneg'' 10], pv_created_at_us = 2\<rparr>"

definition sample_resume_event :: procedure_state_event where
  "sample_resume_event = \<lparr>pv_state_event_id = 41, pv_procedure_revision_id = 3, pv_from_state = Some PubReviewHold,
    pv_to_state = PubActiveStable, pv_reason = ReasonManual, pv_resume_state = None,
    pv_evidence_refs = [uuid_id_to_string sample_uuid_lib ''pneg'' 10], pv_created_at_us = 3\<rparr>"

definition sample_review :: procedure_negative_review_event where
  "sample_review = \<lparr>nr_review_event_id = 30, nr_negative_evidence_id = 10, nr_predecessor_review_event_id = None,
    nr_review_generation = 1, nr_status = ReviewPending, nr_successor_usage_revision_id = None, nr_reason = ''r'',
    nr_evidence_refs = [''e''], nr_created_at_us = 2\<rparr>"

definition sample_dismissal :: procedure_negative_review_event where
  "sample_dismissal = sample_review\<lparr>nr_review_event_id := 31, nr_predecessor_review_event_id := Some 30, nr_review_generation := 2,
    nr_status := ReviewDismissed, nr_reason := ''dismiss_attribution'', nr_created_at_us := 3\<rparr>"

definition sample_suspicion :: procedure_negative_evidence where
  "sample_suspicion = sample_negative\<lparr>ne_level := NegSuspectedHarm, ne_attribution_basis := BasisContextUnbounded\<rparr>"

definition sample_held :: procedure_state where
  "sample_held = procedure_state_default\<lparr>ps_events := [(40, (sample_held_event, 5))], ps_current_publication := [(3, (sample_held_event, 5))],
    ps_negative_evidence := [(10, (sample_suspicion, 4))], ps_negative_evidence_by_revision := [(3, [10])],
    ps_negative_reviews := [(30, (sample_review, 4))], ps_current_negative_reviews := [(10, (sample_review, 4))]\<rparr>"

abbreviation sample_dismiss_payloads :: "procedure_payload list" where
  "sample_dismiss_payloads \<equiv> [ProcedureNegativeReviewRecorded sample_dismissal, ProcedureStateRecorded sample_resume_event]"

lemma sample_manual_ok: "cohort_manual_ok sample_uuid_lib sample_held sample_dismiss_payloads sample_resume_event"
proof (cases "uuid_id_from_str sample_uuid_lib ''pneg'' (pv_evidence_refs sample_resume_event ! 0)")
  case (Inr i)
  show ?thesis
  proof (cases "i = 10")
    case True
    then show ?thesis using Inr
      by (simp add: cohort_manual_ok_def List.map_filter_def) (simp add: sample_dismissal_def sample_review_def)
  next
    case False
    then show ?thesis using Inr by (simp add: cohort_manual_ok_def sample_held_def btm_contains_key_def btm_get_def)
  qed
qed (simp add: cohort_manual_ok_def)

lemma sample_dismissal_accepted:
  "validate_command_cohort sample_uuid_lib sample_held [] {} sample_dismiss_payloads = Ok ()"
proof -
  have "cohort_later_review_ok sample_uuid_lib sample_held sample_dismiss_payloads sample_dismissal"
    by (simp add: cohort_later_review_ok_def sample_dismissal_def sample_review_def sample_held_def btm_get_def
        negative_review_action_reason_parse_def review_expected_state_def held_publication_def resumed_state_def List.map_filter_def
        review_states_ok_def review_states_def)
      (simp add: sample_held_event_def sample_suspicion_def sample_negative_def sample_resume_event_def
        review_states_ok_def review_states_def List.map_filter_def)
  moreover have "pv_reason sample_resume_event = ReasonManual" "nr_review_generation sample_dismissal = 2"
    by (simp_all add: sample_resume_event_def sample_dismissal_def)
  ultimately show ?thesis
    using sample_manual_ok by (simp add: validate_command_cohort_def List.map_filter_def)
qed

theorem stable_hold_not_resumable_witness:
  "validate_command_cohort sample_uuid_lib sample_held [] {} sample_dismiss_payloads = Ok ()
    \<and> (\<nexists>t. apply_command sample_uuid_lib sample_held
        [(ProcedureNegativeReviewRecorded sample_dismissal, 6), (ProcedureStateRecorded sample_resume_event, 7)] = Ok t)"
proof -
  have "btm_get (ps_negative_evidence sample_held) (nr_negative_evidence_id sample_dismissal) = Some (sample_suspicion, 4)"
    "btm_get (ps_current_publication sample_held) (ne_procedure_revision_id sample_suspicion) = Some (sample_held_event, 5)"
    by (simp_all add: sample_held_def sample_dismissal_def sample_review_def sample_suspicion_def sample_negative_def btm_get_def)
  from stable_hold_not_resumable [OF sample_dismissal_accepted _ _ _ this(1) _ _ this(2)] sample_dismissal_accepted
  show ?thesis
    by (simp add: sample_dismissal_def sample_suspicion_def sample_negative_def sample_held_event_def)
qed

end
