(* ===== verification/Spec2Isabelle.thy ===== *)
theory Spec2Isabelle
  imports Spool_Frame Episode_Work Attempt_Work Binding_Work Resolver Purge Procedure_Store
begin

text \<open>
  \<^bold>\<open>EverTrace: a verification development\<close>

  EverTrace watches a coding agent at work and keeps what it did and what it learned: a hook
  process writes captured records to a spool, a daemon reads them into a journal, projects the
  journal into tables, segments the stream of operations into bursts and episodes, binds
  operations to tasks, workstreams and attempts, and distils atoms (norms and facts) and
  procedures that a person reviews through proposals. This development models the core of the
  crates under \<open>src/crates\<close> as HOL functions, one theory for each source module, and
  proves what the modules promise each other.

  \<^bold>\<open>Conventions.\<close> Structs are records and enums are datatypes with the source's fields and variants;
  a prefix tells equal field names apart. \<open>Result\<close> is the sum type with \<open>Err\<close> on the left and every
  early return is a branch. Integers are words of their width, \<open>i64\<close> compares with \<open>sint\<close>, and
  unchecked arithmetic wraps; lengths are \<open>nat\<close>. A \<open>String\<close> is the list of its UTF-8 bytes. A \<open>BTreeSet\<close>
  is a strictly sorted list, a \<open>BTreeMap\<close> that is iterated an association list in key order. A
  function that returns an error yields no state: in the source the caller drops it.

  \<^bold>\<open>Parameters.\<close> Code outside the repository is an argument of the definitions that use it: the SHA-256
  digest (any function on bytes; results that need it name the collision instead of
  excluding it), the \<open>uuid\<close> crate (\<open>uuid_lib\<close>, with \<open>uuid_lib_ok\<close> stating that its text is 36 bytes long and
  parses back, and \<open>sample_uuid_lib\<close> showing that this can hold), fresh identifiers, the clock,
  and the JSON and TOML readers and writers.

  \<^bold>\<open>Theories and sources.\<close>

  \<^item> \<open>Prelude\<close>, \<open>Work_Base\<close>, \<open>Store_Base\<close>: the shared vocabulary. \<open>Prelude\<close> has the standard library and the
    locale \<open>wire_codec\<close>; \<open>Work_Base\<close> has the identifier types, bounded texts and the locales
    \<open>revision_chain\<close> and \<open>absorbing_chain\<close> for objects with successor checks; \<open>Store_Base\<close> has ordered maps,
    \<open>replay\<close> and the locale \<open>keyed_replace\<close> for recording under an identifier.
  \<^item> \<open>Canonical\<close> (\<open>evertrace-domain/src/canonical.rs\<close>), \<open>Identifiers\<close> (\<open>ids.rs\<close>, \<open>revision.rs\<close>),
    \<open>Spool_Frame\<close> (\<open>evertrace-capture/src/frame.rs\<close>): the canonical encoding, the
    identifier texts and the spool frames with the scan that recovers them after a crash.
  \<^item> \<open>Lane_Capture\<close> (\<open>work.rs\<close>), \<open>Work_Objects\<close> (\<open>work/task.rs\<close>), \<open>Burst\<close>, \<open>Episode\<close>, \<open>Attempt\<close>, \<open>Checkpoint\<close>
    (the other files of \<open>work/\<close>), \<open>Evidence\<close> (\<open>evidence.rs\<close>), \<open>Repository\<close> (\<open>repository.rs\<close>): the objects of
    work, each with its validator and the transitions its revisions may take.
  \<^item> \<open>Seg_Token\<close>, \<open>Burst_Folder\<close>, \<open>Detector\<close>, \<open>Segmenter\<close> (\<open>evertrace-engine/src/segmentation/\<close>): compiling
    tokens, folding them into bursts, detecting boundaries, and the two-phase segmenter
    that prepares a step, waits for its commit and acknowledges it.
  \<^item> \<open>Seg_Store\<close>, \<open>Episode_Relations\<close> (\<open>evertrace-store/src/projections/segmentation.rs\<close>), \<open>Work_Store\<close>
    (work tables of \<open>projections.rs\<close>), \<open>Repo_Store\<close> (\<open>repository.rs\<close>, relation rows), \<open>Object_Rows\<close> (\<open>objects.rs\<close>):
    recording, rebuilding and checking the tables of the store.
  \<^item> \<open>Work_Command\<close> (work part of \<open>command.rs\<close>; \<open>work/task.rs\<close> and \<open>work/workstream.rs\<close> of the engine),
    \<open>Binding_Work\<close>, \<open>Attempt_Work\<close>, \<open>Episode_Work\<close>: the engine's operations that build the
    commands the store admits.
  \<^item> \<open>Constraint\<close>, \<open>Atom\<close>, \<open>Result_Evidence\<close>, \<open>Proposal\<close> (\<open>evertrace-domain/src/semantic/\<close> and \<open>semantic.rs\<close>),
    \<open>Resolver\<close> (\<open>evertrace-engine/src/semantic/resolver.rs\<close>): conditions with three-valued
    evaluation, atoms, results, proposals, and which norms govern and which facts hold.
  \<^item> \<open>Procedure\<close> (\<open>procedure.rs\<close>), \<open>Procedure_Usage\<close> (\<open>procedure/usage.rs\<close>), \<open>Purge\<close> (\<open>purge.rs\<close>): procedures, how
    they are used and what speaks against them, deletion and purging. \<open>Procedure_Store\<close>
    (\<open>evertrace-store/src/projections/procedure.rs\<close>): the tables of procedures, their publication, usages and harm reviews.

  \<^bold>\<open>What is shown.\<close> Of the spool: a scan returns exactly the frames written before a crash and
  reports the torn rest. Of the encoding and the fingerprints built on it: equal digests mean equal
  objects unless two byte strings with one digest have been found. Of the segmenter: every reachable
  state is consistent, in every run the acknowledged steps are the prepared ones, each folded in once and
  shown committed, bursts partition the tokens, a boundary is confirmed only by a second observation, and a committed step is acknowledged.
  Of the store: recording refines an append-only history, rebuilding from rows in any order gives the
  incremental tables, admission agrees with replay, and the relation checks are exact for
  the closure, ownership and acyclicity they are meant to enforce. Of the semantic memory: evaluation of
  conditions is sound for every state of the world that agrees with the observations, and exact when no field is
  mentioned twice; resolution computes a reference definition, atoms and procedures never widen their scope or authority along a history, accepted
  proposals were reviewed as they are, and a purge goes only forward and ends. Of the procedure
  tables: rebuilding them from their rows gives back what was recorded, and confirmed harm is final.
  Some theorems state what the code does although it means otherwise: a restart loses an extended boundary
  candidate, a split child is frozen, a linked binding cannot be resolved, a saved checkpoint is not
  repeatable, and no review lifts the hold of a stable procedure.

  \<^bold>\<open>Termination and bounds.\<close> Loops are structural recursions or folds. The exceptions carry measures: the scan of
  the spool by the bytes left, the binary search of \<open>integer_sqrt\<close> by the width of its
  interval, the depth-first searches by the nodes not yet visited. No definition uses fuel. Histories whose length the
  validators limit have that limit proved (results, purges).

  \<^bold>\<open>Not modelled.\<close> The SQL and LanceDB writers, Arrow schemas, files, locks and sockets (input and output through
  third-party code); decoding of rows with \<open>serde_json\<close>; the other projection tables and
  the effect rows of procedures; scheduling of jobs, maintenance and the language-model provider; search
  indices; the command line and the terminal interface; the test kit. What is modelled
  only in part is marked so in the manifest with what is missing.
\<close>

end
